(* ===== verification/Go_Prelude.thy ===== *)
theory Go_Prelude
  imports Main "HOL-Library.Sublist" "HOL-Library.Multiset"
begin

section \<open>Prelude: Go values, the part of package strings the program uses, shared lemmas\<close>

text \<open>
  A Go \<^verbatim>\<open>string\<close> is a sequence of bytes, so it is a HOL \<open>string\<close> (a list of 8-bit characters)
  byte for byte; \<^verbatim>\<open>len\<close> is \<open>length\<close>. An operation that can fail returns a sum whose left
  side is the error. A Go \<^verbatim>\<open>map\<close> used as a set of seen keys is the list or set of those keys.

  The functions below keep the names of package \<^verbatim>\<open>strings\<close>. \<open>TrimSpace\<close> removes every code
  point of \<^verbatim>\<open>unicode.IsSpace\<close> in its UTF-8 form. \<open>ToLower\<close>, \<open>ToUpper\<close> and \<open>EqualFold\<close> map
  the ASCII letters and leave every other byte alone; the case mapping of code points outside
  ASCII is not modelled, and the identifiers the program folds (roles, verbs, kinds, states)
  are ASCII.
\<close>

named_theorems go_string_simps \<open>characterisations of the package strings functions\<close>
named_theorems go_result_simps \<open>case analysis of results\<close>

type_synonym ('e, 'a) result = "'e + 'a"

subsection \<open>Results\<close>

fun bind_result :: "('e, 'a) result \<Rightarrow> ('a \<Rightarrow> ('e, 'b) result) \<Rightarrow> ('e, 'b) result" where
  "bind_result (Inl e) f = Inl e"
| "bind_result (Inr a) f = f a"

fun is_ok :: "('e, 'a) result \<Rightarrow> bool" where
  "is_ok (Inl e) = False"
| "is_ok (Inr a) = True"

lemma bind_result_Inr_iff [go_result_simps]:
  "bind_result r f = Inr b \<longleftrightarrow> (\<exists>a. r = Inr a \<and> f a = Inr b)"
  by (cases r) auto

lemma bind_result_Inl_iff [go_result_simps]:
  "bind_result r f = Inl e \<longleftrightarrow> r = Inl e \<or> (\<exists>a. r = Inr a \<and> f a = Inl e)"
  by (cases r) auto

lemma is_ok_iff [go_result_simps]: "is_ok r \<longleftrightarrow> (\<exists>a. r = Inr a)"
  by (cases r) auto

subsection \<open>Prefixes, suffixes, substrings\<close>

definition HasPrefix :: "string \<Rightarrow> string \<Rightarrow> bool" where
  "HasPrefix s p = (take (length p) s = p)"

definition HasSuffix :: "string \<Rightarrow> string \<Rightarrow> bool" where
  "HasSuffix s p = (length p \<le> length s \<and> drop (length s - length p) s = p)"

definition TrimPrefix :: "string \<Rightarrow> string \<Rightarrow> string" where
  "TrimPrefix s p = (if HasPrefix s p then drop (length p) s else s)"

definition TrimSuffix :: "string \<Rightarrow> string \<Rightarrow> string" where
  "TrimSuffix s p = (if HasSuffix s p then take (length s - length p) s else s)"

fun Contains :: "string \<Rightarrow> string \<Rightarrow> bool" where
  "Contains [] p = (p = [])"
| "Contains (c # s) p = (HasPrefix (c # s) p \<or> Contains s p)"

lemma HasPrefix_iff [go_string_simps]: "HasPrefix s p \<longleftrightarrow> (\<exists>t. s = p @ t)"
  by (auto simp: HasPrefix_def) (metis append_take_drop_id)

lemma HasSuffix_iff [go_string_simps]: "HasSuffix s p \<longleftrightarrow> (\<exists>t. s = t @ p)"
  by (auto simp: HasSuffix_def) (metis append_take_drop_id)

lemma Contains_iff [go_string_simps]: "Contains s p \<longleftrightarrow> (\<exists>a b. s = a @ p @ b)"
proof (induction s)
  case Nil
  show ?case by auto
next
  case (Cons c s)
  show ?case
  proof
    assume "Contains (c # s) p"
    then consider "HasPrefix (c # s) p" | "Contains s p" by auto
    then show "\<exists>a b. c # s = a @ p @ b"
    proof cases
      case 1
      then obtain t where "c # s = p @ t" by (auto simp: HasPrefix_iff)
      then have "c # s = [] @ p @ t" by simp
      then show ?thesis by blast
    next
      case 2
      with Cons obtain a b where "s = a @ p @ b" by auto
      then have "c # s = (c # a) @ p @ b" by simp
      then show ?thesis by blast
    qed
  next
    assume "\<exists>a b. c # s = a @ p @ b"
    then obtain a b where ab: "c # s = a @ p @ b" by blast
    show "Contains (c # s) p"
    proof (cases a)
      case Nil
      with ab have "HasPrefix (c # s) p" by (auto simp: HasPrefix_iff)
      then show ?thesis by simp
    next
      case (Cons x a')
      with ab have "s = a' @ p @ b" by simp
      with Cons.IH show ?thesis by auto
    qed
  qed
qed

lemma Contains_refl [simp]: "Contains s s"
  by (simp add: Contains_iff) (metis append.left_neutral append.right_neutral)

lemma HasPrefix_append [simp]: "HasPrefix (p @ t) p"
  by (simp add: HasPrefix_def)

lemma HasSuffix_append [simp]: "HasSuffix (t @ p) p"
  by (simp add: HasSuffix_def)

lemma TrimPrefix_append [simp]: "TrimPrefix (p @ t) p = t"
  by (simp add: TrimPrefix_def)

lemma TrimSuffix_append [simp]: "TrimSuffix (t @ p) p = t"
  by (simp add: TrimSuffix_def)

subsection \<open>White space\<close>

text \<open>The UTF-8 forms of the code points of \<^verbatim>\<open>unicode.IsSpace\<close>.\<close>

definition space_runes :: "string list" where
  "space_runes =
    [[CHR 0x09], [CHR 0x0A], [CHR 0x0B], [CHR 0x0C], [CHR 0x0D], [CHR 0x20],
     [CHR 0xC2, CHR 0x85], [CHR 0xC2, CHR 0xA0], [CHR 0xE1, CHR 0x9A, CHR 0x80],
     [CHR 0xE2, CHR 0x80, CHR 0x80], [CHR 0xE2, CHR 0x80, CHR 0x81], [CHR 0xE2, CHR 0x80, CHR 0x82],
     [CHR 0xE2, CHR 0x80, CHR 0x83], [CHR 0xE2, CHR 0x80, CHR 0x84], [CHR 0xE2, CHR 0x80, CHR 0x85],
     [CHR 0xE2, CHR 0x80, CHR 0x86], [CHR 0xE2, CHR 0x80, CHR 0x87], [CHR 0xE2, CHR 0x80, CHR 0x88],
     [CHR 0xE2, CHR 0x80, CHR 0x89], [CHR 0xE2, CHR 0x80, CHR 0x8A], [CHR 0xE2, CHR 0x80, CHR 0xA8],
     [CHR 0xE2, CHR 0x80, CHR 0xA9], [CHR 0xE2, CHR 0x80, CHR 0xAF], [CHR 0xE2, CHR 0x81, CHR 0x9F],
     [CHR 0xE3, CHR 0x80, CHR 0x80]]"

definition lead_space :: "string \<Rightarrow> string option" where
  "lead_space s = find (\<lambda>w. HasPrefix s w) space_runes"

definition trail_space :: "string \<Rightarrow> string option" where
  "trail_space s = find (\<lambda>w. HasSuffix s w) space_runes"

lemma Nil_notin_space_runes [simp]: "[] \<notin> set space_runes"
  by (simp add: space_runes_def)

lemma lead_space_Some: "lead_space s = Some w \<Longrightarrow> w \<in> set space_runes \<and> HasPrefix s w"
  by (auto simp: lead_space_def find_Some_iff)

lemma trail_space_Some: "trail_space s = Some w \<Longrightarrow> w \<in> set space_runes \<and> HasSuffix s w"
  by (auto simp: trail_space_def find_Some_iff)

function trim_left :: "string \<Rightarrow> string" where
  "trim_left s = (case lead_space s of None \<Rightarrow> s | Some w \<Rightarrow> trim_left (drop (length w) s))"
  by pat_completeness auto
termination
  by (relation "measure length")
     (auto simp: HasPrefix_iff dest!: lead_space_Some)

function trim_right :: "string \<Rightarrow> string" where
  "trim_right s = (case trail_space s of None \<Rightarrow> s
     | Some w \<Rightarrow> trim_right (take (length s - length w) s))"
  by pat_completeness auto
termination
  by (relation "measure length")
     (auto simp: HasSuffix_iff dest!: trail_space_Some)

declare trim_left.simps [simp del] trim_right.simps [simp del]

definition TrimSpace :: "string \<Rightarrow> string" where
  "TrimSpace s = trim_right (trim_left s)"

definition trimmed :: "string \<Rightarrow> bool" where
  "trimmed s \<longleftrightarrow> lead_space s = None \<and> trail_space s = None"

lemma lead_space_trim_left: "lead_space (trim_left s) = None"
  by (induction s rule: trim_left.induct)
     (subst trim_left.simps, simp split: option.splits)

lemma trail_space_trim_right: "trail_space (trim_right s) = None"
  by (induction s rule: trim_right.induct)
     (subst trim_right.simps, simp split: option.splits)

lemma trim_left_id: "lead_space s = None \<Longrightarrow> trim_left s = s"
  by (simp add: trim_left.simps)

lemma trim_right_id: "trail_space s = None \<Longrightarrow> trim_right s = s"
  by (simp add: trim_right.simps)

lemma trim_right_prefix: "\<exists>t. s = trim_right s @ t"
proof (induction s rule: trim_right.induct)
  case (1 s)
  show ?case
  proof (cases "trail_space s")
    case None
    then show ?thesis by (simp add: trim_right_id)
  next
    case (Some w)
    with 1 obtain t where t: "take (length s - length w) s = trim_right (take (length s - length w) s) @ t"
      by blast
    have "s = trim_right (take (length s - length w) s) @ (t @ drop (length s - length w) s)"
      using t by (metis append_assoc append_take_drop_id)
    with Some show ?thesis by (subst trim_right.simps) auto
  qed
qed

lemma lead_space_prefix: "lead_space (s @ t) = None \<Longrightarrow> lead_space s = None"
  by (auto simp: lead_space_def find_None_iff HasPrefix_iff)

lemma trimmed_TrimSpace: "trimmed (TrimSpace s)"
proof -
  obtain t where "trim_left s = trim_right (trim_left s) @ t"
    using trim_right_prefix by blast
  then have "lead_space (trim_right (trim_left s)) = None"
    using lead_space_trim_left [of s] lead_space_prefix by metis
  then show ?thesis
    by (simp add: trimmed_def TrimSpace_def trail_space_trim_right)
qed

lemma TrimSpace_id: "trimmed s \<Longrightarrow> TrimSpace s = s"
  by (simp add: trimmed_def TrimSpace_def trim_left_id trim_right_id)

lemma TrimSpace_idem [simp]: "TrimSpace (TrimSpace s) = TrimSpace s"
  by (simp add: TrimSpace_id trimmed_TrimSpace)

lemma trimmed_iff [go_string_simps]: "TrimSpace s = s \<longleftrightarrow> trimmed s"
  using trimmed_TrimSpace [of s] TrimSpace_id [of s] by auto

lemma TrimSpace_Nil [simp]: "TrimSpace [] = []"
  by (rule TrimSpace_id) (simp add: trimmed_def lead_space_def trail_space_def space_runes_def
      HasPrefix_def HasSuffix_def)

subsection \<open>Case mapping of ASCII letters\<close>

definition upper_letters :: string where
  "upper_letters = ''ABCDEFGHIJKLMNOPQRSTUVWXYZ''"

definition lower_letters :: string where
  "lower_letters = ''abcdefghijklmnopqrstuvwxyz''"

definition lower_char :: "char \<Rightarrow> char" where
  "lower_char c = (case map_of (zip upper_letters lower_letters) c of None \<Rightarrow> c | Some d \<Rightarrow> d)"

definition upper_char :: "char \<Rightarrow> char" where
  "upper_char c = (case map_of (zip lower_letters upper_letters) c of None \<Rightarrow> c | Some d \<Rightarrow> d)"

definition ToLower :: "string \<Rightarrow> string" where
  "ToLower s = map lower_char s"

definition ToUpper :: "string \<Rightarrow> string" where
  "ToUpper s = map upper_char s"

definition EqualFold :: "string \<Rightarrow> string \<Rightarrow> bool" where
  "EqualFold s t = (ToLower s = ToLower t)"

lemma letters_disjoint: "set upper_letters \<inter> set lower_letters = {}"
  by code_simp

lemma lower_char_cases:
  "lower_char c = c \<or> c \<in> set upper_letters \<and> lower_char c \<in> set lower_letters"
  by (auto simp: lower_char_def split: option.splits dest!: map_of_SomeD dest: set_zip_leftD set_zip_rightD)

lemma upper_char_cases:
  "upper_char c = c \<or> c \<in> set lower_letters \<and> upper_char c \<in> set upper_letters"
  by (auto simp: upper_char_def split: option.splits dest!: map_of_SomeD dest: set_zip_leftD set_zip_rightD)

lemma lower_char_idem [simp]: "lower_char (lower_char c) = lower_char c"
  using lower_char_cases [of c] lower_char_cases [of "lower_char c"] letters_disjoint by auto

lemma upper_char_idem [simp]: "upper_char (upper_char c) = upper_char c"
  using upper_char_cases [of c] upper_char_cases [of "upper_char c"] letters_disjoint by auto

lemma lower_char_nonletter:
  "x \<notin> set upper_letters \<Longrightarrow> x \<notin> set lower_letters \<Longrightarrow> lower_char c = x \<longleftrightarrow> c = x"
  using lower_char_cases [of c] lower_char_cases [of x] by auto

lemma upper_char_nonletter:
  "x \<notin> set upper_letters \<Longrightarrow> x \<notin> set lower_letters \<Longrightarrow> upper_char c = x \<longleftrightarrow> c = x"
  using upper_char_cases [of c] upper_char_cases [of x] by auto

lemma map_eq_fixed:
  assumes "\<And>x c. x \<in> set w \<Longrightarrow> f c = x \<longleftrightarrow> c = x"
  shows "map f s = w \<longleftrightarrow> s = w"
  using assms
proof (induction s arbitrary: w)
  case Nil
  then show ?case by auto
next
  case (Cons a s)
  then show ?case by (cases w) auto
qed

lemma space_runes_no_letters:
  "w \<in> set space_runes \<Longrightarrow> x \<in> set w \<Longrightarrow> x \<notin> set upper_letters \<and> x \<notin> set lower_letters"
proof -
  have "list_all (list_all (\<lambda>x. x \<notin> set upper_letters \<and> x \<notin> set lower_letters)) space_runes"
    by code_simp
  then show "w \<in> set space_runes \<Longrightarrow> x \<in> set w \<Longrightarrow> x \<notin> set upper_letters \<and> x \<notin> set lower_letters"
    by (auto simp: list_all_iff)
qed

lemma space_preserving_map:
  assumes "\<And>w x c. w \<in> set space_runes \<Longrightarrow> x \<in> set w \<Longrightarrow> f c = x \<longleftrightarrow> c = x"
  shows "trimmed (map f s) \<longleftrightarrow> trimmed s"
proof -
  have "HasPrefix (map f s) w \<longleftrightarrow> HasPrefix s w" "HasSuffix (map f s) w \<longleftrightarrow> HasSuffix s w"
    if "w \<in> set space_runes" for w
    using assms [OF that] by (simp_all add: HasPrefix_def HasSuffix_def take_map drop_map map_eq_fixed)
  then show ?thesis
    by (simp add: trimmed_def lead_space_def trail_space_def find_None_iff)
qed

lemma trimmed_ToLower [simp]: "trimmed (ToLower s) \<longleftrightarrow> trimmed s"
  unfolding ToLower_def
  using space_preserving_map [of lower_char s] lower_char_nonletter space_runes_no_letters by blast

lemma trimmed_ToUpper [simp]: "trimmed (ToUpper s) \<longleftrightarrow> trimmed s"
  unfolding ToUpper_def
  using space_preserving_map [of upper_char s] upper_char_nonletter space_runes_no_letters by blast

lemma TrimSpace_ToLower_TrimSpace [simp]: "TrimSpace (ToLower (TrimSpace s)) = ToLower (TrimSpace s)"
  by (simp add: TrimSpace_id trimmed_TrimSpace)

lemma TrimSpace_ToUpper_TrimSpace [simp]: "TrimSpace (ToUpper (TrimSpace s)) = ToUpper (TrimSpace s)"
  by (simp add: TrimSpace_id trimmed_TrimSpace)

lemma ToLower_idem [simp]: "ToLower (ToLower s) = ToLower s"
  by (simp add: ToLower_def)

lemma ToUpper_idem [simp]: "ToUpper (ToUpper s) = ToUpper s"
  by (simp add: ToUpper_def)

lemma ToLower_Nil_iff [simp]: "ToLower s = [] \<longleftrightarrow> s = []"
  by (simp add: ToLower_def)

lemma ToLower_Nil [simp]: "ToLower [] = []"
  by (simp add: ToLower_def)

lemma ToLower_append [simp]: "ToLower (s @ t) = ToLower s @ ToLower t"
  by (simp add: ToLower_def)

subsection \<open>Splitting and joining on one byte\<close>

fun split_char :: "char \<Rightarrow> string \<Rightarrow> string list" where
  "split_char d [] = [[]]"
| "split_char d (c # s) =
     (if c = d then [] # split_char d s
      else (case split_char d s of [] \<Rightarrow> [[c]] | w # ws \<Rightarrow> (c # w) # ws))"

fun join_str :: "string \<Rightarrow> string list \<Rightarrow> string" where
  "join_str sep [] = []"
| "join_str sep [w] = w"
| "join_str sep (w # v # ws) = w @ sep @ join_str sep (v # ws)"

fun index_byte :: "char \<Rightarrow> string \<Rightarrow> nat option" where
  "index_byte d [] = None"
| "index_byte d (c # s) = (if c = d then Some 0 else map_option Suc (index_byte d s))"

definition last_index_byte :: "char \<Rightarrow> string \<Rightarrow> nat option" where
  "last_index_byte d s = map_option (\<lambda>i. length s - Suc i) (index_byte d (rev s))"

lemma split_char_nonempty [simp]: "split_char d s \<noteq> []"
  by (induction s) (auto split: list.splits)

lemma split_char_no_sep: "d \<notin> set s \<Longrightarrow> split_char d s = [s]"
  by (induction s) auto

lemma split_char_append_sep:
  "d \<notin> set s \<Longrightarrow> split_char d (s @ d # t) = s # split_char d t"
  by (induction s) auto

lemma split_char_join:
  "ws \<noteq> [] \<Longrightarrow> \<forall>w \<in> set ws. d \<notin> set w \<Longrightarrow> split_char d (join_str [d] ws) = ws"
proof (induction "[d]" ws rule: join_str.induct)
  case (2 w)
  then show ?case by (simp add: split_char_no_sep)
next
  case (3 w v ws)
  then show ?case by (simp add: split_char_append_sep)
qed simp

lemma index_byte_Some: "index_byte d s = Some i \<Longrightarrow> i < length s \<and> s ! i = d \<and> d \<notin> set (take i s)"
  by (induction s arbitrary: i) (auto split: if_splits)

lemma index_byte_None_iff: "index_byte d s = None \<longleftrightarrow> d \<notin> set s"
  by (induction s) auto

lemma index_byte_append: "d \<notin> set s \<Longrightarrow> index_byte d (s @ d # t) = Some (length s)"
  by (induction s) auto

lemma last_index_byte_append: "d \<notin> set t \<Longrightarrow> last_index_byte d (s @ d # t) = Some (length s)"
  by (simp add: last_index_byte_def index_byte_append)

lemma last_index_byte_None_iff: "last_index_byte d s = None \<longleftrightarrow> d \<notin> set s"
  by (simp add: last_index_byte_def index_byte_None_iff)

subsection \<open>Loops over slices\<close>

text \<open>\<open>foldM\<close> is a Go \<^verbatim>\<open>for range\<close> loop whose body may return an error.\<close>

fun foldM :: "('s \<Rightarrow> 'a \<Rightarrow> ('e, 's) result) \<Rightarrow> 's \<Rightarrow> 'a list \<Rightarrow> ('e, 's) result" where
  "foldM f s [] = Inr s"
| "foldM f s (x # xs) = bind_result (f s x) (\<lambda>s'. foldM f s' xs)"

lemma foldM_append: "foldM f s (xs @ ys) = bind_result (foldM f s xs) (\<lambda>s'. foldM f s' ys)"
proof (induction xs arbitrary: s)
  case (Cons x xs)
  then show ?case by (cases "f s x") auto
qed simp

lemma foldM_invariant:
  assumes "foldM f s xs = Inr s'" and "P s"
    and "\<And>s x s'. x \<in> set xs \<Longrightarrow> P s \<Longrightarrow> f s x = Inr s' \<Longrightarrow> P s'"
  shows "P s'"
  using assms
proof (induction xs arbitrary: s)
  case (Cons x xs)
  from Cons.prems(1) obtain u where u: "f s x = Inr u" "foldM f u xs = Inr s'"
    by (auto simp: go_result_simps)
  have "P u" using Cons.prems(2,3) u(1) by auto
  with u(2) show ?case by (rule Cons.IH) (use Cons.prems(3) in auto)
qed simp

lemma foldM_InlD: "foldM f s xs = Inl e \<Longrightarrow> \<exists>s' x. x \<in> set xs \<and> f s' x = Inl e"
  by (induction xs arbitrary: s) (fastforce simp: go_result_simps)+

lemma foldM_unit_Inr_iff: "foldM (\<lambda>_ x. f x) () xs = Inr () \<longleftrightarrow> (\<forall>x \<in> set xs. f x = Inr ())"
  by (induction xs) (auto simp: go_result_simps)

lemma foldl_invariant:
  assumes "P s" and "\<And>s x. x \<in> set xs \<Longrightarrow> P s \<Longrightarrow> P (f s x)"
  shows "P (foldl f s xs)"
  using assms
proof (induction xs arbitrary: s)
  case (Cons x xs)
  then have "P (f s x)" by simp
  then show ?case using Cons.IH Cons.prems(2) by simp
qed simp

subsection \<open>State machines\<close>

text \<open>
  What a component with an interleaving of steps promises its users: an invariant that every step
  keeps and a part of the state (such as a configuration) that no step changes. The users rely
  on both for every state the component can reach.
\<close>

locale step_invariant =
  fixes step :: "'s \<Rightarrow> 's \<Rightarrow> bool"
    and inv :: "'s \<Rightarrow> bool"
    and frame :: "'s \<Rightarrow> 'f"
  assumes step_keeps_inv: "step s s' \<Longrightarrow> inv s \<Longrightarrow> inv s'"
    and step_keeps_frame: "step s s' \<Longrightarrow> inv s \<Longrightarrow> frame s' = frame s"
begin

lemma reachable_inv: "step\<^sup>*\<^sup>* s s' \<Longrightarrow> inv s \<Longrightarrow> inv s'"
  by (induction rule: rtranclp_induct) (auto intro: step_keeps_inv)

lemma reachable_frame: "step\<^sup>*\<^sup>* s s' \<Longrightarrow> inv s \<Longrightarrow> frame s' = frame s"
  by (induction rule: rtranclp_induct) (auto simp: step_keeps_frame reachable_inv)

end

text \<open>A relation between an earlier and a later state that every step keeps, and so every run.\<close>

locale step_history = step_invariant step inv "\<lambda>_. ()"
  for step :: "'s \<Rightarrow> 's \<Rightarrow> bool" and inv :: "'s \<Rightarrow> bool" +
  fixes hist :: "'s \<Rightarrow> 's \<Rightarrow> bool"
  assumes hist_refl: "hist s s"
    and hist_trans: "hist s t \<Longrightarrow> hist t u \<Longrightarrow> hist s u"
    and step_hist: "step s s' \<Longrightarrow> inv s \<Longrightarrow> hist s s'"
begin

lemma reachable_hist: "step\<^sup>*\<^sup>* s s' \<Longrightarrow> inv s \<Longrightarrow> hist s s'"
  by (induction rule: rtranclp_induct) (auto intro: hist_refl hist_trans step_hist reachable_inv)

end

lemma set_map_filter_iff [simp]: "y \<in> set (List.map_filter f xs) \<longleftrightarrow> (\<exists>x \<in> set xs. f x = Some y)"
  by (induction xs) (auto simp: List.map_filter_simps split: option.splits)

lemma foldl_map_filter:
  "foldl (\<lambda>a x. case f x of None \<Rightarrow> a | Some y \<Rightarrow> g a y) a xs = foldl g a (List.map_filter f xs)"
  by (induction xs arbitrary: a) (auto split: option.splits simp: List.map_filter_simps)

end
