(* ===== verification/Go_Json.thy ===== *)
theory Go_Json
  imports Go_Prelude
begin

section \<open>The part of encoding/json the program uses\<close>

text \<open>
  \<open>json_parse\<close> reads a JSON text as \<^verbatim>\<open>json.Unmarshal\<close> does: the whole input is one value
  between white space, objects keep their members in order. A number keeps its literal, since no
  code modelled here reads a number out of a document. String escapes are decoded to UTF-8;
  a surrogate that has no partner becomes U+FFFD. Not modelled: the replacement of bytes that are not valid
  UTF-8, the nesting limit of 10000 and the range error of a number that overflows float64.

  The typed decoders below follow the rules of \<^verbatim>\<open>Unmarshal\<close>: \<^verbatim>\<open>null\<close> leaves the zero value, an
  unknown member of a struct is ignored, a member name matches a field exactly or else without
  regard to (ASCII) case, a value of another type is an error, and the last member of a name
  wins. The documents decoded are \<^verbatim>\<open>JSONB\<close> columns, which hold each name once, so decoding one
  slice field twice in one object is not distinguished from decoding it afresh.
\<close>

datatype json =
  JNull
| JBool bool
| JNum string
| JStr string
| JArr "json list"
| JObj "(string \<times> json) list"

subsection \<open>Lexical part\<close>

definition is_ws :: "char \<Rightarrow> bool" where
  "is_ws c \<longleftrightarrow> c = CHR 0x20 \<or> c = CHR 0x09 \<or> c = CHR 0x0A \<or> c = CHR 0x0D"

definition skip_ws :: "string \<Rightarrow> string" where
  "skip_ws s = dropWhile is_ws s"

definition hex_digits :: "(char \<times> nat) list" where
  "hex_digits = zip ''0123456789abcdef'' [0,1,2,3,4,5,6,7,8,9,10,11,12,13,14,15]
     @ zip ''ABCDEF'' [10,11,12,13,14,15]"

definition hex_val :: "char \<Rightarrow> nat option" where
  "hex_val c = map_of hex_digits c"

definition is_digit :: "char \<Rightarrow> bool" where
  "is_digit c \<longleftrightarrow> c \<in> set ''0123456789''"

definition hex4 :: "char \<Rightarrow> char \<Rightarrow> char \<Rightarrow> char \<Rightarrow> nat option" where
  "hex4 a b c d = (case (hex_val a, hex_val b, hex_val c, hex_val d) of
     (Some w, Some x, Some y, Some z) \<Rightarrow> Some (((w * 16 + x) * 16 + y) * 16 + z)
   | _ \<Rightarrow> None)"

definition byte :: "nat \<Rightarrow> char" where
  "byte n = char_of n"

definition utf8 :: "nat \<Rightarrow> string" where
  "utf8 n = (if n < 0x80 then [byte n]
     else if n < 0x800 then [byte (0xC0 + n div 64), byte (0x80 + n mod 64)]
     else if n < 0x10000 then
       [byte (0xE0 + n div 4096), byte (0x80 + n div 64 mod 64), byte (0x80 + n mod 64)]
     else [byte (0xF0 + n div 262144), byte (0x80 + n div 4096 mod 64),
           byte (0x80 + n div 64 mod 64), byte (0x80 + n mod 64)])"

definition simple_escape :: "char \<Rightarrow> char option" where
  "simple_escape c = map_of
     [(CHR 0x22, CHR 0x22), (CHR 0x5C, CHR 0x5C), (CHR ''/'', CHR ''/''), (CHR ''b'', CHR 0x08),
      (CHR ''f'', CHR 0x0C), (CHR ''n'', CHR 0x0A), (CHR ''r'', CHR 0x0D), (CHR ''t'', CHR 0x09)] c"

text \<open>
  \<open>read_escape\<close> reads an escape after its backslash, \<open>read_unit\<close> one character or escape of a
  string; the result is the decoded bytes and the rest of the input.
\<close>

definition read_hex4 :: "string \<Rightarrow> (nat \<times> string) option" where
  "read_hex4 s = (case s of
     a # b # c # d # r \<Rightarrow> map_option (\<lambda>u. (u, r)) (hex4 a b c d)
   | _ \<Rightarrow> None)"

definition low_surrogate :: "string \<Rightarrow> (nat \<times> string) option" where
  "low_surrogate s = (case s of
     b # u # r \<Rightarrow>
       (if b = CHR 0x5C \<and> u = CHR ''u'' then
          (case read_hex4 r of
             Some (v, r') \<Rightarrow> (if 0xDC00 \<le> v \<and> v < 0xE000 then Some (v, r') else None)
           | None \<Rightarrow> None)
        else None)
   | _ \<Rightarrow> None)"

definition read_escape :: "string \<Rightarrow> (string \<times> string) option" where
  "read_escape s = (case s of
     [] \<Rightarrow> None
   | e # r \<Rightarrow>
       if e = CHR ''u'' then
         (case read_hex4 r of
            None \<Rightarrow> None
          | Some (u, r1) \<Rightarrow>
              if 0xD800 \<le> u \<and> u < 0xDC00 then
                (case low_surrogate r1 of
                   Some (v, r2) \<Rightarrow> Some (utf8 (0x10000 + (u - 0xD800) * 1024 + (v - 0xDC00)), r2)
                 | None \<Rightarrow> Some (utf8 0xFFFD, r1))
              else if 0xDC00 \<le> u \<and> u < 0xE000 then Some (utf8 0xFFFD, r1)
              else Some (utf8 u, r1))
       else map_option (\<lambda>x. ([x], r)) (simple_escape e))"

definition read_unit :: "string \<Rightarrow> (string \<times> string) option" where
  "read_unit s = (case s of
     [] \<Rightarrow> None
   | c # r \<Rightarrow>
       if c = CHR 0x5C then read_escape r
       else if (of_char c :: nat) < 0x20 then None
       else Some ([c], r))"

lemma read_hex4_shrinks: "read_hex4 s = Some (u, r) \<Longrightarrow> length r < length s"
  by (auto simp: read_hex4_def split: list.splits)

lemma low_surrogate_shrinks: "low_surrogate s = Some (u, r) \<Longrightarrow> length r < length s"
  by (auto simp: low_surrogate_def split: list.splits if_splits option.splits dest!: read_hex4_shrinks)

lemma read_escape_shrinks: "read_escape s = Some (u, r) \<Longrightarrow> length r < length s"
  by (auto simp: read_escape_def split: list.splits if_splits option.splits
      dest!: read_hex4_shrinks low_surrogate_shrinks)

lemma read_unit_shrinks: "read_unit s = Some (u, r) \<Longrightarrow> length r < length s"
  by (auto simp: read_unit_def split: list.splits if_splits dest!: read_escape_shrinks)

text \<open>The input after the opening quote; the result is the decoded string and the rest.\<close>

function parse_string :: "string \<Rightarrow> (string \<times> string) option" where
  "parse_string s = (case s of
     [] \<Rightarrow> None
   | c # r \<Rightarrow>
       if c = CHR 0x22 then Some ([], r)
       else (case read_unit s of
               None \<Rightarrow> None
             | Some (u, r') \<Rightarrow> map_option (apfst ((@) u)) (parse_string r')))"
  by pat_completeness auto
termination
  by (relation "measure length") (auto dest: read_unit_shrinks)

declare parse_string.simps [simp del]

lemma parse_string_shrinks: "parse_string s = Some (w, r) \<Longrightarrow> length r < length s"
proof (induction "length s" arbitrary: s w r rule: less_induct)
  case less
  from less.prems show ?case
    by (subst (asm) parse_string.simps,
        auto split: list.splits if_splits option.splits dest!: read_unit_shrinks)
       (metis less.hyps less_trans length_Cons)
qed

text \<open>A number: \<^verbatim>\<open>-? (0 | [1-9][0-9]*) (. [0-9]+)? ([eE] [+-]? [0-9]+)?\<close>.\<close>

definition digits1 :: "string \<Rightarrow> (string \<times> string) option" where
  "digits1 s = (case takeWhile is_digit s of [] \<Rightarrow> None | ds \<Rightarrow> Some (ds, dropWhile is_digit s))"

definition int_part :: "string \<Rightarrow> (string \<times> string) option" where
  "int_part s = (case s of
     c # r \<Rightarrow> (if c = CHR ''0'' then Some ([c], r) else digits1 s)
   | [] \<Rightarrow> None)"

definition frac_part :: "string \<Rightarrow> (string \<times> string) option" where
  "frac_part s = (case s of
     c # r \<Rightarrow> (if c = CHR ''.'' then map_option (apfst (Cons c)) (digits1 r) else Some ([], s))
   | [] \<Rightarrow> Some ([], []))"

definition exp_part :: "string \<Rightarrow> (string \<times> string) option" where
  "exp_part s = (case s of
     c # r \<Rightarrow>
       (if c = CHR ''e'' \<or> c = CHR ''E'' then
          (case r of
             g # r' \<Rightarrow>
               (if g = CHR ''+'' \<or> g = CHR ''-''
                then map_option (apfst (\<lambda>ds. c # g # ds)) (digits1 r')
                else map_option (apfst (Cons c)) (digits1 r))
           | [] \<Rightarrow> None)
        else Some ([], s))
   | [] \<Rightarrow> Some ([], []))"

definition parse_number :: "string \<Rightarrow> (string \<times> string) option" where
  "parse_number s =
     (let (sign, s0) = (case s of c # r \<Rightarrow> (if c = CHR ''-'' then ([c], r) else ([], s)) | [] \<Rightarrow> ([], s))
      in case int_part s0 of
           None \<Rightarrow> None
         | Some (i, s1) \<Rightarrow>
             (case frac_part s1 of
                None \<Rightarrow> None
              | Some (f, s2) \<Rightarrow>
                  (case exp_part s2 of
                     None \<Rightarrow> None
                   | Some (e, s3) \<Rightarrow> Some (sign @ i @ f @ e, s3))))"

subsection \<open>Values\<close>

text \<open>
  The recursive calls are guarded by a comparison of lengths, which only serves the termination
  proof: \<open>parse_shrinks\<close> shows that no call returns more input than it was given.
\<close>

function (sequential)
  parse_value :: "string \<Rightarrow> (json \<times> string) option" and
  parse_items :: "string \<Rightarrow> (json list \<times> string) option" and
  parse_members :: "string \<Rightarrow> ((string \<times> json) list \<times> string) option"
where
  "parse_value s =
     (case skip_ws s of
        [] \<Rightarrow> None
      | c # r \<Rightarrow>
          if c = CHR ''{'' then
            (case skip_ws r of
               [] \<Rightarrow> None
             | d # r' \<Rightarrow>
                 if d = CHR ''}'' then Some (JObj [], r')
                 else if length r < length s
                 then map_option (apfst JObj) (parse_members r) else None)
          else if c = CHR ''['' then
            (case skip_ws r of
               [] \<Rightarrow> None
             | d # r' \<Rightarrow>
                 if d = CHR '']'' then Some (JArr [], r')
                 else if length r < length s
                 then map_option (apfst JArr) (parse_items r) else None)
          else if c = CHR 0x22 then map_option (apfst JStr) (parse_string r)
          else if HasPrefix (c # r) ''true'' then Some (JBool True, drop 4 (c # r))
          else if HasPrefix (c # r) ''false'' then Some (JBool False, drop 5 (c # r))
          else if HasPrefix (c # r) ''null'' then Some (JNull, drop 4 (c # r))
          else map_option (apfst JNum) (parse_number (c # r)))"
| "parse_items s =
     (case parse_value s of
        None \<Rightarrow> None
      | Some (v, r) \<Rightarrow>
          (case skip_ws r of
             [] \<Rightarrow> None
           | c # r' \<Rightarrow>
               if c = CHR '']'' then Some ([v], r')
               else if c = CHR '','' \<and> length r' < length s
               then map_option (apfst (Cons v)) (parse_items r')
               else None))"
| "parse_members s =
     (case skip_ws s of
        [] \<Rightarrow> None
      | q # r \<Rightarrow>
          if q \<noteq> CHR 0x22 then None
          else (case parse_string r of
             None \<Rightarrow> None
           | Some (k, r1) \<Rightarrow>
               (case skip_ws r1 of
                  [] \<Rightarrow> None
                | c # r2 \<Rightarrow>
                    if c = CHR '':'' \<and> length r2 < length s then
                      (case parse_value r2 of
                         None \<Rightarrow> None
                       | Some (v, r3) \<Rightarrow>
                           (case skip_ws r3 of
                              [] \<Rightarrow> None
                            | d # r4 \<Rightarrow>
                                if d = CHR ''}'' then Some ([(k, v)], r4)
                                else if d = CHR '','' \<and> length r4 < length s
                                then map_option (apfst (Cons (k, v))) (parse_members r4)
                                else None))
                    else None)))"
  by pat_completeness auto
termination
  by (relation "measure (case_sum (\<lambda>s. 2 * length s)
        (case_sum (\<lambda>s. 2 * length s + 1) (\<lambda>s. 2 * length s + 1)))") auto

declare parse_value.simps [simp del] parse_items.simps [simp del] parse_members.simps [simp del]

definition json_parse :: "string \<Rightarrow> json option" where
  "json_parse s = (case parse_value s of
     Some (v, r) \<Rightarrow> (if skip_ws r = [] then Some v else None)
   | None \<Rightarrow> None)"

lemma length_skip_ws [simp]: "length (skip_ws s) \<le> length s"
  by (simp add: skip_ws_def length_dropWhile_le)

lemma skip_ws_ConsD: "skip_ws s = c # r \<Longrightarrow> length r < length s"
  using length_skip_ws [of s] by simp

lemma parse_number_shrinks: "parse_number s = Some (w, r) \<Longrightarrow> length r < length s"
proof -
  have d: "digits1 t = Some (x, y) \<Longrightarrow> length y < length t" for t x y
    by (cases t) (auto simp: digits1_def less_Suc_eq_le length_dropWhile_le split: list.splits if_splits)
  have i: "int_part t = Some (x, y) \<Longrightarrow> length y < length t" for t x y
    by (auto simp: int_part_def split: list.splits if_splits dest!: d)
  have f: "frac_part t = Some (x, y) \<Longrightarrow> length y \<le> length t" for t x y
    by (auto simp: frac_part_def split: list.splits if_splits dest!: d)
  have e: "exp_part t = Some (x, y) \<Longrightarrow> length y \<le> length t" for t x y
    by (auto simp: exp_part_def split: list.splits if_splits dest!: d)
  assume "parse_number s = Some (w, r)"
  then show ?thesis
    by (auto simp: parse_number_def Let_def split: list.splits if_splits option.splits prod.splits
        dest!: i f e)
qed

lemma parse_shrinks_all:
  "(\<forall>v r. parse_value s = Some (v, r) \<longrightarrow> length r < length s)
   \<and> (\<forall>vs r. parse_items s = Some (vs, r) \<longrightarrow> length r < length s)
   \<and> (\<forall>ms r. parse_members s = Some (ms, r) \<longrightarrow> length r < length s)"
proof (induction "length s" arbitrary: s rule: less_induct)
  case less
  note IH = less.hyps [rule_format]
  have i: "parse_items t = Some (vs, r) \<Longrightarrow> length t < length s \<Longrightarrow> length r < length s"
    and m: "parse_members t = Some (ms, r) \<Longrightarrow> length t < length s \<Longrightarrow> length r < length s"
    and v: "parse_value t = Some (w, r) \<Longrightarrow> length t < length s \<Longrightarrow> length r < length t"
    for t vs ms w r
    using IH [of t] by (auto intro: less_trans)
  have val: "length r < length s" if "parse_value s = Some (w, r)" for w r
    using that
    by (subst (asm) parse_value.simps)
       (auto split: list.splits if_splits simp: length_drop
        dest!: skip_ws_ConsD parse_string_shrinks parse_number_shrinks dest: i m)
  moreover have "length r < length s" if "parse_items s = Some (vs, r)" for vs r
    using that
    by (subst (asm) parse_items.simps)
       (auto split: list.splits if_splits option.splits dest!: skip_ws_ConsD val dest: i)
  moreover have "length r < length s" if "parse_members s = Some (ms, r)" for ms r
    using that
    by (subst (asm) parse_members.simps,
        auto split: list.splits if_splits option.splits
        dest!: skip_ws_ConsD parse_string_shrinks)
       (metis less_trans m v)+
  ultimately show ?case by blast
qed

lemma parse_shrinks:
  "parse_value s = Some (v, r) \<Longrightarrow> length r < length s"
  "parse_items s = Some (vs, r) \<Longrightarrow> length r < length s"
  "parse_members s = Some (ms, r) \<Longrightarrow> length r < length s"
  using parse_shrinks_all [of s] by blast+

lemma json_parse_empty [simp]: "json_parse [] = None"
  by (simp add: json_parse_def parse_value.simps skip_ws_def)

subsection \<open>Typed decoding\<close>

text \<open>\<open>set_string\<close> and \<open>set_strings\<close> store a value in a string or a string slice.\<close>

definition set_string :: "json \<Rightarrow> string \<Rightarrow> string option" where
  "set_string j old = (case j of JStr s \<Rightarrow> Some s | JNull \<Rightarrow> Some old | _ \<Rightarrow> None)"

definition decode_list :: "(json \<Rightarrow> 'a option) \<Rightarrow> json \<Rightarrow> 'a list option" where
  "decode_list f j = (case j of JNull \<Rightarrow> Some [] | JArr xs \<Rightarrow> those (map f xs) | _ \<Rightarrow> None)"

definition set_strings :: "json \<Rightarrow> string list option" where
  "set_strings j = decode_list (\<lambda>x. set_string x []) j"

definition match_field :: "string list \<Rightarrow> string \<Rightarrow> string option" where
  "match_field fields k = (if k \<in> set fields then Some k else find (\<lambda>f. EqualFold f k) fields)"

fun decode_members :: "string list \<Rightarrow> (string \<Rightarrow> json \<Rightarrow> 's \<Rightarrow> 's option) \<Rightarrow> 's
    \<Rightarrow> (string \<times> json) list \<Rightarrow> 's option" where
  "decode_members fields upd st [] = Some st"
| "decode_members fields upd st ((k, v) # ms) =
     (case match_field fields k of
        None \<Rightarrow> decode_members fields upd st ms
      | Some f \<Rightarrow> (case upd f v st of None \<Rightarrow> None | Some st' \<Rightarrow> decode_members fields upd st' ms))"

definition decode_struct :: "string list \<Rightarrow> (string \<Rightarrow> json \<Rightarrow> 's \<Rightarrow> 's option) \<Rightarrow> 's \<Rightarrow> json
    \<Rightarrow> 's option" where
  "decode_struct fields upd zero j =
     (case j of JNull \<Rightarrow> Some zero | JObj ms \<Rightarrow> decode_members fields upd zero ms | _ \<Rightarrow> None)"

text \<open>A \<^verbatim>\<open>map[string]interface{}\<close>: \<^verbatim>\<open>null\<close> gives the nil map, a later member replaces an earlier one.\<close>

definition decode_dyn_map :: "json \<Rightarrow> (string \<times> json) list option" where
  "decode_dyn_map j = (case j of JNull \<Rightarrow> Some [] | JObj ms \<Rightarrow> Some ms | _ \<Rightarrow> None)"

definition dyn_get :: "(string \<times> json) list \<Rightarrow> string \<Rightarrow> json option" where
  "dyn_get ms k = map_of (rev ms) k"

text \<open>A \<^verbatim>\<open>map[string]string\<close>.\<close>

definition decode_string_map :: "json \<Rightarrow> (string \<times> string) list option" where
  "decode_string_map j = (case j of
     JNull \<Rightarrow> Some []
   | JObj ms \<Rightarrow> those (map (\<lambda>(k, v). map_option (Pair k) (set_string v [])) ms)
   | _ \<Rightarrow> None)"

definition unmarshal :: "(json \<Rightarrow> 'a option) \<Rightarrow> string \<Rightarrow> 'a option" where
  "unmarshal dec text = (case json_parse text of None \<Rightarrow> None | Some j \<Rightarrow> dec j)"

lemma those_Some_iff: "those xs = Some ys \<longleftrightarrow> xs = map Some ys"
  by (induction xs arbitrary: ys) (auto split: option.splits)

lemma those_map_eq_Some:
  "those (map f xs) = Some ys \<Longrightarrow> y \<in> set ys \<Longrightarrow> \<exists>x \<in> set xs. f x = Some y"
  by (induction xs arbitrary: ys) (auto split: option.splits)

lemma unmarshal_empty [simp]: "unmarshal dec [] = None"
  by (simp add: unmarshal_def)

lemma match_field_exact: "k \<in> set fs \<Longrightarrow> match_field fs k = Some k"
  by (simp add: match_field_def)

lemma dyn_get_None_iff: "dyn_get ms k = None \<longleftrightarrow> k \<notin> fst ` set ms"
  by (simp add: dyn_get_def map_of_eq_None_iff)

end
