(* ===== verification/Models.thy ===== *)
theory Models
  imports Go_Prelude
begin

section \<open>Inventory rows: core/pkg/models/models.go\<close>

text \<open>
  The rows of the inventory tables, one record per Go struct, with the columns the modelled
  code reads. JSON columns are their text. Other timestamps, foreign-key preloads and display-only columns
  are left out; \<open>pod_Deleted\<close> is \<^verbatim>\<open>!DeletedAt.Time.IsZero()\<close>. Instants are integers, the zero
  instant is 0, and None is a start time that is nil.
\<close>

record ServiceAccount =
  sa_ID :: nat
  sa_ClusterID :: string
  sa_Name :: string
  sa_Namespace :: string
  sa_UID :: string

record RoleBinding =
  rb_ID :: nat
  rb_ClusterID :: string
  rb_Name :: string
  rb_Namespace :: string
  rb_UID :: string
  rb_RoleRef :: string
  rb_Subjects :: string

record ClusterRoleBinding =
  crb_ID :: nat
  crb_ClusterID :: string
  crb_Name :: string
  crb_UID :: string
  crb_RoleRef :: string
  crb_Subjects :: string

record Role =
  role_ID :: nat
  role_ClusterID :: string
  role_Name :: string
  role_Namespace :: string
  role_UID :: string
  role_Rules :: string

record ClusterRole =
  cr_ID :: nat
  cr_ClusterID :: string
  cr_Name :: string
  cr_UID :: string
  cr_Rules :: string

record Pod =
  pod_ClusterID :: string
  pod_Name :: string
  pod_Namespace :: string
  pod_ServiceAccount :: string
  pod_UID :: string
  pod_ContainerSecurityContexts :: string
  pod_VolumeMounts :: string
  pod_Volumes :: string
  pod_HostNetwork :: bool
  pod_HostPID :: bool
  pod_HostIPC :: bool
  pod_AutomountServiceAccountToken :: "bool option"
  pod_SpecHash :: string
  pod_LastEvaluatedHash :: string
  pod_Deleted :: bool
  pod_NodeName :: string
  pod_PodIP :: string
  pod_StartTime :: "int option"
  pod_CreatedAt :: int
  pod_RestartCount :: int

end
