(* ===== verification/Rbac_Analyzer.thy ===== *)
theory Rbac_Analyzer
  imports Go_Json Models
begin

section \<open>Kubernetes RBAC analysis: core/pkg/rbac/analyzer.go\<close>

text \<open>
  \<open>ClassifyRoleRisk\<close>, \<open>HasWriteVerbs\<close> and \<open>DeriveCapabilities\<close> take the JSON text of a role's
  rules, as the Go functions do. \<open>AnalyzePod\<close> reads bindings and roles through the queries of a
  \<open>rbac_db\<close> record: the database is a parameter, each query a function that returns rows or an
  error, and a \<^verbatim>\<open>First\<close> that finds nothing (or fails, which the code treats alike) is \<open>None\<close>.
  Risk levels are the four constants of the Go string type.
\<close>

subsection \<open>Data\<close>

datatype RiskLevel = RiskLevelNone | RiskLevelMedium | RiskLevelHigh | RiskLevelCritical

fun risk_order :: "RiskLevel \<Rightarrow> nat" where
  "risk_order RiskLevelNone = 0"
| "risk_order RiskLevelMedium = 1"
| "risk_order RiskLevelHigh = 2"
| "risk_order RiskLevelCritical = 3"

instantiation RiskLevel :: linorder
begin

definition less_eq_RiskLevel :: "RiskLevel \<Rightarrow> RiskLevel \<Rightarrow> bool" where
  "less_eq_RiskLevel a b \<longleftrightarrow> risk_order a \<le> risk_order b"

definition less_RiskLevel :: "RiskLevel \<Rightarrow> RiskLevel \<Rightarrow> bool" where
  "less_RiskLevel a b \<longleftrightarrow> risk_order a < risk_order b"

instance
proof
  fix x y z :: RiskLevel
  show "(x < y) = (x \<le> y \<and> \<not> y \<le> x)" by (auto simp: less_eq_RiskLevel_def less_RiskLevel_def)
  show "x \<le> x" by (simp add: less_eq_RiskLevel_def)
  show "x \<le> y \<Longrightarrow> y \<le> z \<Longrightarrow> x \<le> z" by (auto simp: less_eq_RiskLevel_def)
  show "x \<le> y \<Longrightarrow> y \<le> x \<Longrightarrow> x = y"
    by (cases x; cases y) (auto simp: less_eq_RiskLevel_def)
  show "x \<le> y \<or> y \<le> x" by (auto simp: less_eq_RiskLevel_def)
qed

end

record policyRule =
  pr_Verbs :: "string list"
  pr_Resources :: "string list"
  pr_APIGroups :: "string list"

record DerivedCapability =
  dc_Type :: string
  dc_Scope :: string

record subject =
  sub_Kind :: string
  sub_Name :: string
  sub_Namespace :: string

record roleRef =
  ref_Kind :: string
  ref_Name :: string

record RBACPath =
  path_BindingName :: string
  path_BindingKind :: string
  path_RoleName :: string
  path_RoleKind :: string
  path_RiskLevel :: RiskLevel

record RBACAnalysis =
  HasWrite :: bool
  an_RiskLevel :: RiskLevel
  Paths :: "RBACPath list"
  Evidence :: "string \<rightharpoonup> string"

record rbac_db =
  q_RoleBindings :: "string \<Rightarrow> string \<Rightarrow> (string, RoleBinding list) result"
  q_ClusterRoleBindings :: "string \<Rightarrow> (string, ClusterRoleBinding list) result"
  q_Role :: "string \<Rightarrow> string \<Rightarrow> string \<Rightarrow> Role option"
  q_ClusterRole :: "string \<Rightarrow> string \<Rightarrow> ClusterRole option"

subsection \<open>Helpers\<close>

fun contains :: "string list \<Rightarrow> string \<Rightarrow> bool" where
  "contains [] val = False"
| "contains (s # slice) val = (s = val \<or> contains slice val)"

fun containsAny :: "string list \<Rightarrow> string list \<Rightarrow> bool" where
  "containsAny slice [] = False"
| "containsAny slice (val # vals) = (contains slice val \<or> containsAny slice vals)"

definition toStringSlice :: "json option \<Rightarrow> string list" where
  "toStringSlice v = (case v of
     Some (JArr items) \<Rightarrow> List.map_filter (\<lambda>item. case item of JStr s \<Rightarrow> Some s | _ \<Rightarrow> None) items
   | _ \<Rightarrow> [])"

definition hasDangerousVerbs :: "string list \<Rightarrow> bool \<Rightarrow> bool" where
  "hasDangerousVerbs verbs hasWildcard \<longleftrightarrow>
     hasWildcard \<or> contains verbs ''create'' \<or> contains verbs ''update'' \<or>
     contains verbs ''patch'' \<or> contains verbs ''delete''"

definition HasSensitiveResources :: "string list \<Rightarrow> bool" where
  "HasSensitiveResources resources = containsAny resources
     [''secrets'',
      ''pods'', ''deployments'', ''daemonsets'',
      ''jobs'', ''cronjobs'', ''statefulsets'', ''replicasets'',
      ''pods/exec'', ''pods/portforward'', ''pods/proxy'', ''pods/attach'',
      ''clusterroles'', ''clusterrolebindings'',
      ''roles'', ''rolebindings'',
      ''serviceaccounts'',
      ''configmaps'', ''persistentvolumeclaims'', ''persistentvolumes'',
      ''endpoints'', ''services'', ''ingresses'']"

definition hasCriticalResources :: "string list \<Rightarrow> bool" where
  "hasCriticalResources resources = containsAny resources
     [''nodes'', ''nodes/proxy'', ''nodes/metrics'', ''nodes/stats'',
      ''serviceaccounts/token'', ''tokenreviews'',
      ''certificatesigningrequests'', ''certificatesigningrequests/approval'']"

definition maxRisk :: "RiskLevel \<Rightarrow> RiskLevel \<Rightarrow> RiskLevel" where
  "maxRisk a b = (if risk_order b > risk_order a then b else a)"

definition inferRBACScope :: "string list \<Rightarrow> string" where
  "inferRBACScope apiGroups =
     (if contains apiGroups ''*'' \<or> contains apiGroups [] then ''cluster'' else ''namespace'')"

definition isTableMissingError :: "string \<Rightarrow> bool" where
  "isTableMissingError msg \<longleftrightarrow>
     Contains msg ''does not exist'' \<or> Contains msg ''no such table'' \<or>
     Contains msg ''relation'' \<and> Contains msg ''does not exist''"

subsection \<open>Decoding of the JSON columns\<close>

definition decode_policyRule :: "json \<Rightarrow> policyRule option" where
  "decode_policyRule = decode_struct [''verbs'', ''resources'', ''apiGroups'']
     (\<lambda>f v r. if f = ''verbs'' then map_option (\<lambda>x. r\<lparr>pr_Verbs := x\<rparr>) (set_strings v)
        else if f = ''resources'' then map_option (\<lambda>x. r\<lparr>pr_Resources := x\<rparr>) (set_strings v)
        else map_option (\<lambda>x. r\<lparr>pr_APIGroups := x\<rparr>) (set_strings v))
     \<lparr>pr_Verbs = [], pr_Resources = [], pr_APIGroups = []\<rparr>"

definition decode_subject :: "json \<Rightarrow> subject option" where
  "decode_subject = decode_struct [''kind'', ''name'', ''namespace'']
     (\<lambda>f v r. if f = ''kind'' then map_option (\<lambda>x. r\<lparr>sub_Kind := x\<rparr>) (set_string v (sub_Kind r))
        else if f = ''name'' then map_option (\<lambda>x. r\<lparr>sub_Name := x\<rparr>) (set_string v (sub_Name r))
        else map_option (\<lambda>x. r\<lparr>sub_Namespace := x\<rparr>) (set_string v (sub_Namespace r)))
     \<lparr>sub_Kind = [], sub_Name = [], sub_Namespace = []\<rparr>"

definition decode_roleRef :: "json \<Rightarrow> roleRef option" where
  "decode_roleRef = decode_struct [''kind'', ''name'']
     (\<lambda>f v r. if f = ''kind'' then map_option (\<lambda>x. r\<lparr>ref_Kind := x\<rparr>) (set_string v (ref_Kind r))
        else map_option (\<lambda>x. r\<lparr>ref_Name := x\<rparr>) (set_string v (ref_Name r)))
     \<lparr>ref_Kind = [], ref_Name = []\<rparr>"

subsection \<open>Classification of one role\<close>

text \<open>The loop of \<open>ClassifyRoleRisk\<close> with its early returns.\<close>

fun classify_rules :: "RiskLevel \<Rightarrow> (string \<times> json) list list \<Rightarrow> RiskLevel" where
  "classify_rules highest [] = highest"
| "classify_rules highest (rule # rules) =
     (let verbs = toStringSlice (dyn_get rule ''verbs'');
          resources = toStringSlice (dyn_get rule ''resources'');
          apiGroups = toStringSlice (dyn_get rule ''apiGroups'');
          hasWildcardVerb = contains verbs ''*'';
          hasWildcardResource = contains resources ''*'';
          hasWildcardAPI = (contains apiGroups ''*'' \<or> contains apiGroups [])
      in if hasWildcardVerb \<and> hasWildcardResource then RiskLevelCritical
         else if containsAny verbs [''escalate'', ''bind'', ''impersonate''] then RiskLevelCritical
         else
           (let hasReadVerbs = (containsAny verbs [''get'', ''list'', ''watch''] \<or> hasWildcardVerb);
                highest1 = (if hasReadVerbs \<and> containsAny resources [''secrets'', ''*'']
                            then maxRisk highest RiskLevelHigh else highest);
                dangerousVerbs = hasDangerousVerbs verbs hasWildcardVerb;
                sensitiveResources = HasSensitiveResources resources
            in if dangerousVerbs \<and> hasCriticalResources resources then RiskLevelCritical
               else
                 (let highest2 = (if dangerousVerbs \<and> sensitiveResources \<and> hasWildcardAPI
                                  then maxRisk highest1 RiskLevelHigh else highest1);
                      highest3 = (if dangerousVerbs \<and> sensitiveResources
                                  then maxRisk highest2 RiskLevelMedium else highest2)
                  in classify_rules highest3 rules)))"

definition ClassifyRoleRisk :: "string \<Rightarrow> string \<Rightarrow> RiskLevel" where
  "ClassifyRoleRisk roleName rulesJSON =
     (let lower = ToLower roleName
      in if lower = ''cluster-admin'' \<or> Contains lower ''cluster-admin'' then RiskLevelCritical
         else if Contains lower ''admin'' then RiskLevelHigh
         else if rulesJSON = [] \<or> rulesJSON = ''null'' then RiskLevelNone
         else (case unmarshal (decode_list decode_dyn_map) rulesJSON of
                 None \<Rightarrow> RiskLevelNone
               | Some rules \<Rightarrow> classify_rules RiskLevelNone rules))"

definition write_verb :: "string \<Rightarrow> bool" where
  "write_verb verb = (let v = ToLower verb in
     v = ''*'' \<or> v = ''create'' \<or> v = ''update'' \<or> v = ''delete'' \<or> v = ''patch'')"

definition HasWriteVerbs :: "string \<Rightarrow> bool" where
  "HasWriteVerbs rulesJSON =
     (case unmarshal (decode_list decode_policyRule) rulesJSON of
        None \<Rightarrow> False
      | Some rules \<Rightarrow> list_ex (\<lambda>r. list_ex write_verb (pr_Verbs r)) rules)"

text \<open>
  The \<^verbatim>\<open>seen\<close> map of the Go closure is keyed by \<^verbatim>\<open>type:scope\<close>; no type contains a colon, so a key
  was seen exactly when the pair is already in the list.
\<close>

definition add_capability :: "string \<Rightarrow> string \<Rightarrow> DerivedCapability list \<Rightarrow> DerivedCapability list" where
  "add_capability t s caps =
     (if \<lparr>dc_Type = t, dc_Scope = s\<rparr> \<in> set caps then caps else caps @ [\<lparr>dc_Type = t, dc_Scope = s\<rparr>])"

definition rule_grants :: "policyRule \<Rightarrow> string list" where
  "rule_grants r =
     (let hasWild = contains (pr_Verbs r) ''*'';
          verbs = pr_Verbs r; resources = pr_Resources r
      in (if (containsAny verbs [''get'', ''list'', ''watch''] \<or> hasWild)
             \<and> containsAny resources [''secrets'', ''*''] then [''SECRET_READ''] else [])
       @ (if (contains verbs ''create'' \<or> hasWild)
             \<and> containsAny resources [''pods'', ''deployments'', ''daemonsets'', ''jobs'', ''cronjobs'',
                 ''statefulsets'', ''replicasets'', ''*''] then [''WORKLOAD_CREATE''] else [])
       @ (if containsAny resources [''pods/exec'']
             \<and> (containsAny verbs [''create'', ''get''] \<or> hasWild) then [''EXEC_ACCESS''] else [])
       @ (if containsAny resources [''nodes/proxy'', ''nodes'']
             \<and> (containsAny verbs [''create'', ''get''] \<or> hasWild) then [''NODE_PROXY''] else [])
       @ (if containsAny resources [''certificatesigningrequests'', ''certificatesigningrequests/approval'']
             \<and> (containsAny verbs [''update'', ''create'', ''approve''] \<or> hasWild)
          then [''CERT_ISSUE''] else []))"

definition rule_capabilities :: "DerivedCapability list \<Rightarrow> policyRule \<Rightarrow> DerivedCapability list" where
  "rule_capabilities caps r =
     foldl (\<lambda>cs t. add_capability t (inferRBACScope (pr_APIGroups r)) cs) caps (rule_grants r)"

definition DeriveCapabilities :: "string \<Rightarrow> DerivedCapability list" where
  "DeriveCapabilities rulesJSON =
     (if rulesJSON = [] \<or> rulesJSON = ''null'' then []
      else (case unmarshal (decode_list decode_policyRule) rulesJSON of
              None \<Rightarrow> []
            | Some rules \<Rightarrow> foldl rule_capabilities [] rules))"

subsection \<open>Analysis of a pod\<close>

definition bindingRefersToSA :: "string \<Rightarrow> string \<Rightarrow> string \<Rightarrow> bool" where
  "bindingRefersToSA subjectsJSON saName saNamespace =
     (case unmarshal (decode_list decode_subject) subjectsJSON of
        None \<Rightarrow> False
      | Some subs \<Rightarrow> list_ex (\<lambda>s. sub_Kind s = ''ServiceAccount'' \<and> sub_Name s = saName
                                \<and> sub_Namespace s = saNamespace) subs)"

text \<open>What both loops do with a resolved role: record the path, raise the level, note write access.\<close>

definition record_path :: "string \<Rightarrow> string \<Rightarrow> string \<Rightarrow> string \<Rightarrow> string \<Rightarrow> RBACAnalysis \<Rightarrow> RBACAnalysis" where
  "record_path bindingName bindingKind roleName roleKind rules a =
     (let rl = ClassifyRoleRisk roleName rules;
          path = \<lparr>path_BindingName = bindingName, path_BindingKind = bindingKind,
                  path_RoleName = roleName, path_RoleKind = roleKind, path_RiskLevel = rl\<rparr>;
          a1 = a\<lparr>Paths := Paths a @ [path], an_RiskLevel := maxRisk (an_RiskLevel a) rl\<rparr>
      in if HasWriteVerbs rules
         then a1\<lparr>HasWrite := True,
                 Evidence := (Evidence a)(''role'' \<mapsto> roleName, ''roleKind'' \<mapsto> roleKind)\<rparr>
         else a1)"

definition step_roleBinding :: "rbac_db \<Rightarrow> Pod \<Rightarrow> RBACAnalysis \<Rightarrow> RoleBinding \<Rightarrow> RBACAnalysis" where
  "step_roleBinding db pod a rb =
     (if \<not> bindingRefersToSA (rb_Subjects rb) (pod_ServiceAccount pod) (pod_Namespace pod) then a
      else (case unmarshal decode_roleRef (rb_RoleRef rb) of
         None \<Rightarrow> a
       | Some ref \<Rightarrow>
           if ref_Kind ref = ''Role'' then
             (case q_Role db (pod_ClusterID pod) (ref_Name ref) (pod_Namespace pod) of
                None \<Rightarrow> a
              | Some role \<Rightarrow> record_path (rb_Name rb) ''RoleBinding'' (role_Name role) ''Role'' (role_Rules role) a)
           else if ref_Kind ref = ''ClusterRole'' then
             (case q_ClusterRole db (pod_ClusterID pod) (ref_Name ref) of
                None \<Rightarrow> a
              | Some cr \<Rightarrow> record_path (rb_Name rb) ''RoleBinding'' (cr_Name cr) ''ClusterRole'' (cr_Rules cr) a)
           else a))"

definition step_clusterRoleBinding :: "rbac_db \<Rightarrow> Pod \<Rightarrow> RBACAnalysis \<Rightarrow> ClusterRoleBinding \<Rightarrow> RBACAnalysis" where
  "step_clusterRoleBinding db pod a crb =
     (if \<not> bindingRefersToSA (crb_Subjects crb) (pod_ServiceAccount pod) (pod_Namespace pod) then a
      else (case unmarshal decode_roleRef (crb_RoleRef crb) of
         None \<Rightarrow> a
       | Some ref \<Rightarrow>
           if ref_Kind ref \<noteq> ''ClusterRole'' then a
           else (case q_ClusterRole db (pod_ClusterID pod) (ref_Name ref) of
                   None \<Rightarrow> a
                 | Some cr \<Rightarrow> record_path (crb_Name crb) ''ClusterRoleBinding'' (cr_Name cr) ''ClusterRole''
                                (cr_Rules cr) a)))"

definition empty_analysis :: RBACAnalysis where
  "empty_analysis = \<lparr>HasWrite = False, an_RiskLevel = RiskLevelNone, Paths = [], Evidence = Map.empty\<rparr>"

text \<open>A missing table counts as an empty one; any other failure ends the analysis with the error.\<close>

definition rows_or_missing :: "(string, 'a list) result \<Rightarrow> (string, 'a list) result" where
  "rows_or_missing r = (case r of Inr rows \<Rightarrow> Inr rows
     | Inl err \<Rightarrow> (if isTableMissingError err then Inr [] else Inl err))"

definition AnalyzePod :: "rbac_db \<Rightarrow> Pod \<Rightarrow> (string, RBACAnalysis) result" where
  "AnalyzePod db pod =
     bind_result (rows_or_missing (q_RoleBindings db (pod_ClusterID pod) (pod_Namespace pod))) (\<lambda>roleBindings.
       let a1 = foldl (step_roleBinding db pod) empty_analysis roleBindings in
       bind_result (rows_or_missing (q_ClusterRoleBindings db (pod_ClusterID pod))) (\<lambda>clusterRoleBindings.
         Inr (foldl (step_clusterRoleBinding db pod) a1 clusterRoleBindings)))"

subsection \<open>What the classification computes\<close>

text \<open>
  The risk of one rule, stated without reference to the loop, and the theorem that the loop with
  its early returns takes the maximum of the rules' risks.
\<close>

definition rule_verbs :: "(string \<times> json) list \<Rightarrow> string set" where
  "rule_verbs rule = set (toStringSlice (dyn_get rule ''verbs''))"

definition rule_resources :: "(string \<times> json) list \<Rightarrow> string set" where
  "rule_resources rule = set (toStringSlice (dyn_get rule ''resources''))"

definition rule_groups :: "(string \<times> json) list \<Rightarrow> string set" where
  "rule_groups rule = set (toStringSlice (dyn_get rule ''apiGroups''))"

definition rule_mutates :: "(string \<times> json) list \<Rightarrow> bool" where
  "rule_mutates rule \<longleftrightarrow> rule_verbs rule \<inter> {''*'', ''create'', ''update'', ''patch'', ''delete''} \<noteq> {}"

definition rule_critical :: "(string \<times> json) list \<Rightarrow> bool" where
  "rule_critical rule \<longleftrightarrow>
     ''*'' \<in> rule_verbs rule \<and> ''*'' \<in> rule_resources rule
     \<or> rule_verbs rule \<inter> {''escalate'', ''bind'', ''impersonate''} \<noteq> {}
     \<or> rule_mutates rule \<and> hasCriticalResources (toStringSlice (dyn_get rule ''resources''))"

definition rule_sensitive :: "(string \<times> json) list \<Rightarrow> bool" where
  "rule_sensitive rule \<longleftrightarrow>
     rule_mutates rule \<and> HasSensitiveResources (toStringSlice (dyn_get rule ''resources''))"

definition rule_high :: "(string \<times> json) list \<Rightarrow> bool" where
  "rule_high rule \<longleftrightarrow>
     rule_verbs rule \<inter> {''*'', ''get'', ''list'', ''watch''} \<noteq> {}
       \<and> rule_resources rule \<inter> {''secrets'', ''*''} \<noteq> {}
     \<or> rule_sensitive rule \<and> rule_groups rule \<inter> {''*'', []} \<noteq> {}"

definition rule_risk :: "(string \<times> json) list \<Rightarrow> RiskLevel" where
  "rule_risk rule =
     (if rule_critical rule then RiskLevelCritical
      else if rule_high rule then RiskLevelHigh
      else if rule_sensitive rule then RiskLevelMedium
      else RiskLevelNone)"

lemma contains_iff [simp]: "contains slice val \<longleftrightarrow> val \<in> set slice"
  by (induction slice) auto

lemma containsAny_iff [simp]: "containsAny slice vals \<longleftrightarrow> (\<exists>v \<in> set vals. v \<in> set slice)"
  by (induction vals) auto

lemma maxRisk_eq_max [simp]: "maxRisk a b = max a b"
  by (cases a; cases b) (auto simp: maxRisk_def max_def less_eq_RiskLevel_def)

lemma RiskLevelNone_least [simp]: "RiskLevelNone \<le> a"
  by (simp add: less_eq_RiskLevel_def)

lemma RiskLevelCritical_greatest [simp]: "a \<le> RiskLevelCritical"
  by (cases a) (auto simp: less_eq_RiskLevel_def)

lemma max_RiskLevelCritical [simp]: "max a RiskLevelCritical = RiskLevelCritical" "max RiskLevelCritical a = RiskLevelCritical"
  by (simp_all add: max_def antisym)

lemma max_RiskLevelNone [simp]: "max a RiskLevelNone = a" "max RiskLevelNone a = a"
  by (simp_all add: max_def antisym)

lemma max_Medium_High [simp]: "max RiskLevelMedium RiskLevelHigh = RiskLevelHigh"
    "max RiskLevelHigh RiskLevelMedium = RiskLevelHigh"
  by (simp_all add: max_def less_eq_RiskLevel_def)

lemma fold_max_Critical: "fold max (ls :: RiskLevel list) RiskLevelCritical = RiskLevelCritical"
  by (induction ls) auto

lemma classify_rules_step:
  "classify_rules h (rule # rules) =
     (if rule_critical rule then RiskLevelCritical else classify_rules (max h (rule_risk rule)) rules)"
proof -
  let ?v = "toStringSlice (dyn_get rule ''verbs'')"
  let ?r = "toStringSlice (dyn_get rule ''resources'')"
  let ?g = "toStringSlice (dyn_get rule ''apiGroups'')"
  define wild where "wild \<longleftrightarrow> contains ?v ''*'' \<and> contains ?r ''*''"
  define esc where "esc \<longleftrightarrow> containsAny ?v [''escalate'', ''bind'', ''impersonate'']"
  define reads where "reads \<longleftrightarrow> (containsAny ?v [''get'', ''list'', ''watch''] \<or> contains ?v ''*'')
      \<and> containsAny ?r [''secrets'', ''*'']"
  define api where "api \<longleftrightarrow> contains ?g ''*'' \<or> contains ?g []"
  define mut where "mut \<longleftrightarrow> hasDangerousVerbs ?v (contains ?v ''*'')"
  note defs = wild_def [symmetric] esc_def [symmetric] reads_def [symmetric] api_def [symmetric]
    mut_def [symmetric]
  have mutates: "rule_mutates rule \<longleftrightarrow> mut"
    by (auto simp: rule_mutates_def mut_def hasDangerousVerbs_def rule_verbs_def)
  have sens: "rule_sensitive rule \<longleftrightarrow> mut \<and> HasSensitiveResources ?r"
    by (simp add: rule_sensitive_def mutates)
  have crit: "rule_critical rule \<longleftrightarrow> wild \<or> esc \<or> mut \<and> hasCriticalResources ?r"
    by (auto simp: rule_critical_def mutates wild_def esc_def rule_verbs_def rule_resources_def)
  have high: "rule_high rule \<longleftrightarrow> reads \<or> mut \<and> HasSensitiveResources ?r \<and> api"
    by (auto simp: rule_high_def sens reads_def api_def rule_verbs_def rule_resources_def rule_groups_def)
  show ?thesis
    unfolding rule_risk_def crit high sens classify_rules.simps Let_def defs
    by (cases wild; cases esc; cases reads; cases mut; cases "HasSensitiveResources ?r"; cases api)
       (simp_all add: max.assoc)
qed

lemma classify_rules_eq_fold: "classify_rules h rules = fold max (map rule_risk rules) h"
  by (induction rules arbitrary: h)
     (simp_all add: classify_rules_step rule_risk_def fold_max_Critical max.commute del: classify_rules.simps(2))

lemma unmarshal_null_list [simp]: "unmarshal (decode_list f) ''null'' = Some []"
proof -
  have "json_parse ''null'' = Some JNull" by code_simp
  then show ?thesis by (simp add: unmarshal_def decode_list_def)
qed

text \<open>
  The risk of a role is critical when its name contains \<^verbatim>\<open>cluster-admin\<close>, else high when it contains
  \<^verbatim>\<open>admin\<close>, else the maximum of its rules' risks, and none when the rules cannot be decoded: the
  early returns of the loop and the tests for an empty text change nothing.
\<close>

lemma ClassifyRoleRisk_is_max:
  "ClassifyRoleRisk roleName rulesJSON =
     (if Contains (ToLower roleName) ''cluster-admin'' then RiskLevelCritical
      else if Contains (ToLower roleName) ''admin'' then RiskLevelHigh
      else case unmarshal (decode_list decode_dyn_map) rulesJSON of
             None \<Rightarrow> RiskLevelNone
           | Some rules \<Rightarrow> fold max (map rule_risk rules) RiskLevelNone)"
  by (auto simp: ClassifyRoleRisk_def Let_def classify_rules_eq_fold split: option.splits)

subsection \<open>Derived capabilities\<close>

lemma set_add_capability [simp]:
  "set (add_capability t s caps) = insert \<lparr>dc_Type = t, dc_Scope = s\<rparr> (set caps)"
  by (auto simp: add_capability_def)

lemma distinct_add_capability: "distinct caps \<Longrightarrow> distinct (add_capability t s caps)"
  by (simp add: add_capability_def)

lemma set_rule_capabilities:
  "set (rule_capabilities caps r) =
     set caps \<union> (\<lambda>t. \<lparr>dc_Type = t, dc_Scope = inferRBACScope (pr_APIGroups r)\<rparr>) ` set (rule_grants r)"
proof -
  have "set (foldl (\<lambda>cs t. add_capability t sc cs) caps ts) =
      set caps \<union> (\<lambda>t. \<lparr>dc_Type = t, dc_Scope = sc\<rparr>) ` set ts" for ts sc
    by (induction ts arbitrary: caps) auto
  then show ?thesis by (simp add: rule_capabilities_def)
qed

lemma distinct_rule_capabilities: "distinct caps \<Longrightarrow> distinct (rule_capabilities caps r)"
  unfolding rule_capabilities_def by (rule foldl_invariant) (auto intro: distinct_add_capability)

lemma set_foldl_rule_capabilities:
  "set (foldl rule_capabilities caps rules) = set caps \<union>
     (\<Union>r \<in> set rules. (\<lambda>t. \<lparr>dc_Type = t, dc_Scope = inferRBACScope (pr_APIGroups r)\<rparr>) ` set (rule_grants r))"
  by (induction rules arbitrary: caps) (auto simp: set_rule_capabilities)

text \<open>
  The derived capabilities are listed without repetition, and a capability is listed exactly
  when some decoded rule grants it, with the scope of that rule's API groups.
\<close>

lemma DeriveCapabilities_correct:
  "distinct (DeriveCapabilities rulesJSON) \<and>
   set (DeriveCapabilities rulesJSON) =
     {\<lparr>dc_Type = t, dc_Scope = inferRBACScope (pr_APIGroups r)\<rparr> | t r rules.
        unmarshal (decode_list decode_policyRule) rulesJSON = Some rules \<and> r \<in> set rules
        \<and> t \<in> set (rule_grants r)}"
proof
  have "distinct (foldl rule_capabilities [] rules)" for rules
    by (rule foldl_invariant [where P = distinct]) (auto intro: distinct_rule_capabilities)
  then show "distinct (DeriveCapabilities rulesJSON)"
    by (simp add: DeriveCapabilities_def split: option.split)
  show "set (DeriveCapabilities rulesJSON) =
     {\<lparr>dc_Type = t, dc_Scope = inferRBACScope (pr_APIGroups r)\<rparr> | t r rules.
        unmarshal (decode_list decode_policyRule) rulesJSON = Some rules \<and> r \<in> set rules
        \<and> t \<in> set (rule_grants r)}"
  proof (cases "unmarshal (decode_list decode_policyRule) rulesJSON")
    case None
    then show ?thesis by (simp add: DeriveCapabilities_def)
  next
    case (Some rules)
    then have "DeriveCapabilities rulesJSON = foldl rule_capabilities [] rules"
      by (auto simp: DeriveCapabilities_def)
    with Some show ?thesis by (auto simp: set_foldl_rule_capabilities)
  qed
qed

subsection \<open>What the analysis of a pod computes\<close>

text \<open>
  A grant is a binding that names the pod's service account, resolved to its role. The analysis
  is a function of the list of grants alone: bindings in the order the queries return them, those
  of the namespace first.
\<close>

record grant =
  g_BindingName :: string
  g_BindingKind :: string
  g_RoleName :: string
  g_RoleKind :: string
  g_Rules :: string

definition roleBinding_grant :: "rbac_db \<Rightarrow> Pod \<Rightarrow> RoleBinding \<Rightarrow> grant option" where
  "roleBinding_grant db pod rb =
     (if bindingRefersToSA (rb_Subjects rb) (pod_ServiceAccount pod) (pod_Namespace pod)
      then Option.bind (unmarshal decode_roleRef (rb_RoleRef rb)) (\<lambda>ref.
        if ref_Kind ref = ''Role'' then
          map_option (\<lambda>role. \<lparr>g_BindingName = rb_Name rb, g_BindingKind = ''RoleBinding'',
              g_RoleName = role_Name role, g_RoleKind = ''Role'', g_Rules = role_Rules role\<rparr>)
            (q_Role db (pod_ClusterID pod) (ref_Name ref) (pod_Namespace pod))
        else if ref_Kind ref = ''ClusterRole'' then
          map_option (\<lambda>cr. \<lparr>g_BindingName = rb_Name rb, g_BindingKind = ''RoleBinding'',
              g_RoleName = cr_Name cr, g_RoleKind = ''ClusterRole'', g_Rules = cr_Rules cr\<rparr>)
            (q_ClusterRole db (pod_ClusterID pod) (ref_Name ref))
        else None)
      else None)"

definition clusterRoleBinding_grant :: "rbac_db \<Rightarrow> Pod \<Rightarrow> ClusterRoleBinding \<Rightarrow> grant option" where
  "clusterRoleBinding_grant db pod crb =
     (if bindingRefersToSA (crb_Subjects crb) (pod_ServiceAccount pod) (pod_Namespace pod)
      then Option.bind (unmarshal decode_roleRef (crb_RoleRef crb)) (\<lambda>ref.
        if ref_Kind ref = ''ClusterRole'' then
          map_option (\<lambda>cr. \<lparr>g_BindingName = crb_Name crb, g_BindingKind = ''ClusterRoleBinding'',
              g_RoleName = cr_Name cr, g_RoleKind = ''ClusterRole'', g_Rules = cr_Rules cr\<rparr>)
            (q_ClusterRole db (pod_ClusterID pod) (ref_Name ref))
        else None)
      else None)"

definition pod_grants :: "rbac_db \<Rightarrow> Pod \<Rightarrow> (string, grant list) result" where
  "pod_grants db pod =
     bind_result (rows_or_missing (q_RoleBindings db (pod_ClusterID pod) (pod_Namespace pod))) (\<lambda>rbs.
     bind_result (rows_or_missing (q_ClusterRoleBindings db (pod_ClusterID pod))) (\<lambda>crbs.
       Inr (List.map_filter (roleBinding_grant db pod) rbs
            @ List.map_filter (clusterRoleBinding_grant db pod) crbs)))"

definition grant_path :: "grant \<Rightarrow> RBACPath" where
  "grant_path g = \<lparr>path_BindingName = g_BindingName g, path_BindingKind = g_BindingKind g,
     path_RoleName = g_RoleName g, path_RoleKind = g_RoleKind g,
     path_RiskLevel = ClassifyRoleRisk (g_RoleName g) (g_Rules g)\<rparr>"

definition write_evidence :: "grant list \<Rightarrow> string \<rightharpoonup> string" where
  "write_evidence gs = (case filter (\<lambda>g. HasWriteVerbs (g_Rules g)) gs of
     [] \<Rightarrow> Map.empty
   | ws \<Rightarrow> [''role'' \<mapsto> g_RoleName (last ws), ''roleKind'' \<mapsto> g_RoleKind (last ws)])"

definition grants_analysis :: "grant list \<Rightarrow> RBACAnalysis" where
  "grants_analysis gs =
     \<lparr>HasWrite = list_ex (\<lambda>g. HasWriteVerbs (g_Rules g)) gs,
      an_RiskLevel = fold max (map (\<lambda>g. ClassifyRoleRisk (g_RoleName g) (g_Rules g)) gs) RiskLevelNone,
      Paths = map grant_path gs,
      Evidence = write_evidence gs\<rparr>"

definition record_grant :: "RBACAnalysis \<Rightarrow> grant \<Rightarrow> RBACAnalysis" where
  "record_grant a g =
     record_path (g_BindingName g) (g_BindingKind g) (g_RoleName g) (g_RoleKind g) (g_Rules g) a"

lemma step_roleBinding_grant:
  "step_roleBinding db pod a rb = (case roleBinding_grant db pod rb of None \<Rightarrow> a | Some g \<Rightarrow> record_grant a g)"
  by (auto simp: step_roleBinding_def roleBinding_grant_def record_grant_def split: option.splits
      Option.bind_splits)

lemma step_clusterRoleBinding_grant:
  "step_clusterRoleBinding db pod a crb =
     (case clusterRoleBinding_grant db pod crb of None \<Rightarrow> a | Some g \<Rightarrow> record_grant a g)"
  by (auto simp: step_clusterRoleBinding_def clusterRoleBinding_grant_def record_grant_def
      split: option.splits Option.bind_splits)

lemma record_grant_snoc: "record_grant (grants_analysis gs) g = grants_analysis (gs @ [g])"
  by (auto simp: record_grant_def grants_analysis_def record_path_def Let_def grant_path_def max.commute
      write_evidence_def fun_eq_iff split: list.splits)

lemma foldl_record_grant: "foldl record_grant (grants_analysis gs) hs = grants_analysis (gs @ hs)"
  by (induction hs arbitrary: gs) (simp_all add: record_grant_snoc)

lemma empty_analysis_eq: "empty_analysis = grants_analysis []"
  by (simp add: empty_analysis_def grants_analysis_def write_evidence_def)

lemma AnalyzePod_grants:
  "AnalyzePod db pod = bind_result (pod_grants db pod) (\<lambda>gs. Inr (grants_analysis gs))"
proof -
  have "foldl (step_roleBinding db pod) a rbs =
      foldl record_grant a (List.map_filter (roleBinding_grant db pod) rbs)" for a rbs
    by (simp add: foldl_map_filter [symmetric] step_roleBinding_grant [abs_def])
  moreover have "foldl (step_clusterRoleBinding db pod) a crbs =
      foldl record_grant a (List.map_filter (clusterRoleBinding_grant db pod) crbs)" for a crbs
    by (simp add: foldl_map_filter [symmetric] step_clusterRoleBinding_grant [abs_def])
  ultimately show ?thesis
    by (cases "rows_or_missing (q_RoleBindings db (pod_ClusterID pod) (pod_Namespace pod))";
        cases "rows_or_missing (q_ClusterRoleBindings db (pod_ClusterID pod))")
       (simp_all add: AnalyzePod_def pod_grants_def Let_def empty_analysis_eq foldl_record_grant)
qed

text \<open>
  C1. \<open>AnalyzePod\<close> refines its specification: it fails exactly when one of the two binding queries
  fails with something other than a missing table; otherwise it reports one path per grant in
  order, the maximum of the grants' risks, write access exactly when some granted role has a
  mutating verb, and as evidence the last such role.
\<close>

theorem AnalyzePod_refines_grants:
  "AnalyzePod db pod = bind_result (pod_grants db pod) (\<lambda>gs. Inr (grants_analysis gs))"
  by (rule AnalyzePod_grants)

text \<open>
  The name test comes first: a role that grants every verb on every resource is classified
  critical, but only high once its name contains \<^verbatim>\<open>admin\<close> without \<^verbatim>\<open>cluster-admin\<close>.
\<close>

lemma admin_name_masks_wildcard_rules:
  "ClassifyRoleRisk ''ops'' ''[{\"verbs\":[\"*\"],\"resources\":[\"*\"]}]'' = RiskLevelCritical \<and>
   ClassifyRoleRisk ''ops-admin'' ''[{\"verbs\":[\"*\"],\"resources\":[\"*\"]}]'' = RiskLevelHigh"
  by code_simp

end
