(* ===== verification/Rbac_Inventory.thy ===== *)
theory Rbac_Inventory
  imports Go_Json Models
begin

section \<open>Resolution of synchronized RBAC grants: core/pkg/rbacinventory/resolver.go\<close>

text \<open>
  \<open>Resolve\<close> reads the four RBAC tables of a cluster (parameters: each a query result) and
  resolves every binding that names a service account to its role and rules. The dereference
  of the cluster role in the second loop is a branch of the model that returns \<open>NilDereference\<close>.
  \<open>k8s_subject\<close> and \<open>k8s_roleRef\<close> are \<^verbatim>\<open>rbacv1.Subject\<close> and \<^verbatim>\<open>rbacv1.RoleRef\<close>.
\<close>

record k8s_subject =
  ks_Kind :: string
  ks_APIGroup :: string
  ks_Name :: string
  ks_Namespace :: string

record k8s_roleRef =
  kr_APIGroup :: string
  kr_Kind :: string
  kr_Name :: string

record Rule =
  rule_Verbs :: "string list"
  rule_APIGroups :: "string list"
  rule_Resources :: "string list"
  rule_ResourceNames :: "string list"
  rule_NonResourceURLs :: "string list"
  rule_Scope :: string
  rule_Namespace :: string
  rule_BindingKind :: string
  rule_BindingName :: string

record RoleBindingPermission =
  rbp_RoleBinding :: RoleBinding
  rbp_Role :: "Role option"
  rbp_ClusterRole :: "ClusterRole option"

record ClusterRoleBindingPermission =
  crbp_ClusterRoleBinding :: ClusterRoleBinding
  crbp_ClusterRole :: ClusterRole

record ServiceAccountPermissions =
  sap_ServiceAccountID :: nat
  sap_ServiceAccountUID :: string
  sap_ClusterID :: string
  sap_RoleBindings :: "RoleBindingPermission list"
  sap_ClusterRoleBindings :: "ClusterRoleBindingPermission list"
  sap_EffectiveRules :: "Rule list"

datatype resolve_error =
  QueryFailed string | InvalidSubjects | InvalidRefJSON | InvalidRoleRef
| ClusterBindingReferencesRole | RoleNotSynchronized | ClusterRoleNotSynchronized
| InvalidRoleKind | InvalidRulesJSON | NilDereference

definition GroupName :: string where
  "GroupName = ''rbac.authorization.k8s.io''"

definition SubjectMatches :: "k8s_subject \<Rightarrow> string \<Rightarrow> ServiceAccount \<Rightarrow> bool" where
  "SubjectMatches subject namespace sa =
     (if ks_Kind subject = ''ServiceAccount'' then
        (if ks_APIGroup subject \<noteq> [] then False
         else (let ns = (if ks_Namespace subject = [] then namespace else ks_Namespace subject)
               in ns \<noteq> [] \<and> ns = sa_Namespace sa \<and> ks_Name subject = sa_Name sa))
      else if ks_Kind subject = ''User'' then
        ks_APIGroup subject = GroupName
        \<and> ks_Name subject = ''system:serviceaccount:'' @ sa_Namespace sa @ '':'' @ sa_Name sa
      else if ks_Kind subject = ''Group'' then
        (if ks_APIGroup subject \<noteq> GroupName then False
         else ks_Name subject = ''system:serviceaccounts''
           \<or> ks_Name subject = ''system:serviceaccounts:'' @ sa_Namespace sa
           \<or> ks_Name subject = ''system:authenticated'')
      else False)"

subsection \<open>Decoding\<close>

definition decode_k8s_subject :: "json \<Rightarrow> k8s_subject option" where
  "decode_k8s_subject = decode_struct [''kind'', ''apiGroup'', ''name'', ''namespace'']
     (\<lambda>f v r. if f = ''kind'' then map_option (\<lambda>x. r\<lparr>ks_Kind := x\<rparr>) (set_string v (ks_Kind r))
        else if f = ''apiGroup'' then map_option (\<lambda>x. r\<lparr>ks_APIGroup := x\<rparr>) (set_string v (ks_APIGroup r))
        else if f = ''name'' then map_option (\<lambda>x. r\<lparr>ks_Name := x\<rparr>) (set_string v (ks_Name r))
        else map_option (\<lambda>x. r\<lparr>ks_Namespace := x\<rparr>) (set_string v (ks_Namespace r)))
     \<lparr>ks_Kind = [], ks_APIGroup = [], ks_Name = [], ks_Namespace = []\<rparr>"

definition decode_k8s_roleRef :: "json \<Rightarrow> k8s_roleRef option" where
  "decode_k8s_roleRef = decode_struct [''apiGroup'', ''kind'', ''name'']
     (\<lambda>f v r. if f = ''apiGroup'' then map_option (\<lambda>x. r\<lparr>kr_APIGroup := x\<rparr>) (set_string v (kr_APIGroup r))
        else if f = ''kind'' then map_option (\<lambda>x. r\<lparr>kr_Kind := x\<rparr>) (set_string v (kr_Kind r))
        else map_option (\<lambda>x. r\<lparr>kr_Name := x\<rparr>) (set_string v (kr_Name r)))
     \<lparr>kr_APIGroup = [], kr_Kind = [], kr_Name = []\<rparr>"

definition decode_Rule :: "json \<Rightarrow> Rule option" where
  "decode_Rule = decode_struct
     [''verbs'', ''apiGroups'', ''resources'', ''resourceNames'', ''nonResourceURLs'', ''scope'',
      ''namespace'', ''bindingKind'', ''bindingName'']
     (\<lambda>f v r. if f = ''verbs'' then map_option (\<lambda>x. r\<lparr>rule_Verbs := x\<rparr>) (set_strings v)
        else if f = ''apiGroups'' then map_option (\<lambda>x. r\<lparr>rule_APIGroups := x\<rparr>) (set_strings v)
        else if f = ''resources'' then map_option (\<lambda>x. r\<lparr>rule_Resources := x\<rparr>) (set_strings v)
        else if f = ''resourceNames'' then map_option (\<lambda>x. r\<lparr>rule_ResourceNames := x\<rparr>) (set_strings v)
        else if f = ''nonResourceURLs'' then map_option (\<lambda>x. r\<lparr>rule_NonResourceURLs := x\<rparr>) (set_strings v)
        else if f = ''scope'' then map_option (\<lambda>x. r\<lparr>rule_Scope := x\<rparr>) (set_string v (rule_Scope r))
        else if f = ''namespace'' then map_option (\<lambda>x. r\<lparr>rule_Namespace := x\<rparr>) (set_string v (rule_Namespace r))
        else if f = ''bindingKind'' then map_option (\<lambda>x. r\<lparr>rule_BindingKind := x\<rparr>) (set_string v (rule_BindingKind r))
        else map_option (\<lambda>x. r\<lparr>rule_BindingName := x\<rparr>) (set_string v (rule_BindingName r)))
     \<lparr>rule_Verbs = [], rule_APIGroups = [], rule_Resources = [], rule_ResourceNames = [],
      rule_NonResourceURLs = [], rule_Scope = [], rule_Namespace = [], rule_BindingKind = [],
      rule_BindingName = []\<rparr>"

subsection \<open>Resolution\<close>

text \<open>The lookup maps; a later row of the same key replaces an earlier one.\<close>

definition roleByName :: "Role list \<Rightarrow> string \<times> string \<Rightarrow> Role option" where
  "roleByName roles = map_of (rev (map (\<lambda>r. ((role_Namespace r, role_Name r), r)) roles))"

definition clusterRoleByName :: "ClusterRole list \<Rightarrow> string \<Rightarrow> ClusterRole option" where
  "clusterRoleByName crs = map_of (rev (map (\<lambda>r. (cr_Name r, r)) crs))"

text \<open>The body of the last loop of the closure: one decoded rule as it enters the result.\<close>

definition effective_rule :: "string \<Rightarrow> string \<Rightarrow> string \<Rightarrow> Rule \<Rightarrow> Rule option" where
  "effective_rule namespace kind name rule =
     (let r = rule\<lparr>rule_Scope := ''cluster'', rule_Namespace := [], rule_BindingKind := kind,
                   rule_BindingName := name\<rparr>
      in if kind = ''RoleBinding'' then
           (let r' = r\<lparr>rule_Scope := ''namespace'', rule_Namespace := namespace, rule_NonResourceURLs := []\<rparr>
            in if rule_Resources r' = [] then None else Some r')
         else Some r)"

text \<open>
  The closure \<^verbatim>\<open>resolve\<close>: \<open>Inr None\<close> when no subject matches, otherwise the role, the cluster role
  and the rules it appends.
\<close>

definition resolve ::
  "Role list \<Rightarrow> ClusterRole list \<Rightarrow> ServiceAccount \<Rightarrow> string \<Rightarrow> string \<Rightarrow> string \<Rightarrow> string \<Rightarrow> string
     \<Rightarrow> (resolve_error, (Role option \<times> ClusterRole option \<times> Rule list) option) result" where
  "resolve roles clusterRoles sa subjectJSON refJSON namespace kind name =
     (case unmarshal (decode_list decode_k8s_subject) subjectJSON of
        None \<Rightarrow> Inl InvalidSubjects
      | Some subjects \<Rightarrow>
          if \<not> list_ex (\<lambda>s. SubjectMatches s namespace sa) subjects then Inr None
          else (case unmarshal decode_k8s_roleRef refJSON of
             None \<Rightarrow> Inl InvalidRefJSON
           | Some ref \<Rightarrow>
               if kr_APIGroup ref \<noteq> GroupName \<or> kr_Name ref = [] then Inl InvalidRoleRef
               else bind_result
                 (if kr_Kind ref = ''Role'' then
                    (if kind \<noteq> ''RoleBinding'' then Inl ClusterBindingReferencesRole
                     else (case roleByName roles (namespace, kr_Name ref) of
                             None \<Rightarrow> Inl RoleNotSynchronized
                           | Some role \<Rightarrow> Inr (Some role, None, role_Rules role)))
                  else if kr_Kind ref = ''ClusterRole'' then
                    (case clusterRoleByName clusterRoles (kr_Name ref) of
                       None \<Rightarrow> Inl ClusterRoleNotSynchronized
                     | Some cr \<Rightarrow> Inr (None, Some cr, cr_Rules cr))
                  else Inl InvalidRoleKind)
                 (\<lambda>(role, cr, rawRules).
                    case unmarshal (decode_list decode_Rule) rawRules of
                      None \<Rightarrow> Inl InvalidRulesJSON
                    | Some rules \<Rightarrow>
                        Inr (Some (role, cr, List.map_filter (effective_rule namespace kind name) rules)))))"

definition resolve_roleBinding ::
  "Role list \<Rightarrow> ClusterRole list \<Rightarrow> ServiceAccount \<Rightarrow> ServiceAccountPermissions \<Rightarrow> RoleBinding
     \<Rightarrow> (resolve_error, ServiceAccountPermissions) result" where
  "resolve_roleBinding roles crs sa out rb =
     bind_result (resolve roles crs sa (rb_Subjects rb) (rb_RoleRef rb) (rb_Namespace rb) ''RoleBinding'' (rb_Name rb))
       (\<lambda>res. case res of
          None \<Rightarrow> Inr out
        | Some (role, cr, rules) \<Rightarrow>
            Inr (out\<lparr>sap_EffectiveRules := sap_EffectiveRules out @ rules,
                     sap_RoleBindings := sap_RoleBindings out
                       @ [\<lparr>rbp_RoleBinding = rb, rbp_Role = role, rbp_ClusterRole = cr\<rparr>]\<rparr>))"

definition resolve_clusterRoleBinding ::
  "Role list \<Rightarrow> ClusterRole list \<Rightarrow> ServiceAccount \<Rightarrow> ServiceAccountPermissions \<Rightarrow> ClusterRoleBinding
     \<Rightarrow> (resolve_error, ServiceAccountPermissions) result" where
  "resolve_clusterRoleBinding roles crs sa out crb =
     bind_result (resolve roles crs sa (crb_Subjects crb) (crb_RoleRef crb) [] ''ClusterRoleBinding'' (crb_Name crb))
       (\<lambda>res. case res of
          None \<Rightarrow> Inr out
        | Some (role, None, rules) \<Rightarrow> Inl NilDereference
        | Some (role, Some c, rules) \<Rightarrow>
            Inr (out\<lparr>sap_EffectiveRules := sap_EffectiveRules out @ rules,
                     sap_ClusterRoleBindings := sap_ClusterRoleBindings out
                       @ [\<lparr>crbp_ClusterRoleBinding = crb, crbp_ClusterRole = c\<rparr>]\<rparr>))"

record inventory_tables =
  t_rbs :: "(string, RoleBinding list) result"
  t_crbs :: "(string, ClusterRoleBinding list) result"
  t_roles :: "(string, Role list) result"
  t_clusterRoles :: "(string, ClusterRole list) result"

definition query :: "(string, 'a) result \<Rightarrow> (resolve_error, 'a) result" where
  "query r = (case r of Inl e \<Rightarrow> Inl (QueryFailed e) | Inr x \<Rightarrow> Inr x)"

definition empty_permissions :: "ServiceAccount \<Rightarrow> ServiceAccountPermissions" where
  "empty_permissions sa = \<lparr>sap_ServiceAccountID = sa_ID sa, sap_ServiceAccountUID = sa_UID sa,
     sap_ClusterID = sa_ClusterID sa, sap_RoleBindings = [], sap_ClusterRoleBindings = [],
     sap_EffectiveRules = []\<rparr>"

definition Resolve :: "inventory_tables \<Rightarrow> ServiceAccount \<Rightarrow> (resolve_error, ServiceAccountPermissions) result" where
  "Resolve t sa =
     bind_result (query (t_rbs t)) (\<lambda>rbs.
     bind_result (query (t_crbs t)) (\<lambda>crbs.
     bind_result (query (t_roles t)) (\<lambda>roles.
     bind_result (query (t_clusterRoles t)) (\<lambda>clusterRoles.
     bind_result (foldM (resolve_roleBinding roles clusterRoles sa) (empty_permissions sa) rbs) (\<lambda>out.
       foldM (resolve_clusterRoleBinding roles clusterRoles sa) out crbs)))))"

definition HasClusterAdminBinding :: "ServiceAccountPermissions \<Rightarrow> bool" where
  "HasClusterAdminBinding p =
     list_ex (\<lambda>b. cr_Name (crbp_ClusterRole b) = ''cluster-admin'') (sap_ClusterRoleBindings p)"

subsection \<open>Lemmas\<close>

lemma resolve_cluster_has_clusterRole:
  "resolve roles crs sa sj rj ns ''ClusterRoleBinding'' nm = Inr (Some (role, cr, rules)) \<Longrightarrow> cr \<noteq> None"
  by (auto simp: resolve_def go_result_simps split: option.split_asm if_split_asm)

lemma resolve_not_nil: "resolve roles crs sa sj rj ns kind nm \<noteq> Inl NilDereference"
  by (auto simp: resolve_def go_result_simps split: option.splits if_splits)

text \<open>
  The meaning of the four tables, stated without the code: which subject names an account, which
  row a reference denotes (the last of its name) and which rule a binding grants.
\<close>

definition names_account :: "ServiceAccount \<Rightarrow> string \<Rightarrow> k8s_subject \<Rightarrow> bool" where
  "names_account sa bindingNamespace s \<longleftrightarrow>
     ks_Kind s = ''ServiceAccount'' \<and> ks_APIGroup s = [] \<and> ks_Name s = sa_Name sa
       \<and> sa_Namespace sa \<noteq> []
       \<and> (ks_Namespace s = sa_Namespace sa \<or> ks_Namespace s = [] \<and> bindingNamespace = sa_Namespace sa)
     \<or> (ks_Kind s, ks_APIGroup s, ks_Name s)
         \<in> {(''User'', ''rbac.authorization.k8s.io'',
                ''system:serviceaccount:'' @ sa_Namespace sa @ '':'' @ sa_Name sa),
             (''Group'', ''rbac.authorization.k8s.io'', ''system:serviceaccounts''),
             (''Group'', ''rbac.authorization.k8s.io'', ''system:serviceaccounts:'' @ sa_Namespace sa),
             (''Group'', ''rbac.authorization.k8s.io'', ''system:authenticated'')}"

lemma SubjectMatches_names_account: "SubjectMatches s ns sa \<longleftrightarrow> names_account sa ns s"
  by (auto simp: SubjectMatches_def names_account_def GroupName_def Let_def)

definition last_such :: "('a \<Rightarrow> bool) \<Rightarrow> 'a list \<Rightarrow> 'a \<Rightarrow> bool" where
  "last_such P xs x \<longleftrightarrow> (\<exists>us vs. xs = us @ x # vs \<and> P x \<and> (\<forall>y \<in> set vs. \<not> P y))"

lemma last_such_snoc: "last_such P (xs @ [y]) x \<longleftrightarrow> (if P y then x = y else last_such P xs x)"
proof (cases "P y")
  case True
  have "us @ x # vs = xs @ [y] \<Longrightarrow> \<forall>z \<in> set vs. \<not> P z \<Longrightarrow> vs = []" for us vs
    using True by (cases vs rule: rev_cases) auto
  with True show ?thesis
    unfolding last_such_def by (auto simp: eq_commute [of "xs @ [y]"] intro: exI [of _ xs])
next
  case False
  have "(\<exists>us vs. xs @ [y] = us @ x # vs \<and> P x \<and> (\<forall>z \<in> set vs. \<not> P z))
          \<longleftrightarrow> (\<exists>us vs. xs = us @ x # vs \<and> P x \<and> (\<forall>z \<in> set vs. \<not> P z))" (is "?L = ?R")
  proof
    assume ?L
    then obtain us vs where *: "xs @ [y] = us @ x # vs" "P x" "\<forall>z \<in> set vs. \<not> P z" by blast
    with False show ?R by (cases vs rule: rev_cases) auto
  next
    assume ?R
    then obtain us vs where "xs = us @ x # vs" "P x" "\<forall>z \<in> set vs. \<not> P z" by blast
    with False have "xs @ [y] = us @ x # (vs @ [y]) \<and> P x \<and> (\<forall>z \<in> set (vs @ [y]). \<not> P z)" by simp
    then show ?L by blast
  qed
  with False show ?thesis by (simp add: last_such_def)
qed

lemma map_of_rev_last:
  "map_of (rev (map (\<lambda>r. (f r, r)) xs)) k = Some x \<longleftrightarrow> last_such (\<lambda>r. f r = k) xs x"
proof (induction xs rule: rev_induct)
  case Nil
  show ?case by (simp add: last_such_def)
next
  case (snoc y xs)
  then show ?case by (auto simp: last_such_snoc)
qed

lemma roleByName_last:
  "roleByName roles (ns, n) = Some r \<longleftrightarrow> last_such (\<lambda>r. role_Namespace r = ns \<and> role_Name r = n) roles r"
  unfolding roleByName_def map_of_rev_last by simp

lemma clusterRoleByName_last:
  "clusterRoleByName crs n = Some c \<longleftrightarrow> last_such (\<lambda>c. cr_Name c = n) crs c"
  unfolding clusterRoleByName_def map_of_rev_last by simp

definition binds_account :: "ServiceAccount \<Rightarrow> string \<Rightarrow> string \<Rightarrow> bool" where
  "binds_account sa bindingNamespace subjectJSON \<longleftrightarrow>
     (\<exists>subjects s. unmarshal (decode_list decode_k8s_subject) subjectJSON = Some subjects
        \<and> s \<in> set subjects \<and> names_account sa bindingNamespace s)"

text \<open>
  The rules document of the role a reference denotes; \<open>Some ns\<close> is the namespace of a RoleBinding,
  \<open>None\<close> stands for a ClusterRoleBinding, which cannot refer to a Role.
\<close>

definition ref_denotes :: "Role list \<Rightarrow> ClusterRole list \<Rightarrow> string option \<Rightarrow> string \<Rightarrow> string \<Rightarrow> bool" where
  "ref_denotes roles crs nsopt refJSON raw \<longleftrightarrow>
     (\<exists>ref. unmarshal decode_k8s_roleRef refJSON = Some ref
        \<and> kr_APIGroup ref = ''rbac.authorization.k8s.io'' \<and> kr_Name ref \<noteq> []
        \<and> (kr_Kind ref = ''Role'' \<and> (\<exists>ns role. nsopt = Some ns \<and> raw = role_Rules role
               \<and> last_such (\<lambda>r. role_Namespace r = ns \<and> role_Name r = kr_Name ref) roles role)
           \<or> kr_Kind ref = ''ClusterRole'' \<and> (\<exists>c. raw = cr_Rules c
               \<and> last_such (\<lambda>c. cr_Name c = kr_Name ref) crs c)))"

definition grants_in_namespace :: "Role list \<Rightarrow> ClusterRole list \<Rightarrow> ServiceAccount \<Rightarrow> RoleBinding \<Rightarrow> Rule set" where
  "grants_in_namespace roles crs sa rb =
     {\<lparr>rule_Verbs = rule_Verbs u, rule_APIGroups = rule_APIGroups u, rule_Resources = rule_Resources u,
       rule_ResourceNames = rule_ResourceNames u, rule_NonResourceURLs = [], rule_Scope = ''namespace'',
       rule_Namespace = rb_Namespace rb, rule_BindingKind = ''RoleBinding'', rule_BindingName = rb_Name rb\<rparr> | u.
      binds_account sa (rb_Namespace rb) (rb_Subjects rb) \<and> rule_Resources u \<noteq> []
      \<and> (\<exists>raw us. ref_denotes roles crs (Some (rb_Namespace rb)) (rb_RoleRef rb) raw
           \<and> unmarshal (decode_list decode_Rule) raw = Some us \<and> u \<in> set us)}"

definition grants_in_cluster :: "ClusterRole list \<Rightarrow> ServiceAccount \<Rightarrow> ClusterRoleBinding \<Rightarrow> Rule set" where
  "grants_in_cluster crs sa crb =
     {\<lparr>rule_Verbs = rule_Verbs u, rule_APIGroups = rule_APIGroups u, rule_Resources = rule_Resources u,
       rule_ResourceNames = rule_ResourceNames u, rule_NonResourceURLs = rule_NonResourceURLs u,
       rule_Scope = ''cluster'', rule_Namespace = [], rule_BindingKind = ''ClusterRoleBinding'',
       rule_BindingName = crb_Name crb\<rparr> | u.
      binds_account sa [] (crb_Subjects crb)
      \<and> (\<exists>raw us. ref_denotes [] crs None (crb_RoleRef crb) raw
           \<and> unmarshal (decode_list decode_Rule) raw = Some us \<and> u \<in> set us)}"

text \<open>The closure \<open>resolve\<close> read back: whether it matched and what its raw rules were.\<close>

lemma resolve_None:
  "resolve roles crs sa sj rj ns kind nm = Inr None \<Longrightarrow> \<not> binds_account sa ns sj"
  by (auto simp: resolve_def go_result_simps binds_account_def SubjectMatches_names_account list_ex_iff
      split: option.split_asm if_split_asm)

lemma resolve_Some:
  assumes "resolve roles crs sa sj rj ns kind nm = Inr (Some (role, cr, rules))"
  obtains raw us where "binds_account sa ns sj"
    and "ref_denotes roles crs (if kind = ''RoleBinding'' then Some ns else None) rj raw"
    and "unmarshal (decode_list decode_Rule) raw = Some us"
    and "rules = List.map_filter (effective_rule ns kind nm) us"
proof -
  from assms obtain subjects ref where subj:
      "unmarshal (decode_list decode_k8s_subject) sj = Some subjects" "list_ex (\<lambda>s. SubjectMatches s ns sa) subjects"
    and ref: "unmarshal decode_k8s_roleRef rj = Some ref" "kr_APIGroup ref = GroupName" "kr_Name ref \<noteq> []"
    by (auto simp: resolve_def split: option.split_asm if_split_asm)
  have b: "binds_account sa ns sj"
    using subj by (auto simp: binds_account_def SubjectMatches_names_account list_ex_iff)
  from assms subj ref consider
      (role) r us where "kr_Kind ref = ''Role''" "kind = ''RoleBinding''"
        "roleByName roles (ns, kr_Name ref) = Some r"
        "unmarshal (decode_list decode_Rule) (role_Rules r) = Some us"
        "rules = List.map_filter (effective_rule ns kind nm) us"
    | (cluster) c us where "kr_Kind ref = ''ClusterRole''"
        "clusterRoleByName crs (kr_Name ref) = Some c"
        "unmarshal (decode_list decode_Rule) (cr_Rules c) = Some us"
        "rules = List.map_filter (effective_rule ns kind nm) us"
    by (auto simp: resolve_def go_result_simps split: option.split_asm if_split_asm)
  then show thesis
  proof cases
    case role
    have "ref_denotes roles crs (if kind = ''RoleBinding'' then Some ns else None) rj (role_Rules r)"
      unfolding ref_denotes_def using ref role(1,2,3)
      by (intro exI [of _ ref]) (auto simp: GroupName_def roleByName_last)
    from that [OF b this role(4,5)] show thesis .
  next
    case cluster
    have "ref_denotes roles crs (if kind = ''RoleBinding'' then Some ns else None) rj (cr_Rules c)"
      unfolding ref_denotes_def using ref cluster(1,2)
      by (intro exI [of _ ref]) (auto simp: GroupName_def clusterRoleByName_last)
    from that [OF b this cluster(3,4)] show thesis .
  qed
qed

lemma resolve_roleBinding_Inr:
  "resolve_roleBinding roles crs sa out rb = Inr out' \<Longrightarrow>
     out' = out
     \<or> (\<exists>role cr rules.
          resolve roles crs sa (rb_Subjects rb) (rb_RoleRef rb) (rb_Namespace rb) ''RoleBinding'' (rb_Name rb)
            = Inr (Some (role, cr, rules))
          \<and> out' = out\<lparr>sap_EffectiveRules := sap_EffectiveRules out @ rules,
                 sap_RoleBindings := sap_RoleBindings out
                   @ [\<lparr>rbp_RoleBinding = rb, rbp_Role = role, rbp_ClusterRole = cr\<rparr>]\<rparr>)"
  unfolding resolve_roleBinding_def bind_result_Inr_iff by (auto split: option.split_asm prod.split_asm)

lemma resolve_clusterRoleBinding_Inr:
  "resolve_clusterRoleBinding roles crs sa out crb = Inr out' \<Longrightarrow>
     out' = out
     \<or> (\<exists>role c rules.
          resolve roles crs sa (crb_Subjects crb) (crb_RoleRef crb) [] ''ClusterRoleBinding'' (crb_Name crb)
            = Inr (Some (role, Some c, rules))
          \<and> out' = out\<lparr>sap_EffectiveRules := sap_EffectiveRules out @ rules,
                 sap_ClusterRoleBindings := sap_ClusterRoleBindings out
                   @ [\<lparr>crbp_ClusterRoleBinding = crb, crbp_ClusterRole = c\<rparr>]\<rparr>)"
proof -
  assume *: "resolve_clusterRoleBinding roles crs sa out crb = Inr out'"
  then obtain res where res:
    "resolve roles crs sa (crb_Subjects crb) (crb_RoleRef crb) [] ''ClusterRoleBinding'' (crb_Name crb) = Inr res"
    by (auto simp: resolve_clusterRoleBinding_def go_result_simps)
  show ?thesis
  proof (cases res)
    case None
    with * res show ?thesis by (simp add: resolve_clusterRoleBinding_def)
  next
    case (Some x)
    obtain role cr rules where x: "x = (role, cr, rules)" by (cases x)
    obtain c where "cr = Some c"
      using resolve_cluster_has_clusterRole res Some x by blast
    with * res Some x show ?thesis by (simp add: resolve_clusterRoleBinding_def)
  qed
qed

lemma ref_denotes_unique:
  "ref_denotes roles crs nsopt rj raw \<Longrightarrow> ref_denotes roles crs nsopt rj raw' \<Longrightarrow> raw = raw'"
  unfolding ref_denotes_def roleByName_last [symmetric] clusterRoleByName_last [symmetric] by auto

lemma ref_denotes_no_namespace: "ref_denotes roles crs None rj raw \<longleftrightarrow> ref_denotes [] crs None rj raw"
  by (simp add: ref_denotes_def)

lemma effective_rule_namespace:
  "effective_rule ns ''RoleBinding'' nm u = Some r \<longleftrightarrow>
     rule_Resources u \<noteq> []
     \<and> r = \<lparr>rule_Verbs = rule_Verbs u, rule_APIGroups = rule_APIGroups u, rule_Resources = rule_Resources u,
            rule_ResourceNames = rule_ResourceNames u, rule_NonResourceURLs = [], rule_Scope = ''namespace'',
            rule_Namespace = ns, rule_BindingKind = ''RoleBinding'', rule_BindingName = nm\<rparr>"
  by (auto simp: effective_rule_def Let_def)

lemma effective_rule_cluster:
  "effective_rule ns ''ClusterRoleBinding'' nm u = Some r \<longleftrightarrow>
     r = \<lparr>rule_Verbs = rule_Verbs u, rule_APIGroups = rule_APIGroups u, rule_Resources = rule_Resources u,
          rule_ResourceNames = rule_ResourceNames u, rule_NonResourceURLs = rule_NonResourceURLs u,
          rule_Scope = ''cluster'', rule_Namespace = [], rule_BindingKind = ''ClusterRoleBinding'',
          rule_BindingName = nm\<rparr>"
  by (auto simp: effective_rule_def Let_def)

lemma set_map_filter_Some: "set (List.map_filter f xs) = {y. \<exists>x \<in> set xs. f x = Some y}"
  by (force simp: map_filter_def)

lemma resolve_namespace_rules:
  assumes "resolve roles crs sa (rb_Subjects rb) (rb_RoleRef rb) (rb_Namespace rb) ''RoleBinding'' (rb_Name rb)
             = Inr (Some (role, cr, rules))"
  shows "binds_account sa (rb_Namespace rb) (rb_Subjects rb)" and "set rules = grants_in_namespace roles crs sa rb"
proof -
  obtain raw us where b: "binds_account sa (rb_Namespace rb) (rb_Subjects rb)"
    and raw: "ref_denotes roles crs (Some (rb_Namespace rb)) (rb_RoleRef rb) raw"
    and us: "unmarshal (decode_list decode_Rule) raw = Some us"
    and rules: "rules = List.map_filter (effective_rule (rb_Namespace rb) ''RoleBinding'' (rb_Name rb)) us"
    using resolve_Some [OF assms] by auto
  show "binds_account sa (rb_Namespace rb) (rb_Subjects rb)" by (rule b)
  have uniq: "ref_denotes roles crs (Some (rb_Namespace rb)) (rb_RoleRef rb) r \<longleftrightarrow> r = raw" for r
    using raw ref_denotes_unique by blast
  show "set rules = grants_in_namespace roles crs sa rb"
    unfolding grants_in_namespace_def rules set_map_filter_Some effective_rule_namespace
    by (auto simp: b uniq us)
qed

lemma resolve_cluster_rules:
  assumes "resolve roles crs sa (crb_Subjects crb) (crb_RoleRef crb) [] ''ClusterRoleBinding'' (crb_Name crb)
             = Inr (Some (role, cr, rules))"
  shows "binds_account sa [] (crb_Subjects crb)" and "set rules = grants_in_cluster crs sa crb"
proof -
  obtain raw us where b: "binds_account sa [] (crb_Subjects crb)"
    and "ref_denotes roles crs None (crb_RoleRef crb) raw"
    and us: "unmarshal (decode_list decode_Rule) raw = Some us"
    and rules: "rules = List.map_filter (effective_rule [] ''ClusterRoleBinding'' (crb_Name crb)) us"
    using resolve_Some [OF assms] by auto
  then have raw: "ref_denotes [] crs None (crb_RoleRef crb) raw" using ref_denotes_no_namespace by blast
  show "binds_account sa [] (crb_Subjects crb)" by (rule b)
  have uniq: "ref_denotes [] crs None (crb_RoleRef crb) r \<longleftrightarrow> r = raw" for r
    using raw ref_denotes_unique by blast
  show "set rules = grants_in_cluster crs sa crb"
    unfolding grants_in_cluster_def rules set_map_filter_Some effective_rule_cluster
    by (auto simp: b uniq us)
qed

lemma resolve_roleBinding_exact:
  assumes "resolve_roleBinding roles crs sa out rb = Inr out'"
  shows "set (sap_EffectiveRules out') = set (sap_EffectiveRules out) \<union> grants_in_namespace roles crs sa rb"
    and "map rbp_RoleBinding (sap_RoleBindings out') = map rbp_RoleBinding (sap_RoleBindings out)
           @ filter (\<lambda>rb. binds_account sa (rb_Namespace rb) (rb_Subjects rb)) [rb]"
    and "sap_ClusterRoleBindings out' = sap_ClusterRoleBindings out"
proof -
  obtain res where res: "resolve roles crs sa (rb_Subjects rb) (rb_RoleRef rb) (rb_Namespace rb) ''RoleBinding''
      (rb_Name rb) = Inr res"
    using assms by (auto simp: resolve_roleBinding_def go_result_simps)
  have "set (sap_EffectiveRules out') = set (sap_EffectiveRules out) \<union> grants_in_namespace roles crs sa rb
      \<and> map rbp_RoleBinding (sap_RoleBindings out') = map rbp_RoleBinding (sap_RoleBindings out)
           @ filter (\<lambda>rb. binds_account sa (rb_Namespace rb) (rb_Subjects rb)) [rb]
      \<and> sap_ClusterRoleBindings out' = sap_ClusterRoleBindings out"
  proof (cases res)
    case None
    with assms res resolve_None [of roles crs sa "rb_Subjects rb" "rb_RoleRef rb" "rb_Namespace rb"]
    show ?thesis by (auto simp: resolve_roleBinding_def grants_in_namespace_def)
  next
    case (Some x)
    obtain role cr rules where x: "x = (role, cr, rules)" by (cases x)
    with assms res Some resolve_namespace_rules [OF res [unfolded Some x]]
    show ?thesis by (auto simp: resolve_roleBinding_def)
  qed
  then show "set (sap_EffectiveRules out') = set (sap_EffectiveRules out) \<union> grants_in_namespace roles crs sa rb"
    and "map rbp_RoleBinding (sap_RoleBindings out') = map rbp_RoleBinding (sap_RoleBindings out)
           @ filter (\<lambda>rb. binds_account sa (rb_Namespace rb) (rb_Subjects rb)) [rb]"
    and "sap_ClusterRoleBindings out' = sap_ClusterRoleBindings out" by blast+
qed

lemma resolve_clusterRoleBinding_exact:
  assumes "resolve_clusterRoleBinding roles crs sa out crb = Inr out'"
  shows "set (sap_EffectiveRules out') = set (sap_EffectiveRules out) \<union> grants_in_cluster crs sa crb"
    and "map crbp_ClusterRoleBinding (sap_ClusterRoleBindings out')
           = map crbp_ClusterRoleBinding (sap_ClusterRoleBindings out)
             @ filter (\<lambda>crb. binds_account sa [] (crb_Subjects crb)) [crb]"
    and "sap_RoleBindings out' = sap_RoleBindings out"
proof -
  obtain res where res: "resolve roles crs sa (crb_Subjects crb) (crb_RoleRef crb) [] ''ClusterRoleBinding''
      (crb_Name crb) = Inr res"
    using assms by (auto simp: resolve_clusterRoleBinding_def go_result_simps)
  have "set (sap_EffectiveRules out') = set (sap_EffectiveRules out) \<union> grants_in_cluster crs sa crb
      \<and> map crbp_ClusterRoleBinding (sap_ClusterRoleBindings out')
           = map crbp_ClusterRoleBinding (sap_ClusterRoleBindings out)
             @ filter (\<lambda>crb. binds_account sa [] (crb_Subjects crb)) [crb]
      \<and> sap_RoleBindings out' = sap_RoleBindings out"
  proof (cases res)
    case None
    with assms res resolve_None [of roles crs sa "crb_Subjects crb" "crb_RoleRef crb" "[]"]
    show ?thesis by (auto simp: resolve_clusterRoleBinding_def grants_in_cluster_def)
  next
    case (Some x)
    obtain role cr rules where x: "x = (role, cr, rules)" by (cases x)
    obtain c where c: "cr = Some c"
      using resolve_cluster_has_clusterRole [OF res [unfolded Some x]] by blast
    with assms res Some x resolve_cluster_rules [OF res [unfolded Some x]]
    show ?thesis by (auto simp: resolve_clusterRoleBinding_def)
  qed
  then show "set (sap_EffectiveRules out') = set (sap_EffectiveRules out) \<union> grants_in_cluster crs sa crb"
    and "map crbp_ClusterRoleBinding (sap_ClusterRoleBindings out')
           = map crbp_ClusterRoleBinding (sap_ClusterRoleBindings out)
             @ filter (\<lambda>crb. binds_account sa [] (crb_Subjects crb)) [crb]"
    and "sap_RoleBindings out' = sap_RoleBindings out" by blast+
qed

lemma resolve_roleBindings_exact:
  assumes "foldM (resolve_roleBinding roles crs sa) out rbs = Inr out'"
  shows "set (sap_EffectiveRules out')
           = set (sap_EffectiveRules out) \<union> (\<Union>rb \<in> set rbs. grants_in_namespace roles crs sa rb)
         \<and> map rbp_RoleBinding (sap_RoleBindings out') = map rbp_RoleBinding (sap_RoleBindings out)
             @ filter (\<lambda>rb. binds_account sa (rb_Namespace rb) (rb_Subjects rb)) rbs
         \<and> sap_ClusterRoleBindings out' = sap_ClusterRoleBindings out"
  using assms
proof (induction rbs arbitrary: out)
  case (Cons rb rbs)
  then obtain mid where "resolve_roleBinding roles crs sa out rb = Inr mid"
    and "foldM (resolve_roleBinding roles crs sa) mid rbs = Inr out'"
    by (auto simp: go_result_simps)
  with resolve_roleBinding_exact [OF this(1)] Cons.IH [OF this(2)] show ?case by auto
qed simp

lemma resolve_clusterRoleBindings_exact:
  assumes "foldM (resolve_clusterRoleBinding roles crs sa) out crbs = Inr out'"
  shows "set (sap_EffectiveRules out')
           = set (sap_EffectiveRules out) \<union> (\<Union>crb \<in> set crbs. grants_in_cluster crs sa crb)
         \<and> map crbp_ClusterRoleBinding (sap_ClusterRoleBindings out')
             = map crbp_ClusterRoleBinding (sap_ClusterRoleBindings out)
               @ filter (\<lambda>crb. binds_account sa [] (crb_Subjects crb)) crbs
         \<and> sap_RoleBindings out' = sap_RoleBindings out"
  using assms
proof (induction crbs arbitrary: out)
  case (Cons crb crbs)
  then obtain mid where "resolve_clusterRoleBinding roles crs sa out crb = Inr mid"
    and "foldM (resolve_clusterRoleBinding roles crs sa) mid crbs = Inr out'"
    by (auto simp: go_result_simps)
  with resolve_clusterRoleBinding_exact [OF this(1)] Cons.IH [OF this(2)] show ?case by auto
qed simp

text \<open>
  C2. A successful resolution returns exactly what the four tables grant the account. The
  bindings reported are those with a subject that names it, in the order of the tables. Every
  effective rule is a rule of the role that such a binding refers to: through a RoleBinding it
  carries that binding's own namespace and name, names resources and has lost its non-resource
  URLs, and the Role is looked up in the binding's own namespace; through a ClusterRoleBinding it
  is cluster-wide and unchanged. And no rule granted in this way is missing.
\<close>

theorem Resolve_grants_exactly:
  assumes "Resolve t sa = Inr out"
    and "t_rbs t = Inr rbs" and "t_crbs t = Inr crbs" and "t_roles t = Inr roles" and "t_clusterRoles t = Inr crs"
  shows "set (sap_EffectiveRules out)
           = (\<Union>rb \<in> set rbs. grants_in_namespace roles crs sa rb)
             \<union> (\<Union>crb \<in> set crbs. grants_in_cluster crs sa crb)
         \<and> map rbp_RoleBinding (sap_RoleBindings out)
           = filter (\<lambda>rb. binds_account sa (rb_Namespace rb) (rb_Subjects rb)) rbs
         \<and> map crbp_ClusterRoleBinding (sap_ClusterRoleBindings out)
           = filter (\<lambda>crb. binds_account sa [] (crb_Subjects crb)) crbs"
proof -
  from assms obtain mid where
    rb: "foldM (resolve_roleBinding roles crs sa) (empty_permissions sa) rbs = Inr mid" and
    crb: "foldM (resolve_clusterRoleBinding roles crs sa) mid crbs = Inr out"
    by (auto simp: Resolve_def go_result_simps query_def)
  note facts = resolve_roleBindings_exact [OF rb] resolve_clusterRoleBindings_exact [OF crb]
  show ?thesis using facts by (simp add: empty_permissions_def)
qed

text \<open>A service account bound by a RoleBinding whose subject leaves its namespace out.\<close>

definition sample_sa :: ServiceAccount where
  "sample_sa = \<lparr>sa_ID = 1, sa_ClusterID = ''c'', sa_Name = ''sa'', sa_Namespace = ''ns'', sa_UID = ''u''\<rparr>"

definition sample_binding :: RoleBinding where
  "sample_binding = \<lparr>rb_ID = 1, rb_ClusterID = ''c'', rb_Name = ''rb'', rb_Namespace = ''ns'', rb_UID = ''u1'',
     rb_RoleRef = ''{\"apiGroup\":\"rbac.authorization.k8s.io\",\"kind\":\"Role\",\"name\":\"r\"}'',
     rb_Subjects = ''[{\"kind\":\"ServiceAccount\",\"name\":\"sa\"}]''\<rparr>"

definition sample_roles :: "Role list" where
  "sample_roles = [\<lparr>role_ID = 1, role_ClusterID = ''c'', role_Name = ''r'', role_Namespace = ''ns'',
       role_UID = ''u2'', role_Rules = ''[{\"verbs\":[\"get\"],\"resources\":[\"pods\"],\"nonResourceURLs\":[\"/x\"]}]''\<rparr>]"

definition sample_tables :: inventory_tables where
  "sample_tables = \<lparr>
     t_rbs = Inr [sample_binding],
     t_crbs = Inr [],
     t_roles = Inr sample_roles,
     t_clusterRoles = Inr []\<rparr>"

definition sample_permissions :: ServiceAccountPermissions where
  "sample_permissions = (case Resolve sample_tables sample_sa of Inr p \<Rightarrow> p | Inl e \<Rightarrow> empty_permissions sample_sa)"

theorem Resolve_grants_exactly_witness:
  "map rule_Verbs (sap_EffectiveRules sample_permissions) = [[''get'']]
   \<and> grants_in_namespace sample_roles [] sample_sa sample_binding = set (sap_EffectiveRules sample_permissions)
   \<and> binds_account sample_sa ''ns'' (rb_Subjects sample_binding)"
proof -
  have out: "Resolve sample_tables sample_sa = Inr sample_permissions" by code_simp
  have tables: "t_rbs sample_tables = Inr [sample_binding]" "t_crbs sample_tables = Inr []"
    "t_roles sample_tables = Inr sample_roles" "t_clusterRoles sample_tables = Inr []"
    by (simp_all add: sample_tables_def sample_roles_def)
  have rules: "set (sap_EffectiveRules sample_permissions) = grants_in_namespace sample_roles [] sample_sa sample_binding"
    using Resolve_grants_exactly [OF out tables] by simp
  have "length (sap_RoleBindings sample_permissions) = 1" by code_simp
  then have "length (filter (\<lambda>rb. binds_account sample_sa (rb_Namespace rb) (rb_Subjects rb)) [sample_binding]) = 1"
    using Resolve_grants_exactly [OF out tables] by (metis length_map)
  then have "binds_account sample_sa ''ns'' (rb_Subjects sample_binding)"
    by (simp add: sample_binding_def split: if_split_asm)
  moreover have "map rule_Verbs (sap_EffectiveRules sample_permissions) = [[''get'']]" by code_simp
  ultimately show ?thesis using rules by simp
qed

text \<open>
  The resolution never dereferences a nil cluster role: a ClusterRoleBinding that matches has
  resolved to a ClusterRole or the resolution has stopped with an error.
\<close>

lemma Resolve_never_nil_dereference: "Resolve t sa \<noteq> Inl NilDereference"
proof
  assume "Resolve t sa = Inl NilDereference"
  then obtain roles crs rbs crbs out where
    "foldM (resolve_roleBinding roles crs sa) out rbs = Inl NilDereference
     \<or> foldM (resolve_clusterRoleBinding roles crs sa) out crbs = Inl NilDereference"
    by (auto simp: Resolve_def go_result_simps query_def split: sum.splits) blast+
  moreover have "resolve_roleBinding roles crs sa p rb \<noteq> Inl NilDereference" for p rb
    by (auto simp: resolve_roleBinding_def go_result_simps resolve_not_nil split: option.split_asm)
  moreover have "resolve_clusterRoleBinding roles crs sa p crb \<noteq> Inl NilDereference" for p crb
    by (auto simp: resolve_clusterRoleBinding_def go_result_simps resolve_not_nil
        split: option.split_asm prod.split_asm dest: resolve_cluster_has_clusterRole)
  ultimately show False by (blast dest: foldM_InlD)
qed

end

