(* ===== verification/Authorization.thy ===== *)
theory Authorization
  imports Go_Prelude
begin

section \<open>Application permissions and roles: core/pkg/authorization/permissions.go, registry.go\<close>

text \<open>
  A permission is a string, as in Go, so unknown permissions can be written down; the
  constants are abbreviations of their strings. Role names are the constants of
  \<^verbatim>\<open>core/pkg/models/user.go\<close>.
\<close>

subsection \<open>Permissions\<close>

type_synonym Permission = string

abbreviation PermissionAuthSession :: Permission where
  "PermissionAuthSession \<equiv> ''auth.session''"

abbreviation PermissionAuthPasswordChange :: Permission where
  "PermissionAuthPasswordChange \<equiv> ''auth.password.change''"

abbreviation PermissionAuthRegister :: Permission where
  "PermissionAuthRegister \<equiv> ''auth.register''"

abbreviation PermissionSessionsRead :: Permission where
  "PermissionSessionsRead \<equiv> ''sessions.read''"

abbreviation PermissionSessionsRevoke :: Permission where
  "PermissionSessionsRevoke \<equiv> ''sessions.revoke''"

abbreviation PermissionSessionsRevokeAll :: Permission where
  "PermissionSessionsRevokeAll \<equiv> ''sessions.revoke_all''"

abbreviation PermissionExportFindings :: Permission where
  "PermissionExportFindings \<equiv> ''export.findings''"

abbreviation PermissionUsersRead :: Permission where
  "PermissionUsersRead \<equiv> ''users.read''"

abbreviation PermissionUsersUpdate :: Permission where
  "PermissionUsersUpdate \<equiv> ''users.update''"

abbreviation PermissionUsersDelete :: Permission where
  "PermissionUsersDelete \<equiv> ''users.delete''"

abbreviation PermissionUsersRoleAssign :: Permission where
  "PermissionUsersRoleAssign \<equiv> ''users.role.assign''"

abbreviation PermissionFindingsRead :: Permission where
  "PermissionFindingsRead \<equiv> ''findings.read''"

abbreviation PermissionFindingsAck :: Permission where
  "PermissionFindingsAck \<equiv> ''findings.ack''"

abbreviation PermissionFindingsDismiss :: Permission where
  "PermissionFindingsDismiss \<equiv> ''findings.dismiss''"

abbreviation PermissionFindingsResolve :: Permission where
  "PermissionFindingsResolve \<equiv> ''findings.resolve''"

abbreviation PermissionFindingsReopen :: Permission where
  "PermissionFindingsReopen \<equiv> ''findings.reopen''"

abbreviation PermissionFindingsBulk :: Permission where
  "PermissionFindingsBulk \<equiv> ''findings.bulk''"

abbreviation PermissionFindingsDelete :: Permission where
  "PermissionFindingsDelete \<equiv> ''findings.delete''"

abbreviation PermissionFindingsExceptionCreate :: Permission where
  "PermissionFindingsExceptionCreate \<equiv> ''findings.exception.create''"

abbreviation PermissionFindingsExceptionDelete :: Permission where
  "PermissionFindingsExceptionDelete \<equiv> ''findings.exception.delete''"

abbreviation PermissionInvestigationsRead :: Permission where
  "PermissionInvestigationsRead \<equiv> ''investigations.read''"

abbreviation PermissionInvestigationsWrite :: Permission where
  "PermissionInvestigationsWrite \<equiv> ''investigations.write''"

abbreviation PermissionInvestigationsDelete :: Permission where
  "PermissionInvestigationsDelete \<equiv> ''investigations.delete''"

abbreviation PermissionRiskEvaluate :: Permission where
  "PermissionRiskEvaluate \<equiv> ''risk.evaluate''"

abbreviation PermissionPoliciesRead :: Permission where
  "PermissionPoliciesRead \<equiv> ''policies.read''"

abbreviation PermissionPoliciesDraft :: Permission where
  "PermissionPoliciesDraft \<equiv> ''policies.draft''"

abbreviation PermissionPoliciesPublish :: Permission where
  "PermissionPoliciesPublish \<equiv> ''policies.publish''"

abbreviation PermissionPoliciesDelete :: Permission where
  "PermissionPoliciesDelete \<equiv> ''policies.delete''"

abbreviation PermissionRulesRead :: Permission where
  "PermissionRulesRead \<equiv> ''rules.read''"

abbreviation PermissionRulesWrite :: Permission where
  "PermissionRulesWrite \<equiv> ''rules.write''"

abbreviation PermissionRulesDelete :: Permission where
  "PermissionRulesDelete \<equiv> ''rules.delete''"

abbreviation PermissionRulesImport :: Permission where
  "PermissionRulesImport \<equiv> ''rules.import''"

abbreviation PermissionRulesExport :: Permission where
  "PermissionRulesExport \<equiv> ''rules.export''"

abbreviation PermissionInventoryRead :: Permission where
  "PermissionInventoryRead \<equiv> ''inventory.read''"

abbreviation PermissionInventoryModify :: Permission where
  "PermissionInventoryModify \<equiv> ''inventory.modify''"

abbreviation PermissionInventoryDelete :: Permission where
  "PermissionInventoryDelete \<equiv> ''inventory.delete''"

abbreviation PermissionRuntimeRead :: Permission where
  "PermissionRuntimeRead \<equiv> ''runtime.read''"

abbreviation PermissionRuntimeMappingWrite :: Permission where
  "PermissionRuntimeMappingWrite \<equiv> ''runtime.mapping.write''"

abbreviation PermissionGraphReadSummary :: Permission where
  "PermissionGraphReadSummary \<equiv> ''graph.read.summary''"

abbreviation PermissionGraphReadPaths :: Permission where
  "PermissionGraphReadPaths \<equiv> ''graph.read.paths''"

abbreviation PermissionMalwareRead :: Permission where
  "PermissionMalwareRead \<equiv> ''malware.read''"

abbreviation PermissionSystemAuditRead :: Permission where
  "PermissionSystemAuditRead \<equiv> ''system.audit.read''"

abbreviation PermissionObservabilityMetricsRead :: Permission where
  "PermissionObservabilityMetricsRead \<equiv> ''observability.metrics.read''"

abbreviation PermissionObservabilityLogsRead :: Permission where
  "PermissionObservabilityLogsRead \<equiv> ''observability.logs.read''"

abbreviation PermissionObservabilityAgentsRead :: Permission where
  "PermissionObservabilityAgentsRead \<equiv> ''observability.agents.read''"

abbreviation PermissionClusterCertificatesRotate :: Permission where
  "PermissionClusterCertificatesRotate \<equiv> ''cluster.certificates.rotate''"

datatype PermissionLevel = LevelRead | LevelWrite | LevelDestructive | LevelPlatform | LevelSecurityCritical

definition ClassifyPermission :: "Permission \<Rightarrow> PermissionLevel" where
  "ClassifyPermission p =
     (if p \<in> set [
      PermissionUsersDelete, PermissionUsersRoleAssign, PermissionSessionsRevokeAll,
      PermissionFindingsDelete, PermissionFindingsBulk, PermissionInvestigationsDelete,
      PermissionInventoryDelete, PermissionRulesDelete, PermissionPoliciesDelete,
      PermissionClusterCertificatesRotate] then LevelDestructive
      else if p \<in> set [
      PermissionUsersUpdate, PermissionSessionsRevoke, PermissionFindingsAck,
      PermissionFindingsDismiss, PermissionFindingsResolve, PermissionFindingsReopen,
      PermissionFindingsExceptionCreate, PermissionFindingsExceptionDelete, PermissionInvestigationsWrite,
      PermissionInventoryModify, PermissionRulesWrite, PermissionRulesImport,
      PermissionPoliciesDraft, PermissionPoliciesPublish, PermissionRuntimeMappingWrite,
      PermissionRiskEvaluate, PermissionExportFindings] then LevelWrite
      else if p \<in> set [
      PermissionAuthRegister, PermissionSystemAuditRead] then LevelSecurityCritical
      else LevelRead)"

definition AllPermissions :: "Permission list" where
  "AllPermissions = [
      PermissionAuthSession, PermissionAuthPasswordChange, PermissionAuthRegister,
      PermissionSessionsRead, PermissionSessionsRevoke, PermissionSessionsRevokeAll,
      PermissionExportFindings, PermissionUsersRead, PermissionUsersUpdate,
      PermissionUsersDelete, PermissionUsersRoleAssign, PermissionFindingsRead,
      PermissionFindingsAck, PermissionFindingsDismiss, PermissionFindingsResolve,
      PermissionFindingsReopen, PermissionFindingsBulk, PermissionFindingsDelete,
      PermissionFindingsExceptionCreate, PermissionFindingsExceptionDelete, PermissionInvestigationsRead,
      PermissionInvestigationsWrite, PermissionInvestigationsDelete, PermissionRiskEvaluate,
      PermissionPoliciesRead, PermissionPoliciesDraft, PermissionPoliciesPublish,
      PermissionPoliciesDelete, PermissionRulesRead, PermissionRulesWrite,
      PermissionRulesDelete, PermissionRulesImport, PermissionRulesExport,
      PermissionInventoryRead, PermissionInventoryModify, PermissionInventoryDelete,
      PermissionRuntimeRead, PermissionRuntimeMappingWrite, PermissionGraphReadSummary,
      PermissionGraphReadPaths, PermissionMalwareRead, PermissionSystemAuditRead,
      PermissionObservabilityMetricsRead, PermissionObservabilityLogsRead, PermissionObservabilityAgentsRead,
      PermissionClusterCertificatesRotate]"

definition IsValidPermission :: "Permission \<Rightarrow> bool" where
  "IsValidPermission p \<longleftrightarrow> p \<in> set AllPermissions"

subsection \<open>Roles\<close>

abbreviation RoleAdmin :: string where "RoleAdmin \<equiv> ''admin''"

abbreviation RoleClusterAdmin :: string where "RoleClusterAdmin \<equiv> ''cluster_admin''"

abbreviation RoleOperator :: string where "RoleOperator \<equiv> ''operator''"

abbreviation RoleUser :: string where "RoleUser \<equiv> ''user''"

abbreviation RoleViewer :: string where "RoleViewer \<equiv> ''viewer''"

abbreviation RoleRiskEvaluator :: string where "RoleRiskEvaluator \<equiv> ''risk_evaluator''"

abbreviation RoleSystem :: string where "RoleSystem \<equiv> ''system''"

definition NormalizeRole :: "string \<Rightarrow> string" where
  "NormalizeRole role =
     (let r = ToLower (TrimSpace role)
      in if r = [] then []
         else if r = RoleViewer then RoleViewer
         else if r = RoleAdmin then RoleAdmin
         else if r = RoleClusterAdmin then RoleClusterAdmin
         else if r = RoleOperator \<or> r = RoleUser then RoleOperator
         else if r = RoleRiskEvaluator then RoleRiskEvaluator
         else r)"

definition viewerPermissions :: "Permission list" where
  "viewerPermissions = [
      PermissionAuthSession, PermissionAuthPasswordChange, PermissionSessionsRead,
      PermissionSessionsRevoke, PermissionFindingsRead, PermissionInventoryRead,
      PermissionRuntimeRead, PermissionGraphReadSummary, PermissionGraphReadPaths,
      PermissionMalwareRead, PermissionInvestigationsRead, PermissionObservabilityMetricsRead,
      PermissionObservabilityAgentsRead]"

definition operatorPermissions :: "Permission list" where
  "operatorPermissions = viewerPermissions @ [
      PermissionExportFindings, PermissionFindingsAck, PermissionFindingsDismiss,
      PermissionFindingsResolve, PermissionFindingsReopen, PermissionFindingsBulk,
      PermissionRiskEvaluate, PermissionInventoryModify, PermissionPoliciesRead,
      PermissionRulesRead, PermissionRulesExport, PermissionInvestigationsWrite]"

definition clusterAdminPermissions :: "Permission list" where
  "clusterAdminPermissions = operatorPermissions @ [
      PermissionFindingsDelete, PermissionFindingsExceptionCreate, PermissionFindingsExceptionDelete,
      PermissionInventoryDelete, PermissionInvestigationsDelete]"

definition PermissionsForRole :: "string \<Rightarrow> Permission list" where
  "PermissionsForRole canonicalRole =
     (let r = ToLower (TrimSpace canonicalRole)
      in if r = RoleAdmin then AllPermissions
         else if r = RoleClusterAdmin then clusterAdminPermissions
         else if r = RoleOperator then operatorPermissions
         else if r = RoleViewer then viewerPermissions
         else if r = RoleRiskEvaluator then [PermissionAuthSession, PermissionRiskEvaluate]
         else [])"

definition IsServiceRole :: "string \<Rightarrow> bool" where
  "IsServiceRole role =
     (let r = ToLower (TrimSpace role) in r = RoleRiskEvaluator \<or> r = RoleSystem)"

definition PermissionsForUser :: "string \<Rightarrow> Permission list" where
  "PermissionsForUser role = PermissionsForRole (NormalizeRole role)"

fun HasPermission :: "Permission list \<Rightarrow> Permission \<Rightarrow> bool" where
  "HasPermission [] need = False"
| "HasPermission (g # granted) need = (g = need \<or> HasPermission granted need)"

fun HasAnyPermission :: "Permission list \<Rightarrow> Permission list \<Rightarrow> bool" where
  "HasAnyPermission granted [] = False"
| "HasAnyPermission granted (r # required) = (HasPermission granted r \<or> HasAnyPermission granted required)"

definition ToStrings :: "Permission list \<Rightarrow> string list" where
  "ToStrings perms = map (\<lambda>p. p) perms"

fun FromStrings :: "string list \<Rightarrow> Permission list" where
  "FromStrings [] = []"
| "FromStrings (s # rest) =
     (let t = TrimSpace s
      in if t = [] then FromStrings rest
         else if IsValidPermission t then t # FromStrings rest
         else FromStrings rest)"

definition canonical_roles :: "string list" where
  "canonical_roles = [RoleAdmin, RoleClusterAdmin, RoleOperator, RoleViewer, RoleRiskEvaluator]"

definition RolesGrantingPermission :: "Permission \<Rightarrow> string list" where
  "RolesGrantingPermission p =
     (if \<not> IsValidPermission p then []
      else filter (\<lambda>role. list_ex (\<lambda>g. g = p) (PermissionsForRole role)) canonical_roles)"

subsection \<open>Lemmas\<close>

lemma HasPermission_iff [simp]: "HasPermission granted need \<longleftrightarrow> need \<in> set granted"
  by (induction granted) auto

lemma HasAnyPermission_iff [simp]: "HasAnyPermission granted required \<longleftrightarrow> (\<exists>r \<in> set required. r \<in> set granted)"
  by (induction required) auto

text \<open>The role a stored role name stands for.\<close>

definition role_key :: "string \<Rightarrow> string" where
  "role_key role = ToLower (TrimSpace role)"

lemma role_constants_trimmed:
  "list_all (\<lambda>r. ToLower (TrimSpace r) = r) [RoleAdmin, RoleClusterAdmin, RoleOperator, RoleViewer, RoleRiskEvaluator]"
  by code_simp

lemma PermissionsForUser_eq:
  "PermissionsForUser role =
     (if role_key role = RoleAdmin then AllPermissions
      else if role_key role = RoleClusterAdmin then clusterAdminPermissions
      else if role_key role = RoleOperator \<or> role_key role = RoleUser then operatorPermissions
      else if role_key role = RoleViewer then viewerPermissions
      else if role_key role = RoleRiskEvaluator then [PermissionAuthSession, PermissionRiskEvaluate]
      else [])"
proof -
  have key: "ToLower (TrimSpace (NormalizeRole role)) =
      (if role_key role = RoleUser then RoleOperator else role_key role)"
    using role_constants_trimmed
    by (cases "TrimSpace role = []") (simp_all add: NormalizeRole_def role_key_def Let_def)
  show ?thesis
    unfolding PermissionsForUser_def PermissionsForRole_def Let_def key by simp
qed

lemma permission_chain:
  "set viewerPermissions \<subset> set operatorPermissions"
  "set operatorPermissions \<subset> set clusterAdminPermissions"
  "set clusterAdminPermissions \<subset> set AllPermissions"
  by code_simp+

lemma evaluator_subset: "{PermissionAuthSession, PermissionRiskEvaluate} \<subset> set operatorPermissions"
  by code_simp

lemma valid_permissions_trimmed: "list_all (\<lambda>p. TrimSpace p = p \<and> p \<noteq> []) AllPermissions"
  by code_simp

lemma FromStrings_eq: "FromStrings ss = filter IsValidPermission (map TrimSpace ss)"
  using valid_permissions_trimmed
  by (induction ss) (auto simp: Let_def IsValidPermission_def list_all_iff)

lemma canonical_roles_sets:
  "PermissionsForRole RoleAdmin = AllPermissions"
  "PermissionsForRole RoleClusterAdmin = clusterAdminPermissions"
  "PermissionsForRole RoleOperator = operatorPermissions"
  "PermissionsForRole RoleViewer = viewerPermissions"
  using role_constants_trimmed by (simp_all add: PermissionsForRole_def)

lemma role_sets_nonempty:
  "AllPermissions \<noteq> []" "clusterAdminPermissions \<noteq> []" "operatorPermissions \<noteq> []" "viewerPermissions \<noteq> []"
  by (simp_all add: AllPermissions_def clusterAdminPermissions_def operatorPermissions_def viewerPermissions_def)

lemma admin_only: "PermissionUsersRoleAssign \<in> set AllPermissions - set clusterAdminPermissions"
  by code_simp

lemma user_permissions_cases:
  obtains (admin) "role_key role = RoleAdmin" "PermissionsForUser role = AllPermissions"
  | (other) "role_key role \<noteq> RoleAdmin" "set (PermissionsForUser role) \<subseteq> set clusterAdminPermissions"
proof (cases "role_key role = RoleAdmin")
  case True
  then show ?thesis by (intro admin) (simp_all add: PermissionsForUser_eq)
next
  case False
  then have "set (PermissionsForUser role) \<subseteq> set clusterAdminPermissions"
    using permission_chain evaluator_subset unfolding PermissionsForUser_eq by (simp, blast)
  with False show ?thesis by (rule other)
qed

lemma PermissionsForUser_subset: "set (PermissionsForUser role) \<subseteq> set AllPermissions"
  by (cases role rule: user_permissions_cases) (use permission_chain in auto)

subsection \<open>Properties\<close>

text \<open>
  Application RBAC denies by default and its roles form a strict chain. Whatever string is
  stored as a user's role, the user gets only permissions of the taxonomy; a role that, trimmed
  and lower-cased, is none of the six role names gets nothing; the full taxonomy, and in
  particular the permission to assign roles, is granted exactly to \<^verbatim>\<open>admin\<close>; and the sets of
  viewer, operator, cluster administrator and administrator strictly grow.
\<close>

lemma PermissionsForUser_deny_by_default:
  "set (PermissionsForUser role) \<subseteq> set AllPermissions \<and>
   (PermissionsForUser role \<noteq> [] \<longleftrightarrow>
      role_key role \<in> {RoleAdmin, RoleClusterAdmin, RoleOperator, RoleUser, RoleViewer, RoleRiskEvaluator}) \<and>
   (HasPermission (PermissionsForUser role) PermissionUsersRoleAssign \<longleftrightarrow> role_key role = RoleAdmin) \<and>
   (set (PermissionsForUser role) = set AllPermissions \<longleftrightarrow> role_key role = RoleAdmin) \<and>
   set (PermissionsForUser RoleViewer) \<subset> set (PermissionsForUser RoleOperator) \<and>
   set (PermissionsForUser RoleOperator) \<subset> set (PermissionsForUser RoleClusterAdmin) \<and>
   set (PermissionsForUser RoleClusterAdmin) \<subset> set (PermissionsForUser RoleAdmin)"
proof (intro conjI)
  show "set (PermissionsForUser role) \<subseteq> set AllPermissions"
    by (rule PermissionsForUser_subset)
  show "PermissionsForUser role \<noteq> [] \<longleftrightarrow>
      role_key role \<in> {RoleAdmin, RoleClusterAdmin, RoleOperator, RoleUser, RoleViewer, RoleRiskEvaluator}"
    using role_sets_nonempty by (simp add: PermissionsForUser_eq)
  show "HasPermission (PermissionsForUser role) PermissionUsersRoleAssign \<longleftrightarrow> role_key role = RoleAdmin"
    by (cases role rule: user_permissions_cases) (use admin_only in auto)
  show "set (PermissionsForUser role) = set AllPermissions \<longleftrightarrow> role_key role = RoleAdmin"
    by (cases role rule: user_permissions_cases) (use permission_chain in auto)
  have keys: "role_key RoleViewer = RoleViewer" "role_key RoleOperator = RoleOperator"
    "role_key RoleClusterAdmin = RoleClusterAdmin" "role_key RoleAdmin = RoleAdmin"
    using role_constants_trimmed by (simp_all add: role_key_def)
  show "set (PermissionsForUser RoleViewer) \<subset> set (PermissionsForUser RoleOperator)"
    "set (PermissionsForUser RoleOperator) \<subset> set (PermissionsForUser RoleClusterAdmin)"
    "set (PermissionsForUser RoleClusterAdmin) \<subset> set (PermissionsForUser RoleAdmin)"
    using permission_chain by (simp_all add: PermissionsForUser_eq keys)
qed

text \<open>
  Permission lists taken from outside (token claims) are filtered through the taxonomy:
  \<open>FromStrings\<close> yields only valid permissions, accepts white space around them, loses none of the
  valid ones, and reads back every list the program itself prints with \<open>ToStrings\<close> for a user.
\<close>

lemma FromStrings_sound_and_roundtrip:
  "set (FromStrings ss) = {p. IsValidPermission p \<and> (\<exists>s \<in> set ss. TrimSpace s = p)} \<and>
   FromStrings (ToStrings (PermissionsForUser role)) = PermissionsForUser role"
proof
  show "set (FromStrings ss) = {p. IsValidPermission p \<and> (\<exists>s \<in> set ss. TrimSpace s = p)}"
    by (auto simp: FromStrings_eq)
  have "map TrimSpace (PermissionsForUser role) = PermissionsForUser role"
    and "filter IsValidPermission (PermissionsForUser role) = PermissionsForUser role"
    using valid_permissions_trimmed PermissionsForUser_subset [of role]
    by (auto simp: list_all_iff IsValidPermission_def filter_id_conv intro!: map_idI)
  then show "FromStrings (ToStrings (PermissionsForUser role)) = PermissionsForUser role"
    by (simp add: FromStrings_eq ToStrings_def)
qed

text \<open>
  \<open>RolesGrantingPermission\<close> inverts the role table: it lists exactly the canonical roles
  whose grant contains the permission, nothing for a permission outside the taxonomy, and
  always \<^verbatim>\<open>admin\<close> for one inside it.
\<close>

lemma RolesGrantingPermission_inverts:
  "set (RolesGrantingPermission p) = {r \<in> set canonical_roles. HasPermission (PermissionsForUser r) p} \<and>
   (RoleAdmin \<in> set (RolesGrantingPermission p) \<longleftrightarrow> IsValidPermission p)"
proof
  have keys: "list_all (\<lambda>r. NormalizeRole r = r) canonical_roles"
    by code_simp
  have sub: "set (PermissionsForRole r) \<subseteq> set AllPermissions" if "r \<in> set canonical_roles" for r
    using keys that PermissionsForUser_subset [of r] by (simp add: list_all_iff PermissionsForUser_def)
  show "set (RolesGrantingPermission p) = {r \<in> set canonical_roles. HasPermission (PermissionsForUser r) p}"
    using keys sub
    by (auto simp: RolesGrantingPermission_def list_ex_iff PermissionsForUser_def list_all_iff IsValidPermission_def)
  show "RoleAdmin \<in> set (RolesGrantingPermission p) \<longleftrightarrow> IsValidPermission p"
    by (simp add: RolesGrantingPermission_def canonical_roles_def list_ex_iff canonical_roles_sets IsValidPermission_def)
qed

end
