(* ===== verification/Scope_Document.thy ===== *)
theory Scope_Document
  imports Go_Json "HOL-Library.AList"
begin

section \<open>The scope document of a user: core/pkg/authorization/scopedocument.go, operational\_scope.go\<close>

text \<open>
  \<^verbatim>\<open>users.scope_json\<close> restricts a non-admin user to clusters. The document is authorization
  input, so a malformed or unknown field must never widen access. The strict parser, the
  limits, the derived allow-list and the fail-closed reader are modelled on the JSON text
  itself. A Go map is an association list without repeated keys; Go ranges over it in an
  unspecified order, which is visible here only in the choice among several field errors:
  the model reports one of them.

  The locale \<open>cluster_scope\<close> states what the request middleware relies on: the point check and
  the allow-list describe the same set of clusters.
\<close>

subsection \<open>The interface the middleware relies on\<close>

locale cluster_scope =
  fixes restricts :: "'d \<Rightarrow> bool"
    and allowed :: "'d \<Rightarrow> string \<Rightarrow> bool"
    and allow_list :: "'d \<Rightarrow> string list"
    and marker :: string
  assumes allowed_listed: "allowed d k \<Longrightarrow> k \<in> set (allow_list d)"
    and listed_allowed: "k \<in> set (allow_list d) \<Longrightarrow> k \<noteq> marker \<Longrightarrow> allowed d k"
    and unrestricted_empty: "\<not> restricts d \<Longrightarrow> allow_list d = []"
begin

lemma point_check_agrees_with_list:
  "k \<noteq> marker \<Longrightarrow> allowed d k \<longleftrightarrow> k \<in> set (allow_list d)"
  using allowed_listed listed_allowed by blast

lemma allowed_restricts: "allowed d k \<Longrightarrow> restricts d"
  using allowed_listed unrestricted_empty by fastforce

lemma row_filters_agree:
  assumes "\<forall>r \<in> set rows. key r \<noteq> marker"
  shows "filter (\<lambda>r. \<not> restricts d \<or> allowed d (key r)) rows
       = filter (\<lambda>r. \<not> restricts d \<or> key r \<in> set (allow_list d)) rows"
  using assms point_check_agrees_with_list by (intro filter_cong) auto

end

subsection \<open>Data\<close>

record ScopeDocument =
  sd_Clusters :: "string list"
  sd_Namespaces :: "string list"
  sd_Environments :: "string list"
  sd_Tenants :: "string list"
  sd_BusinessServices :: "string list"
  sd_CrownJewels :: "string list"
  sd_RegulatoryDomains :: "string list"
  sd_Labels :: "(string \<times> string) list"
  sd_LegacyCluster :: "string list"
  sd_clustersListed :: bool

definition emptyScopeDocument :: ScopeDocument where
  "emptyScopeDocument = \<lparr>sd_Clusters = [], sd_Namespaces = [], sd_Environments = [], sd_Tenants = [],
     sd_BusinessServices = [], sd_CrownJewels = [], sd_RegulatoryDomains = [], sd_Labels = [],
     sd_LegacyCluster = [], sd_clustersListed = False\<rparr>"

abbreviation invalid_scope :: string where
  "invalid_scope \<equiv> ''__invalid_scope__''"

definition ScopeNoClusters :: string where
  "ScopeNoClusters = ''{'' @ [CHR 0x22] @ ''clusters'' @ [CHR 0x22] @ '':[]}''"

datatype ScopeError = InvalidScopeJSON | ScopeNotObject | UnsupportedField string | NullField string
  | InvalidFieldType | TooManyValues string | EmptyValue string | ValueTooLong string
  | TooManyLabels | EmptyLabelKey | LabelTooLong

definition scope_fields :: "string list" where
  "scope_fields = [''clusters'', ''namespaces'', ''environments'', ''tenants'', ''business_services'',
     ''crown_jewels'', ''regulatory_domains'', ''labels'', ''cluster_ids'']"

definition set_scope_field :: "string \<Rightarrow> json \<Rightarrow> ScopeDocument \<Rightarrow> ScopeDocument option" where
  "set_scope_field f v d =
     (if f = ''clusters'' then map_option (\<lambda>x. d\<lparr>sd_Clusters := x\<rparr>) (set_strings v)
      else if f = ''namespaces'' then map_option (\<lambda>x. d\<lparr>sd_Namespaces := x\<rparr>) (set_strings v)
      else if f = ''environments'' then map_option (\<lambda>x. d\<lparr>sd_Environments := x\<rparr>) (set_strings v)
      else if f = ''tenants'' then map_option (\<lambda>x. d\<lparr>sd_Tenants := x\<rparr>) (set_strings v)
      else if f = ''business_services'' then map_option (\<lambda>x. d\<lparr>sd_BusinessServices := x\<rparr>) (set_strings v)
      else if f = ''crown_jewels'' then map_option (\<lambda>x. d\<lparr>sd_CrownJewels := x\<rparr>) (set_strings v)
      else if f = ''regulatory_domains'' then map_option (\<lambda>x. d\<lparr>sd_RegulatoryDomains := x\<rparr>) (set_strings v)
      else if f = ''labels'' then
        (if v = JNull then Some (d\<lparr>sd_Labels := []\<rparr>)
         else map_option (\<lambda>x. d\<lparr>sd_Labels := AList.clearjunk (rev x @ sd_Labels d)\<rparr>) (decode_string_map v))
      else if f = ''cluster_ids'' then map_option (\<lambda>x. d\<lparr>sd_LegacyCluster := x\<rparr>) (set_strings v)
      else Some d)"

subsection \<open>Validation\<close>

definition validate_value :: "string \<Rightarrow> string \<Rightarrow> (ScopeError, unit) result" where
  "validate_value name v =
     (if TrimSpace v = [] then Inl (EmptyValue name)
      else if length (TrimSpace v) > 256 then Inl (ValueTooLong name) else Inr ())"

definition validateList :: "string \<Rightarrow> string list \<Rightarrow> nat \<Rightarrow> (ScopeError, unit) result" where
  "validateList name vs maxItems =
     (if length vs > maxItems then Inl (TooManyValues name)
      else foldM (\<lambda>_ v. validate_value name v) () vs)"

definition validate_label :: "string \<times> string \<Rightarrow> (ScopeError, unit) result" where
  "validate_label kv =
     (if TrimSpace (fst kv) = [] then Inl EmptyLabelKey
      else if length (fst kv) > 128 \<or> length (snd kv) > 256 then Inl LabelTooLong else Inr ())"

definition Validate :: "ScopeDocument \<Rightarrow> (ScopeError, unit) result" where
  "Validate d =
     bind_result (foldM (\<lambda>_ (name, vs, maxItems). validateList name vs maxItems) ()
       [(''clusters'', sd_Clusters d, 512), (''cluster_ids'', sd_LegacyCluster d, 512),
        (''namespaces'', sd_Namespaces d, 512), (''environments'', sd_Environments d, 128),
        (''tenants'', sd_Tenants d, 128), (''business_services'', sd_BusinessServices d, 256),
        (''crown_jewels'', sd_CrownJewels d, 256), (''regulatory_domains'', sd_RegulatoryDomains d, 256)])
     (\<lambda>_. if length (sd_Labels d) > 64 then Inl TooManyLabels
           else foldM (\<lambda>_ kv. validate_label kv) () (sd_Labels d))"

subsection \<open>Parsing\<close>

definition check_raw_field :: "string \<times> json \<Rightarrow> (ScopeError, unit) result" where
  "check_raw_field kv =
     (if fst kv \<notin> set scope_fields then Inl (UnsupportedField (fst kv))
      else if snd kv = JNull then Inl (NullField (fst kv)) else Inr ())"

definition parse_scope_object :: "(string \<times> json) list \<Rightarrow> (ScopeError, ScopeDocument) result" where
  "parse_scope_object ms =
     bind_result (foldM (\<lambda>_ kv. check_raw_field kv) () (AList.clearjunk (rev ms))) (\<lambda>_.
       case decode_struct scope_fields set_scope_field emptyScopeDocument (JObj ms) of
         None \<Rightarrow> Inl InvalidFieldType
       | Some d \<Rightarrow>
           let d = d\<lparr>sd_clustersListed := dyn_get ms ''clusters'' \<noteq> None \<or> dyn_get ms ''cluster_ids'' \<noteq> None\<rparr>
           in bind_result (Validate d) (\<lambda>_. Inr d))"

definition ParseScopeDocumentStrict :: "string \<Rightarrow> (ScopeError, ScopeDocument) result" where
  "ParseScopeDocumentStrict scopeJSON =
     (let s = TrimSpace scopeJSON
      in if s = [] \<or> s = ''{}'' then Inr emptyScopeDocument
         else (case json_parse s of
             None \<Rightarrow> Inl InvalidScopeJSON
           | Some JNull \<Rightarrow> Inl ScopeNotObject
           | Some (JObj ms) \<Rightarrow> parse_scope_object ms
           | Some _ \<Rightarrow> Inl InvalidScopeJSON))"

definition ParseScopeDocument :: "string \<Rightarrow> ScopeDocument" where
  "ParseScopeDocument scopeJSON =
     (case ParseScopeDocumentStrict scopeJSON of
        Inl _ \<Rightarrow> emptyScopeDocument\<lparr>sd_Clusters := [invalid_scope]\<rparr>
      | Inr d \<Rightarrow> d)"

subsection \<open>The effective allow-list\<close>

fun collect_ids :: "string list \<Rightarrow> string list \<Rightarrow> string list" where
  "collect_ids out [] = out"
| "collect_ids out (i # ids) =
     (let t = TrimSpace i
      in if t = [] then collect_ids out ids
         else if t \<in> set out then collect_ids out ids
         else collect_ids (out @ [t]) ids)"

definition clusterIDs :: "ScopeDocument \<Rightarrow> string list" where
  "clusterIDs d = collect_ids (collect_ids [] (sd_Clusters d)) (sd_LegacyCluster d)"

definition HasUnenforcedRestrictions :: "ScopeDocument \<Rightarrow> bool" where
  "HasUnenforcedRestrictions d \<longleftrightarrow>
     length (sd_Namespaces d) > 0 \<or> length (sd_Environments d) > 0 \<or> length (sd_Tenants d) > 0 \<or>
     length (sd_BusinessServices d) > 0 \<or> length (sd_CrownJewels d) > 0 \<or>
     length (sd_RegulatoryDomains d) > 0 \<or> length (sd_Labels d) > 0"

definition ClusterIDs :: "ScopeDocument \<Rightarrow> string list" where
  "ClusterIDs d = (if HasUnenforcedRestrictions d then [invalid_scope] else clusterIDs d)"

definition RestrictsClusters :: "ScopeDocument \<Rightarrow> bool" where
  "RestrictsClusters d \<longleftrightarrow>
     (if HasUnenforcedRestrictions d then True
      else sd_clustersListed d \<or> length (clusterIDs d) > 0)"

definition GrantsNoCluster :: "ScopeDocument \<Rightarrow> bool" where
  "GrantsNoCluster d \<longleftrightarrow> RestrictsClusters d \<and> length (ClusterIDs d) = 0"

definition DocClusterAllowed :: "ScopeDocument \<Rightarrow> string \<Rightarrow> bool" where
  "DocClusterAllowed d clusterKey =
     (if HasUnenforcedRestrictions d then False
      else let ids = clusterIDs d
           in if length ids = 1 \<and> ids ! 0 = invalid_scope then False
              else list_ex (\<lambda>i. i = clusterKey) ids)"

definition ClusterAllowListSize :: "ScopeDocument \<Rightarrow> nat" where
  "ClusterAllowListSize d = length (ClusterIDs d)"

record OperationalScope =
  os_Clusters :: "string list"
  os_Namespaces :: "string list"
  os_Teams :: "string list"
  os_Environments :: "string list"
  os_BusinessServices :: "string list"
  os_CrownJewels :: "string list"
  os_RegulatoryDomains :: "string list"
  os_Restricted :: bool

definition OperationalScopeFromDocument :: "string \<Rightarrow> OperationalScope" where
  "OperationalScopeFromDocument scopeJSON =
     (let doc = ParseScopeDocument scopeJSON;
          out = \<lparr>os_Clusters = clusterIDs doc, os_Namespaces = sd_Namespaces doc, os_Teams = sd_Tenants doc,
                 os_Environments = sd_Environments doc, os_BusinessServices = sd_BusinessServices doc,
                 os_CrownJewels = sd_CrownJewels doc, os_RegulatoryDomains = sd_RegulatoryDomains doc,
                 os_Restricted = False\<rparr>;
          out = (if RestrictsClusters doc \<or> length (os_Clusters out) > 0 \<or> length (os_Namespaces out) > 0
                    \<or> length (os_Teams out) > 0 \<or> length (os_Environments out) > 0
                    \<or> length (os_BusinessServices out) > 0 \<or> length (os_CrownJewels out) > 0
                    \<or> length (os_RegulatoryDomains out) > 0
                 then out\<lparr>os_Restricted := True\<rparr> else out)
      in if length (os_Clusters out) = 1 \<and> os_Clusters out ! 0 = invalid_scope
         then out\<lparr>os_Clusters := [], os_Restricted := True\<rparr> else out)"

subsection \<open>The allow-list and the interpretation of the interface\<close>

lemma set_collect_ids: "set (collect_ids out ids) = set out \<union> (TrimSpace ` set ids - {[]})"
  by (induction ids arbitrary: out) (auto simp: Let_def)

lemma distinct_collect_ids: "distinct out \<Longrightarrow> distinct (collect_ids out ids)"
  by (induction ids arbitrary: out) (auto simp: Let_def)

lemma set_clusterIDs:
  "set (clusterIDs d) = TrimSpace ` (set (sd_Clusters d) \<union> set (sd_LegacyCluster d)) - {[]}"
  by (auto simp: clusterIDs_def set_collect_ids)

lemma distinct_clusterIDs: "distinct (clusterIDs d)"
  by (simp add: clusterIDs_def distinct_collect_ids)

lemma length_one_marker: "length xs = 1 \<and> xs ! 0 = a \<longleftrightarrow> xs = [a]"
  by (cases xs) auto

lemma DocClusterAllowed_iff:
  "DocClusterAllowed d k \<longleftrightarrow>
     \<not> HasUnenforcedRestrictions d \<and> clusterIDs d \<noteq> [invalid_scope] \<and> k \<in> set (clusterIDs d)"
  unfolding DocClusterAllowed_def Let_def length_one_marker by (auto simp: list_ex_iff)

interpretation doc_scope: cluster_scope RestrictsClusters DocClusterAllowed ClusterIDs invalid_scope
  by unfold_locales (auto simp: DocClusterAllowed_iff ClusterIDs_def RestrictsClusters_def split: if_splits)

subsection \<open>What a parsed document contains\<close>

lemma check_raw_fields_keys:
  assumes "foldM (\<lambda>_ kv. check_raw_field kv) () (AList.clearjunk (rev ms)) = Inr ()"
    and "(k, v) \<in> set ms"
  shows "k \<in> set scope_fields"
proof -
  have "k \<in> fst ` set (AList.clearjunk (rev ms))"
    using assms(2) by (force simp: dom_clearjunk)
  then obtain w where "(k, w) \<in> set (AList.clearjunk (rev ms))" by auto
  with assms(1) show ?thesis
    by (force simp: foldM_unit_Inr_iff check_raw_field_def split: if_splits)
qed

text \<open>The strings a document lists under its two cluster fields.\<close>

definition listed_clusters :: "(string \<times> json) list \<Rightarrow> string set" where
  "listed_clusters ms = {v. \<exists>f vs. (f, JArr vs) \<in> set ms \<and> f \<in> {''clusters'', ''cluster_ids''} \<and> JStr v \<in> set vs}"

lemma set_strings_elem:
  "set_strings j = Some ss \<Longrightarrow> x \<in> set ss \<Longrightarrow> x = [] \<or> (\<exists>vs. j = JArr vs \<and> JStr x \<in> set vs)"
  by (auto simp: set_strings_def decode_list_def set_string_def split: json.splits
      dest!: those_map_eq_Some)

lemma set_scope_field_clusters:
  assumes "set_scope_field f v d = Some d'" and "x \<in> set (sd_Clusters d') \<union> set (sd_LegacyCluster d')"
  shows "x \<in> set (sd_Clusters d) \<union> set (sd_LegacyCluster d) \<or> x = []
    \<or> (\<exists>vs. v = JArr vs \<and> JStr x \<in> set vs \<and> f \<in> {''clusters'', ''cluster_ids''})"
  using assms by (auto simp: set_scope_field_def split: if_splits dest!: set_strings_elem)

lemma decode_members_clusters:
  assumes "decode_members scope_fields set_scope_field d ms = Some d'" and "fst ` set ms \<subseteq> set scope_fields"
    and "x \<in> set (sd_Clusters d') \<union> set (sd_LegacyCluster d')"
  shows "x \<in> set (sd_Clusters d) \<union> set (sd_LegacyCluster d) \<or> x = [] \<or> x \<in> listed_clusters ms"
  using assms
proof (induction ms arbitrary: d)
  case Nil
  then show ?case by simp
next
  case (Cons kv ms)
  obtain k v where kv: "kv = (k, v)" by fastforce
  with Cons.prems obtain e where e: "set_scope_field k v d = Some e"
    and rest: "decode_members scope_fields set_scope_field e ms = Some d'"
    by (auto simp: match_field_exact split: option.splits)
  have "x \<in> set (sd_Clusters e) \<union> set (sd_LegacyCluster e) \<or> x = [] \<or> x \<in> listed_clusters ms"
    using Cons.IH [OF rest] Cons.prems by auto
  with set_scope_field_clusters [OF e] show ?case
    by (fastforce simp: kv listed_clusters_def)
qed

lemma ParseScopeDocumentStrict_cases:
  assumes "ParseScopeDocumentStrict s = Inr d"
  obtains (blank) "TrimSpace s = []" "d = emptyScopeDocument"
  | (braces) "TrimSpace s = ''{}''" "d = emptyScopeDocument"
  | (obj) ms where "json_parse (TrimSpace s) = Some (JObj ms)" "parse_scope_object ms = Inr d"
  using assms
  by (auto simp: ParseScopeDocumentStrict_def Let_def split: if_splits option.splits json.splits)

lemma parse_scope_object_Inr:
  assumes "parse_scope_object ms = Inr d"
  obtains e where "fst ` set ms \<subseteq> set scope_fields"
    and "decode_members scope_fields set_scope_field emptyScopeDocument ms = Some e"
    and "d = e\<lparr>sd_clustersListed := dyn_get ms ''clusters'' \<noteq> None \<or> dyn_get ms ''cluster_ids'' \<noteq> None\<rparr>"
    and "Validate d = Inr ()"
proof -
  from assms have chk: "foldM (\<lambda>_ kv. check_raw_field kv) () (AList.clearjunk (rev ms)) = Inr ()"
    by (auto simp: parse_scope_object_def go_result_simps)
  then have "fst ` set ms \<subseteq> set scope_fields" using check_raw_fields_keys by force
  moreover obtain e where "decode_members scope_fields set_scope_field emptyScopeDocument ms = Some e"
    and "d = e\<lparr>sd_clustersListed := dyn_get ms ''clusters'' \<noteq> None \<or> dyn_get ms ''cluster_ids'' \<noteq> None\<rparr>"
    and "Validate d = Inr ()"
    using assms chk
    by (auto simp: parse_scope_object_def go_result_simps decode_struct_def Let_def split: option.splits)
  ultimately show thesis using that by blast
qed

lemma json_parse_braces: "json_parse ''{}'' = Some (JObj [])"
  by code_simp

lemma emptyScopeDocument_unrestricted:
  "\<not> HasUnenforcedRestrictions emptyScopeDocument" "clusterIDs emptyScopeDocument = []"
  "\<not> RestrictsClusters emptyScopeDocument"
  by (simp_all add: emptyScopeDocument_def HasUnenforcedRestrictions_def clusterIDs_def RestrictsClusters_def)

lemma invalid_document:
  assumes "ParseScopeDocumentStrict s = Inl e"
  shows "RestrictsClusters (ParseScopeDocument s)" "\<not> DocClusterAllowed (ParseScopeDocument s) k"
proof -
  have "TrimSpace invalid_scope = invalid_scope" by code_simp
  then have "clusterIDs (ParseScopeDocument s) = [invalid_scope]"
    using assms by (simp add: ParseScopeDocument_def clusterIDs_def emptyScopeDocument_def)
  then show "RestrictsClusters (ParseScopeDocument s)" "\<not> DocClusterAllowed (ParseScopeDocument s) k"
    by (simp_all add: RestrictsClusters_def DocClusterAllowed_iff)
qed

definition sample_scope :: string where
  "sample_scope = ''{'' @ [CHR 0x22] @ ''clusters'' @ [CHR 0x22] @ '': ['' @ [CHR 0x22] @ '' c1 '' @ [CHR 0x22] @ '']}''"

subsection \<open>Properties\<close>

text \<open>
  Every cluster a scope document grants is written in it: when the point check allows a
  cluster, the stored text parses to an object that lists, under \<^verbatim>\<open>clusters\<close> or
  \<^verbatim>\<open>cluster_ids\<close>, a string that trims to that cluster.
\<close>

lemma scope_grants_only_listed_clusters:
  assumes "DocClusterAllowed (ParseScopeDocument s) k"
  shows "k \<noteq> [] \<and> (\<exists>ms. json_parse (TrimSpace s) = Some (JObj ms) \<and> (\<exists>v \<in> listed_clusters ms. TrimSpace v = k))"
proof -
  obtain d where d: "ParseScopeDocumentStrict s = Inr d" "ParseScopeDocument s = d"
    using assms invalid_document by (cases "ParseScopeDocumentStrict s") (auto simp: ParseScopeDocument_def)
  have k: "k \<in> set (clusterIDs d)" using assms d by (simp add: DocClusterAllowed_iff)
  from d(1) show ?thesis
  proof (cases rule: ParseScopeDocumentStrict_cases)
    case (obj ms)
    from obj(2) obtain e where "fst ` set ms \<subseteq> set scope_fields"
      "decode_members scope_fields set_scope_field emptyScopeDocument ms = Some e"
      "sd_Clusters d = sd_Clusters e" "sd_LegacyCluster d = sd_LegacyCluster e"
      by (elim parse_scope_object_Inr) auto
    then have "x = [] \<or> x \<in> listed_clusters ms" if "x \<in> set (sd_Clusters d) \<union> set (sd_LegacyCluster d)" for x
      using that decode_members_clusters by (fastforce simp: emptyScopeDocument_def)
    with k obj(1) show ?thesis by (fastforce simp: set_clusterIDs)
  qed (use k emptyScopeDocument_unrestricted in auto)
qed

lemma scope_grants_only_listed_clusters_witness:
  "\<exists>ms. json_parse (TrimSpace sample_scope) = Some (JObj ms) \<and> (\<exists>v \<in> listed_clusters ms. TrimSpace v = ''c1'')"
proof -
  have "DocClusterAllowed (ParseScopeDocument sample_scope) ''c1''" by code_simp
  then show ?thesis using scope_grants_only_listed_clusters [of sample_scope "''c1''"] by blast
qed

text \<open>
  C3. Fail-closed reading: a stored scope leaves the user unrestricted only when it is blank or is
  an object all of whose fields are known and none of which is a cluster list; in particular a
  text that is not valid JSON, is not an object, has an unknown or null field or a value of the
  wrong type or beyond the limits restricts the user, and then no cluster is allowed. An explicit
  list, even an empty one, always restricts.
\<close>

theorem scope_unrestricted_only_without_cluster_fields:
  "(\<not> RestrictsClusters (ParseScopeDocument s) \<longrightarrow>
      TrimSpace s = [] \<or> (\<exists>ms. json_parse (TrimSpace s) = Some (JObj ms) \<and>
        fst ` set ms \<subseteq> set scope_fields - {''clusters'', ''cluster_ids''})) \<and>
   (\<not> is_ok (ParseScopeDocumentStrict s) \<longrightarrow>
      RestrictsClusters (ParseScopeDocument s) \<and> (\<forall>k. \<not> DocClusterAllowed (ParseScopeDocument s) k))"
proof (intro conjI impI)
  assume unres: "\<not> RestrictsClusters (ParseScopeDocument s)"
  then obtain d where d: "ParseScopeDocumentStrict s = Inr d" "ParseScopeDocument s = d"
    using invalid_document by (cases "ParseScopeDocumentStrict s") (auto simp: ParseScopeDocument_def)
  from d(1) show "TrimSpace s = [] \<or> (\<exists>ms. json_parse (TrimSpace s) = Some (JObj ms) \<and>
        fst ` set ms \<subseteq> set scope_fields - {''clusters'', ''cluster_ids''})"
  proof (cases rule: ParseScopeDocumentStrict_cases)
    case (obj ms)
    from obj(2) have "fst ` set ms \<subseteq> set scope_fields"
      "sd_clustersListed d = (dyn_get ms ''clusters'' \<noteq> None \<or> dyn_get ms ''cluster_ids'' \<noteq> None)"
      by (auto elim: parse_scope_object_Inr)
    moreover have "\<not> sd_clustersListed d"
      using unres d(2) by (auto simp: RestrictsClusters_def split: if_splits)
    ultimately have "fst ` set ms \<subseteq> set scope_fields - {''clusters'', ''cluster_ids''}"
      unfolding dyn_get_None_iff by blast
    with obj(1) show ?thesis by blast
  qed (auto simp: json_parse_braces)
next
  assume "\<not> is_ok (ParseScopeDocumentStrict s)"
  then obtain e where e: "ParseScopeDocumentStrict s = Inl e"
    by (cases "ParseScopeDocumentStrict s") auto
  then show "RestrictsClusters (ParseScopeDocument s)" by (rule invalid_document)
  from e show "\<forall>k. \<not> DocClusterAllowed (ParseScopeDocument s) k" using invalid_document by blast
qed

theorem scope_unrestricted_only_without_cluster_fields_witness:
  "RestrictsClusters (ParseScopeDocument ScopeNoClusters)"
proof -
  have "json_parse (TrimSpace ScopeNoClusters) = Some (JObj [(''clusters'', JArr [])])"
    and "TrimSpace ScopeNoClusters \<noteq> []"
    by code_simp+
  then show ?thesis
    using scope_unrestricted_only_without_cluster_fields [of ScopeNoClusters] by auto
qed

end
