(* ===== verification/Middleware_Scope.thy ===== *)
theory Middleware_Scope
  imports Authorization Scope_Document
begin

section \<open>Request authorization: core/internal/middleware/authorization.go, scope.go\<close>

text \<open>
  A gin handler is a function from the database and the request context to an outcome: the
  response (go on to the next handler, or abort with a status, a reason and the cluster key
  the body names), the context with what the handler stored in it, and the database with the
  audit rows it wrote. \<^verbatim>\<open>*gorm.DB\<close> may be nil, so it is an option; the audit tables may be
  missing and a failed insert is ignored, as in the code. Pod rows include soft-deleted ones
  (\<^verbatim>\<open>Unscoped\<close>). Details that the code marshals to JSON are kept as fields.
\<close>

subsection \<open>Requests and the database\<close>

record User =
  user_ID :: nat
  user_Username :: string
  user_Role :: string
  user_ScopeJSON :: string

text \<open>The value stored under the key \<^verbatim>\<open>user\<close>: a nil, a value of another type, or a user.\<close>

datatype UserValue = NilUser | OtherUser | UserPtr User

datatype PermissionsValue = NilPermissions | OtherPermissions | PermissionSlice "Permission list"

record GinContext =
  ctx_user :: "UserValue option"
  ctx_permissions :: "PermissionsValue option"
  ctx_param :: "string \<Rightarrow> string"
  ctx_query :: "string \<Rightarrow> string"
  ctx_path :: string
  ctx_method :: string
  ctx_sessionID :: string
  ctx_normalizedRole :: string
  ctx_podClusterID :: string

record AuditLog =
  al_required :: string
  al_granted :: "string list"
  al_path :: string
  al_method :: string
  al_role :: string
  al_user :: string
  al_userID :: "nat option"

record ActivityLog =
  sl_action :: string
  sl_subject :: string
  sl_granted :: "string list"
  sl_sessionID :: string

record Database =
  db_pods :: "(string \<times> string) list"
  db_queryFails :: bool
  db_hasAuditLog :: bool
  db_hasActivityLog :: bool
  db_insertFails :: bool
  db_auditLog :: "AuditLog list"
  db_activityLog :: "ActivityLog list"

datatype Response = Next | Abort (status: nat) (reason: string) (named: string)

record Outcome =
  out_response :: Response
  out_ctx :: GinContext
  out_db :: "Database option"

definition abort_with :: "Database option \<Rightarrow> GinContext \<Rightarrow> nat \<Rightarrow> string \<Rightarrow> string \<Rightarrow> Outcome" where
  "abort_with db c st r n = \<lparr>out_response = Abort st r n, out_ctx = c, out_db = db\<rparr>"

definition go_next :: "Database option \<Rightarrow> GinContext \<Rightarrow> Outcome" where
  "go_next db c = \<lparr>out_response = Next, out_ctx = c, out_db = db\<rparr>"

subsection \<open>Audit\<close>

definition LogActivity :: "Database option \<Rightarrow> GinContext \<Rightarrow> string \<Rightarrow> string \<Rightarrow> Permission list \<Rightarrow> Database option" where
  "LogActivity db c action subject granted = (case db of
     None \<Rightarrow> None
   | Some d \<Rightarrow> if \<not> db_hasActivityLog d \<or> db_insertFails d then Some d
      else Some (d\<lparr>db_activityLog := db_activityLog d @
        [\<lparr>sl_action = action, sl_subject = subject, sl_granted = ToStrings granted,
          sl_sessionID = ctx_sessionID c\<rparr>]\<rparr>))"

definition LogAuthzDenied :: "Database option \<Rightarrow> GinContext \<Rightarrow> string \<Rightarrow> Permission list \<Rightarrow> Database option" where
  "LogAuthzDenied db c required granted = LogActivity db c ''authorization_denied'' required granted"

definition LogClusterScopeDenied :: "Database option \<Rightarrow> GinContext \<Rightarrow> string \<Rightarrow> Permission list \<Rightarrow> Database option" where
  "LogClusterScopeDenied db c clusterID granted = LogActivity db c ''cluster_scope_denied'' clusterID granted"

definition request_user :: "GinContext \<Rightarrow> User option" where
  "request_user c = (case ctx_user c of Some (UserPtr u) \<Rightarrow> Some u | _ \<Rightarrow> None)"

definition auditAuthzDenied :: "Database option \<Rightarrow> GinContext \<Rightarrow> string \<Rightarrow> Permission list \<Rightarrow> Database option" where
  "auditAuthzDenied db c required granted = (case db of
     None \<Rightarrow> None
   | Some d \<Rightarrow> if \<not> db_hasAuditLog d then Some d
      else
        let uid = (case request_user c of None \<Rightarrow> 0 | Some u \<Rightarrow> user_ID u);
            uname = (case request_user c of None \<Rightarrow> [] | Some u \<Rightarrow> user_Username u);
            entry = \<lparr>al_required = required, al_granted = ToStrings granted, al_path = ctx_path c,
                     al_method = ctx_method c, al_role = ctx_normalizedRole c, al_user = uname,
                     al_userID = (if uid > 0 then Some uid else None)\<rparr>;
            d = (if db_insertFails d then d else d\<lparr>db_auditLog := db_auditLog d @ [entry]\<rparr>)
        in LogAuthzDenied (Some d) c required granted)"

subsection \<open>Permissions\<close>

definition GrantedPermissions :: "GinContext \<Rightarrow> Permission list" where
  "GrantedPermissions c = (case ctx_permissions c of Some (PermissionSlice ps) \<Rightarrow> ps | _ \<Rightarrow> [])"

definition RequirePermission :: "Database option \<Rightarrow> Permission \<Rightarrow> GinContext \<Rightarrow> Outcome" where
  "RequirePermission db need c =
     (let granted = GrantedPermissions c
      in if \<not> HasPermission granted need
         then abort_with (auditAuthzDenied db c need granted) c 403 ''forbidden'' need
         else go_next db c)"

definition RequireAnyPermission :: "Database option \<Rightarrow> Permission list \<Rightarrow> GinContext \<Rightarrow> Outcome" where
  "RequireAnyPermission db required c =
     (let granted = GrantedPermissions c
      in if \<not> HasAnyPermission granted required
         then let names = join_str '','' required
              in abort_with (auditAuthzDenied db c (''any:'' @ names) granted) c 403 ''forbidden'' names
         else go_next db c)"

subsection \<open>Cluster scope\<close>

definition ClusterAllowed :: "GinContext \<Rightarrow> string \<Rightarrow> bool" where
  "ClusterAllowed c key =
     (let clusterKey = TrimSpace key
      in if clusterKey = [] then True
         else (case request_user c of
             None \<Rightarrow> False
           | Some u \<Rightarrow>
               if EqualFold (NormalizeRole (user_Role u)) RoleAdmin then True
               else let doc = ParseScopeDocument (user_ScopeJSON u)
                    in if \<not> RestrictsClusters doc then True else DocClusterAllowed doc clusterKey))"

definition ScopedClusterIDs :: "GinContext \<Rightarrow> string list \<times> bool" where
  "ScopedClusterIDs c =
     (case request_user c of
        None \<Rightarrow> ([], False)
      | Some u \<Rightarrow>
          if EqualFold (NormalizeRole (user_Role u)) RoleAdmin then ([], False)
          else let doc = ParseScopeDocument (user_ScopeJSON u)
               in if \<not> RestrictsClusters doc then ([], False) else (ClusterIDs doc, True))"

definition AbortClusterScopeDenied :: "Database option \<Rightarrow> GinContext \<Rightarrow> string \<Rightarrow> Outcome" where
  "AbortClusterScopeDenied db c key =
     (let clusterKey = TrimSpace key;
          granted = GrantedPermissions c;
          db = auditAuthzDenied db c (''scope:cluster:'' @ clusterKey) granted;
          db = LogClusterScopeDenied db c clusterKey granted
      in abort_with db c 403 ''cluster_scope'' clusterKey)"

definition enforceClusterScope :: "Database option \<Rightarrow> GinContext \<Rightarrow> string \<Rightarrow> Outcome" where
  "enforceClusterScope db c clusterKey =
     (if db = None then go_next db c
      else if clusterKey = [] then go_next db c
      else if ClusterAllowed c clusterKey then go_next db c
      else AbortClusterScopeDenied db c clusterKey)"

definition RequireClusterScope :: "Database option \<Rightarrow> string \<Rightarrow> GinContext \<Rightarrow> Outcome" where
  "RequireClusterScope db param c = enforceClusterScope db c (TrimSpace (ctx_param c param))"

definition RequireScopedPermission :: "Database option \<Rightarrow> string \<Rightarrow> Permission \<Rightarrow> GinContext \<Rightarrow> Outcome" where
  "RequireScopedPermission db param need c =
     (let granted = GrantedPermissions c
      in if \<not> HasPermission granted need
         then abort_with (auditAuthzDenied db c need granted) c 403 ''forbidden'' need
         else enforceClusterScope db c (TrimSpace (ctx_param c param)))"

definition RequireUnrestrictedScope :: "Database option \<Rightarrow> GinContext \<Rightarrow> Outcome" where
  "RequireUnrestrictedScope db c =
     (if snd (ScopedClusterIDs c) then AbortClusterScopeDenied db c ''*'' else go_next db c)"

definition pod_cluster_ids :: "Database \<Rightarrow> string \<Rightarrow> string list" where
  "pod_cluster_ids d podUID = remdups (map snd (filter (\<lambda>p. fst p = podUID) (db_pods d)))"

definition RequirePodUIDClusterScope :: "Database option \<Rightarrow> string \<Rightarrow> GinContext \<Rightarrow> Outcome" where
  "RequirePodUIDClusterScope db param c = (case db of
     None \<Rightarrow> abort_with db c 500 ''pod scope lookup unavailable'' []
   | Some d \<Rightarrow>
     let podUID = TrimSpace (ctx_param c param)
     in if podUID = [] then abort_with db c 400 ''pod UID is required'' []
        else if db_queryFails d then abort_with db c 500 ''could not verify pod scope'' []
        else
          let rawClusterIDs = pod_cluster_ids d podUID
          in if rawClusterIDs = [] then
               (if snd (ScopedClusterIDs c) then AbortClusterScopeDenied db c ''unknown-pod''
                else abort_with db c 404 ''pod not found'' [])
             else
               let unique = remdups (filter (\<lambda>i. i \<noteq> []) (map TrimSpace rawClusterIDs));
                   unresolved = list_ex (\<lambda>i. TrimSpace i = []) rawClusterIDs;
                   requested = TrimSpace (ctx_query c ''clusterId'')
               in if requested \<noteq> [] \<and> \<not> unresolved then
                    (if requested \<notin> set unique then
                       (if \<not> ClusterAllowed c requested then AbortClusterScopeDenied db c requested
                        else abort_with db c 404 ''pod not found in requested cluster'' [])
                     else enforceClusterScope db (c\<lparr>ctx_podClusterID := requested\<rparr>) requested)
                  else if unresolved \<or> length unique \<noteq> 1 then
                    (if snd (ScopedClusterIDs c) then AbortClusterScopeDenied db c ''ambiguous-pod''
                     else abort_with db c 409 ''pod identity is ambiguous'' [])
                  else enforceClusterScope db (c\<lparr>ctx_podClusterID := hd unique\<rparr>) (hd unique))"

definition ResolvedPodClusterID :: "GinContext \<Rightarrow> string \<times> bool" where
  "ResolvedPodClusterID c = (let i = TrimSpace (ctx_podClusterID c) in (i, i \<noteq> []))"

subsection \<open>Lemmas\<close>

lemma NormalizeRole_admin_iff: "EqualFold (NormalizeRole role) RoleAdmin \<longleftrightarrow> role_key role = RoleAdmin"
proof -
  have lower: "list_all (\<lambda>r. ToLower r = r) [RoleAdmin, RoleClusterAdmin, RoleOperator, RoleViewer, RoleRiskEvaluator]"
    by code_simp
  show ?thesis
    using lower
    by (cases "TrimSpace role = []") (simp_all add: EqualFold_def NormalizeRole_def role_key_def Let_def)
qed

lemma request_user_pod [simp]: "request_user (c\<lparr>ctx_podClusterID := x\<rparr>) = request_user c"
  by (simp add: request_user_def)

lemma ClusterAllowed_pod [simp]: "ClusterAllowed (c\<lparr>ctx_podClusterID := x\<rparr>) k = ClusterAllowed c k"
  by (simp add: ClusterAllowed_def)

lemma outcome_simps [simp]:
  "out_response (abort_with db c st r n) = Abort st r n" "out_ctx (abort_with db c st r n) = c"
  "out_db (abort_with db c st r n) = db"
  "out_response (go_next db c) = Next" "out_ctx (go_next db c) = c" "out_db (go_next db c) = db"
  by (simp_all add: abort_with_def go_next_def)

lemma AbortClusterScopeDenied_response [simp]:
  "out_response (AbortClusterScopeDenied db c key) = Abort 403 ''cluster_scope'' (TrimSpace key)"
  "out_ctx (AbortClusterScopeDenied db c key) = c"
  by (simp_all add: AbortClusterScopeDenied_def Let_def)

lemma enforceClusterScope_response:
  "out_response (enforceClusterScope db c key) =
     (if db = None \<or> key = [] \<or> ClusterAllowed c key then Next else Abort 403 ''cluster_scope'' (TrimSpace key))"
  "out_ctx (enforceClusterScope db c key) = c"
  by (simp_all add: enforceClusterScope_def)

lemma set_pod_cluster_ids: "set (pod_cluster_ids d uid) = {raw. (uid, raw) \<in> set (db_pods d)}"
  by (force simp: pod_cluster_ids_def)

lemma restricted_user:
  "snd (ScopedClusterIDs c) \<longleftrightarrow> (\<exists>u. request_user c = Some u \<and> role_key (user_Role u) \<noteq> RoleAdmin
     \<and> RestrictsClusters (ParseScopeDocument (user_ScopeJSON u)))"
  by (auto simp: ScopedClusterIDs_def NormalizeRole_admin_iff Let_def split: option.splits)

lemma LogActivity_audit: "\<exists>d'. LogActivity (Some d) c a sub g = Some d' \<and> db_auditLog d' = db_auditLog d"
  by (simp add: LogActivity_def)

lemma auditAuthzDenied_rows:
  "\<exists>d'. auditAuthzDenied (Some d) c r g = Some d' \<and> length (db_auditLog d') =
     length (db_auditLog d) + (if db_hasAuditLog d \<and> \<not> db_insertFails d then 1 else 0)"
proof (cases "db_hasAuditLog d")
  case True
  then obtain e where "auditAuthzDenied (Some d) c r g =
      LogAuthzDenied (Some (if db_insertFails d then d else d\<lparr>db_auditLog := db_auditLog d @ [e]\<rparr>)) c r g"
    by (simp add: auditAuthzDenied_def Let_def)
  then show ?thesis
    using True LogActivity_audit [of "if db_insertFails d then d else d\<lparr>db_auditLog := db_auditLog d @ [e]\<rparr>"]
    by (fastforce simp: LogAuthzDenied_def)
qed (simp add: auditAuthzDenied_def)

lemma AbortClusterScopeDenied_rows:
  "\<exists>d'. out_db (AbortClusterScopeDenied (Some d) c k) = Some d' \<and> length (db_auditLog d') =
     length (db_auditLog d) + (if db_hasAuditLog d \<and> \<not> db_insertFails d then 1 else 0)"
proof -
  obtain d1 where d1: "auditAuthzDenied (Some d) c (''scope:cluster:'' @ TrimSpace k) (GrantedPermissions c) = Some d1"
    "length (db_auditLog d1) = length (db_auditLog d) + (if db_hasAuditLog d \<and> \<not> db_insertFails d then 1 else 0)"
    using auditAuthzDenied_rows by blast
  show ?thesis
    using LogActivity_audit [of d1 c "''cluster_scope_denied''" "TrimSpace k" "GrantedPermissions c"] d1
    by (auto simp: AbortClusterScopeDenied_def Let_def LogClusterScopeDenied_def)
qed

text \<open>The trimmed owners of a pod UID.\<close>

definition pod_owners :: "Database \<Rightarrow> string \<Rightarrow> string set" where
  "pod_owners d uid = TrimSpace ` {raw. (uid, raw) \<in> set (db_pods d)}"

lemma unique_owners:
  "set (remdups (filter (\<lambda>i. i \<noteq> []) (map TrimSpace (pod_cluster_ids d uid)))) = pod_owners d uid - {[]}"
  by (auto simp: pod_owners_def set_pod_cluster_ids)

lemma unresolved_iff: "list_ex (\<lambda>i. TrimSpace i = []) (pod_cluster_ids d uid) \<longleftrightarrow> [] \<in> pod_owners d uid"
  by (force simp: list_ex_iff pod_owners_def set_pod_cluster_ids)

lemma no_rows_iff: "pod_cluster_ids d uid = [] \<longleftrightarrow> pod_owners d uid = {}"
  using set_pod_cluster_ids [of d uid] by (auto simp: pod_owners_def simp flip: set_empty)

lemma distinct_length_one: "distinct xs \<Longrightarrow> set xs = A \<Longrightarrow> length xs = 1 \<longleftrightarrow> (\<exists>a. A = {a})"
  using distinct_card [of xs] by (auto simp: card_1_singleton_iff)

lemma hd_unique: "set xs = {a} \<Longrightarrow> hd xs = a"
  by (cases xs) auto

text \<open>The handler as a decision on the owners of the pod.\<close>

lemma RequirePodUIDClusterScope_eq:
  assumes "TrimSpace (ctx_param c param) = uid" "uid \<noteq> []" "\<not> db_queryFails d"
    and "TrimSpace (ctx_query c ''clusterId'') = q"
  shows "RequirePodUIDClusterScope (Some d) param c =
     (if pod_owners d uid = {} then
        (if snd (ScopedClusterIDs c) then AbortClusterScopeDenied (Some d) c ''unknown-pod''
         else abort_with (Some d) c 404 ''pod not found'' [])
      else if q \<noteq> [] \<and> [] \<notin> pod_owners d uid then
        (if q \<notin> pod_owners d uid then
           (if \<not> ClusterAllowed c q then AbortClusterScopeDenied (Some d) c q
            else abort_with (Some d) c 404 ''pod not found in requested cluster'' [])
         else enforceClusterScope (Some d) (c\<lparr>ctx_podClusterID := q\<rparr>) q)
      else if [] \<in> pod_owners d uid \<or> \<not> is_singleton (pod_owners d uid) then
        (if snd (ScopedClusterIDs c) then AbortClusterScopeDenied (Some d) c ''ambiguous-pod''
         else abort_with (Some d) c 409 ''pod identity is ambiguous'' [])
      else enforceClusterScope (Some d) (c\<lparr>ctx_podClusterID := the_elem (pod_owners d uid)\<rparr>)
             (the_elem (pod_owners d uid)))"
proof -
  let ?u = "remdups (filter (\<lambda>i. i \<noteq> []) (map TrimSpace (pod_cluster_ids d uid)))"
  have one: "length ?u = 1 \<longleftrightarrow> is_singleton (pod_owners d uid - {[]})"
    using distinct_length_one [OF distinct_remdups unique_owners] by (simp add: is_singleton_def)
  have hd: "hd ?u = the_elem (pod_owners d uid - {[]})" if "is_singleton (pod_owners d uid - {[]})"
    using that hd_unique [OF unique_owners [THEN trans]] by (fastforce simp: is_singleton_def)
  show ?thesis
    using assms(2-4) one hd
    by (cases "[] \<in> pod_owners d uid")
       (simp_all add: RequirePodUIDClusterScope_def Let_def assms(1) no_rows_iff unresolved_iff unique_owners
        del: set_remdups set_filter)
qed

definition sample_user :: User where
  "sample_user = \<lparr>user_ID = 7, user_Username = ''eve'', user_Role = ''Operator '', user_ScopeJSON = sample_scope\<rparr>"

definition sample_request :: "string \<Rightarrow> GinContext" where
  "sample_request uid = \<lparr>ctx_user = Some (UserPtr sample_user), ctx_permissions = None,
     ctx_param = (\<lambda>_. uid), ctx_query = (\<lambda>_. []), ctx_path = ''/pods'', ctx_method = ''GET'',
     ctx_sessionID = ''s'', ctx_normalizedRole = ''operator'', ctx_podClusterID = []\<rparr>"

definition sample_db :: Database where
  "sample_db = \<lparr>db_pods = [(''p1'', ''c1''), (''p2'', ''secret-cluster'')], db_queryFails = False,
     db_hasAuditLog = True, db_hasActivityLog = True, db_insertFails = False, db_auditLog = [], db_activityLog = []\<rparr>"

subsection \<open>Properties\<close>

text \<open>
  The two views of a user's scope agree: for an authenticated request and a non-blank cluster
  key, the point check of a handler allows the cluster exactly when the allow-list used to filter
  queries is off or contains the trimmed key. The one exception is the reserved deny-all marker.
\<close>

lemma ClusterAllowed_agrees_with_allow_list:
  assumes "request_user c = Some u" and "TrimSpace k \<noteq> []" and "TrimSpace k \<noteq> invalid_scope"
  shows "ClusterAllowed c k \<longleftrightarrow>
    \<not> snd (ScopedClusterIDs c) \<or> TrimSpace k \<in> set (fst (ScopedClusterIDs c))"
  using assms doc_scope.point_check_agrees_with_list [OF assms(3)]
  by (auto simp: ClusterAllowed_def ScopedClusterIDs_def Let_def)

lemma ClusterAllowed_agrees_with_allow_list_witness:
  "ClusterAllowed (sample_request ''p1'') ''c1'' \<and> \<not> ClusterAllowed (sample_request ''p1'') ''c2''"
proof -
  have u: "request_user (sample_request ''p1'') = Some sample_user"
    by (simp add: sample_request_def request_user_def)
  have "TrimSpace ''c1'' = ''c1''" "TrimSpace ''c2'' = ''c2''"
    "ScopedClusterIDs (sample_request ''p1'') = ([''c1''], True)"
    by code_simp+
  then show ?thesis
    using ClusterAllowed_agrees_with_allow_list [OF u, of "''c1''"]
      ClusterAllowed_agrees_with_allow_list [OF u, of "''c2''"] by simp
qed

text \<open>
  C4. A request on a pod UID route goes on only with a resolved cluster: the handler then has a
  database, stored a non-empty cluster that owns a row of that UID, that the user may access and
  that is the requested cluster if one was requested and the only owner otherwise; rows with a
  blank owner never resolve, and nothing is written to the audit tables.
\<close>

theorem RequirePodUIDClusterScope_sound:
  assumes "out_response (RequirePodUIDClusterScope db param c) = Next"
  shows "\<exists>d cid. db = Some d \<and> out_db (RequirePodUIDClusterScope db param c) = db \<and>
    ctx_podClusterID (out_ctx (RequirePodUIDClusterScope db param c)) = cid \<and> cid \<noteq> [] \<and>
    ClusterAllowed c cid \<and> cid \<in> pod_owners d (TrimSpace (ctx_param c param)) \<and>
    [] \<notin> pod_owners d (TrimSpace (ctx_param c param)) \<and>
    (if TrimSpace (ctx_query c ''clusterId'') = []
     then pod_owners d (TrimSpace (ctx_param c param)) = {cid}
     else cid = TrimSpace (ctx_query c ''clusterId''))"
proof -
  obtain d where d: "db = Some d" using assms by (cases db) (auto simp: RequirePodUIDClusterScope_def)
  have ok: "TrimSpace (ctx_param c param) \<noteq> []" "\<not> db_queryFails d"
    using assms by (auto simp: RequirePodUIDClusterScope_def d Let_def split: if_splits)
  note eq = RequirePodUIDClusterScope_eq [OF refl ok refl]
  show ?thesis
    using assms unfolding d eq
    by (auto simp: enforceClusterScope_response enforceClusterScope_def is_singleton_def split: if_splits)
qed

theorem RequirePodUIDClusterScope_sound_witness:
  "ClusterAllowed (sample_request ''p1'') (ctx_podClusterID (out_ctx
     (RequirePodUIDClusterScope (Some sample_db) ''uid'' (sample_request ''p1''))))"
proof -
  have "out_response (RequirePodUIDClusterScope (Some sample_db) ''uid'' (sample_request ''p1'')) = Next"
    by code_simp
  from RequirePodUIDClusterScope_sound [OF this] show ?thesis by auto
qed

text \<open>
  What a cluster-scoped user learns from a pod UID: whatever the database holds, the handler
  answers with success, an input or lookup error, or the uniform scope denial; it answers 404
  only when the user asked for a cluster of his own scope, and never 409.
\<close>

lemma RequirePodUIDClusterScope_restricted_answers:
  assumes "snd (ScopedClusterIDs c)"
  shows "case out_response (RequirePodUIDClusterScope db param c) of
      Next \<Rightarrow> True
    | Abort st r n \<Rightarrow> st \<in> {400, 500} \<or> st = 403 \<and> r = ''cluster_scope''
        \<or> st = 404 \<and> ClusterAllowed c (ctx_query c ''clusterId'')"
proof (cases db)
  case None
  then show ?thesis by (simp add: RequirePodUIDClusterScope_def)
next
  case (Some d)
  have trim: "ClusterAllowed c (TrimSpace k) = ClusterAllowed c k" for k
    by (simp add: ClusterAllowed_def)
  show ?thesis
  proof (cases "TrimSpace (ctx_param c param) = [] \<or> db_queryFails d")
    case True
    then show ?thesis by (auto simp: RequirePodUIDClusterScope_def Some Let_def)
  next
    case False
    then have ok: "TrimSpace (ctx_param c param) \<noteq> []" "\<not> db_queryFails d" by auto
    show ?thesis
      using assms unfolding Some RequirePodUIDClusterScope_eq [OF refl ok refl]
      by (simp add: enforceClusterScope_response trim)
  qed
qed

lemma RequirePodUIDClusterScope_restricted_answers_witness:
  "out_response (RequirePodUIDClusterScope (Some sample_db) ''uid'' (sample_request ''p9'')) =
     Abort 403 ''cluster_scope'' ''unknown-pod''"
proof -
  have "snd (ScopedClusterIDs (sample_request ''p9''))" by code_simp
  note RequirePodUIDClusterScope_restricted_answers [OF this, of "Some sample_db" "''uid''"]
  moreover have "out_response (RequirePodUIDClusterScope (Some sample_db) ''uid'' (sample_request ''p9'')) =
     Abort 403 ''cluster_scope'' ''unknown-pod''" by code_simp
  ultimately show ?thesis by simp
qed

text \<open>
  The denial is not uniform in its body: when a pod UID belongs to one cluster outside the
  user's scope, the 403 answer names that foreign cluster, although the handler means not to
  disclose ownership; for an unknown UID it names \<^verbatim>\<open>unknown-pod\<close>, so the two cases differ.
\<close>

lemma pod_scope_denial_names_foreign_owner:
  assumes "TrimSpace (ctx_param c param) \<noteq> []" and "\<not> db_queryFails d"
    and "TrimSpace (ctx_query c ''clusterId'') = []"
    and "pod_owners d (TrimSpace (ctx_param c param)) = {owner}" and "owner \<noteq> []"
    and "\<not> ClusterAllowed c owner"
  shows "out_response (RequirePodUIDClusterScope (Some d) param c) = Abort 403 ''cluster_scope'' owner"
proof -
  have "owner \<in> pod_owners d (TrimSpace (ctx_param c param))" using assms(4) by simp
  then have "TrimSpace owner = owner" unfolding pod_owners_def by (elim imageE) simp
  then show ?thesis
    using assms by (simp add: RequirePodUIDClusterScope_eq enforceClusterScope_response is_singleton_def)
qed

lemma pod_scope_denial_names_foreign_owner_witness:
  "out_response (RequirePodUIDClusterScope (Some sample_db) ''uid'' (sample_request ''p2'')) =
     Abort 403 ''cluster_scope'' ''secret-cluster''"
proof (rule pod_scope_denial_names_foreign_owner)
  have t: "TrimSpace ''p2'' = ''p2''" "TrimSpace ''secret-cluster'' = ''secret-cluster''" by code_simp+
  show "TrimSpace (ctx_param (sample_request ''p2'') ''uid'') \<noteq> []" by (simp add: sample_request_def t)
  show "pod_owners sample_db (TrimSpace (ctx_param (sample_request ''p2'') ''uid'')) = {''secret-cluster''}"
    by (simp add: pod_owners_def sample_request_def sample_db_def t)
  show "\<not> ClusterAllowed (sample_request ''p2'') ''secret-cluster''" by code_simp
qed (simp_all add: sample_db_def sample_request_def)

text \<open>
  A scoped permission check passes exactly when the request holds the permission and, given a
  database and a non-blank cluster parameter, the cluster is in the user's scope; a passing check
  writes nothing, and every denial is written to the audit table when it exists and accepts the row.
\<close>

lemma RequireScopedPermission_decides:
  "(out_response (RequireScopedPermission db param need c) = Next \<longleftrightarrow>
      need \<in> set (GrantedPermissions c) \<and>
      (db = None \<or> TrimSpace (ctx_param c param) = [] \<or> ClusterAllowed c (ctx_param c param))) \<and>
   (case db of None \<Rightarrow> out_db (RequireScopedPermission db param need c) = None
    | Some d \<Rightarrow> \<exists>d'. out_db (RequireScopedPermission db param need c) = Some d' \<and>
        length (db_auditLog d') = length (db_auditLog d) +
          (if out_response (RequireScopedPermission db param need c) \<noteq> Next
              \<and> db_hasAuditLog d \<and> \<not> db_insertFails d then 1 else 0))"
proof
  have trim: "ClusterAllowed c (TrimSpace k) = ClusterAllowed c k" for k
    by (simp add: ClusterAllowed_def)
  show "out_response (RequireScopedPermission db param need c) = Next \<longleftrightarrow>
      need \<in> set (GrantedPermissions c) \<and>
      (db = None \<or> TrimSpace (ctx_param c param) = [] \<or> ClusterAllowed c (ctx_param c param))"
    by (simp add: RequireScopedPermission_def Let_def enforceClusterScope_response trim)
  show "case db of None \<Rightarrow> out_db (RequireScopedPermission db param need c) = None
    | Some d \<Rightarrow> \<exists>d'. out_db (RequireScopedPermission db param need c) = Some d' \<and>
        length (db_auditLog d') = length (db_auditLog d) +
          (if out_response (RequireScopedPermission db param need c) \<noteq> Next
              \<and> db_hasAuditLog d \<and> \<not> db_insertFails d then 1 else 0)"
  proof (cases db)
    case None
    then show ?thesis
      by (simp add: RequireScopedPermission_def Let_def enforceClusterScope_def auditAuthzDenied_def)
  next
    case (Some d)
    then show ?thesis
      using auditAuthzDenied_rows [of d c need "GrantedPermissions c"]
        AbortClusterScopeDenied_rows [of d c "TrimSpace (ctx_param c param)"]
      by (auto simp: RequireScopedPermission_def Let_def enforceClusterScope_def)
  qed
qed

end
