(* ===== verification/Go_Strconv.thy ===== *)
theory Go_Strconv
  imports Go_Json
begin

section \<open>Numbers in text and substrings: packages strconv and strings\<close>

text \<open>
  \<^verbatim>\<open>strconv.ParseInt\<close> with base ten and 64 bits, which is also \<^verbatim>\<open>strconv.Atoi\<close> on the platforms
  the program is built for, \<^verbatim>\<open>strconv.ParseUint\<close>, the decimal form of a count, and
  \<^verbatim>\<open>strings.Compare\<close>, \<^verbatim>\<open>Index\<close> and \<^verbatim>\<open>LastIndex\<close>.
\<close>

definition decimal_value :: "string \<Rightarrow> int" where
  "decimal_value ds = foldl (\<lambda>n c. 10 * n + (int (of_char c) - 48)) 0 ds"

text \<open>\<^verbatim>\<open>strconv.ParseInt(value, 10, 64)\<close>.\<close>

definition ParseInt64 :: "string \<Rightarrow> int option" where
  "ParseInt64 s =
     (let (neg, ds) = (case s of [] \<Rightarrow> (False, [])
            | c # r \<Rightarrow> if c = CHR ''-'' then (True, r) else if c = CHR ''+'' then (False, r) else (False, s));
          n = decimal_value ds
      in if ds = [] \<or> \<not> list_all is_digit ds then None
         else if neg then (if n \<le> 9223372036854775808 then Some (- n) else None)
         else (if n \<le> 9223372036854775807 then Some n else None))"

definition ParseUint64 :: "string \<Rightarrow> nat option" where
  "ParseUint64 s =
     (if s = [] \<or> \<not> list_all is_digit s \<or> decimal_value s > 18446744073709551615 then None
      else Some (nat (decimal_value s)))"

fun Compare :: "string \<Rightarrow> string \<Rightarrow> int" where
  "Compare [] [] = 0"
| "Compare [] (d # t) = -1"
| "Compare (c # s) [] = 1"
| "Compare (c # s) (d # t) =
     (if (of_char c :: nat) < of_char d then -1 else if (of_char d :: nat) < of_char c then 1 else Compare s t)"

fun LastIndex :: "string \<Rightarrow> string \<Rightarrow> nat option" where
  "LastIndex [] p = (if p = [] then Some 0 else None)"
| "LastIndex (c # s) p = (case LastIndex s p of
     Some i \<Rightarrow> Some (Suc i)
   | None \<Rightarrow> if HasPrefix (c # s) p then Some 0 else None)"

fun Index :: "string \<Rightarrow> string \<Rightarrow> nat option" where
  "Index [] p = (if p = [] then Some 0 else None)"
| "Index (c # s) p = (if HasPrefix (c # s) p then Some 0 else map_option Suc (Index s p))"

text \<open>\<^verbatim>\<open>strings.IndexAny\<close> followed by a cut before the match, for ASCII characters.\<close>

definition cut_before_any :: "string \<Rightarrow> string \<Rightarrow> string" where
  "cut_before_any chars s = takeWhile (\<lambda>c. c \<notin> set chars) s"

lemma Compare_antisym: "Compare s t = - Compare t s"
  by (induction s t rule: Compare.induct) auto

lemma Compare_eq_0_iff: "Compare s t = 0 \<longleftrightarrow> s = t"
  by (induction s t rule: Compare.induct) (auto simp: of_char_eq_iff)

lemma LastIndex_None_iff: "LastIndex s p = None \<longleftrightarrow> \<not> Contains s p"
  by (induction s) (auto split: option.splits)

lemma LastIndex_Some: "LastIndex s p = Some i \<Longrightarrow> i + length p \<le> length s \<and> take (length p) (drop i s) = p"
proof (induction s arbitrary: i)
  case (Cons c s)
  then show ?case by (auto simp: HasPrefix_def split: option.splits if_splits) (metis length_Cons length_take min.cobounded1)
qed (auto split: if_splits)

definition digit_char :: "nat \<Rightarrow> char" where
  "digit_char n = char_of (48 + n)"

fun Itoa :: "nat \<Rightarrow> string" where
  "Itoa n = (if n < 10 then [digit_char n] else Itoa (n div 10) @ [digit_char (n mod 10)])"

declare Itoa.simps [simp del]

lemma digit_char_props:
  assumes "n < 10"
  shows "is_digit (digit_char n)" "int (of_char (digit_char n)) = 48 + int n"
proof -
  have "list_all (\<lambda>n. is_digit (digit_char n) \<and> int (of_char (digit_char n)) = 48 + int n) [0..<10]" by code_simp
  then show "is_digit (digit_char n)" "int (of_char (digit_char n)) = 48 + int n"
    using assms by (simp_all add: list_all_iff del: upt_Suc)
qed

lemma decimal_value_snoc: "decimal_value (ds @ [d]) = 10 * decimal_value ds + (int (of_char d) - 48)"
  by (simp add: decimal_value_def)

lemma Itoa_digits: "Itoa n \<noteq> [] \<and> list_all is_digit (Itoa n)"
  by (induction n rule: Itoa.induct) (subst (1 2) Itoa.simps, auto simp: digit_char_props)

lemma decimal_value_Itoa: "decimal_value (Itoa n) = int n"
proof (induction n rule: Itoa.induct)
  case (1 n)
  show ?case
  proof (cases "n < 10")
    case True
    then show ?thesis by (simp add: Itoa.simps [of n] decimal_value_def digit_char_props)
  next
    case False
    have "10 * int (n div 10) + int (n mod 10) = int n" by (metis mult_div_mod_eq of_nat_add of_nat_mult of_nat_numeral)
    with False 1 show ?thesis by (simp add: Itoa.simps [of n] decimal_value_snoc digit_char_props)
  qed
qed

lemma Itoa_inject [simp]: "Itoa m = Itoa n \<longleftrightarrow> m = n"
  by (metis decimal_value_Itoa of_nat_eq_iff)

lemma Itoa_not_digit: "\<not> is_digit c \<Longrightarrow> c \<notin> set (Itoa n)"
  using Itoa_digits [of n] by (auto simp: list_all_iff)

end
