(* ===== verification/Delivery.thy ===== *)
theory Delivery
  imports Go_Strconv "HOL-Library.Sublist" "HOL-Library.Multiset"
begin

section \<open>Isolated delivery of event batches: agent/internal/corehttp/delivery.go, optional\_auth.go\<close>

text \<open>
  The agent posts batches of events to Core. A batch that Core rejects because some event belongs
  to another owner is bisected until the offending events stand alone; any other failure stops
  the flush. The transport is a parameter: an environment with the outcome of a POST, the clock
  and the state of the context as functions of an arbitrary world, which every POST may change.
  No law is assumed of it, except in the last theorem, which says what isolation achieves when
  Core accepts exactly the batches whose events are all owned.

  Durations and instants are integers in nanoseconds (\<^verbatim>\<open>time.Duration\<close>, \<^verbatim>\<open>time.Time\<close>). A Go
  error is the list of the errors it joins, empty for nil.
\<close>

subsection \<open>Errors of a POST\<close>

definition DeliveryRequestLimit :: int where
  "DeliveryRequestLimit = 12"

definition DeliveryBackoff :: int where
  "DeliveryBackoff = 30 * 1000000000"

record PostError =
  pe_Status :: int
  pe_Code :: string
  pe_RetryAfter :: int

record HttpResponse =
  resp_StatusCode :: int
  resp_Body :: string
  resp_RetryAfter :: string

definition set_code :: "string \<Rightarrow> string \<times> json \<Rightarrow> string" where
  "set_code code kv = (if match_field [''code''] (fst kv) = Some ''code''
     then (case snd kv of JStr s \<Rightarrow> s | _ \<Rightarrow> code) else code)"

definition body_code :: "string \<Rightarrow> string" where
  "body_code body = (case parse_value (take 4096 body) of
     Some (JObj ms, r) \<Rightarrow> foldl set_code [] ms
   | _ \<Rightarrow> [])"

definition DecodePostError :: "(string \<Rightarrow> int option) \<Rightarrow> HttpResponse \<Rightarrow> int \<Rightarrow> PostError" where
  "DecodePostError ParseTime resp now =
     (let delay = DeliveryBackoff;
          val = TrimSpace (resp_RetryAfter resp);
          delay =
            (if resp_StatusCode resp = 429 \<or> resp_StatusCode resp = 503 then
               (case ParseInt64 val of
                  Some seconds \<Rightarrow>
                    if seconds > 0
                    then max delay ((if seconds > 86400 then 86400 else seconds) * 1000000000)
                    else (case ParseTime val of
                        Some until \<Rightarrow> max delay (min (until - now) (24 * 3600 * 1000000000))
                      | None \<Rightarrow> delay)
                | None \<Rightarrow> (case ParseTime val of
                        Some until \<Rightarrow> max delay (min (until - now) (24 * 3600 * 1000000000))
                      | None \<Rightarrow> delay))
             else delay)
      in \<lparr>pe_Status = resp_StatusCode resp, pe_Code = body_code (resp_Body resp), pe_RetryAfter = delay\<rparr>)"

subsection \<open>Bisection\<close>

datatype delivery_error = ContextError | PostFailure "PostError option"

record DeliveryBudget =
  Remaining :: int
  Now :: int
  RetryAt :: int
  Blocked :: bool

record 'a DeliveryResult =
  Delivered :: "'a list"
  Retry :: "'a list"
  Rejected :: "'a list"
  Err :: "delivery_error list"

text \<open>What the code calls: \<^verbatim>\<open>post\<close> (None is success, otherwise the error with the \<^verbatim>\<open>PostError\<close>
  in it, if any), \<^verbatim>\<open>ctx.Err()\<close> and \<^verbatim>\<open>time.Now()\<close>.\<close>

record ('w, 'a) Env =
  env_post :: "'w \<Rightarrow> 'a list \<Rightarrow> PostError option option \<times> 'w"
  env_ctxErr :: "'w \<Rightarrow> bool"
  env_now :: "'w \<Rightarrow> int"

definition ctx_Err :: "('w, 'a) Env \<Rightarrow> 'w \<Rightarrow> delivery_error list" where
  "ctx_Err env w = (if env_ctxErr env w then [ContextError] else [])"

definition ownership_rejection :: "string \<Rightarrow> PostError option \<Rightarrow> bool" where
  "ownership_rejection ownershipCode e =
     (case e of None \<Rightarrow> False | Some pe \<Rightarrow> pe_Status pe = 403 \<and> pe_Code pe = ownershipCode)"

definition failure_delay :: "PostError option \<Rightarrow> int" where
  "failure_delay e = (case e of None \<Rightarrow> DeliveryBackoff | Some pe \<Rightarrow> max DeliveryBackoff (pe_RetryAfter pe))"

definition joinDeliverySlices :: "'a list \<Rightarrow> 'a list \<Rightarrow> 'a list" where
  "joinDeliverySlices left right = left @ right"

definition join_results :: "'a DeliveryResult \<Rightarrow> 'a DeliveryResult \<Rightarrow> 'a DeliveryResult" where
  "join_results l r = \<lparr>Delivered = joinDeliverySlices (Delivered l) (Delivered r),
     Retry = joinDeliverySlices (Retry l) (Retry r),
     Rejected = joinDeliverySlices (Rejected l) (Rejected r), Err = Err l @ Err r\<rparr>"

lemma half_shrinks: "xs \<noteq> [] \<Longrightarrow> length xs \<noteq> Suc 0 \<Longrightarrow> length xs - length xs div 2 < length xs"
  by (cases xs rule: remdups_adj.cases) auto

function DeliverIsolated :: "('w, 'a) Env \<Rightarrow> string \<Rightarrow> 'a list \<Rightarrow> DeliveryBudget \<Rightarrow> 'w
    \<Rightarrow> 'a DeliveryResult \<times> DeliveryBudget \<times> 'w" where
  "DeliverIsolated env ownershipCode events budget w =
     (if length events = 0 then (\<lparr>Delivered = [], Retry = [], Rejected = [], Err = []\<rparr>, budget, w)
      else if Blocked budget \<or> Remaining budget \<le> 0 \<or> env_ctxErr env w
      then (\<lparr>Delivered = [], Retry = events, Rejected = [], Err = ctx_Err env w\<rparr>, budget, w)
      else
        let budget = budget\<lparr>Remaining := Remaining budget - 1\<rparr>;
            (err, w) = env_post env w events
        in case err of
             None \<Rightarrow> (\<lparr>Delivered = events, Retry = [], Rejected = [], Err = []\<rparr>, budget, w)
           | Some e \<Rightarrow>
               if \<not> ownership_rejection ownershipCode e
               then (\<lparr>Delivered = [], Retry = events, Rejected = [], Err = [PostFailure e]\<rparr>,
                     budget\<lparr>Blocked := True, RetryAt := env_now env w + failure_delay e\<rparr>, w)
               else if length events = 1
               then (\<lparr>Delivered = [], Retry = [], Rejected = events, Err = []\<rparr>, budget, w)
               else
                 let mid = length events div 2;
                     (left, budget, w) = DeliverIsolated env ownershipCode (take mid events) budget w;
                     (right, budget, w) = DeliverIsolated env ownershipCode (drop mid events) budget w
                 in (join_results left right, budget, w))"
  by pat_completeness auto
termination
  by (relation "measure (\<lambda>(env, code, events, budget, w). length events)") (auto intro: half_shrinks)

declare DeliverIsolated.simps [simp del]

subsection \<open>Induction over the requests of a flush\<close>

abbreviation result_of :: "'a list \<Rightarrow> 'a list \<Rightarrow> 'a list \<Rightarrow> delivery_error list \<Rightarrow> 'a DeliveryResult" where
  "result_of d t j e \<equiv> \<lparr>Delivered = d, Retry = t, Rejected = j, Err = e\<rparr>"

abbreviation spend :: "DeliveryBudget \<Rightarrow> DeliveryBudget" where
  "spend b \<equiv> b\<lparr>Remaining := Remaining b - 1\<rparr>"

definition may_post :: "('w, 'a) Env \<Rightarrow> DeliveryBudget \<Rightarrow> 'w \<Rightarrow> bool" where
  "may_post env b w \<longleftrightarrow> \<not> Blocked b \<and> 0 < Remaining b \<and> \<not> env_ctxErr env w"

lemma DeliverIsolated_rule [consumes 1, case_names empty stopped ok failed single split]:
  assumes "DeliverIsolated env code es b w = (r, b', w')"
    and empty: "\<And>b w. P [] b w (result_of [] [] [] []) b w"
    and stopped: "\<And>es b w. es \<noteq> [] \<Longrightarrow> \<not> may_post env b w \<Longrightarrow> P es b w (result_of [] es [] (ctx_Err env w)) b w"
    and ok: "\<And>es b w w1. es \<noteq> [] \<Longrightarrow> may_post env b w \<Longrightarrow> env_post env w es = (None, w1) \<Longrightarrow>
      P es b w (result_of es [] [] []) (spend b) w1"
    and failed: "\<And>es b w w1 e. es \<noteq> [] \<Longrightarrow> may_post env b w \<Longrightarrow> env_post env w es = (Some e, w1) \<Longrightarrow>
      \<not> ownership_rejection code e \<Longrightarrow> P es b w (result_of [] es [] [PostFailure e])
        ((spend b)\<lparr>Blocked := True, RetryAt := env_now env w1 + failure_delay e\<rparr>) w1"
    and single: "\<And>x b w w1 e. may_post env b w \<Longrightarrow> env_post env w [x] = (Some e, w1) \<Longrightarrow>
      ownership_rejection code e \<Longrightarrow> P [x] b w (result_of [] [] [x] []) (spend b) w1"
    and split: "\<And>xs ys b w w1 e l b1 w2 r b2 w3. may_post env b w \<Longrightarrow> xs \<noteq> [] \<Longrightarrow> ys \<noteq> [] \<Longrightarrow>
      length (xs @ ys) div 2 = length xs \<Longrightarrow>
      env_post env w (xs @ ys) = (Some e, w1) \<Longrightarrow> ownership_rejection code e \<Longrightarrow>
      P xs (spend b) w1 l b1 w2 \<Longrightarrow> P ys b1 w2 r b2 w3 \<Longrightarrow> P (xs @ ys) b w (join_results l r) b2 w3"
  shows "P es b w r b' w'"
  using assms(1)
proof (induction "length es" arbitrary: es b w r b' w' rule: less_induct)
  case less
  note unf = less.prems [unfolded DeliverIsolated.simps [of env code es]]
  consider (nil) "es = []" | (stop) "es \<noteq> []" "\<not> may_post env b w" | (go) "es \<noteq> []" "may_post env b w" by blast
  then show ?case
  proof cases
    case nil
    with unf empty show ?thesis by auto
  next
    case stop
    with unf stopped [OF stop] show ?thesis by (auto simp: may_post_def)
  next
    case go
    obtain err w1 where post: "env_post env w es = (err, w1)" by fastforce
    note unf = unf [unfolded post Let_def prod.case]
    have g: "\<not> (Blocked b \<or> Remaining b \<le> 0 \<or> env_ctxErr env w)" using go(2) by (auto simp: may_post_def)
    show ?thesis
    proof (cases err)
      case None
      with unf g go(1) ok [OF go, of w1] post show ?thesis by auto
    next
      case (Some e)
      show ?thesis
      proof (cases "ownership_rejection code e")
        case False
        with unf g go(1) failed [OF go, of e w1] post Some show ?thesis by auto
      next
        case True
        show ?thesis
        proof (cases "length es = 1")
          case one: True
          then obtain x where "es = [x]" by (cases es) auto
          with unf g single [OF go(2), of x e w1] post Some True show ?thesis by auto
        next
          case False
          let ?m = "length es div 2"
          obtain l b1 w2 where l: "DeliverIsolated env code (take ?m es) (spend b) w1 = (l, b1, w2)"
            by (metis prod_cases3)
          obtain r' b2 w3 where r: "DeliverIsolated env code (drop ?m es) b1 w2 = (r', b2, w3)"
            by (metis prod_cases3)
          have shrink: "length (take ?m es) < length es" "length (drop ?m es) < length es"
            using go(1) False half_shrinks [of es] by auto
          have "2 \<le> length es" using go(1) False by (cases es rule: remdups_adj.cases) auto
          then have ne: "take ?m es \<noteq> []" "drop ?m es \<noteq> []" by auto
          have "r = join_results l r'" "b' = b2" "w' = w3"
            using unf g go(1) Some True False l r by auto
          then show ?thesis
            using split [OF go(2) ne, of e w1 l b1 w2 r' b2 w3] post Some True
              less.hyps [OF shrink(1) l] less.hyps [OF shrink(2) r] by simp
        qed
      qed
    qed
  qed
qed

lemmas result_defs = join_results_def joinDeliverySlices_def

subsection \<open>Lemmas\<close>

text \<open>The environment that also records every POST with its outcome.\<close>

type_synonym 'a post_log = "('a list \<times> PostError option option) list"

definition logged :: "('w, 'a) Env \<Rightarrow> ('w \<times> 'a post_log, 'a) Env" where
  "logged env = \<lparr>env_post = (\<lambda>(w, log) es. let (r, w') = env_post env w es in (r, (w', log @ [(es, r)]))),
     env_ctxErr = (\<lambda>(w, log). env_ctxErr env w), env_now = (\<lambda>(w, log). env_now env w)\<rparr>"

definition continues :: "string \<Rightarrow> PostError option option \<Rightarrow> bool" where
  "continues code err = (case err of None \<Rightarrow> True | Some e \<Rightarrow> ownership_rejection code e)"

lemma partition_lemma:
  assumes "DeliverIsolated env code es b w = (r, b', w')"
  shows "mset (Delivered r) + mset (Retry r) + mset (Rejected r) = mset es \<and>
    subseq (Delivered r) es \<and> subseq (Retry r) es \<and> subseq (Rejected r) es"
  using assms
proof (induction rule: DeliverIsolated_rule)
  case (split xs ys b w w1 e l b1 w2 r b2 w3)
  have "mset (xs @ ys) = (mset (Delivered l) + mset (Retry l) + mset (Rejected l))
      + (mset (Delivered r) + mset (Retry r) + mset (Rejected r))" using split.IH by simp
  also have "\<dots> = mset (Delivered (join_results l r)) + mset (Retry (join_results l r)) + mset (Rejected (join_results l r))"
    by (simp add: result_defs ac_simps)
  finally show ?case using split.IH by (simp add: result_defs list_emb_append_mono)
qed simp_all

lemma logged_simps:
  "may_post (logged env) b wl = may_post env b (fst wl)"
  "env_post (logged env) wl es =
     (fst (env_post env (fst wl) es), (snd (env_post env (fst wl) es),
        snd wl @ [(es, fst (env_post env (fst wl) es))]))"
  "ctx_Err (logged env) wl = ctx_Err env (fst wl)" "env_now (logged env) wl = env_now env (fst wl)"
  "env_ctxErr (logged env) wl = env_ctxErr env (fst wl)"
  by (auto simp: may_post_def logged_def ctx_Err_def Let_def split: prod.splits)

text \<open>
  Only the last POST of a flush can fail other than by an ownership rejection, and it is that
  failure that blocks the budget.
\<close>

definition log_shape :: "string \<Rightarrow> bool \<Rightarrow> 'a post_log \<Rightarrow> bool \<Rightarrow> bool" where
  "log_shape code blocked new blocked' \<longleftrightarrow>
     (if blocked then new = [] \<and> blocked'
      else if blocked' then \<exists>pre p. new = pre @ [p] \<and> list_all (\<lambda>q. continues code (snd q)) pre \<and> \<not> continues code (snd p)
      else list_all (\<lambda>q. continues code (snd q)) new)"

lemma log_shape_append: "log_shape code a n1 b \<Longrightarrow> log_shape code b n2 c \<Longrightarrow> log_shape code a (n1 @ n2) c"
  by (auto simp: log_shape_def split: if_splits)

lemma log_shape_Cons:
  "log_shape code False n b \<Longrightarrow> continues code (snd p) \<Longrightarrow> log_shape code False (p # n) b"
  by (auto simp: log_shape_def split: if_splits)

lemma log_lemma:
  assumes "DeliverIsolated (logged env) code es b wl = (r, b', wl')"
  shows "\<exists>new. snd wl' = snd wl @ new \<and> int (length new) = Remaining b - Remaining b' \<and>
    length new \<le> nat (Remaining b) \<and> log_shape code (Blocked b) new (Blocked b')"
  using assms
proof (induction rule: DeliverIsolated_rule)
  case (split xs ys b w w1 e l b1 w2 r b2 w3)
  have bl: "\<not> Blocked b" "0 < Remaining b" using split.hyps by (auto simp: may_post_def)
  from split.IH(1) obtain n1 where n1: "snd w2 = snd w1 @ n1" "int (length n1) = Remaining b - 1 - Remaining b1"
     "length n1 \<le> nat (Remaining b - 1)" "log_shape code False n1 (Blocked b1)" using bl by auto
  from split.IH(2) obtain n2 where n2: "snd w3 = snd w2 @ n2" "int (length n2) = Remaining b1 - Remaining b2"
     "length n2 \<le> nat (Remaining b1)" "log_shape code (Blocked b1) n2 (Blocked b2)" by auto
  have "snd w1 = snd w @ [(xs @ ys, Some e)]" using split.hyps by (auto simp: logged_simps)
  moreover have "log_shape code False ((xs @ ys, Some e) # n1 @ n2) (Blocked b2)"
    using log_shape_append [OF n1(4) n2(4)] split.hyps by (intro log_shape_Cons) (simp_all add: continues_def)
  ultimately show ?case
    using n1(1-3) n2(1-3) bl by (intro exI [of _ "(xs @ ys, Some e) # n1 @ n2"]) auto
qed (auto simp: logged_simps may_post_def continues_def log_shape_def)

lemma evidence_lemma:
  assumes "DeliverIsolated (logged env) code es b wl = (r, b', wl')"
  shows "set (snd wl) \<subseteq> set (snd wl') \<and>
    (\<forall>x \<in> set (Rejected r). \<exists>pe. ([x], Some pe) \<in> set (snd wl') \<and> ownership_rejection code pe) \<and>
    (\<forall>x \<in> set (Delivered r). \<exists>batch. (batch, None) \<in> set (snd wl') \<and> x \<in> set batch)"
  using assms
proof (induction rule: DeliverIsolated_rule)
  case (split xs ys b w w1 e l b1 w2 r b2 w3)
  have "set (snd w) \<subseteq> set (snd w1)" using split.hyps by (auto simp: logged_simps)
  with split.IH show ?case by (simp add: result_defs ball_Un) (meson subsetD subset_trans)
qed (auto simp: logged_simps)

text \<open>The events of the POSTs that succeeded.\<close>

definition posted :: "'a post_log \<Rightarrow> 'a list" where
  "posted log = concat (map fst (filter (\<lambda>p. snd p = None) log))"

lemma posted_append [simp]: "posted (l1 @ l2) = posted l1 @ posted l2"
  by (simp add: posted_def)

lemma delivered_lemma:
  assumes "DeliverIsolated (logged env) code es b wl = (r, b', wl')"
  shows "posted (snd wl') = posted (snd wl) @ Delivered r"
  using assms
  by (induction rule: DeliverIsolated_rule) (auto simp: logged_simps posted_def result_defs)

lemma logging_is_transparent:
  assumes "DeliverIsolated (logged env) code es b wl = (r, b', wl')"
  shows "DeliverIsolated env code es b (fst wl) = (r, b', fst wl')"
  using assms
proof (induction rule: DeliverIsolated_rule)
  case (split xs ys b w w1 e l b1 w2 r b2 w3)
  then have "env_post env (fst w) (xs @ ys) = (Some e, fst w1)" by (auto simp: logged_simps prod_eq_iff)
  moreover have "take (length xs) (xs @ ys) = xs" "drop (length xs) (xs @ ys) = ys" by auto
  moreover have "length (xs @ ys) \<noteq> 0" "length (xs @ ys) \<noteq> 1" using split.hyps(2,3) by (cases xs; cases ys; simp)+
  ultimately show ?case
    using split by (subst DeliverIsolated.simps) (simp add: logged_simps may_post_def)
qed (subst DeliverIsolated.simps; auto simp: logged_simps may_post_def prod_eq_iff Let_def split: prod.splits)+

lemma isolation_lemma:
  assumes "DeliverIsolated env code es b w = (r, b', w')"
    and post: "\<And>w es. fst (env_post env w es) = (if list_all owned es then None else Some (Some (reject es)))"
    and code: "\<And>es. ownership_rejection code (Some (reject es))" and ctx: "\<And>w. \<not> env_ctxErr env w"
  shows "\<not> Blocked b \<Longrightarrow> 2 * int (length es) - 1 \<le> Remaining b \<Longrightarrow>
    r = result_of (filter owned es) [] (filter (\<lambda>x. \<not> owned x) es) [] \<and> \<not> Blocked b' \<and>
    Remaining b - max 0 (2 * int (length es) - 1) \<le> Remaining b'"
  using assms(1)
proof (induction rule: DeliverIsolated_rule)
  case (stopped es b w)
  moreover have "0 < length es" using stopped by simp
  ultimately show ?case using ctx by (simp add: may_post_def)
next
  case (ok es b w w1)
  have "1 \<le> int (length es)" using ok by (cases es) auto
  moreover have "list_all owned es" using ok post [of w es] by (auto split: if_splits)
  ultimately show ?case by (auto simp: list_all_iff filter_id_conv filter_empty_conv ok)
next
  case (failed es b w w1 e)
  then show ?case using post [of w es] code by (auto split: if_splits)
next
  case (single x b w w1 e)
  then show ?case using post [of w "[x]"] by (auto split: if_splits)
next
  case (split xs ys b w w1 e l b1 w2 r b2 w3)
  have len: "1 \<le> int (length xs)" "1 \<le> int (length ys)"
    using split.hyps by (cases xs, auto) (cases ys, auto)
  have fits: "\<not> Blocked (spend b)" "2 * int (length xs) - 1 \<le> Remaining (spend b)"
    using split.prems len by auto
  have l: "l = result_of (filter owned xs) [] (filter (\<lambda>x. \<not> owned x) xs) []" "\<not> Blocked b1"
    "Remaining b - 1 - (2 * int (length xs) - 1) \<le> Remaining b1"
    using split.IH(1) [OF fits] len by auto
  moreover have "2 * int (length ys) - 1 \<le> Remaining b1" using l(3) split.prems len by simp
  ultimately have "r = result_of (filter owned ys) [] (filter (\<lambda>x. \<not> owned x) ys) []" "\<not> Blocked b2"
    "Remaining b1 - (2 * int (length ys) - 1) \<le> Remaining b2"
    using split.IH(2) len by auto
  with l len show ?case by (simp add: result_defs)
qed simp

text \<open>
  What an outbox relies on of a delivery, however the events are sent: the three verdicts share out the
  events that were handed over, in their order.
\<close>

locale lossless_delivery =
  fixes deliver :: "'e list \<Rightarrow> 'b \<Rightarrow> 'w \<Rightarrow> 'e DeliveryResult \<times> 'b \<times> 'w"
  assumes shares_out: "deliver es b w = (r, b', w') \<Longrightarrow> mset (Delivered r) + mset (Retry r) + mset (Rejected r) = mset es"
    and keeps_order: "deliver es b w = (r, b', w') \<Longrightarrow> subseq (Delivered r) es \<and> subseq (Retry r) es \<and> subseq (Rejected r) es"
begin

lemma remainder_subset: "deliver es b w = (r, b', w') \<Longrightarrow> mset (Retry r) + mset (Rejected r) \<subseteq># mset es"
  by (drule shares_out, simp add: subset_mset.le_iff_add) (metis add.assoc add.commute)

lemma nothing_sent: "deliver es b w = (r, b', w') \<Longrightarrow> Delivered r = [] \<Longrightarrow> mset (Retry r) + mset (Rejected r) = mset es"
  by (drule shares_out) simp

lemma no_events: "deliver [] b w = (r, b', w') \<Longrightarrow> Delivered r = [] \<and> Retry r = [] \<and> Rejected r = []"
  by (drule shares_out) simp

end

interpretation isolated: lossless_delivery "DeliverIsolated env code" for env code
  by unfold_locales (auto dest: partition_lemma)

subsection \<open>Properties\<close>

text \<open>
  No event is lost or duplicated by a delivery, whatever the transport answers: the delivered,
  retryable and rejected events together are exactly the given ones, and each of the three lists
  keeps their order.
\<close>

lemma DeliverIsolated_partitions:
  "case DeliverIsolated env code es b w of (r, b', w') \<Rightarrow>
     mset (Delivered r) + mset (Retry r) + mset (Rejected r) = mset es \<and>
     subseq (Delivered r) es \<and> subseq (Retry r) es \<and> subseq (Rejected r) es"
proof -
  obtain r b' w' where run: "DeliverIsolated env code es b w = (r, b', w')" by (metis prod_cases3)
  show ?thesis using partition_lemma [OF run] by (simp add: run)
qed

text \<open>
  A delivery issues at most as many POSTs as its budget has left and pays for each one; with a
  blocked budget it issues none; every POST but the last succeeded or was an ownership rejection,
  and the budget ends up blocked exactly when the last one failed otherwise, so nothing is sent
  after such a failure. Recording the POSTs does not change the delivery.
\<close>

lemma DeliverIsolated_respects_budget:
  "case DeliverIsolated (logged env) code es b (w, []) of (r, b', w', log) \<Rightarrow>
     DeliverIsolated env code es b w = (r, b', w') \<and>
     int (length log) = Remaining b - Remaining b' \<and> length log \<le> nat (Remaining b) \<and>
     log_shape code (Blocked b) log (Blocked b')"
proof -
  obtain r b' w' log where run: "DeliverIsolated (logged env) code es b (w, []) = (r, b', w', log)"
    by (metis prod_cases4)
  show ?thesis using log_lemma [OF run] logging_is_transparent [OF run] by (simp add: run)
qed

text \<open>
  Verdicts rest on evidence: an event is reported as rejected only if a POST of that event
  alone was answered with the ownership rejection, and as delivered only if a POST of a batch
  with it succeeded.
\<close>

lemma DeliverIsolated_verdicts_have_evidence:
  "case DeliverIsolated (logged env) code es b (w, []) of (r, b', w', log) \<Rightarrow>
     set (Rejected r) \<subseteq> {x. \<exists>pe. ([x], Some pe) \<in> set log \<and> ownership_rejection code pe} \<and>
     set (Delivered r) \<subseteq> {x. \<exists>batch. (batch, None) \<in> set log \<and> x \<in> set batch}"
proof -
  obtain r b' w' log where run: "DeliverIsolated (logged env) code es b (w, []) = (r, b', w', log)"
    by (metis prod_cases4)
  show ?thesis using evidence_lemma [OF run] by (auto simp: run)
qed

text \<open>
  C5. Isolation is complete: if Core accepts a batch exactly when it owns every event of it and
  otherwise answers with the ownership rejection, then with a budget of \<open>2 n - 1\<close> requests for
  \<open>n\<close> events every owned event is delivered, every other one is rejected and nothing is left to retry.
\<close>

theorem DeliverIsolated_isolates:
  assumes "\<And>w es. fst (env_post env w es) = (if list_all owned es then None else Some (Some (reject es)))"
    and "\<And>es. ownership_rejection code (Some (reject es))" and "\<And>w. \<not> env_ctxErr env w"
    and "\<not> Blocked b" and "2 * int (length es) - 1 \<le> Remaining b"
  shows "fst (DeliverIsolated env code es b w) =
    \<lparr>Delivered = filter owned es, Retry = [], Rejected = filter (\<lambda>x. \<not> owned x) es, Err = []\<rparr>"
proof -
  obtain r b' w' where run: "DeliverIsolated env code es b w = (r, b', w')" by (metis prod_cases3)
  show ?thesis using isolation_lemma [OF run assms(1-3) assms(4,5)] by (simp add: run)
qed

definition sample_env :: "(unit, nat) Env" where
  "sample_env = \<lparr>env_post = (\<lambda>w es. (if list_all (\<lambda>n. n < 10) es then None
       else Some (Some \<lparr>pe_Status = 403, pe_Code = ''own'', pe_RetryAfter = 0\<rparr>), w)),
     env_ctxErr = (\<lambda>w. False), env_now = (\<lambda>w. 0)\<rparr>"

theorem DeliverIsolated_isolates_witness:
  "fst (DeliverIsolated sample_env ''own'' [1, 20, 3] \<lparr>Remaining = DeliveryRequestLimit, Now = 0, RetryAt = 0, Blocked = False\<rparr> ()) =
    \<lparr>Delivered = [1, 3], Retry = [], Rejected = [20], Err = []\<rparr>"
  using DeliverIsolated_isolates [of sample_env "\<lambda>n. n < 10" "\<lambda>es. \<lparr>pe_Status = 403, pe_Code = ''own'', pe_RetryAfter = 0\<rparr>"
      "''own''" "\<lparr>Remaining = DeliveryRequestLimit, Now = 0, RetryAt = 0, Blocked = False\<rparr>" "[1, 20, 3]" "()"]
  by (simp add: sample_env_def ownership_rejection_def DeliveryRequestLimit_def)

text \<open>
  The back-off a server can ask for is bounded: whatever the response and its Retry-After header,
  the decoded delay lies between thirty seconds and one day, and for a 429 or 503 with a number of
  seconds in that range it is that number.
\<close>

lemma DecodePostError_backoff_bounds:
  "DeliveryBackoff \<le> pe_RetryAfter (DecodePostError ParseTime resp now) \<and>
   pe_RetryAfter (DecodePostError ParseTime resp now) \<le> 24 * 3600 * 1000000000 \<and>
   (\<forall>n \<in> {30..86400}. resp_StatusCode resp \<in> {429, 503} \<longrightarrow> ParseInt64 (TrimSpace (resp_RetryAfter resp)) = Some n \<longrightarrow>
      pe_RetryAfter (DecodePostError ParseTime resp now) = n * 1000000000)"
  by (auto simp: DecodePostError_def DeliveryBackoff_def Let_def max_def min_def split: option.split)

lemma DecodePostError_backoff_bounds_witness:
  "pe_RetryAfter (DecodePostError (\<lambda>_. None) \<lparr>resp_StatusCode = 429, resp_Body = [], resp_RetryAfter = '' 45 ''\<rparr> 0) = 45 * 1000000000"
proof -
  have "ParseInt64 (TrimSpace '' 45 '') = Some 45" by code_simp
  then show ?thesis
    using DecodePostError_backoff_bounds [of "\<lambda>_. None" "\<lparr>resp_StatusCode = 429, resp_Body = [], resp_RetryAfter = '' 45 ''\<rparr>" 0]
    by auto
qed

end
