(* ===== verification/Go_Hex.thy ===== *)
theory Go_Hex
  imports Go_Json
begin

section \<open>Hexadecimal digests: the part of encoding/hex the program uses\<close>

text \<open>
  \<open>hex_encode\<close> is \<^verbatim>\<open>hex.EncodeToString\<close> (lower case), \<open>hex_decode\<close> is \<^verbatim>\<open>hex.DecodeString\<close> (either
  case, an odd length or another byte is an error).
\<close>

definition hextable :: string where
  "hextable = ''0123456789abcdef''"

definition hex_encode_byte :: "char \<Rightarrow> string" where
  "hex_encode_byte b = [hextable ! (of_char b div 16), hextable ! (of_char b mod 16)]"

definition hex_encode :: "string \<Rightarrow> string" where
  "hex_encode bs = concat (map hex_encode_byte bs)"

fun hex_decode :: "string \<Rightarrow> string option" where
  "hex_decode [] = Some []"
| "hex_decode [c] = None"
| "hex_decode (c # d # s) =
     (case (hex_val c, hex_val d, hex_decode s) of
        (Some i, Some j, Some bs) \<Rightarrow> Some (char_of (16 * i + j) # bs)
      | _ \<Rightarrow> None)"

lemma length_hex_encode [simp]: "length (hex_encode bs) = 2 * length bs"
  by (induction bs) (simp_all add: hex_encode_def hex_encode_byte_def)

lemma hex_encode_simps [simp]:
  "hex_encode [] = []" "hex_encode (b # bs) = hex_encode_byte b @ hex_encode bs"
  by (simp_all add: hex_encode_def)

lemma hex_val_digit: "i < 16 \<Longrightarrow> hex_val (hextable ! i) = Some i"
proof -
  have "list_all (\<lambda>i. hex_val (hextable ! i) = Some i) [0..<16]" by code_simp
  then show "i < 16 \<Longrightarrow> hex_val (hextable ! i) = Some i" by (auto simp: list_all_iff)
qed

lemma hex_decode_encode [simp]: "hex_decode (hex_encode bs) = Some bs"
proof (induction bs)
  case (Cons b bs)
  have "(of_char b :: nat) < 256" by simp
  then have "(of_char b :: nat) div 16 < 16" by (simp add: less_mult_imp_div_less)
  then have "hex_val (hextable ! (of_char b div 16)) = Some (of_char b div 16)"
    "hex_val (hextable ! (of_char b mod 16)) = Some (of_char b mod 16)"
    by (auto intro!: hex_val_digit)
  with Cons show ?case by (simp add: hex_encode_byte_def mult.commute [of _ 16])
qed simp

lemma hex_decode_length: "hex_decode s = Some bs \<Longrightarrow> length s = 2 * length bs"
  by (induction s arbitrary: bs rule: hex_decode.induct) (auto split: option.splits)

lemma hex_encode_inj: "hex_encode a = hex_encode b \<Longrightarrow> a = b"
  by (metis hex_decode_encode option.inject)

end
