(* ===== verification/Falco_Outbox.thy ===== *)
theory Falco_Outbox
  imports Delivery Go_Hex "HOL-Library.Word"
begin

section \<open>The durable Falco outbox: agent/internal/runtime/falco\_delivery\_state.go\<close>

text \<open>
  The reader commits its file cursor and the events read up to it together, before it sends them,
  and keeps what was not delivered in the same file: \<open>Pending\<close> is retried, \<open>Quarantine\<close> holds what
  Core rejected for its ownership. The event has the fields the outbox reads; \<open>ev_PodUID\<close> is the
  string under \<^verbatim>\<open>uid\<close> in the pod map, empty if there is none. JSON encoding of a payload,
  SHA-256, the size of the encoded outbox and the outcome of the file operations are parameters.
  Counters are \<^verbatim>\<open>uint64\<close>.
\<close>

subsection \<open>State\<close>

definition falcoStateMaxBytes :: nat where
  "falcoStateMaxBytes = 16777216"

definition falcoStateMaxEvents :: nat where
  "falcoStateMaxEvents = 2048"

definition falcoQuarantineRetry :: int where
  "falcoQuarantineRetry = 5 * 60 * 1000000000"

record FalcoEvent =
  ev_SourceRecordID :: string
  ev_PodUID :: string
  ev_IngestedAt :: string
  ev_PayloadJSON :: "json option"
  ev_PayloadHash :: string

record falcoOutbox =
  ob_Version :: int
  ob_ClusterID :: string
  ob_AgentID :: string
  ob_CoreURL :: string
  ob_SourcePath :: string
  ob_SourceFile :: string
  ob_Offset :: int
  ob_Pending :: "FalcoEvent list"
  ob_Quarantine :: "FalcoEvent list"
  ob_RetryAt :: int
  ob_QuarantineRetryAt :: int

text \<open>\<open>ds_disk\<close> is the file at \<open>ds_path\<close>, and \<open>ds_lock\<close> tells whether the process holds the lock file.\<close>

record falcoDeliveryState =
  ds_path :: string
  ds_expected :: falcoOutbox
  ds_state :: falcoOutbox
  ds_loaded :: bool
  ds_checkpoint :: bool
  ds_lock :: bool
  ds_disk :: "falcoOutbox option"

record Codec =
  cd_marshal :: "json option \<Rightarrow> string"
  cd_sha256 :: "string \<Rightarrow> string"
  cd_size :: "falcoOutbox \<Rightarrow> nat"

datatype OutboxError = BadConfiguration | IoError | LockHeld | BadStateFile | BindingMismatch | NoSourceFile
  | CapacityExceeded | BadEvent | ByteCapacityExceeded | DeliveryFailed "delivery_error list"

subsection \<open>Validation\<close>

definition valid_event :: "Codec \<Rightarrow> FalcoEvent \<Rightarrow> bool" where
  "valid_event cd e \<longleftrightarrow>
     (case hex_decode (ev_SourceRecordID e) of None \<Rightarrow> False | Some i \<Rightarrow> length i = 32) \<and>
     ev_PodUID e \<noteq> [] \<and> ev_IngestedAt e \<noteq> [] \<and> ev_PayloadJSON e \<noteq> None \<and>
     ev_PayloadHash e = hex_encode (cd_sha256 cd (cd_marshal cd (ev_PayloadJSON e)))"

fun check_events :: "Codec \<Rightarrow> string list \<Rightarrow> FalcoEvent list \<Rightarrow> bool" where
  "check_events cd seen [] = True"
| "check_events cd seen (e # es) =
     (valid_event cd e \<and> ev_SourceRecordID e \<notin> set seen \<and> check_events cd (ev_SourceRecordID e # seen) es)"

definition validate :: "Codec \<Rightarrow> falcoDeliveryState \<Rightarrow> falcoOutbox \<Rightarrow> (OutboxError, unit) result" where
  "validate cd s st =
     (let want = ds_expected s
      in if ob_Version st \<noteq> ob_Version want \<or> ob_ClusterID st \<noteq> ob_ClusterID want \<or> ob_AgentID st \<noteq> ob_AgentID want
            \<or> ob_CoreURL st \<noteq> ob_CoreURL want \<or> ob_SourcePath st \<noteq> ob_SourcePath want \<or> ob_Offset st < 0
         then Inl BindingMismatch
         else if ob_Offset st > 0 \<and> ob_SourceFile st = [] then Inl NoSourceFile
         else if length (ob_Pending st) + length (ob_Quarantine st) > falcoStateMaxEvents then Inl CapacityExceeded
         else if check_events cd [] (ob_Pending st @ ob_Quarantine st) then Inr () else Inl BadEvent)"

subsection \<open>Loading and saving\<close>

definition SetDeliveryState :: "string \<Rightarrow> string \<Rightarrow> string \<Rightarrow> string \<Rightarrow> string \<Rightarrow> falcoOutbox option
    \<Rightarrow> falcoDeliveryState option" where
  "SetDeliveryState coreURL sourcePath path clusterID agentID disk =
     (if path = [] then None
      else let ob = \<lparr>ob_Version = 1, ob_ClusterID = clusterID, ob_AgentID = agentID, ob_CoreURL = coreURL,
                 ob_SourcePath = sourcePath, ob_SourceFile = [], ob_Offset = 0, ob_Pending = [], ob_Quarantine = [],
                 ob_RetryAt = 0, ob_QuarantineRetryAt = 0\<rparr>
           in Some \<lparr>ds_path = path, ds_expected = ob,
                ds_state = ob\<lparr>ob_Version := 0, ob_ClusterID := [], ob_AgentID := [], ob_CoreURL := [], ob_SourcePath := []\<rparr>,
                ds_loaded = False, ds_checkpoint = False, ds_lock = False, ds_disk = disk\<rparr>)"

definition CloseDeliveryState :: "falcoDeliveryState \<Rightarrow> falcoDeliveryState" where
  "CloseDeliveryState s = (if ds_lock s then s\<lparr>ds_lock := False, ds_loaded := False\<rparr> else s)"

text \<open>What \<^verbatim>\<open>load\<close> meets in the file system: whether the directory and the lock file can be opened,
  whether the lock is free, and the state file, which may be unreadable, of a wrong type, or not
  decode (unknown fields and trailing data included). A file that \<^verbatim>\<open>save\<close> wrote has the size of
  the encoded outbox.\<close>

datatype StateFile = LstatError | NotRegular | Unreadable | Undecodable | Readable

record LoadView =
  lv_dirOK :: bool
  lv_lockOpenOK :: bool
  lv_lockFree :: bool
  lv_file :: StateFile

definition load :: "Codec \<Rightarrow> LoadView \<Rightarrow> falcoDeliveryState \<Rightarrow> (OutboxError, unit) result \<times> falcoDeliveryState" where
  "load cd v s =
     (if ds_loaded s then (Inr (), s)
      else if ob_ClusterID (ds_expected s) = [] \<or> ob_AgentID (ds_expected s) = [] \<or> \<not> HasPrefix (ds_path s) ''/''
      then (Inl BadConfiguration, s)
      else if \<not> lv_dirOK v then (Inl IoError, s)
      else if \<not> ds_lock s \<and> \<not> lv_lockOpenOK v then (Inl IoError, s)
      else if \<not> ds_lock s \<and> \<not> lv_lockFree v then (Inl LockHeld, s)
      else
        let s = s\<lparr>ds_lock := True\<rparr>
        in case ds_disk s of
             None \<Rightarrow> if lv_file v = LstatError then (Inl IoError, s)
                     else (Inr (), s\<lparr>ds_state := ds_expected s, ds_loaded := True\<rparr>)
           | Some st \<Rightarrow>
               if lv_file v = LstatError then (Inl IoError, s)
               else if lv_file v = NotRegular \<or> cd_size cd st > falcoStateMaxBytes then (Inl BadStateFile, s)
               else if lv_file v = Unreadable then (Inl IoError, s)
               else if lv_file v = Undecodable then (Inl BadStateFile, s)
               else (case validate cd s st of
                       Inl e \<Rightarrow> (Inl e, s)
                     | Inr _ \<Rightarrow> (Inr (), s\<lparr>ds_state := st, ds_loaded := True, ds_checkpoint := True\<rparr>)))"

text \<open>The file operations of \<^verbatim>\<open>save\<close> up to the rename, and the directory sync after it, may fail.\<close>

datatype SaveIO = SaveOK | FailsBeforeRename | FailsAfterRename

definition save :: "Codec \<Rightarrow> SaveIO \<Rightarrow> falcoDeliveryState \<Rightarrow> falcoOutbox \<Rightarrow> (OutboxError, unit) result \<times> falcoDeliveryState" where
  "save cd io s next = (case validate cd s next of
     Inl e \<Rightarrow> (Inl e, s)
   | Inr _ \<Rightarrow>
       if cd_size cd next > falcoStateMaxBytes then (Inl ByteCapacityExceeded, s)
       else (case io of
           FailsBeforeRename \<Rightarrow> (Inl IoError, s)
         | FailsAfterRename \<Rightarrow> (Inl IoError, s\<lparr>ds_disk := Some next\<rparr>)
         | SaveOK \<Rightarrow> (Inr (), s\<lparr>ds_disk := Some next, ds_state := next, ds_checkpoint := True\<rparr>)))"

definition checkpointDelivery :: "Codec \<Rightarrow> SaveIO \<Rightarrow> string \<Rightarrow> int \<Rightarrow> FalcoEvent list \<Rightarrow> falcoDeliveryState option
    \<Rightarrow> (OutboxError, unit) result \<times> falcoDeliveryState option" where
  "checkpointDelivery cd io sourceFile offset events delivery = (case delivery of
     None \<Rightarrow> (Inr (), None)
   | Some s \<Rightarrow> map_prod id Some (save cd io s ((ds_state s)\<lparr>ob_SourceFile := sourceFile, ob_Offset := offset, ob_Pending := events\<rparr>)))"

subsection \<open>Flushing\<close>

record Counters =
  sentEvents :: "64 word"
  failedEvents :: "64 word"
  sentBatches :: "64 word"
  failedBatches :: "64 word"
  st_Emitted :: "64 word"
  st_Delivered :: "64 word"

definition ownership_code :: string where
  "ownership_code = ''runtime_ownership_mismatch''"

definition count_result :: "nat \<Rightarrow> FalcoEvent DeliveryResult \<Rightarrow> Counters \<Rightarrow> Counters" where
  "count_result n r c = c\<lparr>
     st_Emitted := st_Emitted c + of_nat n,
     st_Delivered := st_Delivered c + of_nat (length (Delivered r)),
     sentEvents := sentEvents c + of_nat (length (Delivered r)),
     failedEvents := failedEvents c + of_nat (length (Retry r) + length (Rejected r)),
     sentBatches := sentBatches c + (if length (Delivered r) > 0 then 1 else 0)\<rparr>"

record 'w FlushState =
  fl_next :: falcoOutbox
  fl_err :: "delivery_error list"
  fl_budget :: DeliveryBudget
  fl_counters :: Counters
  fl_world :: 'w

definition flush_pending :: "('w, FalcoEvent) Env \<Rightarrow> 'w FlushState \<Rightarrow> 'w FlushState" where
  "flush_pending env f =
     (let next = fl_next f
      in if length (ob_Pending next) > 0 then
           let (r, budget, w) = DeliverIsolated env ownership_code (ob_Pending next) (fl_budget f) (fl_world f);
               wasEmpty = length (ob_Quarantine next) = 0;
               next' = next\<lparr>ob_Pending := Retry r, ob_Quarantine := ob_Quarantine next @ Rejected r\<rparr>;
               next' = (if length (Rejected r) > 0 \<and> wasEmpty
                        then next'\<lparr>ob_QuarantineRetryAt := env_now env w + falcoQuarantineRetry\<rparr> else next')
           in \<lparr>fl_next = next', fl_err = Err r, fl_budget = budget,
               fl_counters = count_result (length (ob_Pending next)) r (fl_counters f), fl_world = w\<rparr>
         else f)"

definition flush_quarantine :: "('w, FalcoEvent) Env \<Rightarrow> bool \<Rightarrow> 'w FlushState \<Rightarrow> 'w FlushState" where
  "flush_quarantine env quarantine f =
     (let next = fl_next f
      in if quarantine \<and> \<not> Blocked (fl_budget f) \<and> Remaining (fl_budget f) > 0 \<and> length (ob_Quarantine next) > 0
            \<and> \<not> Now (fl_budget f) < ob_QuarantineRetryAt next then
           let (r, budget, w) = DeliverIsolated env ownership_code (ob_Quarantine next) (fl_budget f) (fl_world f);
               next' = next\<lparr>ob_Quarantine := Retry r @ Rejected r,
                            ob_QuarantineRetryAt := env_now env w + falcoQuarantineRetry\<rparr>
           in \<lparr>fl_next = next', fl_err = Err r, fl_budget = budget,
               fl_counters = count_result (length (ob_Quarantine next)) r (fl_counters f), fl_world = w\<rparr>
         else f)"

definition idle_outbox :: "bool \<Rightarrow> DeliveryBudget \<Rightarrow> falcoOutbox \<Rightarrow> bool" where
  "idle_outbox quarantine budget st \<longleftrightarrow> length (ob_Pending st) = 0 \<and>
     (\<not> quarantine \<or> length (ob_Quarantine st) = 0 \<or> Now budget < ob_QuarantineRetryAt st)"

definition flushDelivery :: "Codec \<Rightarrow> ('w, FalcoEvent) Env \<Rightarrow> ('w \<Rightarrow> SaveIO) \<Rightarrow> bool \<Rightarrow> falcoDeliveryState option
    \<Rightarrow> DeliveryBudget \<Rightarrow> Counters \<Rightarrow> 'w
    \<Rightarrow> OutboxError option \<times> falcoDeliveryState option \<times> DeliveryBudget \<times> Counters \<times> 'w" where
  "flushDelivery cd env save_io quarantine delivery budget cnt w = (case delivery of
     None \<Rightarrow> (None, None, budget, cnt, w)
   | Some s \<Rightarrow>
     if \<not> ds_loaded s then (None, Some s, budget, cnt, w)
     else if Now budget < ob_RetryAt (ds_state s) then (None, Some s, budget\<lparr>Blocked := True\<rparr>, cnt, w)
     else if Blocked budget \<or> Remaining budget \<le> 0 \<or> env_ctxErr env w
     then (if env_ctxErr env w then Some (DeliveryFailed [ContextError]) else None, Some s, budget, cnt, w)
     else if idle_outbox quarantine budget (ds_state s) then (None, Some s, budget, cnt, w)
     else
       let f = flush_quarantine env quarantine (flush_pending env
                 \<lparr>fl_next = ds_state s, fl_err = [], fl_budget = budget, fl_counters = cnt, fl_world = w\<rparr>);
           next = (fl_next f)\<lparr>ob_RetryAt := RetryAt (fl_budget f)\<rparr>
       in case save cd (save_io (fl_world f)) s next of
            (Inl e, s') \<Rightarrow> (Some e, Some s', fl_budget f, fl_counters f, fl_world f)
          | (Inr _, s') \<Rightarrow>
              if fl_err f \<noteq> []
              then (Some (DeliveryFailed (fl_err f)), Some s', fl_budget f,
                    (fl_counters f)\<lparr>failedBatches := failedBatches (fl_counters f) + 1\<rparr>, fl_world f)
              else (None, Some s', fl_budget f, fl_counters f, fl_world f))"

subsection \<open>Lemmas\<close>

abbreviation outbox_events :: "falcoOutbox \<Rightarrow> FalcoEvent multiset" where
  "outbox_events st \<equiv> mset (ob_Pending st) + mset (ob_Quarantine st)"

lemma check_events_iff:
  "check_events cd seen es \<longleftrightarrow> (\<forall>e \<in> set es. valid_event cd e) \<and> distinct (map ev_SourceRecordID es) \<and>
     set (map ev_SourceRecordID es) \<inter> set seen = {}"
  by (induction es arbitrary: seen) auto

lemma distinct_iff_count: "distinct xs \<longleftrightarrow> (\<forall>a. count (mset xs) a \<le> 1)"
proof
  assume "distinct xs"
  then show "\<forall>a. count (mset xs) a \<le> 1" by (simp add: distinct_count_atmost_1)
next
  assume le: "\<forall>a. count (mset xs) a \<le> 1"
  have "count (mset xs) a = (if a \<in> set xs then 1 else 0)" for a
    using le [rule_format, of a] count_mset_0_iff [of xs a] by (auto simp: le_Suc_eq)
  then show "distinct xs" by (simp add: distinct_count_atmost_1)
qed

lemma distinct_map_mset:
  assumes "mset xs \<subseteq># mset ys" and "distinct (map f ys)"
  shows "distinct (map f xs)"
proof -
  have "mset (map f xs) \<subseteq># mset (map f ys)" using assms(1) by (simp add: image_mset_subseteq_mono)
  then show ?thesis
    using assms(2) unfolding distinct_iff_count by (meson le_trans mset_subset_eq_count)
qed

text \<open>Validity depends on the events as a collection, and a smaller collection stays valid.\<close>

lemma validate_shrinks:
  assumes "validate cd s st = Inr ()" and "outbox_events st' \<subseteq># outbox_events st"
    and "ob_Version st' = ob_Version st" "ob_ClusterID st' = ob_ClusterID st" "ob_AgentID st' = ob_AgentID st"
      "ob_CoreURL st' = ob_CoreURL st" "ob_SourcePath st' = ob_SourcePath st" "ob_SourceFile st' = ob_SourceFile st"
      "ob_Offset st' = ob_Offset st"
  shows "validate cd s st' = Inr ()"
proof -
  let ?es = "ob_Pending st @ ob_Quarantine st" and ?es' = "ob_Pending st' @ ob_Quarantine st'"
  have sub: "mset ?es' \<subseteq># mset ?es" using assms(2) by simp
  have "length ?es' \<le> length ?es" using size_mset_mono [OF sub] by (simp only: size_mset)
  moreover have "check_events cd [] ?es'"
    using assms(1) distinct_map_mset [OF sub, of ev_SourceRecordID] mset_subset_eqD [OF sub]
    by (auto simp: validate_def Let_def check_events_iff split: if_splits)
  ultimately show ?thesis
    using assms(1,3-) by (auto simp: validate_def Let_def split: if_splits)
qed

definition same_binding :: "falcoOutbox \<Rightarrow> falcoOutbox \<Rightarrow> bool" where
  "same_binding a b \<longleftrightarrow> ob_Version a = ob_Version b \<and> ob_ClusterID a = ob_ClusterID b \<and> ob_AgentID a = ob_AgentID b \<and>
     ob_CoreURL a = ob_CoreURL b \<and> ob_SourcePath a = ob_SourcePath b \<and> ob_SourceFile a = ob_SourceFile b \<and>
     ob_Offset a = ob_Offset b"



lemma save_cases:
  assumes "save cd io s next = (r, s')"
  obtains (refused) e where "r = Inl e" "s' = s"
  | (torn) "r = Inl IoError" "validate cd s next = Inr ()" "cd_size cd next \<le> falcoStateMaxBytes" "s' = s\<lparr>ds_disk := Some next\<rparr>"
  | (saved) "r = Inr ()" "validate cd s next = Inr ()" "cd_size cd next \<le> falcoStateMaxBytes"
      "s' = s\<lparr>ds_disk := Some next, ds_state := next, ds_checkpoint := True\<rparr>"
proof (cases "validate cd s next")
  case (Inl e)
  with assms show thesis by (intro refused [of e]) (simp_all add: save_def)
next
  case (Inr u)
  with assms refused torn saved show thesis by (cases io) (auto simp: save_def split: if_splits)
qed

text \<open>The two deliveries of a flush together.\<close>

definition flushed :: "('w, FalcoEvent) Env \<Rightarrow> bool \<Rightarrow> falcoOutbox \<Rightarrow> DeliveryBudget \<Rightarrow> Counters \<Rightarrow> 'w \<Rightarrow> 'w FlushState" where
  "flushed env q st b cnt w = flush_quarantine env q (flush_pending env
     \<lparr>fl_next = st, fl_err = [], fl_budget = b, fl_counters = cnt, fl_world = w\<rparr>)"


lemma flushDelivery_cases:
  assumes "flushDelivery cd env io q (Some s) b cnt w = (e, d', b', cnt', w')"
  obtains (skipped) "d' = Some s" "Remaining b' = Remaining b" "w' = w" "e = None \<or> e = Some (DeliveryFailed [ContextError])"
  | (ran) f r s' where "f = flushed env q (ds_state s) b cnt w" "d' = Some s'" "b' = fl_budget f" "w' = fl_world f"
      "save cd (io (fl_world f)) s ((fl_next f)\<lparr>ob_RetryAt := RetryAt (fl_budget f)\<rparr>) = (r, s')"
      "e = (case r of Inl x \<Rightarrow> Some x | Inr _ \<Rightarrow> if fl_err f = [] then None else Some (DeliveryFailed (fl_err f)))"
proof (cases "\<not> ds_loaded s \<or> Now b < ob_RetryAt (ds_state s) \<or> Blocked b \<or> Remaining b \<le> 0 \<or> env_ctxErr env w
    \<or> idle_outbox q b (ds_state s)")
  case True
  with assms show thesis by (intro skipped) (auto simp: flushDelivery_def split: if_splits)
next
  case False
  let ?f = "flushed env q (ds_state s) b cnt w"
  obtain r s' where sv: "save cd (io (fl_world ?f)) s ((fl_next ?f)\<lparr>ob_RetryAt := RetryAt (fl_budget ?f)\<rparr>) = (r, s')" by fastforce
  have run: "flushDelivery cd env io q (Some s) b cnt w =
      (case (r, s') of
            (Inl e, s') \<Rightarrow> (Some e, Some s', fl_budget ?f, fl_counters ?f, fl_world ?f)
          | (Inr _, s') \<Rightarrow>
              if fl_err ?f \<noteq> []
              then (Some (DeliveryFailed (fl_err ?f)), Some s', fl_budget ?f,
                    (fl_counters ?f)\<lparr>failedBatches := failedBatches (fl_counters ?f) + 1\<rparr>, fl_world ?f)
              else (None, Some s', fl_budget ?f, fl_counters ?f, fl_world ?f))"
    using False sv unfolding flushDelivery_def flushed_def [symmetric] Let_def by simp
  show thesis
    using sv run assms by (intro ran [OF refl _ _ _ sv]) (auto split: sum.splits if_splits)
qed

text \<open>The life of an outbox: it is loaded, written at a checkpoint of an empty queue, flushed, closed,
  and a crash forgets everything but the file.\<close>

inductive falco_step :: "Codec \<Rightarrow> ('w, FalcoEvent) Env \<Rightarrow> ('w \<Rightarrow> SaveIO) \<Rightarrow> falcoDeliveryState \<Rightarrow> falcoDeliveryState \<Rightarrow> bool"
  for cd env io where
  load_step: "load cd v s = (r, s') \<Longrightarrow> falco_step cd env io s s'"
| checkpoint_step: "ds_loaded s \<Longrightarrow> ob_Pending (ds_state s) = [] \<Longrightarrow>
    checkpointDelivery cd sio src off evs (Some s) = (r, Some s') \<Longrightarrow> falco_step cd env io s s'"
| flush_step: "flushDelivery cd env io q (Some s) b cnt w = (e, Some s', b', cnt', w') \<Longrightarrow> falco_step cd env io s s'"
| close_step: "falco_step cd env io s (CloseDeliveryState s)"
| crash_step: "SetDeliveryState (ob_CoreURL (ds_expected s)) (ob_SourcePath (ds_expected s)) (ds_path s)
    (ob_ClusterID (ds_expected s)) (ob_AgentID (ds_expected s)) (ds_disk s) = Some s' \<Longrightarrow> falco_step cd env io s s'"

inductive_simps falco_step_simps: "falco_step cd env io s s'"

definition fresh_expected :: "falcoOutbox \<Rightarrow> bool" where
  "fresh_expected ob \<longleftrightarrow> ob_Version ob = 1 \<and> ob_SourceFile ob = [] \<and> ob_Offset ob = 0 \<and> ob_Pending ob = [] \<and>
     ob_Quarantine ob = [] \<and> ob_RetryAt ob = 0 \<and> ob_QuarantineRetryAt ob = 0"

definition falco_inv :: "Codec \<Rightarrow> falcoDeliveryState \<Rightarrow> bool" where
  "falco_inv cd s \<longleftrightarrow> fresh_expected (ds_expected s) \<and>
     (ds_loaded s \<longrightarrow> validate cd s (ds_state s) = Inr ()) \<and>
     (\<forall>st. ds_disk s = Some st \<longrightarrow> validate cd s st = Inr () \<and> cd_size cd st \<le> falcoStateMaxBytes)"

lemma validate_cong: "ds_expected s' = ds_expected s \<Longrightarrow> validate cd s' st = validate cd s st"
  by (simp add: validate_def)

lemma validate_expected: "fresh_expected (ds_expected s) \<Longrightarrow> validate cd s (ds_expected s) = Inr ()"
  by (simp add: validate_def fresh_expected_def Let_def)

lemma validate_logged_irrelevant:
  assumes "validate cd s (ds_state s) = Inr ()"
  shows "validate cd s ((fl_next (flushed env q (ds_state s) b cnt w))\<lparr>ob_RetryAt := t\<rparr>) = Inr ()"
proof -
  have "mset (ob_Pending (fl_next f')) + mset (ob_Quarantine (fl_next f')) \<subseteq># mset (ob_Pending (fl_next f)) + mset (ob_Quarantine (fl_next f))
      \<and> same_binding (fl_next f') (fl_next f)"
    if "f' = flush_pending env f \<or> f' = flush_quarantine env q f" for f f' :: "'a FlushState"
  proof -
    obtain r b1 w1 where p: "DeliverIsolated env ownership_code (ob_Pending (fl_next f)) (fl_budget f) (fl_world f) = (r, b1, w1)"
      by (metis prod_cases3)
    obtain r2 b2 w2 where qq: "DeliverIsolated env ownership_code (ob_Quarantine (fl_next f)) (fl_budget f) (fl_world f) = (r2, b2, w2)"
      by (metis prod_cases3)
    have "mset (ob_Pending (fl_next f)) = mset (Delivered r) + mset (Retry r) + mset (Rejected r)"
      "mset (ob_Quarantine (fl_next f)) = mset (Delivered r2) + mset (Retry r2) + mset (Rejected r2)"
      using isolated.shares_out [OF p] isolated.shares_out [OF qq] by auto
    then show ?thesis
      using that by (auto simp: flush_pending_def flush_quarantine_def p qq Let_def same_binding_def)
  qed
  then have "outbox_events (fl_next (flushed env q (ds_state s) b cnt w)) \<subseteq># outbox_events (ds_state s) \<and>
      same_binding (fl_next (flushed env q (ds_state s) b cnt w)) (ds_state s)"
    unfolding flushed_def same_binding_def by (smt (verit) FlushState.select_convs(1) subset_mset.order_trans)
  then show ?thesis by (intro validate_shrinks [OF assms]) (auto simp: same_binding_def)
qed

lemma validate_upd [simp]:
  "validate cd (s\<lparr>ds_lock := l\<rparr>) st = validate cd s st" "validate cd (s\<lparr>ds_disk := d\<rparr>) st = validate cd s st"
  "validate cd (s\<lparr>ds_state := t\<rparr>) st = validate cd s st" "validate cd (s\<lparr>ds_loaded := b\<rparr>) st = validate cd s st"
  "validate cd (s\<lparr>ds_checkpoint := b\<rparr>) st = validate cd s st"
  by (simp_all add: validate_def)

lemma load_effect:
  assumes "load cd v s = (r, s')"
  shows "ds_expected s' = ds_expected s \<and> ds_path s' = ds_path s \<and> ds_disk s' = ds_disk s \<and>
    (ds_loaded s' \<longrightarrow> ds_loaded s \<and> ds_state s' = ds_state s \<or> ds_state s' = ds_expected s \<or> validate cd s (ds_state s') = Inr ())"
proof (cases "ds_disk s")
  case None
  with assms show ?thesis by (auto simp: load_def Let_def split: if_splits)
next
  case (Some st)
  with assms show ?thesis
    by (cases "validate cd s st"; cases "lv_file v") (auto simp: load_def Let_def split: if_splits)
qed

lemma falco_inv_expected_cong:
  "falco_inv cd s \<Longrightarrow> ds_expected s' = ds_expected s \<Longrightarrow> ds_disk s' = ds_disk s \<or> (\<exists>st. ds_disk s' = Some st \<and> validate cd s st = Inr () \<and> cd_size cd st \<le> falcoStateMaxBytes)
    \<Longrightarrow> (ds_loaded s' \<Longrightarrow> validate cd s (ds_state s') = Inr ()) \<Longrightarrow> falco_inv cd s'"
  using validate_cong [of s' s cd] by (auto simp: falco_inv_def)

lemma validate_InrD:
  "validate cd s st = Inr () \<Longrightarrow> length (ob_Pending st) + length (ob_Quarantine st) \<le> 2048 \<and>
     distinct (map ev_SourceRecordID (ob_Pending st @ ob_Quarantine st))"
  by (auto simp: validate_def Let_def check_events_iff falcoStateMaxEvents_def split: if_splits)

lemma falco_step_preserves:
  assumes "falco_step cd env io s s'" and inv: "falco_inv cd s"
  shows "falco_inv cd s' \<and> (ds_expected s', ds_path s') = (ds_expected s, ds_path s)"
  using assms(1)
proof cases
  case (load_step v r)
  note eff = load_effect [OF load_step(1)]
  have "ds_loaded s' \<Longrightarrow> validate cd s (ds_state s') = Inr ()"
    using eff inv validate_expected [of s cd] by (auto simp: falco_inv_def)
  with eff show ?thesis by (auto intro!: falco_inv_expected_cong [OF inv])
next
  case (checkpoint_step sio src off evs r)
  then obtain nx where "save cd sio s nx = (r, s')"
    by (auto simp: checkpointDelivery_def map_prod_def split: prod.splits)
  then show ?thesis
    by (cases rule: save_cases) (use inv in \<open>auto simp: falco_inv_def\<close>)
next
  case (flush_step q b cnt w e b' cnt' w')
  from flush_step(1) show ?thesis
  proof (cases rule: flushDelivery_cases)
    case skipped
    with inv show ?thesis by simp
  next
    case (ran f r s'')
    from ran(5) show ?thesis
      by (cases rule: save_cases) (use inv ran(2) in \<open>auto simp: falco_inv_def\<close>)
  qed
next
  case close_step
  with inv show ?thesis by (auto simp: CloseDeliveryState_def falco_inv_def)
next
  case crash_step
  then have "ds_expected s' = ds_expected s" "ds_path s' = ds_path s" "ds_disk s' = ds_disk s" "\<not> ds_loaded s'"
    using inv by (auto simp: SetDeliveryState_def falco_inv_def fresh_expected_def Let_def split: if_splits)
  with inv show ?thesis by (auto intro!: falco_inv_expected_cong [OF inv])
qed

interpretation outbox: step_invariant "falco_step cd env io" "falco_inv cd" "\<lambda>s. (ds_expected s, ds_path s)" for cd env io
  by unfold_locales (auto dest: falco_step_preserves)

subsection \<open>Properties\<close>

text \<open>When a flush has something to do and may do it.\<close>

definition flush_due :: "bool \<Rightarrow> falcoDeliveryState \<Rightarrow> DeliveryBudget \<Rightarrow> bool \<Rightarrow> bool" where
  "flush_due q s b cancelled \<longleftrightarrow>
     ds_loaded s \<and> ob_RetryAt (ds_state s) \<le> Now b \<and> \<not> Blocked b \<and> 0 < Remaining b \<and> \<not> cancelled \<and>
     (ob_Pending (ds_state s) \<noteq> []
      \<or> q \<and> ob_Quarantine (ds_state s) \<noteq> [] \<and> ob_QuarantineRetryAt (ds_state s) \<le> Now b)"


lemma flushDelivery_due:
  assumes "flush_due q s b (env_ctxErr env w)"
    and "flushDelivery cd env io q (Some s) b cnt w = (e, d', b', cnt', w')"
  obtains f r s' where "f = flushed env q (ds_state s) b cnt w" "d' = Some s'" "b' = fl_budget f" "w' = fl_world f"
      "save cd (io (fl_world f)) s ((fl_next f)\<lparr>ob_RetryAt := RetryAt (fl_budget f)\<rparr>) = (r, s')"
      "e = (case r of Inl x \<Rightarrow> Some x | Inr _ \<Rightarrow> if fl_err f = [] then None else Some (DeliveryFailed (fl_err f)))"
proof -
  let ?f = "flushed env q (ds_state s) b cnt w"
  obtain r s' where sv: "save cd (io (fl_world ?f)) s ((fl_next ?f)\<lparr>ob_RetryAt := RetryAt (fl_budget ?f)\<rparr>) = (r, s')" by fastforce
  have "\<not> (\<not> ds_loaded s \<or> Now b < ob_RetryAt (ds_state s) \<or> Blocked b \<or> Remaining b \<le> 0 \<or> env_ctxErr env w
    \<or> idle_outbox q b (ds_state s))"
    using assms(1) by (auto simp: flush_due_def idle_outbox_def)
  then have run: "flushDelivery cd env io q (Some s) b cnt w =
      (case (r, s') of
            (Inl e, s') \<Rightarrow> (Some e, Some s', fl_budget ?f, fl_counters ?f, fl_world ?f)
          | (Inr _, s') \<Rightarrow>
              if fl_err ?f \<noteq> []
              then (Some (DeliveryFailed (fl_err ?f)), Some s', fl_budget ?f,
                    (fl_counters ?f)\<lparr>failedBatches := failedBatches (fl_counters ?f) + 1\<rparr>, fl_world ?f)
              else (None, Some s', fl_budget ?f, fl_counters ?f, fl_world ?f))"
    using sv unfolding flushDelivery_def flushed_def [symmetric] Let_def by simp
  show thesis
    using sv run assms(2) by (intro that [OF refl _ _ _ sv]) (auto split: sum.splits if_splits)
qed




text \<open>
  C7. The outbox stays valid: through any sequence of loads, checkpoints, flushes, closes and
  crashes from a fresh start, a loaded state and the file hold at most 2048 events, all with
  distinct source record identifiers, and the file is at most 16 MiB long. So whenever the file can be
  read, \<open>load\<close> succeeds, and its state is what the file holds, or a fresh outbox if there is no file.
\<close>

theorem falco_outbox_stays_valid:
  assumes "SetDeliveryState coreURL sourcePath path clusterID agentID None = Some s0"
    and "(falco_step cd env io)\<^sup>*\<^sup>* s0 s"
    and "clusterID \<noteq> []" and "agentID \<noteq> []" and "HasPrefix path ''/''"
  shows "(ds_loaded s \<longrightarrow> length (ob_Pending (ds_state s)) + length (ob_Quarantine (ds_state s)) \<le> 2048 \<and>
      distinct (map ev_SourceRecordID (ob_Pending (ds_state s) @ ob_Quarantine (ds_state s)))) \<and>
    (case ds_disk s of None \<Rightarrow> True | Some st \<Rightarrow>
      length (ob_Pending st) + length (ob_Quarantine st) \<le> 2048 \<and>
      distinct (map ev_SourceRecordID (ob_Pending st @ ob_Quarantine st)) \<and> cd_size cd st \<le> 16777216) \<and>
    (case load cd \<lparr>lv_dirOK = True, lv_lockOpenOK = True, lv_lockFree = True, lv_file = Readable\<rparr> s of
      (r, s') \<Rightarrow> r = Inr () \<and> ds_loaded s' \<and> ds_state s' = (if ds_loaded s then ds_state s
        else case ds_disk s of None \<Rightarrow> ds_expected s0 | Some st \<Rightarrow> st))"
proof -
  have "falco_inv cd s0" using assms(1)
    by (auto simp: SetDeliveryState_def falco_inv_def fresh_expected_def Let_def split: if_splits)
  then have inv: "falco_inv cd s" and ex: "ds_expected s = ds_expected s0 \<and> ds_path s = ds_path s0"
    using outbox.reachable_inv [OF assms(2)] outbox.reachable_frame [OF assms(2)] by auto
  have conf: "ob_ClusterID (ds_expected s) = clusterID" "ob_AgentID (ds_expected s) = agentID" "ds_path s = path"
    using assms(1) ex by (auto simp: SetDeliveryState_def Let_def split: if_splits)
  have disk: "case ds_disk s of None \<Rightarrow> True | Some st \<Rightarrow> validate cd s st = Inr () \<and> cd_size cd st \<le> 16777216"
    using inv by (simp add: falco_inv_def falcoStateMaxBytes_def split: option.split)
  have "case load cd \<lparr>lv_dirOK = True, lv_lockOpenOK = True, lv_lockFree = True, lv_file = Readable\<rparr> s of
      (r, s') \<Rightarrow> r = Inr () \<and> ds_loaded s' \<and> ds_state s' = (if ds_loaded s then ds_state s
        else case ds_disk s of None \<Rightarrow> ds_expected s0 | Some st \<Rightarrow> st)"
    using disk conf ex assms(3-5) by (cases "ds_disk s") (simp_all add: load_def falcoStateMaxBytes_def)
  moreover have "ds_loaded s \<longrightarrow> validate cd s (ds_state s) = Inr ()" using inv by (simp add: falco_inv_def)
  ultimately show ?thesis using disk validate_InrD [of cd s] by (auto split: option.splits)
qed

definition sample_codec :: Codec where
  "sample_codec = \<lparr>cd_marshal = (\<lambda>_. ''{}''), cd_sha256 = (\<lambda>_. replicate 32 CHR 0x01), cd_size = (\<lambda>_. 100)\<rparr>"

definition sample_outbox :: falcoDeliveryState where
  "sample_outbox = the (SetDeliveryState ''http://core'' ''/var/log/falco'' ''/var/lib/o.json'' ''c1'' ''a1'' None)"

definition dead_env :: "(unit, FalcoEvent) Env" where
  "dead_env = \<lparr>env_post = (\<lambda>w es. (Some None, w)), env_ctxErr = (\<lambda>w. False), env_now = (\<lambda>w. 0)\<rparr>"

text \<open>
  The runs of the witnesses: the outbox is loaded, a checkpoint writes two events, a flush that
  meets a dead Core, and one whose Core accepts the batch.
\<close>

definition sample_event :: "char \<Rightarrow> FalcoEvent" where
  "sample_event c = \<lparr>ev_SourceRecordID = hex_encode (replicate 32 c), ev_PodUID = ''p'', ev_IngestedAt = ''t'',
     ev_PayloadJSON = Some JNull, ev_PayloadHash = hex_encode (replicate 32 CHR 0x01)\<rparr>"

definition sample_events :: "FalcoEvent list" where
  "sample_events = [sample_event CHR ''a'', sample_event CHR ''b'']"

definition readable :: LoadView where
  "readable = \<lparr>lv_dirOK = True, lv_lockOpenOK = True, lv_lockFree = True, lv_file = Readable\<rparr>"

definition sample_loaded :: falcoDeliveryState where
  "sample_loaded = snd (load sample_codec readable sample_outbox)"

definition sample_content :: falcoOutbox where
  "sample_content = (ds_expected sample_outbox)\<lparr>ob_SourceFile := ''8:1'', ob_Offset := 70, ob_Pending := sample_events\<rparr>"

definition sample_written :: falcoDeliveryState where
  "sample_written = sample_loaded\<lparr>ds_disk := Some sample_content, ds_state := sample_content, ds_checkpoint := True\<rparr>"

definition sample_budget :: DeliveryBudget where
  "sample_budget = \<lparr>Remaining = 12, Now = 5, RetryAt = 0, Blocked = False\<rparr>"

definition no_counts :: Counters where
  "no_counts = \<lparr>sentEvents = 0, failedEvents = 0, sentBatches = 0, failedBatches = 0, st_Emitted = 0, st_Delivered = 0\<rparr>"


lemma sample_events_valid: "check_events sample_codec [] sample_events"
proof -
  have "hex_encode (replicate 32 CHR ''a'') \<noteq> hex_encode (replicate 32 CHR ''b'')"
    by (auto dest!: hex_encode_inj)
  then show ?thesis
    by (simp add: sample_events_def sample_event_def valid_event_def sample_codec_def hex_decode_encode)
qed

lemma sample_states:
  "ds_loaded sample_loaded" "ds_state sample_loaded = ds_expected sample_outbox"
  "ds_expected sample_loaded = ds_expected sample_outbox" "ds_path sample_loaded = ds_path sample_outbox"
  "ob_Pending (ds_expected sample_outbox) = []" "ob_Quarantine (ds_expected sample_outbox) = []"
  "ob_RetryAt (ds_expected sample_outbox) = 0" "fresh_expected (ds_expected sample_outbox)"
  by code_simp+

lemma sample_written_valid: "validate sample_codec sample_loaded sample_content = Inr ()"
  using sample_events_valid sample_states
  by (simp add: validate_def sample_content_def falcoStateMaxEvents_def Let_def) (simp add: sample_events_def)


lemma sample_dead_run:
  "DeliverIsolated dead_env code sample_events sample_budget ()
     = (\<lparr>Delivered = [], Retry = sample_events, Rejected = [], Err = [PostFailure None]\<rparr>,
        sample_budget\<lparr>Remaining := 11, Blocked := True, RetryAt := 30000000000\<rparr>, ())"
  by (subst DeliverIsolated.simps)
     (simp add: dead_env_def sample_budget_def ownership_rejection_def failure_delay_def DeliveryBackoff_def, simp add: sample_events_def)


definition sample_flushed :: falcoDeliveryState where
  "sample_flushed = (let st = sample_content\<lparr>ob_RetryAt := 30000000000\<rparr>
     in sample_written\<lparr>ds_disk := Some st, ds_state := st, ds_checkpoint := True\<rparr>)"

definition sample_crashed :: falcoDeliveryState where
  "sample_crashed = the (SetDeliveryState ''http://core'' ''/var/log/falco'' ''/var/lib/o.json'' ''c1'' ''a1'' (ds_disk sample_flushed))"

theorem falco_outbox_stays_valid_witness:
  "fst (load sample_codec readable sample_crashed) = Inr ()
   \<and> ob_Pending (ds_state (snd (load sample_codec readable sample_crashed))) = sample_events"
proof -
  have start: "SetDeliveryState ''http://core'' ''/var/log/falco'' ''/var/lib/o.json'' ''c1'' ''a1'' None = Some sample_outbox"
    by (simp add: sample_outbox_def SetDeliveryState_def Let_def)
  have size: "cd_size sample_codec nx = 100" for nx by (simp add: sample_codec_def)
  let ?step = "falco_step sample_codec dead_env (\<lambda>_. SaveOK)"
  have "?step sample_outbox sample_loaded"
    unfolding sample_loaded_def by (intro load_step [OF prod.collapse [symmetric]])
  moreover have "?step sample_loaded sample_written"
  proof (rule checkpoint_step)
    show "ds_loaded sample_loaded" "ob_Pending (ds_state sample_loaded) = []" by (simp_all add: sample_states)
    show "checkpointDelivery sample_codec SaveOK ''8:1'' 70 sample_events (Some sample_loaded) = (Inr (), Some sample_written)"
      using sample_written_valid sample_states
      by (simp add: checkpointDelivery_def save_def size falcoStateMaxBytes_def sample_written_def sample_content_def [symmetric])
  qed
  moreover have "?step sample_written sample_flushed"
  proof -
    have due: "flush_due True sample_written sample_budget (env_ctxErr dead_env ())"
      using sample_states by (simp add: flush_due_def sample_written_def sample_content_def sample_events_def
          sample_budget_def dead_env_def)
    obtain e d' b' cnt' w' where run:
      "flushDelivery sample_codec dead_env (\<lambda>_. SaveOK) True (Some sample_written) sample_budget no_counts () = (e, d', b', cnt', w')"
      by (metis prod_cases5)
    obtain f r s' where f: "f = flushed dead_env True (ds_state sample_written) sample_budget no_counts ()" "d' = Some s'"
      "save sample_codec SaveOK sample_written ((fl_next f)\<lparr>ob_RetryAt := RetryAt (fl_budget f)\<rparr>) = (r, s')"
      by (rule flushDelivery_due [OF due run]) (use that in simp)
    have "(fl_next f)\<lparr>ob_RetryAt := RetryAt (fl_budget f)\<rparr> = sample_content\<lparr>ob_RetryAt := 30000000000\<rparr>"
      using sample_states f(1)
      by (simp add: flushed_def flush_pending_def flush_quarantine_def sample_written_def sample_content_def sample_dead_run Let_def)
         (simp add: sample_events_def)
    moreover have "validate sample_codec sample_loaded (sample_content\<lparr>ob_RetryAt := t\<rparr>) = Inr ()" for t
      by (rule validate_shrinks [OF sample_written_valid]) simp_all
    then have "validate sample_codec sample_written (sample_content\<lparr>ob_RetryAt := t\<rparr>) = Inr ()" for t
      by (simp add: sample_written_def)
    ultimately have "s' = sample_flushed"
      using f(3) by (simp add: save_def size falcoStateMaxBytes_def sample_flushed_def sample_written_def Let_def)
    with run f(2) show ?thesis by (intro flush_step) simp
  qed
  moreover have "?step sample_flushed sample_crashed"
  proof (rule crash_step)
    have "ds_expected sample_flushed = ds_expected sample_outbox \<and> ds_path sample_flushed = ds_path sample_outbox"
      by (simp add: sample_flushed_def sample_written_def sample_states Let_def)
    then show "SetDeliveryState (ob_CoreURL (ds_expected sample_flushed)) (ob_SourcePath (ds_expected sample_flushed))
        (ds_path sample_flushed) (ob_ClusterID (ds_expected sample_flushed)) (ob_AgentID (ds_expected sample_flushed))
        (ds_disk sample_flushed) = Some sample_crashed"
      by (simp add: sample_crashed_def sample_outbox_def SetDeliveryState_def Let_def)
  qed
  ultimately have run: "?step\<^sup>*\<^sup>* sample_outbox sample_crashed"
    by (meson converse_rtranclp_into_rtranclp rtranclp.rtrancl_refl)
  have valid: "case load sample_codec readable sample_crashed of (r, s') \<Rightarrow> r = Inr () \<and> ds_loaded s'
      \<and> ds_state s' = (if ds_loaded sample_crashed then ds_state sample_crashed
          else case ds_disk sample_crashed of None \<Rightarrow> ds_expected sample_outbox | Some st \<Rightarrow> st)"
    using falco_outbox_stays_valid [OF start run] by (simp add: readable_def HasPrefix_def)
  have "\<not> ds_loaded sample_crashed"
    "ds_disk sample_crashed = Some (sample_content\<lparr>ob_RetryAt := 30000000000\<rparr>)"
    by (simp_all add: sample_crashed_def SetDeliveryState_def sample_flushed_def Let_def)
  with valid show ?thesis by (simp add: sample_content_def split: prod.splits)
qed

text \<open>
  A flush of a valid outbox never fails for its content: the only errors it returns are a file
  error, the byte limit of the encoded file and the delivery errors themselves.
\<close>

lemma flushDelivery_error_kinds:
  assumes "validate cd s (ds_state s) = Inr ()"
  shows "case fst (flushDelivery cd env io q (Some s) b cnt w) of
      None \<Rightarrow> True
    | Some e \<Rightarrow> e = IoError \<or> e = ByteCapacityExceeded \<or> (\<exists>es. e = DeliveryFailed es)"
proof -
  obtain e d' b' cnt' w' where run: "flushDelivery cd env io q (Some s) b cnt w = (e, d', b', cnt', w')"
    by (metis prod_cases5)
  from run show ?thesis
  proof (cases rule: flushDelivery_cases)
    case skipped
    then show ?thesis by (auto simp: run)
  next
    case (ran f r s')
    have "validate cd s ((fl_next f)\<lparr>ob_RetryAt := RetryAt (fl_budget f)\<rparr>) = Inr ()"
      using validate_logged_irrelevant [OF assms] ran(1) by simp
    with ran(5) have "r = Inr () \<or> r = Inl IoError \<or> r = Inl ByteCapacityExceeded"
      by (cases "io (fl_world f)") (auto simp: save_def split: if_splits)
    with ran(6) show ?thesis by (auto simp: run)
  qed
qed

lemma flushDelivery_error_kinds_witness:
  "fst (flushDelivery sample_codec dead_env (\<lambda>_. FailsBeforeRename) True
     (Some (sample_outbox\<lparr>ds_state := ds_expected sample_outbox\<rparr>))
     \<lparr>Remaining = 12, Now = 5, RetryAt = 0, Blocked = False\<rparr>
     \<lparr>sentEvents = 0, failedEvents = 0, sentBatches = 0, failedBatches = 0, st_Emitted = 0, st_Delivered = 0\<rparr> ()) \<noteq> Some BadEvent"
proof -
  have "validate sample_codec (sample_outbox\<lparr>ds_state := ds_expected sample_outbox\<rparr>)
      (ds_state (sample_outbox\<lparr>ds_state := ds_expected sample_outbox\<rparr>)) = Inr ()"
    by (simp add: validate_def sample_outbox_def SetDeliveryState_def Let_def)
  note kinds = flushDelivery_error_kinds [OF this, of dead_env "\<lambda>_. FailsBeforeRename" True
    "\<lparr>Remaining = 12, Now = 5, RetryAt = 0, Blocked = False\<rparr>"
    "\<lparr>sentEvents = 0, failedEvents = 0, sentBatches = 0, failedBatches = 0, st_Emitted = 0, st_Delivered = 0\<rparr>" "()"]
  show ?thesis
  proof
    assume e: "fst (flushDelivery sample_codec dead_env (\<lambda>_. FailsBeforeRename) True
     (Some (sample_outbox\<lparr>ds_state := ds_expected sample_outbox\<rparr>))
     \<lparr>Remaining = 12, Now = 5, RetryAt = 0, Blocked = False\<rparr>
     \<lparr>sentEvents = 0, failedEvents = 0, sentBatches = 0, failedBatches = 0, st_Emitted = 0, st_Delivered = 0\<rparr> ()) = Some BadEvent"
    show False using kinds unfolding e by simp
  qed
qed

end
