(* ===== verification/Agent_Identity.thy ===== *)
theory Agent_Identity
  imports Go_Hex
begin

section \<open>Agent credentials on both sides of the HTTP ingest\<close>

text \<open>
  Agent: \<^verbatim>\<open>agent/internal/corehttp/optional_auth.go\<close>. Core: \<^verbatim>\<open>core/pkg/agentidentity/store.go\<close>,
  \<^verbatim>\<open>core/internal/middleware/agent_identity.go\<close> and \<^verbatim>\<open>ingest_token.go\<close>. The registry is reread
  for every authentication, so the content of its file (None when it cannot be read) and the
  instant are arguments. Instants count from the zero \<^verbatim>\<open>time.Time\<close>, which is 0; reading an
  RFC 3339 instant and SHA-256 are parameters. The registry decodes with unknown fields refused;
  a registry that repeats a member name in one object is not distinguished from one where the
  last member stands alone.
\<close>

subsection \<open>The credential registry\<close>

datatype AuthError = ErrUnavailable | ErrUnauthenticated | ErrIdentityMismatch

record Principal =
  CredentialID :: string
  ClusterID :: string
  AgentID :: string

definition CheckClaims :: "Principal \<Rightarrow> string \<Rightarrow> string \<Rightarrow> (AuthError, unit) result" where
  "CheckClaims p clusterID agentID =
     (if CredentialID p = [] \<or> ClusterID p = [] \<or> AgentID p = [] \<or> clusterID \<noteq> ClusterID p \<or> agentID \<noteq> AgentID p
      then Inl ErrIdentityMismatch else Inr ())"

record Credential =
  c_ID :: string
  c_ClusterID :: string
  c_AgentID :: string
  c_TokenSHA256 :: string
  c_CertificateSHA256 :: string
  c_NotBefore :: int
  c_ExpiresAt :: int
  c_Revoked :: bool

definition zero_Credential :: Credential where
  "zero_Credential = \<lparr>c_ID = [], c_ClusterID = [], c_AgentID = [], c_TokenSHA256 = [], c_CertificateSHA256 = [],
     c_NotBefore = 0, c_ExpiresAt = 0, c_Revoked = False\<rparr>"

definition set_time :: "(string \<Rightarrow> int option) \<Rightarrow> json \<Rightarrow> int \<Rightarrow> int option" where
  "set_time ParseTime j old = (case j of JStr s \<Rightarrow> ParseTime s | JNull \<Rightarrow> Some old | _ \<Rightarrow> None)"

definition set_bool :: "json \<Rightarrow> bool \<Rightarrow> bool option" where
  "set_bool j old = (case j of JBool b \<Rightarrow> Some b | JNull \<Rightarrow> Some old | _ \<Rightarrow> None)"

definition credential_fields :: "string list" where
  "credential_fields = [''id'', ''cluster_id'', ''agent_id'', ''token_sha256'', ''certificate_sha256'',
     ''not_before'', ''expires_at'', ''revoked'']"

definition set_credential_field :: "(string \<Rightarrow> int option) \<Rightarrow> string \<Rightarrow> json \<Rightarrow> Credential \<Rightarrow> Credential option" where
  "set_credential_field ParseTime f v c =
     (if f = ''id'' then map_option (\<lambda>x. c\<lparr>c_ID := x\<rparr>) (set_string v (c_ID c))
      else if f = ''cluster_id'' then map_option (\<lambda>x. c\<lparr>c_ClusterID := x\<rparr>) (set_string v (c_ClusterID c))
      else if f = ''agent_id'' then map_option (\<lambda>x. c\<lparr>c_AgentID := x\<rparr>) (set_string v (c_AgentID c))
      else if f = ''token_sha256'' then map_option (\<lambda>x. c\<lparr>c_TokenSHA256 := x\<rparr>) (set_string v (c_TokenSHA256 c))
      else if f = ''certificate_sha256'' then map_option (\<lambda>x. c\<lparr>c_CertificateSHA256 := x\<rparr>) (set_string v (c_CertificateSHA256 c))
      else if f = ''not_before'' then map_option (\<lambda>x. c\<lparr>c_NotBefore := x\<rparr>) (set_time ParseTime v (c_NotBefore c))
      else if f = ''expires_at'' then map_option (\<lambda>x. c\<lparr>c_ExpiresAt := x\<rparr>) (set_time ParseTime v (c_ExpiresAt c))
      else if f = ''revoked'' then map_option (\<lambda>x. c\<lparr>c_Revoked := x\<rparr>) (set_bool v (c_Revoked c))
      else None)"

definition known_fields :: "string list \<Rightarrow> json \<Rightarrow> bool" where
  "known_fields fs j = (case j of JObj ms \<Rightarrow> list_all (\<lambda>kv. match_field fs (fst kv) \<noteq> None) ms | _ \<Rightarrow> True)"

definition decode_Credential :: "(string \<Rightarrow> int option) \<Rightarrow> json \<Rightarrow> Credential option" where
  "decode_Credential ParseTime j =
     (if known_fields credential_fields j
      then decode_struct credential_fields (set_credential_field ParseTime) zero_Credential j else None)"

text \<open>The slice of a registry; the inner None is the nil slice.\<close>

definition set_credentials :: "(string \<Rightarrow> int option) \<Rightarrow> string \<Rightarrow> json \<Rightarrow> Credential list option
    \<Rightarrow> Credential list option option" where
  "set_credentials ParseTime f v old =
     (if v = JNull then Some None else map_option Some (decode_list (decode_Credential ParseTime) v))"

definition decode_registry :: "(string \<Rightarrow> int option) \<Rightarrow> json \<Rightarrow> Credential list option option" where
  "decode_registry ParseTime j =
     (if known_fields [''credentials''] j
      then decode_struct [''credentials''] (set_credentials ParseTime) None j else None)"

definition credential_digest :: "Credential \<Rightarrow> string \<times> string" where
  "credential_digest c = (if c_TokenSHA256 c = [] then (''certificate:'', c_CertificateSHA256 c) else (''token:'', c_TokenSHA256 c))"

definition valid_digest :: "string \<Rightarrow> bool" where
  "valid_digest digest =
     (case hex_decode digest of None \<Rightarrow> False | Some decoded \<Rightarrow> length decoded = 32 \<and> hex_encode decoded = digest)"

definition valid_credential :: "Credential \<Rightarrow> bool" where
  "valid_credential c \<longleftrightarrow>
     c_ID c \<noteq> [] \<and> c_ClusterID c \<noteq> [] \<and> c_AgentID c \<noteq> [] \<and> TrimSpace (c_ID c) = c_ID c \<and>
     TrimSpace (c_ClusterID c) = c_ClusterID c \<and> TrimSpace (c_AgentID c) = c_AgentID c \<and> c_ExpiresAt c \<noteq> 0 \<and>
     (c_NotBefore c = 0 \<or> c_NotBefore c < c_ExpiresAt c) \<and>
     (c_TokenSHA256 c = []) \<noteq> (c_CertificateSHA256 c = []) \<and> valid_digest (snd (credential_digest c))"

fun check_credentials :: "string list \<Rightarrow> string list \<Rightarrow> Credential list \<Rightarrow> bool" where
  "check_credentials ids digests [] = True"
| "check_credentials ids digests (c # cs) =
     (let (kind, digest) = credential_digest c
      in valid_credential c \<and> c_ID c \<notin> set ids \<and> kind @ digest \<notin> set digests \<and>
         check_credentials (c_ID c # ids) ((kind @ digest) # digests) cs)"

definition store_load :: "(string \<Rightarrow> int option) \<Rightarrow> string option \<Rightarrow> (AuthError, Credential list) result" where
  "store_load ParseTime file = (case file of
     None \<Rightarrow> Inl ErrUnavailable
   | Some data \<Rightarrow>
       if length data > 1048576 then Inl ErrUnavailable
       else (case json_parse data of
           None \<Rightarrow> Inl ErrUnavailable
         | Some j \<Rightarrow> (case decode_registry ParseTime j of
               Some (Some cs) \<Rightarrow> if check_credentials [] [] cs then Inr cs else Inl ErrUnavailable
             | _ \<Rightarrow> Inl ErrUnavailable)))"

record Store =
  st_ParseTime :: "string \<Rightarrow> int option"
  st_sha256 :: "string \<Rightarrow> string"
  st_file :: "string option"
  st_now :: int

definition expected_digest :: "bool \<Rightarrow> Credential \<Rightarrow> string" where
  "expected_digest certificate c = (if certificate then c_CertificateSHA256 c else c_TokenSHA256 c)"

definition usable :: "int \<Rightarrow> bool \<Rightarrow> string \<Rightarrow> Credential \<Rightarrow> bool" where
  "usable now certificate digest c \<longleftrightarrow>
     \<not> (expected_digest certificate c \<noteq> digest \<or> c_Revoked c \<or> now < c_NotBefore c \<or> \<not> now < c_ExpiresAt c)"

definition principal_of :: "Credential \<Rightarrow> Principal" where
  "principal_of c = \<lparr>CredentialID = c_ID c, ClusterID = c_ClusterID c, AgentID = c_AgentID c\<rparr>"

definition authenticate :: "Store \<Rightarrow> string \<Rightarrow> bool \<Rightarrow> (AuthError, Principal) result" where
  "authenticate s digest certificate =
     bind_result (store_load (st_ParseTime s) (st_file s)) (\<lambda>credentials.
       case find (usable (st_now s) certificate digest) credentials of
         Some c \<Rightarrow> Inr (principal_of c)
       | None \<Rightarrow> Inl ErrUnauthenticated)"

definition AuthenticateToken :: "Store \<Rightarrow> string \<Rightarrow> (AuthError, Principal) result" where
  "AuthenticateToken s token =
     (if length token < 32 \<or> length token > 4096 then Inl ErrUnauthenticated
      else authenticate s (hex_encode (st_sha256 s token)) False)"

subsection \<open>TLS\<close>

record Certificate =
  cert_Raw :: string
  cert_NotBefore :: int
  cert_NotAfter :: int

record ConnectionState =
  HandshakeComplete :: bool
  PeerCertificates :: "Certificate option list"
  VerifiedChains :: "Certificate option list list"

definition leads_chain :: "Certificate \<Rightarrow> Certificate option list \<Rightarrow> bool" where
  "leads_chain leaf chain = (case chain of Some c # _ \<Rightarrow> cert_Raw c = cert_Raw leaf | _ \<Rightarrow> False)"

definition AuthenticateTLS :: "Store \<Rightarrow> ConnectionState \<Rightarrow> (AuthError, Principal) result" where
  "AuthenticateTLS s state =
     (if \<not> HandshakeComplete state \<or> PeerCertificates state = [] \<or> VerifiedChains state = []
      then Inl ErrUnauthenticated
      else (case hd (PeerCertificates state) of
          None \<Rightarrow> Inl ErrUnauthenticated
        | Some leaf \<Rightarrow>
            let verified = list_ex (leads_chain leaf) (VerifiedChains state);
                now = st_now s
            in if \<not> verified \<or> now < cert_NotBefore leaf \<or> \<not> now < cert_NotAfter leaf
               then Inl ErrUnauthenticated
               else authenticate s (hex_encode (st_sha256 s (cert_Raw leaf))) True))"

subsection \<open>Core: the HTTP ingest middleware\<close>

record IngestRequest =
  h_IngestToken :: string
  h_Authorization :: string

datatype IngestAnswer = Admit "Principal option" | Refuse nat string

definition agentCredentialFromRequest :: "IngestRequest \<Rightarrow> string" where
  "agentCredentialFromRequest r =
     (let token = TrimSpace (h_IngestToken r)
      in if token \<noteq> [] then token
         else let auth = TrimSpace (h_Authorization r)
              in if length auth > 7 \<and> EqualFold (take 7 auth) ''bearer '' then TrimSpace (drop 7 auth) else [])"

definition RequireAgentIdentity :: "Store \<Rightarrow> IngestRequest \<Rightarrow> IngestAnswer" where
  "RequireAgentIdentity s r =
     (let token = agentCredentialFromRequest r
      in if token = [] then Refuse 401 ''agent_auth_required''
         else (case AuthenticateToken s token of
             Inr p \<Rightarrow> Admit (Some p)
           | Inl e \<Rightarrow> if e = ErrUnavailable then Refuse 503 ''agent_auth_unavailable'' else Refuse 401 ''agent_auth_rejected''))"

definition AgentPrincipal :: "Principal option \<Rightarrow> Principal option" where
  "AgentPrincipal v = (case v of None \<Rightarrow> None
     | Some p \<Rightarrow> if CredentialID p = [] \<or> ClusterID p = [] \<or> AgentID p = [] then None else Some p)"

definition envFlag :: "(string \<Rightarrow> string) \<Rightarrow> string \<Rightarrow> bool" where
  "envFlag env name = (let v = TrimSpace (ToLower (env name)) in v = ''1'' \<or> v = ''true'' \<or> v = ''yes'')"

definition allowUnauthedIngest :: "(string \<Rightarrow> string) \<Rightarrow> bool" where
  "allowUnauthedIngest env = (envFlag env ''FORTUNA_ALLOW_UNAUTHED_INGEST'' \<and> envFlag env ''FORTUNA_DEV_MODE'')"

definition constantTimeEqualBytes :: "string \<Rightarrow> string \<Rightarrow> bool" where
  "constantTimeEqualBytes a b = (if length a \<noteq> length b then False else a = b)"

definition tokenFromIngestRequest :: "IngestRequest \<Rightarrow> string \<Rightarrow> bool" where
  "tokenFromIngestRequest r want =
     (if constantTimeEqualBytes (TrimSpace (h_IngestToken r)) want then True
      else let auth = TrimSpace (h_Authorization r)
           in if HasPrefix (ToLower auth) ''bearer '' then constantTimeEqualBytes (TrimSpace (drop 7 auth)) want
              else False)"

definition RequireIngestToken :: "(string \<Rightarrow> string) \<Rightarrow> string \<Rightarrow> IngestRequest \<Rightarrow> IngestAnswer" where
  "RequireIngestToken env expected0 r =
     (let expected = TrimSpace expected0
      in if expected = [] \<and> allowUnauthedIngest env then Admit None
         else if expected = [] then Refuse 503 ''ingest_token_unconfigured''
         else if tokenFromIngestRequest r expected then Admit None
         else Refuse 401 ''ingest authentication required'')"

definition AgentIngestAuth :: "(string \<Rightarrow> string) \<Rightarrow> (string \<Rightarrow> Store) \<Rightarrow> string \<Rightarrow> string \<Rightarrow> IngestRequest \<Rightarrow> IngestAnswer" where
  "AgentIngestAuth env open_store registryPath legacyToken r =
     (if TrimSpace registryPath \<noteq> [] then RequireAgentIdentity (open_store (TrimSpace registryPath)) r
      else RequireIngestToken env legacyToken r)"

subsection \<open>Agent: the headers of a request\<close>

record AgentRequest =
  req_Path :: "string option"
  req_Headers :: IngestRequest

definition invalidScopedAgentToken :: string where
  "invalidScopedAgentToken = ''invalid''"

definition isScopedHTTPIngestRoute :: "AgentRequest \<Rightarrow> bool" where
  "isScopedHTTPIngestRoute req = (case req_Path req of None \<Rightarrow> False
     | Some path \<Rightarrow> HasPrefix path ''/api/v1/agent/'' \<or>
         (path = ''/api/v2/runtime/events'' \<or> path = ''/api/v2/runtime/coverage''
          \<or> path = ''/api/v2/runtime/producers'' \<or> path = ''/api/v2/runtime/source-health''))"

definition readScopedAgentToken :: "(string \<Rightarrow> string option) \<Rightarrow> string \<Rightarrow> string" where
  "readScopedAgentToken read_file path = (case read_file path of
     None \<Rightarrow> []
   | Some data \<Rightarrow>
       if length data > 8192 then []
       else let tok = TrimSpace data in if length tok < 32 \<or> length tok > 4096 then [] else tok)"

definition set_token :: "string \<Rightarrow> AgentRequest \<Rightarrow> AgentRequest" where
  "set_token tok req = req\<lparr>req_Headers := (req_Headers req)\<lparr>h_IngestToken := tok\<rparr>\<rparr>"

definition ApplyOptionalAuthorization :: "(string \<Rightarrow> string) \<Rightarrow> (string \<Rightarrow> string option) \<Rightarrow> AgentRequest option
    \<Rightarrow> AgentRequest option" where
  "ApplyOptionalAuthorization env read_file req0 = (case req0 of
     None \<Rightarrow> None
   | Some req \<Rightarrow>
       let v = TrimSpace (env ''FORTUNA_CORE_HTTP_AUTHORIZATION'');
           req = (if v \<noteq> [] then req\<lparr>req_Headers := (req_Headers req)\<lparr>h_Authorization := v\<rparr>\<rparr> else req);
           tokenFile = TrimSpace (env ''FORTUNA_AGENT_TOKEN_FILE'')
       in if isScopedHTTPIngestRoute req \<and> tokenFile \<noteq> []
          then let tok = readScopedAgentToken read_file tokenFile
               in Some (if tok \<noteq> [] then set_token tok req else set_token invalidScopedAgentToken req)
          else let tok = TrimSpace (env ''FORTUNA_INGEST_TOKEN'')
               in Some (if tok \<noteq> [] then set_token tok req else req))"

subsection \<open>Lemmas\<close>

definition digest_key :: "Credential \<Rightarrow> string" where
  "digest_key c = fst (credential_digest c) @ snd (credential_digest c)"

lemma check_credentials_Cons:
  "check_credentials ids ds (c # cs) \<longleftrightarrow> valid_credential c \<and> c_ID c \<notin> set ids \<and> digest_key c \<notin> set ds \<and>
     check_credentials (c_ID c # ids) (digest_key c # ds) cs"
  by (simp add: digest_key_def split: prod.split)

declare check_credentials.simps(2) [simp del]

lemma check_credentials_fresh: "check_credentials ids ds cs \<Longrightarrow> c \<in> set cs \<Longrightarrow> digest_key c \<notin> set ds"
  by (induction cs arbitrary: ids ds) (auto simp: check_credentials_Cons, fastforce)

lemma check_credentials_valid: "check_credentials ids ds cs \<Longrightarrow> c \<in> set cs \<Longrightarrow> valid_credential c"
  by (induction cs arbitrary: ids ds) (auto simp: check_credentials_Cons)

lemma check_credentials_unique:
  "check_credentials ids ds cs \<Longrightarrow> c \<in> set cs \<Longrightarrow> d \<in> set cs \<Longrightarrow> digest_key c = digest_key d \<Longrightarrow> c = d"
proof (induction cs arbitrary: ids ds)
  case (Cons e cs)
  have rest: "check_credentials (c_ID e # ids) (digest_key e # ds) cs"
    using Cons.prems(1) by (simp add: check_credentials_Cons)
  have "x \<in> set cs \<Longrightarrow> digest_key x \<noteq> digest_key e" for x
    using check_credentials_fresh [OF rest] by auto
  with Cons.prems(2-4) Cons.IH [OF rest] show ?case by (metis set_ConsD)
qed simp

lemma store_load_check: "store_load pt file = Inr cs \<Longrightarrow> check_credentials [] [] cs"
  by (auto simp: store_load_def split: option.splits if_splits)

lemma store_load_error: "store_load pt file = Inl e \<Longrightarrow> e = ErrUnavailable"
  by (auto simp: store_load_def split: option.splits if_splits)

lemma expected_digest_determines:
  assumes "valid_credential c" "expected_digest cert c = dg" "dg \<noteq> []"
  shows "credential_digest c = (if cert then ''certificate:'' else ''token:'', dg)"
  using assms by (auto simp: valid_credential_def credential_digest_def expected_digest_def split: if_splits)

lemma authenticate_iff:
  assumes "dg \<noteq> []"
  shows "authenticate s dg cert = Inr p \<longleftrightarrow>
    (\<exists>cs c. store_load (st_ParseTime s) (st_file s) = Inr cs \<and> c \<in> set cs \<and> usable (st_now s) cert dg c \<and> p = principal_of c)"
proof
  assume "authenticate s dg cert = Inr p"
  then show "\<exists>cs c. store_load (st_ParseTime s) (st_file s) = Inr cs \<and> c \<in> set cs \<and> usable (st_now s) cert dg c \<and> p = principal_of c"
    by (auto simp: authenticate_def go_result_simps find_Some_iff split: option.splits) (metis nth_mem)
next
  assume "\<exists>cs c. store_load (st_ParseTime s) (st_file s) = Inr cs \<and> c \<in> set cs \<and> usable (st_now s) cert dg c \<and> p = principal_of c"
  then obtain cs c where c: "store_load (st_ParseTime s) (st_file s) = Inr cs" "c \<in> set cs"
    "usable (st_now s) cert dg c" "p = principal_of c" by blast
  then obtain d where d: "find (usable (st_now s) cert dg) cs = Some d"
    by (cases "find (usable (st_now s) cert dg) cs") (auto simp: find_None_iff)
  then have d': "d \<in> set cs" "usable (st_now s) cert dg d" by (auto simp: find_Some_iff)
  note chk = store_load_check [OF c(1)]
  have "credential_digest c = credential_digest d"
    using expected_digest_determines [OF check_credentials_valid [OF chk c(2)] _ assms, of cert]
      expected_digest_determines [OF check_credentials_valid [OF chk d'(1)] _ assms, of cert] c(3) d'(2)
    by (auto simp: usable_def)
  then have "c = d" by (intro check_credentials_unique [OF chk c(2) d'(1)]) (simp add: digest_key_def)
  with c d show "authenticate s dg cert = Inr p" by (simp add: authenticate_def)
qed

lemma authenticated_principal_complete:
  assumes "store_load pt file = Inr cs" "c \<in> set cs"
  shows "AgentPrincipal (Some (principal_of c)) = Some (principal_of c)"
  using check_credentials_valid [OF store_load_check [OF assms(1)] assms(2)]
  by (simp add: AgentPrincipal_def principal_of_def valid_credential_def)

lemma authenticate_Inr_complete:
  assumes "authenticate s dg cert = Inr p"
  shows "AgentPrincipal (Some p) = Some p"
proof -
  from assms obtain cs c where "store_load (st_ParseTime s) (st_file s) = Inr cs" "c \<in> set cs" "p = principal_of c"
    by (auto simp: authenticate_def go_result_simps find_Some_iff split: option.splits) (metis nth_mem)
  then show ?thesis using authenticated_principal_complete by blast
qed

text \<open>
  What the users of an authentication rely on, whatever the credential is: success means that some
  digest is usable in the registry. The principal is then complete and its claims are accepted, and
  a registry that cannot be loaded authenticates nobody.
\<close>

locale registry_authenticator =
  fixes auth :: "Store \<Rightarrow> 'c \<Rightarrow> (AuthError, Principal) result"
  assumes auth_from_registry: "auth s c = Inr p \<Longrightarrow> \<exists>dg cert. authenticate s dg cert = Inr p"
begin

lemma principal_complete: "auth s c = Inr p \<Longrightarrow> AgentPrincipal (Some p) = Some p"
  using auth_from_registry authenticate_Inr_complete by blast

lemma own_claims_accepted: "auth s c = Inr p \<Longrightarrow> CheckClaims p (ClusterID p) (AgentID p) = Inr ()"
  by (drule principal_complete) (auto simp: AgentPrincipal_def CheckClaims_def split: if_splits)

lemma unavailable_registry: "store_load (st_ParseTime s) (st_file s) = Inl e \<Longrightarrow> auth s c \<noteq> Inr p"
  by (auto simp: authenticate_def dest!: auth_from_registry)

end

interpretation token: registry_authenticator AuthenticateToken
  by unfold_locales (auto simp: AuthenticateToken_def split: if_splits)

interpretation tls: registry_authenticator AuthenticateTLS
  by unfold_locales (auto simp: AuthenticateTLS_def Let_def split: if_splits option.splits)

lemma hex_encode_Nil_iff [simp]: "hex_encode bs = [] \<longleftrightarrow> bs = []"
  by (cases bs) (simp_all add: hex_encode_byte_def)

definition quoted :: "string \<Rightarrow> string" where
  "quoted s = [CHR 0x22] @ s @ [CHR 0x22]"

definition registry_text :: "string \<Rightarrow> string" where
  "registry_text digest_field = ''{'' @ quoted ''credentials'' @ '':[{'' @ quoted ''id'' @ '':'' @ quoted ''k1'' @ '',''
     @ quoted ''cluster_id'' @ '':'' @ quoted ''c1'' @ '','' @ quoted ''agent_id'' @ '':'' @ quoted ''a1'' @ '',''
     @ quoted digest_field @ '':'' @ quoted (replicate 64 CHR ''0'') @ '',''
     @ quoted ''expires_at'' @ '':'' @ quoted ''later'' @ ''}]}''"

definition sample_registry :: string where
  "sample_registry = registry_text ''token_sha256''"

definition sample_credential :: Credential where
  "sample_credential = \<lparr>c_ID = ''k1'', c_ClusterID = ''c1'', c_AgentID = ''a1'', c_TokenSHA256 = replicate 64 CHR ''0'',
     c_CertificateSHA256 = [], c_NotBefore = 0, c_ExpiresAt = 100, c_Revoked = False\<rparr>"

definition sample_store :: Store where
  "sample_store = \<lparr>st_ParseTime = (\<lambda>t. Some 100), st_sha256 = (\<lambda>t. replicate 32 CHR 0x00),
     st_file = Some sample_registry, st_now = 50\<rparr>"

subsection \<open>Properties\<close>

text \<open>
  C8. Token authentication is exact: given that SHA-256 yields 32 bytes, a token authenticates as a
  principal exactly when it has 32 to 4096 bytes and the registry, which must load without a
  fault, has a credential with the digest of the token that is not revoked and valid at the
  instant; a digest names one credential, so the result does not depend on the order of the
  registry, and the principal has all three identifiers.
\<close>

theorem AuthenticateToken_exact:
  assumes "length (st_sha256 s token) = 32"
  shows "(AuthenticateToken s token = Inr p \<longleftrightarrow>
      32 \<le> length token \<and> length token \<le> 4096 \<and>
      (\<exists>cs c. store_load (st_ParseTime s) (st_file s) = Inr cs \<and> c \<in> set cs \<and>
         c_TokenSHA256 c = hex_encode (st_sha256 s token) \<and> \<not> c_Revoked c \<and>
         c_NotBefore c \<le> st_now s \<and> st_now s < c_ExpiresAt c \<and> p = principal_of c)) \<and>
    (AuthenticateToken s token = Inr p \<longrightarrow> AgentPrincipal (Some p) = Some p \<and>
      CheckClaims p (ClusterID p) (AgentID p) = Inr ())"
proof -
  have ne: "hex_encode (st_sha256 s token) \<noteq> []" using assms by (cases "st_sha256 s token") auto
  have "AuthenticateToken s token = Inr p \<longrightarrow> AgentPrincipal (Some p) = Some p \<and>
      CheckClaims p (ClusterID p) (AgentID p) = Inr ()"
    using token.principal_complete token.own_claims_accepted by blast
  moreover have "usable (st_now s) False (hex_encode (st_sha256 s token)) c \<longleftrightarrow>
      c_TokenSHA256 c = hex_encode (st_sha256 s token) \<and> \<not> c_Revoked c \<and>
      c_NotBefore c \<le> st_now s \<and> st_now s < c_ExpiresAt c" for c
    by (auto simp: usable_def expected_digest_def)
  ultimately show ?thesis
    using authenticate_iff [OF ne, of s False p]
    by (simp add: AuthenticateToken_def not_less not_le conj_assoc)
qed

theorem AuthenticateToken_exact_witness:
  "AgentPrincipal (Some \<lparr>CredentialID = ''k1'', ClusterID = ''c1'', AgentID = ''a1''\<rparr>) =
     Some \<lparr>CredentialID = ''k1'', ClusterID = ''c1'', AgentID = ''a1''\<rparr>"
proof -
  have "length (st_sha256 sample_store (replicate 40 CHR ''t'')) = 32" by (simp add: sample_store_def)
  moreover have "AuthenticateToken sample_store (replicate 40 CHR ''t'') =
      Inr \<lparr>CredentialID = ''k1'', ClusterID = ''c1'', AgentID = ''a1''\<rparr>"
  proof -
    have "decode_registry (\<lambda>t. Some 100) (the (json_parse sample_registry)) = Some (Some [sample_credential])"
      and "json_parse sample_registry \<noteq> None" and "check_credentials [] [] [sample_credential]"
      and "c_TokenSHA256 sample_credential = hex_encode (replicate 32 CHR 0x00)"
      by code_simp+
    moreover have "length sample_registry \<le> 1048576"
      by (simp add: sample_registry_def registry_text_def quoted_def)
    ultimately have "store_load (st_ParseTime sample_store) (st_file sample_store) = Inr [sample_credential]"
      and "usable 50 False (hex_encode (replicate 32 CHR 0x00)) sample_credential"
      by (auto simp: store_load_def sample_store_def usable_def expected_digest_def sample_credential_def)
    then show ?thesis
      by (simp add: AuthenticateToken_def authenticate_def, simp add: sample_store_def principal_of_def sample_credential_def)
  qed
  ultimately show ?thesis using AuthenticateToken_exact [of sample_store "replicate 40 CHR ''t''"] by blast
qed

text \<open>
  A configured registry is authoritative: with a registry path set, Core admits a request only
  with a complete principal resolved from the registry by the credential the request carries,
  whatever the legacy token and the development switches are; without one, it admits only the
  shared token, or anything at all when no token is set and both development switches are on.
\<close>

lemma AgentIngestAuth_modes:
  "case AgentIngestAuth env open_store registryPath legacyToken r of
     Refuse st code \<Rightarrow> True
   | Admit po \<Rightarrow>
       (if TrimSpace registryPath \<noteq> []
        then \<exists>p. po = Some p \<and> AgentPrincipal po = Some p \<and>
          AuthenticateToken (open_store (TrimSpace registryPath)) (agentCredentialFromRequest r) = Inr p
        else if TrimSpace legacyToken = [] then allowUnauthedIngest env
        else TrimSpace legacyToken = TrimSpace (h_IngestToken r) \<or>
          (\<exists>scheme tok. TrimSpace (h_Authorization r) = scheme @ tok \<and> ToLower scheme = ''bearer '' \<and>
             TrimSpace tok = TrimSpace legacyToken))"
proof (cases "TrimSpace registryPath = []")
  case True
  have "\<exists>scheme tok. a = scheme @ tok \<and> ToLower scheme = ''bearer '' \<and> TrimSpace tok = TrimSpace (drop 7 a)"
    if "HasPrefix (ToLower a) ''bearer ''" for a
  proof -
    have "length ''bearer '' = 7" by simp
    then have "ToLower (take 7 a) = ''bearer ''"
      using that unfolding HasPrefix_def ToLower_def take_map by metis
    then show ?thesis by (metis append_take_drop_id)
  qed
  then have bearer: "HasPrefix (ToLower a) ''bearer '' \<Longrightarrow> TrimSpace (drop 7 a) = t \<Longrightarrow>
      \<exists>scheme tok. a = scheme @ tok \<and> ToLower scheme = ''bearer '' \<and> TrimSpace tok = t" for a t
    by blast
  have eq: "constantTimeEqualBytes a b \<longleftrightarrow> a = b" for a b by (auto simp: constantTimeEqualBytes_def)
  show ?thesis
    using True bearer
    by (simp add: AgentIngestAuth_def RequireIngestToken_def tokenFromIngestRequest_def eq Let_def
        split: IngestAnswer.split)
next
  case False
  then show ?thesis
    by (auto dest: token.principal_complete simp: AgentIngestAuth_def RequireAgentIdentity_def Let_def split: IngestAnswer.splits if_splits sum.splits)
qed

text \<open>
  The agent fails closed against Core's registry mode: once a token file is configured, a
  request on a scoped route carries the token of that file if it is valid, and otherwise a value
  that Core answers with 401 for every registry, so neither the legacy token, a proxy Bearer
  header nor a stale header is ever used as the agent credential.
\<close>

lemma scoped_agent_fails_closed:
  assumes "isScopedHTTPIngestRoute req" and "TrimSpace (env ''FORTUNA_AGENT_TOKEN_FILE'') \<noteq> []"
  shows "\<exists>r. ApplyOptionalAuthorization env read_file (Some req) = Some r \<and>
    (let tok = readScopedAgentToken read_file (TrimSpace (env ''FORTUNA_AGENT_TOKEN_FILE''))
     in if tok = [] then RequireAgentIdentity s (req_Headers r) = Refuse 401 ''agent_auth_rejected''
        else agentCredentialFromRequest (req_Headers r) = tok \<and> 32 \<le> length tok)"
proof -
  have inv: "TrimSpace invalidScopedAgentToken = ''invalid''" by code_simp
  have trim: "TrimSpace (readScopedAgentToken read_file f) = readScopedAgentToken read_file f" for f
    by (simp add: readScopedAgentToken_def Let_def split: option.splits)
  have len: "readScopedAgentToken read_file f \<noteq> [] \<Longrightarrow> 32 \<le> length (readScopedAgentToken read_file f)" for f
    by (auto simp: readScopedAgentToken_def Let_def split: option.splits if_splits)
  have path: "isScopedHTTPIngestRoute (req\<lparr>req_Headers := h\<rparr>)" for h
    using assms(1) by (simp add: isScopedHTTPIngestRoute_def)
  show ?thesis
    using assms path inv trim len
    by (simp add: ApplyOptionalAuthorization_def Let_def set_token_def agentCredentialFromRequest_def
        RequireAgentIdentity_def AuthenticateToken_def)
qed

lemma scoped_agent_fails_closed_witness:
  "RequireAgentIdentity sample_store (req_Headers (the (ApplyOptionalAuthorization (\<lambda>_. ''secret'') (\<lambda>_. None)
     (Some \<lparr>req_Path = Some ''/api/v2/runtime/events'', req_Headers = \<lparr>h_IngestToken = [], h_Authorization = []\<rparr>\<rparr>))))
   = Refuse 401 ''agent_auth_rejected''"
proof -
  let ?req = "\<lparr>req_Path = Some ''/api/v2/runtime/events'', req_Headers = \<lparr>h_IngestToken = [], h_Authorization = []\<rparr>\<rparr>"
  have "isScopedHTTPIngestRoute ?req" by (simp add: isScopedHTTPIngestRoute_def)
  moreover have "TrimSpace ((\<lambda>_. ''secret'') ''FORTUNA_AGENT_TOKEN_FILE'') \<noteq> []" by code_simp
  ultimately show ?thesis
    using scoped_agent_fails_closed [of ?req "\<lambda>_. ''secret''" "\<lambda>_. None" sample_store]
    by (auto simp: readScopedAgentToken_def Let_def)
qed

end
