(* ===== verification/Grpc_Authorization.thy ===== *)
theory Grpc_Authorization
  imports Agent_Identity
begin

section \<open>Scoped gRPC: core/internal/grpc/agent\_identity.go, rpc\_authorization.go\<close>

text \<open>
  The interceptors that authenticate an agent from its verified TLS state and authorize each
  request against the resources of its cluster. The registry can change between two calls, so a
  stream sees a sequence of stores and connection states. Messages are the generated protobuf
  types, of which the interceptors read the fields below; a pointer that may be nil is an
  option. A handler and the wire are parameters. A method that the service does not name is
  \<open>OtherMethod\<close>.
\<close>

subsection \<open>Data\<close>

datatype Code = Unavailable | Unauthenticated | PermissionDenied | HandlerCode nat

record RpcStatus =
  st_code :: Code
  st_message :: string

record SBOMFinding =
  s_AgentId :: string
  s_PodUid :: string
  s_Namespace :: string
  s_PodName :: string
  s_ContainerName :: string
  s_ImageDigest :: string

record CVEFinding =
  v_AgentId :: string
  v_PodUid :: string
  v_Namespace :: string
  v_PodName :: string
  v_ContainerName :: string
  v_ImageDigest :: string

datatype Message =
  RegisterAgentRequest "string option"
| PingRequest "string option"
| HeartbeatRequest "string option"
| SBOMMessage "SBOMFinding option"
| CVEMessage "CVEFinding option"
| CombinedMessage "(SBOMFinding option \<times> CVEFinding option) option"
| OtherMessage

datatype Method = RegisterAgent | Ping | Heartbeat | SendSBOMFinding | SendCVEFinding | SendCombinedFinding
  | BatchSendSBOMFindings | OtherMethod string

record AgentPod =
  ap_UID :: string
  ap_ClusterID :: string
  ap_Namespace :: string
  ap_Name :: string
  ap_Deleted :: bool

record AgentDb =
  db_Pods :: "AgentPod list"
  db_Agents :: "(string \<times> string) list"
  db_Fails :: bool

datatype AuthInfo = NoAuthInfo | OtherAuthInfo | NilTLSInfo | TLSInfo ConnectionState

record RpcContext =
  rc_peer :: "AuthInfo option"
  rc_principal :: "Principal option"
  rc_metadata :: "string \<Rightarrow> string list"

subsection \<open>Authentication\<close>

definition grpcAgentPrincipalFromContext :: "RpcContext \<Rightarrow> Principal option" where
  "grpcAgentPrincipalFromContext ctx = (case rc_principal ctx of
     None \<Rightarrow> None
   | Some p \<Rightarrow> if CredentialID p = [] \<or> ClusterID p = [] \<or> AgentID p = [] then None else Some p)"

definition grpcAgentAuthError :: "AuthError \<Rightarrow> RpcStatus" where
  "grpcAgentAuthError err =
     (if err = ErrUnavailable then \<lparr>st_code = Unavailable, st_message = ''agent credential registry unavailable''\<rparr>
      else \<lparr>st_code = Unauthenticated, st_message = ''agent credential rejected''\<rparr>)"

definition authenticateGRPCAgent :: "RpcContext \<Rightarrow> Store \<Rightarrow> (RpcStatus, Principal) result" where
  "authenticateGRPCAgent ctx store = (case rc_peer ctx of
     Some (TLSInfo state) \<Rightarrow>
       (case AuthenticateTLS store state of
          Inl err \<Rightarrow> Inl (grpcAgentAuthError err)
        | Inr prin \<Rightarrow> Inr prin)
   | _ \<Rightarrow> Inl (grpcAgentAuthError ErrUnauthenticated))"

definition grpcAgentUnaryAuthInterceptor :: "Store \<Rightarrow> RpcContext \<Rightarrow> (RpcContext \<Rightarrow> (RpcStatus, 'r) result)
    \<Rightarrow> (RpcStatus, 'r) result" where
  "grpcAgentUnaryAuthInterceptor store ctx handler =
     bind_result (authenticateGRPCAgent ctx store) (\<lambda>prin. handler (ctx\<lparr>rc_principal := Some prin\<rparr>))"

definition identity_changed :: RpcStatus where
  "identity_changed = \<lparr>st_code = Unauthenticated, st_message = ''agent credential identity changed during stream''\<rparr>"

text \<open>\<open>RecvMsg\<close> of the authenticated stream: the registry before and after the blocking receive, and
  what the wire delivers.\<close>

definition AuthStream_RecvMsg :: "RpcContext \<Rightarrow> Principal \<Rightarrow> Store \<Rightarrow> Store \<Rightarrow> (RpcStatus, 'm) result
    \<Rightarrow> (RpcStatus, 'm) result" where
  "AuthStream_RecvMsg ctx streamPrincipal store_before store_after wire =
     bind_result (authenticateGRPCAgent ctx store_before) (\<lambda>prin.
       if prin \<noteq> streamPrincipal then Inl identity_changed
       else bind_result wire (\<lambda>m.
         bind_result (authenticateGRPCAgent ctx store_after) (\<lambda>current.
           if current \<noteq> streamPrincipal then Inl identity_changed else Inr m)))"

subsection \<open>Authorization\<close>

definition scopedGRPCPermissionDenied :: RpcStatus where
  "scopedGRPCPermissionDenied = \<lparr>st_code = PermissionDenied, st_message = ''agent resource scope mismatch''\<rparr>"

definition scopedGRPCUnavailable :: RpcStatus where
  "scopedGRPCUnavailable = \<lparr>st_code = Unavailable, st_message = ''agent ownership state unavailable''\<rparr>"

definition trustedScopedGRPCContext :: "RpcContext \<Rightarrow> Principal \<Rightarrow> (RpcStatus, RpcContext) result" where
  "trustedScopedGRPCContext ctx prin =
     (let md = rc_metadata ctx
      in if list_ex (\<lambda>claimed. claimed \<noteq> [] \<and> claimed \<noteq> ClusterID prin) (md ''x-cluster-id'')
         then Inl scopedGRPCPermissionDenied
         else Inr (ctx\<lparr>rc_metadata := md(''x-cluster-id'' := [ClusterID prin])\<rparr>))"

definition authorizeScopedGRPCAgentClaim :: "Principal \<Rightarrow> string \<Rightarrow> (RpcStatus, unit) result" where
  "authorizeScopedGRPCAgentClaim prin agentID =
     (case CheckClaims prin (ClusterID prin) agentID of
        Inl _ \<Rightarrow> Inl scopedGRPCPermissionDenied | Inr _ \<Rightarrow> Inr ())"

definition authorizeScopedGRPCPod :: "AgentDb option \<Rightarrow> Principal \<Rightarrow> string \<Rightarrow> string \<Rightarrow> string \<Rightarrow> (RpcStatus, unit) result" where
  "authorizeScopedGRPCPod db prin podUID namespace podName = (case db of
     None \<Rightarrow> Inl scopedGRPCUnavailable
   | Some d \<Rightarrow>
       if TrimSpace podUID = [] then Inl scopedGRPCPermissionDenied
       else if db_Fails d then Inl scopedGRPCUnavailable
       else (case find (\<lambda>p. ap_UID p = podUID \<and> ap_ClusterID p = ClusterID prin \<and> \<not> ap_Deleted p) (db_Pods d) of
           None \<Rightarrow> Inl scopedGRPCPermissionDenied
         | Some pod \<Rightarrow>
             if namespace \<noteq> [] \<and> namespace \<noteq> ap_Namespace pod then Inl scopedGRPCPermissionDenied
             else if podName \<noteq> [] \<and> podName \<noteq> ap_Name pod then Inl scopedGRPCPermissionDenied
             else Inr ()))"

definition authorizeScopedGRPCAgentRecord :: "AgentDb option \<Rightarrow> Principal \<Rightarrow> (RpcStatus, unit) result" where
  "authorizeScopedGRPCAgentRecord db prin = (case db of
     None \<Rightarrow> Inl scopedGRPCUnavailable
   | Some d \<Rightarrow> if db_Fails d then Inl scopedGRPCUnavailable else Inr ())"

definition bindScopedGRPCAgentRecord :: "AgentDb option \<Rightarrow> Principal \<Rightarrow> (RpcStatus, unit) result" where
  "bindScopedGRPCAgentRecord db prin = (case db of
     None \<Rightarrow> Inl scopedGRPCUnavailable
   | Some d \<Rightarrow> if db_Fails d then Inl scopedGRPCUnavailable
       else if (ClusterID prin, AgentID prin) \<notin> set (db_Agents d) then Inl scopedGRPCPermissionDenied
       else Inr ())"

definition authorizeScopedGRPCSBOM :: "AgentDb option \<Rightarrow> Principal \<Rightarrow> SBOMFinding option \<Rightarrow> (RpcStatus, unit) result" where
  "authorizeScopedGRPCSBOM db prin req = (case req of
     None \<Rightarrow> Inl scopedGRPCPermissionDenied
   | Some r \<Rightarrow> bind_result (authorizeScopedGRPCAgentClaim prin (s_AgentId r)) (\<lambda>_.
       authorizeScopedGRPCPod db prin (s_PodUid r) (s_Namespace r) (s_PodName r)))"

definition authorizeScopedGRPCCVE :: "AgentDb option \<Rightarrow> Principal \<Rightarrow> CVEFinding option \<Rightarrow> (RpcStatus, unit) result" where
  "authorizeScopedGRPCCVE db prin req = (case req of
     None \<Rightarrow> Inl scopedGRPCPermissionDenied
   | Some r \<Rightarrow> bind_result (authorizeScopedGRPCAgentClaim prin (v_AgentId r)) (\<lambda>_.
       authorizeScopedGRPCPod db prin (v_PodUid r) (v_Namespace r) (v_PodName r)))"

definition authorizeScopedGRPCCombined :: "AgentDb option \<Rightarrow> Principal
    \<Rightarrow> (SBOMFinding option \<times> CVEFinding option) option \<Rightarrow> (RpcStatus, unit) result" where
  "authorizeScopedGRPCCombined db prin req = (case req of
     None \<Rightarrow> Inl scopedGRPCPermissionDenied
   | Some (None, _) \<Rightarrow> Inl scopedGRPCPermissionDenied
   | Some (Some sb, cve) \<Rightarrow> bind_result (authorizeScopedGRPCSBOM db prin (Some sb)) (\<lambda>_.
       case cve of
         None \<Rightarrow> Inr ()
       | Some cv \<Rightarrow> bind_result (authorizeScopedGRPCCVE db prin (Some cv)) (\<lambda>_.
           if v_PodUid cv \<noteq> s_PodUid sb \<or> (v_Namespace cv \<noteq> [] \<and> v_Namespace cv \<noteq> s_Namespace sb) \<or>
              TrimSpace (v_ContainerName cv) = [] \<or> TrimSpace (s_ContainerName sb) = [] \<or>
              v_ContainerName cv \<noteq> s_ContainerName sb \<or> TrimSpace (v_ImageDigest cv) = [] \<or>
              TrimSpace (s_ImageDigest sb) = [] \<or> v_ImageDigest cv \<noteq> s_ImageDigest sb
           then Inl scopedGRPCPermissionDenied else Inr ())))"

definition authorize_agent_call :: "AgentDb option \<Rightarrow> Principal \<Rightarrow> string option \<Rightarrow> (RpcStatus, unit) result" where
  "authorize_agent_call db prin req = (case req of
     None \<Rightarrow> Inl scopedGRPCPermissionDenied
   | Some agentId \<Rightarrow> bind_result (authorizeScopedGRPCAgentClaim prin agentId) (\<lambda>_.
       authorizeScopedGRPCAgentRecord db prin))"

definition authorize_method :: "AgentDb option \<Rightarrow> Principal \<Rightarrow> Method \<Rightarrow> Message \<Rightarrow> (RpcStatus, unit) result" where
  "authorize_method db prin fullMethod req = (case fullMethod of
     RegisterAgent \<Rightarrow> (case req of RegisterAgentRequest r \<Rightarrow> authorize_agent_call db prin r | _ \<Rightarrow> Inl scopedGRPCPermissionDenied)
   | Ping \<Rightarrow> (case req of PingRequest r \<Rightarrow> authorize_agent_call db prin r | _ \<Rightarrow> Inl scopedGRPCPermissionDenied)
   | Heartbeat \<Rightarrow> (case req of HeartbeatRequest r \<Rightarrow> authorize_agent_call db prin r | _ \<Rightarrow> Inl scopedGRPCPermissionDenied)
   | SendSBOMFinding \<Rightarrow> (case req of SBOMMessage r \<Rightarrow> authorizeScopedGRPCSBOM db prin r | _ \<Rightarrow> Inl scopedGRPCPermissionDenied)
   | SendCVEFinding \<Rightarrow> (case req of CVEMessage r \<Rightarrow> authorizeScopedGRPCCVE db prin r | _ \<Rightarrow> Inl scopedGRPCPermissionDenied)
   | SendCombinedFinding \<Rightarrow> (case req of CombinedMessage r \<Rightarrow> authorizeScopedGRPCCombined db prin r | _ \<Rightarrow> Inl scopedGRPCPermissionDenied)
   | _ \<Rightarrow> Inl \<lparr>st_code = PermissionDenied, st_message = ''scoped gRPC method authorization missing''\<rparr>)"

definition authorizeScopedGRPCUnaryRequest :: "RpcContext \<Rightarrow> AgentDb option \<Rightarrow> Method \<Rightarrow> Message
    \<Rightarrow> (RpcStatus, RpcContext \<times> Principal) result" where
  "authorizeScopedGRPCUnaryRequest ctx db fullMethod req = (case grpcAgentPrincipalFromContext ctx of
     None \<Rightarrow> Inl \<lparr>st_code = Unauthenticated, st_message = ''trusted agent principal missing''\<rparr>
   | Some prin \<Rightarrow>
       bind_result (trustedScopedGRPCContext ctx prin) (\<lambda>trustedCtx.
       bind_result (authorize_method db prin fullMethod req) (\<lambda>_. Inr (trustedCtx, prin))))"

text \<open>The response of a registration carries a cluster, which the interceptor overwrites.\<close>

datatype Reply = RegisterAgentResponse (reply_cluster: string) | OtherReply

definition grpcAgentUnaryAuthorizationInterceptor :: "AgentDb option \<Rightarrow> RpcContext \<Rightarrow> Method \<Rightarrow> Message
    \<Rightarrow> (RpcContext \<Rightarrow> (RpcStatus, Reply) result \<times> AgentDb option) \<Rightarrow> (RpcStatus, Reply) result \<times> AgentDb option" where
  "grpcAgentUnaryAuthorizationInterceptor db ctx fullMethod req handler =
     (case authorizeScopedGRPCUnaryRequest ctx db fullMethod req of
        Inl e \<Rightarrow> (Inl e, db)
      | Inr (trustedCtx, prin) \<Rightarrow>
          (case handler trustedCtx of
             (Inl e, db') \<Rightarrow> (Inl e, db')
           | (Inr resp, db') \<Rightarrow>
               (bind_result (if fullMethod = RegisterAgent \<or> fullMethod = Ping then bindScopedGRPCAgentRecord db' prin else Inr ())
                  (\<lambda>_. Inr (if fullMethod = RegisterAgent
                             then (case resp of RegisterAgentResponse _ \<Rightarrow> RegisterAgentResponse (ClusterID prin) | r \<Rightarrow> r)
                             else resp)), db')))"

definition AuthorizationStream_RecvMsg :: "AgentDb option \<Rightarrow> Principal \<Rightarrow> (RpcStatus, Message) result \<Rightarrow> (RpcStatus, Message) result" where
  "AuthorizationStream_RecvMsg db prin inner =
     bind_result inner (\<lambda>m. case m of
       SBOMMessage req \<Rightarrow> bind_result (authorizeScopedGRPCSBOM db prin req) (\<lambda>_. Inr m)
     | _ \<Rightarrow> Inl \<lparr>st_code = PermissionDenied, st_message = ''scoped gRPC stream message authorization missing''\<rparr>)"

definition grpcAgentStreamAuthorizationInterceptor :: "RpcContext \<Rightarrow> Method \<Rightarrow> (RpcStatus, Principal \<times> RpcContext) result" where
  "grpcAgentStreamAuthorizationInterceptor ctx fullMethod =
     (if fullMethod \<noteq> BatchSendSBOMFindings
      then Inl \<lparr>st_code = PermissionDenied, st_message = ''scoped gRPC stream method authorization missing''\<rparr>
      else (case grpcAgentPrincipalFromContext ctx of
          None \<Rightarrow> Inl \<lparr>st_code = Unauthenticated, st_message = ''trusted agent principal missing''\<rparr>
        | Some prin \<Rightarrow> bind_result (trustedScopedGRPCContext ctx prin) (\<lambda>t. Inr (prin, t))))"

subsection \<open>What a request names\<close>

text \<open>The agents a message claims to come from, and the pods it reports on.\<close>

fun named_agents :: "Message \<Rightarrow> string list" where
  "named_agents (RegisterAgentRequest (Some a)) = [a]"
| "named_agents (PingRequest (Some a)) = [a]"
| "named_agents (HeartbeatRequest (Some a)) = [a]"
| "named_agents (SBOMMessage (Some r)) = [s_AgentId r]"
| "named_agents (CVEMessage (Some r)) = [v_AgentId r]"
| "named_agents (CombinedMessage (Some (Some sb, Some cv))) = [s_AgentId sb, v_AgentId cv]"
| "named_agents (CombinedMessage (Some (Some sb, None))) = [s_AgentId sb]"
| "named_agents _ = []"

fun named_pods :: "Message \<Rightarrow> (string \<times> string \<times> string) list" where
  "named_pods (SBOMMessage (Some r)) = [(s_PodUid r, s_Namespace r, s_PodName r)]"
| "named_pods (CVEMessage (Some r)) = [(v_PodUid r, v_Namespace r, v_PodName r)]"
| "named_pods (CombinedMessage (Some (Some sb, Some cv))) =
     [(s_PodUid sb, s_Namespace sb, s_PodName sb), (v_PodUid cv, v_Namespace cv, v_PodName cv)]"
| "named_pods (CombinedMessage (Some (Some sb, None))) = [(s_PodUid sb, s_Namespace sb, s_PodName sb)]"
| "named_pods _ = []"

text \<open>A live pod row of a cluster that agrees with the namespace and the name, where given.\<close>

definition owns_pod :: "AgentDb \<Rightarrow> string \<Rightarrow> string \<times> string \<times> string \<Rightarrow> bool" where
  "owns_pod d cluster pod = (case pod of (uid, ns, name) \<Rightarrow>
     list_ex (\<lambda>q. ap_UID q = uid \<and> ap_ClusterID q = cluster \<and> \<not> ap_Deleted q \<and>
       (ns = [] \<or> ns = ap_Namespace q) \<and> (name = [] \<or> name = ap_Name q)) (db_Pods d))"

definition confined :: "AgentDb option \<Rightarrow> Principal \<Rightarrow> Message \<Rightarrow> bool" where
  "confined db p m \<longleftrightarrow> (\<exists>d. db = Some d \<and> \<not> db_Fails d \<and>
     list_all (\<lambda>a. a = AgentID p) (named_agents m) \<and> list_all (owns_pod d (ClusterID p)) (named_pods m))"

subsection \<open>Lemmas\<close>

lemma claim_Inr: "authorizeScopedGRPCAgentClaim p a = Inr u \<Longrightarrow> a = AgentID p"
  by (auto simp: authorizeScopedGRPCAgentClaim_def CheckClaims_def split: if_splits)

lemma pod_Inr:
  "authorizeScopedGRPCPod db p uid ns name = Inr u \<Longrightarrow>
     \<exists>d. db = Some d \<and> \<not> db_Fails d \<and> owns_pod d (ClusterID p) (uid, ns, name)"
  by (auto simp: authorizeScopedGRPCPod_def owns_pod_def list_ex_iff find_Some_iff split: option.splits if_splits)

lemma record_Inr: "authorize_agent_call db p r = Inr u \<Longrightarrow> \<exists>d. db = Some d \<and> \<not> db_Fails d \<and> r = Some (AgentID p)"
  by (auto simp: authorize_agent_call_def authorizeScopedGRPCAgentRecord_def go_result_simps
      split: option.splits if_splits dest: claim_Inr)

lemma sbom_Inr: "authorizeScopedGRPCSBOM db p r = Inr u \<Longrightarrow> confined db p (SBOMMessage r) \<and> r \<noteq> None"
  by (auto simp: authorizeScopedGRPCSBOM_def confined_def go_result_simps split: option.splits dest: claim_Inr dest!: pod_Inr)

lemma cve_Inr: "authorizeScopedGRPCCVE db p r = Inr u \<Longrightarrow> confined db p (CVEMessage r)"
  by (auto simp: authorizeScopedGRPCCVE_def confined_def go_result_simps split: option.splits dest: claim_Inr dest!: pod_Inr)

lemma combined_Inr:
  assumes "authorizeScopedGRPCCombined db p r = Inr u"
  obtains (one) sb where "r = Some (Some sb, None)" "confined db p (SBOMMessage (Some sb))"
  | (both) sb cv where "r = Some (Some sb, Some cv)" "confined db p (SBOMMessage (Some sb))" "confined db p (CVEMessage (Some cv))"
      "v_PodUid cv = s_PodUid sb" "v_ContainerName cv = s_ContainerName sb" "v_ImageDigest cv = s_ImageDigest sb"
      "TrimSpace (s_ImageDigest sb) \<noteq> []"
proof (cases r)
  case None
  with assms show thesis by (simp add: authorizeScopedGRPCCombined_def)
next
  case (Some pr)
  then obtain sbo cve where pr: "r = Some (sbo, cve)" by (cases pr) auto
  with assms obtain sb where sb: "sbo = Some sb" "authorizeScopedGRPCSBOM db p (Some sb) = Inr ()"
    by (cases sbo) (auto simp: authorizeScopedGRPCCombined_def go_result_simps)
  show thesis
  proof (cases cve)
    case None
    with one pr sb sbom_Inr show thesis by blast
  next
    case (Some cv)
    with assms pr sb have "authorizeScopedGRPCCVE db p (Some cv) = Inr ()"
      "v_PodUid cv = s_PodUid sb" "v_ContainerName cv = s_ContainerName sb" "v_ImageDigest cv = s_ImageDigest sb"
      "TrimSpace (s_ImageDigest sb) \<noteq> []"
      by (auto simp: authorizeScopedGRPCCombined_def go_result_simps split: if_splits)
    with both pr sb Some sbom_Inr cve_Inr show thesis by blast
  qed
qed

lemma authorize_method_confined:
  assumes "authorize_method db p fullMethod req = Inr u"
  shows "confined db p req"
proof -
  have agent: "authorize_agent_call db p r = Inr u \<Longrightarrow> confined db p (RegisterAgentRequest r) \<and> confined db p (PingRequest r)
      \<and> confined db p (HeartbeatRequest r)" for r
    by (auto simp: confined_def dest!: record_Inr)
  have comb: "authorizeScopedGRPCCombined db p r = Inr u \<Longrightarrow> confined db p (CombinedMessage r)" for r
    by (erule combined_Inr) (auto simp: confined_def)
  show ?thesis
    using assms agent comb sbom_Inr cve_Inr
    by (cases fullMethod; cases req) (auto simp: authorize_method_def)
qed

lemma tls_Inr:
  assumes "authenticateGRPCAgent ctx s = Inr p"
  obtains st leaf where "rc_peer ctx = Some (TLSInfo st)" "HandshakeComplete st" "hd (PeerCertificates st) = Some leaf"
    "list_ex (leads_chain leaf) (VerifiedChains st)" "cert_NotBefore leaf \<le> st_now s" "st_now s < cert_NotAfter leaf"
    "authenticate s (hex_encode (st_sha256 s (cert_Raw leaf))) True = Inr p"
  using assms
  by (fastforce simp: authenticateGRPCAgent_def AuthenticateTLS_def Let_def not_less
      split: option.splits AuthInfo.splits sum.splits if_splits)

lemma authenticateGRPCAgent_complete:
  "authenticateGRPCAgent ctx s = Inr p \<Longrightarrow> AgentPrincipal (Some p) = Some p"
  by (auto simp: authenticateGRPCAgent_def dest: tls.principal_complete split: option.splits AuthInfo.splits sum.splits)

definition sample_principal :: Principal where
  "sample_principal = \<lparr>CredentialID = ''k'', ClusterID = ''c1'', AgentID = ''a1''\<rparr>"

definition sample_rpc :: RpcContext where
  "sample_rpc = \<lparr>rc_peer = None, rc_principal = Some sample_principal, rc_metadata = (\<lambda>_. [])\<rparr>"

definition sample_agent_db :: AgentDb where
  "sample_agent_db = \<lparr>db_Pods = [\<lparr>ap_UID = ''u1'', ap_ClusterID = ''c1'', ap_Namespace = ''ns'', ap_Name = ''web'', ap_Deleted = False\<rparr>],
     db_Agents = [(''c1'', ''a1'')], db_Fails = False\<rparr>"

definition tls_credential :: Credential where
  "tls_credential = sample_credential\<lparr>c_TokenSHA256 := [], c_CertificateSHA256 := replicate 64 CHR ''0''\<rparr>"

definition tls_store :: Store where
  "tls_store = sample_store\<lparr>st_file := Some (registry_text ''certificate_sha256'')\<rparr>"

definition leaf_certificate :: Certificate where
  "leaf_certificate = \<lparr>cert_Raw = ''der'', cert_NotBefore = 0, cert_NotAfter = 99\<rparr>"

definition tls_rpc :: RpcContext where
  "tls_rpc = \<lparr>rc_peer = Some (TLSInfo \<lparr>HandshakeComplete = True, PeerCertificates = [Some leaf_certificate],
       VerifiedChains = [[Some leaf_certificate]]\<rparr>), rc_principal = None, rc_metadata = (\<lambda>_. [])\<rparr>"

definition sample_sbom :: SBOMFinding where
  "sample_sbom = \<lparr>s_AgentId = ''a1'', s_PodUid = ''u1'', s_Namespace = ''ns'', s_PodName = [], s_ContainerName = ''c'', s_ImageDigest = ''d''\<rparr>"

subsection \<open>Properties\<close>

text \<open>
  A unary call passes authorization only inside the scope of its principal: the context holds
  a complete principal, the database is available, every agent the message names is that
  principal's agent, every pod it names is a live pod of the principal's cluster that agrees with
  the given namespace and name, and the cluster metadata the handler sees is that cluster and
  nothing else. A combined message with both parts names one pod, container and image.
\<close>

lemma unary_authorization_confines:
  assumes "authorizeScopedGRPCUnaryRequest ctx db fullMethod req = Inr (ctx', p)"
  shows "rc_principal ctx = Some p \<and> AgentPrincipal (Some p) = Some p \<and> confined db p req \<and>
    rc_metadata ctx' ''x-cluster-id'' = [ClusterID p] \<and>
    (case req of CombinedMessage (Some (Some sb, Some cv)) \<Rightarrow>
       v_PodUid cv = s_PodUid sb \<and> v_ContainerName cv = s_ContainerName sb \<and>
       v_ImageDigest cv = s_ImageDigest sb \<and> TrimSpace (s_ImageDigest sb) \<noteq> []
     | _ \<Rightarrow> True)"
proof -
  from assms have p: "rc_principal ctx = Some p" "AgentPrincipal (Some p) = Some p"
    and t: "trustedScopedGRPCContext ctx p = Inr ctx'" and m: "authorize_method db p fullMethod req = Inr ()"
    by (auto simp: authorizeScopedGRPCUnaryRequest_def grpcAgentPrincipalFromContext_def AgentPrincipal_def
        go_result_simps split: option.splits if_splits)
  have "case req of CombinedMessage (Some (Some sb, Some cv)) \<Rightarrow>
       v_PodUid cv = s_PodUid sb \<and> v_ContainerName cv = s_ContainerName sb \<and>
       v_ImageDigest cv = s_ImageDigest sb \<and> TrimSpace (s_ImageDigest sb) \<noteq> []
     | _ \<Rightarrow> True"
  proof (cases req)
    case (CombinedMessage r)
    with m have "authorizeScopedGRPCCombined db p r = Inr ()" by (cases fullMethod) (auto simp: authorize_method_def)
    then show ?thesis by (cases rule: combined_Inr) (auto simp: CombinedMessage)
  qed auto
  with p t authorize_method_confined [OF m] show ?thesis
    by (auto simp: trustedScopedGRPCContext_def Let_def split: if_splits)
qed

lemma unary_authorization_confines_witness:
  "confined (Some sample_agent_db) sample_principal (SBOMMessage (Some sample_sbom))"
proof -
  have "is_ok (authorize_method (Some sample_agent_db) sample_principal SendSBOMFinding (SBOMMessage (Some sample_sbom)))"
    by code_simp
  then have "authorizeScopedGRPCUnaryRequest sample_rpc (Some sample_agent_db) SendSBOMFinding (SBOMMessage (Some sample_sbom))
      = Inr (sample_rpc\<lparr>rc_metadata := (\<lambda>_. [])(''x-cluster-id'' := [''c1''])\<rparr>, sample_principal)"
    by (auto simp: is_ok_iff authorizeScopedGRPCUnaryRequest_def grpcAgentPrincipalFromContext_def sample_rpc_def
        sample_principal_def trustedScopedGRPCContext_def)
  from unary_authorization_confines [OF this] show ?thesis by blast
qed

text \<open>
  The authorization interceptor runs the handler only for an authorized call: on a refusal the
  database is untouched whatever the handler would do; and a registration that succeeds leaves the
  agent's own record in the database and answers with the cluster of the principal.
\<close>

lemma unary_interceptor_guards_handler:
  "(\<not> is_ok (authorizeScopedGRPCUnaryRequest ctx db fullMethod req) \<longrightarrow>
      snd (grpcAgentUnaryAuthorizationInterceptor db ctx fullMethod req handler) = db \<and>
      \<not> is_ok (fst (grpcAgentUnaryAuthorizationInterceptor db ctx fullMethod req handler))) \<and>
   (\<forall>rep db'. grpcAgentUnaryAuthorizationInterceptor db ctx RegisterAgent req handler = (Inr rep, db') \<longrightarrow>
      (\<exists>d p. db' = Some d \<and> rc_principal ctx = Some p \<and> (ClusterID p, AgentID p) \<in> set (db_Agents d) \<and>
         (case rep of RegisterAgentResponse cl \<Rightarrow> cl = ClusterID p | OtherReply \<Rightarrow> True)))"
proof (intro conjI allI impI)
  assume "\<not> is_ok (authorizeScopedGRPCUnaryRequest ctx db fullMethod req)"
  then obtain e where "authorizeScopedGRPCUnaryRequest ctx db fullMethod req = Inl e"
    by (cases "authorizeScopedGRPCUnaryRequest ctx db fullMethod req") auto
  then show "snd (grpcAgentUnaryAuthorizationInterceptor db ctx fullMethod req handler) = db"
    "\<not> is_ok (fst (grpcAgentUnaryAuthorizationInterceptor db ctx fullMethod req handler))"
    by (simp_all add: grpcAgentUnaryAuthorizationInterceptor_def)
next
  fix rep db'
  assume run: "grpcAgentUnaryAuthorizationInterceptor db ctx RegisterAgent req handler = (Inr rep, db')"
  obtain t p where auth: "authorizeScopedGRPCUnaryRequest ctx db RegisterAgent req = Inr (t, p)"
    using run by (cases "authorizeScopedGRPCUnaryRequest ctx db RegisterAgent req")
      (auto simp: grpcAgentUnaryAuthorizationInterceptor_def)
  then have p: "rc_principal ctx = Some p"
    by (auto simp: authorizeScopedGRPCUnaryRequest_def grpcAgentPrincipalFromContext_def go_result_simps
        split: option.splits if_splits)
  obtain res db1 where h: "handler t = (res, db1)" by fastforce
  with run auth obtain resp where "res = Inr resp" by (cases res) (auto simp: grpcAgentUnaryAuthorizationInterceptor_def)
  with run auth h have bound: "bindScopedGRPCAgentRecord db' p = Inr ()"
    and rep: "rep = (case resp of RegisterAgentResponse _ \<Rightarrow> RegisterAgentResponse (ClusterID p) | r \<Rightarrow> r)"
    by (auto simp: grpcAgentUnaryAuthorizationInterceptor_def go_result_simps)
  from bound show "\<exists>d p. db' = Some d \<and> rc_principal ctx = Some p \<and> (ClusterID p, AgentID p) \<in> set (db_Agents d) \<and>
         (case rep of RegisterAgentResponse cl \<Rightarrow> cl = ClusterID p | OtherReply \<Rightarrow> True)"
    using p rep by (auto simp: bindScopedGRPCAgentRecord_def split: option.splits if_splits Reply.splits)
qed

lemma unary_interceptor_guards_handler_witness:
  "snd (grpcAgentUnaryAuthorizationInterceptor None sample_rpc (OtherMethod ''x'') OtherMessage (\<lambda>_. (Inr OtherReply, Some sample_agent_db))) = None"
proof -
  have "\<not> is_ok (authorizeScopedGRPCUnaryRequest sample_rpc None (OtherMethod ''x'') OtherMessage)"
    by (auto simp: is_ok_iff authorizeScopedGRPCUnaryRequest_def grpcAgentPrincipalFromContext_def sample_rpc_def
        sample_principal_def trustedScopedGRPCContext_def authorize_method_def)
  then show ?thesis
    using unary_interceptor_guards_handler [of sample_rpc None "OtherMethod ''x''" OtherMessage] by blast
qed

text \<open>
  Every message a scoped stream hands to its handler was received under a live credential: both
  before and after the blocking receive the connection authenticates, with the registry of that
  moment, as the principal of the stream, and the message is an SBOM finding confined to it. So a
  revocation or an expiry during the receive withholds the message.
\<close>

lemma stream_message_authenticated:
  assumes "AuthorizationStream_RecvMsg db p (AuthStream_RecvMsg ctx p before after wire) = Inr m"
  shows "authenticateGRPCAgent ctx before = Inr p \<and> authenticateGRPCAgent ctx after = Inr p \<and>
    wire = Inr m \<and> confined db p m \<and> (\<exists>f. m = SBOMMessage (Some f)) \<and>
    (\<exists>cs c. store_load (st_ParseTime after) (st_file after) = Inr cs \<and> c \<in> set cs \<and> \<not> c_Revoked c \<and>
       st_now after < c_ExpiresAt c \<and> p = principal_of c)"
proof -
  from assms obtain m0 where r: "AuthStream_RecvMsg ctx p before after wire = Inr m0"
    "AuthorizationStream_RecvMsg db p (Inr m0) = Inr m"
    by (auto simp: AuthorizationStream_RecvMsg_def go_result_simps)
  then have "m0 = m" and sb: "confined db p m" "\<exists>f. m = SBOMMessage (Some f)"
    by (auto simp: AuthorizationStream_RecvMsg_def go_result_simps split: Message.splits dest!: sbom_Inr)
  moreover have auth: "authenticateGRPCAgent ctx before = Inr p" "authenticateGRPCAgent ctx after = Inr p" "wire = Inr m0"
    using r(1) by (auto simp: AuthStream_RecvMsg_def go_result_simps split: if_splits)
  moreover from auth(2) have "\<exists>cs c. store_load (st_ParseTime after) (st_file after) = Inr cs \<and> c \<in> set cs \<and> \<not> c_Revoked c \<and>
       st_now after < c_ExpiresAt c \<and> p = principal_of c"
    by (elim tls_Inr) (auto simp: authenticate_def go_result_simps find_Some_iff usable_def split: option.splits, metis nth_mem)
  ultimately show ?thesis by blast
qed

lemma stream_message_authenticated_witness:
  "confined (Some sample_agent_db) \<lparr>CredentialID = ''k1'', ClusterID = ''c1'', AgentID = ''a1''\<rparr> (SBOMMessage (Some sample_sbom))"
proof -
  let ?p = "\<lparr>CredentialID = ''k1'', ClusterID = ''c1'', AgentID = ''a1''\<rparr>"
  have "decode_registry (\<lambda>t. Some 100) (the (json_parse (registry_text ''certificate_sha256''))) = Some (Some [tls_credential])"
    and "json_parse (registry_text ''certificate_sha256'') \<noteq> None" and "check_credentials [] [] [tls_credential]"
    and "c_CertificateSHA256 tls_credential = hex_encode (replicate 32 CHR 0x00)"
    by code_simp+
  moreover have "length (registry_text ''certificate_sha256'') \<le> 1048576"
    by (simp add: registry_text_def quoted_def)
  ultimately have load: "store_load (st_ParseTime tls_store) (st_file tls_store) = Inr [tls_credential]"
    and use: "usable 50 True (hex_encode (replicate 32 CHR 0x00)) tls_credential"
    by (auto simp: store_load_def tls_store_def sample_store_def usable_def expected_digest_def tls_credential_def sample_credential_def)
  have "authenticate tls_store (hex_encode (replicate 32 CHR 0x00)) True = Inr ?p"
    unfolding authenticate_def load
    using use by (simp add: tls_store_def sample_store_def principal_of_def tls_credential_def sample_credential_def)
  then have auth: "authenticateGRPCAgent tls_rpc tls_store = Inr ?p"
    by (simp add: authenticateGRPCAgent_def tls_rpc_def AuthenticateTLS_def leads_chain_def leaf_certificate_def
        tls_store_def sample_store_def)
  have "is_ok (authorizeScopedGRPCSBOM (Some sample_agent_db) ?p (Some sample_sbom))" by code_simp
  then have "AuthorizationStream_RecvMsg (Some sample_agent_db) ?p
      (AuthStream_RecvMsg tls_rpc ?p tls_store tls_store (Inr (SBOMMessage (Some sample_sbom)))) = Inr (SBOMMessage (Some sample_sbom))"
    by (auto simp: is_ok_iff AuthStream_RecvMsg_def AuthorizationStream_RecvMsg_def auth)
  from stream_message_authenticated [OF this] show ?thesis by blast
qed

end
