(* ===== verification/Mutations.thy ===== *)
theory Mutations
  imports Rbac_Inventory Go_Hex "HOL-Library.Sublist"
begin

section \<open>Durable service-account mutations: core/pkg/mutations/service\_account.go\<close>

text \<open>
  An operator previews the revocation or deletion of a service account, confirms the preview by
  its digest, and a worker applies the plan to the cluster one step per claim of the job. The
  Kubernetes API is a parameter: a view of the objects (\<open>Cluster\<close>) and the outcome of a write
  (\<open>kube_exec\<close>), both functions of an arbitrary cluster state. A write is first decided from the
  view, then executed, so what the worker may ask of the API is a value. Encoding of a plan and
  SHA-256 are parameters too. Jobs stand in the order of their creation; a transaction that fails
  leaves the database as it was.
\<close>

subsection \<open>Plans\<close>

datatype ApiError = NotFound | Conflict | Forbidden | Unauthorized | ApiUnavailable

datatype MutationError = ErrDrift | ApiFailure ApiError | BadAction | PreviewTooLarge | PlanUndecodable
  | FactoryFailure | StorageFailure | LeaseLost

record Step =
  step_Kind :: string
  step_Namespace :: string
  step_Name :: string
  step_UID :: string
  step_ResourceVersion :: string
  step_Before :: "k8s_subject list"
  step_After :: "k8s_subject list"
  step_RoleRef :: k8s_roleRef

record Plan =
  plan_Version :: int
  plan_Namespace :: string
  plan_Name :: string
  plan_Steps :: "Step list"
  plan_Limitations :: "string list"

record KubeBinding =
  kb_Namespace :: string
  kb_Name :: string
  kb_UID :: string
  kb_ResourceVersion :: string
  kb_Subjects :: "k8s_subject list"
  kb_RoleRef :: k8s_roleRef

record KubeSecret =
  sec_Namespace :: string
  sec_Name :: string
  sec_UID :: string
  sec_ResourceVersion :: string
  sec_Type :: string
  sec_AnnotatedName :: string
  sec_AnnotatedUID :: string

text \<open>What the API shows: a list call gives at most 500 objects and whether there are more.\<close>

record Cluster =
  get_ServiceAccount :: "string \<Rightarrow> string \<Rightarrow> (ApiError, string) result"
  list_RoleBindings :: "(ApiError, KubeBinding list \<times> bool) result"
  list_ClusterRoleBindings :: "(ApiError, KubeBinding list \<times> bool) result"
  list_Secrets :: "string \<Rightarrow> (ApiError, KubeSecret list \<times> bool) result"
  get_RoleBinding :: "string \<Rightarrow> string \<Rightarrow> (ApiError, KubeBinding) result"
  get_ClusterRoleBinding :: "string \<Rightarrow> (ApiError, KubeBinding) result"

definition no_roleRef :: k8s_roleRef where
  "no_roleRef = \<lparr>kr_APIGroup = [], kr_Kind = [], kr_Name = []\<rparr>"

definition subject_is :: "ServiceAccount \<Rightarrow> string \<Rightarrow> k8s_subject \<Rightarrow> bool" where
  "subject_is sa defaultNS s =
     (let ns = (if ks_Namespace s = [] then defaultNS else ks_Namespace s)
      in ks_Kind s = ''ServiceAccount'' \<and> ks_APIGroup s = [] \<and> ks_Name s = sa_Name sa \<and> ns = sa_Namespace sa)"

fun remove_loop :: "ServiceAccount \<Rightarrow> string \<Rightarrow> k8s_subject list \<Rightarrow> bool \<Rightarrow> k8s_subject list \<Rightarrow> k8s_subject list \<times> bool" where
  "remove_loop sa defaultNS after changed [] = (after, changed)"
| "remove_loop sa defaultNS after changed (s # subjects) =
     (if subject_is sa defaultNS s then remove_loop sa defaultNS after True subjects
      else remove_loop sa defaultNS (after @ [s]) changed subjects)"

definition removeSubject :: "k8s_subject list \<Rightarrow> ServiceAccount \<Rightarrow> string \<Rightarrow> k8s_subject list \<times> bool" where
  "removeSubject subjects sa defaultNS = remove_loop sa defaultNS [] False subjects"

definition binding_step :: "ServiceAccount \<Rightarrow> string \<Rightarrow> (KubeBinding \<Rightarrow> string) \<Rightarrow> (KubeBinding \<Rightarrow> string) \<Rightarrow> KubeBinding \<Rightarrow> Step option" where
  "binding_step sa kind stepNS defaultNS b =
     (let (after, changed) = removeSubject (kb_Subjects b) sa (defaultNS b)
      in if changed
         then Some \<lparr>step_Kind = kind, step_Namespace = stepNS b, step_Name = kb_Name b, step_UID = kb_UID b,
                step_ResourceVersion = kb_ResourceVersion b, step_Before = kb_Subjects b, step_After = after,
                step_RoleRef = kb_RoleRef b\<rparr>
         else None)"

definition secret_step :: "ServiceAccount \<Rightarrow> KubeSecret \<Rightarrow> Step option" where
  "secret_step sa s =
     (if sec_Type s = ''kubernetes.io/service-account-token'' \<and> sec_AnnotatedName s = sa_Name sa \<and> sec_AnnotatedUID s = sa_UID sa
      then Some \<lparr>step_Kind = ''Secret'', step_Namespace = sec_Namespace s, step_Name = sec_Name s, step_UID = sec_UID s,
             step_ResourceVersion = sec_ResourceVersion s, step_Before = [], step_After = [], step_RoleRef = no_roleRef\<rparr>
      else None)"

definition deletion_step :: "ServiceAccount \<Rightarrow> Step" where
  "deletion_step sa = \<lparr>step_Kind = ''ServiceAccount'', step_Namespace = sa_Namespace sa, step_Name = sa_Name sa,
     step_UID = sa_UID sa, step_ResourceVersion = [], step_Before = [], step_After = [], step_RoleRef = no_roleRef\<rparr>"

definition listed :: "(ApiError, 'a list \<times> bool) result \<Rightarrow> (MutationError, 'a list) result" where
  "listed r = (case r of Inl e \<Rightarrow> Inl (ApiFailure e)
     | Inr (items, truncated) \<Rightarrow> if truncated then Inl PreviewTooLarge else Inr items)"

definition plan_for :: "ServiceAccount \<Rightarrow> Step list \<Rightarrow> string list \<Rightarrow> Plan" where
  "plan_for sa steps limitations = \<lparr>plan_Version = 1, plan_Namespace = sa_Namespace sa, plan_Name = sa_Name sa,
     plan_Steps = steps, plan_Limitations = limitations\<rparr>"

definition delete_limitations :: "string list" where
  "delete_limitations = [''Deletes the Kubernetes ServiceAccount and reconciles only its exact inventory identity. Existing Pods are not deleted.'']"

definition revoke_limitations :: "string list" where
  "revoke_limitations = [
     ''Removes only this ServiceAccount's direct subjects from the listed bindings; other subjects and roles remain unchanged.'',
     ''Deletes only the listed legacy ServiceAccount token Secrets. Bound/TokenRequest tokens and existing Pods are not revoked or deleted.'',
     ''Group/inherited permissions, newly added bindings/tokens, external credentials and admission policy are outside this preview. This operation does not disable the ServiceAccount.'']"

definition Preview :: "Cluster \<Rightarrow> ServiceAccount \<Rightarrow> string \<Rightarrow> (MutationError, Plan) result" where
  "Preview client sa action =
     (if sa_ClusterID sa = [] \<or> sa_UID sa = [] \<or> sa_Name sa = [] \<or> sa_Namespace sa = [] then Inl ErrDrift
      else (case get_ServiceAccount client (sa_Namespace sa) (sa_Name sa) of
        Inl e \<Rightarrow> Inl (ApiFailure e)
      | Inr actual \<Rightarrow>
          if actual \<noteq> sa_UID sa then Inl ErrDrift
          else if action = ''delete'' then Inr (plan_for sa [deletion_step sa] delete_limitations)
          else if action \<noteq> ''revoke'' then Inl BadAction
          else
            bind_result (listed (list_RoleBindings client)) (\<lambda>bindings.
            bind_result (listed (list_ClusterRoleBindings client)) (\<lambda>clusterBindings.
            bind_result (listed (list_Secrets client (sa_Namespace sa))) (\<lambda>secrets.
              let steps = List.map_filter (binding_step sa ''RoleBinding'' kb_Namespace kb_Namespace) bindings
                    @ List.map_filter (binding_step sa ''ClusterRoleBinding'' (\<lambda>_. []) (\<lambda>_. [])) clusterBindings
                    @ List.map_filter (secret_step sa) secrets
              in if list_ex (\<lambda>s. step_UID s = [] \<or> step_ResourceVersion s = []) steps then Inl ErrDrift
                 else Inr (plan_for sa steps revoke_limitations))))))"

subsection \<open>Jobs\<close>

record Job =
  j_ID :: string
  j_ClusterID :: string
  j_ServiceAccountID :: nat
  j_UID :: string
  j_ActorID :: nat
  j_Actor :: string
  j_Action :: string
  j_Plan :: string
  j_Digest :: string
  j_Status :: string
  j_NextStep :: int
  j_Attempts :: int
  j_LastError :: string
  j_LeaseToken :: string
  j_LeaseUntil :: "int option"
  j_RetryAt :: int
  j_ExpiresAt :: int

record MutationAudit =
  ma_Action :: string
  ma_JobID :: string
  ma_Status :: string
  ma_Steps :: int
  ma_UserID :: "nat option"

record MutationDb =
  md_jobs :: "Job list"
  md_accounts :: "ServiceAccount list"
  md_audit :: "MutationAudit list"

record PlanCodec =
  pc_marshal :: "Plan \<Rightarrow> string"
  pc_unmarshal :: "string \<Rightarrow> Plan option"
  pc_sha256 :: "string \<Rightarrow> string"

definition plan_digest :: "PlanCodec \<Rightarrow> Plan \<Rightarrow> string" where
  "plan_digest cd plan = hex_encode (pc_sha256 cd (pc_marshal cd plan))"

definition seconds :: "int \<Rightarrow> int" where
  "seconds n = n * 1000000000"

definition MaxAttempts :: int where
  "MaxAttempts = 20"

definition new_job :: "PlanCodec \<Rightarrow> string \<Rightarrow> ServiceAccount \<Rightarrow> nat \<Rightarrow> string \<Rightarrow> string \<Rightarrow> Plan \<Rightarrow> string \<Rightarrow> int \<Rightarrow> Job" where
  "new_job cd jid sa actorID actor action plan st now = \<lparr>j_ID = jid, j_ClusterID = sa_ClusterID sa, j_ServiceAccountID = sa_ID sa,
     j_UID = sa_UID sa, j_ActorID = actorID, j_Actor = actor, j_Action = action, j_Plan = pc_marshal cd plan,
     j_Digest = plan_digest cd plan, j_Status = st, j_NextStep = 0, j_Attempts = 0, j_LastError = [], j_LeaseToken = [],
     j_LeaseUntil = None, j_RetryAt = now, j_ExpiresAt = now + seconds 600\<rparr>"

definition SavePreview :: "PlanCodec \<Rightarrow> string \<Rightarrow> int \<Rightarrow> MutationDb \<Rightarrow> ServiceAccount \<Rightarrow> nat \<Rightarrow> string \<Rightarrow> string \<Rightarrow> Plan
    \<Rightarrow> (MutationError, Job) result \<times> MutationDb" where
  "SavePreview cd random_id now db sa actorID actor action plan =
     (let job = new_job cd random_id sa actorID actor action plan ''preview'' now
      in if random_id \<in> j_ID ` set (md_jobs db) then (Inl StorageFailure, db)
         else (Inr job, db\<lparr>md_jobs := md_jobs db @ [job]\<rparr>))"

definition set_job :: "Job \<Rightarrow> MutationDb \<Rightarrow> MutationDb" where
  "set_job job db = db\<lparr>md_jobs := map (\<lambda>j. if j_ID j = j_ID job then job else j) (md_jobs db)\<rparr>"

definition actor_ref :: "nat \<Rightarrow> nat option" where
  "actor_ref actorID = (if actorID = 0 then None else Some actorID)"

definition Queue :: "int \<Rightarrow> MutationDb \<Rightarrow> string \<Rightarrow> string \<Rightarrow> nat \<Rightarrow> (MutationError, unit) result \<times> MutationDb" where
  "Queue now db jid digest actorID =
     (case find (\<lambda>j. j_ID j = jid \<and> j_Digest j = digest \<and> j_ActorID j = actorID \<and> j_Status j = ''preview'' \<and> j_ExpiresAt j > now) (md_jobs db) of
        None \<Rightarrow> (Inl ErrDrift, db)
      | Some job \<Rightarrow>
          let db = set_job (job\<lparr>j_Status := ''queued'', j_RetryAt := now\<rparr>) db
          in (Inr (), db\<lparr>md_audit := md_audit db @ [\<lparr>ma_Action = j_Action job @ ''_intent'', ma_JobID = j_ID job,
                ma_Status = ''queued'', ma_Steps = 0, ma_UserID = actor_ref actorID\<rparr>]\<rparr>))"

definition deletion_id :: "PlanCodec \<Rightarrow> ServiceAccount \<Rightarrow> string" where
  "deletion_id cd sa = ''delete-'' @ hex_encode (take 24 (pc_sha256 cd (sa_ClusterID sa @ [CHR 0x00] @ sa_UID sa)))"

definition QueueDeletion :: "PlanCodec \<Rightarrow> int \<Rightarrow> MutationDb \<Rightarrow> ServiceAccount \<Rightarrow> nat \<Rightarrow> string \<Rightarrow> Job \<times> MutationDb" where
  "QueueDeletion cd now db sa actorID actor =
     (let plan = plan_for sa [deletion_step sa] [''Deletes only the exact ServiceAccount UID; Pods remain unchanged.''];
          job = new_job cd (deletion_id cd sa) sa actorID actor ''delete'' plan ''queued'' now
      in case find (\<lambda>j. j_ID j = j_ID job) (md_jobs db) of
           Some existing \<Rightarrow> (existing, db)
         | None \<Rightarrow> (job, db\<lparr>md_jobs := md_jobs db @ [job],
             md_audit := md_audit db @ [\<lparr>ma_Action = ''delete_intent'', ma_JobID = j_ID job, ma_Status = ''queued'',
               ma_Steps = 0, ma_UserID = actor_ref actorID\<rparr>]\<rparr>))"

subsection \<open>Applying one step\<close>

datatype Write = NoWrite
  | DeleteServiceAccount string string string
  | DeleteSecret string string string string
  | UpdateRoleBinding string KubeBinding
  | UpdateClusterRoleBinding KubeBinding

record 'k Kube =
  kube_view :: "'k \<Rightarrow> Cluster"
  kube_exec :: "'k \<Rightarrow> Write \<Rightarrow> (ApiError, unit) result \<times> 'k"

definition sameSubjects :: "k8s_subject list \<Rightarrow> k8s_subject list \<Rightarrow> bool" where
  "sameSubjects a b \<longleftrightarrow> (length a = 0 \<and> length b = 0) \<or> a = b"

definition decide_binding :: "(ApiError, KubeBinding) result \<Rightarrow> (KubeBinding \<Rightarrow> Write) \<Rightarrow> Step \<Rightarrow> (MutationError, Write) result" where
  "decide_binding r upd step = (case r of
     Inl NotFound \<Rightarrow> Inr NoWrite
   | Inl e \<Rightarrow> Inl (ApiFailure e)
   | Inr b \<Rightarrow>
       if kb_UID b \<noteq> step_UID step \<or> kb_RoleRef b \<noteq> step_RoleRef step then Inl ErrDrift
       else if sameSubjects (kb_Subjects b) (step_After step) then Inr NoWrite
       else if kb_ResourceVersion b \<noteq> step_ResourceVersion step \<or> \<not> sameSubjects (kb_Subjects b) (step_Before step)
       then Inl ErrDrift
       else Inr (upd (b\<lparr>kb_Subjects := step_After step\<rparr>)))"

definition check_identity :: "Cluster \<Rightarrow> Job \<Rightarrow> Plan \<Rightarrow> (MutationError, unit) result" where
  "check_identity c job plan =
     (if j_Action job = ''revoke'' then
        (case get_ServiceAccount c (plan_Namespace plan) (plan_Name plan) of
           Inl NotFound \<Rightarrow> Inl ErrDrift
         | Inl e \<Rightarrow> Inl (ApiFailure e)
         | Inr uid \<Rightarrow> if uid \<noteq> j_UID job then Inl ErrDrift else Inr ())
      else Inr ())"

definition apply_decide :: "Cluster \<Rightarrow> Job \<Rightarrow> Plan \<Rightarrow> Step \<Rightarrow> (MutationError, Write) result" where
  "apply_decide c job plan step = bind_result (check_identity c job plan) (\<lambda>_.
     if step_Kind step = ''ServiceAccount'' then Inr (DeleteServiceAccount (step_Namespace step) (step_Name step) (step_UID step))
     else if step_Kind step = ''Secret''
     then Inr (DeleteSecret (step_Namespace step) (step_Name step) (step_UID step) (step_ResourceVersion step))
     else if step_Kind step = ''RoleBinding''
     then decide_binding (get_RoleBinding c (step_Namespace step) (step_Name step)) (UpdateRoleBinding (step_Namespace step)) step
     else if step_Kind step = ''ClusterRoleBinding''
     then decide_binding (get_ClusterRoleBinding c (step_Name step)) UpdateClusterRoleBinding step
     else Inl ErrDrift)"

definition write_outcome :: "Write \<Rightarrow> (ApiError, unit) result \<Rightarrow> (MutationError, unit) result" where
  "write_outcome w r = (case r of
     Inr _ \<Rightarrow> Inr ()
   | Inl e \<Rightarrow> (case w of
        DeleteServiceAccount _ _ _ \<Rightarrow> if e = NotFound then Inr () else Inl (ApiFailure e)
      | DeleteSecret _ _ _ _ \<Rightarrow> if e = NotFound then Inr () else Inl (ApiFailure e)
      | _ \<Rightarrow> Inl (ApiFailure e)))"

definition apply_step :: "'k Kube \<Rightarrow> Job \<Rightarrow> Plan \<Rightarrow> Step \<Rightarrow> 'k \<Rightarrow> (MutationError, unit) result \<times> 'k" where
  "apply_step kube job plan step k = (case apply_decide (kube_view kube k) job plan step of
     Inl e \<Rightarrow> (Inl e, k)
   | Inr NoWrite \<Rightarrow> (Inr (), k)
   | Inr w \<Rightarrow> map_prod (write_outcome w) id (kube_exec kube k w))"

subsection \<open>The worker\<close>

definition claimable :: "int \<Rightarrow> string \<Rightarrow> Job \<Rightarrow> bool" where
  "claimable now jid j \<longleftrightarrow> (jid = [] \<or> j_ID j = jid) \<and>
     ((j_Status j = ''queued'' \<or> j_Status j = ''retry'') \<and> j_RetryAt j \<le> now \<or>
      j_Status j = ''running'' \<and> (case j_LeaseUntil j of None \<Rightarrow> False | Some t \<Rightarrow> t \<le> now))"

definition claim :: "int \<Rightarrow> string \<Rightarrow> string \<Rightarrow> MutationDb \<Rightarrow> Job option \<times> MutationDb" where
  "claim now token jid db = (case find (claimable now jid) (md_jobs db) of
     None \<Rightarrow> (None, db)
   | Some job \<Rightarrow>
       let job = job\<lparr>j_LeaseToken := token, j_LeaseUntil := Some (now + seconds 45), j_Status := ''running'',
                     j_Attempts := j_Attempts job + 1\<rparr>
       in (Some job, set_job job db))"

definition check_plan :: "PlanCodec \<Rightarrow> Job \<Rightarrow> (MutationError, Plan) result" where
  "check_plan cd job = (case pc_unmarshal cd (j_Plan job) of
     None \<Rightarrow> Inl PlanUndecodable
   | Some plan \<Rightarrow>
       if plan_Version plan \<noteq> 1 \<or> j_Digest job \<noteq> plan_digest cd plan \<or> j_NextStep job < 0
          \<or> j_NextStep job > int (length (plan_Steps plan)) then Inl ErrDrift
       else Inr plan)"

text \<open>The work between the two transactions: the error, the job with its progress, whether it is done.\<close>

definition work :: "PlanCodec \<Rightarrow> 'k Kube \<Rightarrow> (string \<Rightarrow> bool) \<Rightarrow> Job \<Rightarrow> 'k \<Rightarrow> MutationError option \<times> Job \<times> bool \<times> 'k" where
  "work cd kube factory job k = (case check_plan cd job of
     Inl e \<Rightarrow> (Some e, job, False, k)
   | Inr plan \<Rightarrow>
       if j_NextStep job \<ge> int (length (plan_Steps plan)) then (None, job, True, k)
       else if \<not> factory (j_ClusterID job) then (Some FactoryFailure, job, False, k)
       else (case apply_step kube job plan (plan_Steps plan ! nat (j_NextStep job)) k of
           (Inl e, k') \<Rightarrow> (Some e, job, False, k')
         | (Inr _, k') \<Rightarrow>
             let job = job\<lparr>j_NextStep := j_NextStep job + 1\<rparr>
             in (None, job, j_NextStep job = int (length (plan_Steps plan)), k')))"

definition permanent :: "MutationError \<Rightarrow> bool" where
  "permanent e \<longleftrightarrow> e = ErrDrift \<or> e = ApiFailure Conflict \<or> e = ApiFailure Forbidden \<or> e = ApiFailure Unauthorized"

definition outcome_status :: "MutationError option \<Rightarrow> bool \<Rightarrow> int \<Rightarrow> string \<times> string" where
  "outcome_status applyErr done_all attempts = (case applyErr of
     None \<Rightarrow> if done_all then (''succeeded'', []) else (''queued'', [])
   | Some e \<Rightarrow>
       if permanent e then (''blocked'', ''Identity, preview or permission changed; review a new preview'')
       else if attempts \<ge> MaxAttempts
       then (''blocked'', ''Kubernetes operation unavailable after repeated retries; review a new preview'')
       else (''retry'', ''Kubernetes operation unavailable; retry scheduled''))"

definition finish :: "int \<Rightarrow> MutationError option \<Rightarrow> Job \<Rightarrow> bool \<Rightarrow> MutationDb \<Rightarrow> (MutationError, unit) result \<times> MutationDb" where
  "finish now applyErr job done_all db =
     (let (st, message) = outcome_status applyErr done_all (j_Attempts job);
          retryAt = (if st = ''retry'' then now + seconds 30 else now)
      in case find (\<lambda>j. j_ID j = j_ID job \<and> j_LeaseToken j = j_LeaseToken job \<and> j_Status j = ''running'') (md_jobs db) of
           None \<Rightarrow> (Inl LeaseLost, db)
         | Some row \<Rightarrow>
             let db = set_job (row\<lparr>j_Status := st, j_NextStep := j_NextStep job, j_LastError := message,
                                   j_LeaseUntil := None, j_LeaseToken := [], j_RetryAt := retryAt\<rparr>) db;
                 db = (if applyErr = None \<and> j_Action job = ''delete'' \<and> done_all
                       then db\<lparr>md_accounts := filter (\<lambda>a. \<not> (sa_ID a = j_ServiceAccountID job \<and> sa_ClusterID a = j_ClusterID job
                              \<and> sa_UID a = j_UID job)) (md_accounts db)\<rparr>
                       else db)
             in (Inr (), db\<lparr>md_audit := md_audit db @ [\<lparr>ma_Action = j_Action job, ma_JobID = j_ID job, ma_Status = st,
                   ma_Steps = j_NextStep job, ma_UserID = actor_ref (j_ActorID job)\<rparr>]\<rparr>))"

text \<open>\<open>Process\<close> with the instants of its two transactions, the random lease token, and whether each
  transaction fails in storage.\<close>

definition Process :: "PlanCodec \<Rightarrow> 'k Kube \<Rightarrow> (string \<Rightarrow> bool) \<Rightarrow> int \<Rightarrow> int \<Rightarrow> string \<Rightarrow> bool \<Rightarrow> bool \<Rightarrow> string
    \<Rightarrow> MutationDb \<Rightarrow> 'k \<Rightarrow> (MutationError, unit) result \<times> MutationDb \<times> 'k" where
  "Process cd kube factory now later token claim_fails finish_fails jid db k =
     (if claim_fails then (Inl StorageFailure, db, k)
      else (case claim now token jid db of
          (None, db) \<Rightarrow> (Inr (), db, k)
        | (Some job, db) \<Rightarrow>
            (case work cd kube factory job k of
               (applyErr, job, done_all, k) \<Rightarrow>
                 if finish_fails then (Inl StorageFailure, db, k)
                 else (case finish later applyErr job done_all db of (r, db) \<Rightarrow> (r, db, k)))))"

definition ProcessOne :: "PlanCodec \<Rightarrow> 'k Kube \<Rightarrow> (string \<Rightarrow> bool) \<Rightarrow> int \<Rightarrow> int \<Rightarrow> string \<Rightarrow> bool \<Rightarrow> bool
    \<Rightarrow> MutationDb \<Rightarrow> 'k \<Rightarrow> (MutationError, unit) result \<times> MutationDb \<times> 'k" where
  "ProcessOne cd kube factory now later token claim_fails finish_fails db k =
     Process cd kube factory now later token claim_fails finish_fails [] db k"

subsection \<open>Lemmas on plans\<close>

lemma remove_loop_eq:
  "remove_loop sa ns after changed subjects =
     (after @ filter (\<lambda>s. \<not> subject_is sa ns s) subjects, changed \<or> list_ex (subject_is sa ns) subjects)"
  by (induction subjects arbitrary: after changed) auto

lemma removeSubject_eq:
  "removeSubject subjects sa ns = (filter (\<lambda>s. \<not> subject_is sa ns s) subjects, list_ex (subject_is sa ns) subjects)"
  by (simp add: removeSubject_def remove_loop_eq)

lemma binding_step_Some_iff:
  "binding_step sa kind stepNS defaultNS b = Some st \<longleftrightarrow>
     list_ex (subject_is sa (defaultNS b)) (kb_Subjects b) \<and>
     st = \<lparr>step_Kind = kind, step_Namespace = stepNS b, step_Name = kb_Name b, step_UID = kb_UID b,
       step_ResourceVersion = kb_ResourceVersion b, step_Before = kb_Subjects b,
       step_After = filter (\<lambda>s. \<not> subject_is sa (defaultNS b) s) (kb_Subjects b), step_RoleRef = kb_RoleRef b\<rparr>"
  by (auto simp: binding_step_def removeSubject_eq)

lemma Preview_revoke_cases:
  assumes "Preview client sa ''revoke'' = Inr plan"
  obtains bs cbs secs where "list_RoleBindings client = Inr (bs, False)" "list_ClusterRoleBindings client = Inr (cbs, False)"
    "list_Secrets client (sa_Namespace sa) = Inr (secs, False)"
    "plan_Steps plan = List.map_filter (binding_step sa ''RoleBinding'' kb_Namespace kb_Namespace) bs
       @ List.map_filter (binding_step sa ''ClusterRoleBinding'' (\<lambda>_. []) (\<lambda>_. [])) cbs @ List.map_filter (secret_step sa) secs"
    "list_all (\<lambda>s. step_UID s \<noteq> [] \<and> step_ResourceVersion s \<noteq> []) (plan_Steps plan)"
    "sa_Namespace sa \<noteq> []" "plan_Name plan = sa_Name sa" "plan_Namespace plan = sa_Namespace sa"
proof -
  from assms have ok: "sa_Namespace sa \<noteq> []" by (auto simp: Preview_def split: if_splits)
  from assms obtain bs cbs secs where l: "listed (list_RoleBindings client) = Inr bs" "listed (list_ClusterRoleBindings client) = Inr cbs"
    "listed (list_Secrets client (sa_Namespace sa)) = Inr secs"
    and steps: "plan_Steps plan = List.map_filter (binding_step sa ''RoleBinding'' kb_Namespace kb_Namespace) bs
       @ List.map_filter (binding_step sa ''ClusterRoleBinding'' (\<lambda>_. []) (\<lambda>_. [])) cbs @ List.map_filter (secret_step sa) secs"
    "\<not> list_ex (\<lambda>s. step_UID s = [] \<or> step_ResourceVersion s = []) (plan_Steps plan)"
    "plan_Name plan = sa_Name sa" "plan_Namespace plan = sa_Namespace sa"
    by (auto simp: Preview_def go_result_simps Let_def plan_for_def simp del: list_ex_append split: if_splits sum.splits)
  have inr: "listed r = Inr xs \<Longrightarrow> r = Inr (xs, False)" for r and xs :: "'z list"
    by (auto simp: listed_def split: sum.splits if_splits)
  show thesis
    using that [OF inr inr inr] l steps ok by (auto simp: list_all_iff list_ex_iff listed_def split: sum.splits if_splits)
qed

lemma decide_binding_Inr:
  assumes "decide_binding r upd step = Inr w" and "w \<noteq> NoWrite"
  obtains b where "r = Inr b" "kb_UID b = step_UID step" "kb_RoleRef b = step_RoleRef step"
    "kb_ResourceVersion b = step_ResourceVersion step" "kb_Subjects b = step_Before step"
    "w = upd (b\<lparr>kb_Subjects := step_After step\<rparr>)"
  using assms
  by (auto simp: decide_binding_def sameSubjects_def split: sum.splits ApiError.splits if_splits)

lemma apply_step_no_write:
  "apply_decide (kube_view kube k) job plan step = Inr NoWrite \<Longrightarrow> apply_step kube job plan step k = (Inr (), k)"
  by (simp add: apply_step_def)

subsection \<open>Interleaved workers\<close>

text \<open>
  Several workers run \<open>Process\<close> at once, and a lease can expire while its worker is still busy. The
  state has the database, the cluster, the jobs the workers hold in memory, and the lease tokens
  drawn so far; a token is a random text, so a new one is different from those. A worker may die,
  and others change the cluster. \<open>wd_history\<close> is a record of the run: for each work on a claimed
  job its identifier and the cluster before and after, whatever the work did.
\<close>

record 'k World =
  wd_db :: MutationDb
  wd_kube :: 'k
  wd_held :: "Job list"
  wd_tokens :: "string set"
  wd_history :: "(string \<times> 'k \<times> 'k) list"

inductive mutation_step :: "PlanCodec \<Rightarrow> 'k Kube \<Rightarrow> (string \<Rightarrow> bool) \<Rightarrow> 'k World \<Rightarrow> 'k World \<Rightarrow> bool"
  for cd kube factory where
  preview_step: "SavePreview cd jid now (wd_db w) sa actorID actor action plan = (r, db') \<Longrightarrow>
    mutation_step cd kube factory w (w\<lparr>wd_db := db'\<rparr>)"
| queue_step: "Queue now (wd_db w) jid digest actorID = (r, db') \<Longrightarrow> mutation_step cd kube factory w (w\<lparr>wd_db := db'\<rparr>)"
| queue_deletion_step: "QueueDeletion cd now (wd_db w) sa actorID actor = (job, db') \<Longrightarrow>
    mutation_step cd kube factory w (w\<lparr>wd_db := db'\<rparr>)"
| claim_step: "token \<notin> wd_tokens w \<Longrightarrow> token \<noteq> [] \<Longrightarrow> claim now token jid (wd_db w) = (Some job, db') \<Longrightarrow>
    mutation_step cd kube factory w
      (w\<lparr>wd_db := db', wd_held := job # wd_held w, wd_tokens := insert token (wd_tokens w)\<rparr>)"
| finish_step: "job \<in> set (wd_held w) \<Longrightarrow> work cd kube factory job (wd_kube w) = (err, job', done_all, k') \<Longrightarrow>
    finish later err job' done_all (wd_db w) = (r, db') \<Longrightarrow>
    mutation_step cd kube factory w (w\<lparr>wd_db := db', wd_kube := k', wd_held := remove1 job (wd_held w),
         wd_history := wd_history w @ [(j_ID job, wd_kube w, k')]\<rparr>)"
| death_step: "job \<in> set (wd_held w) \<Longrightarrow> work cd kube factory job (wd_kube w) = (err, job', done_all, k') \<Longrightarrow>
    mutation_step cd kube factory w (w\<lparr>wd_kube := k', wd_held := remove1 job (wd_held w),
      wd_history := wd_history w @ [(j_ID job, wd_kube w, k')]\<rparr>)"
| cluster_step: "mutation_step cd kube factory w (w\<lparr>wd_kube := k'\<rparr>)"

definition completed :: "PlanCodec \<Rightarrow> Job \<Rightarrow> bool" where
  "completed cd j = (case pc_unmarshal cd (j_Plan j) of
     None \<Rightarrow> False
   | Some plan \<Rightarrow> j_NextStep j = int (length (plan_Steps plan)) \<and> j_Digest j = plan_digest cd plan)"

definition same_identity :: "Job \<Rightarrow> Job \<Rightarrow> bool" where
  "same_identity a b \<longleftrightarrow> j_ID a = j_ID b \<and> j_Plan a = j_Plan b \<and> j_Digest a = j_Digest b \<and> j_UID a = j_UID b \<and>
     j_ClusterID a = j_ClusterID b \<and> j_Action a = j_Action b \<and> j_ServiceAccountID a = j_ServiceAccountID b"

definition world_inv :: "PlanCodec \<Rightarrow> 'k World \<Rightarrow> bool" where
  "world_inv cd w \<longleftrightarrow>
     distinct (map j_ID (md_jobs (wd_db w))) \<and>
     (\<forall>j \<in> set (md_jobs (wd_db w)). j_LeaseToken j \<in> insert [] (wd_tokens w) \<and> (j_Status j = ''succeeded'' \<longrightarrow> completed cd j)) \<and>
     (\<forall>h \<in> set (wd_held w). j_LeaseToken h \<in> wd_tokens w \<and>
        (\<forall>j \<in> set (md_jobs (wd_db w)). j_ID j = j_ID h \<and> j_LeaseToken j = j_LeaseToken h \<and> j_Status j = ''running'' \<longrightarrow> j = h))"

lemma work_effect:
  assumes "work cd kube factory job k = (err, job', done_all, k')"
  shows "same_identity job' job \<and> j_Attempts job' = j_Attempts job \<and> j_LeaseToken job' = j_LeaseToken job \<and>
    (err = None \<and> done_all \<longrightarrow> completed cd job') \<and>
    (j_NextStep job' \<noteq> j_NextStep job \<longrightarrow> (\<exists>plan. err = None \<and> check_plan cd job = Inr plan \<and>
       j_NextStep job' = j_NextStep job + 1 \<and> j_NextStep job < int (length (plan_Steps plan)) \<and>
       apply_step kube job plan (plan_Steps plan ! nat (j_NextStep job)) k = (Inr (), k')))"
proof (cases "check_plan cd job")
  case (Inl e)
  with assms show ?thesis by (auto simp: work_def same_identity_def)
next
  case (Inr plan)
  then have dec: "pc_unmarshal cd (j_Plan job) = Some plan" "j_Digest job = plan_digest cd plan"
    "j_NextStep job \<le> int (length (plan_Steps plan))"
    by (auto simp: check_plan_def split: option.splits if_splits)
  obtain r k2 where ap: "apply_step kube job plan (plan_Steps plan ! nat (j_NextStep job)) k = (r, k2)" by fastforce
  show ?thesis
    using assms dec by (cases r) (auto simp: work_def Inr ap same_identity_def completed_def Let_def split: if_splits)
qed

lemma finish_cases:
  assumes "finish now err job done_all db = (r, db')"
  obtains (lost) "r = Inl LeaseLost" "db' = db"
  | (kept) row row' where "r = Inr ()" "row \<in> set (md_jobs db)" "j_ID row = j_ID job" "j_LeaseToken row = j_LeaseToken job"
      "j_Status row = ''running''"
      "row' = row\<lparr>j_Status := fst (outcome_status err done_all (j_Attempts job)), j_NextStep := j_NextStep job,
         j_LastError := snd (outcome_status err done_all (j_Attempts job)), j_LeaseUntil := None, j_LeaseToken := [],
         j_RetryAt := (if fst (outcome_status err done_all (j_Attempts job)) = ''retry'' then now + seconds 30 else now)\<rparr>"
      "md_jobs db' = map (\<lambda>j. if j_ID j = j_ID row then row' else j) (md_jobs db)"
proof (cases "find (\<lambda>j. j_ID j = j_ID job \<and> j_LeaseToken j = j_LeaseToken job \<and> j_Status j = ''running'') (md_jobs db)")
  case None
  with assms show thesis by (intro lost) (auto simp: finish_def split: prod.splits)
next
  case (Some row)
  then have row: "row \<in> set (md_jobs db)" "j_ID row = j_ID job" "j_LeaseToken row = j_LeaseToken job" "j_Status row = ''running''"
    by (auto simp: find_Some_iff)
  have "r = Inr ()" and "md_jobs db' = md_jobs (set_job (row\<lparr>j_Status := fst (outcome_status err done_all (j_Attempts job)), j_NextStep := j_NextStep job,
         j_LastError := snd (outcome_status err done_all (j_Attempts job)), j_LeaseUntil := None, j_LeaseToken := [],
         j_RetryAt := (if fst (outcome_status err done_all (j_Attempts job)) = ''retry'' then now + seconds 30 else now)\<rparr>) db)"
    using assms by (cases "outcome_status err done_all (j_Attempts job)", simp add: finish_def Some Let_def, clarsimp)+
  then show thesis by (intro kept [OF _ row refl]) (simp_all add: set_job_def)
qed

lemma outcome_status_succeeded: "fst (outcome_status err done_all n) = ''succeeded'' \<longleftrightarrow> err = None \<and> done_all"
  by (auto simp: outcome_status_def split: option.splits)

lemma outcome_status_not_running: "fst (outcome_status err done_all n) \<noteq> ''running''"
  by (auto simp: outcome_status_def split: option.splits)

lemma distinct_ids_unique:
  "distinct (map f xs) \<Longrightarrow> x \<in> set xs \<Longrightarrow> y \<in> set xs \<Longrightarrow> f x = f y \<Longrightarrow> x = y"
  by (induction xs) (auto simp: image_iff)

lemma map_replace_ids: "j_ID row' = jid \<Longrightarrow> map j_ID (map (\<lambda>j. if j_ID j = jid then row' else j) js) = map j_ID js"
  by simp

text \<open>Replacing one row keeps the invariant when the new row fits the tokens and the held jobs.\<close>

lemma world_inv_replace:
  assumes inv: "world_inv cd w" and id: "j_ID row' = jid"
    and jobs: "md_jobs (wd_db w') = map (\<lambda>j. if j_ID j = jid then row' else j) (md_jobs (wd_db w))"
    and tok: "wd_tokens w \<subseteq> wd_tokens w'" "j_LeaseToken row' \<in> insert [] (wd_tokens w')"
    and ok: "j_Status row' = ''succeeded'' \<longrightarrow> completed cd row'"
    and held: "\<And>h. h \<in> set (wd_held w') \<Longrightarrow> h \<in> set (wd_held w) \<and> \<not> (j_LeaseToken row' = j_LeaseToken h \<and> j_Status row' = ''running'')
      \<or> h = row' \<and> j_LeaseToken h \<in> wd_tokens w' \<and> j_LeaseToken h \<notin> insert [] (wd_tokens w)"
  shows "world_inv cd w'"
proof -
  have ids: "map j_ID (md_jobs (wd_db w')) = map j_ID (md_jobs (wd_db w))" unfolding jobs map_replace_ids [OF id] ..
  have row: "j \<in> set (md_jobs (wd_db w')) \<Longrightarrow> j = row' \<or> j \<in> set (md_jobs (wd_db w)) \<and> j_ID j \<noteq> jid" for j
    using id by (auto simp: jobs split: if_splits)
  have old: "h \<in> set (wd_held w) \<Longrightarrow> j \<in> set (md_jobs (wd_db w)) \<Longrightarrow> j_ID j = j_ID h \<Longrightarrow> j_LeaseToken j = j_LeaseToken h \<Longrightarrow>
      j_Status j = ''running'' \<Longrightarrow> j = h" for h j
    using inv by (auto simp: world_inv_def)
  have oldtok: "j \<in> set (md_jobs (wd_db w)) \<Longrightarrow> j_LeaseToken j \<in> insert [] (wd_tokens w)" for j
    using inv by (auto simp: world_inv_def)
  have "j = h" if "h \<in> set (wd_held w')" "j \<in> set (md_jobs (wd_db w'))" "j_ID j = j_ID h" "j_LeaseToken j = j_LeaseToken h"
    "j_Status j = ''running''" for h j
    using row [OF that(2)] held [OF that(1)] old [of h j] oldtok [of j] that by auto
  moreover have "j_LeaseToken h \<in> wd_tokens w'" if "h \<in> set (wd_held w')" for h
    using held [OF that] inv tok(1) by (auto simp: world_inv_def)
  moreover have "distinct (map j_ID (md_jobs (wd_db w')))" using inv ids by (simp add: world_inv_def)
  moreover have "j_LeaseToken j \<in> insert [] (wd_tokens w') \<and> (j_Status j = ''succeeded'' \<longrightarrow> completed cd j)"
    if "j \<in> set (md_jobs (wd_db w'))" for j
    using row [OF that] inv tok ok by (auto simp: world_inv_def)
  ultimately show ?thesis unfolding world_inv_def by blast
qed

text \<open>A new row in a state without a lease.\<close>

lemma world_inv_append:
  assumes inv: "world_inv cd w" and "j_ID job \<notin> j_ID ` set (md_jobs (wd_db w))"
    and "md_jobs db' = md_jobs (wd_db w) @ [job]" and "j_LeaseToken job = []" and "j_Status job = ''preview'' \<or> j_Status job = ''queued''"
  shows "world_inv cd (w\<lparr>wd_db := db'\<rparr>)"
  using assms by (auto simp: world_inv_def)

lemma world_inv_claim:
  assumes inv: "world_inv cd w" and fresh: "token \<notin> wd_tokens w" "token \<noteq> []"
    and claim: "claim now token jid (wd_db w) = (Some job, db')"
  shows "world_inv cd (w\<lparr>wd_db := db', wd_held := job # wd_held w, wd_tokens := insert token (wd_tokens w)\<rparr>)"
proof (rule world_inv_replace [OF inv, where row' = job and jid = "j_ID job"])
  show "md_jobs (wd_db (w\<lparr>wd_db := db', wd_held := job # wd_held w, wd_tokens := insert token (wd_tokens w)\<rparr>)) =
      map (\<lambda>j. if j_ID j = j_ID job then job else j) (md_jobs (wd_db w))"
    using claim by (auto simp: claim_def set_job_def Let_def split: option.splits)
  have job: "j_LeaseToken job = token" "j_Status job = ''running''"
    using claim by (auto simp: claim_def Let_def split: option.splits)
  then show "j_LeaseToken job \<in> insert [] (wd_tokens (w\<lparr>wd_db := db', wd_held := job # wd_held w, wd_tokens := insert token (wd_tokens w)\<rparr>))"
    "j_Status job = ''succeeded'' \<longrightarrow> completed cd job" by simp_all
  fix h
  assume "h \<in> set (wd_held (w\<lparr>wd_db := db', wd_held := job # wd_held w, wd_tokens := insert token (wd_tokens w)\<rparr>))"
  then consider "h = job" | "h \<in> set (wd_held w)" by auto
  then show "h \<in> set (wd_held w) \<and> \<not> (j_LeaseToken job = j_LeaseToken h \<and> j_Status job = ''running'')
      \<or> h = job \<and> j_LeaseToken h \<in> wd_tokens (w\<lparr>wd_db := db', wd_held := job # wd_held w, wd_tokens := insert token (wd_tokens w)\<rparr>)
        \<and> j_LeaseToken h \<notin> insert [] (wd_tokens w)"
    using fresh job inv by cases (auto simp: world_inv_def)
qed auto

lemma world_inv_finish:
  assumes inv: "world_inv cd w" and held: "job \<in> set (wd_held w)"
    and work: "work cd kube factory job (wd_kube w) = (err, job', done_all, k')"
    and fin: "finish later err job' done_all (wd_db w) = (r, db')"
  shows "world_inv cd (w\<lparr>wd_db := db', wd_kube := k', wd_held := remove1 job (wd_held w), wd_history := hist\<rparr>)"
  using fin
proof (cases rule: finish_cases)
  case lost
  with inv show ?thesis by (auto simp: world_inv_def dest: in_set_remove1 [THEN iffD1, rotated] notin_set_remove1 set_remove1_subset [THEN subsetD])
next
  case (kept row row')
  note eff = work_effect [OF work]
  have "row = job"
    using inv held kept(2-5) eff by (auto simp: world_inv_def same_identity_def)
  show ?thesis
  proof (rule world_inv_replace [OF inv, where row' = row' and jid = "j_ID row"])
    have "j_Plan job' = j_Plan job" "j_Digest job' = j_Digest job" using eff by (auto simp: same_identity_def)
    moreover have "j_Plan row' = j_Plan job" "j_Digest row' = j_Digest job" "j_NextStep row' = j_NextStep job'"
      "j_Status row' = fst (outcome_status err done_all (j_Attempts job'))"
      by (simp_all add: kept(6) \<open>row = job\<close>)
    ultimately have "completed cd row' = completed cd job'"
      and st: "j_Status row' = fst (outcome_status err done_all (j_Attempts job'))"
      by (simp_all add: completed_def split: option.split)
    then show "j_Status row' = ''succeeded'' \<longrightarrow> completed cd row'"
      using eff by (simp add: st outcome_status_succeeded)
    fix h
    assume "h \<in> set (wd_held (w\<lparr>wd_db := db', wd_kube := k', wd_held := remove1 job (wd_held w), wd_history := hist\<rparr>))"
    then show "h \<in> set (wd_held w) \<and> \<not> (j_LeaseToken row' = j_LeaseToken h \<and> j_Status row' = ''running'')
      \<or> h = row' \<and> j_LeaseToken h \<in> wd_tokens (w\<lparr>wd_db := db', wd_kube := k', wd_held := remove1 job (wd_held w), wd_history := hist\<rparr>)
        \<and> j_LeaseToken h \<notin> insert [] (wd_tokens w)"
      by (auto simp: kept(6) outcome_status_not_running dest: set_remove1_subset [THEN subsetD])
  qed (use kept(6,7) in auto)
qed

lemma mutation_step_preserves:
  assumes "mutation_step cd kube factory w w'" and inv: "world_inv cd w"
  shows "world_inv cd w'"
  using assms(1)
proof cases
  case (preview_step jid now sa actorID actor action plan r db')
  show ?thesis
  proof (cases "jid \<in> j_ID ` set (md_jobs (wd_db w))")
    case False
    with preview_step show ?thesis
      by (auto simp: SavePreview_def Let_def new_job_def intro!: world_inv_append [OF inv])
  qed (use preview_step inv in \<open>auto simp: SavePreview_def Let_def\<close>)
next
  case (queue_step now jid digest actorID r db')
  show ?thesis
  proof (cases "find (\<lambda>j. j_ID j = jid \<and> j_Digest j = digest \<and> j_ActorID j = actorID \<and> j_Status j = ''preview'' \<and> j_ExpiresAt j > now) (md_jobs (wd_db w))")
    case (Some job)
    then have job: "job \<in> set (md_jobs (wd_db w))" "j_Status job = ''preview''" by (auto simp: find_Some_iff)
    show ?thesis unfolding queue_step(1)
      by (rule world_inv_replace [OF inv, where row' = "job\<lparr>j_Status := ''queued'', j_RetryAt := now\<rparr>" and jid = "j_ID job"])
         (use queue_step Some job inv in \<open>auto simp: Queue_def Let_def set_job_def world_inv_def\<close>)
  qed (use queue_step inv in \<open>auto simp: Queue_def\<close>)
next
  case (queue_deletion_step now sa actorID actor job db')
  show ?thesis
  proof (cases "find (\<lambda>j. j_ID j = deletion_id cd sa) (md_jobs (wd_db w))")
    case None
    with queue_deletion_step show ?thesis
      by (auto simp: QueueDeletion_def Let_def new_job_def find_None_iff intro!: world_inv_append [OF inv])
  qed (use queue_deletion_step inv in \<open>auto simp: QueueDeletion_def Let_def new_job_def\<close>)
next
  case (claim_step token now jid job db')
  then show ?thesis using world_inv_claim [OF inv] by simp
next
  case (finish_step job err job' done_all k' later r db')
  then show ?thesis using world_inv_finish [OF inv] by simp
next
  case (death_step job err job' done_all k')
  with inv show ?thesis by (auto simp: world_inv_def dest: set_remove1_subset [THEN subsetD])
next
  case (cluster_step k')
  with inv show ?thesis by (simp add: world_inv_def)
qed

text \<open>
  What it means that a step was carried out between two states of the cluster: a deletion was
  executed with the recorded object and UID, or the object was gone; a binding was gone, or it has
  the recorded UID and role reference, and its subjects are the recorded final ones already or
  were the recorded initial ones at the recorded version and have been replaced. A revocation needs
  the account to be the same.
\<close>

definition deleted :: "'k Kube \<Rightarrow> Write \<Rightarrow> 'k \<Rightarrow> 'k \<Rightarrow> bool" where
  "deleted kube w k k' \<longleftrightarrow> kube_exec kube k w = (Inr (), k') \<or> kube_exec kube k w = (Inl NotFound, k')"

definition rebound :: "'k Kube \<Rightarrow> (ApiError, KubeBinding) result \<Rightarrow> (KubeBinding \<Rightarrow> Write) \<Rightarrow> Step \<Rightarrow> 'k \<Rightarrow> 'k \<Rightarrow> bool" where
  "rebound kube found upd st k k' \<longleftrightarrow>
     found = Inl NotFound \<and> k' = k
     \<or> (\<exists>b. found = Inr b \<and> kb_UID b = step_UID st \<and> kb_RoleRef b = step_RoleRef st
         \<and> (kb_Subjects b = step_After st \<and> k' = k
             \<or> kb_Subjects b = step_Before st \<and> kb_ResourceVersion b = step_ResourceVersion st
                 \<and> kube_exec kube k (upd (b\<lparr>kb_Subjects := step_After st\<rparr>)) = (Inr (), k')))"

definition step_done :: "'k Kube \<Rightarrow> Job \<Rightarrow> Plan \<Rightarrow> Step \<Rightarrow> 'k \<Rightarrow> 'k \<Rightarrow> bool" where
  "step_done kube job plan st k k' \<longleftrightarrow>
     (j_Action job = ''revoke''
        \<longrightarrow> get_ServiceAccount (kube_view kube k) (plan_Namespace plan) (plan_Name plan) = Inr (j_UID job)) \<and>
     (step_Kind st = ''ServiceAccount''
        \<and> deleted kube (DeleteServiceAccount (step_Namespace st) (step_Name st) (step_UID st)) k k'
      \<or> step_Kind st = ''Secret''
        \<and> deleted kube (DeleteSecret (step_Namespace st) (step_Name st) (step_UID st) (step_ResourceVersion st)) k k'
      \<or> step_Kind st = ''RoleBinding''
        \<and> rebound kube (get_RoleBinding (kube_view kube k) (step_Namespace st) (step_Name st))
             (UpdateRoleBinding (step_Namespace st)) st k k'
      \<or> step_Kind st = ''ClusterRoleBinding''
        \<and> rebound kube (get_ClusterRoleBinding (kube_view kube k) (step_Name st)) UpdateClusterRoleBinding st k k')"

lemma decide_binding_rebound:
  assumes "decide_binding found upd st = Inr w"
    and "w = NoWrite \<longrightarrow> k' = k"
    and "\<forall>b. w = upd b \<longrightarrow> kube_exec kube k (upd b) = (Inr (), k')"
  shows "rebound kube found upd st k k'"
  using assms
  by (auto simp: decide_binding_def rebound_def sameSubjects_def split: sum.splits ApiError.splits if_splits)

lemma apply_step_done:
  assumes "apply_step kube job plan st k = (Inr (), k')"
  shows "step_done kube job plan st k k'"
proof -
  obtain w where w: "apply_decide (kube_view kube k) job plan st = Inr w"
    using assms by (auto simp: apply_step_def split: sum.splits)
  then have "check_identity (kube_view kube k) job plan = Inr ()" by (auto simp: apply_decide_def go_result_simps)
  then have ident: "j_Action job = ''revoke''
      \<longrightarrow> get_ServiceAccount (kube_view kube k) (plan_Namespace plan) (plan_Name plan) = Inr (j_UID job)"
    by (auto simp: check_identity_def split: sum.splits ApiError.splits if_splits)
  have untouched: "w = NoWrite \<longrightarrow> k' = k" using assms w by (auto simp: apply_step_def)
  have ran: "write_outcome w (fst (kube_exec kube k w)) = Inr () \<and> snd (kube_exec kube k w) = k'" if "w \<noteq> NoWrite"
    using assms w that by (cases w) (auto simp: apply_step_def map_prod_def prod_eq_iff split: prod.splits)
  have del: "deleted kube w k k'" if "w = DeleteServiceAccount a b c \<or> w = DeleteSecret a b c d" for a b c d
    using that ran
    by (cases "kube_exec kube k w") (auto simp: deleted_def write_outcome_def split: sum.splits if_splits)
  have upd: "kube_exec kube k w = (Inr (), k')" if "w = UpdateRoleBinding a b \<or> w = UpdateClusterRoleBinding b" for a b
    using that ran
    by (cases "kube_exec kube k w") (auto simp: write_outcome_def split: sum.splits if_splits)
  from w ident consider
      (account) "step_Kind st = ''ServiceAccount''" "w = DeleteServiceAccount (step_Namespace st) (step_Name st) (step_UID st)"
    | (secret) "step_Kind st = ''Secret''"
        "w = DeleteSecret (step_Namespace st) (step_Name st) (step_UID st) (step_ResourceVersion st)"
    | (role) "step_Kind st = ''RoleBinding''"
        "decide_binding (get_RoleBinding (kube_view kube k) (step_Namespace st) (step_Name st)) (UpdateRoleBinding (step_Namespace st)) st = Inr w"
    | (cluster) "step_Kind st = ''ClusterRoleBinding''"
        "decide_binding (get_ClusterRoleBinding (kube_view kube k) (step_Name st)) UpdateClusterRoleBinding st = Inr w"
    by (auto simp: apply_decide_def go_result_simps split: if_splits)
  then show ?thesis
  proof cases
    case account
    with del ident show ?thesis by (simp add: step_done_def)
  next
    case secret
    with del ident show ?thesis by (simp add: step_done_def)
  next
    case role
    have "rebound kube (get_RoleBinding (kube_view kube k) (step_Namespace st) (step_Name st)) (UpdateRoleBinding (step_Namespace st)) st k k'"
    proof (rule decide_binding_rebound [OF role(2)])
      show "w = NoWrite \<longrightarrow> k' = k" by (rule untouched)
      show "\<forall>b. w = UpdateRoleBinding (step_Namespace st) b \<longrightarrow> kube_exec kube k (UpdateRoleBinding (step_Namespace st) b) = (Inr (), k')"
        using upd by auto
    qed
    with role(1) ident show ?thesis by (simp add: step_done_def)
  next
    case cluster
    have "rebound kube (get_ClusterRoleBinding (kube_view kube k) (step_Name st)) UpdateClusterRoleBinding st k k'"
    proof (rule decide_binding_rebound [OF cluster(2)])
      show "w = NoWrite \<longrightarrow> k' = k" by (rule untouched)
      show "\<forall>b. w = UpdateClusterRoleBinding b \<longrightarrow> kube_exec kube k (UpdateClusterRoleBinding b) = (Inr (), k')"
        using upd by auto
    qed
    with cluster(1) ident show ?thesis by (simp add: step_done_def)
  qed
qed

text \<open>The steps a job has counted were carried out, in their order, by works on this job.\<close>

definition progressed :: "PlanCodec \<Rightarrow> 'k Kube \<Rightarrow> (string \<times> 'k \<times> 'k) list \<Rightarrow> Job \<Rightarrow> bool" where
  "progressed cd kube hist j \<longleftrightarrow> 0 \<le> j_NextStep j \<and> (case pc_unmarshal cd (j_Plan j) of
     None \<Rightarrow> True
   | Some plan \<Rightarrow> (\<exists>works. subseq works hist \<and>
       list_all2 (\<lambda>st (jid, k, k'). jid = j_ID j \<and> step_done kube j plan st k k')
         (take (nat (j_NextStep j)) (plan_Steps plan)) works))"

lemma progressed_fresh: "j_NextStep j = 0 \<Longrightarrow> progressed cd kube hist j"
  by (simp add: progressed_def split: option.split)

lemma progressed_mono: "progressed cd kube hist j \<Longrightarrow> progressed cd kube (hist @ new) j"
  by (auto simp: progressed_def split: option.splits intro: list_emb_append2 subseq_rev_drop_many)

lemma progressed_cong:
  assumes "same_identity j' j" and "j_NextStep j' = j_NextStep j"
  shows "progressed cd kube hist j' \<longleftrightarrow> progressed cd kube hist j"
proof -
  have "step_done kube j' plan st k k' \<longleftrightarrow> step_done kube j plan st k k'" for plan st k k'
    using assms(1) by (simp add: step_done_def same_identity_def)
  with assms show ?thesis by (simp add: progressed_def same_identity_def cong: option.case_cong)
qed

lemma progressed_work:
  assumes work: "work cd kube factory job k = (err, job', done_all, k')" and old: "progressed cd kube hist job"
  shows "progressed cd kube (hist @ [(j_ID job, k, k')]) job'"
proof (cases "j_NextStep job' = j_NextStep job")
  case True
  with work_effect [OF work] progressed_mono [OF old] show ?thesis using progressed_cong by blast
next
  case False
  with work_effect [OF work] obtain plan where plan: "check_plan cd job = Inr plan"
    and nx: "j_NextStep job' = j_NextStep job + 1" "j_NextStep job < int (length (plan_Steps plan))"
    and ap: "apply_step kube job plan (plan_Steps plan ! nat (j_NextStep job)) k = (Inr (), k')"
    and same: "same_identity job' job" by blast
  have dec: "pc_unmarshal cd (j_Plan job) = Some plan"
    using plan by (auto simp: check_plan_def split: option.splits if_splits)
  have nonneg: "0 \<le> j_NextStep job" using old by (simp add: progressed_def)
  from old dec obtain works where works: "subseq works hist"
    "list_all2 (\<lambda>st (jid, k, k'). jid = j_ID job \<and> step_done kube job plan st k k')
       (take (nat (j_NextStep job)) (plan_Steps plan)) works" by (auto simp: progressed_def)
  have "take (nat (j_NextStep job + 1)) (plan_Steps plan)
      = take (nat (j_NextStep job)) (plan_Steps plan) @ [plan_Steps plan ! nat (j_NextStep job)]"
    using nx nonneg by (simp add: nat_add_distrib take_Suc_conv_app_nth)
  moreover have "subseq (works @ [(j_ID job, k, k')]) (hist @ [(j_ID job, k, k')])"
    using works(1) by (simp add: list_emb_append_mono)
  ultimately have "progressed cd kube (hist @ [(j_ID job, k, k')]) (job\<lparr>j_NextStep := j_NextStep job + 1\<rparr>)"
    using works(2) apply_step_done [OF ap] nonneg dec
    by (auto simp: progressed_def step_done_def intro!: list_all2_appendI exI [of _ "works @ [(j_ID job, k, k')]"])
  moreover have "same_identity job' (job\<lparr>j_NextStep := j_NextStep job + 1\<rparr>)"
    using same by (simp add: same_identity_def)
  ultimately show ?thesis using progressed_cong nx(1) by (metis (no_types) Job.select_convs(11) Job.surjective Job.update_convs(11))
qed

definition progress_inv :: "PlanCodec \<Rightarrow> 'k Kube \<Rightarrow> 'k World \<Rightarrow> bool" where
  "progress_inv cd kube w \<longleftrightarrow> world_inv cd w \<and>
     (\<forall>j \<in> set (md_jobs (wd_db w)) \<union> set (wd_held w). progressed cd kube (wd_history w) j)"

lemma progress_inv_rows:
  assumes "progress_inv cd kube w" and "world_inv cd w'" and "wd_history w' = wd_history w @ new"
    and "\<And>j. j \<in> set (md_jobs (wd_db w')) \<union> set (wd_held w') \<Longrightarrow>
      progressed cd kube (wd_history w @ new) j
      \<or> (\<exists>i \<in> set (md_jobs (wd_db w)) \<union> set (wd_held w). same_identity j i \<and> j_NextStep j = j_NextStep i)"
  shows "progress_inv cd kube w'"
  using assms progressed_mono progressed_cong unfolding progress_inv_def by metis

lemma progress_preserved:
  assumes step: "mutation_step cd kube factory w w'" and inv: "progress_inv cd kube w"
  shows "progress_inv cd kube w'"
proof -
  have world: "world_inv cd w" using inv by (simp add: progress_inv_def)
  note ok = mutation_step_preserves [OF step world]
  show ?thesis using step
  proof cases
    case (preview_step jid now sa actorID actor action plan r db')
    show ?thesis
      by (rule progress_inv_rows [OF inv ok, of "[]"])
         (use preview_step in \<open>auto simp: SavePreview_def Let_def new_job_def same_identity_def
            intro!: progressed_fresh split: if_splits\<close>)
  next
    case (queue_step now jid digest actorID r db')
    show ?thesis
    proof (rule progress_inv_rows [OF inv ok, of "[]"])
      fix j
      assume "j \<in> set (md_jobs (wd_db w')) \<union> set (wd_held w')"
      then show "progressed cd kube (wd_history w @ []) j
          \<or> (\<exists>i \<in> set (md_jobs (wd_db w)) \<union> set (wd_held w). same_identity j i \<and> j_NextStep j = j_NextStep i)"
        using queue_step by (fastforce simp: Queue_def Let_def set_job_def same_identity_def find_Some_iff split: option.splits if_splits)
    qed (use queue_step in simp)
  next
    case (queue_deletion_step now sa actorID actor job db')
    show ?thesis
      by (rule progress_inv_rows [OF inv ok, of "[]"])
         (use queue_deletion_step in \<open>auto simp: QueueDeletion_def Let_def new_job_def same_identity_def
            intro!: progressed_fresh split: option.splits\<close>)
  next
    case (claim_step token now jid job db')
    show ?thesis
    proof (rule progress_inv_rows [OF inv ok, of "[]"])
      fix j
      assume "j \<in> set (md_jobs (wd_db w')) \<union> set (wd_held w')"
      then show "progressed cd kube (wd_history w @ []) j
          \<or> (\<exists>i \<in> set (md_jobs (wd_db w)) \<union> set (wd_held w). same_identity j i \<and> j_NextStep j = j_NextStep i)"
        using claim_step by (fastforce simp: claim_def Let_def set_job_def same_identity_def find_Some_iff split: option.splits if_splits)
    qed (use claim_step in simp)
  next
    case (finish_step job err job' done_all k' later r db')
    have "progressed cd kube (wd_history w) job" using inv finish_step(2) by (simp add: progress_inv_def)
    note worked = progressed_work [OF finish_step(3) this]
    show ?thesis
    proof (rule progress_inv_rows [OF inv ok, of "[(j_ID job, wd_kube w, k')]"])
      fix j
      assume j: "j \<in> set (md_jobs (wd_db w')) \<union> set (wd_held w')"
      show "progressed cd kube (wd_history w @ [(j_ID job, wd_kube w, k')]) j
          \<or> (\<exists>i \<in> set (md_jobs (wd_db w)) \<union> set (wd_held w). same_identity j i \<and> j_NextStep j = j_NextStep i)"
      proof (cases "j \<in> set (md_jobs (wd_db w)) \<union> set (wd_held w)")
        case True
        then show ?thesis by (auto simp: same_identity_def)
      next
        case False
        with finish_step(4) j obtain row row' where row: "row \<in> set (md_jobs (wd_db w))" "j_ID row = j_ID job'"
            "j_LeaseToken row = j_LeaseToken job'" "j_Status row = ''running''" "j = row'"
            and row': "same_identity row' row" "j_NextStep row' = j_NextStep job'"
          by (cases rule: finish_cases)
             (auto simp: finish_step(1) same_identity_def split: if_splits dest: set_remove1_subset [THEN subsetD])
        have eff: "same_identity job' job" "j_LeaseToken job' = j_LeaseToken job" using work_effect [OF finish_step(3)] by auto
        then have "row = job"
          using world finish_step(2) row(1-4) by (auto simp: world_inv_def same_identity_def)
        then have "same_identity j job'" using row'(1) eff(1) row(5) by (simp add: same_identity_def)
        with worked row(5) row'(2) progressed_cong show ?thesis by blast
      qed
    qed (use finish_step in simp)
  next
    case (death_step job err job' done_all k')
    show ?thesis
      by (rule progress_inv_rows [OF inv ok, of "[(j_ID job, wd_kube w, k')]"])
         (use death_step in \<open>auto simp: same_identity_def dest: set_remove1_subset [THEN subsetD]\<close>)
  next
    case (cluster_step k')
    with inv show ?thesis by (simp add: progress_inv_def world_inv_def)
  qed
qed

definition initial_world :: "'k \<Rightarrow> ServiceAccount list \<Rightarrow> 'k World" where
  "initial_world k accounts = \<lparr>wd_db = \<lparr>md_jobs = [], md_accounts = accounts, md_audit = []\<rparr>, wd_kube = k, wd_held = [], wd_tokens = {}, wd_history = []\<rparr>"

interpretation jobs: step_invariant "mutation_step cd kube factory" "progress_inv cd kube" "\<lambda>w. ()" for cd kube factory
  by unfold_locales (auto intro: progress_preserved)

definition sample_subject :: k8s_subject where
  "sample_subject = \<lparr>ks_Kind = ''ServiceAccount'', ks_APIGroup = [], ks_Name = ''sa'', ks_Namespace = []\<rparr>"

definition sample_user_subject :: k8s_subject where
  "sample_user_subject = \<lparr>ks_Kind = ''User'', ks_APIGroup = GroupName, ks_Name = ''bob'', ks_Namespace = []\<rparr>"

definition kube_binding :: KubeBinding where
  "kube_binding = \<lparr>kb_Namespace = ''ns'', kb_Name = ''rb'', kb_UID = ''u1'', kb_ResourceVersion = ''7'',
     kb_Subjects = [sample_subject, sample_user_subject], kb_RoleRef = no_roleRef\<rparr>"

definition sample_cluster :: Cluster where
  "sample_cluster = \<lparr>get_ServiceAccount = (\<lambda>ns n. Inr ''u''), list_RoleBindings = Inr ([kube_binding], False),
     list_ClusterRoleBindings = Inr ([], False), list_Secrets = (\<lambda>_. Inr ([], False)),
     get_RoleBinding = (\<lambda>ns n. Inr kube_binding), get_ClusterRoleBinding = (\<lambda>n. Inl NotFound)\<rparr>"

definition sample_step :: Step where
  "sample_step = the (binding_step sample_sa ''RoleBinding'' kb_Namespace kb_Namespace kube_binding)"

definition sample_plan :: Plan where
  "sample_plan = plan_for sample_sa (replicate 25 sample_step) revoke_limitations"

definition sample_codec :: PlanCodec where
  "sample_codec = \<lparr>pc_marshal = (\<lambda>_. ''p''), pc_unmarshal = (\<lambda>_. Some sample_plan), pc_sha256 = (\<lambda>_. replicate 32 CHR 0x00)\<rparr>"

definition sample_job :: Job where
  "sample_job = (new_job sample_codec ''j1'' sample_sa 1 ''op'' ''revoke'' sample_plan ''queued'' 0)\<lparr>j_NextStep := 19, j_Attempts := 19\<rparr>"

subsection \<open>Properties\<close>

text \<open>
  Removing a service account from a subject list drops exactly its own entries, keeps the
  others in their order, and reports a change exactly when there was one; for an account with a
  namespace the dropped entries are exactly the subjects of kind ServiceAccount that the
  inventory resolver matches to the account, so what a revocation removes is what the resolver
  shows as directly bound.
\<close>

lemma removeSubject_removes_what_the_resolver_matches:
  assumes "sa_Namespace sa \<noteq> []"
  shows "removeSubject subjects sa ns =
      (filter (\<lambda>s. \<not> (ks_Kind s = ''ServiceAccount'' \<and> SubjectMatches s ns sa)) subjects,
       list_ex (\<lambda>s. ks_Kind s = ''ServiceAccount'' \<and> SubjectMatches s ns sa) subjects)"
proof -
  have "subject_is sa ns = (\<lambda>s. ks_Kind s = ''ServiceAccount'' \<and> SubjectMatches s ns sa)"
    using assms by (auto simp: subject_is_def SubjectMatches_def Let_def)
  then show ?thesis by (simp add: removeSubject_eq)
qed

lemma removeSubject_removes_what_the_resolver_matches_witness:
  "removeSubject [sample_subject, sample_user_subject] sample_sa ''ns'' = ([sample_user_subject], True)"
  using removeSubject_removes_what_the_resolver_matches [of sample_sa "[sample_subject, sample_user_subject]" "''ns''"]
  by (simp add: sample_sa_def sample_subject_def sample_user_subject_def SubjectMatches_def GroupName_def)

text \<open>
  A revocation preview is exact: when it succeeds, the listings were complete; a binding of
  the listing has a step exactly when the account is one of its direct subjects, and the step then
  restores everything but that subject and is pinned to the UID and the version that were read;
  and the other steps delete token secrets annotated with the name and the UID of the account.
\<close>

lemma Preview_revoke_exact:
  assumes "Preview client sa ''revoke'' = Inr plan"
  shows "\<exists>bs cbs secs. list_RoleBindings client = Inr (bs, False) \<and> list_ClusterRoleBindings client = Inr (cbs, False) \<and>
    list_Secrets client (sa_Namespace sa) = Inr (secs, False) \<and>
    set (plan_Steps plan) =
      {st. \<exists>b \<in> set bs. (\<exists>s \<in> set (kb_Subjects b). subject_is sa (kb_Namespace b) s) \<and>
         st = \<lparr>step_Kind = ''RoleBinding'', step_Namespace = kb_Namespace b, step_Name = kb_Name b, step_UID = kb_UID b,
           step_ResourceVersion = kb_ResourceVersion b, step_Before = kb_Subjects b,
           step_After = filter (\<lambda>s. \<not> subject_is sa (kb_Namespace b) s) (kb_Subjects b), step_RoleRef = kb_RoleRef b\<rparr>} \<union>
      {st. \<exists>b \<in> set cbs. (\<exists>s \<in> set (kb_Subjects b). subject_is sa [] s) \<and>
         st = \<lparr>step_Kind = ''ClusterRoleBinding'', step_Namespace = [], step_Name = kb_Name b, step_UID = kb_UID b,
           step_ResourceVersion = kb_ResourceVersion b, step_Before = kb_Subjects b,
           step_After = filter (\<lambda>s. \<not> subject_is sa [] s) (kb_Subjects b), step_RoleRef = kb_RoleRef b\<rparr>} \<union>
      {st. \<exists>s \<in> set secs. secret_step sa s = Some st} \<and>
    list_all (\<lambda>s. step_UID s \<noteq> [] \<and> step_ResourceVersion s \<noteq> []) (plan_Steps plan)"
  using assms
proof (cases rule: Preview_revoke_cases)
  case (1 bs cbs secs)
  have "set (plan_Steps plan) = {st. \<exists>b \<in> set bs. binding_step sa ''RoleBinding'' kb_Namespace kb_Namespace b = Some st} \<union>
      {st. \<exists>b \<in> set cbs. binding_step sa ''ClusterRoleBinding'' (\<lambda>_. []) (\<lambda>_. []) b = Some st} \<union>
      {st. \<exists>s \<in> set secs. secret_step sa s = Some st}"
    unfolding 1(4) by auto
  with 1(1-3,5) show ?thesis unfolding binding_step_Some_iff list_ex_iff by blast
qed

lemma Preview_revoke_exact_witness:
  "list_all (\<lambda>s. step_UID s \<noteq> [] \<and> step_ResourceVersion s \<noteq> []) (plan_Steps (plan_for sample_sa [sample_step] revoke_limitations))"
proof -
  have "Preview sample_cluster sample_sa ''revoke'' = Inr (plan_for sample_sa [sample_step] revoke_limitations)"
    by code_simp
  from Preview_revoke_exact [OF this] show ?thesis by blast
qed

text \<open>
  C10. What a step may write is confined to what was previewed: a binding is updated only when it
  still has the UID, role reference, version and subjects that the step recorded, and only its
  subjects change, to the recorded ones; deletions name the recorded object and UID; a revocation
  writes nothing once the account has been replaced. A binding already in the final state is
  accepted without a write, so a step repeated after a crash changes nothing.
\<close>

theorem apply_writes_confined:
  assumes "apply_decide c job plan step = Inr w"
  shows "(j_Action job = ''revoke'' \<longrightarrow> get_ServiceAccount c (plan_Namespace plan) (plan_Name plan) = Inr (j_UID job)) \<and>
    (case w of
       NoWrite \<Rightarrow> True
     | DeleteServiceAccount ns n uid \<Rightarrow> step_Kind step = ''ServiceAccount'' \<and> (ns, n, uid) = (step_Namespace step, step_Name step, step_UID step)
     | DeleteSecret ns n uid rv \<Rightarrow> step_Kind step = ''Secret'' \<and>
         (ns, n, uid, rv) = (step_Namespace step, step_Name step, step_UID step, step_ResourceVersion step)
     | UpdateRoleBinding ns b' \<Rightarrow> ns = step_Namespace step \<and> (\<exists>b. get_RoleBinding c ns (step_Name step) = Inr b \<and>
         kb_UID b = step_UID step \<and> kb_RoleRef b = step_RoleRef step \<and> kb_ResourceVersion b = step_ResourceVersion step \<and>
         kb_Subjects b = step_Before step \<and> b' = b\<lparr>kb_Subjects := step_After step\<rparr>)
     | UpdateClusterRoleBinding b' \<Rightarrow> (\<exists>b. get_ClusterRoleBinding c (step_Name step) = Inr b \<and>
         kb_UID b = step_UID step \<and> kb_RoleRef b = step_RoleRef step \<and> kb_ResourceVersion b = step_ResourceVersion step \<and>
         kb_Subjects b = step_Before step \<and> b' = b\<lparr>kb_Subjects := step_After step\<rparr>))"
proof -
  have ident: "check_identity c job plan = Inr ()" using assms by (auto simp: apply_decide_def go_result_simps)
  have "j_Action job = ''revoke'' \<longrightarrow> get_ServiceAccount c (plan_Namespace plan) (plan_Name plan) = Inr (j_UID job)"
    using ident by (auto simp: check_identity_def split: sum.splits ApiError.splits if_splits)
  moreover have upd: "decide_binding r upd step = Inr w \<Longrightarrow> w = NoWrite \<or> (\<exists>b. r = Inr b \<and> kb_UID b = step_UID step \<and>
      kb_RoleRef b = step_RoleRef step \<and> kb_ResourceVersion b = step_ResourceVersion step \<and> kb_Subjects b = step_Before step \<and>
      w = upd (b\<lparr>kb_Subjects := step_After step\<rparr>))" for r upd
    using decide_binding_Inr by blast
  ultimately show ?thesis
    using assms
    by (auto simp: apply_decide_def ident split: if_splits dest!: upd)
qed

theorem apply_writes_confined_witness:
  "\<exists>b. get_RoleBinding sample_cluster ''ns'' ''rb'' = Inr b \<and> kb_Subjects b = step_Before sample_step"
proof -
  have st: "step_Namespace sample_step = ''ns''" "step_Name sample_step = ''rb''" by code_simp+
  have "apply_decide sample_cluster sample_job sample_plan sample_step =
      Inr (UpdateRoleBinding ''ns'' (kube_binding\<lparr>kb_Subjects := step_After sample_step\<rparr>))" by code_simp
  from apply_writes_confined [OF this] show ?thesis using st by auto
qed

text \<open>
  C9. Whatever the interleaving of previews, confirmations, workers, lost leases, dead workers and
  changes of the cluster by others, a job is marked as succeeded only when every step of its
  digest-checked plan was carried out: the history of the run contains, in the order of the plan,
  one work on this very job for each step, between whose two cluster states the recorded object was deleted
  (or was gone), or the binding lost exactly the recorded subjects (or had lost them, or was gone); for a revocation
  the account still had its UID each time.
\<close>

theorem succeeded_jobs_are_complete:
  assumes "(mutation_step cd kube factory)\<^sup>*\<^sup>* (initial_world k accounts) w"
    and "j \<in> set (md_jobs (wd_db w))" and "j_Status j = ''succeeded''"
  shows "\<exists>plan works. pc_unmarshal cd (j_Plan j) = Some plan \<and> j_Digest j = plan_digest cd plan \<and>
      subseq works (wd_history w) \<and>
      list_all2 (\<lambda>st (jid, k, k'). jid = j_ID j \<and> step_done kube j plan st k k') (plan_Steps plan) works"
proof -
  have "progress_inv cd kube (initial_world k accounts)"
    by (simp add: progress_inv_def world_inv_def initial_world_def)
  from jobs.reachable_inv [OF assms(1) this] assms(2,3)
  have "completed cd j" "progressed cd kube (wd_history w) j" by (auto simp: progress_inv_def world_inv_def)
  then show ?thesis by (fastforce simp: completed_def progressed_def split: option.splits)
qed

definition deletion_codec :: PlanCodec where
  "deletion_codec = sample_codec\<lparr>pc_unmarshal := (\<lambda>_. Some (plan_for sample_sa [deletion_step sample_sa] []))\<rparr>"

definition idle_kube :: "unit Kube" where
  "idle_kube = \<lparr>kube_view = (\<lambda>_. sample_cluster), kube_exec = (\<lambda>k w. (Inl ApiUnavailable, k))\<rparr>"

definition recording_kube :: "Write list Kube" where
  "recording_kube = \<lparr>kube_view = (\<lambda>_. sample_cluster), kube_exec = (\<lambda>k w. (Inr (), k @ [w]))\<rparr>"

definition world1 :: "Write list World" where
  "world1 = (initial_world ([] :: Write list) [])\<lparr>wd_db := snd (QueueDeletion deletion_codec 0 (wd_db (initial_world ([] :: Write list) [])) sample_sa 1 ''op'')\<rparr>"

definition claimed_job :: Job where
  "claimed_job = the (fst (claim 1 ''t'' [] (wd_db world1)))"

definition world2 :: "Write list World" where
  "world2 = world1\<lparr>wd_db := snd (claim 1 ''t'' [] (wd_db world1)), wd_held := claimed_job # wd_held world1,
     wd_tokens := insert ''t'' (wd_tokens world1)\<rparr>"

definition finished_job :: Job where
  "finished_job = claimed_job\<lparr>j_NextStep := 1\<rparr>"

definition world3 :: "Write list World" where
  "world3 = world2\<lparr>wd_db := snd (finish 2 None finished_job True (wd_db world2)), wd_kube := [DeleteServiceAccount ''ns'' ''sa'' ''u''], wd_held := remove1 claimed_job (wd_held world2),
     wd_history := wd_history world2 @ [(j_ID claimed_job, wd_kube world2, [DeleteServiceAccount ''ns'' ''sa'' ''u''])]\<rparr>"

theorem succeeded_jobs_are_complete_witness:
  "\<exists>k. wd_history world3 = [(j_ID claimed_job, k, k @ [DeleteServiceAccount ''ns'' ''sa'' ''u''])]"
proof -
  let ?step = "mutation_step deletion_codec recording_kube (\<lambda>_. True)"
  have "?step (initial_world ([] :: Write list) []) world1"
    unfolding world1_def by (rule queue_deletion_step) (rule prod.collapse [symmetric])
  moreover have "?step world1 world2"
    unfolding world2_def
  proof (rule claim_step)
    show "''t'' \<notin> wd_tokens world1" by (simp add: world1_def initial_world_def)
    have "fst (claim 1 ''t'' [] (wd_db world1)) \<noteq> None" by code_simp
    then show "claim 1 ''t'' [] (wd_db world1) = (Some claimed_job, snd (claim 1 ''t'' [] (wd_db world1)))"
      by (auto simp: claimed_job_def prod_eq_iff)
  qed simp
  moreover have "?step world2 world3"
    unfolding world3_def
  proof (rule finish_step)
    show "claimed_job \<in> set (wd_held world2)" by (simp add: world2_def)
    show "work deletion_codec recording_kube (\<lambda>_. True) claimed_job (wd_kube world2) = (None, finished_job, True, [DeleteServiceAccount ''ns'' ''sa'' ''u''])" by code_simp
  qed (rule prod.collapse [symmetric])
  ultimately have "?step\<^sup>*\<^sup>* (initial_world ([] :: Write list) []) world3" by (meson rtranclp.rtrancl_refl rtranclp.rtrancl_into_rtrancl)
  note run = this
  have "map j_Status (md_jobs (wd_db world3)) = [''succeeded'']" by code_simp
  then have "hd (md_jobs (wd_db world3)) \<in> set (md_jobs (wd_db world3))" "j_Status (hd (md_jobs (wd_db world3))) = ''succeeded''"
    by auto
  from succeeded_jobs_are_complete [OF run this] obtain works where
    works: "subseq works (wd_history world3)"
      "list_all2 (\<lambda>st (jid, k, k'). jid = j_ID (hd (md_jobs (wd_db world3)))
         \<and> step_done recording_kube (hd (md_jobs (wd_db world3))) (plan_for sample_sa [deletion_step sample_sa] []) st k k')
       [deletion_step sample_sa] works"
    by (auto simp: deletion_codec_def plan_for_def)
  then obtain jid k k' where one: "works = [(jid, k, k')]"
    and dn: "step_done recording_kube (hd (md_jobs (wd_db world3))) (plan_for sample_sa [deletion_step sample_sa] []) (deletion_step sample_sa) k k'"
    by (auto simp: list_all2_Cons1)
  have "deleted recording_kube (DeleteServiceAccount ''ns'' ''sa'' ''u'') k k'"
    using dn by (simp add: step_done_def deletion_step_def sample_sa_def)
  then have "k' = k @ [DeleteServiceAccount ''ns'' ''sa'' ''u'']" by (simp add: deleted_def recording_kube_def)
  moreover have hist: "wd_history world3 = [(j_ID claimed_job, wd_kube world2, [DeleteServiceAccount ''ns'' ''sa'' ''u''])]"
    by (simp add: world3_def world2_def world1_def initial_world_def)
  have "(jid, k, k') = (j_ID claimed_job, wd_kube world2, [DeleteServiceAccount ''ns'' ''sa'' ''u''])"
    using works(1) unfolding one hist by (auto split: if_split_asm)
  ultimately show ?thesis using hist by auto
qed

text \<open>
  The work of one claim and its outcome: progress moves by one step and only after that step
  was applied without an error; the finishing transaction of a worker whose lease was taken over
  leaves the database as it is.
\<close>

lemma Process_progress_and_lease:
  "(case work cd kube factory job k of (err, job', done_all, k') \<Rightarrow>
      j_NextStep job' = j_NextStep job \<or>
      (\<exists>plan. err = None \<and> check_plan cd job = Inr plan \<and> j_NextStep job' = j_NextStep job + 1 \<and>
         j_NextStep job < int (length (plan_Steps plan)) \<and>
         apply_step kube job plan (plan_Steps plan ! nat (j_NextStep job)) k = (Inr (), k'))) \<and>
   (finish later err0 job done0 db = (Inl LeaseLost, db) \<or>
      list_ex (\<lambda>j. j_ID j = j_ID job \<and> j_LeaseToken j = j_LeaseToken job \<and> j_Status j = ''running'') (md_jobs db))"
proof
  obtain err job' done_all k' where run: "work cd kube factory job k = (err, job', done_all, k')" by (metis prod_cases4)
  show "case work cd kube factory job k of (err, job', done_all, k') \<Rightarrow>
      j_NextStep job' = j_NextStep job \<or>
      (\<exists>plan. err = None \<and> check_plan cd job = Inr plan \<and> j_NextStep job' = j_NextStep job + 1 \<and>
         j_NextStep job < int (length (plan_Steps plan)) \<and>
         apply_step kube job plan (plan_Steps plan ! nat (j_NextStep job)) k = (Inr (), k'))"
    using work_effect [OF run] by (auto simp: run)
  obtain r db' where fin: "finish later err0 job done0 db = (r, db')" by fastforce
  then show "finish later err0 job done0 db = (Inl LeaseLost, db) \<or>
      list_ex (\<lambda>j. j_ID j = j_ID job \<and> j_LeaseToken j = j_LeaseToken job \<and> j_Status j = ''running'') (md_jobs db)"
    by (cases rule: finish_cases) (use fin in \<open>auto simp: list_ex_iff\<close>)
qed

text \<open>
  The limit on retries counts claims, not failures: a job that has applied nineteen steps, each
  at the first attempt, is blocked by its first temporary failure.
\<close>

lemma first_failure_of_a_long_plan_blocks:
  assumes "j_NextStep job = 19" and "j_Attempts job = 19" and "claim now token jid db = (Some claimed, db1)"
    and "claimed = job\<lparr>j_LeaseToken := token, j_LeaseUntil := Some (now + seconds 45), j_Status := ''running'', j_Attempts := j_Attempts job + 1\<rparr>"
    and "work cd kube factory claimed k = (Some (ApiFailure ApiUnavailable), job', False, k')"
    and "finish later (Some (ApiFailure ApiUnavailable)) job' False db1 = (Inr (), db2)"
  shows "\<exists>j \<in> set (md_jobs db2). j_ID j = j_ID job \<and> j_Status j = ''blocked''"
  using assms(6)
proof (cases rule: finish_cases)
  case (kept row row')
  have "j_Attempts job' = 20" "j_ID job' = j_ID job"
    using work_effect [OF assms(5)] assms(2,4) by (auto simp: same_identity_def)
  then have "j_Status row' = ''blocked''" "j_ID row' = j_ID job"
    using kept(3,6) by (simp_all add: outcome_status_def permanent_def MaxAttempts_def)
  moreover have "row' \<in> set (md_jobs db2)" using kept(2,7) by auto
  ultimately show ?thesis by blast
qed simp

definition sample_jobs :: MutationDb where
  "sample_jobs = \<lparr>md_jobs = [sample_job], md_accounts = [], md_audit = []\<rparr>"

definition sample_claimed :: Job where
  "sample_claimed = sample_job\<lparr>j_LeaseToken := ''t'', j_LeaseUntil := Some (1 + seconds 45), j_Status := ''running'', j_Attempts := j_Attempts sample_job + 1\<rparr>"

lemma first_failure_of_a_long_plan_blocks_witness:
  "\<exists>j \<in> set (md_jobs (snd (finish 2 (Some (ApiFailure ApiUnavailable)) sample_claimed False (snd (claim 1 ''t'' [] sample_jobs))))).
     j_ID j = ''j1'' \<and> j_Status j = ''blocked''"
proof -
  have id: "j_ID sample_job = ''j1''" by code_simp
  have "j_NextStep sample_job = 19" "j_Attempts sample_job = 19" by code_simp+
  moreover have "claim 1 ''t'' [] sample_jobs = (Some sample_claimed, snd (claim 1 ''t'' [] sample_jobs))"
    unfolding prod_eq_iff by (intro conjI) (code_simp, simp)
  moreover have "work sample_codec idle_kube (\<lambda>_. True) sample_claimed () = (Some (ApiFailure ApiUnavailable), sample_claimed, False, ())"
    by code_simp
  moreover have "finish 2 (Some (ApiFailure ApiUnavailable)) sample_claimed False (snd (claim 1 ''t'' [] sample_jobs)) =
      (Inr (), snd (finish 2 (Some (ApiFailure ApiUnavailable)) sample_claimed False (snd (claim 1 ''t'' [] sample_jobs))))"
    unfolding prod_eq_iff by (intro conjI) (code_simp, simp)
  ultimately show ?thesis
    using first_failure_of_a_long_plan_blocks [of sample_job 1 "''t''" "[]" sample_jobs sample_claimed] id
    by (fastforce simp: sample_claimed_def)
qed

end
