(* ===== verification/Sbom_Queue.thy ===== *)
theory Sbom_Queue
  imports Go_Prelude
begin

section \<open>The SBOM work queue of the agent: agent/internal/sbom/queue.go\<close>

text \<open>
  The queue hands pods to a pool of workers, retries a pod whose report could not be sent and, after
  the retries, leaves it to a periodic reconciliation. The channel is a list of at most 30 pods.
  Every critical section of the mutex and every channel operation is a step of its own, so that the
  other goroutines can run between two of them. Beside the fields of the Go struct the state
  therefore names the pods by the point a goroutine has reached with them: processed by a worker,
  out of retries, about to leave the active set, waiting for the retry delay, refused by the full
  channel after that delay, and snapshot by the reconciliation but not yet enqueued again. A map
  with a zero default is a function; a map that is ranged over is the list of its values, and the
  snapshot takes them in any order. Stopping the queue is not modelled.
\<close>

subsection \<open>State\<close>

definition maxSendRetries :: nat where
  "maxSendRetries = 3"

definition queue_capacity :: nat where
  "queue_capacity = 30"

record QPod =
  qp_UID :: string
  qp_Namespace :: string
  qp_Name :: string

record WorkQueue =
  wq_workers :: nat
  wq_queue :: "QPod list"
  wq_active :: "string set"
  wq_retryCount :: "string \<Rightarrow> nat"
  wq_failedPods :: "QPod list"
  wq_succeeded :: "string set"
  wq_processing :: "QPod list"
  wq_exhausted :: "QPod list"
  wq_releasing :: "QPod list"
  wq_timers :: "QPod list"
  wq_refused :: "QPod list"
  wq_toRetry :: "QPod list"

definition NewWorkQueue :: "nat \<Rightarrow> WorkQueue" where
  "NewWorkQueue workers = \<lparr>wq_workers = workers, wq_queue = [], wq_active = {}, wq_retryCount = (\<lambda>_. 0), wq_failedPods = [],
     wq_succeeded = {}, wq_processing = [], wq_exhausted = [], wq_releasing = [], wq_timers = [], wq_refused = [],
     wq_toRetry = []\<rparr>"

definition podKey :: "QPod option \<Rightarrow> string" where
  "podKey pod = (case pod of None \<Rightarrow> [] | Some p \<Rightarrow> qp_UID p)"

subsection \<open>Which errors are retried\<close>

definition isTransientSendError :: "string option \<Rightarrow> bool" where
  "isTransientSendError err = (case err of
     None \<Rightarrow> False
   | Some e \<Rightarrow>
       let s = ToLower e
       in Contains s ''client not connected'' \<or> Contains s ''connect before sbom'' \<or> Contains s ''connect before combinedfinding'' \<or>
          Contains s ''connection refused'' \<or> Contains s ''connection reset'' \<or> Contains s ''unavailable'' \<or>
          Contains s ''deadline exceeded'' \<or> Contains s ''no such host'' \<or>
          (Contains s (''relation '' @ [CHR 0x22] @ ''sboms'' @ [CHR 0x22] @ '' does not exist'') \<or>
           Contains s (''relation '' @ [CHR 0x22] @ ''sbom_components'' @ [CHR 0x22] @ '' does not exist'')) \<or>
          Contains s ''dial tcp'' \<and> (Contains s ''i/o timeout'' \<or> Contains s ''refused''))"

subsection \<open>Operations\<close>

definition Enqueue :: "QPod option \<Rightarrow> WorkQueue \<Rightarrow> bool \<times> WorkQueue" where
  "Enqueue pod q = (case pod of
     None \<Rightarrow> (False, q)
   | Some p \<Rightarrow>
       let key = podKey (Some p)
       in if key \<in> wq_active q then (False, q)
          else if length (wq_queue q) < queue_capacity
          then (True, q\<lparr>wq_queue := wq_queue q @ [p], wq_active := insert key (wq_active q)\<rparr>)
          else (False, q\<lparr>wq_active := wq_active q - {key}\<rparr>))"

text \<open>A worker that is free receives the head of the channel.\<close>

definition busy_workers :: "WorkQueue \<Rightarrow> nat" where
  "busy_workers q = length (wq_processing q) + length (wq_exhausted q) + length (wq_releasing q)"

definition worker_take :: "WorkQueue \<Rightarrow> (QPod \<times> WorkQueue) option" where
  "worker_take q = (case wq_queue q of
     [] \<Rightarrow> None
   | p # rest \<Rightarrow>
       if busy_workers q < wq_workers q
       then Some (p, q\<lparr>wq_queue := rest, wq_active := insert (podKey (Some p)) (wq_active q), wq_processing := p # wq_processing q\<rparr>)
       else None)"

text \<open>The worker when \<^verbatim>\<open>ProcessPod\<close> returned no error, and when it returned one.\<close>

definition worker_success :: "QPod \<Rightarrow> WorkQueue \<Rightarrow> WorkQueue" where
  "worker_success p q =
     (let key = podKey (Some p)
      in q\<lparr>wq_retryCount := (wq_retryCount q)(key := 0),
           wq_failedPods := filter (\<lambda>f. podKey (Some f) \<noteq> key) (wq_failedPods q),
           wq_succeeded := insert key (wq_succeeded q),
           wq_processing := remove1 p (wq_processing q), wq_releasing := p # wq_releasing q\<rparr>)"

definition worker_error :: "QPod \<Rightarrow> string \<Rightarrow> WorkQueue \<Rightarrow> WorkQueue" where
  "worker_error p err q0 =
     (let key = podKey (Some p);
          q = q0\<lparr>wq_processing := remove1 p (wq_processing q0)\<rparr>
      in if isTransientSendError (Some err) then
           let n = wq_retryCount q key + 1;
               q = q\<lparr>wq_retryCount := (wq_retryCount q)(key := n)\<rparr>
           in if n \<le> maxSendRetries then q\<lparr>wq_timers := p # wq_timers q\<rparr>
              else q\<lparr>wq_exhausted := p # wq_exhausted q\<rparr>
         else q\<lparr>wq_releasing := p # wq_releasing q\<rparr>)"

definition worker_gives_up :: "QPod \<Rightarrow> WorkQueue \<Rightarrow> WorkQueue" where
  "worker_gives_up p q =
     (let key = podKey (Some p)
      in q\<lparr>wq_retryCount := (wq_retryCount q)(key := 0),
           wq_failedPods := p # filter (\<lambda>f. podKey (Some f) \<noteq> key) (wq_failedPods q),
           wq_exhausted := remove1 p (wq_exhausted q), wq_releasing := p # wq_releasing q\<rparr>)"

definition worker_release :: "QPod \<Rightarrow> WorkQueue \<Rightarrow> WorkQueue" where
  "worker_release p q = q\<lparr>wq_active := wq_active q - {podKey (Some p)}, wq_releasing := remove1 p (wq_releasing q)\<rparr>"

text \<open>The goroutine of a retry, when its delay has passed and after the channel refused the pod.\<close>

definition timer_fires :: "QPod \<Rightarrow> WorkQueue \<Rightarrow> WorkQueue" where
  "timer_fires p q0 =
     (let q = q0\<lparr>wq_timers := remove1 p (wq_timers q0)\<rparr>
      in if length (wq_queue q) < queue_capacity then q\<lparr>wq_queue := wq_queue q @ [p]\<rparr>
         else q\<lparr>wq_refused := p # wq_refused q\<rparr>)"

definition retry_given_up :: "QPod \<Rightarrow> WorkQueue \<Rightarrow> WorkQueue" where
  "retry_given_up p q =
     (let key = podKey (Some p)
      in q\<lparr>wq_retryCount := (wq_retryCount q)(key := 0), wq_active := wq_active q - {key}, wq_refused := remove1 p (wq_refused q)\<rparr>)"

text \<open>The reconciliation: the snapshot, one further pod of it, and the whole without interruption.\<close>

definition reconcile_snapshot :: "QPod list \<Rightarrow> WorkQueue \<Rightarrow> WorkQueue" where
  "reconcile_snapshot order q =
     q\<lparr>wq_failedPods := [],
       wq_retryCount := (\<lambda>k. if k \<in> (\<lambda>p. podKey (Some p)) ` set order then 0 else wq_retryCount q k),
       wq_toRetry := wq_toRetry q @ order\<rparr>"

definition reconcile_next :: "WorkQueue \<Rightarrow> WorkQueue" where
  "reconcile_next q = (case wq_toRetry q of
     [] \<Rightarrow> q
   | p # rest \<Rightarrow> snd (Enqueue (Some p) (q\<lparr>wq_toRetry := rest\<rparr>)))"

definition reconcileFailedPods :: "QPod list \<Rightarrow> WorkQueue \<Rightarrow> WorkQueue" where
  "reconcileFailedPods order q =
     (if wq_failedPods q = [] then q
      else (reconcile_next ^^ length order) (reconcile_snapshot order q))"

definition QueueSize :: "WorkQueue \<Rightarrow> nat" where
  "QueueSize q = length (wq_queue q)"

definition ActiveCount :: "WorkQueue \<Rightarrow> nat" where
  "ActiveCount q = card (wq_active q)"

inductive queue_step :: "WorkQueue \<Rightarrow> WorkQueue \<Rightarrow> bool" where
  enqueue_step: "queue_step q (snd (Enqueue pod q))"
| take_step: "worker_take q = Some (p, q') \<Longrightarrow> queue_step q q'"
| success_step: "p \<in> set (wq_processing q) \<Longrightarrow> queue_step q (worker_success p q)"
| error_step: "p \<in> set (wq_processing q) \<Longrightarrow> queue_step q (worker_error p err q)"
| give_up_step: "p \<in> set (wq_exhausted q) \<Longrightarrow> queue_step q (worker_gives_up p q)"
| release_step: "p \<in> set (wq_releasing q) \<Longrightarrow> queue_step q (worker_release p q)"
| timer_step: "p \<in> set (wq_timers q) \<Longrightarrow> queue_step q (timer_fires p q)"
| refused_step: "p \<in> set (wq_refused q) \<Longrightarrow> queue_step q (retry_given_up p q)"
| snapshot_step: "mset order = mset (wq_failedPods q) \<Longrightarrow> queue_step q (reconcile_snapshot order q)"
| next_step: "queue_step q (reconcile_next q)"

inductive_cases queue_stepE: "queue_step q q'"

lemmas queue_op_defs = worker_success_def worker_error_def worker_gives_up_def worker_release_def timer_fires_def
  retry_given_up_def reconcile_snapshot_def Let_def

subsection \<open>Invariant\<close>

text \<open>
  Every pod that a goroutine or the channel holds is counted once: a step moves a pod from one place to
  another, takes in one whose UID is not active, or lets one go together with its entry of the active
  set. The three lemmas below are about these three kinds of step.
\<close>

definition held_pods :: "WorkQueue \<Rightarrow> QPod list" where
  "held_pods q = wq_queue q @ wq_processing q @ wq_exhausted q @ wq_releasing q @ wq_timers q @ wq_refused q"

definition held_inv :: "WorkQueue \<Rightarrow> bool" where
  "held_inv q \<longleftrightarrow> distinct (map qp_UID (held_pods q)) \<and> wq_active q = qp_UID ` set (held_pods q)"

definition retry_inv :: "WorkQueue \<Rightarrow> bool" where
  "retry_inv q \<longleftrightarrow> (\<forall>k. wq_retryCount q k \<le> maxSendRetries + (if k \<in> qp_UID ` set (wq_exhausted q) then 1 else 0))"

definition bounds_inv :: "WorkQueue \<Rightarrow> bool" where
  "bounds_inv q \<longleftrightarrow> length (wq_queue q) \<le> queue_capacity \<and> busy_workers q \<le> wq_workers q"

lemma podKey_Some [simp]: "podKey (Some p) = qp_UID p"
  by (simp add: podKey_def)

lemma held_inv_move:
  "held_inv q \<Longrightarrow> mset (held_pods q') = mset (held_pods q) \<Longrightarrow> wq_active q' = wq_active q \<Longrightarrow> held_inv q'"
  unfolding held_inv_def by (metis mset_eq_imp_distinct_iff mset_eq_setD mset_map)

lemma held_inv_add:
  assumes "held_inv q" "mset (held_pods q') = add_mset p (mset (held_pods q))" "qp_UID p \<notin> wq_active q"
    "wq_active q' = insert (qp_UID p) (wq_active q)"
  shows "held_inv q'"
proof -
  have "mset (held_pods q') = mset (p # held_pods q)" using assms(2) by simp
  then have "distinct (map qp_UID (held_pods q')) = distinct (map qp_UID (p # held_pods q))"
    and "set (held_pods q') = set (p # held_pods q)"
    by (metis mset_eq_imp_distinct_iff mset_map) (metis \<open>mset (held_pods q') = mset (p # held_pods q)\<close> mset_eq_setD)
  with assms show ?thesis by (simp add: held_inv_def)
qed

lemma held_inv_remove:
  assumes "held_inv q" "mset (held_pods q) = add_mset p (mset (held_pods q'))" "wq_active q' = wq_active q - {qp_UID p}"
  shows "held_inv q'"
proof -
  have eq: "mset (held_pods q) = mset (p # held_pods q')" using assms(2) by simp
  then have "distinct (map qp_UID (held_pods q)) = distinct (map qp_UID (p # held_pods q'))"
    and "set (held_pods q) = set (p # held_pods q')"
    by (metis mset_eq_imp_distinct_iff mset_map) (metis eq mset_eq_setD)
  with assms show ?thesis by (auto simp: held_inv_def)
qed

lemma in_mset_splitE:
  assumes "p \<in> set xs"
  obtains R where "mset xs = add_mset p R"
  using assms by (metis mset_add set_mset_mset)

lemma length_remove1_in: "p \<in> set xs \<Longrightarrow> Suc (length (remove1 p xs)) = length xs"
  by (induction xs) auto

lemma image_remove1_other: "k \<noteq> f p \<Longrightarrow> k \<in> f ` set (remove1 p xs) \<longleftrightarrow> k \<in> f ` set xs"
  by (induction xs) auto

lemma held_inv_init: "held_inv (NewWorkQueue workers)"
  by (simp add: held_inv_def NewWorkQueue_def held_pods_def)

lemma held_inv_Enqueue:
  assumes inv: "held_inv q"
  shows "held_inv (snd (Enqueue pod q))"
proof (cases pod)
  case (Some p)
  show ?thesis
  proof (cases "qp_UID p \<in> wq_active q")
    case False
    show ?thesis
    proof (cases "length (wq_queue q) < queue_capacity")
      case True
      with False Some show ?thesis
        by (intro held_inv_add [OF inv, of _ p]) (simp_all add: Enqueue_def held_pods_def)
    next
      case full: False
      with False Some show ?thesis
        by (intro held_inv_move [OF inv]) (simp_all add: Enqueue_def held_pods_def)
    qed
  qed (use Some inv in \<open>simp add: Enqueue_def\<close>)
qed (use inv in \<open>simp add: Enqueue_def\<close>)

lemma held_inv_take:
  assumes inv: "held_inv q" and t: "worker_take q = Some (p, q')"
  shows "held_inv q'"
proof (rule held_inv_move [OF inv])
  obtain rest where q: "wq_queue q = p # rest"
    and q': "q' = q\<lparr>wq_queue := rest, wq_active := insert (qp_UID p) (wq_active q), wq_processing := p # wq_processing q\<rparr>"
    using t by (auto simp: worker_take_def split: list.splits if_splits)
  show "mset (held_pods q') = mset (held_pods q)" by (simp add: held_pods_def q q')
  show "wq_active q' = wq_active q" using inv by (simp add: held_inv_def held_pods_def q q')
qed

lemma held_inv_success: "held_inv q \<Longrightarrow> p \<in> set (wq_processing q) \<Longrightarrow> held_inv (worker_success p q)"
  by (elim in_mset_splitE, erule held_inv_move) (simp_all add: worker_success_def held_pods_def Let_def)

lemma held_inv_error: "held_inv q \<Longrightarrow> p \<in> set (wq_processing q) \<Longrightarrow> held_inv (worker_error p err q)"
  by (elim in_mset_splitE, erule held_inv_move) (simp_all add: worker_error_def held_pods_def Let_def)

lemma held_inv_give_up: "held_inv q \<Longrightarrow> p \<in> set (wq_exhausted q) \<Longrightarrow> held_inv (worker_gives_up p q)"
  by (elim in_mset_splitE, erule held_inv_move) (simp_all add: worker_gives_up_def held_pods_def Let_def)

lemma held_inv_release: "held_inv q \<Longrightarrow> p \<in> set (wq_releasing q) \<Longrightarrow> held_inv (worker_release p q)"
  by (elim in_mset_splitE, erule held_inv_remove [of _ p]) (simp_all add: worker_release_def held_pods_def)

lemma held_inv_timer: "held_inv q \<Longrightarrow> p \<in> set (wq_timers q) \<Longrightarrow> held_inv (timer_fires p q)"
  by (elim in_mset_splitE, erule held_inv_move) (simp_all add: timer_fires_def held_pods_def Let_def)

lemma held_inv_refused: "held_inv q \<Longrightarrow> p \<in> set (wq_refused q) \<Longrightarrow> held_inv (retry_given_up p q)"
  by (elim in_mset_splitE, erule held_inv_remove [of _ p])
    (simp_all add: retry_given_up_def held_pods_def Let_def)

lemma held_inv_snapshot: "held_inv q \<Longrightarrow> held_inv (reconcile_snapshot order q)"
  by (erule held_inv_move) (simp_all add: reconcile_snapshot_def held_pods_def)

lemma held_inv_next: "held_inv q \<Longrightarrow> held_inv (reconcile_next q)"
  unfolding reconcile_next_def
  by (cases "wq_toRetry q") (auto intro!: held_inv_Enqueue elim: held_inv_move simp: held_pods_def)

lemma held_step: "queue_step q q' \<Longrightarrow> held_inv q \<Longrightarrow> held_inv q'"
  by (auto elim!: queue_stepE intro: held_inv_Enqueue held_inv_take held_inv_success held_inv_error held_inv_give_up
      held_inv_release held_inv_timer held_inv_refused held_inv_snapshot held_inv_next)

lemma processing_not_exhausted:
  "held_inv q \<Longrightarrow> p \<in> set (wq_processing q) \<Longrightarrow> qp_UID p \<notin> qp_UID ` set (wq_exhausted q)"
  by (auto simp: held_inv_def held_pods_def)

lemma retry_inv_init: "retry_inv (NewWorkQueue workers)"
  by (simp add: retry_inv_def NewWorkQueue_def)

lemma retry_inv_same:
  "retry_inv q \<Longrightarrow> wq_exhausted q' = wq_exhausted q \<Longrightarrow> (\<And>k. wq_retryCount q' k \<le> wq_retryCount q k) \<Longrightarrow> retry_inv q'"
  unfolding retry_inv_def by (metis order_trans)

lemma Enqueue_frame:
  "wq_exhausted (snd (Enqueue pod q)) = wq_exhausted q" "wq_retryCount (snd (Enqueue pod q)) = wq_retryCount q"
  "busy_workers (snd (Enqueue pod q)) = busy_workers q" "wq_workers (snd (Enqueue pod q)) = wq_workers q"
  "wq_failedPods (snd (Enqueue pod q)) = wq_failedPods q" "wq_toRetry (snd (Enqueue pod q)) = wq_toRetry q"
  by (auto simp: Enqueue_def Let_def busy_workers_def split: option.split)

lemma Enqueue_capacity:
  "length (wq_queue q) \<le> queue_capacity \<Longrightarrow> length (wq_queue (snd (Enqueue pod q))) \<le> queue_capacity"
  by (auto simp: Enqueue_def Let_def split: option.split)

lemma worker_take_cases:
  assumes "worker_take q = Some (p, q')"
  obtains rest where "wq_queue q = p # rest" "busy_workers q < wq_workers q"
    "q' = q\<lparr>wq_queue := rest, wq_active := insert (qp_UID p) (wq_active q), wq_processing := p # wq_processing q\<rparr>"
  using assms by (auto simp: worker_take_def split: list.splits if_splits)

lemma reconcile_next_frame:
  "wq_exhausted (reconcile_next q) = wq_exhausted q" "wq_retryCount (reconcile_next q) = wq_retryCount q"
  "busy_workers (reconcile_next q) = busy_workers q" "wq_workers (reconcile_next q) = wq_workers q"
  "wq_failedPods (reconcile_next q) = wq_failedPods q"
  by (auto simp: reconcile_next_def Enqueue_def Let_def busy_workers_def split: list.split)

lemma retry_inv_error:
  assumes "retry_inv q" "held_inv q" "p \<in> set (wq_processing q)"
  shows "retry_inv (worker_error p err q)"
proof -
  have "wq_retryCount q (qp_UID p) \<le> maxSendRetries"
    using assms processing_not_exhausted [of q p] by (auto simp: retry_inv_def split: if_splits)
  moreover have "wq_retryCount q k \<le> maxSendRetries + (if k \<in> qp_UID ` set (wq_exhausted q) then 1 else 0)" for k
    using assms(1) by (simp only: retry_inv_def)
  ultimately show ?thesis
    unfolding retry_inv_def worker_error_def by (auto simp: Let_def)
qed

lemma retry_inv_give_up: "retry_inv q \<Longrightarrow> retry_inv (worker_gives_up p q)"
  unfolding retry_inv_def worker_gives_up_def by (auto simp: Let_def image_remove1_other)

lemma retry_step:
  assumes "queue_step q q'" "retry_inv q" "held_inv q"
  shows "retry_inv q'"
  using assms(1)
proof cases
  case (take_step p)
  then show ?thesis using assms(2) by (auto elim!: worker_take_cases retry_inv_same)
next
  case (error_step p err)
  then show ?thesis using retry_inv_error assms by blast
next
  case (give_up_step p)
  then show ?thesis using retry_inv_give_up assms by blast
qed (use assms(2) in \<open>auto elim!: retry_inv_same simp: Enqueue_frame reconcile_next_frame worker_success_def worker_release_def
    timer_fires_def retry_given_up_def reconcile_snapshot_def Let_def\<close>)

lemma bounds_step:
  assumes "queue_step q q'" "bounds_inv q"
  shows "bounds_inv q'"
  using assms(1)
proof cases
  case (take_step p)
  then show ?thesis using assms(2) by (auto elim!: worker_take_cases simp: bounds_inv_def busy_workers_def)
next
  case (enqueue_step pod)
  then show ?thesis using assms(2) by (simp add: bounds_inv_def Enqueue_frame Enqueue_capacity)
next
  case next_step
  then show ?thesis using assms(2)
    by (auto simp: bounds_inv_def reconcile_next_frame) (auto simp: reconcile_next_def intro!: Enqueue_capacity split: list.split)
qed (use assms(2) length_remove1_in in \<open>fastforce simp: bounds_inv_def busy_workers_def worker_success_def worker_error_def worker_gives_up_def
    worker_release_def timer_fires_def retry_given_up_def reconcile_snapshot_def Let_def\<close>)+

lemma workers_step: "queue_step q q' \<Longrightarrow> wq_workers q' = wq_workers q"
  by (auto elim!: queue_stepE worker_take_cases simp: Enqueue_frame reconcile_next_frame queue_op_defs)

definition reachable_queue :: "nat \<Rightarrow> WorkQueue \<Rightarrow> bool" where
  "reachable_queue workers q = queue_step\<^sup>*\<^sup>* (NewWorkQueue workers) q"

definition queue_inv :: "WorkQueue \<Rightarrow> bool" where
  "queue_inv q \<longleftrightarrow> held_inv q \<and> retry_inv q \<and> bounds_inv q"

interpretation work_queue: step_invariant queue_step queue_inv wq_workers
  by unfold_locales (auto simp: queue_inv_def intro: held_step retry_step bounds_step dest: workers_step)

lemma queue_inv_init: "queue_inv (NewWorkQueue workers)"
  using held_inv_init retry_inv_init by (simp add: queue_inv_def bounds_inv_def busy_workers_def NewWorkQueue_def)

lemma reachable_queue_invs:
  "reachable_queue workers q \<Longrightarrow> held_inv q \<and> retry_inv q \<and> bounds_inv q \<and> wq_workers q = workers"
  unfolding reachable_queue_def
  using work_queue.reachable_inv [OF _ queue_inv_init] work_queue.reachable_frame [OF _ queue_inv_init]
  by (auto simp: queue_inv_def) (simp add: NewWorkQueue_def)

lemma ActiveCount_held: "held_inv q \<Longrightarrow> ActiveCount q = length (held_pods q)"
  unfolding held_inv_def ActiveCount_def by (metis distinct_card length_map set_map)

subsection \<open>Properties\<close>

text \<open>
  C11. However the watcher, the workers, the retry goroutines and the reconciliation interleave, a pod
  UID is in the hands of at most one of them, so no pod is processed twice at the same time; the
  active set is exactly the UIDs that are held and \<open>ActiveCount\<close> their number; the channel never
  holds more than thirty pods; at most the configured number of workers is busy; and no pod is past
  its third retry except while a worker gives it up.
\<close>

theorem queue_holds_each_pod_once:
  assumes "reachable_queue workers q"
  shows "distinct (map qp_UID (held_pods q)) \<and> wq_active q = qp_UID ` set (held_pods q) \<and>
    ActiveCount q = length (held_pods q) \<and> QueueSize q \<le> queue_capacity \<and> busy_workers q \<le> workers \<and>
    (\<forall>k. wq_retryCount q k \<le> maxSendRetries \<or> (wq_retryCount q k = maxSendRetries + 1 \<and> k \<in> qp_UID ` set (wq_exhausted q)))"
proof -
  have inv: "held_inv q" "retry_inv q" "bounds_inv q" "wq_workers q = workers"
    using reachable_queue_invs [OF assms] by auto
  have "wq_retryCount q k \<le> maxSendRetries \<or> wq_retryCount q k = maxSendRetries + 1 \<and> k \<in> qp_UID ` set (wq_exhausted q)" for k
    using inv(2) unfolding retry_inv_def by (auto dest!: spec [of _ k] split: if_splits)
  with inv ActiveCount_held [OF inv(1)] show ?thesis
    by (simp add: held_inv_def bounds_inv_def QueueSize_def)
qed

definition sample_qpod :: QPod where
  "sample_qpod = \<lparr>qp_UID = ''u1'', qp_Namespace = ''ns'', qp_Name = ''web''\<rparr>"

definition sample_processing :: WorkQueue where
  "sample_processing = (NewWorkQueue 2)\<lparr>wq_active := {''u1''}, wq_processing := [sample_qpod]\<rparr>"

lemma sample_processing_reachable: "reachable_queue 2 sample_processing"
proof -
  let ?q = "snd (Enqueue (Some sample_qpod) (NewWorkQueue 2))"
  have "queue_step (NewWorkQueue 2) ?q" by (rule enqueue_step)
  moreover have "worker_take ?q = Some (sample_qpod, sample_processing)"
    by (simp add: Enqueue_def worker_take_def NewWorkQueue_def queue_capacity_def busy_workers_def sample_qpod_def sample_processing_def)
  then have "queue_step ?q sample_processing" by (rule take_step)
  ultimately show ?thesis unfolding reachable_queue_def by (meson rtranclp.rtrancl_into_rtrancl rtranclp.rtrancl_refl)
qed

theorem queue_holds_each_pod_once_witness:
  "reachable_queue 2 sample_processing \<and> ActiveCount sample_processing = 1 \<and> QueueSize sample_processing \<le> queue_capacity"
proof -
  have "held_pods sample_processing = [sample_qpod]" by (simp add: held_pods_def sample_processing_def NewWorkQueue_def)
  then show ?thesis using queue_holds_each_pod_once [OF sample_processing_reachable] sample_processing_reachable by simp
qed

text \<open>
  A pod whose report cannot be sent for a transient reason is tried four times: the first three
  failures schedule a retry and keep the pod active; the fourth hands it to the reconciliation with
  its retry count cleared; any other error lets the pod go at once without recording it.
\<close>

lemma retries_then_reconciliation:
  assumes "p \<in> set (wq_processing q)" and "wq_retryCount q (qp_UID p) = n"
  shows "if isTransientSendError (Some err)
    then if n < maxSendRetries
      then wq_timers (worker_error p err q) = p # wq_timers q \<and> wq_active (worker_error p err q) = wq_active q \<and>
        wq_retryCount (worker_error p err q) (qp_UID p) = n + 1
      else p \<in> set (wq_exhausted (worker_error p err q)) \<and>
        (let q' = worker_release p (worker_gives_up p (worker_error p err q))
         in p \<in> set (wq_failedPods q') \<and> qp_UID p \<notin> wq_active q' \<and> wq_retryCount q' (qp_UID p) = 0)
    else wq_releasing (worker_error p err q) = p # wq_releasing q \<and> wq_failedPods (worker_error p err q) = wq_failedPods q"
  using assms by (auto simp: worker_error_def worker_gives_up_def worker_release_def Let_def)

definition core_down :: string where
  "core_down = ''dial tcp: connection refused''"

lemma retries_then_reconciliation_witness:
  "wq_timers (worker_error sample_qpod core_down sample_processing) = [sample_qpod]"
proof -
  have "isTransientSendError (Some core_down)" by code_simp
  then show ?thesis
    using retries_then_reconciliation [of sample_qpod sample_processing 0 core_down]
    by (simp add: sample_processing_def NewWorkQueue_def maxSendRetries_def)
qed

lemma Enqueue_full: "queue_capacity \<le> length (wq_queue q) \<Longrightarrow> snd (Enqueue pod q) = q"
  by (auto simp: Enqueue_def Let_def split: option.split)

lemma reconcile_next_full:
  "queue_capacity \<le> length (wq_queue q) \<Longrightarrow> reconcile_next q = q\<lparr>wq_toRetry := tl (wq_toRetry q)\<rparr>"
  by (auto simp: reconcile_next_def Enqueue_full split: list.split)

lemma reconcile_nexts_full:
  "queue_capacity \<le> length (wq_queue q) \<Longrightarrow> (reconcile_next ^^ n) q = q\<lparr>wq_toRetry := drop n (wq_toRetry q)\<rparr>"
  by (induction n) (simp_all add: reconcile_next_full drop_Suc tl_drop)

text \<open>
  C40. A reconciliation that finds the channel full loses the failed pods: it clears them before it
  enqueues them, and the full channel refuses every one. Afterwards a pod that was not active is in
  no queue, with no worker, no retry goroutine and no reconciliation.
\<close>

theorem reconcile_with_full_queue_loses_pods:
  assumes "mset order = mset (wq_failedPods q)" and "p \<in> set (wq_failedPods q)" and "wq_toRetry q = []"
    and "length (wq_queue q) = queue_capacity" and "qp_UID p \<notin> wq_active q" and "held_inv q"
  shows "wq_failedPods (reconcileFailedPods order q) = [] \<and> wq_toRetry (reconcileFailedPods order q) = [] \<and>
    p \<notin> set (held_pods (reconcileFailedPods order q))"
proof -
  let ?s = "reconcile_snapshot order q"
  have "length order = length (wq_failedPods q)" using assms(1) by (rule mset_eq_length)
  moreover have "wq_failedPods q \<noteq> []" using assms(2) by auto
  ultimately have "reconcileFailedPods order q = ?s\<lparr>wq_toRetry := []\<rparr>"
    using reconcile_nexts_full [of ?s "length order"] assms(3,4) by (simp add: reconcileFailedPods_def reconcile_snapshot_def)
  moreover have "p \<notin> set (held_pods q)" using assms(5,6) by (auto simp: held_inv_def)
  ultimately show ?thesis by (simp add: reconcile_snapshot_def held_pods_def)
qed

definition full_queue :: "QPod list" where
  "full_queue = map (\<lambda>n. \<lparr>qp_UID = replicate n CHR ''q'', qp_Namespace = ''ns'', qp_Name = ''web''\<rparr>) [0..<30]"

definition sample_full :: WorkQueue where
  "sample_full = (NewWorkQueue 2)\<lparr>wq_queue := full_queue, wq_active := qp_UID ` set full_queue, wq_failedPods := [sample_qpod]\<rparr>"

lemma sample_full_facts:
  "wq_failedPods sample_full = [sample_qpod]" "wq_toRetry sample_full = []" "length (wq_queue sample_full) = queue_capacity"
  "qp_UID sample_qpod \<notin> wq_active sample_full" "held_inv sample_full"
proof -
  have uids: "map qp_UID full_queue = map (\<lambda>n. replicate n CHR ''q'') [0..<30]"
    by (simp add: full_queue_def comp_def)
  have "inj_on (\<lambda>n. replicate n CHR ''q'') (set [0..<30])" by (simp add: inj_on_def)
  then have "distinct (map qp_UID full_queue)" unfolding uids by (simp add: distinct_map)
  then show "held_inv sample_full" by (simp add: held_inv_def held_pods_def sample_full_def NewWorkQueue_def)
  have "''u1'' \<noteq> replicate n CHR ''q''" for n by (cases n) simp_all
  then have "qp_UID sample_qpod \<notin> set (map qp_UID full_queue)"
    unfolding uids set_map by (simp add: sample_qpod_def image_iff del: set_upt upt_Suc)
  then show "qp_UID sample_qpod \<notin> wq_active sample_full" by (simp add: sample_full_def)
qed (simp_all add: sample_full_def NewWorkQueue_def full_queue_def queue_capacity_def)

theorem reconcile_with_full_queue_loses_pods_witness:
  "wq_failedPods sample_full = [sample_qpod] \<and> wq_failedPods (reconcileFailedPods [sample_qpod] sample_full) = [] \<and>
   sample_qpod \<notin> set (held_pods (reconcileFailedPods [sample_qpod] sample_full))"
  using reconcile_with_full_queue_loses_pods [of "[sample_qpod]" sample_full sample_qpod] sample_full_facts by simp

end
