(* ===== verification/Version_Comparator.thy ===== *)
theory Version_Comparator
  imports Go_Strconv
begin

section \<open>Version constraints of vulnerabilities: core/pkg/cve/matcher/version\_comparator.go\<close>

text \<open>
  A vulnerability names the affected versions of a package by a constraint such as
  \<^verbatim>\<open>>= 1.0, < 2.0\<close>; \<open>IsVulnerable\<close> decides whether an installed version meets it, with the
  version order of the package's ecosystem. The orders are those of three libraries
  (\<^verbatim>\<open>go-deb-version\<close>, \<^verbatim>\<open>go-rpm-version\<close>, \<^verbatim>\<open>go-version\<close>); they are the parameter \<open>L\<close>. The
  Debian, RPM and Alpine comparisons have each a loop over the parts of the constraint; the locale
  \<open>constraint_parts\<close> states what the three loops share.
\<close>

subsection \<open>The libraries\<close>

record ('d, 'r, 'v, 'c) VersionLibs =
  deb_NewVersion :: "string \<Rightarrow> 'd option"
  deb_Compare :: "'d \<Rightarrow> 'd \<Rightarrow> int"
  rpm_NewVersion :: "string \<Rightarrow> 'r"
  rpm_LessThan :: "'r \<Rightarrow> 'r \<Rightarrow> bool"
  rpm_GreaterThan :: "'r \<Rightarrow> 'r \<Rightarrow> bool"
  rpm_Equal :: "'r \<Rightarrow> 'r \<Rightarrow> bool"
  ver_NewVersion :: "string \<Rightarrow> 'v option"
  ver_Compare :: "'v \<Rightarrow> 'v \<Rightarrow> int"
  ver_NewConstraint :: "string \<Rightarrow> 'c option"
  ver_Check :: "'c \<Rightarrow> 'v \<Rightarrow> bool"

datatype VersionError =
    BadDebianVersion string
  | BadVersion string
  | BadConstraint string
  | UnknownOperator string

subsection \<open>Operators and clean-up\<close>

definition parseConstraint :: "string \<Rightarrow> string \<times> string" where
  "parseConstraint constraint0 =
     (let constraint = TrimSpace constraint0
      in if HasPrefix constraint ''<='' then (''<='', TrimSpace (drop 2 constraint))
         else if HasPrefix constraint ''>='' then (''>='', TrimSpace (drop 2 constraint))
         else if HasPrefix constraint ''<'' then (''<'', TrimSpace (drop 1 constraint))
         else if HasPrefix constraint ''>'' then (''>'', TrimSpace (drop 1 constraint))
         else if HasPrefix constraint ''=='' then (''=='', TrimSpace (drop 2 constraint))
         else (''=='', constraint))"

definition cleanVersion :: "string \<Rightarrow> string" where
  "cleanVersion v = TrimSpace (TrimSuffix (TrimPrefix (TrimPrefix v ''v'') ''V'') ''-SNAPSHOT'')"

definition operator_holds :: "string \<Rightarrow> int \<Rightarrow> bool option" where
  "operator_holds op cmp =
     (if op = ''<'' then Some (cmp < 0)
      else if op = ''<='' then Some (cmp \<le> 0)
      else if op = ''>'' then Some (cmp > 0)
      else if op = ''>='' then Some (cmp \<ge> 0)
      else if op = ''=='' then Some (cmp = 0)
      else None)"

definition rpm_operator :: "('d, 'r, 'v, 'c) VersionLibs \<Rightarrow> string \<Rightarrow> 'r \<Rightarrow> 'r \<Rightarrow> bool option" where
  "rpm_operator L op v1 v2 =
     (if op = ''<'' then Some (rpm_LessThan L v1 v2)
      else if op = ''<='' then Some (rpm_LessThan L v1 v2 \<or> rpm_Equal L v1 v2)
      else if op = ''>'' then Some (rpm_GreaterThan L v1 v2)
      else if op = ''>='' then Some (rpm_GreaterThan L v1 v2 \<or> rpm_Equal L v1 v2)
      else if op = ''=='' then Some (rpm_Equal L v1 v2)
      else None)"

subsection \<open>Debian\<close>

fun deb_parts :: "('d, 'r, 'v, 'c) VersionLibs \<Rightarrow> 'd \<Rightarrow> string list \<Rightarrow> (VersionError, bool) result" where
  "deb_parts L v1 [] = Inr True"
| "deb_parts L v1 (part0 # parts) =
     (let part = TrimSpace part0
      in if part = [] then deb_parts L v1 parts
         else
           let (op, targetVersionStr) = parseConstraint part
           in if targetVersionStr = [] then Inr False
              else case deb_NewVersion L targetVersionStr of
                     None \<Rightarrow> deb_parts L v1 parts
                   | Some v2 \<Rightarrow>
                       (case operator_holds op (deb_Compare L v1 v2) of
                          None \<Rightarrow> Inl (UnknownOperator op)
                        | Some ok \<Rightarrow> if \<not> ok then Inr False else deb_parts L v1 parts))"

definition compareDebianVersion :: "('d, 'r, 'v, 'c) VersionLibs \<Rightarrow> string \<Rightarrow> string \<Rightarrow> (VersionError, bool) result" where
  "compareDebianVersion L installed constraint = (case deb_NewVersion L installed of
     None \<Rightarrow> Inl (BadDebianVersion installed)
   | Some v1 \<Rightarrow> deb_parts L v1 (split_char CHR '','' constraint))"

subsection \<open>RPM\<close>

fun rpm_parts :: "('d, 'r, 'v, 'c) VersionLibs \<Rightarrow> 'r \<Rightarrow> string list \<Rightarrow> (VersionError, bool) result" where
  "rpm_parts L v1 [] = Inr True"
| "rpm_parts L v1 (part0 # parts) =
     (let part = TrimSpace part0
      in if part = [] then rpm_parts L v1 parts
         else
           let (op, targetStr) = parseConstraint part
           in if targetStr = [] then Inr False
              else case rpm_operator L op v1 (rpm_NewVersion L targetStr) of
                     None \<Rightarrow> Inl (UnknownOperator op)
                   | Some ok \<Rightarrow> if \<not> ok then Inr False else rpm_parts L v1 parts)"

definition compareRPMVersion :: "('d, 'r, 'v, 'c) VersionLibs \<Rightarrow> string \<Rightarrow> string \<Rightarrow> (VersionError, bool) result" where
  "compareRPMVersion L installed constraint = rpm_parts L (rpm_NewVersion L installed) (split_char CHR '','' constraint)"

subsection \<open>Alpine\<close>

definition parseAlpineVersionParts :: "string \<Rightarrow> string \<times> int \<times> bool" where
  "parseAlpineVersionParts v0 =
     (let v = TrimSpace v0
      in if v = [] then ([], 0, False)
         else case LastIndex v ''-r'' of
                None \<Rightarrow> (v, 0, True)
              | Some idx \<Rightarrow>
                  let core = TrimSpace (take idx v);
                      relStr = drop (idx + 2) v
                  in case ParseInt64 relStr of
                       None \<Rightarrow> (v, 0, True)
                     | Some relVal \<Rightarrow> if core = [] then (v, 0, True) else (core, relVal, True))"

definition compareAlpineVersions :: "('d, 'r, 'v, 'c) VersionLibs \<Rightarrow> string \<Rightarrow> string \<Rightarrow> int" where
  "compareAlpineVersions L a b =
     (let (ca, ra, _) = parseAlpineVersionParts a;
          (cb, rb, _) = parseAlpineVersionParts b
      in case (ver_NewVersion L ca, ver_NewVersion L cb) of
           (Some va, Some vb) \<Rightarrow>
             let cmp = ver_Compare L va vb
             in if cmp \<noteq> 0 then cmp
                else if ra < rb then -1
                else if ra > rb then 1
                else 0
         | _ \<Rightarrow> Compare (TrimSpace a) (TrimSpace b))"

fun alpine_parts :: "('d, 'r, 'v, 'c) VersionLibs \<Rightarrow> string \<Rightarrow> string list \<Rightarrow> (VersionError, bool) result" where
  "alpine_parts L installed [] = Inr True"
| "alpine_parts L installed (part0 # parts) =
     (let part = TrimSpace part0
      in if part = [] then alpine_parts L installed parts
         else
           let (op, targetStr) = parseConstraint part
           in if targetStr = [] then Inr False
              else case operator_holds op (compareAlpineVersions L installed targetStr) of
                     None \<Rightarrow> Inl (UnknownOperator op)
                   | Some ok \<Rightarrow> if \<not> ok then Inr False else alpine_parts L installed parts)"

definition compareAlpineVersion :: "('d, 'r, 'v, 'c) VersionLibs \<Rightarrow> string \<Rightarrow> string \<Rightarrow> (VersionError, bool) result" where
  "compareAlpineVersion L installed constraint = alpine_parts L (TrimSpace installed) (split_char CHR '','' constraint)"

subsection \<open>Semantic versions and the dispatch\<close>

definition compareSemver :: "('d, 'r, 'v, 'c) VersionLibs \<Rightarrow> string \<Rightarrow> string \<Rightarrow> (VersionError, bool) result" where
  "compareSemver L installed constraint =
     bind_result
       (case ver_NewVersion L installed of
          Some v1 \<Rightarrow> Inr v1
        | None \<Rightarrow> (case ver_NewVersion L (cleanVersion installed) of
             Some v1 \<Rightarrow> Inr v1
           | None \<Rightarrow> Inl (BadVersion installed)))
       (\<lambda>v1. case ver_NewConstraint L constraint of
          None \<Rightarrow> Inl (BadConstraint constraint)
        | Some constraints \<Rightarrow> Inr (ver_Check L constraints v1))"

definition normalizedEco :: "string \<Rightarrow> string" where
  "normalizedEco ecosystem =
     (let eco = ToLower (TrimSpace ecosystem)
      in if HasPrefix eco ''package_type_'' then TrimPrefix eco ''package_type_'' else eco)"

definition debian_ecosystems :: "string list" where
  "debian_ecosystems = [''deb'', ''debian'', ''ubuntu'']"

definition rpm_ecosystems :: "string list" where
  "rpm_ecosystems = [''rpm'', ''redhat'', ''centos'', ''fedora'', ''rocky'', ''alma'', ''oraclelinux'', ''amazon'', ''photon'',
     ''opensuse'', ''sles'', ''archlinux'', ''wolfi'', ''chainguard'']"

definition alpine_ecosystems :: "string list" where
  "alpine_ecosystems = [''apk'', ''alpine'']"

definition semver_ecosystems :: "string list" where
  "semver_ecosystems = [''npm'', ''pypi'', ''go'', ''generic'']"

definition IsVulnerable :: "('d, 'r, 'v, 'c) VersionLibs \<Rightarrow> string \<Rightarrow> string \<Rightarrow> string \<Rightarrow> (VersionError, bool) result" where
  "IsVulnerable L installedVersion constraint ecosystem =
     (if constraint = [] then Inr False
      else
        let eco = normalizedEco ecosystem
        in if eco \<in> set debian_ecosystems then compareDebianVersion L installedVersion constraint
           else if eco \<in> set rpm_ecosystems then compareRPMVersion L installedVersion constraint
           else if eco \<in> set alpine_ecosystems then compareAlpineVersion L installedVersion constraint
           else if eco \<in> set semver_ecosystems then compareSemver L installedVersion constraint
           else case compareSemver L installedVersion constraint of
                  Inr ok \<Rightarrow> Inr ok
                | Inl e \<Rightarrow>
                    let c = TrimSpace constraint
                    in if HasPrefix c ''=='' then Inr (cleanVersion installedVersion = cleanVersion (TrimSpace (drop 2 c)))
                       else Inr False)"

subsection \<open>What the loops share\<close>

locale constraint_parts =
  fixes verdict :: "string \<Rightarrow> bool option"
    and loop :: "string list \<Rightarrow> (VersionError, bool) result"
  assumes loop_Nil: "loop [] = Inr True"
    and loop_Cons: "loop (part # parts) = (if verdict part = Some False then Inr False else loop parts)"
    and verdict_space: "verdict (CHR '' '' # part) = verdict part"
begin

lemma loop_all: "loop parts = Inr (\<forall>part \<in> set parts. verdict part \<noteq> Some False)"
  by (induction parts) (auto simp: loop_Nil loop_Cons)

lemma loop_no_error: "loop parts \<noteq> Inl e"
  by (simp add: loop_all)

lemma loop_order_irrelevant: "set parts = set parts' \<Longrightarrow> loop parts = loop parts'"
  by (simp add: loop_all)

lemma loop_joined:
  assumes "ws \<noteq> []" and "\<forall>w \<in> set ws. CHR '','' \<notin> set w"
  shows "loop (split_char CHR '','' (join_str '', '' ws)) = Inr (\<forall>w \<in> set ws. verdict w \<noteq> Some False)"
  using assms
proof (induction "'', ''" ws rule: join_str.induct)
  case (2 w)
  then show ?case by (simp add: split_char_no_sep loop_all)
next
  case (3 w u ws)
  have "loop (split_char CHR '','' (CHR '' '' # s)) = loop (split_char CHR '','' s)" for s
    by (cases "split_char CHR '','' s") (auto simp: loop_all verdict_space)
  with 3 show ?case by (auto simp: split_char_append_sep loop_Cons)
qed simp

end

definition part_verdict :: "(string \<Rightarrow> string \<Rightarrow> bool option) \<Rightarrow> string \<Rightarrow> bool option" where
  "part_verdict judge part =
     (let (op, target) = parseConstraint part
      in if TrimSpace part = [] then None else if target = [] then Some False else judge op target)"

definition deb_judge :: "('d, 'r, 'v, 'c) VersionLibs \<Rightarrow> 'd \<Rightarrow> string \<Rightarrow> string \<Rightarrow> bool option" where
  "deb_judge L v1 op target = (case deb_NewVersion L target of None \<Rightarrow> None | Some v2 \<Rightarrow> operator_holds op (deb_Compare L v1 v2))"

definition rpm_judge :: "('d, 'r, 'v, 'c) VersionLibs \<Rightarrow> 'r \<Rightarrow> string \<Rightarrow> string \<Rightarrow> bool option" where
  "rpm_judge L v1 op target = rpm_operator L op v1 (rpm_NewVersion L target)"

definition alpine_judge :: "('d, 'r, 'v, 'c) VersionLibs \<Rightarrow> string \<Rightarrow> string \<Rightarrow> string \<Rightarrow> bool option" where
  "alpine_judge L installed op target = operator_holds op (compareAlpineVersions L installed target)"

definition constraint_operators :: "string list" where
  "constraint_operators = [''<'', ''<='', ''>'', ''>='', ''=='']"

lemma parseConstraint_operator: "fst (parseConstraint c) \<in> set constraint_operators"
  by (simp add: parseConstraint_def constraint_operators_def Let_def)

lemma known_operator: "parseConstraint c = (op, t) \<Longrightarrow> op \<in> set constraint_operators"
  using parseConstraint_operator [of c] by simp

lemma operator_holds_known: "op \<in> set constraint_operators \<Longrightarrow> operator_holds op cmp \<noteq> None"
  by (auto simp: operator_holds_def constraint_operators_def)

lemma rpm_operator_known: "op \<in> set constraint_operators \<Longrightarrow> rpm_operator L op v1 v2 \<noteq> None"
  by (auto simp: rpm_operator_def constraint_operators_def)

lemma parseConstraint_TrimSpace [simp]: "parseConstraint (TrimSpace c) = parseConstraint c"
  by (simp add: parseConstraint_def)

lemma lead_space_blank: "lead_space (CHR '' '' # s) = Some '' ''"
  by (simp add: lead_space_def space_runes_def HasPrefix_def)

lemma TrimSpace_blank [simp]: "TrimSpace (CHR '' '' # s) = TrimSpace s"
  by (simp add: TrimSpace_def trim_left.simps [of "CHR '' '' # s"] lead_space_blank)

lemma part_verdict_space: "part_verdict judge (CHR '' '' # part) = part_verdict judge part"
  by (metis TrimSpace_blank parseConstraint_TrimSpace part_verdict_def)

interpretation deb: constraint_parts "part_verdict (deb_judge L v1)" "deb_parts L v1" for L v1
proof unfold_locales
  show "deb_parts L v1 (part # parts) =
      (if part_verdict (deb_judge L v1) part = Some False then Inr False else deb_parts L v1 parts)" for part parts
    using operator_holds_known [OF known_operator, of part]
    by (auto simp: part_verdict_def deb_judge_def split: prod.split option.split) (metis option.distinct(1))
qed (simp_all add: part_verdict_space)

interpretation rpm: constraint_parts "part_verdict (rpm_judge L v1)" "rpm_parts L v1" for L v1
proof unfold_locales
  show "rpm_parts L v1 (part # parts) =
      (if part_verdict (rpm_judge L v1) part = Some False then Inr False else rpm_parts L v1 parts)" for part parts
    using rpm_operator_known [where L = L, OF known_operator, of part]
    by (auto simp: part_verdict_def rpm_judge_def split: prod.split option.split) (metis option.distinct(1))
qed (simp_all add: part_verdict_space)

interpretation alpine: constraint_parts "part_verdict (alpine_judge L installed)" "alpine_parts L installed" for L installed
proof unfold_locales
  show "alpine_parts L installed (part # parts) =
      (if part_verdict (alpine_judge L installed) part = Some False then Inr False else alpine_parts L installed parts)" for part parts
    using operator_holds_known [OF known_operator, of part]
    by (auto simp: part_verdict_def alpine_judge_def split: prod.split option.split) (metis option.distinct(1))
qed (simp_all add: part_verdict_space)

subsection \<open>Printing a constraint\<close>

definition plain_version :: "string \<Rightarrow> bool" where
  "plain_version v \<longleftrightarrow> v \<noteq> [] \<and> trimmed v \<and> CHR '','' \<notin> set v"

definition print_bound :: "string \<times> string \<Rightarrow> string" where
  "print_bound b = fst b @ '' '' @ snd b"

definition print_constraint :: "(string \<times> string) list \<Rightarrow> string" where
  "print_constraint bs = join_str '', '' (map print_bound bs)"





lemma comma_free_bounds:
  assumes "\<forall>b \<in> set bs. fst b \<in> set constraint_operators \<and> plain_version (snd b)"
  shows "\<forall>w \<in> set (map print_bound bs). CHR '','' \<notin> set w"
  using assms by (auto simp: print_bound_def plain_version_def constraint_operators_def)




lemma not_Some_False: "x \<noteq> None \<Longrightarrow> x \<noteq> Some False \<longleftrightarrow> x = Some True"
  by auto

context constraint_parts begin

lemma loop_printed:
  assumes "bs \<noteq> []" and "\<forall>b \<in> set bs. fst b \<in> set constraint_operators \<and> plain_version (snd b)"
    and "\<And>b. b \<in> set bs \<Longrightarrow> verdict (print_bound b) = Some (holds b)"
  shows "loop (split_char CHR '','' (print_constraint bs)) = Inr (\<forall>b \<in> set bs. holds b)"
  using loop_joined [of "map print_bound bs"] comma_free_bounds [OF assms(2)] assms(1,3)
  by (simp add: print_constraint_def)

end




subsection \<open>Properties\<close>















definition number_libs :: "(int, int, int, string) VersionLibs" where
  "number_libs =
     \<lparr>deb_NewVersion = ParseInt64, deb_Compare = (\<lambda>a b. a - b),
      rpm_NewVersion = (\<lambda>s. case ParseInt64 s of None \<Rightarrow> 0 | Some n \<Rightarrow> n),
      rpm_LessThan = (<), rpm_GreaterThan = (>), rpm_Equal = (=),
      ver_NewVersion = ParseInt64, ver_Compare = (\<lambda>a b. a - b),
      ver_NewConstraint = (\<lambda>c. if ParseInt64 (snd (parseConstraint c)) = None then None else Some c),
      ver_Check = (\<lambda>c v. operator_holds (fst (parseConstraint c)) (v - the (ParseInt64 (snd (parseConstraint c)))) = Some True)\<rparr>"


text \<open>
  The comparison fails only because a version or a constraint does not parse: an installed
  version the Debian library refuses, or, for the semantic-version ecosystems, an installed version
  refused also after the clean-up or a constraint the library refuses. No constraint has an unknown
  operator, RPM and Alpine comparisons never fail, and an unknown ecosystem never fails.
\<close>

lemma IsVulnerable_errors:
  assumes "IsVulnerable L installed constraint eco = Inl e"
  shows "(e = BadDebianVersion installed \<and> deb_NewVersion L installed = None \<and> normalizedEco eco \<in> set debian_ecosystems) \<or>
    (normalizedEco eco \<in> set semver_ecosystems \<and>
      (e = BadVersion installed \<and> ver_NewVersion L installed = None \<and> ver_NewVersion L (cleanVersion installed) = None \<or>
       e = BadConstraint constraint \<and> ver_NewConstraint L constraint = None))"
proof -
  have "compareDebianVersion L installed constraint = Inl e \<Longrightarrow> e = BadDebianVersion installed \<and> deb_NewVersion L installed = None"
    by (auto simp: compareDebianVersion_def deb.loop_no_error split: option.splits)
  moreover have "compareRPMVersion L installed constraint \<noteq> Inl e" "compareAlpineVersion L installed constraint \<noteq> Inl e"
    by (simp_all add: compareRPMVersion_def compareAlpineVersion_def rpm.loop_no_error alpine.loop_no_error)
  moreover have "compareSemver L installed constraint = Inl e \<Longrightarrow>
      e = BadVersion installed \<and> ver_NewVersion L installed = None \<and> ver_NewVersion L (cleanVersion installed) = None \<or>
      e = BadConstraint constraint \<and> ver_NewConstraint L constraint = None"
    by (auto simp: compareSemver_def go_result_simps split: option.splits)
  ultimately show ?thesis
    using assms by (auto simp: IsVulnerable_def Let_def split: if_splits sum.splits)
qed

lemma IsVulnerable_errors_witness:
  "IsVulnerable number_libs ''1.x'' ''< 2'' ''npm'' = Inl (BadVersion ''1.x'') \<and> ver_NewVersion number_libs (cleanVersion ''1.x'') = None"
proof -
  have e: "IsVulnerable number_libs ''1.x'' ''< 2'' ''npm'' = Inl (BadVersion ''1.x'')" by code_simp
  show ?thesis using IsVulnerable_errors [OF e] e by auto
qed

text \<open>
  Alpine versions with a suffix such as \<^verbatim>\<open>_p2\<close> are compared byte by byte, because the semantic
  version library has no underscore: \<^verbatim>\<open>9.9_p2-r0\<close> counts as newer than \<^verbatim>\<open>10.0_p1-r0\<close>, and an
  installed \<^verbatim>\<open>9.9_p2-r0\<close> is reported as not affected by a vulnerability fixed in \<^verbatim>\<open>10.0_p1-r0\<close>.
\<close>

lemma alpine_suffix_compared_as_text:
  assumes "ver_NewVersion L ''9.9_p2'' = None"
  shows "compareAlpineVersions L ''9.9_p2-r0'' ''10.0_p1-r0'' > 0 \<and>
    IsVulnerable L ''9.9_p2-r0'' ''< 10.0_p1-r0'' ''alpine'' = Inr False"
proof -
  have "parseAlpineVersionParts ''9.9_p2-r0'' = (''9.9_p2'', 0, True)" by code_simp
  moreover have "Compare (TrimSpace ''9.9_p2-r0'') (TrimSpace ''10.0_p1-r0'') = 1" by code_simp
  ultimately have cmp: "compareAlpineVersions L ''9.9_p2-r0'' ''10.0_p1-r0'' = 1"
    using assms by (simp add: compareAlpineVersions_def split: prod.split)
  have "normalizedEco ''alpine'' \<in> set alpine_ecosystems" "normalizedEco ''alpine'' \<notin> set debian_ecosystems"
    "normalizedEco ''alpine'' \<notin> set rpm_ecosystems" by code_simp+
  moreover have "split_char CHR '','' ''< 10.0_p1-r0'' = [''< 10.0_p1-r0'']"
    "parseConstraint ''< 10.0_p1-r0'' = (''<'', ''10.0_p1-r0'')" "TrimSpace ''< 10.0_p1-r0'' = ''< 10.0_p1-r0''"
    "TrimSpace ''9.9_p2-r0'' = ''9.9_p2-r0''" by code_simp+
  ultimately show ?thesis
    using cmp by (simp add: IsVulnerable_def compareAlpineVersion_def operator_holds_def Let_def)
qed

lemma alpine_suffix_compared_as_text_witness:
  "ver_NewVersion number_libs ''9.9_p2'' = None \<and> IsVulnerable number_libs ''9.9_p2-r0'' ''< 10.0_p1-r0'' ''alpine'' = Inr False"
proof -
  have "ver_NewVersion number_libs ''9.9_p2'' = None" by code_simp
  then show ?thesis using alpine_suffix_compared_as_text by blast
qed

end
