(* ===== verification/Investigation_State.thy ===== *)
theory Investigation_State
  imports Go_Strconv
begin

section \<open>The life cycle of a case: core/pkg/investigation/statemachine.go; list limits: core/internal/api/listlimit\<close>

text \<open>
  The states of an investigation, the normalisation of legacy names and the transitions that are
  allowed without the override of an administrator. \<open>lifecycle_step\<close> is one allowed transition to a
  canonical state, its closure what users can reach.
\<close>

abbreviation StatusOpen :: string where "StatusOpen \<equiv> ''OPEN''"
abbreviation StatusTriaged :: string where "StatusTriaged \<equiv> ''TRIAGED''"
abbreviation StatusActive :: string where "StatusActive \<equiv> ''ACTIVE''"
abbreviation StatusContained :: string where "StatusContained \<equiv> ''CONTAINED''"
abbreviation StatusRemediating :: string where "StatusRemediating \<equiv> ''REMEDIATING''"
abbreviation StatusResolved :: string where "StatusResolved \<equiv> ''RESOLVED''"
abbreviation StatusArchived :: string where "StatusArchived \<equiv> ''ARCHIVED''"

definition lifecycle_states :: "string list" where
  "lifecycle_states = [StatusOpen, StatusTriaged, StatusActive, StatusContained, StatusRemediating, StatusResolved, StatusArchived]"

definition allowedTransitions :: "(string \<times> string list) list" where
  "allowedTransitions =
     [(StatusOpen, [StatusTriaged, StatusActive, StatusArchived]),
      (StatusTriaged, [StatusActive, StatusContained, StatusArchived]),
      (StatusActive, [StatusContained, StatusRemediating, StatusTriaged, StatusArchived]),
      (StatusContained, [StatusRemediating, StatusResolved, StatusActive, StatusArchived]),
      (StatusRemediating, [StatusResolved, StatusContained, StatusArchived]),
      (StatusResolved, [StatusArchived, StatusActive]),
      (StatusArchived, [])]"

definition NormalizeStatus :: "string \<Rightarrow> string" where
  "NormalizeStatus raw =
     (let s = ToUpper (TrimSpace raw)
      in if s \<in> set lifecycle_states then s
         else if s = ''TRIAGING'' then StatusTriaged
         else if s = ''CLOSED'' then StatusResolved
         else if s = ''CONTAINED_LEGACY'' then StatusContained
         else if s = [] then StatusOpen
         else s)"

definition CanTransition :: "string \<Rightarrow> string \<Rightarrow> bool \<Rightarrow> bool" where
  "CanTransition from0 to0 adminOverride =
     (let from = NormalizeStatus from0;
          to = NormalizeStatus to0
      in if from = to then True
         else if adminOverride then True
         else (case map_of allowedTransitions from of
                 None \<Rightarrow> False
               | Some targets \<Rightarrow> to \<in> set targets))"

datatype TransitionError = InvalidTransition string string

definition ValidateTransition :: "string \<Rightarrow> string \<Rightarrow> bool \<Rightarrow> (TransitionError, unit) result" where
  "ValidateTransition from to adminOverride =
     (if CanTransition from to adminOverride then Inr () else Inl (InvalidTransition from to))"

definition IsTerminalOpen :: "string \<Rightarrow> bool" where
  "IsTerminalOpen status =
     (let s = NormalizeStatus status in s \<noteq> StatusResolved \<and> s \<noteq> StatusArchived)"

subsection \<open>List limits\<close>

definition Clamp :: "string \<Rightarrow> int \<Rightarrow> int \<Rightarrow> int" where
  "Clamp raw def0 max0 =
     (let mx = (if max0 < 1 then 1 else max0);
          df = (if def0 < 1 then 1 else def0);
          df = (if df > mx then mx else df)
      in if raw = [] then df
         else case ParseInt64 raw of
                None \<Rightarrow> df
              | Some n \<Rightarrow> if n < 1 then df else if n > mx then mx else n)"

definition ParseParam :: "(string \<Rightarrow> string) \<Rightarrow> string \<Rightarrow> int \<Rightarrow> int \<Rightarrow> int" where
  "ParseParam query name df mx = Clamp (TrimSpace (query name)) df mx"

definition Trim :: "'a list \<Rightarrow> int \<Rightarrow> 'a list \<times> bool" where
  "Trim rows limit = (if limit \<ge> 0 \<and> int (length rows) > limit then (take (nat limit) rows, True) else (rows, False))"

lemma Clamp_bounds: "1 \<le> Clamp raw df mx \<and> Clamp raw df mx \<le> max 1 mx"
  by (auto simp: Clamp_def Let_def split: option.split)

lemma Trim_length: "0 \<le> limit \<Longrightarrow> int (length (fst (Trim rows limit))) \<le> limit"
  by (auto simp: Trim_def)

subsection \<open>Properties\<close>

definition lifecycle_step :: "string \<Rightarrow> string \<Rightarrow> bool" where
  "lifecycle_step s t \<longleftrightarrow> t \<in> set lifecycle_states \<and> CanTransition s t False"

lemma NormalizeStatus_canonical: "s \<in> set lifecycle_states \<Longrightarrow> NormalizeStatus s = s"
proof -
  have "list_all (\<lambda>s. NormalizeStatus s = s) lifecycle_states" by code_simp
  then show "s \<in> set lifecycle_states \<Longrightarrow> NormalizeStatus s = s" by (simp add: list_all_iff)
qed

lemma NormalizeStatus_idem [simp]: "NormalizeStatus (NormalizeStatus s) = NormalizeStatus s"
proof (cases "NormalizeStatus s \<in> set lifecycle_states")
  case False
  then have "NormalizeStatus s = ToUpper (TrimSpace s)"
    by (auto simp: NormalizeStatus_def Let_def lifecycle_states_def split: if_splits)
  then show ?thesis by (simp add: NormalizeStatus_def)
qed (rule NormalizeStatus_canonical)

lemma CanTransition_Normalize [simp]:
  "CanTransition (NormalizeStatus s) t b = CanTransition s t b" "CanTransition s (NormalizeStatus t) b = CanTransition s t b"
  by (simp_all add: CanTransition_def)

lemma CanTransition_iff:
  "CanTransition s t False \<longleftrightarrow> NormalizeStatus s = NormalizeStatus t \<or>
     (\<exists>ts. map_of allowedTransitions (NormalizeStatus s) = Some ts \<and> NormalizeStatus t \<in> set ts)"
  by (auto simp: CanTransition_def Let_def split: option.split)

lemma transitions_stay_canonical: "map_of allowedTransitions s = Some ts \<Longrightarrow> s \<in> set lifecycle_states \<and> set ts \<subseteq> set lifecycle_states"
  by (auto simp: allowedTransitions_def lifecycle_states_def split: if_splits)

lemma lifecycle_closed:
  "NormalizeStatus s \<in> set lifecycle_states \<Longrightarrow> CanTransition s t False \<Longrightarrow> NormalizeStatus t \<in> set lifecycle_states"
  using transitions_stay_canonical by (auto simp: CanTransition_iff)

lemma step_to_archived: "s \<in> set lifecycle_states \<Longrightarrow> lifecycle_step s StatusArchived"
proof -
  have "list_all (\<lambda>s. CanTransition s StatusArchived False) lifecycle_states" by code_simp
  then show "s \<in> set lifecycle_states \<Longrightarrow> lifecycle_step s StatusArchived"
    by (simp add: list_all_iff lifecycle_step_def) (simp add: lifecycle_states_def)
qed

lemma resolved_reachable:
  assumes "s \<in> set lifecycle_states" and "s \<noteq> StatusArchived"
  shows "lifecycle_step\<^sup>*\<^sup>* s StatusResolved"
proof -
  have a: "lifecycle_step StatusOpen StatusActive" "lifecycle_step StatusTriaged StatusContained"
    "lifecycle_step StatusActive StatusContained" "lifecycle_step StatusContained StatusResolved"
    "lifecycle_step StatusRemediating StatusResolved" "lifecycle_step StatusResolved StatusResolved"
    unfolding lifecycle_step_def by code_simp+
  have c: "lifecycle_step\<^sup>*\<^sup>* StatusContained StatusResolved" using a(4) by blast
  have "lifecycle_step\<^sup>*\<^sup>* StatusActive StatusResolved" by (rule converse_rtranclp_into_rtranclp [of lifecycle_step, OF a(3) c])
  with a c show ?thesis
    using assms converse_rtranclp_into_rtranclp [of lifecycle_step, OF a(1)] converse_rtranclp_into_rtranclp [of lifecycle_step, OF a(2)]
    by (auto simp: lifecycle_states_def)
qed

text \<open>
  C13. Without the override of an administrator a case is never stuck and never leaves the life cycle:
  from every canonical state an allowed transition archives it, every state but the archived one can
  reach resolution, an allowed transition leads to a canonical state again, and the archived state has
  no way out. A case in an unknown state stays there.
\<close>

theorem lifecycle_live_and_closed:
  "(NormalizeStatus s \<in> set lifecycle_states \<longrightarrow>
      lifecycle_step (NormalizeStatus s) StatusArchived \<and>
      (NormalizeStatus s \<noteq> StatusArchived \<longrightarrow> lifecycle_step\<^sup>*\<^sup>* (NormalizeStatus s) StatusResolved) \<and>
      (CanTransition s t False \<longrightarrow> NormalizeStatus t \<in> set lifecycle_states)) \<and>
   (NormalizeStatus s = StatusArchived \<or> NormalizeStatus s \<notin> set lifecycle_states \<longrightarrow>
      (CanTransition s t False \<longleftrightarrow> NormalizeStatus t = NormalizeStatus s))"
proof (intro conjI impI)
  assume "NormalizeStatus s = StatusArchived \<or> NormalizeStatus s \<notin> set lifecycle_states"
  then have "map_of allowedTransitions (NormalizeStatus s) = Some ts \<Longrightarrow> ts = []" for ts
    using transitions_stay_canonical [of "NormalizeStatus s" ts] by (auto simp: allowedTransitions_def)
  then show "CanTransition s t False \<longleftrightarrow> NormalizeStatus t = NormalizeStatus s" by (auto simp: CanTransition_iff)
qed (auto intro: step_to_archived resolved_reachable lifecycle_closed)

theorem lifecycle_live_and_closed_witness:
  "NormalizeStatus '' triaging'' = StatusTriaged \<and> lifecycle_step StatusTriaged StatusArchived \<and>
   lifecycle_step\<^sup>*\<^sup>* StatusTriaged StatusResolved \<and> \<not> CanTransition StatusArchived StatusOpen False"
proof -
  have n: "NormalizeStatus '' triaging'' = StatusTriaged" "NormalizeStatus StatusArchived = StatusArchived"
    "NormalizeStatus StatusOpen = StatusOpen" by code_simp+
  have "StatusTriaged \<in> set lifecycle_states" by code_simp
  with n lifecycle_live_and_closed [of "'' triaging''"] lifecycle_live_and_closed [of StatusArchived StatusOpen]
  show ?thesis by simp
qed

end
