(* ===== verification/Investigation.thy ===== *)
theory Investigation
  imports Investigation_State Middleware_Scope
begin

section \<open>Investigation cases: core/internal/api/investigation\_handlers.go, investigation\_findings.go\<close>

text \<open>
  The handlers of a case: who may see and change it, the transitions of its status, its timeline and the
  findings linked to it. A handler is a function of the request context, the request body (None when
  it does not bind) and the database, and returns the answer and the database. A row keeps the values
  of its JSON columns, which the code encodes and decodes around every use; the copy of the evidence in
  a snapshot and the live score of a finding are left out. New identifiers, instants and the RFC 3339
  form of an instant are arguments. \<open>RetentionUntil\<close> is an instant with the years added to it.
  Ranging over a map of entities or remediation actions takes them in the order of the list here.
\<close>

subsection \<open>Rows and requests\<close>

record Entity =
  en_ID :: string
  en_Type :: string
  en_Label :: string
  en_Href :: string
  en_Meta :: "string \<Rightarrow> string"
  en_PinnedAt :: string
  en_SnapshotAt :: "string option"

record Note =
  nt_ID :: string
  nt_Body :: string
  nt_CreatedAt :: string
  nt_Author :: string

record HandoffNote =
  hn_ID :: string
  hn_Body :: string
  hn_Author :: string
  hn_CreatedAt :: string
  hn_Mentions :: "string list"

record Remediation =
  rm_ID :: string
  rm_Title :: string
  rm_Status :: string
  rm_Owner :: string
  rm_DueAt :: string
  rm_Notes :: string
  rm_CreatedAt :: string
  rm_ExternalSystem :: string
  rm_ExternalTicketURL :: string
  rm_ExternalTicketKey :: string

record Collaboration =
  cb_Assignees :: "string list"
  cb_Watchers :: "string list"
  cb_TeamID :: string
  cb_HandoffNotes :: "HandoffNote list"

record InvestigationCase =
  ic_ID :: string
  ic_Title :: string
  ic_Status :: string
  ic_Owner :: string
  ic_ClusterID :: "string option"
  ic_CreatedByUserID :: nat
  ic_Entities :: "Entity list"
  ic_Notes :: "Note list"
  ic_Remediation :: "Remediation list"
  ic_Collaboration :: Collaboration
  ic_SLADueAt :: "int option"
  ic_ArchivedAt :: "int option"
  ic_RetentionUntil :: "(int \<times> nat) option"
  ic_Deleted :: bool

record casePatch =
  pt_Title :: "string option"
  pt_Status :: "string option"
  pt_Owner :: "string option"
  pt_ClusterID :: "string option"
  pt_SLADueAt :: "string option"
  pt_Entities :: "Entity list option"
  pt_Notes :: "Note list option"
  pt_Remediation :: "Remediation list option"
  pt_Collaboration :: "Collaboration option"

record createRequest =
  cq_Title :: string
  cq_Owner :: string
  cq_ClusterID :: "string option"

record pinRequest =
  pq_Type :: string
  pq_Label :: string
  pq_Href :: string
  pq_Meta :: "string \<Rightarrow> string"

record Insight =
  in_ID :: nat
  in_ClusterID :: string
  in_ResourceType :: string
  in_ResourceNamespace :: string
  in_ResourceName :: string
  in_ResourceUID :: string
  in_Severity :: string
  in_Title :: string
  in_Status :: string

datatype PayloadValue =
    PStr string
  | PStrs "string list"
  | PCollaboration Collaboration
  | PHandoff HandoffNote
  | PEntity Entity
  | PRemediation Remediation
  | PNote Note
  | PNat nat
  | PRetention "int \<times> nat"
  | PBool bool

type_synonym Payload = "(string \<times> PayloadValue) list"

record TimelineRow =
  tl_CaseID :: string
  tl_ActorUserID :: nat
  tl_ActorUsername :: string
  tl_EventType :: string
  tl_Summary :: string
  tl_Before :: Payload
  tl_After :: Payload
  tl_Details :: Payload

record GovernanceRow =
  gr_ActorUserID :: nat
  gr_ActorUsername :: string
  gr_ActorRole :: string
  gr_Permissions :: "string list"
  gr_SessionID :: string
  gr_Action :: string
  gr_ResourceType :: string
  gr_ResourceID :: string
  gr_Result :: string
  gr_Severity :: string
  gr_AuthMethod :: string
  gr_Details :: Payload

text \<open>\<open>iv_pods\<close> are the pairs of UID and cluster of the pods, deleted ones included.\<close>

record InvestigationDb =
  iv_cases :: "InvestigationCase list"
  iv_timeline :: "TimelineRow list"
  iv_audit :: "GovernanceRow list"
  iv_insights :: "Insight list"
  iv_pods :: "(string \<times> string) list"
  iv_hasCases :: bool
  iv_hasTimeline :: bool
  iv_hasAudit :: bool
  iv_readFails :: bool
  iv_writeFails :: bool
  iv_deleteFails :: bool
  iv_logFails :: bool

record LinkedFinding =
  lf_InsightID :: string
  lf_Title :: string
  lf_Status :: string
  lf_SeverityHint :: string
  lf_ClusterID :: string
  lf_ResourceType :: string
  lf_ResourceNamespace :: string
  lf_ResourceName :: string
  lf_ResourceUID :: string
  lf_LinkedAt :: string
  lf_Missing :: bool

datatype Body =
    ErrorBody string
  | CaseBody InvestigationCase
  | StatsBody nat nat
  | CasesBody "InvestigationCase list" nat bool
  | PinBody bool Entity InvestigationCase
  | TimelineBody "TimelineRow list" nat bool
  | FindingsBody "LinkedFinding list" nat bool
  | ArchivedBody string "int \<times> nat"

type_synonym Reply = "nat \<times> Body"

subsection \<open>Access\<close>

definition investigationIsAdmin :: "GinContext \<Rightarrow> bool" where
  "investigationIsAdmin c = (case request_user c of
     None \<Rightarrow> False
   | Some u \<Rightarrow> EqualFold (NormalizeRole (user_Role u)) RoleAdmin)"

definition investigationClusterInScope :: "GinContext \<Rightarrow> string option \<Rightarrow> bool" where
  "investigationClusterInScope c clusterID = (case clusterID of
     None \<Rightarrow> True
   | Some cid \<Rightarrow>
       if TrimSpace cid = [] then True
       else case request_user c of
              None \<Rightarrow> False
            | Some u \<Rightarrow>
                if investigationIsAdmin c then True
                else
                  let doc = ParseScopeDocument (user_ScopeJSON u)
                  in if \<not> RestrictsClusters doc then True
                     else DocClusterAllowed doc (TrimSpace cid))"

definition investigationCanAccessCase :: "GinContext \<Rightarrow> InvestigationCase \<Rightarrow> bool" where
  "investigationCanAccessCase c row =
     (if investigationIsAdmin c then True
      else case request_user c of
             None \<Rightarrow> False
           | Some u \<Rightarrow>
               if ic_CreatedByUserID row = user_ID u then investigationClusterInScope c (ic_ClusterID row)
               else if EqualFold (TrimSpace (ic_Owner row)) (TrimSpace (user_Username u))
               then investigationClusterInScope c (ic_ClusterID row)
               else False)"

definition investigationCanMutateCase :: "GinContext \<Rightarrow> InvestigationCase \<Rightarrow> bool" where
  "investigationCanMutateCase c row =
     (if \<not> investigationCanAccessCase c row then False
      else if investigationIsAdmin c then True
      else case request_user c of
             None \<Rightarrow> False
           | Some u \<Rightarrow> ic_CreatedByUserID row = user_ID u \<or>
               EqualFold (TrimSpace (ic_Owner row)) (TrimSpace (user_Username u)))"

text \<open>The same decision as a SQL condition. SQL \<^verbatim>\<open>TRIM\<close> removes blanks only, \<^verbatim>\<open>LOWER\<close> and \<^verbatim>\<open>UPPER\<close> fold ASCII letters.\<close>

definition sql_trim :: "string \<Rightarrow> string" where
  "sql_trim s = rev (dropWhile (\<lambda>c. c = CHR '' '') (rev (dropWhile (\<lambda>c. c = CHR '' '') s)))"

definition investigationAccessibleCases :: "GinContext \<Rightarrow> User \<Rightarrow> InvestigationCase list \<Rightarrow> InvestigationCase list" where
  "investigationAccessibleCases c u rows0 =
     (let rows = filter (\<lambda>r. \<not> ic_Deleted r) rows0
      in if investigationIsAdmin c then rows
         else
           let q = filter (\<lambda>r. ic_CreatedByUserID r = user_ID u \<or> ToLower (ic_Owner r) = ToLower (user_Username u)) rows;
               doc = ParseScopeDocument (user_ScopeJSON u);
               noCluster = (\<lambda>r. case ic_ClusterID r of None \<Rightarrow> True | Some cid \<Rightarrow> sql_trim cid = [])
           in if \<not> RestrictsClusters doc then q
              else
                let allowed = (if HasUnenforcedRestrictions doc then []
                               else if ClusterIDs doc = [''__invalid_scope__''] then []
                               else ClusterIDs doc)
                in if allowed = [] then filter noCluster q
                   else filter (\<lambda>r. noCluster r \<or>
                          (case ic_ClusterID r of None \<Rightarrow> False | Some cid \<Rightarrow> sql_trim cid \<in> set allowed)) q)"

definition toInvestigationDTO :: "InvestigationCase \<Rightarrow> InvestigationCase" where
  "toInvestigationDTO row = row\<lparr>ic_Status := NormalizeStatus (ic_Status row)\<rparr>"

definition defaultCollaboration :: Collaboration where
  "defaultCollaboration = \<lparr>cb_Assignees = [], cb_Watchers = [], cb_TeamID = [], cb_HandoffNotes = []\<rparr>"

subsection \<open>Timeline and governance log\<close>

definition AppendTimeline :: "GinContext \<Rightarrow> string \<Rightarrow> string \<Rightarrow> string \<Rightarrow> Payload \<Rightarrow> Payload \<Rightarrow> Payload \<Rightarrow> InvestigationDb \<Rightarrow> InvestigationDb" where
  "AppendTimeline c caseID eventType summary before after details db =
     (if \<not> iv_hasTimeline db \<or> iv_logFails db then db
      else
        let (uid, name) = (case request_user c of None \<Rightarrow> (0, ''system'') | Some u \<Rightarrow> (user_ID u, user_Username u))
        in db\<lparr>iv_timeline := iv_timeline db @
             [\<lparr>tl_CaseID = caseID, tl_ActorUserID = uid, tl_ActorUsername = name, tl_EventType = eventType,
               tl_Summary = summary, tl_Before = before, tl_After = after, tl_Details = details\<rparr>]\<rparr>)"

definition ClassifyResultSeverity :: "string \<Rightarrow> string \<Rightarrow> string" where
  "ClassifyResultSeverity action res =
     (let r = ToLower (TrimSpace res);
          a = ToLower (TrimSpace action)
      in if r = ''deny'' \<or> r = ''error'' then ''high''
         else if r = ''success'' then
           (if Contains a ''delete'' \<or> Contains a ''revoke_all'' \<or> Contains a ''bulk'' then ''high''
            else if Contains a ''password'' \<or> Contains a ''rbac'' \<or> Contains a ''rotate'' \<or> Contains a ''publish'' then ''high''
            else if Contains a ''upload'' \<or> Contains a ''export'' \<or> Contains a ''graph'' then ''medium''
            else ''low'')
         else ''medium'')"

definition logInvestigationAudit :: "GinContext \<Rightarrow> string \<Rightarrow> string \<Rightarrow> string \<Rightarrow> Payload \<Rightarrow> InvestigationDb \<Rightarrow> InvestigationDb" where
  "logInvestigationAudit c action caseID res details db =
     (if \<not> iv_hasAudit db \<or> iv_logFails db then db
      else
        let (uid, name, role) = (case request_user c of None \<Rightarrow> (0, [], []) | Some u \<Rightarrow> (user_ID u, user_Username u, user_Role u))
        in db\<lparr>iv_audit := iv_audit db @
             [\<lparr>gr_ActorUserID = uid, gr_ActorUsername = name, gr_ActorRole = role,
               gr_Permissions = ToStrings (GrantedPermissions c), gr_SessionID = ctx_sessionID c, gr_Action = action,
               gr_ResourceType = ''investigation_case'', gr_ResourceID = caseID, gr_Result = res,
               gr_Severity = ClassifyResultSeverity action res, gr_AuthMethod = ''jwt'', gr_Details = details\<rparr>]\<rparr>)"

definition collaborationEqual :: "Collaboration \<Rightarrow> Collaboration \<Rightarrow> bool" where
  "collaborationEqual a b \<longleftrightarrow> a = b"

definition diffNewHandoffNotes :: "HandoffNote list \<Rightarrow> HandoffNote list \<Rightarrow> HandoffNote list" where
  "diffNewHandoffNotes before after = filter (\<lambda>n. hn_ID n \<notin> hn_ID ` set before) after"

text \<open>The value of a map filled from a list: the last element of every key.\<close>

fun last_by_key :: "('a \<Rightarrow> string) \<Rightarrow> 'a list \<Rightarrow> 'a list" where
  "last_by_key key [] = []"
| "last_by_key key (x # xs) = (if key x \<in> key ` set xs then last_by_key key xs else x # last_by_key key xs)"

definition diffEntitiesTimeline :: "GinContext \<Rightarrow> string \<Rightarrow> Entity list \<Rightarrow> Entity list \<Rightarrow> InvestigationDb \<Rightarrow> InvestigationDb" where
  "diffEntitiesTimeline c caseID before after db =
     (let db = foldl (\<lambda>db e.
            if en_ID e \<in> en_ID ` set before then db
            else
              let details = [(''entityId'', PStr (en_ID e)), (''type'', PStr (en_Type e)), (''label'', PStr (en_Label e))] @
                    (case en_SnapshotAt e of None \<Rightarrow> [] | Some t \<Rightarrow> [(''snapshotCapturedAt'', PStr t)])
              in AppendTimeline c caseID ''entity.pinned'' (''Pinned '' @ en_Type e @ '': '' @ en_Label e) []
                   [(''entity'', PEntity e)] details db) db (last_by_key en_ID after)
      in foldl (\<lambda>db e.
            if en_ID e \<in> en_ID ` set after then db
            else AppendTimeline c caseID ''entity.unpinned'' (''Unpinned '' @ en_Type e @ '': '' @ en_Label e)
                   [(''entity'', PEntity e)] [] [(''entityId'', PStr (en_ID e))] db) db (last_by_key en_ID before))"

definition remediationChanged :: "Remediation \<Rightarrow> Remediation \<Rightarrow> bool" where
  "remediationChanged a b \<longleftrightarrow> a \<noteq> b"

definition diffRemediationTimeline :: "GinContext \<Rightarrow> string \<Rightarrow> Remediation list \<Rightarrow> Remediation list \<Rightarrow> InvestigationDb \<Rightarrow> InvestigationDb" where
  "diffRemediationTimeline c caseID before after db =
     (let bMap = last_by_key rm_ID before;
          db = foldl (\<lambda>db r. case find (\<lambda>b. rm_ID b = rm_ID r) bMap of
            None \<Rightarrow> AppendTimeline c caseID ''remediation.added'' (''Remediation added: '' @ rm_Title r) [] [(''remediation'', PRemediation r)] [] db
          | Some prev \<Rightarrow>
              if remediationChanged prev r
              then AppendTimeline c caseID ''remediation.updated'' (''Remediation updated: '' @ rm_Title r)
                     [(''remediation'', PRemediation prev)] [(''remediation'', PRemediation r)] [] db
              else db) db (last_by_key rm_ID after)
      in foldl (\<lambda>db r.
            if rm_ID r \<in> rm_ID ` set after then db
            else AppendTimeline c caseID ''remediation.removed'' (''Remediation removed: '' @ rm_Title r)
                   [(''remediation'', PRemediation r)] [] [] db) db bMap)"

definition emitPatchTimelineEvents :: "GinContext \<Rightarrow> string \<Rightarrow> InvestigationCase \<Rightarrow> InvestigationCase \<Rightarrow> InvestigationDb \<Rightarrow> InvestigationDb" where
  "emitPatchTimelineEvents c caseID before after db =
     (let db = (if ic_Status before \<noteq> ic_Status after
                then AppendTimeline c caseID ''case.status_changed'' (''Status changed to '' @ ic_Status after)
                       [(''status'', PStr (ic_Status before))] [(''status'', PStr (ic_Status after))] [] db
                else db);
          db = (if ic_Owner before \<noteq> ic_Owner after
                then AppendTimeline c caseID ''case.assignment_changed'' (''Owner assigned to '' @ ic_Owner after)
                       [(''owner'', PStr (ic_Owner before))] [(''owner'', PStr (ic_Owner after))] [] db
                else db);
          bCollab = ic_Collaboration before;
          aCollab = ic_Collaboration after;
          db = (if \<not> collaborationEqual bCollab aCollab
                then foldl (\<lambda>db n. AppendTimeline c caseID ''handoff.note'' ''Handoff note added'' [] [(''note'', PHandoff n)]
                              [(''mentions'', PStrs (hn_Mentions n))] db)
                       (AppendTimeline c caseID ''case.collaboration_updated'' ''Collaboration updated''
                          [(''collaboration'', PCollaboration bCollab)] [(''collaboration'', PCollaboration aCollab)] [] db)
                       (diffNewHandoffNotes (cb_HandoffNotes bCollab) (cb_HandoffNotes aCollab))
                else db);
          db = diffEntitiesTimeline c caseID (ic_Entities before) (ic_Entities after) db;
          db = diffRemediationTimeline c caseID (ic_Remediation before) (ic_Remediation after) db
      in foldl (\<lambda>db n. AppendTimeline c caseID ''note.added'' ''Note added'' [] [(''note'', PNote n)] [] db) db
           (take (length (ic_Notes after) - length (ic_Notes before)) (ic_Notes after)))"

subsection \<open>Handlers of a case\<close>

definition find_case :: "InvestigationDb \<Rightarrow> string \<Rightarrow> InvestigationCase option" where
  "find_case db caseID = (if iv_readFails db then None else find (\<lambda>r. ic_ID r = caseID \<and> \<not> ic_Deleted r) (iv_cases db))"

definition save_case :: "InvestigationCase \<Rightarrow> InvestigationDb \<Rightarrow> InvestigationDb" where
  "save_case row db = db\<lparr>iv_cases := map (\<lambda>r. if ic_ID r = ic_ID row then row else r) (iv_cases db)\<rparr>"

definition GetInvestigationCase :: "GinContext \<Rightarrow> InvestigationDb \<Rightarrow> Reply" where
  "GetInvestigationCase c db =
     (let caseID = TrimSpace (ctx_param c ''id'')
      in if caseID = [] then (400, ErrorBody ''id required'')
         else case find_case db caseID of
                None \<Rightarrow> (404, ErrorBody ''case not found'')
              | Some row \<Rightarrow>
                  if \<not> investigationCanAccessCase c row then (403, ErrorBody ''forbidden'')
                  else (200, CaseBody (toInvestigationDTO row)))"

definition CreateInvestigationCase :: "(int \<Rightarrow> string) \<Rightarrow> string \<Rightarrow> int \<Rightarrow> GinContext \<Rightarrow> createRequest option \<Rightarrow> InvestigationDb
    \<Rightarrow> Reply \<times> InvestigationDb" where
  "CreateInvestigationCase rfc3339 newID now c body db = (case request_user c of
     None \<Rightarrow> ((401, ErrorBody ''unauthorized''), db)
   | Some u \<Rightarrow> (case body of
       None \<Rightarrow> ((400, ErrorBody ''bind''), db)
     | Some req \<Rightarrow>
         let title = TrimSpace (cq_Title req);
             title = (if title = [] then ''Investigation '' @ rfc3339 now else title)
         in if cq_ClusterID req \<noteq> None \<and> \<not> investigationClusterInScope c (cq_ClusterID req)
            then ((403, ErrorBody ''cluster out of scope''), db)
            else
              let owner = TrimSpace (cq_Owner req);
                  owner = (if owner = [] then user_Username u else owner);
                  row = \<lparr>ic_ID = ''case_'' @ newID, ic_Title = title, ic_Status = StatusOpen, ic_Owner = owner,
                         ic_ClusterID = cq_ClusterID req, ic_CreatedByUserID = user_ID u, ic_Entities = [], ic_Notes = [],
                         ic_Remediation = [], ic_Collaboration = defaultCollaboration, ic_SLADueAt = None,
                         ic_ArchivedAt = None, ic_RetentionUntil = None, ic_Deleted = False\<rparr>
              in if iv_writeFails db \<or> ic_ID row \<in> ic_ID ` set (iv_cases db) then ((500, ErrorBody ''create''), db)
                 else
                   let db = db\<lparr>iv_cases := iv_cases db @ [row]\<rparr>;
                       db = logInvestigationAudit c ''investigations.case.create'' (ic_ID row) ''success'' [(''title'', PStr (ic_Title row))] db;
                       db = AppendTimeline c (ic_ID row) ''case.created'' ''Investigation case created'' []
                              [(''status'', PStr (ic_Status row)), (''owner'', PStr (ic_Owner row))] [] db
                   in ((201, CaseBody (toInvestigationDTO row)), db)))"

text \<open>The fields of a patch, in the order of the code; the first that is refused ends the request.\<close>

definition apply_patch :: "(string \<Rightarrow> int option) \<Rightarrow> GinContext \<Rightarrow> string \<Rightarrow> casePatch \<Rightarrow> InvestigationCase \<Rightarrow> (Reply, InvestigationCase) result" where
  "apply_patch ParseTime c beforeStatus patch row =
     (let row = (case pt_Title patch of None \<Rightarrow> row | Some t \<Rightarrow> row\<lparr>ic_Title := TrimSpace t\<rparr>)
      in bind_result
           (case pt_Status patch of
              None \<Rightarrow> Inr row
            | Some st \<Rightarrow>
                let target = NormalizeStatus (TrimSpace st)
                in case ValidateTransition beforeStatus target (investigationIsAdmin c) of
                     Inl e \<Rightarrow> Inl (400, ErrorBody ''invalid status transition'')
                   | Inr _ \<Rightarrow> Inr (row\<lparr>ic_Status := target\<rparr>))
           (\<lambda>row.
              let row = (case pt_Owner patch of None \<Rightarrow> row | Some ow \<Rightarrow> row\<lparr>ic_Owner := TrimSpace ow\<rparr>)
              in bind_result
                   (case pt_ClusterID patch of
                      None \<Rightarrow> Inr row
                    | Some raw \<Rightarrow>
                        let cid = TrimSpace raw
                        in if cid = [] then Inr (row\<lparr>ic_ClusterID := None\<rparr>)
                           else if \<not> investigationClusterInScope c (Some cid) then Inl (403, ErrorBody ''cluster out of scope'')
                           else Inr (row\<lparr>ic_ClusterID := Some cid\<rparr>))
                   (\<lambda>row. bind_result
                      (case pt_SLADueAt patch of
                         None \<Rightarrow> Inr row
                       | Some raw \<Rightarrow>
                           let t = TrimSpace raw
                           in if t = [] then Inr (row\<lparr>ic_SLADueAt := None\<rparr>)
                              else case ParseTime t of
                                     None \<Rightarrow> Inl (400, ErrorBody ''invalid slaDueAt'')
                                   | Some utc \<Rightarrow> Inr (row\<lparr>ic_SLADueAt := Some utc\<rparr>))
                      (\<lambda>row. Inr (row\<lparr>ic_Entities := (case pt_Entities patch of None \<Rightarrow> ic_Entities row | Some es \<Rightarrow> es),
                                     ic_Notes := (case pt_Notes patch of None \<Rightarrow> ic_Notes row | Some ns \<Rightarrow> ns),
                                     ic_Remediation := (case pt_Remediation patch of None \<Rightarrow> ic_Remediation row | Some rs \<Rightarrow> rs),
                                     ic_Collaboration := (case pt_Collaboration patch of None \<Rightarrow> ic_Collaboration row | Some cb \<Rightarrow> cb)\<rparr>)))))"

definition PatchInvestigationCase :: "(string \<Rightarrow> int option) \<Rightarrow> GinContext \<Rightarrow> casePatch option \<Rightarrow> InvestigationDb \<Rightarrow> Reply \<times> InvestigationDb" where
  "PatchInvestigationCase ParseTime c body db = (case find_case db (TrimSpace (ctx_param c ''id'')) of
     None \<Rightarrow> ((404, ErrorBody ''case not found''), db)
   | Some row \<Rightarrow>
       if \<not> investigationCanMutateCase c row then ((403, ErrorBody ''forbidden''), db)
       else
         let beforeDTO = toInvestigationDTO row
         in case body of
              None \<Rightarrow> ((400, ErrorBody ''bind''), db)
            | Some patch \<Rightarrow>
                (case apply_patch ParseTime c (ic_Status beforeDTO) patch row of
                   Inl reply \<Rightarrow> (reply, db)
                 | Inr row' \<Rightarrow>
                     if iv_writeFails db then ((500, ErrorBody ''save''), db)
                     else
                       let db = save_case row' db;
                           afterDTO = toInvestigationDTO row';
                           db = emitPatchTimelineEvents c (ic_ID row') beforeDTO afterDTO db;
                           db = logInvestigationAudit c ''investigations.case.update'' (ic_ID row') ''success'' [] db
                       in ((200, CaseBody afterDTO), db)))"

definition DeleteInvestigationCase :: "int \<Rightarrow> GinContext \<Rightarrow> InvestigationDb \<Rightarrow> Reply \<times> InvestigationDb" where
  "DeleteInvestigationCase now c db =
     (let caseID = TrimSpace (ctx_param c ''id'')
      in case find_case db caseID of
           None \<Rightarrow> ((404, ErrorBody ''case not found''), db)
         | Some row \<Rightarrow>
             if \<not> investigationIsAdmin c \<and> \<not> investigationCanMutateCase c row then ((403, ErrorBody ''forbidden''), db)
             else
               let beforeStatus = NormalizeStatus (ic_Status row);
                   retention = (now, 7);
                   row = row\<lparr>ic_Status := StatusArchived, ic_ArchivedAt := Some now, ic_RetentionUntil := Some retention\<rparr>
               in if iv_writeFails db then ((500, ErrorBody ''save''), db)
                  else
                    let db = save_case row db
                    in if iv_deleteFails db then ((500, ErrorBody ''delete''), db)
                       else
                         let db = save_case (row\<lparr>ic_Deleted := True\<rparr>) db;
                             db = AppendTimeline c caseID ''case.archived'' ''Investigation case archived (soft delete)''
                                    [(''status'', PStr beforeStatus)]
                                    [(''status'', PStr StatusArchived), (''retentionUntil'', PRetention retention)]
                                    [(''retentionYears'', PNat 7)] db;
                             db = logInvestigationAudit c ''investigations.case.delete'' caseID ''success''
                                    [(''archived'', PBool True), (''retentionUntil'', PRetention retention)] db
                         in ((200, ArchivedBody caseID retention), db))"

subsection \<open>Linked findings\<close>

definition linkedInsightID :: "Entity \<Rightarrow> string" where
  "linkedInsightID e =
     (if \<not> EqualFold (TrimSpace (en_Type e)) ''finding'' then []
      else
        let iid = TrimSpace (en_Meta e ''insightId'')
        in if iid \<noteq> [] then iid
           else
             let h = TrimSpace (en_Href e)
             in case Index h ''/risks/'' of
                  Some idx \<Rightarrow> TrimSpace (cut_before_any ''?#/'' (drop (idx + length ''/risks/'') h))
                | None \<Rightarrow> [])"

definition validInsightID :: "string \<Rightarrow> bool" where
  "validInsightID iid = (if iid = [] then False else ParseUint64 iid \<noteq> None)"

definition resourceUIDClusterID :: "InvestigationDb \<Rightarrow> string \<Rightarrow> (string, string) result" where
  "resourceUIDClusterID db resourceUID0 =
     (let resourceUID = TrimSpace resourceUID0
      in if resourceUID = [] then Inr []
         else if iv_readFails db then Inl ''query failed''
         else
           let clusterIDs = remdups (map snd (filter (\<lambda>p. fst p = resourceUID) (iv_pods db)))
           in case clusterIDs of
                [] \<Rightarrow> Inr []
              | [cid] \<Rightarrow> Inr (TrimSpace cid)
              | _ \<Rightarrow> Inl ''ambiguous resource ownership'')"

definition insightInRequestScope :: "InvestigationDb \<Rightarrow> GinContext \<Rightarrow> Insight \<Rightarrow> (string, bool) result" where
  "insightInRequestScope db c insight =
     (if \<not> snd (ScopedClusterIDs c) then Inr True
      else
        let clusterID = TrimSpace (in_ClusterID insight)
        in if clusterID = [] then
             bind_result (resourceUIDClusterID db (in_ResourceUID insight)) (\<lambda>cid.
               if cid = [] then Inr False else Inr (ClusterAllowed c cid))
           else Inr (ClusterAllowed c clusterID))"

definition maxLinkedFindings :: nat where
  "maxLinkedFindings = 200"

text \<open>The links of a case: valid finding identifiers, the first entity of each.\<close>

fun finding_links :: "string set \<Rightarrow> Entity list \<Rightarrow> (string \<times> string \<times> string) list" where
  "finding_links seen [] = []"
| "finding_links seen (e # es) =
     (let iid = linkedInsightID e
      in if \<not> validInsightID iid \<or> iid \<in> seen then finding_links seen es
         else (iid, en_PinnedAt e, en_Label e) # finding_links (insert iid seen) es)"

definition insight_by_id :: "InvestigationDb \<Rightarrow> string list \<Rightarrow> string \<Rightarrow> Insight option" where
  "insight_by_id db ids iid =
     find (\<lambda>r. Itoa (in_ID r) = iid \<and> in_ID r \<in> set (List.map_filter ParseUint64 ids)) (iv_insights db)"

fun collect_findings :: "InvestigationDb \<Rightarrow> GinContext \<Rightarrow> string list \<Rightarrow> LinkedFinding list \<times> nat \<Rightarrow> (string \<times> string \<times> string) list
    \<Rightarrow> (Reply, LinkedFinding list \<times> nat) result" where
  "collect_findings db c ids (items, hidden) [] = Inr (items, hidden)"
| "collect_findings db c ids (items, hidden) ((iid, linkedAt, label) # links) =
     (case insight_by_id db ids iid of
        None \<Rightarrow> collect_findings db c ids (items @
          [\<lparr>lf_InsightID = iid, lf_Title = label, lf_Status = [], lf_SeverityHint = [], lf_ClusterID = [], lf_ResourceType = [],
            lf_ResourceNamespace = [], lf_ResourceName = [], lf_ResourceUID = [], lf_LinkedAt = linkedAt, lf_Missing = True\<rparr>], hidden) links
      | Some insight \<Rightarrow>
          (case insightInRequestScope db c insight of
             Inl e \<Rightarrow> Inl (500, ErrorBody ''could not check cluster scope'')
           | Inr inScope \<Rightarrow>
               if \<not> inScope then collect_findings db c ids (items, hidden + 1) links
               else collect_findings db c ids (items @
                 [\<lparr>lf_InsightID = iid, lf_Title = in_Title insight, lf_Status = in_Status insight,
                   lf_SeverityHint = in_Severity insight, lf_ClusterID = in_ClusterID insight,
                   lf_ResourceType = in_ResourceType insight, lf_ResourceNamespace = in_ResourceNamespace insight,
                   lf_ResourceName = in_ResourceName insight, lf_ResourceUID = in_ResourceUID insight,
                   lf_LinkedAt = linkedAt, lf_Missing = False\<rparr>], hidden) links))"

definition ListInvestigationFindings :: "GinContext \<Rightarrow> InvestigationDb \<Rightarrow> Reply" where
  "ListInvestigationFindings c db = (case find_case db (TrimSpace (ctx_param c ''id'')) of
     None \<Rightarrow> (404, ErrorBody ''case not found'')
   | Some row \<Rightarrow>
       if \<not> investigationCanAccessCase c row then (403, ErrorBody ''forbidden'')
       else if \<not> HasPermission (GrantedPermissions c) PermissionFindingsRead then (403, ErrorBody ''forbidden'')
       else
         let links = finding_links {} (ic_Entities row);
             truncated = length links > maxLinkedFindings;
             links = take maxLinkedFindings links
         in case collect_findings db c (map fst links) ([], 0) links of
              Inl reply \<Rightarrow> reply
            | Inr (items, hidden) \<Rightarrow> (200, FindingsBody items hidden truncated))"

definition caseLinksFinding :: "InvestigationCase \<Rightarrow> string \<Rightarrow> bool" where
  "caseLinksFinding row insightID = list_ex (\<lambda>e. linkedInsightID e = insightID) (ic_Entities row)"

definition find_insight :: "InvestigationDb \<Rightarrow> string \<Rightarrow> Insight option" where
  "find_insight db iid = find (\<lambda>r. ParseUint64 iid = Some (in_ID r)) (iv_insights db)"

definition resolveFindingPin :: "InvestigationDb \<Rightarrow> GinContext \<Rightarrow> InvestigationCase \<Rightarrow> pinRequest
    \<Rightarrow> (Reply, string \<times> string \<times> string \<times> (string \<Rightarrow> string)) result" where
  "resolveFindingPin db c row req =
     (let iid = linkedInsightID \<lparr>en_ID = [], en_Type = ''finding'', en_Label = [], en_Href = pq_Href req, en_Meta = pq_Meta req,
                                en_PinnedAt = [], en_SnapshotAt = None\<rparr>
      in if \<not> validInsightID iid then Inl (400, ErrorBody ''finding id required'')
         else if \<not> HasPermission (GrantedPermissions c) PermissionFindingsRead then Inl (403, ErrorBody ''forbidden'')
         else if iv_readFails db then Inl (500, ErrorBody ''could not load finding'')
         else case find_insight db iid of
                None \<Rightarrow> Inl (404, ErrorBody ''finding not found'')
              | Some insight \<Rightarrow>
                  (case insightInRequestScope db c insight of
                     Inl e \<Rightarrow> Inl (500, ErrorBody ''could not check cluster scope'')
                   | Inr inScope \<Rightarrow>
                       if \<not> inScope then Inl (404, ErrorBody ''finding not found'')
                       else if (case ic_ClusterID row of None \<Rightarrow> False
                                | Some cid \<Rightarrow> TrimSpace cid \<noteq> [] \<and> TrimSpace (in_ClusterID insight) \<noteq> [] \<and>
                                    TrimSpace (in_ClusterID insight) \<noteq> TrimSpace cid)
                       then Inl (409, ErrorBody ''the finding is in a different cluster than the case'')
                       else
                         let label = TrimSpace (in_Title insight);
                             label = (if label = [] then ''Finding '' @ iid else label)
                         in Inr (''finding:'' @ iid, label, ''#/risks/'' @ iid, (pq_Meta req)(''insightId'' := iid))))"

definition PinInvestigationEntity :: "(int \<Rightarrow> string) \<Rightarrow> int \<Rightarrow> GinContext \<Rightarrow> pinRequest option \<Rightarrow> InvestigationDb \<Rightarrow> Reply \<times> InvestigationDb" where
  "PinInvestigationEntity rfc3339 now c body db = (case find_case db (TrimSpace (ctx_param c ''id'')) of
     None \<Rightarrow> ((404, ErrorBody ''case not found''), db)
   | Some row \<Rightarrow>
       if \<not> investigationCanMutateCase c row then ((403, ErrorBody ''forbidden''), db)
       else case body of
         None \<Rightarrow> ((400, ErrorBody ''bind''), db)
       | Some req \<Rightarrow>
           let entityType = TrimSpace (pq_Type req);
               label = TrimSpace (pq_Label req)
           in if entityType = [] \<or> label = [] then ((400, ErrorBody ''type and label required''), db)
              else
                (case (if EqualFold entityType ''finding''
                       then map_sum id (\<lambda>(key, lab, hr, meta). (''finding'', key, lab, hr, meta, meta ''insightId'')) (resolveFindingPin db c row req)
                       else Inr (entityType, entityType @ '':'' @ label, label, pq_Href req, pq_Meta req, [])) of
                   Inl reply \<Rightarrow> (reply, db)
                 | Inr (entityType, entityKey, label, href, meta, linkedFinding) \<Rightarrow>
                     (case find (\<lambda>e. en_ID e = entityKey \<or> (href \<noteq> [] \<and> en_Href e = href) \<or>
                                (linkedFinding \<noteq> [] \<and> linkedInsightID e = linkedFinding)) (ic_Entities row) of
                        Some e \<Rightarrow> ((200, PinBody False e (toInvestigationDTO row)), db)
                      | None \<Rightarrow>
                          let pinned = \<lparr>en_ID = entityKey, en_Type = entityType, en_Label = label, en_Href = href, en_Meta = meta,
                                        en_PinnedAt = rfc3339 now, en_SnapshotAt = Some (rfc3339 now)\<rparr>;
                              row = row\<lparr>ic_Entities := pinned # ic_Entities row\<rparr>
                          in if iv_writeFails db then ((500, ErrorBody ''save''), db)
                             else
                               let db = save_case row db;
                                   db = AppendTimeline c (ic_ID row) ''entity.pinned'' (''Pinned '' @ entityType @ '': '' @ label) []
                                          [(''entity'', PEntity pinned)] [(''snapshotCapturedAt'', PStr (rfc3339 now))] db;
                                   db = logInvestigationAudit c ''investigations.case.update'' (ic_ID row) ''success''
                                          [(''pin'', PStr entityKey)] db
                               in ((200, PinBody True pinned (toInvestigationDTO row)), db))))"

text \<open>The timeline keeps the newest entries and returns them oldest first; rows stand in the order of their creation.\<close>

definition ListInvestigationTimeline :: "GinContext \<Rightarrow> InvestigationDb \<Rightarrow> Reply" where
  "ListInvestigationTimeline c db =
     (let caseID = TrimSpace (ctx_param c ''id'')
      in case (if iv_readFails db then None else find (\<lambda>r. ic_ID r = caseID) (iv_cases db)) of
           None \<Rightarrow> (404, ErrorBody ''case not found'')
         | Some row \<Rightarrow>
             if \<not> investigationCanAccessCase c row then (403, ErrorBody ''forbidden'')
             else if \<not> iv_hasTimeline db then (200, TimelineBody [] 0 False)
             else
               let limit = ParseParam (ctx_query c) ''limit'' 1000 5000;
                   rows = take (nat (limit + 1)) (rev (filter (\<lambda>t. tl_CaseID t = caseID) (iv_timeline db)));
                   (rows, truncated) = Trim rows limit
               in (200, TimelineBody (rev rows) (length rows) truncated))"

subsection \<open>Listing\<close>

text \<open>
  The cases are read in chunks, newest first (\<open>newest\<close> is the order of the query), until one more than the limit is found
  or the cap on the rows read is reached.
\<close>

definition investigationCasesScanCap :: nat where
  "investigationCasesScanCap = 20000"

function scan_cases :: "(InvestigationCase \<Rightarrow> bool) \<Rightarrow> nat \<Rightarrow> InvestigationCase list \<Rightarrow> nat \<Rightarrow> InvestigationCase list \<Rightarrow> InvestigationCase list" where
  "scan_cases wanted limit rows offset filtered =
     (if offset < investigationCasesScanCap \<and> length filtered \<le> limit
      then let page = take 500 (drop offset rows);
               filtered = filtered @ map toInvestigationDTO (filter wanted page)
           in if length page < 500 then filtered else scan_cases wanted limit rows (offset + 500) filtered
      else filtered)"
  by pat_completeness auto
termination
  by (relation "measure (\<lambda>(_, _, _, offset, _). investigationCasesScanCap - offset)") auto

declare scan_cases.simps [simp del]

definition ListInvestigationCases :: "(InvestigationCase list \<Rightarrow> InvestigationCase list) \<Rightarrow> GinContext \<Rightarrow> InvestigationDb \<Rightarrow> Reply" where
  "ListInvestigationCases newest c db =
     (if \<not> iv_hasCases db then (200, CasesBody [] 0 False)
      else case request_user c of
        None \<Rightarrow> (401, ErrorBody ''unauthorized'')
      | Some u \<Rightarrow>
          let limit = ParseParam (ctx_query c) ''limit'' 500 2000;
              findingID = TrimSpace (ctx_query c ''findingId'')
          in if findingID \<noteq> [] \<and> \<not> validInsightID findingID then (400, ErrorBody ''invalid findingId'')
             else if iv_readFails db then (500, ErrorBody ''query'')
             else
               let rows = newest (filter (\<lambda>r. \<not> ic_Deleted r \<and> (investigationIsAdmin c \<or>
                            ic_CreatedByUserID r = user_ID u \<or> ToLower (ic_Owner r) = ToLower (user_Username u))) (iv_cases db));
                   filtered = scan_cases (\<lambda>r. \<not> (findingID \<noteq> [] \<and> \<not> caseLinksFinding r findingID) \<and> investigationCanAccessCase c r)
                                (nat limit) rows 0 [];
                   (filtered, truncated) = Trim filtered limit
               in (200, CasesBody filtered (length filtered) truncated))"

subsection \<open>Statistics\<close>

definition countOverdueRemediation :: "(string \<Rightarrow> int option) \<Rightarrow> Remediation list \<Rightarrow> int \<Rightarrow> nat" where
  "countOverdueRemediation ParseTime actions now =
     length (filter (\<lambda>rem. \<not> (rm_Status rem = ''done'' \<or> rm_DueAt rem = []) \<and>
       (case ParseTime (rm_DueAt rem) of None \<Rightarrow> False | Some t \<Rightarrow> t < now)) actions)"

definition GetInvestigationCaseStats :: "(string \<Rightarrow> int option) \<Rightarrow> int \<Rightarrow> GinContext \<Rightarrow> InvestigationDb \<Rightarrow> Reply" where
  "GetInvestigationCaseStats ParseTime now c db =
     (if \<not> iv_hasCases db then (200, StatsBody 0 0)
      else case request_user c of
        None \<Rightarrow> (401, ErrorBody ''unauthorized'')
      | Some u \<Rightarrow>
          let q = investigationAccessibleCases c u (iv_cases db)
          in if iv_readFails db then (500, ErrorBody ''query'')
             else (200, StatsBody
               (length (filter (\<lambda>r. ToUpper (sql_trim (ic_Status r)) \<notin> {StatusResolved, StatusArchived, ''CLOSED''}) q))
               (sum_list (map (\<lambda>r. countOverdueRemediation ParseTime (ic_Remediation r) now) q))))"

end
