(* ===== verification/Investigation_Access.thy ===== *)
theory Investigation_Access
  imports Investigation
begin

section \<open>Who changes a case, what is never lost, what a user learns\<close>

text \<open>
  Every writing handler of \<open>Investigation\<close> has one of three effects (\<open>case_effect\<close>): it is refused, it adds a
  row with a fresh identifier, or it replaces one live row its caller may mutate; beside that it only
  appends to the timeline and to the governance log. The locale \<open>step_history\<close> lifts this to
  sequences of requests. The listing and the statistics, which decide in SQL, are compared with the
  check the other handlers make, and a pin is shown to reveal nothing of foreign findings.
\<close>

subsection \<open>What a handler may change\<close>

definition logs_only :: "InvestigationDb \<Rightarrow> InvestigationDb \<Rightarrow> bool" where
  "logs_only db db' \<longleftrightarrow> prefix (iv_timeline db) (iv_timeline db') \<and> prefix (iv_audit db) (iv_audit db') \<and>
     db'\<lparr>iv_timeline := [], iv_audit := []\<rparr> = db\<lparr>iv_timeline := [], iv_audit := []\<rparr>"

lemma logs_only_refl [intro]: "logs_only db db"
  by (simp add: logs_only_def)

lemma logs_only_AppendTimeline [intro]: "logs_only d db \<Longrightarrow> logs_only d (AppendTimeline c i e s x y z db)"
  by (auto simp: AppendTimeline_def logs_only_def Let_def intro: prefix_order.trans split: prod.splits)

lemma logs_only_audit [intro]: "logs_only d db \<Longrightarrow> logs_only d (logInvestigationAudit c a i r x db)"
  by (auto simp: logInvestigationAudit_def logs_only_def Let_def intro: prefix_order.trans split: prod.splits)

lemma logs_only_foldl: "(\<And>x s. logs_only d s \<Longrightarrow> logs_only d (f s x)) \<Longrightarrow> logs_only d db \<Longrightarrow> logs_only d (foldl f db xs)"
  by (induction xs arbitrary: db) auto

lemma logs_only_entities: "logs_only d db \<Longrightarrow> logs_only d (diffEntitiesTimeline c i b a db)"
  unfolding diffEntitiesTimeline_def Let_def by (intro logs_only_foldl) (auto simp: Let_def)

lemma logs_only_remediation: "logs_only d db \<Longrightarrow> logs_only d (diffRemediationTimeline c i b a db)"
  unfolding diffRemediationTimeline_def Let_def by (intro logs_only_foldl) (auto split: option.split)

lemma logs_only_emit: "logs_only d db \<Longrightarrow> logs_only d (emitPatchTimelineEvents c i b a db)"
  unfolding emitPatchTimelineEvents_def Let_def
  by (intro logs_only_foldl logs_only_remediation logs_only_entities) (auto intro!: logs_only_foldl)

lemma logs_only_cases: "logs_only d db \<Longrightarrow> iv_cases db = iv_cases d"
  by (auto simp: logs_only_def dest: arg_cong [where f = iv_cases])

lemma logs_only_prefixes: "logs_only d db \<Longrightarrow> prefix (iv_timeline d) (iv_timeline db) \<and> prefix (iv_audit d) (iv_audit db)"
  by (simp add: logs_only_def)

definition same_case :: "InvestigationCase \<Rightarrow> InvestigationCase \<Rightarrow> bool" where
  "same_case r r' \<longleftrightarrow> ic_ID r' = ic_ID r \<and> ic_CreatedByUserID r' = ic_CreatedByUserID r \<and> ic_Deleted r' = ic_Deleted r"

text \<open>One request that writes: which row it replaces or adds, and how.\<close>

inductive case_effect :: "GinContext \<Rightarrow> InvestigationDb \<Rightarrow> InvestigationDb \<Rightarrow> bool" for c db where
  refused: "case_effect c db db"
| added: "ic_ID row \<notin> ic_ID ` set (iv_cases db) \<Longrightarrow> logs_only (db\<lparr>iv_cases := iv_cases db @ [row]\<rparr>) db' \<Longrightarrow> case_effect c db db'"
| changed: "row \<in> set (iv_cases db) \<Longrightarrow> \<not> ic_Deleted row \<Longrightarrow> investigationCanMutateCase c row \<Longrightarrow> same_case (row'\<lparr>ic_Deleted := False\<rparr>) row \<Longrightarrow>
    CanTransition (ic_Status row) (ic_Status row') (investigationIsAdmin c) \<or> ic_Status row' = StatusArchived \<Longrightarrow>
    logs_only (save_case row' db) db' \<Longrightarrow> case_effect c db db'"

inductive case_request :: "(string \<Rightarrow> int option) \<Rightarrow> (int \<Rightarrow> string) \<Rightarrow> GinContext \<Rightarrow> InvestigationDb \<Rightarrow> InvestigationDb \<Rightarrow> bool"
  for ParseTime rfc3339 c db where
  create: "case_request ParseTime rfc3339 c db (snd (CreateInvestigationCase rfc3339 newID now c cbody db))"
| patch: "case_request ParseTime rfc3339 c db (snd (PatchInvestigationCase ParseTime c body db))"
| pin: "case_request ParseTime rfc3339 c db (snd (PinInvestigationEntity rfc3339 now c pbody db))"
| delete: "case_request ParseTime rfc3339 c db (snd (DeleteInvestigationCase now c db))"

lemma find_case_Some: "find_case db i = Some row \<Longrightarrow> row \<in> set (iv_cases db) \<and> \<not> ic_Deleted row \<and> ic_ID row = i"
  by (auto simp: find_case_def find_Some_iff split: if_splits)

lemma CanTransition_refl [simp]: "CanTransition s s a"
  by (simp add: CanTransition_def)

lemma apply_patch_keeps:
  assumes "apply_patch ParseTime c (NormalizeStatus (ic_Status row)) patch row = Inr row'"
  shows "same_case row row' \<and> CanTransition (ic_Status row) (ic_Status row') (investigationIsAdmin c)"
proof -
  define r0 where "r0 = (case pt_Title patch of None \<Rightarrow> row | Some t \<Rightarrow> row\<lparr>ic_Title := TrimSpace t\<rparr>)"
  have r0: "same_case row r0" "ic_Status r0 = ic_Status row" by (auto simp: r0_def same_case_def split: option.split)
  obtain r1 r2 r3 r4 where
    e1: "(case pt_Status patch of None \<Rightarrow> Inr r0 | Some st \<Rightarrow>
           case ValidateTransition (NormalizeStatus (ic_Status row)) (NormalizeStatus (TrimSpace st)) (investigationIsAdmin c) of
             Inl e \<Rightarrow> Inl (400 :: nat, ErrorBody ''invalid status transition'')
           | Inr _ \<Rightarrow> Inr (r0\<lparr>ic_Status := NormalizeStatus (TrimSpace st)\<rparr>)) = Inr r1"
    and e2: "r2 = (case pt_Owner patch of None \<Rightarrow> r1 | Some ow \<Rightarrow> r1\<lparr>ic_Owner := TrimSpace ow\<rparr>)"
    and e3: "(case pt_ClusterID patch of None \<Rightarrow> Inr r2 | Some raw \<Rightarrow>
           if TrimSpace raw = [] then Inr (r2\<lparr>ic_ClusterID := None\<rparr>)
           else if \<not> investigationClusterInScope c (Some (TrimSpace raw)) then Inl (403 :: nat, ErrorBody ''cluster out of scope'')
           else Inr (r2\<lparr>ic_ClusterID := Some (TrimSpace raw)\<rparr>)) = Inr r3"
    and e4: "(case pt_SLADueAt patch of None \<Rightarrow> Inr r3 | Some raw \<Rightarrow>
           if TrimSpace raw = [] then Inr (r3\<lparr>ic_SLADueAt := None\<rparr>)
           else case ParseTime (TrimSpace raw) of None \<Rightarrow> Inl (400 :: nat, ErrorBody ''invalid slaDueAt'')
                | Some utc \<Rightarrow> Inr (r3\<lparr>ic_SLADueAt := Some utc\<rparr>)) = Inr r4"
    and e5: "same_case r4 row'" "ic_Status row' = ic_Status r4"
    using assms [unfolded apply_patch_def Let_def bind_result_Inr_iff, folded r0_def]
    by (elim exE conjE) (rule that, assumption, rule refl, assumption, assumption, auto simp: same_case_def)
  have "same_case r0 r1" "CanTransition (ic_Status row) (ic_Status r1) (investigationIsAdmin c)"
    using e1 r0(2) by (auto simp: same_case_def Let_def ValidateTransition_def split: option.splits if_splits)
  moreover have "same_case r1 r2" "ic_Status r2 = ic_Status r1" by (auto simp: e2 same_case_def split: option.split)
  moreover have "same_case r2 r3" "ic_Status r3 = ic_Status r2" using e3 by (auto simp: same_case_def Let_def split: option.splits if_splits)
  moreover have "same_case r3 r4" "ic_Status r4 = ic_Status r3" using e4 by (auto simp: same_case_def Let_def split: option.splits if_splits)
  ultimately show ?thesis using e5 r0 by (simp add: same_case_def)
qed

lemma create_effect: "case_effect c db (snd (CreateInvestigationCase rfc3339 newID now c body db))"
  unfolding CreateInvestigationCase_def Let_def
  by (auto split: option.split intro: refused intro!: added [OF _ logs_only_AppendTimeline, OF _ logs_only_audit])

lemma patch_effect: "case_effect c db (snd (PatchInvestigationCase ParseTime c body db))"
proof (cases "find_case db (TrimSpace (ctx_param c ''id''))")
  case (Some row)
  note row = find_case_Some [OF Some]
  have "case_effect c db (snd (PatchInvestigationCase ParseTime c (Some patch) db))"
    if "investigationCanMutateCase c row" "apply_patch ParseTime c (NormalizeStatus (ic_Status row)) patch row = Inr row'" for patch row'
    using row that apply_patch_keeps [OF that(2)]
    by (auto simp: PatchInvestigationCase_def Some toInvestigationDTO_def Let_def same_case_def intro: refused
        intro!: changed [of row db c row', OF _ _ _ _ _ logs_only_audit] logs_only_emit)
  then show ?thesis
    by (cases body) (auto simp: PatchInvestigationCase_def Some toInvestigationDTO_def Let_def intro: refused split: sum.splits)
qed (auto simp: PatchInvestigationCase_def intro: refused)

lemma pin_entity_effect:
  assumes "find_case db i = Some row" and "investigationCanMutateCase c row" and "row' = row\<lparr>ic_Entities := es\<rparr>"
  shows "case_effect c db (logInvestigationAudit c a x r d (AppendTimeline c k e s p q z (save_case row' db)))"
  using assms find_case_Some [OF assms(1)]
  by (intro changed [of row db c row', OF _ _ _ _ _ logs_only_audit]) (auto simp: same_case_def)

lemma pin_effect: "case_effect c db (snd (PinInvestigationEntity rfc3339 now c body db))"
proof (cases "find_case db (TrimSpace (ctx_param c ''id''))")
  case (Some row)
  then show ?thesis unfolding PinInvestigationEntity_def Let_def
    by (simp split: option.split sum.split) (intro conjI impI allI refused pin_entity_effect; (assumption | rule refl))
qed (auto simp: PinInvestigationEntity_def intro: refused)

lemma canMutate_admin: "investigationIsAdmin c \<Longrightarrow> investigationCanMutateCase c row"
  by (simp add: investigationCanMutateCase_def investigationCanAccessCase_def)

lemma save_case_twice: "ic_ID r = ic_ID r' \<Longrightarrow> save_case r' (save_case r db) = save_case r' db"
  by (auto simp: save_case_def)

lemma archive_effect:
  assumes "find_case db i = Some row" and "logs_only (save_case row' db) db'" and "investigationCanMutateCase c row"
    and "ic_Status row' = StatusArchived" and "ic_ID row' = ic_ID row" and "ic_CreatedByUserID row' = ic_CreatedByUserID row"
  shows "case_effect c db db'"
  using assms find_case_Some [OF assms(1)] by (intro changed [of row db c row' db']) (auto simp: same_case_def)

lemma delete_effect: "case_effect c db (snd (DeleteInvestigationCase now c db))"
proof (cases "find_case db (TrimSpace (ctx_param c ''id''))")
  case (Some row)
  then show ?thesis unfolding DeleteInvestigationCase_def Let_def
    by (auto simp: save_case_twice canMutate_admin intro: refused
        intro!: archive_effect [OF Some logs_only_refl] archive_effect [OF Some logs_only_audit, OF logs_only_AppendTimeline, OF logs_only_refl])
qed (auto simp: DeleteInvestigationCase_def intro: refused)

lemma request_effect: "case_request ParseTime rfc3339 c db db' \<Longrightarrow> case_effect c db db'"
  by (auto elim!: case_request.cases intro: create_effect patch_effect pin_effect delete_effect)

definition distinct_cases :: "InvestigationDb \<Rightarrow> bool" where
  "distinct_cases db \<longleftrightarrow> distinct (map ic_ID (iv_cases db))"

definition row_kept :: "InvestigationCase \<Rightarrow> InvestigationCase \<Rightarrow> bool" where
  "row_kept r r' \<longleftrightarrow> ic_ID r' = ic_ID r \<and> ic_CreatedByUserID r' = ic_CreatedByUserID r \<and> (ic_Deleted r \<longrightarrow> r' = r)"

definition case_history :: "InvestigationDb \<Rightarrow> InvestigationDb \<Rightarrow> bool" where
  "case_history db db' \<longleftrightarrow>
     prefix (iv_timeline db) (iv_timeline db') \<and> prefix (iv_audit db) (iv_audit db') \<and>
     length (iv_cases db) \<le> length (iv_cases db') \<and>
     (\<forall>i < length (iv_cases db). row_kept (iv_cases db ! i) (iv_cases db' ! i))"

definition case_step :: "(string \<Rightarrow> int option) \<Rightarrow> (int \<Rightarrow> string) \<Rightarrow> InvestigationDb \<Rightarrow> InvestigationDb \<Rightarrow> bool" where
  "case_step ParseTime rfc3339 db db' \<longleftrightarrow> (\<exists>c. case_request ParseTime rfc3339 c db db')"

lemma row_kept_refl [simp]: "row_kept r r"
  by (simp add: row_kept_def)

lemma row_kept_trans: "row_kept a b \<Longrightarrow> row_kept b d \<Longrightarrow> row_kept a d"
  by (auto simp: row_kept_def)

lemma case_history_refl: "case_history db db"
  by (simp add: case_history_def)

lemma case_history_trans: "case_history a b \<Longrightarrow> case_history b d \<Longrightarrow> case_history a d"
  unfolding case_history_def by (auto intro: row_kept_trans prefix_order.trans dest: order.strict_trans2)

lemma save_case_ids [simp]: "map ic_ID (iv_cases (save_case r db)) = map ic_ID (iv_cases db)"
  by (auto simp: save_case_def)

lemma save_case_logs [simp]: "iv_timeline (save_case r db) = iv_timeline db" "iv_audit (save_case r db) = iv_audit db"
  by (simp_all add: save_case_def)

lemma distinct_cases_row:
  "distinct_cases db \<Longrightarrow> row \<in> set (iv_cases db) \<Longrightarrow> i < length (iv_cases db) \<Longrightarrow> ic_ID (iv_cases db ! i) = ic_ID row \<Longrightarrow> iv_cases db ! i = row"
  unfolding distinct_cases_def by (metis in_set_conv_nth length_map nth_eq_iff_index_eq nth_map)

lemma save_case_history:
  assumes "distinct_cases db" and "row \<in> set (iv_cases db)" and "\<not> ic_Deleted row" and "same_case (row'\<lparr>ic_Deleted := False\<rparr>) row"
  shows "case_history db (save_case row' db)"
  using assms(3,4) distinct_cases_row [OF assms(1,2)]
  by (auto simp: case_history_def save_case_def row_kept_def same_case_def)

lemma logs_only_history: "logs_only d db \<Longrightarrow> case_history d db"
  using logs_only_cases logs_only_prefixes by (fastforce simp: case_history_def)

lemma case_effect_keeps:
  assumes "case_effect c db db'" and "distinct_cases db"
  shows "distinct_cases db' \<and> case_history db db'"
  using assms(1)
proof cases
  case (added row)
  have "case_history db (db\<lparr>iv_cases := iv_cases db @ [row]\<rparr>)" by (simp add: case_history_def nth_append)
  with added assms(2) logs_only_history [OF added(2)] logs_only_cases [OF added(2)] show ?thesis
    by (auto simp: distinct_cases_def intro: case_history_trans)
next
  case (changed row row')
  with assms(2) logs_only_history [OF changed(6)] logs_only_cases [OF changed(6)] save_case_history [OF assms(2) changed(1,2,4)]
  show ?thesis by (metis case_history_trans distinct_cases_def save_case_ids)
qed (use assms in \<open>simp add: case_history_def\<close>)

interpretation cases: step_history "case_step ParseTime rfc3339" distinct_cases case_history for ParseTime rfc3339
  by unfold_locales
    (auto simp: case_step_def dest!: request_effect dest: case_effect_keeps intro: case_history_trans case_history_refl)

definition sample_case :: InvestigationCase where
  "sample_case = \<lparr>ic_ID = ''case_1'', ic_Title = ''t'', ic_Status = StatusOpen, ic_Owner = ''Eve'', ic_ClusterID = Some ''c1'',
     ic_CreatedByUserID = 9, ic_Entities = [\<lparr>en_ID = ''finding:5'', en_Type = ''finding'', en_Label = ''f'', en_Href = ''#/risks/5'',
       en_Meta = (\<lambda>_. []), en_PinnedAt = ''p'', en_SnapshotAt = None\<rparr>], ic_Notes = [],
     ic_Remediation = [\<lparr>rm_ID = ''r'', rm_Title = ''r'', rm_Status = ''open'', rm_Owner = [], rm_DueAt = ''3'', rm_Notes = [], rm_CreatedAt = [],
       rm_ExternalSystem = [], rm_ExternalTicketURL = [], rm_ExternalTicketKey = []\<rparr>], ic_Collaboration = defaultCollaboration,
     ic_SLADueAt = None, ic_ArchivedAt = None, ic_RetentionUntil = None, ic_Deleted = False\<rparr>"

definition sample_insight :: Insight where
  "sample_insight = \<lparr>in_ID = 5, in_ClusterID = ''c2'', in_ResourceType = ''Pod'', in_ResourceNamespace = [], in_ResourceName = [],
     in_ResourceUID = [], in_Severity = ''high'', in_Title = ''x'', in_Status = ''open''\<rparr>"

definition sample_cases :: InvestigationDb where
  "sample_cases = \<lparr>iv_cases = [sample_case, sample_case\<lparr>ic_ID := ''case_2'', ic_Owner := ''bob''\<rparr>], iv_timeline = [], iv_audit = [],
     iv_insights = [sample_insight], iv_pods = [], iv_hasCases = True, iv_hasTimeline = True, iv_hasAudit = True,
     iv_readFails = False, iv_writeFails = False, iv_deleteFails = False, iv_logFails = False\<rparr>"

definition sample_patch :: casePatch where
  "sample_patch = \<lparr>pt_Title = None, pt_Status = Some '' triaged'', pt_Owner = None, pt_ClusterID = None, pt_SLADueAt = None,
     pt_Entities = None, pt_Notes = None, pt_Remediation = None, pt_Collaboration = None\<rparr>"

definition sample_time :: "string \<Rightarrow> int option" where
  "sample_time s = ParseInt64 s"

definition sample_pin :: pinRequest where
  "sample_pin = \<lparr>pq_Type = ''finding'', pq_Label = ''f'', pq_Href = ''#/risks/5'', pq_Meta = (\<lambda>_. [])\<rparr>"

subsection \<open>Properties\<close>

text \<open>
  C14. No sequence of requests loses history: the identifiers of the cases stay distinct, the
  timeline and the governance log only grow at their end, no row disappears, no row changes its
  identifier or its creator, and a row that was archived by a deletion never changes again.
\<close>

theorem investigation_history_kept:
  assumes "(case_step ParseTime rfc3339)\<^sup>*\<^sup>* db db'" and "distinct (map ic_ID (iv_cases db))"
  shows "distinct (map ic_ID (iv_cases db')) \<and>
    prefix (iv_timeline db) (iv_timeline db') \<and> prefix (iv_audit db) (iv_audit db') \<and>
    length (iv_cases db) \<le> length (iv_cases db') \<and>
    (\<forall>i < length (iv_cases db).
       ic_ID (iv_cases db' ! i) = ic_ID (iv_cases db ! i) \<and>
       ic_CreatedByUserID (iv_cases db' ! i) = ic_CreatedByUserID (iv_cases db ! i) \<and>
       (ic_Deleted (iv_cases db ! i) \<longrightarrow> iv_cases db' ! i = iv_cases db ! i))"
  using cases.reachable_inv [OF assms(1)] cases.reachable_hist [OF assms(1)] assms(2)
  by (simp add: distinct_cases_def case_history_def row_kept_def)

theorem investigation_history_kept_witness:
  "prefix (iv_timeline sample_cases) (iv_timeline (snd (DeleteInvestigationCase 0 (sample_request ''case_1'') sample_cases))) \<and>
   ic_CreatedByUserID (iv_cases (snd (DeleteInvestigationCase 0 (sample_request ''case_1'') sample_cases)) ! 0) = 9"
proof -
  have "case_step sample_time (\<lambda>_. []) sample_cases (snd (DeleteInvestigationCase 0 (sample_request ''case_1'') sample_cases))"
    by (auto simp: case_step_def intro: delete)
  then have s: "(case_step sample_time (\<lambda>_. []))\<^sup>*\<^sup>* sample_cases (snd (DeleteInvestigationCase 0 (sample_request ''case_1'') sample_cases))"
    by blast
  have d: "distinct (map ic_ID (iv_cases sample_cases))" by (simp add: sample_cases_def sample_case_def)
  show ?thesis using investigation_history_kept [OF s d] by (simp add: sample_cases_def sample_case_def)
qed

text \<open>
  C15. A request changes a case only if its caller may mutate it, never a deleted one, and moves its status
  along an allowed transition (any, for an administrator) or to the archived state.
\<close>

theorem investigation_changes_authorized:
  assumes "case_request ParseTime rfc3339 c db db'" and "distinct (map ic_ID (iv_cases db))"
    and "i < length (iv_cases db)" and "iv_cases db' ! i \<noteq> iv_cases db ! i"
  shows "\<not> ic_Deleted (iv_cases db ! i) \<and> investigationCanMutateCase c (iv_cases db ! i) \<and>
    (CanTransition (ic_Status (iv_cases db ! i)) (ic_Status (iv_cases db' ! i)) (investigationIsAdmin c) \<or>
     ic_Status (iv_cases db' ! i) = StatusArchived)"
  using request_effect [OF assms(1)]
proof cases
  case (added row)
  with assms(3,4) logs_only_cases [OF added(2)] show ?thesis by (simp add: nth_append)
next
  case (changed row row')
  have c: "iv_cases db' ! i = (if ic_ID (iv_cases db ! i) = ic_ID row' then row' else iv_cases db ! i)"
    using assms(3) logs_only_cases [OF changed(6)] by (simp add: save_case_def)
  with assms changed distinct_cases_row [of db row i] show ?thesis
    by (auto simp: distinct_cases_def same_case_def split: if_splits)
qed (use assms in simp)

theorem investigation_changes_authorized_witness:
  "investigationCanMutateCase (sample_request ''case_1'') sample_case \<and> CanTransition StatusOpen StatusTriaged False"
proof -
  let ?db = "snd (PatchInvestigationCase sample_time (sample_request ''case_1'') (Some sample_patch) sample_cases)"
  have r: "case_request sample_time (\<lambda>_. []) (sample_request ''case_1'') sample_cases ?db" by (rule patch)
  have d: "distinct (map ic_ID (iv_cases sample_cases))" "0 < length (iv_cases sample_cases)" "iv_cases sample_cases ! 0 = sample_case"
    "ic_Status sample_case = StatusOpen"
    by (simp_all add: sample_cases_def sample_case_def)
  have c: "ic_Status (iv_cases ?db ! 0) = StatusTriaged" "\<not> investigationIsAdmin (sample_request ''case_1'')" by code_simp+
  then have n: "iv_cases ?db ! 0 \<noteq> iv_cases sample_cases ! 0" using d by auto
  show ?thesis using investigation_changes_authorized [OF r d(1,2) n] c d(3,4) by simp
qed

lemma sql_trim_id:
  assumes "trimmed s"
  shows "sql_trim s = s"
proof -
  have b: "'' '' \<in> set space_runes" by (simp add: space_runes_def)
  have "\<not> HasPrefix s '' ''" "\<not> HasSuffix s '' ''"
    using assms b by (auto simp: trimmed_def lead_space_def trail_space_def find_None_iff)
  then have "dropWhile (\<lambda>c. c = CHR '' '') s = s" "dropWhile (\<lambda>c. c = CHR '' '') (rev s) = rev s"
    by (cases s; auto simp: HasPrefix_iff) (cases s rule: rev_cases; use \<open>\<not> HasSuffix s '' ''\<close> in \<open>auto simp: HasSuffix_iff\<close>)
  then show ?thesis by (simp add: sql_trim_def)
qed

definition row_trimmed :: "InvestigationCase \<Rightarrow> bool" where
  "row_trimmed r \<longleftrightarrow> trimmed (ic_Owner r) \<and> trimmed (ic_Status r) \<and> (case ic_ClusterID r of None \<Rightarrow> True | Some cid \<Rightarrow> trimmed cid)"

lemma accessible_cases_eq:
  assumes "request_user c = Some u" and "trimmed (user_Username u)" and "\<forall>r \<in> set rows. row_trimmed r"
  shows "investigationAccessibleCases c u rows = filter (\<lambda>r. \<not> ic_Deleted r \<and> investigationCanAccessCase c r) rows"
proof -
  have "r \<in> set rows \<Longrightarrow> r \<in> set (investigationAccessibleCases c u [r]) \<longleftrightarrow> \<not> ic_Deleted r \<and> investigationCanAccessCase c r" for r
    using assms
    by (auto simp: investigationAccessibleCases_def investigationCanAccessCase_def investigationClusterInScope_def Let_def row_trimmed_def
        TrimSpace_id sql_trim_id EqualFold_def DocClusterAllowed_iff ClusterIDs_def split: option.splits if_splits)
  moreover have "investigationAccessibleCases c u rows = filter (\<lambda>r. r \<in> set (investigationAccessibleCases c u [r])) rows"
    by (auto simp: investigationAccessibleCases_def Let_def intro!: filter_cong)
  ultimately show ?thesis by (metis (mono_tags, lifting) filter_cong)
qed

lemma open_status_eq: "trimmed s \<Longrightarrow> ToUpper (sql_trim s) \<notin> {StatusResolved, StatusArchived, ''CLOSED''} \<longleftrightarrow> IsTerminalOpen s"
  by (auto simp: IsTerminalOpen_def NormalizeStatus_def Let_def TrimSpace_id sql_trim_id lifecycle_states_def)

text \<open>
  The statistics agree with the access check of the other handlers: for rows whose owner, status and cluster
  carry no surrounding white space, the SQL condition counts the live, not terminal cases
  that \<open>investigationCanAccessCase\<close> lets the user see, and their overdue actions.
\<close>

lemma GetInvestigationCaseStats_counts_accessible:
  assumes "request_user c = Some u" and "trimmed (user_Username u)" and "\<forall>r \<in> set (iv_cases db). row_trimmed r"
    and "iv_hasCases db" and "\<not> iv_readFails db"
  shows "GetInvestigationCaseStats ParseTime now c db =
    (let visible = filter (\<lambda>r. \<not> ic_Deleted r \<and> investigationCanAccessCase c r) (iv_cases db)
     in (200, StatsBody (length (filter (\<lambda>r. IsTerminalOpen (ic_Status r)) visible))
          (\<Sum>r\<leftarrow>visible. countOverdueRemediation ParseTime (ic_Remediation r) now)))"
proof -
  have "filter (\<lambda>r. ToUpper (sql_trim (ic_Status r)) \<notin> {StatusResolved, StatusArchived, ''CLOSED''}) rows
      = filter (\<lambda>r. IsTerminalOpen (ic_Status r)) rows" if "set rows \<subseteq> set (iv_cases db)" for rows
    using that assms(3) open_status_eq by (intro filter_cong) (auto simp: row_trimmed_def)
  from this [of "filter (\<lambda>r. \<not> ic_Deleted r \<and> investigationCanAccessCase c r) (iv_cases db)"] show ?thesis
    using assms accessible_cases_eq [OF assms(1-3)] by (simp add: GetInvestigationCaseStats_def Let_def)
qed

lemma GetInvestigationCaseStats_counts_accessible_witness:
  "GetInvestigationCaseStats sample_time 4 (sample_request []) sample_cases = (200, StatsBody 1 1)"
proof -
  have u: "request_user (sample_request []) = Some sample_user" by (simp add: sample_request_def request_user_def)
  have t: "trimmed (user_Username sample_user)" "\<forall>r \<in> set (iv_cases sample_cases). row_trimmed r" "iv_hasCases sample_cases" "\<not> iv_readFails sample_cases"
    by code_simp+
  have "investigationCanAccessCase (sample_request []) sample_case" "\<not> ic_Deleted sample_case"
    "\<not> investigationCanAccessCase (sample_request []) (sample_case\<lparr>ic_ID := ''case_2'', ic_Owner := ''bob''\<rparr>)"
    by code_simp+
  then have e: "filter (\<lambda>r. \<not> ic_Deleted r \<and> investigationCanAccessCase (sample_request []) r) (iv_cases sample_cases) = [sample_case]"
    by (simp add: sample_cases_def)
  have "IsTerminalOpen (ic_Status sample_case)" "countOverdueRemediation sample_time (ic_Remediation sample_case) 4 = 1" by code_simp+
  with e show ?thesis using GetInvestigationCaseStats_counts_accessible [OF u t, of sample_time 4] by simp
qed

lemma find_filtered: "find P xs = Some x \<Longrightarrow> Q x \<Longrightarrow> find P (filter Q xs) = Some x"
  by (induction xs) (auto split: if_splits)

lemma find_filtered_out:
  "distinct (map k xs) \<Longrightarrow> x \<in> set xs \<Longrightarrow> (\<And>y. P y \<Longrightarrow> k y = k x) \<Longrightarrow> \<not> Q x \<Longrightarrow> find P (filter Q xs) = None"
  by (auto simp: find_None_iff distinct_map inj_on_def)

lemma find_filtered_None: "find P xs = None \<Longrightarrow> find P (filter Q xs) = None"
  by (auto simp: find_None_iff)

lemma insightInRequestScope_insights [simp]:
  "insightInRequestScope (db\<lparr>iv_insights := x\<rparr>) c i = insightInRequestScope db c i"
  by (simp add: insightInRequestScope_def resourceUIDClusterID_def cong: if_cong)

text \<open>
  Pinning a finding tells nothing of other clusters: the answer is the one the caller would get if the
  findings outside of his scope did not exist.
\<close>

lemma pin_cannot_probe_other_clusters:
  assumes "distinct (map in_ID (iv_insights db))"
  shows "resolveFindingPin (db\<lparr>iv_insights := filter (\<lambda>i. insightInRequestScope db c i \<noteq> Inr False) (iv_insights db)\<rparr>) c row req =
    resolveFindingPin db c row req"
proof -
  let ?Q = "\<lambda>i. insightInRequestScope db c i \<noteq> Inr False"
  let ?iid = "linkedInsightID \<lparr>en_ID = [], en_Type = ''finding'', en_Label = [], en_Href = pq_Href req, en_Meta = pq_Meta req,
     en_PinnedAt = [], en_SnapshotAt = None\<rparr>"
  show ?thesis
  proof (cases "find_insight db ?iid")
    case None
    then have "find_insight (db\<lparr>iv_insights := filter ?Q (iv_insights db)\<rparr>) ?iid = None"
      by (simp add: find_insight_def find_filtered_None)
    with None show ?thesis by (simp add: resolveFindingPin_def Let_def)
  next
    case (Some i)
    then have p: "ParseUint64 ?iid = Some (in_ID i)" "i \<in> set (iv_insights db)" by (auto simp: find_insight_def find_Some_iff)
    have "find_insight (db\<lparr>iv_insights := filter ?Q (iv_insights db)\<rparr>) ?iid = (if ?Q i then Some i else None)"
      using find_filtered [OF Some [unfolded find_insight_def], of ?Q] find_filtered_out [OF assms p(2), of "\<lambda>r. ParseUint64 ?iid = Some (in_ID r)" ?Q] p(1)
      by (cases "?Q i") (simp_all add: find_insight_def)
    with Some show ?thesis by (auto simp: resolveFindingPin_def Let_def split: sum.split)
  qed
qed

lemma pin_cannot_probe_other_clusters_witness:
  "resolveFindingPin (sample_cases\<lparr>iv_insights := []\<rparr>) (sample_request ''case_1'') sample_case sample_pin =
   resolveFindingPin sample_cases (sample_request ''case_1'') sample_case sample_pin"
proof -
  have d: "distinct (map in_ID (iv_insights sample_cases))" by (simp add: sample_cases_def)
  have "insightInRequestScope sample_cases (sample_request ''case_1'') sample_insight = Inr False" by code_simp
  then have "filter (\<lambda>i. insightInRequestScope sample_cases (sample_request ''case_1'') i \<noteq> Inr False) (iv_insights sample_cases) = []"
    by (simp add: sample_cases_def)
  then show ?thesis using pin_cannot_probe_other_clusters [OF d, of "sample_request ''case_1''"] by metis
qed

definition finding_counts :: "Reply \<Rightarrow> (nat \<times> nat) option" where
  "finding_counts r = (case r of (_, FindingsBody items hidden _) \<Rightarrow> Some (length (filter lf_Missing items), hidden) | _ \<Rightarrow> None)"

text \<open>The listing of the linked findings does distinguish: a link to a foreign finding is counted as hidden, a link
  to a missing one is an item, and a patch accepts any link.\<close>

lemma listing_reveals_foreign_findings:
  "let c = (sample_request ''case_1'')\<lparr>ctx_permissions := Some (PermissionSlice [PermissionFindingsRead])\<rparr>
   in finding_counts (ListInvestigationFindings c sample_cases) = Some (0, 1) \<and>
      finding_counts (ListInvestigationFindings c (sample_cases\<lparr>iv_insights := []\<rparr>)) = Some (1, 0)"
  by code_simp

subsection \<open>The chunked listing\<close>

lemma scan_cases_prefix:
  assumes "500 dvd offset"
  shows "prefix (scan_cases P limit rows offset f) (f @ map toInvestigationDTO (filter P (take (investigationCasesScanCap - offset) (drop offset rows)))) \<and>
    (scan_cases P limit rows offset f = f @ map toInvestigationDTO (filter P (take (investigationCasesScanCap - offset) (drop offset rows))) \<or>
     length (scan_cases P limit rows offset f) > limit)"
  using assms
proof (induction P limit rows offset f rule: scan_cases.induct)
  case (1 P limit rows offset f)
  let ?cap = investigationCasesScanCap
  let ?page = "take 500 (drop offset rows)"
  let ?f = "f @ map toInvestigationDTO (filter P ?page)"
  show ?case
  proof (cases "offset < ?cap \<and> length f \<le> limit")
    case True
    have cap: "offset + 500 \<le> ?cap" using True 1(2) by (auto simp: investigationCasesScanCap_def elim!: dvdE)
    have split: "take (?cap - offset) (drop offset rows) = ?page @ take (?cap - (offset + 500)) (drop (offset + 500) rows)"
      using cap take_add [of 500 "?cap - (offset + 500)" "drop offset rows"] by (simp add: add.commute)
    show ?thesis
    proof (cases "length ?page < 500")
      case short: True
      then have "drop (offset + 500) rows = []" by simp
      moreover have "scan_cases P limit rows offset f = ?f" using True short by (subst scan_cases.simps) (auto simp: Let_def min_def split: if_splits)
      ultimately show ?thesis unfolding split by simp
    next
      case long: False
      have step: "scan_cases P limit rows offset f = scan_cases P limit rows (offset + 500) ?f"
        using True long by (subst scan_cases.simps) (simp add: Let_def)
      have "500 dvd offset + 500" using 1(2) by simp
      from 1(1) [OF True refl refl long this] show ?thesis unfolding step split by simp
    qed
  next
    case False
    then show ?thesis using scan_cases.simps [of P limit rows offset f] by auto
  qed
qed

text \<open>The row limit of a request, from the text of its \<^verbatim>\<open>limit\<close> parameter.\<close>

definition row_limit :: "string \<Rightarrow> nat" where
  "row_limit text = (case ParseInt64 (TrimSpace text) of
     None \<Rightarrow> 500
   | Some n \<Rightarrow> if n \<le> 0 then 500 else nat (min n 2000))"

lemma ParseParam_row_limit: "ParseParam q ''limit'' 500 2000 = int (row_limit (q ''limit''))"
proof -
  have "ParseInt64 [] = None" by (simp add: ParseInt64_def)
  then show ?thesis
    by (auto simp: ParseParam_def Clamp_def row_limit_def Let_def split: option.split)
qed

text \<open>The rows a known user's listing may show, and those of them it does show when the query returns \<open>rows\<close>.\<close>

definition listable :: "GinContext \<Rightarrow> User \<Rightarrow> InvestigationCase \<Rightarrow> bool" where
  "listable c u r \<longleftrightarrow> \<not> ic_Deleted r \<and>
     (investigationIsAdmin c \<or> ic_CreatedByUserID r = user_ID u \<or> ToLower (ic_Owner r) = ToLower (user_Username u))"

lemma scan_cases_trim:
  assumes "1 \<le> l"
  shows "Trim (scan_cases P l rows 0 []) (int l) =
    (take l (map toInvestigationDTO (filter P (take 20000 rows))), l < length (filter P (take 20000 rows)))"
proof -
  define got where "got = scan_cases P l rows 0 []"
  define found where "found = map toInvestigationDTO (filter P (take 20000 rows))"
  have "prefix got found \<and> (got = found \<or> length got > l)"
    using scan_cases_prefix [of 0 P l rows "[]"] by (simp add: got_def found_def investigationCasesScanCap_def)
  then have "take l got = take l found" "length got > l \<longleftrightarrow> length found > l"
    by (auto simp: prefix_def dest: prefix_length_le)
  then show ?thesis unfolding got_def [symmetric] by (auto simp: Trim_def found_def)
qed

lemma listing_eq:
  assumes "iv_hasCases db" and "\<not> iv_readFails db" and "request_user c = Some u"
    and "TrimSpace (ctx_query c ''findingId'') = f" and "f = [] \<or> validInsightID f"
    and l: "l = row_limit (ctx_query c ''limit'')"
    and found: "found = filter (\<lambda>r. (f \<noteq> [] \<longrightarrow> caseLinksFinding r f) \<and> investigationCanAccessCase c r)
      (take 20000 (newest (filter (listable c u) (iv_cases db))))"
  shows "ListInvestigationCases newest c db =
    (200, CasesBody (take l (map toInvestigationDTO found)) (min l (length found)) (l < length found))"
proof -
  have l1: "1 \<le> l" by (auto simp: l row_limit_def split: option.split)
  have lim: "ParseParam (ctx_query c) ''limit'' 500 2000 = int l" by (simp add: ParseParam_row_limit l)
  define rows where "rows = newest (filter (listable c u) (iv_cases db))"
  have rows: "newest (filter (\<lambda>r. \<not> ic_Deleted r \<and> (investigationIsAdmin c \<or> ic_CreatedByUserID r = user_ID u \<or>
    ToLower (ic_Owner r) = ToLower (user_Username u))) (iv_cases db)) = rows"
    unfolding rows_def listable_def ..
  let ?P = "\<lambda>r. (f \<noteq> [] \<longrightarrow> caseLinksFinding r f) \<and> investigationCanAccessCase c r"
  have P: "(\<lambda>r. \<not> (f \<noteq> [] \<and> \<not> caseLinksFinding r f) \<and> investigationCanAccessCase c r) = ?P" by auto
  have "ListInvestigationCases newest c db =
      (let (fs, truncated) = Trim (scan_cases ?P l rows 0 []) (int l) in (200, CasesBody fs (length fs) truncated))"
    unfolding ListInvestigationCases_def Let_def assms(4) P lim nat_int rows [symmetric] using assms(1-3,5) by (auto simp: split_def)
  then show ?thesis
    unfolding scan_cases_trim [OF l1] found rows_def by (simp add: min.commute)
qed

text \<open>
  C16. The chunked scan ends and returns what an unchunked query would. For a known user the
  limit is 500 unless the request names a positive number, which counts up to 2000. The listing
  is the first cases, up to the limit, of those among the first 20000 rows of the query that the user
  may access and that link the requested finding; its total is their number, and the truncation
  mark says exactly whether these 20000 rows have more of them. (Rows beyond the 20000th are not
  shown and not announced by the mark.)
\<close>

theorem ListInvestigationCases_is_one_query:
  assumes "iv_hasCases db" and "\<not> iv_readFails db" and "request_user c = Some u"
    and "TrimSpace (ctx_query c ''findingId'') = f" and "f = [] \<or> validInsightID f"
  shows "let limit = row_limit (ctx_query c ''limit'');
          rows = newest (filter (listable c u) (iv_cases db));
          found = map toInvestigationDTO (filter (\<lambda>r. (f \<noteq> [] \<longrightarrow> caseLinksFinding r f) \<and> investigationCanAccessCase c r) (take 20000 rows))
     in ListInvestigationCases newest c db =
          (200, CasesBody (take limit found) (min limit (length found)) (limit < length found))"
  unfolding Let_def using listing_eq [OF assms refl refl, of newest] by simp

theorem ListInvestigationCases_is_one_query_witness:
  "ListInvestigationCases rev ((sample_request [])\<lparr>ctx_query := (\<lambda>k. if k = ''limit'' then '' 9999 '' else [])\<rparr>) sample_cases =
     (200, CasesBody [toInvestigationDTO sample_case] 1 False)"
proof -
  let ?c = "(sample_request [])\<lparr>ctx_query := (\<lambda>k. if k = ''limit'' then '' 9999 '' else [])\<rparr>"
  have s: "iv_hasCases sample_cases" "\<not> iv_readFails sample_cases" by (simp_all add: sample_cases_def)
  have u: "request_user ?c = Some sample_user" by (simp add: sample_request_def request_user_def)
  have q: "TrimSpace (ctx_query ?c ''findingId'') = []" by simp
  have "ParseInt64 (TrimSpace '' 9999 '') = Some 9999" by code_simp
  then have lim: "row_limit (ctx_query ?c ''limit'') = 2000" by (simp add: row_limit_def)
  have a: "investigationCanAccessCase ?c sample_case" "listable ?c sample_user sample_case"
    "\<not> listable ?c sample_user (sample_case\<lparr>ic_ID := ''case_2'', ic_Owner := ''bob''\<rparr>)" by code_simp+
  then have b: "filter (listable ?c sample_user) (iv_cases sample_cases) = [sample_case]"
    by (simp add: sample_cases_def)
  show ?thesis
    using ListInvestigationCases_is_one_query [OF s u q, of rev] a b lim by (simp add: Let_def)
qed

text \<open>The package comment promises a mark whenever there are more rows; a scan that ends at its cap gives none.\<close>

lemma rows_beyond_the_cap_not_announced:
  assumes "iv_hasCases db" and "\<not> iv_readFails db" and "request_user c = Some u"
    and "TrimSpace (ctx_query c ''findingId'') = []"
    and "newest (filter (listable c u) (iv_cases db)) = hidden @ later" and "length hidden = 20000"
    and "\<forall>r \<in> set hidden. \<not> investigationCanAccessCase c r"
  shows "ListInvestigationCases newest c db = (200, CasesBody [] 0 False)"
proof -
  have "filter (\<lambda>r. ([] \<noteq> [] \<longrightarrow> caseLinksFinding r []) \<and> investigationCanAccessCase c r)
      (take 20000 (newest (filter (listable c u) (iv_cases db)))) = []"
    using assms(5-7) by (auto simp: filter_empty_conv)
  from listing_eq [of db c u "[]" _ "[]" newest, OF assms(1-4) disjI1 [OF refl] refl this [symmetric]] show ?thesis by simp
qed

end
