(* ===== verification/Capability_Rules.thy ===== *)
theory Capability_Rules
  imports Rbac_Analyzer
begin

section \<open>Rules of the pod capability evaluator: core/pkg/capability/evaluator.go, constants.go, semantics.go\<close>

text \<open>
  Which capabilities the specification of a pod gives it: signals of the pod itself, the volumes and mounts in
  its JSON columns, and the write access its service account has, as the RBAC analyzer sees it. The evidence of a
  capability is the map the code encodes as JSON. Values of the vocabulary (classes, states) and
  the heuristics for expected findings are modelled here too; the state of the capabilities is in
  \<open>Capability_State\<close>.
\<close>

subsection \<open>Vocabulary\<close>

abbreviation ESC_PRIV_POD :: string where "ESC_PRIV_POD \<equiv> ''ESC_PRIV_POD''"
abbreviation ESC_HOSTPID_POD :: string where "ESC_HOSTPID_POD \<equiv> ''ESC_HOSTPID_POD''"
abbreviation ESC_HOSTIPC_POD :: string where "ESC_HOSTIPC_POD \<equiv> ''ESC_HOSTIPC_POD''"
abbreviation ESC_HOSTPATH_NODE :: string where "ESC_HOSTPATH_NODE \<equiv> ''ESC_HOSTPATH_NODE''"
abbreviation ESC_RUNTIME_PROBE :: string where "ESC_RUNTIME_PROBE \<equiv> ''ESC_RUNTIME_PROBE''"
abbreviation ESC_RUNTIME_ACTIVE :: string where "ESC_RUNTIME_ACTIVE \<equiv> ''ESC_RUNTIME_ACTIVE''"
abbreviation ID_TOKEN_POD :: string where "ID_TOKEN_POD \<equiv> ''ID_TOKEN_POD''"
abbreviation NET_HOSTNETWORK :: string where "NET_HOSTNETWORK \<equiv> ''NET_HOSTNETWORK''"
abbreviation API_RBAC_WRITE_CLUSTER :: string where "API_RBAC_WRITE_CLUSTER \<equiv> ''API_RBAC_WRITE_CLUSTER''"
abbreviation CTRL_CONTROL_PLANE_POD :: string where "CTRL_CONTROL_PLANE_POD \<equiv> ''CTRL_CONTROL_PLANE_POD''"

definition validStates :: "string list" where
  "validStates = [''detected'', ''confirmed'', ''exploited'', ''chained'']"

definition validClasses :: "string list" where
  "validClasses = [''declared'', ''observed'', ''effective'']"

definition LegacyCapabilityMapping :: "(string \<times> string) list" where
  "LegacyCapabilityMapping =
     [(''ESC_PRIVILEGED'', ESC_PRIV_POD), (''ESC_KERNEL'', ESC_HOSTPID_POD), (''FS_HOST_RW'', ESC_HOSTPATH_NODE),
      (''ESC_RUNTIME_PROBE'', ESC_RUNTIME_PROBE), (''ESC_RUNTIME_ACTIVE'', ESC_RUNTIME_ACTIVE), (''ID_TOKEN_STEAL'', ID_TOKEN_POD),
      (''NET_HOST_NETWORK'', NET_HOSTNETWORK), (''API_K8S_WRITE'', API_RBAC_WRITE_CLUSTER),
      (''CTRL_CONTROL_PLANE_POD'', CTRL_CONTROL_PLANE_POD)]"

datatype SemanticsError = InvalidClass string | InvalidState string

definition ValidateCapabilityClass :: "string \<Rightarrow> (SemanticsError, unit) result" where
  "ValidateCapabilityClass v0 =
     (let v = ToLower (TrimSpace v0)
      in if v = [] then Inr () else if v \<notin> set validClasses then Inl (InvalidClass v) else Inr ())"

definition ValidateProgressionState :: "string \<Rightarrow> (SemanticsError, unit) result" where
  "ValidateProgressionState v0 =
     (let v = ToLower (TrimSpace v0)
      in if v = [] then Inr () else if v \<notin> set validStates then Inl (InvalidState v) else Inr ())"

definition ValidateClassAndState :: "string \<Rightarrow> string \<Rightarrow> (SemanticsError, unit) result" where
  "ValidateClassAndState capabilityClass state =
     bind_result (ValidateCapabilityClass capabilityClass) (\<lambda>_. ValidateProgressionState state)"

type_synonym EvidenceMap = "string \<rightharpoonup> json"

record Capability =
  cap_ID :: string
  cap_Group :: string
  cap_Severity :: string
  cap_Evidence :: EvidenceMap
  cap_Mitre :: "string list"

subsection \<open>The JSON columns of a pod\<close>

text \<open>A type assertion with the comma-ok form: the zero value unless the member has the type.\<close>

definition as_string :: "json option \<Rightarrow> string" where
  "as_string v = (case v of Some (JStr s) \<Rightarrow> s | _ \<Rightarrow> [])"

definition as_bool :: "json option \<Rightarrow> bool" where
  "as_bool v = (case v of Some (JBool b) \<Rightarrow> b | _ \<Rightarrow> False)"

definition hasPrivilegedContainer :: "string \<Rightarrow> bool" where
  "hasPrivilegedContainer containerSecurityContexts =
     (if containerSecurityContexts = [] then False
      else case unmarshal decode_dyn_map containerSecurityContexts of
             None \<Rightarrow> False
           | Some m \<Rightarrow> list_ex (\<lambda>k. case dyn_get m k of
               Some (JObj cm) \<Rightarrow> as_bool (dyn_get cm ''privileged'')
             | _ \<Rightarrow> False) (map fst m))"

text \<open>The host path of a volume name: the map the loop over the volumes fills.\<close>

definition host_volume :: "(string \<times> json) list \<Rightarrow> (string \<times> string) option" where
  "host_volume v =
     (let name = as_string (dyn_get v ''name'')
      in case dyn_get v ''hostPath'' of
           Some (JObj hostPath) \<Rightarrow>
             (let path = as_string (dyn_get hostPath ''path'')
              in if name = [] \<or> path = [] then None else Some (name, path))
         | _ \<Rightarrow> None)"

definition hostPathVolumes :: "(string \<times> json) list list \<Rightarrow> (string \<times> string) list" where
  "hostPathVolumes volumes = rev (List.map_filter host_volume volumes)"

definition hasHostPathMount :: "string \<Rightarrow> string \<Rightarrow> bool" where
  "hasHostPathMount volumesJSON volumeMountsJSON =
     (case unmarshal (decode_list decode_dyn_map) volumesJSON of
        None \<Rightarrow> False
      | Some volumes \<Rightarrow>
          (case unmarshal (decode_list decode_dyn_map) volumeMountsJSON of
             None \<Rightarrow> False
           | Some mounts \<Rightarrow>
               list_ex (\<lambda>m.
                 let name = as_string (dyn_get m ''name'');
                     mountPath = as_string (dyn_get m ''mountPath'')
                 in if name = [] \<or> mountPath = [] then False
                    else case map_of (hostPathVolumes volumes) name of
                           None \<Rightarrow> False
                         | Some hostPath \<Rightarrow> mountPath = ''/'' \<or> HasPrefix hostPath ''/'') mounts))"

definition sensitivePrefixes :: "string list" where
  "sensitivePrefixes = [''/proc'', ''/sys'', ''/run'', ''/var/run'', ''/dev'']"

definition sensitive_match :: "(string \<times> string) list \<Rightarrow> (string \<times> json) list \<Rightarrow> json option" where
  "sensitive_match vols m =
     (let name = as_string (dyn_get m ''name'');
          mountPath = as_string (dyn_get m ''mountPath'');
          readOnly = as_bool (dyn_get m ''readOnly'')
      in if name = [] then None
         else case map_of vols name of
                None \<Rightarrow> None
              | Some hostPath \<Rightarrow>
                  if list_ex (HasPrefix hostPath) sensitivePrefixes
                  then Some (JObj [(''volume'', JStr name), (''hostPath'', JStr hostPath), (''mountPath'', JStr mountPath), (''readOnly'', JBool readOnly)])
                  else None)"

definition hasSensitiveHostPathMount :: "string \<Rightarrow> string \<Rightarrow> bool \<times> EvidenceMap" where
  "hasSensitiveHostPathMount volumesJSON volumeMountsJSON =
     (let evidence = [''hostPathMatches'' \<mapsto> JArr []]
      in case unmarshal (decode_list decode_dyn_map) volumesJSON of
           None \<Rightarrow> (False, evidence)
         | Some volumes \<Rightarrow>
             (case unmarshal (decode_list decode_dyn_map) volumeMountsJSON of
                None \<Rightarrow> (False, evidence)
              | Some mounts \<Rightarrow>
                  (let matches = List.map_filter (sensitive_match (hostPathVolumes volumes)) mounts
                   in if length matches = 0 then (False, evidence)
                      else (True, evidence(''hostPathMatches'' \<mapsto> JArr matches)))))"

subsection \<open>Evaluation\<close>

definition EvaluatePod :: "rbac_db \<Rightarrow> Pod \<Rightarrow> (string, Capability list) result" where
  "EvaluatePod db pod =
     (let automount = (case pod_AutomountServiceAccountToken pod of None \<Rightarrow> True | Some b \<Rightarrow> b);
          caps = [];
          caps = caps @ (if pod_Namespace pod = ''kube-system'' then
            [\<lparr>cap_ID = CTRL_CONTROL_PLANE_POD, cap_Group = ''CTRL'', cap_Severity = ''MEDIUM'',
              cap_Evidence = [''namespace'' \<mapsto> JStr (pod_Namespace pod)], cap_Mitre = [''T1496'']\<rparr>] else []);
          caps = caps @ (if pod_HostNetwork pod then
            [\<lparr>cap_ID = NET_HOSTNETWORK, cap_Group = ''NET'', cap_Severity = ''MEDIUM'',
              cap_Evidence = [''hostNetwork'' \<mapsto> JBool True], cap_Mitre = [''T1046'', ''T1595'']\<rparr>] else []);
          caps = caps @ (if pod_HostPID pod then
            [\<lparr>cap_ID = ESC_HOSTPID_POD, cap_Group = ''ESC'', cap_Severity = ''HIGH'',
              cap_Evidence = [''hostPID'' \<mapsto> JBool True], cap_Mitre = [''T1611'', ''T1068'']\<rparr>] else []);
          caps = caps @ (if pod_HostIPC pod then
            [\<lparr>cap_ID = ESC_HOSTIPC_POD, cap_Group = ''ESC'', cap_Severity = ''HIGH'',
              cap_Evidence = [''hostIPC'' \<mapsto> JBool True], cap_Mitre = [''T1611'', ''T1068'']\<rparr>] else []);
          caps = caps @ (if hasPrivilegedContainer (pod_ContainerSecurityContexts pod) then
            [\<lparr>cap_ID = ESC_PRIV_POD, cap_Group = ''ESC'', cap_Severity = ''CRITICAL'',
              cap_Evidence = [''securityContext.privileged'' \<mapsto> JBool True], cap_Mitre = [''T1611'']\<rparr>] else []);
          caps = caps @ (if hasHostPathMount (pod_Volumes pod) (pod_VolumeMounts pod) then
            [\<lparr>cap_ID = ESC_HOSTPATH_NODE, cap_Group = ''ESC'', cap_Severity = ''CRITICAL'',
              cap_Evidence = [''hostPath'' \<mapsto> JBool True], cap_Mitre = [''T1611'']\<rparr>] else []);
          (sensitive, evidence) = hasSensitiveHostPathMount (pod_Volumes pod) (pod_VolumeMounts pod);
          caps = caps @ (if pod_HostPID pod \<or> sensitive then
            [\<lparr>cap_ID = ESC_RUNTIME_PROBE, cap_Group = ''ESC'', cap_Severity = ''HIGH'',
              cap_Evidence = evidence(''hostPID'' \<mapsto> JBool (pod_HostPID pod), ''hostIPC'' \<mapsto> JBool (pod_HostIPC pod)),
              cap_Mitre = [''T1611'', ''T1068'']\<rparr>] else []);
          caps = caps @ (if automount then
            [\<lparr>cap_ID = ID_TOKEN_POD, cap_Group = ''ID'', cap_Severity = ''MEDIUM'',
              cap_Evidence = [''automountServiceAccountToken'' \<mapsto> JBool True], cap_Mitre = [''T1528'']\<rparr>] else [])
      in bind_result (AnalyzePod db pod) (\<lambda>rbacAnalysis.
           Inr (caps @ (if HasWrite rbacAnalysis then
             [\<lparr>cap_ID = API_RBAC_WRITE_CLUSTER, cap_Group = ''API'', cap_Severity = ''HIGH'',
               cap_Evidence = (\<lambda>k. map_option JStr (Evidence rbacAnalysis k)), cap_Mitre = [''T1609'']\<rparr>] else []))))"

definition ComputeStaticRisk :: "Pod \<Rightarrow> int" where
  "ComputeStaticRisk pod =
     (let risk = 0;
          risk = (if pod_HostPID pod \<or> pod_HostIPC pod then risk + 40 else risk);
          risk = (if fst (hasSensitiveHostPathMount (pod_Volumes pod) (pod_VolumeMounts pod)) then risk + 40 else risk)
      in if risk > 50 then 50 else risk)"

subsection \<open>Expected findings\<close>

definition consideration_matches :: "string \<Rightarrow> string \<Rightarrow> string \<Rightarrow> bool" where
  "consideration_matches ns name fpLower \<longleftrightarrow>
     (list_ex (Contains fpLower) [''infrastructure'', ''cni'', ''csi'', ''dns'', ''system component''] \<and>
        (ns = ''kube-system'' \<or> ns = ''kube-node-lease'' \<or> ns = ''kube-public'')) \<or>
     (list_ex (Contains fpLower) [''monitoring'', ''prometheus'', ''logging'', ''fluentd'', ''fluentbit'', ''datadog''] \<and>
        (ns = ''monitoring'' \<or> ns = ''observability'' \<or> ns = ''kube-system'' \<or>
         Contains name ''prometheus'' \<or> Contains name ''fluent'' \<or> Contains name ''datadog'')) \<or>
     (Contains fpLower ''init container'' \<and> Contains name ''init'') \<or>
     ((Contains fpLower ''storage driver'' \<or> Contains fpLower ''volume plugin'') \<and>
        (ns = ''kube-system'' \<or> Contains name ''csi-'' \<or> Contains name ''ebs-'' \<or> Contains name ''nfs-''))"

fun matchFalsePositiveConsiderations :: "Pod \<Rightarrow> string list \<Rightarrow> string" where
  "matchFalsePositiveConsiderations pod [] = []"
| "matchFalsePositiveConsiderations pod (fp # fps) =
     (let ns = ToLower (TrimSpace (pod_Namespace pod));
          name = ToLower (TrimSpace (pod_Name pod));
          fpLower = ToLower (TrimSpace fp)
      in if fpLower = [] then matchFalsePositiveConsiderations pod fps
         else if consideration_matches ns name fpLower then fp
         else matchFalsePositiveConsiderations pod fps)"

subsection \<open>What a pod exhibits, read off its documents\<close>

text \<open>The host path behind a volume name: that of the last volume of the name that has one.\<close>

definition host_path_of :: "(string \<times> json) list list \<Rightarrow> string \<Rightarrow> string \<Rightarrow> bool" where
  "host_path_of volumes name p \<longleftrightarrow>
     (\<exists>us v ws. volumes = us @ v # ws \<and> host_volume v = Some (name, p) \<and> (\<forall>w \<in> set ws. \<forall>q. host_volume w \<noteq> Some (name, q)))"

definition mounts_host :: "Pod \<Rightarrow> string \<Rightarrow> string \<Rightarrow> bool" where
  "mounts_host pod hostPath mountPath \<longleftrightarrow>
     (\<exists>volumes mounts m. unmarshal (decode_list decode_dyn_map) (pod_Volumes pod) = Some volumes \<and>
        unmarshal (decode_list decode_dyn_map) (pod_VolumeMounts pod) = Some mounts \<and> m \<in> set mounts \<and>
        host_path_of volumes (as_string (dyn_get m ''name'')) hostPath \<and> mountPath = as_string (dyn_get m ''mountPath''))"

definition runs_privileged :: "Pod \<Rightarrow> bool" where
  "runs_privileged pod \<longleftrightarrow>
     (\<exists>m k cm. unmarshal decode_dyn_map (pod_ContainerSecurityContexts pod) = Some m \<and> dyn_get m k = Some (JObj cm) \<and>
        dyn_get cm ''privileged'' = Some (JBool True))"

definition exhibits :: "grant list \<Rightarrow> Pod \<Rightarrow> string \<Rightarrow> bool" where
  "exhibits gs pod i \<longleftrightarrow>
     i = CTRL_CONTROL_PLANE_POD \<and> pod_Namespace pod = ''kube-system'' \<or>
     i = NET_HOSTNETWORK \<and> pod_HostNetwork pod \<or>
     i = ESC_HOSTPID_POD \<and> pod_HostPID pod \<or>
     i = ESC_HOSTIPC_POD \<and> pod_HostIPC pod \<or>
     i = ESC_PRIV_POD \<and> runs_privileged pod \<or>
     i = ESC_HOSTPATH_NODE \<and> (\<exists>hp mp. mounts_host pod hp mp \<and> mp \<noteq> [] \<and> (mp = ''/'' \<or> HasPrefix hp ''/'')) \<or>
     i = ESC_RUNTIME_PROBE \<and> (pod_HostPID pod \<or> (\<exists>hp mp. mounts_host pod hp mp \<and> (\<exists>p \<in> set sensitivePrefixes. HasPrefix hp p))) \<or>
     i = ID_TOKEN_POD \<and> pod_AutomountServiceAccountToken pod \<noteq> Some False \<or>
     i = API_RBAC_WRITE_CLUSTER \<and> (\<exists>g \<in> set gs. HasWriteVerbs (g_Rules g))"

lemma as_bool_iff [simp]: "as_bool v \<longleftrightarrow> v = Some (JBool True)"
  by (auto simp: as_bool_def split: option.split json.split)

lemma dyn_get_key: "dyn_get m k = Some v \<Longrightarrow> k \<in> fst ` set m"
  using dyn_get_None_iff [of m k] by simp

lemma hasPrivilegedContainer_iff: "hasPrivilegedContainer (pod_ContainerSecurityContexts pod) \<longleftrightarrow> runs_privileged pod"
proof (cases "unmarshal decode_dyn_map (pod_ContainerSecurityContexts pod)")
  case (Some m)
  have "(case dyn_get m k of Some (JObj cm) \<Rightarrow> as_bool (dyn_get cm ''privileged'') | _ \<Rightarrow> False) \<longleftrightarrow>
      (\<exists>cm. dyn_get m k = Some (JObj cm) \<and> dyn_get cm ''privileged'' = Some (JBool True))" for k
    by (auto split: option.split json.split)
  then have "hasPrivilegedContainer (pod_ContainerSecurityContexts pod) \<longleftrightarrow>
      (\<exists>k \<in> fst ` set m. \<exists>cm. dyn_get m k = Some (JObj cm) \<and> dyn_get cm ''privileged'' = Some (JBool True))"
    using Some unmarshal_empty [of decode_dyn_map] by (auto simp: hasPrivilegedContainer_def list_ex_iff)
  with Some dyn_get_key show ?thesis by (fastforce simp: runs_privileged_def)
qed (simp add: hasPrivilegedContainer_def runs_privileged_def)

lemma host_volume_named: "host_volume v = Some (name, p) \<Longrightarrow> name \<noteq> [] \<and> p \<noteq> []"
  by (auto simp: host_volume_def Let_def split: option.splits json.splits if_splits)

lemma map_of_hostPathVolumes: "map_of (hostPathVolumes vols) name = Some p \<longleftrightarrow> host_path_of vols name p"
proof (induction vols arbitrary: p rule: rev_induct)
  case Nil
  then show ?case by (simp add: hostPathVolumes_def host_path_of_def List.map_filter_simps)
next
  case (snoc v vols)
  have step: "hostPathVolumes (vols @ [v]) = (case host_volume v of None \<Rightarrow> hostPathVolumes vols | Some np \<Rightarrow> np # hostPathVolumes vols)"
    by (simp add: hostPathVolumes_def map_filter_def split: option.split)
  have spec: "host_path_of (vols @ [v]) name p \<longleftrightarrow>
      host_volume v = Some (name, p) \<or> (\<forall>q. host_volume v \<noteq> Some (name, q)) \<and> host_path_of vols name p"
  proof
    assume "host_path_of (vols @ [v]) name p"
    then obtain us w ws where e: "vols @ [v] = us @ w # ws" "host_volume w = Some (name, p)" "\<forall>w \<in> set ws. \<forall>q. host_volume w \<noteq> Some (name, q)"
      by (auto simp: host_path_of_def)
    show "host_volume v = Some (name, p) \<or> (\<forall>q. host_volume v \<noteq> Some (name, q)) \<and> host_path_of vols name p"
    proof (cases ws rule: rev_cases)
      case (snoc ws' v')
      with e(1) have "vols = us @ w # ws'" "v' = v" by auto
      with e(2,3) snoc show ?thesis unfolding host_path_of_def by (intro disjI2 conjI exI [of _ us] exI [of _ w] exI [of _ ws']) auto
    qed (use e in auto)
  next
    assume "host_volume v = Some (name, p) \<or> (\<forall>q. host_volume v \<noteq> Some (name, q)) \<and> host_path_of vols name p"
    then show "host_path_of (vols @ [v]) name p"
    proof (elim disjE conjE)
      assume "host_volume v = Some (name, p)"
      then show ?thesis unfolding host_path_of_def by (intro exI [of _ vols] exI [of _ v] exI [of _ "[]"]) simp
    next
      assume n: "\<forall>q. host_volume v \<noteq> Some (name, q)" and "host_path_of vols name p"
      then obtain us w ws where "vols = us @ w # ws" "host_volume w = Some (name, p)" "\<forall>w \<in> set ws. \<forall>q. host_volume w \<noteq> Some (name, q)"
        by (auto simp: host_path_of_def)
      with n show ?thesis unfolding host_path_of_def by (intro exI [of _ us] exI [of _ w] exI [of _ "ws @ [v]"]) auto
    qed
  qed
  show ?case unfolding step spec by (cases "host_volume v") (auto simp: snoc.IH)
qed

lemma no_blank_volume: "map_of (hostPathVolumes vols) [] = None"
proof -
  have "\<not> host_path_of vols [] p" for p by (auto simp: host_path_of_def dest: host_volume_named)
  then show ?thesis by (cases "map_of (hostPathVolumes vols) []") (simp_all add: map_of_hostPathVolumes)
qed

lemma hasHostPathMount_iff:
  "hasHostPathMount (pod_Volumes pod) (pod_VolumeMounts pod) \<longleftrightarrow>
     (\<exists>hp mp. mounts_host pod hp mp \<and> mp \<noteq> [] \<and> (mp = ''/'' \<or> HasPrefix hp ''/''))"
proof -
  have inner: "(if n = [] \<or> mp = [] then False else case map_of (hostPathVolumes vols) n of None \<Rightarrow> False | Some hp \<Rightarrow> mp = ''/'' \<or> HasPrefix hp ''/'')
     \<longleftrightarrow> (\<exists>hp. host_path_of vols n hp \<and> mp \<noteq> [] \<and> (mp = ''/'' \<or> HasPrefix hp ''/''))" for n mp vols
    using no_blank_volume [of vols] by (cases "map_of (hostPathVolumes vols) n") (auto simp: map_of_hostPathVolumes [symmetric])
  show ?thesis
    unfolding hasHostPathMount_def mounts_host_def Let_def inner
    by (cases "unmarshal (decode_list decode_dyn_map) (pod_Volumes pod)"; cases "unmarshal (decode_list decode_dyn_map) (pod_VolumeMounts pod)")
      (auto simp: list_ex_iff)
qed

lemma map_filter_Nil_iff: "List.map_filter f xs = [] \<longleftrightarrow> (\<forall>x \<in> set xs. f x = None)"
  by (induction xs) (auto simp: List.map_filter_simps split: option.split)

lemma hasSensitiveHostPathMount_iff:
  "fst (hasSensitiveHostPathMount (pod_Volumes pod) (pod_VolumeMounts pod)) \<longleftrightarrow>
     (\<exists>hp mp. mounts_host pod hp mp \<and> (\<exists>p \<in> set sensitivePrefixes. HasPrefix hp p))"
proof -
  have "sensitive_match (hostPathVolumes vols) m = None \<longleftrightarrow>
      \<not> (\<exists>hp. host_path_of vols (as_string (dyn_get m ''name'')) hp \<and> (\<exists>p \<in> set sensitivePrefixes. HasPrefix hp p))" for vols m
    using no_blank_volume [of vols]
    by (cases "map_of (hostPathVolumes vols) (as_string (dyn_get m ''name''))")
      (auto simp: sensitive_match_def Let_def list_ex_iff map_of_hostPathVolumes [symmetric])
  then show ?thesis
    unfolding hasSensitiveHostPathMount_def mounts_host_def Let_def
    by (cases "unmarshal (decode_list decode_dyn_map) (pod_Volumes pod)"; cases "unmarshal (decode_list decode_dyn_map) (pod_VolumeMounts pod)")
      (auto simp: map_filter_Nil_iff)
qed

lemma listed_if: "map fst (filter snd ((i, b) # xs)) = (if b then [i] else []) @ map fst (filter snd xs)"
  by simp

lemma listed_iff: "i \<in> set (map fst (filter snd xs)) \<longleftrightarrow> (i, True) \<in> set xs"
  by force

lemma map_cap_ID_if: "map cap_ID (if b then [c] else []) = (if b then [cap_ID c] else [])"
  by simp

lemma EvaluatePod_caps:
  "case pod_grants db pod of
     Inl e \<Rightarrow> EvaluatePod db pod = Inl e
   | Inr gs \<Rightarrow> \<exists>caps. EvaluatePod db pod = Inr caps \<and> distinct (map cap_ID caps) \<and> (\<forall>i. i \<in> cap_ID ` set caps \<longleftrightarrow> exhibits gs pod i)"
proof -
  obtain sens ev where se: "hasSensitiveHostPathMount (pod_Volumes pod) (pod_VolumeMounts pod) = (sens, ev)" by fastforce
  note iffs = hasPrivilegedContainer_iff hasHostPathMount_iff hasSensitiveHostPathMount_iff [of pod, unfolded se fst_conv]
  have auto: "(case pod_AutomountServiceAccountToken pod of None \<Rightarrow> True | Some b \<Rightarrow> b) \<longleftrightarrow> pod_AutomountServiceAccountToken pod \<noteq> Some False"
    by (simp split: option.split)
  show ?thesis
  proof (cases "pod_grants db pod")
    case (Inl e)
    then show ?thesis by (simp add: EvaluatePod_def AnalyzePod_grants Let_def se)
  next
    case (Inr gs)
    let ?w = "HasWrite (grants_analysis gs)"
    let ?ids = "[(CTRL_CONTROL_PLANE_POD, pod_Namespace pod = ''kube-system''), (NET_HOSTNETWORK, pod_HostNetwork pod),
      (ESC_HOSTPID_POD, pod_HostPID pod), (ESC_HOSTIPC_POD, pod_HostIPC pod),
      (ESC_PRIV_POD, hasPrivilegedContainer (pod_ContainerSecurityContexts pod)),
      (ESC_HOSTPATH_NODE, hasHostPathMount (pod_Volumes pod) (pod_VolumeMounts pod)), (ESC_RUNTIME_PROBE, pod_HostPID pod \<or> sens),
      (ID_TOKEN_POD, pod_AutomountServiceAccountToken pod \<noteq> Some False), (API_RBAC_WRITE_CLUSTER, ?w)]"
    obtain caps where caps: "EvaluatePod db pod = Inr caps" "map cap_ID caps = map fst (filter snd ?ids)"
      using Inr unfolding EvaluatePod_def AnalyzePod_grants Let_def se auto
      by (simp only: bind_result.simps prod.case append_Nil map_append map_cap_ID_if listed_if Capability.simps append_assoc
          filter.simps(1) list.map(1) append_Nil2)
    have "distinct (map fst ?ids)" by simp
    then have "distinct (map cap_ID caps)" unfolding caps(2) by (rule distinct_map_filter)
    moreover have "HasWrite (grants_analysis gs) \<longleftrightarrow> (\<exists>g \<in> set gs. HasWriteVerbs (g_Rules g))" by (simp add: grants_analysis_def list_ex_iff)
    then have "i \<in> set (map fst (filter snd ?ids)) \<longleftrightarrow> exhibits gs pod i" for i
      unfolding exhibits_def iffs [symmetric] listed_iff by (simp only: list.set insert_iff empty_iff prod.inject simp_thms)
    then have "i \<in> cap_ID ` set caps \<longleftrightarrow> exhibits gs pod i" for i by (metis caps(2) list.set_map)
    ultimately show ?thesis using Inr caps(1) by simp
  qed
qed

subsection \<open>Properties\<close>

text \<open>
  The evaluator reports what the pod exhibits, each capability once: it fails exactly when the bindings of the pod
  cannot be read, and otherwise its capabilities are those that the declarative reading of the pod, of its JSON
  documents and of its RBAC grants gives.
\<close>

lemma EvaluatePod_reports_exhibited:
  "case pod_grants db pod of
     Inl e \<Rightarrow> EvaluatePod db pod = Inl e
   | Inr gs \<Rightarrow> \<exists>caps. EvaluatePod db pod = Inr caps \<and> distinct (map cap_ID caps) \<and> (\<forall>i. i \<in> cap_ID ` set caps \<longleftrightarrow> exhibits gs pod i)"
  by (rule EvaluatePod_caps)

text \<open>
  The static risk takes three values: 50 for a pod that shares the PID or IPC namespace of its node and mounts a
  sensitive host path, 40 for one of the two, 0 otherwise.
\<close>

lemma ComputeStaticRisk_value:
  "ComputeStaticRisk pod =
     (let shares = pod_HostPID pod \<or> pod_HostIPC pod;
          mounts = (\<exists>hp mp. mounts_host pod hp mp \<and> (\<exists>p \<in> set sensitivePrefixes. HasPrefix hp p))
      in if shares \<and> mounts then 50 else if shares \<or> mounts then 40 else 0)"
  unfolding ComputeStaticRisk_def Let_def hasSensitiveHostPathMount_iff by auto

definition root_mount_pod :: Pod where
  "root_mount_pod = \<lparr>pod_ClusterID = ''c'', pod_Name = ''p'', pod_Namespace = ''ns'', pod_ServiceAccount = ''sa'', pod_UID = ''u'',
     pod_ContainerSecurityContexts = [], pod_VolumeMounts = ''[{\"name\":\"h\",\"mountPath\":\"/host\"}]'',
     pod_Volumes = ''[{\"name\":\"h\",\"hostPath\":{\"path\":\"/\"}}]'', pod_HostNetwork = False, pod_HostPID = False, pod_HostIPC = False,
     pod_AutomountServiceAccountToken = Some False, pod_SpecHash = [], pod_LastEvaluatedHash = [], pod_Deleted = False,
     pod_NodeName = [], pod_PodIP = [], pod_StartTime = None, pod_CreatedAt = 0, pod_RestartCount = 0\<rparr>"

text \<open>
  A pod that mounts the root of its node, and with it every sensitive path, is reported for the host path but
  neither for the access to host artifacts nor with a static risk.
\<close>

lemma root_mount_has_no_static_risk:
  "ComputeStaticRisk root_mount_pod = 0 \<and>
   map_sum id (map cap_ID) (EvaluatePod \<lparr>q_RoleBindings = (\<lambda>_ _. Inr []), q_ClusterRoleBindings = (\<lambda>_. Inr []),
     q_Role = (\<lambda>_ _ _. None), q_ClusterRole = (\<lambda>_ _. None)\<rparr> root_mount_pod) = Inr [ESC_HOSTPATH_NODE]"
  by code_simp

end
