(* ===== verification/Evidence_Mask.thy ===== *)
theory Evidence_Mask
  imports Go_Json
begin

section \<open>Masking of evidence: core/pkg/evidence/mask.go\<close>

text \<open>
  Evidence is stored as JSON. Before it is stored the value of every member whose name is a word for a
  secret is replaced. The pattern is anchored and ignores case; under Go's simple folding the Kelvin sign is a
  k and the long s an s. A column is either the text that did not parse or the value that is
  encoded again; the encoding of a value, numbers as float64 included, is not modelled.
\<close>

datatype JsonColumn = RawText string | Encoded json

definition sensitive_keys :: "string list" where
  "sensitive_keys = [''password'', ''passwd'', ''pwd'', ''token'', ''secret'', ''api_key'', ''apikey'', ''auth_header'',
     ''authorization'', ''private_key'', ''credential'']"

fun fold_key :: "string \<Rightarrow> string" where
  "fold_key (a # b # c # s) =
     (if a = CHR 0xE2 \<and> b = CHR 0x84 \<and> c = CHR 0xAA then CHR ''k'' # fold_key s
      else if a = CHR 0xC5 \<and> b = CHR 0xBF then CHR ''s'' # fold_key (c # s)
      else lower_char a # fold_key (b # c # s))"
| "fold_key [a, b] = (if a = CHR 0xC5 \<and> b = CHR 0xBF then ''s'' else [lower_char a, lower_char b])"
| "fold_key [a] = [lower_char a]"
| "fold_key [] = []"

definition SensitiveKeyPattern :: "string \<Rightarrow> bool" where
  "SensitiveKeyPattern k \<longleftrightarrow> fold_key k \<in> set sensitive_keys"

definition redacted :: json where
  "redacted = JStr ''[REDACTED]''"

fun maskValue :: "json \<Rightarrow> json" where
  "maskValue (JObj ms) = JObj (map (\<lambda>kv. (fst kv, if SensitiveKeyPattern (fst kv) then redacted else maskValue (snd kv))) ms)"
| "maskValue (JArr vs) = JArr (map maskValue vs)"
| "maskValue v = v"

definition MaskSensitiveInJSON :: "string \<Rightarrow> JsonColumn" where
  "MaskSensitiveInJSON raw0 =
     (let raw = TrimSpace raw0
      in if raw = [] then RawText raw
         else case json_parse raw of
                None \<Rightarrow> RawText raw
              | Some v \<Rightarrow> Encoded (maskValue v))"

subsection \<open>Properties\<close>

text \<open>\<open>no_secret v\<close>: every member of \<open>v\<close>, at any depth, whose name is sensitive is redacted. \<open>public_path\<close> follows
  members and elements to a value without passing a sensitive name.\<close>

fun no_secret :: "json \<Rightarrow> bool" where
  "no_secret (JObj ms) \<longleftrightarrow> (\<forall>kv \<in> set ms. if SensitiveKeyPattern (fst kv) then snd kv = redacted else no_secret (snd kv))"
| "no_secret (JArr vs) \<longleftrightarrow> (\<forall>v \<in> set vs. no_secret v)"
| "no_secret v \<longleftrightarrow> True"

inductive public_path :: "(string + nat) list \<Rightarrow> json \<Rightarrow> json \<Rightarrow> bool" where
  here: "public_path [] v v"
| member: "(k, v) \<in> set ms \<Longrightarrow> \<not> SensitiveKeyPattern k \<Longrightarrow> public_path p v w \<Longrightarrow> public_path (Inl k # p) (JObj ms) w"
| element: "i < length vs \<Longrightarrow> public_path p (vs ! i) w \<Longrightarrow> public_path (Inr i # p) (JArr vs) w"

lemma maskValue_no_secret: "no_secret (maskValue v)"
  by (induction v rule: maskValue.induct) auto

lemma maskValue_fixed: "no_secret v \<Longrightarrow> maskValue v = v"
proof (induction v rule: maskValue.induct)
  case (1 ms)
  then have "map (\<lambda>kv. (fst kv, if SensitiveKeyPattern (fst kv) then redacted else maskValue (snd kv))) ms = map id ms"
    by (intro map_cong) (auto simp: prod_eq_iff split: if_splits)
  then show ?case by simp
next
  case (2 vs)
  then show ?case by (simp add: map_idI)
qed auto

lemma maskValue_public: "public_path p v w \<Longrightarrow> public_path p (maskValue v) (maskValue w)"
proof (induction rule: public_path.induct)
  case (member k v ms p w)
  then have "(k, maskValue v) \<in> set (map (\<lambda>kv. (fst kv, if SensitiveKeyPattern (fst kv) then redacted else maskValue (snd kv))) ms)"
    by force
  with member show ?case by (simp only: maskValue.simps) (rule public_path.member)
next
  case (element i vs p w)
  then show ?case by (auto intro!: public_path.element)
qed (rule public_path.here)

text \<open>
  C17. Masking is complete, changes nothing else and is stable: the masked document has no unredacted sensitive
  member at any depth, every value reached without passing a sensitive name is still there under
  the same path (masked itself), a document without secrets is kept as it is, so masking twice is masking once.
\<close>

theorem maskValue_complete_and_exact:
  "no_secret (maskValue v) \<and>
   (public_path p v w \<longrightarrow> public_path p (maskValue v) (maskValue w)) \<and>
   (no_secret v \<longrightarrow> maskValue v = v) \<and> maskValue (maskValue v) = maskValue v"
  using maskValue_no_secret maskValue_fixed maskValue_public by blast

theorem maskValue_complete_and_exact_witness:
  "public_path [Inr 0, Inl ''user''] (maskValue (JArr [JObj [(''user'', JStr ''x''), (''Token'', JStr ''t'')]])) (JStr ''x'') \<and>
   no_secret (maskValue (JArr [JObj [(''user'', JStr ''x''), (''Token'', JStr ''t'')]])) \<and>
   maskValue (JArr [JObj [(''user'', JStr ''x''), (''Token'', JStr ''t'')]]) = JArr [JObj [(''user'', JStr ''x''), (''Token'', redacted)]]"
proof -
  let ?v = "JArr [JObj [(''user'', JStr ''x''), (''Token'', JStr ''t'')]]"
  have k: "\<not> SensitiveKeyPattern ''user''" "SensitiveKeyPattern ''Token''" by code_simp+
  have "public_path [Inr 0, Inl ''user''] ?v (JStr ''x'')"
    by (auto intro!: element member [where v = "JStr ''x''"] here k(1))
  then show ?thesis using maskValue_complete_and_exact [of ?v "[Inr 0, Inl ''user'']" "JStr ''x''"] k by simp
qed

end
