(* ===== verification/Resource_Identity.thy ===== *)
theory Resource_Identity
  imports Go_Strconv
begin

section \<open>Cluster-qualified identities: core/pkg/resourceidentity/identity.go, context.go\<close>

text \<open>
  A Kubernetes UID is not unique across clusters, so a resource is named by its cluster and its UID.
  Keys of ownership are compared as they are: a pair with outer white space or control characters is
  refused instead of repaired. \<open>containsControl\<close> finds the code points of \<^verbatim>\<open>unicode.IsControl\<close>, U+0000 to
  U+001F and U+007F to U+009F, in their UTF-8 form; a byte C2 never continues another sequence, so
  the two bytes of a control character stand in a string exactly when the decoder reads it.
\<close>

subsection \<open>Identities\<close>

record Identity =
  id_ClusterID :: string
  id_ResourceUID :: string

datatype IdentityError = IdentityRequired | IdentityWhitespace | IdentityControl

definition control_byte :: "char \<Rightarrow> bool" where
  "control_byte c \<longleftrightarrow> (of_char c :: nat) < 32 \<or> (of_char c :: nat) = 127"

fun containsControl :: "string \<Rightarrow> bool" where
  "containsControl [] = False"
| "containsControl (c # s) =
     (control_byte c \<or>
      (case s of
         d # _ \<Rightarrow> (of_char c :: nat) = 194 \<and> 128 \<le> (of_char d :: nat) \<and> (of_char d :: nat) < 160
       | [] \<Rightarrow> False) \<or>
      containsControl s)"

definition Identity_Validate :: "Identity \<Rightarrow> (IdentityError, unit) result" where
  "Identity_Validate i =
     (if id_ClusterID i = [] \<or> id_ResourceUID i = [] then Inl IdentityRequired
      else if TrimSpace (id_ClusterID i) \<noteq> id_ClusterID i \<or> TrimSpace (id_ResourceUID i) \<noteq> id_ResourceUID i
      then Inl IdentityWhitespace
      else if containsControl (id_ClusterID i) \<or> containsControl (id_ResourceUID i) then Inl IdentityControl
      else Inr ())"

definition New :: "string \<Rightarrow> string \<Rightarrow> (IdentityError, Identity) result" where
  "New clusterID resourceUID =
     (let i = \<lparr>id_ClusterID = clusterID, id_ResourceUID = resourceUID\<rparr>
      in bind_result (Identity_Validate i) (\<lambda>_. Inr i))"

definition Identity_Equal :: "Identity \<Rightarrow> Identity \<Rightarrow> bool" where
  "Identity_Equal i other \<longleftrightarrow> id_ClusterID i = id_ClusterID other \<and> id_ResourceUID i = id_ResourceUID other"

definition Key :: "Identity \<Rightarrow> (IdentityError, string) result" where
  "Key i = bind_result (Identity_Validate i) (\<lambda>_.
     Inr (Itoa (length (id_ClusterID i)) @ '':'' @ id_ClusterID i @ '':'' @ id_ResourceUID i))"

text \<open>The cluster key in a request context: None stands for a nil context, a context is the value stored in it.\<close>

definition WithClusterID :: "string option option \<Rightarrow> string \<Rightarrow> string option option" where
  "WithClusterID ctx clusterID = Some (Some clusterID)"

definition ClusterIDFromContext :: "string option option \<Rightarrow> string \<times> bool" where
  "ClusterIDFromContext ctx = (case ctx of
     None \<Rightarrow> ([], False)
   | Some None \<Rightarrow> ([], False)
   | Some (Some clusterID) \<Rightarrow> (clusterID, clusterID \<noteq> []))"

subsection \<open>Properties\<close>

lemma New_Inr_iff:
  "New c u = Inr i \<longleftrightarrow> i = \<lparr>id_ClusterID = c, id_ResourceUID = u\<rparr> \<and> Identity_Validate i = Inr ()"
  by (auto simp: New_def Let_def go_result_simps)

lemma New_fields: "New c u = Inr i \<Longrightarrow> id_ClusterID i = c \<and> id_ResourceUID i = u"
  by (auto simp: New_Inr_iff)

lemma decimal_prefix_unique:
  assumes "Itoa m @ CHR '':'' # s = Itoa n @ CHR '':'' # t"
  shows "m = n \<and> s = t"
proof -
  have colon: "CHR '':'' \<notin> set (Itoa k)" for k by (rule Itoa_not_digit) (simp add: is_digit_def)
  have cut: "takeWhile (\<lambda>c. c \<noteq> CHR '':'') (Itoa k @ CHR '':'' # r) = Itoa k" for k r
    using colon [of k] by (subst takeWhile_append2) auto
  have "Itoa m = Itoa n" using arg_cong [OF assms, of "takeWhile (\<lambda>c. c \<noteq> CHR '':'')"] by (simp only: cut)
  with assms show ?thesis by auto
qed

lemma Key_inject: "Key i = Inr k \<Longrightarrow> Key j = Inr k \<Longrightarrow> i = j"
proof -
  assume "Key i = Inr k" "Key j = Inr k"
  then have "Itoa (length (id_ClusterID i)) @ CHR '':'' # id_ClusterID i @ CHR '':'' # id_ResourceUID i =
      Itoa (length (id_ClusterID j)) @ CHR '':'' # id_ClusterID j @ CHR '':'' # id_ResourceUID j"
    by (auto simp: Key_def go_result_simps)
  then have "length (id_ClusterID i) = length (id_ClusterID j)"
    "id_ClusterID i @ CHR '':'' # id_ResourceUID i = id_ClusterID j @ CHR '':'' # id_ResourceUID j"
    by (auto dest: decimal_prefix_unique)
  then show "i = j" by auto
qed

lemma New_Key: "New c u = Inr i \<Longrightarrow> \<exists>k. Key i = Inr k"
  unfolding New_Inr_iff Key_def by auto

text \<open>
  The in-process key of an identity is collision-free: two identities have the same key only if
  they are the same pair of cluster and UID, whatever delimiters their parts contain, and every
  identity that \<open>New\<close> accepts has a key.
\<close>

lemma Key_collision_free:
  "(New c u = Inr i \<longrightarrow> (\<exists>k. Key i = Inr k)) \<and> (Key i = Inr k \<and> Key j = Inr k \<longrightarrow> i = j \<and> Identity_Equal i j)"
  using New_Key Key_inject [of i k j] by (auto simp: Identity_Equal_def)

definition sample_identity :: Identity where
  "sample_identity = \<lparr>id_ClusterID = ''a:1'', id_ResourceUID = ''u''\<rparr>"

lemma Key_collision_free_witness:
  "Key sample_identity = Inr ''3:a:1:u'' \<and> Key \<lparr>id_ClusterID = ''a'', id_ResourceUID = ''1:u''\<rparr> \<noteq> Key sample_identity"
proof -
  have k: "Key sample_identity = Inr ''3:a:1:u''" by code_simp
  have "sample_identity \<noteq> \<lparr>id_ClusterID = ''a'', id_ResourceUID = ''1:u''\<rparr>" by (simp add: sample_identity_def)
  then have "Key \<lparr>id_ClusterID = ''a'', id_ResourceUID = ''1:u''\<rparr> \<noteq> Inr ''3:a:1:u''"
    using Key_collision_free [of "''a:1''" "''u''" sample_identity "''3:a:1:u''"] k by auto
  with k show ?thesis by simp
qed

end
