(* ===== verification/Pod_Insight.thy ===== *)
theory Pod_Insight
  imports Evidence_Mask Resource_Identity
begin

section \<open>Findings of pods: core/pkg/riskengine/insight\_manager\_identity.go, insight\_manager.go (isExempted)\<close>

text \<open>
  The write path of every finding on a pod. A row is keyed by cluster, resource, finding and kind; the database
  has a unique index on the four columns, deleted rows included. The transaction looks the row up,
  merges or inserts it, and merges when another writer inserted the row in between: \<open>arrived\<close> are the
  rows other transactions commit between the lookup and the insert. The score of a pod is recomputed in the
  background; \<open>is_scored\<close> collects the identities it is started for. Instants are integers,
  the zero instant is None, \<open>ri_CVSS\<close> counts tenths.
\<close>

subsection \<open>Rows\<close>

record InsightRow =
  ri_ID :: nat
  ri_ClusterID :: string
  ri_ResourceType :: string
  ri_ResourceNamespace :: string
  ri_ResourceName :: string
  ri_ResourceUID :: string
  ri_InsightType :: string
  ri_Severity :: string
  ri_Title :: string
  ri_Description :: string
  ri_Recommendation :: string
  ri_CVEID :: string
  ri_AffectedComponent :: string
  ri_AffectedVersion :: string
  ri_FixedVersion :: string
  ri_CVSS :: int
  ri_Evidence :: JsonColumn
  ri_ViolatedRules :: JsonColumn
  ri_RiskExplanation :: string
  ri_Remediation :: string
  ri_MatchConfidence :: string
  ri_ComponentConfidence :: string
  ri_SBOMConfidence :: string
  ri_FinalRiskConfidence :: string
  ri_Degraded :: bool
  ri_Status :: string
  ri_Sensitivity :: string
  ri_AssigneeUserID :: "nat option"
  ri_DetectedAt :: "int option"
  ri_ResolvedAt :: "int option"
  ri_UpdatedAt :: int
  ri_DeletedAt :: "int option"

record ExceptionPolicy =
  xp_ClusterID :: string
  xp_ResourceUID :: string
  xp_CVEID :: string
  xp_InsightType :: string
  xp_ExpiresAt :: "int option"
  xp_Deleted :: bool

record InsightStore =
  is_rows :: "InsightRow list"
  is_exceptions :: "ExceptionPolicy list"
  is_scored :: "Identity list"
  is_findFails :: bool
  is_saveFails :: bool
  is_createFails :: bool
  is_exceptionsFail :: bool

datatype InsightError = NilInsight | NotAPod | BadIdentity IdentityError | NilDatabase | FindError | UpdateError
  | CreateError | LoadConcurrentError | MergeConcurrentError

subsection \<open>Operations\<close>

definition isExempted :: "InsightStore \<Rightarrow> int \<Rightarrow> string \<Rightarrow> string \<Rightarrow> string \<Rightarrow> string \<Rightarrow> bool" where
  "isExempted tx now clusterID0 resourceUID cveID insightType =
     (let clusterID = TrimSpace clusterID0
      in if clusterID = [] then False
         else if is_exceptionsFail tx then False
         else length (filter (\<lambda>p. xp_ClusterID p = clusterID \<and> xp_ResourceUID p = resourceUID \<and> xp_CVEID p = cveID \<and>
                xp_InsightType p = insightType \<and> \<not> xp_Deleted p \<and>
                (case xp_ExpiresAt p of None \<Rightarrow> True | Some t \<Rightarrow> t > now)) (is_exceptions tx)) > 0)"

definition canonicalPodInsightIdentity :: "InsightRow option \<Rightarrow> (InsightError, Identity) result" where
  "canonicalPodInsightIdentity insight = (case insight of
     None \<Rightarrow> Inl NilInsight
   | Some i \<Rightarrow>
       if \<not> EqualFold (TrimSpace (ri_ResourceType i)) ''pod'' then Inl NotAPod
       else case New (ri_ClusterID i) (ri_ResourceUID i) of Inl e \<Rightarrow> Inl (BadIdentity e) | Inr i \<Rightarrow> Inr i)"

text \<open>The text of a JSON column of an incoming insight; an insight read from the database holds an encoded value.\<close>

definition masked_column :: "string \<Rightarrow> JsonColumn \<Rightarrow> JsonColumn" where
  "masked_column dflt c = (case c of
     RawText s \<Rightarrow> if TrimSpace s = [] then RawText dflt else MaskSensitiveInJSON s
   | Encoded v \<Rightarrow> Encoded (maskValue v))"

definition normalizePodInsightForWrite :: "int \<Rightarrow> InsightRow \<Rightarrow> InsightRow" where
  "normalizePodInsightForWrite now i =
     (let i = i\<lparr>ri_CVEID := TrimSpace (ri_CVEID i), ri_ResourceType := ''Pod''\<rparr>;
          i = (if ri_Status i = [] then i\<lparr>ri_Status := ''active''\<rparr> else i);
          i = (if ri_DetectedAt i = None then i\<lparr>ri_DetectedAt := Some now\<rparr> else i);
          i = i\<lparr>ri_Evidence := masked_column ''{}'' (ri_Evidence i)\<rparr>;
          i = i\<lparr>ri_ViolatedRules := masked_column ''[]'' (ri_ViolatedRules i)\<rparr>
      in if TrimSpace (ri_Remediation i) = [] \<or> json_parse (ri_Remediation i) = None
         then i\<lparr>ri_Remediation := ''{}''\<rparr> else i)"

definition insight_key :: "InsightRow \<Rightarrow> string \<times> string \<times> string \<times> string" where
  "insight_key r = (ri_ClusterID r, ri_ResourceUID r, ri_InsightType r, ri_CVEID r)"

definition scopedPodInsightQuery :: "InsightStore \<Rightarrow> Identity \<Rightarrow> string \<Rightarrow> string \<Rightarrow> InsightRow option" where
  "scopedPodInsightQuery tx i insightType cveID =
     find (\<lambda>r. ri_ClusterID r = id_ClusterID i \<and> ri_ResourceUID r = id_ResourceUID i \<and> ri_InsightType r = insightType \<and>
       ri_CVEID r = cveID) (is_rows tx)"

definition mergePodInsight :: "int \<Rightarrow> InsightRow \<Rightarrow> InsightRow \<Rightarrow> bool \<Rightarrow> InsightRow" where
  "mergePodInsight now existing incoming reactivate =
     (let e = existing\<lparr>
            ri_ClusterID := ri_ClusterID incoming, ri_ResourceType := ''Pod'',
            ri_ResourceNamespace := ri_ResourceNamespace incoming, ri_ResourceName := ri_ResourceName incoming,
            ri_ResourceUID := ri_ResourceUID incoming, ri_InsightType := ri_InsightType incoming,
            ri_Severity := ri_Severity incoming, ri_Title := ri_Title incoming,
            ri_Description := ri_Description incoming, ri_Recommendation := ri_Recommendation incoming,
            ri_CVEID := ri_CVEID incoming, ri_AffectedComponent := ri_AffectedComponent incoming,
            ri_AffectedVersion := ri_AffectedVersion incoming, ri_FixedVersion := ri_FixedVersion incoming,
            ri_CVSS := ri_CVSS incoming, ri_Evidence := ri_Evidence incoming,
            ri_ViolatedRules := ri_ViolatedRules incoming, ri_RiskExplanation := ri_RiskExplanation incoming,
            ri_Remediation := ri_Remediation incoming, ri_MatchConfidence := ri_MatchConfidence incoming,
            ri_ComponentConfidence := ri_ComponentConfidence incoming, ri_SBOMConfidence := ri_SBOMConfidence incoming,
            ri_FinalRiskConfidence := ri_FinalRiskConfidence incoming, ri_Degraded := ri_Degraded incoming,
            ri_Sensitivity := ri_Sensitivity incoming\<rparr>;
          e = (if reactivate
               then e\<lparr>ri_DeletedAt := None, ri_Status := ''active'', ri_ResolvedAt := None, ri_DetectedAt := ri_DetectedAt incoming\<rparr>
               else e)
      in e\<lparr>ri_UpdatedAt := now\<rparr>)"

definition save_insight :: "InsightRow \<Rightarrow> InsightStore \<Rightarrow> InsightStore" where
  "save_insight row tx = tx\<lparr>is_rows := map (\<lambda>r. if ri_ID r = ri_ID row then row else r) (is_rows tx)\<rparr>"

text \<open>The sequence of the primary key.\<close>

definition fresh_id :: "InsightStore \<Rightarrow> nat" where
  "fresh_id tx = Suc (foldr max (map ri_ID (is_rows tx)) 0)"

definition createOrUpdatePodInsightTx :: "int \<Rightarrow> InsightRow list \<Rightarrow> InsightStore \<Rightarrow> InsightRow option
    \<Rightarrow> (InsightError, Identity) result \<times> InsightStore" where
  "createOrUpdatePodInsightTx now arrived tx insight0 = (case canonicalPodInsightIdentity insight0 of
     Inl e \<Rightarrow> (Inl e, tx)
   | Inr i \<Rightarrow>
       let insight = normalizePodInsightForWrite now (the insight0)
       in if is_findFails tx then (Inl FindError, tx)
          else case scopedPodInsightQuery tx i (ri_InsightType insight) (ri_CVEID insight) of
            Some existing \<Rightarrow>
              if ri_Status existing = ''dismissed'' \<and>
                 isExempted tx now (id_ClusterID i) (id_ResourceUID i) (ri_CVEID insight) (ri_InsightType insight)
              then (Inr i, tx)
              else
                let reactivate = (ri_DeletedAt existing \<noteq> None \<or> ri_Status existing = ''resolved'' \<or> ri_Status existing = ''dismissed'');
                    row = mergePodInsight now existing insight reactivate;
                    row = (if \<not> reactivate \<and> TrimSpace (ri_Status row) = [] then row\<lparr>ri_Status := ''active''\<rparr> else row)
                in if is_saveFails tx then (Inl UpdateError, tx)
                   else (Inr i, save_insight row tx)
          | None \<Rightarrow>
              let tx = tx\<lparr>is_rows := is_rows tx @ arrived\<rparr>
              in if is_createFails tx then (Inl CreateError, tx)
                 else if insight_key insight \<notin> insight_key ` set (is_rows tx)
                 then (Inr i, tx\<lparr>is_rows := is_rows tx @ [insight\<lparr>ri_ID := fresh_id tx\<rparr>]\<rparr>)
                 else case scopedPodInsightQuery tx i (ri_InsightType insight) (ri_CVEID insight) of
                   None \<Rightarrow> (Inl LoadConcurrentError, tx)
                 | Some existing \<Rightarrow>
                     if ri_Status existing = ''dismissed'' \<and>
                        isExempted tx now (id_ClusterID i) (id_ResourceUID i) (ri_CVEID insight) (ri_InsightType insight)
                     then (Inr i, tx)
                     else
                       let reactivate = (ri_DeletedAt existing \<noteq> None \<or> ri_Status existing = ''resolved'' \<or> ri_Status existing = ''dismissed'');
                           row = mergePodInsight now existing insight reactivate
                       in if is_saveFails tx then (Inl MergeConcurrentError, tx)
                          else (Inr i, save_insight row tx))"

definition schedule_score :: "Identity \<Rightarrow> InsightStore \<Rightarrow> InsightStore" where
  "schedule_score i s = s\<lparr>is_scored := is_scored s @ [i]\<rparr>"

text \<open>A failed transaction writes nothing of its own; what other transactions committed stays.\<close>

definition CreateOrUpdatePodInsight :: "int \<Rightarrow> InsightRow list \<Rightarrow> InsightRow option \<Rightarrow> InsightStore option
    \<Rightarrow> InsightError option \<times> InsightStore option" where
  "CreateOrUpdatePodInsight now arrived insight m = (case m of
     None \<Rightarrow> (Some NilDatabase, None)
   | Some s \<Rightarrow>
       (case createOrUpdatePodInsightTx now arrived s insight of
          (Inl e, s') \<Rightarrow> (Some e, Some s')
        | (Inr i, s') \<Rightarrow> (None, Some (schedule_score i s'))))"

text \<open>A batch is one transaction; here no other transaction commits a row of the batch in between. The scores
  are started once for every identity, in the order of the first occurrence of its key.\<close>

fun batch_tx :: "int \<Rightarrow> (string \<times> Identity) list \<Rightarrow> InsightStore \<Rightarrow> InsightRow option list
    \<Rightarrow> (InsightError, (string \<times> Identity) list \<times> InsightStore) result" where
  "batch_tx now ids tx [] = Inr (ids, tx)"
| "batch_tx now ids tx (insight # insights) =
     (case createOrUpdatePodInsightTx now [] tx insight of
        (Inl e, _) \<Rightarrow> Inl e
      | (Inr i, tx) \<Rightarrow>
          (case Key i of
             Inl e \<Rightarrow> Inl (BadIdentity e)
           | Inr key \<Rightarrow> batch_tx now (if key \<in> fst ` set ids then ids else ids @ [(key, i)]) tx insights))"

definition BatchCreateOrUpdatePodInsights :: "int \<Rightarrow> InsightRow option list \<Rightarrow> InsightStore option
    \<Rightarrow> InsightError option \<times> InsightStore option" where
  "BatchCreateOrUpdatePodInsights now insights m =
     (if length insights = 0 then (None, m)
      else case m of
        None \<Rightarrow> (Some NilDatabase, None)
      | Some s \<Rightarrow>
          (case batch_tx now [] s insights of
             Inl e \<Rightarrow> (Some e, Some s)
           | Inr (ids, s') \<Rightarrow> (None, Some (foldl (\<lambda>s ki. schedule_score (snd ki) s) s' ids))))"

subsection \<open>What a write does to the table\<close>

definition store_ok :: "InsightRow list \<Rightarrow> bool" where
  "store_ok rows \<longleftrightarrow> distinct (map insight_key rows) \<and> distinct (map ri_ID rows)"

definition row_frame :: "InsightRow \<Rightarrow> (string \<times> string \<times> string \<times> string) \<times> nat \<times> nat option" where
  "row_frame r = (insight_key r, ri_ID r, ri_AssigneeUserID r)"

definition reactivates :: "InsightRow \<Rightarrow> bool" where
  "reactivates e \<longleftrightarrow> ri_DeletedAt e \<noteq> None \<or> ri_Status e = ''resolved'' \<or> ri_Status e = ''dismissed''"

text \<open>The row a write leaves for its key, given the row that was there.\<close>

definition written_row :: "InsightStore \<Rightarrow> int \<Rightarrow> InsightRow \<Rightarrow> InsightRow \<Rightarrow> InsightRow \<Rightarrow> bool" where
  "written_row s now incoming e r \<longleftrightarrow>
     (if ri_Status e = ''dismissed'' \<and> isExempted s now (ri_ClusterID incoming) (ri_ResourceUID incoming) (ri_CVEID incoming) (ri_InsightType incoming)
      then r = e
      else \<exists>st. r = (mergePodInsight now e incoming (reactivates e))\<lparr>ri_Status := st\<rparr> \<and>
        (st = ri_Status e \<and> \<not> reactivates e \<or> st = ''active'' \<and> (reactivates e \<or> TrimSpace (ri_Status e) = [])))"

lemma normalize_fields [simp]:
  "ri_ClusterID (normalizePodInsightForWrite now i) = ri_ClusterID i"
  "ri_ResourceUID (normalizePodInsightForWrite now i) = ri_ResourceUID i"
  "ri_InsightType (normalizePodInsightForWrite now i) = ri_InsightType i"
  "ri_CVEID (normalizePodInsightForWrite now i) = TrimSpace (ri_CVEID i)"
  "ri_Status (normalizePodInsightForWrite now i) = (if ri_Status i = [] then ''active'' else ri_Status i)"
  by (simp_all add: normalizePodInsightForWrite_def Let_def)

lemma merge_fields [simp]:
  "insight_key (mergePodInsight now e i b) = insight_key i"
  "ri_ID (mergePodInsight now e i b) = ri_ID e"
  "ri_AssigneeUserID (mergePodInsight now e i b) = ri_AssigneeUserID e"
  "ri_Status (mergePodInsight now e i b) = (if b then ''active'' else ri_Status e)"
  by (simp_all add: mergePodInsight_def Let_def insight_key_def)

lemma insight_key_update [simp]: "insight_key (r\<lparr>ri_Status := x\<rparr>) = insight_key r" "insight_key (r\<lparr>ri_ID := n\<rparr>) = insight_key r"
  by (simp_all add: insight_key_def)

lemma canonical_Inr:
  "canonicalPodInsightIdentity x = Inr i \<Longrightarrow>
     \<exists>r. x = Some r \<and> id_ClusterID i = ri_ClusterID r \<and> id_ResourceUID i = ri_ResourceUID r \<and> Identity_Validate i = Inr ()"
  by (auto simp: canonicalPodInsightIdentity_def New_Inr_iff split: option.splits if_splits sum.splits)

lemma query_key:
  "id_ClusterID i = ri_ClusterID r \<Longrightarrow> id_ResourceUID i = ri_ResourceUID r \<Longrightarrow>
   scopedPodInsightQuery tx i (ri_InsightType r) (TrimSpace (ri_CVEID r)) =
     find (\<lambda>e. insight_key e = insight_key (normalizePodInsightForWrite now r)) (is_rows tx)"
  by (simp add: scopedPodInsightQuery_def insight_key_def)

lemma fresh_id_notin: "fresh_id tx \<notin> ri_ID ` set (is_rows tx)"
proof -
  have "x \<in> set xs \<Longrightarrow> x \<le> foldr max xs (0 :: nat)" for x xs by (induction xs) auto
  from this [of _ "map ri_ID (is_rows tx)"] have "\<forall>r \<in> set (is_rows tx). ri_ID r < fresh_id tx"
    by (auto simp: fresh_id_def less_Suc_eq_le)
  then show ?thesis by auto
qed

text \<open>The three ways a write ends well: the row is kept, replaced by a row with the same frame, or added.\<close>

inductive insight_effect :: "int \<Rightarrow> InsightRow \<Rightarrow> InsightStore \<Rightarrow> InsightStore \<Rightarrow> bool" for now incoming s where
  kept: "e \<in> set (is_rows s) \<Longrightarrow> insight_key e = insight_key incoming \<Longrightarrow> written_row s now incoming e e \<Longrightarrow> insight_effect now incoming s s"
| merged: "e \<in> set (is_rows s) \<Longrightarrow> insight_key e = insight_key incoming \<Longrightarrow> row_frame r = row_frame e \<Longrightarrow>
    written_row s now incoming e r \<Longrightarrow> insight_effect now incoming s (save_insight r s)"
| inserted: "insight_key incoming \<notin> insight_key ` set (is_rows s) \<Longrightarrow>
    insight_effect now incoming s (s\<lparr>is_rows := is_rows s @ [incoming\<lparr>ri_ID := fresh_id s\<rparr>]\<rparr>)"

lemma merge_status_id: "(mergePodInsight now e i b)\<lparr>ri_Status := if b then ''active'' else ri_Status e\<rparr> = mergePodInsight now e i b"
  by (simp add: mergePodInsight_def Let_def)

definition update_found :: "bool \<Rightarrow> InsightError \<Rightarrow> int \<Rightarrow> Identity \<Rightarrow> InsightRow \<Rightarrow> InsightStore \<Rightarrow> InsightRow
    \<Rightarrow> (InsightError, Identity) result \<times> InsightStore" where
  "update_found fix_blank err now i insight tx existing =
     (if ri_Status existing = ''dismissed'' \<and>
         isExempted tx now (id_ClusterID i) (id_ResourceUID i) (ri_CVEID insight) (ri_InsightType insight)
      then (Inr i, tx)
      else if is_saveFails tx then (Inl err, tx)
      else (Inr i, save_insight
        (if fix_blank \<and> \<not> reactivates existing \<and> TrimSpace (ri_Status existing) = []
         then (mergePodInsight now existing insight (reactivates existing))\<lparr>ri_Status := ''active''\<rparr>
         else mergePodInsight now existing insight (reactivates existing)) tx))"

lemma createTx_eq:
  assumes "canonicalPodInsightIdentity (Some x) = Inr i" and "n = normalizePodInsightForWrite now x"
  shows "createOrUpdatePodInsightTx now arrived tx (Some x) =
    (if is_findFails tx then (Inl FindError, tx)
     else case scopedPodInsightQuery tx i (ri_InsightType n) (ri_CVEID n) of
       Some e \<Rightarrow> update_found True UpdateError now i n tx e
     | None \<Rightarrow>
         let t = tx\<lparr>is_rows := is_rows tx @ arrived\<rparr>
         in if is_createFails tx then (Inl CreateError, t)
            else if insight_key n \<notin> insight_key ` set (is_rows t) then (Inr i, t\<lparr>is_rows := is_rows t @ [n\<lparr>ri_ID := fresh_id t\<rparr>]\<rparr>)
            else case scopedPodInsightQuery t i (ri_InsightType n) (ri_CVEID n) of
              None \<Rightarrow> (Inl LoadConcurrentError, t)
            | Some e \<Rightarrow> update_found False MergeConcurrentError now i n t e)"
  unfolding createOrUpdatePodInsightTx_def assms(1,2) Let_def update_found_def reactivates_def [symmetric]
  by (auto split: option.split)

lemma update_found_effect:
  assumes "update_found b err now i n s e = (Inr j, s')" and "e \<in> set (is_rows s)" and "insight_key e = insight_key n"
    and "id_ClusterID i = ri_ClusterID n" and "id_ResourceUID i = ri_ResourceUID n"
  shows "insight_effect now n s s'"
proof (cases "ri_Status e = ''dismissed'' \<and> isExempted s now (ri_ClusterID n) (ri_ResourceUID n) (ri_CVEID n) (ri_InsightType n)")
  case True
  with assms show ?thesis by (auto simp: update_found_def written_row_def intro!: kept)
next
  case False
  let ?m = "mergePodInsight now e n (reactivates e)"
  obtain r where s': "s' = save_insight r s"
    and r: "r = ?m \<or> r = ?m\<lparr>ri_Status := ''active''\<rparr> \<and> \<not> reactivates e \<and> TrimSpace (ri_Status e) = []"
    using assms(1,4,5) False by (auto simp: update_found_def split: if_splits)
  have "row_frame r = row_frame e" using r assms(3) by (auto simp: row_frame_def)
  moreover have "\<exists>st. r = ?m\<lparr>ri_Status := st\<rparr> \<and>
      (st = ri_Status e \<and> \<not> reactivates e \<or> st = ''active'' \<and> (reactivates e \<or> TrimSpace (ri_Status e) = []))"
    using r
  proof (elim disjE conjE)
    assume "r = ?m"
    then have "r = ?m\<lparr>ri_Status := if reactivates e then ''active'' else ri_Status e\<rparr>" by (simp only: merge_status_id)
    then show ?thesis by (cases "reactivates e") (simp_all only: if_True if_False, blast+)
  qed blast
  then have "written_row s now n e r" unfolding written_row_def if_not_P [OF False] .
  ultimately show ?thesis unfolding s' using assms(2,3) by (intro merged)
qed

lemma query_Some: "id_ClusterID i = ri_ClusterID n \<Longrightarrow> id_ResourceUID i = ri_ResourceUID n \<Longrightarrow>
    scopedPodInsightQuery t i (ri_InsightType n) (ri_CVEID n) = Some e \<Longrightarrow> e \<in> set (is_rows t) \<and> insight_key e = insight_key n"
  by (auto simp: scopedPodInsightQuery_def find_Some_iff insight_key_def)

lemma query_None: "id_ClusterID i = ri_ClusterID n \<Longrightarrow> id_ResourceUID i = ri_ResourceUID n \<Longrightarrow>
    scopedPodInsightQuery t i (ri_InsightType n) (ri_CVEID n) = None \<Longrightarrow> insight_key n \<notin> insight_key ` set (is_rows t)"
  by (auto simp: scopedPodInsightQuery_def find_None_iff insight_key_def)

lemma createTx_effect:
  assumes "createOrUpdatePodInsightTx now arrived s (Some x) = (Inr i, s')" and "n = normalizePodInsightForWrite now x"
  shows "insight_effect now n s s' \<or>
    insight_effect now n (s\<lparr>is_rows := is_rows s @ arrived\<rparr>) s' \<and> insight_key n \<notin> insight_key ` set (is_rows s)"
proof -
  from assms(1) obtain j where c: "canonicalPodInsightIdentity (Some x) = Inr j"
    by (auto simp: createOrUpdatePodInsightTx_def split: sum.splits)
  have ids: "id_ClusterID j = ri_ClusterID n" "id_ResourceUID j = ri_ResourceUID n"
    using canonical_Inr [OF c] by (auto simp: assms(2))
  let ?t = "s\<lparr>is_rows := is_rows s @ arrived\<rparr>"
  note res = assms(1) [unfolded createTx_eq [OF c assms(2)] Let_def]
  show ?thesis
  proof (cases "scopedPodInsightQuery s j (ri_InsightType n) (ri_CVEID n)")
    case (Some e)
    with res query_Some [OF ids Some] show ?thesis by (auto split: if_splits intro: update_found_effect [OF _ _ _ ids])
  next
    case None
    have "insight_effect now n ?t s'"
    proof (cases "insight_key n \<in> insight_key ` set (is_rows ?t)")
      case False
      with res None show ?thesis by (auto split: if_splits intro!: inserted [of n ?t, simplified])
    next
      case True
      then obtain e where e: "scopedPodInsightQuery ?t j (ri_InsightType n) (ri_CVEID n) = Some e"
        using query_None [OF ids, of ?t] by (cases "scopedPodInsightQuery ?t j (ri_InsightType n) (ri_CVEID n)") auto
      have "update_found False MergeConcurrentError now j n ?t e = (Inr i, s')"
        using res None True e by (auto split: if_splits)
      then show ?thesis using query_Some [OF ids e] by (auto intro: update_found_effect [OF _ _ _ ids])
    qed
    with query_None [OF ids None] show ?thesis by blast
  qed
qed

lemma store_ok_split: "store_ok (us @ e # vs) \<Longrightarrow>
    \<forall>x \<in> set us \<union> set vs. insight_key x \<noteq> insight_key e \<and> ri_ID x \<noteq> ri_ID e"
  by (auto simp: store_ok_def) (metis imageI)+

lemma save_insight_split:
  assumes "store_ok (us @ e # vs)" and "ri_ID r = ri_ID e" and "is_rows s = us @ e # vs"
  shows "is_rows (save_insight r s) = us @ r # vs"
  using store_ok_split [OF assms(1)] assms(2) by (auto simp: save_insight_def assms(3) intro!: map_idI)

lemma filter_key_split:
  assumes "\<forall>x \<in> set us \<union> set vs. insight_key x \<noteq> k" and "insight_key r = k"
  shows "filter (\<lambda>x. insight_key x = k) (us @ r # vs) = [r]" "filter (\<lambda>x. insight_key x \<noteq> k) (us @ r # vs) = us @ vs"
  using assms by (auto simp: filter_empty_conv filter_id_conv)

text \<open>The table after a successful write.\<close>

definition write_result :: "int \<Rightarrow> InsightRow \<Rightarrow> InsightStore \<Rightarrow> InsightRow list \<Rightarrow> InsightRow list \<Rightarrow> bool" where
  "write_result now n s rows rows' \<longleftrightarrow>
     filter (\<lambda>r. insight_key r \<noteq> insight_key n) rows' = filter (\<lambda>r. insight_key r \<noteq> insight_key n) rows \<and>
     (\<exists>r. filter (\<lambda>r. insight_key r = insight_key n) rows' = [r] \<and>
        (case find (\<lambda>e. insight_key e = insight_key n) rows of
           None \<Rightarrow> r = n\<lparr>ri_ID := ri_ID r\<rparr>
         | Some e \<Rightarrow> written_row s now n e r))"

lemma find_split: "\<forall>x \<in> set us \<union> set vs. insight_key x \<noteq> k \<Longrightarrow> insight_key e = k \<Longrightarrow> find (\<lambda>x. insight_key x = k) (us @ e # vs) = Some e"
  by (induction us) auto

lemma insight_effect_result:
  assumes "insight_effect now n s s'" and "store_ok (is_rows s)"
  shows "store_ok (is_rows s') \<and> prefix (map row_frame (is_rows s)) (map row_frame (is_rows s')) \<and>
    write_result now n s (is_rows s) (is_rows s') \<and> is_exceptions s' = is_exceptions s \<and> is_scored s' = is_scored s"
  using assms(1)
proof cases
  case (kept e)
  then obtain us vs where r: "is_rows s = us @ e # vs" by (auto dest: split_list)
  note k = store_ok_split [OF assms(2) [unfolded r]]
  then have "write_result now n s (us @ e # vs) (us @ e # vs)"
    using kept unfolding write_result_def by (simp add: filter_key_split [of us vs] find_split)
  with kept assms(2) show ?thesis by (simp add: r)
next
  case (merged e r)
  then obtain us vs where rows: "is_rows s = us @ e # vs" by (auto dest: split_list)
  have f: "ri_ID r = ri_ID e" "insight_key r = insight_key n" "insight_key e = insight_key n" using merged by (simp_all add: row_frame_def)
  note k = store_ok_split [OF assms(2) [unfolded rows]]
  have rows': "is_rows s' = us @ r # vs" using save_insight_split [OF _ f(1) rows] assms(2) rows merged(1) by simp
  have "write_result now n s (us @ e # vs) (us @ r # vs)"
    using k f merged(5) unfolding write_result_def by (simp add: filter_key_split [of us vs] find_split)
  moreover have "store_ok (us @ r # vs)" using assms(2) f unfolding rows by (auto simp: store_ok_def)
  moreover have "map row_frame (us @ r # vs) = map row_frame (us @ e # vs)" using merged(4) by simp
  ultimately show ?thesis unfolding rows' unfolding rows using merged(1) by (simp add: save_insight_def)
next
  case inserted
  have "find (\<lambda>e. insight_key e = insight_key n) (is_rows s) = None" using inserted(2) unfolding find_None_iff by (metis imageI)
  with inserted assms(2) fresh_id_notin [of s] show ?thesis
    by (auto simp: store_ok_def write_result_def filter_empty_conv) (metis imageI)
qed

lemma isExempted_rows [simp]: "isExempted (s\<lparr>is_rows := x\<rparr>) = isExempted s"
  by (intro ext) (simp add: isExempted_def Let_def)

lemma written_row_rows [simp]: "written_row (s\<lparr>is_rows := x\<rparr>) = written_row s"
  by (intro ext) (simp add: written_row_def)

lemma write_result_rows [simp]: "write_result now n (s\<lparr>is_rows := x\<rparr>) = write_result now n s"
  unfolding write_result_def written_row_rows ..

lemma createTx_result:
  assumes "createOrUpdatePodInsightTx now arrived s (Some x) = (Inr i, s')" and "n = normalizePodInsightForWrite now x"
    and "store_ok (is_rows s @ arrived)"
  shows "store_ok (is_rows s') \<and> prefix (map row_frame (is_rows s)) (map row_frame (is_rows s')) \<and>
    (write_result now n s (is_rows s) (is_rows s') \<or>
     insight_key n \<notin> insight_key ` set (is_rows s) \<and> write_result now n s (is_rows s @ arrived) (is_rows s'))"
proof -
  have ok: "store_ok (is_rows s)" using assms(3) by (auto simp: store_ok_def)
  from createTx_effect [OF assms(1,2)] show ?thesis
  proof
    assume "insight_effect now n s s'"
    from insight_effect_result [OF this ok] show ?thesis by simp
  next
    assume e: "insight_effect now n (s\<lparr>is_rows := is_rows s @ arrived\<rparr>) s' \<and> insight_key n \<notin> insight_key ` set (is_rows s)"
    with insight_effect_result [of now n "s\<lparr>is_rows := is_rows s @ arrived\<rparr>" s'] assms(3) show ?thesis
      by (auto dest: append_prefixD)
  qed
qed

subsection \<open>Sequences of writes\<close>

inductive insight_step :: "InsightStore \<Rightarrow> InsightStore \<Rightarrow> bool" where
  create: "store_ok (is_rows s @ arrived) \<Longrightarrow> snd (CreateOrUpdatePodInsight now arrived insight (Some s)) = Some s' \<Longrightarrow> insight_step s s'"
| batch: "snd (BatchCreateOrUpdatePodInsights now insights (Some s)) = Some s' \<Longrightarrow> insight_step s s'"

definition frames_kept :: "InsightStore \<Rightarrow> InsightStore \<Rightarrow> bool" where
  "frames_kept s s' \<longleftrightarrow> prefix (map row_frame (is_rows s)) (map row_frame (is_rows s'))"

lemma frames_kept_append [simp]: "frames_kept s (s\<lparr>is_rows := is_rows s @ x\<rparr>)"
  by (simp add: frames_kept_def)

lemma frames_kept_trans: "frames_kept a b \<Longrightarrow> frames_kept b c \<Longrightarrow> frames_kept a c"
  by (auto simp: frames_kept_def intro: prefix_order.trans)

lemma schedule_rows [simp]: "is_rows (schedule_score i s) = is_rows s" "is_exceptions (schedule_score i s) = is_exceptions s"
  by (simp_all add: schedule_score_def)

lemma schedule_all: "is_rows (foldl (\<lambda>s ki. schedule_score (snd ki) s) s ids) = is_rows s \<and>
    is_scored (foldl (\<lambda>s ki. schedule_score (snd ki) s) s ids) = is_scored s @ map snd ids"
  by (induction ids arbitrary: s) (simp_all add: schedule_score_def)

lemma createTx_Inl: "createOrUpdatePodInsightTx now arrived s x = (Inl e, s') \<Longrightarrow> s' = s \<or> s' = s\<lparr>is_rows := is_rows s @ arrived\<rparr>"
  unfolding createOrUpdatePodInsightTx_def Let_def
  by (auto split: sum.splits if_splits option.splits)

lemma createTx_Some: "createOrUpdatePodInsightTx now arrived s x = (Inr i, s') \<Longrightarrow>
    \<exists>r. x = Some r \<and> i = \<lparr>id_ClusterID = ri_ClusterID r, id_ResourceUID = ri_ResourceUID r\<rparr> \<and> Identity_Validate i = Inr ()"
  using canonical_Inr [of x] unfolding createOrUpdatePodInsightTx_def Let_def
  by (fastforce split: sum.splits if_splits option.splits)

lemma createTx_keeps:
  assumes "createOrUpdatePodInsightTx now arrived s x = (res, s')" and "store_ok (is_rows s @ arrived)"
  shows "store_ok (is_rows s') \<and> frames_kept s s'"
proof (cases res)
  case (Inl e)
  have "store_ok (is_rows s)" using assms(2) by (auto simp: store_ok_def)
  with createTx_Inl [OF assms(1) [unfolded Inl]] assms(2) show ?thesis by (auto simp: frames_kept_def)
next
  case (Inr i)
  then show ?thesis
    using assms createTx_Some [of now arrived s x i s'] createTx_result [of now arrived s _ i s'] by (auto simp: frames_kept_def)
qed

definition row_identity :: "InsightRow \<Rightarrow> Identity" where
  "row_identity r = \<lparr>id_ClusterID = ri_ClusterID r, id_ResourceUID = ri_ResourceUID r\<rparr>"

definition ids_ok :: "(string \<times> Identity) list \<Rightarrow> bool" where
  "ids_ok ids \<longleftrightarrow> distinct (map fst ids) \<and> (\<forall>(k, i) \<in> set ids. Key i = Inr k)"

lemma ids_ok_distinct: "ids_ok ids \<Longrightarrow> distinct (map snd ids)"
  by (induction ids) (fastforce simp: ids_ok_def image_iff)+

lemma ids_ok_insert:
  assumes "ids_ok ids" and "Key i = Inr k"
  shows "ids_ok (if k \<in> fst ` set ids then ids else ids @ [(k, i)]) \<and>
    snd ` set (if k \<in> fst ` set ids then ids else ids @ [(k, i)]) = insert i (snd ` set ids)"
proof (cases "k \<in> fst ` set ids")
  case True
  then obtain j where "(k, j) \<in> set ids" by auto
  moreover from this have "j = i" using assms Key_inject [of j k i] by (auto simp: ids_ok_def)
  ultimately have "i \<in> snd ` set ids" by force
  with assms(1) True show ?thesis by (simp add: insert_absorb)
next
  case False
  with assms show ?thesis by (auto simp: ids_ok_def)
qed

lemma batch_tx_result:
  assumes "batch_tx now ids s xs = Inr (ids', s')" and "store_ok (is_rows s)" and "ids_ok ids"
  shows "store_ok (is_rows s') \<and> frames_kept s s' \<and> is_scored s' = is_scored s \<and> ids_ok ids' \<and>
    (\<forall>x \<in> set xs. \<exists>r. x = Some r \<and> insight_key (normalizePodInsightForWrite now r) \<in> insight_key ` set (is_rows s')) \<and>
    snd ` set ids' = snd ` set ids \<union> {row_identity r | r. Some r \<in> set xs}"
  using assms
proof (induction xs arbitrary: ids s)
  case Nil
  then show ?case by (auto simp: frames_kept_def)
next
  case (Cons x xs)
  from Cons.prems(1) obtain i t k where t: "createOrUpdatePodInsightTx now [] s x = (Inr i, t)" and k: "Key i = Inr k"
    and rest: "batch_tx now (if k \<in> fst ` set ids then ids else ids @ [(k, i)]) t xs = Inr (ids', s')"
    by (auto split: prod.splits sum.splits)
  obtain r where r: "x = Some r" "i = row_identity r" using createTx_Some [OF t] by (auto simp: row_identity_def)
  have ok: "store_ok (is_rows t) \<and> frames_kept s t" using createTx_keeps [OF t] Cons.prems(2) by simp
  have eff: "insight_effect now (normalizePodInsightForWrite now r) s t"
    using createTx_effect [OF t [unfolded r(1)] refl] by auto
  note res = insight_effect_result [OF eff Cons.prems(2)]
  then have key: "insight_key (normalizePodInsightForWrite now r) \<in> insight_key ` set (is_rows t)" and sc: "is_scored t = is_scored s"
    by (auto simp: write_result_def filter_eq_Cons_iff)
  note ids = ids_ok_insert [OF Cons.prems(3) k]
  note IH = Cons.IH [OF rest conjunct1 [OF ok] conjunct1 [OF ids]]
  have sub: "insight_key ` set (is_rows t) \<subseteq> insight_key ` set (is_rows s')"
  proof -
    have "set (map fst (map row_frame (is_rows t))) \<subseteq> set (map fst (map row_frame (is_rows s')))"
      using IH set_mono_prefix [of "map row_frame (is_rows t)" "map row_frame (is_rows s')"] by (auto simp: frames_kept_def)
    then show ?thesis by (simp add: row_frame_def image_image)
  qed
  have "snd ` set ids' = snd ` set ids \<union> {row_identity r | r. Some r \<in> set (x # xs)}"
    using IH ids r by auto
  moreover have "\<exists>r. y = Some r \<and> insight_key (normalizePodInsightForWrite now r) \<in> insight_key ` set (is_rows s')" if "y \<in> set (x # xs)" for y
    using that IH key sub r(1) by auto
  moreover have "frames_kept s s'" using IH ok frames_kept_trans by blast
  ultimately show ?case using IH sc by simp
qed

lemma insight_step_keeps:
  assumes "insight_step s s'" and "store_ok (is_rows s)"
  shows "store_ok (is_rows s') \<and> frames_kept s s'"
  using assms
proof (induction rule: insight_step.induct)
  case (create s arrived now insight s')
  obtain res t where t: "createOrUpdatePodInsightTx now arrived s insight = (res, t)" by fastforce
  from createTx_keeps [OF t create(1)] t create(2) show ?case
    by (cases res) (auto simp: CreateOrUpdatePodInsight_def frames_kept_def)
next
  case (batch now insights s s')
  have "ids_ok []" by (simp add: ids_ok_def)
  with batch batch_tx_result [of now "[]" s insights] show ?case
    by (auto simp: BatchCreateOrUpdatePodInsights_def frames_kept_def schedule_all split: if_splits sum.splits)
qed

interpretation findings: step_history insight_step "\<lambda>s. store_ok (is_rows s)" frames_kept
  by unfold_locales (auto simp: frames_kept_def dest: insight_step_keeps [unfolded frames_kept_def] intro: prefix_order.trans)

definition sample_row :: InsightRow where
  "sample_row = \<lparr>ri_ID = 0, ri_ClusterID = ''c1'', ri_ResourceType = ''pod'', ri_ResourceNamespace = ''ns'', ri_ResourceName = ''p'',
     ri_ResourceUID = ''u'', ri_InsightType = ''capability'', ri_Severity = ''high'', ri_Title = ''new'', ri_Description = [],
     ri_Recommendation = [], ri_CVEID = '' ESC '', ri_AffectedComponent = [], ri_AffectedVersion = [], ri_FixedVersion = [], ri_CVSS = 0,
     ri_Evidence = RawText [], ri_ViolatedRules = RawText [], ri_RiskExplanation = [], ri_Remediation = [], ri_MatchConfidence = [],
     ri_ComponentConfidence = [], ri_SBOMConfidence = [], ri_FinalRiskConfidence = [], ri_Degraded = False, ri_Status = [],
     ri_Sensitivity = [], ri_AssigneeUserID = None, ri_DetectedAt = None, ri_ResolvedAt = None, ri_UpdatedAt = 0, ri_DeletedAt = None\<rparr>"

definition sample_stored :: InsightRow where
  "sample_stored = sample_row\<lparr>ri_ID := 4, ri_CVEID := ''ESC'', ri_Status := ''resolved'', ri_Title := ''old'', ri_AssigneeUserID := Some 3\<rparr>"

definition sample_store :: InsightStore where
  "sample_store = \<lparr>is_rows = [sample_stored, sample_stored\<lparr>ri_ID := 5, ri_ClusterID := ''c2''\<rparr>], is_exceptions = [], is_scored = [],
     is_findFails = False, is_saveFails = False, is_createFails = False, is_exceptionsFail = False\<rparr>"

lemma sample_store_ok: "store_ok (is_rows sample_store)" "store_ok (is_rows sample_store @ [])"
  by (simp_all add: store_ok_def sample_store_def sample_stored_def sample_row_def insight_key_def)

subsection \<open>Properties\<close>

text \<open>
  C18. A successful write leaves exactly one row for its key and touches no other row. If the key was new, the
  row is the incoming finding; if another transaction inserted it meanwhile or it was there before, it
  is merged into that row, which keeps its identifier and assignee. A dismissed row under an active
  exception is not changed; a resolved, dismissed or deleted one becomes active, another one keeps its status.
\<close>

theorem pod_insight_write_exact:
  assumes "createOrUpdatePodInsightTx now arrived s (Some x) = (Inr i, s')" and "store_ok (is_rows s @ arrived)"
  shows "let n = normalizePodInsightForWrite now x
    in write_result now n s (is_rows s) (is_rows s') \<or>
       insight_key n \<notin> insight_key ` set (is_rows s) \<and> write_result now n s (is_rows s @ arrived) (is_rows s')"
  using createTx_result [OF assms(1) refl assms(2)] by (simp add: Let_def)

theorem pod_insight_write_exact_witness:
  "ri_Status (is_rows (snd (createOrUpdatePodInsightTx 9 [] sample_store (Some sample_row))) ! 0) = ''active'' \<and>
   write_result 9 (normalizePodInsightForWrite 9 sample_row) sample_store (is_rows sample_store)
     (is_rows (snd (createOrUpdatePodInsightTx 9 [] sample_store (Some sample_row))))"
proof -
  have "is_ok (fst (createOrUpdatePodInsightTx 9 [] sample_store (Some sample_row)))"
    "ri_Status (is_rows (snd (createOrUpdatePodInsightTx 9 [] sample_store (Some sample_row))) ! 0) = ''active''"
    by code_simp+
  then obtain i s' where e: "createOrUpdatePodInsightTx 9 [] sample_store (Some sample_row) = (Inr i, s')"
    and a: "ri_Status (is_rows s' ! 0) = ''active''"
    by (cases "createOrUpdatePodInsightTx 9 [] sample_store (Some sample_row)") (auto simp: is_ok_iff)
  from pod_insight_write_exact [OF e sample_store_ok(2)] show ?thesis using a by (auto simp: e Let_def)
qed

text \<open>
  However writes, batches and the inserts of other transactions follow each other, the table holds every
  key once and every identifier once, and no row loses its place, its key, its identifier or its assignee.
\<close>

lemma pod_insights_stay_keyed:
  assumes "insight_step\<^sup>*\<^sup>* s s'" and "store_ok (is_rows s)"
  shows "distinct (map insight_key (is_rows s')) \<and> distinct (map ri_ID (is_rows s')) \<and>
    prefix (map (\<lambda>r. (insight_key r, ri_ID r, ri_AssigneeUserID r)) (is_rows s))
      (map (\<lambda>r. (insight_key r, ri_ID r, ri_AssigneeUserID r)) (is_rows s'))"
  using findings.reachable_inv [OF assms] findings.reachable_hist [OF assms]
  by (simp add: store_ok_def frames_kept_def row_frame_def [abs_def])

lemma pod_insights_stay_keyed_witness:
  "\<exists>s'. CreateOrUpdatePodInsight 9 [] (Some sample_row) (Some sample_store) = (None, Some s') \<and>
     distinct (map insight_key (is_rows s')) \<and> is_scored s' = [\<lparr>id_ClusterID = ''c1'', id_ResourceUID = ''u''\<rparr>]"
proof -
  have o: "fst (CreateOrUpdatePodInsight 9 [] (Some sample_row) (Some sample_store)) = None"
    "map_option is_scored (snd (CreateOrUpdatePodInsight 9 [] (Some sample_row) (Some sample_store))) =
       Some [\<lparr>id_ClusterID = ''c1'', id_ResourceUID = ''u''\<rparr>]"
    by code_simp+
  then obtain s' where s': "snd (CreateOrUpdatePodInsight 9 [] (Some sample_row) (Some sample_store)) = Some s'"
    and sc: "is_scored s' = [\<lparr>id_ClusterID = ''c1'', id_ResourceUID = ''u''\<rparr>]" by auto
  have "insight_step\<^sup>*\<^sup>* sample_store s'" using create [OF sample_store_ok(2) s'] by blast
  from pod_insights_stay_keyed [OF this sample_store_ok(1)] show ?thesis
    using o(1) s' sc by (auto simp: prod_eq_iff intro!: exI [of _ s'])
qed

text \<open>
  A batch is all or nothing and scores each pod once: if it fails the store is unchanged and no score is
  started; if it succeeds every finding of the batch has its row and the scores started are those of the pods of the
  batch, each one once, whatever the delimiters in the names of clusters and pods.
\<close>

lemma batch_atomic_and_scored_once:
  assumes "store_ok (is_rows s)" and "insights \<noteq> []"
    and "BatchCreateOrUpdatePodInsights now insights (Some s) = (err, Some s')"
  shows "(err \<noteq> None \<longrightarrow> s' = s) \<and>
    (err = None \<longrightarrow>
       (\<forall>x \<in> set insights. \<exists>r. x = Some r \<and> insight_key (normalizePodInsightForWrite now r) \<in> insight_key ` set (is_rows s')) \<and>
       (\<exists>ids. is_scored s' = is_scored s @ ids \<and> distinct ids \<and>
          set ids = {\<lparr>id_ClusterID = ri_ClusterID r, id_ResourceUID = ri_ResourceUID r\<rparr> | r. Some r \<in> set insights}))"
proof (cases "batch_tx now [] s insights")
  case (Inl e)
  with assms(2,3) show ?thesis by (auto simp: BatchCreateOrUpdatePodInsights_def)
next
  case (Inr p)
  then obtain ids t where r: "batch_tx now [] s insights = Inr (ids, t)" by (cases p) auto
  have "ids_ok []" by (simp add: ids_ok_def)
  note res = batch_tx_result [OF r assms(1) this]
  have s': "err = None" "is_rows s' = is_rows t" "is_scored s' = is_scored t @ map snd ids"
    using assms(2,3) r schedule_all [of t ids] by (auto simp: BatchCreateOrUpdatePodInsights_def)
  have "distinct (map snd ids)" "set (map snd ids) = {\<lparr>id_ClusterID = ri_ClusterID r, id_ResourceUID = ri_ResourceUID r\<rparr> | r. Some r \<in> set insights}"
    using res ids_ok_distinct by (auto simp: row_identity_def)
  with res s' show ?thesis by auto
qed

lemma batch_atomic_and_scored_once_witness:
  "let r = BatchCreateOrUpdatePodInsights 9 [Some sample_row, Some (sample_row\<lparr>ri_CVEID := ''NET''\<rparr>)] (Some sample_store)
   in fst r = None \<and> is_scored (the (snd r)) = [\<lparr>id_ClusterID = ''c1'', id_ResourceUID = ''u''\<rparr>] \<and>
      insight_key (normalizePodInsightForWrite 9 sample_row) \<in> insight_key ` set (is_rows (the (snd r)))"
proof -
  let ?b = "BatchCreateOrUpdatePodInsights 9 [Some sample_row, Some (sample_row\<lparr>ri_CVEID := ''NET''\<rparr>)] (Some sample_store)"
  have o: "fst ?b = None" "snd ?b \<noteq> None" "is_scored (the (snd ?b)) = [\<lparr>id_ClusterID = ''c1'', id_ResourceUID = ''u''\<rparr>]"
    by code_simp+
  then obtain s' where b: "?b = (None, Some s')" by (cases ?b) auto
  from batch_atomic_and_scored_once [OF sample_store_ok(1) _ b] o(3) show ?thesis by (simp add: b Let_def)
qed

end
