(* ===== verification/Capability_State.thy ===== *)
theory Capability_State
  imports Capability_Rules Pod_Insight
begin

section \<open>State of the capabilities: core/pkg/capability/state\_controller\_identity.go, state\_controller.go, attack\_step\_*.go, evaluator.go\<close>

text \<open>
  The capability state controller and the persistence of an evaluation. A confidence is a float64: its type and the
  operations on it are the parameter \<open>F\<close>. An evidence column is None when it holds no object. A query or a write that
  fails is named in \<open>cd_fails\<close>. The rebuild of attack paths is started in the background, \<open>cd_rebuilds\<close>
  collects the identities it is started for. Rows carry no creation instant, and a status is
  never NULL.
\<close>

subsection \<open>Rows\<close>

record 'f FloatOps =
  fl_add :: "'f \<Rightarrow> 'f \<Rightarrow> 'f"
  fl_gt :: "'f \<Rightarrow> 'f \<Rightarrow> bool"
  fl_one :: 'f
  fl_half :: 'f

record 'f PodCapability =
  pc_ID :: nat
  pc_ClusterID :: string
  pc_PodUID :: string
  pc_Namespace :: string
  pc_CapabilityID :: string
  pc_CapabilityGroup :: string
  pc_Severity :: string
  pc_State :: string
  pc_Confidence :: 'f
  pc_CapabilityClass :: string
  pc_FirstSeenAt :: int
  pc_LastSeenAt :: int
  pc_Evidence :: "EvidenceMap option"

record 'f CapabilityMetadata =
  cm_CapabilityID :: string
  cm_Description :: string
  cm_SeverityBase :: string
  cm_ConfidenceBase :: 'f
  cm_ProducesAttackSteps :: "string list"
  cm_Name :: string
  cm_RecommendedMitigations :: "string list"
  cm_FalsePositiveConsiderations :: "string list"

record 'f PromotionRule =
  pl_CapabilityID :: string
  pl_SignalType :: string
  pl_MinOccurrences :: int
  pl_RequiredCapabilities :: "string list"
  pl_PromoteTo :: string
  pl_ConfidenceBoost :: 'f

record RuntimeSignal =
  rs_ClusterID :: string
  rs_PodUID :: string
  rs_SignalType :: string
  rs_Count :: int

record 'f PodAttackStep =
  as_ClusterID :: string
  as_PodUID :: string
  as_StepID :: string
  as_Category :: string
  as_Confidence :: 'f
  as_Description :: string
  as_Evidence :: EvidenceMap

record PodRiskProfile =
  rp_ClusterID :: string
  rp_PodUID :: string
  rp_Namespace :: string
  rp_StaticRisk :: int
  rp_RuntimeScore :: int
  rp_Capabilities :: "string list"

record PodInstance =
  pn_ClusterID :: string
  pn_PodUID :: string
  pn_Status :: string

record 'f CapDb =
  cd_pods :: "Pod list"
  cd_instances :: "PodInstance list option"
  cd_caps :: "'f PodCapability list"
  cd_metadata :: "'f CapabilityMetadata list"
  cd_rules :: "'f PromotionRule list"
  cd_signals :: "RuntimeSignal list"
  cd_steps :: "'f PodAttackStep list"
  cd_profiles :: "PodRiskProfile list"
  cd_insights :: InsightStore
  cd_rbac :: rbac_db
  cd_rebuilds :: "Identity list"
  cd_fails :: "string \<Rightarrow> bool"

datatype CapError = CapIdentity IdentityError | CapQuery string | CapInsight InsightError | NotUnique nat | InvalidDB

subsection \<open>Initialisation\<close>

definition cap_of :: "Identity \<Rightarrow> string \<Rightarrow> 'f PodCapability \<Rightarrow> bool" where
  "cap_of i capabilityID c \<longleftrightarrow> pc_ClusterID c = id_ClusterID i \<and> pc_PodUID c = id_ResourceUID i \<and> pc_CapabilityID c = capabilityID"

definition metadata_of :: "'f CapDb \<Rightarrow> string \<Rightarrow> 'f CapabilityMetadata option" where
  "metadata_of db capabilityID = (if cd_fails db ''metadata'' then None else find (\<lambda>m. cm_CapabilityID m = capabilityID) (cd_metadata db))"

definition fresh_cap_id :: "'f PodCapability list \<Rightarrow> nat" where
  "fresh_cap_id caps = Suc (foldr max (map pc_ID caps) 0)"

definition InitializeCapabilityForIdentity :: "'f FloatOps \<Rightarrow> int \<Rightarrow> Identity \<Rightarrow> string \<Rightarrow> string \<Rightarrow> string \<Rightarrow> string \<Rightarrow> EvidenceMap
    \<Rightarrow> 'f CapDb \<Rightarrow> CapError option \<times> 'f CapDb" where
  "InitializeCapabilityForIdentity F now i namespace capabilityID grp severity0 evidence db = (case Identity_Validate i of
     Inl e \<Rightarrow> (Some (CapIdentity e), db)
   | Inr _ \<Rightarrow>
       let (baseConfidence, severity) = (case metadata_of db capabilityID of
              None \<Rightarrow> (fl_half F, severity0)
            | Some m \<Rightarrow> (cm_ConfidenceBase m, if severity0 = [] then cm_SeverityBase m else severity0));
           row = \<lparr>pc_ID = fresh_cap_id (cd_caps db), pc_ClusterID = id_ClusterID i, pc_PodUID = id_ResourceUID i, pc_Namespace = namespace,
                  pc_CapabilityID = capabilityID, pc_CapabilityGroup = grp, pc_Severity = severity, pc_State = ''detected'',
                  pc_Confidence = baseConfidence, pc_CapabilityClass = ''effective'', pc_FirstSeenAt = now, pc_LastSeenAt = now,
                  pc_Evidence = Some evidence\<rparr>
       in if cd_fails db ''create'' then (Some (CapQuery ''create''), db)
          else if list_ex (cap_of i capabilityID) (cd_caps db)
          then (None, db\<lparr>cd_caps := map (\<lambda>c. if cap_of i capabilityID c
                  then c\<lparr>pc_CapabilityGroup := grp, pc_Severity := severity, pc_Evidence := Some evidence, pc_LastSeenAt := now\<rparr>
                  else c) (cd_caps db)\<rparr>)
          else (None, db\<lparr>cd_caps := cd_caps db @ [row]\<rparr>))"

subsection \<open>Attack steps of exploited capabilities\<close>

definition step_table :: "(string \<times> string \<times> string) list" where
  "step_table =
     [(''NODE_FS_WRITE'', ''FILESYSTEM'', ''Write access to node filesystem''),
      (''NODE_KERNEL_ACCESS'', ''KERNEL'', ''Access to kernel resources''),
      (''PROC_NAMESPACE_ACCESS'', ''PROCESS'', ''Access to process namespace''),
      (''IPC_NAMESPACE_ACCESS'', ''IPC'', ''Access to IPC namespace''),
      (''NODE_CRED_DUMP'', ''CREDENTIALS'', ''Dump credentials from node''),
      (''NODE_PERSISTENCE'', ''PERSISTENCE'', ''Establish persistence on node''),
      (''KUBELET_CRED_ACCESS'', ''CREDENTIALS'', ''Access kubelet credentials''),
      (''PROC_ROOT_PIVOT'', ''ESCAPE'', ''Proc root pivot (container escape)''),
      (''RBAC_ABUSE'', ''RBAC'', ''Abuse RBAC permissions''),
      (''NETWORK_SNIFFING'', ''NETWORK'', ''Sniff network traffic''),
      (''RBAC_ESCALATION'', ''RBAC'', ''Escalate RBAC privileges''),
      (''RESOURCE_MANIPULATION'', ''RBAC'', ''Manipulate Kubernetes resources''),
      (''CONTROL_PLANE_ACCESS'', ''CONTROL_PLANE'', ''Access control plane components'')]"

definition getStepCategory :: "string \<Rightarrow> string" where
  "getStepCategory stepID = (case map_of step_table stepID of Some (cat, _) \<Rightarrow> cat | None \<Rightarrow> ''UNKNOWN'')"

definition getStepDescription :: "string \<Rightarrow> string" where
  "getStepDescription stepID = (case map_of step_table stepID of Some (_, desc) \<Rightarrow> desc | None \<Rightarrow> ''Attack step: '' @ stepID)"

definition updateStepEvidence :: "string \<Rightarrow> 'f PodCapability \<Rightarrow> EvidenceMap \<Rightarrow> EvidenceMap" where
  "updateStepEvidence stamp c evidence =
     evidence(''capability_id'' \<mapsto> JStr (pc_CapabilityID c), ''capability_state'' \<mapsto> JStr (pc_State c), ''updated_at'' \<mapsto> JStr stamp)"

definition step_of :: "Identity \<Rightarrow> string \<Rightarrow> 'f PodAttackStep \<Rightarrow> bool" where
  "step_of i stepID s \<longleftrightarrow> as_ClusterID s = id_ClusterID i \<and> as_PodUID s = id_ResourceUID i \<and> as_StepID s = stepID"

fun generate_steps :: "'f FloatOps \<Rightarrow> string \<Rightarrow> Identity \<Rightarrow> 'f PodCapability \<Rightarrow> string list \<Rightarrow> 'f CapDb \<Rightarrow> CapError option \<times> 'f CapDb" where
  "generate_steps F stamp i c [] db = (None, db)"
| "generate_steps F stamp i c (stepID # ids) db =
     (if cd_fails db ''step'' then (Some (CapQuery ''step''), db)
      else case find (step_of i stepID) (cd_steps db) of
        Some existing \<Rightarrow>
          if fl_gt F (pc_Confidence c) (as_Confidence existing) then
            (if cd_fails db ''saveStep'' then (Some (CapQuery ''saveStep''), db)
             else generate_steps F stamp i c ids
               (db\<lparr>cd_steps := map (\<lambda>s. if step_of i stepID s
                  then s\<lparr>as_Confidence := pc_Confidence c, as_Evidence := updateStepEvidence stamp c (as_Evidence s)\<rparr> else s) (cd_steps db)\<rparr>))
          else generate_steps F stamp i c ids db
      | None \<Rightarrow>
          if cd_fails db ''createStep'' then (Some (CapQuery ''createStep''), db)
          else generate_steps F stamp i c ids
            (db\<lparr>cd_steps := cd_steps db @
               [\<lparr>as_ClusterID = id_ClusterID i, as_PodUID = id_ResourceUID i, as_StepID = stepID, as_Category = getStepCategory stepID,
                 as_Confidence = pc_Confidence c, as_Description = getStepDescription stepID,
                 as_Evidence = [''capability_id'' \<mapsto> JStr (pc_CapabilityID c), ''capability_state'' \<mapsto> JStr (pc_State c),
                                ''generated_at'' \<mapsto> JStr stamp]\<rparr>]\<rparr>))"

definition generateStepsFromCapabilityForIdentity :: "'f FloatOps \<Rightarrow> string \<Rightarrow> Identity \<Rightarrow> 'f PodCapability \<Rightarrow> 'f CapDb \<Rightarrow> CapError option \<times> 'f CapDb" where
  "generateStepsFromCapabilityForIdentity F stamp i c db =
     (if cd_fails db ''metadata'' then (Some (CapQuery ''metadata''), db)
      else case find (\<lambda>m. cm_CapabilityID m = pc_CapabilityID c) (cd_metadata db) of
        None \<Rightarrow> (None, db)
      | Some m \<Rightarrow> if length (cm_ProducesAttackSteps m) = 0 then (None, db)
                  else generate_steps F stamp i c (cm_ProducesAttackSteps m) db)"

definition InferAttackStepsForIdentity :: "'f FloatOps \<Rightarrow> string \<Rightarrow> Identity \<Rightarrow> 'f CapDb \<Rightarrow> CapError option \<times> 'f CapDb" where
  "InferAttackStepsForIdentity F stamp i db = (case Identity_Validate i of
     Inl e \<Rightarrow> (Some (CapIdentity e), db)
   | Inr _ \<Rightarrow>
       if cd_fails db ''exploited'' then (Some (CapQuery ''exploited''), db)
       else (None, foldl (\<lambda>db c. snd (generateStepsFromCapabilityForIdentity F stamp i c db)) db
         (filter (\<lambda>c. pc_ClusterID c = id_ClusterID i \<and> pc_PodUID c = id_ResourceUID i \<and> pc_State c = ''exploited'') (cd_caps db))))"

subsection \<open>Promotion\<close>

definition stateOrder :: "string \<Rightarrow> nat" where
  "stateOrder s = (if s = ''detected'' then 1 else if s = ''confirmed'' then 2 else if s = ''exploited'' then 3
     else if s = ''chained'' then 4 else 0)"

definition current_order :: "string \<Rightarrow> nat" where
  "current_order s = (if stateOrder s = 0 then 1 else stateOrder s)"

text \<open>The rules of the signal in the order of the query, the greater target name first.\<close>

fun insert_desc :: "'f PromotionRule \<Rightarrow> 'f PromotionRule list \<Rightarrow> 'f PromotionRule list" where
  "insert_desc r [] = [r]"
| "insert_desc r (x # xs) = (if Compare (pl_PromoteTo r) (pl_PromoteTo x) > 0 then r # x # xs else x # insert_desc r xs)"

definition signal_rules :: "'f CapDb \<Rightarrow> string \<Rightarrow> string \<Rightarrow> 'f PromotionRule list" where
  "signal_rules db capabilityID signalType =
     foldl (\<lambda>rs r. insert_desc r rs) [] (filter (\<lambda>r. pl_CapabilityID r = capabilityID \<and> pl_SignalType r = signalType) (cd_rules db))"

definition signal_count :: "'f CapDb \<Rightarrow> Identity \<Rightarrow> string \<Rightarrow> int" where
  "signal_count db i signalType = sum_list (map rs_Count (filter (\<lambda>s. rs_ClusterID s = id_ClusterID i \<and> rs_PodUID s = id_ResourceUID i \<and>
     rs_SignalType s = signalType) (cd_signals db)))"

text \<open>The loop over the rules: the first of the applicable rules with the highest target.\<close>

fun best_rule :: "'f CapDb \<Rightarrow> Identity \<Rightarrow> nat \<Rightarrow> int \<Rightarrow> 'f PromotionRule option \<Rightarrow> 'f PromotionRule list
    \<Rightarrow> (CapError, 'f PromotionRule option) result" where
  "best_rule db i currentOrder signalCount best [] = Inr best"
| "best_rule db i currentOrder signalCount best (rule # rules) =
     (let targetOrder = stateOrder (pl_PromoteTo rule);
          better = (case best of None \<Rightarrow> True | Some b \<Rightarrow> targetOrder > stateOrder (pl_PromoteTo b));
          best' = (if better then Some rule else best)
      in if targetOrder \<le> currentOrder \<or> signalCount < pl_MinOccurrences rule
         then best_rule db i currentOrder signalCount best rules
         else if length (pl_RequiredCapabilities rule) > 0 then
           (if cd_fails db ''required'' then Inl (CapQuery ''required'')
            else if length (filter (\<lambda>c. pc_ClusterID c = id_ClusterID i \<and> pc_PodUID c = id_ResourceUID i \<and>
                      pc_CapabilityID c \<in> set (pl_RequiredCapabilities rule)) (cd_caps db)) < length (pl_RequiredCapabilities rule)
            then best_rule db i currentOrder signalCount best rules
            else best_rule db i currentOrder signalCount best' rules)
         else best_rule db i currentOrder signalCount best' rules)"

definition promoteCapabilityForIdentityTx :: "'f FloatOps \<Rightarrow> int \<Rightarrow> string \<Rightarrow> Identity \<Rightarrow> string \<Rightarrow> string \<Rightarrow> 'f \<Rightarrow> 'f CapDb
    \<Rightarrow> (CapError, bool) result \<times> 'f CapDb" where
  "promoteCapabilityForIdentityTx F now stamp i capabilityID signalType signalConfidence db =
     (if cd_fails db ''cap'' then (Inl (CapQuery ''cap''), db)
      else case find (cap_of i capabilityID) (cd_caps db) of
        None \<Rightarrow> (Inr False, db)
      | Some c \<Rightarrow>
          if cd_fails db ''rules'' then (Inl (CapQuery ''rules''), db)
          else
            let rules = signal_rules db capabilityID signalType
            in if length rules = 0 then (Inr False, db)
               else if cd_fails db ''signals'' then (Inl (CapQuery ''signals''), db)
               else case best_rule db i (current_order (pc_State c)) (signal_count db i signalType) None rules of
                 Inl e \<Rightarrow> (Inl e, db)
               | Inr None \<Rightarrow> (Inr False, db)
               | Inr (Some rule) \<Rightarrow>
                   let newConfidence = fl_add F (pc_Confidence c) (pl_ConfidenceBoost rule);
                       newConfidence = (if fl_gt F signalConfidence newConfidence then signalConfidence else newConfidence);
                       newConfidence = (if fl_gt F newConfidence (fl_one F) then fl_one F else newConfidence);
                       evidence = (case pc_Evidence c of None \<Rightarrow> Map.empty | Some m \<Rightarrow> m);
                       evidence = evidence(''promoted_by'' \<mapsto> JStr signalType, ''promoted_at'' \<mapsto> JStr stamp)
                   in if cd_fails db ''update'' then (Inl (CapQuery ''update''), db)
                      else
                        let db = db\<lparr>cd_caps := map (\<lambda>r. if pc_ID r = pc_ID c
                              then r\<lparr>pc_State := pl_PromoteTo rule, pc_LastSeenAt := now, pc_Confidence := newConfidence,
                                     pc_Evidence := Some evidence\<rparr> else r) (cd_caps db)\<rparr>;
                            db = (if pl_PromoteTo rule = ''exploited'' then snd (InferAttackStepsForIdentity F stamp i db) else db)
                        in (Inr True, db))"

definition ScheduleAttackPathRebuildForIdentity :: "Identity \<Rightarrow> 'f CapDb \<Rightarrow> 'f CapDb" where
  "ScheduleAttackPathRebuildForIdentity i db =
     (if Identity_Validate i \<noteq> Inr () then db else db\<lparr>cd_rebuilds := cd_rebuilds db @ [i]\<rparr>)"

definition PromoteCapabilityForIdentity :: "'f FloatOps \<Rightarrow> int \<Rightarrow> string \<Rightarrow> Identity \<Rightarrow> string \<Rightarrow> string \<Rightarrow> 'f \<Rightarrow> 'f CapDb
    \<Rightarrow> CapError option \<times> 'f CapDb" where
  "PromoteCapabilityForIdentity F now stamp i capabilityID signalType signalConfidence db = (case Identity_Validate i of
     Inl e \<Rightarrow> (Some (CapIdentity e), db)
   | Inr _ \<Rightarrow>
       (case promoteCapabilityForIdentityTx F now stamp i capabilityID signalType signalConfidence db of
          (Inl e, _) \<Rightarrow> (Some e, db)
        | (Inr promoted, db) \<Rightarrow> (None, if promoted then ScheduleAttackPathRebuildForIdentity i db else db)))"

definition PromoteCapabilityForIdentityTx :: "'f FloatOps \<Rightarrow> int \<Rightarrow> string \<Rightarrow> Identity \<Rightarrow> string \<Rightarrow> string \<Rightarrow> 'f \<Rightarrow> 'f CapDb option
    \<Rightarrow> (CapError, bool) result \<times> 'f CapDb option" where
  "PromoteCapabilityForIdentityTx F now stamp i capabilityID signalType signalConfidence csc = (case Identity_Validate i of
     Inl e \<Rightarrow> (Inl (CapIdentity e), csc)
   | Inr _ \<Rightarrow>
       (case csc of
          None \<Rightarrow> (Inl InvalidDB, None)
        | Some db \<Rightarrow> map_prod id Some (promoteCapabilityForIdentityTx F now stamp i capabilityID signalType signalConfidence db)))"

definition resolveUniquePodIdentity :: "'f CapDb \<Rightarrow> string \<Rightarrow> (CapError, Identity) result" where
  "resolveUniquePodIdentity db podUID =
     (if cd_fails db ''owners'' then Inl (CapQuery ''owners'')
      else
        let owners = remdups (map pod_ClusterID (filter (\<lambda>p. pod_UID p = podUID \<and> \<not> pod_Deleted p) (cd_pods db)))
        in if length owners \<noteq> 1 then Inl (NotUnique (length owners))
           else case New (owners ! 0) podUID of Inl e \<Rightarrow> Inl (CapIdentity e) | Inr i \<Rightarrow> Inr i)"

definition PromoteCapability :: "'f FloatOps \<Rightarrow> int \<Rightarrow> string \<Rightarrow> string \<Rightarrow> string \<Rightarrow> string \<Rightarrow> 'f \<Rightarrow> 'f CapDb \<Rightarrow> CapError option \<times> 'f CapDb" where
  "PromoteCapability F now stamp podUID capabilityID signalType signalConfidence db = (case resolveUniquePodIdentity db podUID of
     Inl e \<Rightarrow> (Some e, db)
   | Inr i \<Rightarrow> PromoteCapabilityForIdentity F now stamp i capabilityID signalType signalConfidence db)"

subsection \<open>Persistence of an evaluation\<close>

definition syncPodCapabilities :: "'f FloatOps \<Rightarrow> int \<Rightarrow> Pod \<Rightarrow> Capability list \<Rightarrow> 'f CapDb \<Rightarrow> CapError option \<times> 'f CapDb" where
  "syncPodCapabilities F now pod caps db = (case New (pod_ClusterID pod) (pod_UID pod) of
     Inl e \<Rightarrow> (Some (CapIdentity e), db)
   | Inr i \<Rightarrow>
       let db = foldl (\<lambda>db c. snd (InitializeCapabilityForIdentity F now i (pod_Namespace pod) (cap_ID c) (cap_Group c)
                  (cap_Severity c) (cap_Evidence c) db)) db caps;
           capIDs = map cap_ID caps;
           stale = (\<lambda>r. pc_ClusterID r = pod_ClusterID pod \<and> pc_PodUID r = pod_UID pod \<and>
                        (length capIDs > 0 \<longrightarrow> pc_CapabilityID r \<notin> set capIDs))
       in if cd_fails db ''deleteStale'' then (Some (CapQuery ''deleteStale''), db)
          else (None, db\<lparr>cd_caps := filter (\<lambda>r. \<not> stale r) (cd_caps db)\<rparr>))"

definition upsertPodRiskProfile :: "Pod \<Rightarrow> Capability list \<Rightarrow> 'f CapDb \<Rightarrow> CapError option \<times> 'f CapDb" where
  "upsertPodRiskProfile pod caps db =
     (let staticRisk = ComputeStaticRisk pod;
          capIDs = map cap_ID caps;
          profile = \<lparr>rp_ClusterID = pod_ClusterID pod, rp_PodUID = pod_UID pod, rp_Namespace = pod_Namespace pod, rp_StaticRisk = staticRisk,
                     rp_RuntimeScore = 0, rp_Capabilities = capIDs\<rparr>;
          same = (\<lambda>p. rp_ClusterID p = pod_ClusterID pod \<and> rp_PodUID p = pod_UID pod)
      in if cd_fails db ''profile'' then (Some (CapQuery ''profile''), db)
         else if list_ex same (cd_profiles db)
         then (None, db\<lparr>cd_profiles := map (\<lambda>p. if same p
                 then p\<lparr>rp_Namespace := pod_Namespace pod, rp_StaticRisk := staticRisk, rp_Capabilities := capIDs\<rparr> else p) (cd_profiles db)\<rparr>)
         else (None, db\<lparr>cd_profiles := cd_profiles db @ [profile]\<rparr>))"

definition insight_title :: "'f CapabilityMetadata option \<Rightarrow> Capability \<Rightarrow> string" where
  "insight_title md c = (case md of
     Some m \<Rightarrow> if TrimSpace (cm_Name m) \<noteq> [] then TrimSpace (cm_Name m) @ '' detected'' else ''Capability '' @ cap_ID c @ '' detected''
   | None \<Rightarrow> ''Capability '' @ cap_ID c @ '' detected'')"

text \<open>The insight of one capability; \<open>text_of\<close> is the JSON text of its evidence.\<close>

definition capability_insight :: "(EvidenceMap \<Rightarrow> string) \<Rightarrow> int \<Rightarrow> Pod \<Rightarrow> 'f CapabilityMetadata option \<Rightarrow> Capability \<Rightarrow> InsightRow" where
  "capability_insight text_of now pod md c =
     (let recommendation = (case md of
            Some m \<Rightarrow> (case cm_RecommendedMitigations m of
                r # _ \<Rightarrow> if TrimSpace r \<noteq> [] then TrimSpace r
                         else ''Review pod security context and harden configuration to remove unnecessary privileges.''
              | [] \<Rightarrow> ''Review pod security context and harden configuration to remove unnecessary privileges.'')
          | None \<Rightarrow> ''Review pod security context and harden configuration to remove unnecessary privileges.'');
          place = pod_Namespace pod @ ''/'' @ pod_Name pod;
          description = (case md of
            Some m \<Rightarrow> if TrimSpace (cm_Description m) \<noteq> [] then TrimSpace (cm_Description m) @ '' Detected on pod '' @ place @ ''.''
                      else ''Capability '' @ cap_ID c @ '' is detected on pod '' @ place @ ''.''
          | None \<Rightarrow> ''Capability '' @ cap_ID c @ '' is detected on pod '' @ place @ ''.'');
          fpMatch = (case md of Some m \<Rightarrow> matchFalsePositiveConsiderations pod (cm_FalsePositiveConsiderations m) | None \<Rightarrow> []);
          matchConfidence = (if fpMatch \<noteq> [] then ''LOW'' else ''HIGH'');
          description = (if fpMatch \<noteq> [] then description @ '' Note: '' @ fpMatch else description)
      in \<lparr>ri_ID = 0, ri_ClusterID = pod_ClusterID pod, ri_ResourceType = ''Pod'', ri_ResourceNamespace = pod_Namespace pod,
          ri_ResourceName = pod_Name pod, ri_ResourceUID = pod_UID pod, ri_InsightType = ''capability'',
          ri_Severity = ToLower (TrimSpace (cap_Severity c)), ri_Title = insight_title md c, ri_Description = description,
          ri_Recommendation = recommendation, ri_CVEID = cap_ID c, ri_AffectedComponent = cap_ID c, ri_AffectedVersion = [],
          ri_FixedVersion = [], ri_CVSS = 0, ri_Evidence = RawText (text_of (cap_Evidence c)), ri_ViolatedRules = RawText ''[]'',
          ri_RiskExplanation = [], ri_Remediation = [], ri_MatchConfidence = matchConfidence, ri_ComponentConfidence = [],
          ri_SBOMConfidence = [], ri_FinalRiskConfidence = matchConfidence, ri_Degraded = False, ri_Status = ''active'',
          ri_Sensitivity = [], ri_AssigneeUserID = None, ri_DetectedAt = Some now, ri_ResolvedAt = None, ri_UpdatedAt = now,
          ri_DeletedAt = None\<rparr>)"

fun write_insights :: "(EvidenceMap \<Rightarrow> string) \<Rightarrow> int \<Rightarrow> Pod \<Rightarrow> (string \<Rightarrow> 'f CapabilityMetadata option) \<Rightarrow> Capability list \<Rightarrow> InsightStore
    \<Rightarrow> CapError option \<times> InsightStore" where
  "write_insights text_of now pod md [] s = (None, s)"
| "write_insights text_of now pod md (c # cs) s =
     (case CreateOrUpdatePodInsight now [] (Some (capability_insight text_of now pod (md (cap_ID c)) c)) (Some s) of
        (Some e, s') \<Rightarrow> (Some (CapInsight e), the s')
      | (None, s') \<Rightarrow> write_insights text_of now pod md cs (the s'))"

definition syncCapabilityInsights :: "(EvidenceMap \<Rightarrow> string) \<Rightarrow> int \<Rightarrow> Pod \<Rightarrow> Capability list \<Rightarrow> 'f CapDb \<Rightarrow> CapError option \<times> 'f CapDb" where
  "syncCapabilityInsights text_of now pod caps db =
     (if length caps > 0 \<and> cd_fails db ''metadata'' then (Some (CapQuery ''metadata''), db)
      else
        let md = (\<lambda>cid. find (\<lambda>m. cm_CapabilityID m = cid) (cd_metadata db));
            activeTitles = map (\<lambda>c. insight_title (md (cap_ID c)) c) caps
        in case write_insights text_of now pod md caps (cd_insights db) of
             (Some e, s) \<Rightarrow> (Some e, db\<lparr>cd_insights := s\<rparr>)
           | (None, s) \<Rightarrow>
               if cd_fails db ''resolve'' then (Some (CapQuery ''resolve''), db\<lparr>cd_insights := s\<rparr>)
               else (None, db\<lparr>cd_insights := s\<lparr>is_rows := map (\<lambda>r.
                  if ri_ClusterID r = pod_ClusterID pod \<and> ri_ResourceUID r = pod_UID pod \<and> ri_InsightType r = ''capability'' \<and>
                     ri_DeletedAt r = None \<and> ri_Status r = ''active'' \<and> (length activeTitles > 0 \<longrightarrow> ri_Title r \<notin> set activeTitles)
                  then r\<lparr>ri_Status := ''resolved'', ri_UpdatedAt := now\<rparr> else r) (is_rows s)\<rparr>\<rparr>))"

text \<open>
  \<open>others\<close> and \<open>later\<close> are what other writers do to the database while the pod is evaluated and before its hash is
  stored. \<open>store_evaluation\<close> is the second half of \<open>EvaluateAndUpsertPod\<close>, from the first write on.
\<close>

definition store_evaluation :: "'f FloatOps \<Rightarrow> (EvidenceMap \<Rightarrow> string) \<Rightarrow> ('f CapDb \<Rightarrow> 'f CapDb) \<Rightarrow> int \<Rightarrow> Identity \<Rightarrow> Pod \<Rightarrow> Capability list
    \<Rightarrow> string \<Rightarrow> 'f CapDb \<Rightarrow> CapError option \<times> 'f CapDb" where
  "store_evaluation F text_of later now i pod caps expectedSpecHash db =
     (case syncPodCapabilities F now pod caps db of
        (Some e, db) \<Rightarrow> (Some e, db)
      | (None, db) \<Rightarrow>
          (case upsertPodRiskProfile pod caps db of
             (Some e, db) \<Rightarrow> (Some e, db)
           | (None, db) \<Rightarrow>
               (case syncCapabilityInsights text_of now pod caps db of
                  (Some e, db) \<Rightarrow> (Some e, db)
                | (None, db) \<Rightarrow>
                    let db = later (ScheduleAttackPathRebuildForIdentity i db)
                    in (None,
                      if expectedSpecHash \<noteq> [] then
                        db\<lparr>cd_pods := map (\<lambda>p. if pod_ClusterID p = pod_ClusterID pod \<and> pod_UID p = pod_UID pod \<and>
                             pod_SpecHash p = expectedSpecHash \<and> \<not> pod_Deleted p
                             then p\<lparr>pod_LastEvaluatedHash := expectedSpecHash\<rparr> else p) (cd_pods db)\<rparr>
                      else db))))"

definition EvaluateAndUpsertPod :: "'f FloatOps \<Rightarrow> (EvidenceMap \<Rightarrow> string) \<Rightarrow> ('f CapDb \<Rightarrow> 'f CapDb) \<Rightarrow> ('f CapDb \<Rightarrow> 'f CapDb) \<Rightarrow> int
    \<Rightarrow> Pod \<Rightarrow> string \<Rightarrow> 'f CapDb \<Rightarrow> CapError option \<times> 'f CapDb" where
  "EvaluateAndUpsertPod F text_of others later now pod expectedSpecHash db0 =
     (if expectedSpecHash \<noteq> [] \<and> pod_SpecHash pod \<noteq> expectedSpecHash then (None, db0)
      else case New (pod_ClusterID pod) (pod_UID pod) of
        Inl e \<Rightarrow> (Some (CapIdentity e), db0)
      | Inr i \<Rightarrow>
          let isActive = (case cd_instances db0 of
                Some ins \<Rightarrow> length (filter (\<lambda>n. pn_ClusterID n = id_ClusterID i \<and> pn_PodUID n = id_ResourceUID i \<and> pn_Status n = ''active'') ins) > 0
              | None \<Rightarrow> \<not> pod_Deleted pod)
          in if \<not> isActive then (None, db0)
             else case EvaluatePod (cd_rbac db0) pod of
               Inl e \<Rightarrow> (Some (CapQuery e), db0)
             | Inr caps \<Rightarrow>
                 let db = others db0
                 in if expectedSpecHash \<noteq> [] then
                      (if cd_fails db ''pod'' then (Some (CapQuery ''pod''), db)
                       else case find (\<lambda>p. pod_ClusterID p = pod_ClusterID pod \<and> pod_UID p = pod_UID pod \<and> \<not> pod_Deleted p) (cd_pods db) of
                         None \<Rightarrow> (Some (CapQuery ''pod''), db)
                       | Some current \<Rightarrow>
                           if pod_SpecHash current \<noteq> expectedSpecHash then (None, db)
                           else store_evaluation F text_of later now i current caps expectedSpecHash db)
                    else store_evaluation F text_of later now i pod caps expectedSpecHash db)"

definition EvaluateAllPods :: "'f FloatOps \<Rightarrow> (EvidenceMap \<Rightarrow> string) \<Rightarrow> int \<Rightarrow> 'f CapDb \<Rightarrow> CapError option \<times> 'f CapDb" where
  "EvaluateAllPods F text_of now db =
     (if cd_fails db ''pods'' then (Some (CapQuery ''pods''), db)
      else
        let pods = filter (\<lambda>p. \<not> pod_Deleted p \<and> (case cd_instances db of
              Some ins \<Rightarrow> list_ex (\<lambda>n. pn_ClusterID n = pod_ClusterID p \<and> pn_PodUID n = pod_UID p \<and> pn_Status n = ''active'') ins
            | None \<Rightarrow> True)) (cd_pods db)
        in (None, foldl (\<lambda>db pod. snd (EvaluateAndUpsertPod F text_of id id now pod [] db)) db pods))"

subsection \<open>Choice of a promotion rule\<close>

definition applicable :: "'f CapDb \<Rightarrow> Identity \<Rightarrow> nat \<Rightarrow> int \<Rightarrow> 'f PromotionRule \<Rightarrow> bool" where
  "applicable db i currentOrder signalCount r \<longleftrightarrow>
     currentOrder < stateOrder (pl_PromoteTo r) \<and> pl_MinOccurrences r \<le> signalCount \<and>
     (pl_RequiredCapabilities r \<noteq> [] \<longrightarrow> length (pl_RequiredCapabilities r) \<le>
        length (filter (\<lambda>c. pc_ClusterID c = id_ClusterID i \<and> pc_PodUID c = id_ResourceUID i \<and> pc_CapabilityID c \<in> set (pl_RequiredCapabilities r)) (cd_caps db)))"

lemma set_insert_desc [simp]: "set (insert_desc r xs) = insert r (set xs)"
  by (induction xs) auto

lemma set_signal_rules: "set (signal_rules db c t) = {r \<in> set (cd_rules db). pl_CapabilityID r = c \<and> pl_SignalType r = t}"
proof -
  have "set (foldl (\<lambda>rs r. insert_desc r rs) acc xs) = set acc \<union> set xs" for acc xs :: "'a PromotionRule list"
    by (induction xs arbitrary: acc) auto
  then show ?thesis by (auto simp: signal_rules_def)
qed

lemma best_rule_step:
  "best_rule db i cur n best (r # rs) = Inr res \<Longrightarrow>
     best_rule db i cur n (if applicable db i cur n r \<and> (case best of None \<Rightarrow> True | Some b \<Rightarrow> stateOrder (pl_PromoteTo r) > stateOrder (pl_PromoteTo b))
       then Some r else best) rs = Inr res"
  by (auto simp: Let_def applicable_def split: if_splits)

text \<open>The chosen rule is applicable, of the highest target, and none is chosen only if none applies.\<close>

lemma best_rule_correct:
  assumes "best_rule db i cur n best rs = Inr res" and "\<forall>b. best = Some b \<longrightarrow> applicable db i cur n b"
  shows "case res of
      None \<Rightarrow> best = None \<and> (\<forall>r \<in> set rs. \<not> applicable db i cur n r)
    | Some b \<Rightarrow> applicable db i cur n b \<and> (b \<in> set rs \<or> best = Some b) \<and>
        (\<forall>r \<in> set rs \<union> set_option best. applicable db i cur n r \<longrightarrow> stateOrder (pl_PromoteTo r) \<le> stateOrder (pl_PromoteTo b))"
  using assms
proof (induction rs arbitrary: best)
  case Nil
  then show ?case by (auto split: option.split)
next
  case (Cons r rs)
  show ?case
    using Cons.IH [OF best_rule_step [OF Cons.prems(1)]] Cons.prems(2)
    by (cases best; cases "applicable db i cur n r"; cases res) (fastforce split: if_splits)+
qed

subsection \<open>Keys and states of the capability rows\<close>

definition caps_ok :: "'f PodCapability list \<Rightarrow> bool" where
  "caps_ok caps \<longleftrightarrow> distinct (map (\<lambda>c. (pc_ClusterID c, pc_PodUID c, pc_CapabilityID c)) caps) \<and> distinct (map pc_ID caps)"

definition row_advances :: "'f PodCapability \<Rightarrow> 'f PodCapability \<Rightarrow> bool" where
  "row_advances c c' \<longleftrightarrow> pc_ID c' = pc_ID c \<and> pc_ClusterID c' = pc_ClusterID c \<and> pc_PodUID c' = pc_PodUID c \<and>
     pc_CapabilityID c' = pc_CapabilityID c \<and> current_order (pc_State c) \<le> current_order (pc_State c')"

definition caps_advance :: "'f CapDb \<Rightarrow> 'f CapDb \<Rightarrow> bool" where
  "caps_advance db db' \<longleftrightarrow> length (cd_caps db) \<le> length (cd_caps db') \<and>
     (\<forall>i < length (cd_caps db). row_advances (cd_caps db ! i) (cd_caps db' ! i))"

inductive cap_step :: "'f FloatOps \<Rightarrow> 'f CapDb \<Rightarrow> 'f CapDb \<Rightarrow> bool" for F db where
  initialize: "cap_step F db (snd (InitializeCapabilityForIdentity F now i ns cid g sev ev db))"
| promote: "cap_step F db (snd (PromoteCapabilityForIdentity F now stamp i cid sig conf db))"
| by_uid: "cap_step F db (snd (PromoteCapability F now stamp uid cid sig conf db))"

lemma row_advances_refl [simp]: "row_advances c c"
  by (simp add: row_advances_def)

lemma row_advances_trans: "row_advances a b \<Longrightarrow> row_advances b c \<Longrightarrow> row_advances a c"
  by (auto simp: row_advances_def)

lemma caps_advance_refl [simp]: "caps_advance db db"
  by (simp add: caps_advance_def)

lemma caps_advance_trans: "caps_advance a b \<Longrightarrow> caps_advance b c \<Longrightarrow> caps_advance a c"
  unfolding caps_advance_def by (auto intro: row_advances_trans dest: order.strict_trans2)

lemma caps_advance_map:
  "(\<And>c. c \<in> set (cd_caps db) \<Longrightarrow> row_advances c (f c)) \<Longrightarrow> cd_caps db' = map f (cd_caps db) \<Longrightarrow> caps_advance db db'"
  by (simp add: caps_advance_def)

lemma caps_ok_map:
  assumes "\<And>c. c \<in> set caps \<Longrightarrow> row_advances c (f c)" and "caps_ok caps"
  shows "caps_ok (map f caps)"
proof -
  have "map (\<lambda>c. (pc_ClusterID c, pc_PodUID c, pc_CapabilityID c)) (map f caps) = map (\<lambda>c. (pc_ClusterID c, pc_PodUID c, pc_CapabilityID c)) caps"
    "map pc_ID (map f caps) = map pc_ID caps"
    using assms(1) by (auto simp: row_advances_def)
  with assms(2) show ?thesis by (simp only: caps_ok_def)
qed

lemma fresh_cap_id_notin: "fresh_cap_id caps \<notin> pc_ID ` set caps"
proof -
  have "x \<in> set xs \<Longrightarrow> x \<le> foldr max xs (0 :: nat)" for x xs by (induction xs) auto
  from this [of _ "map pc_ID caps"] have "\<forall>c \<in> set caps. pc_ID c < fresh_cap_id caps"
    by (auto simp: fresh_cap_id_def less_Suc_eq_le)
  then show ?thesis by auto
qed

end
