(* ===== verification/Capability_Lifecycle.thy ===== *)
theory Capability_Lifecycle
  imports Capability_State
begin

section \<open>Capabilities over time\<close>

text \<open>
  What the operations of \<open>Capability_State\<close> guarantee: states only advance and promotions are justified, an evaluation
  stores exactly what the pod exhibits and never a stale result, and the findings of a pod follow its capabilities. The locale
  \<open>step_history\<close> carries the first to sequences of operations.
\<close>

subsection \<open>Promotion\<close>

lemma generate_steps_caps [simp]: "cd_caps (snd (generate_steps F stamp i c ids db)) = cd_caps db"
  by (induction F stamp i c ids db rule: generate_steps.induct) (auto split: option.splits)

lemma infer_caps [simp]: "cd_caps (snd (InferAttackStepsForIdentity F stamp i db)) = cd_caps db"
proof -
  have "cd_caps (foldl (\<lambda>db c. snd (generateStepsFromCapabilityForIdentity F stamp i c db)) db cs) = cd_caps db" for cs db
    by (induction cs arbitrary: db) (auto simp: generateStepsFromCapabilityForIdentity_def split: option.splits)
  then show ?thesis by (simp add: InferAttackStepsForIdentity_def split: sum.split)
qed

lemma schedule_caps [simp]: "cd_caps (ScheduleAttackPathRebuildForIdentity i db) = cd_caps db"
  by (simp add: ScheduleAttackPathRebuildForIdentity_def)

text \<open>What a promotion does: nothing to the capabilities, or one row of the identity moves up by an applicable rule.\<close>

lemma promoteTx_cases:
  assumes "promoteCapabilityForIdentityTx F now stamp i cid sig conf db = (res, db')"
  obtains (unchanged) "db' = db" "res \<noteq> Inr True"
  | (promoted) c rule newConf ev where "res = Inr True" "find (cap_of i cid) (cd_caps db) = Some c"
      "best_rule db i (current_order (pc_State c)) (signal_count db i sig) None (signal_rules db cid sig) = Inr (Some rule)"
      "newConf = fl_one F \<or> \<not> fl_gt F newConf (fl_one F)"
      "cd_caps db' = map (\<lambda>r. if pc_ID r = pc_ID c
         then r\<lparr>pc_State := pl_PromoteTo rule, pc_LastSeenAt := now, pc_Confidence := newConf, pc_Evidence := Some ev\<rparr> else r) (cd_caps db)"
proof (cases "find (cap_of i cid) (cd_caps db)")
  case None
  with assms that(1) show thesis by (auto simp: promoteCapabilityForIdentityTx_def split: if_splits)
next
  case (Some c)
  show thesis
  proof (cases "best_rule db i (current_order (pc_State c)) (signal_count db i sig) None (signal_rules db cid sig)")
    case (Inl e)
    with assms Some that(1) show thesis by (auto simp: promoteCapabilityForIdentityTx_def Let_def split: if_splits)
  next
    case (Inr b)
    show thesis
    proof (cases b)
      case None
      with assms Some Inr that(1) show thesis by (auto simp: promoteCapabilityForIdentityTx_def Let_def split: if_splits)
    next
      case b: (Some rule)
      show thesis
      proof (cases "res = Inr True")
        case True
        have nf: "\<not> cd_fails db ''cap''" "\<not> cd_fails db ''rules''" "\<not> cd_fails db ''signals''" "\<not> cd_fails db ''update''" "signal_rules db cid sig \<noteq> []"
          using assms True Some Inr b by (simp_all add: promoteCapabilityForIdentityTx_def Let_def split: if_split_asm)
        define nc where "nc = (if fl_gt F conf (fl_add F (pc_Confidence c) (pl_ConfidenceBoost rule)) then conf
          else fl_add F (pc_Confidence c) (pl_ConfidenceBoost rule))"
        let ?ev = "(case pc_Evidence c of None \<Rightarrow> Map.empty | Some m \<Rightarrow> m)(''promoted_by'' \<mapsto> JStr sig, ''promoted_at'' \<mapsto> JStr stamp)"
        let ?db = "db\<lparr>cd_caps := map (\<lambda>r. if pc_ID r = pc_ID c
            then r\<lparr>pc_State := pl_PromoteTo rule, pc_LastSeenAt := now, pc_Confidence := if fl_gt F nc (fl_one F) then fl_one F else nc,
              pc_Evidence := Some ?ev\<rparr> else r) (cd_caps db)\<rparr>"
        have "(if pl_PromoteTo rule = ''exploited'' then snd (InferAttackStepsForIdentity F stamp i ?db) else ?db) = db'"
          using assms [unfolded promoteCapabilityForIdentityTx_def Let_def] Some Inr b nf unfolding nc_def by simp
        then have "cd_caps db' = cd_caps ?db" by auto
        then have "cd_caps db' = map (\<lambda>r. if pc_ID r = pc_ID c
            then r\<lparr>pc_State := pl_PromoteTo rule, pc_LastSeenAt := now, pc_Confidence := if fl_gt F nc (fl_one F) then fl_one F else nc,
              pc_Evidence := Some ?ev\<rparr> else r) (cd_caps db)" by simp
        from that(2) [OF True Some _ _ this] Inr b show thesis by auto
      next
        case False
        with assms Some Inr b that(1) show thesis by (auto simp: promoteCapabilityForIdentityTx_def Let_def split: if_splits)
      qed
    qed
  qed
qed

lemma promoted_rule:
  assumes "best_rule db i (current_order (pc_State c)) n None (signal_rules db cid sig) = Inr (Some rule)"
  shows "applicable db i (current_order (pc_State c)) n rule \<and> rule \<in> set (cd_rules db) \<and> pl_CapabilityID rule = cid \<and> pl_SignalType rule = sig \<and>
    (\<forall>r \<in> set (cd_rules db). pl_CapabilityID r = cid \<and> pl_SignalType r = sig \<and> applicable db i (current_order (pc_State c)) n r \<longrightarrow>
       stateOrder (pl_PromoteTo r) \<le> stateOrder (pl_PromoteTo rule))"
  using best_rule_correct [OF assms] by (auto simp: set_signal_rules)

lemma promoteTx_keeps:
  assumes "promoteCapabilityForIdentityTx F now stamp i cid sig conf db = (res, db')" and "caps_ok (cd_caps db)"
  shows "caps_ok (cd_caps db') \<and> caps_advance db db'"
  using assms(1)
proof (cases rule: promoteTx_cases)
  case (promoted c rule newConf ev)
  have c: "c \<in> set (cd_caps db)" using promoted(2) by (auto simp: find_Some_iff)
  have "current_order (pc_State c) < stateOrder (pl_PromoteTo rule)"
    using promoted_rule [OF promoted(3)] by (simp add: applicable_def)
  then have "row_advances r (if pc_ID r = pc_ID c
       then r\<lparr>pc_State := pl_PromoteTo rule, pc_LastSeenAt := now, pc_Confidence := newConf, pc_Evidence := Some ev\<rparr> else r)"
    if "r \<in> set (cd_caps db)" for r
  proof -
    have "pc_ID r = pc_ID c \<Longrightarrow> r = c" using assms(2) c that by (auto simp: caps_ok_def distinct_map inj_on_def)
    with \<open>current_order (pc_State c) < stateOrder (pl_PromoteTo rule)\<close> show ?thesis
      by (auto simp: row_advances_def current_order_def)
  qed
  then show ?thesis using assms(2) caps_advance_map [OF _ promoted(5)] by (simp add: promoted(5) caps_ok_map)
qed (use assms in auto)

lemma initialize_keeps:
  assumes "caps_ok (cd_caps db)"
  shows "caps_ok (cd_caps (snd (InitializeCapabilityForIdentity F now i ns cid g sev ev db))) \<and>
    caps_advance db (snd (InitializeCapabilityForIdentity F now i ns cid g sev ev db))"
proof -
  obtain conf sv where cs: "(case metadata_of db cid of None \<Rightarrow> (fl_half F, sev)
      | Some m \<Rightarrow> (cm_ConfidenceBase m, if sev = [] then cm_SeverityBase m else sev)) = (conf, sv)" by fastforce
  let ?f = "\<lambda>c. if cap_of i cid c then c\<lparr>pc_CapabilityGroup := g, pc_Severity := sv, pc_Evidence := Some ev, pc_LastSeenAt := now\<rparr> else c"
  have adv: "row_advances c (?f c)" for c by (simp add: row_advances_def)
  have m: "caps_ok (map ?f (cd_caps db))" by (rule caps_ok_map [OF adv assms])
  have m': "caps_advance db (db\<lparr>cd_caps := map ?f (cd_caps db)\<rparr>)" by (rule caps_advance_map [OF adv]) simp
  have "caps_ok (cd_caps db @ [row])" if "\<not> list_ex (cap_of i cid) (cd_caps db)" "pc_ID row = fresh_cap_id (cd_caps db)"
    "pc_ClusterID row = id_ClusterID i" "pc_PodUID row = id_ResourceUID i" "pc_CapabilityID row = cid" for row
    using assms that fresh_cap_id_notin [of "cd_caps db"] by (auto simp: caps_ok_def list_ex_iff cap_of_def)
  with assms m m' show ?thesis
    unfolding InitializeCapabilityForIdentity_def Let_def cs
    by (auto simp: caps_advance_def nth_append split: sum.split)
qed

lemma promote_keeps:
  assumes "caps_ok (cd_caps db)"
  shows "caps_ok (cd_caps (snd (PromoteCapabilityForIdentity F now stamp i cid sig conf db))) \<and>
    caps_advance db (snd (PromoteCapabilityForIdentity F now stamp i cid sig conf db))"
proof -
  obtain res db' where e: "promoteCapabilityForIdentityTx F now stamp i cid sig conf db = (res, db')" by fastforce
  from promoteTx_keeps [OF e assms] assms show ?thesis
    by (auto simp: PromoteCapabilityForIdentity_def e caps_advance_def split: sum.split)
qed

lemma cap_step_keeps: "cap_step F db db' \<Longrightarrow> caps_ok (cd_caps db) \<Longrightarrow> caps_ok (cd_caps db') \<and> caps_advance db db'"
  by (induction rule: cap_step.induct)
    (auto simp: initialize_keeps promote_keeps PromoteCapability_def split: sum.split)

interpretation capabilities: step_history "cap_step F" "\<lambda>db. caps_ok (cd_caps db)" caps_advance for F
  by unfold_locales (auto dest: cap_step_keeps intro: caps_advance_trans)

subsection \<open>Storing an evaluation\<close>

definition cap_ids :: "string \<Rightarrow> string \<Rightarrow> 'f CapDb \<Rightarrow> string set" where
  "cap_ids cluster uid db = pc_CapabilityID ` {c \<in> set (cd_caps db). pc_ClusterID c = cluster \<and> pc_PodUID c = uid}"

lemma cap_ids_map:
  assumes "cd_caps db' = map f (cd_caps db)"
    and "\<And>c. pc_CapabilityID (f c) = pc_CapabilityID c \<and> pc_ClusterID (f c) = pc_ClusterID c \<and> pc_PodUID (f c) = pc_PodUID c"
  shows "cap_ids cluster uid db' = cap_ids cluster uid db"
proof -
  have "{c \<in> set (cd_caps db'). pc_ClusterID c = cluster \<and> pc_PodUID c = uid} = f ` {c \<in> set (cd_caps db). pc_ClusterID c = cluster \<and> pc_PodUID c = uid}"
    using assms by auto
  then show ?thesis using assms(2) by (simp add: cap_ids_def image_image)
qed

lemma cap_ids_filter:
  "cd_caps db' = filter (\<lambda>r. \<not> (pc_ClusterID r = cluster \<and> pc_PodUID r = uid \<and> (b \<longrightarrow> pc_CapabilityID r \<notin> K))) (cd_caps db) \<Longrightarrow>
   cap_ids cluster uid db' = (if b then cap_ids cluster uid db \<inter> K else {})"
  by (auto simp: cap_ids_def)

lemma cap_ids_snoc:
  assumes "cd_caps db' = cd_caps db @ [r]" and "pc_ClusterID r = cluster" and "pc_PodUID r = uid"
  shows "cap_ids cluster uid db' = insert (pc_CapabilityID r) (cap_ids cluster uid db)"
proof -
  have "{c \<in> set (cd_caps db'). pc_ClusterID c = cluster \<and> pc_PodUID c = uid} =
      insert r {c \<in> set (cd_caps db). pc_ClusterID c = cluster \<and> pc_PodUID c = uid}"
    using assms by auto
  then show ?thesis by (simp add: cap_ids_def)
qed

lemma initialize_fails [simp]: "cd_fails (snd (InitializeCapabilityForIdentity F now i ns cid g sev ev db)) = cd_fails db"
  by (auto simp: InitializeCapabilityForIdentity_def Let_def split: sum.split option.split)

lemma initialize_ids:
  assumes "Identity_Validate i = Inr ()" and "\<not> cd_fails db ''create''"
  shows "cap_ids (id_ClusterID i) (id_ResourceUID i) (snd (InitializeCapabilityForIdentity F now i ns cid g sev ev db)) =
    insert cid (cap_ids (id_ClusterID i) (id_ResourceUID i) db)"
proof -
  obtain conf sv where cs: "(case metadata_of db cid of None \<Rightarrow> (fl_half F, sev)
      | Some m \<Rightarrow> (cm_ConfidenceBase m, if sev = [] then cm_SeverityBase m else sev)) = (conf, sv)" by fastforce
  show ?thesis
  proof (cases "list_ex (cap_of i cid) (cd_caps db)")
    case True
    let ?f = "\<lambda>c. if cap_of i cid c then c\<lparr>pc_CapabilityGroup := g, pc_Severity := sv, pc_Evidence := Some ev, pc_LastSeenAt := now\<rparr> else c"
    have f: "pc_CapabilityID (?f c) = pc_CapabilityID c" "pc_ClusterID (?f c) = pc_ClusterID c" "pc_PodUID (?f c) = pc_PodUID c" for c by simp_all
    have "cd_caps (snd (InitializeCapabilityForIdentity F now i ns cid g sev ev db)) = map ?f (cd_caps db)"
      using True assms by (simp add: InitializeCapabilityForIdentity_def Let_def cs)
    moreover have "cid \<in> cap_ids (id_ClusterID i) (id_ResourceUID i) db"
      using True by (force simp: list_ex_iff cap_of_def cap_ids_def)
    ultimately show ?thesis using cap_ids_map [of _ ?f db] f by (simp add: insert_absorb)
  next
    case False
    with assms show ?thesis by (subst cap_ids_snoc [of _ db]) (auto simp: InitializeCapabilityForIdentity_def Let_def cs)
  qed
qed

lemma initialize_all_ids:
  "Identity_Validate i = Inr () \<Longrightarrow> \<not> cd_fails db ''create'' \<Longrightarrow>
   cap_ids (id_ClusterID i) (id_ResourceUID i) (foldl (\<lambda>db c. snd (InitializeCapabilityForIdentity F now i ns (cap_ID c) (cap_Group c)
     (cap_Severity c) (cap_Evidence c) db)) db caps) = cap_ids (id_ClusterID i) (id_ResourceUID i) db \<union> cap_ID ` set caps"
  by (induction caps arbitrary: db) (auto simp: initialize_ids)

text \<open>If the rows cannot be written the capabilities stay as they are.\<close>

lemma initialize_all_failing:
  "cd_fails db ''create'' \<Longrightarrow> foldl (\<lambda>db c. snd (InitializeCapabilityForIdentity F now i ns (cap_ID c) (cap_Group c)
     (cap_Severity c) (cap_Evidence c) db)) db caps = db"
  by (induction caps) (auto simp: InitializeCapabilityForIdentity_def Let_def split: sum.split option.split)

definition of_pod :: "string \<Rightarrow> string \<Rightarrow> 'f PodCapability \<Rightarrow> bool" where
  "of_pod cluster uid c \<longleftrightarrow> pc_ClusterID c = cluster \<and> pc_PodUID c = uid"

lemma initialize_others:
  "filter (\<lambda>c. \<not> of_pod (id_ClusterID i) (id_ResourceUID i) c)
     (cd_caps (snd (InitializeCapabilityForIdentity F now i ns cid g sev ev db))) =
   filter (\<lambda>c. \<not> of_pod (id_ClusterID i) (id_ResourceUID i) c) (cd_caps db)"
proof -
  let ?f = "\<lambda>sv c. if cap_of i cid c then c\<lparr>pc_CapabilityGroup := g, pc_Severity := sv, pc_Evidence := Some ev, pc_LastSeenAt := now\<rparr> else c"
  have "filter (\<lambda>c. \<not> of_pod (id_ClusterID i) (id_ResourceUID i) c) (map (?f sv) cs) =
      filter (\<lambda>c. \<not> of_pod (id_ClusterID i) (id_ResourceUID i) c) cs" for sv cs
    by (induction cs) (auto simp: cap_of_def of_pod_def)
  then show ?thesis
    by (auto simp: InitializeCapabilityForIdentity_def of_pod_def Let_def split: sum.split option.split)
qed

lemma initialize_all_others:
  "filter (\<lambda>c. \<not> of_pod (id_ClusterID i) (id_ResourceUID i) c)
     (cd_caps (foldl (\<lambda>db c. snd (InitializeCapabilityForIdentity F now i ns (cap_ID c) (cap_Group c)
        (cap_Severity c) (cap_Evidence c) db)) db caps)) =
   filter (\<lambda>c. \<not> of_pod (id_ClusterID i) (id_ResourceUID i) c) (cd_caps db)"
  by (induction caps arbitrary: db) (simp_all add: initialize_others)

lemma syncPodCapabilities_ids:
  assumes "syncPodCapabilities F now pod caps db = (None, db')"
  shows "cap_ids (pod_ClusterID pod) (pod_UID pod) db' =
      (if cd_fails db ''create'' then cap_ids (pod_ClusterID pod) (pod_UID pod) db else UNIV) \<inter> cap_ID ` set caps"
    and "filter (\<lambda>c. \<not> of_pod (pod_ClusterID pod) (pod_UID pod) c) (cd_caps db') =
      filter (\<lambda>c. \<not> of_pod (pod_ClusterID pod) (pod_UID pod) c) (cd_caps db)"
proof -
  from assms(1) obtain i where i: "New (pod_ClusterID pod) (pod_UID pod) = Inr i"
    by (auto simp: syncPodCapabilities_def split: sum.splits)
  then have v: "Identity_Validate i = Inr ()" "id_ClusterID i = pod_ClusterID pod" "id_ResourceUID i = pod_UID pod"
    unfolding New_Inr_iff by auto
  let ?db = "foldl (\<lambda>db c. snd (InitializeCapabilityForIdentity F now i (pod_Namespace pod) (cap_ID c) (cap_Group c)
     (cap_Severity c) (cap_Evidence c) db)) db caps"
  let ?stale = "\<lambda>r. pc_ClusterID r = pod_ClusterID pod \<and> pc_PodUID r = pod_UID pod \<and> (caps \<noteq> [] \<longrightarrow> pc_CapabilityID r \<notin> cap_ID ` set caps)"
  have caps: "cd_caps db' = filter (\<lambda>r. \<not> ?stale r) (cd_caps ?db)"
    using assms(1) i by (auto simp: syncPodCapabilities_def Let_def split: if_splits)
  have "cap_ids (pod_ClusterID pod) (pod_UID pod) ?db = cap_ids (pod_ClusterID pod) (pod_UID pod) db
      \<union> (if cd_fails db ''create'' then {} else cap_ID ` set caps)"
    using initialize_all_ids [OF v(1), of db] v(2,3) by (cases "cd_fails db ''create''") (simp_all add: initialize_all_failing)
  with caps show "cap_ids (pod_ClusterID pod) (pod_UID pod) db' =
      (if cd_fails db ''create'' then cap_ids (pod_ClusterID pod) (pod_UID pod) db else UNIV) \<inter> cap_ID ` set caps"
    using cap_ids_filter [of db' "pod_ClusterID pod" "pod_UID pod" "caps \<noteq> []" "cap_ID ` set caps" ?db] by auto
  have "filter (\<lambda>c. \<not> of_pod (pod_ClusterID pod) (pod_UID pod) c) (cd_caps db') =
      filter (\<lambda>c. \<not> of_pod (pod_ClusterID pod) (pod_UID pod) c) (cd_caps ?db)"
    unfolding caps filter_filter by (rule filter_cong) (auto simp: of_pod_def)
  also have "\<dots> = filter (\<lambda>c. \<not> of_pod (pod_ClusterID pod) (pod_UID pod) c) (cd_caps db)"
    using initialize_all_others [where i = i] v(2,3) by simp
  finally show "filter (\<lambda>c. \<not> of_pod (pod_ClusterID pod) (pod_UID pod) c) (cd_caps db') =
      filter (\<lambda>c. \<not> of_pod (pod_ClusterID pod) (pod_UID pod) c) (cd_caps db)" .
qed

lemma profile_caps: "upsertPodRiskProfile pod caps db = (e, db') \<Longrightarrow> cd_caps db' = cd_caps db"
  by (auto simp: upsertPodRiskProfile_def Let_def split: if_splits)

lemma insights_caps: "syncCapabilityInsights text_of now pod caps db = (e, db') \<Longrightarrow> cd_caps db' = cd_caps db \<and> cd_profiles db' = cd_profiles db \<and> cd_pods db' = cd_pods db"
  by (auto simp: syncCapabilityInsights_def Let_def split: if_splits prod.splits option.splits)

lemma profile_stored:
  assumes "upsertPodRiskProfile pod caps db = (None, db')"
  shows "\<exists>p \<in> set (cd_profiles db'). rp_ClusterID p = pod_ClusterID pod \<and> rp_PodUID p = pod_UID pod \<and>
    rp_StaticRisk p = ComputeStaticRisk pod \<and> rp_Capabilities p = map cap_ID caps"
proof (cases "list_ex (\<lambda>p. rp_ClusterID p = pod_ClusterID pod \<and> rp_PodUID p = pod_UID pod) (cd_profiles db)")
  case True
  then obtain p where p: "p \<in> set (cd_profiles db)" "rp_ClusterID p = pod_ClusterID pod" "rp_PodUID p = pod_UID pod" by (auto simp: list_ex_iff)
  let ?f = "\<lambda>p. if rp_ClusterID p = pod_ClusterID pod \<and> rp_PodUID p = pod_UID pod
    then p\<lparr>rp_Namespace := pod_Namespace pod, rp_StaticRisk := ComputeStaticRisk pod, rp_Capabilities := map cap_ID caps\<rparr> else p"
  have "cd_profiles db' = map ?f (cd_profiles db)"
    using assms True by (auto simp: upsertPodRiskProfile_def Let_def split: if_splits)
  with p show ?thesis by (intro bexI [of _ "?f p"]) auto
next
  case False
  with assms show ?thesis by (auto simp: upsertPodRiskProfile_def Let_def split: if_splits)
qed

lemma syncPod_frame: "syncPodCapabilities F now pod caps db = (e, db') \<Longrightarrow> cd_pods db' = cd_pods db"
proof -
  have "cd_pods (foldl (\<lambda>db c. snd (InitializeCapabilityForIdentity F now i ns (cap_ID c) (cap_Group c) (cap_Severity c) (cap_Evidence c) db)) db caps) = cd_pods db" for i ns db
    by (induction caps arbitrary: db) (simp_all add: InitializeCapabilityForIdentity_def Let_def split: sum.split prod.split option.split)
  then show "syncPodCapabilities F now pod caps db = (e, db') \<Longrightarrow> cd_pods db' = cd_pods db"
    by (auto simp: syncPodCapabilities_def Let_def split: sum.splits if_splits)
qed

lemma profile_pods: "upsertPodRiskProfile pod caps db = (e, db') \<Longrightarrow> cd_pods db' = cd_pods db"
  by (auto simp: upsertPodRiskProfile_def Let_def split: if_splits)

lemma store_evaluation_pods:
  assumes "store_evaluation F text_of later now i pod caps h db = (err, db')"
  shows "\<forall>p \<in> set (cd_pods db'). p \<in> set (cd_pods db) \<or> (\<exists>db1. p \<in> set (cd_pods (later db1))) \<or> pod_LastEvaluatedHash p = h \<and> pod_SpecHash p = h"
proof -
  obtain e1 db1 e2 db2 e3 db3 where
    s: "syncPodCapabilities F now pod caps db = (e1, db1)" "upsertPodRiskProfile pod caps db1 = (e2, db2)" "syncCapabilityInsights text_of now pod caps db2 = (e3, db3)"
    by (metis surj_pair)
  have pods: "cd_pods db1 = cd_pods db" "cd_pods db2 = cd_pods db" "cd_pods db3 = cd_pods db"
    using syncPod_frame [OF s(1)] profile_pods [OF s(2)] insights_caps [OF s(3)] by auto
  show ?thesis
    using assms pods by (auto simp: store_evaluation_def s Let_def split: option.splits if_splits)
qed

text \<open>The three writes of an evaluation that is stored.\<close>

lemma store_evaluation_writes:
  assumes "store_evaluation F text_of later now i pod caps h db = (None, db')"
  obtains db1 db2 db3 where "syncPodCapabilities F now pod caps db = (None, db1)" "upsertPodRiskProfile pod caps db1 = (None, db2)"
    "syncCapabilityInsights text_of now pod caps db2 = (None, db3)"
    "cd_caps db' = cd_caps (later (ScheduleAttackPathRebuildForIdentity i db3))"
    "cd_profiles db' = cd_profiles (later (ScheduleAttackPathRebuildForIdentity i db3))"
proof -
  from assms show thesis
    by (auto simp: store_evaluation_def Let_def split: prod.splits option.splits if_splits intro: that)
qed

text \<open>Whether the pod counts as live, and the part of its static risk that a pod has of its node, declaratively.\<close>

definition live_pod :: "'f CapDb \<Rightarrow> Pod \<Rightarrow> bool" where
  "live_pod db pod \<longleftrightarrow> (case cd_instances db of
     None \<Rightarrow> \<not> pod_Deleted pod
   | Some ins \<Rightarrow> \<exists>n \<in> set ins. pn_ClusterID n = pod_ClusterID pod \<and> pn_PodUID n = pod_UID pod \<and> pn_Status n = ''active'')"

definition node_exposure :: "Pod \<Rightarrow> int" where
  "node_exposure pod =
     (let shares = pod_HostPID pod \<or> pod_HostIPC pod;
          mounts = (\<exists>hp mp. mounts_host pod hp mp \<and> (\<exists>p \<in> set sensitivePrefixes. HasPrefix hp p))
      in if shares \<and> mounts then 50 else if shares \<or> mounts then 40 else 0)"

lemma EvaluateAndUpsertPod_cases:
  assumes "EvaluateAndUpsertPod F text_of others later now pod h db = (None, db')"
    and "EvaluatePod (cd_rbac db) pod = Inr caps"
  obtains (skipped) "h \<noteq> [] \<and> pod_SpecHash pod \<noteq> h \<or> \<not> live_pod db pod" "db' = db"
  | (stale) cur where "\<not> (h \<noteq> [] \<and> pod_SpecHash pod \<noteq> h)" "live_pod db pod" "h \<noteq> []" "cur \<in> set (cd_pods (others db))"
      "pod_ClusterID cur = pod_ClusterID pod" "pod_UID cur = pod_UID pod" "\<not> pod_Deleted cur" "pod_SpecHash cur \<noteq> h" "db' = others db"
  | (stored) cur i where "\<not> (h \<noteq> [] \<and> pod_SpecHash pod \<noteq> h)" "live_pod db pod"
      "if h = [] then cur = pod else cur \<in> set (cd_pods (others db)) \<and> \<not> pod_Deleted cur \<and> pod_SpecHash cur = h"
      "pod_ClusterID cur = pod_ClusterID pod" "pod_UID cur = pod_UID pod"
      "store_evaluation F text_of later now i cur caps h (others db) = (None, db')"
proof (cases "h \<noteq> [] \<and> pod_SpecHash pod \<noteq> h")
  case True
  with assms(1) have "db' = db" by (simp add: EvaluateAndUpsertPod_def)
  with True show thesis by (intro skipped) simp_all
next
  case hash: False
  with assms(1) obtain i where i: "New (pod_ClusterID pod) (pod_UID pod) = Inr i"
    by (auto simp: EvaluateAndUpsertPod_def split: sum.splits)
  have act: "(case cd_instances db of
        Some ins \<Rightarrow> length (filter (\<lambda>n. pn_ClusterID n = id_ClusterID i \<and> pn_PodUID n = id_ResourceUID i \<and> pn_Status n = ''active'') ins) > 0
      | None \<Rightarrow> \<not> pod_Deleted pod) \<longleftrightarrow> live_pod db pod"
    using New_fields [OF i] by (auto simp: live_pod_def filter_empty_conv split: option.splits)
  note run = assms(1) [unfolded EvaluateAndUpsertPod_def Let_def]
  show thesis
  proof (cases "live_pod db pod")
    case False
    with run hash i act have "db' = db" by auto
    with False show thesis by (intro skipped) simp_all
  next
    case live: True
    show thesis
    proof (cases "h = []")
      case True
      with run hash i act live assms(2) have "store_evaluation F text_of later now i pod caps h (others db) = (None, db')" by simp
      with True live show thesis by (intro stored [of pod i]) simp_all
    next
      case named: False
      let ?find = "find (\<lambda>p. pod_ClusterID p = pod_ClusterID pod \<and> pod_UID p = pod_UID pod \<and> \<not> pod_Deleted p) (cd_pods (others db))"
      obtain cur where f: "?find = Some cur"
        using run hash i act live assms(2) named by (auto split: if_splits option.splits)
      then have cur: "cur \<in> set (cd_pods (others db))" "pod_ClusterID cur = pod_ClusterID pod" "pod_UID cur = pod_UID pod"
        "\<not> pod_Deleted cur" by (auto simp: find_Some_iff)
      show thesis
      proof (cases "pod_SpecHash cur = h")
        case True
        with run hash i act live assms(2) named f
        have "store_evaluation F text_of later now i cur caps h (others db) = (None, db')" by (simp split: if_splits)
        with True cur hash live named show thesis by (intro stored [of cur i]) simp_all
      next
        case False
        with run hash i act live assms(2) named f have "db' = others db" by (simp split: if_splits)
        with False cur hash live named show thesis by (intro stale [of cur]) simp_all
      qed
    qed
  qed
qed

subsection \<open>Insights of an evaluation\<close>

lemma create_insight_keeps:
  assumes "CreateOrUpdatePodInsight now [] (Some x) (Some s) = (None, s')" and "store_ok (is_rows s)"
  shows "\<exists>t. s' = Some t \<and> store_ok (is_rows t) \<and> frames_kept s t \<and>
    insight_key (normalizePodInsightForWrite now x) \<in> insight_key ` set (is_rows t)"
proof -
  obtain i t where t: "createOrUpdatePodInsightTx now [] s (Some x) = (Inr i, t)" and s': "s' = Some (schedule_score i t)"
    using assms(1) by (auto simp: CreateOrUpdatePodInsight_def split: prod.splits sum.splits)
  from createTx_result [OF t refl] assms(2) have r: "store_ok (is_rows t)" "frames_kept s t"
      "write_result now (normalizePodInsightForWrite now x) s (is_rows s) (is_rows t)"
    by (auto simp: frames_kept_def)
  then have "insight_key (normalizePodInsightForWrite now x) \<in> insight_key ` set (is_rows t)"
    by (auto simp: write_result_def filter_eq_Cons_iff)
  with r s' show ?thesis by (simp add: frames_kept_def)
qed

lemma frames_kept_keys: "frames_kept s t \<Longrightarrow> insight_key ` set (is_rows s) \<subseteq> insight_key ` set (is_rows t)"
proof -
  assume "frames_kept s t"
  then have "set (map fst (map row_frame (is_rows s))) \<subseteq> set (map fst (map row_frame (is_rows t)))"
    using set_mono_prefix [of "map row_frame (is_rows s)" "map row_frame (is_rows t)"] by (auto simp: frames_kept_def)
  then show ?thesis by (simp add: row_frame_def image_image)
qed

lemma capability_insight_key:
  "insight_key (normalizePodInsightForWrite now (capability_insight text_of now pod md c)) =
     (pod_ClusterID pod, pod_UID pod, ''capability'', TrimSpace (cap_ID c))"
  by (simp add: insight_key_def capability_insight_def Let_def)

lemma write_insights_keeps:
  assumes "write_insights text_of now pod md cs s = (None, s')" and "store_ok (is_rows s)"
  shows "store_ok (is_rows s') \<and> frames_kept s s' \<and>
    (\<forall>c \<in> set cs. (pod_ClusterID pod, pod_UID pod, ''capability'', TrimSpace (cap_ID c)) \<in> insight_key ` set (is_rows s'))"
  using assms
proof (induction cs arbitrary: s)
  case Nil
  then show ?case by (simp add: frames_kept_def)
next
  case (Cons c cs)
  from Cons.prems(1) obtain t' where e: "CreateOrUpdatePodInsight now [] (Some (capability_insight text_of now pod (md (cap_ID c)) c)) (Some s) = (None, t')"
    and rest: "write_insights text_of now pod md cs (the t') = (None, s')"
    by (auto split: prod.splits option.splits)
  from create_insight_keeps [OF e Cons.prems(2)] obtain t where t: "t' = Some t" "store_ok (is_rows t)" "frames_kept s t"
      "(pod_ClusterID pod, pod_UID pod, ''capability'', TrimSpace (cap_ID c)) \<in> insight_key ` set (is_rows t)"
    by (auto simp: capability_insight_key)
  have rest': "write_insights text_of now pod md cs t = (None, s')" using rest t(1) by simp
  note IH = Cons.IH [OF rest' t(2)]
  with t frames_kept_keys [of t s'] frames_kept_trans [of s t s'] show ?case by auto
qed

subsection \<open>Concrete runs\<close>

definition sample_floats :: "int FloatOps" where
  "sample_floats = \<lparr>fl_add = (+), fl_gt = (>), fl_one = 100, fl_half = 50\<rparr>"

definition sample_probe_pod :: Pod where
  "sample_probe_pod = \<lparr>pod_ClusterID = ''c'', pod_Name = ''p'', pod_Namespace = ''ns'', pod_ServiceAccount = ''sa'', pod_UID = ''u'',
     pod_ContainerSecurityContexts = [], pod_VolumeMounts = [], pod_Volumes = [], pod_HostNetwork = False, pod_HostPID = True, pod_HostIPC = False,
     pod_AutomountServiceAccountToken = Some False, pod_SpecHash = ''h1'', pod_LastEvaluatedHash = [], pod_Deleted = False,
     pod_NodeName = [], pod_PodIP = [], pod_StartTime = None, pod_CreatedAt = 0, pod_RestartCount = 0\<rparr>"

definition sample_cap :: "int PodCapability" where
  "sample_cap = \<lparr>pc_ID = 1, pc_ClusterID = ''c'', pc_PodUID = ''u'', pc_Namespace = ''ns'', pc_CapabilityID = ESC_RUNTIME_PROBE,
     pc_CapabilityGroup = ''ESC'', pc_Severity = ''HIGH'', pc_State = ''confirmed'', pc_Confidence = 80, pc_CapabilityClass = ''effective'',
     pc_FirstSeenAt = 0, pc_LastSeenAt = 0, pc_Evidence = None\<rparr>"

definition sample_rule :: "int PromotionRule" where
  "sample_rule = \<lparr>pl_CapabilityID = ESC_RUNTIME_PROBE, pl_SignalType = ''proc'', pl_MinOccurrences = 2, pl_RequiredCapabilities = [ESC_RUNTIME_PROBE],
     pl_PromoteTo = ''exploited'', pl_ConfidenceBoost = 30\<rparr>"

definition sample_capdb :: "int CapDb" where
  "sample_capdb = \<lparr>cd_pods = [sample_probe_pod], cd_instances = None,
     cd_caps = [sample_cap, sample_cap\<lparr>pc_ID := 2, pc_CapabilityID := NET_HOSTNETWORK\<rparr>], cd_metadata = [], cd_rules = [sample_rule],
     cd_signals = [\<lparr>rs_ClusterID = ''c'', rs_PodUID = ''u'', rs_SignalType = ''proc'', rs_Count = 2\<rparr>], cd_steps = [], cd_profiles = [],
     cd_insights = \<lparr>is_rows = [], is_exceptions = [], is_scored = [], is_findFails = False, is_saveFails = False, is_createFails = False, is_exceptionsFail = False\<rparr>,
     cd_rbac = \<lparr>q_RoleBindings = (\<lambda>_ _. Inr []), q_ClusterRoleBindings = (\<lambda>_. Inr []), q_Role = (\<lambda>_ _ _. None), q_ClusterRole = (\<lambda>_ _. None)\<rparr>,
     cd_rebuilds = [], cd_fails = (\<lambda>_. False)\<rparr>"

abbreviation sample_pod_identity :: Identity where
  "sample_pod_identity \<equiv> \<lparr>id_ClusterID = ''c'', id_ResourceUID = ''u''\<rparr>"

lemma sample_caps_ok: "caps_ok (cd_caps sample_capdb)"
  by (simp add: caps_ok_def sample_capdb_def sample_cap_def)

subsection \<open>Properties\<close>

text \<open>
  C19. Initialisation and promotion, in any order and for any pods, keep one row per pod and capability, never remove or
  re-key a row and never lower the state of a capability.
\<close>

theorem capability_states_advance:
  assumes "(cap_step F)\<^sup>*\<^sup>* db db'" and "caps_ok (cd_caps db)"
  shows "distinct (map (\<lambda>c. (pc_ClusterID c, pc_PodUID c, pc_CapabilityID c)) (cd_caps db')) \<and>
    length (cd_caps db) \<le> length (cd_caps db') \<and>
    (\<forall>k < length (cd_caps db). let c = cd_caps db ! k; c' = cd_caps db' ! k
       in (pc_ClusterID c', pc_PodUID c', pc_CapabilityID c') = (pc_ClusterID c, pc_PodUID c, pc_CapabilityID c) \<and>
          current_order (pc_State c) \<le> current_order (pc_State c'))"
  using capabilities.reachable_inv [OF assms] capabilities.reachable_hist [OF assms]
  by (simp add: caps_ok_def caps_advance_def row_advances_def Let_def)

theorem capability_states_advance_witness:
  "current_order (pc_State (cd_caps (snd (PromoteCapabilityForIdentity sample_floats 7 ''t'' sample_pod_identity ESC_RUNTIME_PROBE ''proc'' 10 sample_capdb)) ! 0)) \<ge> 2"
proof -
  have "(cap_step sample_floats)\<^sup>*\<^sup>* sample_capdb (snd (PromoteCapabilityForIdentity sample_floats 7 ''t'' sample_pod_identity ESC_RUNTIME_PROBE ''proc'' 10 sample_capdb))"
    by (rule r_into_rtranclp) (rule promote)
  moreover have "0 < length (cd_caps sample_capdb)" by (simp add: sample_capdb_def)
  ultimately have "current_order (pc_State (cd_caps sample_capdb ! 0)) \<le>
    current_order (pc_State (cd_caps (snd (PromoteCapabilityForIdentity sample_floats 7 ''t'' sample_pod_identity ESC_RUNTIME_PROBE ''proc'' 10 sample_capdb)) ! 0))"
    using capability_states_advance [OF _ sample_caps_ok] by (simp add: Let_def)
  moreover have "current_order (pc_State (cd_caps sample_capdb ! 0)) = 2" by code_simp
  ultimately show ?thesis by simp
qed

text \<open>
  A promotion is justified and local: it takes a rule for that capability and signal whose target is above the current
  state, whose threshold the signals of the same cluster and pod reach and whose required capabilities the pod has, no applicable rule has a
  higher target, the confidence does not exceed one, and the capability rows of every other pod are as before.
\<close>

lemma promotion_justified_and_local:
  assumes "promoteCapabilityForIdentityTx F now stamp i cid sig conf db = (Inr True, db')" and "caps_ok (cd_caps db)"
    and "\<not> fl_gt F (fl_one F) (fl_one F)"
  shows "\<exists>c c' rule. c \<in> set (cd_caps db) \<and> cap_of i cid c \<and> c' \<in> set (cd_caps db') \<and> cap_of i cid c' \<and>
    pc_State c' = pl_PromoteTo rule \<and> \<not> fl_gt F (pc_Confidence c') (fl_one F) \<and>
    rule \<in> set (cd_rules db) \<and> pl_CapabilityID rule = cid \<and> pl_SignalType rule = sig \<and>
    applicable db i (current_order (pc_State c)) (signal_count db i sig) rule \<and>
    (\<forall>r \<in> set (cd_rules db). pl_CapabilityID r = cid \<and> pl_SignalType r = sig \<and>
       applicable db i (current_order (pc_State c)) (signal_count db i sig) r \<longrightarrow> stateOrder (pl_PromoteTo r) \<le> stateOrder (pl_PromoteTo rule)) \<and>
    filter (\<lambda>r. (pc_ClusterID r, pc_PodUID r) \<noteq> (id_ClusterID i, id_ResourceUID i)) (cd_caps db') =
      filter (\<lambda>r. (pc_ClusterID r, pc_PodUID r) \<noteq> (id_ClusterID i, id_ResourceUID i)) (cd_caps db)"
  using assms(1)
proof (cases rule: promoteTx_cases)
  case (promoted c rule newConf ev)
  let ?up = "\<lambda>r. r\<lparr>pc_State := pl_PromoteTo rule, pc_LastSeenAt := now, pc_Confidence := newConf, pc_Evidence := Some ev\<rparr>"
  let ?f = "\<lambda>r. if pc_ID r = pc_ID c then ?up r else r"
  let ?other = "\<lambda>r. (pc_ClusterID r, pc_PodUID r) \<noteq> (id_ClusterID i, id_ResourceUID i)"
  have c: "c \<in> set (cd_caps db)" "cap_of i cid c" using promoted(2) by (auto simp: find_Some_iff)
  have same: "pc_ID r = pc_ID c \<Longrightarrow> r = c" if "r \<in> set (cd_caps db)" for r
    using assms(2) c(1) that by (auto simp: caps_ok_def distinct_map inj_on_def)
  have "filter ?other (map ?f (cd_caps db)) = map ?f (filter ?other (cd_caps db))"
    unfolding filter_map by (rule arg_cong [where f = "map ?f"], rule filter_cong) auto
  also have "\<dots> = filter ?other (cd_caps db)" using same c(2) by (intro map_idI) (auto simp: cap_of_def)
  finally have other: "filter ?other (cd_caps db') = filter ?other (cd_caps db)" by (simp only: promoted(5))
  have "?up c \<in> set (cd_caps db')" unfolding promoted(5) using c(1) by force
  moreover have "cap_of i cid (?up c)" using c(2) by (simp add: cap_of_def)
  moreover have "pc_State (?up c) = pl_PromoteTo rule \<and> \<not> fl_gt F (pc_Confidence (?up c)) (fl_one F)" using promoted(4) assms(3) by auto
  ultimately show ?thesis using c promoted_rule [OF promoted(3)] other by blast
qed simp

lemma promotion_justified_and_local_witness:
  "\<exists>db' c'. promoteCapabilityForIdentityTx sample_floats 7 ''t'' sample_pod_identity ESC_RUNTIME_PROBE ''proc'' 10 sample_capdb = (Inr True, db') \<and>
     c' \<in> set (cd_caps db') \<and> pc_State c' = ''exploited'' \<and> \<not> fl_gt sample_floats (pc_Confidence c') 100"
proof -
  let ?r = "promoteCapabilityForIdentityTx sample_floats 7 ''t'' sample_pod_identity ESC_RUNTIME_PROBE ''proc'' 10 sample_capdb"
  have "fst ?r = Inr True" by code_simp
  then obtain db' where r: "?r = (Inr True, db')" by (cases ?r) auto
  have one: "\<not> fl_gt sample_floats (fl_one sample_floats) (fl_one sample_floats)" "fl_one sample_floats = 100" by (simp_all add: sample_floats_def)
  have rules: "rule \<in> set (cd_rules sample_capdb) \<Longrightarrow> pl_PromoteTo rule = ''exploited''" for rule by (simp add: sample_capdb_def sample_rule_def)
  from promotion_justified_and_local [OF r sample_caps_ok one(1)] show ?thesis using r rules one(2) by fastforce
qed

text \<open>
  C20. An evaluation that returns no error, in full, with other writers at work between its reads and
  its writes (\<open>others\<close>) and after its writes (\<open>later\<close>). It changes nothing for a pod that is not live or whose
  specification hash is not the expected one, or, with a hash, if the live row has another one by then. Otherwise
  what it leaves to the later writers is this: the capability rows of the pod are exactly those of the capabilities
  the declarative reading of the pod gives, stale ones removed (if the rows cannot be written, which is only logged,
  those of them that were there already); the rows of all other pods are as they were; and the risk profile
  lists the capabilities and carries 50, 40 or 0 for what the pod has of its node.
\<close>

theorem evaluation_stores_what_pod_exhibits:
  assumes run: "EvaluateAndUpsertPod F text_of others later now pod h db = (None, db')"
    and grants: "pod_grants (cd_rbac db) pod = Inr gs"
  shows "if h \<noteq> [] \<and> pod_SpecHash pod \<noteq> h \<or> \<not> live_pod db pod then db' = db
    else \<exists>cur. pod_ClusterID cur = pod_ClusterID pod \<and> pod_UID cur = pod_UID pod \<and>
      (if h = [] then cur = pod else cur \<in> set (cd_pods (others db)) \<and> \<not> pod_Deleted cur) \<and>
      (if h \<noteq> [] \<and> pod_SpecHash cur \<noteq> h then db' = others db
       else \<exists>db1. cd_caps db' = cd_caps (later db1) \<and> cd_profiles db' = cd_profiles (later db1) \<and>
         cap_ids (pod_ClusterID pod) (pod_UID pod) db1 =
           {i. exhibits gs pod i \<and> (cd_fails (others db) ''create'' \<longrightarrow> i \<in> cap_ids (pod_ClusterID pod) (pod_UID pod) (others db))} \<and>
         filter (\<lambda>c. \<not> of_pod (pod_ClusterID pod) (pod_UID pod) c) (cd_caps db1) =
           filter (\<lambda>c. \<not> of_pod (pod_ClusterID pod) (pod_UID pod) c) (cd_caps (others db)) \<and>
         (\<exists>p \<in> set (cd_profiles db1). rp_ClusterID p = pod_ClusterID pod \<and> rp_PodUID p = pod_UID pod \<and>
            set (rp_Capabilities p) = {i. exhibits gs pod i} \<and> rp_StaticRisk p = node_exposure cur))"
proof -
  obtain caps where caps: "EvaluatePod (cd_rbac db) pod = Inr caps" "\<forall>i. i \<in> cap_ID ` set caps \<longleftrightarrow> exhibits gs pod i"
    using EvaluatePod_caps [of "cd_rbac db" pod] grants by auto
  from run caps(1) show ?thesis
  proof (cases rule: EvaluateAndUpsertPod_cases)
    case skipped
    then show ?thesis by simp
  next
    case (stale cur)
    then show ?thesis by (auto intro!: exI [of _ cur])
  next
    case (stored cur i)
    from stored(6) obtain db1 db2 db3 where
      s: "syncPodCapabilities F now cur caps (others db) = (None, db1)" "upsertPodRiskProfile cur caps db1 = (None, db2)"
         "syncCapabilityInsights text_of now cur caps db2 = (None, db3)"
      and e: "cd_caps db' = cd_caps (later (ScheduleAttackPathRebuildForIdentity i db3))"
        "cd_profiles db' = cd_profiles (later (ScheduleAttackPathRebuildForIdentity i db3))"
      by (rule store_evaluation_writes)
    let ?db = "ScheduleAttackPathRebuildForIdentity i db3"
    have c: "cd_caps ?db = cd_caps db1" "cd_profiles ?db = cd_profiles db2"
      using profile_caps [OF s(2)] insights_caps [OF s(3)]
      by (simp_all add: ScheduleAttackPathRebuildForIdentity_def)
    have "cap_ids (pod_ClusterID pod) (pod_UID pod) ?db =
        {i. exhibits gs pod i \<and> (cd_fails (others db) ''create'' \<longrightarrow> i \<in> cap_ids (pod_ClusterID pod) (pod_UID pod) (others db))}"
      using syncPodCapabilities_ids(1) [OF s(1)] caps(2) stored(4,5) c(1) by (auto simp: cap_ids_def)
    moreover have "filter (\<lambda>c. \<not> of_pod (pod_ClusterID pod) (pod_UID pod) c) (cd_caps ?db) =
        filter (\<lambda>c. \<not> of_pod (pod_ClusterID pod) (pod_UID pod) c) (cd_caps (others db))"
      using syncPodCapabilities_ids(2) [OF s(1)] stored(4,5) c(1) by simp
    moreover have "\<exists>p \<in> set (cd_profiles ?db). rp_ClusterID p = pod_ClusterID pod \<and> rp_PodUID p = pod_UID pod \<and>
        set (rp_Capabilities p) = {i. exhibits gs pod i} \<and> rp_StaticRisk p = node_exposure cur"
    proof -
      have "cap_ID ` set caps = {i. exhibits gs pod i}" using caps(2) by auto
      then show ?thesis
        using profile_stored [OF s(2)] stored(4,5) c(2) by (auto simp: ComputeStaticRisk_value node_exposure_def)
    qed
    ultimately show ?thesis
      using e stored(1-5) by (auto intro!: exI [of _ cur] exI [of _ ?db])
  qed
qed

theorem evaluation_stores_what_pod_exhibits_witness:
  "let db' = snd (EvaluateAndUpsertPod sample_floats (\<lambda>_. ''{}'') id (\<lambda>db. db\<lparr>cd_pods := []\<rparr>) 7 sample_probe_pod [] sample_capdb)
   in cap_ids ''c'' ''u'' db' = {i. exhibits [] sample_probe_pod i} \<and> exhibits [] sample_probe_pod ESC_RUNTIME_PROBE"
proof -
  let ?r = "EvaluateAndUpsertPod sample_floats (\<lambda>_. ''{}'') id (\<lambda>db. db\<lparr>cd_pods := []\<rparr>) 7 sample_probe_pod [] sample_capdb"
  have "fst ?r = None" by code_simp
  then have r: "?r = (None, snd ?r)" by (simp add: prod_eq_iff)
  have p: "\<not> cd_fails sample_capdb ''create''" "pod_ClusterID sample_probe_pod = ''c''" "pod_UID sample_probe_pod = ''u''"
    "live_pod sample_capdb sample_probe_pod"
    by (simp_all add: sample_capdb_def sample_probe_pod_def live_pod_def)
  have g: "pod_grants (cd_rbac sample_capdb) sample_probe_pod = Inr []"
    by (simp add: sample_capdb_def pod_grants_def rows_or_missing_def List.map_filter_simps)
  have "exhibits [] sample_probe_pod ESC_RUNTIME_PROBE" by (simp add: exhibits_def sample_probe_pod_def)
  moreover from evaluation_stores_what_pod_exhibits [OF r g] p obtain db1 where
    "cd_caps (snd ?r) = cd_caps db1" "cap_ids ''c'' ''u'' db1 = {i. exhibits [] sample_probe_pod i}" by auto
  ultimately show ?thesis by (simp add: Let_def cap_ids_def)
qed

text \<open>
  A stale result is never stored: with an expected hash, the call leaves the tables as it found them, or as the other writers
  left them, unless the pod it evaluated and the live row re-read afterwards both have that hash; and the hash is recorded only on rows whose
  specification still has it.
\<close>

lemma stale_evaluation_discarded:
  assumes "EvaluateAndUpsertPod F text_of others later now pod h db = (err, db')" and "h \<noteq> []"
  shows "(db' = db \<or> db' = others db \<or>
      pod_SpecHash pod = h \<and> (\<exists>current \<in> set (cd_pods (others db)). pod_ClusterID current = pod_ClusterID pod \<and>
        pod_UID current = pod_UID pod \<and> \<not> pod_Deleted current \<and> pod_SpecHash current = h)) \<and>
    (\<forall>p \<in> set (cd_pods db'). p \<in> set (cd_pods db) \<or> p \<in> set (cd_pods (others db)) \<or> (\<exists>db1. p \<in> set (cd_pods (later db1))) \<or>
       pod_LastEvaluatedHash p = h \<and> pod_SpecHash p = h)"
proof (cases "pod_SpecHash pod = h")
  case True
  show ?thesis
  proof (cases "New (pod_ClusterID pod) (pod_UID pod)")
    case (Inl e)
    with assms True show ?thesis by (auto simp: EvaluateAndUpsertPod_def)
  next
    case (Inr i)
    show ?thesis
    proof (cases "EvaluatePod (cd_rbac db) pod")
      case (Inl e)
      with assms True Inr show ?thesis by (auto simp: EvaluateAndUpsertPod_def Let_def split: if_splits)
    next
      case caps: (Inr caps)
      let ?find = "find (\<lambda>p. pod_ClusterID p = pod_ClusterID pod \<and> pod_UID p = pod_UID pod \<and> \<not> pod_Deleted p) (cd_pods (others db))"
      consider (kept) "db' = db \<or> db' = others db" | (stored) cur where "?find = Some cur" "pod_SpecHash cur = h"
          "store_evaluation F text_of later now i cur caps h (others db) = (err, db')"
        using assms True Inr caps by (auto simp: EvaluateAndUpsertPod_def Let_def split: if_splits option.splits)
      then show ?thesis
      proof cases
        case stored
        then have "cur \<in> set (cd_pods (others db)) \<and> pod_ClusterID cur = pod_ClusterID pod \<and> pod_UID cur = pod_UID pod \<and> \<not> pod_Deleted cur"
          by (auto simp: find_Some_iff)
        with stored True store_evaluation_pods [OF stored(3)] show ?thesis by blast
      qed blast
    qed
  qed
qed (use assms in \<open>auto simp: EvaluateAndUpsertPod_def\<close>)

lemma stale_evaluation_discarded_witness:
  "let others = (\<lambda>db. db\<lparr>cd_pods := [sample_probe_pod\<lparr>pod_SpecHash := ''h2''\<rparr>]\<rparr>);
       r = EvaluateAndUpsertPod sample_floats (\<lambda>_. ''{}'') others id 7 sample_probe_pod ''h1'' sample_capdb
   in snd r = sample_capdb \<or> snd r = others sample_capdb"
proof -
  let ?others = "\<lambda>db :: int CapDb. db\<lparr>cd_pods := [sample_probe_pod\<lparr>pod_SpecHash := ''h2''\<rparr>]\<rparr>"
  let ?r = "EvaluateAndUpsertPod sample_floats (\<lambda>_. ''{}'') ?others id 7 sample_probe_pod ''h1'' sample_capdb"
  have "?r = (fst ?r, snd ?r)" by simp
  from stale_evaluation_discarded [OF this] show ?thesis by (simp add: Let_def)
qed

text \<open>
  After the findings of an evaluation are synchronised every reported capability has its finding, and every live and active
  capability finding of the pod bears the title of a reported capability: the others are resolved.
\<close>

lemma capability_findings_current:
  assumes "syncCapabilityInsights text_of now pod caps db = (None, db')" and "store_ok (is_rows (cd_insights db))"
  shows "(\<forall>c \<in> set caps. \<exists>r \<in> set (is_rows (cd_insights db')).
      insight_key r = (pod_ClusterID pod, pod_UID pod, ''capability'', TrimSpace (cap_ID c))) \<and>
    (\<forall>r \<in> set (is_rows (cd_insights db')).
      ri_ClusterID r = pod_ClusterID pod \<and> ri_ResourceUID r = pod_UID pod \<and> ri_InsightType r = ''capability'' \<and>
      ri_DeletedAt r = None \<and> ri_Status r = ''active'' \<longrightarrow>
      (\<exists>c \<in> set caps. ri_Title r = insight_title (find (\<lambda>m. cm_CapabilityID m = cap_ID c) (cd_metadata db)) c))"
proof -
  let ?md = "\<lambda>cid. find (\<lambda>m. cm_CapabilityID m = cid) (cd_metadata db)"
  let ?titles = "map (\<lambda>c. insight_title (?md (cap_ID c)) c) caps"
  let ?stale = "\<lambda>r. ri_ClusterID r = pod_ClusterID pod \<and> ri_ResourceUID r = pod_UID pod \<and> ri_InsightType r = ''capability'' \<and>
     ri_DeletedAt r = None \<and> ri_Status r = ''active'' \<and> (length ?titles > 0 \<longrightarrow> ri_Title r \<notin> set ?titles)"
  obtain s where s: "write_insights text_of now pod ?md caps (cd_insights db) = (None, s)"
    and rows: "is_rows (cd_insights db') = map (\<lambda>r. if ?stale r then r\<lparr>ri_Status := ''resolved'', ri_UpdatedAt := now\<rparr> else r) (is_rows s)"
    using assms(1) by (auto simp: syncCapabilityInsights_def Let_def split: if_splits prod.splits option.splits)
  have keys: "insight_key ` set (is_rows (cd_insights db')) = insight_key ` set (is_rows s)"
    unfolding rows set_map image_image by (rule image_cong) (auto simp: insight_key_def)
  have "\<exists>c \<in> set caps. ri_Title r = insight_title (?md (cap_ID c)) c"
    if r: "r \<in> set (is_rows (cd_insights db'))" and live: "ri_ClusterID r = pod_ClusterID pod \<and> ri_ResourceUID r = pod_UID pod \<and>
      ri_InsightType r = ''capability'' \<and> ri_DeletedAt r = None \<and> ri_Status r = ''active''" for r
  proof -
    from r obtain q where q: "q \<in> set (is_rows s)" "r = (if ?stale q then q\<lparr>ri_Status := ''resolved'', ri_UpdatedAt := now\<rparr> else q)"
      unfolding rows set_map by (rule imageE)
    have n: "\<not> ?stale q"
    proof
      assume "?stale q"
      then have "r = q\<lparr>ri_Status := ''resolved'', ri_UpdatedAt := now\<rparr>" unfolding q(2) by (rule if_P)
      with live show False by simp
    qed
    then have "r = q" unfolding q(2) by (rule if_not_P)
    with n have "\<not> ?stale r" by blast
    with live show ?thesis by auto
  qed
  moreover have "\<exists>r \<in> set (is_rows (cd_insights db')). insight_key r = (pod_ClusterID pod, pod_UID pod, ''capability'', TrimSpace (cap_ID c))"
    if "c \<in> set caps" for c
  proof -
    have "(pod_ClusterID pod, pod_UID pod, ''capability'', TrimSpace (cap_ID c)) \<in> insight_key ` set (is_rows (cd_insights db'))"
      unfolding keys using write_insights_keeps [OF s assms(2)] that by blast
    then show ?thesis by (rule imageE) (metis)
  qed
  ultimately show ?thesis by blast
qed

lemma capability_findings_current_witness:
  "let r = syncCapabilityInsights (\<lambda>_. ''{}'') 7 sample_probe_pod
       [\<lparr>cap_ID = ESC_HOSTPID_POD, cap_Group = ''ESC'', cap_Severity = ''HIGH'', cap_Evidence = Map.empty, cap_Mitre = []\<rparr>] sample_capdb
   in fst r = None \<and> (\<exists>row \<in> set (is_rows (cd_insights (snd r))). insight_key row = (''c'', ''u'', ''capability'', ESC_HOSTPID_POD))"
proof -
  let ?c = "\<lparr>cap_ID = ESC_HOSTPID_POD, cap_Group = ''ESC'', cap_Severity = ''HIGH'', cap_Evidence = Map.empty, cap_Mitre = []\<rparr>"
  let ?r = "syncCapabilityInsights (\<lambda>_. ''{}'') 7 sample_probe_pod [?c] sample_capdb"
  have f: "fst ?r = None" by code_simp
  then have r: "?r = (None, snd ?r)" by (simp add: prod_eq_iff)
  have ok: "store_ok (is_rows (cd_insights sample_capdb))" by (simp add: store_ok_def sample_capdb_def)
  have t: "TrimSpace ESC_HOSTPID_POD = ESC_HOSTPID_POD" by code_simp
  from capability_findings_current [OF r ok] f t show ?thesis by (simp add: Let_def sample_probe_pod_def)
qed

end
