(* ===== verification/Go_Float.thy ===== *)
theory Go_Float
  imports Complex_Main Go_Prelude "HOL-Library.List_Lexorder" "HOL-Library.Char_ord"
begin

section \<open>Floating-point numbers and sorting in Go\<close>

text \<open>
  A finite float64 is the rational number it denotes. An arithmetic operation rounds the exact result, a constant is
  rounded when it is converted, and nothing else rounds: expressions are not fused. Rounding and the
  functions exp, log, sqrt and pow of package math are the record \<open>FloatArith\<close>; \<open>float_laws\<close> collects
  what the components rely on. The values here are scores and probabilities, for which neither infinities
  nor NaN occur.
\<close>

record FloatArith =
  fl_rnd :: "rat \<Rightarrow> rat"
  fl_exp :: "rat \<Rightarrow> rat"
  fl_log :: "rat \<Rightarrow> rat"
  fl_sqrt :: "rat \<Rightarrow> rat"
  fl_pow :: "rat \<Rightarrow> rat \<Rightarrow> rat"

abbreviation lit :: "FloatArith \<Rightarrow> rat \<Rightarrow> rat" where
  "lit F q \<equiv> fl_rnd F q"

definition fadd :: "FloatArith \<Rightarrow> rat \<Rightarrow> rat \<Rightarrow> rat" where
  "fadd F x y = fl_rnd F (x + y)"

definition fsub :: "FloatArith \<Rightarrow> rat \<Rightarrow> rat \<Rightarrow> rat" where
  "fsub F x y = fl_rnd F (x - y)"

definition fmul :: "FloatArith \<Rightarrow> rat \<Rightarrow> rat \<Rightarrow> rat" where
  "fmul F x y = fl_rnd F (x * y)"

definition fdiv :: "FloatArith \<Rightarrow> rat \<Rightarrow> rat \<Rightarrow> rat" where
  "fdiv F x y = fl_rnd F (x / y)"

text \<open>\<^verbatim>\<open>math.Round\<close>, halves away from zero, and the rounding to d decimals the code writes as
  \<^verbatim>\<open>math.Round(x*k) / k\<close>.\<close>

definition Round :: "rat \<Rightarrow> rat" where
  "Round x = (if x \<ge> 0 then of_int \<lfloor>x + 1 / 2\<rfloor> else - of_int \<lfloor>1 / 2 - x\<rfloor>)"

definition round_to :: "FloatArith \<Rightarrow> rat \<Rightarrow> rat \<Rightarrow> rat" where
  "round_to F k x = fdiv F (Round (fmul F x k)) k"

definition clampFloat :: "rat \<Rightarrow> rat \<Rightarrow> rat \<Rightarrow> rat" where
  "clampFloat v lo hi = (if v < lo then lo else if v > hi then hi else v)"

definition float_laws :: "FloatArith \<Rightarrow> bool" where
  "float_laws F \<longleftrightarrow> (\<forall>x y. x \<le> y \<longrightarrow> fl_rnd F x \<le> fl_rnd F y) \<and> (\<forall>n \<le> 2 ^ 53. fl_rnd F (of_nat n) = of_nat n) \<and>
     (\<forall>x. fl_exp F x \<ge> 0) \<and> (\<forall>x \<le> 0. fl_exp F x \<le> 1) \<and>
     (\<forall>x \<ge> 0. \<forall>y \<ge> 0. 0 \<le> fl_pow F x y \<and> (x \<le> 1 \<longrightarrow> fl_pow F x y \<le> 1))"

text \<open>Exact arithmetic satisfies the laws; concrete examples are computed with it, exp and log replaced by rational
  functions with the laws.\<close>

definition exact_arith :: FloatArith where
  "exact_arith = \<lparr>fl_rnd = (\<lambda>x. x), fl_exp = (\<lambda>x. if x \<le> 0 then 1 / (1 - x) else 1 + x), fl_log = (\<lambda>x. x - 1),
     fl_sqrt = (\<lambda>x. x), fl_pow = (\<lambda>x y. x ^ nat \<lfloor>y\<rfloor>)\<rparr>"

lemma exact_arith_laws: "float_laws exact_arith"
  by (simp add: float_laws_def exact_arith_def power_le_one)

lemma exact_arith_ops [simp]:
  "fl_rnd exact_arith x = x" "fadd exact_arith x y = x + y" "fsub exact_arith x y = x - y"
  "fmul exact_arith x y = x * y" "fdiv exact_arith x y = x / y"
  by (simp_all add: exact_arith_def fadd_def fsub_def fmul_def fdiv_def)

subsection \<open>Bounds\<close>

lemma rnd_mono: "float_laws F \<Longrightarrow> x \<le> y \<Longrightarrow> fl_rnd F x \<le> fl_rnd F y"
  by (simp add: float_laws_def)

lemma rnd_nat: "float_laws F \<Longrightarrow> n \<le> 2 ^ 53 \<Longrightarrow> fl_rnd F (of_nat n) = of_nat n"
  by (simp add: float_laws_def)

lemma rnd_0 [simp]: "float_laws F \<Longrightarrow> fl_rnd F 0 = 0"
  using rnd_nat [of F 0] by simp

lemma rnd_1 [simp]: "float_laws F \<Longrightarrow> fl_rnd F 1 = 1"
  using rnd_nat [of F 1] by simp

lemma rnd_nonneg: "float_laws F \<Longrightarrow> 0 \<le> x \<Longrightarrow> 0 \<le> fl_rnd F x"
  using rnd_mono [of F 0 x] by simp

lemma rnd_le_1: "float_laws F \<Longrightarrow> x \<le> 1 \<Longrightarrow> fl_rnd F x \<le> 1"
  using rnd_mono [of F x 1] by simp

lemma pow_unit: "float_laws F \<Longrightarrow> 0 \<le> x \<Longrightarrow> x \<le> 1 \<Longrightarrow> 0 \<le> y \<Longrightarrow> 0 \<le> fl_pow F x y \<and> fl_pow F x y \<le> 1"
  by (simp add: float_laws_def)

lemma exp_nonneg: "float_laws F \<Longrightarrow> 0 \<le> fl_exp F x"
  by (simp add: float_laws_def)

lemma fmul_nonneg: "float_laws F \<Longrightarrow> 0 \<le> x \<Longrightarrow> 0 \<le> y \<Longrightarrow> 0 \<le> fmul F x y"
  by (simp add: fmul_def rnd_nonneg)

lemma fadd_nonneg: "float_laws F \<Longrightarrow> 0 \<le> x \<Longrightarrow> 0 \<le> y \<Longrightarrow> 0 \<le> fadd F x y"
  by (simp add: fadd_def rnd_nonneg)

lemma fdiv_nonneg: "float_laws F \<Longrightarrow> 0 \<le> x \<Longrightarrow> 0 \<le> y \<Longrightarrow> 0 \<le> fdiv F x y"
  by (simp add: fdiv_def rnd_nonneg)

lemma fmul_le_1: "float_laws F \<Longrightarrow> 0 \<le> x \<Longrightarrow> x \<le> 1 \<Longrightarrow> 0 \<le> y \<Longrightarrow> y \<le> 1 \<Longrightarrow> fmul F x y \<le> 1"
  by (simp add: fmul_def rnd_le_1 mult_le_one)

lemma Round_mono: "0 \<le> x \<Longrightarrow> x \<le> y \<Longrightarrow> Round x \<le> Round y"
  by (simp add: Round_def floor_mono)

lemma Round_nat: "Round (of_nat n) = of_nat n"
proof -
  have "\<lfloor>of_nat n + 1 / 2 :: rat\<rfloor> = int n"
    by (intro floor_unique) simp_all
  then show ?thesis by (simp add: Round_def)
qed

lemma Round_nonneg: "0 \<le> x \<Longrightarrow> 0 \<le> Round x"
  by (simp add: Round_def)

lemma clamp_bounds: "lo \<le> hi \<Longrightarrow> lo \<le> clampFloat v lo hi \<and> clampFloat v lo hi \<le> hi"
  by (auto simp: clampFloat_def)

text \<open>Rounding to decimals keeps the unit interval.\<close>

lemma round_to_unit:
  assumes "float_laws F" "0 \<le> x" "x \<le> 1" "0 < n" "n \<le> 2 ^ 53"
  shows "0 \<le> round_to F (of_nat n) x \<and> round_to F (of_nat n) x \<le> 1"
proof -
  have "fmul F x (of_nat n) \<le> fl_rnd F (of_nat n)"
    unfolding fmul_def using assms by (intro rnd_mono) (simp_all add: mult_left_le_one_le)
  then have *: "fmul F x (of_nat n) \<le> of_nat n" using assms by (simp add: rnd_nat)
  have 0: "0 \<le> fmul F x (of_nat n)" using assms by (intro fmul_nonneg) simp_all
  have "Round (fmul F x (of_nat n)) \<le> Round (of_nat n)" using 0 * by (rule Round_mono)
  then have "Round (fmul F x (of_nat n)) / of_nat n \<le> 1" using assms by (simp add: Round_nat)
  then have "round_to F (of_nat n) x \<le> 1" using assms by (simp add: round_to_def fdiv_def rnd_le_1)
  moreover have "0 \<le> round_to F (of_nat n) x"
    unfolding round_to_def using assms 0 by (intro fdiv_nonneg Round_nonneg) simp_all
  ultimately show ?thesis by simp
qed

subsection \<open>Sorting and keeping the first\<close>

text \<open>\<^verbatim>\<open>sort.SliceStable\<close> by a decreasing rational key is \<open>sort_desc\<close>; the first elements of a sorted list dominate
  the ones that are cut off.\<close>

definition sort_desc :: "('a \<Rightarrow> rat) \<Rightarrow> 'a list \<Rightarrow> 'a list" where
  "sort_desc f xs = sort_key (\<lambda>x. - f x) xs"

lemma mset_sort_desc [simp]: "mset (sort_desc f xs) = mset xs"
  by (simp add: sort_desc_def)

lemma set_sort_desc [simp]: "set (sort_desc f xs) = set xs"
  by (simp add: sort_desc_def)

lemma length_sort_desc [simp]: "length (sort_desc f xs) = length xs"
  by (simp add: sort_desc_def)

lemma sort_desc_sorted: "sorted_wrt (\<lambda>x y. f y \<le> f x) (sort_desc f xs)"
proof -
  have "sorted_wrt (\<lambda>x y. - f x \<le> - f y) (sort_desc f xs)"
    using sorted_sort_key [of "\<lambda>x. - f x" xs] by (simp add: sort_desc_def sorted_map)
  then show ?thesis by simp
qed

lemma sort_desc_take_dominates:
  assumes "x \<in> set xs" "x \<notin> set (take n (sort_desc f xs))"
  shows "length (take n (sort_desc f xs)) = n \<and> (\<forall>y \<in> set (take n (sort_desc f xs)). f x \<le> f y)"
proof -
  let ?s = "sort_desc f xs"
  have x: "x \<in> set (drop n ?s)"
    using assms append_take_drop_id [of n ?s] by (metis Un_iff set_append set_sort_desc)
  have "sorted_wrt (\<lambda>x y. f y \<le> f x) (take n ?s @ drop n ?s)"
    using sort_desc_sorted by simp
  then have "\<forall>y \<in> set (take n ?s). f x \<le> f y" using x by (simp only: sorted_wrt_append) blast
  moreover have "n \<le> length ?s" using x by (metis drop_all empty_iff empty_set linear)
  ultimately show ?thesis by simp
qed

lemma sort_desc_id: "sorted_wrt (\<lambda>x y. f y \<le> f x) xs \<Longrightarrow> sort_desc f xs = xs"
  unfolding sort_desc_def by (rule sort_key_id_if_sorted) (simp add: sorted_map)

end
