(* ===== verification/Attack_Graph.thy ===== *)
theory Attack_Graph
  imports Go_Float
begin

section \<open>Search of attack paths: core/pkg/graph/attack\_graph\_engine.go\<close>

text \<open>
  The typed graph, the level-wise beam search from a pod and the selection of the strongest paths. A missing key of the
  adjacency map reads as the empty list. The selection ranges over a Go map, whose order is unspecified:
  \<open>order\<close> is the permutation the runtime picks.
\<close>

subsection \<open>The graph\<close>

record GraphNode =
  gn_ID :: string
  gn_Type :: string
  gn_Namespace :: string
  gn_Label :: string
  gn_SemanticCaps :: "string list"

record GraphEdge =
  ge_From :: string
  ge_To :: string
  ge_Type :: string
  ge_Exploitability :: rat
  ge_Preconditions :: "string list"

record GraphPath =
  gp_NodeIDs :: "string list"
  gp_EdgeTypes :: "string list"
  gp_Strength :: rat
  gp_Class :: string

record AttackGraph =
  ag_Nodes :: "string \<rightharpoonup> GraphNode"
  ag_Adj :: "string \<Rightarrow> GraphEdge list"

definition NewAttackGraph :: AttackGraph where
  "NewAttackGraph = \<lparr>ag_Nodes = Map.empty, ag_Adj = (\<lambda>_. [])\<rparr>"

definition AddNode :: "AttackGraph \<Rightarrow> GraphNode \<Rightarrow> AttackGraph" where
  "AddNode g n = (if gn_ID n = [] then g else g\<lparr>ag_Nodes := (ag_Nodes g)(gn_ID n \<mapsto> n)\<rparr>)"

definition AddEdge :: "FloatArith \<Rightarrow> AttackGraph \<Rightarrow> GraphEdge \<Rightarrow> AttackGraph" where
  "AddEdge F g e = (if ge_From e = [] \<or> ge_To e = [] then g
     else let e = e\<lparr>ge_Exploitability := max (lit F (5 / 100)) (min 1 (ge_Exploitability e))\<rparr>
          in g\<lparr>ag_Adj := (ag_Adj g)(ge_From e := ag_Adj g (ge_From e) @ [e])\<rparr>)"

definition zero_node :: GraphNode where
  "zero_node = \<lparr>gn_ID = [], gn_Type = [], gn_Namespace = [], gn_Label = [], gn_SemanticCaps = []\<rparr>"

definition node_at :: "AttackGraph \<Rightarrow> string \<Rightarrow> GraphNode" where
  "node_at g i = (case ag_Nodes g i of Some n \<Rightarrow> n | None \<Rightarrow> zero_node)"

subsection \<open>Node types, edge types and classes\<close>

abbreviation "NodeTypePod \<equiv> ''pod''"
abbreviation "NodeTypeServiceAccount \<equiv> ''service_account''"
abbreviation "NodeTypeRoleBinding \<equiv> ''role_binding''"
abbreviation "NodeTypeClusterBinding \<equiv> ''cluster_role_binding''"
abbreviation "NodeTypeRole \<equiv> ''role''"
abbreviation "NodeTypeClusterRole \<equiv> ''cluster_role''"
abbreviation "NodeTypeCapability \<equiv> ''capability''"
abbreviation "NodeTypeAttackStep \<equiv> ''attack_step''"
abbreviation "NodeTypeNode \<equiv> ''node''"
abbreviation "EdgeTypeNetworkReach \<equiv> ''NETWORK_REACH''"
abbreviation "EdgeTypeNetworkReachSoft \<equiv> ''NETWORK_REACH_SOFT''"
abbreviation "EdgeTypeServiceAccount \<equiv> ''SERVICE_ACCOUNT_ACCESS''"
abbreviation "EdgeTypeHostAccess \<equiv> ''HOST_ACCESS''"
abbreviation "EdgeTypeContainerEscape \<equiv> ''CONTAINER_ESCAPE''"
abbreviation "EdgeTypeLateralMove \<equiv> ''LATERAL_MOVE''"
abbreviation "EdgeTypeRbacBinding \<equiv> ''RBAC_BINDING''"
abbreviation "EdgeTypeGrantsRole \<equiv> ''GRANTS_ROLE''"
abbreviation "EdgeTypeHasAttackStep \<equiv> ''HAS_ATTACK_STEP''"
abbreviation "EdgeTypeCanStealCredential \<equiv> ''CAN_STEAL_CREDENTIALS''"
abbreviation "PathClassEscape \<equiv> ''ESCAPE_PATH''"
abbreviation "PathClassLateral \<equiv> ''LATERAL_PATH''"
abbreviation "PathClassDataExfil \<equiv> ''DATA_EXFIL_PATH''"
abbreviation "PathClassPrivEsc \<equiv> ''PRIV_ESC_PATH''"

definition privilegeLevelFromID :: "string \<Rightarrow> nat" where
  "privilegeLevelFromID i =
     (let role = ToLower (TrimPrefix (TrimSpace i) ''role:'')
      in if Contains role ''cluster-admin'' then 5
         else if Contains role ''admin'' then 4
         else if Contains role ''edit'' then 3
         else if Contains role ''view'' \<or> Contains role ''read'' then 2
         else 1)"

definition countUncertainEdges :: "string list \<Rightarrow> nat" where
  "countUncertainEdges edgeTypes = length (filter (\<lambda>et. et = EdgeTypeNetworkReachSoft) edgeTypes)"

definition classifyPath :: "string list \<Rightarrow> string \<Rightarrow> string \<Rightarrow> string" where
  "classifyPath edgeTypes endType endID =
     (if list_ex (\<lambda>e. e = EdgeTypeHostAccess \<or> e = EdgeTypeContainerEscape) edgeTypes then PathClassEscape
      else if list_ex (\<lambda>e. e = EdgeTypeNetworkReach \<or> e = EdgeTypeLateralMove) edgeTypes then PathClassLateral
      else if endType = NodeTypeClusterRole \<or> endType = NodeTypeRole then
        (if privilegeLevelFromID endID \<ge> 3 then PathClassPrivEsc else PathClassDataExfil)
      else PathClassDataExfil)"

subsection \<open>Options\<close>

record PathBuildOptions =
  po_BaseMaxDepth :: int
  po_HighRiskMaxDepth :: int
  po_BeamWidth :: int
  po_MinStrength :: rat
  po_MaxPathsPerType :: int
  po_MaxTotalPaths :: int

definition defaultPathBuildOptions :: "FloatArith \<Rightarrow> PathBuildOptions \<Rightarrow> PathBuildOptions" where
  "defaultPathBuildOptions F opts =
     \<lparr>po_BaseMaxDepth = (if po_BaseMaxDepth opts \<le> 0 then 4 else po_BaseMaxDepth opts),
      po_HighRiskMaxDepth = (if po_HighRiskMaxDepth opts \<le> 0 then 5 else po_HighRiskMaxDepth opts),
      po_BeamWidth = (if po_BeamWidth opts \<le> 0 then 5 else po_BeamWidth opts),
      po_MinStrength = (if po_MinStrength opts \<le> 0 then lit F (15 / 100) else po_MinStrength opts),
      po_MaxPathsPerType = (if po_MaxPathsPerType opts \<le> 0 then 2 else po_MaxPathsPerType opts),
      po_MaxTotalPaths = (if po_MaxTotalPaths opts \<le> 0 then 6 else po_MaxTotalPaths opts)\<rparr>"

definition max_depth :: "FloatArith \<Rightarrow> PathBuildOptions \<Rightarrow> bool \<Rightarrow> nat" where
  "max_depth F opts highRiskSource =
     (let o' = defaultPathBuildOptions F opts
      in nat (if highRiskSource then po_HighRiskMaxDepth o' else po_BaseMaxDepth o'))"

subsection \<open>The search\<close>

type_synonym feasibility = "GraphEdge \<Rightarrow> GraphNode \<Rightarrow> GraphNode \<Rightarrow> bool"

record qItem =
  qi_nodeIDs :: "string list"
  qi_edgeTypes :: "string list"
  qi_strength :: rat
  qi_logSum :: rat
  qi_minEdge :: rat
  qi_visited :: "string set"

definition path_strength :: "FloatArith \<Rightarrow> qItem \<Rightarrow> rat" where
  "path_strength F cur =
     (let pathLen = length (qi_edgeTypes cur);
          geometricMean = fl_exp F (fdiv F (qi_logSum cur) (lit F (of_nat pathLen)));
          minEdgeClamped = max (qi_minEdge cur) (lit F (1 / 10));
          hybrid = fadd F (fmul F (lit F (6 / 10)) minEdgeClamped) (fmul F (lit F (4 / 10)) geometricMean);
          penalty = fl_exp F (fmul F (lit F (- 25 / 100)) (lit F (of_nat pathLen)));
          directnessFactor = fdiv F 1 (fadd F 1 (fmul F (lit F (2 / 10)) (lit F (of_nat (max (pathLen - 1) 0)))));
          penalized = fmul F (fmul F hybrid penalty) directnessFactor;
          uncertainEdges = countUncertainEdges (qi_edgeTypes cur);
          penalized = (if uncertainEdges > 0
            then fmul F penalized (max (lit F (3 / 10)) (fl_exp F (fmul F (lit F (- 35 / 100)) (lit F (of_nat uncertainEdges)))))
            else penalized);
          penalized = min 1 penalized
      in round_to F 1000 penalized)"

definition crown_asset :: "GraphNode \<Rightarrow> bool" where
  "crown_asset n \<longleftrightarrow> gn_Type n = NodeTypeNode \<or> gn_Namespace n = ''kube-system''"

definition at_target :: "AttackGraph \<Rightarrow> (string \<Rightarrow> bool) \<Rightarrow> qItem \<Rightarrow> bool" where
  "at_target g targetTypes cur \<longleftrightarrow> targetTypes (gn_Type (node_at g (last (qi_nodeIDs cur)))) \<and> length (qi_edgeTypes cur) > 0"

definition candidate :: "FloatArith \<Rightarrow> AttackGraph \<Rightarrow> (string \<Rightarrow> bool) \<Rightarrow> qItem \<Rightarrow> GraphPath list" where
  "candidate F g targetTypes cur =
     (let lastNode = node_at g (last (qi_nodeIDs cur))
      in if at_target g targetTypes cur
         then [\<lparr>gp_NodeIDs = qi_nodeIDs cur, gp_EdgeTypes = qi_edgeTypes cur, gp_Strength = path_strength F cur,
                gp_Class = classifyPath (qi_edgeTypes cur) (gn_Type lastNode) (gn_ID lastNode)\<rparr>]
         else [])"

definition follow :: "FloatArith \<Rightarrow> AttackGraph \<Rightarrow> feasibility \<Rightarrow> rat \<Rightarrow> qItem \<Rightarrow> GraphEdge \<Rightarrow> qItem list" where
  "follow F g feasible minStrength cur e =
     (case ag_Nodes g (ge_To e) of
        None \<Rightarrow> []
      | Some toNode \<Rightarrow>
          if ge_To e \<in> qi_visited cur then []
          else if \<not> feasible e (node_at g (last (qi_nodeIDs cur))) toNode then []
          else
            let nextStrength = fmul F (qi_strength cur) (ge_Exploitability e)
            in if nextStrength < minStrength then []
               else [\<lparr>qi_nodeIDs = qi_nodeIDs cur @ [ge_To e], qi_edgeTypes = qi_edgeTypes cur @ [ge_Type e],
                      qi_strength = nextStrength,
                      qi_logSum = fadd F (qi_logSum cur) (fl_log F (max (lit F (5 / 100)) (ge_Exploitability e))),
                      qi_minEdge = min (qi_minEdge cur) (ge_Exploitability e),
                      qi_visited = insert (ge_To e) (qi_visited cur)\<rparr>])"

definition expand :: "FloatArith \<Rightarrow> AttackGraph \<Rightarrow> (string \<Rightarrow> bool) \<Rightarrow> feasibility \<Rightarrow> rat \<Rightarrow> nat \<Rightarrow> qItem \<Rightarrow> qItem list" where
  "expand F g targetTypes feasible minStrength maxDepth cur =
     (let lastID = last (qi_nodeIDs cur)
      in if at_target g targetTypes cur \<and> crown_asset (node_at g lastID) then []
         else if length (qi_edgeTypes cur) \<ge> maxDepth then []
         else concat (map (follow F g feasible minStrength cur) (ag_Adj g lastID)))"

fun search_levels :: "FloatArith \<Rightarrow> AttackGraph \<Rightarrow> (string \<Rightarrow> bool) \<Rightarrow> feasibility \<Rightarrow> rat \<Rightarrow> nat \<Rightarrow> nat \<Rightarrow> nat \<Rightarrow> qItem list \<Rightarrow> GraphPath list
    \<Rightarrow> GraphPath list" where
  "search_levels F g targetTypes feasible minStrength beam maxDepth 0 queue candidates = candidates"
| "search_levels F g targetTypes feasible minStrength beam maxDepth (Suc n) queue candidates =
     (if length queue = 0 then candidates
      else
        let nxt = concat (map (expand F g targetTypes feasible minStrength maxDepth) queue);
            nxt = sort_desc qi_strength nxt;
            nxt = (if length nxt > beam then take beam nxt else nxt)
        in search_levels F g targetTypes feasible minStrength beam maxDepth n nxt
             (candidates @ concat (map (candidate F g targetTypes) queue)))"

subsection \<open>The selection\<close>

definition path_key :: "GraphPath \<Rightarrow> string \<times> string \<times> string" where
  "path_key p = (hd (gp_NodeIDs p), last (gp_NodeIDs p), gp_Class p)"

fun insert_best :: "GraphPath \<Rightarrow> GraphPath list \<Rightarrow> GraphPath list" where
  "insert_best p [] = [p]"
| "insert_best p (q # qs) =
     (if path_key q = path_key p then (if gp_Strength p > gp_Strength q then p else q) # qs else q # insert_best p qs)"

definition best_paths :: "GraphPath list \<Rightarrow> GraphPath list" where
  "best_paths ps = foldl (\<lambda>best p. if length (gp_NodeIDs p) < 2 then best else insert_best p best) [] ps"

definition class_group :: "PathBuildOptions \<Rightarrow> GraphPath list \<Rightarrow> string \<Rightarrow> GraphPath list" where
  "class_group opts best cls =
     (let group = sort_desc gp_Strength (filter (\<lambda>p. gp_Class p = cls) best)
      in if int (length group) > po_MaxPathsPerType opts then take (nat (po_MaxPathsPerType opts)) group else group)"

definition path_classes :: "string list" where
  "path_classes = [PathClassEscape, PathClassPrivEsc, PathClassLateral, PathClassDataExfil]"

definition dedupeAndSelectPaths :: "(GraphPath list \<Rightarrow> GraphPath list) \<Rightarrow> GraphPath list \<Rightarrow> PathBuildOptions \<Rightarrow> GraphPath list" where
  "dedupeAndSelectPaths order ps opts =
     (let best = order (best_paths ps);
          out = concat (map (class_group opts best) path_classes);
          out = sort_desc gp_Strength out
      in if int (length out) > po_MaxTotalPaths opts then take (nat (po_MaxTotalPaths opts)) out else out)"

definition BuildTopPathsAdaptive :: "FloatArith \<Rightarrow> (GraphPath list \<Rightarrow> GraphPath list) \<Rightarrow> AttackGraph \<Rightarrow> string \<Rightarrow> (string \<Rightarrow> bool) \<Rightarrow> bool
    \<Rightarrow> PathBuildOptions \<Rightarrow> feasibility \<Rightarrow> GraphPath list" where
  "BuildTopPathsAdaptive F order g startID targetTypes highRiskSource opts0 feasible =
     (let opts = defaultPathBuildOptions F opts0;
          maxDepth = max_depth F opts0 highRiskSource
      in case ag_Nodes g startID of
           None \<Rightarrow> []
         | Some start \<Rightarrow>
             dedupeAndSelectPaths order
               (search_levels F g targetTypes feasible (po_MinStrength opts) (nat (po_BeamWidth opts)) maxDepth (Suc maxDepth)
                  [\<lparr>qi_nodeIDs = [gn_ID start], qi_edgeTypes = [], qi_strength = 1, qi_logSum = 0, qi_minEdge = 1,
                    qi_visited = {gn_ID start}\<rparr>] [])
               opts)"

subsection \<open>Walks\<close>

text \<open>
  The specification of the search: simple walks over feasible edges whose accumulated exploitability never falls below the minimum
  and which end at the first crown asset they reach. The last argument is the accumulated exploitability.
\<close>

inductive attack_walk :: "FloatArith \<Rightarrow> AttackGraph \<Rightarrow> (string \<Rightarrow> bool) \<Rightarrow> feasibility \<Rightarrow> rat \<Rightarrow> string \<Rightarrow> GraphEdge list \<Rightarrow> rat \<Rightarrow> bool"
  for F g targetTypes feasible m s where
  start: "attack_walk F g targetTypes feasible m s [] 1"
| step: "attack_walk F g targetTypes feasible m s es w \<Longrightarrow> u = last (s # map ge_To es) \<Longrightarrow>
     \<not> (es \<noteq> [] \<and> targetTypes (gn_Type (node_at g u)) \<and> crown_asset (node_at g u)) \<Longrightarrow>
     e \<in> set (ag_Adj g u) \<Longrightarrow> ag_Nodes g (ge_To e) = Some v \<Longrightarrow> ge_To e \<notin> set (s # map ge_To es) \<Longrightarrow>
     feasible e (node_at g u) v \<Longrightarrow> m \<le> fmul F w (ge_Exploitability e) \<Longrightarrow>
     attack_walk F g targetTypes feasible m s (es @ [e]) (fmul F w (ge_Exploitability e))"

inductive_cases attack_walk_snocE: "attack_walk F g targetTypes feasible m s (es @ [e]) w"

lemma attack_walk_distinct: "attack_walk F g targetTypes feasible m s es w \<Longrightarrow> distinct (s # map ge_To es)"
  by (induction rule: attack_walk.induct) auto

definition graph_ok :: "AttackGraph \<Rightarrow> bool" where
  "graph_ok g \<longleftrightarrow> (\<forall>k n. ag_Nodes g k = Some n \<longrightarrow> gn_ID n = k \<and> k \<noteq> [])"

lemma graph_ok_new [simp]: "graph_ok NewAttackGraph"
  by (simp add: graph_ok_def NewAttackGraph_def)

lemma graph_ok_AddNode [simp]: "graph_ok g \<Longrightarrow> graph_ok (AddNode g n)"
  by (simp add: graph_ok_def AddNode_def)

lemma graph_ok_AddEdge [simp]: "graph_ok g \<Longrightarrow> graph_ok (AddEdge F g e)"
  by (simp add: graph_ok_def AddEdge_def Let_def)

text \<open>\<open>walk_item\<close> is the queue item of a walk and \<open>walk_path\<close> the path reported for it; \<open>item_walk\<close>: a queue item stands for a
  walk.\<close>

definition start_item :: "string \<Rightarrow> qItem" where
  "start_item s = \<lparr>qi_nodeIDs = [s], qi_edgeTypes = [], qi_strength = 1, qi_logSum = 0, qi_minEdge = 1, qi_visited = {s}\<rparr>"

definition step_item :: "FloatArith \<Rightarrow> qItem \<Rightarrow> GraphEdge \<Rightarrow> qItem" where
  "step_item F q e = \<lparr>qi_nodeIDs = qi_nodeIDs q @ [ge_To e], qi_edgeTypes = qi_edgeTypes q @ [ge_Type e],
     qi_strength = fmul F (qi_strength q) (ge_Exploitability e),
     qi_logSum = fadd F (qi_logSum q) (fl_log F (max (lit F (5 / 100)) (ge_Exploitability e))),
     qi_minEdge = min (qi_minEdge q) (ge_Exploitability e), qi_visited = insert (ge_To e) (qi_visited q)\<rparr>"

definition walk_item :: "FloatArith \<Rightarrow> string \<Rightarrow> GraphEdge list \<Rightarrow> qItem" where
  "walk_item F s es = foldl (step_item F) (start_item s) es"

definition walk_path :: "FloatArith \<Rightarrow> AttackGraph \<Rightarrow> string \<Rightarrow> GraphEdge list \<Rightarrow> GraphPath" where
  "walk_path F g s es =
     (let n = node_at g (last (s # map ge_To es))
      in \<lparr>gp_NodeIDs = s # map ge_To es, gp_EdgeTypes = map ge_Type es, gp_Strength = path_strength F (walk_item F s es),
          gp_Class = classifyPath (map ge_Type es) (gn_Type n) (gn_ID n)\<rparr>)"

definition item_walk :: "FloatArith \<Rightarrow> AttackGraph \<Rightarrow> (string \<Rightarrow> bool) \<Rightarrow> feasibility \<Rightarrow> rat \<Rightarrow> string \<Rightarrow> GraphEdge list \<Rightarrow> qItem \<Rightarrow> bool" where
  "item_walk F g targetTypes feasible m s es q \<longleftrightarrow> attack_walk F g targetTypes feasible m s es (qi_strength q) \<and>
     q = walk_item F s es \<and>
     qi_nodeIDs q = s # map ge_To es \<and> qi_edgeTypes q = map ge_Type es \<and> qi_visited q = set (s # map ge_To es)"

lemma item_walkD:
  assumes "item_walk F g targetTypes feasible m s es q"
  shows "qi_nodeIDs q = s # map ge_To es" "qi_edgeTypes q = map ge_Type es" "qi_visited q = set (s # map ge_To es)"
    "attack_walk F g targetTypes feasible m s es (qi_strength q)" "walk_item F s es = q"
  using assms unfolding item_walk_def by blast+

lemma item_walk_start: "item_walk F g targetTypes feasible m s [] (start_item s)"
  by (simp add: item_walk_def walk_item_def start_item_def attack_walk.start)

lemma follow_item:
  assumes "item_walk F g targetTypes feasible m s es q" "ag_Nodes g (ge_To e) = Some v" "ge_To e \<notin> set (s # map ge_To es)"
    "feasible e (node_at g (last (s # map ge_To es))) v" "m \<le> fmul F (qi_strength q) (ge_Exploitability e)"
  shows "\<exists>q'. follow F g feasible m q e = [q'] \<and> q' = walk_item F s (es @ [e]) \<and> qi_nodeIDs q' = s # map ge_To (es @ [e]) \<and> qi_edgeTypes q' = map ge_Type (es @ [e]) \<and>
    qi_strength q' = fmul F (qi_strength q) (ge_Exploitability e) \<and> qi_visited q' = set (s # map ge_To (es @ [e]))"
proof -
  have "follow F g feasible m q e = [step_item F q e]"
    using assms by (auto simp: item_walk_def follow_def step_item_def Let_def)
  moreover have "walk_item F s (es @ [e]) = step_item F q e" using assms(1) by (simp add: item_walk_def walk_item_def)
  ultimately show ?thesis using assms(1) by (auto simp: item_walk_def step_item_def)
qed

lemma expand_walk:
  assumes "item_walk F g targetTypes feasible m s es q" "q' \<in> set (expand F g targetTypes feasible m d q)"
  shows "\<exists>e. item_walk F g targetTypes feasible m s (es @ [e]) q' \<and> length (es @ [e]) \<le> d"
proof -
  let ?u = "last (s # map ge_To es)"
  have q: "qi_nodeIDs q = s # map ge_To es" "qi_edgeTypes q = map ge_Type es" "qi_visited q = set (s # map ge_To es)"
    "attack_walk F g targetTypes feasible m s es (qi_strength q)"
    using item_walkD [OF assms(1)] by blast+
  have open_end: "\<not> (at_target g targetTypes q \<and> crown_asset (node_at g ?u))" and d: "length es < d"
    and ex: "\<exists>e \<in> set (ag_Adj g ?u). q' \<in> set (follow F g feasible m q e)"
    using assms(2) by (auto simp: expand_def q Let_def split: if_splits)
  then obtain e where e: "e \<in> set (ag_Adj g ?u)" "q' \<in> set (follow F g feasible m q e)" by blast
  from e(2) obtain v where v: "ag_Nodes g (ge_To e) = Some v" "ge_To e \<notin> set (s # map ge_To es)"
    "feasible e (node_at g ?u) v" "m \<le> fmul F (qi_strength q) (ge_Exploitability e)"
    by (cases "ag_Nodes g (ge_To e)") (auto simp: follow_def q Let_def split: if_splits)
  have crown: "\<not> (es \<noteq> [] \<and> targetTypes (gn_Type (node_at g ?u)) \<and> crown_asset (node_at g ?u))"
    using open_end by (auto simp: at_target_def q)
  have "item_walk F g targetTypes feasible m s (es @ [e]) q'"
    using follow_item [OF assms(1) v] e(2) attack_walk.step [OF q(4) refl crown e(1) v]
    by (auto simp: item_walk_def)
  then show ?thesis using d by auto
qed

subsection \<open>The search finds walks\<close>

definition found_path :: "FloatArith \<Rightarrow> AttackGraph \<Rightarrow> (string \<Rightarrow> bool) \<Rightarrow> feasibility \<Rightarrow> rat \<Rightarrow> nat \<Rightarrow> string \<Rightarrow> GraphPath \<Rightarrow> bool" where
  "found_path F g targetTypes feasible m d s p \<longleftrightarrow> (\<exists>es w. attack_walk F g targetTypes feasible m s es w \<and> p = walk_path F g s es \<and>
     es \<noteq> [] \<and> length es \<le> d \<and> targetTypes (gn_Type (node_at g (last (s # map ge_To es)))))"

lemma candidate_walk:
  assumes "item_walk F g targetTypes feasible m s es q"
  shows "candidate F g targetTypes q =
    (if es \<noteq> [] \<and> targetTypes (gn_Type (node_at g (last (s # map ge_To es)))) then [walk_path F g s es] else [])"
proof -
  have q: "qi_nodeIDs q = s # map ge_To es" "qi_edgeTypes q = map ge_Type es" "walk_item F s es = q"
    using item_walkD [OF assms] by blast+
  show ?thesis by (auto simp: candidate_def at_target_def walk_path_def q Let_def)
qed

lemma candidate_found:
  assumes "item_walk F g targetTypes feasible m s es q" "length es \<le> d" "p \<in> set (candidate F g targetTypes q)"
  shows "found_path F g targetTypes feasible m d s p"
proof -
  have "attack_walk F g targetTypes feasible m s es (qi_strength q)" using assms(1) by (rule item_walkD)
  then show ?thesis
    using assms(2,3) candidate_walk [OF assms(1)] by (auto simp: found_path_def split: if_splits)
qed

lemma search_levels_sound:
  assumes "\<forall>q \<in> set queue. \<exists>es. item_walk F g targetTypes feasible m s es q \<and> length es \<le> d"
    "\<forall>p \<in> set cands. found_path F g targetTypes feasible m d s p"
    "p \<in> set (search_levels F g targetTypes feasible m beam d n queue cands)"
  shows "found_path F g targetTypes feasible m d s p"
  using assms
proof (induction n arbitrary: queue cands)
  case 0
  then show ?case by simp
next
  case (Suc n)
  let ?all = "sort_desc qi_strength (concat (map (expand F g targetTypes feasible m d) queue))"
  let ?nxt = "if length ?all > beam then take beam ?all else ?all"
  have sub: "set ?nxt \<subseteq> (\<Union>q \<in> set queue. set (expand F g targetTypes feasible m d q))"
    using set_take_subset [of beam ?all] by (auto split: if_splits)
  have items: "\<forall>q \<in> set ?nxt. \<exists>es. item_walk F g targetTypes feasible m s es q \<and> length es \<le> d"
    using sub Suc.prems(1) expand_walk by (metis (no_types, lifting) UN_E subsetD)
  have cands: "\<forall>p \<in> set (cands @ concat (map (candidate F g targetTypes) queue)). found_path F g targetTypes feasible m d s p"
    using Suc.prems(1,2) candidate_found by fastforce
  show ?case
    using Suc.IH [OF items cands] Suc.prems(2,3) by (auto simp: Let_def split: if_splits)
qed

subsection \<open>With a wide beam it finds all of them\<close>

text \<open>\<open>frontier d\<close>: the queue of level d when nothing is cut off.\<close>

fun frontier :: "FloatArith \<Rightarrow> AttackGraph \<Rightarrow> (string \<Rightarrow> bool) \<Rightarrow> feasibility \<Rightarrow> rat \<Rightarrow> nat \<Rightarrow> string \<Rightarrow> nat \<Rightarrow> qItem list" where
  "frontier F g targetTypes feasible m d s 0 = [start_item s]"
| "frontier F g targetTypes feasible m d s (Suc k) =
     concat (map (expand F g targetTypes feasible m d) (frontier F g targetTypes feasible m d s k))"

lemma walk_in_frontier:
  assumes "attack_walk F g targetTypes feasible m s es w" "length es \<le> d"
  shows "\<exists>q \<in> set (frontier F g targetTypes feasible m d s (length es)). item_walk F g targetTypes feasible m s es q \<and> qi_strength q = w"
  using assms
proof (induction rule: attack_walk.induct)
  case start
  show ?case using item_walk_start [of F g targetTypes feasible m s] by (simp add: start_item_def)
next
  case (step es w u e v)
  then obtain q where q: "q \<in> set (frontier F g targetTypes feasible m d s (length es))"
    "item_walk F g targetTypes feasible m s es q" "qi_strength q = w" by auto
  have ids: "qi_nodeIDs q = s # map ge_To es" "qi_edgeTypes q = map ge_Type es" using item_walkD [OF q(2)] by blast+
  obtain q' where q': "follow F g feasible m q e = [q']" "q' = walk_item F s (es @ [e])" "qi_nodeIDs q' = s # map ge_To (es @ [e])"
    "qi_edgeTypes q' = map ge_Type (es @ [e])" "qi_strength q' = fmul F w (ge_Exploitability e)" "qi_visited q' = set (s # map ge_To (es @ [e]))"
    using follow_item [OF q(2) step.hyps(5,6)] step.hyps(2,7,8) q(3) by blast
  have "expand F g targetTypes feasible m d q = concat (map (follow F g feasible m q) (ag_Adj g u))"
    using step.hyps(2,3) step.prems ids by (auto simp: expand_def at_target_def Let_def)
  then have "q' \<in> set (expand F g targetTypes feasible m d q)" using step.hyps(4) q'(1) by (auto intro!: bexI [of _ e])
  then have "q' \<in> set (frontier F g targetTypes feasible m d s (length (es @ [e])))" using q(1) by auto
  moreover have "item_walk F g targetTypes feasible m s (es @ [e]) q'"
    using attack_walk.step [OF step.hyps(1-8)] q' by (simp add: item_walk_def)
  ultimately show ?case using q'(5) by blast
qed

lemma frontier_empty: "frontier F g targetTypes feasible m d s k = [] \<Longrightarrow> frontier F g targetTypes feasible m d s (k + j) = []"
  by (induction j) auto

lemma search_levels_keeps: "p \<in> set cands \<Longrightarrow> p \<in> set (search_levels F g targetTypes feasible m beam d n queue cands)"
  by (induction n arbitrary: queue cands) (simp_all add: Let_def)

lemma concat_map_mset: "mset xs = mset ys \<Longrightarrow> mset (concat (map f xs)) = mset (concat (map f ys))"
proof -
  assume "mset xs = mset ys"
  then have "sum_mset (image_mset (\<lambda>x. mset (f x)) (mset xs)) = sum_mset (image_mset (\<lambda>x. mset (f x)) (mset ys))" by simp
  then show ?thesis by (simp add: mset_concat comp_def sum_mset_sum_list flip: mset_map)
qed

lemma search_levels_complete:
  assumes "mset queue = mset (frontier F g targetTypes feasible m d s k)" "\<And>j. length (frontier F g targetTypes feasible m d s j) \<le> beam"
    "j < n" "q \<in> set (frontier F g targetTypes feasible m d s (k + j))" "p \<in> set (candidate F g targetTypes q)"
  shows "p \<in> set (search_levels F g targetTypes feasible m beam d n queue cands)"
  using assms
proof (induction n arbitrary: queue cands k j)
  case 0
  then show ?case by simp
next
  case (Suc n)
  let ?all = "sort_desc qi_strength (concat (map (expand F g targetTypes feasible m d) queue))"
  have nonempty: "queue \<noteq> []"
    using Suc.prems(1,4) frontier_empty [of F g targetTypes feasible m d s k j] by auto
  have all: "mset ?all = mset (frontier F g targetTypes feasible m d s (Suc k))"
    using concat_map_mset [OF Suc.prems(1), of "expand F g targetTypes feasible m d"] by simp
  then have "length ?all \<le> beam" using Suc.prems(2) [of "Suc k"] by (metis size_mset)
  then have unfold: "search_levels F g targetTypes feasible m beam d (Suc n) queue cands =
      search_levels F g targetTypes feasible m beam d n ?all (cands @ concat (map (candidate F g targetTypes) queue))"
    using nonempty by (simp add: Let_def)
  show ?case
  proof (cases j)
    case 0
    then have "q \<in> set queue" using Suc.prems(1,4) by (metis add.right_neutral set_mset_mset)
    then have "p \<in> set (cands @ concat (map (candidate F g targetTypes) queue))" using Suc.prems(5) by auto
    then show ?thesis unfolding unfold using search_levels_keeps by blast
  next
    case (Suc i)
    then show ?thesis unfolding unfold using Suc.IH [OF all Suc.prems(2), of i] Suc.prems(3-5) by simp
  qed
qed

subsection \<open>The selection\<close>

lemma insert_best_keys: "path_key ` set (insert_best p qs) = insert (path_key p) (path_key ` set qs)"
  by (induction qs) auto

lemma insert_best_distinct: "distinct (map path_key qs) \<Longrightarrow> distinct (map path_key (insert_best p qs))"
proof (induction qs)
  case (Cons q qs)
  then show ?case using insert_best_keys [of p qs] by auto
qed simp

lemma insert_best_subset: "set (insert_best p qs) \<subseteq> insert p (set qs)"
  by (induction qs) auto

lemma insert_best_dominates:
  "r \<in> insert p (set qs) \<Longrightarrow> \<exists>q \<in> set (insert_best p qs). path_key q = path_key r \<and> gp_Strength r \<le> gp_Strength q"
proof (induction qs)
  case (Cons a qs)
  show ?case
  proof (cases "path_key a = path_key p")
    case True
    then show ?thesis using Cons.prems by (auto simp: not_less)
  next
    case False
    show ?thesis
    proof (cases "r = a")
      case True
      then show ?thesis using False by simp
    next
      case False
      then have "r \<in> insert p (set qs)" using Cons.prems by auto
      then show ?thesis using Cons.IH \<open>path_key a \<noteq> path_key p\<close> by simp
    qed
  qed
qed simp

lemma best_paths_snoc [simp]:
  "best_paths (ps @ [p]) = (if length (gp_NodeIDs p) < 2 then best_paths ps else insert_best p (best_paths ps))"
  by (simp add: best_paths_def)

lemma best_paths_subset: "set (best_paths ps) \<subseteq> set ps"
proof (induction ps rule: rev_induct)
  case (snoc p ps)
  then show ?case using insert_best_subset [of p "best_paths ps"] by auto
qed (simp add: best_paths_def)

lemma best_paths_distinct: "distinct (map path_key (best_paths ps))"
  by (induction ps rule: rev_induct) (simp_all add: insert_best_distinct, simp add: best_paths_def)

lemma best_paths_dominate:
  "p \<in> set ps \<Longrightarrow> 2 \<le> length (gp_NodeIDs p) \<Longrightarrow> \<exists>q \<in> set (best_paths ps). path_key q = path_key p \<and> gp_Strength p \<le> gp_Strength q"
proof (induction ps rule: rev_induct)
  case (snoc r ps)
  show ?case
  proof (cases "p \<in> set ps")
    case True
    then obtain q where q: "q \<in> set (best_paths ps)" "path_key q = path_key p" "gp_Strength p \<le> gp_Strength q"
      using snoc by blast
    show ?thesis
    proof (cases "length (gp_NodeIDs r) < 2")
      case True
      then show ?thesis using q by auto
    next
      case False
      have "q \<in> insert r (set (best_paths ps))" using q(1) by simp
      from insert_best_dominates [OF this] obtain t where t: "t \<in> set (insert_best r (best_paths ps))"
        "path_key t = path_key q" "gp_Strength q \<le> gp_Strength t" by blast
      have "gp_Strength p \<le> gp_Strength t" using q(3) t(3) by (rule order_trans)
      then show ?thesis using t q(2) False by (intro bexI [of _ t]) auto
    qed
  next
    case False
    then show ?thesis using snoc.prems insert_best_dominates [of p p "best_paths ps"] by auto
  qed
qed simp

lemma class_group_props:
  "set (class_group opts best c) \<subseteq> {p \<in> set best. gp_Class p = c}"
  "0 \<le> po_MaxPathsPerType opts \<Longrightarrow> length (class_group opts best c) \<le> nat (po_MaxPathsPerType opts)"
  "distinct (map path_key best) \<Longrightarrow> distinct (map path_key (class_group opts best c))"
proof -
  let ?f = "filter (\<lambda>p. gp_Class p = c) best" let ?s = "sort_desc gp_Strength ?f"
  have take: "set (take n ?s) \<subseteq> set ?s" for n by (rule set_take_subset)
  have "set ?s = {p \<in> set best. gp_Class p = c}" by auto
  then show "set (class_group opts best c) \<subseteq> {p \<in> set best. gp_Class p = c}"
    using take by (auto simp: class_group_def Let_def)
  show "0 \<le> po_MaxPathsPerType opts \<Longrightarrow> length (class_group opts best c) \<le> nat (po_MaxPathsPerType opts)"
    by (auto simp: class_group_def Let_def)
  assume "distinct (map path_key best)"
  then have "distinct (map path_key ?f)" by (simp add: distinct_map_filter)
  moreover have "mset (map path_key ?s) = mset (map path_key ?f)" by simp
  ultimately have "distinct (map path_key ?s)" by (metis mset_eq_imp_distinct_iff)
  then show "distinct (map path_key (class_group opts best c))"
    by (auto simp: class_group_def Let_def take_map [symmetric] distinct_take)
qed

lemma class_group_dominates:
  assumes "b \<in> set best" "0 \<le> po_MaxPathsPerType opts"
  shows "b \<in> set (class_group opts best (gp_Class b)) \<or>
    (length (class_group opts best (gp_Class b)) = nat (po_MaxPathsPerType opts) \<and>
     (\<forall>q \<in> set (class_group opts best (gp_Class b)). gp_Strength b \<le> gp_Strength q))"
proof -
  let ?f = "filter (\<lambda>p. gp_Class p = gp_Class b) best"
  have b: "b \<in> set ?f" using assms(1) by simp
  show ?thesis
  proof (cases "int (length ?f) > po_MaxPathsPerType opts")
    case True
    then have "class_group opts best (gp_Class b) = take (nat (po_MaxPathsPerType opts)) (sort_desc gp_Strength ?f)"
      by (simp add: class_group_def Let_def)
    then show ?thesis using sort_desc_take_dominates [OF b] by metis
  next
    case False
    then show ?thesis using b by (simp add: class_group_def Let_def)
  qed
qed

lemma grouped_distinct:
  assumes "\<And>c. set (G c) \<subseteq> {p. gp_Class p = c}" "\<And>c. distinct (map path_key (G c))" "distinct cs"
  shows "distinct (map path_key (concat (map G cs)))"
  using assms(3)
proof (induction cs)
  case (Cons c cs)
  have "gp_Class q \<in> set cs" if "q \<in> set (concat (map G cs))" for q using that assms(1) by auto
  moreover have "gp_Class q = c" if "q \<in> set (G c)" for q using that assms(1) by auto
  ultimately have "path_key ` set (G c) \<inter> path_key ` set (concat (map G cs)) = {}"
    using Cons.prems by (auto simp del: set_concat simp: path_key_def)
  then show ?case using Cons assms(2) by (simp add: distinct_append) 
qed simp

lemma grouped_count:
  assumes "\<And>c. set (G c) \<subseteq> {p. gp_Class p = c}" "distinct cs"
  shows "length (filter (\<lambda>p. gp_Class p = c) (concat (map G cs))) \<le> length (G c)"
  using assms(2)
proof (induction cs)
  case (Cons d cs)
  show ?case
  proof (cases "d = c")
    case True
    then have "\<forall>e \<in> set cs. \<forall>p \<in> set (G e). gp_Class p \<noteq> c" using Cons.prems assms(1) by fastforce
    then have "filter (\<lambda>p. gp_Class p = c) (concat (map G cs)) = []" by (auto simp: filter_empty_conv)
    then show ?thesis using True by simp
  next
    case False
    then have "filter (\<lambda>p. gp_Class p = c) (G d) = []" using assms(1) by (fastforce simp: filter_empty_conv)
    then show ?thesis using Cons by simp
  qed
qed simp

lemma distinct_path_classes: "distinct path_classes"
  by (simp add: path_classes_def)

lemma classifyPath_class: "classifyPath ets t i \<in> set path_classes"
  by (simp add: classifyPath_def path_classes_def)

text \<open>The selected paths before the total is cut.\<close>

definition grouped :: "(GraphPath list \<Rightarrow> GraphPath list) \<Rightarrow> GraphPath list \<Rightarrow> PathBuildOptions \<Rightarrow> GraphPath list" where
  "grouped order ps opts = concat (map (class_group opts (order (best_paths ps))) path_classes)"

lemma dedupe_grouped: "dedupeAndSelectPaths order ps opts =
   (if int (length (grouped order ps opts)) > po_MaxTotalPaths opts
    then take (nat (po_MaxTotalPaths opts)) (sort_desc gp_Strength (grouped order ps opts))
    else sort_desc gp_Strength (grouped order ps opts))"
  by (simp add: dedupeAndSelectPaths_def grouped_def Let_def)

lemma dedupe_subset: "set (dedupeAndSelectPaths order ps opts) \<subseteq> set (grouped order ps opts)"
  using set_take_subset [of _ "sort_desc gp_Strength (grouped order ps opts)"] by (auto simp: dedupe_grouped)

lemma dedupe_keeps_or_full:
  assumes "b \<in> set (grouped order ps opts)" "b \<notin> set (dedupeAndSelectPaths order ps opts)"
  shows "length (dedupeAndSelectPaths order ps opts) = nat (po_MaxTotalPaths opts) \<and>
    (\<forall>q \<in> set (dedupeAndSelectPaths order ps opts). gp_Strength b \<le> gp_Strength q)"
proof -
  have cut: "int (length (grouped order ps opts)) > po_MaxTotalPaths opts"
    using assms by (auto simp: dedupe_grouped split: if_splits)
  then show ?thesis using assms sort_desc_take_dominates [OF assms(1)] by (auto simp: dedupe_grouped)
qed

lemma order_set: "\<forall>xs. mset (order xs) = mset xs \<Longrightarrow> set (order ys) = set ys"
  by (metis mset_eq_setD)

lemma grouped_subset: "\<forall>xs. mset (order xs) = mset xs \<Longrightarrow> set (grouped order ps opts) \<subseteq> set (best_paths ps)"
  using class_group_props(1) [of opts "order (best_paths ps)"] order_set [of order "best_paths ps"]
  by (fastforce simp: grouped_def)

lemma grouped_dominates:
  assumes "\<forall>xs. mset (order xs) = mset xs" "p \<in> set ps" "2 \<le> length (gp_NodeIDs p)" "gp_Class p \<in> set path_classes"
    "0 \<le> po_MaxPathsPerType opts"
  shows "(\<exists>q \<in> set (grouped order ps opts). path_key q = path_key p \<and> gp_Strength p \<le> gp_Strength q) \<or>
    (\<exists>Q \<subseteq> set (grouped order ps opts). card Q = nat (po_MaxPathsPerType opts) \<and>
       (\<forall>q \<in> Q. gp_Class q = gp_Class p \<and> gp_Strength p \<le> gp_Strength q))"
proof -
  let ?best = "order (best_paths ps)" let ?G = "class_group opts ?best (gp_Class p)"
  obtain b where b: "b \<in> set ?best" "path_key b = path_key p" "gp_Strength p \<le> gp_Strength b"
    using best_paths_dominate [OF assms(2,3)] order_set [OF assms(1)] by metis
  have cls: "gp_Class b = gp_Class p" using b(2) by (simp add: path_key_def)
  have sub: "set ?G \<subseteq> set (grouped order ps opts)" using assms(4) by (auto simp: grouped_def)
  have "distinct (map path_key ?best)"
    using best_paths_distinct [of ps] assms(1) by (metis mset_eq_imp_distinct_iff mset_map)
  then have "distinct ?G" using class_group_props(3) distinct_map by blast
  then have card: "card (set ?G) = length ?G" by (rule distinct_card)
  consider "b \<in> set ?G" | "length ?G = nat (po_MaxPathsPerType opts)" "\<forall>q \<in> set ?G. gp_Strength b \<le> gp_Strength q"
    using class_group_dominates [OF b(1) assms(5)] cls by auto
  then show ?thesis
  proof cases
    case 1
    then show ?thesis using sub b(2,3) by blast
  next
    case 2
    have "\<forall>q \<in> set ?G. gp_Class q = gp_Class p \<and> gp_Strength p \<le> gp_Strength q"
      using 2(2) b(3) class_group_props(1) [of opts ?best "gp_Class p"] by fastforce
    then show ?thesis using sub card 2(1) by (intro disjI2 exI [of _ "set ?G"]) simp
  qed
qed

definition dominated :: "PathBuildOptions \<Rightarrow> GraphPath list \<Rightarrow> GraphPath \<Rightarrow> bool" where
  "dominated opts out p \<longleftrightarrow>
     (\<exists>q \<in> set out. path_key q = path_key p \<and> gp_Strength p \<le> gp_Strength q) \<or>
     (\<exists>Q \<subseteq> set out. card Q = nat (po_MaxPathsPerType opts) \<and> (\<forall>q \<in> Q. gp_Class q = gp_Class p \<and> gp_Strength p \<le> gp_Strength q)) \<or>
     (length out = nat (po_MaxTotalPaths opts) \<and> (\<forall>q \<in> set out. gp_Strength p \<le> gp_Strength q))"

lemma dedupe_dominates:
  assumes "\<forall>xs. mset (order xs) = mset xs" "p \<in> set ps" "2 \<le> length (gp_NodeIDs p)" "gp_Class p \<in> set path_classes"
    "0 \<le> po_MaxPathsPerType opts"
  shows "dominated opts (dedupeAndSelectPaths order ps opts) p"
proof (cases "\<exists>b \<in> set (grouped order ps opts). b \<notin> set (dedupeAndSelectPaths order ps opts) \<and> gp_Strength p \<le> gp_Strength b")
  case True
  then obtain b where b: "b \<in> set (grouped order ps opts)" "b \<notin> set (dedupeAndSelectPaths order ps opts)" "gp_Strength p \<le> gp_Strength b"
    by blast
  have "\<forall>q \<in> set (dedupeAndSelectPaths order ps opts). gp_Strength p \<le> gp_Strength q"
    using dedupe_keeps_or_full [OF b(1,2)] b(3) order_trans by blast
  then show ?thesis using dedupe_keeps_or_full [OF b(1,2)] by (simp add: dominated_def)
next
  case False
  then have keep: "b \<in> set (dedupeAndSelectPaths order ps opts)"
    if "b \<in> set (grouped order ps opts)" "gp_Strength p \<le> gp_Strength b" for b using that by blast
  from grouped_dominates [OF assms] show ?thesis
  proof
    assume "\<exists>q \<in> set (grouped order ps opts). path_key q = path_key p \<and> gp_Strength p \<le> gp_Strength q"
    then show ?thesis using keep unfolding dominated_def by blast
  next
    assume "\<exists>Q \<subseteq> set (grouped order ps opts). card Q = nat (po_MaxPathsPerType opts) \<and>
       (\<forall>q \<in> Q. gp_Class q = gp_Class p \<and> gp_Strength p \<le> gp_Strength q)"
    then obtain Q where Q: "Q \<subseteq> set (grouped order ps opts)" "card Q = nat (po_MaxPathsPerType opts)"
       "\<forall>q \<in> Q. gp_Class q = gp_Class p \<and> gp_Strength p \<le> gp_Strength q" by blast
    have "Q \<subseteq> set (dedupeAndSelectPaths order ps opts)" using Q(1,3) keep by blast
    then show ?thesis unfolding dominated_def using Q(2,3) by blast
  qed
qed

lemma count_take_le: "length (filter P (take n xs)) \<le> length (filter P xs)"
  by (metis append_take_drop_id filter_append le_add1 length_append)

lemma dedupe_bounds:
  assumes "\<forall>xs. mset (order xs) = mset xs" "0 \<le> po_MaxPathsPerType opts" "0 \<le> po_MaxTotalPaths opts"
    and out_def: "out = dedupeAndSelectPaths order ps opts"
  shows "int (length out) \<le> po_MaxTotalPaths opts" "int (length (filter (\<lambda>p. gp_Class p = c) out)) \<le> po_MaxPathsPerType opts"
    "distinct (map path_key out)" "sorted_wrt (\<lambda>p q. gp_Strength q \<le> gp_Strength p) out"
proof -
  let ?best = "order (best_paths ps)" let ?g = "grouped order ps opts" let ?s = "sort_desc gp_Strength ?g"
  have best: "distinct (map path_key ?best)"
    using best_paths_distinct [of ps] assms(1) by (metis mset_eq_imp_distinct_iff mset_map)
  have cls: "\<And>c. set (class_group opts ?best c) \<subseteq> {p. gp_Class p = c}" using class_group_props(1) by blast
  have "distinct (map path_key ?g)" unfolding grouped_def
    using cls class_group_props(3) [OF best] distinct_path_classes by (rule grouped_distinct)
  then have dist: "distinct (map path_key ?s)" by (metis mset_eq_imp_distinct_iff mset_map mset_sort_desc)
  have "length (filter (\<lambda>p. gp_Class p = c) ?g) \<le> nat (po_MaxPathsPerType opts)" unfolding grouped_def
    using grouped_count [OF cls distinct_path_classes, of c] class_group_props(2) [OF assms(2), of ?best c] by simp
  moreover have "length (filter (\<lambda>p. gp_Class p = c) ?s) = length (filter (\<lambda>p. gp_Class p = c) ?g)"
    by (metis mset_filter mset_sort_desc size_mset)
  ultimately have count: "length (filter (\<lambda>p. gp_Class p = c) ?s) \<le> nat (po_MaxPathsPerType opts)" by simp
  have out: "out = ?s \<or> out = take (nat (po_MaxTotalPaths opts)) ?s" by (simp add: out_def dedupe_grouped)
  show "int (length out) \<le> po_MaxTotalPaths opts" using assms(3) by (auto simp: out_def dedupe_grouped)
  have "length (filter (\<lambda>p. gp_Class p = c) out) \<le> nat (po_MaxPathsPerType opts)"
    using out count count_take_le [of "\<lambda>p. gp_Class p = c" "nat (po_MaxTotalPaths opts)" ?s] by auto
  then show "int (length (filter (\<lambda>p. gp_Class p = c) out)) \<le> po_MaxPathsPerType opts" using assms(2) by simp
  show "distinct (map path_key out)" using out dist by (auto simp: take_map [symmetric] distinct_take)
  show "sorted_wrt (\<lambda>p q. gp_Strength q \<le> gp_Strength p) out"
    using out sort_desc_sorted [of gp_Strength ?g] by (auto simp: sorted_wrt_take)
qed

lemma search_levels_all:
  assumes "\<And>q p. p \<in> set (candidate F g targetTypes q) \<Longrightarrow> P p" "\<forall>p \<in> set cands. P p"
    "p \<in> set (search_levels F g targetTypes feasible m beam d n queue cands)"
  shows "P p"
  using assms(2,3)
proof (induction n arbitrary: queue cands)
  case (Suc n)
  have cands: "\<forall>p \<in> set (cands @ concat (map (candidate F g targetTypes) queue)). P p"
    using Suc.prems(1) assms(1) by auto
  show ?case using Suc.IH [OF cands] Suc.prems by (auto simp: Let_def split: if_splits)
qed simp

lemma path_strength_unit:
  assumes "float_laws F"
  shows "0 \<le> path_strength F q \<and> path_strength F q \<le> 1"
proof -
  note nn = fmul_nonneg [OF assms] fadd_nonneg [OF assms] fdiv_nonneg [OF assms] exp_nonneg [OF assms] rnd_nonneg [OF assms]
  have "round_to F 1000 (min 1 x) \<ge> 0 \<and> round_to F 1000 (min 1 x) \<le> 1" if "0 \<le> x" for x
    using round_to_unit [OF assms, of "min 1 x" 1000] that by simp
  moreover have "max a (lit F (1 / 10)) \<ge> 0" "max (lit F (3 / 10)) a \<ge> 0" for a
    using nn(5) [of "1 / 10"] nn(5) [of "3 / 10"] by (simp_all add: le_max_iff_disj)
  ultimately show ?thesis
    unfolding path_strength_def Let_def by (simp add: nn)
qed

subsection \<open>Properties\<close>

lemma BuildTopPathsAdaptive_start:
  assumes "graph_ok g" "ag_Nodes g s = Some v"
  shows "BuildTopPathsAdaptive F order g s targetTypes high opts feasible =
    dedupeAndSelectPaths order (search_levels F g targetTypes feasible (po_MinStrength (defaultPathBuildOptions F opts))
      (nat (po_BeamWidth (defaultPathBuildOptions F opts))) (max_depth F opts high) (Suc (max_depth F opts high)) [start_item s] [])
      (defaultPathBuildOptions F opts)"
  using assms by (simp add: BuildTopPathsAdaptive_def start_item_def graph_ok_def Let_def)

lemma default_options_positive:
  "0 < po_MaxPathsPerType (defaultPathBuildOptions F opts)" "0 < po_MaxTotalPaths (defaultPathBuildOptions F opts)"
  by (simp_all add: defaultPathBuildOptions_def)

lemma found_path_simple:
  assumes "found_path F g targetTypes feasible m d s p"
  shows "distinct (gp_NodeIDs p)" "2 \<le> length (gp_NodeIDs p)" "gp_Class p \<in> set path_classes"
  using assms attack_walk_distinct [of F g targetTypes feasible m s]
  by (auto simp: found_path_def walk_path_def classifyPath_class Let_def Suc_le_eq)

lemma BuildTopPathsAdaptive_found:
  assumes "graph_ok g" "\<forall>xs. mset (order xs) = mset xs" "p \<in> set (BuildTopPathsAdaptive F order g s targetTypes high opts feasible)"
  shows "found_path F g targetTypes feasible (po_MinStrength (defaultPathBuildOptions F opts)) (max_depth F opts high) s p"
proof (cases "ag_Nodes g s")
  case None
  then show ?thesis using assms(3) by (simp add: BuildTopPathsAdaptive_def Let_def)
next
  case (Some v)
  let ?o = "defaultPathBuildOptions F opts"
  let ?c = "search_levels F g targetTypes feasible (po_MinStrength ?o) (nat (po_BeamWidth ?o)) (max_depth F opts high)
    (Suc (max_depth F opts high)) [start_item s] []"
  have "p \<in> set (best_paths ?c)"
    using assms(3) dedupe_subset grouped_subset [OF assms(2)] BuildTopPathsAdaptive_start [OF assms(1) Some] by (metis subsetD)
  then have "p \<in> set ?c" using best_paths_subset by blast
  moreover have items: "\<forall>q \<in> set [start_item s]. \<exists>es. item_walk F g targetTypes feasible (po_MinStrength ?o) s es q \<and> length es \<le> max_depth F opts high"
    using item_walk_start by fastforce
  moreover have "\<forall>p \<in> set []. found_path F g targetTypes feasible (po_MinStrength ?o) (max_depth F opts high) s p" by simp
  ultimately show ?thesis using search_levels_sound [OF items] by blast
qed

definition tie_node :: "string \<Rightarrow> string \<Rightarrow> GraphNode" where
  "tie_node i t = \<lparr>gn_ID = i, gn_Type = t, gn_Namespace = ''a'', gn_Label = i, gn_SemanticCaps = []\<rparr>"

definition tie_edge :: "string \<Rightarrow> string \<Rightarrow> GraphEdge" where
  "tie_edge u v = \<lparr>ge_From = u, ge_To = v, ge_Type = EdgeTypeGrantsRole, ge_Exploitability = 1, ge_Preconditions = []\<rparr>"

definition tie_graph :: AttackGraph where
  "tie_graph = foldl (AddEdge exact_arith) (foldl AddNode NewAttackGraph
     [tie_node ''p'' NodeTypePod, tie_node ''r1'' NodeTypeRole, tie_node ''r2'' NodeTypeRole, tie_node ''r3'' NodeTypeRole])
     [tie_edge ''p'' ''r1'', tie_edge ''p'' ''r2'', tie_edge ''p'' ''r3'']"

definition no_options :: PathBuildOptions where
  "no_options = \<lparr>po_BaseMaxDepth = 0, po_HighRiskMaxDepth = 0, po_BeamWidth = 0, po_MinStrength = 0, po_MaxPathsPerType = 0,
     po_MaxTotalPaths = 0\<rparr>"

abbreviation tie_paths :: "(GraphPath list \<Rightarrow> GraphPath list) \<Rightarrow> GraphPath list" where
  "tie_paths order \<equiv> BuildTopPathsAdaptive exact_arith order tie_graph ''p'' (\<lambda>t. t = NodeTypeRole) False no_options (\<lambda>_ _ _. True)"

lemma tie_graph_ok: "graph_ok tie_graph"
  by (simp add: tie_graph_def)

lemma tie_paths_ids: "map gp_NodeIDs (tie_paths (\<lambda>xs. xs)) = [[''p'', ''r1''], [''p'', ''r2'']]"
  "map gp_NodeIDs (tie_paths rev) = [[''p'', ''r3''], [''p'', ''r2'']]"
  by code_simp+

text \<open>
  C21. Every reported attack path is a walk of the graph: from the start to a target type, along edges of the graph that are
  feasible, without repeating a node, without going on behind a crown asset, within the depth for the
  risk of the source, and never below the minimal accumulated exploitability. Its strength and class are those of
  the walk.
\<close>

theorem attack_paths_are_feasible_walks:
  assumes "graph_ok g" "\<forall>xs. mset (order xs) = mset xs"
    "p \<in> set (BuildTopPathsAdaptive F order g startID targetTypes highRiskSource opts feasible)"
  shows "\<exists>es w. attack_walk F g targetTypes feasible (po_MinStrength (defaultPathBuildOptions F opts)) startID es w \<and>
    es \<noteq> [] \<and> length es \<le> max_depth F opts highRiskSource \<and>
    gp_NodeIDs p = startID # map ge_To es \<and> distinct (gp_NodeIDs p) \<and> gp_EdgeTypes p = map ge_Type es \<and>
    targetTypes (gn_Type (node_at g (last (gp_NodeIDs p)))) \<and> p = walk_path F g startID es"
proof -
  have found: "found_path F g targetTypes feasible (po_MinStrength (defaultPathBuildOptions F opts)) (max_depth F opts highRiskSource) startID p"
    using assms by (rule BuildTopPathsAdaptive_found)
  then obtain es w where es: "attack_walk F g targetTypes feasible (po_MinStrength (defaultPathBuildOptions F opts)) startID es w"
    "p = walk_path F g startID es" "es \<noteq> []" "length es \<le> max_depth F opts highRiskSource"
    "targetTypes (gn_Type (node_at g (last (startID # map ge_To es))))"
    unfolding found_path_def by blast
  have "gp_NodeIDs p = startID # map ge_To es" "gp_EdgeTypes p = map ge_Type es" by (simp_all only: es(2) walk_path_def Let_def GraphPath.simps)
  then show ?thesis using es found_path_simple(1) [OF found] by (metis (no_types))
qed

theorem attack_paths_are_feasible_walks_witness:
  "\<exists>p es w. p \<in> set (tie_paths rev) \<and> attack_walk exact_arith tie_graph (\<lambda>t. t = NodeTypeRole) (\<lambda>_ _ _. True) (15 / 100) ''p'' es w \<and>
     gp_NodeIDs p = ''p'' # map ge_To es"
proof -
  obtain p where p: "p \<in> set (tie_paths rev)" using tie_paths_ids(2) by (cases "tie_paths rev") auto
  have "po_MinStrength (defaultPathBuildOptions exact_arith no_options) = 15 / 100"
    by (simp add: defaultPathBuildOptions_def no_options_def)
  moreover have "\<forall>xs. mset (rev xs) = mset xs" by simp
  ultimately show ?thesis using attack_paths_are_feasible_walks [OF tie_graph_ok _ p] p by metis
qed

text \<open>
  Whatever the order in which the runtime ranges over the map of best paths, the selection reports at most the configured
  number of paths in total and per class, no two with the same start, end and class, sorted by decreasing strength,
  with strengths between 0 and 1.
\<close>

lemma attack_path_selection_bounded:
  fixes startID :: string and targetTypes :: "string \<Rightarrow> bool" and highRiskSource :: bool and opts :: PathBuildOptions
    and feasible :: feasibility
  assumes "graph_ok g" "\<forall>xs. mset (order xs) = mset xs" "float_laws F"
  defines "out \<equiv> BuildTopPathsAdaptive F order g startID targetTypes highRiskSource opts feasible"
    and "o' \<equiv> defaultPathBuildOptions F opts"
  shows "int (length out) \<le> po_MaxTotalPaths o' \<and> (\<forall>c. int (length (filter (\<lambda>p. gp_Class p = c) out)) \<le> po_MaxPathsPerType o') \<and>
    distinct (map path_key out) \<and> sorted_wrt (\<lambda>p q. gp_Strength q \<le> gp_Strength p) out \<and>
    (\<forall>p \<in> set out. 0 \<le> gp_Strength p \<and> gp_Strength p \<le> 1)"
proof (cases "ag_Nodes g startID")
  case None
  then have "out = []" by (simp add: out_def BuildTopPathsAdaptive_def Let_def)
  then show ?thesis using default_options_positive [of F opts] by (simp add: o'_def)
next
  case (Some v)
  have unit: "\<forall>p \<in> set out. 0 \<le> gp_Strength p \<and> gp_Strength p \<le> 1"
  proof
    fix p assume "p \<in> set out"
    then obtain es where "p = walk_path F g startID es"
      using BuildTopPathsAdaptive_found [OF assms(1,2)] unfolding out_def found_path_def by blast
    then show "0 \<le> gp_Strength p \<and> gp_Strength p \<le> 1" using path_strength_unit [OF assms(3)] by (simp add: walk_path_def Let_def)
  qed
  obtain ps where "out = dedupeAndSelectPaths order ps o'"
    using BuildTopPathsAdaptive_start [OF assms(1) Some] unfolding out_def o'_def by blast
  note bounds = dedupe_bounds [OF assms(2) _ _ this]
  show ?thesis using bounds default_options_positive [of F opts] unit by (simp add: o'_def)
qed

lemma attack_path_selection_bounded_witness:
  "length (tie_paths rev) = 2 \<and> distinct (map path_key (tie_paths rev)) \<and> list_all (\<lambda>p. gp_Strength p \<le> 1) (tie_paths rev)"
proof -
  have "length (tie_paths rev) = 2" using arg_cong [OF tie_paths_ids(2), of length] by simp
  then show ?thesis using attack_path_selection_bounded [of tie_graph rev exact_arith "''p''" "\<lambda>t. t = NodeTypeRole" False no_options "\<lambda>_ _ _. True"]
    tie_graph_ok exact_arith_laws by (simp add: list_all_iff)
qed

text \<open>
  When no level of the search is wider than the beam, nothing stronger is missed: every feasible walk to a target within
  the depth is reported, or a path with its start, end and class that is at least as strong is, or its class or the
  whole report is full of paths that are at least as strong.
\<close>

lemma wide_beam_misses_nothing_stronger:
  assumes "graph_ok g" "ag_Nodes g startID \<noteq> None" "\<forall>xs. mset (order xs) = mset xs"
    and wide: "\<forall>j. length (frontier F g targetTypes feasible (po_MinStrength (defaultPathBuildOptions F opts)) (max_depth F opts highRiskSource) startID j)
      \<le> nat (po_BeamWidth (defaultPathBuildOptions F opts))"
    and walk: "attack_walk F g targetTypes feasible (po_MinStrength (defaultPathBuildOptions F opts)) startID es w"
      "es \<noteq> []" "length es \<le> max_depth F opts highRiskSource" "targetTypes (gn_Type (node_at g (last (startID # map ge_To es))))"
  shows "dominated (defaultPathBuildOptions F opts) (BuildTopPathsAdaptive F order g startID targetTypes highRiskSource opts feasible)
    (walk_path F g startID es)"
proof -
  let ?o = "defaultPathBuildOptions F opts" let ?d = "max_depth F opts highRiskSource"
  let ?c = "search_levels F g targetTypes feasible (po_MinStrength ?o) (nat (po_BeamWidth ?o)) ?d (Suc ?d) [start_item startID] []"
  obtain v where v: "ag_Nodes g startID = Some v" using assms(2) by blast
  obtain q where q: "q \<in> set (frontier F g targetTypes feasible (po_MinStrength ?o) ?d startID (0 + length es))"
    "item_walk F g targetTypes feasible (po_MinStrength ?o) startID es q"
    using walk_in_frontier [OF walk(1,3)] by auto
  have cand: "walk_path F g startID es \<in> set (candidate F g targetTypes q)"
    using candidate_walk [OF q(2)] walk(2,4) by simp
  have c: "walk_path F g startID es \<in> set ?c"
    by (rule search_levels_complete [OF _ spec [OF wide] _ q(1) cand]) (use walk(3) in simp_all)
  have "2 \<le> length (gp_NodeIDs (walk_path F g startID es))" "gp_Class (walk_path F g startID es) \<in> set path_classes"
    using walk(2) classifyPath_class by (auto simp: walk_path_def Let_def Suc_le_eq)
  then have "dominated ?o (dedupeAndSelectPaths order ?c ?o) (walk_path F g startID es)"
    using dedupe_dominates [OF assms(3) c] default_options_positive(1) [of F opts] by simp
  then show ?thesis using BuildTopPathsAdaptive_start [OF assms(1) v] by metis
qed

lemma tie_frontier: "length (frontier exact_arith tie_graph (\<lambda>t. t = NodeTypeRole) (\<lambda>_ _ _. True) (15 / 100) 4 ''p'' j) \<le> 5"
proof -
  define f where "f = frontier exact_arith tie_graph (\<lambda>t. t = NodeTypeRole) (\<lambda>_ _ _. True) (15 / 100) 4 ''p''"
  have f: "length (f 0) \<le> 5" "length (f 1) \<le> 5" "f 2 = []" unfolding f_def by code_simp+
  have later: "f (2 + k) = []" for k using f(3) frontier_empty unfolding f_def by blast
  consider "j = 0" | "j = 1" | k where "j = 2 + k" using le_Suc_ex [of 2 j] by fastforce
  then have "length (f j) \<le> 5" by cases (use f later in simp_all)
  then show ?thesis by (simp only: f_def)
qed

lemma tie_walk: "attack_walk exact_arith tie_graph (\<lambda>t. t = NodeTypeRole) (\<lambda>_ _ _. True) (15 / 100) ''p'' [tie_edge ''p'' ''r1''] 1"
proof -
  let ?e = "tie_edge ''p'' ''r1''"
  have e: "?e \<in> set (ag_Adj tie_graph ''p'')" "\<exists>v. ag_Nodes tie_graph (ge_To ?e) = Some v" "ge_To ?e \<noteq> ''p''"
    "fmul exact_arith 1 (ge_Exploitability ?e) = 1"
    by (simp_all add: tie_graph_def tie_edge_def tie_node_def AddEdge_def AddNode_def NewAttackGraph_def Let_def)
  then obtain v where v: "ag_Nodes tie_graph (ge_To ?e) = Some v" by blast
  have "attack_walk exact_arith tie_graph (\<lambda>t. t = NodeTypeRole) (\<lambda>_ _ _. True) (15 / 100) ''p'' ([] @ [?e]) (fmul exact_arith 1 (ge_Exploitability ?e))"
    by (rule attack_walk.step [OF attack_walk.start refl _ _ v]) (use e in simp_all)
  then show ?thesis using e(4) by simp
qed

lemma wide_beam_misses_nothing_stronger_witness:
  "dominated (defaultPathBuildOptions exact_arith no_options) (tie_paths rev) (walk_path exact_arith tie_graph ''p'' [tie_edge ''p'' ''r1''])"
proof -
  have opts: "po_MinStrength (defaultPathBuildOptions exact_arith no_options) = 15 / 100"
    "nat (po_BeamWidth (defaultPathBuildOptions exact_arith no_options)) = 5" "max_depth exact_arith no_options False = 4"
    by (simp_all add: defaultPathBuildOptions_def no_options_def max_depth_def)
  have nodes: "ag_Nodes tie_graph ''p'' \<noteq> None" "gn_Type (node_at tie_graph ''r1'') = NodeTypeRole"
    by (simp_all add: tie_graph_def tie_edge_def tie_node_def node_at_def AddEdge_def AddNode_def NewAttackGraph_def Let_def)
  show ?thesis
    by (rule wide_beam_misses_nothing_stronger [OF tie_graph_ok nodes(1), where w = 1])
      (use nodes(2) tie_walk tie_frontier in \<open>simp_all only: opts, simp_all add: tie_edge_def\<close>)
qed

text \<open>
  The comment on \<^verbatim>\<open>GraphPath\<close> calls a path a deterministic traversal result. When more paths of a class are equally strong than are
  reported, the order of the Go map decides: two runs on the same graph report different roles.
\<close>

lemma reported_paths_depend_on_map_order:
  "[''p'', ''r3''] \<in> gp_NodeIDs ` set (tie_paths rev) \<and> [''p'', ''r3''] \<notin> gp_NodeIDs ` set (tie_paths (\<lambda>xs. xs))"
  using arg_cong [OF tie_paths_ids(1), of set] arg_cong [OF tie_paths_ids(2), of set] by simp

end
