(* ===== verification/Attack_Path.thy ===== *)
theory Attack_Path
  imports Attack_Graph Go_Hex Go_Strconv
begin

section \<open>Attack paths and their identifiers: core/pkg/graph/types.go, path\_key.go\<close>

text \<open>
  Attack paths as they are handed to users, their copies through JSON, and identifiers that depend only on what a path contains.
  SHA-1 is a parameter.
\<close>

subsection \<open>Paths\<close>

text \<open>A property of a node is a string, a \<^verbatim>\<open>[]string\<close>, or what \<^verbatim>\<open>encoding/json\<close> decodes an array to, a
  \<^verbatim>\<open>[]interface{}\<close>.\<close>

datatype PropValue = PropString string | PropStrings "string list" | PropArray "PropValue list"

record PathNode =
  an_ID :: string
  an_Type :: string
  an_Properties :: "(string \<times> PropValue) list"

record PathEdge =
  ae_Type :: string
  ae_Source :: string
  ae_Target :: string

record PathFeasibility =
  pf_NetworkDecision :: string
  pf_Reason :: string
  pf_Confidence :: rat

record PathScoringBreakdown =
  ps_WeakestLink :: rat
  ps_LengthPenalty :: rat
  ps_UncertainPenalty :: rat
  ps_FinalStrength :: rat

record PathRiskInjection =
  pr_E :: rat
  pr_R :: rat
  pr_I :: rat
  pr_Scale :: rat
  pr_EPoints :: rat
  pr_RPoints :: rat
  pr_IPoints :: rat
  pr_EstimatedScoreDelta :: rat

record PathExplainability =
  px_Class :: string
  px_Strength :: rat
  px_Feasibility :: PathFeasibility
  px_Scoring :: PathScoringBreakdown
  px_RiskInject :: PathRiskInjection
  px_Capabilities :: "string list"
  px_AttackSteps :: "string list"

record AttackPath =
  ap_PathID :: string
  ap_Nodes :: "PathNode list"
  ap_Edges :: "PathEdge list"
  ap_TotalRisk :: rat
  ap_Difficulty :: rat
  ap_Impact :: rat
  ap_Length :: nat
  ap_Description :: string
  ap_EnrichedFromPCE :: bool
  ap_Explainability :: "PathExplainability option"

definition prop_string :: "(string \<times> PropValue) list \<Rightarrow> string \<Rightarrow> string" where
  "prop_string props k = (case map_of props k of Some (PropString s) \<Rightarrow> s | _ \<Rightarrow> [])"

text \<open>\<open>cloneAttackPaths\<close> copies through JSON: a \<^verbatim>\<open>[]string\<close> comes back as \<^verbatim>\<open>[]interface{}\<close>.\<close>

fun clone_value :: "PropValue \<Rightarrow> PropValue" where
  "clone_value (PropString s) = PropString s"
| "clone_value (PropStrings ss) = PropArray (map PropString ss)"
| "clone_value (PropArray vs) = PropArray (map clone_value vs)"

definition cloneAttackPaths :: "AttackPath list \<Rightarrow> AttackPath list" where
  "cloneAttackPaths paths = map (\<lambda>p. p\<lparr>ap_Nodes := map (\<lambda>n. n\<lparr>an_Properties := map (\<lambda>kv. (fst kv, clone_value (snd kv)))
     (an_Properties n)\<rparr>) (ap_Nodes p)\<rparr>) paths"

subsection \<open>Identifiers\<close>

definition unit_separator :: char where "unit_separator = CHR 0x1F"
definition group_separator :: char where "group_separator = CHR 0x1D"
definition record_separator :: char where "record_separator = CHR 0x1E"

definition node_text :: "PathNode \<Rightarrow> string" where
  "node_text n = an_Type n @ [unit_separator] @ an_ID n"

definition edge_text :: "PathEdge \<Rightarrow> string" where
  "edge_text e = ae_Type e @ [unit_separator] @ ae_Source e @ [unit_separator] @ ae_Target e"

definition path_preimage :: "AttackPath \<Rightarrow> string" where
  "path_preimage p =
     (if ap_Nodes p = [] then [] else an_ID (hd (ap_Nodes p))) @ [group_separator] @
     concat (map (\<lambda>n. n @ [record_separator]) (sort (map node_text (ap_Nodes p)))) @ [group_separator] @
     concat (map (\<lambda>e. e @ [record_separator]) (sort (map edge_text (ap_Edges p))))"

definition StablePathID :: "(string \<Rightarrow> string) \<Rightarrow> AttackPath \<Rightarrow> string" where
  "StablePathID sha1 p = ''ap_'' @ take 16 (hex_encode (sha1 (path_preimage p)))"

fun number_ids :: "(string \<Rightarrow> nat) \<Rightarrow> string list \<Rightarrow> string list" where
  "number_ids seen [] = []"
| "number_ids seen (i # is) =
     (let n = seen i + 1
      in (if n > 1 then i @ ''-'' @ Itoa n else i) # number_ids (seen(i := n)) is)"

definition StablePathIDs :: "(string \<Rightarrow> string) \<Rightarrow> AttackPath list \<Rightarrow> string list" where
  "StablePathIDs sha1 paths = number_ids (\<lambda>_. 0) (map (StablePathID sha1) paths)"

definition AssignStablePathIDs :: "(string \<Rightarrow> string) \<Rightarrow> AttackPath list \<Rightarrow> AttackPath list" where
  "AssignStablePathIDs sha1 paths = map2 (\<lambda>p i. p\<lparr>ap_PathID := i\<rparr>) paths (StablePathIDs sha1 paths)"

subsection \<open>What identifiers identify\<close>

text \<open>Numbering makes the identifiers distinct when none of them continues another one.\<close>

lemma Itoa_nonempty: "Itoa n \<noteq> []"
  using Itoa_digits by blast

definition numbered :: "string \<Rightarrow> nat \<Rightarrow> string" where
  "numbered i n = (if n > 1 then i @ ''-'' @ Itoa n else i)"

lemma numbered_inj:
  assumes "length i = length j" "numbered i n = numbered j m" "0 < n" "0 < m"
  shows "i = j \<and> n = m"
proof (cases "n > 1"; cases "m > 1")
  assume "n > 1" "m > 1"
  then show ?thesis using assms Itoa_inject by (auto simp: numbered_def)
qed (use assms Itoa_nonempty in \<open>auto simp: numbered_def dest: arg_cong [of _ _ length]\<close>)

lemma number_ids_form:
  "x \<in> set (number_ids seen is) \<Longrightarrow> \<exists>i n. i \<in> set is \<and> x = numbered i n \<and> seen i < n"
proof (induction "is" arbitrary: seen)
  case (Cons i "is")
  show ?case
  proof (cases "x = numbered i (seen i + 1)")
    case True
    then show ?thesis by (intro exI [of _ i] exI [of _ "seen i + 1"]) simp
  next
    case False
    then have "x \<in> set (number_ids (seen(i := seen i + 1)) is)" using Cons.prems by (auto simp: Let_def numbered_def)
    from Cons.IH [OF this] obtain j n where "j \<in> set is" "x = numbered j n" "(seen(i := seen i + 1)) j < n" by blast
    then show ?thesis by (intro exI [of _ j] exI [of _ n]) (auto split: if_splits)
  qed
qed simp

lemma number_ids_distinct:
  assumes "\<forall>i \<in> set is. length i = k"
  shows "distinct (number_ids seen is)"
  using assms
proof (induction "is" arbitrary: seen)
  case (Cons i "is")
  have "numbered i (seen i + 1) \<notin> set (number_ids (seen(i := seen i + 1)) is)"
  proof
    assume "numbered i (seen i + 1) \<in> set (number_ids (seen(i := seen i + 1)) is)"
    then obtain j n where j: "j \<in> set is" "numbered i (seen i + 1) = numbered j n" "(seen(i := seen i + 1)) j < n"
      using number_ids_form by blast
    then have "i = j \<and> seen i + 1 = n" using Cons.prems by (intro numbered_inj) auto
    then show False using j(3) by auto
  qed
  then show ?case using Cons by (simp add: Let_def numbered_def)
qed simp

lemma length_number_ids [simp]: "length (number_ids seen is) = length is"
  by (induction "is" arbitrary: seen) (simp_all add: Let_def)

fun split_at :: "char \<Rightarrow> string \<Rightarrow> string \<times> string" where
  "split_at c [] = ([], [])"
| "split_at c (x # xs) = (if x = c then ([], xs) else let (a, b) = split_at c xs in (x # a, b))"

lemma split_at_text [simp]: "c \<notin> set a \<Longrightarrow> split_at c (a @ c # b) = (a, b)"
  by (induction a) auto

lemma separated_inj:
  fixes c :: char
  assumes "a @ c # b = a' @ c # b'" "c \<notin> set a" "c \<notin> set a'"
  shows "a = a' \<and> b = b'"
proof -
  have "split_at c (a @ c # b) = split_at c (a' @ c # b')" using assms(1) by (rule arg_cong)
  then show ?thesis by (simp only: split_at_text [OF assms(2)] split_at_text [OF assms(3)] prod.inject)
qed

lemma concat_terminated_inj:
  fixes c :: char
  assumes "\<forall>x \<in> set xs \<union> set ys. c \<notin> set x" "concat (map (\<lambda>x. x @ [c]) xs) = concat (map (\<lambda>x. x @ [c]) ys)"
  shows "xs = ys"
  using assms
proof (induction xs arbitrary: ys)
  case Nil
  then show ?case by (cases ys) auto
next
  case (Cons x xs)
  then obtain y zs where ys: "ys = y # zs" by (cases ys) auto
  have "x @ c # concat (map (\<lambda>x. x @ [c]) xs) = y @ c # concat (map (\<lambda>x. x @ [c]) zs)" "c \<notin> set x" "c \<notin> set y"
    using Cons.prems ys by auto
  then have "x = y" "concat (map (\<lambda>x. x @ [c]) xs) = concat (map (\<lambda>x. x @ [c]) zs)"
    using separated_inj [of x c _ y] by blast+
  then show ?case using Cons ys by auto
qed

text \<open>\<open>plain s\<close>: the text has no separator; node and edge texts can be taken apart.\<close>

definition plain :: "string \<Rightarrow> bool" where
  "plain s \<longleftrightarrow> unit_separator \<notin> set s \<and> group_separator \<notin> set s \<and> record_separator \<notin> set s"

definition plain_path :: "AttackPath \<Rightarrow> bool" where
  "plain_path p \<longleftrightarrow> (\<forall>n \<in> set (ap_Nodes p). plain (an_Type n) \<and> plain (an_ID n)) \<and>
     (\<forall>e \<in> set (ap_Edges p). plain (ae_Type e) \<and> plain (ae_Source e) \<and> plain (ae_Target e))"

definition path_contents :: "AttackPath \<Rightarrow> string option \<times> (string \<times> string) multiset \<times> (string \<times> string \<times> string) multiset" where
  "path_contents p = (if ap_Nodes p = [] then None else Some (an_ID (hd (ap_Nodes p))),
     image_mset (\<lambda>n. (an_Type n, an_ID n)) (mset (ap_Nodes p)), image_mset (\<lambda>e. (ae_Type e, ae_Source e, ae_Target e)) (mset (ap_Edges p)))"

lemma separators [simp]: "unit_separator \<noteq> group_separator" "unit_separator \<noteq> record_separator" "group_separator \<noteq> record_separator"
  "group_separator \<noteq> unit_separator" "record_separator \<noteq> unit_separator" "record_separator \<noteq> group_separator"
  by (simp_all add: unit_separator_def group_separator_def record_separator_def)

definition node_of_text :: "string \<Rightarrow> string \<times> string" where
  "node_of_text = split_at unit_separator"

definition edge_of_text :: "string \<Rightarrow> string \<times> string \<times> string" where
  "edge_of_text t = (fst (split_at unit_separator t), split_at unit_separator (snd (split_at unit_separator t)))"

lemma path_contents_texts:
  "plain_path p \<Longrightarrow> path_contents p = (if ap_Nodes p = [] then None else Some (an_ID (hd (ap_Nodes p))),
     image_mset node_of_text (mset (sort (map node_text (ap_Nodes p)))), image_mset edge_of_text (mset (sort (map edge_text (ap_Edges p)))))"
  by (auto simp: path_contents_def plain_path_def plain_def node_of_text_def edge_of_text_def node_text_def edge_text_def
      image_mset.compositionality comp_def intro!: image_mset_cong)

lemma preimage_of_contents:
  assumes "path_contents p = path_contents q"
  shows "path_preimage p = path_preimage q"
proof -
  have "mset (map node_text (ap_Nodes p)) = image_mset (\<lambda>ti. fst ti @ [unit_separator] @ snd ti) (fst (snd (path_contents p)))" for p
    by (simp add: path_contents_def image_mset.compositionality comp_def node_text_def [abs_def])
  then have "mset (map node_text (ap_Nodes p)) = mset (map node_text (ap_Nodes q))" using assms by simp
  then have n: "sort (map node_text (ap_Nodes p)) = sort (map node_text (ap_Nodes q))" by (intro properties_for_sort) simp_all
  have "mset (map edge_text (ap_Edges p)) = image_mset (\<lambda>e. fst e @ [unit_separator] @ fst (snd e) @ [unit_separator] @ snd (snd e))
      (snd (snd (path_contents p)))" for p
    by (simp add: path_contents_def image_mset.compositionality comp_def edge_text_def [abs_def])
  then have "mset (map edge_text (ap_Edges p)) = mset (map edge_text (ap_Edges q))" using assms by simp
  then have e: "sort (map edge_text (ap_Edges p)) = sort (map edge_text (ap_Edges q))" by (intro properties_for_sort) simp_all
  have "(if ap_Nodes p = [] then [] else an_ID (hd (ap_Nodes p))) = (if ap_Nodes q = [] then [] else an_ID (hd (ap_Nodes q)))"
    using assms by (auto simp: path_contents_def split: if_splits)
  then show ?thesis using n e by (simp add: path_preimage_def)
qed

lemma contents_of_preimage:
  assumes "path_preimage p = path_preimage q" "plain_path p" "plain_path q"
  shows "path_contents p = path_contents q"
proof -
  let ?N = "\<lambda>p. sort (map node_text (ap_Nodes p))" and ?E = "\<lambda>p. sort (map edge_text (ap_Edges p))"
  let ?cat = "\<lambda>xs. concat (map (\<lambda>x. x @ [record_separator]) xs)" and ?hd = "\<lambda>p. if ap_Nodes p = [] then [] else an_ID (hd (ap_Nodes p))"
  have clean: "\<forall>x \<in> set (?N r) \<union> set (?E r). group_separator \<notin> set x \<and> record_separator \<notin> set x" "group_separator \<notin> set (?hd r)"
    if "plain_path r" for r
    using that hd_in_set [of "ap_Nodes r"] by (auto simp: plain_path_def plain_def node_text_def edge_text_def)
  have cat: "group_separator \<notin> set (?cat xs)" if "\<forall>x \<in> set xs. group_separator \<notin> set x" for xs using that by auto
  have "?hd p @ group_separator # ?cat (?N p) @ group_separator # ?cat (?E p) =
      ?hd q @ group_separator # ?cat (?N q) @ group_separator # ?cat (?E q)"
    using assms(1) by (simp add: path_preimage_def)
  then have 1: "?hd p = ?hd q" "?cat (?N p) @ group_separator # ?cat (?E p) = ?cat (?N q) @ group_separator # ?cat (?E q)"
    using separated_inj [of "?hd p" group_separator _ "?hd q"] clean(2) [OF assms(2)] clean(2) [OF assms(3)] by blast+
  have "group_separator \<notin> set (?cat (?N p))" "group_separator \<notin> set (?cat (?N q))"
    using cat [of "?N p"] cat [of "?N q"] clean(1) [OF assms(2)] clean(1) [OF assms(3)] by blast+
  then have 2: "?cat (?N p) = ?cat (?N q)" "?cat (?E p) = ?cat (?E q)" using separated_inj [OF 1(2)] by blast+
  have N: "?N p = ?N q" using clean(1) assms(2,3) by (intro concat_terminated_inj [OF _ 2(1)]) blast
  have E: "?E p = ?E q" using clean(1) assms(2,3) by (intro concat_terminated_inj [OF _ 2(2)]) blast
  have "ap_Nodes p = [] \<longleftrightarrow> ap_Nodes q = []" using arg_cong [OF N, of length] by auto
  then show ?thesis using 1(1) N E by (auto simp: path_contents_texts assms(2,3))
qed

lemma StablePathID_length: "\<forall>t. length (sha1 t) = 20 \<Longrightarrow> length (StablePathID sha1 p) = 19"
  by (simp add: StablePathID_def)

text \<open>
  The identifiers of the paths of a pod are distinct, even where the truncated digests collide. Two paths with the same entry,
  nodes and edges have the same identifier before numbering, in whatever order they list them, and the hashed text
  determines entry, nodes and edges of paths whose fields have no control characters: only a collision of the
  digest can identify different paths.
\<close>

lemma stable_path_ids:
  assumes "\<forall>t. length (sha1 t) = 20"
  shows "distinct (StablePathIDs sha1 paths) \<and> length (StablePathIDs sha1 paths) = length paths \<and>
    (\<forall>p q. path_contents p = path_contents q \<longrightarrow> StablePathID sha1 p = StablePathID sha1 q) \<and>
    (\<forall>p q. plain_path p \<and> plain_path q \<longrightarrow> (path_preimage p = path_preimage q \<longleftrightarrow> path_contents p = path_contents q))"
proof -
  have "distinct (StablePathIDs sha1 paths)" unfolding StablePathIDs_def
    using StablePathID_length [OF assms] by (intro number_ids_distinct [where k = 19]) auto
  moreover have "StablePathID sha1 p = StablePathID sha1 q" if "path_contents p = path_contents q" for p q
    using preimage_of_contents [OF that] by (simp add: StablePathID_def)
  moreover have "length (StablePathIDs sha1 paths) = length paths" by (simp add: StablePathIDs_def)
  ultimately show ?thesis using preimage_of_contents contents_of_preimage by blast
qed

definition two_node_path :: "string \<Rightarrow> AttackPath" where
  "two_node_path role = \<lparr>ap_PathID = [], ap_Nodes = [\<lparr>an_ID = ''p'', an_Type = NodeTypePod, an_Properties = []\<rparr>,
       \<lparr>an_ID = role, an_Type = NodeTypeRole, an_Properties = []\<rparr>],
     ap_Edges = [\<lparr>ae_Type = EdgeTypeGrantsRole, ae_Source = ''p'', ae_Target = role\<rparr>], ap_TotalRisk = 5, ap_Difficulty = 1 / 2,
     ap_Impact = 1 / 2, ap_Length = 1, ap_Description = [], ap_EnrichedFromPCE = False, ap_Explainability = None\<rparr>"

lemma stable_path_ids_witness:
  "distinct (StablePathIDs (\<lambda>_. replicate 20 (CHR ''x'')) [two_node_path ''role:a'', two_node_path ''role:a'', two_node_path ''role:b'']) \<and>
   path_preimage (two_node_path ''role:a'') \<noteq> path_preimage (two_node_path ''role:b'')"
proof -
  have "plain_path (two_node_path ''role:a'')" "plain_path (two_node_path ''role:b'')"
    "path_contents (two_node_path ''role:a'') \<noteq> path_contents (two_node_path ''role:b'')"
    by (simp_all add: plain_path_def plain_def path_contents_def two_node_path_def unit_separator_def group_separator_def record_separator_def)
  then show ?thesis using stable_path_ids [of "\<lambda>_. replicate 20 (CHR ''x'')" "[two_node_path ''role:a'', two_node_path ''role:a'', two_node_path ''role:b'']"]
    by simp
qed

end
