(* ===== verification/Attack_Path_Builder.thy ===== *)
theory Attack_Path_Builder
  imports Attack_Path Capability_State
begin

section \<open>Attack paths of a pod: core/pkg/graph/relational\_path\_builder.go, relational\_path\_identity.go\<close>

text \<open>
  The graph of a pod from the rows of its cluster, the conversion of the paths the search finds, and their storage.
  A confidence is a rational number. Environment variables, \<^verbatim>\<open>time.ParseDuration\<close> and \<^verbatim>\<open>strconv.ParseFloat\<close> are the record \<open>PathEnv\<close>. Times
  are integers, the zero time is 0. The database is the record \<open>GraphDb\<close>: rows that are not deleted, and the queries that
  fail. The order in which a Go map is ranged over is a parameter. The cache of built paths is not modelled: it holds
  what \<open>cloneAttackPaths\<close> returns.
\<close>

subsection \<open>Reachability\<close>

record PathEnv =
  pe_Getenv :: "string \<Rightarrow> string"
  pe_ParseDuration :: "string \<Rightarrow> int option"
  pe_ParseFloat :: "string \<Rightarrow> rat option"
  pe_Now :: int

definition seconds_ns :: "int \<Rightarrow> int" where "seconds_ns n = n * 1000000000"

definition attackPathFallbackTTLFromEnv :: "PathEnv \<Rightarrow> int" where
  "attackPathFallbackTTLFromEnv E =
     (let raw = TrimSpace (pe_Getenv E ''FORTUNA_ATTACK_PATH_FALLBACK_TTL'')
      in if raw = [] then seconds_ns (6 * 3600)
         else case pe_ParseDuration E raw of None \<Rightarrow> seconds_ns (6 * 3600)
            | Some d \<Rightarrow> if d < 0 then seconds_ns (6 * 3600) else d)"

definition attackPathObservedEgressWindowFromEnv :: "PathEnv \<Rightarrow> int" where
  "attackPathObservedEgressWindowFromEnv E =
     (let raw = TrimSpace (pe_Getenv E ''FORTUNA_ATTACK_PATH_OBSERVED_EGRESS_WINDOW'')
      in if raw = [] then seconds_ns (24 * 3600)
         else case pe_ParseDuration E raw of None \<Rightarrow> seconds_ns (24 * 3600)
            | Some d \<Rightarrow> if d \<le> 0 then seconds_ns (24 * 3600) else d)"

definition attackPathDenyTTLFromEnv :: "PathEnv \<Rightarrow> int" where
  "attackPathDenyTTLFromEnv E =
     (let raw = TrimSpace (pe_Getenv E ''FORTUNA_ATTACK_PATH_DENY_TTL'')
      in if raw = [] then seconds_ns (15 * 60)
         else case pe_ParseDuration E raw of None \<Rightarrow> seconds_ns (15 * 60)
            | Some d \<Rightarrow> if d \<le> 0 then seconds_ns (15 * 60) else d)"

datatype ReachabilityDecision = ReachabilityDeny | ReachabilityAllow | ReachabilitySoftAllow

record ReachabilityContext =
  rc_ObservedEgressIPs :: "string \<rightharpoonup> int"
  rc_HasObservedEgress :: bool
  rc_DenyCache :: "string \<rightharpoonup> int"
  rc_Now :: int
  rc_FallbackTTL :: int
  rc_DenyTTL :: int

definition isPodWithinFallbackTTL :: "PathEnv \<Rightarrow> Pod \<Rightarrow> int \<Rightarrow> bool" where
  "isPodWithinFallbackTTL E pod ttl =
     (if ttl \<le> 0 then False
      else case pod_StartTime pod of
        None \<Rightarrow> False
      | Some startTime \<Rightarrow>
          if pod_RestartCount pod > 0 then False
          else if startTime = 0 then False
          else
            let effectiveStart = (if pod_CreatedAt pod \<noteq> 0 \<and> pod_CreatedAt pod < startTime then pod_CreatedAt pod else startTime)
            in pe_Now E - effectiveStart \<le> ttl)"

definition isNetworkReachable :: "PathEnv \<Rightarrow> Pod \<Rightarrow> Pod \<Rightarrow> ReachabilityContext \<Rightarrow> ReachabilityDecision" where
  "isNetworkReachable E fromPod toPod ctx0 =
     (let ctx = (if rc_Now ctx0 = 0 then ctx0\<lparr>rc_Now := pe_Now E\<rparr> else ctx0);
          edgeKey = pod_UID fromPod @ ''->'' @ pod_UID toPod;
          denied = (case rc_DenyCache ctx edgeKey of None \<Rightarrow> False | Some ts \<Rightarrow> ts \<noteq> 0 \<and> rc_Now ctx - ts < rc_DenyTTL ctx);
          ip = TrimSpace (pod_PodIP toPod);
          observed = (ip \<noteq> [] \<and> (case rc_ObservedEgressIPs ctx ip of None \<Rightarrow> False
             | Some ts \<Rightarrow> ts \<noteq> 0 \<and> rc_Now ctx - ts \<le> attackPathObservedEgressWindowFromEnv E))
      in if denied then ReachabilityDeny
         else if observed then ReachabilityAllow
         else if isPodWithinFallbackTTL E fromPod (rc_FallbackTTL ctx) then ReachabilitySoftAllow
         else ReachabilityDeny)"

subsection \<open>Capabilities and roles\<close>

definition isEdgeCapability :: "string \<Rightarrow> bool" where
  "isEdgeCapability capabilityID \<longleftrightarrow> ToUpper (TrimSpace capabilityID) \<in>
     {''ESC_HOSTPATH_NODE'', ''ESC_RUNTIME_ACTIVE'', ''ESC_PRIV_POD'', ''ESC_HOSTPID_POD'', ''ESC_HOSTIPC_POD'', ''ESC_RUNTIME_PROBE'',
      ''ESC_RUNTIME_PROC_ROOT''}"

definition isServiceAccountPathFeasible :: "Pod \<Rightarrow> rat PodCapability list \<Rightarrow> bool" where
  "isServiceAccountPathFeasible pod podCaps =
     (if pod_AutomountServiceAccountToken pod = Some False then list_ex (\<lambda>c. isEdgeCapability (pc_CapabilityID c)) podCaps else True)"

definition hasEscapeCapability :: "rat PodCapability list \<Rightarrow> bool" where
  "hasEscapeCapability caps \<longleftrightarrow> list_ex (\<lambda>c. pc_CapabilityID c = ''ESC_PRIV_POD'' \<or> pc_CapabilityID c = ''ESC_HOSTPATH_NODE'' \<or>
     pc_CapabilityID c = ''ESC_RUNTIME_ACTIVE'') caps"

definition amplifier_step :: "FloatArith \<Rightarrow> Pod \<Rightarrow> bool \<Rightarrow> rat \<Rightarrow> rat PodCapability \<Rightarrow> rat" where
  "amplifier_step F pod hasObservedEgress amp c =
     (let i = ToUpper (TrimSpace (pc_CapabilityID c));
          state = ToLower (TrimSpace (pc_State c))
      in if i \<noteq> ''ESC_PRIV_POD'' \<and> i \<noteq> ''PRIVILEGED'' \<and> i \<noteq> ''CAP_SYS_ADMIN'' \<and> i \<noteq> ''NET_RAW'' then amp
         else if i = ''NET_RAW'' \<and> \<not> pod_HostNetwork pod \<and> \<not> hasObservedEgress then amp
         else if state = ''chained'' \<or> state = ''exploited'' then fadd F amp (lit F (10 / 100))
         else if state = ''confirmed'' then fadd F amp (lit F (5 / 100))
         else fadd F amp (lit F (3 / 100)))"

definition capabilityStateAmplifier :: "FloatArith \<Rightarrow> Pod \<Rightarrow> rat PodCapability list \<Rightarrow> bool \<Rightarrow> rat" where
  "capabilityStateAmplifier F pod caps hasObservedEgress =
     clampFloat (foldl (amplifier_step F pod hasObservedEgress) 0 caps) 0 (lit F (25 / 100))"

definition exploitabilityByRisk :: "FloatArith \<Rightarrow> RiskLevel \<Rightarrow> rat" where
  "exploitabilityByRisk F r = (case r of RiskLevelCritical \<Rightarrow> lit F (95 / 100) | RiskLevelHigh \<Rightarrow> lit F (85 / 100)
     | RiskLevelMedium \<Rightarrow> lit F (7 / 10) | RiskLevelNone \<Rightarrow> lit F (5 / 10))"

definition semantic_cap :: "DerivedCapability \<Rightarrow> string list" where
  "semantic_cap d =
     (if dc_Type d = ''SECRET_READ'' then [''DATA_ACCESS:secrets'']
      else if dc_Type d = ''WORKLOAD_CREATE'' then [''WORKLOAD_CONTROL'']
      else if dc_Type d = ''EXEC_ACCESS'' then [''EXECUTION'']
      else if dc_Type d = ''NODE_PROXY'' then [''NODE_ACCESS'', ''KUBELET_API_ACCESS'']
      else if dc_Type d = ''CERT_ISSUE'' then [''IDENTITY_FORGE'']
      else [])"

definition semanticCapsFromRules :: "string \<Rightarrow> string list" where
  "semanticCapsFromRules rulesJSON = concat (map semantic_cap (DeriveCapabilities rulesJSON))"

definition graph_bindingRefersToSA :: "string \<Rightarrow> string \<Rightarrow> string \<Rightarrow> bool" where
  "graph_bindingRefersToSA subjectsJSON saName saNamespace =
     (if subjectsJSON = [] \<or> subjectsJSON = ''null'' then False
      else case unmarshal (decode_list decode_subject) subjectsJSON of
        None \<Rightarrow> False
      | Some subjects \<Rightarrow> list_ex (\<lambda>s. sub_Kind s = ''ServiceAccount'' \<and> sub_Name s = saName \<and>
          (sub_Namespace s = [] \<or> sub_Namespace s = saNamespace)) subjects)"

subsection \<open>The snapshot of a cluster\<close>

record ClusterHardeningHints =
  ch_KubeletAuthEnabled :: bool
  ch_ProjectedTokensOnly :: bool
  ch_PodSecurityLevel :: string
  ch_AutomountDefault :: bool

definition DefaultHardeningHints :: ClusterHardeningHints where
  "DefaultHardeningHints = \<lparr>ch_KubeletAuthEnabled = False, ch_ProjectedTokensOnly = False, ch_PodSecurityLevel = [],
     ch_AutomountDefault = True\<rparr>"

definition deriveHardeningHints :: "FloatArith \<Rightarrow> Pod list \<Rightarrow> ClusterHardeningHints" where
  "deriveHardeningHints F pods =
     (if length pods = 0 then DefaultHardeningHints
      else
        let mountCount = length (filter (\<lambda>p. pod_AutomountServiceAccountToken p \<noteq> Some False) pods);
            noMountCount = length (filter (\<lambda>p. pod_AutomountServiceAccountToken p = Some False) pods);
            privilegedCount = length (filter (\<lambda>p. pod_HostPID p \<or> pod_HostNetwork p \<or> pod_HostIPC p) pods)
        in \<lparr>ch_KubeletAuthEnabled = False,
            ch_ProjectedTokensOnly = (noMountCount > mountCount \<and> length pods \<ge> 3),
            ch_PodSecurityLevel =
              (if privilegedCount = 0 \<and> length pods \<ge> 3 then ''baseline''
               else if fdiv F (lit F (of_nat privilegedCount)) (lit F (of_nat (length pods))) > lit F (20 / 100) then ''privileged''
               else []),
            ch_AutomountDefault = (mountCount \<ge> noMountCount)\<rparr>)"

record clusterPathSnapshot =
  sn_ClusterID :: string
  sn_SaByNSName :: "string \<rightharpoonup> ServiceAccount"
  sn_RoleBindings :: "RoleBinding list"
  sn_ClusterRoleBindings :: "ClusterRoleBinding list"
  sn_RoleMap :: "string \<rightharpoonup> Role"
  sn_CrMap :: "string \<rightharpoonup> ClusterRole"
  sn_ClusterPods :: "Pod list"
  sn_DenyCache :: "string \<rightharpoonup> int"
  sn_HardeningHints :: ClusterHardeningHints

definition ns_name :: "string \<Rightarrow> string \<Rightarrow> string" where
  "ns_name ns name = ns @ ''/'' @ name"

record PodNetworkConnection =
  nc_ClusterID :: string
  nc_PodUID :: string
  nc_DestIP :: string
  nc_ObservedAt :: int

record denyRow =
  dr_ClusterID :: string
  dr_PodUID :: string
  dr_Evidence :: string
  dr_CreatedAt :: int
  dr_SignalType :: string

record CriticalCVERow =
  cv_ClusterID :: string
  cv_ResourceUID :: string

record AttackPathRow =
  ar_ID :: nat
  ar_ClusterID :: string
  ar_PodUID :: string
  ar_PathID :: string
  ar_Nodes :: "PathNode list"
  ar_Edges :: "PathEdge list"
  ar_TotalRisk :: rat
  ar_Difficulty :: rat
  ar_Impact :: rat
  ar_Length :: nat
  ar_Description :: string
  ar_EnrichedFromPCE :: bool
  ar_UpdatedAt :: int

record GraphDb =
  gd_Pods :: "Pod list"
  gd_ServiceAccounts :: "ServiceAccount list"
  gd_RoleBindings :: "RoleBinding list"
  gd_ClusterRoleBindings :: "ClusterRoleBinding list"
  gd_Roles :: "Role list"
  gd_ClusterRoles :: "ClusterRole list"
  gd_Connections :: "PodNetworkConnection list"
  gd_PodCapabilities :: "rat PodCapability list"
  gd_PodAttackSteps :: "rat PodAttackStep list"
  gd_CriticalCVEs :: "CriticalCVERow list"
  gd_Denials :: "denyRow list"
  gd_AttackPaths :: "AttackPathRow list"
  gd_Fails :: "string \<Rightarrow> bool"

text \<open>The latest instant per key, as the maps of observed addresses and denied edges are filled.\<close>

definition latest :: "(string \<times> int) list \<Rightarrow> (string \<rightharpoonup> int)" where
  "latest rows = foldl (\<lambda>m kt. case m (fst kt) of
       None \<Rightarrow> m(fst kt \<mapsto> snd kt)
     | Some prev \<Rightarrow> if snd kt > prev then m(fst kt \<mapsto> snd kt) else m) Map.empty rows"

definition denied_edge :: "denyRow \<Rightarrow> (string \<times> int) list" where
  "denied_edge r =
     (let targetUID = (if TrimSpace (dr_Evidence r) = [] then []
            else case unmarshal decode_dyn_map (dr_Evidence r) of
              None \<Rightarrow> []
            | Some ev \<Rightarrow> (case dyn_get ev ''targetPodUID'' of Some (JStr v) \<Rightarrow> TrimSpace v | _ \<Rightarrow> []))
      in if targetUID = [] then [] else [(dr_PodUID r @ ''->'' @ targetUID, dr_CreatedAt r)])"

definition loadDenyCache :: "PathEnv \<Rightarrow> string \<Rightarrow> GraphDb \<Rightarrow> (string \<rightharpoonup> int)" where
  "loadDenyCache E clusterID db =
     (if gd_Fails db ''denials'' then Map.empty
      else latest (concat (map denied_edge (filter (\<lambda>r. dr_ClusterID r = clusterID \<and>
             pe_Now E - attackPathDenyTTLFromEnv E \<le> dr_CreatedAt r \<and>
             (dr_SignalType r = ''NETWORK_POLICY_DENY'' \<or> dr_SignalType r = ''NETWORK_DENY'')) (gd_Denials db)))))"

definition in_scope :: "string \<Rightarrow> string \<Rightarrow> bool" where
  "in_scope clusterID c \<longleftrightarrow> clusterID = [] \<or> c = clusterID"

definition loadClusterPathSnapshot :: "FloatArith \<Rightarrow> PathEnv \<Rightarrow> string \<Rightarrow> GraphDb \<Rightarrow> (string, clusterPathSnapshot) result" where
  "loadClusterPathSnapshot F E clusterID0 db =
     (let clusterID = TrimSpace clusterID0
      in if gd_Fails db ''serviceAccounts'' then Inl ''serviceAccounts''
         else if gd_Fails db ''roleBindings'' then Inl ''roleBindings''
         else if gd_Fails db ''clusterRoleBindings'' then Inl ''clusterRoleBindings''
         else if gd_Fails db ''roles'' then Inl ''roles''
         else if gd_Fails db ''clusterRoles'' then Inl ''clusterRoles''
         else if gd_Fails db ''pods'' then Inl ''pods''
         else
           let clusterPods = filter (\<lambda>p. in_scope clusterID (pod_ClusterID p) \<and> \<not> pod_Deleted p) (gd_Pods db)
           in Inr \<lparr>sn_ClusterID = clusterID,
                sn_SaByNSName = foldl (\<lambda>m cur. m(ns_name (sa_Namespace cur) (sa_Name cur) \<mapsto> cur)) Map.empty
                  (filter (\<lambda>s. in_scope clusterID (sa_ClusterID s)) (gd_ServiceAccounts db)),
                sn_RoleBindings = filter (\<lambda>b. in_scope clusterID (rb_ClusterID b)) (gd_RoleBindings db),
                sn_ClusterRoleBindings = filter (\<lambda>b. in_scope clusterID (crb_ClusterID b)) (gd_ClusterRoleBindings db),
                sn_RoleMap = foldl (\<lambda>m r. m(ns_name (role_Namespace r) (role_Name r) \<mapsto> r)) Map.empty
                  (filter (\<lambda>r. in_scope clusterID (role_ClusterID r)) (gd_Roles db)),
                sn_CrMap = foldl (\<lambda>m cr. m(cr_Name cr \<mapsto> cr)) Map.empty
                  (filter (\<lambda>r. in_scope clusterID (cr_ClusterID r)) (gd_ClusterRoles db)),
                sn_ClusterPods = clusterPods, sn_DenyCache = loadDenyCache E clusterID db,
                sn_HardeningHints = deriveHardeningHints F clusterPods\<rparr>)"

subsection \<open>The graph of a pod\<close>

definition rbac_link :: "FloatArith \<Rightarrow> string \<Rightarrow> string \<Rightarrow> string \<Rightarrow> string \<Rightarrow> string \<Rightarrow> string \<Rightarrow> string \<Rightarrow> string \<Rightarrow> rat \<Rightarrow> AttackGraph \<Rightarrow> AttackGraph" where
  "rbac_link F saUID bindingID bindingType ns bindingName targetType targetName targetRules bindingExploit g =
     (let riskLevel = ClassifyRoleRisk targetName targetRules
      in if riskLevel = RiskLevelNone then g
         else
           let targetID = ''role:'' @ targetName;
               g = AddNode g \<lparr>gn_ID = bindingID, gn_Type = bindingType, gn_Namespace = ns, gn_Label = bindingName, gn_SemanticCaps = []\<rparr>;
               g = AddNode g \<lparr>gn_ID = targetID, gn_Type = targetType, gn_Namespace = ns, gn_Label = targetName,
                     gn_SemanticCaps = semanticCapsFromRules targetRules\<rparr>;
               g = AddEdge F g \<lparr>ge_From = saUID, ge_To = bindingID, ge_Type = EdgeTypeRbacBinding, ge_Exploitability = bindingExploit,
                     ge_Preconditions = []\<rparr>
           in AddEdge F g \<lparr>ge_From = bindingID, ge_To = targetID, ge_Type = EdgeTypeGrantsRole,
                ge_Exploitability = exploitabilityByRisk F riskLevel, ge_Preconditions = []\<rparr>)"

definition add_roleBinding :: "FloatArith \<Rightarrow> ServiceAccount \<Rightarrow> (string \<rightharpoonup> Role) \<Rightarrow> (string \<rightharpoonup> ClusterRole) \<Rightarrow> AttackGraph \<Rightarrow> RoleBinding
    \<Rightarrow> AttackGraph" where
  "add_roleBinding F sa roleMap crMap g rb =
     (if \<not> graph_bindingRefersToSA (rb_Subjects rb) (sa_Name sa) (sa_Namespace sa) then g
      else case unmarshal decode_roleRef (rb_RoleRef rb) of
        None \<Rightarrow> g
      | Some ref \<Rightarrow>
          let link = (\<lambda>t n r. rbac_link F (sa_UID sa) (''binding:'' @ rb_Namespace rb @ ''/'' @ rb_Name rb) NodeTypeRoleBinding
                        (rb_Namespace rb) (rb_Name rb) t n r (lit F (85 / 100)) g)
          in if ref_Kind ref = ''Role'' then
               (case roleMap (ns_name (rb_Namespace rb) (ref_Name ref)) of None \<Rightarrow> g
                | Some r \<Rightarrow> link NodeTypeRole (role_Name r) (role_Rules r))
             else if ref_Kind ref = ''ClusterRole'' then
               (case crMap (ref_Name ref) of None \<Rightarrow> g
                | Some cr \<Rightarrow> link NodeTypeClusterRole (cr_Name cr) (cr_Rules cr))
             else g)"

definition add_clusterRoleBinding :: "FloatArith \<Rightarrow> ServiceAccount \<Rightarrow> (string \<rightharpoonup> ClusterRole) \<Rightarrow> AttackGraph \<Rightarrow> ClusterRoleBinding \<Rightarrow> AttackGraph" where
  "add_clusterRoleBinding F sa crMap g crb =
     (if \<not> graph_bindingRefersToSA (crb_Subjects crb) (sa_Name sa) (sa_Namespace sa) then g
      else case unmarshal decode_roleRef (crb_RoleRef crb) of
        None \<Rightarrow> g
      | Some ref \<Rightarrow>
          if ref_Kind ref \<noteq> ''ClusterRole'' then g
          else case crMap (ref_Name ref) of
            None \<Rightarrow> g
          | Some cr \<Rightarrow> rbac_link F (sa_UID sa) (''binding:/'' @ crb_Name crb) NodeTypeClusterBinding [] (crb_Name crb)
              NodeTypeClusterRole (cr_Name cr) (cr_Rules cr) (lit F (9 / 10)) g)"

definition addRBACChainForSA :: "FloatArith \<Rightarrow> clusterPathSnapshot \<Rightarrow> AttackGraph \<Rightarrow> ServiceAccount \<Rightarrow> AttackGraph" where
  "addRBACChainForSA F snap g sa =
     foldl (add_clusterRoleBinding F sa (sn_CrMap snap))
       (foldl (add_roleBinding F sa (sn_RoleMap snap) (sn_CrMap snap)) g (sn_RoleBindings snap)) (sn_ClusterRoleBindings snap)"

definition node_label :: "Pod \<Rightarrow> string" where
  "node_label pod = (let l = TrimSpace (pod_Name pod) in if l = [] then pod_UID pod else l)"

definition pod_node :: "Pod \<Rightarrow> GraphNode" where
  "pod_node pod = \<lparr>gn_ID = pod_UID pod, gn_Type = NodeTypePod, gn_Namespace = pod_Namespace pod, gn_Label = node_label pod,
     gn_SemanticCaps = []\<rparr>"

definition sa_node :: "ServiceAccount \<Rightarrow> GraphNode" where
  "sa_node sa = \<lparr>gn_ID = sa_UID sa, gn_Type = NodeTypeServiceAccount, gn_Namespace = sa_Namespace sa, gn_Label = sa_Name sa,
     gn_SemanticCaps = []\<rparr>"

definition graph_edge :: "string \<Rightarrow> string \<Rightarrow> string \<Rightarrow> rat \<Rightarrow> GraphEdge" where
  "graph_edge u v t x = \<lparr>ge_From = u, ge_To = v, ge_Type = t, ge_Exploitability = x, ge_Preconditions = []\<rparr>"

definition add_peer :: "FloatArith \<Rightarrow> PathEnv \<Rightarrow> Pod \<Rightarrow> clusterPathSnapshot \<Rightarrow> ReachabilityContext \<Rightarrow> AttackGraph \<Rightarrow> Pod \<Rightarrow> AttackGraph" where
  "add_peer F E pod snap reachCtx g peer =
     (if pod_UID peer = pod_UID pod then g
      else
        let decision = isNetworkReachable E pod peer reachCtx
        in if decision = ReachabilityDeny then g
           else
             let edgeExploitAllow = lit F (6 / 10);
                 edgeExploit = (if decision = ReachabilitySoftAllow then fmul F edgeExploitAllow (lit F (6 / 10)) else edgeExploitAllow);
                 edgeType = (if decision = ReachabilitySoftAllow then EdgeTypeNetworkReachSoft else EdgeTypeNetworkReach);
                 g = AddNode g (pod_node peer);
                 g = AddEdge F g (graph_edge (pod_UID pod) (pod_UID peer) edgeType edgeExploit)
             in case sn_SaByNSName snap (ns_name (pod_Namespace peer) (pod_ServiceAccount peer)) of
                  None \<Rightarrow> g
                | Some peerSA \<Rightarrow>
                    let g = AddNode g (sa_node peerSA);
                        g = AddEdge F g (graph_edge (pod_UID peer) (sa_UID peerSA) EdgeTypeServiceAccount (lit F (75 / 100)))
                    in addRBACChainForSA F snap g peerSA)"

definition add_capability :: "FloatArith \<Rightarrow> Pod \<Rightarrow> rat \<Rightarrow> AttackGraph \<Rightarrow> rat PodCapability \<Rightarrow> AttackGraph" where
  "add_capability F pod stateAmp g c =
     (if \<not> isEdgeCapability (pc_CapabilityID c) then g
      else
        let nodeID = (if pod_NodeName pod \<noteq> [] then ''node:'' @ pod_NodeName pod else []);
            capNodeID = ''cap:'' @ pc_PodUID c @ '':'' @ pc_CapabilityID c;
            g = AddNode g \<lparr>gn_ID = capNodeID, gn_Type = NodeTypeCapability, gn_Namespace = pod_Namespace pod, gn_Label = pc_CapabilityID c,
                  gn_SemanticCaps = []\<rparr>;
            hostpath = (pc_CapabilityID c = ''ESC_HOSTPATH_NODE'');
            edgeType = (if hostpath then EdgeTypeHostAccess else EdgeTypeContainerEscape);
            exploit = (if hostpath then lit F (75 / 100) else lit F (55 / 100));
            exploit = (if pc_State c = ''exploited'' \<or> pc_State c = ''chained'' then fadd F exploit (lit F (15 / 100)) else exploit);
            exploit = fadd F exploit stateAmp;
            g = AddEdge F g (graph_edge (pod_UID pod) capNodeID edgeType exploit)
        in if nodeID \<noteq> [] \<and> (hostpath \<or> pc_CapabilityID c = ''ESC_RUNTIME_ACTIVE'')
           then
             let g = AddNode g \<lparr>gn_ID = nodeID, gn_Type = NodeTypeNode, gn_Namespace = ''kube-system'', gn_Label = pod_NodeName pod,
                       gn_SemanticCaps = []\<rparr>
             in AddEdge F g (graph_edge capNodeID nodeID EdgeTypeLateralMove
                  (clampFloat (fadd F (lit F (8 / 10)) stateAmp) (lit F (1 / 10)) (lit F (99 / 100))))
           else g)"

definition add_attack_step :: "FloatArith \<Rightarrow> Pod \<Rightarrow> AttackGraph \<Rightarrow> rat PodAttackStep \<Rightarrow> AttackGraph" where
  "add_attack_step F pod g step =
     (let stepID = ''step:'' @ as_PodUID step @ '':'' @ as_StepID step;
          g = AddNode g \<lparr>gn_ID = stepID, gn_Type = NodeTypeAttackStep, gn_Namespace = pod_Namespace pod, gn_Label = as_StepID step,
                gn_SemanticCaps = []\<rparr>;
          edgeType = (if as_StepID step = ''NODE_CRED_DUMP'' then EdgeTypeCanStealCredential else EdgeTypeHasAttackStep)
      in AddEdge F g (graph_edge (pod_UID pod) stepID edgeType
           (clampFloat (as_Confidence step) (lit F (2 / 10)) (lit F (95 / 100)))))"

definition pod_graph :: "FloatArith \<Rightarrow> PathEnv \<Rightarrow> Pod \<Rightarrow> ServiceAccount \<Rightarrow> clusterPathSnapshot \<Rightarrow> rat PodCapability list
    \<Rightarrow> rat PodAttackStep list \<Rightarrow> ReachabilityContext \<Rightarrow> AttackGraph" where
  "pod_graph F E pod sa snap podCaps podAttackSteps reachCtx =
     (let g = AddNode NewAttackGraph (pod_node pod);
          g = AddNode g (sa_node sa);
          g = AddEdge F g (graph_edge (pod_UID pod) (sa_UID sa) EdgeTypeServiceAccount (lit F (9 / 10)));
          g = addRBACChainForSA F snap g sa;
          g = foldl (add_peer F E pod snap reachCtx) g (sn_ClusterPods snap);
          stateAmp = capabilityStateAmplifier F pod podCaps (rc_HasObservedEgress reachCtx);
          g = foldl (add_capability F pod stateAmp) g podCaps
      in foldl (add_attack_step F pod) g podAttackSteps)"

definition target_types :: "string \<Rightarrow> bool" where
  "target_types t \<longleftrightarrow> t = NodeTypeRole \<or> t = NodeTypeClusterRole \<or> t = NodeTypeNode"

definition edge_feasible :: feasibility where
  "edge_feasible edge from to \<longleftrightarrow> \<not> (gn_Namespace from \<noteq> [] \<and> gn_Namespace to \<noteq> [] \<and> gn_Namespace from \<noteq> gn_Namespace to \<and>
     ge_Type edge \<noteq> EdgeTypeRbacBinding \<and> ge_Type edge \<noteq> EdgeTypeGrantsRole)"

subsection \<open>From graph paths to attack paths\<close>

definition arrow_text :: string where "arrow_text = [CHR 0xE2, CHR 0x86, CHR 0x92]"
definition ellipsis_text :: string where "ellipsis_text = [CHR 0xE2, CHR 0x80, CHR 0xA6]"

definition graphNodeDisplayName :: "GraphNode \<Rightarrow> string" where
  "graphNodeDisplayName n =
     (if TrimSpace (gn_Label n) \<noteq> [] then TrimSpace (gn_Label n)
      else let i = TrimSpace (gn_ID n) in if length i \<le> 16 then i else take 14 i @ ellipsis_text)"

fun net_hint :: "string list \<Rightarrow> string" where
  "net_hint [] = []"
| "net_hint (et # ets) =
     (if et = EdgeTypeNetworkReachSoft then '' (network=SOFT_ALLOW)''
      else if et = EdgeTypeNetworkReach then '' (network=ALLOW)''
      else net_hint ets)"

definition buildAttackPathDescription :: "GraphPath \<Rightarrow> PathNode list \<Rightarrow> string" where
  "buildAttackPathDescription gp nodes =
     (let classHuman = map (\<lambda>c. if c = CHR ''_'' then CHR '' '' else c) (TrimSuffix (gp_Class gp) ''_PATH'')
      in if length nodes = 0 then classHuman @ '' path''
         else classHuman @ '': '' @ prop_string (an_Properties (hd nodes)) ''name'' @ '' '' @ arrow_text @ '' '' @
              prop_string (an_Properties (last nodes)) ''name'' @ net_hint (gp_EdgeTypes gp))"

definition edgeExploitability :: "FloatArith \<Rightarrow> AttackGraph \<Rightarrow> string \<Rightarrow> string \<Rightarrow> string \<Rightarrow> rat" where
  "edgeExploitability F g u v t = (case find (\<lambda>e. ge_To e = v \<and> ge_Type e = t) (ag_Adj g u) of
     Some e \<Rightarrow> clampFloat (ge_Exploitability e) (lit F (5 / 100)) 1
   | None \<Rightarrow> lit F (5 / 10))"

fun deriveFeasibility :: "FloatArith \<Rightarrow> string list \<Rightarrow> string \<times> string \<times> rat" where
  "deriveFeasibility F [] = (''n/a'', ''not_required'', lit F (9 / 10))"
| "deriveFeasibility F (et # ets) =
     (if et = EdgeTypeNetworkReachSoft then (''soft_allow'', ''new_pod_fallback'', lit F (55 / 100))
      else if et = EdgeTypeNetworkReach then (''allow'', ''observed_egress'', lit F (85 / 100))
      else deriveFeasibility F ets)"

definition convert_node :: "AttackGraph \<Rightarrow> string \<Rightarrow> PathNode" where
  "convert_node g nid =
     (let n = node_at g nid
      in \<lparr>an_ID = gn_ID n, an_Type = gn_Type n,
          an_Properties = [(''name'', PropString (graphNodeDisplayName n)), (''namespace'', PropString (gn_Namespace n))] @
            (if gn_Type n = NodeTypePod then [(''kind'', PropString ''Pod'')] else []) @
            (if length (gn_SemanticCaps n) > 0 then [(''semantic_caps'', PropStrings (gn_SemanticCaps n))] else [])\<rparr>)"

definition convert_edges :: "GraphPath \<Rightarrow> PathEdge list" where
  "convert_edges gp = map2 (\<lambda>et uv. \<lparr>ae_Type = et, ae_Source = fst uv, ae_Target = snd uv\<rparr>) (gp_EdgeTypes gp)
     (zip (gp_NodeIDs gp) (tl (gp_NodeIDs gp)))"

definition convert_path :: "FloatArith \<Rightarrow> AttackGraph \<Rightarrow> GraphPath \<Rightarrow> AttackPath" where
  "convert_path F g gp =
     (let nodes = map (convert_node g) (gp_NodeIDs gp);
          edges = convert_edges gp;
          weakestLink = foldl min 1 (map (\<lambda>e. edgeExploitability F g (ae_Source e) (ae_Target e) (ae_Type e)) edges);
          pathLen = length (gp_EdgeTypes gp);
          lengthPenalty = fl_exp F (fmul F (lit F (- 25 / 100)) (lit F (of_nat pathLen)));
          uncertainEdges = countUncertainEdges (gp_EdgeTypes gp);
          uncertainPenalty = (if uncertainEdges > 0
            then max (lit F (3 / 10)) (fl_exp F (fmul F (lit F (- 35 / 100)) (lit F (of_nat uncertainEdges)))) else 1);
          totalRisk = clampFloat (fmul F (gp_Strength gp) 10) 0 10;
          impact = clampFloat (fdiv F totalRisk 10) (lit F (2 / 10)) 1;
          difficulty = clampFloat (fsub F 1 (gp_Strength gp)) (lit F (1 / 10)) 1;
          reachesNode = list_ex (\<lambda>n. an_Type n = NodeTypeNode) nodes;
          effectiveStrength = min (gp_Strength gp) (lit F (9 / 10));
          injectScale = fadd F (lit F (5 / 10)) (fmul F (lit F (5 / 10)) effectiveStrength);
          eInject = fmul F (fmul F (lit F (25 / 100)) (gp_Strength gp)) injectScale;
          rInject = fmul F (fmul F (lit F (20 / 100)) (gp_Strength gp)) injectScale;
          iInject = (if reachesNode then fmul F (lit F (20 / 100)) injectScale else 0);
          ePoints = fmul F eInject 15;
          rPoints = fmul F rInject 15;
          iPoints = fmul F iInject 10;
          (networkDecision, reason, confidence) = deriveFeasibility F (gp_EdgeTypes gp)
      in \<lparr>ap_PathID = [], ap_Nodes = nodes, ap_Edges = edges, ap_TotalRisk = totalRisk, ap_Difficulty = difficulty, ap_Impact = impact,
          ap_Length = length (gp_EdgeTypes gp), ap_Description = buildAttackPathDescription gp nodes, ap_EnrichedFromPCE = False,
          ap_Explainability = Some \<lparr>px_Class = gp_Class gp, px_Strength = round_to F 1000 (gp_Strength gp),
            px_Feasibility = \<lparr>pf_NetworkDecision = networkDecision, pf_Reason = reason, pf_Confidence = round_to F 100 confidence\<rparr>,
            px_Scoring = \<lparr>ps_WeakestLink = round_to F 1000 weakestLink, ps_LengthPenalty = round_to F 1000 lengthPenalty,
              ps_UncertainPenalty = round_to F 1000 uncertainPenalty, ps_FinalStrength = round_to F 1000 (gp_Strength gp)\<rparr>,
            px_RiskInject = \<lparr>pr_E = round_to F 1000 eInject, pr_R = round_to F 1000 rInject, pr_I = round_to F 1000 iInject,
              pr_Scale = round_to F 1000 injectScale, pr_EPoints = round_to F 100 ePoints, pr_RPoints = round_to F 100 rPoints,
              pr_IPoints = round_to F 100 iPoints, pr_EstimatedScoreDelta = round_to F 100 (fadd F (fadd F ePoints rPoints) iPoints)\<rparr>,
            px_Capabilities = map an_ID (filter (\<lambda>n. an_Type n = NodeTypeCapability) nodes),
            px_AttackSteps = map an_ID (filter (\<lambda>n. an_Type n = NodeTypeAttackStep) nodes)\<rparr>\<rparr>)"

definition convertGraphPathsToAttackPaths :: "FloatArith \<Rightarrow> GraphPath list \<Rightarrow> AttackGraph \<Rightarrow> AttackPath list" where
  "convertGraphPathsToAttackPaths F gps g = map (convert_path F g) gps"

definition buildDeterministicPaths :: "FloatArith \<Rightarrow> (GraphPath list \<Rightarrow> GraphPath list) \<Rightarrow> PathEnv \<Rightarrow> Pod \<Rightarrow> ServiceAccount \<Rightarrow> clusterPathSnapshot
    \<Rightarrow> rat PodCapability list \<Rightarrow> rat PodAttackStep list \<Rightarrow> ReachabilityContext \<Rightarrow> bool \<Rightarrow> AttackPath list" where
  "buildDeterministicPaths F order E pod sa snap podCaps podAttackSteps reachCtx highRiskSource =
     (let g = pod_graph F E pod sa snap podCaps podAttackSteps reachCtx;
          paths = BuildTopPathsAdaptive F order g (pod_UID pod) target_types highRiskSource no_options edge_feasible
      in convertGraphPathsToAttackPaths F paths g)"

subsection \<open>The paths of a pod and of a cluster\<close>

definition observed_egress :: "PathEnv \<Rightarrow> Identity \<Rightarrow> GraphDb \<Rightarrow> (string \<times> int) list" where
  "observed_egress E i db =
     (if gd_Fails db ''connections'' then []
      else concat (map (\<lambda>c. if TrimSpace (nc_DestIP c) = [] then [] else [(TrimSpace (nc_DestIP c), nc_ObservedAt c)])
        (filter (\<lambda>c. nc_ClusterID c = id_ClusterID i \<and> nc_PodUID c = id_ResourceUID i \<and>
           pe_Now E - attackPathObservedEgressWindowFromEnv E \<le> nc_ObservedAt c) (gd_Connections db))))"

definition hasCriticalCVEInsightForIdentity :: "Identity \<Rightarrow> GraphDb \<Rightarrow> bool" where
  "hasCriticalCVEInsightForIdentity i db \<longleftrightarrow> \<not> gd_Fails db ''insights'' \<and>
     length (filter (\<lambda>r. cv_ClusterID r = id_ClusterID i \<and> cv_ResourceUID r = id_ResourceUID i) (gd_CriticalCVEs db)) > 0"

definition identity_paths :: "FloatArith \<Rightarrow> (GraphPath list \<Rightarrow> GraphPath list) \<Rightarrow> PathEnv \<Rightarrow> Identity \<Rightarrow> Pod \<Rightarrow> clusterPathSnapshot \<Rightarrow> GraphDb
    \<Rightarrow> AttackPath list" where
  "identity_paths F order E i pod snap db =
     (case sn_SaByNSName snap (ns_name (pod_Namespace pod) (pod_ServiceAccount pod)) of
        None \<Rightarrow> []
      | Some sa \<Rightarrow>
          let observedDestIPs = observed_egress E i db;
              reachCtx = \<lparr>rc_ObservedEgressIPs = latest observedDestIPs, rc_HasObservedEgress = (observedDestIPs \<noteq> []),
                rc_DenyCache = sn_DenyCache snap, rc_Now = pe_Now E, rc_FallbackTTL = attackPathFallbackTTLFromEnv E,
                rc_DenyTTL = attackPathDenyTTLFromEnv E\<rparr>;
              podCaps = (if gd_Fails db ''podCapabilities'' then []
                else filter (\<lambda>c. pc_ClusterID c = id_ClusterID i \<and> pc_PodUID c = id_ResourceUID i) (gd_PodCapabilities db));
              podAttackSteps = (if gd_Fails db ''podAttackSteps'' then []
                else filter (\<lambda>s. as_ClusterID s = id_ClusterID i \<and> as_PodUID s = id_ResourceUID i) (gd_PodAttackSteps db))
          in if isServiceAccountPathFeasible pod podCaps then
               let criticalCVE = hasCriticalCVEInsightForIdentity i db;
                   highRiskSource = (pod_HostNetwork pod \<or> hasEscapeCapability podCaps \<or> criticalCVE)
               in buildDeterministicPaths F order E pod sa snap podCaps podAttackSteps reachCtx highRiskSource
             else [])"

end
