(* ===== verification/Attack_Path_Escape.thy ===== *)
theory Attack_Path_Escape
  imports Attack_Path_Builder
begin

section \<open>What attack paths show: nodes and roles\<close>

text \<open>
  Two properties of the graph of a pod that hold along every path the search reports: which paths can reach a node of the
  cluster, and which rows stand behind the roles of a path.
\<close>

subsection \<open>Where paths can end\<close>

text \<open>
  \<open>escape_inv ns g\<close>: nodes of type node have the prefix node: and are in kube-system, capability nodes are in the namespace
  \<open>ns\<close>, and only capability nodes have edges to the former.
\<close>

definition escape_inv :: "string \<Rightarrow> AttackGraph \<Rightarrow> bool" where
  "escape_inv ns g \<longleftrightarrow>
     (\<forall>k n. ag_Nodes g k = Some n \<longrightarrow> gn_Type n = NodeTypeNode \<longrightarrow> HasPrefix k ''node:'' \<and> gn_Namespace n = ''kube-system'') \<and>
     (\<forall>k n. ag_Nodes g k = Some n \<longrightarrow> HasPrefix k ''cap:'' \<longrightarrow> gn_Namespace n = ns) \<and>
     (\<forall>u e. e \<in> set (ag_Adj g u) \<longrightarrow> HasPrefix (ge_To e) ''node:'' \<longrightarrow>
        ge_Type e = EdgeTypeLateralMove \<and> HasPrefix u ''cap:'' \<and> ag_Nodes g u \<noteq> None)"

lemma escape_inv_AddNode:
  assumes "escape_inv ns g" "gn_Type n = NodeTypeNode \<Longrightarrow> HasPrefix (gn_ID n) ''node:'' \<and> gn_Namespace n = ''kube-system''"
    "HasPrefix (gn_ID n) ''cap:'' \<Longrightarrow> gn_Namespace n = ns"
  shows "escape_inv ns (AddNode g n)"
  using assms by (auto simp: escape_inv_def AddNode_def)

lemma escape_inv_AddEdge:
  assumes "escape_inv ns g"
    "HasPrefix (ge_To e) ''node:'' \<Longrightarrow> ge_Type e = EdgeTypeLateralMove \<and> HasPrefix (ge_From e) ''cap:'' \<and> ag_Nodes g (ge_From e) \<noteq> None"
  shows "escape_inv ns (AddEdge F g e)"
  using assms by (auto simp: escape_inv_def AddEdge_def Let_def)

text \<open>\<open>uid u\<close>: an object identifier is not one the graph makes up.\<close>

definition object_uid :: "string \<Rightarrow> bool" where
  "object_uid u \<longleftrightarrow> \<not> HasPrefix u ''cap:'' \<and> \<not> HasPrefix u ''node:''"

definition snapshot_uids :: "clusterPathSnapshot \<Rightarrow> bool" where
  "snapshot_uids snap \<longleftrightarrow> (\<forall>p \<in> set (sn_ClusterPods snap). object_uid (pod_UID p)) \<and>
     (\<forall>sa \<in> ran (sn_SaByNSName snap). object_uid (sa_UID sa))"

lemma HasPrefix_Cons [simp]: "HasPrefix (c # s) (d # p) \<longleftrightarrow> c = d \<and> HasPrefix s p" "HasPrefix s []" "\<not> HasPrefix [] (d # p)"
  by (auto simp: HasPrefix_def)

lemma escape_inv_rbac_link:
  assumes "escape_inv ns g" "object_uid u" "\<not> HasPrefix b ''cap:''" "\<not> HasPrefix b ''node:''"
    "bt \<noteq> NodeTypeNode" "tt \<noteq> NodeTypeNode"
  shows "escape_inv ns (rbac_link F u b bt bns bn tt tn tr x g)"
  using assms unfolding rbac_link_def Let_def
  by (auto intro!: escape_inv_AddEdge escape_inv_AddNode)

lemma escape_inv_addRBAC:
  assumes "escape_inv ns g" "object_uid (sa_UID sa)"
  shows "escape_inv ns (addRBACChainForSA F snap g sa)"
proof -
  have "escape_inv ns (add_roleBinding F sa rm cm g rb)" if "escape_inv ns g" for rm cm g rb
    using that assms(2) by (auto simp: add_roleBinding_def Let_def split: option.splits intro!: escape_inv_rbac_link)
  then have 1: "escape_inv ns (foldl (add_roleBinding F sa rm cm) g rbs)" for rm cm rbs
    using foldl_invariant [of "escape_inv ns" g rbs "add_roleBinding F sa rm cm"] assms(1) by blast
  have 2: "escape_inv ns (add_clusterRoleBinding F sa cm g crb)" if "escape_inv ns g" for cm g crb
    using that assms(2) by (auto simp: add_clusterRoleBinding_def Let_def split: option.splits intro!: escape_inv_rbac_link)
  show ?thesis unfolding addRBACChainForSA_def
    by (rule foldl_invariant) (use 1 2 in blast)+
qed

lemma escape_inv_peer:
  assumes "escape_inv ns g" "object_uid (pod_UID peer)" "\<forall>sa \<in> ran (sn_SaByNSName snap). object_uid (sa_UID sa)"
  shows "escape_inv ns (add_peer F E pod snap rc g peer)"
  using assms unfolding add_peer_def
  by (auto simp: Let_def pod_node_def sa_node_def graph_edge_def object_uid_def ranI split: option.splits
      intro!: escape_inv_AddEdge escape_inv_AddNode escape_inv_addRBAC)

lemma escape_inv_node_edge:
  assumes "escape_inv ns g" "ag_Nodes g (''cap:'' @ c) \<noteq> None"
  shows "escape_inv ns (AddEdge F (AddNode g \<lparr>gn_ID = ''node:'' @ i, gn_Type = NodeTypeNode, gn_Namespace = ''kube-system'', gn_Label = l,
     gn_SemanticCaps = []\<rparr>) (graph_edge (''cap:'' @ c) (''node:'' @ i) EdgeTypeLateralMove x))"
  using assms by (intro escape_inv_AddEdge escape_inv_AddNode) (auto simp: graph_edge_def AddNode_def)

lemma escape_inv_capability:
  assumes "escape_inv (pod_Namespace pod) g"
  shows "escape_inv (pod_Namespace pod) (add_capability F pod amp g c)"
proof -
  define k where "k = pc_PodUID c @ '':'' @ pc_CapabilityID c"
  define n where "n = \<lparr>gn_ID = ''cap:'' @ k, gn_Type = NodeTypeCapability, gn_Namespace = pod_Namespace pod, gn_Label = pc_CapabilityID c,
    gn_SemanticCaps = []\<rparr>"
  have 1: "escape_inv (pod_Namespace pod) (AddNode g n)"
    using assms by (intro escape_inv_AddNode) (auto simp: n_def)
  have 2: "escape_inv (pod_Namespace pod) (AddEdge F (AddNode g n) (graph_edge (pod_UID pod) (''cap:'' @ k) t x))" for t x
    using 1 by (intro escape_inv_AddEdge) (auto simp: graph_edge_def)
  have 3: "ag_Nodes (AddEdge F (AddNode g n) e) (''cap:'' @ k) \<noteq> None" for e
    by (simp add: AddNode_def AddEdge_def n_def Let_def)
  show ?thesis unfolding add_capability_def Let_def
    using assms 2 escape_inv_node_edge [OF 2 3] by (simp add: k_def n_def)
qed

lemma escape_inv_step:
  assumes "escape_inv (pod_Namespace pod) g"
  shows "escape_inv (pod_Namespace pod) (add_attack_step F pod g s)"
  using assms unfolding add_attack_step_def
  by (auto simp: Let_def graph_edge_def intro!: escape_inv_AddEdge escape_inv_AddNode)

lemma escape_inv_pod_graph:
  assumes "object_uid (pod_UID pod)" "object_uid (sa_UID sa)" "snapshot_uids snap"
  shows "escape_inv (pod_Namespace pod) (pod_graph F E pod sa snap podCaps podAttackSteps rc)"
proof -
  have "escape_inv (pod_Namespace pod) NewAttackGraph" by (simp add: escape_inv_def NewAttackGraph_def)
  then have "escape_inv (pod_Namespace pod) (AddEdge F (AddNode (AddNode NewAttackGraph (pod_node pod)) (sa_node sa)) (graph_edge (pod_UID pod) (sa_UID sa) t x))" for t x
    using assms(1,2) by (intro escape_inv_AddEdge escape_inv_AddNode) (auto simp: pod_node_def sa_node_def graph_edge_def object_uid_def)
  then show ?thesis unfolding pod_graph_def Let_def
    using assms(2,3) by (intro foldl_invariant [where P = "escape_inv (pod_Namespace pod)"] escape_inv_step escape_inv_capability escape_inv_peer
      escape_inv_addRBAC) (auto simp: snapshot_uids_def)
qed

lemma no_walk_to_a_node:
  assumes "attack_walk F g targets edge_feasible m s es w" "escape_inv ns g" "ns \<noteq> []" "ns \<noteq> ''kube-system''"
    "gn_Type (node_at g s) \<noteq> NodeTypeNode"
  shows "\<forall>i \<in> set (s # map ge_To es). gn_Type (node_at g i) \<noteq> NodeTypeNode"
  using assms(1)
proof (induction rule: attack_walk.induct)
  case start
  show ?case using assms(5) by simp
next
  case (step es w u e v)
  have "gn_Type v \<noteq> NodeTypeNode"
  proof
    assume v: "gn_Type v = NodeTypeNode"
    then have to: "HasPrefix (ge_To e) ''node:''" "gn_Namespace v = ''kube-system''"
      using assms(2) step.hyps(5) by (auto simp: escape_inv_def)
    have lat: "ge_Type e = EdgeTypeLateralMove" and src: "HasPrefix u ''cap:''" "ag_Nodes g u \<noteq> None"
      using assms(2) step.hyps(4) to(1) unfolding escape_inv_def by blast+
    then have "gn_Namespace (node_at g u) = ns" using assms(2) by (auto simp: escape_inv_def node_at_def)
    then show False using step.hyps(7) to(2) lat assms(3,4) by (simp add: edge_feasible_def)
  qed
  then show ?case using step.IH step.hyps(5) by (simp add: node_at_def)
qed

lemma graph_ok_fold: "(\<And>g x. graph_ok g \<Longrightarrow> graph_ok (f g x)) \<Longrightarrow> graph_ok g \<Longrightarrow> graph_ok (foldl f g xs)"
  by (rule foldl_invariant)

lemma graph_ok_rbac [simp]: "graph_ok g \<Longrightarrow> graph_ok (addRBACChainForSA F snap g sa)"
  unfolding addRBACChainForSA_def
  by (intro graph_ok_fold) (auto simp: add_roleBinding_def add_clusterRoleBinding_def rbac_link_def Let_def split: option.splits)

lemma graph_ok_pod_graph: "graph_ok (pod_graph F E pod sa snap podCaps podAttackSteps rc)"
  unfolding pod_graph_def Let_def
  by (intro graph_ok_fold) (auto simp: add_peer_def add_capability_def add_attack_step_def Let_def split: option.splits)

text \<open>
  C22. Outside kube-system no attack path of a pod reaches a node, whatever its capabilities: the edge from a capability to the
  node it escapes to crosses from the namespace of the pod to kube-system, where the graph puts every node, and the
  feasibility check refuses an edge between namespaces that is not an RBAC edge.
\<close>

theorem escape_paths_need_kube_system:
  assumes "object_uid (pod_UID pod)" "object_uid (sa_UID sa)" "snapshot_uids snap" "\<forall>xs. mset (order xs) = mset xs"
    "pod_Namespace pod \<noteq> []" "pod_Namespace pod \<noteq> ''kube-system''"
    "p \<in> set (buildDeterministicPaths F order E pod sa snap podCaps podAttackSteps rc highRiskSource)" "n \<in> set (ap_Nodes p)"
  shows "an_Type n \<noteq> NodeTypeNode"
proof -
  let ?g = "pod_graph F E pod sa snap podCaps podAttackSteps rc"
  obtain gp where gp: "gp \<in> set (BuildTopPathsAdaptive F order ?g (pod_UID pod) target_types highRiskSource no_options edge_feasible)"
    "p = convert_path F ?g gp"
    using assms(7) by (auto simp: buildDeterministicPaths_def convertGraphPathsToAttackPaths_def Let_def)
  obtain es w where walk: "attack_walk F ?g target_types edge_feasible (po_MinStrength (defaultPathBuildOptions F no_options)) (pod_UID pod) es w"
    "gp_NodeIDs gp = pod_UID pod # map ge_To es"
    using BuildTopPathsAdaptive_found [OF graph_ok_pod_graph assms(4) gp(1)] by (auto simp: found_path_def walk_path_def Let_def)
  have inv: "escape_inv (pod_Namespace pod) ?g" using escape_inv_pod_graph assms(1-3) .
  then have "gn_Type (node_at ?g (pod_UID pod)) \<noteq> NodeTypeNode"
    using assms(1) by (auto simp: node_at_def zero_node_def escape_inv_def object_uid_def split: option.splits)
  then have "\<forall>i \<in> set (gp_NodeIDs gp). gn_Type (node_at ?g i) \<noteq> NodeTypeNode"
    using no_walk_to_a_node [OF walk(1) inv assms(5,6)] walk(2) by simp
  moreover have "ap_Nodes p = map (convert_node ?g) (gp_NodeIDs gp)"
    by (simp add: gp(2) convert_path_def Let_def case_prod_unfold)
  ultimately show ?thesis using assms(8) by (auto simp: convert_node_def Let_def)
qed

definition hostpath_pod :: "string \<Rightarrow> Pod" where
  "hostpath_pod ns = \<lparr>pod_ClusterID = ''c'', pod_Name = ''p'', pod_Namespace = ns, pod_ServiceAccount = ''sa'', pod_UID = ''u1'',
     pod_ContainerSecurityContexts = [], pod_VolumeMounts = [], pod_Volumes = [], pod_HostNetwork = False, pod_HostPID = False,
     pod_HostIPC = False, pod_AutomountServiceAccountToken = None, pod_SpecHash = [], pod_LastEvaluatedHash = [], pod_Deleted = False,
     pod_NodeName = ''w1'', pod_PodIP = [], pod_StartTime = None, pod_CreatedAt = 0, pod_RestartCount = 0\<rparr>"

definition hostpath_sa :: "string \<Rightarrow> ServiceAccount" where
  "hostpath_sa ns = \<lparr>sa_ID = 1, sa_ClusterID = ''c'', sa_Name = ''sa'', sa_Namespace = ns, sa_UID = ''u2''\<rparr>"

definition hostpath_cap :: "string \<Rightarrow> rat PodCapability" where
  "hostpath_cap ns = \<lparr>pc_ID = 1, pc_ClusterID = ''c'', pc_PodUID = ''u1'', pc_Namespace = ns, pc_CapabilityID = ''ESC_HOSTPATH_NODE'',
     pc_CapabilityGroup = ''escape'', pc_Severity = ''critical'', pc_State = ''exploited'', pc_Confidence = 9 / 10,
     pc_CapabilityClass = ''effective'', pc_FirstSeenAt = 0, pc_LastSeenAt = 0, pc_Evidence = None\<rparr>"

definition empty_snapshot :: clusterPathSnapshot where
  "empty_snapshot = \<lparr>sn_ClusterID = ''c'', sn_SaByNSName = Map.empty, sn_RoleBindings = [], sn_ClusterRoleBindings = [],
     sn_RoleMap = Map.empty, sn_CrMap = Map.empty, sn_ClusterPods = [], sn_DenyCache = Map.empty, sn_HardeningHints = DefaultHardeningHints\<rparr>"

definition quiet_env :: PathEnv where
  "quiet_env = \<lparr>pe_Getenv = (\<lambda>_. []), pe_ParseDuration = (\<lambda>_. None), pe_ParseFloat = (\<lambda>_. None), pe_Now = 1000\<rparr>"

definition quiet_context :: ReachabilityContext where
  "quiet_context = \<lparr>rc_ObservedEgressIPs = Map.empty, rc_HasObservedEgress = False, rc_DenyCache = Map.empty, rc_Now = 1000,
     rc_FallbackTTL = 0, rc_DenyTTL = 0\<rparr>"

abbreviation hostpath_paths :: "string \<Rightarrow> AttackPath list" where
  "hostpath_paths ns \<equiv> buildDeterministicPaths exact_arith rev quiet_env (hostpath_pod ns) (hostpath_sa ns) empty_snapshot [hostpath_cap ns] []
     quiet_context True"

lemma hostpath_in_kube_system: "map (map an_Type \<circ> ap_Nodes) (hostpath_paths ''kube-system'') = [[NodeTypePod, NodeTypeCapability, NodeTypeNode]]"
  by code_simp

text \<open>The same exploited host path mount is a path to the node in kube-system and none in another namespace.\<close>

theorem escape_paths_need_kube_system_witness:
  "(\<exists>p \<in> set (hostpath_paths ''kube-system''). NodeTypeNode \<in> an_Type ` set (ap_Nodes p)) \<and>
   (\<nexists>p. p \<in> set (hostpath_paths ''shop'') \<and> NodeTypeNode \<in> an_Type ` set (ap_Nodes p))"
proof (rule conjI)
  have "map (map an_Type \<circ> ap_Nodes) (hostpath_paths ''kube-system'') \<noteq> []" unfolding hostpath_in_kube_system by simp
  then obtain p ps where p: "hostpath_paths ''kube-system'' = p # ps" by (cases "hostpath_paths ''kube-system''") auto
  have "map an_Type (ap_Nodes p) = [NodeTypePod, NodeTypeCapability, NodeTypeNode]"
    using hostpath_in_kube_system unfolding p by simp
  then have "NodeTypeNode \<in> set (map an_Type (ap_Nodes p))" by simp
  then show "\<exists>p \<in> set (hostpath_paths ''kube-system''). NodeTypeNode \<in> an_Type ` set (ap_Nodes p)" unfolding p by auto
  have uids: "object_uid (pod_UID (hostpath_pod ''shop''))" "object_uid (sa_UID (hostpath_sa ''shop''))" "snapshot_uids empty_snapshot"
    "pod_Namespace (hostpath_pod ''shop'') \<noteq> []" "pod_Namespace (hostpath_pod ''shop'') \<noteq> ''kube-system''" "\<forall>xs. mset (rev xs) = mset xs"
    by (simp_all add: object_uid_def hostpath_pod_def hostpath_sa_def snapshot_uids_def empty_snapshot_def)
  show "\<nexists>p. p \<in> set (hostpath_paths ''shop'') \<and> NodeTypeNode \<in> an_Type ` set (ap_Nodes p)"
  proof (rule notI, elim exE conjE)
    fix p assume p: "p \<in> set (hostpath_paths ''shop'')" "NodeTypeNode \<in> an_Type ` set (ap_Nodes p)"
    then obtain n where "n \<in> set (ap_Nodes p)" "an_Type n = NodeTypeNode" by auto
    then show False using escape_paths_need_kube_system [OF uids(1,2,3,6,4,5) p(1)] by blast
  qed
qed

subsection \<open>Roles on a path\<close>

text \<open>
  \<open>backed snap own u e\<close>: an edge from a service account to a binding comes from a binding of the snapshot that names the account,
  an edge from a binding to a role from one that refers to a role with a risk.
\<close>

definition roleBinding_id :: "RoleBinding \<Rightarrow> string" where
  "roleBinding_id rb = ''binding:'' @ rb_Namespace rb @ ''/'' @ rb_Name rb"

definition clusterRoleBinding_id :: "ClusterRoleBinding \<Rightarrow> string" where
  "clusterRoleBinding_id crb = ''binding:/'' @ crb_Name crb"

definition role_granted :: "clusterPathSnapshot \<Rightarrow> string \<Rightarrow> string \<Rightarrow> string \<Rightarrow> string \<Rightarrow> bool" where
  "role_granted snap ns roleRefJSON name rules \<longleftrightarrow> ClassifyRoleRisk name rules \<noteq> RiskLevelNone \<and>
     (\<exists>ref. unmarshal decode_roleRef roleRefJSON = Some ref \<and>
        (ref_Kind ref = ''Role'' \<and> (\<exists>r. sn_RoleMap snap (ns_name ns (ref_Name ref)) = Some r \<and> name = role_Name r \<and> rules = role_Rules r) \<or>
         ref_Kind ref = ''ClusterRole'' \<and> (\<exists>cr. sn_CrMap snap (ref_Name ref) = Some cr \<and> name = cr_Name cr \<and> rules = cr_Rules cr)))"

definition backed :: "clusterPathSnapshot \<Rightarrow> ServiceAccount \<Rightarrow> string \<Rightarrow> GraphEdge \<Rightarrow> bool" where
  "backed snap own u e \<longleftrightarrow>
     (ge_Type e = EdgeTypeRbacBinding \<longrightarrow> (\<exists>sa \<in> insert own (ran (sn_SaByNSName snap)). sa_UID sa = u \<and>
        ((\<exists>rb \<in> set (sn_RoleBindings snap). ge_To e = roleBinding_id rb \<and>
            graph_bindingRefersToSA (rb_Subjects rb) (sa_Name sa) (sa_Namespace sa)) \<or>
         (\<exists>crb \<in> set (sn_ClusterRoleBindings snap). ge_To e = clusterRoleBinding_id crb \<and>
            graph_bindingRefersToSA (crb_Subjects crb) (sa_Name sa) (sa_Namespace sa))))) \<and>
     (ge_Type e = EdgeTypeGrantsRole \<longrightarrow> (\<exists>name rules. ge_To e = ''role:'' @ name \<and>
        ((\<exists>rb \<in> set (sn_RoleBindings snap). u = roleBinding_id rb \<and> role_granted snap (rb_Namespace rb) (rb_RoleRef rb) name rules) \<or>
         (\<exists>crb \<in> set (sn_ClusterRoleBindings snap). u = clusterRoleBinding_id crb \<and> role_granted snap [] (crb_RoleRef crb) name rules))))"

definition backed_inv :: "clusterPathSnapshot \<Rightarrow> ServiceAccount \<Rightarrow> AttackGraph \<Rightarrow> bool" where
  "backed_inv snap own g \<longleftrightarrow> (\<forall>u. \<forall>e \<in> set (ag_Adj g u). backed snap own u e)"

lemma backed_AddNode [simp]: "backed_inv snap own (AddNode g n) \<longleftrightarrow> backed_inv snap own g"
  by (simp add: backed_inv_def AddNode_def)

lemma backed_AddEdge:
  assumes "backed_inv snap own g" "\<And>x. backed snap own (ge_From e) (e\<lparr>ge_Exploitability := x\<rparr>)"
  shows "backed_inv snap own (AddEdge F g e)"
  using assms by (auto simp: backed_inv_def AddEdge_def Let_def)

lemma backed_other:
  "ge_Type e \<noteq> EdgeTypeRbacBinding \<Longrightarrow> ge_Type e \<noteq> EdgeTypeGrantsRole \<Longrightarrow> backed snap own u e"
  by (simp add: backed_def)

lemma backed_roleBinding:
  assumes "backed_inv snap own g" "rb \<in> set (sn_RoleBindings snap)" "sa \<in> insert own (ran (sn_SaByNSName snap))"
  shows "backed_inv snap own (add_roleBinding F sa (sn_RoleMap snap) (sn_CrMap snap) g rb)"
proof -
  have link: "backed_inv snap own (rbac_link F (sa_UID sa) (roleBinding_id rb) bt ns bn tt name rules x g)"
    if "graph_bindingRefersToSA (rb_Subjects rb) (sa_Name sa) (sa_Namespace sa)"
      "ClassifyRoleRisk name rules \<noteq> RiskLevelNone \<Longrightarrow> role_granted snap (rb_Namespace rb) (rb_RoleRef rb) name rules" for bt ns bn tt name rules x
    using that assms unfolding rbac_link_def Let_def
    by (auto simp: backed_def intro!: backed_AddEdge) blast+
  show ?thesis
    using assms(1) unfolding add_roleBinding_def Let_def
    by (auto split: option.splits intro!: link [unfolded roleBinding_id_def, simplified]) (auto simp: role_granted_def)
qed

lemma backed_clusterRoleBinding:
  assumes "backed_inv snap own g" "crb \<in> set (sn_ClusterRoleBindings snap)" "sa \<in> insert own (ran (sn_SaByNSName snap))"
  shows "backed_inv snap own (add_clusterRoleBinding F sa (sn_CrMap snap) g crb)"
proof -
  have link: "backed_inv snap own (rbac_link F (sa_UID sa) (clusterRoleBinding_id crb) bt ns bn tt name rules x g)"
    if "graph_bindingRefersToSA (crb_Subjects crb) (sa_Name sa) (sa_Namespace sa)"
      "ClassifyRoleRisk name rules \<noteq> RiskLevelNone \<Longrightarrow> role_granted snap [] (crb_RoleRef crb) name rules" for bt ns bn tt name rules x
    using that assms unfolding rbac_link_def Let_def
    by (auto simp: backed_def intro!: backed_AddEdge) blast+
  show ?thesis
    using assms(1) unfolding add_clusterRoleBinding_def Let_def
    by (auto split: option.splits intro!: link [unfolded clusterRoleBinding_id_def, simplified]) (auto simp: role_granted_def)
qed

lemma backed_addRBAC:
  assumes "backed_inv snap own g" "sa \<in> insert own (ran (sn_SaByNSName snap))"
  shows "backed_inv snap own (addRBACChainForSA F snap g sa)"
  unfolding addRBACChainForSA_def using assms
  by (intro foldl_invariant [where P = "backed_inv snap own"] backed_roleBinding backed_clusterRoleBinding) auto

lemma backed_plain_edge:
  "backed_inv snap own g \<Longrightarrow> t \<noteq> EdgeTypeRbacBinding \<Longrightarrow> t \<noteq> EdgeTypeGrantsRole \<Longrightarrow> backed_inv snap own (AddEdge F g (graph_edge u v t x))"
  by (rule backed_AddEdge) (auto intro: backed_other simp: graph_edge_def)

lemma backed_peer:
  "backed_inv snap own g \<Longrightarrow> backed_inv snap own (add_peer F E pod snap rc g peer)"
  unfolding add_peer_def Let_def
  by (auto split: option.splits intro!: backed_addRBAC backed_plain_edge intro: ranI)

lemma backed_capability: "backed_inv snap own g \<Longrightarrow> backed_inv snap own (add_capability F pod amp g c)"
  unfolding add_capability_def Let_def by (auto intro!: backed_plain_edge)

lemma backed_attack_step: "backed_inv snap own g \<Longrightarrow> backed_inv snap own (add_attack_step F pod g s)"
  unfolding add_attack_step_def Let_def by (auto intro!: backed_plain_edge)

lemma backed_pod_graph: "backed_inv snap sa (pod_graph F E pod sa snap podCaps podAttackSteps rc)"
proof -
  have "backed_inv snap sa NewAttackGraph" by (simp add: backed_inv_def NewAttackGraph_def)
  then show ?thesis unfolding pod_graph_def Let_def
    by (intro foldl_invariant [where P = "backed_inv snap sa"] backed_attack_step backed_capability backed_peer backed_addRBAC
      backed_plain_edge) auto
qed

lemma walk_edges:
  assumes "attack_walk F g targets feas m s es w" "k < length es"
  shows "es ! k \<in> set (ag_Adj g ((s # map ge_To es) ! k))"
  using assms
proof (induction arbitrary: k rule: attack_walk.induct)
  case (step es w u e v)
  show ?case
  proof (cases "k < length es")
    case True
    then show ?thesis using step.IH [OF True] by (simp add: nth_append nth_Cons split: nat.splits)
  next
    case False
    then have k: "k = length es" using step.prems by simp
    have "(s # map ge_To (es @ [e])) ! length es = last (s # map ge_To es)"
      by (cases es rule: rev_cases) (simp_all add: nth_append)
    then show ?thesis using step.hyps(2,4) unfolding k by simp
  qed
qed simp

text \<open>
  No attack path invents privileges: every step from a service account to a binding on a reported path is a binding of the cluster
  that names the account, and every step from a binding to a role is the reference of that binding to a role that the
  RBAC analyzer classifies as risky.
\<close>

lemma reported_roles_are_granted:
  assumes "\<forall>xs. mset (order xs) = mset xs"
    "p \<in> set (buildDeterministicPaths F order E pod sa snap podCaps podAttackSteps rc highRiskSource)" "e \<in> set (ap_Edges p)"
  shows "backed snap sa (ae_Source e) (graph_edge (ae_Source e) (ae_Target e) (ae_Type e) 0)"
proof -
  let ?g = "pod_graph F E pod sa snap podCaps podAttackSteps rc"
  obtain gp where gp: "gp \<in> set (BuildTopPathsAdaptive F order ?g (pod_UID pod) target_types highRiskSource no_options edge_feasible)"
    "p = convert_path F ?g gp"
    using assms(2) by (auto simp: buildDeterministicPaths_def convertGraphPathsToAttackPaths_def Let_def)
  obtain es w where walk: "attack_walk F ?g target_types edge_feasible (po_MinStrength (defaultPathBuildOptions F no_options)) (pod_UID pod) es w"
    "gp_NodeIDs gp = pod_UID pod # map ge_To es" "gp_EdgeTypes gp = map ge_Type es"
    using BuildTopPathsAdaptive_found [OF graph_ok_pod_graph assms(1) gp(1)] by (auto simp: found_path_def walk_path_def Let_def)
  have "ap_Edges p = convert_edges gp" by (simp add: gp(2) convert_path_def Let_def case_prod_unfold)
  then obtain k where k: "k < length es" "e = \<lparr>ae_Type = ge_Type (es ! k), ae_Source = (pod_UID pod # map ge_To es) ! k, ae_Target = ge_To (es ! k)\<rparr>"
    using assms(3) by (auto simp: convert_edges_def walk(2,3) in_set_conv_nth)
  have "backed snap sa ((pod_UID pod # map ge_To es) ! k) (es ! k)"
    using walk_edges [OF walk(1) k(1)] backed_pod_graph unfolding backed_inv_def by blast
  then show ?thesis unfolding k(2) by (simp add: backed_def graph_edge_def)
qed

definition grant_snapshot :: clusterPathSnapshot where
  "grant_snapshot = empty_snapshot\<lparr>
     sn_ClusterRoleBindings := [\<lparr>crb_ID = 1, crb_ClusterID = ''c'', crb_Name = ''b'', crb_UID = [],
       crb_RoleRef = ''{\"kind\":\"ClusterRole\",\"name\":\"ops-admin\"}'',
       crb_Subjects = ''[{\"kind\":\"ServiceAccount\",\"name\":\"sa\",\"namespace\":\"shop\"}]''\<rparr>],
     sn_CrMap := [''ops-admin'' \<mapsto> \<lparr>cr_ID = 1, cr_ClusterID = ''c'', cr_Name = ''ops-admin'', cr_UID = [], cr_Rules = []\<rparr>]\<rparr>"

lemma only_element: "map f xs = [y] \<Longrightarrow> \<exists>x \<in> set xs. f x = y"
  by auto

lemma grant_paths: "map (\<lambda>p. map ae_Type (ap_Edges p)) (buildDeterministicPaths exact_arith rev quiet_env (hostpath_pod ''shop'') (hostpath_sa ''shop'')
     grant_snapshot [] [] quiet_context False) = [[EdgeTypeServiceAccount, EdgeTypeRbacBinding, EdgeTypeGrantsRole]]"
  by code_simp

text \<open>The witness: a path of the account to a role, whose step from the binding to the role is the reference of the binding.\<close>

lemma reported_roles_are_granted_witness:
  "\<exists>p \<in> set (buildDeterministicPaths exact_arith rev quiet_env (hostpath_pod ''shop'') (hostpath_sa ''shop'') grant_snapshot [] []
      quiet_context False). \<exists>e \<in> set (ap_Edges p). ae_Type e = EdgeTypeGrantsRole \<and>
      backed grant_snapshot (hostpath_sa ''shop'') (ae_Source e) (graph_edge (ae_Source e) (ae_Target e) EdgeTypeGrantsRole 0)"
proof -
  obtain p where p: "p \<in> set (buildDeterministicPaths exact_arith rev quiet_env (hostpath_pod ''shop'') (hostpath_sa ''shop'') grant_snapshot [] []
      quiet_context False)" "map ae_Type (ap_Edges p) = [EdgeTypeServiceAccount, EdgeTypeRbacBinding, EdgeTypeGrantsRole]"
    by (rule bexE [OF only_element [OF grant_paths]])
  from arg_cong [OF p(2), of set] have "EdgeTypeGrantsRole \<in> ae_Type ` set (ap_Edges p)" by simp
  then obtain e where e: "e \<in> set (ap_Edges p)" "ae_Type e = EdgeTypeGrantsRole" by (rule imageE) (rule that, simp_all)
  have "\<forall>xs. mset (rev xs) = mset xs" by simp
  from reported_roles_are_granted [OF this p(1) e(1)] show ?thesis unfolding e(2) using p(1) e by blast
qed

end
