(* ===== verification/Attack_Path_Store.thy ===== *)
theory Attack_Path_Store
  imports Attack_Path_Builder
begin

section \<open>Storage of attack paths: core/pkg/graph/relational\_path\_identity.go, relational\_path\_builder.go\<close>

text \<open>
  The rows of the paths of a pod: upsert by path identifier, removal of rows with positional identifiers, and hysteresis for paths
  that are no longer computed. An upsert of an existing row writes the fields that are not zero and its instant; saving a row
  writes its instant; an inserted row with difficulty 0 gets the default of its column. The statements are not in a transaction: what was written before an error stays.
\<close>

subsection \<open>Rows\<close>

definition row_of :: "Identity \<Rightarrow> string \<Rightarrow> AttackPathRow \<Rightarrow> bool" where
  "row_of i pathID r \<longleftrightarrow> ar_ClusterID r = id_ClusterID i \<and> ar_PodUID r = id_ResourceUID i \<and> ar_PathID r = pathID"

definition pod_row :: "Identity \<Rightarrow> AttackPathRow \<Rightarrow> bool" where
  "pod_row i r \<longleftrightarrow> ar_ClusterID r = id_ClusterID i \<and> ar_PodUID r = id_ResourceUID i"

definition fresh_row_id :: "AttackPathRow list \<Rightarrow> nat" where
  "fresh_row_id rows = Suc (fold max (map ar_ID rows) 0)"

definition assign_path :: "int \<Rightarrow> AttackPath \<Rightarrow> AttackPathRow \<Rightarrow> AttackPathRow" where
  "assign_path now p r = r\<lparr>ar_Nodes := ap_Nodes p, ar_Edges := ap_Edges p,
     ar_TotalRisk := (if ap_TotalRisk p = 0 then ar_TotalRisk r else ap_TotalRisk p),
     ar_Difficulty := (if ap_Difficulty p = 0 then ar_Difficulty r else ap_Difficulty p),
     ar_Impact := (if ap_Impact p = 0 then ar_Impact r else ap_Impact p),
     ar_Length := (if ap_Length p = 0 then ar_Length r else ap_Length p),
     ar_Description := (if ap_Description p = [] then ar_Description r else ap_Description p),
     ar_EnrichedFromPCE := (ar_EnrichedFromPCE r \<or> ap_EnrichedFromPCE p), ar_UpdatedAt := now\<rparr>"

definition path_row :: "int \<Rightarrow> Identity \<Rightarrow> string \<Rightarrow> AttackPath \<Rightarrow> nat \<Rightarrow> AttackPathRow" where
  "path_row now i pathID p rid = \<lparr>ar_ID = rid, ar_ClusterID = id_ClusterID i, ar_PodUID = id_ResourceUID i, ar_PathID = pathID,
     ar_Nodes = ap_Nodes p, ar_Edges = ap_Edges p, ar_TotalRisk = ap_TotalRisk p, ar_Difficulty = (if ap_Difficulty p = 0 then 1 else ap_Difficulty p), ar_Impact = ap_Impact p,
     ar_Length = ap_Length p, ar_Description = ap_Description p, ar_EnrichedFromPCE = ap_EnrichedFromPCE p, ar_UpdatedAt = now\<rparr>"

definition upsert_row :: "int \<Rightarrow> Identity \<Rightarrow> string \<Rightarrow> AttackPath \<Rightarrow> AttackPathRow list \<Rightarrow> AttackPathRow list" where
  "upsert_row now i pathID p rows =
     (if list_ex (row_of i pathID) rows then map (\<lambda>r. if row_of i pathID r then assign_path now p r else r) rows
      else rows @ [path_row now i pathID p (fresh_row_id rows)])"

fun upsert_paths :: "int \<Rightarrow> Identity \<Rightarrow> (string \<times> AttackPath) list \<Rightarrow> GraphDb \<Rightarrow> string option \<times> GraphDb" where
  "upsert_paths now i [] db = (None, db)"
| "upsert_paths now i ((pathID, p) # ps) db =
     (if gd_Fails db (''upsert:'' @ pathID) then (Some (''upsert:'' @ pathID), db)
      else upsert_paths now i ps (db\<lparr>gd_AttackPaths := upsert_row now i pathID p (gd_AttackPaths db)\<rparr>))"

text \<open>SQL's LIKE: an underscore matches a byte, a percent sign any text, a backslash quotes the byte behind it.\<close>

fun sql_like :: "string \<Rightarrow> string \<Rightarrow> bool" where
  "sql_like [] t \<longleftrightarrow> t = []"
| "sql_like (p # ps) [] \<longleftrightarrow> p = CHR ''%'' \<and> sql_like ps []"
| "sql_like (p # ps) (c # t) \<longleftrightarrow>
     (if p = CHR ''%'' then sql_like ps (c # t) \<or> sql_like (p # ps) t
      else if p = CHR ''_'' then sql_like ps t
      else if p = CHR 0x5C \<and> ps \<noteq> [] then hd ps = c \<and> sql_like (tl ps) t
      else p = c \<and> sql_like ps t)"

definition attackPathHysteresisGraceFromEnv :: "PathEnv \<Rightarrow> int" where
  "attackPathHysteresisGraceFromEnv E =
     (let raw = TrimSpace (pe_Getenv E ''FORTUNA_ATTACK_PATH_HYSTERESIS_GRACE'')
      in if raw = [] then seconds_ns (60 * 60)
         else case pe_ParseDuration E raw of None \<Rightarrow> seconds_ns (60 * 60)
            | Some d \<Rightarrow> if d < 0 then seconds_ns (60 * 60) else d)"

definition attackPathHysteresisDecayFromEnv :: "FloatArith \<Rightarrow> PathEnv \<Rightarrow> rat" where
  "attackPathHysteresisDecayFromEnv F E =
     (let raw = TrimSpace (pe_Getenv E ''FORTUNA_ATTACK_PATH_HYSTERESIS_DECAY'')
      in if raw = [] then lit F (7 / 10)
         else case pe_ParseFloat E raw of None \<Rightarrow> lit F (7 / 10)
            | Some v \<Rightarrow> if v \<le> 0 \<or> v > 1 then lit F (7 / 10) else v)"

definition decayed_row :: "FloatArith \<Rightarrow> int \<Rightarrow> rat \<Rightarrow> AttackPathRow \<Rightarrow> AttackPathRow" where
  "decayed_row F now decay old = old\<lparr>
     ar_TotalRisk := clampFloat (fmul F (ar_TotalRisk old) decay) 0 10,
     ar_Impact := clampFloat (fmul F (ar_Impact old) decay) 0 1,
     ar_Difficulty := clampFloat (fsub F 1 (fmul F (fsub F 1 (ar_Difficulty old)) decay)) (lit F (1 / 10)) 1,
     ar_Description := TrimSpace (ar_Description old @ '' [hysteresis]''), ar_UpdatedAt := now\<rparr>"

fun hysteresis :: "FloatArith \<Rightarrow> int \<Rightarrow> int \<Rightarrow> rat \<Rightarrow> string list \<Rightarrow> AttackPathRow list \<Rightarrow> GraphDb \<Rightarrow> string option \<times> GraphDb" where
  "hysteresis F now grace decay present [] db = (None, db)"
| "hysteresis F now grace decay present (old # olds) db =
     (if ar_PathID old \<in> set present then hysteresis F now grace decay present olds db
      else if now - ar_UpdatedAt old > grace then
        (if gd_Fails db (''delete:'' @ ar_PathID old) then (Some (''delete:'' @ ar_PathID old), db)
         else hysteresis F now grace decay present olds
           (db\<lparr>gd_AttackPaths := filter (\<lambda>r. ar_ID r \<noteq> ar_ID old) (gd_AttackPaths db)\<rparr>))
      else
        (if gd_Fails db (''save:'' @ ar_PathID old) then (Some (''save:'' @ ar_PathID old), db)
         else hysteresis F now grace decay present olds
           (db\<lparr>gd_AttackPaths := map (\<lambda>r. if ar_ID r = ar_ID old then decayed_row F now decay old else r) (gd_AttackPaths db)\<rparr>)))"

definition persistAttackPathsForIdentity :: "FloatArith \<Rightarrow> (string \<Rightarrow> string) \<Rightarrow> PathEnv \<Rightarrow> Identity \<Rightarrow> AttackPath list \<Rightarrow> GraphDb
    \<Rightarrow> string option \<times> GraphDb" where
  "persistAttackPathsForIdentity F sha1 E i paths db0 =
     (let pathIDs = StablePathIDs sha1 paths;
          now = pe_Now E
      in case upsert_paths now i (zip pathIDs paths) db0 of
           (Some e, db) \<Rightarrow> (Some e, db)
         | (None, db) \<Rightarrow>
             if gd_Fails db ''legacy'' then (Some ''legacy'', db)
             else
               let db = db\<lparr>gd_AttackPaths := filter (\<lambda>r. \<not> (pod_row i r \<and> sql_like (id_ResourceUID i @ ''-path-%'') (ar_PathID r)))
                     (gd_AttackPaths db)\<rparr>;
                   grace = attackPathHysteresisGraceFromEnv E;
                   decay = attackPathHysteresisDecayFromEnv F E
               in if grace \<le> 0 then (None, db)
                  else if gd_Fails db ''existing'' then (Some ''existing'', db)
                  else hysteresis F now grace decay pathIDs (filter (pod_row i) (gd_AttackPaths db)) db)"

definition cleanupStaleAttackPaths :: "string \<Rightarrow> GraphDb \<Rightarrow> string option \<times> GraphDb" where
  "cleanupStaleAttackPaths clusterID db =
     (if gd_Fails db ''cleanup'' then (Some ''cleanup'', db)
      else (None, db\<lparr>gd_AttackPaths := filter (\<lambda>r. \<not> (
         \<not> list_ex (\<lambda>p. pod_ClusterID p = ar_ClusterID r \<and> pod_UID p = ar_PodUID r \<and> \<not> pod_Deleted p) (gd_Pods db) \<and>
         (TrimSpace clusterID \<noteq> [] \<longrightarrow> ar_ClusterID r = clusterID))) (gd_AttackPaths db)\<rparr>))"

subsection \<open>Building all paths\<close>

definition buildPathsForPodIdentityWithSnapshot :: "FloatArith \<Rightarrow> (GraphPath list \<Rightarrow> GraphPath list) \<Rightarrow> (string \<Rightarrow> string) \<Rightarrow> PathEnv \<Rightarrow> Identity
    \<Rightarrow> Pod \<Rightarrow> clusterPathSnapshot \<Rightarrow> bool \<Rightarrow> GraphDb \<Rightarrow> (string, AttackPath list) result \<times> GraphDb" where
  "buildPathsForPodIdentityWithSnapshot F order sha1 E i pod snap persist db =
     (if sn_SaByNSName snap (ns_name (pod_Namespace pod) (pod_ServiceAccount pod)) = None then (Inr [], db)
      else
        let paths = identity_paths F order E i pod snap db
        in if persist then
             (case persistAttackPathsForIdentity F sha1 E i paths db of
                (Some e, db') \<Rightarrow> (Inl e, db')
              | (None, db') \<Rightarrow> (Inr paths, db'))
           else (Inr paths, db))"

definition BuildPathsForPodIdentity :: "FloatArith \<Rightarrow> (GraphPath list \<Rightarrow> GraphPath list) \<Rightarrow> (string \<Rightarrow> string) \<Rightarrow> PathEnv \<Rightarrow> Identity \<Rightarrow> bool \<Rightarrow> GraphDb
    \<Rightarrow> (string, AttackPath list) result \<times> GraphDb" where
  "BuildPathsForPodIdentity F order sha1 E i persist db =
     (case Identity_Validate i of
        Inl e \<Rightarrow> (Inl ''identity'', db)
      | Inr _ \<Rightarrow>
          if gd_Fails db ''pod'' then (Inl ''pod'', db)
          else case find (\<lambda>p. pod_ClusterID p = id_ClusterID i \<and> pod_UID p = id_ResourceUID i \<and> \<not> pod_Deleted p) (gd_Pods db) of
            None \<Rightarrow> (Inr [], db)
          | Some pod \<Rightarrow>
              (case loadClusterPathSnapshot F E (id_ClusterID i) db of
                 Inl e \<Rightarrow> (Inl e, db)
               | Inr snap \<Rightarrow> buildPathsForPodIdentityWithSnapshot F order sha1 E i pod snap persist db))"

fun build_pods :: "FloatArith \<Rightarrow> (GraphPath list \<Rightarrow> GraphPath list) \<Rightarrow> (string \<Rightarrow> string) \<Rightarrow> PathEnv \<Rightarrow> string \<Rightarrow> clusterPathSnapshot \<Rightarrow> bool \<Rightarrow> Pod list
    \<Rightarrow> AttackPath list \<Rightarrow> GraphDb \<Rightarrow> (string, AttackPath list) result \<times> GraphDb" where
  "build_pods F order sha1 E cid snap persist [] allPaths db = (Inr allPaths, db)"
| "build_pods F order sha1 E cid snap persist (pod # pods) allPaths db =
     (case New cid (pod_UID pod) of
        Inl e \<Rightarrow> (Inl ''identity'', db)
      | Inr i \<Rightarrow>
          (case buildPathsForPodIdentityWithSnapshot F order sha1 E i pod snap persist db of
             (Inl e, db') \<Rightarrow> (Inl e, db')
           | (Inr paths, db') \<Rightarrow> build_pods F order sha1 E cid snap persist pods (allPaths @ paths) db'))"

fun build_clusters :: "FloatArith \<Rightarrow> (GraphPath list \<Rightarrow> GraphPath list) \<Rightarrow> (string \<Rightarrow> string) \<Rightarrow> PathEnv \<Rightarrow> bool \<Rightarrow> Pod list \<Rightarrow> string list
    \<Rightarrow> AttackPath list \<Rightarrow> GraphDb \<Rightarrow> (string, AttackPath list) result \<times> GraphDb" where
  "build_clusters F order sha1 E persist pods [] allPaths db = (Inr allPaths, db)"
| "build_clusters F order sha1 E persist pods (cid # cids) allPaths db =
     (case loadClusterPathSnapshot F E cid db of
        Inl e \<Rightarrow> (Inl e, db)
      | Inr snap \<Rightarrow>
          (case build_pods F order sha1 E cid snap persist (filter (\<lambda>p. pod_ClusterID p = cid) pods) allPaths db of
             (Inl e, db') \<Rightarrow> (Inl e, db')
           | (Inr allPaths', db') \<Rightarrow> build_clusters F order sha1 E persist pods cids allPaths' db'))"

definition buildAllPathsNoCache :: "FloatArith \<Rightarrow> (GraphPath list \<Rightarrow> GraphPath list) \<Rightarrow> (string list \<Rightarrow> string list) \<Rightarrow> (string \<Rightarrow> string) \<Rightarrow> PathEnv
    \<Rightarrow> string \<Rightarrow> bool \<Rightarrow> GraphDb \<Rightarrow> (string, AttackPath list) result \<times> GraphDb" where
  "buildAllPathsNoCache F order cluster_order sha1 E clusterID persist db =
     (if gd_Fails db ''allPods'' then (Inl ''allPods'', db)
      else
        let pods = filter (\<lambda>p. \<not> pod_Deleted p \<and> in_scope clusterID (pod_ClusterID p) \<and> TrimSpace (pod_ClusterID p) \<noteq> []) (gd_Pods db)
        in case build_clusters F order sha1 E persist pods (cluster_order (remdups (map pod_ClusterID pods))) [] db of
             (Inl e, db') \<Rightarrow> (Inl e, db')
           | (Inr allPaths, db') \<Rightarrow>
               if persist then
                 (case cleanupStaleAttackPaths clusterID db' of
                    (Some e, db'') \<Rightarrow> (Inl e, db'')
                  | (None, db'') \<Rightarrow> (Inr allPaths, db''))
               else (Inr allPaths, db'))"

text \<open>\<open>BuildAllPaths\<close> without a cached entry returns copies of the built paths.\<close>

definition BuildAllPaths :: "FloatArith \<Rightarrow> (GraphPath list \<Rightarrow> GraphPath list) \<Rightarrow> (string list \<Rightarrow> string list) \<Rightarrow> (string \<Rightarrow> string) \<Rightarrow> PathEnv
    \<Rightarrow> string \<Rightarrow> bool \<Rightarrow> GraphDb \<Rightarrow> (string, AttackPath list) result \<times> GraphDb" where
  "BuildAllPaths F order cluster_order sha1 E clusterID persist db =
     (case buildAllPathsNoCache F order cluster_order sha1 E clusterID persist db of
        (Inl e, db') \<Rightarrow> (Inl e, db')
      | (Inr paths, db') \<Rightarrow> (Inr (cloneAttackPaths paths), db'))"

end
