(* ===== verification/Attack_Path_Rows.thy ===== *)
theory Attack_Path_Rows
  imports Attack_Path_Store
begin

section \<open>What is stored of attack paths\<close>

text \<open>
  The rows of the table of attack paths under every operation that writes them, the exact outcome of a rebuild of one pod, and the
  rows a build reads.
\<close>

subsection \<open>Keys\<close>

definition row_key :: "AttackPathRow \<Rightarrow> string \<times> string \<times> string" where
  "row_key r = (ar_ClusterID r, ar_PodUID r, ar_PathID r)"

text \<open>\<open>rows_ok rows\<close>: primary keys and the unique index of the table.\<close>

definition rows_ok :: "AttackPathRow list \<Rightarrow> bool" where
  "rows_ok rows \<longleftrightarrow> distinct (map ar_ID rows) \<and> distinct (map row_key rows)"

lemma row_of_key: "row_of i pathID r \<longleftrightarrow> row_key r = (id_ClusterID i, id_ResourceUID i, pathID)"
  by (auto simp: row_of_def row_key_def)

lemma pod_row_of [simp]: "row_of i pathID r \<Longrightarrow> pod_row i r"
  by (simp add: row_of_def pod_row_def)

lemma assign_path_keys [simp]: "ar_ID (assign_path now p r) = ar_ID r" "row_key (assign_path now p r) = row_key r"
  "pod_row i (assign_path now p r) = pod_row i r" "row_of i k (assign_path now p r) = row_of i k r"
  by (simp_all add: assign_path_def row_key_def pod_row_def row_of_def)

lemma path_row_keys [simp]: "ar_ID (path_row now i k p n) = n" "row_key (path_row now i k p n) = (id_ClusterID i, id_ResourceUID i, k)"
  "pod_row i (path_row now i k p n)" "row_of i k' (path_row now i k p n) \<longleftrightarrow> k' = k"
  by (auto simp: path_row_def row_key_def pod_row_def row_of_def)

lemma decayed_row_keys [simp]: "ar_ID (decayed_row F now d r) = ar_ID r" "row_key (decayed_row F now d r) = row_key r"
  "pod_row i (decayed_row F now d r) = pod_row i r" "ar_PathID (decayed_row F now d r) = ar_PathID r"
  by (simp_all add: decayed_row_def row_key_def pod_row_def)

lemma fold_max_ge: "(a::nat) \<le> fold max xs a" "x \<in> set xs \<Longrightarrow> x \<le> fold max xs a"
proof (induction xs arbitrary: a)
  case (Cons y ys)
  {
    case 1
    show ?case using Cons.IH(1) [of "max y a"] by simp
  next
    case 2
    then show ?case using Cons.IH(1) [of "max y a"] Cons.IH(2) [of "max y a"] by auto
  }
qed auto

lemma fresh_row_id_new: "r \<in> set rows \<Longrightarrow> ar_ID r < fresh_row_id rows"
  using fold_max_ge(2) [of "ar_ID r" "map ar_ID rows" 0] by (simp add: fresh_row_id_def less_Suc_eq_le)

lemma rows_ok_filter: "rows_ok rows \<Longrightarrow> rows_ok (filter P rows)"
  by (simp add: rows_ok_def distinct_map_filter)

lemma rows_ok_map:
  assumes "rows_ok rows" "\<And>r. r \<in> set rows \<Longrightarrow> ar_ID (f r) = ar_ID r \<and> row_key (f r) = row_key r"
  shows "rows_ok (map f rows)"
proof -
  have "map ar_ID (map f rows) = map ar_ID rows" "map row_key (map f rows) = map row_key rows" using assms(2) by auto
  then show ?thesis using assms(1) unfolding rows_ok_def by metis
qed

lemma rows_ok_ID: "rows_ok rows \<Longrightarrow> r \<in> set rows \<Longrightarrow> s \<in> set rows \<Longrightarrow> ar_ID r = ar_ID s \<Longrightarrow> r = s"
  unfolding rows_ok_def by (metis distinct_map inj_onD)

lemma rows_ok_key: "rows_ok rows \<Longrightarrow> r \<in> set rows \<Longrightarrow> s \<in> set rows \<Longrightarrow> row_key r = row_key s \<Longrightarrow> r = s"
  unfolding rows_ok_def by (metis distinct_map inj_onD)

subsection \<open>Upserts\<close>

lemma rows_ok_upsert: "rows_ok rows \<Longrightarrow> rows_ok (upsert_row now i k p rows)"
  using fresh_row_id_new [of _ rows]
  by (force simp: upsert_row_def rows_ok_def list_ex_iff row_of_key comp_def if_distrib [of ar_ID] if_distrib [of row_key] cong: if_cong)

lemma filter_map_frame: "(\<And>r. P (f r) = P r) \<Longrightarrow> (\<And>r. P r \<Longrightarrow> f r = r) \<Longrightarrow> filter P (map f rows) = filter P rows"
  by (induction rows) simp_all

lemma upsert_other_pods: "filter (\<lambda>r. \<not> pod_row i r) (upsert_row now i k p rows) = filter (\<lambda>r. \<not> pod_row i r) rows"
  unfolding upsert_row_def by (auto split: if_splits intro!: filter_map_frame)

lemma upsert_other_keys: "k' \<noteq> k \<Longrightarrow> filter (row_of i k') (upsert_row now i k p rows) = filter (row_of i k') rows"
  unfolding upsert_row_def by (auto simp: row_of_key split: if_splits intro!: filter_map_frame)

text \<open>\<open>holds_path now p r\<close>: the row has what the path shows; columns of an existing row keep their value where the path has zero.\<close>

definition holds_path :: "int \<Rightarrow> AttackPath \<Rightarrow> AttackPathRow \<Rightarrow> bool" where
  "holds_path now p r \<longleftrightarrow> ar_Nodes r = ap_Nodes p \<and> ar_Edges r = ap_Edges p \<and> ar_UpdatedAt r = now \<and>
     (ap_TotalRisk p \<noteq> 0 \<longrightarrow> ar_TotalRisk r = ap_TotalRisk p) \<and> (ap_Difficulty p \<noteq> 0 \<longrightarrow> ar_Difficulty r = ap_Difficulty p) \<and>
     (ap_Impact p \<noteq> 0 \<longrightarrow> ar_Impact r = ap_Impact p) \<and> (ap_Length p \<noteq> 0 \<longrightarrow> ar_Length r = ap_Length p) \<and>
     (ap_Description p \<noteq> [] \<longrightarrow> ar_Description r = ap_Description p)"

lemma holds_assigned: "holds_path now p (assign_path now p r)"
  by (simp add: holds_path_def assign_path_def)

lemma holds_new: "holds_path now p (path_row now i k p n)"
  by (simp add: holds_path_def path_row_def)

lemma upsert_own_key:
  "filter (row_of i k) (upsert_row now i k p rows) \<noteq> []" "r \<in> set (upsert_row now i k p rows) \<Longrightarrow> row_of i k r \<Longrightarrow> holds_path now p r"
proof -
  show "filter (row_of i k) (upsert_row now i k p rows) \<noteq> []"
  proof (cases "list_ex (row_of i k) rows")
    case True
    then obtain x where "x \<in> set rows" "row_of i k x" by (auto simp: list_ex_iff)
    then have "assign_path now p x \<in> set (upsert_row now i k p rows)" "row_of i k (assign_path now p x)"
      using True unfolding upsert_row_def by (auto simp: image_iff intro!: bexI [of _ x])
    then show ?thesis unfolding filter_empty_conv by blast
  qed (simp add: upsert_row_def)
  show "r \<in> set (upsert_row now i k p rows) \<Longrightarrow> row_of i k r \<Longrightarrow> holds_path now p r"
    by (auto simp: upsert_row_def list_ex_iff holds_assigned holds_new split: if_splits)
qed

definition paths_written :: "GraphDb \<Rightarrow> GraphDb \<Rightarrow> bool" where
  "paths_written db db' \<longleftrightarrow> db' = db\<lparr>gd_AttackPaths := gd_AttackPaths db'\<rparr>"

lemma paths_written_refl [simp]: "paths_written db db"
  by (simp add: paths_written_def)

lemma paths_written_update [simp]: "paths_written db (db\<lparr>gd_AttackPaths := rows\<rparr>)"
  by (simp add: paths_written_def)

lemma paths_written_trans: "paths_written a b \<Longrightarrow> paths_written b c \<Longrightarrow> paths_written a c"
  unfolding paths_written_def by (cases a; cases b; cases c) auto

lemma upsert_paths_frame:
  assumes "upsert_paths now i kps db = (e, db')"
  shows "paths_written db db'" "rows_ok (gd_AttackPaths db) \<Longrightarrow> rows_ok (gd_AttackPaths db')"
    "filter (\<lambda>r. \<not> pod_row i r) (gd_AttackPaths db') = filter (\<lambda>r. \<not> pod_row i r) (gd_AttackPaths db)"
    "k \<notin> fst ` set kps \<Longrightarrow> filter (row_of i k) (gd_AttackPaths db') = filter (row_of i k) (gd_AttackPaths db)"
proof -
  have "paths_written db db' \<and> (rows_ok (gd_AttackPaths db) \<longrightarrow> rows_ok (gd_AttackPaths db')) \<and>
    filter (\<lambda>r. \<not> pod_row i r) (gd_AttackPaths db') = filter (\<lambda>r. \<not> pod_row i r) (gd_AttackPaths db) \<and>
    (k \<notin> fst ` set kps \<longrightarrow> filter (row_of i k) (gd_AttackPaths db') = filter (row_of i k) (gd_AttackPaths db))"
    using assms
  proof (induction kps arbitrary: db)
    case (Cons kp kps)
    obtain k' p where kp: "kp = (k', p)" by force
    let ?db = "db\<lparr>gd_AttackPaths := upsert_row now i k' p (gd_AttackPaths db)\<rparr>"
    show ?case
    proof (cases "gd_Fails db (''upsert:'' @ k')")
      case False
      then have up: "upsert_paths now i kps ?db = (e, db')" using Cons.prems kp by simp
      have "paths_written db db'" using Cons.IH [OF up] paths_written_trans [of db ?db db'] by simp
      moreover have "k \<noteq> k' \<and> k \<notin> fst ` set kps" if "k \<notin> fst ` set (kp # kps)" using that kp by simp
      ultimately show ?thesis using Cons.IH [OF up] by (simp add: rows_ok_upsert upsert_other_pods upsert_other_keys)
    qed (use Cons.prems kp in simp)
  qed simp
  then show "paths_written db db'" "rows_ok (gd_AttackPaths db) \<Longrightarrow> rows_ok (gd_AttackPaths db')"
    "filter (\<lambda>r. \<not> pod_row i r) (gd_AttackPaths db') = filter (\<lambda>r. \<not> pod_row i r) (gd_AttackPaths db)"
    "k \<notin> fst ` set kps \<Longrightarrow> filter (row_of i k) (gd_AttackPaths db') = filter (row_of i k) (gd_AttackPaths db)"
    by blast+
qed

lemma upsert_paths_stored:
  assumes "upsert_paths now i kps db = (None, db')" "distinct (map fst kps)" "(k, p) \<in> set kps"
  shows "\<exists>r \<in> set (gd_AttackPaths db'). row_of i k r" "r \<in> set (gd_AttackPaths db') \<Longrightarrow> row_of i k r \<Longrightarrow> holds_path now p r"
proof -
  have "filter (row_of i k) (gd_AttackPaths db') \<noteq> [] \<and> (\<forall>r \<in> set (filter (row_of i k) (gd_AttackPaths db')). holds_path now p r)"
    using assms
  proof (induction kps arbitrary: db)
    case (Cons kp kps)
    obtain k' p' where kp: "kp = (k', p')" by force
    let ?db = "db\<lparr>gd_AttackPaths := upsert_row now i k' p' (gd_AttackPaths db)\<rparr>"
    have up: "upsert_paths now i kps ?db = (None, db')" using Cons.prems(1) kp by (simp split: if_splits)
    show ?case
    proof (cases "(k, p) \<in> set kps")
      case True
      then show ?thesis using Cons.IH [OF up] Cons.prems(2) by simp
    next
      case False
      then have eq: "k' = k" "p' = p" using Cons.prems(3) kp by auto
      then have "k \<notin> fst ` set kps" using Cons.prems(2) kp by simp
      from upsert_paths_frame(4) [OF up this] show ?thesis using upsert_own_key(1) [of i k now p "gd_AttackPaths db"] upsert_own_key(2) [where i = i and k = k and now = now and p = p and rows = "gd_AttackPaths db"] eq by auto
    qed
  qed simp
  then show "\<exists>r \<in> set (gd_AttackPaths db'). row_of i k r" "r \<in> set (gd_AttackPaths db') \<Longrightarrow> row_of i k r \<Longrightarrow> holds_path now p r"
    by (auto simp: filter_empty_conv)
qed

subsection \<open>Hysteresis\<close>

text \<open>What the loop makes of a row of the pod: rows of current paths stay, others decay, and fall when they are older than the grace.\<close>

definition aged_row :: "FloatArith \<Rightarrow> int \<Rightarrow> int \<Rightarrow> rat \<Rightarrow> string list \<Rightarrow> AttackPathRow \<Rightarrow> AttackPathRow list" where
  "aged_row F now grace decay present r =
     (if ar_PathID r \<in> set present then [r] else if now - ar_UpdatedAt r > grace then [] else [decayed_row F now decay r])"

lemma hysteresis_frame:
  assumes "hysteresis F now grace decay present olds db = (e, db')" "rows_ok (gd_AttackPaths db)"
    "\<forall>old \<in> set olds. pod_row i old \<and> (\<forall>r \<in> set (gd_AttackPaths db). ar_ID r = ar_ID old \<longrightarrow> row_key r = row_key old)"
  shows "paths_written db db' \<and> rows_ok (gd_AttackPaths db') \<and>
    filter (\<lambda>r. \<not> pod_row i r) (gd_AttackPaths db') = filter (\<lambda>r. \<not> pod_row i r) (gd_AttackPaths db)"
  using assms
proof (induction olds arbitrary: db)
  case (Cons old olds)
  let ?rows = "gd_AttackPaths db"
  let ?del = "filter (\<lambda>r. ar_ID r \<noteq> ar_ID old) ?rows"
    and ?save = "map (\<lambda>r. if ar_ID r = ar_ID old then decayed_row F now decay old else r) ?rows"
  have old: "pod_row i old" "\<And>r. r \<in> set ?rows \<Longrightarrow> ar_ID r = ar_ID old \<Longrightarrow> row_key r = row_key old" using Cons.prems(3) by auto
  have own: "pod_row i r" if "r \<in> set ?rows" "ar_ID r = ar_ID old" for r
    using old(2) [OF that] old(1) by (simp add: row_key_def pod_row_def)
  have step: "paths_written db db' \<and> rows_ok (gd_AttackPaths db') \<and>
      filter (\<lambda>r. \<not> pod_row i r) (gd_AttackPaths db') = filter (\<lambda>r. \<not> pod_row i r) ?rows"
    if "hysteresis F now grace decay present olds (db\<lparr>gd_AttackPaths := rows\<rparr>) = (e, db')" "rows_ok rows"
      "\<forall>r \<in> set rows. \<exists>s \<in> set ?rows. ar_ID s = ar_ID r \<and> row_key s = row_key r"
      "filter (\<lambda>r. \<not> pod_row i r) rows = filter (\<lambda>r. \<not> pod_row i r) ?rows" for rows
  proof -
    have "\<forall>old \<in> set olds. pod_row i old \<and> (\<forall>r \<in> set rows. ar_ID r = ar_ID old \<longrightarrow> row_key r = row_key old)"
      using that(3) Cons.prems(3) by (metis list.set_intros(2))
    then show ?thesis
      using Cons.IH [OF that(1)] that(2,4) paths_written_trans [of db "db\<lparr>gd_AttackPaths := rows\<rparr>" db'] by simp
  qed
  have del: "rows_ok ?del" "\<forall>r \<in> set ?del. \<exists>s \<in> set ?rows. ar_ID s = ar_ID r \<and> row_key s = row_key r"
    "filter (\<lambda>r. \<not> pod_row i r) ?del = filter (\<lambda>r. \<not> pod_row i r) ?rows"
    using Cons.prems(2) own by (auto simp: rows_ok_filter filter_filter intro!: filter_cong)
  have save: "rows_ok ?save" "\<forall>r \<in> set ?save. \<exists>s \<in> set ?rows. ar_ID s = ar_ID r \<and> row_key s = row_key r"
  proof -
    show "rows_ok ?save" using Cons.prems(2) old(2) by (intro rows_ok_map) auto
    show "\<forall>r \<in> set ?save. \<exists>s \<in> set ?rows. ar_ID s = ar_ID r \<and> row_key s = row_key r"
    proof
      fix r assume "r \<in> set ?save"
      then obtain x where "x \<in> set ?rows" "r = (if ar_ID x = ar_ID old then decayed_row F now decay old else x)" by auto
      then show "\<exists>s \<in> set ?rows. ar_ID s = ar_ID r \<and> row_key s = row_key r" using old(2) by (intro bexI [of _ x]) auto
    qed
  qed
  have "filter (\<lambda>r. \<not> pod_row i r) (map (\<lambda>r. if ar_ID r = ar_ID old then decayed_row F now decay old else r) rs) = filter (\<lambda>r. \<not> pod_row i r) rs"
    if "\<forall>r \<in> set rs. ar_ID r = ar_ID old \<longrightarrow> pod_row i r" for rs using that old(1) by (induction rs) auto
  then have "filter (\<lambda>r. \<not> pod_row i r) ?save = filter (\<lambda>r. \<not> pod_row i r) ?rows" using own by blast
  from step [OF _ save this] step [OF _ del] show ?case
    using Cons.prems Cons.IH [of db] by (auto split: if_splits)
qed simp

lemma hysteresis_exact:
  assumes "hysteresis F now grace decay present olds db = (None, db')" "distinct (map ar_ID (gd_AttackPaths db))"
    "set olds \<subseteq> set (gd_AttackPaths db)" "distinct olds"
  shows "gd_AttackPaths db' = concat (map (\<lambda>r. if r \<in> set olds then aged_row F now grace decay present r else [r]) (gd_AttackPaths db))"
  using assms
proof (induction olds arbitrary: db)
  case (Cons old olds)
  let ?rows = "gd_AttackPaths db"
  let ?f = "\<lambda>olds r. if r \<in> set olds then aged_row F now grace decay present r else [r]"
  have ids: "r = old \<longleftrightarrow> ar_ID r = ar_ID old" if "r \<in> set ?rows" for r
    using Cons.prems(2,3) that by (metis distinct_map inj_onD list.set_intros(1) subsetD)
  have new: "r \<in> set olds \<Longrightarrow> ar_ID r \<noteq> ar_ID old" for r using Cons.prems(3,4) ids by auto
  have concat_one: "concat (map (\<lambda>r. [r]) rs) = rs" for rs :: "AttackPathRow list" by (induction rs) auto
  consider (keep) "ar_PathID old \<in> set present" | (del) "ar_PathID old \<notin> set present" "now - ar_UpdatedAt old > grace"
    | (save) "ar_PathID old \<notin> set present" "\<not> now - ar_UpdatedAt old > grace" by blast
  then show ?case
  proof cases
    case keep
    then have "gd_AttackPaths db' = concat (map (?f olds) ?rows)" using Cons.prems by (intro Cons.IH) auto
    moreover have "?f olds r = ?f (old # olds) r" for r using keep by (auto simp: aged_row_def)
    ultimately show ?thesis by simp
  next
    case del
    let ?del = "filter (\<lambda>r. ar_ID r \<noteq> ar_ID old) ?rows"
    have "gd_AttackPaths db' = concat (map (?f olds) (gd_AttackPaths (db\<lparr>gd_AttackPaths := ?del\<rparr>)))"
      using del Cons.prems new by (intro Cons.IH) (auto simp: distinct_map_filter split: if_splits)
    moreover have "concat (map (?f olds) (filter (\<lambda>r. ar_ID r \<noteq> ar_ID old) rs)) = concat (map (?f (old # olds)) rs)"
      if "set rs \<subseteq> set ?rows" for rs
      using that
    proof (induction rs)
      case (Cons r rs)
      then show ?case using ids [of r] new [of r] del by (cases "r = old") (auto simp: aged_row_def)
    qed simp
    ultimately show ?thesis by simp
  next
    case save
    let ?g = "\<lambda>r. if ar_ID r = ar_ID old then decayed_row F now decay old else r"
    have ids': "map ar_ID (map ?g ?rows) = map ar_ID ?rows" by simp
    have "gd_AttackPaths db' = concat (map (?f olds) (gd_AttackPaths (db\<lparr>gd_AttackPaths := map ?g ?rows\<rparr>)))"
    proof (rule Cons.IH)
      have simps_of_db: "gd_AttackPaths (db\<lparr>gd_AttackPaths := map ?g ?rows\<rparr>) = map ?g ?rows" by simp
      show "hysteresis F now grace decay present olds (db\<lparr>gd_AttackPaths := map ?g ?rows\<rparr>) = (None, db')"
        using save Cons.prems(1) by (auto split: if_splits)
      show "distinct (map ar_ID (gd_AttackPaths (db\<lparr>gd_AttackPaths := map ?g ?rows\<rparr>)))"
        using Cons.prems(2) unfolding simps_of_db ids' .
      show "set olds \<subseteq> set (gd_AttackPaths (db\<lparr>gd_AttackPaths := map ?g ?rows\<rparr>))"
        using Cons.prems(3) new by (force simp: image_iff)
    qed (use Cons.prems(4) in simp)
    moreover have "?f olds (?g r) = ?f (old # olds) r" if "r \<in> set ?rows" for r
    proof (cases "r = old")
      case True
      then have "decayed_row F now decay old \<notin> set olds" using new by (metis decayed_row_keys(1))
      then show ?thesis using True save by (simp add: aged_row_def)
    qed (use ids [OF that] in simp)
    ultimately show ?thesis by (simp add: comp_def cong: map_cong)
  qed
qed simp

subsection \<open>One rebuild\<close>

text \<open>Rows with positional identifiers of older versions.\<close>

definition legacy_row :: "Identity \<Rightarrow> AttackPathRow \<Rightarrow> bool" where
  "legacy_row i r \<longleftrightarrow> pod_row i r \<and> sql_like (id_ResourceUID i @ ''-path-%'') (ar_PathID r)"

lemma sql_like_literal: "sql_like p t \<Longrightarrow> CHR ''t'' \<in> set p \<Longrightarrow> CHR ''t'' \<in> set t"
proof (induction p t rule: sql_like.induct)
  case (3 p ps c t)
  show ?case
  proof (cases "p = CHR 0x5C \<and> ps \<noteq> []")
    case True
    then obtain q qs where "ps = q # qs" by (cases ps) auto
    then show ?thesis using 3 True by (auto split: if_splits)
  qed (use 3 in \<open>auto split: if_splits\<close>)
qed auto

lemma hextable_set: "n < 16 \<Longrightarrow> hextable ! n \<noteq> CHR ''t''"
proof -
  have "list_all (\<lambda>n. hextable ! n \<noteq> CHR ''t'') [0..<16]" by code_simp
  then show "n < 16 \<Longrightarrow> hextable ! n \<noteq> CHR ''t''" by (auto simp: list_all_iff)
qed

lemma hex_encode_no_t: "CHR ''t'' \<notin> set (hex_encode bs)"
proof (induction bs)
  case (Cons b bs)
  have "(of_char b :: nat) < 256" by simp
  then have "(of_char b :: nat) div 16 < 16" by (simp add: less_mult_imp_div_less)
  then show ?case using Cons hextable_set [of "of_char b div 16"] hextable_set [of "of_char b mod 16"] by (auto simp: hex_encode_byte_def)
qed simp

lemma path_ids_no_t: "k \<in> set (StablePathIDs sha1 paths) \<Longrightarrow> CHR ''t'' \<notin> set k"
proof -
  assume "k \<in> set (StablePathIDs sha1 paths)"
  then obtain p n where "k = numbered (StablePathID sha1 p) n" unfolding StablePathIDs_def using number_ids_form by fastforce
  moreover have "CHR ''t'' \<notin> set (Itoa n)" by (rule Itoa_not_digit) (simp add: is_digit_def)
  moreover have "CHR ''t'' \<notin> set (StablePathID sha1 p)"
    using hex_encode_no_t in_set_takeD by (fastforce simp: StablePathID_def)
  ultimately show ?thesis by (auto simp: numbered_def)
qed

lemma current_not_legacy: "ar_PathID r \<in> set (StablePathIDs sha1 paths) \<Longrightarrow> \<not> legacy_row i r"
  using sql_like_literal path_ids_no_t by (fastforce simp: legacy_row_def)

lemma path_ids_distinct: "\<forall>t. length (sha1 t) = 20 \<Longrightarrow> distinct (StablePathIDs sha1 paths)"
  unfolding StablePathIDs_def using StablePathID_length [of sha1] by (intro number_ids_distinct [where k = 19]) auto

lemma length_path_ids [simp]: "length (StablePathIDs sha1 paths) = length paths"
  by (simp add: StablePathIDs_def)

text \<open>\<open>other_path i ids r\<close>: a row of the pod for a path that is not computed now.\<close>

definition other_path :: "Identity \<Rightarrow> string list \<Rightarrow> AttackPathRow \<Rightarrow> bool" where
  "other_path i pathIDs r \<longleftrightarrow> pod_row i r \<and> ar_PathID r \<notin> set pathIDs"

lemma upsert_rest:
  "k \<in> set pathIDs \<Longrightarrow> filter (other_path i pathIDs) (upsert_row now i k p rows) = filter (other_path i pathIDs) rows"
  unfolding upsert_row_def other_path_def
  by (auto simp: row_of_def assign_path_def path_row_def split: if_splits intro!: filter_map_frame)

lemma upsert_paths_rest:
  "upsert_paths now i kps db = (e, db') \<Longrightarrow> fst ` set kps \<subseteq> set pathIDs \<Longrightarrow>
   filter (other_path i pathIDs) (gd_AttackPaths db') = filter (other_path i pathIDs) (gd_AttackPaths db)"
proof (induction kps arbitrary: db)
  case (Cons kp kps)
  obtain k p where kp: "kp = (k, p)" by force
  show ?case using Cons.prems Cons.IH [of "db\<lparr>gd_AttackPaths := upsert_row now i k p (gd_AttackPaths db)\<rparr>"]
    by (auto simp: kp upsert_rest split: if_splits)
qed simp

text \<open>The row a rebuild leaves for a row of a path that is not computed any more.\<close>

definition kept_row :: "FloatArith \<Rightarrow> PathEnv \<Rightarrow> AttackPathRow \<Rightarrow> AttackPathRow list" where
  "kept_row F E r = (if attackPathHysteresisGraceFromEnv E \<le> 0 then [r]
     else if pe_Now E - ar_UpdatedAt r > attackPathHysteresisGraceFromEnv E then []
     else [decayed_row F (pe_Now E) (attackPathHysteresisDecayFromEnv F E) r])"

lemma persist_stages:
  assumes "upsert_paths (pe_Now E) i (zip (StablePathIDs sha1 paths) paths) db = (e1, db1)"
    "persistAttackPathsForIdentity F sha1 E i paths db = (e, db')"
  obtains (failed) "e \<noteq> None" "db' = db1"
  | (plain) db2 where "e1 = None" "db2 = db1\<lparr>gd_AttackPaths := filter (\<lambda>r. \<not> legacy_row i r) (gd_AttackPaths db1)\<rparr>" "db' = db2"
      "e = None \<longrightarrow> attackPathHysteresisGraceFromEnv E \<le> 0"
  | (aged) db2 where "e1 = None" "db2 = db1\<lparr>gd_AttackPaths := filter (\<lambda>r. \<not> legacy_row i r) (gd_AttackPaths db1)\<rparr>"
      "0 < attackPathHysteresisGraceFromEnv E"
      "hysteresis F (pe_Now E) (attackPathHysteresisGraceFromEnv E) (attackPathHysteresisDecayFromEnv F E) (StablePathIDs sha1 paths)
         (filter (pod_row i) (gd_AttackPaths db2)) db2 = (e, db')"
proof (cases e1)
  case (Some x)
  then show ?thesis using assms by (intro failed) (auto simp: persistAttackPathsForIdentity_def Let_def)
next
  case None
  define db2 where "db2 = db1\<lparr>gd_AttackPaths := filter (\<lambda>r. \<not> legacy_row i r) (gd_AttackPaths db1)\<rparr>"
  have "(if gd_Fails db1 ''legacy'' then (Some ''legacy'', db1)
     else if attackPathHysteresisGraceFromEnv E \<le> 0 then (None, db2)
     else if gd_Fails db2 ''existing'' then (Some ''existing'', db2)
     else hysteresis F (pe_Now E) (attackPathHysteresisGraceFromEnv E) (attackPathHysteresisDecayFromEnv F E) (StablePathIDs sha1 paths)
       (filter (pod_row i) (gd_AttackPaths db2)) db2) = (e, db')"
    using assms(2) unfolding db2_def legacy_row_def persistAttackPathsForIdentity_def Let_def assms(1) None by simp
  then show ?thesis using failed plain [OF None db2_def] aged [OF None db2_def] by (auto split: if_splits)
qed

lemma persist_frame:
  assumes "persistAttackPathsForIdentity F sha1 E i paths db = (e, db')" "rows_ok (gd_AttackPaths db)"
  shows "paths_written db db' \<and> rows_ok (gd_AttackPaths db') \<and>
    filter (\<lambda>r. \<not> pod_row i r) (gd_AttackPaths db') = filter (\<lambda>r. \<not> pod_row i r) (gd_AttackPaths db)"
proof -
  obtain e1 db1 where up: "upsert_paths (pe_Now E) i (zip (StablePathIDs sha1 paths) paths) db = (e1, db1)" by force
  note up_frame = upsert_paths_frame(1) [OF up] upsert_paths_frame(2) [OF up assms(2)] upsert_paths_frame(3) [OF up]
  have stage2: "paths_written db db2 \<and> rows_ok (gd_AttackPaths db2) \<and>
      filter (\<lambda>r. \<not> pod_row i r) (gd_AttackPaths db2) = filter (\<lambda>r. \<not> pod_row i r) (gd_AttackPaths db)"
    if db2: "db2 = db1\<lparr>gd_AttackPaths := filter (\<lambda>r. \<not> legacy_row i r) (gd_AttackPaths db1)\<rparr>" for db2
  proof -
    have "paths_written db db2" unfolding db2 by (rule paths_written_trans [OF up_frame(1)]) simp
    moreover have "filter (\<lambda>r. \<not> pod_row i r) (filter (\<lambda>r. \<not> legacy_row i r) rs) = filter (\<lambda>r. \<not> pod_row i r) rs" for rs
      by (auto simp: legacy_row_def intro!: filter_cong)
    ultimately show ?thesis using up_frame(2,3) by (simp add: db2 rows_ok_filter)
  qed
  from up assms(1) show ?thesis
  proof (cases rule: persist_stages)
    case failed
    then show ?thesis using up_frame by simp
  next
    case (plain db2)
    then show ?thesis using stage2 by blast
  next
    case (aged db2)
    have ok: "rows_ok (gd_AttackPaths db2)" using stage2 [OF aged(2)] by blast
    have "\<forall>old \<in> set (filter (pod_row i) (gd_AttackPaths db2)). pod_row i old \<and>
        (\<forall>r \<in> set (gd_AttackPaths db2). ar_ID r = ar_ID old \<longrightarrow> row_key r = row_key old)"
      using rows_ok_ID [OF ok] by auto
    from hysteresis_frame [OF aged(4) ok this] stage2 [OF aged(2)] show ?thesis using paths_written_trans [of db db2 db'] by simp
  qed
qed

lemma persist_rest:
  assumes "persistAttackPathsForIdentity F sha1 E i paths db = (None, db')" "rows_ok (gd_AttackPaths db)"
  shows "filter (other_path i (StablePathIDs sha1 paths)) (gd_AttackPaths db') = concat (map (kept_row F E)
     (filter (\<lambda>r. other_path i (StablePathIDs sha1 paths) r \<and> \<not> legacy_row i r) (gd_AttackPaths db)))"
    (is "filter ?Q _ = _")
proof -
  let ?ids = "StablePathIDs sha1 paths"
  obtain e1 db1 where up: "upsert_paths (pe_Now E) i (zip ?ids paths) db = (e1, db1)" by force
  have "fst ` set (zip ?ids paths) \<subseteq> set ?ids" by (auto dest: set_zip_leftD)
  from upsert_paths_rest [OF up this] have rest: "filter ?Q (gd_AttackPaths db1) = filter ?Q (gd_AttackPaths db)" .
  have two: "filter ?Q (filter (\<lambda>r. \<not> legacy_row i r) (gd_AttackPaths db1)) = filter (\<lambda>r. ?Q r \<and> \<not> legacy_row i r) (gd_AttackPaths db)"
    using arg_cong [OF rest, of "filter (\<lambda>r. \<not> legacy_row i r)"] by (simp add: filter_filter conj_commute)
  from up assms(1) show ?thesis
  proof (cases rule: persist_stages)
    case failed
    then show ?thesis by simp
  next
    case (plain db2)
    have "kept_row F E = (\<lambda>r. [r])" using plain(4) by (auto simp: kept_row_def)
    moreover have "concat (map (\<lambda>r. [r]) rs) = rs" for rs :: "AttackPathRow list" by (induction rs) auto
    ultimately show ?thesis using two plain(2,3) by simp
  next
    case (aged db2)
    have ok2: "rows_ok (gd_AttackPaths db2)" unfolding aged(2) using upsert_paths_frame(2) [OF up assms(2)] by (simp add: rows_ok_filter)
    then have dist: "distinct (map ar_ID (gd_AttackPaths db2))" "distinct (filter (pod_row i) (gd_AttackPaths db2))"
      by (auto simp: rows_ok_def distinct_map)
    let ?aged = "aged_row F (pe_Now E) (attackPathHysteresisGraceFromEnv E) (attackPathHysteresisDecayFromEnv F E) ?ids"
    let ?f = "\<lambda>r. if r \<in> set (filter (pod_row i) (gd_AttackPaths db2)) then ?aged r else [r]"
    have rows: "gd_AttackPaths db' = concat (map ?f (gd_AttackPaths db2))"
      by (rule hysteresis_exact [OF aged(4) dist(1) _ dist(2)]) auto
    have "filter ?Q (concat (map ?f rs)) = concat (map (kept_row F E) (filter ?Q rs))" if "set rs \<subseteq> set (gd_AttackPaths db2)" for rs
      using that
    proof (induction rs)
      case (Cons r rs)
      have "filter ?Q (?f r) = (if ?Q r then kept_row F E r else [])"
        using Cons.prems aged(3) by (auto simp: aged_row_def kept_row_def other_path_def)
      then show ?case using Cons by simp
    qed simp
    then show ?thesis unfolding rows two [symmetric] using aged(2) by simp
  qed
qed

lemma persist_stored:
  assumes "persistAttackPathsForIdentity F sha1 E i paths db = (None, db')" "rows_ok (gd_AttackPaths db)" "\<forall>t. length (sha1 t) = 20"
    "k < length paths"
  shows "\<exists>r \<in> set (gd_AttackPaths db'). row_of i (StablePathIDs sha1 paths ! k) r \<and> holds_path (pe_Now E) (paths ! k) r"
proof -
  let ?ids = "StablePathIDs sha1 paths"
  obtain e1 db1 where up: "upsert_paths (pe_Now E) i (zip ?ids paths) db = (e1, db1)" by force
  have k: "(?ids ! k, paths ! k) \<in> set (zip ?ids paths)" using assms(4) by (auto simp: in_set_zip)
  have d: "distinct (map fst (zip ?ids paths))" using path_ids_distinct [OF assms(3)] by simp
  have cur: "?ids ! k \<in> set ?ids" using assms(4) by simp
  have in1: "\<exists>r \<in> set (filter (\<lambda>r. \<not> legacy_row i r) (gd_AttackPaths db1)). row_of i (?ids ! k) r \<and> holds_path (pe_Now E) (paths ! k) r"
    if "e1 = None"
  proof -
    note up' = up [unfolded that]
    obtain r where r: "r \<in> set (gd_AttackPaths db1)" "row_of i (?ids ! k) r" using upsert_paths_stored(1) [OF up' d k] by blast
    moreover have "\<not> legacy_row i r" using r(2) cur current_not_legacy by (metis row_of_def)
    ultimately show ?thesis using upsert_paths_stored(2) [OF up' d k r] by auto
  qed
  from up assms(1) show ?thesis
  proof (cases rule: persist_stages)
    case failed
    then show ?thesis by simp
  next
    case (plain db2)
    then show ?thesis using in1 by simp
  next
    case (aged db2)
    have ok2: "rows_ok (gd_AttackPaths db2)" unfolding aged(2) using upsert_paths_frame(2) [OF up assms(2)] by (simp add: rows_ok_filter)
    then have dist: "distinct (map ar_ID (gd_AttackPaths db2))" "distinct (filter (pod_row i) (gd_AttackPaths db2))"
      by (auto simp: rows_ok_def distinct_map)
    obtain r where r: "r \<in> set (gd_AttackPaths db2)" "row_of i (?ids ! k) r" "holds_path (pe_Now E) (paths ! k) r"
      using in1 aged(1,2) by auto
    have "ar_PathID r \<in> set ?ids" using r(2) cur by (simp add: row_of_def)
    then have "aged_row F n g dd ?ids r = [r]" for n g dd by (simp add: aged_row_def)
    moreover have "gd_AttackPaths db' = concat (map (\<lambda>r. if r \<in> set (filter (pod_row i) (gd_AttackPaths db2)) then
        aged_row F (pe_Now E) (attackPathHysteresisGraceFromEnv E) (attackPathHysteresisDecayFromEnv F E) ?ids r else [r]) (gd_AttackPaths db2))"
      by (rule hysteresis_exact [OF aged(4) dist(1) _ dist(2)]) auto
    ultimately have "r \<in> set (gd_AttackPaths db')" using r(1) by (auto intro!: bexI [of _ r])
    then show ?thesis using r(2,3) by blast
  qed
qed

text \<open>
  C23. A successful rebuild of a pod leaves in the table exactly: a row with its data for each computed path, for each other path of
  the pod the row the hysteresis keeps (decayed within the grace, nothing beyond it, rows with a positional identifier gone), and the
  rows of other pods as they were. Keys stay unique and no other table changes.
\<close>

theorem rebuild_stores_current_paths:
  assumes "persistAttackPathsForIdentity F sha1 E i paths db = (None, db')" "rows_ok (gd_AttackPaths db)" "\<forall>t. length (sha1 t) = 20"
  defines "ids \<equiv> StablePathIDs sha1 paths"
  shows "(\<forall>k < length paths. \<exists>r \<in> set (gd_AttackPaths db'). row_of i (ids ! k) r \<and> holds_path (pe_Now E) (paths ! k) r) \<and>
    filter (other_path i ids) (gd_AttackPaths db') =
      concat (map (kept_row F E) (filter (\<lambda>r. other_path i ids r \<and> \<not> legacy_row i r) (gd_AttackPaths db))) \<and>
    filter (\<lambda>r. \<not> pod_row i r) (gd_AttackPaths db') = filter (\<lambda>r. \<not> pod_row i r) (gd_AttackPaths db) \<and>
    rows_ok (gd_AttackPaths db') \<and> paths_written db db'"
  unfolding ids_def using persist_stored [OF assms(1-3)] persist_rest [OF assms(1,2)] persist_frame [OF assms(1,2)] by blast

definition stored_row :: "nat \<Rightarrow> string \<Rightarrow> string \<Rightarrow> int \<Rightarrow> AttackPathRow" where
  "stored_row n uid pathID t = \<lparr>ar_ID = n, ar_ClusterID = ''c'', ar_PodUID = uid, ar_PathID = pathID, ar_Nodes = [], ar_Edges = [],
     ar_TotalRisk = 10, ar_Difficulty = 1 / 2, ar_Impact = 1, ar_Length = 3, ar_Description = ''d'', ar_EnrichedFromPCE = False,
     ar_UpdatedAt = t\<rparr>"

definition rows_db :: "AttackPathRow list \<Rightarrow> GraphDb" where
  "rows_db rows = \<lparr>gd_Pods = [], gd_ServiceAccounts = [], gd_RoleBindings = [], gd_ClusterRoleBindings = [], gd_Roles = [],
     gd_ClusterRoles = [], gd_Connections = [], gd_PodCapabilities = [], gd_PodAttackSteps = [], gd_CriticalCVEs = [], gd_Denials = [],
     gd_AttackPaths = rows, gd_Fails = (\<lambda>_. False)\<rparr>"

definition hour_env :: "int \<Rightarrow> PathEnv" where
  "hour_env t = \<lparr>pe_Getenv = (\<lambda>_. []), pe_ParseDuration = (\<lambda>_. None), pe_ParseFloat = (\<lambda>_. None), pe_Now = t\<rparr>"

text \<open>The witness: of two stored paths that are no longer computed one is within the grace of an hour.\<close>

theorem rebuild_stores_current_paths_witness:
  "filter (other_path \<lparr>id_ClusterID = ''c'', id_ResourceUID = ''u''\<rparr> (StablePathIDs (\<lambda>_. replicate 20 CHR ''x'') [two_node_path ''n'']))
     (gd_AttackPaths (snd (persistAttackPathsForIdentity exact_arith (\<lambda>_. replicate 20 CHR ''x'') (hour_env (seconds_ns 7200))
        \<lparr>id_ClusterID = ''c'', id_ResourceUID = ''u''\<rparr> [two_node_path ''n'']
        (rows_db [stored_row 1 ''u'' ''ap_1'' 0, stored_row 2 ''u'' ''ap_2'' (seconds_ns 5000), stored_row 3 ''v'' ''ap_1'' 0])))) =
   [(stored_row 2 ''u'' ''ap_2'' (seconds_ns 7200))\<lparr>ar_TotalRisk := 7, ar_Impact := 7 / 10, ar_Difficulty := 13 / 20, ar_Description := ''d [hysteresis]''\<rparr>]"
proof -
  let ?i = "\<lparr>id_ClusterID = ''c'', id_ResourceUID = ''u''\<rparr>" and ?sha = "\<lambda>_. replicate 20 CHR ''x''"
    and ?rows = "[stored_row 1 ''u'' ''ap_1'' 0, stored_row 2 ''u'' ''ap_2'' (seconds_ns 5000), stored_row 3 ''v'' ''ap_1'' 0]"
  let ?run = "persistAttackPathsForIdentity exact_arith ?sha (hour_env (seconds_ns 7200)) ?i [two_node_path ''n''] (rows_db ?rows)"
  have ok: "fst ?run = None" by code_simp
  have "rows_ok ?rows" by (simp add: rows_ok_def stored_row_def row_key_def)
  then have keys: "rows_ok (gd_AttackPaths (rows_db ?rows))" by (simp add: rows_db_def)
  have run: "?run = (None, snd ?run)" using ok by (metis prod.collapse)
  have kept: "concat (map (kept_row exact_arith (hour_env (seconds_ns 7200))) (filter (\<lambda>r. other_path ?i (StablePathIDs ?sha [two_node_path ''n'']) r \<and>
      \<not> legacy_row ?i r) (gd_AttackPaths (rows_db ?rows)))) =
    [(stored_row 2 ''u'' ''ap_2'' (seconds_ns 7200))\<lparr>ar_TotalRisk := 7, ar_Impact := 7 / 10, ar_Difficulty := 13 / 20, ar_Description := ''d [hysteresis]''\<rparr>]"
    by code_simp
  show ?thesis using rebuild_stores_current_paths [OF run keys] unfolding kept [symmetric] by simp
qed

end
