(* ===== verification/Attack_Path_Tenants.thy ===== *)
theory Attack_Path_Tenants
  imports Attack_Path_Rows
begin

section \<open>Builds of attack paths: clusters, sequences of rebuilds\<close>

text \<open>
  What the paths of a pod depend on, what every sequence of builds keeps of the table, and what repeated rebuilds do to the row of
  a path that no build computes any more.
\<close>

subsection \<open>Clusters\<close>

definition cluster_slice :: "string \<Rightarrow> GraphDb \<Rightarrow> GraphDb" where
  "cluster_slice c db = db\<lparr>gd_Pods := filter (\<lambda>p. pod_ClusterID p = c) (gd_Pods db),
     gd_ServiceAccounts := filter (\<lambda>s. sa_ClusterID s = c) (gd_ServiceAccounts db),
     gd_RoleBindings := filter (\<lambda>b. rb_ClusterID b = c) (gd_RoleBindings db),
     gd_ClusterRoleBindings := filter (\<lambda>b. crb_ClusterID b = c) (gd_ClusterRoleBindings db),
     gd_Roles := filter (\<lambda>r. role_ClusterID r = c) (gd_Roles db),
     gd_ClusterRoles := filter (\<lambda>r. cr_ClusterID r = c) (gd_ClusterRoles db),
     gd_Connections := filter (\<lambda>n. nc_ClusterID n = c) (gd_Connections db),
     gd_PodCapabilities := filter (\<lambda>k. pc_ClusterID k = c) (gd_PodCapabilities db),
     gd_PodAttackSteps := filter (\<lambda>s. as_ClusterID s = c) (gd_PodAttackSteps db),
     gd_CriticalCVEs := filter (\<lambda>v. cv_ClusterID v = c) (gd_CriticalCVEs db),
     gd_Denials := filter (\<lambda>d. dr_ClusterID d = c) (gd_Denials db),
     gd_AttackPaths := filter (\<lambda>r. ar_ClusterID r = c) (gd_AttackPaths db)\<rparr>"

lemma cluster_slice_simps [simp]: "gd_Fails (cluster_slice c db) = gd_Fails db"
  "gd_Pods (cluster_slice c db) = filter (\<lambda>p. pod_ClusterID p = c) (gd_Pods db)"
  "gd_PodCapabilities (cluster_slice c db) = filter (\<lambda>k. pc_ClusterID k = c) (gd_PodCapabilities db)"
  "gd_PodAttackSteps (cluster_slice c db) = filter (\<lambda>s. as_ClusterID s = c) (gd_PodAttackSteps db)"
  by (simp_all add: cluster_slice_def)

lemma find_filter: "(\<And>x. P x \<Longrightarrow> Q x) \<Longrightarrow> find P (filter Q xs) = find P xs"
  by (induction xs) auto

lemma slice_denials: "loadDenyCache E c (cluster_slice c db) = loadDenyCache E c db"
  by (simp add: loadDenyCache_def cluster_slice_def filter_filter conj_commute cong: conj_cong)

lemma slice_snapshot:
  assumes "TrimSpace c = c" "c \<noteq> []"
  shows "loadClusterPathSnapshot F E c (cluster_slice c db) = loadClusterPathSnapshot F E c db"
proof -
  have scope: "in_scope c x \<longleftrightarrow> x = c" for x using assms(2) by (simp add: in_scope_def)
  show ?thesis unfolding loadClusterPathSnapshot_def Let_def assms(1) scope slice_denials
    by (simp add: cluster_slice_def filter_filter conj_commute cong: conj_cong)
qed

lemma slice_identity_paths:
  "identity_paths F order E i pod snap (cluster_slice (id_ClusterID i) db) = identity_paths F order E i pod snap db"
proof -
  have 1: "observed_egress E i (cluster_slice (id_ClusterID i) db) = observed_egress E i db"
    by (simp add: observed_egress_def cluster_slice_def filter_filter conj_commute cong: conj_cong)
  have 2: "hasCriticalCVEInsightForIdentity i (cluster_slice (id_ClusterID i) db) = hasCriticalCVEInsightForIdentity i db"
    by (simp add: hasCriticalCVEInsightForIdentity_def cluster_slice_def filter_filter conj_commute cong: conj_cong)
  have 3: "filter (\<lambda>k. pc_ClusterID k = id_ClusterID i \<and> pc_PodUID k = id_ResourceUID i) (gd_PodCapabilities (cluster_slice (id_ClusterID i) db)) =
      filter (\<lambda>k. pc_ClusterID k = id_ClusterID i \<and> pc_PodUID k = id_ResourceUID i) (gd_PodCapabilities db)"
    by (simp add: filter_filter conj_commute cong: conj_cong)
  have 4: "filter (\<lambda>s. as_ClusterID s = id_ClusterID i \<and> as_PodUID s = id_ResourceUID i) (gd_PodAttackSteps (cluster_slice (id_ClusterID i) db)) =
      filter (\<lambda>s. as_ClusterID s = id_ClusterID i \<and> as_PodUID s = id_ResourceUID i) (gd_PodAttackSteps db)"
    by (simp add: filter_filter conj_commute cong: conj_cong)
  show ?thesis unfolding identity_paths_def 1 2 3 4 cluster_slice_simps(1) ..
qed

text \<open>
  C24. The attack paths of a pod depend on no row of another cluster: inventory, bindings, connections, capabilities, findings and
  network denials of other clusters change neither the paths nor the outcome, even where names and UIDs coincide.
\<close>

theorem attack_paths_of_one_cluster:
  "fst (BuildPathsForPodIdentity F order sha1 E i False db) =
   fst (BuildPathsForPodIdentity F order sha1 E i False (cluster_slice (id_ClusterID i) db))"
proof (cases "Identity_Validate i")
  case (Inl e)
  then show ?thesis by (simp add: BuildPathsForPodIdentity_def)
next
  case (Inr u)
  then have c: "TrimSpace (id_ClusterID i) = id_ClusterID i" "id_ClusterID i \<noteq> []"
    by (auto simp: Identity_Validate_def split: if_splits)
  have pod: "find (\<lambda>p. pod_ClusterID p = id_ClusterID i \<and> pod_UID p = id_ResourceUID i \<and> \<not> pod_Deleted p)
      (gd_Pods (cluster_slice (id_ClusterID i) db)) =
    find (\<lambda>p. pod_ClusterID p = id_ClusterID i \<and> pod_UID p = id_ResourceUID i \<and> \<not> pod_Deleted p) (gd_Pods db)"
    unfolding cluster_slice_simps by (rule find_filter) simp
  have "fst (buildPathsForPodIdentityWithSnapshot F order sha1 E i pod snap False db) =
      fst (buildPathsForPodIdentityWithSnapshot F order sha1 E i pod snap False (cluster_slice (id_ClusterID i) db))" for pod snap
    by (simp add: buildPathsForPodIdentityWithSnapshot_def slice_identity_paths Let_def)
  then show ?thesis unfolding BuildPathsForPodIdentity_def Inr pod slice_snapshot [OF c]
    by (simp split: option.split sum.split)
qed

subsection \<open>Sequences of builds\<close>

text \<open>A step: a build of one pod or of all pods, with its environment, any iteration orders, and any failing statements.\<close>

inductive build_step :: "GraphDb \<Rightarrow> GraphDb \<Rightarrow> bool" where
  pod: "BuildPathsForPodIdentity F order sha1 E i persist (db\<lparr>gd_Fails := fails\<rparr>) = (res, db') \<Longrightarrow> build_step db db'"
| all: "BuildAllPaths F order cluster_order sha1 E clusterID persist (db\<lparr>gd_Fails := fails\<rparr>) = (res, db') \<Longrightarrow> build_step db db'"

definition inventory_of :: "GraphDb \<Rightarrow> GraphDb" where
  "inventory_of db = db\<lparr>gd_AttackPaths := [], gd_Fails := (\<lambda>_. False)\<rparr>"

lemma inventory_of_written: "paths_written db db' \<Longrightarrow> inventory_of db' = inventory_of db"
  unfolding paths_written_def inventory_of_def by (metis GraphDb.surjective GraphDb.update_convs(12))

definition build_ok :: "GraphDb \<Rightarrow> GraphDb \<Rightarrow> bool" where
  "build_ok db db' \<longleftrightarrow> inventory_of db' = inventory_of db \<and> (rows_ok (gd_AttackPaths db) \<longrightarrow> rows_ok (gd_AttackPaths db'))"

lemma build_ok_refl [simp]: "build_ok db db"
  by (simp add: build_ok_def)

lemma build_ok_trans: "build_ok a b \<Longrightarrow> build_ok b c \<Longrightarrow> build_ok a c"
  by (simp add: build_ok_def)

lemma build_ok_persist: "persistAttackPathsForIdentity F sha1 E i paths db = (e, db') \<Longrightarrow> rows_ok (gd_AttackPaths db) \<Longrightarrow> build_ok db db'"
  using persist_frame inventory_of_written unfolding build_ok_def by blast

lemma build_ok_pod:
  "buildPathsForPodIdentityWithSnapshot F order sha1 E i pod snap persist db = (res, db') \<Longrightarrow> rows_ok (gd_AttackPaths db) \<Longrightarrow> build_ok db db'"
  unfolding buildPathsForPodIdentityWithSnapshot_def Let_def
  by (auto split: if_splits prod.splits option.splits dest: build_ok_persist)

lemma build_ok_pods:
  "build_pods F order sha1 E cid snap persist pods acc db = (res, db') \<Longrightarrow> rows_ok (gd_AttackPaths db) \<Longrightarrow> build_ok db db'"
proof (induction F order sha1 E cid snap persist pods acc db arbitrary: res rule: build_pods.induct)
  case (2 F order sha1 E cid snap persist pod pods acc db)
  show ?case
  proof (cases "New cid (pod_UID pod)")
    case (Inr i)
    obtain r1 db1 where b: "buildPathsForPodIdentityWithSnapshot F order sha1 E i pod snap persist db = (r1, db1)" by force
    have ok1: "build_ok db db1" using build_ok_pod [OF b 2(3)] .
    show ?thesis
    proof (cases r1)
      case (Inr ps)
      have "build_ok db1 db'"
        using 2(1) [OF \<open>New cid (pod_UID pod) = Inr i\<close> b [symmetric] Inr] 2(2,3) ok1 \<open>New cid (pod_UID pod) = Inr i\<close> b Inr
        by (simp add: build_ok_def)
      then show ?thesis using ok1 build_ok_trans by blast
    qed (use 2(2) Inr b ok1 in simp)
  qed (use 2(2) in simp)
qed simp

lemma build_ok_clusters:
  "build_clusters F order sha1 E persist pods cids acc db = (res, db') \<Longrightarrow> rows_ok (gd_AttackPaths db) \<Longrightarrow> build_ok db db'"
proof (induction F order sha1 E persist pods cids acc db arbitrary: res rule: build_clusters.induct)
  case (2 F order sha1 E persist pods cid cids acc db)
  show ?case
  proof (cases "loadClusterPathSnapshot F E cid db")
    case (Inr snap)
    obtain r1 db1 where b: "build_pods F order sha1 E cid snap persist (filter (\<lambda>p. pod_ClusterID p = cid) pods) acc db = (r1, db1)" by force
    have ok1: "build_ok db db1" using build_ok_pods [OF b 2(3)] .
    show ?thesis
    proof (cases r1)
      case (Inr ps)
      have "build_ok db1 db'"
        using 2(1) [OF \<open>loadClusterPathSnapshot F E cid db = Inr snap\<close> b [symmetric] Inr] 2(2,3) ok1 \<open>loadClusterPathSnapshot F E cid db = Inr snap\<close> b Inr
        by (simp add: build_ok_def)
      then show ?thesis using ok1 build_ok_trans by blast
    qed (use 2(2) Inr b ok1 in simp)
  qed (use 2(2) in simp)
qed simp

lemma build_ok_cleanup: "cleanupStaleAttackPaths clusterID db = (e, db') \<Longrightarrow> build_ok db db'"
  by (auto simp: cleanupStaleAttackPaths_def build_ok_def inventory_of_def rows_ok_filter split: if_splits)

lemma build_ok_all:
  assumes "buildAllPathsNoCache F order cluster_order sha1 E clusterID persist db = (res, db')" "rows_ok (gd_AttackPaths db)"
  shows "build_ok db db'"
proof (cases "gd_Fails db ''allPods''")
  case False
  define pods where "pods = filter (\<lambda>p. \<not> pod_Deleted p \<and> in_scope clusterID (pod_ClusterID p) \<and> TrimSpace (pod_ClusterID p) \<noteq> []) (gd_Pods db)"
  obtain r1 db1 where b: "build_clusters F order sha1 E persist pods (cluster_order (remdups (map pod_ClusterID pods))) [] db = (r1, db1)" by force
  have ok1: "build_ok db db1" using build_ok_clusters [OF b assms(2)] .
  have "db' = db1 \<or> (\<exists>e. cleanupStaleAttackPaths clusterID db1 = (e, db'))"
    using assms(1) False unfolding buildAllPathsNoCache_def Let_def pods_def [symmetric] b
    by (auto split: sum.splits if_splits prod.splits option.splits)
  then show ?thesis using ok1 build_ok_trans build_ok_cleanup by blast
qed (use assms in \<open>simp add: buildAllPathsNoCache_def\<close>)

lemma build_step_ok: "build_step db db' \<Longrightarrow> rows_ok (gd_AttackPaths db) \<Longrightarrow> rows_ok (gd_AttackPaths db') \<and> inventory_of db' = inventory_of db"
proof (induction rule: build_step.induct)
  case (pod F order sha1 E i persist fails db res db')
  then have "build_ok (db\<lparr>gd_Fails := fails\<rparr>) db'"
    unfolding BuildPathsForPodIdentity_def by (auto split: sum.splits if_splits option.splits dest: build_ok_pod)
  then show ?case using pod.prems by (simp add: build_ok_def inventory_of_def)
next
  case (all F order cluster_order sha1 E clusterID persist fails db res db')
  then have "build_ok (db\<lparr>gd_Fails := fails\<rparr>) db'"
    unfolding BuildAllPaths_def by (auto split: sum.splits prod.splits dest: build_ok_all)
  then show ?case using all.prems by (simp add: build_ok_def inventory_of_def)
qed

interpretation path_builds: step_invariant build_step "\<lambda>db. rows_ok (gd_AttackPaths db)" inventory_of
  by unfold_locales (use build_step_ok in blast)+

text \<open>
  However builds of single pods and of whole clusters follow each other, with whatever failing statements on the way, the table of
  attack paths keeps unique row identifiers and one row per cluster, pod and path, and no build changes the inventory it reads.
\<close>

lemma attack_path_rows_stay_keyed:
  assumes "build_step\<^sup>*\<^sup>* db db'" "rows_ok (gd_AttackPaths db)"
  shows "rows_ok (gd_AttackPaths db') \<and> inventory_of db' = inventory_of db"
  using path_builds.reachable_inv [OF assms] path_builds.reachable_frame [OF assms] by blast

lemma attack_path_rows_stay_keyed_witness:
  "rows_ok (gd_AttackPaths (snd (BuildAllPaths exact_arith rev (\<lambda>c. c) (\<lambda>_. replicate 20 CHR ''x'') (hour_env 0) ''c'' True
     (rows_db [stored_row 1 ''u'' ''ap_1'' 0, stored_row 2 ''u'' ''ap_2'' 0]))))"
proof -
  let ?db = "rows_db [stored_row 1 ''u'' ''ap_1'' 0, stored_row 2 ''u'' ''ap_2'' 0]"
  let ?run = "BuildAllPaths exact_arith rev (\<lambda>c. c) (\<lambda>_. replicate 20 CHR ''x'') (hour_env 0) ''c'' True"
  have "?db\<lparr>gd_Fails := \<lambda>_. False\<rparr> = ?db" by (simp add: rows_db_def)
  then have "?run (?db\<lparr>gd_Fails := \<lambda>_. False\<rparr>) = (fst (?run ?db), snd (?run ?db))" by simp
  then have "build_step ?db (snd (?run ?db))" by (rule build_step.all)
  then show ?thesis
    using attack_path_rows_stay_keyed [OF r_into_rtranclp] by (simp add: rows_ok_def rows_db_def stored_row_def row_key_def)
qed

subsection \<open>Rows of paths that are gone\<close>

text \<open>
  A sequence of rebuilds that compute no path for the pod, each within the grace of the one before: every save renews the instant of the
  row, so the row is never old enough to be deleted.
\<close>

fun rebuilds :: "FloatArith \<Rightarrow> (string \<Rightarrow> string) \<Rightarrow> Identity \<Rightarrow> PathEnv list \<Rightarrow> GraphDb \<Rightarrow> string option \<times> GraphDb" where
  "rebuilds F sha1 i [] db = (None, db)"
| "rebuilds F sha1 i (E # Es) db =
     (case persistAttackPathsForIdentity F sha1 E i [] db of
        (Some e, db') \<Rightarrow> (Some e, db')
      | (None, db') \<Rightarrow> rebuilds F sha1 i Es db')"

fun within_grace :: "int \<Rightarrow> PathEnv list \<Rightarrow> bool" where
  "within_grace t [] = True"
| "within_grace t (E # Es) \<longleftrightarrow> 0 < attackPathHysteresisGraceFromEnv E \<and> pe_Now E - t \<le> attackPathHysteresisGraceFromEnv E \<and> within_grace (pe_Now E) Es"

lemma disappeared_path_never_deleted:
  assumes "rebuilds F sha1 i Es db = (None, db')" "within_grace (ar_UpdatedAt r) Es" "rows_ok (gd_AttackPaths db)"
    "r \<in> set (gd_AttackPaths db)" "pod_row i r" "\<not> legacy_row i r"
  shows "\<exists>r' \<in> set (gd_AttackPaths db'). row_key r' = row_key r"
  using assms
proof (induction Es arbitrary: db r)
  case (Cons E Es)
  obtain e1 db1 where p: "persistAttackPathsForIdentity F sha1 E i [] db = (e1, db1)" by force
  have e1: "e1 = None" and rest: "rebuilds F sha1 i Es db1 = (None, db')" using Cons.prems(1) p by (auto split: option.splits)
  note p = p [unfolded e1]
  let ?r = "decayed_row F (pe_Now E) (attackPathHysteresisDecayFromEnv F E) r"
  have "kept_row F E r = [?r]" using Cons.prems(2) by (simp add: kept_row_def)
  moreover have "r \<in> set (filter (\<lambda>r. other_path i (StablePathIDs sha1 []) r \<and> \<not> legacy_row i r) (gd_AttackPaths db))"
    using Cons.prems(4-6) by (simp add: other_path_def StablePathIDs_def)
  ultimately have "?r \<in> set (filter (other_path i (StablePathIDs sha1 [])) (gd_AttackPaths db1))"
    unfolding persist_rest [OF p Cons.prems(3)] by force
  then have "?r \<in> set (gd_AttackPaths db1)" by simp
  moreover have "\<not> legacy_row i ?r" using Cons.prems(6) by (simp add: legacy_row_def)
  moreover have "ar_UpdatedAt ?r = pe_Now E" by (simp add: decayed_row_def)
  ultimately show ?case
    using Cons.IH [OF rest, of ?r] persist_frame [OF p Cons.prems(3)] Cons.prems(2,5) by simp
qed auto

end
