(* ===== verification/Attack_Chain.thy ===== *)
theory Attack_Chain
  imports Attack_Path_Store "HOL-Library.Product_Lexorder"
begin

section \<open>Attack chains: core/pkg/graph/chain\_detection.go, exploit\_realism.go, technique\_registry.go\<close>

text \<open>
  Two attack paths make a chain when a rule matches them and the first provides a capability the second requires. Chains are
  scored, chains that tell the same story are merged, and each gets the techniques it needs, whose capabilities are
  checked in order. Narration (story\_engine.go) and the MITRE annotations of techniques (technique\_overlay.yaml)
  are left out; they do not feed back into a chain.
\<close>

subsection \<open>Normalised paths\<close>

record pathEndpoint =
  ep_Type :: string
  ep_ID :: string
  ep_SA :: string

record pathNormalized =
  pn_PathID :: string
  pn_Source :: pathEndpoint
  pn_Target :: pathEndpoint
  pn_Class :: string
  pn_Provides :: "string list"
  pn_Requires :: "string list"
  pn_Strength :: rat
  pn_Confidence :: string
  pn_SemanticCaps :: "string list"
  pn_Raw :: AttackPath

abbreviation "NodeAccessShell \<equiv> ''NODE_SHELL_ACCESS''"
abbreviation "NodeAccessKubelet \<equiv> ''KUBELET_API_ACCESS''"
abbreviation "NodeAccessRuntime \<equiv> ''CONTAINER_RUNTIME_ACCESS''"

definition uniqStrings :: "string list \<Rightarrow> string list" where
  "uniqStrings xs = sort (remdups (filter (\<lambda>k. k \<noteq> []) (map TrimSpace xs)))"

definition hasExact :: "string list \<Rightarrow> string \<Rightarrow> bool" where
  "hasExact values needle = list_ex (\<lambda>v. v = needle) values"

definition hasAnyPrefix :: "string list \<Rightarrow> string list \<Rightarrow> bool" where
  "hasAnyPrefix values ps = list_ex (\<lambda>v. list_ex (HasPrefix v) ps) values"

definition nodeAccessFromCapability :: "string \<Rightarrow> string" where
  "nodeAccessFromCapability capID =
     (if ToUpper (TrimSpace capID) \<in> set [''ESC_HOSTPATH_NODE'', ''ESC_RUNTIME_ACTIVE'', ''ESC_RUNTIME_PROC_ROOT''] then NodeAccessShell
      else NodeAccessRuntime)"

definition saFromPath :: "AttackPath \<Rightarrow> string" where
  "saFromPath p = (case find (\<lambda>n. EqualFold (an_Type n) NodeTypeServiceAccount) (ap_Nodes p) of Some n \<Rightarrow> an_ID n | None \<Rightarrow> [])"

definition class_of_description :: "string \<Rightarrow> string" where
  "class_of_description description =
     (let desc = ToUpper description
      in if Contains desc ''ESCAPE_PATH'' then ''ESCAPE''
         else if Contains desc ''LATERAL_PATH'' then ''LATERAL''
         else if Contains desc ''PRIV_ESC_PATH'' then ''PRIV_ESC''
         else ''DATA_EXFIL'')"

definition pathClassFromPath :: "AttackPath \<Rightarrow> string" where
  "pathClassFromPath p =
     (let byDescription = class_of_description (ap_Description p)
      in case ap_Explainability p of
        None \<Rightarrow> byDescription
      | Some x \<Rightarrow>
          if px_Class x = PathClassEscape then ''ESCAPE''
          else if px_Class x = PathClassLateral then ''LATERAL''
          else if px_Class x = PathClassPrivEsc then ''PRIV_ESC''
          else if px_Class x = PathClassDataExfil then ''DATA_EXFIL''
          else byDescription)"

definition confidenceBand :: "FloatArith \<Rightarrow> rat \<Rightarrow> string" where
  "confidenceBand F v = (if v \<ge> lit F (8 / 10) then ''high'' else if v \<ge> lit F (6 / 10) then ''medium'' else ''low'')"

definition class_provides :: "pathEndpoint \<Rightarrow> string \<Rightarrow> string list" where
  "class_provides target cls =
     (if cls = ''ESCAPE'' then (if ep_Type target = ToUpper NodeTypeNode then [''NODE_ACCESS''] else [])
      else if cls = ''LATERAL'' then (if ep_Type target = ToUpper NodeTypePod then [''NETWORK_ACCESS:'' @ ep_ID target] else [])
      else if cls = ''PRIV_ESC'' then
        (if ep_Type target = ToUpper NodeTypeClusterRole \<or> ep_Type target = ToUpper NodeTypeRole
         then [''ROLE'', ''ROLE:'' @ ep_ID target] else [])
      else if cls = ''DATA_EXFIL'' then [''DATA_ACCESS:'' @ ep_ID target]
      else [])"

definition node_access_provides :: "AttackPath \<Rightarrow> string list" where
  "node_access_provides p = map (\<lambda>n. nodeAccessFromCapability (an_ID n)) (filter (\<lambda>n. an_Type n = NodeTypeCapability) (ap_Nodes p))"

definition deriveProvides :: "AttackPath \<Rightarrow> pathEndpoint \<Rightarrow> pathEndpoint \<Rightarrow> string \<Rightarrow> string list" where
  "deriveProvides p source target cls =
     (let provides = (if ep_SA source \<noteq> [] then [''SA_TOKEN''] else []);
          provides = provides @ class_provides target cls;
          provides = provides @ (if ep_Type target = ToUpper NodeTypePod then [''NETWORK_ACCESS:'' @ ep_ID target] else []);
          provides = provides @ map (\<lambda>_. ''NODE_ACCESS'') (filter (\<lambda>n. EqualFold (an_Type n) NodeTypeNode) (ap_Nodes p));
          provides = (if hasExact provides ''NODE_ACCESS'' then
            let provides = provides @ node_access_provides p
            in provides @ (if hasExact provides NodeAccessShell then [NodeAccessKubelet] else [])
            else provides)
      in uniqStrings provides)"

definition deriveRequires :: "AttackPath \<Rightarrow> pathEndpoint \<Rightarrow> pathEndpoint \<Rightarrow> string \<Rightarrow> string list" where
  "deriveRequires p source target cls =
     (let requires = (if cls = ''PRIV_ESC'' then [''ROLE'', ''SA_TOKEN'', ''NODE_ACCESS'']
            else if cls = ''DATA_EXFIL'' then [''SA_TOKEN''] else []);
          requires = requires @ (if ep_ID source \<noteq> [] then [''NETWORK_ACCESS:'' @ ep_ID source] else []);
          requires = requires @ (if ep_Type target = ToUpper NodeTypePod then [''NETWORK_ACCESS:'' @ ep_ID target] else [])
      in uniqStrings requires)"

definition semantic_caps_of :: "PathNode \<Rightarrow> string list" where
  "semantic_caps_of n = (case map_of (an_Properties n) ''semantic_caps'' of Some (PropStrings sc) \<Rightarrow> sc | _ \<Rightarrow> [])"

definition normalize_path :: "FloatArith \<Rightarrow> nat \<Rightarrow> AttackPath \<Rightarrow> pathNormalized" where
  "normalize_path F idx p =
     (let sourceNode = hd (ap_Nodes p);
          targetNode = last (ap_Nodes p);
          source = \<lparr>ep_Type = ToUpper (TrimSpace (an_Type sourceNode)), ep_ID = an_ID sourceNode, ep_SA = saFromPath p\<rparr>;
          target = \<lparr>ep_Type = ToUpper (TrimSpace (an_Type targetNode)), ep_ID = an_ID targetNode, ep_SA = []\<rparr>;
          cls = pathClassFromPath p;
          strength = (case ap_Explainability p of None \<Rightarrow> clampFloat (fdiv F (ap_TotalRisk p) 10) 0 1
            | Some x \<Rightarrow> clampFloat (px_Strength x) 0 1);
          conf = (case ap_Explainability p of None \<Rightarrow> ''low'' | Some x \<Rightarrow> confidenceBand F (pf_Confidence (px_Feasibility x)));
          semanticCaps = semantic_caps_of targetNode;
          provides = deriveProvides p source target cls;
          provides = (if length semanticCaps > 0 then uniqStrings (provides @ semanticCaps) else provides)
      in \<lparr>pn_PathID = (if ap_PathID p = [] then ''p'' @ Itoa idx else ap_PathID p), pn_Source = source, pn_Target = target, pn_Class = cls,
          pn_Provides = provides, pn_Requires = deriveRequires p source target cls, pn_Strength = strength, pn_Confidence = conf,
          pn_SemanticCaps = semanticCaps, pn_Raw = p\<rparr>)"

definition normalizePaths :: "FloatArith \<Rightarrow> AttackPath list \<Rightarrow> pathNormalized list" where
  "normalizePaths F paths =
     map (\<lambda>ip. normalize_path F (fst ip) (snd ip)) (filter (\<lambda>ip. \<not> length (ap_Nodes (snd ip)) < 2) (enumerate 0 paths))"

subsection \<open>Rules\<close>

definition privilegeLevelFromPath :: "pathNormalized \<Rightarrow> nat" where
  "privilegeLevelFromPath p = privilegeLevelFromID (ep_ID (pn_Target p))"

definition token_reuse :: "pathNormalized \<Rightarrow> pathNormalized \<Rightarrow> bool" where
  "token_reuse a b =
     (let sameSA = (ep_SA (pn_Source a) \<noteq> [] \<and> ep_SA (pn_Source a) = ep_SA (pn_Source b));
          reachable = (ep_ID (pn_Target a) = ep_ID (pn_Source b) \<or> hasExact (pn_Provides a) (''NETWORK_ACCESS:'' @ ep_ID (pn_Source b)));
          nodeReachable = (reachable \<or> hasExact (pn_Provides a) ''NODE_ACCESS'')
      in hasExact (pn_Provides a) ''SA_TOKEN'' \<and> hasExact (pn_Requires b) ''SA_TOKEN'' \<and>
         (sameSA \<or> nodeReachable \<and> hasExact (pn_Provides a) NodeAccessShell))"

definition chainRuleMatch :: "FloatArith \<Rightarrow> pathNormalized \<Rightarrow> pathNormalized \<Rightarrow> (string \<times> rat) option" where
  "chainRuleMatch F a b =
     (if pn_Class a = ''ESCAPE'' \<and> pn_Class b = ''PRIV_ESC'' \<and> ep_Type (pn_Target a) = ToUpper NodeTypeNode
      then Some (''ESCAPE_TO_PRIV_ESC'', 1)
      else if pn_Class a = ''LATERAL'' \<and> pn_Class b = ''PRIV_ESC'' \<and> ep_ID (pn_Target a) = ep_ID (pn_Source b)
      then Some (''LATERAL_TO_PRIV_ESC'', lit F (9 / 10))
      else if pn_Class a = ''PRIV_ESC'' \<and> pn_Class b = ''PRIV_ESC'' \<and> privilegeLevelFromPath b > privilegeLevelFromPath a
      then Some (''PRIV_ESC_LADDER'', lit F (9 / 10))
      else if pn_Class b = ''DATA_EXFIL'' \<and> hasAnyPrefix (pn_Provides a) [''NODE_ACCESS'', ''ROLE:'', ''NETWORK_ACCESS:'']
      then Some (''ACCESS_TO_DATA_EXFIL'', lit F (8 / 10))
      else if list_ex (\<lambda>p. HasPrefix p ''NETWORK_ACCESS:'' \<and> TrimPrefix p ''NETWORK_ACCESS:'' = ep_ID (pn_Source b)) (pn_Provides a)
      then Some (''NETWORK_BRIDGE'', lit F (8 / 10))
      else if token_reuse a b
      then Some (''SA_TOKEN_REUSE'', lit F (75 / 100))
      else if ep_SA (pn_Source a) \<noteq> [] \<and> ep_SA (pn_Source a) = ep_SA (pn_Source b)
      then Some (''SAME_SERVICE_ACCOUNT'', lit F (6 / 10))
      else if hasExact (pn_Provides a) ''NODE_ACCESS''
      then Some (''NODE_DOMINANCE'', lit F (6 / 10))
      else None)"

definition hasSoftEdge :: "AttackPath \<Rightarrow> bool" where
  "hasSoftEdge p = list_ex (\<lambda>e. ae_Type e = EdgeTypeNetworkReachSoft) (ap_Edges p)"

definition objectiveFromSemanticCaps :: "string list \<Rightarrow> string" where
  "objectiveFromSemanticCaps caps =
     (if length caps = 0 then []
      else if hasExact caps ''IDENTITY_FORGE'' then ''CLUSTER_TAKEOVER''
      else if hasExact caps ''NODE_ACCESS'' \<or> hasExact caps NodeAccessKubelet then ''NODE_COMPROMISE''
      else if hasExact caps ''WORKLOAD_CONTROL'' \<or> hasExact caps ''EXECUTION'' then ''WORKLOAD_CONTROL''
      else if hasExact caps ''DATA_ACCESS:secrets'' then ''SECRET_EXFIL''
      else [])"

definition classifyObjectiveByRole :: "string \<Rightarrow> string" where
  "classifyObjectiveByRole roleID =
     (let lower = ToLower (TrimPrefix roleID ''role:'')
      in if Contains lower ''admin'' then ''CLUSTER_PRIVILEGE_ESCALATION''
         else if Contains lower ''deploy'' \<or> Contains lower ''workload'' \<or> Contains lower ''daemonset'' then ''WORKLOAD_CONTROL''
         else if Contains lower ''secret'' then ''SECRET_EXFIL''
         else if Contains lower ''storage'' \<or> Contains lower ''pv'' \<or> Contains lower ''volume'' then ''STORAGE_ABUSE''
         else ''LIMITED_RBAC_IMPACT'')"

definition objectiveFromChainContext :: "pathNormalized \<Rightarrow> string" where
  "objectiveFromChainContext b =
     (let t = ToUpper (ep_Type (pn_Target b));
          byRules = objectiveFromSemanticCaps (pn_SemanticCaps b);
          byRole = (if byRules \<noteq> [] then byRules else classifyObjectiveByRole (ep_ID (pn_Target b)))
      in if t = ToUpper NodeTypeNode then ''NODE_COMPROMISE''
         else if t = ToUpper NodeTypeClusterRole then
           (if privilegeLevelFromID (ep_ID (pn_Target b)) \<ge> 4 then ''CLUSTER_TAKEOVER'' else byRole)
         else if t = ToUpper NodeTypeRole then byRole
         else ''DATA_EXFILTRATION'')"

definition capabilityIntersection :: "string list \<Rightarrow> string list \<Rightarrow> string list" where
  "capabilityIntersection a b = uniqStrings (filter (\<lambda>y. y \<in> set a) b)"

definition buildChainExplanation :: "string \<Rightarrow> string" where
  "buildChainExplanation rule =
     (if rule = ''ESCAPE_TO_PRIV_ESC'' then ''Container escape provides node access; node control enables token harvest and privilege escalation via role binding chain.''
      else if rule = ''LATERAL_TO_PRIV_ESC'' then ''Lateral movement reaches another pod and continues to privilege escalation path.''
      else if rule = ''PRIV_ESC_LADDER'' then ''Initial role escalation unlocks a stronger role, creating a privilege-escalation ladder.''
      else if rule = ''ACCESS_TO_DATA_EXFIL'' then ''Foothold capabilities from the first path enable follow-on data exfiltration.''
      else if rule = ''NETWORK_BRIDGE'' then ''Network access from one path bridges into another pod-specific privilege path.''
      else if rule = ''SA_TOKEN_REUSE'' then ''Stolen or mounted service-account token is reused to execute a second-stage path.''
      else if rule = ''SAME_SERVICE_ACCOUNT'' then ''Paths share the same service account identity, enabling weaker but plausible chaining.''
      else if rule = ''NODE_DOMINANCE'' then ''Node-level control from the first path makes additional follow-on paths feasible.''
      else ''Chain combines two feasible paths into a stronger attack objective.'')"

subsection \<open>Confidence and realism\<close>

record CapabilityImpact =
  ci_Token :: string
  ci_AccessLevel :: nat
  ci_EscalationPotential :: nat
  ci_chainFactorWeight :: rat

definition capabilityImpactTable :: "FloatArith \<Rightarrow> (string \<times> CapabilityImpact) list" where
  "capabilityImpactTable F = map (\<lambda>(t, a, e, w). (t, \<lparr>ci_Token = t, ci_AccessLevel = a, ci_EscalationPotential = e, ci_chainFactorWeight = lit F w\<rparr>))
     [(''DATA_ACCESS:secrets'', 1, 1, 9 / 10), (''WORKLOAD_CONTROL'', 2, 2, 1), (''EXECUTION'', 3, 2, 1),
      (NodeAccessKubelet, 2, 2, 85 / 100), (''NODE_ACCESS'', 2, 2, 85 / 100), (''IDENTITY_FORGE'', 2, 2, 1)]"

definition capImpact :: "FloatArith \<Rightarrow> string \<Rightarrow> CapabilityImpact" where
  "capImpact F token = (case map_of (capabilityImpactTable F) token of
     Some ci \<Rightarrow> ci
   | None \<Rightarrow> \<lparr>ci_Token = token, ci_AccessLevel = 1, ci_EscalationPotential = 1, ci_chainFactorWeight = lit F (8 / 10)\<rparr>)"

definition capabilityChainWeight :: "FloatArith \<Rightarrow> string list \<Rightarrow> string list \<Rightarrow> rat" where
  "capabilityChainWeight F provides requires =
     foldl (\<lambda>m p. foldl (\<lambda>m r. if p = r \<and> ci_chainFactorWeight (capImpact F p) > m then ci_chainFactorWeight (capImpact F p) else m) m requires)
       (lit F (70 / 100)) provides"

definition contextRealismFactor :: "FloatArith \<Rightarrow> ClusterHardeningHints \<Rightarrow> bool \<Rightarrow> bool \<Rightarrow> rat" where
  "contextRealismFactor F hints chainInvolvesNode chainInvolvesToken =
     (let factor = 1;
          factor = (if chainInvolvesNode \<and> ch_KubeletAuthEnabled hints then fmul F factor (lit F (65 / 100)) else factor);
          factor = (if chainInvolvesToken \<and> ch_ProjectedTokensOnly hints then fmul F factor (lit F (75 / 100)) else factor);
          level = ToLower (ch_PodSecurityLevel hints);
          factor = (if level = ''restricted'' then (if chainInvolvesNode then fmul F factor (lit F (50 / 100)) else factor)
            else if level = ''baseline'' then (if chainInvolvesNode then fmul F factor (lit F (80 / 100)) else factor)
            else factor);
          factor = (if chainInvolvesToken \<and> \<not> ch_AutomountDefault hints then fmul F factor (lit F (85 / 100)) else factor)
      in max (lit F (40 / 100)) factor)"

definition confidenceToFloat :: "FloatArith \<Rightarrow> string \<Rightarrow> rat" where
  "confidenceToFloat F c =
     (let k = ToLower (TrimSpace c)
      in if k = ''high'' then lit F (90 / 100) else if k = ''medium'' then lit F (65 / 100) else lit F (40 / 100))"

definition floatToConfidenceBand :: "FloatArith \<Rightarrow> rat \<Rightarrow> string" where
  "floatToConfidenceBand F f = (if f \<ge> lit F (58 / 100) then ''high'' else if f \<ge> lit F (33 / 100) then ''medium'' else ''low'')"

definition tokenHarvestRealism :: "FloatArith \<Rightarrow> pathNormalized \<Rightarrow> pathNormalized \<Rightarrow> rat \<times> bool" where
  "tokenHarvestRealism F a b =
     (if \<not> hasExact (pn_Provides a) ''NODE_ACCESS'' then (1, True)
      else if list_ex (\<lambda>n. EqualFold (an_Type n) NodeTypeServiceAccount \<or> EqualFold (an_Type n) NodeTypeAttackStep) (ap_Nodes (pn_Raw a))
      then (1, True)
      else if list_ex (\<lambda>n. EqualFold (an_Type n) NodeTypeServiceAccount) (ap_Nodes (pn_Raw b)) then (1, True)
      else if hasExact (pn_Provides a) NodeAccessShell then (lit F (75 / 100), False)
      else (lit F (55 / 100), False))"

record stepGroup =
  sg_confidences :: "rat list"
  sg_label :: string

definition group_confidence :: "stepGroup \<Rightarrow> rat" where
  "group_confidence sg = (case sg_confidences sg of [] \<Rightarrow> 1 | m # vs \<Rightarrow> foldl (\<lambda>m v. if v < m then v else m) m vs)"

definition no_group :: stepGroup where "no_group = \<lparr>sg_confidences = [], sg_label = []\<rparr>"

definition classifyStepGroups :: "FloatArith \<Rightarrow> pathNormalized \<Rightarrow> pathNormalized \<Rightarrow> stepGroup \<times> stepGroup \<times> stepGroup" where
  "classifyStepGroups F a b =
     (let aConf = confidenceToFloat F (pn_Confidence a);
          bConf = confidenceToFloat F (pn_Confidence b)
      in if pn_Class a = ''ESCAPE'' \<or> pn_Class a = ''LATERAL'' then
           (\<lparr>sg_confidences = [aConf], sg_label = ''access''\<rparr>,
            (if hasExact (pn_Provides a) ''NODE_ACCESS'' then
               let (harvestFactor, explicit) = tokenHarvestRealism F a b;
                   tokenConf = fmul F aConf harvestFactor
               in \<lparr>sg_confidences = [if explicit then aConf else tokenConf], sg_label = ''token''\<rparr>
             else no_group),
            \<lparr>sg_confidences = [bConf], sg_label = ''exploit''\<rparr>)
         else if pn_Class a = ''PRIV_ESC'' then
           (\<lparr>sg_confidences = [aConf], sg_label = ''priv_esc_1''\<rparr>, no_group, \<lparr>sg_confidences = [bConf], sg_label = ''priv_esc_2''\<rparr>)
         else
           let combined = fl_sqrt F (fmul F aConf bConf)
           in (\<lparr>sg_confidences = [combined], sg_label = ''step_a''\<rparr>, no_group, \<lparr>sg_confidences = [combined], sg_label = ''step_b''\<rparr>))"

text \<open>\<open>Some reason\<close>: a gate fails.\<close>

definition checkHardGates :: "pathNormalized \<Rightarrow> pathNormalized \<Rightarrow> string \<Rightarrow> string option" where
  "checkHardGates a b ruleType =
     (if ruleType = ''SA_TOKEN_REUSE'' \<and> \<not> hasExact (pn_Provides a) ''SA_TOKEN''
      then Some ''SA_TOKEN_REUSE gate: path A does not provide any SA token''
      else if ruleType = ''ESCAPE_TO_PRIV_ESC'' \<and> \<not> hasExact (pn_Provides a) ''NODE_ACCESS'' \<and>
        \<not> hasExact (pn_Provides a) NodeAccessShell \<and> \<not> hasExact (pn_Provides a) NodeAccessRuntime
      then Some ''ESCAPE_TO_PRIV_ESC gate: escape path does not provide node access''
      else None)"

definition involves_node :: "pathNormalized \<Rightarrow> bool" where
  "involves_node a \<longleftrightarrow> hasExact (pn_Provides a) ''NODE_ACCESS'' \<or> hasExact (pn_Provides a) NodeAccessShell \<or> hasExact (pn_Provides a) NodeAccessRuntime"

definition involves_token :: "pathNormalized \<Rightarrow> bool" where
  "involves_token a \<longleftrightarrow> hasExact (pn_Provides a) ''SA_TOKEN'' \<or> hasExact (pn_Provides a) ''SA_TOKEN:*''"

definition computeChainConfidenceWithHints :: "FloatArith \<Rightarrow> pathNormalized \<Rightarrow> pathNormalized \<Rightarrow> string \<Rightarrow> rat \<Rightarrow> ClusterHardeningHints \<Rightarrow> string \<times> rat" where
  "computeChainConfidenceWithHints F a b ruleType baseFactor hints =
     (if checkHardGates a b ruleType \<noteq> None then (''low'', fmul F baseFactor (lit F (20 / 100)))
      else
        let (g0, g1, g2) = classifyStepGroups F a b;
            chainConf = group_confidence g0;
            chainConf = (if length (sg_confidences g1) > 0 then fmul F chainConf (group_confidence g1) else chainConf);
            chainConf = fmul F chainConf (group_confidence g2);
            chainConf = fmul F chainConf (contextRealismFactor F hints (involves_node a) (involves_token a));
            adjustedFactor = fmul F baseFactor (capabilityChainWeight F (pn_Provides a) (pn_Requires b));
            adjustedFactor = (if ruleType = ''NODE_DOMINANCE'' then fmul F adjustedFactor (lit F (70 / 100)) else adjustedFactor)
        in (floatToConfidenceBand F chainConf, max (lit F (5 / 100)) adjustedFactor))"

definition extractRealism :: "FloatArith \<Rightarrow> pathNormalized \<Rightarrow> pathNormalized \<Rightarrow> ClusterHardeningHints \<Rightarrow> rat" where
  "extractRealism F a b hints =
     (let harvestFactor = fst (tokenHarvestRealism F a b);
          ctxFactor = contextRealismFactor F hints (involves_node a) (involves_token a);
          softEdges = length (filter (\<lambda>e. ae_Type e = EdgeTypeNetworkReachSoft) (ap_Edges (pn_Raw a) @ ap_Edges (pn_Raw b)));
          softPenalty = fl_pow F (lit F (85 / 100)) (lit F (of_nat softEdges));
          realism = fmul F (fmul F harvestFactor ctxFactor) softPenalty
      in round_to F 1000 (max (lit F (10 / 100)) (min 1 realism)))"

definition stepCostTable :: "(string \<times> nat) list" where
  "stepCostTable = [(''ESCAPE_TO_PRIV_ESC'', 9), (''LATERAL_TO_PRIV_ESC'', 6), (''NETWORK_BRIDGE'', 5), (''SA_TOKEN_REUSE'', 4),
     (''NODE_DOMINANCE'', 3), (''PRIV_ESC_LADDER'', 2)]"

definition computeExploitCost :: "string \<Rightarrow> bool \<Rightarrow> nat" where
  "computeExploitCost chainType hasExplicitToken =
     (let base = (case map_of stepCostTable chainType of Some c \<Rightarrow> c | None \<Rightarrow> 5)
      in if hasExplicitToken \<and> base \<ge> 3 then base - 1 else base)"

definition computeBlastRadius :: "FloatArith \<Rightarrow> string list \<Rightarrow> nat \<Rightarrow> rat" where
  "computeBlastRadius F variantNodes totalNodes =
     (if totalNodes \<le> 0 then 0
      else if length variantNodes = 0 then 0
      else min 1 (fdiv F (lit F (of_nat (length variantNodes))) (lit F (of_nat totalNodes))))"

subsection \<open>Techniques\<close>

record AttackTechnique =
  te_TechniqueID :: string
  te_Name :: string
  te_Requires :: "string list"
  te_Provides :: "string list"
  te_Cost :: rat
  te_Realism :: rat
  te_Preconditions :: "string list"

definition techniqueRegistry :: "(string \<times> string \<times> string \<times> string \<times> rat \<times> rat \<times> string list) list" where
  "techniqueRegistry =
     [(''ESCAPE_HOSTPATH'', ''HostPath volume node escape'', ''CONTAINER_ACCESS'', ''NODE_SHELL_ACCESS'', 3, 90 / 100, [''pod_has_writable_hostpath'']),
      (''ESCAPE_RUNTIME'', ''Container runtime escape'', ''CONTAINER_ACCESS'', ''NODE_SHELL_ACCESS'', 3, 85 / 100, [''runtime_escape_confirmed'']),
      (''ESCAPE_PROC_ROOT'', ''/proc/1/root filesystem pivot'', ''CONTAINER_ACCESS'', ''NODE_SHELL_ACCESS'', 3, 80 / 100, [''hostpid_or_privileged'']),
      (''ESCAPE_PRIVILEGED'', ''Privileged container escape'', ''CONTAINER_ACCESS'', ''CONTAINER_RUNTIME_ACCESS'', 2, 80 / 100, [''pod_is_privileged'']),
      (''ESCAPE_HOSTPID'', ''hostPID namespace pivot'', ''CONTAINER_ACCESS'', ''CONTAINER_RUNTIME_ACCESS'', 2, 75 / 100, [''pod_has_hostpid'']),
      (''KUBELET_TOKEN_HARVEST'', ''Harvest SA tokens via node filesystem'', ''NODE_SHELL_ACCESS'', ''SA_TOKEN'', 3, 75 / 100, [''automount_enabled_on_target_pod'']),
      (''RUNTIME_TOKEN_HARVEST'', ''Harvest SA token via container runtime exec'', ''CONTAINER_RUNTIME_ACCESS'', ''SA_TOKEN'', 2, 60 / 100, [''target_pod_running_on_same_node'']),
      (''KUBELET_API_PROBE'', ''Kubelet API credential enumeration'', ''NODE_SHELL_ACCESS'', ''KUBELET_API_ACCESS'', 2, 70 / 100, [''kubelet_anon_auth_disabled_unknown'']),
      (''RBAC_PRIV_ESC'', ''Privilege escalation via RBAC role binding'', ''SA_TOKEN'', ''ROLE'', 1, 95 / 100, []),
      (''CLUSTER_ADMIN_ESC'', ''Cluster-admin escalation via RBAC'', ''SA_TOKEN'', ''CLUSTER_ADMIN'', 1, 95 / 100, []),
      (''LATERAL_NETWORK'', ''Lateral movement via network reach'', ''NETWORK_ACCESS'', ''CONTAINER_ACCESS'', 1, 80 / 100, []),
      (''SA_TOKEN_REUSE'', ''Reuse existing service account token'', ''SA_TOKEN'', ''SA_TOKEN'', 1, 90 / 100, [''same_sa_or_node_derived''])]"

definition TechniqueByID :: "FloatArith \<Rightarrow> string \<Rightarrow> AttackTechnique option" where
  "TechniqueByID F i = map_option (\<lambda>(name, req, pro, cost, realism, pre).
     \<lparr>te_TechniqueID = i, te_Name = name, te_Requires = [req], te_Provides = [pro], te_Cost = cost, te_Realism = lit F realism,
      te_Preconditions = pre\<rparr>) (map_of techniqueRegistry i)"

definition escapeCapToTechniqueID :: "(string \<times> string) list" where
  "escapeCapToTechniqueID = [(''ESC_HOSTPATH_NODE'', ''ESCAPE_HOSTPATH''), (''ESC_RUNTIME_ACTIVE'', ''ESCAPE_RUNTIME''),
     (''ESC_RUNTIME_PROC_ROOT'', ''ESCAPE_PROC_ROOT''), (''ESC_PRIV_POD'', ''ESCAPE_PRIVILEGED''), (''ESC_HOSTPID_POD'', ''ESCAPE_HOSTPID''),
     (''ESC_HOSTIPC_POD'', ''ESCAPE_HOSTPID''), (''ESC_RUNTIME_PROBE'', ''ESCAPE_RUNTIME'')]"

definition EscapeCapToTechnique :: "FloatArith \<Rightarrow> string \<Rightarrow> AttackTechnique option" where
  "EscapeCapToTechnique F capID = (case map_of escapeCapToTechniqueID capID of None \<Rightarrow> None | Some i \<Rightarrow> TechniqueByID F i)"

definition chainTypeToTechniqueSequence :: "(string \<times> string list) list" where
  "chainTypeToTechniqueSequence =
     [(''ESCAPE_TO_PRIV_ESC'', [''ESCAPE_HOSTPATH'', ''KUBELET_TOKEN_HARVEST'', ''RBAC_PRIV_ESC'']),
      (''LATERAL_TO_PRIV_ESC'', [''LATERAL_NETWORK'', ''KUBELET_TOKEN_HARVEST'', ''RBAC_PRIV_ESC'']),
      (''NETWORK_BRIDGE'', [''LATERAL_NETWORK'', ''SA_TOKEN_REUSE'', ''RBAC_PRIV_ESC'']),
      (''SA_TOKEN_REUSE'', [''SA_TOKEN_REUSE'', ''RBAC_PRIV_ESC'']),
      (''NODE_DOMINANCE'', [''KUBELET_TOKEN_HARVEST'', ''RBAC_PRIV_ESC'']),
      (''PRIV_ESC_LADDER'', [''RBAC_PRIV_ESC'', ''CLUSTER_ADMIN_ESC''])]"

definition TechniqueSequenceForChain :: "string \<Rightarrow> string list" where
  "TechniqueSequenceForChain chainType = (case map_of chainTypeToTechniqueSequence chainType of Some ids \<Rightarrow> ids | None \<Rightarrow> [])"

record AttackStep =
  st_TechniqueID :: string
  st_Name :: string
  st_InputCaps :: "string list"
  st_OutputCaps :: "string list"
  st_Realism :: rat
  st_Cost :: rat

definition technique_step :: "AttackTechnique \<Rightarrow> AttackStep" where
  "technique_step t = \<lparr>st_TechniqueID = te_TechniqueID t, st_Name = te_Name t, st_InputCaps = te_Requires t, st_OutputCaps = te_Provides t,
     st_Realism = te_Realism t, st_Cost = te_Cost t\<rparr>"

fun first_escape_technique :: "FloatArith \<Rightarrow> PathNode list \<Rightarrow> AttackTechnique option" where
  "first_escape_technique F [] = None"
| "first_escape_technique F (n # ns) =
     (if an_Type n = NodeTypeCapability then
        (case EscapeCapToTechnique F (an_ID n) of Some t \<Rightarrow> Some t | None \<Rightarrow> first_escape_technique F ns)
      else first_escape_technique F ns)"

definition buildAttackSteps :: "FloatArith \<Rightarrow> string \<Rightarrow> pathNormalized \<Rightarrow> AttackStep list" where
  "buildAttackSteps F chainType a =
     (let techIDs = TechniqueSequenceForChain chainType;
          overrideIDs = (if chainType = ''ESCAPE_TO_PRIV_ESC''
            then (case first_escape_technique F (ap_Nodes (pn_Raw a)) of Some t \<Rightarrow> techIDs[0 := te_TechniqueID t] | None \<Rightarrow> techIDs)
            else techIDs)
      in if length techIDs = 0 then []
         else List.map_filter (\<lambda>i. map_option technique_step (TechniqueByID F i)) overrideIDs)"

text \<open>\<^verbatim>\<open>capability_validation.go\<close>: the capabilities each step requires, against those the steps before it provide.\<close>

record CapabilityValidationResult =
  cv_Confidence :: rat
  cv_Gaps :: "string list"
  cv_SoftMode :: bool

definition cap_key :: "string \<Rightarrow> string" where
  "cap_key c = ToUpper (TrimSpace c)"

record validation_state =
  vs_state :: "string list"
  vs_gaps :: "string list"
  vs_totalReq :: nat
  vs_matchedSum :: rat

definition validate_requirement :: "FloatArith \<Rightarrow> (string \<rightharpoonup> rat) option \<Rightarrow> validation_state \<Rightarrow> string \<Rightarrow> validation_state" where
  "validate_requirement F satWeights s req =
     (let r = cap_key req;
          s = s\<lparr>vs_totalReq := vs_totalReq s + 1\<rparr>;
          w = (case satWeights of None \<Rightarrow> 0 | Some m \<Rightarrow> (case m r of None \<Rightarrow> 0 | Some w \<Rightarrow> w))
      in if r \<in> set (vs_state s) then s\<lparr>vs_matchedSum := fadd F (vs_matchedSum s) 1\<rparr>
         else if w > 0 then s\<lparr>vs_matchedSum := fadd F (vs_matchedSum s) (min 1 w)\<rparr>
         else s\<lparr>vs_gaps := vs_gaps s @ [r]\<rparr>)"

definition validate_step :: "FloatArith \<Rightarrow> (string \<rightharpoonup> rat) option \<Rightarrow> validation_state \<Rightarrow> AttackStep \<Rightarrow> validation_state" where
  "validate_step F satWeights s step =
     (let s = foldl (validate_requirement F satWeights) s (st_InputCaps step)
      in s\<lparr>vs_state := map cap_key (st_OutputCaps step) @ vs_state s\<rparr>)"

definition initial_caps :: "string list" where
  "initial_caps = map cap_key [''CONTAINER_ACCESS'', ''NETWORK_ACCESS'']"

definition BuildCapabilityValidationWithRuntimeWeights :: "FloatArith \<Rightarrow> AttackStep list \<Rightarrow> (string \<rightharpoonup> rat) option \<Rightarrow> CapabilityValidationResult option" where
  "BuildCapabilityValidationWithRuntimeWeights F steps satWeights =
     (if length steps = 0 then None
      else
        let s = foldl (validate_step F satWeights) \<lparr>vs_state = initial_caps, vs_gaps = [], vs_totalReq = 0, vs_matchedSum = 0\<rparr> steps;
            conf = (if vs_totalReq s > 0 then fdiv F (vs_matchedSum s) (lit F (of_nat (vs_totalReq s))) else 1)
        in Some \<lparr>cv_Confidence = round_to F 1000 conf, cv_Gaps = uniqStrings (vs_gaps s), cv_SoftMode = True\<rparr>)"

definition BuildCapabilityValidation :: "FloatArith \<Rightarrow> AttackStep list \<Rightarrow> CapabilityValidationResult option" where
  "BuildCapabilityValidation F steps = BuildCapabilityValidationWithRuntimeWeights F steps None"

definition BuildCapabilityValidationWithRuntimeSatisfaction :: "FloatArith \<Rightarrow> AttackStep list \<Rightarrow> string list \<Rightarrow> CapabilityValidationResult option" where
  "BuildCapabilityValidationWithRuntimeSatisfaction F steps runtimeSatisfied =
     (if length runtimeSatisfied = 0 then BuildCapabilityValidationWithRuntimeWeights F steps None
      else BuildCapabilityValidationWithRuntimeWeights F steps
        (Some (\<lambda>k. if k \<noteq> [] \<and> k \<in> set (map cap_key runtimeSatisfied) then Some 1 else None)))"

definition hasCriticalCapabilityGaps :: "string list \<Rightarrow> bool" where
  "hasCriticalCapabilityGaps gaps =
     list_ex (\<lambda>g. cap_key g \<in> set [''CLUSTER_ADMIN'', ''SA_TOKEN'', ''NODE_ACCESS'', ''NODE_SHELL_ACCESS'']) gaps"

subsection \<open>Chains\<close>

record ChainValidity =
  cy_IsValid :: bool
  cy_Severity :: string
  cy_Reason :: string

record Assumption =
  am_ID :: string
  am_Description :: string
  am_Source :: string
  am_Confidence :: rat

record ChainEvidence =
  ev_Type :: string
  ev_SourceRef :: string
  ev_Detail :: string

record AttackChain =
  ac_ChainID :: string
  ac_ID :: string
  ac_SourceID :: string
  ac_TargetID :: string
  ac_Paths :: "string list"
  ac_Objective :: string
  ac_ChainStrength :: rat
  ac_Confidence :: string
  ac_ConfidenceRaw :: rat
  ac_FinalTarget :: string
  ac_Explanation :: string
  ac_Type :: string
  ac_Impact :: string
  ac_InvolvedResources :: "string list"
  ac_Realism :: rat
  ac_RealismPreCapabilityValidation :: rat
  ac_ExploitCost :: nat
  ac_BlastRadius :: rat
  ac_Validity :: ChainValidity
  ac_Primary :: bool
  ac_Steps :: "AttackStep list"
  ac_Assumptions :: "Assumption list"
  ac_Evidence :: "ChainEvidence list"
  ac_ImpactScope :: string
  ac_VariantSpread :: rat
  ac_VariantNodes :: "string list"
  ac_CapabilityValidation :: "CapabilityValidationResult option"

definition new_chain :: "string \<Rightarrow> string list \<Rightarrow> string \<Rightarrow> rat \<Rightarrow> string \<Rightarrow> string \<Rightarrow> string \<Rightarrow> string \<Rightarrow> AttackChain" where
  "new_chain chainID paths objective strength conf finalTarget explanation ty =
     \<lparr>ac_ChainID = chainID, ac_ID = [], ac_SourceID = [], ac_TargetID = [], ac_Paths = paths, ac_Objective = objective, ac_ChainStrength = strength,
      ac_Confidence = conf, ac_ConfidenceRaw = 0, ac_FinalTarget = finalTarget, ac_Explanation = explanation, ac_Type = ty, ac_Impact = [],
      ac_InvolvedResources = [], ac_Realism = 0, ac_RealismPreCapabilityValidation = 0, ac_ExploitCost = 0, ac_BlastRadius = 0,
      ac_Validity = \<lparr>cy_IsValid = False, cy_Severity = [], cy_Reason = []\<rparr>, ac_Primary = False, ac_Steps = [], ac_Assumptions = [],
      ac_Evidence = [], ac_ImpactScope = [], ac_VariantSpread = 0, ac_VariantNodes = [], ac_CapabilityValidation = None\<rparr>"

text \<open>The chain of a pair of paths with the key it is recorded under.\<close>

definition chain_of :: "FloatArith \<Rightarrow> ClusterHardeningHints \<Rightarrow> pathNormalized \<Rightarrow> pathNormalized \<Rightarrow> (string \<times> AttackChain) option" where
  "chain_of F hints a b =
     (case chainRuleMatch F a b of
        None \<Rightarrow> None
      | Some (ruleType, ruleFactor) \<Rightarrow>
          let flow = capabilityIntersection (pn_Provides a) (pn_Requires b)
          in if length flow = 0 then None
             else
               let softPenalty = (if hasSoftEdge (pn_Raw a) \<or> hasSoftEdge (pn_Raw b) then lit F (8 / 10) else 1);
                   baseChainFactor = fmul F ruleFactor softPenalty;
                   (conf, adjustedFactor) = computeChainConfidenceWithHints F a b ruleType baseChainFactor hints;
                   strength = clampFloat (fmul F (min (pn_Strength a) (pn_Strength b)) adjustedFactor) 0 1;
                   finalTarget = ep_Type (pn_Target b) @ '':'' @ ep_ID (pn_Target b);
                   key = pn_PathID a @ ''|'' @ pn_PathID b @ ''|'' @ finalTarget @ ''|'' @ join_str '','' flow
               in Some (key, new_chain (''chain:'' @ pn_PathID a @ '':'' @ pn_PathID b) [pn_PathID a, pn_PathID b]
                    (objectiveFromChainContext b) (round_to F 1000 strength) conf finalTarget (buildChainExplanation ruleType) ruleType))"

definition ordered_pairs :: "'a list \<Rightarrow> ('a \<times> 'a) list" where
  "ordered_pairs xs = concat (map (\<lambda>i. map (\<lambda>j. (xs ! i, xs ! j)) (filter (\<lambda>j. i \<noteq> j) [0..<length xs])) [0..<length xs])"

fun first_of_key :: "string set \<Rightarrow> (string \<times> 'a) list \<Rightarrow> 'a list" where
  "first_of_key seen [] = []"
| "first_of_key seen ((k, x) # xs) = (if k \<in> seen then first_of_key seen xs else x # first_of_key (insert k seen) xs)"

definition raw_chains :: "FloatArith \<Rightarrow> ClusterHardeningHints \<Rightarrow> pathNormalized list \<Rightarrow> AttackChain list" where
  "raw_chains F hints npaths = first_of_key {} (List.map_filter (\<lambda>(a, b). chain_of F hints a b) (ordered_pairs npaths))"

definition sort_chains :: "AttackChain list \<Rightarrow> AttackChain list" where
  "sort_chains = sort_key (\<lambda>c. (ac_Objective c, ac_FinalTarget c, - ac_ChainStrength c))"

subsection \<open>Merging chains with the same story\<close>

fun drop_repeats :: "string list \<Rightarrow> string list" where
  "drop_repeats (t # u # ts) = (if t = u then drop_repeats (u # ts) else t # drop_repeats (u # ts))"
| "drop_repeats ts = ts"

definition path_by_id :: "pathNormalized list \<Rightarrow> string \<Rightarrow> pathNormalized option" where
  "path_by_id paths pid = find (\<lambda>p. pn_PathID p = pid) paths"

definition normalizedChainStory :: "AttackChain \<Rightarrow> pathNormalized list \<Rightarrow> string" where
  "normalizedChainStory ch paths =
     (let typeSeq = concat (map (\<lambda>pid. case path_by_id paths pid of None \<Rightarrow> []
            | Some p \<Rightarrow> [ToUpper (ep_Type (pn_Source p)), ToUpper (ep_Type (pn_Target p))]) (ac_Paths ch))
      in join_str arrow_text (drop_repeats typeSeq))"

definition semanticChainKey :: "AttackChain \<Rightarrow> pathNormalized list \<Rightarrow> string" where
  "semanticChainKey ch paths = ac_Objective ch @ ''|'' @ ac_FinalTarget ch @ ''|'' @ ac_Type ch @ ''|'' @ normalizedChainStory ch paths"

definition intermediateNodeIDs :: "AttackChain \<Rightarrow> pathNormalized list \<Rightarrow> string list" where
  "intermediateNodeIDs ch paths = concat (map (\<lambda>pid. case path_by_id paths pid of None \<Rightarrow> []
     | Some p \<Rightarrow> map an_ID (filter (\<lambda>n. EqualFold (an_Type n) NodeTypeNode) (ap_Nodes (pn_Raw p)))) (ac_Paths ch))"

text \<open>An entry: key, representative, nodes seen.\<close>

fun merge_chain :: "string \<Rightarrow> string list \<Rightarrow> AttackChain \<Rightarrow> (string \<times> AttackChain \<times> string list) list \<Rightarrow> (string \<times> AttackChain \<times> string list) list" where
  "merge_chain key nodes ch [] = [(key, ch, remdups nodes)]"
| "merge_chain key nodes ch ((k, rep, variants) # es) =
     (if k = key then (k, if ac_ChainStrength ch > ac_ChainStrength rep then ch else rep, remdups (variants @ nodes)) # es
      else (k, rep, variants) # merge_chain key nodes ch es)"

definition merged_entries :: "AttackChain list \<Rightarrow> pathNormalized list \<Rightarrow> (string \<times> AttackChain \<times> string list) list" where
  "merged_entries chs paths = foldl (\<lambda>es ch. merge_chain (semanticChainKey ch paths) (intermediateNodeIDs ch paths) ch es) [] chs"

definition deduplicateChainsSemantically :: "(string list \<Rightarrow> string list) \<Rightarrow> AttackChain list \<Rightarrow> pathNormalized list \<Rightarrow> AttackChain list" where
  "deduplicateChainsSemantically order chs paths =
     map (\<lambda>(k, rep, variants). if length variants \<le> 1 then rep else rep\<lparr>ac_VariantNodes := order variants\<rparr>) (merged_entries chs paths)"

subsection \<open>Enrichment\<close>

definition impactScopeFromObjective :: "string \<Rightarrow> string" where
  "impactScopeFromObjective objective =
     (if objective = ''CLUSTER_TAKEOVER'' then ''CLUSTER'' else if objective = ''NODE_COMPROMISE'' then ''NODE'' else ''NAMESPACE'')"

definition impactLabelFromScope :: "string \<Rightarrow> string" where
  "impactLabelFromScope scope =
     (let k = ToUpper (TrimSpace scope)
      in if k = ''CLUSTER'' then ''CRITICAL'' else if k = ''NODE'' then ''HIGH'' else if k = ''NAMESPACE'' then ''MEDIUM'' else ''LOW'')"

definition firstPathNodeID :: "AttackPath \<Rightarrow> string" where
  "firstPathNodeID p = (if length (ap_Nodes p) = 0 then [] else TrimSpace (an_ID (hd (ap_Nodes p))))"

definition lastPathNodeID :: "AttackPath \<Rightarrow> string" where
  "lastPathNodeID p = (if length (ap_Nodes p) = 0 then [] else TrimSpace (an_ID (last (ap_Nodes p))))"

text \<open>The first occurrence of each value, in order.\<close>

fun first_occurrences :: "'a set \<Rightarrow> 'a list \<Rightarrow> 'a list" where
  "first_occurrences seen [] = []"
| "first_occurrences seen (x # xs) = (if x \<in> seen then first_occurrences seen xs else x # first_occurrences (insert x seen) xs)"

definition collectChainPathNodeIDs :: "pathNormalized \<Rightarrow> pathNormalized \<Rightarrow> string list" where
  "collectChainPathNodeIDs a b =
     first_occurrences {[]} (map (\<lambda>n. TrimSpace (an_ID n)) (ap_Nodes (pn_Raw a) @ ap_Nodes (pn_Raw b)))"

definition capabilityHumanLabel :: "string \<Rightarrow> string" where
  "capabilityHumanLabel capID =
     (let k = ToUpper (TrimSpace capID)
      in if k = ''ESC_HOSTPATH_NODE'' then ''hostPath volume mount''
         else if k = ''ESC_RUNTIME_ACTIVE'' then ''container runtime escape''
         else if k = ''ESC_RUNTIME_PROC_ROOT'' then ''/proc/1/root filesystem pivot''
         else if k = ''ESC_PRIV_POD'' then ''privileged container''
         else if k = ''ESC_HOSTPID_POD'' then ''hostPID namespace access''
         else if k = ''ESC_HOSTIPC_POD'' then ''hostIPC namespace access''
         else if k = ''ESC_RUNTIME_PROBE'' then ''runtime probe''
         else
           let label = (case LastIndex capID '':'' of None \<Rightarrow> capID | Some idx \<Rightarrow> drop (idx + 1) capID)
           in ToLower (map (\<lambda>c. if c = CHR ''_'' then CHR '' '' else c) label))"

definition buildAssumptions :: "FloatArith \<Rightarrow> pathNormalized \<Rightarrow> pathNormalized \<Rightarrow> ClusterHardeningHints \<Rightarrow> Assumption list" where
  "buildAssumptions F a b hints =
     (if hasExact (pn_Provides a) ''NODE_ACCESS'' \<or> hasExact (pn_Provides a) NodeAccessShell then
        [\<lparr>am_ID = ''node-token-exposure'', am_Description = ''Target pods on the compromised node have service account tokens accessible via node filesystem'',
          am_Source = ''derived'', am_Confidence = (if ch_ProjectedTokensOnly hints then lit F (45 / 100) else lit F (75 / 100))\<rparr>] else []) @
     (if pn_Class b = ''PRIV_ESC'' then
        [\<lparr>am_ID = ''apiserver-reachability'', am_Description = ''Compromised pod or harvested token can reach the Kubernetes API server'',
          am_Source = ''inferred'', am_Confidence = lit F (85 / 100)\<rparr>] else []) @
     (if pn_Class a = ''LATERAL'' then
        [\<lparr>am_ID = ''network-path'', am_Description = ''Network path from source pod to target pod is not blocked by NetworkPolicy'',
          am_Source = ''inferred'', am_Confidence = lit F (65 / 100)\<rparr>] else []) @
     (if \<not> ch_AutomountDefault hints then
        [\<lparr>am_ID = ''automount-policy'', am_Description = ''Target pods have automountServiceAccountToken enabled (cluster default is disabled '' @
            [CHR 0xE2, CHR 0x80, CHR 0x94] @ '' this requires per-pod override)'',
          am_Source = ''heuristic'', am_Confidence = lit F (50 / 100)\<rparr>] else [])"

definition node_evidence :: "PathNode \<Rightarrow> ChainEvidence list" where
  "node_evidence n =
     (let name0 = prop_string (an_Properties n) ''name'';
          name = (if name0 = [] then an_ID n else name0);
          is = EqualFold (an_Type n)
      in if is NodeTypePod then
           [\<lparr>ev_Type = ''FACT'', ev_SourceRef = ''pod/'' @ name, ev_Detail = ''Pod is a confirmed attack entry point in the graph''\<rparr>]
         else if is NodeTypeServiceAccount then
           [\<lparr>ev_Type = ''RELATION'', ev_SourceRef = ''serviceaccount/'' @ name,
             ev_Detail = ''Pod mounts this service account token (automountServiceAccountToken=true or default)''\<rparr>]
         else if is NodeTypeClusterBinding \<or> is NodeTypeRoleBinding then
           [\<lparr>ev_Type = ''CONFIG'', ev_SourceRef = ''binding/'' @ name, ev_Detail = ''Binding grants the service account access to the referenced role''\<rparr>]
         else if is NodeTypeClusterRole \<or> is NodeTypeRole then
           [\<lparr>ev_Type = ''CONFIG'', ev_SourceRef = ''clusterrole/'' @ name,
             ev_Detail = ''Role grants elevated permissions reachable via the compromised service account''\<rparr>]
         else if is NodeTypeNode then
           [\<lparr>ev_Type = ''FACT'', ev_SourceRef = ''node/'' @ name, ev_Detail = ''Pod scheduled on this node; escape gives access to node filesystem''\<rparr>]
         else if an_Type n = NodeTypeCapability then
           [\<lparr>ev_Type = ''CONFIG'', ev_SourceRef = ''capability/'' @ an_ID n,
             ev_Detail = ''Pod security misconfiguration enables escape vector: '' @ capabilityHumanLabel (an_ID n)\<rparr>]
         else [])"

fun first_refs :: "string set \<Rightarrow> ChainEvidence list \<Rightarrow> ChainEvidence list" where
  "first_refs seen [] = []"
| "first_refs seen (e # es) =
     (if ev_SourceRef e \<in> seen then first_refs seen es else e # first_refs (insert (ev_SourceRef e) seen) es)"

definition buildEvidence :: "pathNormalized \<Rightarrow> pathNormalized \<Rightarrow> ChainEvidence list" where
  "buildEvidence a b = first_refs {} (concat (map node_evidence (ap_Nodes (pn_Raw a) @ ap_Nodes (pn_Raw b))))"

definition applyCapabilityValidationToRealism :: "FloatArith \<Rightarrow> AttackChain \<Rightarrow> AttackChain" where
  "applyCapabilityValidationToRealism F ch =
     (case ac_CapabilityValidation ch of
        None \<Rightarrow> ch
      | Some v \<Rightarrow>
          let base = (if ac_RealismPreCapabilityValidation ch > 0 then ac_RealismPreCapabilityValidation ch else ac_Realism ch);
              conf = (if cv_Confidence v < 0 then 0 else cv_Confidence v);
              conf = (if conf > 1 then 1 else conf);
              f = fadd F (lit F (6 / 10)) (fmul F (lit F (4 / 10)) conf);
              realism = round_to F 1000 (max (lit F (5 / 100)) (min 1 (fmul F base f)));
              realism = (if hasCriticalCapabilityGaps (cv_Gaps v)
                then round_to F 1000 (max (lit F (5 / 100)) (fmul F realism (lit F (8 / 10)))) else realism);
              ng = length (cv_Gaps v);
              gapPen = fsub F 1 (fmul F (lit F (5 / 100)) (lit F (of_nat ng)));
              gapPen = (if gapPen < lit F (7 / 10) then lit F (7 / 10) else gapPen);
              realism = (if ng > 0 then round_to F 1000 (max (lit F (5 / 100)) (fmul F realism gapPen)) else realism)
          in ch\<lparr>ac_Realism := realism\<rparr>)"

definition chain_validity :: "FloatArith \<Rightarrow> pathNormalized \<Rightarrow> pathNormalized \<Rightarrow> string \<Rightarrow> ChainValidity" where
  "chain_validity F a b ty =
     (case checkHardGates a b ty of
        Some reason \<Rightarrow> \<lparr>cy_IsValid = False, cy_Severity = ''HARD'', cy_Reason = reason\<rparr>
      | None \<Rightarrow>
          if \<not> snd (tokenHarvestRealism F a b) \<and> hasExact (pn_Provides a) ''NODE_ACCESS''
          then \<lparr>cy_IsValid = True, cy_Severity = ''SOFT'', cy_Reason = ''token harvest step is inferred, not directly observed''\<rparr>
          else \<lparr>cy_IsValid = True, cy_Severity = [], cy_Reason = []\<rparr>)"

definition enrichChain :: "FloatArith \<Rightarrow> pathNormalized \<Rightarrow> pathNormalized \<Rightarrow> ClusterHardeningHints \<Rightarrow> nat \<Rightarrow> AttackChain \<Rightarrow> AttackChain" where
  "enrichChain F a b hints totalClusterNodes ch =
     (let realism = extractRealism F a b hints;
          steps = buildAttackSteps F (ac_Type ch) a;
          scope = impactScopeFromObjective (ac_Objective ch);
          ch = ch\<lparr>ac_Realism := realism, ac_RealismPreCapabilityValidation := realism,
            ac_ExploitCost := computeExploitCost (ac_Type ch) (snd (tokenHarvestRealism F a b)),
            ac_BlastRadius := computeBlastRadius F (ac_VariantNodes ch) totalClusterNodes,
            ac_VariantSpread := fl_log F (fadd F 1 (lit F (of_nat (length (ac_VariantNodes ch))))),
            ac_ConfidenceRaw := confidenceToFloat F (ac_Confidence ch), ac_ImpactScope := scope,
            ac_Validity := chain_validity F a b (ac_Type ch), ac_Steps := steps,
            ac_CapabilityValidation := BuildCapabilityValidation F steps\<rparr>;
          ch = applyCapabilityValidationToRealism F ch
      in ch\<lparr>ac_Assumptions := buildAssumptions F a b hints, ac_Evidence := buildEvidence a b, ac_ID := ac_ChainID ch,
           ac_SourceID := firstPathNodeID (pn_Raw a), ac_TargetID := lastPathNodeID (pn_Raw b), ac_Impact := impactLabelFromScope scope,
           ac_InvolvedResources := collectChainPathNodeIDs a b\<rparr>)"

definition normalizedPairForChain :: "AttackChain \<Rightarrow> pathNormalized list \<Rightarrow> (pathNormalized \<times> pathNormalized) option" where
  "normalizedPairForChain ch npaths =
     (if length (ac_Paths ch) < 2 then None
      else
        let as = filter (\<lambda>p. pn_PathID p = ac_Paths ch ! 0) npaths;
            bs = filter (\<lambda>p. pn_PathID p \<noteq> ac_Paths ch ! 0 \<and> pn_PathID p = ac_Paths ch ! 1) npaths
        in if as \<noteq> [] \<and> bs \<noteq> [] then Some (last as, last bs) else None)"

definition countDistinctNodes :: "pathNormalized list \<Rightarrow> nat" where
  "countDistinctNodes npaths =
     (let nodes = remdups (concat (map (\<lambda>p. map an_ID (filter (\<lambda>n. EqualFold (an_Type n) NodeTypeNode) (ap_Nodes (pn_Raw p)))) npaths))
      in if length nodes = 0 then 1 else length nodes)"

subsection \<open>Primary chains and the limit per target\<close>

definition objectiveImpactWeight :: "FloatArith \<Rightarrow> string \<Rightarrow> rat" where
  "objectiveImpactWeight F objective =
     (if objective = ''CLUSTER_TAKEOVER'' then 1
      else if objective = ''NODE_COMPROMISE'' then lit F (85 / 100)
      else if objective = ''WORKLOAD_CONTROL'' then lit F (75 / 100)
      else if objective = ''SECRET_EXFIL'' then lit F (70 / 100)
      else if objective = ''LATERAL_MOVEMENT'' then lit F (60 / 100)
      else lit F (55 / 100))"

definition primaryScore :: "FloatArith \<Rightarrow> AttackChain \<Rightarrow> rat" where
  "primaryScore F ch =
     (let impact = objectiveImpactWeight F (ac_Objective ch);
          confFloat = confidenceToFloat F (ac_Confidence ch);
          cost = max 1 (lit F (of_nat (ac_ExploitCost ch)));
          spread = (if ac_VariantSpread ch = 0 \<and> ac_BlastRadius ch > 0
            then fl_log F (fadd F 1 (fmul F (ac_BlastRadius ch) 10)) else ac_VariantSpread ch)
      in fdiv F (fmul F (fmul F (fmul F impact confFloat) (ac_Realism ch)) (fl_log F (fadd F 2 spread))) (fl_sqrt F cost))"

definition best_of_objective :: "FloatArith \<Rightarrow> AttackChain list \<Rightarrow> string \<Rightarrow> nat option" where
  "best_of_objective F chs objective =
     foldl (\<lambda>best i. case best of None \<Rightarrow> Some i
         | Some j \<Rightarrow> if primaryScore F (chs ! i) > primaryScore F (chs ! j) then Some i else best)
       None (filter (\<lambda>i. ac_Objective (chs ! i) = objective) [0..<length chs])"

definition selectPrimaryChains :: "FloatArith \<Rightarrow> AttackChain list \<Rightarrow> AttackChain list" where
  "selectPrimaryChains F chs =
     map (\<lambda>i. if best_of_objective F chs (ac_Objective (chs ! i)) = Some i then (chs ! i)\<lparr>ac_Primary := True\<rparr> else chs ! i)
       [0..<length chs]"

fun limit_per_key :: "int \<Rightarrow> (string \<Rightarrow> int) \<Rightarrow> AttackChain list \<Rightarrow> AttackChain list" where
  "limit_per_key maxPerTarget cnt [] = []"
| "limit_per_key maxPerTarget cnt (ch # chs) =
     (let key = ac_Objective ch @ ''|'' @ ac_FinalTarget ch
      in if cnt key \<ge> maxPerTarget then limit_per_key maxPerTarget cnt chs
         else ch # limit_per_key maxPerTarget (cnt(key := cnt key + 1)) chs)"

definition enforceObjectiveLimit :: "AttackChain list \<Rightarrow> int \<Rightarrow> AttackChain list" where
  "enforceObjectiveLimit chs maxPerTarget =
     (if maxPerTarget \<le> 0 \<or> length chs = 0 then chs else limit_per_key maxPerTarget (\<lambda>_. 0) chs)"

definition maxChainsPerObjective :: int where "maxChainsPerObjective = 5"

text \<open>The order in which the nodes of merged chains are listed is a parameter.\<close>

definition DetectChainsWithHints :: "FloatArith \<Rightarrow> (string list \<Rightarrow> string list) \<Rightarrow> AttackPath list \<Rightarrow> ClusterHardeningHints \<Rightarrow> AttackChain list" where
  "DetectChainsWithHints F order paths hints =
     (let npaths = normalizePaths F paths
      in if length npaths < 2 then []
         else
           let out = deduplicateChainsSemantically order (sort_chains (raw_chains F hints npaths)) npaths;
               totalNodes = countDistinctNodes npaths;
               out = map (\<lambda>ch. case normalizedPairForChain ch npaths of None \<Rightarrow> ch
                 | Some (a, b) \<Rightarrow> enrichChain F a b hints totalNodes ch) out
           in enforceObjectiveLimit (selectPrimaryChains F out) maxChainsPerObjective)"

definition DetectChains :: "FloatArith \<Rightarrow> (string list \<Rightarrow> string list) \<Rightarrow> AttackPath list \<Rightarrow> AttackChain list" where
  "DetectChains F order paths = DetectChainsWithHints F order paths DefaultHardeningHints"

text \<open>\<open>GetChainsWithPaths\<close> builds the paths of a cluster, numbers them and composes them; its annotation with MITRE data is left out.\<close>

definition GetChainsWithPaths :: "FloatArith \<Rightarrow> (GraphPath list \<Rightarrow> GraphPath list) \<Rightarrow> (string list \<Rightarrow> string list) \<Rightarrow> (string \<Rightarrow> string) \<Rightarrow> PathEnv
    \<Rightarrow> string \<Rightarrow> GraphDb \<Rightarrow> (string, AttackChain list \<times> (string \<times> AttackPath) list) result" where
  "GetChainsWithPaths F porder order sha1 E clusterID db =
     (case loadClusterPathSnapshot F E clusterID db of
        Inl e \<Rightarrow> Inl e
      | Inr snap \<Rightarrow>
          (case fst (BuildAllPaths F porder order sha1 E clusterID False db) of
             Inl e \<Rightarrow> Inl e
           | Inr paths0 \<Rightarrow>
               let paths = AssignStablePathIDs sha1 paths0
               in Inr (DetectChainsWithHints F order paths (sn_HardeningHints snap), map (\<lambda>p. (ap_PathID p, p)) paths)))"

subsection \<open>Objectives\<close>

definition confidenceBandString :: "string \<Rightarrow> string" where
  "confidenceBandString v = (let k = ToLower (TrimSpace v) in if k = ''high'' then ''high'' else if k = ''medium'' then ''medium'' else ''low'')"

definition bumpConfidence :: "string \<Rightarrow> string" where
  "bumpConfidence v = (if v = ''low'' then ''medium'' else if v = ''medium'' then ''high'' else ''high'')"

record AttackObjective =
  ao_Objective :: string
  ao_FinalTarget :: string
  ao_Priority :: string
  ao_ChainCount :: nat
  ao_PathCount :: nat
  ao_MaxStrength :: rat
  ao_InvolvedPods :: nat
  ao_PodUIDs :: "string list"
  ao_Confidence :: string

definition objective_key :: "AttackChain \<Rightarrow> string" where
  "objective_key ch = TrimSpace (ac_Objective ch @ ''|'' @ ac_FinalTarget ch)"

definition objective_of :: "FloatArith \<Rightarrow> string \<Rightarrow> AttackChain list \<Rightarrow> AttackObjective" where
  "objective_of F key chs =
     (let (name, finalTarget) = (case index_byte (CHR ''|'') key of None \<Rightarrow> (key, []) | Some i \<Rightarrow> (take i key, drop (i + 1) key));
          pods = sort (remdups (concat (map ac_Paths chs)));
          maxStrength = foldl (\<lambda>m ch. let s = clampFloat (ac_ChainStrength ch) 0 1 in if s > m then s else m) 0 chs;
          hi = length (filter (\<lambda>ch. confidenceBandString (ac_Confidence ch) = ''high'') chs);
          md = length (filter (\<lambda>ch. confidenceBandString (ac_Confidence ch) = ''medium'') chs);
          lo = length (filter (\<lambda>ch. confidenceBandString (ac_Confidence ch) = ''low'') chs);
          confidence = (if hi \<ge> md \<and> hi \<ge> lo then ''high'' else if md \<ge> lo then ''medium'' else ''low'');
          confidence = (if length chs \<ge> 3 then bumpConfidence confidence else confidence)
      in \<lparr>ao_Objective = name, ao_FinalTarget = finalTarget,
          ao_Priority = (if maxStrength \<ge> lit F (35 / 100) then ''high'' else if maxStrength \<ge> lit F (2 / 10) then ''medium'' else ''low''),
          ao_ChainCount = length chs, ao_PathCount = sum_list (map (\<lambda>ch. length (ac_Paths ch)) chs),
          ao_MaxStrength = round_to F 1000 maxStrength, ao_InvolvedPods = length pods, ao_PodUIDs = pods, ao_Confidence = confidence\<rparr>)"

definition priority_rank :: "string \<Rightarrow> nat" where
  "priority_rank p = (if p = ''high'' then 0 else if p = ''medium'' then 1 else 2)"

text \<open>The order in which the groups are listed before sorting is a parameter.\<close>

definition aggregateAttackPathObjectives :: "FloatArith \<Rightarrow> (string list \<Rightarrow> string list) \<Rightarrow> AttackChain list \<Rightarrow> AttackObjective list" where
  "aggregateAttackPathObjectives F order chs =
     (if length chs = 0 then []
      else
        let out = map (\<lambda>key. objective_of F key (filter (\<lambda>ch. objective_key ch = key) chs)) (order (remdups (map objective_key chs)))
        in sort_key (\<lambda>o'. (priority_rank (ao_Priority o'), - ao_MaxStrength o')) out)"

end
