(* ===== verification/Attack_Chain_Caps.thy ===== *)
theory Attack_Chain_Caps
  imports Attack_Chain Attack_Path_Escape
begin

section \<open>Capabilities in attack chains\<close>

text \<open>
  Which capabilities of a path reach the composition into chains, and what the validation of technique sequences reports.
\<close>

subsection \<open>Validation of steps\<close>

text \<open>\<open>caps_before steps k\<close>: what is available to step \<open>k\<close>; \<open>missing_caps steps\<close>: requirements that are not available to their step.\<close>

definition caps_before :: "AttackStep list \<Rightarrow> nat \<Rightarrow> string set" where
  "caps_before steps k = set initial_caps \<union> (\<Union>s \<in> set (take k steps). cap_key ` set (st_OutputCaps s))"

definition missing_caps :: "AttackStep list \<Rightarrow> string set" where
  "missing_caps steps = {r. \<exists>k < length steps. r \<in> cap_key ` set (st_InputCaps (steps ! k)) \<and> r \<notin> caps_before steps k}"

definition total_requirements :: "AttackStep list \<Rightarrow> nat" where
  "total_requirements steps = sum_list (map (\<lambda>s. length (st_InputCaps s)) steps)"

definition validation_ok :: "validation_state \<Rightarrow> bool" where
  "validation_ok s \<longleftrightarrow> length (vs_gaps s) \<le> vs_totalReq s \<and> vs_matchedSum s = of_nat (vs_totalReq s - length (vs_gaps s))"

lemma validate_requirement_ok:
  assumes "float_laws F" "validation_ok s" "vs_totalReq s + 1 \<le> 2 ^ 53"
  shows "validation_ok (validate_requirement F None s r)"
proof -
  let ?m = "vs_totalReq s - length (vs_gaps s)"
  have "fadd F (of_nat ?m) 1 = of_nat (?m + 1)"
    using rnd_nat [OF assms(1), of "?m + 1"] assms(3) by (simp add: fadd_def add.commute)
  then show ?thesis using assms(2) by (auto simp: validate_requirement_def validation_ok_def Let_def Suc_diff_le)
qed

lemma validate_requirement_fields [simp]:
  "vs_state (validate_requirement F None s r) = vs_state s" "vs_totalReq (validate_requirement F None s r) = vs_totalReq s + 1"
  "vs_gaps (validate_requirement F None s r) = vs_gaps s @ (if cap_key r \<in> set (vs_state s) then [] else [cap_key r])"
  by (simp_all add: validate_requirement_def Let_def)

lemma validate_requirements_fields [simp]:
  "vs_state (foldl (validate_requirement F None) s rs) = vs_state s"
  "vs_totalReq (foldl (validate_requirement F None) s rs) = vs_totalReq s + length rs"
  "vs_gaps (foldl (validate_requirement F None) s rs) = vs_gaps s @ filter (\<lambda>r. r \<notin> set (vs_state s)) (map cap_key rs)"
  by (induction rs arbitrary: s) simp_all

lemma validate_requirements_ok:
  "float_laws F \<Longrightarrow> validation_ok s \<Longrightarrow> vs_totalReq s + length rs \<le> 2 ^ 53 \<Longrightarrow> validation_ok (foldl (validate_requirement F None) s rs)"
  by (induction rs arbitrary: s) (simp_all add: validate_requirement_ok)

lemma validate_step_fields [simp]:
  "vs_state (validate_step F None s st) = map cap_key (st_OutputCaps st) @ vs_state s"
  "vs_totalReq (validate_step F None s st) = vs_totalReq s + length (st_InputCaps st)"
  "vs_gaps (validate_step F None s st) = vs_gaps s @ filter (\<lambda>r. r \<notin> set (vs_state s)) (map cap_key (st_InputCaps st))"
  by (simp_all add: validate_step_def Let_def)

lemma validate_step_ok:
  "float_laws F \<Longrightarrow> validation_ok s \<Longrightarrow> vs_totalReq s + length (st_InputCaps st) \<le> 2 ^ 53 \<Longrightarrow> validation_ok (validate_step F None s st)"
  using validate_requirements_ok [of F s "st_InputCaps st"] by (simp add: validate_step_def Let_def validation_ok_def)

lemma validate_steps_ok:
  "float_laws F \<Longrightarrow> validation_ok s \<Longrightarrow> vs_totalReq s + total_requirements steps \<le> 2 ^ 53 \<Longrightarrow>
   validation_ok (foldl (validate_step F None) s steps) \<and> vs_totalReq (foldl (validate_step F None) s steps) = vs_totalReq s + total_requirements steps"
  by (induction steps arbitrary: s) (simp_all add: total_requirements_def validate_step_ok)

lemma validate_steps_gaps:
  "set (vs_gaps (foldl (validate_step F None) s steps)) = set (vs_gaps s) \<union>
     {r. \<exists>k < length steps. r \<in> cap_key ` set (st_InputCaps (steps ! k)) \<and>
        r \<notin> set (vs_state s) \<union> (\<Union>t \<in> set (take k steps). cap_key ` set (st_OutputCaps t))}"
proof (induction steps arbitrary: s)
  case (Cons st steps)
  let ?miss = "\<lambda>base steps. {r. \<exists>k < length steps. r \<in> cap_key ` set (st_InputCaps (steps ! k)) \<and>
        r \<notin> base \<union> (\<Union>t \<in> set (take k steps). cap_key ` set (st_OutputCaps t))}"
  have "?miss (set (vs_state s)) (st # steps) = {r \<in> cap_key ` set (st_InputCaps st). r \<notin> set (vs_state s)} \<union>
      ?miss (cap_key ` set (st_OutputCaps st) \<union> set (vs_state s)) steps"
  proof (intro set_eqI iffI)
    fix r assume "r \<in> ?miss (set (vs_state s)) (st # steps)"
    then obtain k where k: "k < Suc (length steps)" "r \<in> cap_key ` set (st_InputCaps ((st # steps) ! k))"
      "r \<notin> set (vs_state s) \<union> (\<Union>t \<in> set (take k (st # steps)). cap_key ` set (st_OutputCaps t))" by auto
    then show "r \<in> {r \<in> cap_key ` set (st_InputCaps st). r \<notin> set (vs_state s)} \<union>
      ?miss (cap_key ` set (st_OutputCaps st) \<union> set (vs_state s)) steps" by (cases k) auto
  next
    fix r assume "r \<in> {r \<in> cap_key ` set (st_InputCaps st). r \<notin> set (vs_state s)} \<union>
      ?miss (cap_key ` set (st_OutputCaps st) \<union> set (vs_state s)) steps"
    then consider "r \<in> cap_key ` set (st_InputCaps st)" "r \<notin> set (vs_state s)" |
      k where "k < length steps" "r \<in> cap_key ` set (st_InputCaps (steps ! k))"
        "r \<notin> cap_key ` set (st_OutputCaps st) \<union> set (vs_state s) \<union> (\<Union>t \<in> set (take k steps). cap_key ` set (st_OutputCaps t))" by blast
    then show "r \<in> ?miss (set (vs_state s)) (st # steps)"
    proof cases
      case 1
      then show ?thesis by (intro CollectI exI [of _ 0]) simp
    next
      case (2 k)
      then show ?thesis by (intro CollectI exI [of _ "Suc k"]) auto
    qed
  qed
  then show ?case using Cons.IH [of "validate_step F None s st"] by auto
qed simp

lemma uniqStrings_set [simp]: "set (uniqStrings xs) = TrimSpace ` set xs - {[]}"
  by (auto simp: uniqStrings_def)

text \<open>
  The validation of a chain reports exactly the capabilities that some step requires and neither the start nor an earlier step
  provides; its confidence is a probability, and 1 when nothing is missing.
\<close>

lemma capability_validation_exact:
  assumes "float_laws F" "steps \<noteq> []" "total_requirements steps \<le> 2 ^ 53"
  shows "\<exists>v. BuildCapabilityValidation F steps = Some v \<and> set (cv_Gaps v) = TrimSpace ` missing_caps steps - {[]} \<and>
    0 \<le> cv_Confidence v \<and> cv_Confidence v \<le> 1 \<and> (missing_caps steps = {} \<longrightarrow> cv_Confidence v = 1)"
proof -
  let ?init = "\<lparr>vs_state = initial_caps, vs_gaps = [], vs_totalReq = 0, vs_matchedSum = 0\<rparr>"
  let ?s = "foldl (validate_step F None) ?init steps"
  define conf where "conf = (if vs_totalReq ?s > 0 then fdiv F (vs_matchedSum ?s) (lit F (of_nat (vs_totalReq ?s))) else 1)"
  have v: "BuildCapabilityValidation F steps = Some \<lparr>cv_Confidence = round_to F 1000 conf, cv_Gaps = uniqStrings (vs_gaps ?s), cv_SoftMode = True\<rparr>"
    using assms(2) by (simp add: BuildCapabilityValidation_def BuildCapabilityValidationWithRuntimeWeights_def Let_def conf_def)
  have gaps: "set (vs_gaps ?s) = missing_caps steps"
    by (simp add: validate_steps_gaps missing_caps_def caps_before_def)
  have 0: "validation_ok ?init" "vs_totalReq ?init + total_requirements steps \<le> 2 ^ 53" using assms(3) by (simp_all add: validation_ok_def)
  have ok: "validation_ok ?s" "vs_totalReq ?s = total_requirements steps" using validate_steps_ok [OF assms(1) 0] by simp_all
  let ?n = "total_requirements steps"
  have lit: "lit F (of_nat ?n) = of_nat ?n" using assms(1,3) by (rule rnd_nat)
  have m: "vs_matchedSum ?s = of_nat (?n - length (vs_gaps ?s))" using ok(1) unfolding validation_ok_def ok(2) by blast
  have unit: "0 \<le> conf \<and> conf \<le> 1"
  proof (cases "?n = 0")
    case True
    then show ?thesis by (simp add: conf_def ok(2))
  next
    case False
    then have "0 \<le> vs_matchedSum ?s / of_nat ?n" "vs_matchedSum ?s / of_nat ?n \<le> 1" by (simp_all add: m)
    then show ?thesis using False assms(1) by (simp add: conf_def ok(2) lit fdiv_def rnd_nonneg rnd_le_1)
  qed
  have round1: "round_to F 1000 1 = 1"
    using assms(1) Round_nat [of 1000] rnd_nat [OF assms(1), of 1000] by (simp add: round_to_def fmul_def fdiv_def)
  have "conf = 1" if "missing_caps steps = {}"
  proof -
    have "vs_gaps ?s = []" using gaps that by simp
    then show ?thesis using assms(1) by (simp add: conf_def ok(2) lit fdiv_def m)
  qed
  then show ?thesis using v gaps unit round_to_unit [of F conf 1000] assms(1) round1 by auto
qed

text \<open>The witness: the sequence of techniques of a lateral chain needs shell access to a node, which none of its steps provides.\<close>

definition sequence_steps :: "string \<Rightarrow> AttackStep list" where
  "sequence_steps ty = List.map_filter (\<lambda>i. map_option technique_step (TechniqueByID exact_arith i)) (TechniqueSequenceForChain ty)"

lemma sequence_gaps:
  "map (\<lambda>ty. map_option cv_Gaps (BuildCapabilityValidation exact_arith (sequence_steps ty))) (map fst chainTypeToTechniqueSequence) =
   [Some [], Some [''NODE_SHELL_ACCESS''], Some [''SA_TOKEN''], Some [''SA_TOKEN''], Some [''NODE_SHELL_ACCESS''], Some [''SA_TOKEN'']]"
  by code_simp

lemma capability_validation_exact_witness:
  "TrimSpace ` missing_caps (sequence_steps ''LATERAL_TO_PRIV_ESC'') - {[]} = {NodeAccessShell}"
proof -
  have "sequence_steps ''LATERAL_TO_PRIV_ESC'' \<noteq> []" "total_requirements (sequence_steps ''LATERAL_TO_PRIV_ESC'') = 3" by code_simp+
  then obtain v where v: "BuildCapabilityValidation exact_arith (sequence_steps ''LATERAL_TO_PRIV_ESC'') = Some v"
    "set (cv_Gaps v) = TrimSpace ` missing_caps (sequence_steps ''LATERAL_TO_PRIV_ESC'') - {[]}"
    using capability_validation_exact [OF exact_arith_laws, of "sequence_steps ''LATERAL_TO_PRIV_ESC''"] by auto
  have "map_option cv_Gaps (BuildCapabilityValidation exact_arith (sequence_steps ''LATERAL_TO_PRIV_ESC'')) = Some [NodeAccessShell]"
    using sequence_gaps by (simp add: chainTypeToTechniqueSequence_def)
  then show ?thesis using v by simp
qed

subsection \<open>Capabilities that get lost\<close>

text \<open>Capability nodes of the graph of a pod have identifiers with the prefix cap:.\<close>

definition cap_ids :: "AttackGraph \<Rightarrow> bool" where
  "cap_ids g \<longleftrightarrow> (\<forall>k n. ag_Nodes g k = Some n \<longrightarrow> gn_Type n = NodeTypeCapability \<longrightarrow> HasPrefix (gn_ID n) ''cap:'')"

lemma cap_ids_new [simp]: "cap_ids NewAttackGraph"
  by (simp add: cap_ids_def NewAttackGraph_def)

lemma cap_ids_AddNode [simp]:
  "gn_Type n \<noteq> NodeTypeCapability \<Longrightarrow> cap_ids g \<Longrightarrow> cap_ids (AddNode g n)"
  "HasPrefix (gn_ID n) ''cap:'' \<Longrightarrow> cap_ids g \<Longrightarrow> cap_ids (AddNode g n)"
  by (simp_all add: cap_ids_def AddNode_def)

lemma cap_ids_AddEdge [simp]: "cap_ids g \<Longrightarrow> cap_ids (AddEdge F g e)"
  by (simp add: cap_ids_def AddEdge_def Let_def)

lemma cap_ids_rbac: "cap_ids g \<Longrightarrow> cap_ids (addRBACChainForSA F snap g sa)"
  unfolding addRBACChainForSA_def
  by (intro foldl_invariant [where P = cap_ids])
    (auto simp: add_roleBinding_def add_clusterRoleBinding_def rbac_link_def Let_def split: option.splits)

lemma cap_ids_pod_graph: "cap_ids (pod_graph F E pod sa snap podCaps podAttackSteps rc)"
  unfolding pod_graph_def Let_def
  by (intro foldl_invariant [where P = cap_ids])
    (auto simp: add_peer_def add_capability_def add_attack_step_def Let_def pod_node_def sa_node_def split: option.splits
      intro!: cap_ids_rbac)

definition cap_nodes_prefixed :: "AttackPath \<Rightarrow> bool" where
  "cap_nodes_prefixed p \<longleftrightarrow> (\<forall>n \<in> set (ap_Nodes p). an_Type n = NodeTypeCapability \<longrightarrow> HasPrefix (an_ID n) ''cap:'')"

lemma built_caps_prefixed:
  assumes "p \<in> set (buildDeterministicPaths F order E pod sa snap podCaps podAttackSteps rc high)"
  shows "cap_nodes_prefixed p"
proof -
  let ?g = "pod_graph F E pod sa snap podCaps podAttackSteps rc"
  obtain gp where "p = convert_path F ?g gp"
    using assms by (auto simp: buildDeterministicPaths_def convertGraphPathsToAttackPaths_def Let_def)
  then have nodes: "ap_Nodes p = map (convert_node ?g) (gp_NodeIDs gp)" by (simp add: convert_path_def Let_def case_prod_unfold)
  have "HasPrefix (gn_ID (node_at ?g i)) ''cap:''" if "gn_Type (node_at ?g i) = NodeTypeCapability" for i
    using that cap_ids_pod_graph [of F E pod sa snap podCaps podAttackSteps rc]
    by (auto simp: node_at_def zero_node_def cap_ids_def split: option.splits)
  then show ?thesis unfolding cap_nodes_prefixed_def nodes by (auto simp: convert_node_def Let_def)
qed

lemma cap_nodes_prefixed_clone: "list_all cap_nodes_prefixed ps \<Longrightarrow> list_all cap_nodes_prefixed (cloneAttackPaths ps)"
  by (auto simp: cloneAttackPaths_def cap_nodes_prefixed_def list_all_iff)

lemma identity_caps_prefixed: "list_all cap_nodes_prefixed (identity_paths F order E i pod snap db)"
  by (auto simp: identity_paths_def Let_def list_all_iff intro: built_caps_prefixed split: option.splits)

lemma build_pods_caps:
  "build_pods F order sha1 E cid snap persist pods acc db = (Inr ps, db') \<Longrightarrow> list_all cap_nodes_prefixed acc \<Longrightarrow> list_all cap_nodes_prefixed ps"
proof (induction F order sha1 E cid snap persist pods acc db arbitrary: ps rule: build_pods.induct)
  case (2 F order sha1 E cid snap persist pod pods acc db)
  obtain i r db1 where i: "New cid (pod_UID pod) = Inr i"
    and b: "buildPathsForPodIdentityWithSnapshot F order sha1 E i pod snap persist db = (Inr r, db1)"
    and rest: "build_pods F order sha1 E cid snap persist pods (acc @ r) db1 = (Inr ps, db')"
    using 2(2) by (auto split: sum.splits prod.splits)
  have "list_all cap_nodes_prefixed r"
    using b identity_caps_prefixed unfolding buildPathsForPodIdentityWithSnapshot_def Let_def
    by (auto split: if_splits option.splits prod.splits)
  then show ?case using 2(1) [OF i b [symmetric] refl rest] 2(3) by simp
qed simp

lemma build_clusters_caps:
  "build_clusters F order sha1 E persist pods cids acc db = (Inr ps, db') \<Longrightarrow> list_all cap_nodes_prefixed acc \<Longrightarrow> list_all cap_nodes_prefixed ps"
proof (induction F order sha1 E persist pods cids acc db arbitrary: ps rule: build_clusters.induct)
  case (2 F order sha1 E persist pods cid cids acc db)
  obtain snap r db1 where s: "loadClusterPathSnapshot F E cid db = Inr snap"
    and b: "build_pods F order sha1 E cid snap persist (filter (\<lambda>p. pod_ClusterID p = cid) pods) acc db = (Inr r, db1)"
    and rest: "build_clusters F order sha1 E persist pods cids r db1 = (Inr ps, db')"
    using 2(2) by (auto split: sum.splits prod.splits)
  from 2(1) [OF s b [symmetric] refl rest build_pods_caps [OF b 2(3)]] show ?case .
qed simp

lemma BuildAllPaths_caps:
  assumes "BuildAllPaths F order cluster_order sha1 E clusterID persist db = (Inr ps, db')"
  shows "list_all cap_nodes_prefixed ps \<and> (\<exists>qs. ps = cloneAttackPaths qs)"
proof -
  obtain qs where q: "buildAllPathsNoCache F order cluster_order sha1 E clusterID persist db = (Inr qs, db')" "ps = cloneAttackPaths qs"
    using assms by (auto simp: BuildAllPaths_def split: sum.splits prod.splits)
  obtain pods cids db1 where "build_clusters F order sha1 E persist pods cids [] db = (Inr qs, db1)"
    using q(1) unfolding buildAllPathsNoCache_def Let_def by (auto split: if_splits sum.splits prod.splits option.splits)
  from build_clusters_caps [OF this] show ?thesis using q(2) cap_nodes_prefixed_clone by auto
qed

lemma trimmed_prefix: "lead_space x = None \<Longrightarrow> \<exists>t. x = TrimSpace x @ t"
  using trim_right_prefix [of "trim_left x"] by (simp add: TrimSpace_def trim_left_id)

lemma lead_space_letter: "c \<in> set (upper_letters @ lower_letters) \<Longrightarrow> lead_space (c # s) = None"
proof -
  have "list_all (\<lambda>c. list_all (\<lambda>w. hd w \<noteq> c) space_runes) (upper_letters @ lower_letters)" by code_simp
  moreover assume "c \<in> set (upper_letters @ lower_letters)"
  ultimately have "\<forall>w \<in> set space_runes. hd w \<noteq> c" unfolding list_all_iff by blast
  moreover have "\<forall>w \<in> set space_runes. w \<noteq> []" by (simp add: space_runes_def)
  ultimately show ?thesis by (auto simp: lead_space_def find_None_iff HasPrefix_iff Cons_eq_append_conv)
qed

lemma TrimSpace_letter_prefix: "c \<in> set (upper_letters @ lower_letters) \<Longrightarrow> \<exists>t. c # s = TrimSpace (c # s) @ t"
  by (rule trimmed_prefix) (rule lead_space_letter)

lemma cap_id_no_escape:
  assumes "HasPrefix i ''cap:''"
  shows "nodeAccessFromCapability i = NodeAccessRuntime" "EscapeCapToTechnique F i = None"
proof -
  obtain s where i: "i = CHR ''c'' # s" using assms by (cases i) (auto simp: HasPrefix_def)
  have "\<exists>t. CHR ''c'' # s = TrimSpace (CHR ''c'' # s) @ t" by (rule TrimSpace_letter_prefix) (simp add: lower_letters_def)
  then obtain t where t: "CHR ''c'' # s = TrimSpace (CHR ''c'' # s) @ t" ..
  then have "TrimSpace i = [] \<or> hd (TrimSpace i) = CHR ''c''" unfolding i by (cases "TrimSpace (CHR ''c'' # s)") auto
  moreover have "upper_char (CHR ''c'') = CHR ''C''" by code_simp
  ultimately have "ToUpper (TrimSpace i) = [] \<or> hd (ToUpper (TrimSpace i)) = CHR ''C''"
    by (cases "TrimSpace i") (auto simp: ToUpper_def)
  then show "nodeAccessFromCapability i = NodeAccessRuntime" by (auto simp: nodeAccessFromCapability_def)
  show "EscapeCapToTechnique F i = None" by (simp add: EscapeCapToTechnique_def escapeCapToTechniqueID_def i)
qed

lemma no_escape_technique: "cap_nodes_prefixed p \<Longrightarrow> first_escape_technique F (ap_Nodes p) = None"
proof -
  have "\<forall>n \<in> set ns. an_Type n = NodeTypeCapability \<longrightarrow> HasPrefix (an_ID n) ''cap:'' \<Longrightarrow> first_escape_technique F ns = None" for ns
    by (induction ns) (auto simp: cap_id_no_escape)
  then show "cap_nodes_prefixed p \<Longrightarrow> first_escape_technique F (ap_Nodes p) = None" by (simp add: cap_nodes_prefixed_def)
qed

lemma TrimSpace_take:
  assumes "TrimSpace (c # s) = y" "c \<in> set (upper_letters @ lower_letters)"
  shows "take (length y) (c # s) = y"
proof -
  obtain t where "c # s = TrimSpace (c # s) @ t" using TrimSpace_letter_prefix [OF assms(2)] by blast
  then have "c # s = y @ t" unfolding assms(1) .
  then show ?thesis by simp
qed

text \<open>What the parts of \<open>deriveProvides\<close> list, as texts that begin with a letter.\<close>

definition provide_texts :: "string set" where
  "provide_texts = {''SA_TOKEN'', ''NODE_ACCESS'', ''ROLE'', NodeAccessRuntime} \<union> range (\<lambda>i. ''NETWORK_ACCESS:'' @ i) \<union>
     range (\<lambda>i. ''ROLE:'' @ i) \<union> range (\<lambda>i. ''DATA_ACCESS:'' @ i)"

lemma provide_texts_intros [simplified, simp]:
  "''SA_TOKEN'' \<in> provide_texts" "''NODE_ACCESS'' \<in> provide_texts" "''ROLE'' \<in> provide_texts" "NodeAccessRuntime \<in> provide_texts"
  "''NETWORK_ACCESS:'' @ i \<in> provide_texts" "''ROLE:'' @ i \<in> provide_texts" "''DATA_ACCESS:'' @ i \<in> provide_texts"
  by (simp_all only: provide_texts_def) blast+

lemma provide_texts_no_shell:
  assumes "x \<in> provide_texts" "y \<in> {NodeAccessShell, NodeAccessKubelet}"
  shows "TrimSpace x \<noteq> y"
proof
  assume y: "TrimSpace x = y"
  have letters: "set ''SNRCD'' \<subseteq> set (upper_letters @ lower_letters)" by code_simp
  consider (literal) "x \<in> {''SA_TOKEN'', ''NODE_ACCESS'', ''ROLE'', NodeAccessRuntime}" | (network) i where "x = ''NETWORK_ACCESS:'' @ i"
    | (role) i where "x = ''ROLE:'' @ i" | (data) i where "x = ''DATA_ACCESS:'' @ i"
    using assms(1) unfolding provide_texts_def by blast
  note x = this
  then have "\<exists>c s. x = c # s \<and> c \<in> set ''SNRCD''" by cases auto
  then obtain c s where "x = c # s" "c \<in> set ''SNRCD''" by blast
  then have "take (length y) x = y" using TrimSpace_take [of c s y] y letters by blast
  moreover have "take (length NodeAccessShell) x \<noteq> NodeAccessShell" using x by cases auto
  moreover have "take (length NodeAccessKubelet) x \<noteq> NodeAccessKubelet" using x by cases auto
  ultimately show False using assms(2) by blast
qed

lemma provides_without_shell:
  assumes "cap_nodes_prefixed p"
  shows "set (deriveProvides p source target cls) \<inter> {NodeAccessShell, NodeAccessKubelet} = {}"
proof -
  have runtime: "set (node_access_provides p) \<subseteq> {NodeAccessRuntime}"
    using assms cap_id_no_escape(1) by (auto simp: node_access_provides_def cap_nodes_prefixed_def)
  define base where "base = (if ep_SA source \<noteq> [] then [''SA_TOKEN''] else []) @ class_provides target cls @
    (if ep_Type target = ToUpper NodeTypePod then [''NETWORK_ACCESS:'' @ ep_ID target] else []) @
    map (\<lambda>_. ''NODE_ACCESS'') (filter (\<lambda>n. EqualFold (an_Type n) NodeTypeNode) (ap_Nodes p))"
  have base: "set (base @ node_access_provides p) \<subseteq> provide_texts"
  proof -
    have "set (node_access_provides p) \<subseteq> provide_texts" by (rule order_trans [OF runtime]) simp
    then have "list_all (\<lambda>x. x \<in> provide_texts) (node_access_provides p)" by (auto simp: list_all_iff)
    moreover have "list_all (\<lambda>x. x \<in> provide_texts) (class_provides target cls)" by (simp add: class_provides_def)
    ultimately have "list_all (\<lambda>x. x \<in> provide_texts) (base @ node_access_provides p)"
      by (simp add: base_def list.pred_map comp_def list.pred_True)
    then show ?thesis by (auto simp: list_all_iff)
  qed
  have "TrimSpace NodeAccessShell = NodeAccessShell" by code_simp
  then have "NodeAccessShell \<notin> provide_texts" using provide_texts_no_shell [of NodeAccessShell NodeAccessShell] by blast
  then have "\<not> hasExact (base @ node_access_provides p) NodeAccessShell" using base by (auto simp: hasExact_def list_ex_iff)
  then have "deriveProvides p source target cls = uniqStrings (if hasExact base ''NODE_ACCESS'' then base @ node_access_provides p else base)"
    by (simp add: deriveProvides_def Let_def base_def)
  then have "set (deriveProvides p source target cls) \<subseteq> TrimSpace ` set (base @ node_access_provides p)" by (auto split: if_splits)
  moreover have "y \<notin> TrimSpace ` set (base @ node_access_provides p)" if "y \<in> {NodeAccessShell, NodeAccessKubelet}" for y
  proof
    assume "y \<in> TrimSpace ` set (base @ node_access_provides p)"
    then obtain x where "x \<in> set (base @ node_access_provides p)" "y = TrimSpace x" by (rule imageE)
    then show False using provide_texts_no_shell [OF subsetD [OF base] that] by metis
  qed
  ultimately show ?thesis by (meson disjoint_iff subsetD)
qed

lemma semantic_caps_cloned: "n \<in> set (ap_Nodes p) \<Longrightarrow> p \<in> set (cloneAttackPaths ps) \<Longrightarrow> semantic_caps_of n = []"
proof -
  have "map_of (map (\<lambda>kv. (fst kv, clone_value (snd kv))) kvs) k = map_option clone_value (map_of kvs k)" for kvs and k :: string
    by (induction kvs) auto
  moreover have "clone_value v \<noteq> PropStrings sc" for v sc by (cases v) auto
  ultimately have "semantic_caps_of (n'\<lparr>an_Properties := map (\<lambda>kv. (fst kv, clone_value (snd kv))) (an_Properties n')\<rparr>) = []" for n'
    by (auto simp: semantic_caps_of_def split: option.splits PropValue.splits)
  then show "n \<in> set (ap_Nodes p) \<Longrightarrow> p \<in> set (cloneAttackPaths ps) \<Longrightarrow> semantic_caps_of n = []"
    by (auto simp: cloneAttackPaths_def)
qed

text \<open>The objective of a chain when only the name of the target role counts.\<close>

definition objective_by_name :: "pathNormalized \<Rightarrow> string" where
  "objective_by_name b = objectiveFromChainContext (b\<lparr>pn_SemanticCaps := []\<rparr>)"

lemma normalized_member:
  assumes "q \<in> set (normalizePaths F ps)"
  obtains idx p where "p \<in> set ps" "ap_Nodes p \<noteq> []" "q = normalize_path F idx p"
proof -
  from assms obtain ip where "ip \<in> set (enumerate 0 ps)" "\<not> length (ap_Nodes (snd ip)) < 2" "q = normalize_path F (fst ip) (snd ip)"
    by (auto simp: normalizePaths_def)
  moreover have "snd ip \<in> set ps" using calculation(1) by (metis in_set_impl_in_set_zip2 enumerate_eq_zip prod.collapse set_zip_rightD)
  ultimately show ?thesis using that [of "snd ip" "fst ip"] by fastforce
qed

lemma assigned_ids_nodes:
  assumes "p \<in> set (AssignStablePathIDs sha1 ps)"
  obtains p' where "p' \<in> set ps" "ap_Nodes p = ap_Nodes p'"
  using assms by (auto simp: AssignStablePathIDs_def dest: set_zip_leftD)

text \<open>
  What the builder learns about roles and escapes does not reach the chains. The capabilities derived from the rules of a role are
  lost in the copy through JSON, so the objective of a chain follows from the name of the role only; and the identifiers of capability
  nodes never name an escape, so no path provides shell access to a node or access to the kubelet and the technique of an escape is
  never the one that was found.
\<close>

lemma chains_ignore_rules_and_escapes:
  assumes "BuildAllPaths F order cluster_order sha1 E clusterID persist db = (Inr paths, db')"
    "q \<in> set (normalizePaths F (AssignStablePathIDs sha1 paths))"
  shows "objectiveFromChainContext q = objective_by_name q \<and>
    \<not> hasExact (pn_Provides q) NodeAccessShell \<and> \<not> hasExact (pn_Provides q) NodeAccessKubelet \<and>
    map st_TechniqueID (buildAttackSteps F ty q) = filter (\<lambda>i. TechniqueByID F i \<noteq> None) (TechniqueSequenceForChain ty)"
proof -
  obtain idx p where p: "p \<in> set (AssignStablePathIDs sha1 paths)" "ap_Nodes p \<noteq> []" "q = normalize_path F idx p"
    using normalized_member [OF assms(2)] .
  obtain p' where p': "p' \<in> set paths" "ap_Nodes p = ap_Nodes p'" using assigned_ids_nodes [OF p(1)] .
  obtain qs where built: "list_all cap_nodes_prefixed paths" "paths = cloneAttackPaths qs" using BuildAllPaths_caps [OF assms(1)] by blast
  have prefixed: "cap_nodes_prefixed p" using built(1) p' by (auto simp: list_all_iff cap_nodes_prefixed_def)
  have sem: "semantic_caps_of (last (ap_Nodes p)) = []"
    using semantic_caps_cloned [of "last (ap_Nodes p)" p' qs] p' p(2) built(2) by simp
  then have "pn_SemanticCaps q = []" "\<exists>source target cls. pn_Provides q = deriveProvides p source target cls" "pn_Raw q = p"
    unfolding p(3) by (auto simp: normalize_path_def Let_def)
  then have q: "pn_SemanticCaps q = []" "set (pn_Provides q) \<inter> {NodeAccessShell, NodeAccessKubelet} = {}" "pn_Raw q = p"
    using provides_without_shell [OF prefixed] by auto
  have "objectiveFromChainContext q = objective_by_name q" using q(1) by (simp add: objective_by_name_def objectiveFromChainContext_def Let_def)
  moreover have "map st_TechniqueID (List.map_filter (\<lambda>i. map_option technique_step (TechniqueByID F i)) is) = filter (\<lambda>i. TechniqueByID F i \<noteq> None) is" for "is"
    by (induction "is") (auto simp: List.map_filter_simps technique_step_def TechniqueByID_def split: option.splits)
  then have "map st_TechniqueID (buildAttackSteps F ty q) = filter (\<lambda>i. TechniqueByID F i \<noteq> None) (TechniqueSequenceForChain ty)"
    using no_escape_technique [OF prefixed, of F] by (auto simp: buildAttackSteps_def q(3) Let_def)
  ultimately show ?thesis using q(2) by (auto simp: hasExact_def list_ex_iff)
qed

definition escape_db :: GraphDb where
  "escape_db = \<lparr>gd_Pods = [hostpath_pod ''kube-system''], gd_ServiceAccounts = [hostpath_sa ''kube-system''], gd_RoleBindings = [],
     gd_ClusterRoleBindings = [], gd_Roles = [], gd_ClusterRoles = [], gd_Connections = [], gd_PodCapabilities = [hostpath_cap ''kube-system''],
     gd_PodAttackSteps = [], gd_CriticalCVEs = [], gd_Denials = [], gd_AttackPaths = [], gd_Fails = (\<lambda>_. False)\<rparr>"

abbreviation escape_build :: "(string, AttackPath list) result \<times> GraphDb" where
  "escape_build \<equiv> BuildAllPaths exact_arith rev (\<lambda>c. c) (\<lambda>_. replicate 20 CHR ''x'') quiet_env ''c'' False escape_db"

definition escape_paths :: "pathNormalized list" where
  "escape_paths = (case fst escape_build of Inl e \<Rightarrow> []
     | Inr ps \<Rightarrow> normalizePaths exact_arith (AssignStablePathIDs (\<lambda>_. replicate 20 CHR ''x'') ps))"

lemma escape_paths_provide: "map pn_Provides escape_paths = [[''CONTAINER_RUNTIME_ACCESS'', ''NODE_ACCESS'']]"
  by code_simp

text \<open>The witness: a pod with a host path mount reaches its node, but its path provides access to the container runtime, not a shell.\<close>

lemma chains_ignore_rules_and_escapes_witness:
  "length escape_paths = 1 \<and> list_all (\<lambda>q. \<not> hasExact (pn_Provides q) NodeAccessShell \<and> objectiveFromChainContext q = objective_by_name q) escape_paths"
proof -
  have "length escape_paths = 1" using arg_cong [OF escape_paths_provide, of length] by simp
  then obtain ps where ps: "fst escape_build = Inr ps" by (cases "fst escape_build") (simp_all add: escape_paths_def)
  then have run: "escape_build = (Inr ps, snd escape_build)" by (metis prod.collapse)
  have "escape_paths = normalizePaths exact_arith (AssignStablePathIDs (\<lambda>_. replicate 20 CHR ''x'') ps)" by (simp only: escape_paths_def ps sum.case)
  then have "list_all (\<lambda>q. \<not> hasExact (pn_Provides q) NodeAccessShell \<and> objectiveFromChainContext q = objective_by_name q) escape_paths"
    unfolding list_all_iff using chains_ignore_rules_and_escapes [OF run] by simp
  then show ?thesis using \<open>length escape_paths = 1\<close> by blast
qed

end
