(* ===== verification/Attack_Chain_Report.thy ===== *)
theory Attack_Chain_Report
  imports Attack_Chain
begin

section \<open>The report of attack chains\<close>

text \<open>
  Every reported chain joins two paths by a rule and a capability, no joinable pair is lost before the limit per target, and the
  report is bounded, free of repeated stories, with one primary chain per objective.
\<close>

subsection \<open>What later stages keep of a chain\<close>

definition chain_core :: "AttackChain \<Rightarrow> string list \<times> string \<times> rat \<times> string \<times> string" where
  "chain_core ch = (ac_Paths ch, ac_Objective ch, ac_ChainStrength ch, ac_FinalTarget ch, ac_Type ch)"

lemma chain_core_validation [simp]: "chain_core (applyCapabilityValidationToRealism F ch) = chain_core ch"
  "ac_Primary (applyCapabilityValidationToRealism F ch) = ac_Primary ch"
  by (simp_all add: applyCapabilityValidationToRealism_def chain_core_def Let_def split: option.splits)

lemma chain_core_enrich [simp]: "chain_core (enrichChain F a b hints n ch) = chain_core ch" "ac_Primary (enrichChain F a b hints n ch) = ac_Primary ch"
proof -
  have core: "chain_core (c\<lparr>ac_Assumptions := x1, ac_Evidence := x2, ac_ID := x3, ac_SourceID := x4, ac_TargetID := x5, ac_Impact := x6,
      ac_InvolvedResources := x7\<rparr>) = chain_core c" for c x1 x2 x3 x4 x5 x6 x7 by (simp add: chain_core_def)
  have core': "chain_core (c\<lparr>ac_Realism := x1, ac_RealismPreCapabilityValidation := x2, ac_ExploitCost := x3, ac_BlastRadius := x4, ac_VariantSpread := x5,
      ac_ConfidenceRaw := x6, ac_ImpactScope := x7, ac_Validity := x8, ac_Steps := x9, ac_CapabilityValidation := x10\<rparr>) = chain_core c"
    for c x1 x2 x3 x4 x5 x6 x7 x8 x9 x10 by (simp add: chain_core_def)
  show "chain_core (enrichChain F a b hints n ch) = chain_core ch" unfolding enrichChain_def Let_def core chain_core_validation core' ..
  show "ac_Primary (enrichChain F a b hints n ch) = ac_Primary ch" by (simp add: enrichChain_def Let_def)
qed

lemma chain_core_variants [simp]: "chain_core (ch\<lparr>ac_VariantNodes := vs\<rparr>) = chain_core ch" "chain_core (ch\<lparr>ac_Primary := x\<rparr>) = chain_core ch"
  by (simp_all add: chain_core_def)

lemma semantic_key_core: "chain_core c = chain_core d \<Longrightarrow> semanticChainKey c ps = semanticChainKey d ps"
  by (simp add: chain_core_def semanticChainKey_def normalizedChainStory_def)

lemma chain_core_fields: "chain_core c = chain_core d \<Longrightarrow> ac_Objective c = ac_Objective d \<and> ac_FinalTarget c = ac_FinalTarget d \<and>
   ac_ChainStrength c = ac_ChainStrength d \<and> ac_Paths c = ac_Paths d \<and> ac_Type c = ac_Type d"
  by (simp add: chain_core_def)

text \<open>The chains before the limit.\<close>

definition found_chains :: "FloatArith \<Rightarrow> (string list \<Rightarrow> string list) \<Rightarrow> pathNormalized list \<Rightarrow> ClusterHardeningHints \<Rightarrow> AttackChain list" where
  "found_chains F order npaths hints = map (\<lambda>ch. case normalizedPairForChain ch npaths of None \<Rightarrow> ch
     | Some (a, b) \<Rightarrow> enrichChain F a b hints (countDistinctNodes npaths) ch)
       (deduplicateChainsSemantically order (sort_chains (raw_chains F hints npaths)) npaths)"

lemma detect_found: "DetectChainsWithHints F order paths hints =
   (if length (normalizePaths F paths) < 2 then []
    else enforceObjectiveLimit (selectPrimaryChains F (found_chains F order (normalizePaths F paths) hints)) maxChainsPerObjective)"
  by (simp add: DetectChainsWithHints_def found_chains_def Let_def)

lemma found_cores: "map chain_core (found_chains F order ps hints) = map (chain_core \<circ> fst \<circ> snd) (merged_entries (sort_chains (raw_chains F hints ps)) ps)"
  by (auto simp: found_chains_def deduplicateChainsSemantically_def split: option.splits)

lemma primary_cores [simp]: "map chain_core (selectPrimaryChains F chs) = map chain_core chs"
proof -
  have "map chain_core (selectPrimaryChains F chs) = map (\<lambda>i. chain_core (chs ! i)) [0..<length chs]"
    by (auto simp: selectPrimaryChains_def)
  also have "\<dots> = map chain_core chs" by (metis map_map map_nth comp_def map_cong)
  finally show ?thesis .
qed

subsection \<open>Merging\<close>

lemma merge_chain_keys: "fst ` set (merge_chain k ns ch es) = insert k (fst ` set es)"
  by (induction es rule: merge_chain.induct) auto

lemma merge_chain_distinct: "distinct (map fst es) \<Longrightarrow> distinct (map fst (merge_chain k ns ch es))"
  by (induction k ns ch es rule: merge_chain.induct) (auto simp: merge_chain_keys)

definition entries_of :: "pathNormalized list \<Rightarrow> AttackChain set \<Rightarrow> (string \<times> AttackChain \<times> string list) list \<Rightarrow> bool" where
  "entries_of ps C es \<longleftrightarrow> distinct (map fst es) \<and> (\<forall>(k, rep, v) \<in> set es. rep \<in> C \<and> k = semanticChainKey rep ps) \<and>
     (\<forall>c \<in> C. \<exists>(k, rep, v) \<in> set es. k = semanticChainKey c ps \<and> ac_ChainStrength c \<le> ac_ChainStrength rep)"

lemma merge_chain_members:
  "(k', rep, v) \<in> set (merge_chain k ns ch es) \<Longrightarrow> (\<exists>v'. (k', rep, v') \<in> set es) \<or> k' = k \<and> rep = ch"
  by (induction k ns ch es rule: merge_chain.induct) (auto split: if_splits)

lemma merge_chain_keeps:
  "e \<in> set es \<Longrightarrow> \<exists>e' \<in> set (merge_chain k ns ch es). fst e' = fst e \<and> ac_ChainStrength (fst (snd e)) \<le> ac_ChainStrength (fst (snd e'))"
proof (induction es)
  case (Cons x es)
  obtain k' rep v where x: "x = (k', rep, v)" by (cases x) auto
  show ?case
  proof (cases "e = x")
    case True
    then show ?thesis by (cases "k' = k") (simp_all add: x)
  next
    case False
    then obtain e' where "e' \<in> set (merge_chain k ns ch es)" "fst e' = fst e" "ac_ChainStrength (fst (snd e)) \<le> ac_ChainStrength (fst (snd e'))"
      using Cons by auto
    then show ?thesis using False Cons.prems by (cases "k' = k") (auto simp: x)
  qed
qed simp

lemma merge_chain_has:
  "\<exists>e \<in> set (merge_chain k ns ch es). fst e = k \<and> ac_ChainStrength ch \<le> ac_ChainStrength (fst (snd e))"
proof (induction es)
  case (Cons x es)
  obtain k' rep v where x: "x = (k', rep, v)" by (cases x) auto
  show ?case using Cons by (cases "k' = k") (auto simp: x)
qed simp

lemma entries_of_merge:
  assumes "entries_of ps C es"
  shows "entries_of ps (insert ch C) (merge_chain (semanticChainKey ch ps) ns ch es)"
  unfolding entries_of_def
proof (intro conjI)
  show "distinct (map fst (merge_chain (semanticChainKey ch ps) ns ch es))" using assms merge_chain_distinct by (auto simp: entries_of_def)
  show "\<forall>(k, rep, v) \<in> set (merge_chain (semanticChainKey ch ps) ns ch es). rep \<in> insert ch C \<and> k = semanticChainKey rep ps"
    using assms by (fastforce simp: entries_of_def dest!: merge_chain_members)
  show "\<forall>c \<in> insert ch C. \<exists>(k, rep, v) \<in> set (merge_chain (semanticChainKey ch ps) ns ch es). k = semanticChainKey c ps \<and> ac_ChainStrength c \<le> ac_ChainStrength rep"
  proof
    fix c assume "c \<in> insert ch C"
    then consider "c = ch" | "c \<in> C" by blast
    then show "\<exists>(k, rep, v) \<in> set (merge_chain (semanticChainKey ch ps) ns ch es). k = semanticChainKey c ps \<and> ac_ChainStrength c \<le> ac_ChainStrength rep"
    proof cases
      case 1
      then show ?thesis using merge_chain_has [of "semanticChainKey ch ps" ns ch es] by fastforce
    next
      case 2
      then obtain e where e: "e \<in> set es" "fst e = semanticChainKey c ps" "ac_ChainStrength c \<le> ac_ChainStrength (fst (snd e))"
        using assms unfolding entries_of_def by fastforce
      obtain e' where "e' \<in> set (merge_chain (semanticChainKey ch ps) ns ch es)" "fst e' = semanticChainKey c ps"
        "ac_ChainStrength c \<le> ac_ChainStrength (fst (snd e'))"
        using merge_chain_keeps [OF e(1), of "semanticChainKey ch ps" ns ch] e(2,3) order_trans by metis
      then show ?thesis by (intro bexI [of _ e']) (auto simp: case_prod_unfold)
    qed
  qed
qed

lemma merged_entries_of: "entries_of ps (set chs) (merged_entries chs ps)"
proof (induction chs rule: rev_induct)
  case Nil
  show ?case by (simp add: entries_of_def merged_entries_def)
next
  case (snoc ch chs)
  then show ?case using entries_of_merge [OF snoc, of ch] by (simp add: merged_entries_def)
qed

subsection \<open>The pairs\<close>

lemma first_of_key_subset: "set (first_of_key seen kxs) \<subseteq> snd ` set kxs"
  by (induction seen kxs rule: first_of_key.induct) auto

lemma first_of_key_distinct: "distinct (map fst kxs) \<Longrightarrow> fst ` set kxs \<inter> seen = {} \<Longrightarrow> first_of_key seen kxs = map snd kxs"
  by (induction seen kxs rule: first_of_key.induct) auto

lemma in_ordered_pairs: "(a, b) \<in> set (ordered_pairs ps) \<longleftrightarrow> (\<exists>i < length ps. \<exists>j < length ps. i \<noteq> j \<and> a = ps ! i \<and> b = ps ! j)"
  by (auto simp: ordered_pairs_def)

lemma set_sort_chains [simp]: "set (sort_chains chs) = set chs"
  by (simp add: sort_chains_def)

lemma raw_chain_pair:
  assumes "c \<in> set (raw_chains F hints ps)"
  shows "\<exists>i < length ps. \<exists>j < length ps. \<exists>k. i \<noteq> j \<and> chain_of F hints (ps ! i) (ps ! j) = Some (k, c)"
proof -
  obtain k where "(k, c) \<in> set (List.map_filter (\<lambda>(a, b). chain_of F hints a b) (ordered_pairs ps))"
    using assms first_of_key_subset unfolding raw_chains_def by fastforce
  then show ?thesis by (fastforce simp: in_ordered_pairs)
qed

lemma rule_factor_unit:
  assumes "float_laws F" "chainRuleMatch F a b = Some (r, f)"
  shows "0 \<le> f \<and> f \<le> 1"
proof -
  have "f \<in> {1, lit F (9 / 10), lit F (8 / 10), lit F (75 / 100), lit F (6 / 10)}"
    using assms(2) unfolding chainRuleMatch_def by (simp split: if_splits)
  moreover have "\<forall>q \<in> {1, lit F (9 / 10), lit F (8 / 10), lit F (75 / 100), lit F (6 / 10)}. 0 \<le> q \<and> q \<le> 1"
    using rnd_nonneg [OF assms(1)] rnd_le_1 [OF assms(1)] by simp
  ultimately show ?thesis by blast
qed

lemma impact_weight_unit: "float_laws F \<Longrightarrow> 0 \<le> ci_chainFactorWeight (capImpact F t) \<and> ci_chainFactorWeight (capImpact F t) \<le> 1"
  using rnd_nonneg [of F] rnd_le_1 [of F]
  by (auto simp: capImpact_def capabilityImpactTable_def split: option.splits dest!: map_of_SomeD)

lemma chain_weight_unit:
  assumes "float_laws F"
  shows "0 \<le> capabilityChainWeight F ps rs \<and> capabilityChainWeight F ps rs \<le> 1"
proof -
  let ?P = "\<lambda>m::rat. 0 \<le> m \<and> m \<le> 1"
  have inner: "?P (foldl (\<lambda>m r. if p = r \<and> ci_chainFactorWeight (capImpact F p) > m then ci_chainFactorWeight (capImpact F p) else m) m rs)"
    if "?P m" for m p using that impact_weight_unit [OF assms, of p] by (intro foldl_invariant [where P = ?P]) auto
  have "?P (lit F (70 / 100))" using rnd_nonneg [OF assms] rnd_le_1 [OF assms] by simp
  then show ?thesis unfolding capabilityChainWeight_def by (rule foldl_invariant [where P = ?P]) (use inner in blast)
qed

lemma chain_factor_unit:
  assumes "float_laws F" "0 \<le> f" "f \<le> 1" "computeChainConfidenceWithHints F a b r f hints = (conf, adj)"
  shows "0 \<le> adj \<and> adj \<le> 1"
proof -
  note unit = rnd_nonneg [OF assms(1)] rnd_le_1 [OF assms(1)]
  have w: "0 \<le> fmul F f (capabilityChainWeight F (pn_Provides a) (pn_Requires b))" "fmul F f (capabilityChainWeight F (pn_Provides a) (pn_Requires b)) \<le> 1"
    using assms(1-3) chain_weight_unit [OF assms(1)] by (auto intro: fmul_nonneg fmul_le_1)
  have gate: "0 \<le> fmul F f (lit F (20 / 100))" "fmul F f (lit F (20 / 100)) \<le> 1"
    using assms(1-3) unit by (auto intro!: fmul_nonneg fmul_le_1)
  have dom: "0 \<le> fmul F x (lit F (70 / 100))" "fmul F x (lit F (70 / 100)) \<le> 1" if "0 \<le> x" "x \<le> 1" for x
    using assms(1) that unit by (auto intro!: fmul_nonneg fmul_le_1)
  show ?thesis
    using assms(4) w gate dom [OF w] unit
    by (auto simp: computeChainConfidenceWithHints_def Let_def max_def split: if_splits prod.splits)
qed

lemma normalize_strength_unit: "q \<in> set (normalizePaths F ps) \<Longrightarrow> 0 \<le> pn_Strength q \<and> pn_Strength q \<le> 1"
  by (auto simp: normalizePaths_def normalize_path_def Let_def clampFloat_def split: option.splits)

text \<open>\<open>joined F a b ch\<close>: a rule joins the paths \<open>a\<close> and \<open>b\<close>, they share a capability, and the chain is the one the rule describes.\<close>

definition joined :: "FloatArith \<Rightarrow> pathNormalized \<Rightarrow> pathNormalized \<Rightarrow> AttackChain \<Rightarrow> bool" where
  "joined F a b ch \<longleftrightarrow> ac_Paths ch = [pn_PathID a, pn_PathID b] \<and> (\<exists>f. chainRuleMatch F a b = Some (ac_Type ch, f)) \<and>
     set (pn_Provides a) \<inter> set (pn_Requires b) \<noteq> {} \<and> ac_Objective ch = objectiveFromChainContext b \<and>
     ac_FinalTarget ch = ep_Type (pn_Target b) @ '':'' @ ep_ID (pn_Target b) \<and>
     0 \<le> ac_ChainStrength ch \<and> ac_ChainStrength ch \<le> round_to F 1000 (fl_rnd F (min (pn_Strength a) (pn_Strength b)))"

lemma round_to_mono: "float_laws F \<Longrightarrow> 0 \<le> x \<Longrightarrow> x \<le> y \<Longrightarrow> 0 < k \<Longrightarrow> round_to F k x \<le> round_to F k y"
  unfolding round_to_def fdiv_def fmul_def
  by (intro rnd_mono divide_right_mono Round_mono rnd_nonneg mult_right_mono) simp_all

lemma chain_of_joined:
  assumes "float_laws F" "chain_of F hints a b = Some (k, ch)" "0 \<le> pn_Strength a" "0 \<le> pn_Strength b" "pn_Strength a \<le> 1"
  shows "joined F a b ch"
proof -
  let ?flow = "capabilityIntersection (pn_Provides a) (pn_Requires b)"
  obtain r f where r: "chainRuleMatch F a b = Some (r, f)" "?flow \<noteq> []" using assms(2) by (auto simp: chain_of_def Let_def split: option.splits if_splits)
  define soft where "soft = (if hasSoftEdge (pn_Raw a) \<or> hasSoftEdge (pn_Raw b) then lit F (8 / 10) else 1)"
  obtain conf adj where adj: "computeChainConfidenceWithHints F a b r (fmul F f soft) hints = (conf, adj)" by force
  let ?m = "min (pn_Strength a) (pn_Strength b)"
  have ch: "ch = new_chain (''chain:'' @ pn_PathID a @ '':'' @ pn_PathID b) [pn_PathID a, pn_PathID b] (objectiveFromChainContext b)
      (round_to F 1000 (clampFloat (fmul F ?m adj) 0 1)) conf (ep_Type (pn_Target b) @ '':'' @ ep_ID (pn_Target b)) (buildChainExplanation r) r"
    using assms(2) r adj by (simp add: chain_of_def Let_def soft_def)
  have "0 \<le> soft \<and> soft \<le> 1" using rnd_nonneg [OF assms(1)] rnd_le_1 [OF assms(1)] by (simp add: soft_def)
  then have "0 \<le> fmul F f soft \<and> fmul F f soft \<le> 1"
    using rule_factor_unit [OF assms(1) r(1)] assms(1) by (auto intro: fmul_nonneg fmul_le_1)
  then have a: "0 \<le> adj" "adj \<le> 1" using chain_factor_unit [OF assms(1) _ _ adj] by blast+
  have m: "0 \<le> ?m" using assms(3,4) by simp
  have "fmul F ?m adj \<le> fl_rnd F ?m" unfolding fmul_def by (rule rnd_mono [OF assms(1) mult_left_le [OF a(2) m]])
  moreover have "0 \<le> fmul F ?m adj" using assms(1) a m by (intro fmul_nonneg)
  ultimately have c: "0 \<le> clampFloat (fmul F ?m adj) 0 1" "clampFloat (fmul F ?m adj) 0 1 \<le> fl_rnd F ?m" "clampFloat (fmul F ?m adj) 0 1 \<le> 1"
    by (auto simp: clampFloat_def)
  then have "round_to F 1000 (clampFloat (fmul F ?m adj) 0 1) \<le> round_to F 1000 (fl_rnd F ?m)" using assms(1) by (intro round_to_mono) simp_all
  moreover have "0 \<le> round_to F 1000 (clampFloat (fmul F ?m adj) 0 1)" using round_to_unit [of F _ 1000] c assms(1) by simp
  moreover have "set (pn_Provides a) \<inter> set (pn_Requires b) \<noteq> {}"
  proof
    assume "set (pn_Provides a) \<inter> set (pn_Requires b) = {}"
    then have "filter (\<lambda>y. y \<in> set (pn_Provides a)) (pn_Requires b) = []" by (auto simp: filter_empty_conv)
    then show False using r(2) by (simp add: capabilityIntersection_def uniqStrings_def)
  qed
  ultimately show ?thesis unfolding ch by (simp add: joined_def new_chain_def r(1))
qed

lemma joined_core: "chain_core c = chain_core d \<Longrightarrow> joined F a b c \<longleftrightarrow> joined F a b d"
  by (simp add: chain_core_def joined_def)

subsection \<open>The limit per target\<close>

definition target_key :: "AttackChain \<Rightarrow> string" where
  "target_key ch = ac_Objective ch @ ''|'' @ ac_FinalTarget ch"

lemma limit_step: "limit_per_key m cnt (ch # chs) = (if cnt (target_key ch) \<ge> m then limit_per_key m cnt chs
   else ch # limit_per_key m (cnt(target_key ch := cnt (target_key ch) + 1)) chs)"
  by (simp add: target_key_def Let_def)

lemma limit_exact: "filter (\<lambda>c. target_key c = k) (limit_per_key m cnt chs) = take (nat (m - cnt k)) (filter (\<lambda>c. target_key c = k) chs)"
proof (induction chs arbitrary: cnt)
  case (Cons ch chs)
  have "nat (m - cnt k) = Suc (nat (m - (cnt k + 1)))" if "\<not> m \<le> cnt k" using that by simp
  then show ?case by (simp add: limit_step Cons del: limit_per_key.simps)
qed simp

lemma limit_subseq: "subseq (limit_per_key m cnt chs) chs"
proof (induction chs arbitrary: cnt)
  case (Cons ch chs)
  then show ?case by (simp add: limit_step list_emb_Cons del: limit_per_key.simps(2))
qed simp

lemma enforce_subseq: "subseq (enforceObjectiveLimit chs n) chs"
  by (simp add: enforceObjectiveLimit_def limit_subseq)

lemma enforce_members: "c \<in> set (enforceObjectiveLimit chs n) \<Longrightarrow> c \<in> set chs"
  using enforce_subseq [of chs n] by (auto elim: list_emb_set)

lemma enforce_exact: "filter (\<lambda>c. target_key c = k) (enforceObjectiveLimit chs 5) = take 5 (filter (\<lambda>c. target_key c = k) chs)"
  by (simp add: enforceObjectiveLimit_def limit_exact)

lemma enforce_keeps: "c \<in> set chs \<Longrightarrow> c \<in> set (enforceObjectiveLimit chs 5) \<or> length (filter (\<lambda>d. target_key d = target_key c) (enforceObjectiveLimit chs 5)) = 5"
proof -
  let ?f = "filter (\<lambda>d. target_key d = target_key c)"
  assume "c \<in> set chs"
  then have c: "c \<in> set (?f chs)" by simp
  show ?thesis
  proof (cases "length (?f chs) \<le> 5")
    case True
    then have "c \<in> set (?f (enforceObjectiveLimit chs 5))" using c by (simp add: enforce_exact)
    then show ?thesis by simp
  qed (simp add: enforce_exact)
qed

lemma target_key_core: "chain_core c = chain_core d \<Longrightarrow> target_key c = target_key d"
  by (simp add: chain_core_def target_key_def)

subsection \<open>Sound and complete\<close>

lemma found_chain_raw:
  assumes "ch \<in> set (found_chains F order ps hints)"
  shows "\<exists>c \<in> set (raw_chains F hints ps). chain_core c = chain_core ch"
proof -
  have "chain_core ch \<in> set (map (chain_core \<circ> fst \<circ> snd) (merged_entries (sort_chains (raw_chains F hints ps)) ps))"
    using assms found_cores [of F order ps hints] by (metis imageI set_map)
  then obtain e where "e \<in> set (merged_entries (sort_chains (raw_chains F hints ps)) ps)" "chain_core ch = chain_core (fst (snd e))" by auto
  then show ?thesis using merged_entries_of [of ps "sort_chains (raw_chains F hints ps)"] by (fastforce simp: entries_of_def)
qed

lemma core_member: "map chain_core xs = map chain_core ys \<Longrightarrow> x \<in> set xs \<Longrightarrow> \<exists>y \<in> set ys. chain_core y = chain_core x"
proof -
  assume eq: "map chain_core xs = map chain_core ys" and x: "x \<in> set xs"
  have "chain_core x \<in> set (map chain_core xs)" using x by simp
  then have "chain_core x \<in> set (map chain_core ys)" unfolding eq .
  then show ?thesis by auto
qed

lemma detect_found_core:
  assumes "ch \<in> set (DetectChainsWithHints F order paths hints)"
  shows "\<exists>c \<in> set (found_chains F order (normalizePaths F paths) hints). chain_core c = chain_core ch"
proof -
  have "ch \<in> set (selectPrimaryChains F (found_chains F order (normalizePaths F paths) hints))"
    using assms enforce_members by (simp add: detect_found enforce_members split: if_splits)
  then show ?thesis using core_member [OF primary_cores] by blast
qed

text \<open>
  C25. A reported chain joins two different paths of the input by a rule that matches them; the first provides a capability the second
  requires, the target and the objective are those of the second, and the chain is no stronger than the weaker path (up to the
  rounding of the arithmetic and to three decimals).
\<close>

theorem chains_join_two_paths:
  assumes "float_laws F" "ch \<in> set (DetectChainsWithHints F order paths hints)"
  shows "\<exists>i j. i \<noteq> j \<and> i < length (normalizePaths F paths) \<and> j < length (normalizePaths F paths) \<and>
    joined F (normalizePaths F paths ! i) (normalizePaths F paths ! j) ch"
proof -
  let ?n = "normalizePaths F paths"
  obtain d where "d \<in> set (found_chains F order ?n hints)" "chain_core d = chain_core ch" using detect_found_core [OF assms(2)] by blast
  then obtain c where c: "c \<in> set (raw_chains F hints ?n)" "chain_core c = chain_core ch" using found_chain_raw by metis
  obtain i j k where ij: "i < length ?n" "j < length ?n" "i \<noteq> j" "chain_of F hints (?n ! i) (?n ! j) = Some (k, c)"
    using raw_chain_pair [OF c(1)] by blast
  then have "joined F (?n ! i) (?n ! j) c"
    using normalize_strength_unit [OF nth_mem [OF ij(1)]] normalize_strength_unit [OF nth_mem [OF ij(2)]] by (intro chain_of_joined [OF assms(1) ij(4)]) auto
  then show ?thesis using ij joined_core [OF c(2)] by blast
qed

text \<open>Two paths for the witnesses: a pod that escapes to its node, and an account bound to a cluster role.\<close>

definition chain_path :: "string \<Rightarrow> string \<Rightarrow> (string \<times> string) list \<Rightarrow> AttackPath" where
  "chain_path pid description nodes = \<lparr>ap_PathID = pid, ap_Nodes = map (\<lambda>(t, i). \<lparr>an_ID = i, an_Type = t, an_Properties = []\<rparr>) nodes, ap_Edges = [],
     ap_TotalRisk = 8, ap_Difficulty = 5, ap_Impact = 8, ap_Length = 1, ap_Description = description, ap_EnrichedFromPCE = False, ap_Explainability = None\<rparr>"

definition two_paths :: "AttackPath list" where
  "two_paths = [chain_path ''e'' ''ESCAPE_PATH'' [(NodeTypePod, ''pod:p''), (NodeTypeNode, ''node:n'')],
     chain_path ''r'' ''PRIV_ESC_PATH'' [(NodeTypeServiceAccount, ''sa:d/s''), (NodeTypeClusterRole, ''role:cluster-admin'')]]"

abbreviation two_path_chains :: "AttackChain list" where
  "two_path_chains \<equiv> DetectChainsWithHints exact_arith (\<lambda>vs. vs) two_paths DefaultHardeningHints"

lemma two_path_chains_computed: "map (\<lambda>c. (ac_Paths c, ac_Objective c, ac_Type c, ac_Primary c)) two_path_chains =
   [([''e'', ''r''], ''CLUSTER_TAKEOVER'', ''ESCAPE_TO_PRIV_ESC'', True)]"
  by code_simp

theorem chains_join_two_paths_witness:
  "length two_path_chains = 1 \<and> (\<exists>i j. i \<noteq> j \<and> i < length (normalizePaths exact_arith two_paths) \<and> j < length (normalizePaths exact_arith two_paths) \<and>
    joined exact_arith (normalizePaths exact_arith two_paths ! i) (normalizePaths exact_arith two_paths ! j) (hd two_path_chains))"
proof -
  have "length two_path_chains = 1" using arg_cong [OF two_path_chains_computed, of length] by simp
  then show ?thesis using chains_join_two_paths [OF exact_arith_laws, of "hd two_path_chains" "\<lambda>vs. vs" two_paths DefaultHardeningHints]
    by (cases two_path_chains) auto
qed

text \<open>Path identifiers that keep the keys of pairs apart.\<close>

definition plain_ids :: "pathNormalized list \<Rightarrow> bool" where
  "plain_ids ps \<longleftrightarrow> distinct (map pn_PathID ps) \<and> (\<forall>p \<in> set ps. CHR ''|'' \<notin> set (pn_PathID p))"

lemma bar_split: "a @ CHR ''|'' # x = b @ CHR ''|'' # y \<Longrightarrow> CHR ''|'' \<notin> set a \<Longrightarrow> CHR ''|'' \<notin> set b \<Longrightarrow> a = b \<and> x = y"
  by (rule separated_inj)

lemma chain_key_form: "chain_of F hints a b = Some (k, c) \<Longrightarrow> \<exists>t. k = pn_PathID a @ CHR ''|'' # pn_PathID b @ CHR ''|'' # t"
  by (auto simp: chain_of_def Let_def split: option.splits if_splits prod.splits)

lemma chain_keys_injective:
  assumes "plain_ids ps" "i < length ps" "j < length ps" "i' < length ps" "j' < length ps"
    "chain_of F hints (ps ! i) (ps ! j) = Some (k, c)" "chain_of F hints (ps ! i') (ps ! j') = Some (k, c')"
  shows "i = i' \<and> j = j'"
proof -
  obtain t t' where "k = pn_PathID (ps ! i) @ CHR ''|'' # pn_PathID (ps ! j) @ CHR ''|'' # t" "k = pn_PathID (ps ! i') @ CHR ''|'' # pn_PathID (ps ! j') @ CHR ''|'' # t'"
    using chain_key_form assms(6,7) by blast
  then have "pn_PathID (ps ! i) @ CHR ''|'' # (pn_PathID (ps ! j) @ CHR ''|'' # t) = pn_PathID (ps ! i') @ CHR ''|'' # (pn_PathID (ps ! j') @ CHR ''|'' # t')" by simp
  moreover have "CHR ''|'' \<notin> set (pn_PathID (ps ! m))" if "m < length ps" for m using assms(1) nth_mem [OF that] by (simp add: plain_ids_def)
  ultimately have "pn_PathID (ps ! i) = pn_PathID (ps ! i')" "pn_PathID (ps ! j) = pn_PathID (ps ! j')"
    using bar_split assms(2-5) by metis+
  moreover have "m = m'" if "m < length ps" "m' < length ps" "pn_PathID (ps ! m) = pn_PathID (ps ! m')" for m m'
    using that assms(1) nth_eq_iff_index_eq [of "map pn_PathID ps" m m'] by (simp add: plain_ids_def)
  ultimately show ?thesis using assms(2-5) by blast
qed

end
