(* ===== verification/Attack_Chain_Limit.thy ===== *)
theory Attack_Chain_Limit
  imports Attack_Chain_Report
begin

section \<open>What the limit on attack chains keeps\<close>

text \<open>
  Every pair of paths that a rule joins is reported, or a chain with the same story that is at least as strong, or five chains for the
  same objective and target that are at least as strong; each objective has at most one primary chain, the best scored one.
\<close>

subsection \<open>Sorted lists of chains\<close>

lemma sorted_wrt_subseq: "subseq xs ys \<Longrightarrow> sorted_wrt R ys \<Longrightarrow> sorted_wrt R xs"
proof (induction xs ys rule: list_emb.induct)
  case (list_emb_Cons2 x y xs ys)
  then show ?case by (auto dest: list_emb_set)
qed auto

lemma distinct_subseq: "subseq xs ys \<Longrightarrow> distinct ys \<Longrightarrow> distinct xs"
  by (auto simp: subseq_conv_nths)

lemma subseq_snoc: "subseq xs ys \<Longrightarrow> subseq (xs @ [c]) (ys @ [c])" "subseq xs ys \<Longrightarrow> subseq xs (ys @ [c])"
  by (auto intro: subseq_rev_drop_many)

text \<open>Bars separate the parts of the keys of chains; objectives never contain one, and targets do not when the node IDs do not.\<close>

definition bar_free :: "string \<Rightarrow> bool" where "bar_free s \<longleftrightarrow> CHR ''|'' \<notin> set s"

lemma objective_bar_free: "bar_free (objectiveFromChainContext b)"
  by (simp add: bar_free_def objectiveFromChainContext_def objectiveFromSemanticCaps_def classifyObjectiveByRole_def Let_def)

definition plain_targets :: "pathNormalized list \<Rightarrow> bool" where
  "plain_targets ps \<longleftrightarrow> (\<forall>p \<in> set ps. bar_free (ep_Type (pn_Target p)) \<and> bar_free (ep_ID (pn_Target p)))"

definition bar_free_chain :: "AttackChain \<Rightarrow> bool" where
  "bar_free_chain c \<longleftrightarrow> bar_free (ac_Objective c) \<and> bar_free (ac_FinalTarget c)"

lemma chain_of_fields: "chain_of F hints a b = Some (k, c) \<Longrightarrow> ac_Objective c = objectiveFromChainContext b \<and>
    ac_FinalTarget c = ep_Type (pn_Target b) @ '':'' @ ep_ID (pn_Target b) \<and> \<not> ac_Primary c"
  by (auto simp: chain_of_def new_chain_def Let_def split: option.splits if_splits prod.splits)

lemma raw_chain_bar_free: "plain_targets ps \<Longrightarrow> c \<in> set (raw_chains F hints ps) \<Longrightarrow> bar_free_chain c"
proof -
  assume ps: "plain_targets ps" and c: "c \<in> set (raw_chains F hints ps)"
  obtain i j k where "j < length ps" "chain_of F hints (ps ! i) (ps ! j) = Some (k, c)" using raw_chain_pair [OF c] by blast
  then show ?thesis using chain_of_fields objective_bar_free ps nth_mem [of j ps]
    by (simp add: bar_free_chain_def plain_targets_def) (simp add: bar_free_def)
qed

lemma raw_chain_not_primary: "c \<in> set (raw_chains F hints ps) \<Longrightarrow> \<not> ac_Primary c"
  using raw_chain_pair chain_of_fields by blast

definition same_target :: "AttackChain \<Rightarrow> AttackChain \<Rightarrow> bool" where
  "same_target c d \<longleftrightarrow> ac_Objective c = ac_Objective d \<and> ac_FinalTarget c = ac_FinalTarget d"

lemma target_key_same: "bar_free_chain c \<Longrightarrow> bar_free_chain d \<Longrightarrow> target_key c = target_key d \<longleftrightarrow> same_target c d"
  using bar_split [of "ac_Objective c" "ac_FinalTarget c" "ac_Objective d" "ac_FinalTarget d"]
  by (auto simp: target_key_def same_target_def bar_free_chain_def bar_free_def)

lemma semantic_key_same: "bar_free_chain c \<Longrightarrow> bar_free_chain d \<Longrightarrow> semanticChainKey c ps = semanticChainKey d ps \<Longrightarrow> same_target c d"
  using bar_split [of "ac_Objective c" "ac_FinalTarget c @ ''|'' @ ac_Type c @ ''|'' @ normalizedChainStory c ps"
      "ac_Objective d" "ac_FinalTarget d @ ''|'' @ ac_Type d @ ''|'' @ normalizedChainStory d ps"]
    bar_split [of "ac_FinalTarget c" "ac_Type c @ ''|'' @ normalizedChainStory c ps" "ac_FinalTarget d" "ac_Type d @ ''|'' @ normalizedChainStory d ps"]
  by (auto simp: semanticChainKey_def same_target_def bar_free_chain_def bar_free_def)

text \<open>Chains of one target in descending strength.\<close>

definition descending :: "AttackChain \<Rightarrow> AttackChain \<Rightarrow> bool" where
  "descending c d \<longleftrightarrow> (same_target c d \<longrightarrow> ac_ChainStrength d \<le> ac_ChainStrength c)"

lemma sort_chains_descending: "sorted_wrt descending (sort_chains chs)"
proof -
  have "sorted (map (\<lambda>c. (ac_Objective c, ac_FinalTarget c, - ac_ChainStrength c)) (sort_chains chs))" unfolding sort_chains_def by (rule sorted_sort_key)
  then have "sorted_wrt (\<lambda>c d. (ac_Objective c, ac_FinalTarget c, - ac_ChainStrength c) \<le> (ac_Objective d, ac_FinalTarget d, - ac_ChainStrength d)) (sort_chains chs)"
    by (simp add: sorted_map)
  then show ?thesis by (rule sorted_wrt_mono_rel [rotated]) (auto simp: descending_def same_target_def less_eq_prod_def)
qed

text \<open>In a descending list the first chain of a story is the strongest, so merging keeps it.\<close>

lemma merge_keeps_first: "(\<And>k' rep v. (k', rep, v) \<in> set es \<Longrightarrow> k' = k \<Longrightarrow> \<not> ac_ChainStrength ch > ac_ChainStrength rep) \<Longrightarrow>
   map (fst \<circ> snd) (merge_chain k ns ch es) = (if k \<in> fst ` set es then map (fst \<circ> snd) es else map (fst \<circ> snd) es @ [ch])"
proof (induction es)
  case (Cons e es)
  obtain k' rep v where e: "e = (k', rep, v)" by (cases e) auto
  show ?case
  proof (cases "k' = k")
    case True
    then show ?thesis using Cons.prems [of k' rep v] by (simp add: e)
  next
    case False
    then show ?thesis using Cons.IH Cons.prems by (auto simp: e)
  qed
qed simp

lemma merged_subseq:
  assumes "sorted_wrt descending chs" "\<forall>c \<in> set chs. bar_free_chain c"
  shows "subseq (map (fst \<circ> snd) (merged_entries chs ps)) chs"
  using assms
proof (induction chs rule: rev_induct)
  case Nil
  show ?case by (simp add: merged_entries_def)
next
  case (snoc ch chs)
  let ?es = "merged_entries chs ps"
  have ih: "subseq (map (fst \<circ> snd) ?es) chs" using snoc.IH snoc.prems unfolding sorted_wrt_append comp_def by simp
  have "\<not> ac_ChainStrength ch > ac_ChainStrength rep" if "(k', rep, v) \<in> set ?es" "k' = semanticChainKey ch ps" for k' rep v
  proof -
    have "rep \<in> set chs" "semanticChainKey rep ps = semanticChainKey ch ps"
      using that merged_entries_of [of ps chs] by (auto simp: entries_of_def)
    then show ?thesis using snoc.prems semantic_key_same [of rep ch ps] by (auto simp: sorted_wrt_append descending_def)
  qed
  then have "map (fst \<circ> snd) (merged_entries (chs @ [ch]) ps) = (if semanticChainKey ch ps \<in> fst ` set ?es
      then map (fst \<circ> snd) ?es else map (fst \<circ> snd) ?es @ [ch])"
    using merge_keeps_first [of ?es "semanticChainKey ch ps" ch "intermediateNodeIDs ch ps"] by (auto simp: merged_entries_def)
  note eq = this
  show ?case unfolding eq using subseq_snoc(1) [OF ih, of ch] subseq_snoc(2) [OF ih, of ch] by (cases "semanticChainKey ch ps \<in> fst ` set ?es") (simp_all only: if_True if_False)
qed

lemma core_descending: "chain_core c = chain_core c' \<Longrightarrow> chain_core d = chain_core d' \<Longrightarrow> descending c d = descending c' d'"
  by (simp add: chain_core_def descending_def same_target_def)

lemma core_sorted:
  assumes "map chain_core xs = map chain_core ys" "sorted_wrt descending xs"
  shows "sorted_wrt descending ys"
proof -
  have n: "length xs = length ys" using map_eq_imp_length_eq [OF assms(1)] .
  have "chain_core (xs ! i) = chain_core (ys ! i)" if "i < length ys" for i using arg_cong [OF assms(1), of "\<lambda>zs. zs ! i"] that n by simp
  then show ?thesis using assms(2) core_descending n unfolding sorted_wrt_iff_nth_less by (metis order.strict_trans)
qed

lemma found_descending:
  assumes "plain_targets ps"
  shows "sorted_wrt descending (selectPrimaryChains F (found_chains F order ps hints))"
proof -
  let ?S = "sort_chains (raw_chains F hints ps)"
  have "sorted_wrt descending (map (fst \<circ> snd) (merged_entries ?S ps))"
    using raw_chain_bar_free [OF assms] by (intro sorted_wrt_subseq [OF merged_subseq] sort_chains_descending) simp
  moreover have "map chain_core (map (fst \<circ> snd) (merged_entries ?S ps)) = map chain_core (selectPrimaryChains F (found_chains F order ps hints))"
    by (simp add: found_cores comp_assoc)
  ultimately show ?thesis by (rule core_sorted [rotated])
qed

subsection \<open>Nothing stronger is lost\<close>

lemma raw_chains_all:
  assumes "plain_ids ps" "i < length ps" "j < length ps" "i \<noteq> j" "chain_of F hints (ps ! i) (ps ! j) = Some (k, c)"
  shows "c \<in> set (raw_chains F hints ps)"
proof -
  let ?n = "length ps"
  let ?prs = "concat (map (\<lambda>i. map (\<lambda>j. (i, j)) (filter (\<lambda>j. i \<noteq> j) [0..<?n])) [0..<?n])"
  let ?f = "\<lambda>(i, j). chain_of F hints (ps ! i) (ps ! j)"
  have kxs: "List.map_filter (\<lambda>(a, b). chain_of F hints a b) (ordered_pairs ps) = map (the \<circ> ?f) (filter (\<lambda>q. ?f q \<noteq> None) ?prs)"
    by (simp add: ordered_pairs_def List.map_filter_def map_concat filter_concat filter_map comp_def case_prod_unfold)
  have rows: "a = b" if "a < ?n" "b < ?n" "map (Pair a) (filter (\<lambda>j. a \<noteq> j) [0..<?n]) = map (Pair b) (filter (\<lambda>j. b \<noteq> j) [0..<?n])" for a b
  proof (rule ccontr)
    assume "a \<noteq> b"
    then have "(a, b) \<in> set (map (Pair a) (filter (\<lambda>j. a \<noteq> j) [0..<?n]))" using that(2) by simp
    then show False using \<open>a \<noteq> b\<close> unfolding that(3) by auto
  qed
  have dprs: "distinct ?prs"
    by (intro distinct_concat) (auto simp: distinct_map inj_on_def intro: rows)
  have inset: "set ?prs = {(i, j). i < ?n \<and> j < ?n \<and> i \<noteq> j}" by auto
  have inj: "inj_on (fst \<circ> (the \<circ> ?f)) (set (filter (\<lambda>q. ?f q \<noteq> None) ?prs))"
  proof (rule inj_onI)
    fix q q' assume "q \<in> set (filter (\<lambda>q. ?f q \<noteq> None) ?prs)" "q' \<in> set (filter (\<lambda>q. ?f q \<noteq> None) ?prs)"
      "(fst \<circ> (the \<circ> ?f)) q = (fst \<circ> (the \<circ> ?f)) q'"
    then show "q = q'" using chain_keys_injective [OF assms(1), of "fst q" "snd q" "fst q'" "snd q'" F hints]
      unfolding set_filter inset by (cases q; cases q') auto
  qed
  have "distinct (map fst (map (the \<circ> ?f) (filter (\<lambda>q. ?f q \<noteq> None) ?prs)))"
    unfolding map_map distinct_map using inj dprs by simp
  then have "raw_chains F hints ps = map snd (map (the \<circ> ?f) (filter (\<lambda>q. ?f q \<noteq> None) ?prs))"
    unfolding raw_chains_def kxs by (rule first_of_key_distinct) simp
  moreover have "(k, c) \<in> (the \<circ> ?f) ` set (filter (\<lambda>q. ?f q \<noteq> None) ?prs)"
    using assms by (intro image_eqI [of _ _ "(i, j)"]) (auto simp: inset)
  ultimately show ?thesis by force
qed

lemma found_has_story:
  assumes "c \<in> set (raw_chains F hints ps)"
  shows "\<exists>d \<in> set (selectPrimaryChains F (found_chains F order ps hints)). semanticChainKey d ps = semanticChainKey c ps \<and> ac_ChainStrength c \<le> ac_ChainStrength d"
proof -
  let ?S = "sort_chains (raw_chains F hints ps)"
  have "c \<in> set ?S" using assms by simp
  then obtain k rep v where e: "(k, rep, v) \<in> set (merged_entries ?S ps)" "k = semanticChainKey c ps" "k = semanticChainKey rep ps"
    "ac_ChainStrength c \<le> ac_ChainStrength rep"
    using merged_entries_of [of ps ?S] unfolding entries_of_def by fast
  have "map chain_core (map (fst \<circ> snd) (merged_entries ?S ps)) = map chain_core (selectPrimaryChains F (found_chains F order ps hints))"
    by (simp add: found_cores comp_assoc)
  moreover have "rep \<in> set (map (fst \<circ> snd) (merged_entries ?S ps))" using e(1) by force
  ultimately obtain d where "d \<in> set (selectPrimaryChains F (found_chains F order ps hints))" "chain_core d = chain_core rep"
    using core_member by blast
  then show ?thesis using e semantic_key_core [of d rep ps] chain_core_fields [of d rep] by (intro bexI [of _ d]) auto
qed

lemma take_descending: "sorted_wrt R xs \<Longrightarrow> x \<in> set xs \<Longrightarrow> x \<notin> set (take n xs) \<Longrightarrow> y \<in> set (take n xs) \<Longrightarrow> R y x"
  using sorted_wrt_append [of R "take n xs" "drop n xs"] by (metis Un_iff append_take_drop_id set_append)

lemma limit_keeps_strongest:
  assumes "sorted_wrt descending chs" "\<forall>c \<in> set chs. bar_free_chain c" "d \<in> set chs" "d \<notin> set (enforceObjectiveLimit chs 5)"
  shows "length (filter (same_target d) (enforceObjectiveLimit chs 5)) = 5 \<and>
    (\<forall>e \<in> set (filter (same_target d) (enforceObjectiveLimit chs 5)). ac_ChainStrength d \<le> ac_ChainStrength e)"
proof -
  let ?fs = "filter (\<lambda>c. target_key c = target_key d) chs"
  have same: "filter (same_target d) (enforceObjectiveLimit chs 5) = take 5 ?fs"
    unfolding enforce_exact [symmetric]
    using assms(2,3) target_key_same [of d] enforce_members by (intro filter_cong) (auto simp: eq_commute)
  have d: "d \<in> set ?fs" "d \<notin> set (take 5 ?fs)" using assms(3,4) unfolding enforce_exact [symmetric] by simp_all
  have "length (take 5 ?fs) = 5"
  proof (rule ccontr)
    assume "length (take 5 ?fs) \<noteq> 5"
    then have "take 5 ?fs = ?fs" by simp
    then show False using d by simp
  qed
  moreover have "ac_ChainStrength d \<le> ac_ChainStrength e" if e: "e \<in> set (take 5 ?fs)" for e
  proof -
    have "descending e d" using take_descending [OF sorted_wrt_filter [OF assms(1)] d e] .
    moreover have "e \<in> set ?fs" using e by (rule in_set_takeD)
    ultimately show ?thesis using target_key_same [of e d] assms(2,3) by (auto simp: descending_def)
  qed
  ultimately show ?thesis unfolding same by blast
qed

lemma found_bar_free:
  assumes "plain_targets ps" "d \<in> set (selectPrimaryChains F (found_chains F order ps hints))"
  shows "bar_free_chain d"
proof -
  obtain d' where "d' \<in> set (found_chains F order ps hints)" "chain_core d' = chain_core d" using core_member [OF primary_cores assms(2)] by blast
  then obtain c where c: "c \<in> set (raw_chains F hints ps)" "chain_core c = chain_core d" using found_chain_raw by metis
  then show ?thesis using raw_chain_bar_free [OF assms(1) c(1)] chain_core_fields [OF c(2)] by (simp add: bar_free_chain_def)
qed

text \<open>
  C26. No joinable pair is lost. When the IDs of paths are distinct and no ID contains a bar, a chain that a rule forms of two different
  paths is reported, or a chain with the same story at least as strong as it is, or five chains for the same objective and target are
  reported, each at least as strong as it is.
\<close>

theorem no_stronger_chain_is_lost:
  assumes "plain_ids (normalizePaths F paths)" "plain_targets (normalizePaths F paths)"
    "i < length (normalizePaths F paths)" "j < length (normalizePaths F paths)" "i \<noteq> j"
    "chain_of F hints (normalizePaths F paths ! i) (normalizePaths F paths ! j) = Some (k, c)"
  shows "(\<exists>d \<in> set (DetectChainsWithHints F order paths hints).
        semanticChainKey d (normalizePaths F paths) = semanticChainKey c (normalizePaths F paths) \<and> ac_ChainStrength c \<le> ac_ChainStrength d) \<or>
     length (filter (same_target c) (DetectChainsWithHints F order paths hints)) = 5 \<and>
     (\<forall>e \<in> set (filter (same_target c) (DetectChainsWithHints F order paths hints)). ac_ChainStrength c \<le> ac_ChainStrength e)"
proof -
  let ?ps = "normalizePaths F paths"
  let ?all = "selectPrimaryChains F (found_chains F order ?ps hints)"
  have report: "DetectChainsWithHints F order paths hints = enforceObjectiveLimit ?all 5"
    using assms(3-5) by (simp add: detect_found maxChainsPerObjective_def)
  have raw: "c \<in> set (raw_chains F hints ?ps)" using raw_chains_all [OF assms(1,3,4,5,6)] .
  obtain d where d: "d \<in> set ?all" "semanticChainKey d ?ps = semanticChainKey c ?ps" "ac_ChainStrength c \<le> ac_ChainStrength d"
    using found_has_story [OF raw] by blast
  have "same_target d c" using semantic_key_same [OF found_bar_free [OF assms(2) d(1)] raw_chain_bar_free [OF assms(2) raw] d(2)] .
  then have st: "same_target c = same_target d" by (auto simp: same_target_def fun_eq_iff)
  show ?thesis
  proof (cases "d \<in> set (enforceObjectiveLimit ?all 5)")
    case False
    then show ?thesis using limit_keeps_strongest [OF found_descending [OF assms(2)] _ d(1)] found_bar_free [OF assms(2)] d(3)
      unfolding report st by fastforce
  qed (use d report in auto)
qed

lemma two_paths_plain: "plain_ids (normalizePaths exact_arith two_paths) \<and> plain_targets (normalizePaths exact_arith two_paths) \<and>
   length (normalizePaths exact_arith two_paths) = 2"
  by code_simp

lemma two_paths_join: "chain_of exact_arith DefaultHardeningHints (normalizePaths exact_arith two_paths ! 0) (normalizePaths exact_arith two_paths ! 1) \<noteq> None"
  by code_simp

theorem no_stronger_chain_is_lost_witness:
  "\<exists>k c. chain_of exact_arith DefaultHardeningHints (normalizePaths exact_arith two_paths ! 0) (normalizePaths exact_arith two_paths ! 1) = Some (k, c) \<and>
     (\<exists>d \<in> set two_path_chains. semanticChainKey d (normalizePaths exact_arith two_paths) = semanticChainKey c (normalizePaths exact_arith two_paths) \<and>
        ac_ChainStrength c \<le> ac_ChainStrength d)"
proof -
  obtain k c where kc: "chain_of exact_arith DefaultHardeningHints (normalizePaths exact_arith two_paths ! 0) (normalizePaths exact_arith two_paths ! 1) = Some (k, c)"
    using two_paths_join by auto
  have "length two_path_chains = 1" using arg_cong [OF two_path_chains_computed, of length] by simp
  then have "length (filter (same_target c) two_path_chains) \<noteq> 5" using length_filter_le [of "same_target c" two_path_chains] by simp
  then show ?thesis using no_stronger_chain_is_lost [OF _ _ _ _ _ kc, of "\<lambda>vs. vs"] two_paths_plain kc by (intro exI [of _ k] exI [of _ c]) simp
qed

subsection \<open>Primary chains\<close>

definition best_step :: "('i \<Rightarrow> rat) \<Rightarrow> 'i option \<Rightarrow> 'i \<Rightarrow> 'i option" where
  "best_step s best i = (case best of None \<Rightarrow> Some i | Some j \<Rightarrow> if s i > s j then Some i else best)"

lemma best_step_max: "(case foldl (best_step s) None idx of None \<Rightarrow> idx = [] | Some i \<Rightarrow> i \<in> set idx \<and> (\<forall>j \<in> set idx. s j \<le> s i))"
  by (induction idx rule: rev_induct) (auto simp: best_step_def split: option.splits)

lemma best_of_objective_max:
  "best_of_objective F chs ob = Some i \<Longrightarrow> i < length chs \<and> ac_Objective (chs ! i) = ob \<and>
     (\<forall>j < length chs. ac_Objective (chs ! j) = ob \<longrightarrow> primaryScore F (chs ! j) \<le> primaryScore F (chs ! i))"
  using best_step_max [where s = "\<lambda>i. primaryScore F (chs ! i)" and idx = "filter (\<lambda>i. ac_Objective (chs ! i) = ob) [0..<length chs]"]
  unfolding best_of_objective_def best_step_def [abs_def] by simp

lemma primary_score_flag [simp]: "primaryScore F (c\<lparr>ac_Primary := x\<rparr>) = primaryScore F c"
  by (simp add: primaryScore_def Let_def)

lemma select_nth:
  assumes "\<forall>c \<in> set chs. \<not> ac_Primary c" "i < length chs"
  shows "ac_Primary (selectPrimaryChains F chs ! i) \<longleftrightarrow> best_of_objective F chs (ac_Objective (chs ! i)) = Some i"
    "ac_Objective (selectPrimaryChains F chs ! i) = ac_Objective (chs ! i)"
    "primaryScore F (selectPrimaryChains F chs ! i) = primaryScore F (chs ! i)"
  using assms by (simp_all add: selectPrimaryChains_def)

lemma length_select [simp]: "length (selectPrimaryChains F chs) = length chs"
  by (simp add: selectPrimaryChains_def)

lemma primary_best:
  assumes "\<forall>c \<in> set chs. \<not> ac_Primary c" "c \<in> set (selectPrimaryChains F chs)" "ac_Primary c" "d \<in> set (selectPrimaryChains F chs)" "ac_Objective d = ac_Objective c"
  shows "primaryScore F d \<le> primaryScore F c"
proof -
  obtain i where i: "i < length chs" "c = selectPrimaryChains F chs ! i" using assms(2) unfolding in_set_conv_nth length_select by blast
  obtain j where j: "j < length chs" "d = selectPrimaryChains F chs ! j" using assms(4) unfolding in_set_conv_nth length_select by blast
  have "best_of_objective F chs (ac_Objective (chs ! i)) = Some i" using assms(3) select_nth(1) [OF assms(1) i(1)] i(2) by simp
  note m = best_of_objective_max [OF this]
  have "ac_Objective (chs ! j) = ac_Objective (chs ! i)"
    using assms(5) unfolding i(2) j(2) select_nth(2) [OF assms(1) i(1)] select_nth(2) [OF assms(1) j(1)] .
  then show ?thesis unfolding i(2) j(2) select_nth(3) [OF assms(1) i(1)] select_nth(3) [OF assms(1) j(1)] using m j(1) by blast
qed

lemma primary_one:
  assumes "\<forall>c \<in> set chs. \<not> ac_Primary c"
  shows "length (filter (\<lambda>c. ac_Primary c \<and> ac_Objective c = ob) (selectPrimaryChains F chs)) \<le> 1"
proof -
  let ?s = "selectPrimaryChains F chs"
  have "length (filter (\<lambda>c. ac_Primary c \<and> ac_Objective c = ob) ?s) = card {i. i < length ?s \<and> ac_Primary (?s ! i) \<and> ac_Objective (?s ! i) = ob}"
    by (rule length_filter_conv_card)
  also have "\<dots> \<le> card (set_option (best_of_objective F chs ob))"
    using select_nth(1,2) [OF assms] by (intro card_mono) auto
  also have "\<dots> \<le> 1" by (cases "best_of_objective F chs ob") simp_all
  finally show ?thesis .
qed

lemma found_not_primary: "c \<in> set (found_chains F order ps hints) \<Longrightarrow> \<not> ac_Primary c"
proof -
  assume "c \<in> set (found_chains F order ps hints)"
  then obtain k rep v where e: "(k, rep, v) \<in> set (merged_entries (sort_chains (raw_chains F hints ps)) ps)" "ac_Primary c = ac_Primary rep"
    by (auto simp: found_chains_def deduplicateChainsSemantically_def split: option.splits if_splits)
  then have "rep \<in> set (raw_chains F hints ps)" using merged_entries_of [of ps "sort_chains (raw_chains F hints ps)"] by (auto simp: entries_of_def)
  then show ?thesis using raw_chain_not_primary e(2) by simp
qed

lemma found_keys: "map (\<lambda>d. semanticChainKey d ps) (selectPrimaryChains F (found_chains F order ps hints)) = map fst (merged_entries (sort_chains (raw_chains F hints ps)) ps)"
proof -
  let ?es = "merged_entries (sort_chains (raw_chains F hints ps)) ps"
  let ?sel = "selectPrimaryChains F (found_chains F order ps hints)"
  have cores: "map chain_core ?sel = map (chain_core \<circ> fst \<circ> snd) ?es" by (simp add: found_cores)
  have n: "length ?sel = length ?es" using map_eq_imp_length_eq [OF cores] .
  have "semanticChainKey (?sel ! i) ps = fst (?es ! i)" if i: "i < length ?es" for i
  proof -
    have "chain_core (?sel ! i) = chain_core (fst (snd (?es ! i)))" using arg_cong [OF cores, of "\<lambda>zs. zs ! i"] i n by (simp del: primary_cores)
    moreover have "fst (?es ! i) = semanticChainKey (fst (snd (?es ! i))) ps"
      using merged_entries_of [of ps "sort_chains (raw_chains F hints ps)"] nth_mem [OF i] by (auto simp: entries_of_def)
    ultimately show ?thesis using semantic_key_core by metis
  qed
  then show ?thesis using n by (intro nth_equalityI) simp_all
qed

text \<open>
  C27. The report is bounded and has no repeated story: at most five chains per objective and target, each with a story of its own; an
  objective has at most one primary chain, and no reported chain of its objective scores higher.
\<close>

theorem report_bounded_with_best_primaries:
  shows "length (filter (\<lambda>c. target_key c = k) (DetectChainsWithHints F order paths hints)) \<le> 5 \<and>
    distinct (map (\<lambda>d. semanticChainKey d (normalizePaths F paths)) (DetectChainsWithHints F order paths hints)) \<and>
    length (filter (\<lambda>c. ac_Primary c \<and> ac_Objective c = ob) (DetectChainsWithHints F order paths hints)) \<le> 1 \<and>
    list_all (\<lambda>c. list_all (\<lambda>d. primaryScore F d \<le> primaryScore F c)
        (filter (\<lambda>d. ac_Objective d = ac_Objective c) (DetectChainsWithHints F order paths hints)))
      (filter ac_Primary (DetectChainsWithHints F order paths hints))"
proof (cases "length (normalizePaths F paths) < 2")
  case False
  let ?ps = "normalizePaths F paths"
  let ?chs = "found_chains F order ?ps hints"
  let ?all = "selectPrimaryChains F ?chs"
  have report: "DetectChainsWithHints F order paths hints = enforceObjectiveLimit ?all 5"
    using False by (simp add: detect_found maxChainsPerObjective_def)
  have np: "\<forall>c \<in> set ?chs. \<not> ac_Primary c" using found_not_primary by blast
  have "length (filter (\<lambda>c. target_key c = k) (enforceObjectiveLimit ?all 5)) \<le> 5" unfolding enforce_exact by simp
  moreover have "distinct (map (\<lambda>d. semanticChainKey d ?ps) (enforceObjectiveLimit ?all 5))"
  proof -
    have "distinct (map (\<lambda>d. semanticChainKey d ?ps) ?all)"
      unfolding found_keys using merged_entries_of [of ?ps "sort_chains (raw_chains F hints ?ps)"] by (simp add: entries_of_def)
    then show ?thesis by (rule distinct_subseq [OF subseq_map [OF enforce_subseq]])
  qed
  moreover have "length (filter (\<lambda>c. ac_Primary c \<and> ac_Objective c = ob) (enforceObjectiveLimit ?all 5)) \<le> 1"
    using list_emb_length [OF subseq_filter [OF enforce_subseq [of ?all 5], of "\<lambda>c. ac_Primary c \<and> ac_Objective c = ob"]] primary_one [OF np, of ob F]
    by (rule le_trans)
  moreover have "list_all (\<lambda>c. list_all (\<lambda>d. primaryScore F d \<le> primaryScore F c) (filter (\<lambda>d. ac_Objective d = ac_Objective c) (enforceObjectiveLimit ?all 5)))
      (filter ac_Primary (enforceObjectiveLimit ?all 5))"
    by (auto simp: list_all_iff intro!: primary_best [OF np] dest: enforce_members)
  ultimately show ?thesis unfolding report by blast
qed (simp add: detect_found)

text \<open>The limit counts targets, the primary chain is per objective, and the limit runs last: it can cut the primary chain.\<close>

definition scored_chain :: "nat \<Rightarrow> rat \<Rightarrow> AttackChain" where
  "scored_chain n r = (new_chain (Itoa n) [] ''CLUSTER_TAKEOVER'' r ''high'' ''CLUSTER_ROLE:admin'' [] [])\<lparr>ac_Realism := r, ac_VariantSpread := 1\<rparr>"

definition six_chains :: "AttackChain list" where
  "six_chains = map (\<lambda>i. scored_chain i (if i = 5 then 1 else 0)) [0..<6]"

lemma six_nth: "i < 6 \<Longrightarrow> six_chains ! i = scored_chain i (if i = 5 then 1 else 0)" "length six_chains = 6"
  by (simp_all add: six_chains_def)

lemma scored_fields: "ac_Objective (scored_chain n r) = ''CLUSTER_TAKEOVER''" "ac_FinalTarget (scored_chain n r) = ''CLUSTER_ROLE:admin''" "\<not> ac_Primary (scored_chain n r)"
  by (simp_all add: scored_chain_def new_chain_def)

lemma score_values: "primaryScore exact_arith (scored_chain n 0) = 0" "primaryScore exact_arith (scored_chain n 1) > 0"
  by (simp add: primaryScore_def scored_chain_def new_chain_def, code_simp)

lemma six_best: "best_of_objective exact_arith six_chains ''CLUSTER_TAKEOVER'' = Some 5"
proof -
  have "[0..<6] = [0, 1, 2, 3, 4, 5::nat]" by (simp add: upt_rec)
  then show ?thesis by (simp add: best_of_objective_def six_nth score_values) (simp add: scored_fields)
qed

lemma six_selected:
  assumes "i < 6"
  shows "ac_Primary (selectPrimaryChains exact_arith six_chains ! i) \<longleftrightarrow> i = 5"
    "target_key (selectPrimaryChains exact_arith six_chains ! i) = ''CLUSTER_TAKEOVER|CLUSTER_ROLE:admin''"
  using assms by (auto simp: selectPrimaryChains_def six_nth scored_fields six_best target_key_def)

lemma limit_can_cut_the_primary:
  "list_ex ac_Primary (selectPrimaryChains exact_arith six_chains) \<and>
   \<not> list_ex ac_Primary (enforceObjectiveLimit (selectPrimaryChains exact_arith six_chains) maxChainsPerObjective)"
proof
  let ?sel = "selectPrimaryChains exact_arith six_chains"
  show "list_ex ac_Primary ?sel" unfolding list_ex_length using six_selected(1) [of 5] by (intro exI [of _ 5]) (simp add: six_nth)
  have keys: "\<forall>c \<in> set ?sel. target_key c = ''CLUSTER_TAKEOVER|CLUSTER_ROLE:admin''" using six_selected(2) by (auto simp: in_set_conv_nth six_nth)
  have "enforceObjectiveLimit ?sel 5 = filter (\<lambda>c. target_key c = ''CLUSTER_TAKEOVER|CLUSTER_ROLE:admin'') (enforceObjectiveLimit ?sel 5)"
    using keys by (intro filter_True [symmetric]) (blast dest: enforce_members)
  also have "\<dots> = take 5 ?sel" unfolding enforce_exact using keys by (simp only: filter_True)
  finally show "\<not> list_ex ac_Primary (enforceObjectiveLimit ?sel maxChainsPerObjective)"
    using six_selected(1) by (simp add: maxChainsPerObjective_def list_ex_length six_nth)
qed

end
