(* ===== verification/Go_Url.thy ===== *)
theory Go_Url
  imports Go_Hex Go_Strconv
begin

section \<open>Cutting, trimming and percent-decoding: more of strings, and the part of net/url the program uses\<close>

text \<open>
  \<open>Cut\<close> is \<^verbatim>\<open>strings.Cut\<close> with a separator of one byte, \<open>TrimCutset\<close> and \<open>TrimRightCutset\<close> are \<^verbatim>\<open>strings.Trim\<close> and
  \<^verbatim>\<open>strings.TrimRight\<close> with ASCII cutsets, \<open>PathUnescape\<close> is \<^verbatim>\<open>url.PathUnescape\<close>: a percent sign must start two hexadecimal
  digits, every other byte stands for itself.
\<close>

definition Cut :: "string \<Rightarrow> char \<Rightarrow> string \<times> string \<times> bool" where
  "Cut s sep = (case index_byte sep s of None \<Rightarrow> (s, [], False) | Some i \<Rightarrow> (take i s, drop (Suc i) s, True))"

definition TrimRightCutset :: "string \<Rightarrow> string \<Rightarrow> string" where
  "TrimRightCutset s cutset = rev (dropWhile (\<lambda>c. c \<in> set cutset) (rev s))"

definition TrimCutset :: "string \<Rightarrow> string \<Rightarrow> string" where
  "TrimCutset s cutset = TrimRightCutset (dropWhile (\<lambda>c. c \<in> set cutset) s) cutset"

fun PathUnescape :: "string \<Rightarrow> string option" where
  "PathUnescape [] = Some []"
| "PathUnescape (c # s) =
     (if c = CHR ''%'' then
        (case s of a # b # r \<Rightarrow>
           (case (hex_val a, hex_val b) of
              (Some i, Some j) \<Rightarrow> map_option ((#) (char_of (16 * i + j))) (PathUnescape r)
            | _ \<Rightarrow> None)
         | _ \<Rightarrow> None)
      else map_option ((#) c) (PathUnescape s))"

lemma Cut_append: "c \<notin> set k \<Longrightarrow> Cut (k @ c # v) c = (k, v, True)"
  by (simp add: Cut_def index_byte_append)

lemma Cut_none: "c \<notin> set k \<Longrightarrow> Cut k c = (k, [], False)"
  by (simp add: Cut_def index_byte_None_iff [THEN iffD2])

lemma TrimCutset_id: "s = [] \<or> hd s \<notin> set cs \<and> last s \<notin> set cs \<Longrightarrow> TrimCutset s cs = s"
proof (cases s)
  case (Cons c t)
  assume "s = [] \<or> hd s \<notin> set cs \<and> last s \<notin> set cs"
  then have "hd s \<notin> set cs" "last s \<notin> set cs" using Cons by auto
  moreover have "rev s = last s # rev (butlast s)" using Cons by (metis append_butlast_last_id list.distinct(1) rev.simps(2) rev_rev_ident)
  ultimately show ?thesis using Cons by (simp add: TrimCutset_def TrimRightCutset_def)
qed (simp add: TrimCutset_def TrimRightCutset_def)

subsection \<open>Percent-encoding\<close>

text \<open>Any encoder leaves some bytes as they are and writes the others with two hexadecimal digits.\<close>

definition path_escape :: "(char \<Rightarrow> bool) \<Rightarrow> string \<Rightarrow> string" where
  "path_escape keep s = concat (map (\<lambda>c. if keep c then [c] else CHR ''%'' # hex_encode_byte c) s)"

lemma PathUnescape_byte: "PathUnescape (CHR ''%'' # hex_encode_byte c @ t) = map_option ((#) c) (PathUnescape t)"
proof -
  have "(of_char c :: nat) < 256" by simp
  then have "(of_char c :: nat) div 16 < 16" by (simp add: less_mult_imp_div_less)
  then have "hex_val (hextable ! (of_char c div 16)) = Some (of_char c div 16)" "hex_val (hextable ! (of_char c mod 16)) = Some (of_char c mod 16)"
    by (auto intro!: hex_val_digit)
  then show ?thesis by (simp add: hex_encode_byte_def mult.commute [of _ 16])
qed

lemma PathUnescape_escape:
  assumes "\<not> keep CHR ''%''"
  shows "PathUnescape (path_escape keep s) = Some s"
proof (induction s)
  case (Cons c s)
  show ?case
  proof (cases "keep c")
    case True
    then have "c \<noteq> CHR ''%''" using assms by auto
    then show ?thesis using True Cons by (simp add: path_escape_def)
  next
    case False
    then have "path_escape keep (c # s) = CHR ''%'' # hex_encode_byte c @ path_escape keep s" by (simp add: path_escape_def)
    then show ?thesis unfolding PathUnescape_byte [symmetric] using Cons by (simp only: PathUnescape_byte option.map)
  qed
qed (simp add: path_escape_def)

lemma path_escape_Nil_iff [simp]: "path_escape keep s = [] \<longleftrightarrow> s = []"
  by (cases s) (auto simp: path_escape_def)

lemma hextable_chars: "i < 16 \<Longrightarrow> hextable ! i \<in> set hextable"
  by (rule nth_mem) (simp add: hextable_def)

lemma path_escape_chars: "c \<in> set (path_escape keep s) \<Longrightarrow> keep c \<or> c = CHR ''%'' \<or> c \<in> set hextable"
proof -
  have "hextable ! (of_char d div 16) \<in> set hextable" "hextable ! (of_char d mod 16) \<in> set hextable" for d :: char
  proof -
    have "(of_char d :: nat) < 256" by simp
    then have "(of_char d :: nat) div 16 < 16" by (simp add: less_mult_imp_div_less)
    then show "hextable ! (of_char d div 16) \<in> set hextable" "hextable ! (of_char d mod 16) \<in> set hextable"
      by (auto intro!: hextable_chars)
  qed
  then show "c \<in> set (path_escape keep s) \<Longrightarrow> keep c \<or> c = CHR ''%'' \<or> c \<in> set hextable"
    by (auto simp: path_escape_def hex_encode_byte_def split: if_splits)
qed

text \<open>Visible ASCII text has no white space to trim.\<close>

definition visible_char :: "char \<Rightarrow> bool" where
  "visible_char c \<longleftrightarrow> 32 < (of_char c :: nat) \<and> (of_char c :: nat) < 127"

lemma space_runes_not_visible: "w \<in> set space_runes \<Longrightarrow> \<not> visible_char (hd w) \<and> \<not> visible_char (last w)"
proof -
  have "list_all (\<lambda>w. \<not> visible_char (hd w) \<and> \<not> visible_char (last w)) space_runes" by code_simp
  then show "w \<in> set space_runes \<Longrightarrow> \<not> visible_char (hd w) \<and> \<not> visible_char (last w)" by (auto simp: list_all_iff)
qed

lemma visible_ends_trimmed:
  assumes "s = [] \<or> visible_char (hd s) \<and> visible_char (last s)"
  shows "trimmed s"
proof -
  have "\<not> HasPrefix s w" "\<not> HasSuffix s w" if w: "w \<in> set space_runes" for w
  proof -
    have ne: "w \<noteq> []" using w by auto
    have nv: "\<not> visible_char (hd w)" "\<not> visible_char (last w)" using space_runes_not_visible [OF w] by blast+
    show "\<not> HasPrefix s w" using ne nv(1) assms by (auto simp: HasPrefix_iff)
    show "\<not> HasSuffix s w" using ne nv(2) assms by (auto simp: HasSuffix_iff)
  qed
  then show ?thesis by (auto simp: trimmed_def lead_space_def trail_space_def find_None_iff)
qed

lemma visible_trimmed: "list_all visible_char s \<Longrightarrow> TrimSpace s = s"
proof -
  assume "list_all visible_char s"
  then have "trimmed s" by (intro visible_ends_trimmed) (cases s, auto simp: list_all_iff)
  then show ?thesis by (rule TrimSpace_id)
qed

lemma hextable_visible: "list_all visible_char hextable"
  by code_simp

end
