(* ===== verification/Osv_Advisory.thy ===== *)
theory Osv_Advisory
  imports Go_Url Go_Float
begin

section \<open>Advisories: core/pkg/cve/cvss, loader/osv\_parser.go and the parsing part of loader/advisory\_catalog.go\<close>

text \<open>
  An OSV advisory is a JSON file; \<open>BuildAdvisory\<close> turns it into the rows of the vulnerability catalog: its severity, the identifiers
  it points to, and the affected intervals of its packages per distribution release. The scores of CVSS vectors are those of the
  go-cvss library (\<open>CvssLib\<close>), the digest of the file is a parameter. Summaries, details, dates, weaknesses and references are
  copied to columns that the matcher does not read; they are checked by the decoder and left out of the rows.
\<close>

subsection \<open>CVSS\<close>

record CvssLib =
  cl_Score20 :: "string \<Rightarrow> rat option"
  cl_Score30 :: "string \<Rightarrow> rat option"
  cl_Score31 :: "string \<Rightarrow> rat option"
  cl_Score40 :: "string \<Rightarrow> rat option"

abbreviation "Critical \<equiv> ''CRITICAL''"
abbreviation "High \<equiv> ''HIGH''"
abbreviation "Medium \<equiv> ''MEDIUM''"
abbreviation "Low \<equiv> ''LOW''"
abbreviation "Negligible \<equiv> ''NEGLIGIBLE''"

definition BaseScore :: "FloatArith \<Rightarrow> CvssLib \<Rightarrow> string \<Rightarrow> (rat \<times> string) option" where
  "BaseScore F L vector =
     (let v = TrimSpace vector
      in if HasPrefix v ''CVSS:4.0/'' then map_option (\<lambda>s. (round_to F 10 s, ''4.0'')) (cl_Score40 L v)
         else if HasPrefix v ''CVSS:3.1/'' then map_option (\<lambda>s. (s, ''3.1'')) (cl_Score31 L v)
         else if HasPrefix v ''CVSS:3.0/'' then map_option (\<lambda>s. (s, ''3.0'')) (cl_Score30 L v)
         else if HasPrefix v ''AV:'' then map_option (\<lambda>s. (s, ''2.0'')) (cl_Score20 L v)
         else None)"

definition SeverityFromScore :: "rat \<Rightarrow> string" where
  "SeverityFromScore score =
     (if score \<ge> 9 then Critical else if score \<ge> 7 then High else if score \<ge> 4 then Medium else if score > 0 then Low else Negligible)"

definition NormalizeRating :: "string \<Rightarrow> string" where
  "NormalizeRating rating =
     (let r = TrimSpace (TrimRightCutset (ToLower (TrimSpace rating)) ''*'')
      in if r = ''critical'' then Critical
         else if r = ''high'' \<or> r = ''important'' then High
         else if r = ''medium'' \<or> r = ''moderate'' then Medium
         else if r = ''low'' then Low
         else if r = ''negligible'' \<or> r = ''unimportant'' \<or> r = ''none'' then Negligible
         else [])"

definition Rank :: "string \<Rightarrow> nat" where
  "Rank severity =
     (let s = ToUpper (TrimSpace severity)
      in if s = Critical then 5 else if s = High then 4 else if s = Medium then 3 else if s = Low then 2 else if s = Negligible then 1 else 0)"

subsection \<open>OSV documents\<close>

record OSVEvent =
  ev_Introduced :: string
  ev_Fixed :: string
  ev_LastAffected :: string
  ev_Limit :: string

record OSVRange =
  or_Type :: string
  or_Events :: "OSVEvent list"

record OSVSeverity =
  os_Type :: string
  os_Score :: string

record OSVPackage =
  op_Ecosystem :: string
  op_Name :: string

record OSVAffected =
  oa_Package :: OSVPackage
  oa_Ranges :: "OSVRange list"
  oa_Versions :: "string list"
  oa_Severity :: "OSVSeverity list"
  oa_EcosystemSpecific :: "(string \<times> json) list"

record OSVVulnerability =
  ov_ID :: string
  ov_Withdrawn :: string
  ov_Aliases :: "string list"
  ov_Upstream :: "string list"
  ov_Related :: "string list"
  ov_Affected :: "OSVAffected list"
  ov_Severity :: "OSVSeverity list"
  ov_DatabaseSpecific :: "(string \<times> json) list"

definition decode_event :: "json \<Rightarrow> OSVEvent option" where
  "decode_event = decode_struct [''introduced'', ''fixed'', ''last_affected'', ''limit'']
     (\<lambda>f v r. if f = ''introduced'' then map_option (\<lambda>x. r\<lparr>ev_Introduced := x\<rparr>) (set_string v (ev_Introduced r))
        else if f = ''fixed'' then map_option (\<lambda>x. r\<lparr>ev_Fixed := x\<rparr>) (set_string v (ev_Fixed r))
        else if f = ''last_affected'' then map_option (\<lambda>x. r\<lparr>ev_LastAffected := x\<rparr>) (set_string v (ev_LastAffected r))
        else map_option (\<lambda>x. r\<lparr>ev_Limit := x\<rparr>) (set_string v (ev_Limit r)))
     \<lparr>ev_Introduced = [], ev_Fixed = [], ev_LastAffected = [], ev_Limit = []\<rparr>"

definition decode_range :: "json \<Rightarrow> OSVRange option" where
  "decode_range = decode_struct [''type'', ''repo'', ''events'']
     (\<lambda>f v r. if f = ''type'' then map_option (\<lambda>x. r\<lparr>or_Type := x\<rparr>) (set_string v (or_Type r))
        else if f = ''repo'' then map_option (\<lambda>_. r) (set_string v [])
        else map_option (\<lambda>x. r\<lparr>or_Events := x\<rparr>) (decode_list decode_event v))
     \<lparr>or_Type = [], or_Events = []\<rparr>"

definition decode_severity :: "json \<Rightarrow> OSVSeverity option" where
  "decode_severity = decode_struct [''type'', ''score'']
     (\<lambda>f v r. if f = ''type'' then map_option (\<lambda>x. r\<lparr>os_Type := x\<rparr>) (set_string v (os_Type r))
        else map_option (\<lambda>x. r\<lparr>os_Score := x\<rparr>) (set_string v (os_Score r)))
     \<lparr>os_Type = [], os_Score = []\<rparr>"

definition decode_package :: "OSVPackage \<Rightarrow> json \<Rightarrow> OSVPackage option" where
  "decode_package = decode_struct [''ecosystem'', ''name'', ''purl'']
     (\<lambda>f v r. if f = ''ecosystem'' then map_option (\<lambda>x. r\<lparr>op_Ecosystem := x\<rparr>) (set_string v (op_Ecosystem r))
        else if f = ''name'' then map_option (\<lambda>x. r\<lparr>op_Name := x\<rparr>) (set_string v (op_Name r))
        else map_option (\<lambda>_. r) (set_string v []))"

definition decode_affected :: "json \<Rightarrow> OSVAffected option" where
  "decode_affected = decode_struct [''package'', ''ranges'', ''versions'', ''severity'', ''ecosystem_specific'', ''database_specific'']
     (\<lambda>f v r. if f = ''package'' then map_option (\<lambda>x. r\<lparr>oa_Package := x\<rparr>) (decode_package (oa_Package r) v)
        else if f = ''ranges'' then map_option (\<lambda>x. r\<lparr>oa_Ranges := x\<rparr>) (decode_list decode_range v)
        else if f = ''versions'' then map_option (\<lambda>x. r\<lparr>oa_Versions := x\<rparr>) (set_strings v)
        else if f = ''severity'' then map_option (\<lambda>x. r\<lparr>oa_Severity := x\<rparr>) (decode_list decode_severity v)
        else if f = ''ecosystem_specific'' then map_option (\<lambda>x. r\<lparr>oa_EcosystemSpecific := x\<rparr>) (decode_dyn_map v)
        else map_option (\<lambda>_. r) (decode_dyn_map v))
     \<lparr>oa_Package = \<lparr>op_Ecosystem = [], op_Name = []\<rparr>, oa_Ranges = [], oa_Versions = [], oa_Severity = [], oa_EcosystemSpecific = []\<rparr>"

definition decode_reference :: "json \<Rightarrow> unit option" where
  "decode_reference = decode_struct [''type'', ''url''] (\<lambda>f v r. map_option (\<lambda>_. r) (set_string v [])) ()"

definition zero_vulnerability :: OSVVulnerability where
  "zero_vulnerability = \<lparr>ov_ID = [], ov_Withdrawn = [], ov_Aliases = [], ov_Upstream = [], ov_Related = [], ov_Affected = [], ov_Severity = [],
     ov_DatabaseSpecific = []\<rparr>"

definition decode_vulnerability :: "json \<Rightarrow> OSVVulnerability option" where
  "decode_vulnerability = decode_struct [''schema_version'', ''id'', ''published'', ''modified'', ''withdrawn'', ''summary'', ''details'', ''aliases'',
       ''upstream'', ''related'', ''affected'', ''severity'', ''references'', ''database_specific'']
     (\<lambda>f v r. if f = ''id'' then map_option (\<lambda>x. r\<lparr>ov_ID := x\<rparr>) (set_string v (ov_ID r))
        else if f = ''withdrawn'' then map_option (\<lambda>x. r\<lparr>ov_Withdrawn := x\<rparr>) (set_string v (ov_Withdrawn r))
        else if f = ''aliases'' then map_option (\<lambda>x. r\<lparr>ov_Aliases := x\<rparr>) (set_strings v)
        else if f = ''upstream'' then map_option (\<lambda>x. r\<lparr>ov_Upstream := x\<rparr>) (set_strings v)
        else if f = ''related'' then map_option (\<lambda>x. r\<lparr>ov_Related := x\<rparr>) (set_strings v)
        else if f = ''affected'' then map_option (\<lambda>x. r\<lparr>ov_Affected := x\<rparr>) (decode_list decode_affected v)
        else if f = ''severity'' then map_option (\<lambda>x. r\<lparr>ov_Severity := x\<rparr>) (decode_list decode_severity v)
        else if f = ''references'' then map_option (\<lambda>_. r) (decode_list decode_reference v)
        else if f = ''database_specific'' then map_option (\<lambda>x. r\<lparr>ov_DatabaseSpecific := x\<rparr>) (decode_dyn_map v)
        else map_option (\<lambda>_. r) (set_string v []))
     zero_vulnerability"

definition ParseBytes :: "string \<Rightarrow> OSVVulnerability option" where
  "ParseBytes raw = (case unmarshal decode_vulnerability raw of None \<Rightarrow> None | Some v \<Rightarrow> if ov_ID v = [] then None else Some v)"

subsection \<open>Intervals\<close>

record OSVInterval =
  iv_Introduced :: string
  iv_Fixed :: string
  iv_LastAffected :: string

definition introducedOrZero :: "string \<Rightarrow> bool \<Rightarrow> string" where
  "introducedOrZero introduced opened = (if opened \<and> introduced \<noteq> [] then introduced else ''0'')"

text \<open>The state of the loop is the interval still open.\<close>

fun range_intervals :: "string option \<Rightarrow> OSVEvent list \<Rightarrow> OSVInterval list" where
  "range_intervals cur [] = (case cur of None \<Rightarrow> [] | Some i \<Rightarrow> [\<lparr>iv_Introduced = i, iv_Fixed = [], iv_LastAffected = []\<rparr>])"
| "range_intervals cur (ev # evs) =
     (let opened = (cur \<noteq> None); introduced = (case cur of None \<Rightarrow> [] | Some i \<Rightarrow> i)
      in if TrimSpace (ev_Introduced ev) \<noteq> [] then
           (case cur of None \<Rightarrow> [] | Some i \<Rightarrow> [\<lparr>iv_Introduced = i, iv_Fixed = [], iv_LastAffected = []\<rparr>]) @
           range_intervals (Some (TrimSpace (ev_Introduced ev))) evs
         else if TrimSpace (ev_Fixed ev) \<noteq> [] then
           \<lparr>iv_Introduced = introducedOrZero introduced opened, iv_Fixed = TrimSpace (ev_Fixed ev), iv_LastAffected = []\<rparr> # range_intervals None evs
         else if TrimSpace (ev_LastAffected ev) \<noteq> [] then
           \<lparr>iv_Introduced = introducedOrZero introduced opened, iv_Fixed = [], iv_LastAffected = TrimSpace (ev_LastAffected ev)\<rparr> # range_intervals None evs
         else range_intervals cur evs)"

definition OSVRangeIntervals :: "OSVEvent list \<Rightarrow> OSVInterval list" where
  "OSVRangeIntervals events = range_intervals None events"

definition maxExplicitVersionsPerPackage :: nat where "maxExplicitVersionsPerPackage = 2000"

text \<open>Appending until the list has \<open>max\<close> entries is, for a positive bound, taking the first \<open>max\<close>.\<close>

definition uniqueVersions :: "string list \<Rightarrow> nat \<Rightarrow> string list" where
  "uniqueVersions versions n = take n (fold (\<lambda>v out. if v = [] \<or> v \<in> set out then out else out @ [v]) (map TrimSpace versions) [])"

subsection \<open>Ecosystems and releases\<close>

definition isDigits :: "string \<Rightarrow> bool" where
  "isDigits s \<longleftrightarrow> s \<noteq> [] \<and> list_all is_digit s"

definition NormalizeDistroRelease :: "string \<Rightarrow> string \<Rightarrow> string" where
  "NormalizeDistroRelease distro version =
     (let v = TrimPrefix (ToLower (TrimSpace version)) ''v''
      in if v = [] then []
         else
           let parts = split_char CHR ''.'' v; d = ToLower (TrimSpace distro)
           in if d \<in> set [''debian'', ''rocky'', ''rocky linux'', ''alma'', ''almalinux'', ''redhat'', ''rhel''] then parts ! 0
              else if d = ''alpine'' \<or> d = ''ubuntu'' then (if length parts \<ge> 2 then parts ! 0 @ ''.'' @ parts ! 1 else parts ! 0)
              else v)"

definition redHatRelease :: "string \<Rightarrow> string" where
  "redHatRelease stream =
     (let parts = split_char CHR '':'' (ToLower (TrimSpace stream))
      in if length parts < 2 then []
         else
           let v = last parts
           in if HasPrefix v ''el'' \<and> isDigits (drop 2 v) then drop 2 v
              else
                let product = parts ! 0
                in if product \<noteq> ''enterprise_linux'' \<and> product \<noteq> ''enterprise_linux_eus'' \<and> \<not> HasPrefix product ''rhel_'' then []
                   else let (major, _, _) = Cut (parts ! 1) CHR ''.'' in if \<not> isDigits major then [] else major)"

definition starts_with_digit :: "string \<Rightarrow> bool" where
  "starts_with_digit s \<longleftrightarrow> s \<noteq> [] \<and> is_digit (hd s)"

definition OSVEcosystemRelease :: "string \<Rightarrow> string" where
  "OSVEcosystemRelease ecosystem =
     (let (name, rest, ok) = Cut (TrimSpace ecosystem) CHR '':''
      in if \<not> ok then []
         else
           let n = ToLower (TrimSpace name)
           in if n \<in> set [''debian'', ''rocky linux'', ''almalinux''] then NormalizeDistroRelease (ToLower name) rest
              else if n = ''alpine'' then NormalizeDistroRelease ''alpine'' rest
              else if n = ''red hat'' then redHatRelease rest
              else if n = ''ubuntu'' then
                (case find starts_with_digit (map TrimSpace (split_char CHR '':'' rest)) of
                   None \<Rightarrow> [] | Some part \<Rightarrow> NormalizeDistroRelease ''ubuntu'' part)
              else [])"

definition normalizeEcosystem :: "string \<Rightarrow> string" where
  "normalizeEcosystem ecosystem0 =
     (let ecosystem = ToLower ecosystem0
      in if HasPrefix ecosystem ''debian:'' then ''debian''
         else if HasPrefix ecosystem ''ubuntu:'' then ''ubuntu''
         else if HasPrefix ecosystem ''alpine:'' then ''alpine''
         else if HasPrefix ecosystem ''rocky linux'' then ''rocky''
         else if HasPrefix ecosystem ''almalinux'' then ''alma''
         else if ecosystem = ''red hat'' \<or> HasPrefix ecosystem ''red hat:'' then ''redhat''
         else if ecosystem = ''go'' \<or> ecosystem = ''golang'' then ''go''
         else if ecosystem = ''crates.io'' \<or> ecosystem = ''cargo'' then ''cargo''
         else ecosystem)"

subsection \<open>Ratings\<close>

fun first_rating :: "OSVSeverity list \<Rightarrow> string" where
  "first_rating [] = []"
| "first_rating (s # ss) =
     (if EqualFold (os_Type s) ''Ubuntu'' \<and> NormalizeRating (os_Score s) \<noteq> [] then NormalizeRating (os_Score s) else first_rating ss)"

definition ratingOf :: "OSVSeverity list \<Rightarrow> string" where "ratingOf severities = first_rating severities"

definition string_member :: "(string \<times> json) list \<Rightarrow> string \<Rightarrow> string option" where
  "string_member m k = (case dyn_get m k of Some (JStr s) \<Rightarrow> Some s | _ \<Rightarrow> None)"

definition AffectedRating :: "OSVAffected \<Rightarrow> string" where
  "AffectedRating a =
     (let r = (case string_member (oa_EcosystemSpecific a) ''urgency'' of None \<Rightarrow> [] | Some u \<Rightarrow> NormalizeRating u)
      in if r \<noteq> [] then r else ratingOf (oa_Severity a))"

definition AdvisoryRating :: "OSVVulnerability \<Rightarrow> string" where
  "AdvisoryRating osv =
     (let r = (case string_member (ov_DatabaseSpecific osv) ''severity'' of None \<Rightarrow> [] | Some s \<Rightarrow> NormalizeRating s)
      in if r \<noteq> [] then r
         else if ratingOf (ov_Severity osv) \<noteq> [] then ratingOf (ov_Severity osv)
         else foldl (\<lambda>best a. if Rank (AffectedRating a) > Rank best then AffectedRating a else best) [] (ov_Affected osv))"

subsection \<open>References and ranges\<close>

record AdvisoryRef =
  rf_RefID :: string
  rf_Relation :: string
  rf_RefKind :: string

record AffectedRange =
  af_Ecosystem :: string
  af_Release :: string
  af_PackageName :: string
  af_RangeType :: string
  af_Introduced :: string
  af_Fixed :: string
  af_LastAffected :: string
  af_VendorSeverity :: string

record ParsedAdvisory =
  pa_ID :: string
  pa_Withdrawn :: bool
  pa_Source :: string
  pa_Kind :: string
  pa_CVSSv3Score :: "rat option"
  pa_CVSSv4Score :: "rat option"
  pa_SourceSeverity :: string
  pa_ContentSHA256 :: string
  pa_Refs :: "AdvisoryRef list"
  pa_Affected :: "AffectedRange list"

text \<open>The pattern \<^verbatim>\<open>CVE-dddd-dddd\<dots>\<close> with at least four digits at the end.\<close>

definition cve_id :: "string \<Rightarrow> bool" where
  "cve_id s \<longleftrightarrow> HasPrefix s ''CVE-'' \<and> length s \<ge> 13 \<and> list_all is_digit (take 4 (drop 4 s)) \<and> s ! 8 = CHR ''-'' \<and> list_all is_digit (drop 9 s)"

definition advisorySource :: "string \<Rightarrow> string" where
  "advisorySource aid =
     (let prefix = fst (Cut aid CHR ''-''); u = ToUpper prefix
      in if u \<in> set [''DEBIAN'', ''DSA'', ''DLA'', ''DTSA''] then ''debian''
         else if u \<in> set [''RHSA'', ''RHBA'', ''RHEA''] then ''redhat''
         else if u \<in> set [''ALSA'', ''ALBA'', ''ALEA''] then ''almalinux''
         else if u \<in> set [''RLSA'', ''RLBA'', ''RLEA'', ''RXSA''] then ''rocky''
         else if u = ''PYSEC'' then ''pypa''
         else if u = ''MAL'' then ''ossf-malicious-packages''
         else ToLower prefix)"

definition ref_kind :: "string \<Rightarrow> string" where
  "ref_kind rid = (if cve_id rid then ''cve'' else if HasPrefix rid ''GHSA-'' then ''ghsa'' else ''advisory'')"

definition add_ref :: "string \<Rightarrow> string \<Rightarrow> AdvisoryRef list \<Rightarrow> string \<Rightarrow> AdvisoryRef list" where
  "add_ref own relation out id0 =
     (let rid = TrimSpace id0
      in if rid = [] \<or> rid = own \<or> rid \<in> rf_RefID ` set out \<or> length rid > 255 then out
         else out @ [\<lparr>rf_RefID = rid, rf_Relation = relation, rf_RefKind = ref_kind rid\<rparr>])"

definition advisoryRefs :: "OSVVulnerability \<Rightarrow> AdvisoryRef list" where
  "advisoryRefs osv =
     (let out = foldl (add_ref (ov_ID osv) ''alias'') [] (ov_Aliases osv);
          out = foldl (add_ref (ov_ID osv) ''upstream'') out (ov_Upstream osv)
      in foldl (add_ref (ov_ID osv) ''related'') out (ov_Related osv))"

definition range_key :: "AffectedRange \<Rightarrow> AffectedRange" where
  "range_key r = r\<lparr>af_VendorSeverity := []\<rparr>"

fun add_range :: "AffectedRange list \<Rightarrow> AffectedRange \<Rightarrow> AffectedRange list" where
  "add_range [] r = [r]"
| "add_range (x # xs) r =
     (if range_key x = range_key r then
        (if Rank (af_VendorSeverity r) > Rank (af_VendorSeverity x) then x\<lparr>af_VendorSeverity := af_VendorSeverity r\<rparr> else x) # xs
      else x # add_range xs r)"

definition version_range :: "OSVRange \<Rightarrow> bool" where
  "version_range r \<longleftrightarrow> ToUpper (TrimSpace (or_Type r)) \<in> set [''SEMVER'', ''ECOSYSTEM'']"

definition ranges_of_affected :: "OSVAffected \<Rightarrow> AffectedRange list" where
  "ranges_of_affected affected =
     (let p = oa_Package affected;
          base = \<lparr>af_Ecosystem = normalizeEcosystem (op_Ecosystem p), af_Release = OSVEcosystemRelease (op_Ecosystem p), af_PackageName = op_Name p,
                  af_RangeType = [], af_Introduced = [], af_Fixed = [], af_LastAffected = [], af_VendorSeverity = AffectedRating affected\<rparr>;
          rs = filter version_range (oa_Ranges affected)
      in if op_Name p = [] \<or> op_Ecosystem p = [] then []
         else if rs \<noteq> [] then
           concat (map (\<lambda>r. map (\<lambda>iv. base\<lparr>af_RangeType := ToUpper (TrimSpace (or_Type r)), af_Introduced := iv_Introduced iv, af_Fixed := iv_Fixed iv,
             af_LastAffected := iv_LastAffected iv\<rparr>) (OSVRangeIntervals (or_Events r))) rs)
         else map (\<lambda>v. base\<lparr>af_RangeType := ''EXPLICIT'', af_Introduced := v, af_LastAffected := v\<rparr>)
           (uniqueVersions (oa_Versions affected) maxExplicitVersionsPerPackage))"

definition affectedRanges :: "OSVVulnerability \<Rightarrow> AffectedRange list" where
  "affectedRanges osv = foldl add_range [] (concat (map ranges_of_affected (ov_Affected osv)))"

definition first_score :: "FloatArith \<Rightarrow> CvssLib \<Rightarrow> (string \<Rightarrow> bool) \<Rightarrow> OSVSeverity list \<Rightarrow> rat option" where
  "first_score F L accepts ss =
     (case List.map_filter (\<lambda>s. case BaseScore F L (os_Score s) of None \<Rightarrow> None
        | Some (score, version) \<Rightarrow> if accepts version then Some score else None) ss of [] \<Rightarrow> None | x # _ \<Rightarrow> Some x)"

definition CatalogSchemaVersion :: string where "CatalogSchemaVersion = ''vuln-catalog-1''"

definition BuildAdvisory :: "FloatArith \<Rightarrow> CvssLib \<Rightarrow> (string \<Rightarrow> string) \<Rightarrow> OSVVulnerability \<Rightarrow> string \<Rightarrow> ParsedAdvisory" where
  "BuildAdvisory F L sha256 osv raw =
     \<lparr>pa_ID = ov_ID osv, pa_Withdrawn = (TrimSpace (ov_Withdrawn osv) \<noteq> []), pa_Source = advisorySource (ov_ID osv),
      pa_Kind = (if HasPrefix (ov_ID osv) ''MAL-'' then ''malware'' else ''vulnerability''),
      pa_CVSSv3Score = first_score F L (\<lambda>v. HasPrefix v ''3'') (ov_Severity osv),
      pa_CVSSv4Score = first_score F L (\<lambda>v. v = ''4.0'') (ov_Severity osv),
      pa_SourceSeverity = AdvisoryRating osv,
      pa_ContentSHA256 = hex_encode (sha256 (CatalogSchemaVersion @ [CHR 0x00] @ raw)),
      pa_Refs = advisoryRefs osv, pa_Affected = affectedRanges osv\<rparr>"

subsection \<open>Intervals against the evaluation rule of OSV\<close>

text \<open>
  The rule of the OSV schema: go through the events in the order of their versions; a version from \<open>introduced\<close> on is affected, from
  \<open>fixed\<close> on it is not, after \<open>last_affected\<close> it is not. \<open>k\<close> is any order on versions.
\<close>

datatype EventView = Opens string | Fixes string | Ends string | Blank

definition event_view :: "OSVEvent \<Rightarrow> EventView" where
  "event_view ev =
     (if TrimSpace (ev_Introduced ev) \<noteq> [] then Opens (TrimSpace (ev_Introduced ev))
      else if TrimSpace (ev_Fixed ev) \<noteq> [] then Fixes (TrimSpace (ev_Fixed ev))
      else if TrimSpace (ev_LastAffected ev) \<noteq> [] then Ends (TrimSpace (ev_LastAffected ev))
      else Blank)"

definition osv_step :: "(string \<Rightarrow> 'v::linorder) \<Rightarrow> 'v \<Rightarrow> bool \<Rightarrow> OSVEvent \<Rightarrow> bool" where
  "osv_step k v affected ev = (case event_view ev of
     Opens s \<Rightarrow> if k s \<le> v then True else affected
   | Fixes s \<Rightarrow> if k s \<le> v then False else affected
   | Ends s \<Rightarrow> if k s < v then False else affected
   | Blank \<Rightarrow> affected)"

definition osv_affects :: "(string \<Rightarrow> 'v::linorder) \<Rightarrow> OSVEvent list \<Rightarrow> 'v \<Rightarrow> bool" where
  "osv_affects k evs v = foldl (osv_step k v) False evs"

definition in_interval :: "(string \<Rightarrow> 'v::linorder) \<Rightarrow> 'v \<Rightarrow> OSVInterval \<Rightarrow> bool" where
  "in_interval k v iv \<longleftrightarrow> k (iv_Introduced iv) \<le> v \<and> (iv_Fixed iv = [] \<or> v < k (iv_Fixed iv)) \<and>
     (iv_LastAffected iv = [] \<or> v \<le> k (iv_LastAffected iv))"

text \<open>Events in ascending order, an \<open>introduced\<close> where no interval is open and an end where one is.\<close>

fun proper_events :: "(string \<Rightarrow> 'v::linorder) \<Rightarrow> (string \<times> 'v) option \<Rightarrow> 'v option \<Rightarrow> OSVEvent list \<Rightarrow> bool" where
  "proper_events k cur low [] = True"
| "proper_events k cur low (ev # evs) = (case event_view ev of
     Opens s \<Rightarrow> cur = None \<and> (low = None \<or> the low \<le> k s) \<and> proper_events k (Some (s, k s)) (Some (k s)) evs
   | Fixes s \<Rightarrow> cur \<noteq> None \<and> the low < k s \<and> proper_events k None (Some (k s)) evs
   | Ends s \<Rightarrow> cur \<noteq> None \<and> the low \<le> k s \<and> proper_events k None (Some (k s)) evs
   | Blank \<Rightarrow> proper_events k cur low evs)"

lemma range_intervals_view: "range_intervals cur (ev # evs) = (case event_view ev of
     Opens s \<Rightarrow> (case cur of None \<Rightarrow> [] | Some i \<Rightarrow> [\<lparr>iv_Introduced = i, iv_Fixed = [], iv_LastAffected = []\<rparr>]) @ range_intervals (Some s) evs
   | Fixes s \<Rightarrow> \<lparr>iv_Introduced = introducedOrZero (case cur of None \<Rightarrow> [] | Some i \<Rightarrow> i) (cur \<noteq> None), iv_Fixed = s, iv_LastAffected = []\<rparr> # range_intervals None evs
   | Ends s \<Rightarrow> \<lparr>iv_Introduced = introducedOrZero (case cur of None \<Rightarrow> [] | Some i \<Rightarrow> i) (cur \<noteq> None), iv_Fixed = [], iv_LastAffected = s\<rparr> # range_intervals None evs
   | Blank \<Rightarrow> range_intervals cur evs)"
  by (simp add: event_view_def)

declare range_intervals.simps(2) [simp del]

lemma event_view_nonempty: "event_view ev \<in> {Opens s, Fixes s, Ends s} \<Longrightarrow> s \<noteq> []"
  by (auto simp: event_view_def split: if_splits)

lemma osv_step_view:
  "event_view ev = Opens s \<Longrightarrow> osv_step k v b ev = (k s \<le> v \<or> b)"
  "event_view ev = Fixes s \<Longrightarrow> osv_step k v b ev = (\<not> k s \<le> v \<and> b)"
  "event_view ev = Ends s \<Longrightarrow> osv_step k v b ev = (\<not> k s < v \<and> b)"
  "event_view ev = Blank \<Longrightarrow> osv_step k v b ev = b"
  by (simp_all add: osv_step_def)

lemma in_interval_simps:
  "in_interval k v \<lparr>iv_Introduced = i, iv_Fixed = [], iv_LastAffected = []\<rparr> \<longleftrightarrow> k i \<le> v"
  "s \<noteq> [] \<Longrightarrow> in_interval k v \<lparr>iv_Introduced = i, iv_Fixed = s, iv_LastAffected = []\<rparr> \<longleftrightarrow> k i \<le> v \<and> v < k s"
  "s \<noteq> [] \<Longrightarrow> in_interval k v \<lparr>iv_Introduced = i, iv_Fixed = [], iv_LastAffected = s\<rparr> \<longleftrightarrow> k i \<le> v \<and> v \<le> k s"
  by (simp_all add: in_interval_def)

text \<open>What is affected up to the version of the last event stays affected.\<close>

lemma affected_stays: "proper_events k cur (Some low) evs \<Longrightarrow> v \<le> low \<Longrightarrow> foldl (osv_step k v) True evs"
proof (induction evs arbitrary: cur low)
  case (Cons ev evs)
  show ?case
  proof (cases "event_view ev")
    case (Opens s)
    then show ?thesis using Cons.prems Cons.IH [of "Some (s, k s)" "k s"] order_trans [of v low "k s"] by (simp add: osv_step_view)
  next
    case (Fixes s)
    then show ?thesis using Cons.prems Cons.IH [of None "k s"] le_less_trans [of v low "k s"] order_trans [of v low "k s"] by (auto simp: osv_step_view not_le not_less)
  next
    case (Ends s)
    then show ?thesis using Cons.prems Cons.IH [of None "k s"] le_less_trans [of v low "k s"] order_trans [of v low "k s"] by (auto simp: osv_step_view not_le not_less)
  next
    case Blank
    then show ?thesis using Cons.prems Cons.IH [of cur low] by (simp add: osv_step_view)
  qed
qed simp

lemma intervals_decide:
  assumes "proper_events k (map_option (\<lambda>i. (i, k i)) cur) low evs" "case cur of None \<Rightarrow> True | Some i \<Rightarrow> i \<noteq> [] \<and> low = Some (k i)"
  shows "(\<exists>iv \<in> set (range_intervals cur evs). in_interval k v iv) \<longleftrightarrow> foldl (osv_step k v) (case cur of None \<Rightarrow> False | Some i \<Rightarrow> k i \<le> v) evs"
  using assms
proof (induction evs arbitrary: cur low)
  case Nil
  show ?case by (simp add: in_interval_simps split: option.split)
next
  case (Cons ev evs)
  note ne = event_view_nonempty [of ev]
  show ?case
  proof (cases "event_view ev")
    case (Opens s)
    then have "cur = None" using Cons.prems(1) by simp
    moreover have "s \<noteq> []" using ne [of s] Opens by simp
    ultimately show ?thesis using Cons.prems Cons.IH [of "Some s" "Some (k s)"] Opens
      by (simp add: range_intervals_view osv_step_view)
  next
    case (Fixes s)
    then obtain i where i: "cur = Some i" "i \<noteq> []" "low = Some (k i)" "k i < k s" "proper_events k None (Some (k s)) evs"
      using Cons.prems by (auto split: option.splits)
    have s: "s \<noteq> []" using ne [of s] Fixes by simp
    have IH: "(\<exists>iv \<in> set (range_intervals None evs). in_interval k v iv) \<longleftrightarrow> foldl (osv_step k v) False evs" using Cons.IH [of None "Some (k s)"] i(5) by simp
    have T: "v < k s \<Longrightarrow> foldl (osv_step k v) True evs" using affected_stays [OF i(5)] by simp
    have "range_intervals cur (ev # evs) = \<lparr>iv_Introduced = i, iv_Fixed = s, iv_LastAffected = []\<rparr> # range_intervals None evs"
      using Fixes i(1,2) by (simp add: range_intervals_view introducedOrZero_def)
    moreover define c where "c = (k i \<le> v \<and> v < k s)"
    moreover have "foldl (osv_step k v) (k i \<le> v) (ev # evs) = foldl (osv_step k v) c evs"
      using Fixes by (simp add: c_def osv_step_view not_le conj_commute)
    moreover have "in_interval k v \<lparr>iv_Introduced = i, iv_Fixed = s, iv_LastAffected = []\<rparr> = c" using s by (simp add: c_def in_interval_simps)
    ultimately show ?thesis using IH T i(1) by (cases c) simp_all
  next
    case (Ends s)
    then obtain i where i: "cur = Some i" "i \<noteq> []" "low = Some (k i)" "k i \<le> k s" "proper_events k None (Some (k s)) evs"
      using Cons.prems by (auto split: option.splits)
    have s: "s \<noteq> []" using ne [of s] Ends by simp
    have IH: "(\<exists>iv \<in> set (range_intervals None evs). in_interval k v iv) \<longleftrightarrow> foldl (osv_step k v) False evs" using Cons.IH [of None "Some (k s)"] i(5) by simp
    have T: "v \<le> k s \<Longrightarrow> foldl (osv_step k v) True evs" using affected_stays [OF i(5)] by simp
    have "range_intervals cur (ev # evs) = \<lparr>iv_Introduced = i, iv_Fixed = [], iv_LastAffected = s\<rparr> # range_intervals None evs"
      using Ends i(1,2) by (simp add: range_intervals_view introducedOrZero_def)
    moreover define c where "c = (k i \<le> v \<and> v \<le> k s)"
    moreover have "foldl (osv_step k v) (k i \<le> v) (ev # evs) = foldl (osv_step k v) c evs"
      using Ends by (simp add: c_def osv_step_view not_less conj_commute)
    moreover have "in_interval k v \<lparr>iv_Introduced = i, iv_Fixed = [], iv_LastAffected = s\<rparr> = c" using s by (simp add: c_def in_interval_simps)
    ultimately show ?thesis using IH T i(1) by (cases c) simp_all
  next
    case Blank
    then show ?thesis using Cons.prems Cons.IH [of cur low] by (simp add: range_intervals_view osv_step_view)
  qed
qed

text \<open>
  The stored intervals of an advisory contain exactly the versions that the evaluation rule of OSV calls affected, in any order
  of versions, when the events are in ascending order and each end closes an \<open>introduced\<close>.
\<close>

lemma intervals_are_osv_affected:
  assumes "proper_events k None None (evs :: OSVEvent list)"
  shows "(\<exists>iv \<in> set (OSVRangeIntervals evs). in_interval k v iv) \<longleftrightarrow> osv_affects k evs (v :: 'v::linorder)"
  using intervals_decide [of k None None evs v] assms by (simp add: OSVRangeIntervals_def osv_affects_def)

text \<open>The witness: two intervals, versions ordered by their length.\<close>

definition sample_events :: "OSVEvent list" where
  "sample_events = [\<lparr>ev_Introduced = ''1'', ev_Fixed = [], ev_LastAffected = [], ev_Limit = []\<rparr>, \<lparr>ev_Introduced = [], ev_Fixed = ''11'', ev_LastAffected = [], ev_Limit = []\<rparr>,
     \<lparr>ev_Introduced = ''1111'', ev_Fixed = [], ev_LastAffected = [], ev_Limit = []\<rparr>]"

lemma intervals_are_osv_affected_witness:
  "(\<exists>iv \<in> set (OSVRangeIntervals sample_events). in_interval length (5 :: nat) iv) \<and> \<not> osv_affects length sample_events (3 :: nat)"
proof -
  have "proper_events length None None sample_events" by code_simp
  moreover have "osv_affects length sample_events (5 :: nat) \<and> \<not> osv_affects length sample_events (3 :: nat)" by code_simp
  ultimately show ?thesis using intervals_are_osv_affected by blast
qed

text \<open>
  With two \<open>introduced\<close> in a row the first interval stays open, so a version after the fix counts as affected, which the rule of OSV
  denies.
\<close>

definition repeated_introduced :: "OSVEvent list" where
  "repeated_introduced = [\<lparr>ev_Introduced = ''1'', ev_Fixed = [], ev_LastAffected = [], ev_Limit = []\<rparr>, \<lparr>ev_Introduced = ''11'', ev_Fixed = [], ev_LastAffected = [], ev_Limit = []\<rparr>,
     \<lparr>ev_Introduced = [], ev_Fixed = ''111'', ev_LastAffected = [], ev_Limit = []\<rparr>]"

lemma repeated_introduced_never_fixed:
  "(\<exists>iv \<in> set (OSVRangeIntervals repeated_introduced). in_interval length (9 :: nat) iv) \<and> \<not> osv_affects length repeated_introduced (9 :: nat)"
  by code_simp

end
