(* ===== verification/Vuln_Catalog.thy ===== *)
theory Vuln_Catalog
  imports Osv_Advisory
begin

section \<open>The versioned vulnerability catalog: the tables of core/pkg/cve/loader/advisory\_catalog.go\<close>

text \<open>
  The catalog is three tables whose rows are valid from one generation up to another. A load writes a new generation: it closes the
  versions that changed and inserts the new ones; readers of an older generation keep seeing the old versions. The operations are
  those of the statements in \<^verbatim>\<open>VersionedCatalog\<close>, on all three tables alike. A list of versions is the abstract catalog; every
  operation on tables that come from a list of versions is an operation on the list (\<open>tables_of\<close>).
\<close>

record 'a Versioned =
  vr_ID :: string
  vr_From :: nat
  vr_To :: "nat option"
  vr_Row :: 'a

record AdvisoryRow =
  aw_Source :: string
  aw_Kind :: string
  aw_CVSSv3Score :: "rat option"
  aw_CVSSv4Score :: "rat option"
  aw_SourceSeverity :: string
  aw_ContentSHA256 :: string

record VulnTables =
  vt_advisories :: "AdvisoryRow Versioned list"
  vt_refs :: "AdvisoryRef Versioned list"
  vt_affected :: "AffectedRange Versioned list"

definition row_visible :: "nat \<Rightarrow> 'a Versioned \<Rightarrow> bool" where
  "row_visible gen r \<longleftrightarrow> vr_From r \<le> gen \<and> (case vr_To r of None \<Rightarrow> True | Some x \<Rightarrow> x > gen)"

subsection \<open>Statements\<close>

definition close_rows :: "nat \<Rightarrow> string list \<Rightarrow> 'a Versioned list \<Rightarrow> 'a Versioned list" where
  "close_rows gen ids rows = map (\<lambda>r. if vr_ID r \<in> set ids \<and> vr_To r = None then r\<lparr>vr_To := Some gen\<rparr> else r)
     (filter (\<lambda>r. \<not> (vr_ID r \<in> set ids \<and> vr_From r = gen)) rows)"

definition closeAdvisories :: "nat \<Rightarrow> string list \<Rightarrow> VulnTables \<Rightarrow> nat \<times> VulnTables" where
  "closeAdvisories gen ids t =
     (if length ids = 0 then (0, t)
      else
        (length (filter (\<lambda>r. vr_ID r \<in> set ids \<and> vr_To r = None) (filter (\<lambda>r. \<not> (vr_ID r \<in> set ids \<and> vr_From r = gen)) (vt_advisories t))),
         \<lparr>vt_advisories = close_rows gen ids (vt_advisories t), vt_refs = close_rows gen ids (vt_refs t), vt_affected = close_rows gen ids (vt_affected t)\<rparr>))"

definition advisory_row :: "ParsedAdvisory \<Rightarrow> AdvisoryRow" where
  "advisory_row a = \<lparr>aw_Source = pa_Source a, aw_Kind = pa_Kind a, aw_CVSSv3Score = pa_CVSSv3Score a, aw_CVSSv4Score = pa_CVSSv4Score a,
     aw_SourceSeverity = pa_SourceSeverity a, aw_ContentSHA256 = pa_ContentSHA256 a\<rparr>"

definition insertAdvisories :: "nat \<Rightarrow> ParsedAdvisory list \<Rightarrow> VulnTables \<Rightarrow> VulnTables" where
  "insertAdvisories gen advs t =
     (if length advs = 0 then t
      else \<lparr>vt_advisories = vt_advisories t @ map (\<lambda>a. \<lparr>vr_ID = pa_ID a, vr_From = gen, vr_To = None, vr_Row = advisory_row a\<rparr>) advs,
            vt_refs = vt_refs t @ concat (map (\<lambda>a. map (\<lambda>r. \<lparr>vr_ID = pa_ID a, vr_From = gen, vr_To = None, vr_Row = r\<rparr>) (pa_Refs a)) advs),
            vt_affected = vt_affected t @ concat (map (\<lambda>a. map (\<lambda>r. \<lparr>vr_ID = pa_ID a, vr_From = gen, vr_To = None, vr_Row = r\<rparr>) (pa_Affected a)) advs)\<rparr>)"

definition currentHashes :: "VulnTables \<Rightarrow> string list \<Rightarrow> string \<rightharpoonup> string" where
  "currentHashes t ids = map_of (rev (map (\<lambda>r. (vr_ID r, aw_ContentSHA256 (vr_Row r))) (filter (\<lambda>r. vr_To r = None \<and> vr_ID r \<in> set ids) (vt_advisories t))))"

subsection \<open>Writing a batch\<close>

record CatalogWriteStats =
  ws_Written :: nat
  ws_Unchanged :: nat
  ws_Closed :: nat

fun first_ids :: "string list \<Rightarrow> ParsedAdvisory list \<Rightarrow> string list" where
  "first_ids seen [] = []"
| "first_ids seen (a # advs) = (if pa_ID a = [] \<or> pa_ID a \<in> set seen then first_ids seen advs else pa_ID a # first_ids (pa_ID a # seen) advs)"

definition last_of :: "ParsedAdvisory list \<Rightarrow> string \<rightharpoonup> ParsedAdvisory" where
  "last_of advs = map_of (rev (map (\<lambda>a. (pa_ID a, a)) (filter (\<lambda>a. pa_ID a \<noteq> []) advs)))"

datatype WriteCase = JustClose | NothingToDo | KeepVersion | ReplaceVersion | NewVersion

definition write_case :: "string option \<Rightarrow> ParsedAdvisory \<Rightarrow> WriteCase" where
  "write_case stored a =
     (if pa_Withdrawn a then (if stored \<noteq> None then JustClose else NothingToDo)
      else if stored = Some (pa_ContentSHA256 a) then KeepVersion
      else if stored \<noteq> None then ReplaceVersion else NewVersion)"

text \<open>What a batch does with each advisory, for the stored hashes \<open>current\<close>.\<close>

definition write_plan :: "(string \<rightharpoonup> string) \<Rightarrow> ParsedAdvisory list \<Rightarrow> (WriteCase \<times> ParsedAdvisory) list" where
  "write_plan current advs = map (\<lambda>i. let a = the (last_of advs i) in (write_case (current i) a, a)) (first_ids [] advs)"

definition plan_closes :: "(WriteCase \<times> ParsedAdvisory) list \<Rightarrow> string list" where
  "plan_closes todo = map (pa_ID \<circ> snd) (filter (\<lambda>ca. fst ca = JustClose \<or> fst ca = ReplaceVersion) todo)"

definition plan_inserts :: "(WriteCase \<times> ParsedAdvisory) list \<Rightarrow> ParsedAdvisory list" where
  "plan_inserts todo = map snd (filter (\<lambda>ca. fst ca = ReplaceVersion \<or> fst ca = NewVersion) todo)"

definition Write :: "nat \<Rightarrow> ParsedAdvisory list \<Rightarrow> VulnTables \<Rightarrow> CatalogWriteStats \<times> VulnTables" where
  "Write gen advs t =
     (if length advs = 0 then (\<lparr>ws_Written = 0, ws_Unchanged = 0, ws_Closed = 0\<rparr>, t)
      else
        let todo = write_plan (currentHashes t (first_ids [] advs)) advs;
            (closed, t) = closeAdvisories gen (plan_closes todo) t
        in (\<lparr>ws_Written = length (plan_inserts todo), ws_Unchanged = length (filter (\<lambda>ca. fst ca = KeepVersion) todo), ws_Closed = closed\<rparr>,
            insertAdvisories gen (plan_inserts todo) t))"

subsection \<open>Closing, rolling back, pruning\<close>

definition catalogIDChunk :: nat where "catalogIDChunk = 1000"

function chunks :: "nat \<Rightarrow> 'a list \<Rightarrow> 'a list list" where
  "chunks n xs = (if xs = [] \<or> n = 0 then [] else take n xs # chunks n (drop n xs))"
  by pat_completeness auto
termination by (relation "measure (\<lambda>(n, xs). length xs)") auto

declare chunks.simps [simp del]

definition Close :: "nat \<Rightarrow> string list \<Rightarrow> VulnTables \<Rightarrow> nat \<times> VulnTables" where
  "Close gen ids t = foldl (\<lambda>(n, t) chunk. let (m, t) = closeAdvisories gen chunk t in (n + m, t)) (0, t) (chunks catalogIDChunk ids)"

definition missing_ids :: "nat \<Rightarrow> string list \<Rightarrow> VulnTables \<Rightarrow> string list" where
  "missing_ids gen seen t = map vr_ID (filter (\<lambda>r. vr_To r = None \<and> vr_From r < gen \<and> vr_ID r \<notin> set seen) (vt_advisories t))"

definition CloseMissing :: "nat \<Rightarrow> string list \<Rightarrow> VulnTables \<Rightarrow> nat \<times> VulnTables" where
  "CloseMissing gen seen t = Close gen (missing_ids gen seen t) t"

definition rollback_rows :: "(nat \<Rightarrow> bool) \<Rightarrow> 'a Versioned list \<Rightarrow> 'a Versioned list" where
  "rollback_rows gens rows = map (\<lambda>r. case vr_To r of None \<Rightarrow> r | Some x \<Rightarrow> if gens x then r\<lparr>vr_To := None\<rparr> else r)
     (filter (\<lambda>r. \<not> gens (vr_From r)) rows)"

definition rollbackGenerations :: "(nat \<Rightarrow> bool) \<Rightarrow> VulnTables \<Rightarrow> VulnTables" where
  "rollbackGenerations gens t = \<lparr>vt_advisories = rollback_rows gens (vt_advisories t), vt_refs = rollback_rows gens (vt_refs t),
     vt_affected = rollback_rows gens (vt_affected t)\<rparr>"

definition prune_rows :: "nat \<Rightarrow> 'a Versioned list \<Rightarrow> 'a Versioned list" where
  "prune_rows oldestKept rows = filter (\<lambda>r. case vr_To r of None \<Rightarrow> True | Some x \<Rightarrow> \<not> x \<le> oldestKept) rows"

text \<open>\<open>stop\<close> is the number of tables pruned before a statement fails, if one does; the first component is whether none failed.\<close>

definition PruneVersionedCatalog :: "nat option \<Rightarrow> nat \<Rightarrow> VulnTables \<Rightarrow> bool \<times> nat \<times> VulnTables" where
  "PruneVersionedCatalog stop oldestKept t =
     (if oldestKept = 0 then (True, 0, t)
      else
        let runs = (\<lambda>k. case stop of None \<Rightarrow> True | Some n \<Rightarrow> k < n);
            t' = \<lparr>vt_advisories = (if runs 0 then prune_rows oldestKept (vt_advisories t) else vt_advisories t),
                  vt_refs = (if runs 1 then prune_rows oldestKept (vt_refs t) else vt_refs t),
                  vt_affected = (if runs 2 then prune_rows oldestKept (vt_affected t) else vt_affected t)\<rparr>
        in (runs 2, (length (vt_advisories t) - length (vt_advisories t')) + (length (vt_refs t) - length (vt_refs t')) +
            (length (vt_affected t) - length (vt_affected t')), t'))"

subsection \<open>What readers of a generation see\<close>

definition visible_rows :: "nat \<Rightarrow> 'a Versioned list \<Rightarrow> (string \<times> 'a) list" where
  "visible_rows g rows = map (\<lambda>r. (vr_ID r, vr_Row r)) (filter (row_visible g) rows)"

definition view :: "nat \<Rightarrow> VulnTables \<Rightarrow> (string \<times> AdvisoryRow) list \<times> (string \<times> AdvisoryRef) list \<times> (string \<times> AffectedRange) list" where
  "view g t = (visible_rows g (vt_advisories t), visible_rows g (vt_refs t), visible_rows g (vt_affected t))"

text \<open>A generation is mentioned by the rows it wrote or closed.\<close>

definition row_mentions :: "nat \<Rightarrow> 'a Versioned \<Rightarrow> bool" where
  "row_mentions x r \<longleftrightarrow> vr_From r = x \<or> vr_To r = Some x"

definition mentions :: "nat \<Rightarrow> VulnTables \<Rightarrow> bool" where
  "mentions x t \<longleftrightarrow> list_ex (row_mentions x) (vt_advisories t) \<or> list_ex (row_mentions x) (vt_refs t) \<or> list_ex (row_mentions x) (vt_affected t)"

named_theorems row_defs

lemmas [row_defs] = visible_rows_def close_rows_def rollback_rows_def prune_rows_def row_visible_def row_mentions_def

lemma visible_append: "visible_rows g (xs @ ys) = visible_rows g xs @ visible_rows g ys"
  by (simp add: visible_rows_def)

lemma visible_close: "g < gen \<Longrightarrow> visible_rows g (close_rows gen ids rows) = visible_rows g rows"
  by (induction rows) (auto simp: row_defs)

lemma visible_later: "list_all (\<lambda>r. g < vr_From r) rows \<Longrightarrow> visible_rows g rows = []"
  by (induction rows) (auto simp: row_defs)

lemma visible_rollback: "list_all (\<lambda>r. \<forall>x. gens x \<longrightarrow> row_mentions x r \<longrightarrow> g < x) rows \<Longrightarrow> visible_rows g (rollback_rows gens rows) = visible_rows g rows"
proof (induction rows)
  case (Cons r rows)
  then show ?case by (cases "vr_To r") (auto simp: row_defs)
qed (simp add: row_defs)

lemma visible_prune: "oldest \<le> g \<Longrightarrow> visible_rows g (prune_rows oldest rows) = visible_rows g rows"
proof (induction rows)
  case (Cons r rows)
  then show ?case by (cases "vr_To r") (auto simp: row_defs)
qed (simp add: row_defs)

lemma view_close: "g < gen \<Longrightarrow> view g (snd (closeAdvisories gen ids t)) = view g t"
  by (simp add: closeAdvisories_def view_def visible_close)

lemma view_insert: "g < gen \<Longrightarrow> view g (insertAdvisories gen advs t) = view g t"
  by (auto simp: insertAdvisories_def view_def visible_append list_all_iff intro!: visible_later)

lemma view_write: "g < gen \<Longrightarrow> view g (snd (Write gen advs t)) = view g t"
  by (simp add: Write_def Let_def case_prod_unfold view_insert view_close)

lemma view_rollback: "(\<And>x. gens x \<Longrightarrow> mentions x t \<Longrightarrow> g < x) \<Longrightarrow> view g (rollbackGenerations gens t) = view g t"
  by (simp add: rollbackGenerations_def view_def mentions_def list_ex_iff) (intro conjI; rule visible_rollback; simp add: list_all_iff; blast)

lemma view_prune: "oldest \<le> g \<Longrightarrow> view g (snd (snd (PruneVersionedCatalog stop oldest t))) = view g t"
  by (simp add: PruneVersionedCatalog_def view_def visible_prune Let_def)

subsection \<open>Undoing a generation\<close>

lemma rollback_append: "rollback_rows gens (xs @ ys) = rollback_rows gens xs @ rollback_rows gens ys"
  by (simp add: rollback_rows_def)

lemma rollback_close_rows: "rollback_rows (\<lambda>x. x = gen) (close_rows gen ids rows) = rollback_rows (\<lambda>x. x = gen) rows"
proof (induction rows)
  case (Cons r rows)
  then show ?case by (cases "vr_To r") (auto simp: row_defs)
qed (simp add: row_defs)

lemma rollback_new: "list_all (\<lambda>r. vr_From r = gen) rows \<Longrightarrow> rollback_rows (\<lambda>x. x = gen) rows = []"
  by (auto simp: rollback_rows_def list_all_iff filter_empty_conv)

lemma rollback_id: "list_all (\<lambda>r. \<forall>x. gens x \<longrightarrow> \<not> row_mentions x r) rows \<Longrightarrow> rollback_rows gens rows = rows"
proof (induction rows)
  case (Cons r rows)
  then show ?case by (cases "vr_To r") (auto simp: row_defs)
qed (simp add: row_defs)

lemma rollback_close: "rollbackGenerations (\<lambda>x. x = gen) (snd (closeAdvisories gen ids t)) = rollbackGenerations (\<lambda>x. x = gen) t"
  by (simp add: closeAdvisories_def rollbackGenerations_def rollback_close_rows)

lemma rollback_insert: "rollbackGenerations (\<lambda>x. x = gen) (insertAdvisories gen advs t) = rollbackGenerations (\<lambda>x. x = gen) t"
  by (auto simp: insertAdvisories_def rollbackGenerations_def rollback_append list_all_iff intro!: rollback_new)

lemma rollback_write: "rollbackGenerations (\<lambda>x. x = gen) (snd (Write gen advs t)) = rollbackGenerations (\<lambda>x. x = gen) t"
  by (simp add: Write_def Let_def case_prod_unfold rollback_insert rollback_close)

lemma rollback_unmentioned: "(\<And>x. gens x \<Longrightarrow> \<not> mentions x t) \<Longrightarrow> rollbackGenerations gens t = t"
  by (cases t) (auto simp: rollbackGenerations_def mentions_def list_all_iff list_ex_iff intro!: rollback_id)

lemma rollback_mentions: "gens x \<Longrightarrow> \<not> mentions x (rollbackGenerations gens t)"
  by (auto simp: rollbackGenerations_def mentions_def list_ex_iff rollback_rows_def row_mentions_def split: option.splits if_splits)

subsection \<open>Which generations an operation leaves mentioned\<close>

lemma mentions_close: "mentions x (snd (closeAdvisories gen ids t)) \<Longrightarrow> x = gen \<or> mentions x t"
  by (auto simp: closeAdvisories_def mentions_def list_ex_iff close_rows_def row_mentions_def split: if_splits)

lemma mentions_insert: "mentions x (insertAdvisories gen advs t) \<Longrightarrow> x = gen \<or> mentions x t"
  by (auto simp: insertAdvisories_def mentions_def list_ex_iff row_mentions_def split: if_splits)

lemma mentions_write: "mentions x (snd (Write gen advs t)) \<Longrightarrow> x = gen \<or> mentions x t"
  by (auto simp: Write_def Let_def case_prod_unfold split: if_splits dest!: mentions_insert mentions_close)

lemma mentions_rollback: "mentions x (rollbackGenerations gens t) \<Longrightarrow> mentions x t"
  by (auto simp: rollbackGenerations_def mentions_def list_ex_iff rollback_rows_def row_mentions_def split: option.splits if_splits)

lemma mentions_prune: "mentions x (snd (snd (PruneVersionedCatalog stop oldest t))) \<Longrightarrow> mentions x t"
  by (auto simp: PruneVersionedCatalog_def Let_def mentions_def list_ex_iff prune_rows_def split: if_splits)

subsection \<open>Closing in chunks\<close>

lemma close_step_snd: "snd (foldl (\<lambda>(n, t) chunk. let (m, t) = closeAdvisories gen chunk t in (n + m, t)) (k, t) css) =
    foldl (\<lambda>t chunk. snd (closeAdvisories gen chunk t)) t css"
  by (induction css arbitrary: k t) (simp_all add: case_prod_unfold Let_def)

lemma Close_fold: "snd (Close gen ids t) = foldl (\<lambda>t chunk. snd (closeAdvisories gen chunk t)) t (chunks catalogIDChunk ids)"
  unfolding Close_def by (rule close_step_snd)

lemma Close_induct:
  assumes "P t" "\<And>u chunk. P u \<Longrightarrow> P (snd (closeAdvisories gen chunk u))"
  shows "P (snd (Close gen ids t))"
  unfolding Close_fold using assms(1) by (rule foldl_invariant) (auto intro: assms(2))

lemma view_Close: "g < gen \<Longrightarrow> view g (snd (Close gen ids t)) = view g t"
  by (rule Close_induct) (simp_all add: view_close)

lemma rollback_Close: "rollbackGenerations (\<lambda>x. x = gen) (snd (Close gen ids t)) = rollbackGenerations (\<lambda>x. x = gen) t"
  by (rule Close_induct) (simp_all add: rollback_close)

lemma mentions_Close: "mentions x (snd (Close gen ids t)) \<Longrightarrow> x = gen \<or> mentions x t"
proof -
  have "mentions x (snd (Close gen ids t)) \<longrightarrow> x = gen \<or> mentions x t"
    by (rule Close_induct) (auto dest: mentions_close)
  then show "mentions x (snd (Close gen ids t)) \<Longrightarrow> x = gen \<or> mentions x t" by blast
qed

lemma set_chunks: "0 < n \<Longrightarrow> \<Union> (set ` set (chunks n xs)) = set xs"
proof (induction n xs rule: chunks.induct)
  case (1 n xs)
  show ?case
  proof (cases "xs = []")
    case False
    then have "\<Union> (set ` set (chunks n xs)) = set (take n xs) \<union> set (drop n xs)" using 1 by (subst chunks.simps) simp
    also have "\<dots> = set xs" by (metis append_take_drop_id set_append)
    finally show ?thesis .
  qed (simp add: chunks.simps)
qed

end
