(* ===== verification/Catalog_Source.thy ===== *)
theory Catalog_Source
  imports Go_Url Go_Strconv
begin

section \<open>The source of a catalog load: core/pkg/cve/loader/source\_validation.go\<close>

text \<open>
  Before a load the files of the source are checked against a signed manifest. \<open>rd\<close> reads a file, \<open>verify\<close> is the signature
  check of ed25519 and \<open>sha256\<close> the hash: parameters. Base64 is modelled as \<^verbatim>\<open>encoding/base64\<close> decodes it, paths as on
  Unix.
\<close>

datatype SourceError = ManifestUnreadable | ManifestInvalid | SignatureNeedsManifest | SignatureIncomplete | SignatureUnreadable
  | EmptyMaterial | BadMaterial nat | NoPublicKey | SignatureRejected nat | SourceUnreadable | AdvisoriesMissing "string list"
  | DigestMismatch string string

subsection \<open>Paths\<close>

definition path_Base :: "string \<Rightarrow> string" where
  "path_Base p =
     (if p = [] then ''.''
      else let q = TrimRightCutset p ''/''
           in if q = [] then ''/'' else (case last_index_byte CHR ''/'' q of None \<Rightarrow> q | Some i \<Rightarrow> drop (Suc i) q))"

definition path_Ext :: "string \<Rightarrow> string" where
  "path_Ext p =
     (let final = (case last_index_byte CHR ''/'' p of None \<Rightarrow> p | Some i \<Rightarrow> drop (Suc i) p)
      in case last_index_byte CHR ''.'' final of None \<Rightarrow> [] | Some i \<Rightarrow> drop i final)"

definition clean_step :: "bool \<Rightarrow> string list \<Rightarrow> string \<Rightarrow> string list" where
  "clean_step rooted out c =
     (if c = [] \<or> c = ''.'' then out
      else if c = ''..'' then
        (if out \<noteq> [] \<and> last out \<noteq> ''..'' then butlast out else if rooted then out else out @ [''..''])
      else out @ [c])"

definition path_Clean :: "string \<Rightarrow> string" where
  "path_Clean p =
     (let rooted = HasPrefix p ''/'';
          r = (if rooted then ''/'' else []) @ join_str ''/'' (foldl (clean_step rooted) [] (split_char CHR ''/'' p))
      in if r = [] then ''.'' else r)"

subsection \<open>Base64\<close>

definition base64_alphabet :: string where
  "base64_alphabet = ''ABCDEFGHIJKLMNOPQRSTUVWXYZabcdefghijklmnopqrstuvwxyz0123456789+/''"

definition base64_val :: "char \<Rightarrow> nat option" where
  "base64_val c = index_byte c base64_alphabet"

definition base64_bytes :: "nat list \<Rightarrow> string" where
  "base64_bytes vs =
     (case vs of [a, b] \<Rightarrow> [byte (a * 4 + b div 16)]
      | [a, b, c] \<Rightarrow> [byte (a * 4 + b div 16), byte (b mod 16 * 16 + c div 4)]
      | [a, b, c, d] \<Rightarrow> [byte (a * 4 + b div 16), byte (b mod 16 * 16 + c div 4), byte (c mod 4 * 64 + d)]
      | _ \<Rightarrow> [])"

definition base64_block :: "string \<Rightarrow> string option" where
  "base64_block s = map_option base64_bytes (those (map base64_val s))"

fun base64_blocks :: "bool \<Rightarrow> string \<Rightarrow> string option" where
  "base64_blocks padded [] = Some []"
| "base64_blocks padded [a] = None"
| "base64_blocks padded [a, b] = (if padded then None else base64_block [a, b])"
| "base64_blocks padded [a, b, c] = (if padded then None else base64_block [a, b, c])"
| "base64_blocks padded (a # b # c # d # rest) =
     (if padded \<and> d = CHR ''='' then
        (if rest \<noteq> [] then None else if c = CHR ''='' then base64_block [a, b] else base64_block [a, b, c])
      else case (base64_block [a, b, c, d], base64_blocks padded rest) of (Some x, Some y) \<Rightarrow> Some (x @ y) | _ \<Rightarrow> None)"

definition base64_decode :: "bool \<Rightarrow> string \<Rightarrow> string option" where
  "base64_decode padded s = base64_blocks padded (filter (\<lambda>c. c \<noteq> CHR 0x0A \<and> c \<noteq> CHR 0x0D) s)"

subsection \<open>The manifest and its signature\<close>

record SourceManifest =
  sm_SourceDigest :: string
  sm_SHA256 :: string
  sm_RequiredAdvisoryIDs :: "string list"

definition decode_manifest :: "json \<Rightarrow> SourceManifest option" where
  "decode_manifest = decode_struct [''sourceDigest'', ''sha256'', ''requiredAdvisoryIds'']
     (\<lambda>f v r. if f = ''sourceDigest'' then map_option (\<lambda>x. r\<lparr>sm_SourceDigest := x\<rparr>) (set_string v (sm_SourceDigest r))
        else if f = ''sha256'' then map_option (\<lambda>x. r\<lparr>sm_SHA256 := x\<rparr>) (set_string v (sm_SHA256 r))
        else map_option (\<lambda>x. r\<lparr>sm_RequiredAdvisoryIDs := x\<rparr>) (set_strings v))
     \<lparr>sm_SourceDigest = [], sm_SHA256 = [], sm_RequiredAdvisoryIDs = []\<rparr>"

definition LoadSourceManifest :: "(string \<Rightarrow> string option) \<Rightarrow> string \<Rightarrow> (SourceError, SourceManifest option) result" where
  "LoadSourceManifest rd path0 =
     (let path = TrimSpace path0
      in if path = [] then Inr None
         else case rd path of
                None \<Rightarrow> Inl ManifestUnreadable
              | Some raw \<Rightarrow> (case unmarshal decode_manifest raw of None \<Rightarrow> Inl ManifestInvalid | Some manifest \<Rightarrow> Inr (Some manifest)))"

definition SplitCSV :: "string \<Rightarrow> string list" where
  "SplitCSV raw = filter (\<lambda>p. p \<noteq> []) (map TrimSpace (split_char CHR '','' raw))"

definition decodeSignatureMaterial :: "string \<Rightarrow> nat \<Rightarrow> (SourceError, string) result" where
  "decodeSignatureMaterial raw expectedLen =
     (let s = TrimSpace raw;
          fits = (\<lambda>decoded. case decoded of None \<Rightarrow> False | Some d \<Rightarrow> length d = expectedLen)
      in if s = [] then Inl EmptyMaterial
         else if fits (base64_decode True s) then Inr (the (base64_decode True s))
         else if fits (base64_decode False s) then Inr (the (base64_decode False s))
         else if fits (hex_decode s) then Inr (the (hex_decode s))
         else if length raw = expectedLen then Inr raw
         else Inl (BadMaterial expectedLen))"

definition readPublicKeyMaterial :: "(string \<Rightarrow> string option) \<Rightarrow> string \<Rightarrow> string" where
  "readPublicKeyMaterial rd value = (case rd value of Some raw \<Rightarrow> raw | None \<Rightarrow> value)"

abbreviation SignatureSize :: nat where "SignatureSize \<equiv> 64"
abbreviation PublicKeySize :: nat where "PublicKeySize \<equiv> 32"

definition decodePublicKeys :: "(string \<Rightarrow> string option) \<Rightarrow> string \<Rightarrow> (SourceError, string list) result" where
  "decodePublicKeys rd value =
     (let parts = SplitCSV value
      in if length parts = 0 then Inl NoPublicKey
         else foldM (\<lambda>keys part. bind_result (decodeSignatureMaterial (readPublicKeyMaterial rd part) PublicKeySize) (\<lambda>pub. Inr (keys @ [pub]))) [] parts)"

definition VerifySourceManifestSignature ::
  "(string \<Rightarrow> string option) \<Rightarrow> (string \<Rightarrow> string \<Rightarrow> string \<Rightarrow> bool) \<Rightarrow> string \<Rightarrow> string \<Rightarrow> string \<Rightarrow> (SourceError, unit) result" where
  "VerifySourceManifestSignature rd verify manifestPath0 signaturePath0 publicKey0 =
     (let manifestPath = TrimSpace manifestPath0; signaturePath = TrimSpace signaturePath0; publicKey = TrimSpace publicKey0
      in if signaturePath = [] \<and> publicKey = [] then Inr ()
         else if manifestPath = [] then Inl SignatureNeedsManifest
         else if signaturePath = [] \<or> publicKey = [] then Inl SignatureIncomplete
         else case rd manifestPath of
           None \<Rightarrow> Inl ManifestUnreadable
         | Some manifestRaw \<Rightarrow>
             (case rd signaturePath of
                None \<Rightarrow> Inl SignatureUnreadable
              | Some signatureRaw \<Rightarrow>
                  bind_result (decodeSignatureMaterial signatureRaw SignatureSize) (\<lambda>signature.
                  bind_result (decodePublicKeys rd publicKey) (\<lambda>keys.
                    if list_ex (\<lambda>pub. verify pub manifestRaw signature) keys then Inr () else Inl (SignatureRejected (length keys))))))"

subsection \<open>Digest and required advisories\<close>

definition ExpectedDigest :: "SourceManifest option \<Rightarrow> string" where
  "ExpectedDigest m0 = (case m0 of None \<Rightarrow> [] | Some m \<Rightarrow> if TrimSpace (sm_SourceDigest m) \<noteq> [] then TrimSpace (sm_SourceDigest m) else TrimSpace (sm_SHA256 m))"

definition merge_id :: "string list \<Rightarrow> string \<Rightarrow> string list" where
  "merge_id out i = (let normalized = ToUpper (TrimSpace i) in if normalized = [] \<or> normalized \<in> set out then out else out @ [normalized])"

definition MergeRequiredAdvisoryIDs :: "string \<Rightarrow> SourceManifest option \<Rightarrow> string" where
  "MergeRequiredAdvisoryIDs csvIDs manifest =
     (let ids = SplitCSV csvIDs @ (case manifest of None \<Rightarrow> [] | Some m \<Rightarrow> sm_RequiredAdvisoryIDs m)
      in join_str '','' (foldl merge_id [] ids))"

definition MergeExpectedDigest :: "string \<Rightarrow> SourceManifest option \<Rightarrow> string" where
  "MergeExpectedDigest flagDigest0 manifest =
     (let flagDigest = TrimSpace flagDigest0
      in if flagDigest \<noteq> [] then flagDigest else case manifest of None \<Rightarrow> [] | Some m \<Rightarrow> ExpectedDigest (Some m))"

fun source_contents :: "(string \<Rightarrow> string option) \<Rightarrow> string list \<Rightarrow> string option" where
  "source_contents rd [] = Some []"
| "source_contents rd (file # files) =
     (case rd file of None \<Rightarrow> None | Some content \<Rightarrow> map_option (\<lambda>rest. file @ content @ rest) (source_contents rd files))"

definition ComputeSourceDigest :: "(string \<Rightarrow> string option) \<Rightarrow> (string \<Rightarrow> string) \<Rightarrow> string list \<Rightarrow> (SourceError, string) result" where
  "ComputeSourceDigest rd sha256 files =
     (case source_contents rd files of None \<Rightarrow> Inl SourceUnreadable | Some bytes \<Rightarrow> Inr (''sha256:'' @ hex_encode (sha256 bytes)))"

definition file_advisory :: "string \<Rightarrow> string" where
  "file_advisory file = ToUpper (TrimSpace (TrimSuffix (path_Base file) (path_Ext file)))"

definition ValidateRequiredAdvisories :: "string list \<Rightarrow> string \<Rightarrow> (SourceError, unit) result" where
  "ValidateRequiredAdvisories files requireIDs =
     (let missing = filter (\<lambda>i. ToUpper i \<notin> set (map file_advisory files)) (SplitCSV requireIDs)
      in if length missing > 0 then Inl (AdvisoriesMissing missing) else Inr ())"

definition ValidateExpectedSourceDigest :: "string \<Rightarrow> string \<Rightarrow> (SourceError, unit) result" where
  "ValidateExpectedSourceDigest actual0 expected0 =
     (let expected = TrimSpace (ToLower expected0)
      in if expected = [] then Inr ()
         else
           let actual = TrimSpace (ToLower actual0);
               expected = (if HasPrefix expected ''sha256:'' then expected else ''sha256:'' @ expected)
           in if actual \<noteq> expected then Inl (DigestMismatch actual expected) else Inr ())"

subsection \<open>What the checks establish\<close>

lemma decodeSignatureMaterial_length: "decodeSignatureMaterial raw n = Inr d \<Longrightarrow> length d = n"
  by (auto simp: decodeSignatureMaterial_def Let_def split: if_splits option.splits)

lemma decodePublicKeys_Inr:
  "decodePublicKeys rd value = Inr keys \<Longrightarrow> keys \<noteq> [] \<and> list_all (\<lambda>pub. length pub = PublicKeySize) keys"
proof -
  have "foldM (\<lambda>keys part. bind_result (decodeSignatureMaterial (readPublicKeyMaterial rd part) PublicKeySize) (\<lambda>pub. Inr (keys @ [pub]))) acc parts = Inr keys \<Longrightarrow>
      list_all (\<lambda>pub. length pub = PublicKeySize) acc \<Longrightarrow> length keys = length acc + length parts \<and> list_all (\<lambda>pub. length pub = PublicKeySize) keys" for parts acc
  proof (induction parts arbitrary: acc)
    case (Cons part parts)
    then obtain pub where "decodeSignatureMaterial (readPublicKeyMaterial rd part) PublicKeySize = Inr pub"
      by (cases "decodeSignatureMaterial (readPublicKeyMaterial rd part) PublicKeySize") auto
    then show ?case using Cons.prems Cons.IH [of "acc @ [pub]"] by (simp add: decodeSignatureMaterial_length)
  qed simp
  then show "decodePublicKeys rd value = Inr keys \<Longrightarrow> keys \<noteq> [] \<and> list_all (\<lambda>pub. length pub = PublicKeySize) keys"
    by (fastforce simp: decodePublicKeys_def Let_def split: if_splits)
qed

end
