(* ===== verification/Catalog_Load.thy ===== *)
theory Catalog_Load
  imports Vuln_Catalog Catalog_Source "HOL-Library.Product_Lexorder"
begin

section \<open>Loading a directory of advisories: directory\_load.go, bulk\_loader.go, incremental\_tracker.go, generation.go\<close>

text \<open>
  The database holds the catalog tables, the generations and the metadata of the source files. What surrounds a load is a parameter
  (\<open>LoadIO\<close>): the files of the source, which do not change while a load runs, the order in which parsed files arrive and in which a
  Go map is iterated, the identifier of a new generation, the clock, the hash functions, and which database statements fail.
\<close>

record CatalogGeneration =
  cg_ID :: nat
  cg_CatalogType :: string
  cg_SourceURL :: string
  cg_SourceDigest :: string
  cg_Status :: string
  cg_ErrorSummary :: string
  cg_StartedAt :: int
  cg_ActivatedAt :: "int option"
  cg_LoaderVersion :: string
  cg_ValidationStatus :: string
  cg_ValidationSummary :: string

record FileMetadata =
  fm_FilePath :: string
  fm_CVEID :: string
  fm_FileSize :: int
  fm_FileMTime :: int
  fm_FileHash :: string
  fm_LastProcessedAt :: "int option"
  fm_ProcessingStatus :: string
  fm_ErrorMessage :: string

record CatalogDb =
  cb_HasTables :: bool
  cb_Tables :: VulnTables
  cb_Generations :: "CatalogGeneration list"
  cb_Files :: "FileMetadata list"

record FileInfo =
  fi_Size :: int
  fi_MTime :: int

datatype LoadStatement = ReadCatalog | CreateGeneration | WriteBatch nat | CloseRows | CompleteGeneration | FailGeneration | RollbackRows
  | ReadMetadata | ReadRemoved | SaveMetadata nat | MarkComplete nat | ReadOrphans | DeleteOrphans

record LoadIO =
  io_Glob :: "string \<Rightarrow> string list option"
  io_Stat :: "string \<Rightarrow> FileInfo option"
  io_Read :: "string \<Rightarrow> string option"
  io_Verify :: "string \<Rightarrow> string \<Rightarrow> string \<Rightarrow> bool"
  io_Sha256 :: "string \<Rightarrow> string"
  io_Float :: FloatArith
  io_Cvss :: CvssLib
  io_Arrival :: "nat \<Rightarrow> ParsedAdvisory list \<Rightarrow> ParsedAdvisory list"
  io_MapOrder :: "string list \<Rightarrow> string list"
  io_NewID :: nat
  io_Now :: int
  io_Fails :: "LoadStatement \<Rightarrow> bool"
  io_ErrorText :: "LoadStatement \<Rightarrow> string"

datatype LoadError = ListFiles | BadSource SourceError | GenerationNotCreated | TablesMissing | WriteFailed | FilesFailed nat
  | CloseFailed | NotCompleted | ChangesUnknown | RemovedUnknown | CatalogUnreadable

record DirectoryLoad =
  dl_SourceDir :: string
  dl_Workers :: int
  dl_BatchSize :: int
  dl_CheckpointInterval :: int
  dl_ComputeHash :: bool
  dl_DryRun :: bool
  dl_LoaderVersion :: string
  dl_RequireIDs :: string
  dl_ExpectedSourceDigest :: string
  dl_SourceManifestPath :: string
  dl_SourceManifestSig :: string
  dl_SourceManifestPubKey :: string

definition withDefaults :: "DirectoryLoad \<Rightarrow> DirectoryLoad" where
  "withDefaults o0 =
     (let o1 = (if dl_Workers o0 \<le> 0 then o0\<lparr>dl_Workers := 8\<rparr> else o0);
          o2 = (if dl_BatchSize o1 \<le> 0 then o1\<lparr>dl_BatchSize := 1000\<rparr> else o1);
          o3 = (if dl_CheckpointInterval o2 \<le> 0 then o2\<lparr>dl_CheckpointInterval := 5000\<rparr> else o2)
      in if dl_LoaderVersion o3 = [] then o3\<lparr>dl_LoaderVersion := ''cve-loader-optimized''\<rparr> else o3)"

definition validate_source :: "LoadIO \<Rightarrow> DirectoryLoad \<Rightarrow> string list \<Rightarrow> (SourceError, string) result" where
  "validate_source io opts files =
     bind_result (VerifySourceManifestSignature (io_Read io) (io_Verify io) (dl_SourceManifestPath opts) (dl_SourceManifestSig opts) (dl_SourceManifestPubKey opts)) (\<lambda>_.
     bind_result (LoadSourceManifest (io_Read io) (dl_SourceManifestPath opts)) (\<lambda>manifest.
     bind_result (ValidateRequiredAdvisories files (MergeRequiredAdvisoryIDs (dl_RequireIDs opts) manifest)) (\<lambda>_.
     bind_result (ComputeSourceDigest (io_Read io) (io_Sha256 io) files) (\<lambda>digest.
     bind_result (ValidateExpectedSourceDigest digest (MergeExpectedDigest (dl_ExpectedSourceDigest opts) manifest)) (\<lambda>_. Inr digest)))))"

subsection \<open>The bulk loader\<close>

record BulkStats =
  bs_TotalFiles :: nat
  bs_ProcessedFiles :: nat
  bs_FailedFiles :: nat
  bs_Written :: nat
  bs_Unchanged :: nat
  bs_Closed :: nat

record BulkLoader =
  bl_batchSize :: nat
  bl_gen :: "nat option"
  bl_seen :: "string list"
  bl_stats :: BulkStats

definition NewBulkLoader :: "DirectoryLoad \<Rightarrow> BulkLoader" where
  "NewBulkLoader opts = \<lparr>bl_batchSize = nat (dl_BatchSize opts), bl_gen = None, bl_seen = [],
     bl_stats = \<lparr>bs_TotalFiles = 0, bs_ProcessedFiles = 0, bs_FailedFiles = 0, bs_Written = 0, bs_Unchanged = 0, bs_Closed = 0\<rparr>\<rparr>"

definition SetCatalogGenerationID :: "CatalogDb \<Rightarrow> nat \<Rightarrow> BulkLoader \<Rightarrow> BulkLoader" where
  "SetCatalogGenerationID db gen l = l\<lparr>bl_gen := (if gen = 0 \<or> \<not> cb_HasTables db then None else Some gen)\<rparr>"

definition AddClosed :: "nat \<Rightarrow> BulkLoader \<Rightarrow> BulkLoader" where
  "AddClosed n l = l\<lparr>bl_stats := (bl_stats l)\<lparr>bs_Closed := bs_Closed (bl_stats l) + n\<rparr>\<rparr>"

definition parse_file :: "LoadIO \<Rightarrow> string \<Rightarrow> ParsedAdvisory option" where
  "parse_file io f = (case io_Read io f of None \<Rightarrow> None | Some raw \<Rightarrow>
     (case ParseBytes raw of None \<Rightarrow> None | Some v \<Rightarrow> Some (BuildAdvisory (io_Float io) (io_Cvss io) (io_Sha256 io) v raw)))"

definition parseFilesParallel :: "LoadIO \<Rightarrow> nat \<Rightarrow> string list \<Rightarrow> BulkLoader \<Rightarrow> ParsedAdvisory list \<times> BulkLoader" where
  "parseFilesParallel io n files l =
     (io_Arrival io n (List.map_filter (parse_file io) files),
      l\<lparr>bl_stats := (bl_stats l)\<lparr>bs_FailedFiles := bs_FailedFiles (bl_stats l) + length (filter (\<lambda>f. parse_file io f = None) files)\<rparr>\<rparr>)"

definition processBatch :: "LoadIO \<Rightarrow> nat \<Rightarrow> string list \<Rightarrow> BulkLoader \<times> CatalogDb \<Rightarrow> LoadError option \<times> BulkLoader \<times> CatalogDb" where
  "processBatch io n files ldb =
     (let (l, db) = ldb
      in case bl_gen l of
           None \<Rightarrow> (Some TablesMissing, l, db)
         | Some gen \<Rightarrow>
             let (advisories, l) = parseFilesParallel io n files l;
                 l = l\<lparr>bl_seen := bl_seen l @ map pa_ID advisories\<rparr>
             in if io_Fails io (WriteBatch n) \<and> advisories \<noteq> [] then (Some WriteFailed, l, db)
                else
                  let (st, tables) = Write gen advisories (cb_Tables db);
                      s = bl_stats l
                  in (None, l\<lparr>bl_stats := s\<lparr>bs_Written := bs_Written s + ws_Written st, bs_Unchanged := bs_Unchanged s + ws_Unchanged st,
                        bs_Closed := bs_Closed s + ws_Closed st, bs_ProcessedFiles := bs_ProcessedFiles s + length files\<rparr>\<rparr>, db\<lparr>cb_Tables := tables\<rparr>))"

fun load_batches :: "LoadIO \<Rightarrow> nat \<Rightarrow> string list list \<Rightarrow> BulkLoader \<times> CatalogDb \<Rightarrow> LoadError option \<times> BulkLoader \<times> CatalogDb" where
  "load_batches io n [] ldb = (None, ldb)"
| "load_batches io n (batch # rest) ldb =
     (case processBatch io n batch ldb of (Some e, ldb) \<Rightarrow> (Some e, ldb) | (None, ldb) \<Rightarrow> load_batches io (Suc n) rest ldb)"

definition LoadFiles :: "LoadIO \<Rightarrow> string list \<Rightarrow> BulkLoader \<times> CatalogDb \<Rightarrow> LoadError option \<times> BulkLoader \<times> CatalogDb" where
  "LoadFiles io files ldb =
     (let (l, db) = ldb
      in load_batches io 0 (chunks (bl_batchSize l) files) (l\<lparr>bl_stats := (bl_stats l)\<lparr>bs_TotalFiles := length files\<rparr>\<rparr>, db))"

subsection \<open>Generations\<close>

definition startCatalogGeneration :: "LoadIO \<Rightarrow> DirectoryLoad \<Rightarrow> string \<Rightarrow> CatalogDb \<Rightarrow> nat option \<times> CatalogDb" where
  "startCatalogGeneration io opts sourceDigest db =
     (if io_Fails io CreateGeneration then (None, db)
      else (Some (io_NewID io), db\<lparr>cb_Generations := cb_Generations db @
        [\<lparr>cg_ID = io_NewID io, cg_CatalogType = ''cve'', cg_SourceURL = dl_SourceDir opts, cg_SourceDigest = sourceDigest, cg_Status = ''running'',
          cg_ErrorSummary = [], cg_StartedAt = io_Now io, cg_ActivatedAt = None, cg_LoaderVersion = dl_LoaderVersion opts,
          cg_ValidationStatus = ''pending'', cg_ValidationSummary = ''source digest and required advisory checks passed; load running''\<rparr>]\<rparr>))"

definition completed :: "LoadIO \<Rightarrow> BulkStats \<Rightarrow> string \<Rightarrow> string \<Rightarrow> CatalogGeneration \<Rightarrow> CatalogGeneration" where
  "completed io stats status errorSummary g =
     (let (vs, vm) =
            (if status = ''failed'' then (''failed'', ''load failed'')
             else if bs_FailedFiles stats > 0 then (''degraded'', ''load completed with failed files'')
             else (''passed'', ''source digest validated; required advisories present; load completed''));
          g = g\<lparr>cg_Status := status, cg_ErrorSummary := errorSummary, cg_ValidationStatus := vs, cg_ValidationSummary := vm\<rparr>
      in if status = ''active'' then g\<lparr>cg_ActivatedAt := Some (io_Now io)\<rparr> else g)"

definition update_generation :: "nat \<Rightarrow> (CatalogGeneration \<Rightarrow> CatalogGeneration) \<Rightarrow> CatalogDb \<Rightarrow> CatalogDb" where
  "update_generation gen f db = db\<lparr>cb_Generations := map (\<lambda>g. if cg_ID g = gen then f g else g) (cb_Generations db)\<rparr>"

definition completeCatalogGeneration :: "LoadIO \<Rightarrow> bool \<Rightarrow> nat \<Rightarrow> BulkStats \<Rightarrow> string \<Rightarrow> string \<Rightarrow> CatalogDb \<Rightarrow> bool \<times> CatalogDb" where
  "completeCatalogGeneration io fails gen stats status errorSummary db =
     (if fails then (False, db) else (True, update_generation gen (completed io stats status errorSummary) db))"

definition RollbackCatalogGeneration :: "nat \<Rightarrow> CatalogDb \<Rightarrow> CatalogDb" where
  "RollbackCatalogGeneration gen db =
     (if gen = 0 \<or> \<not> cb_HasTables db then db else db\<lparr>cb_Tables := rollbackGenerations (\<lambda>g. g = gen) (cb_Tables db)\<rparr>)"

definition failCatalogGeneration :: "LoadIO \<Rightarrow> nat \<Rightarrow> BulkStats \<Rightarrow> string \<Rightarrow> CatalogDb \<Rightarrow> CatalogDb" where
  "failCatalogGeneration io gen stats errorSummary db =
     (let db = snd (completeCatalogGeneration io (io_Fails io FailGeneration) gen stats ''failed'' errorSummary db)
      in if io_Fails io RollbackRows then db else RollbackCatalogGeneration gen db)"

definition unfinished :: "CatalogGeneration \<Rightarrow> bool" where
  "unfinished g \<longleftrightarrow> cg_CatalogType g = ''cve'' \<and> (cg_Status g = ''running'' \<or> cg_Status g = ''failed'')"

definition RollbackUnfinishedCatalogGenerations :: "CatalogDb \<Rightarrow> CatalogDb" where
  "RollbackUnfinishedCatalogGenerations db =
     (if \<not> cb_HasTables db then db
      else db\<lparr>cb_Tables := rollbackGenerations (\<lambda>x. x \<in> cg_ID ` set (filter unfinished (cb_Generations db))) (cb_Tables db),
              cb_Generations := map (\<lambda>g. if cg_CatalogType g = ''cve'' \<and> cg_Status g = ''running''
                then g\<lparr>cg_Status := ''failed'', cg_ErrorSummary := ''load did not finish'', cg_ValidationStatus := ''failed''\<rparr> else g) (cb_Generations db)\<rparr>)"

definition loadIntoGeneration :: "LoadIO \<Rightarrow> nat \<Rightarrow> string list \<Rightarrow> BulkLoader \<times> CatalogDb \<Rightarrow> LoadError option \<times> BulkLoader \<times> CatalogDb" where
  "loadIntoGeneration io gen files ldb =
     (case LoadFiles io files ldb of
        (Some e, l, db) \<Rightarrow> (Some e, l, failCatalogGeneration io gen (bl_stats l) (io_ErrorText io (WriteBatch 0)) db)
      | (None, l, db) \<Rightarrow>
          if bs_FailedFiles (bl_stats l) > 0
          then (Some (FilesFailed (bs_FailedFiles (bl_stats l))), l,
                failCatalogGeneration io gen (bl_stats l) (Itoa (bs_FailedFiles (bl_stats l)) @ '' source files failed; catalog generation not activated'') db)
          else (None, l, db))"

text \<open>Newest activation first, among equals the larger identifier; PostgreSQL sorts missing instants first when descending.\<close>

definition newest_first :: "CatalogGeneration \<Rightarrow> nat \<times> int \<times> int" where
  "newest_first g = (case cg_ActivatedAt g of None \<Rightarrow> (0, 0, - int (cg_ID g)) | Some t \<Rightarrow> (1, - t, - int (cg_ID g)))"

definition active_cve :: "CatalogGeneration \<Rightarrow> bool" where
  "active_cve g \<longleftrightarrow> cg_CatalogType g = ''cve'' \<and> cg_Status g = ''active''"

definition active_generations :: "CatalogGeneration list \<Rightarrow> CatalogGeneration list" where
  "active_generations gens = sort_key newest_first (filter active_cve gens)"

definition ActiveCVEGeneration :: "CatalogDb \<Rightarrow> CatalogGeneration option" where
  "ActiveCVEGeneration db = (case active_generations (cb_Generations db) of [] \<Rightarrow> None | g # _ \<Rightarrow> Some g)"

definition retire :: "nat list \<Rightarrow> CatalogDb \<Rightarrow> CatalogDb" where
  "retire ids db = db\<lparr>cb_Generations := map (\<lambda>g. if cg_ID g \<in> set ids then g\<lparr>cg_Status := ''retired''\<rparr> else g) (cb_Generations db)\<rparr>"

text \<open>
  \<open>stop\<close> is the number of tables pruned, and \<open>stops\<close> the number of generations retired, before a statement fails, if one does.
\<close>

definition oldest_kept :: "nat \<Rightarrow> CatalogGeneration list \<Rightarrow> nat" where
  "oldest_kept keep gens = foldl (\<lambda>m g. if cg_ID g < m then cg_ID g else m) (cg_ID (hd gens)) (take keep gens)"

definition PruneCVEGenerations :: "int \<Rightarrow> nat option \<Rightarrow> nat option \<Rightarrow> CatalogDb \<Rightarrow> (nat list \<times> nat) \<times> CatalogDb" where
  "PruneCVEGenerations keep0 stop stops db =
     (let keep = nat (if keep0 < 1 then 1 else keep0);
          gens = active_generations (cb_Generations db)
      in if gens = [] then (([], 0), db)
         else
           let (ok, deleted, tables) = (if cb_HasTables db then PruneVersionedCatalog stop (oldest_kept keep gens) (cb_Tables db) else (True, 0, cb_Tables db));
               old = map cg_ID (drop keep gens);
               retired = (if \<not> ok then [] else case stops of None \<Rightarrow> old | Some n \<Rightarrow> take n old)
           in ((retired, deleted), retire retired (db\<lparr>cb_Tables := tables\<rparr>)))"

subsection \<open>The tracker of source files\<close>

definition extractCVEIDFromPath :: "string \<Rightarrow> string" where
  "extractCVEIDFromPath path =
     (let base = path_Base path
      in if length base > 5 \<and> drop (length base - 5) base = ''.json'' then take (length base - 5) base else base)"

definition scanDirectory :: "LoadIO \<Rightarrow> string \<Rightarrow> (string \<times> FileInfo) list option" where
  "scanDirectory io dir =
     (case io_Glob io dir of None \<Rightarrow> None
      | Some files \<Rightarrow> Some (List.map_filter (\<lambda>f. case io_Stat io f of None \<Rightarrow> None | Some info \<Rightarrow> Some (f, info)) files))"

definition computeFileHash :: "LoadIO \<Rightarrow> string \<Rightarrow> string option" where
  "computeFileHash io f = (case io_Read io f of None \<Rightarrow> None | Some content \<Rightarrow> Some (hex_encode (io_Sha256 io content)))"

definition hash_or_empty :: "LoadIO \<Rightarrow> string \<Rightarrow> string" where
  "hash_or_empty io f = (case computeFileHash io f of None \<Rightarrow> [] | Some h \<Rightarrow> h)"

definition new_metadata :: "LoadIO \<Rightarrow> bool \<Rightarrow> string \<Rightarrow> FileInfo \<Rightarrow> FileMetadata" where
  "new_metadata io computeHash f info =
     \<lparr>fm_FilePath = f, fm_CVEID = extractCVEIDFromPath f, fm_FileSize = fi_Size info, fm_FileMTime = fi_MTime info,
      fm_FileHash = (if computeHash then hash_or_empty io f else []), fm_LastProcessedAt = None, fm_ProcessingStatus = ''pending'', fm_ErrorMessage = []\<rparr>"

text \<open>Instants are compared at the precision of the database, a microsecond.\<close>

definition microseconds :: "int \<Rightarrow> int" where
  "microseconds t = t - t mod 1000"

definition change_reason :: "LoadIO \<Rightarrow> bool \<Rightarrow> FileMetadata \<Rightarrow> FileInfo \<Rightarrow> string option" where
  "change_reason io computeHash meta info =
     (if microseconds (fi_MTime info) > microseconds (fm_FileMTime meta) then Some ''mtime_changed''
      else if fi_Size info \<noteq> fm_FileSize meta then Some ''size_changed''
      else if fm_ProcessingStatus meta = ''failed'' then Some ''retry_failed''
      else if computeHash \<and> fm_FileHash meta \<noteq> [] then
        (case computeFileHash io (fm_FilePath meta) of
           Some currentHash \<Rightarrow> if currentHash \<noteq> fm_FileHash meta then Some ''hash_changed'' else None
         | None \<Rightarrow> None)
      else None)"

definition changed_metadata :: "LoadIO \<Rightarrow> bool \<Rightarrow> string \<Rightarrow> FileInfo \<Rightarrow> FileMetadata \<Rightarrow> FileMetadata" where
  "changed_metadata io computeHash reason info meta =
     meta\<lparr>fm_FileSize := fi_Size info, fm_FileMTime := fi_MTime info, fm_ProcessingStatus := ''pending'', fm_ErrorMessage := ''Changed: '' @ reason,
       fm_FileHash := (if computeHash then hash_or_empty io (fm_FilePath meta) else fm_FileHash meta)\<rparr>"

definition metadata_of :: "FileMetadata list \<Rightarrow> string \<Rightarrow> FileMetadata option" where
  "metadata_of metas f = (case filter (\<lambda>m. fm_FilePath m = f) metas of [] \<Rightarrow> None | ms \<Rightarrow> Some (last ms))"

datatype Tracked = NewFile FileMetadata | ChangedFile FileMetadata | SameFile

definition track_file :: "LoadIO \<Rightarrow> bool \<Rightarrow> FileMetadata list \<Rightarrow> string \<Rightarrow> FileInfo \<Rightarrow> Tracked" where
  "track_file io computeHash metas f info =
     (case metadata_of metas f of
        None \<Rightarrow> NewFile (new_metadata io computeHash f info)
      | Some meta \<Rightarrow>
          (case change_reason io computeHash meta info of None \<Rightarrow> SameFile | Some reason \<Rightarrow> ChangedFile (changed_metadata io computeHash reason info meta)))"

fun tracked_new :: "Tracked \<Rightarrow> FileMetadata list" where
  "tracked_new (NewFile m) = [m]" | "tracked_new (ChangedFile m) = []" | "tracked_new SameFile = []"

fun tracked_changed :: "Tracked \<Rightarrow> FileMetadata list" where
  "tracked_changed (NewFile m) = []" | "tracked_changed (ChangedFile m) = [m]" | "tracked_changed SameFile = []"

definition save_row :: "FileMetadata \<Rightarrow> FileMetadata list \<Rightarrow> FileMetadata list" where
  "save_row meta = map (\<lambda>m. if fm_FilePath m = fm_FilePath meta then meta else m)"

definition metadata_statements :: "FileMetadata list \<Rightarrow> FileMetadata list \<Rightarrow> (FileMetadata list \<Rightarrow> FileMetadata list) list" where
  "metadata_statements newFiles updates = (if length newFiles > 0 then [\<lambda>metas. metas @ newFiles] else []) @ map save_row updates"

text \<open>The new rows are inserted in one transaction. Statements run one after the other until one fails.\<close>

fun run_statements :: "(nat \<Rightarrow> bool) \<Rightarrow> nat \<Rightarrow> ('d \<Rightarrow> 'd) list \<Rightarrow> 'd \<Rightarrow> bool \<times> 'd" where
  "run_statements fails n [] d = (True, d)"
| "run_statements fails n (f # fs) d = (if fails n then (False, d) else run_statements fails (Suc n) fs (f d))"

definition saveMetadata :: "LoadIO \<Rightarrow> FileMetadata list \<Rightarrow> FileMetadata list \<Rightarrow> CatalogDb \<Rightarrow> bool \<times> CatalogDb" where
  "saveMetadata io newFiles updates db =
     (let (ok, metas) = run_statements (\<lambda>n. io_Fails io (SaveMetadata n)) 0 (metadata_statements newFiles updates) (cb_Files db)
      in (ok, db\<lparr>cb_Files := metas\<rparr>))"

definition GetFilesToProcess :: "LoadIO \<Rightarrow> DirectoryLoad \<Rightarrow> CatalogDb \<Rightarrow> string list option \<times> CatalogDb" where
  "GetFilesToProcess io opts db =
     (case scanDirectory io (dl_SourceDir opts) of
        None \<Rightarrow> (None, db)
      | Some allFiles \<Rightarrow>
          if io_Fails io ReadMetadata then (None, db)
          else
            let names = io_MapOrder io (map fst allFiles);
                tracked = map (\<lambda>f. (f, track_file io (dl_ComputeHash opts) (cb_Files db) f (the (map_of allFiles f)))) names;
                (ok, db) = saveMetadata io (concat (map (tracked_new \<circ> snd) tracked)) (concat (map (tracked_changed \<circ> snd) tracked)) db
            in if ok then (Some (map fst (filter (\<lambda>ft. snd ft \<noteq> SameFile) tracked)), db) else (None, db))"

definition processed_rows :: "LoadIO \<Rightarrow> string list \<Rightarrow> FileMetadata list \<Rightarrow> FileMetadata list" where
  "processed_rows io files = map (\<lambda>m. if fm_FilePath m \<in> set files
     then m\<lparr>fm_ProcessingStatus := ''success'', fm_LastProcessedAt := Some (io_Now io), fm_ErrorMessage := []\<rparr> else m)"

definition MarkProcessingComplete :: "LoadIO \<Rightarrow> string list \<Rightarrow> CatalogDb \<Rightarrow> bool \<times> CatalogDb" where
  "MarkProcessingComplete io files db =
     (let (ok, metas) = run_statements (\<lambda>n. io_Fails io (MarkComplete n)) 0 (map (processed_rows io) (chunks 10000 files)) (cb_Files db)
      in (ok, db\<lparr>cb_Files := metas\<rparr>))"

definition RemovedCVEIDs :: "LoadIO \<Rightarrow> DirectoryLoad \<Rightarrow> CatalogDb \<Rightarrow> string list option" where
  "RemovedCVEIDs io opts db =
     (if io_Fails io ReadRemoved then None
      else case scanDirectory io (dl_SourceDir opts) of
        None \<Rightarrow> None
      | Some current \<Rightarrow>
          Some (map fm_CVEID (filter (\<lambda>m. HasPrefix (path_Clean (fm_FilePath m)) (path_Clean (dl_SourceDir opts) @ ''/'') \<and>
            fm_FilePath m \<notin> fst ` set current) (cb_Files db))))"

definition CleanupOrphaned :: "LoadIO \<Rightarrow> CatalogDb \<Rightarrow> CatalogDb" where
  "CleanupOrphaned io db =
     (if io_Fails io ReadOrphans \<or> io_Fails io DeleteOrphans then db
      else db\<lparr>cb_Files := filter (\<lambda>m. io_Stat io (fm_FilePath m) \<noteq> None) (cb_Files db)\<rparr>)"

definition VersionedCatalogEmpty :: "LoadIO \<Rightarrow> CatalogDb \<Rightarrow> bool option" where
  "VersionedCatalogEmpty io db =
     (if \<not> cb_HasTables db then Some False else if io_Fails io ReadCatalog then None else Some (vt_advisories (cb_Tables db) = []))"

subsection \<open>The two loads\<close>

text \<open>Without tables the writer is nil and closes nothing; so does a list without identifiers.\<close>

definition record_source_files :: "LoadIO \<Rightarrow> DirectoryLoad \<Rightarrow> string list \<Rightarrow> CatalogDb \<Rightarrow> CatalogDb" where
  "record_source_files io opts files db =
     (case GetFilesToProcess io opts db of (None, db) \<Rightarrow> db | (Some _, db) \<Rightarrow> snd (MarkProcessingComplete io files db))"

definition finish_load :: "LoadIO \<Rightarrow> nat \<Rightarrow> BulkStats \<Rightarrow> CatalogDb \<Rightarrow> (LoadError, unit) result \<times> CatalogDb" where
  "finish_load io gen stats db =
     (case completeCatalogGeneration io (io_Fails io CompleteGeneration) gen stats ''active'' [] db of
        (True, db) \<Rightarrow> (Inr (), db) | (False, db) \<Rightarrow> (Inl NotCompleted, db))"

definition close_or_fail :: "LoadIO \<Rightarrow> nat \<Rightarrow> bool \<Rightarrow> (VulnTables \<Rightarrow> nat \<times> VulnTables) \<Rightarrow> BulkLoader \<times> CatalogDb \<Rightarrow> LoadError option \<times> BulkLoader \<times> CatalogDb" where
  "close_or_fail io gen runs closing ldb =
     (let (l, db) = ldb
      in if bl_gen l = None \<or> \<not> runs then (None, l, db)
         else if io_Fails io CloseRows then (Some CloseFailed, l, failCatalogGeneration io gen (bl_stats l) (io_ErrorText io CloseRows) db)
         else let (n, tables) = closing (cb_Tables db) in (None, AddClosed n l, db\<lparr>cb_Tables := tables\<rparr>))"

definition LoadAll :: "LoadIO \<Rightarrow> DirectoryLoad \<Rightarrow> CatalogDb \<Rightarrow> (LoadError, unit) result \<times> CatalogDb" where
  "LoadAll io opts0 db =
     (let opts = withDefaults opts0
      in case io_Glob io (dl_SourceDir opts) of
           None \<Rightarrow> (Inl ListFiles, db)
         | Some files \<Rightarrow>
       case validate_source io opts files of
           Inl e \<Rightarrow> (Inl (BadSource e), db)
         | Inr digest \<Rightarrow>
       if dl_DryRun opts then (Inr (), db)
       else case startCatalogGeneration io opts digest db of
           (None, db) \<Rightarrow> (Inl GenerationNotCreated, db)
         | (Some gen, db) \<Rightarrow>
       case loadIntoGeneration io gen files (SetCatalogGenerationID db gen (NewBulkLoader opts), db) of
           (Some e, l, db) \<Rightarrow> (Inl e, db)
         | (None, l, db) \<Rightarrow>
       case close_or_fail io gen True (CloseMissing gen (bl_seen l)) (l, db) of
           (Some e, l, db) \<Rightarrow> (Inl e, db)
         | (None, l, db) \<Rightarrow> finish_load io gen (bl_stats l) (record_source_files io opts files db))"

definition LoadChanged :: "LoadIO \<Rightarrow> DirectoryLoad \<Rightarrow> CatalogDb \<Rightarrow> (LoadError, unit) result \<times> CatalogDb" where
  "LoadChanged io opts0 db =
     (let opts = withDefaults opts0
      in case GetFilesToProcess io opts db of
           (None, db) \<Rightarrow> (Inl ChangesUnknown, db)
         | (Some files, db) \<Rightarrow>
       case RemovedCVEIDs io opts db of
           None \<Rightarrow> (Inl RemovedUnknown, db)
         | Some removedIDs \<Rightarrow>
       case (if dl_DryRun opts then Some False else VersionedCatalogEmpty io db) of
           None \<Rightarrow> (Inl CatalogUnreadable, db)
         | Some isEmpty \<Rightarrow>
       if isEmpty then LoadAll io opts db
       else if length files = 0 \<and> length removedIDs = 0 then (Inr (), db)
       else case validate_source io opts files of
           Inl e \<Rightarrow> (Inl (BadSource e), db)
         | Inr digest \<Rightarrow>
       if dl_DryRun opts then (Inr (), db)
       else case startCatalogGeneration io opts digest db of
           (None, db) \<Rightarrow> (Inl GenerationNotCreated, db)
         | (Some gen, db) \<Rightarrow>
       case loadIntoGeneration io gen files (SetCatalogGenerationID db gen (NewBulkLoader opts), db) of
           (Some e, l, db) \<Rightarrow> (Inl e, db)
         | (None, l, db) \<Rightarrow>
       case close_or_fail io gen (length removedIDs > 0) (Close gen removedIDs) (l, db) of
           (Some e, l, db) \<Rightarrow> (Inl e, db)
         | (None, l, db) \<Rightarrow>
       case finish_load io gen (bl_stats l) (snd (MarkProcessingComplete io files db)) of
           (Inl e, db) \<Rightarrow> (Inl e, db)
         | (Inr _, db) \<Rightarrow> (Inr (), CleanupOrphaned io db))"

end
