(* ===== verification/Catalog_Runs.thy ===== *)
theory Catalog_Runs
  imports Catalog_Load
begin

section \<open>What readers see while catalogs are loaded, rolled back and pruned\<close>

text \<open>
  The scanner reads the newest active generation. A load may fail at any statement, the process may die between two statements, and a
  generation may be pruned; the steps below are the statements of a load under the lock that admits one load at a time.
\<close>

definition served :: "CatalogDb \<Rightarrow>
    (nat \<times> (string \<times> AdvisoryRow) list \<times> (string \<times> AdvisoryRef) list \<times> (string \<times> AffectedRange) list) option" where
  "served db = (case ActiveCVEGeneration db of None \<Rightarrow> None | Some g \<Rightarrow> Some (cg_ID g, view (cg_ID g) (cb_Tables db)))"

datatype LoadPhase = Idle | Ready | Loading nat

definition active_ids :: "CatalogDb \<Rightarrow> nat set" where
  "active_ids db = cg_ID ` set (filter active_cve (cb_Generations db))"

definition unfinished_ids :: "CatalogDb \<Rightarrow> nat set" where
  "unfinished_ids db = cg_ID ` set (filter unfinished (cb_Generations db))"

text \<open>
  One statement of a load: taking the lock and rolling back, creating a generation, writing a batch, closing, failing with and
  without rolling back, the death of the process, and what a load writes about its files.
\<close>

inductive load_step :: "LoadPhase \<times> CatalogDb \<Rightarrow> LoadPhase \<times> CatalogDb \<Rightarrow> bool" where
  step_lock: "load_step (Idle, db) (Ready, RollbackUnfinishedCatalogGenerations db)"
| step_start: "startCatalogGeneration io opts digest db = (Some gen, db') \<Longrightarrow> list_all (\<lambda>g. cg_ID g < gen) (cb_Generations db) \<Longrightarrow>
    load_step (Ready, db) (Loading gen, db')"
| step_write: "cb_HasTables db \<Longrightarrow> load_step (Loading gen, db) (Loading gen, db\<lparr>cb_Tables := snd (Write gen advs (cb_Tables db))\<rparr>)"
| step_close: "cb_HasTables db \<Longrightarrow> load_step (Loading gen, db) (Loading gen, db\<lparr>cb_Tables := snd (Close gen ids (cb_Tables db))\<rparr>)"
| step_fail: "load_step (Loading gen, db) (Loading gen, snd (completeCatalogGeneration io b gen stats ''failed'' msg db))"
| step_undo: "load_step (Loading gen, db) (Loading gen, RollbackCatalogGeneration gen db)"
| step_files: "load_step (ph, db) (ph, db\<lparr>cb_Files := metas\<rparr>)"
| step_unlock: "load_step (ph, db) (Idle, db)"

text \<open>Without the activation of a generation, and with it.\<close>

inductive quiet_step :: "LoadPhase \<times> CatalogDb \<Rightarrow> LoadPhase \<times> CatalogDb \<Rightarrow> bool" where
  quiet_load: "load_step s s' \<Longrightarrow> quiet_step s s'"
| quiet_prune: "quiet_step (ph, db) (ph, snd (PruneCVEGenerations keep stop stops db))"

text \<open>What is left when the unfinished generations are rolled back.\<close>

definition committed :: "CatalogDb \<Rightarrow> VulnTables" where
  "committed db = rollbackGenerations (\<lambda>x. x \<in> unfinished_ids db) (cb_Tables db)"

text \<open>
  Identifiers are unique and rows mention known generations; what unfinished loads wrote is newer than every active generation, and
  while a load runs only it has written.
\<close>

definition known_rows :: "CatalogDb \<Rightarrow> bool" where
  "known_rows db \<longleftrightarrow> (\<forall>x. mentions x (cb_Tables db) \<longrightarrow> cb_HasTables db \<and> x \<in> cg_ID ` set (cb_Generations db))"

definition newer_unfinished :: "CatalogDb \<Rightarrow> bool" where
  "newer_unfinished db \<longleftrightarrow> (\<forall>x \<in> unfinished_ids db. \<forall>y \<in> active_ids db. mentions x (cb_Tables db) \<longrightarrow> y < x)"

definition phase_ok :: "LoadPhase \<Rightarrow> CatalogDb \<Rightarrow> bool" where
  "phase_ok ph db \<longleftrightarrow> (case ph of Idle \<Rightarrow> True
     | Ready \<Rightarrow> \<forall>x \<in> unfinished_ids db. \<not> mentions x (cb_Tables db)
     | Loading gen \<Rightarrow> gen \<in> unfinished_ids db \<and> (\<forall>y \<in> active_ids db. y < gen) \<and> (\<forall>x \<in> unfinished_ids db. mentions x (cb_Tables db) \<longrightarrow> x = gen))"

definition catalog_ok :: "LoadPhase \<times> CatalogDb \<Rightarrow> bool" where
  "catalog_ok s \<longleftrightarrow> (case s of (ph, db) \<Rightarrow> distinct (map cg_ID (cb_Generations db)) \<and> known_rows db \<and> newer_unfinished db \<and> phase_ok ph db)"

lemma rollback_rows_cong:
  "(\<And>r x. r \<in> set rows \<Longrightarrow> row_mentions x r \<Longrightarrow> gens x = gens' x) \<Longrightarrow> rollback_rows gens rows = rollback_rows gens' rows"
proof (induction rows)
  case (Cons r rows)
  have "gens (vr_From r) = gens' (vr_From r)" "\<And>x. vr_To r = Some x \<Longrightarrow> gens x = gens' x"
    using Cons.prems [of r] by (auto simp: row_mentions_def)
  moreover have "rollback_rows gens rows = rollback_rows gens' rows" using Cons.IH Cons.prems by (meson list.set_intros(2))
  ultimately show ?case by (cases "vr_To r") (simp_all add: rollback_rows_def)
qed (simp add: rollback_rows_def)

lemma rollback_cong: "(\<And>x. mentions x t \<Longrightarrow> gens x = gens' x) \<Longrightarrow> rollbackGenerations gens t = rollbackGenerations gens' t"
  unfolding rollbackGenerations_def mentions_def list_ex_iff
  by (rule VulnTables.equality) (auto intro!: rollback_rows_cong)

lemma rollback_twice: "rollbackGenerations gens (rollbackGenerations gens t) = rollbackGenerations gens t"
  by (rule rollback_unmentioned) (simp add: rollback_mentions)

lemma served_cong:
  assumes "filter active_cve (cb_Generations db') = filter active_cve (cb_Generations db)"
    "\<And>g. g \<in> active_ids db \<Longrightarrow> view g (cb_Tables db') = view g (cb_Tables db)"
  shows "served db' = served db"
proof -
  have "active_generations (cb_Generations db') = active_generations (cb_Generations db)" using assms(1) by (simp add: active_generations_def)
  moreover have "view (cg_ID g) (cb_Tables db') = view (cg_ID g) (cb_Tables db)" if "active_generations (cb_Generations db) = g # gs" for g gs
  proof -
    have "g \<in> set (active_generations (cb_Generations db))" using that by simp
    then show ?thesis by (intro assms(2)) (simp add: active_generations_def active_ids_def)
  qed
  ultimately show ?thesis by (simp add: served_def ActiveCVEGeneration_def split: list.split)
qed

text \<open>What a step does to the generations.\<close>

lemma ids_rollback_unfinished:
  "filter active_cve (cb_Generations (RollbackUnfinishedCatalogGenerations db)) = filter active_cve (cb_Generations db)"
  "map cg_ID (cb_Generations (RollbackUnfinishedCatalogGenerations db)) = map cg_ID (cb_Generations db)"
  "unfinished_ids (RollbackUnfinishedCatalogGenerations db) = unfinished_ids db"
proof -
  let ?f = "\<lambda>g. if cg_CatalogType g = ''cve'' \<and> cg_Status g = ''running''
    then g\<lparr>cg_Status := ''failed'', cg_ErrorSummary := ''load did not finish'', cg_ValidationStatus := ''failed''\<rparr> else g"
  have "filter active_cve (map ?f gens) = filter active_cve gens" for gens by (induction gens) (auto simp: active_cve_def)
  then show "filter active_cve (cb_Generations (RollbackUnfinishedCatalogGenerations db)) = filter active_cve (cb_Generations db)"
    by (simp add: RollbackUnfinishedCatalogGenerations_def)
  show "map cg_ID (cb_Generations (RollbackUnfinishedCatalogGenerations db)) = map cg_ID (cb_Generations db)"
    by (simp add: RollbackUnfinishedCatalogGenerations_def)
  have "cg_ID ` set (filter unfinished (map ?f gens)) = cg_ID ` set (filter unfinished gens)" for gens
    by (induction gens) (auto simp: unfinished_def)
  then show "unfinished_ids (RollbackUnfinishedCatalogGenerations db) = unfinished_ids db"
    by (simp add: RollbackUnfinishedCatalogGenerations_def unfinished_ids_def)
qed

lemma rollback_unfinished_tables: "known_rows db \<Longrightarrow> cb_Tables (RollbackUnfinishedCatalogGenerations db) = committed db"
  by (auto simp: RollbackUnfinishedCatalogGenerations_def committed_def unfinished_ids_def known_rows_def intro!: rollback_unmentioned [symmetric])

lemma active_ids_cong: "filter active_cve (cb_Generations db') = filter active_cve (cb_Generations db) \<Longrightarrow> active_ids db' = active_ids db"
  unfolding active_ids_def by simp

lemma fail_generations:
  assumes "gen \<in> unfinished_ids db" "distinct (map cg_ID (cb_Generations db))"
    "db' = snd (completeCatalogGeneration io b gen stats ''failed'' msg db)"
  shows "filter active_cve (cb_Generations db') = filter active_cve (cb_Generations db)"
    "map cg_ID (cb_Generations db') = map cg_ID (cb_Generations db)" "unfinished_ids db' = unfinished_ids db"
    "cb_Tables db' = cb_Tables db" "cb_HasTables db' = cb_HasTables db"
proof -
  let ?f = "\<lambda>g. if cg_ID g = gen then completed io stats ''failed'' msg g else g"
  obtain u where u: "u \<in> set (cb_Generations db)" "unfinished u" "cg_ID u = gen" using assms(1) by (auto simp: unfinished_ids_def)
  have only: "g = u" if "g \<in> set (cb_Generations db)" "cg_ID g = gen" for g
    using that u assms(2) by (auto simp: distinct_map dest: inj_onD)
  have u_type: "cg_CatalogType u = ''cve''" "\<not> active_cve u" using u(2) by (auto simp: unfinished_def active_cve_def)
  have id: "cg_ID (completed io stats ''failed'' msg g) = cg_ID g" "cg_CatalogType (completed io stats ''failed'' msg g) = cg_CatalogType g"
    "cg_Status (completed io stats ''failed'' msg g) = ''failed''" for g by (simp_all add: completed_def)
  have "filter active_cve (map ?f gens) = filter active_cve gens" if "set gens \<subseteq> set (cb_Generations db)" for gens
    using that u(2) by (induction gens) (auto simp: id active_cve_def unfinished_def dest!: only)
  moreover have "map cg_ID (map ?f gens) = map cg_ID gens" for gens by (simp add: id)
  moreover have "cg_ID ` set (filter unfinished (map ?f gens)) = cg_ID ` set (filter unfinished gens)" if "set gens \<subseteq> set (cb_Generations db)" for gens
    using that by (induction gens) (use u u_type in \<open>auto simp: id unfinished_def dest!: only\<close>)
  ultimately show "filter active_cve (cb_Generations db') = filter active_cve (cb_Generations db)"
    "map cg_ID (cb_Generations db') = map cg_ID (cb_Generations db)" "unfinished_ids db' = unfinished_ids db"
    unfolding assms(3) completeCatalogGeneration_def update_generation_def unfinished_ids_def by (simp_all split: if_split)
  show "cb_Tables db' = cb_Tables db" "cb_HasTables db' = cb_HasTables db"
    unfolding assms(3) completeCatalogGeneration_def update_generation_def by simp_all
qed

text \<open>A change of the tables by the running load.\<close>

definition keeps :: "LoadPhase \<times> CatalogDb \<Rightarrow> LoadPhase \<times> CatalogDb \<Rightarrow> bool" where
  "keeps s s' \<longleftrightarrow> catalog_ok s' \<and> served (snd s') = served (snd s) \<and> committed (snd s') = committed (snd s)"

lemma keeps_tables:
  assumes ok: "catalog_ok (Loading gen, db)" and "cb_HasTables db"
    and m: "\<And>x. mentions x t \<Longrightarrow> x = gen \<or> mentions x (cb_Tables db)"
    and v: "\<And>g. g < gen \<Longrightarrow> view g t = view g (cb_Tables db)"
    and r: "rollbackGenerations (\<lambda>x. x = gen) t = rollbackGenerations (\<lambda>x. x = gen) (cb_Tables db)"
  shows "keeps (Loading gen, db) (Loading gen, db\<lparr>cb_Tables := t\<rparr>)"
proof -
  let ?db = "db\<lparr>cb_Tables := t\<rparr>"
  have same: "unfinished_ids ?db = unfinished_ids db" "active_ids ?db = active_ids db" by (simp_all add: unfinished_ids_def active_ids_def)
  have gen: "gen \<in> unfinished_ids db" and act: "\<And>y. y \<in> active_ids db \<Longrightarrow> y < gen"
    and only: "\<And>x. x \<in> unfinished_ids db \<Longrightarrow> mentions x (cb_Tables db) \<Longrightarrow> x = gen" and dist: "distinct (map cg_ID (cb_Generations db))"
    and known: "known_rows db" using ok by (auto simp: catalog_ok_def phase_ok_def)
  have only': "\<And>x. x \<in> unfinished_ids db \<Longrightarrow> mentions x t \<Longrightarrow> x = gen" using m only by blast
  have "known_rows ?db" using known m gen assms(2) by (fastforce simp: known_rows_def unfinished_ids_def)
  moreover have "newer_unfinished ?db" using only' act by (auto simp: newer_unfinished_def same)
  moreover have "phase_ok (Loading gen) ?db" using gen act only' by (auto simp: phase_ok_def same)
  ultimately have "catalog_ok (Loading gen, ?db)" using dist by (simp add: catalog_ok_def)
  moreover have "served ?db = served db" by (rule served_cong) (auto intro: v act)
  moreover have "committed ?db = committed db"
  proof -
    have "committed ?db = rollbackGenerations (\<lambda>x. x = gen) t"
      unfolding committed_def same using gen only' by (auto intro!: rollback_cong)
    also have "\<dots> = committed db" unfolding committed_def r using gen only by (auto intro!: rollback_cong)
    finally show ?thesis .
  qed
  ultimately show ?thesis by (simp add: keeps_def)
qed

lemma load_step_keeps: "load_step s s' \<Longrightarrow> catalog_ok s \<Longrightarrow> keeps s s'"
proof (induction rule: load_step.induct)
  case (step_lock db)
  let ?db = "RollbackUnfinishedCatalogGenerations db"
  note ids = ids_rollback_unfinished [of db]
  have known: "known_rows db" and dist: "distinct (map cg_ID (cb_Generations db))" and newer: "newer_unfinished db"
    using step_lock by (auto simp: catalog_ok_def)
  have t: "cb_Tables ?db = committed db" by (rule rollback_unfinished_tables [OF known])
  have none: "\<not> mentions x (committed db)" if "x \<in> unfinished_ids db" for x
    using that unfolding committed_def by (rule rollback_mentions)
  have has: "cb_HasTables ?db = cb_HasTables db" by (simp add: RollbackUnfinishedCatalogGenerations_def)
  have idset: "cg_ID ` set (cb_Generations ?db) = cg_ID ` set (cb_Generations db)" using ids(2) by (metis set_map)
  have "known_rows ?db" using known mentions_rollback by (fastforce simp: known_rows_def t has idset committed_def)
  moreover have "newer_unfinished ?db" "phase_ok Ready ?db" using none by (auto simp: newer_unfinished_def phase_ok_def t ids(3))
  ultimately have "catalog_ok (Ready, ?db)" using dist ids(2) by (simp add: catalog_ok_def)
  moreover have "served ?db = served db"
  proof (rule served_cong [OF ids(1)])
    fix g assume "g \<in> active_ids db"
    then show "view g (cb_Tables ?db) = view g (cb_Tables db)"
      unfolding t committed_def using newer by (auto simp: newer_unfinished_def intro!: view_rollback)
  qed
  moreover have "committed ?db = committed db"
    unfolding committed_def [of ?db] t ids(3) by (simp add: committed_def rollback_twice)
  ultimately show ?case by (simp add: keeps_def)
next
  case (step_start io opts digest db gen db')
  obtain g where db': "cb_Generations db' = cb_Generations db @ [g]" "cb_Tables db' = cb_Tables db" "cb_HasTables db' = cb_HasTables db"
    "cg_ID g = gen" "unfinished g" "\<not> active_cve g"
    using step_start.hyps(1) by (fastforce simp: startCatalogGeneration_def unfinished_def active_cve_def split: if_splits)
  have new: "gen \<notin> cg_ID ` set (cb_Generations db)" using step_start.hyps(2) by (auto simp: list_all_iff)
  have fresh: "\<not> mentions gen (cb_Tables db)" using step_start.prems new by (auto simp: catalog_ok_def known_rows_def)
  have un: "unfinished_ids db' = insert gen (unfinished_ids db)" using db' by (auto simp: unfinished_ids_def)
  have act: "filter active_cve (cb_Generations db') = filter active_cve (cb_Generations db)" using db' by simp
  note act' = active_ids_cong [OF act]
  have prems: "\<And>x. x \<in> unfinished_ids db \<Longrightarrow> \<not> mentions x (cb_Tables db)" "distinct (map cg_ID (cb_Generations db))" "known_rows db"
    using step_start.prems by (auto simp: catalog_ok_def phase_ok_def)
  have none: "\<And>x. x \<in> unfinished_ids db' \<Longrightarrow> \<not> mentions x (cb_Tables db')" using prems(1) fresh un db'(2) by auto
  have "distinct (map cg_ID (cb_Generations db'))" using prems(2) new db'(4) by (simp add: db'(1))
  moreover have "known_rows db'" using prems(3) by (auto simp: known_rows_def db')
  moreover have "newer_unfinished db'" using none by (auto simp: newer_unfinished_def)
  moreover have "\<forall>y \<in> active_ids db. y < gen" using step_start.hyps(2) by (auto simp: active_ids_def list_all_iff)
  then have "phase_ok (Loading gen) db'" using none un by (auto simp: phase_ok_def act')
  ultimately have "catalog_ok (Loading gen, db')" by (simp add: catalog_ok_def)
  moreover have "served db' = served db" by (rule served_cong [OF act]) (simp add: db'(2))
  moreover have "committed db' = committed db"
    unfolding committed_def db'(2) by (rule rollback_cong) (use fresh un in auto)
  ultimately show ?case by (simp add: keeps_def)
next
  case (step_write db gen advs)
  show ?case by (rule keeps_tables [OF step_write(2,1)]) (auto intro: view_write rollback_write dest: mentions_write)
next
  case (step_close db gen ids)
  show ?case by (rule keeps_tables [OF step_close(2,1)]) (auto intro: view_Close rollback_Close dest: mentions_Close)
next
  case (step_fail gen db io b stats msg)
  define d where "d = snd (completeCatalogGeneration io b gen stats ''failed'' msg db)"
  have gen: "gen \<in> unfinished_ids db" "distinct (map cg_ID (cb_Generations db))" using step_fail by (auto simp: catalog_ok_def phase_ok_def)
  note f = fail_generations [OF gen d_def]
  have "cg_ID ` set (cb_Generations d) = cg_ID ` set (cb_Generations db)" using f(2) by (metis set_map)
  then have "catalog_ok (Loading gen, d)"
    using step_fail f(2-5) active_ids_cong [OF f(1)]
    by (auto simp: catalog_ok_def known_rows_def newer_unfinished_def phase_ok_def)
  moreover have "served d = served db" by (rule served_cong [OF f(1)]) (simp add: f(4))
  ultimately show ?case by (simp add: keeps_def committed_def f(3,4) flip: d_def)
next
  case (step_undo gen db)
  show ?case
  proof (cases "gen = 0 \<or> \<not> cb_HasTables db")
    case True
    then show ?thesis using step_undo by (simp add: keeps_def RollbackCatalogGeneration_def)
  next
    case False
    have "keeps (Loading gen, db) (Loading gen, db\<lparr>cb_Tables := rollbackGenerations (\<lambda>g. g = gen) (cb_Tables db)\<rparr>)"
      using False by (intro keeps_tables [OF step_undo]) (auto intro: view_rollback rollback_twice dest: mentions_rollback)
    then show ?thesis using False by (simp add: RollbackCatalogGeneration_def)
  qed
next
  case (step_files ph db metas)
  let ?db = "db\<lparr>cb_Files := metas\<rparr>"
  have "catalog_ok (ph, ?db)" using step_files
    by (cases ph) (simp_all add: catalog_ok_def known_rows_def newer_unfinished_def phase_ok_def active_ids_def unfinished_ids_def)
  moreover have "served ?db = served db" by (rule served_cong) simp_all
  ultimately show ?case by (simp add: keeps_def committed_def unfinished_ids_def)
next
  case (step_unlock ph db)
  then show ?case by (simp add: keeps_def catalog_ok_def phase_ok_def)
qed

subsection \<open>Loads are runs of these steps\<close>

abbreviation loads_to :: "nat \<Rightarrow> CatalogDb \<Rightarrow> CatalogDb \<Rightarrow> bool" where
  "loads_to gen db db' \<equiv> load_step\<^sup>*\<^sup>* (Loading gen, db) (Loading gen, db')"

definition loader_ok :: "nat \<Rightarrow> BulkLoader \<Rightarrow> CatalogDb \<Rightarrow> bool" where
  "loader_ok gen l db \<longleftrightarrow> (case bl_gen l of None \<Rightarrow> True | Some g \<Rightarrow> g = gen \<and> cb_HasTables db)"

lemma processBatch_steps:
  assumes "processBatch io n files (l, db) = (e, l', db')" "loader_ok gen l db"
  shows "loads_to gen db db' \<and> loader_ok gen l' db'"
proof (cases "bl_gen l")
  case None
  then show ?thesis using assms by (auto simp: processBatch_def loader_ok_def)
next
  case (Some g)
  then have g: "g = gen" "cb_HasTables db" using assms(2) by (auto simp: loader_ok_def)
  obtain advs l1 where p: "parseFilesParallel io n files l = (advs, l1)" "bl_gen l1 = Some gen" using Some g by (auto simp: parseFilesParallel_def)
  have "db' = db \<or> db' = db\<lparr>cb_Tables := snd (Write gen advs (cb_Tables db))\<rparr>" "bl_gen l' = Some gen"
    using assms(1) Some g p by (auto simp: processBatch_def Let_def case_prod_unfold split: if_splits)
  then show ?thesis using g step_write [of db gen advs] by (auto simp: loader_ok_def)
qed

lemma load_batches_steps:
  "load_batches io n batches (l, db) = (e, l', db') \<Longrightarrow> loader_ok gen l db \<Longrightarrow> loads_to gen db db' \<and> loader_ok gen l' db'"
proof (induction batches arbitrary: n l db)
  case (Cons batch rest)
  obtain e1 l1 db1 where p: "processBatch io n batch (l, db) = (e1, l1, db1)" using prod_cases3 by blast
  note step = processBatch_steps [OF p Cons.prems(2)]
  show ?case
  proof (cases e1)
    case None
    then have "load_batches io (Suc n) rest (l1, db1) = (e, l', db')" using Cons.prems(1) p by simp
    then show ?thesis using Cons.IH step by (blast intro: rtranclp_trans)
  next
    case (Some x)
    then show ?thesis using Cons.prems(1) p step by simp
  qed
qed simp

lemma failCatalogGeneration_steps: "loads_to gen db (failCatalogGeneration io gen stats msg db)"
proof -
  let ?db = "snd (completeCatalogGeneration io (io_Fails io FailGeneration) gen stats ''failed'' msg db)"
  have "load_step (Loading gen, db) (Loading gen, ?db)" by (rule step_fail)
  moreover have "load_step (Loading gen, ?db) (Loading gen, RollbackCatalogGeneration gen ?db)" by (rule step_undo)
  ultimately show ?thesis by (auto simp: failCatalogGeneration_def Let_def intro: converse_rtranclp_into_rtranclp)
qed

lemma loadIntoGeneration_steps:
  assumes "loadIntoGeneration io gen files (l, db) = (e, l', db')" "loader_ok gen l db"
  shows "loads_to gen db db' \<and> loader_ok gen l' db'"
proof -
  obtain e1 l1 db1 where L: "LoadFiles io files (l, db) = (e1, l1, db1)" using prod_cases3 by blast
  have "loader_ok gen (l\<lparr>bl_stats := x\<rparr>) db" for x using assms(2) by (simp add: loader_ok_def)
  then have step: "loads_to gen db db1" "loader_ok gen l1 db1" using L load_batches_steps by (simp_all add: LoadFiles_def)
  have has: "loader_ok gen l1 (failCatalogGeneration io gen stats msg db1)" for stats msg
    using step(2) by (simp add: loader_ok_def failCatalogGeneration_def Let_def completeCatalogGeneration_def update_generation_def
      RollbackCatalogGeneration_def split: option.splits)
  show ?thesis using assms(1) L step has failCatalogGeneration_steps [of gen db1 io]
    by (auto simp: loadIntoGeneration_def split: option.splits if_splits intro: rtranclp_trans)
qed

lemma close_or_fail_steps:
  assumes "close_or_fail io gen runs closing (l, db) = (e, l', db')" "loader_ok gen l db" "\<And>t. \<exists>ids. closing t = Close gen ids t"
  shows "loads_to gen db db'"
proof (cases "bl_gen l = None \<or> \<not> runs")
  case True
  then show ?thesis using assms(1) by (simp add: close_or_fail_def)
next
  case False
  then have has: "cb_HasTables db" using assms(2) by (auto simp: loader_ok_def)
  show ?thesis
  proof (cases "io_Fails io CloseRows")
    case True
    then show ?thesis using assms(1) False failCatalogGeneration_steps [of gen db io] by (auto simp: close_or_fail_def)
  next
    case no: False
    obtain ids where "closing (cb_Tables db) = Close gen ids (cb_Tables db)" using assms(3) by blast
    then have "db' = db\<lparr>cb_Tables := snd (Close gen ids (cb_Tables db))\<rparr>" using assms(1) False no by (auto simp: close_or_fail_def case_prod_unfold Let_def)
    then show ?thesis using step_close [OF has, of gen ids] by auto
  qed
qed

text \<open>The tracker changes nothing but the metadata of files.\<close>

definition same_catalog :: "CatalogDb \<Rightarrow> CatalogDb \<Rightarrow> bool" where
  "same_catalog db db' \<longleftrightarrow> db' = db\<lparr>cb_Files := cb_Files db'\<rparr>"

lemma same_catalog_step: "same_catalog db db' \<Longrightarrow> load_step\<^sup>*\<^sup>* (ph, db) (ph, db')"
  unfolding same_catalog_def by (metis r_into_rtranclp step_files)

lemma tracker_catalog:
  "GetFilesToProcess io opts db = (r, db') \<Longrightarrow> same_catalog db db'"
  "same_catalog db (snd (MarkProcessingComplete io files db))"
  "same_catalog db (CleanupOrphaned io db)"
  by (auto simp: GetFilesToProcess_def saveMetadata_def MarkProcessingComplete_def CleanupOrphaned_def same_catalog_def Let_def case_prod_unfold
    split: option.splits if_splits)

lemma same_catalog_trans: "same_catalog db db' \<Longrightarrow> same_catalog db' db'' \<Longrightarrow> same_catalog db db''"
  by (cases db; cases db'; cases db'') (simp add: same_catalog_def)

lemma record_source_files_catalog: "same_catalog db (record_source_files io opts files db)"
  using tracker_catalog same_catalog_trans by (auto simp: record_source_files_def split: prod.splits option.splits) blast+

text \<open>A load either runs without activating a generation, or ends with an activation.\<close>

definition load_ends :: "LoadIO \<Rightarrow> CatalogDb \<Rightarrow> (LoadError, unit) result \<Rightarrow> CatalogDb \<Rightarrow> bool" where
  "load_ends io db r db' \<longleftrightarrow>
     (\<exists>ph. load_step\<^sup>*\<^sup>* (Ready, db) (ph, db')) \<or>
     (r = Inr () \<and> (\<exists>stats db1 db2. loads_to (io_NewID io) db1 db2 \<and> load_step\<^sup>*\<^sup>* (Ready, db) (Loading (io_NewID io), db1) \<and>
        same_catalog (snd (completeCatalogGeneration io False (io_NewID io) stats ''active'' [] db2)) db'))"

lemma finish_load_ends:
  assumes "load_step\<^sup>*\<^sup>* (Ready, db) (Loading (io_NewID io), db1)" "finish_load io (io_NewID io) stats db1 = (r, db2)" "same_catalog db2 db'"
  shows "load_ends io db r db'"
proof (cases "io_Fails io CompleteGeneration")
  case True
  then have "db2 = db1" using assms(2) by (simp add: finish_load_def completeCatalogGeneration_def)
  then show ?thesis unfolding load_ends_def using assms(1) same_catalog_step [OF assms(3)] rtranclp_trans by metis
next
  case False
  then have "r = Inr ()" "db2 = snd (completeCatalogGeneration io False (io_NewID io) stats ''active'' [] db1)"
    using assms(2) by (auto simp: finish_load_def completeCatalogGeneration_def)
  then show ?thesis unfolding load_ends_def using assms(1,3) by blast
qed

lemma same_catalog_refl [simp]: "same_catalog db db"
  by (simp add: same_catalog_def)

definition fresh_id :: "LoadIO \<Rightarrow> CatalogDb \<Rightarrow> bool" where
  "fresh_id io db \<longleftrightarrow> list_all (\<lambda>g. cg_ID g < io_NewID io) (cb_Generations db)"

lemma started_steps:
  assumes "startCatalogGeneration io opts digest db = (Some gen, db1)" "fresh_id io db"
  shows "gen = io_NewID io" "load_step\<^sup>*\<^sup>* (Ready, db) (Loading gen, db1)" "loader_ok gen (SetCatalogGenerationID db1 gen (NewBulkLoader opts)) db1"
proof -
  show gen: "gen = io_NewID io" using assms(1) by (auto simp: startCatalogGeneration_def split: if_splits)
  show "load_step\<^sup>*\<^sup>* (Ready, db) (Loading gen, db1)"
    using step_start [OF assms(1)] assms(2) by (auto simp: fresh_id_def gen)
  show "loader_ok gen (SetCatalogGenerationID db1 gen (NewBulkLoader opts)) db1" by (simp add: loader_ok_def SetCatalogGenerationID_def)
qed

lemma LoadAll_ends:
  assumes "LoadAll io opts0 db = (r, db')" "fresh_id io db"
  shows "load_ends io db r db'"
proof -
  let ?o = "withDefaults opts0"
  have quiet: "load_ends io db x db" for x by (auto simp: load_ends_def)
  show ?thesis
  proof (cases "\<exists>files digest gen db1. io_Glob io (dl_SourceDir ?o) = Some files \<and> validate_source io ?o files = Inr digest \<and>
      \<not> dl_DryRun ?o \<and> startCatalogGeneration io ?o digest db = (Some gen, db1)")
    case False
    have "db' = db"
      using assms(1) False by (auto simp: LoadAll_def Let_def startCatalogGeneration_def split: option.splits sum.splits prod.splits if_splits)
    then show ?thesis using quiet by simp
  next
    case True
    then obtain files digest gen db1 where c: "io_Glob io (dl_SourceDir ?o) = Some files" "validate_source io ?o files = Inr digest"
      "\<not> dl_DryRun ?o" "startCatalogGeneration io ?o digest db = (Some gen, db1)" by blast
    note st = started_steps [OF c(4) assms(2)]
    obtain e l db2 where L: "loadIntoGeneration io gen files (SetCatalogGenerationID db1 gen (NewBulkLoader ?o), db1) = (e, l, db2)"
      using prod_cases3 by blast
    note Ls = loadIntoGeneration_steps [OF L st(3)]
    have to2: "load_step\<^sup>*\<^sup>* (Ready, db) (Loading gen, db2)" using st(2) Ls by (blast intro: rtranclp_trans)
    show ?thesis
    proof (cases e)
      case (Some x)
      then show ?thesis using assms(1) c L to2 by (auto simp: LoadAll_def load_ends_def)
    next
      case None
      obtain e3 l3 db3 where K: "close_or_fail io gen True (CloseMissing gen (bl_seen l)) (l, db2) = (e3, l3, db3)" using prod_cases3 by blast
      have "loads_to gen db2 db3" by (rule close_or_fail_steps [OF K]) (use Ls in \<open>auto simp: CloseMissing_def\<close>)
      then have to3: "load_step\<^sup>*\<^sup>* (Ready, db) (Loading gen, db3)" using to2 by (rule_tac rtranclp_trans)
      show ?thesis
      proof (cases e3)
        case (Some x)
        then show ?thesis using assms(1) c L K None to3 by (auto simp: LoadAll_def load_ends_def)
      next
        case none: None
        let ?db4 = "record_source_files io ?o files db3"
        have "load_step\<^sup>*\<^sup>* (Ready, db) (Loading gen, ?db4)"
          using to3 same_catalog_step [OF record_source_files_catalog] by (rule rtranclp_trans)
        moreover have "finish_load io gen (bl_stats l3) ?db4 = (r, db')" using assms(1) c L K None none by (simp add: LoadAll_def)
        ultimately show ?thesis unfolding st(1) by (rule finish_load_ends) simp
      qed
    qed
  qed
qed

lemma load_ends_files:
  assumes "same_catalog db db1" "load_ends io db1 r db'"
  shows "load_ends io db r db'"
proof -
  have "load_step\<^sup>*\<^sup>* (Ready, db) (Ready, db1)" by (rule same_catalog_step [OF assms(1)])
  then show ?thesis using assms(2) unfolding load_ends_def by (meson rtranclp_trans)
qed

lemma LoadChanged_ends:
  assumes "LoadChanged io opts0 db = (r, db')" "fresh_id io db"
  shows "load_ends io db r db'"
proof -
  let ?o = "withDefaults opts0"
  obtain files0 db0 where G: "GetFilesToProcess io ?o db = (files0, db0)" by fastforce
  note same = tracker_catalog(1) [OF G]
  have fresh: "fresh_id io db0" using assms(2) same by (auto simp: fresh_id_def same_catalog_def) (metis CatalogDb.select_convs(3) CatalogDb.surjective CatalogDb.update_convs(4))
  have quiet: "load_ends io db x db0" for x unfolding load_ends_def using same_catalog_step [OF same] by blast
  show ?thesis
  proof (cases "\<exists>files removed. files0 = Some files \<and> RemovedCVEIDs io ?o db0 = Some removed \<and>
      (if dl_DryRun ?o then Some False else VersionedCatalogEmpty io db0) \<noteq> None")
    case False
    then have "db' = db0" using assms(1) G by (auto simp: LoadChanged_def Let_def split: option.splits)
    then show ?thesis using quiet by simp
  next
    case True
    then obtain files removed isEmpty where c: "files0 = Some files" "RemovedCVEIDs io ?o db0 = Some removed"
      "(if dl_DryRun ?o then Some False else VersionedCatalogEmpty io db0) = Some isEmpty" by blast
    show ?thesis
    proof (cases isEmpty)
      case True
      then have "LoadAll io ?o db0 = (r, db')" using assms(1) G c by (simp add: LoadChanged_def)
      then show ?thesis using LoadAll_ends fresh load_ends_files [OF same] by blast
    next
      case notEmpty: False
      show ?thesis
      proof (cases "\<exists>digest gen db1. \<not> (length files = 0 \<and> length removed = 0) \<and> validate_source io ?o files = Inr digest \<and>
          \<not> dl_DryRun ?o \<and> startCatalogGeneration io ?o digest db0 = (Some gen, db1)")
        case False
        have "db' = db0"
          using assms(1) False G c notEmpty
          by (auto simp: LoadChanged_def Let_def startCatalogGeneration_def split: sum.splits prod.splits if_splits)
        then show ?thesis using quiet by simp
      next
        case True
        then obtain digest gen db1 where d: "\<not> (length files = 0 \<and> length removed = 0)" "validate_source io ?o files = Inr digest"
          "\<not> dl_DryRun ?o" "startCatalogGeneration io ?o digest db0 = (Some gen, db1)" by blast
        note st = started_steps [OF d(4) fresh]
        obtain e l db2 where L: "loadIntoGeneration io gen files (SetCatalogGenerationID db1 gen (NewBulkLoader ?o), db1) = (e, l, db2)"
          using prod_cases3 by blast
        note Ls = loadIntoGeneration_steps [OF L st(3)]
        have to2: "load_step\<^sup>*\<^sup>* (Ready, db0) (Loading gen, db2)" using st(2) Ls by (blast intro: rtranclp_trans)
        note body = assms(1) G c notEmpty d L
        have ends: "load_ends io db0 r db'"
        proof (cases e)
          case (Some x)
          then show ?thesis using body to2 by (auto simp: LoadChanged_def load_ends_def)
        next
          case None
          obtain e3 l3 db3 where K: "close_or_fail io gen (length removed > 0) (Close gen removed) (l, db2) = (e3, l3, db3)" using prod_cases3 by blast
          have "loads_to gen db2 db3" by (rule close_or_fail_steps [OF K]) (use Ls in auto)
          then have to3: "load_step\<^sup>*\<^sup>* (Ready, db0) (Loading gen, db3)" using to2 by (rule_tac rtranclp_trans)
          show ?thesis
          proof (cases e3)
            case (Some x)
            then show ?thesis using body K None to3 by (auto simp: LoadChanged_def load_ends_def)
          next
            case none: None
            let ?db4 = "snd (MarkProcessingComplete io files db3)"
            have to4: "load_step\<^sup>*\<^sup>* (Ready, db0) (Loading gen, ?db4)"
              using to3 same_catalog_step [OF tracker_catalog(2)] by (rule rtranclp_trans)
            obtain r5 db5 where F: "finish_load io gen (bl_stats l3) ?db4 = (r5, db5)" by fastforce
            have "r = r5" "same_catalog db5 db'"
              using body K None none F tracker_catalog(3) by (auto simp: LoadChanged_def split: sum.splits)
            then show ?thesis using finish_load_ends [of db0 io ?db4 "bl_stats l3" r db5 db'] F to4 st(1) by simp
          qed
        qed
        then show ?thesis by (rule load_ends_files [OF same])
      qed
    qed
  qed
qed

subsection \<open>Failures and pruning\<close>

interpretation loads: step_invariant load_step catalog_ok "\<lambda>s. (served (snd s), committed (snd s))"
  by unfold_locales (auto dest!: load_step_keeps simp: keeps_def)

lemma active_generations_set: "set (active_generations gens) = {g \<in> set gens. active_cve g}"
  by (auto simp: active_generations_def)

lemma oldest_kept_le: "gens \<noteq> [] \<Longrightarrow> oldest_kept keep gens \<le> cg_ID (hd gens)"
proof -
  have "foldl (\<lambda>m g. if cg_ID g < m then cg_ID g else m) k xs \<le> k" for k and xs :: "CatalogGeneration list"
  proof (induction xs arbitrary: k)
    case (Cons x xs)
    then show ?case using order_trans [OF Cons.IH [of "cg_ID x"], of k] by simp
  qed simp
  then show ?thesis by (simp add: oldest_kept_def)
qed

lemma active_after_retire:
  "distinct (map cg_ID gens) \<Longrightarrow> active_generations (map (\<lambda>g. if cg_ID g \<in> set ids then g\<lparr>cg_Status := ''retired''\<rparr> else g) gens) =
     filter (\<lambda>g. cg_ID g \<notin> set ids) (active_generations gens)"
proof -
  have "filter active_cve (map (\<lambda>g. if cg_ID g \<in> set ids then g\<lparr>cg_Status := ''retired''\<rparr> else g) gens) =
      filter (\<lambda>g. cg_ID g \<notin> set ids) (filter active_cve gens)"
    by (induction gens) (auto simp: active_cve_def)
  then show ?thesis by (simp only: active_generations_def filter_sort)
qed

lemma prune_cases:
  assumes "db' = snd (PruneCVEGenerations keep stop stops db)"
  obtains (none) "db' = db"
  | (pruned) oldest ids n where "active_generations (cb_Generations db) \<noteq> []" "oldest \<le> cg_ID (hd (active_generations (cb_Generations db)))"
      "n > 0" "set ids \<subseteq> cg_ID ` set (drop n (active_generations (cb_Generations db)))"
      "db' = retire ids (db\<lparr>cb_Tables := (if cb_HasTables db then snd (snd (PruneVersionedCatalog stop oldest (cb_Tables db))) else cb_Tables db)\<rparr>)"
proof (cases "active_generations (cb_Generations db) = []")
  case True
  then show ?thesis using assms none by (simp add: PruneCVEGenerations_def Let_def)
next
  case False
  define n where "n = nat (if keep < 1 then 1 else keep)"
  let ?old = "map cg_ID (drop n (active_generations (cb_Generations db)))"
  let ?p = "PruneVersionedCatalog stop (oldest_kept n (active_generations (cb_Generations db))) (cb_Tables db)"
  define ids where "ids = (if cb_HasTables db \<and> \<not> fst ?p then [] else case stops of None \<Rightarrow> ?old | Some k \<Rightarrow> take k ?old)"
  have "set ids \<subseteq> set ?old" by (auto simp: ids_def split: option.splits dest: in_set_takeD)
  moreover have "db' = retire ids (db\<lparr>cb_Tables := (if cb_HasTables db then snd (snd ?p) else cb_Tables db)\<rparr>)"
    unfolding assms PruneCVEGenerations_def Let_def n_def [symmetric] ids_def using False by (simp add: case_prod_unfold)
  moreover have "n > 0" by (simp add: n_def)
  ultimately show ?thesis using pruned [of "oldest_kept n (active_generations (cb_Generations db))" n ids] False oldest_kept_le by simp
qed

lemma prune_keeps:
  assumes ok: "catalog_ok (ph, db)" and db': "db' = snd (PruneCVEGenerations keep stop stops db)"
  shows "catalog_ok (ph, db') \<and> served db' = served db"
  using db'
proof (cases rule: prune_cases)
  case none
  then show ?thesis using ok by simp
next
  case (pruned oldest ids n)
  let ?gens = "active_generations (cb_Generations db)"
  define t where "t = (if cb_HasTables db then snd (snd (PruneVersionedCatalog stop oldest (cb_Tables db))) else cb_Tables db)"
  have db'_eq: "db' = retire ids (db\<lparr>cb_Tables := t\<rparr>)" using pruned(5) by (simp add: t_def)
  have m: "mentions x t \<Longrightarrow> mentions x (cb_Tables db)" for x by (auto simp: t_def dest: mentions_prune split: if_splits)
  have dist: "distinct (map cg_ID (cb_Generations db))" using ok by (simp add: catalog_ok_def)
  have ids: "set ids \<subseteq> active_ids db" using pruned(4) set_drop_subset [of n ?gens]
    by (auto simp: active_ids_def active_generations_set)
  have gens: "cb_Generations db' = map (\<lambda>g. if cg_ID g \<in> set ids then g\<lparr>cg_Status := ''retired''\<rparr> else g) (cb_Generations db)"
    by (simp add: db'_eq retire_def)
  have act: "active_generations (cb_Generations db') = filter (\<lambda>g. cg_ID g \<notin> set ids) ?gens"
    unfolding gens by (rule active_after_retire [OF dist])
  have idmap: "map cg_ID (cb_Generations db') = map cg_ID (cb_Generations db)" unfolding gens by simp
  then have idset: "cg_ID ` set (cb_Generations db') = cg_ID ` set (cb_Generations db)" by (metis set_map)
  have un: "unfinished_ids db' = unfinished_ids db"
  proof -
    have same: "cg_ID g \<notin> set ids" if "g \<in> set (cb_Generations db)" "unfinished g" for g
    proof
      assume "cg_ID g \<in> set ids"
      then obtain h where "h \<in> set (cb_Generations db)" "active_cve h" "cg_ID h = cg_ID g" using ids by (auto simp: active_ids_def)
      then have "h = g" using that dist by (auto simp: distinct_map dest: inj_onD)
      then show False using \<open>active_cve h\<close> that(2) by (auto simp: active_cve_def unfinished_def)
    qed
    have "filter unfinished (map (\<lambda>g. if cg_ID g \<in> set ids then g\<lparr>cg_Status := ''retired''\<rparr> else g) gs) = filter unfinished gs"
      if "set gs \<subseteq> set (cb_Generations db)" for gs
      using that by (induction gs) (auto simp: unfinished_def dest: same)
    then show ?thesis by (simp add: unfinished_ids_def gens)
  qed
  have sub: "active_ids db' \<subseteq> active_ids db" unfolding gens active_ids_def by (auto simp: active_cve_def split: if_splits)
  have tables: "cb_Tables db' = t" "cb_HasTables db' = cb_HasTables db" by (simp_all add: db'_eq retire_def)
  have "known_rows db" "newer_unfinished db" "phase_ok ph db" using ok by (simp_all add: catalog_ok_def)
  then have "known_rows db'" "newer_unfinished db'"
    using m sub by (auto simp: known_rows_def newer_unfinished_def un tables idset)
  moreover have "phase_ok ph db'"
    using \<open>phase_ok ph db\<close> m sub by (cases ph) (auto simp: phase_ok_def un tables)
  ultimately have "catalog_ok (ph, db')" using dist by (simp add: catalog_ok_def idmap)
  moreover have "served db' = served db"
  proof -
    obtain g gs where g: "?gens = g # gs" using pruned(1) by (cases ?gens) auto
    have "distinct (map cg_ID ?gens)" using dist by (simp add: active_generations_def distinct_map inj_on_def)
    then have "cg_ID g \<notin> set ids" using pruned(3,4) g set_drop_subset [of "n - 1" gs] by (cases n) auto
    then have "ActiveCVEGeneration db' = Some g" "ActiveCVEGeneration db = Some g" using g act by (simp_all add: ActiveCVEGeneration_def)
    moreover have "view (cg_ID g) t = view (cg_ID g) (cb_Tables db)" using pruned(2) g by (simp add: t_def view_prune)
    ultimately show ?thesis by (simp add: served_def tables)
  qed
  ultimately show ?thesis by simp
qed

interpretation quiet: step_invariant quiet_step catalog_ok "\<lambda>s. served (snd s)"
proof
  fix s s' assume "quiet_step s s'" "catalog_ok s"
  then have "catalog_ok s' \<and> served (snd s') = served (snd s)"
  proof (cases rule: quiet_step.cases)
    case quiet_load
    then show ?thesis using load_step_keeps \<open>catalog_ok s\<close> by (auto simp: keeps_def)
  next
    case (quiet_prune ph db keep stop stops)
    then show ?thesis using prune_keeps [OF _ refl] \<open>catalog_ok s\<close> by simp
  qed
  then show "catalog_ok s'" "served (snd s') = served (snd s)" by blast+
qed

text \<open>
  C29. Readers keep the catalog they have: through failed and unfinished loads, crashes between any two statements, rollbacks and prunings
  that stop anywhere, the served generation and everything visible in it stay the same until a load activates a new generation.
\<close>

theorem served_until_activation:
  assumes "quiet_step\<^sup>*\<^sup>* s s'" "catalog_ok s"
  shows "served (snd s') = served (snd s) \<and> catalog_ok s'"
  using quiet.reachable_frame [OF assms] quiet.reachable_inv [OF assms] by simp

text \<open>
  C30. A load that fails, wherever it fails and whether or not it manages to undo itself, changes nothing readers see, and the next
  rollback restores the tables exactly.
\<close>

theorem failed_load_undone:
  assumes "catalog_ok (Ready, db)" "fresh_id io db" "LoadAll io opts db = (Inl e, db') \<or> LoadChanged io opts db = (Inl e, db')"
  shows "served db' = served db \<and> cb_Tables (RollbackUnfinishedCatalogGenerations db') = cb_Tables db"
proof -
  obtain ph where run: "load_step\<^sup>*\<^sup>* (Ready, db) (ph, db')"
    using assms(2,3) LoadAll_ends LoadChanged_ends by (fastforce simp: load_ends_def)
  have "served db' = served db" "committed db' = committed db" using loads.reachable_frame [OF run assms(1)] by simp_all
  moreover have "known_rows db'" using loads.reachable_inv [OF run assms(1)] by (simp add: catalog_ok_def)
  moreover have "committed db = cb_Tables db"
    unfolding committed_def using assms(1) by (intro rollback_unmentioned) (auto simp: catalog_ok_def phase_ok_def)
  ultimately show ?thesis by (simp add: rollback_unfinished_tables)
qed

text \<open>
  The witness: a catalog with one advisory, served by generation 1, and a second load that reads a broken file after it has replaced
  the advisory.
\<close>

definition sample_generation :: CatalogGeneration where
  "sample_generation = \<lparr>cg_ID = 1, cg_CatalogType = ''cve'', cg_SourceURL = ''/osv'', cg_SourceDigest = [], cg_Status = ''active'', cg_ErrorSummary = [],
     cg_StartedAt = 0, cg_ActivatedAt = Some 5, cg_LoaderVersion = [], cg_ValidationStatus = ''passed'', cg_ValidationSummary = []\<rparr>"

definition sample_tables :: VulnTables where
  "sample_tables = \<lparr>vt_advisories = [\<lparr>vr_ID = ''A'', vr_From = 1, vr_To = None,
       vr_Row = \<lparr>aw_Source = ''a'', aw_Kind = ''vulnerability'', aw_CVSSv3Score = None, aw_CVSSv4Score = None, aw_SourceSeverity = [], aw_ContentSHA256 = ''old''\<rparr>\<rparr>],
     vt_refs = [], vt_affected = []\<rparr>"

definition sample_catalog :: CatalogDb where
  "sample_catalog = \<lparr>cb_HasTables = True, cb_Tables = sample_tables, cb_Generations = [sample_generation], cb_Files = []\<rparr>"

definition no_cvss :: CvssLib where
  "no_cvss = \<lparr>cl_Score20 = (\<lambda>_. None), cl_Score30 = (\<lambda>_. None), cl_Score31 = (\<lambda>_. None), cl_Score40 = (\<lambda>_. None)\<rparr>"

definition sample_io :: "(LoadStatement \<Rightarrow> bool) \<Rightarrow> LoadIO" where
  "sample_io fails = \<lparr>io_Glob = (\<lambda>_. Some [''A.json'', ''B.json'']), io_Stat = (\<lambda>_. Some \<lparr>fi_Size = 1, fi_MTime = 0\<rparr>),
     io_Read = (\<lambda>f. Some (if f = ''A.json'' then ''{\"id\":\"A\"}'' else ''?'')), io_Verify = (\<lambda>_ _ _. False), io_Sha256 = (\<lambda>s. s),
     io_Float = exact_arith, io_Cvss = no_cvss, io_Arrival = (\<lambda>_ xs. xs), io_MapOrder = (\<lambda>xs. xs), io_NewID = 2, io_Now = 9, io_Fails = fails,
     io_ErrorText = (\<lambda>_. [])\<rparr>"

definition sample_options :: DirectoryLoad where
  "sample_options = \<lparr>dl_SourceDir = ''/osv'', dl_Workers = 0, dl_BatchSize = 0, dl_CheckpointInterval = 0, dl_ComputeHash = False, dl_DryRun = False,
     dl_LoaderVersion = [], dl_RequireIDs = [], dl_ExpectedSourceDigest = [], dl_SourceManifestPath = [], dl_SourceManifestSig = [], dl_SourceManifestPubKey = []\<rparr>"

lemma sample_catalog_ok: "catalog_ok (Ready, sample_catalog)"
  by (auto simp: catalog_ok_def sample_catalog_def sample_generation_def known_rows_def mentions_def sample_tables_def row_mentions_def
    newer_unfinished_def phase_ok_def unfinished_ids_def unfinished_def)

lemma sample_load_fails: "fst (LoadAll (sample_io (\<lambda>st. st = RollbackRows)) sample_options sample_catalog) = Inl (FilesFailed 1)"
  by code_simp

theorem failed_load_undone_witness:
  "let db' = snd (LoadAll (sample_io (\<lambda>st. st = RollbackRows)) sample_options sample_catalog)
   in served db' = served sample_catalog \<and> cb_Tables (RollbackUnfinishedCatalogGenerations db') = sample_tables \<and> cb_Tables db' \<noteq> sample_tables"
proof -
  let ?io = "sample_io (\<lambda>st. st = RollbackRows)"
  let ?r = "LoadAll ?io sample_options sample_catalog"
  have "fresh_id ?io sample_catalog" by (simp add: fresh_id_def sample_catalog_def sample_generation_def sample_io_def)
  moreover have "?r = (Inl (FilesFailed 1), snd ?r)" using sample_load_fails by (metis prod.collapse)
  moreover have "cb_Tables (snd ?r) \<noteq> sample_tables" by code_simp
  ultimately show ?thesis using failed_load_undone [OF sample_catalog_ok, of ?io sample_options "FilesFailed 1" "snd ?r"]
    by (simp add: sample_catalog_def Let_def)
qed

theorem served_until_activation_witness:
  "\<exists>db'. quiet_step\<^sup>*\<^sup>* (Idle, sample_catalog) (Idle, db') \<and> served db' = served sample_catalog \<and> cb_Tables db' \<noteq> sample_tables"
proof -
  let ?io = "sample_io (\<lambda>_. False)"
  define db1 where "db1 = RollbackUnfinishedCatalogGenerations sample_catalog"
  define db2 where "db2 = snd (startCatalogGeneration ?io sample_options [] db1)"
  define db3 where "db3 = db2\<lparr>cb_Tables := snd (Close 2 [''A''] (cb_Tables db2))\<rparr>"
  have one: "quiet_step (Idle, sample_catalog) (Ready, db1)" unfolding db1_def by (intro quiet_load step_lock)
  have "startCatalogGeneration ?io sample_options [] db1 = (Some 2, db2)" by (simp add: db2_def startCatalogGeneration_def sample_io_def)
  moreover have "list_all (\<lambda>g. cg_ID g < 2) (cb_Generations db1)" unfolding db1_def by code_simp
  ultimately have two: "quiet_step (Ready, db1) (Loading 2, db2)" by (intro quiet_load step_start)
  have "cb_HasTables db2" unfolding db2_def db1_def by code_simp
  then have three: "quiet_step (Loading 2, db2) (Loading 2, db3)" unfolding db3_def by (intro quiet_load step_close)
  have four: "quiet_step (Loading 2, db3) (Idle, db3)" by (intro quiet_load step_unlock)
  have run: "quiet_step\<^sup>*\<^sup>* (Idle, sample_catalog) (Idle, db3)"
    using one two three four by (blast intro: converse_rtranclp_into_rtranclp)
  moreover have "catalog_ok (Idle, sample_catalog)" using sample_catalog_ok by (simp add: catalog_ok_def phase_ok_def)
  ultimately have "served db3 = served sample_catalog" using served_until_activation [OF run] by simp
  moreover have "cb_Tables db3 \<noteq> sample_tables" unfolding db3_def db2_def db1_def by code_simp
  ultimately show ?thesis using run by blast
qed

text \<open>
  The tracker records the changed files before they are loaded. After a failed load it finds nothing to do: the changes are not loaded,
  although the catalog is as it was before them.
\<close>

lemma failed_load_forgets_changes:
  "let db1 = snd (LoadChanged (sample_io (\<lambda>_. False)) sample_options sample_catalog)
   in fst (LoadChanged (sample_io (\<lambda>_. False)) sample_options sample_catalog) = Inl (FilesFailed 1) \<and>
      fst (GetFilesToProcess (sample_io (\<lambda>_. False)) sample_options db1) = Some [] \<and>
      fst (LoadChanged (sample_io (\<lambda>_. False)) sample_options db1) = Inr ()"
  by code_simp

text \<open>
  An incremental load looks for the required advisories among the changed files only: with \<^verbatim>\<open>A.json\<close> in the source and loaded
  before, a load of the new \<^verbatim>\<open>B.json\<close> that requires \<^verbatim>\<open>A\<close> is refused.
\<close>

lemma unchanged_required_advisory_refused:
  "let io = sample_io (\<lambda>_. False); opts = sample_options\<lparr>dl_RequireIDs := ''A''\<rparr>;
       db = sample_catalog\<lparr>cb_Files := [new_metadata io False ''A.json'' \<lparr>fi_Size = 1, fi_MTime = 0\<rparr>]\<rparr>
   in fst (LoadChanged io opts db) = Inl (BadSource (AdvisoriesMissing [''A''])) \<and>
      ValidateRequiredAdvisories [''A.json'', ''B.json''] (dl_RequireIDs opts) = Inr ()"
  by code_simp

end
