(* ===== verification/Catalog_Mirror.thy ===== *)
theory Catalog_Mirror
  imports Catalog_Runs
begin

section \<open>A full load mirrors its source\<close>

text \<open>
  The rows that are current belong to a list of advisories, each with the generation that wrote it. A full load makes this list that
  of the advisories of the source that are not withdrawn.
\<close>

type_synonym stored = "(nat \<times> ParsedAdvisory) list"

definition rows_from :: "(ParsedAdvisory \<Rightarrow> 'a list) \<Rightarrow> stored \<Rightarrow> 'a Versioned list" where
  "rows_from f V = concat (map (\<lambda>v. map (\<lambda>x. \<lparr>vr_ID = pa_ID (snd v), vr_From = fst v, vr_To = None, vr_Row = x\<rparr>) (f (snd v))) V)"

definition tables_from :: "stored \<Rightarrow> VulnTables" where
  "tables_from V = \<lparr>vt_advisories = rows_from (\<lambda>a. [advisory_row a]) V, vt_refs = rows_from pa_Refs V, vt_affected = rows_from pa_Affected V\<rparr>"

definition current_rows :: "'a Versioned list \<Rightarrow> 'a Versioned list" where
  "current_rows = filter (\<lambda>r. vr_To r = None)"

definition current :: "VulnTables \<Rightarrow> VulnTables" where
  "current t = \<lparr>vt_advisories = current_rows (vt_advisories t), vt_refs = current_rows (vt_refs t), vt_affected = current_rows (vt_affected t)\<rparr>"

abbreviation ids_of :: "stored \<Rightarrow> string list" where
  "ids_of V \<equiv> map (pa_ID \<circ> snd) V"

lemma current_close_rows: "current_rows (close_rows gen ids rows) = filter (\<lambda>r. vr_ID r \<notin> set ids) (current_rows rows)"
  by (induction rows) (auto simp: close_rows_def current_rows_def)

lemma filter_rows_from: "filter (\<lambda>r. vr_ID r \<notin> S) (rows_from f V) = rows_from f (filter (\<lambda>v. pa_ID (snd v) \<notin> S) V)"
proof (induction V)
  case (Cons v V)
  have "filter (\<lambda>r. vr_ID r \<notin> S) (map (\<lambda>x. \<lparr>vr_ID = pa_ID (snd v), vr_From = fst v, vr_To = None, vr_Row = x\<rparr>) xs) =
      (if pa_ID (snd v) \<in> S then [] else map (\<lambda>x. \<lparr>vr_ID = pa_ID (snd v), vr_From = fst v, vr_To = None, vr_Row = x\<rparr>) xs)" for xs :: "'a list"
    by (induction xs) auto
  then show ?case using Cons by (simp add: rows_from_def)
qed (simp add: rows_from_def)

lemma current_close:
  assumes "current t = tables_from V"
  shows "current (snd (closeAdvisories gen ids t)) = tables_from (filter (\<lambda>v. pa_ID (snd v) \<notin> set ids) V)"
  using assms by (auto simp: closeAdvisories_def current_def tables_from_def current_close_rows filter_rows_from)

lemma rows_from_append: "rows_from f (V @ W) = rows_from f V @ rows_from f W"
  by (simp add: rows_from_def)

lemma rows_from_Nil: "rows_from f [] = []"
  by (simp add: rows_from_def)

lemma current_append: "current_rows (xs @ ys) = current_rows xs @ current_rows ys"
  by (simp add: current_rows_def)

lemma current_new_rows:
  "current_rows (concat (map (\<lambda>a. map (\<lambda>r. \<lparr>vr_ID = pa_ID a, vr_From = gen, vr_To = None, vr_Row = r\<rparr>) (f a)) advs)) = rows_from f (map (Pair gen) advs)"
proof -
  have "current_rows (map (\<lambda>r. \<lparr>vr_ID = i, vr_From = gen, vr_To = None, vr_Row = r\<rparr>) xs) = map (\<lambda>r. \<lparr>vr_ID = i, vr_From = gen, vr_To = None, vr_Row = r\<rparr>) xs"
    for i :: string and xs :: "'a list" by (simp add: current_rows_def)
  then show ?thesis by (induction advs) (simp_all add: rows_from_def current_append, simp add: current_rows_def)
qed

lemma current_new_advisories:
  "current_rows (map (\<lambda>a. \<lparr>vr_ID = pa_ID a, vr_From = gen, vr_To = None, vr_Row = advisory_row a\<rparr>) advs) = rows_from (\<lambda>a. [advisory_row a]) (map (Pair gen) advs)"
  by (induction advs) (simp_all add: current_rows_def rows_from_def)

lemma current_insert:
  assumes "current t = tables_from V"
  shows "current (insertAdvisories gen advs t) = tables_from (V @ map (Pair gen) advs)"
  using assms
  by (auto simp: insertAdvisories_def current_def tables_from_def current_append rows_from_append current_new_rows current_new_advisories rows_from_Nil)

subsection \<open>One batch\<close>

lemma hash_of_stored:
  assumes "current t = tables_from V" "distinct (ids_of V)" "i \<in> set ids"
  shows "currentHashes t ids i = map_of (map (\<lambda>v. (pa_ID (snd v), pa_ContentSHA256 (snd v))) V) i"
proof -
  let ?h = "\<lambda>r. (vr_ID r, aw_ContentSHA256 (vr_Row r))" and ?k = "\<lambda>v :: nat \<times> ParsedAdvisory. (pa_ID (snd v), pa_ContentSHA256 (snd v))"
  have "current_rows (vt_advisories t) = map (\<lambda>v. \<lparr>vr_ID = pa_ID (snd v), vr_From = fst v, vr_To = None, vr_Row = advisory_row (snd v)\<rparr>) V"
    using assms(1) by (simp add: current_def tables_from_def rows_from_def)
  moreover have "filter (\<lambda>r. vr_To r = None \<and> vr_ID r \<in> set ids) (vt_advisories t) = filter (\<lambda>r. vr_ID r \<in> set ids) (current_rows (vt_advisories t))"
    by (auto simp: current_rows_def intro: filter_cong)
  ultimately have "map ?h (filter (\<lambda>r. vr_To r = None \<and> vr_ID r \<in> set ids) (vt_advisories t)) = map ?k (filter (\<lambda>v. pa_ID (snd v) \<in> set ids) V)"
    by (simp add: filter_map comp_def advisory_row_def)
  then have eq: "currentHashes t ids = map_of (rev (map ?k (filter (\<lambda>v. pa_ID (snd v) \<in> set ids) V)))" by (simp add: currentHashes_def)
  have "distinct (map fst (map ?k V))" using assms(2) by (simp add: comp_def)
  moreover have "distinct (map fst (rev (map ?k (filter (\<lambda>v. pa_ID (snd v) \<in> set ids) V))))"
    using assms(2) by (simp add: comp_def rev_map [symmetric] distinct_map_filter)
  ultimately have "currentHashes t ids i = Some h \<longleftrightarrow> map_of (map ?k V) i = Some h" for h
    using assms(3) by (auto simp: eq map_of_eq_Some_iff)
  then show ?thesis by (cases "map_of (map ?k V) i") fastforce+
qed

lemma first_ids_distinct: "distinct (map pa_ID advs) \<Longrightarrow> list_all (\<lambda>a. pa_ID a \<noteq> [] \<and> pa_ID a \<notin> set seen) advs \<Longrightarrow> first_ids seen advs = map pa_ID advs"
proof (induction advs arbitrary: seen)
  case (Cons a advs)
  then have "list_all (\<lambda>b. pa_ID b \<noteq> [] \<and> pa_ID b \<notin> set (pa_ID a # seen)) advs" by (auto simp: list_all_iff) (metis imageI)
  then show ?case using Cons by (simp add: list_all_iff)
qed simp

lemma last_of_distinct:
  assumes "distinct (map pa_ID advs)" "a \<in> set advs" "pa_ID a \<noteq> []"
  shows "last_of advs (pa_ID a) = Some a"
proof -
  have "distinct (map fst (rev (map (\<lambda>a. (pa_ID a, a)) (filter (\<lambda>a. pa_ID a \<noteq> []) advs))))"
    using assms(1) by (simp add: comp_def rev_map [symmetric] distinct_map_filter)
  then show ?thesis unfolding last_of_def using assms(2,3) by (subst map_of_eq_Some_iff) auto
qed

definition proper_advisories :: "ParsedAdvisory list \<Rightarrow> bool" where
  "proper_advisories advs \<longleftrightarrow> distinct (map pa_ID advs) \<and> list_all (\<lambda>a. pa_ID a \<noteq> []) advs"

lemma write_plan_proper:
  "proper_advisories advs \<Longrightarrow> write_plan cur advs = map (\<lambda>a. (write_case (cur (pa_ID a)) a, a)) advs"
  by (auto simp: write_plan_def proper_advisories_def first_ids_distinct last_of_distinct list_all_iff)

text \<open>An advisory stored under the same content hash is the same advisory.\<close>

definition hash_faithful :: "stored \<Rightarrow> ParsedAdvisory set \<Rightarrow> bool" where
  "hash_faithful V A \<longleftrightarrow> (\<forall>v \<in> set V. \<forall>a \<in> A. pa_ID (snd v) = pa_ID a \<and> pa_ContentSHA256 (snd v) = pa_ContentSHA256 a \<longrightarrow> snd v = a)"

definition live :: "ParsedAdvisory set \<Rightarrow> ParsedAdvisory set" where
  "live A = {a \<in> A. \<not> pa_Withdrawn a}"

definition mirrored :: "nat \<Rightarrow> stored \<Rightarrow> ParsedAdvisory set \<Rightarrow> stored \<Rightarrow> bool" where
  "mirrored gen V A W \<longleftrightarrow> distinct (ids_of W) \<and> snd ` set W = live A \<union> {b \<in> snd ` set V. pa_ID b \<notin> pa_ID ` A} \<and>
     set W \<subseteq> set V \<union> Pair gen ` A"

text \<open>The batch on the stored list.\<close>

definition stored_hash :: "stored \<Rightarrow> string \<Rightarrow> string option" where
  "stored_hash V = map_of (map (\<lambda>v. (pa_ID (snd v), pa_ContentSHA256 (snd v))) V)"

definition batch_case :: "stored \<Rightarrow> ParsedAdvisory \<Rightarrow> WriteCase" where
  "batch_case V a = write_case (stored_hash V (pa_ID a)) a"

definition written :: "nat \<Rightarrow> stored \<Rightarrow> ParsedAdvisory list \<Rightarrow> stored" where
  "written gen V advs =
     filter (\<lambda>v. pa_ID (snd v) \<notin> pa_ID ` set (filter (\<lambda>a. batch_case V a \<in> {JustClose, ReplaceVersion}) advs)) V @
     map (Pair gen) (filter (\<lambda>a. batch_case V a \<in> {ReplaceVersion, NewVersion}) advs)"

lemma current_write:
  assumes "current t = tables_from V" "distinct (ids_of V)" "proper_advisories advs"
  shows "current (snd (Write gen advs t)) = tables_from (written gen V advs)"
proof (cases "advs = []")
  case True
  then show ?thesis using assms(1) by (simp add: Write_def written_def)
next
  case False
  let ?cur = "currentHashes t (first_ids [] advs)"
  have ids: "first_ids [] advs = map pa_ID advs" using assms(3) by (intro first_ids_distinct) (auto simp: proper_advisories_def list_all_iff)
  have plan: "write_plan ?cur advs = map (\<lambda>a. (batch_case V a, a)) advs"
    unfolding write_plan_proper [OF assms(3)] batch_case_def stored_hash_def ids
    by (auto intro!: hash_of_stored [OF assms(1,2), THEN arg_cong])
  have closes: "plan_closes (write_plan ?cur advs) = map pa_ID (filter (\<lambda>a. batch_case V a \<in> {JustClose, ReplaceVersion}) advs)"
    unfolding plan plan_closes_def by (simp add: filter_map comp_def)
  have inserts: "plan_inserts (write_plan ?cur advs) = filter (\<lambda>a. batch_case V a \<in> {ReplaceVersion, NewVersion}) advs"
    unfolding plan plan_inserts_def by (simp add: filter_map comp_def)
  have "snd (Write gen advs t) = insertAdvisories gen (plan_inserts (write_plan ?cur advs)) (snd (closeAdvisories gen (plan_closes (write_plan ?cur advs)) t))"
    using False by (simp add: Write_def Let_def case_prod_unfold)
  then show ?thesis unfolding inserts closes written_def using current_insert [OF current_close [OF assms(1)]] by simp
qed

lemma stored_hash_Some: "distinct (ids_of V) \<Longrightarrow> stored_hash V i = Some h \<longleftrightarrow> (\<exists>v \<in> set V. pa_ID (snd v) = i \<and> pa_ContentSHA256 (snd v) = h)"
  unfolding stored_hash_def by (subst map_of_eq_Some_iff) (auto simp: comp_def)

lemma stored_hash_None: "stored_hash V i = None \<longleftrightarrow> i \<notin> set (ids_of V)"
  unfolding stored_hash_def by (force simp: map_of_eq_None_iff)

lemma ids_of_inj: "distinct (ids_of V) \<Longrightarrow> v \<in> set V \<Longrightarrow> w \<in> set V \<Longrightarrow> pa_ID (snd v) = pa_ID (snd w) \<Longrightarrow> v = w"
  by (auto simp: distinct_map inj_on_def)

lemma written_mirrors:
  assumes dist: "distinct (ids_of V)" and proper: "proper_advisories advs" and faith: "hash_faithful V (set advs)"
  shows "mirrored gen V (set advs) (written gen V advs)"
proof -
  let ?C = "pa_ID ` set (filter (\<lambda>a. batch_case V a \<in> {JustClose, ReplaceVersion}) advs)"
  let ?I = "filter (\<lambda>a. batch_case V a \<in> {ReplaceVersion, NewVersion}) advs"
  have inj: "a = b" if "a \<in> set advs" "b \<in> set advs" "pa_ID a = pa_ID b" for a b
    using that proper by (auto simp: proper_advisories_def distinct_map dest: inj_onD)
  have disj: "pa_ID a \<notin> set (ids_of V) \<or> pa_ID a \<in> ?C" if "a \<in> set ?I" for a
  proof (cases "batch_case V a = ReplaceVersion")
    case True
    then show ?thesis using that by auto
  next
    case False
    then have "stored_hash V (pa_ID a) = None" using that by (auto simp: batch_case_def write_case_def split: if_splits)
    then show ?thesis unfolding stored_hash_None by simp
  qed
  have "distinct (ids_of (written gen V advs))"
  proof -
    have "distinct (ids_of (filter (\<lambda>v. pa_ID (snd v) \<notin> ?C) V))" using dist by (simp add: distinct_map_filter)
    moreover have "distinct (ids_of (map (Pair gen) ?I))" using proper by (simp add: comp_def proper_advisories_def distinct_map_filter)
    moreover have "i \<notin> set (ids_of (map (Pair gen) ?I))" if "i \<in> set (ids_of (filter (\<lambda>v. pa_ID (snd v) \<notin> ?C) V))" for i
    proof
      assume "i \<in> set (ids_of (map (Pair gen) ?I))"
      then obtain a where a: "a \<in> set ?I" "i = pa_ID a" by auto
      have "i \<in> set (ids_of V)" "i \<notin> ?C" using that by auto
      then show False using disj [OF a(1)] a(2) by simp
    qed
    ultimately show ?thesis by (auto simp: written_def)
  qed
  moreover have "snd ` set (written gen V advs) = live (set advs) \<union> {b \<in> snd ` set V. pa_ID b \<notin> pa_ID ` set advs}"
  proof (intro set_eqI iffI)
    fix b assume "b \<in> snd ` set (written gen V advs)"
    then consider (old) v where "v \<in> set V" "b = snd v" "pa_ID b \<notin> ?C" | (new) "b \<in> set ?I" by (auto simp: written_def)
    then show "b \<in> live (set advs) \<union> {b \<in> snd ` set V. pa_ID b \<notin> pa_ID ` set advs}"
    proof cases
      case old
      show ?thesis
      proof (cases "pa_ID b \<in> pa_ID ` set advs")
        case True
        then obtain a where a: "a \<in> set advs" "pa_ID a = pa_ID b" by auto
        have "stored_hash V (pa_ID a) = Some (pa_ContentSHA256 b)" unfolding stored_hash_Some [OF dist] using old a by auto
        moreover have "batch_case V a \<notin> {JustClose, ReplaceVersion}"
        proof
          assume "batch_case V a \<in> {JustClose, ReplaceVersion}"
          then have "pa_ID a \<in> ?C" using a(1) by (intro imageI) simp
          then show False using old(3) a(2) by simp
        qed
        ultimately have "\<not> pa_Withdrawn a" "pa_ContentSHA256 b = pa_ContentSHA256 a" by (auto simp: batch_case_def write_case_def split: if_splits)
        moreover from this have "b = a" using faith old a by (auto simp: hash_faithful_def)
        ultimately show ?thesis using a by (simp add: live_def)
      next
        case False
        then show ?thesis using old by auto
      qed
    next
      case new
      then show ?thesis by (auto simp: live_def batch_case_def write_case_def split: if_splits)
    qed
  next
    fix b assume "b \<in> live (set advs) \<union> {b \<in> snd ` set V. pa_ID b \<notin> pa_ID ` set advs}"
    then consider (live) "b \<in> set advs" "\<not> pa_Withdrawn b" | (other) v where "v \<in> set V" "b = snd v" "pa_ID b \<notin> pa_ID ` set advs"
      by (auto simp: live_def)
    then show "b \<in> snd ` set (written gen V advs)"
    proof cases
      case live
      show ?thesis
      proof (cases "batch_case V b \<in> {ReplaceVersion, NewVersion}")
        case True
        then show ?thesis using live by (force simp: written_def)
      next
        case False
        then have k: "stored_hash V (pa_ID b) = Some (pa_ContentSHA256 b)" "batch_case V b = KeepVersion"
          using live by (auto simp: batch_case_def write_case_def split: if_splits)
        then obtain v where v: "v \<in> set V" "pa_ID (snd v) = pa_ID b" "pa_ContentSHA256 (snd v) = pa_ContentSHA256 b"
          using stored_hash_Some [OF dist] by auto
        then have "snd v = b" using faith live by (auto simp: hash_faithful_def)
        moreover have "pa_ID b \<notin> ?C"
        proof
          assume "pa_ID b \<in> ?C"
          then obtain a where "a \<in> set advs" "batch_case V a \<in> {JustClose, ReplaceVersion}" "pa_ID b = pa_ID a" by auto
          then show False using inj [of a b] k(2) live(1) by simp
        qed
        ultimately have "v \<in> set (written gen V advs)" using v by (simp add: written_def)
        then show ?thesis using \<open>snd v = b\<close> by force
      qed
    next
      case other
      then have "v \<in> set (written gen V advs)" by (auto simp: written_def)
      then show ?thesis using other(2) by (metis imageI)
    qed
  qed
  moreover have "set (written gen V advs) \<subseteq> set V \<union> Pair gen ` set advs" by (auto simp: written_def)
  ultimately show ?thesis by (simp add: mirrored_def)
qed

text \<open>One batch after others, with other identifiers.\<close>

lemma mirrored_trans:
  assumes "mirrored gen V A U" "mirrored gen U B W" "pa_ID ` A \<inter> pa_ID ` B = {}"
  shows "mirrored gen V (A \<union> B) W"
proof -
  have "snd ` set W = live B \<union> {b \<in> live A \<union> {b \<in> snd ` set V. pa_ID b \<notin> pa_ID ` A}. pa_ID b \<notin> pa_ID ` B}"
    using assms(1,2) by (simp add: mirrored_def)
  also have "\<dots> = live (A \<union> B) \<union> {b \<in> snd ` set V. pa_ID b \<notin> pa_ID ` (A \<union> B)}" using assms(3) by (auto simp: live_def)
  finally have "snd ` set W = live (A \<union> B) \<union> {b \<in> snd ` set V. pa_ID b \<notin> pa_ID ` (A \<union> B)}" .
  moreover have "set W \<subseteq> set V \<union> Pair gen ` (A \<union> B)" using assms(1,2) unfolding mirrored_def image_Un by blast
  ultimately show ?thesis using assms(2) unfolding mirrored_def by blast
qed

lemma faithful_later:
  assumes "mirrored gen V A U" "pa_ID ` A \<inter> pa_ID ` B = {}" "hash_faithful V B"
  shows "hash_faithful U B"
proof -
  have "v \<in> set V" if "v \<in> set U" "a \<in> B" "pa_ID (snd v) = pa_ID a" for v a
  proof -
    have "v \<in> set V \<union> Pair gen ` A" using assms(1) that(1) unfolding mirrored_def by blast
    moreover have "v \<notin> Pair gen ` A" using assms(2) that(2,3) by (metis IntI disjoint_iff imageE imageI snd_conv)
    ultimately show ?thesis by blast
  qed
  then show ?thesis using assms(3) unfolding hash_faithful_def by metis
qed

subsection \<open>All batches\<close>

abbreviation parsed :: "LoadIO \<Rightarrow> string list \<Rightarrow> ParsedAdvisory list" where
  "parsed io files \<equiv> List.map_filter (parse_file io) files"

definition arrival_ok :: "LoadIO \<Rightarrow> bool" where
  "arrival_ok io \<longleftrightarrow> (\<forall>n xs. mset (io_Arrival io n xs) = mset xs)"

abbreviation broken_files :: "LoadIO \<Rightarrow> string list \<Rightarrow> nat" where
  "broken_files io files \<equiv> length (filter (\<lambda>f. parse_file io f = None) files)"

lemma parsed_append: "parsed io (xs @ ys) = parsed io xs @ parsed io ys"
  by (induction xs) (simp_all add: List.map_filter_simps split: option.split)

lemma proper_perm: "mset xs = mset ys \<Longrightarrow> proper_advisories ys \<Longrightarrow> proper_advisories xs"
  unfolding proper_advisories_def by (metis list_all_iff mset_eq_imp_distinct_iff mset_map set_mset_mset)

lemma parsed_named: "parse_file io f = Some a \<Longrightarrow> pa_ID a \<noteq> []"
  by (auto simp: parse_file_def ParseBytes_def BuildAdvisory_def split: option.splits if_splits)

lemma parsed_member: "a \<in> set (parsed io files) \<Longrightarrow> \<exists>f \<in> set files. parse_file io f = Some a"
  by (auto simp: List.map_filter_def)

lemma parsed_proper: "distinct (map pa_ID (parsed io files)) \<Longrightarrow> proper_advisories (parsed io files)"
  using parsed_member parsed_named by (fastforce simp: proper_advisories_def list_all_iff)

text \<open>What is known after some batches: the current rows, the identifiers seen, the broken files and the generations mentioned.\<close>

definition loaded :: "LoadIO \<Rightarrow> nat \<Rightarrow> stored \<Rightarrow> string list \<Rightarrow> BulkLoader \<times> CatalogDb \<Rightarrow> BulkLoader \<times> CatalogDb \<Rightarrow> bool" where
  "loaded io gen V files s s' \<longleftrightarrow>
     (\<exists>W. current (cb_Tables (snd s')) = tables_from W \<and> mirrored gen V (set (parsed io files)) W) \<and>
     bl_gen (fst s') = Some gen \<and> set (bl_seen (fst s')) = set (bl_seen (fst s)) \<union> pa_ID ` set (parsed io files) \<and>
     bs_FailedFiles (bl_stats (fst s')) = bs_FailedFiles (bl_stats (fst s)) + broken_files io files \<and>
     (\<forall>x. mentions x (cb_Tables (snd s')) \<longrightarrow> x = gen \<or> mentions x (cb_Tables (snd s)))"

lemma processBatch_loaded:
  assumes "processBatch io n files (l, db) = (None, l', db')" "bl_gen l = Some gen" "arrival_ok io"
    "current (cb_Tables db) = tables_from V" "distinct (ids_of V)" "proper_advisories (parsed io files)" "hash_faithful V (set (parsed io files))"
  shows "loaded io gen V files (l, db) (l', db')"
proof -
  let ?a = "io_Arrival io n (parsed io files)"
  have perm: "mset ?a = mset (parsed io files)" using assms(3) by (simp add: arrival_ok_def)
  then have set: "set ?a = set (parsed io files)" by (metis set_mset_mset)
  have proper: "proper_advisories ?a" using proper_perm [OF perm assms(6)] .
  have db': "cb_Tables db' = snd (Write gen ?a (cb_Tables db))" "bl_gen l' = Some gen" "bl_seen l' = bl_seen l @ map pa_ID ?a"
    "bs_FailedFiles (bl_stats l') = bs_FailedFiles (bl_stats l) + broken_files io files"
    using assms(1,2) by (auto simp: processBatch_def parseFilesParallel_def Let_def case_prod_unfold split: if_splits)
  have "current (cb_Tables db') = tables_from (written gen V ?a)" unfolding db'(1) by (rule current_write [OF assms(4,5) proper])
  moreover have "mirrored gen V (set (parsed io files)) (written gen V ?a)"
    using written_mirrors [OF assms(5) proper, of gen] assms(7) by (simp add: set)
  ultimately show ?thesis using db' set mentions_write by (auto simp: loaded_def)
qed

lemma loaded_trans:
  assumes "loaded io gen V xs s u" "\<And>U. current (cb_Tables (snd u)) = tables_from U \<Longrightarrow> mirrored gen V (set (parsed io xs)) U \<Longrightarrow> loaded io gen U ys u s'"
    "pa_ID ` set (parsed io xs) \<inter> pa_ID ` set (parsed io ys) = {}"
  shows "loaded io gen V (xs @ ys) s s'"
proof -
  obtain U where U: "current (cb_Tables (snd u)) = tables_from U" "mirrored gen V (set (parsed io xs)) U"
    using assms(1) by (auto simp: loaded_def)
  note two = assms(2) [OF U]
  obtain W where "current (cb_Tables (snd s')) = tables_from W" "mirrored gen U (set (parsed io ys)) W"
    using two by (auto simp: loaded_def)
  then have "\<exists>W. current (cb_Tables (snd s')) = tables_from W \<and> mirrored gen V (set (parsed io (xs @ ys))) W"
    using mirrored_trans [OF U(2) _ assms(3)] by (auto simp: parsed_append)
  then show ?thesis using assms(1) two by (auto simp: loaded_def parsed_append)
qed

lemma load_batches_loaded:
  "load_batches io n batches (l, db) = (None, l', db') \<Longrightarrow> bl_gen l = Some gen \<Longrightarrow> arrival_ok io \<Longrightarrow>
   current (cb_Tables db) = tables_from V \<Longrightarrow> distinct (ids_of V) \<Longrightarrow> proper_advisories (parsed io (concat batches)) \<Longrightarrow>
   hash_faithful V (set (parsed io (concat batches))) \<Longrightarrow> loaded io gen V (concat batches) (l, db) (l', db')"
proof (induction batches arbitrary: n l db V)
  case Nil
  have "mirrored gen V {} V" unfolding mirrored_def live_def using Nil.prems(5) by blast
  then show ?case using Nil.prems(1,2,4) by (auto simp: loaded_def List.map_filter_simps)
next
  case (Cons batch rest)
  obtain e1 l1 db1 where p: "processBatch io n batch (l, db) = (e1, l1, db1)" using prod_cases3 by blast
  then have e1: "e1 = None" and r: "load_batches io (Suc n) rest (l1, db1) = (None, l', db')" using Cons.prems(1) by (auto split: option.splits)
  have split: "proper_advisories (parsed io batch)" "proper_advisories (parsed io (concat rest))"
    "pa_ID ` set (parsed io batch) \<inter> pa_ID ` set (parsed io (concat rest)) = {}"
    using Cons.prems(6) by (auto simp: proper_advisories_def parsed_append)
  have faith: "hash_faithful V (set (parsed io batch))" "hash_faithful V (set (parsed io (concat rest)))"
    using Cons.prems(7) by (auto simp: hash_faithful_def parsed_append)
  have one: "loaded io gen V batch (l, db) (l1, db1)"
    using processBatch_loaded [OF _ Cons.prems(2-5) split(1) faith(1)] p e1 by simp
  have "loaded io gen U (concat rest) (l1, db1) (l', db')"
    if "current (cb_Tables (snd (l1, db1))) = tables_from U" "mirrored gen V (set (parsed io batch)) U" for U
  proof (rule Cons.IH [OF r])
    show "bl_gen l1 = Some gen" using one by (simp add: loaded_def)
    show "distinct (ids_of U)" using that(2) by (simp add: mirrored_def)
    show "hash_faithful U (set (parsed io (concat rest)))" by (rule faithful_later [OF that(2) split(3) faith(2)])
  qed (use that Cons.prems(3) split in auto)
  then show ?case using loaded_trans [OF one _ split(3)] by simp
qed

lemma concat_chunks: "0 < n \<Longrightarrow> concat (chunks n xs) = xs"
proof (induction n xs rule: chunks.induct)
  case (1 n xs)
  then show ?case by (subst chunks.simps) auto
qed

subsection \<open>Closing what the source no longer has\<close>

lemma current_Close:
  assumes "current t = tables_from V"
  shows "current (snd (Close gen ids t)) = tables_from (filter (\<lambda>v. pa_ID (snd v) \<notin> set ids) V)"
proof -
  have "current (foldl (\<lambda>t chunk. snd (closeAdvisories gen chunk t)) t css) = tables_from (filter (\<lambda>v. pa_ID (snd v) \<notin> \<Union> (set ` set css)) V)"
    if "current t = tables_from V" for css t V
    using that
  proof (induction css arbitrary: t V)
    case (Cons c css)
    have "current (snd (closeAdvisories gen c t)) = tables_from (filter (\<lambda>v. pa_ID (snd v) \<notin> set c) V)" using Cons.prems by (rule current_close)
    from Cons.IH [OF this] show ?case by (simp add: conj_commute)
  qed simp
  from this [OF assms, of "chunks catalogIDChunk ids"] show ?thesis
    unfolding Close_fold by (subst (asm) set_chunks) (simp_all add: catalogIDChunk_def)
qed

lemma missing_stored:
  assumes "current t = tables_from V"
  shows "set (missing_ids gen seen t) = {pa_ID (snd v) | v. v \<in> set V \<and> fst v < gen \<and> pa_ID (snd v) \<notin> set seen}"
proof -
  have "current_rows (vt_advisories t) = map (\<lambda>v. \<lparr>vr_ID = pa_ID (snd v), vr_From = fst v, vr_To = None, vr_Row = advisory_row (snd v)\<rparr>) V"
    using assms by (simp add: current_def tables_from_def rows_from_def)
  then have "{r \<in> set (vt_advisories t). vr_To r = None} = set (map (\<lambda>v. \<lparr>vr_ID = pa_ID (snd v), vr_From = fst v, vr_To = None, vr_Row = advisory_row (snd v)\<rparr>) V)"
    unfolding current_rows_def by (metis set_filter)
  moreover have "set (missing_ids gen seen t) = vr_ID ` {r \<in> {r \<in> set (vt_advisories t). vr_To r = None}. vr_From r < gen \<and> vr_ID r \<notin> set seen}"
    by (auto simp: missing_ids_def)
  ultimately have "set (missing_ids gen seen t) =
      vr_ID ` {r \<in> set (map (\<lambda>v. \<lparr>vr_ID = pa_ID (snd v), vr_From = fst v, vr_To = None, vr_Row = advisory_row (snd v)\<rparr>) V). vr_From r < gen \<and> vr_ID r \<notin> set seen}"
    by simp
  also have "\<dots> = (\<lambda>v. pa_ID (snd v)) ` {v \<in> set V. fst v < gen \<and> pa_ID (snd v) \<notin> set seen}" by force
  also have "\<dots> = {pa_ID (snd v) | v. v \<in> set V \<and> fst v < gen \<and> pa_ID (snd v) \<notin> set seen}" by blast
  finally show ?thesis .
qed

lemma CloseMissing_mirrors:
  assumes "current t = tables_from U" "mirrored gen V A U" "list_all (\<lambda>v. fst v < gen) V" "set seen = pa_ID ` A"
  shows "\<exists>W. current (snd (CloseMissing gen seen t)) = tables_from W \<and> distinct (ids_of W) \<and> snd ` set W = live A"
proof -
  let ?W = "filter (\<lambda>v. pa_ID (snd v) \<in> pa_ID ` A) U"
  have U: "snd ` set U = live A \<union> {b \<in> snd ` set V. pa_ID b \<notin> pa_ID ` A}" "set U \<subseteq> set V \<union> Pair gen ` A" "distinct (ids_of U)"
    using assms(2) by (auto simp: mirrored_def)
  have missing: "pa_ID (snd v) \<in> set (missing_ids gen seen t) \<longleftrightarrow> pa_ID (snd v) \<notin> pa_ID ` A" if "v \<in> set U" for v
  proof
    assume "pa_ID (snd v) \<notin> pa_ID ` A"
    moreover from this have "v \<in> set V" using U(2) that by fastforce
    ultimately have "fst v < gen" using assms(3) by (simp add: list_all_iff)
    then show "pa_ID (snd v) \<in> set (missing_ids gen seen t)"
      unfolding missing_stored [OF assms(1)] assms(4) using that \<open>pa_ID (snd v) \<notin> pa_ID ` A\<close> by blast
  next
    assume "pa_ID (snd v) \<in> set (missing_ids gen seen t)"
    then obtain w :: "nat \<times> ParsedAdvisory" where "pa_ID (snd v) = pa_ID (snd w)" "pa_ID (snd w) \<notin> pa_ID ` A" 
      unfolding missing_stored [OF assms(1)] assms(4) by blast
    then show "pa_ID (snd v) \<notin> pa_ID ` A" by simp
  qed
  have "current (snd (CloseMissing gen seen t)) = tables_from (filter (\<lambda>v. pa_ID (snd v) \<notin> set (missing_ids gen seen t)) U)"
    unfolding CloseMissing_def by (rule current_Close [OF assms(1)])
  also have "filter (\<lambda>v. pa_ID (snd v) \<notin> set (missing_ids gen seen t)) U = ?W" by (rule filter_cong [OF refl]) (simp add: missing)
  finally have "current (snd (CloseMissing gen seen t)) = tables_from ?W" .
  moreover have "distinct (ids_of ?W)" using U(3) by (simp add: distinct_map_filter)
  moreover have "snd ` set ?W = {b \<in> snd ` set U. pa_ID b \<in> pa_ID ` A}" by (simp only: set_filter) blast
  moreover have "{b \<in> snd ` set U. pa_ID b \<in> pa_ID ` A} = live A" unfolding U(1) by (auto simp: live_def)
  ultimately show ?thesis by metis
qed

subsection \<open>What the newest generation shows\<close>

definition contents :: "ParsedAdvisory list \<Rightarrow> (string \<times> AdvisoryRow) list \<times> (string \<times> AdvisoryRef) list \<times> (string \<times> AffectedRange) list" where
  "contents advs = (map (\<lambda>a. (pa_ID a, advisory_row a)) advs, concat (map (\<lambda>a. map (Pair (pa_ID a)) (pa_Refs a)) advs),
     concat (map (\<lambda>a. map (Pair (pa_ID a)) (pa_Affected a)) advs))"

lemma visible_current:
  "list_all (\<lambda>r. \<forall>x. row_mentions x r \<longrightarrow> x \<le> gen) rows \<Longrightarrow> visible_rows gen rows = map (\<lambda>r. (vr_ID r, vr_Row r)) (current_rows rows)"
proof (induction rows)
  case (Cons r rows)
  then show ?case by (cases "vr_To r") (auto simp: row_defs current_rows_def)
qed (simp add: row_defs current_rows_def)

lemma rows_from_contents: "map (\<lambda>r. (vr_ID r, vr_Row r)) (rows_from f V) = concat (map (\<lambda>a. map (Pair (pa_ID a)) (f a)) (map snd V))"
  by (induction V) (auto simp: rows_from_def)

lemma view_current:
  assumes "current t = tables_from V" "\<And>x. mentions x t \<Longrightarrow> x \<le> gen"
  shows "view gen t = contents (map snd V)"
proof -
  have rows: "current_rows (vt_advisories t) = rows_from (\<lambda>a. [advisory_row a]) V" "current_rows (vt_refs t) = rows_from pa_Refs V"
    "current_rows (vt_affected t) = rows_from pa_Affected V" using assms(1) by (simp_all add: current_def tables_from_def)
  have "visible_rows gen (vt_advisories t) = map (\<lambda>r. (vr_ID r, vr_Row r)) (rows_from (\<lambda>a. [advisory_row a]) V)"
    using assms(2) by (subst visible_current) (auto simp: list_all_iff list_ex_iff mentions_def rows)
  moreover have "visible_rows gen (vt_refs t) = map (\<lambda>r. (vr_ID r, vr_Row r)) (rows_from pa_Refs V)"
    using assms(2) by (subst visible_current) (auto simp: list_all_iff list_ex_iff mentions_def rows)
  moreover have "visible_rows gen (vt_affected t) = map (\<lambda>r. (vr_ID r, vr_Row r)) (rows_from pa_Affected V)"
    using assms(2) by (subst visible_current) (auto simp: list_all_iff list_ex_iff mentions_def rows)
  moreover have "concat (map (\<lambda>a. map (Pair (pa_ID a)) [advisory_row a]) advs) = map (\<lambda>a. (pa_ID a, advisory_row a)) advs" for advs
    by (induction advs) simp_all
  ultimately show ?thesis by (simp only: view_def contents_def rows_from_contents)
qed

subsection \<open>The whole load\<close>

definition mentioned_upto :: "nat \<Rightarrow> VulnTables \<Rightarrow> bool" where
  "mentioned_upto gen t \<longleftrightarrow> (\<forall>x. mentions x t \<longrightarrow> x \<le> gen)"

lemma stored_mentioned:
  assumes "current t = tables_from V" "v \<in> set V"
  shows "mentions (fst v) t"
proof -
  have "\<lparr>vr_ID = pa_ID (snd v), vr_From = fst v, vr_To = None, vr_Row = advisory_row (snd v)\<rparr> \<in> set (current_rows (vt_advisories t))"
    using assms by (auto simp: current_def tables_from_def rows_from_def)
  then show ?thesis by (force simp: current_rows_def mentions_def list_ex_iff row_mentions_def)
qed

lemma loadIntoGeneration_loaded:
  assumes load: "loadIntoGeneration io gen files (l, db) = (None, l', db')" and l: "bl_gen l = Some gen" "0 < bl_batchSize l" "bl_seen l = []"
    "bs_FailedFiles (bl_stats l) = 0"
    and src: "arrival_ok io" "distinct (map pa_ID (parsed io files))" "hash_faithful V (set (parsed io files))"
    and V: "current (cb_Tables db) = tables_from V" "distinct (ids_of V)"
  shows "loaded io gen V files (l, db) (l', db')" "list_all (\<lambda>f. parse_file io f \<noteq> None) files"
proof -
  define l0 where "l0 = l\<lparr>bl_stats := (bl_stats l)\<lparr>bs_TotalFiles := length files\<rparr>\<rparr>"
  have run: "load_batches io 0 (chunks (bl_batchSize l) files) (l0, db) = (None, l', db')" and none: "bs_FailedFiles (bl_stats l') = 0"
    using load by (auto simp: loadIntoGeneration_def LoadFiles_def l0_def split: prod.splits option.splits if_splits)
  have cc: "concat (chunks (bl_batchSize l) files) = files" by (rule concat_chunks [OF l(2)])
  have "loaded io gen V files (l0, db) (l', db')"
    using load_batches_loaded [OF run _ src(1) V, unfolded cc] parsed_proper [OF src(2)] src(3) l(1) by (simp add: l0_def)
  then show "loaded io gen V files (l, db) (l', db')" by (simp add: loaded_def l0_def)
  then have "broken_files io files = 0" using none l(4) by (simp add: loaded_def)
  then show "list_all (\<lambda>f. parse_file io f \<noteq> None) files" by (simp add: list_all_iff filter_empty_conv)
qed

text \<open>The activated generation is the one that is read, when no active one is dated later.\<close>

definition clock_ok :: "LoadIO \<Rightarrow> CatalogDb \<Rightarrow> bool" where
  "clock_ok io db \<longleftrightarrow> list_all (\<lambda>g. active_cve g \<longrightarrow> (case cg_ActivatedAt g of None \<Rightarrow> False | Some t \<Rightarrow> t \<le> io_Now io)) (cb_Generations db)"

lemma newest_is_served:
  assumes "finish_load io gen stats db = (Inr (), db')" "cb_Generations db = gens @ [g]" "cg_ID g = gen" "cg_CatalogType g = ''cve''"
    "list_all (\<lambda>h. cg_ID h < gen) gens" "list_all (\<lambda>h. active_cve h \<longrightarrow> (case cg_ActivatedAt h of None \<Rightarrow> False | Some t \<Rightarrow> t \<le> io_Now io)) gens"
  shows "\<exists>h. ActiveCVEGeneration db' = Some h \<and> cg_ID h = gen"
proof -
  let ?g = "completed io stats ''active'' [] g"
  have g: "active_cve ?g" "cg_ID ?g = gen" "cg_ActivatedAt ?g = Some (io_Now io)" using assms(3,4) by (simp_all add: completed_def active_cve_def)
  have old: "map (\<lambda>h. if cg_ID h = gen then completed io stats ''active'' [] h else h) gens = gens"
    using assms(5) by (intro map_idI) (auto simp: list_all_iff)
  have gens: "cb_Generations db' = gens @ [?g]"
    using assms(1-3) old by (auto simp: finish_load_def completeCatalogGeneration_def update_generation_def split: if_splits)
  have less: "newest_first ?g < newest_first h" if "h \<in> set gens" "active_cve h" for h
    using that assms(5,6) g by (auto simp: list_all_iff newest_first_def less_prod_def split: option.splits)
  have "foldr (insort_key newest_first) hs [?g] = ?g # foldr (insort_key newest_first) hs []" if "\<And>h. h \<in> set hs \<Longrightarrow> newest_first ?g < newest_first h" for hs
    using that
  proof (induction hs)
    case (Cons h hs)
    have "\<not> newest_first h \<le> newest_first ?g" using Cons.prems [of h] by (simp add: not_le)
    then show ?case using Cons by simp
  qed simp
  from this [of "filter active_cve gens"] less have "sort_key newest_first (filter active_cve gens @ [?g]) = ?g # sort_key newest_first (filter active_cve gens)"
    by (simp add: sort_key_def)
  then have "active_generations (cb_Generations db') = ?g # sort_key newest_first (filter active_cve gens)"
    using g(1) by (simp add: active_generations_def gens)
  then show ?thesis using g(2) by (simp add: ActiveCVEGeneration_def)
qed

lemma withDefaults_batch: "0 < dl_BatchSize (withDefaults opts)" "dl_SourceDir (withDefaults opts) = dl_SourceDir opts" "dl_DryRun (withDefaults opts) = dl_DryRun opts"
  by (simp_all add: withDefaults_def Let_def)

text \<open>The stages of a full load that succeeds.\<close>

lemma LoadAll_stages:
  assumes "LoadAll io opts db = (Inr (), db')" "\<not> dl_DryRun opts" "cb_HasTables db" "0 < io_NewID io" "io_Glob io (dl_SourceDir opts) = Some files"
  obtains digest g l0 db1 l db2 where "startCatalogGeneration io (withDefaults opts) digest db = (Some (io_NewID io), db1)"
    "l0 = SetCatalogGenerationID db1 (io_NewID io) (NewBulkLoader (withDefaults opts))"
    "bl_gen l0 = Some (io_NewID io)" "0 < bl_batchSize l0" "bl_seen l0 = []" "bs_FailedFiles (bl_stats l0) = 0"
    "cb_Generations db1 = cb_Generations db @ [g]" "cg_ID g = io_NewID io" "cg_CatalogType g = ''cve''" "cb_Tables db1 = cb_Tables db"
    "loadIntoGeneration io (io_NewID io) files (l0, db1) = (None, l, db2)"
    "\<And>db3. db3 = db2\<lparr>cb_Tables := snd (CloseMissing (io_NewID io) (bl_seen l) (cb_Tables db2))\<rparr> \<Longrightarrow> bl_gen l = Some (io_NewID io) \<Longrightarrow>
       \<exists>stats. finish_load io (io_NewID io) stats (record_source_files io (withDefaults opts) files db3) = (Inr (), db')"
proof -
  let ?o = "withDefaults opts" and ?gen = "io_NewID io"
  obtain digest gen db1 where c: "validate_source io ?o files = Inr digest" "startCatalogGeneration io ?o digest db = (Some gen, db1)"
    using assms(1,2,5) by (auto simp: LoadAll_def Let_def withDefaults_batch split: sum.splits prod.splits option.splits)
  obtain g where start: "gen = ?gen" "cb_Generations db1 = cb_Generations db @ [g]" "cg_ID g = ?gen" "cg_CatalogType g = ''cve''"
    "cb_Tables db1 = cb_Tables db" "cb_HasTables db1"
    using c(2) assms(3) by (fastforce simp: startCatalogGeneration_def split: if_splits)
  define l0 where "l0 = SetCatalogGenerationID db1 ?gen (NewBulkLoader ?o)"
  have l0: "bl_gen l0 = Some ?gen" "0 < bl_batchSize l0" "bl_seen l0 = []" "bs_FailedFiles (bl_stats l0) = 0"
    using start(6) assms(4) withDefaults_batch(1) [of opts] by (simp_all add: l0_def SetCatalogGenerationID_def NewBulkLoader_def)
  obtain l db2 where L: "loadIntoGeneration io ?gen files (l0, db1) = (None, l, db2)"
    using assms(1,2,5) c start(1) by (auto simp: LoadAll_def Let_def withDefaults_batch l0_def split: prod.splits option.splits)
  have "\<exists>stats. finish_load io ?gen stats (record_source_files io ?o files db3) = (Inr (), db')"
    if "db3 = db2\<lparr>cb_Tables := snd (CloseMissing ?gen (bl_seen l) (cb_Tables db2))\<rparr>" "bl_gen l = Some ?gen" for db3
    using assms(1,2,5) c L that start(1)
    by (auto simp: LoadAll_def withDefaults_batch l0_def close_or_fail_def case_prod_unfold Let_def split: option.splits if_splits)
  then show ?thesis using c(2) start(1) by (intro that [OF _ l0_def l0 start(2-5) L]) simp_all
qed

lemma processBatch_generations: "processBatch io n files (l, db) = (e, l', db') \<Longrightarrow> cb_Generations db' = cb_Generations db"
  by (auto simp: processBatch_def Let_def case_prod_unfold split: option.splits if_splits)

lemma load_batches_generations: "load_batches io n batches (l, db) = (e, l', db') \<Longrightarrow> cb_Generations db' = cb_Generations db"
proof (induction batches arbitrary: n l db)
  case (Cons batch rest)
  obtain e1 l1 db1 where "processBatch io n batch (l, db) = (e1, l1, db1)" using prod_cases3 by blast
  then show ?case using Cons processBatch_generations by (cases e1) auto
qed simp

lemma loadIntoGeneration_generations: "loadIntoGeneration io gen files (l, db) = (None, l', db') \<Longrightarrow> cb_Generations db' = cb_Generations db"
  by (auto simp: loadIntoGeneration_def LoadFiles_def split: prod.splits option.splits if_splits dest: load_batches_generations)

lemma same_catalog_parts: "same_catalog db db' \<Longrightarrow> cb_Tables db' = cb_Tables db \<and> cb_Generations db' = cb_Generations db"
  unfolding same_catalog_def by (metis CatalogDb.ext_inject CatalogDb.surjective CatalogDb.update_convs(4))

text \<open>
  C31. A full load that succeeds makes the catalog a copy of its source: every file was read and parsed, and the generation that is served
  from then on holds exactly the advisories of the source that are not withdrawn, each once and with the ranges and references parsed from
  its file, whatever the catalog held before and in whatever order the files arrived. An advisory under an unchanged hash must be unchanged.
\<close>

theorem full_load_mirrors_source:
  assumes "LoadAll io opts db = (Inr (), db')" "\<not> dl_DryRun opts" "cb_HasTables db" "io_Glob io (dl_SourceDir opts) = Some files"
    and "arrival_ok io" "distinct (map pa_ID (parsed io files))" "hash_faithful V (set (parsed io files))"
    and "current (cb_Tables db) = tables_from V" "distinct (ids_of V)" "known_rows db" "fresh_id io db" "0 < io_NewID io" "clock_ok io db"
  shows "list_all (\<lambda>f. parse_file io f \<noteq> None) files \<and>
    (\<exists>W. distinct (ids_of W) \<and> snd ` set W = live (set (parsed io files)) \<and> current (cb_Tables db') = tables_from W \<and>
       served db' = Some (io_NewID io, contents (map snd W)))"
proof -
  let ?gen = "io_NewID io"
  obtain digest g l0 db1 l db2 where st: "startCatalogGeneration io (withDefaults opts) digest db = (Some ?gen, db1)"
    and l0: "bl_gen l0 = Some ?gen" "0 < bl_batchSize l0" "bl_seen l0 = []" "bs_FailedFiles (bl_stats l0) = 0"
    and g: "cb_Generations db1 = cb_Generations db @ [g]" "cg_ID g = ?gen" "cg_CatalogType g = ''cve''" "cb_Tables db1 = cb_Tables db"
    and L: "loadIntoGeneration io ?gen files (l0, db1) = (None, l, db2)"
    and fin: "\<And>db3. db3 = db2\<lparr>cb_Tables := snd (CloseMissing ?gen (bl_seen l) (cb_Tables db2))\<rparr> \<Longrightarrow> bl_gen l = Some ?gen \<Longrightarrow>
       \<exists>stats. finish_load io ?gen stats (record_source_files io (withDefaults opts) files db3) = (Inr (), db')"
    by (rule LoadAll_stages [OF assms(1-3,12,4)]) (blast intro: that)
  have V1: "current (cb_Tables db1) = tables_from V" using assms(8) g(4) by simp
  note ld = loadIntoGeneration_loaded [OF L l0 assms(5-7) V1 assms(9)]
  obtain U where U: "current (cb_Tables db2) = tables_from U" "mirrored ?gen V (set (parsed io files)) U"
    using ld(1) by (auto simp: loaded_def)
  have l: "bl_gen l = Some ?gen" "set (bl_seen l) = pa_ID ` set (parsed io files)" using ld(1) l0(3) by (auto simp: loaded_def)
  have upto: "mentioned_upto ?gen (cb_Tables db)" and old: "list_all (\<lambda>v. fst v < ?gen) V"
    using assms(10,11) stored_mentioned [OF assms(8)] by (fastforce simp: mentioned_upto_def known_rows_def fresh_id_def list_all_iff)+
  define t where "t = snd (CloseMissing ?gen (bl_seen l) (cb_Tables db2))"
  define db3 where "db3 = db2\<lparr>cb_Tables := t\<rparr>"
  obtain W where W: "current t = tables_from W" "distinct (ids_of W)" "snd ` set W = live (set (parsed io files))"
    using CloseMissing_mirrors [OF U old l(2)] by (auto simp: t_def)
  have "mentions x t \<Longrightarrow> x \<le> ?gen" for x
    using upto ld(1) mentions_Close by (fastforce simp: t_def CloseMissing_def loaded_def mentioned_upto_def g(4))
  then have view: "view ?gen t = contents (map snd W)" by (rule view_current [OF W(1)])
  obtain stats where F: "finish_load io ?gen stats (record_source_files io (withDefaults opts) files db3) = (Inr (), db')"
    using fin [OF _ l(1)] by (auto simp: db3_def t_def)
  define db4 where "db4 = record_source_files io (withDefaults opts) files db3"
  have files: "same_catalog db3 db4" unfolding db4_def by (rule record_source_files_catalog)
  have "cb_Generations db2 = cb_Generations db1" by (rule loadIntoGeneration_generations [OF L])
  then have gens: "cb_Generations db4 = cb_Generations db @ [g]" using g(1) same_catalog_parts [OF files] by (simp add: db3_def)
  have "\<exists>h. ActiveCVEGeneration db' = Some h \<and> cg_ID h = ?gen"
    by (rule newest_is_served [OF F [folded db4_def] gens g(2,3)]) (use assms(11,13) in \<open>simp_all add: fresh_id_def clock_ok_def\<close>)
  moreover have "cb_Tables db' = t"
    using F [folded db4_def] same_catalog_parts [OF files]
    by (auto simp: finish_load_def completeCatalogGeneration_def update_generation_def db3_def split: if_splits)
  ultimately have "served db' = Some (?gen, contents (map snd W))" "current (cb_Tables db') = tables_from W"
    using view W(1) by (auto simp: served_def)
  then show ?thesis using ld(2) W(2,3) by blast
qed

text \<open>The witness: the catalog holds an old version of the one advisory of the source.\<close>

definition old_advisory :: ParsedAdvisory where
  "old_advisory = (BuildAdvisory exact_arith no_cvss (\<lambda>s. s) (the (ParseBytes ''{\"id\":\"A\"}'')) [])\<lparr>pa_ContentSHA256 := ''old''\<rparr>"

lemma sample_load_succeeds:
  "fst (LoadAll ((sample_io (\<lambda>_. False))\<lparr>io_Glob := \<lambda>_. Some [''A.json'']\<rparr>) sample_options sample_catalog) = Inr ()"
  by code_simp

lemma sample_parsed: "map pa_ID (parsed ((sample_io (\<lambda>_. False))\<lparr>io_Glob := \<lambda>_. Some [''A.json'']\<rparr>) [''A.json'']) = [''A'']"
   "list_all (\<lambda>a. pa_ContentSHA256 a \<noteq> ''old'' \<and> \<not> pa_Withdrawn a) (parsed ((sample_io (\<lambda>_. False))\<lparr>io_Glob := \<lambda>_. Some [''A.json'']\<rparr>) [''A.json''])"
  by code_simp+

lemma sample_stored: "current sample_tables = tables_from [(1, old_advisory)]" "pa_ContentSHA256 old_advisory = ''old''"
  by code_simp+

theorem full_load_mirrors_source_witness:
  "\<exists>W :: stored. ids_of W = [''A''] \<and>
     served (snd (LoadAll ((sample_io (\<lambda>_. False))\<lparr>io_Glob := \<lambda>_. Some [''A.json'']\<rparr>) sample_options sample_catalog)) = Some (2, contents (map snd W))"
proof -
  define io where "io = (sample_io (\<lambda>_. False))\<lparr>io_Glob := \<lambda>_. Some [''A.json'']\<rparr>"
  note parsed = sample_parsed [folded io_def]
  define db' where "db' = snd (LoadAll io sample_options sample_catalog)"
  have run: "LoadAll io sample_options sample_catalog = (Inr (), db')"
    using sample_load_succeeds [folded io_def] by (metis db'_def prod.collapse)
  obtain a where a: "parsed io [''A.json''] = [a]" "pa_ID a = ''A''" using parsed(1) by auto
  have new: "pa_ContentSHA256 a \<noteq> ''old''" "\<not> pa_Withdrawn a" using parsed(2) unfolding a(1) by simp_all
  then have "hash_faithful [(1, old_advisory)] (set (parsed io [''A.json'']))"
    unfolding a(1) using sample_stored(2) by (auto simp: hash_faithful_def)
  moreover have "io_Glob io (dl_SourceDir sample_options) = Some [''A.json'']" "arrival_ok io" "io_NewID io = 2" "io_Now io = 9"
    by (simp_all add: io_def sample_io_def arrival_ok_def)
  moreover have "known_rows sample_catalog" using sample_catalog_ok by (simp add: catalog_ok_def)
  moreover have "\<not> dl_DryRun sample_options" "cb_HasTables sample_catalog" "cb_Tables sample_catalog = sample_tables"
    "fresh_id io sample_catalog" "clock_ok io sample_catalog"
    using \<open>io_NewID io = 2\<close> \<open>io_Now io = 9\<close>
    by (simp_all add: sample_options_def sample_catalog_def sample_generation_def fresh_id_def clock_ok_def)
  ultimately obtain W where W: "distinct (ids_of W)" "snd ` set W = live {a}" "served db' = Some (2, contents (map snd W))"
    using full_load_mirrors_source [OF run, of "[''A.json'']" "[(1, old_advisory)]"] sample_stored(1) unfolding a(1) by (auto simp: a(2))
  have live: "live {a} = {a}" using new by (auto simp: live_def)
  then have "set (ids_of W) = {''A''}" using W(2) a(2) by (metis (no_types) image_comp image_empty image_insert set_map)
  moreover from this have "length W = 1" using distinct_card [OF W(1)] by simp
  ultimately have "ids_of W = [''A'']" by (cases W) simp_all
  then show ?thesis using W(3) unfolding db'_def io_def by (intro exI [of _ W] conjI)
qed

end
