(* ===== verification/Catalog_Query.thy ===== *)
theory Catalog_Query
  imports Catalog_Mirror Version_Comparator "HOL-Library.AList"
begin

section \<open>Queries of the catalog: core/pkg/cve/database and loader/vuln\_ids.go\<close>

text \<open>
  The scanner asks for the vulnerabilities of packages in one ecosystem. The manager answers from the rows visible in the newest
  active generation, through a cache. SQL leaves the order of rows open, so the orders are parameters; the scores of the NVD are a
  table of their own.
\<close>

subsection \<open>Canonical identifiers\<close>

definition erratumSources :: "string list" where
  "erratumSources = [''almalinux'', ''rocky'', ''redhat'']"

definition wanted_ref :: "string \<Rightarrow> string list \<Rightarrow> AdvisoryRef \<Rightarrow> bool" where
  "wanted_ref kind relations r \<longleftrightarrow> rf_RefKind r = kind \<and> rf_Relation r \<in> set relations"

fun insert_sorted :: "string \<Rightarrow> string list \<Rightarrow> string list" where
  "insert_sorted x [] = [x]"
| "insert_sorted x (y # ys) = (if Compare x y \<le> 0 then x # y # ys else y # insert_sorted x ys)"

definition sort_strings :: "string list \<Rightarrow> string list" where
  "sort_strings xs = foldr insert_sorted xs []"

definition refIDs :: "AdvisoryRef list \<Rightarrow> string \<Rightarrow> string list \<Rightarrow> string list" where
  "refIDs refs kind relations = sort_strings (remdups (map rf_RefID (filter (wanted_ref kind relations) refs)))"

definition CanonicalVulnIDs :: "string \<Rightarrow> string \<Rightarrow> AdvisoryRef list \<Rightarrow> string list" where
  "CanonicalVulnIDs advisoryID0 source refs =
     (let advisoryID = TrimSpace advisoryID0
      in if cve_id advisoryID then [advisoryID]
         else
           let cves0 = refIDs refs ''cve'' [''alias'', ''upstream''];
               cves = (if cves0 = [] \<and> source \<in> set erratumSources then refIDs refs ''cve'' [''related''] else cves0)
           in if length cves > 0 then cves
              else if HasPrefix advisoryID ''GHSA-'' then [advisoryID]
              else let ghsa = refIDs refs ''ghsa'' [''alias'']
                   in if length ghsa > 0 then take 1 ghsa else [advisoryID])"

subsection \<open>Rows\<close>

record RangeRow =
  cr_AdvisoryID :: string
  cr_Source :: string
  cr_Kind :: string
  cr_PackageName :: string
  cr_Release :: string
  cr_RangeType :: string
  cr_Introduced :: string
  cr_Fixed :: string
  cr_LastAffected :: string
  cr_VendorSeverity :: string
  cr_SourceSeverity :: string
  cr_CVSSv3Score :: "rat option"
  cr_CVSSv4Score :: "rat option"

record NvdRow =
  nv_VulnID :: string
  nv_V3Score :: "rat option"
  nv_V4Score :: "rat option"

record CVE =
  cv_ID :: string
  cv_Constraint :: string
  cv_FixedVersion :: string
  cv_Release :: string
  cv_AdvisoryID :: string
  cv_Kind :: string
  cv_Severity :: string
  cv_CVSSScore :: rat
  cv_SeverityTier :: nat
  cv_SeveritySource :: string

definition range_row :: "AffectedRange \<Rightarrow> string \<Rightarrow> AdvisoryRow \<Rightarrow> RangeRow" where
  "range_row f advisory a =
     \<lparr>cr_AdvisoryID = advisory, cr_Source = aw_Source a, cr_Kind = aw_Kind a, cr_PackageName = af_PackageName f, cr_Release = af_Release f,
      cr_RangeType = af_RangeType f, cr_Introduced = af_Introduced f, cr_Fixed = af_Fixed f, cr_LastAffected = af_LastAffected f,
      cr_VendorSeverity = af_VendorSeverity f, cr_SourceSeverity = aw_SourceSeverity a, cr_CVSSv3Score = aw_CVSSv3Score a,
      cr_CVSSv4Score = aw_CVSSv4Score a\<rparr>"

text \<open>The join of the affected ranges with their advisories, both visible in the generation.\<close>

definition range_rows :: "nat \<Rightarrow> string \<Rightarrow> string list \<Rightarrow> VulnTables \<Rightarrow> RangeRow list" where
  "range_rows gen eco packages t =
     concat (map (\<lambda>f. map (\<lambda>a. range_row (snd f) (fst f) (snd a)) (filter (\<lambda>a. fst a = fst f) (visible_rows gen (vt_advisories t))))
       (filter (\<lambda>f. af_Ecosystem (snd f) = eco \<and> af_PackageName (snd f) \<in> set packages) (visible_rows gen (vt_affected t))))"

definition ref_rows :: "nat \<Rightarrow> string list \<Rightarrow> VulnTables \<Rightarrow> (string \<times> AdvisoryRef) list" where
  "ref_rows gen ids t = filter (\<lambda>r. fst r \<in> set ids) (visible_rows gen (vt_refs t))"

definition refs_of :: "(string \<times> AdvisoryRef) list \<Rightarrow> string \<Rightarrow> AdvisoryRef list" where
  "refs_of refRows advisory = map snd (filter (\<lambda>r. fst r = advisory) refRows)"

subsection \<open>Malicious packages\<close>

definition malicious_ids :: "RangeRow list \<Rightarrow> (string \<times> AdvisoryRef) list \<Rightarrow> string list" where
  "malicious_ids rows refRows =
     concat (map (\<lambda>r. map rf_RefID (filter (\<lambda>ref. rf_Relation ref = ''alias'') (refs_of refRows (cr_AdvisoryID r)))) (filter (\<lambda>r. cr_Kind r = ''malware'') rows)) @
     map fst (filter (\<lambda>r. HasPrefix (rf_RefID (snd r)) ''MAL-'') refRows)"

definition markMalicious :: "(string \<times> AdvisoryRef) list \<Rightarrow> RangeRow list \<Rightarrow> RangeRow list" where
  "markMalicious refRows rows = map (\<lambda>r. if cr_AdvisoryID r \<in> set (malicious_ids rows refRows) then r\<lparr>cr_Kind := ''malware''\<rparr> else r) rows"

subsection \<open>Severity\<close>

definition SeverityTierVendor :: nat where "SeverityTierVendor = 1"
definition SeverityTierAdvisoryCVSS :: nat where "SeverityTierAdvisoryCVSS = 2"
definition SeverityTierNVD :: nat where "SeverityTierNVD = 3"
definition SeverityTierCVECVSS :: nat where "SeverityTierCVECVSS = 4"
definition SeverityTierErratumCVSS :: nat where "SeverityTierErratumCVSS = 5"
definition SeverityTierDefault :: nat where "SeverityTierDefault = 6"

lemmas severity_tiers = SeverityTierVendor_def SeverityTierAdvisoryCVSS_def SeverityTierNVD_def SeverityTierCVECVSS_def SeverityTierErratumCVSS_def SeverityTierDefault_def

definition severitySourceNames :: "nat \<Rightarrow> string" where
  "severitySourceNames tier =
     (if tier = SeverityTierVendor then ''vendor'' else if tier = SeverityTierAdvisoryCVSS then ''advisory_cvss''
      else if tier = SeverityTierNVD then ''nvd'' else if tier = SeverityTierCVECVSS then ''cve_cvss''
      else if tier = SeverityTierErratumCVSS then ''errata_cvss'' else if tier = SeverityTierDefault then ''default'' else [])"

definition reportedSeverity :: "string \<Rightarrow> string" where
  "reportedSeverity s = (if s = Negligible then Low else s)"

definition positive :: "rat option \<Rightarrow> bool" where
  "positive s = (case s of None \<Rightarrow> False | Some x \<Rightarrow> x > 0)"

definition advisoryScore :: "RangeRow \<Rightarrow> rat" where
  "advisoryScore r = (if positive (cr_CVSSv3Score r) then the (cr_CVSSv3Score r) else if positive (cr_CVSSv4Score r) then the (cr_CVSSv4Score r) else 0)"

fun firstNonEmpty :: "string list \<Rightarrow> string" where
  "firstNonEmpty [] = []"
| "firstNonEmpty (v # vs) = (if TrimSpace v \<noteq> [] then v else firstNonEmpty vs)"

definition set_rating :: "nat \<Rightarrow> string \<Rightarrow> rat \<Rightarrow> CVE \<Rightarrow> CVE" where
  "set_rating tier severity score c =
     c\<lparr>cv_SeverityTier := tier, cv_SeveritySource := severitySourceNames tier, cv_Severity := reportedSeverity severity, cv_CVSSScore := score\<rparr>"

definition rateCatalogCandidate :: "RangeRow \<Rightarrow> bool \<Rightarrow> rat option \<Rightarrow> rat option \<Rightarrow> CVE \<Rightarrow> CVE" where
  "rateCatalogCandidate r erratum nvd other c =
     (let ownScore = advisoryScore r;
          rating = firstNonEmpty [NormalizeRating (cr_VendorSeverity r), NormalizeRating (cr_SourceSeverity r)]
      in if rating \<noteq> [] then set_rating SeverityTierVendor rating ownScore c
         else if ownScore > 0 \<and> \<not> erratum then set_rating SeverityTierAdvisoryCVSS (SeverityFromScore ownScore) ownScore c
         else if positive nvd then set_rating SeverityTierNVD (SeverityFromScore (the nvd)) (the nvd) c
         else if positive other then set_rating SeverityTierCVECVSS (SeverityFromScore (the other)) (the other) c
         else if ownScore > 0 then set_rating SeverityTierErratumCVSS (SeverityFromScore ownScore) ownScore c
         else set_rating SeverityTierDefault Medium 0 c)"

text \<open>\<^verbatim>\<open>COALESCE(NULLIF(v3, 0), v4)\<close>.\<close>

definition coalesced :: "rat option \<Rightarrow> rat option \<Rightarrow> rat option" where
  "coalesced v3 v4 = (case v3 of Some x \<Rightarrow> if x \<noteq> 0 then Some x else v4 | None \<Rightarrow> v4)"

definition nvd_score :: "NvdRow list \<Rightarrow> string \<Rightarrow> rat option" where
  "nvd_score nvds i = (case filter (\<lambda>n. nv_VulnID n = i) nvds of [] \<Rightarrow> None | ns \<Rightarrow> coalesced (nv_V3Score (last ns)) (nv_V4Score (last ns)))"

definition names_cve :: "(string \<times> AdvisoryRef) \<Rightarrow> bool" where
  "names_cve r \<longleftrightarrow> wanted_ref ''cve'' [''alias'', ''upstream''] (snd r)"

text \<open>The advisories about one CVE only: those that name it and no other, and the one with its own identifier.\<close>

definition about_only :: "nat \<Rightarrow> VulnTables \<Rightarrow> string \<Rightarrow> string list" where
  "about_only gen t i =
     (let refs = filter names_cve (visible_rows gen (vt_refs t))
      in map fst (filter (\<lambda>r. rf_RefID (snd r) = i \<and> \<not> list_ex (\<lambda>x. fst x = fst r \<and> rf_RefID (snd x) \<noteq> i) refs) refs) @
         (if i \<in> fst ` set (visible_rows gen (vt_advisories t)) then [i] else []))"

definition other_score :: "nat \<Rightarrow> VulnTables \<Rightarrow> string \<Rightarrow> rat option" where
  "other_score gen t i =
     (let scores = List.map_filter (\<lambda>a. case coalesced (aw_CVSSv3Score (snd a)) (aw_CVSSv4Score (snd a)) of
                Some x \<Rightarrow> if x > 0 then Some x else None | None \<Rightarrow> None)
              (filter (\<lambda>a. fst a \<in> set (about_only gen t i)) (visible_rows gen (vt_advisories t)))
      in if scores = [] then None else Some (Max (set scores)))"

subsection \<open>The query\<close>

definition buildOSVRangeConstraint :: "string \<Rightarrow> string \<Rightarrow> string \<Rightarrow> string" where
  "buildOSVRangeConstraint introduced fixed lastAffected =
     (let parts = (if introduced \<noteq> [] \<and> introduced \<noteq> ''0'' then [''>='' @ introduced] else []) @
            (if fixed \<noteq> [] then [''<'' @ fixed] else if lastAffected \<noteq> [] then [''<='' @ lastAffected] else [])
      in if length parts = 0 then ''>=0'' else join_str '', '' parts)"

definition row_constraint :: "RangeRow \<Rightarrow> string" where
  "row_constraint r =
     (let introduced = (if TrimSpace (cr_Introduced r) = ''0'' then [] else TrimSpace (cr_Introduced r))
      in buildOSVRangeConstraint introduced (TrimSpace (cr_Fixed r)) (TrimSpace (cr_LastAffected r)))"

definition vuln_ids :: "(string \<times> AdvisoryRef) list \<Rightarrow> RangeRow \<Rightarrow> string list" where
  "vuln_ids refRows r =
     (if cr_Kind r = ''malware'' then [cr_AdvisoryID r] else CanonicalVulnIDs (cr_AdvisoryID r) (cr_Source r) (refs_of refRows (cr_AdvisoryID r)))"

definition candidate_cve :: "RangeRow \<Rightarrow> string \<Rightarrow> CVE" where
  "candidate_cve r i = \<lparr>cv_ID = i, cv_Constraint = row_constraint r, cv_FixedVersion = TrimSpace (cr_Fixed r), cv_Release = TrimSpace (cr_Release r),
     cv_AdvisoryID = cr_AdvisoryID r, cv_Kind = cr_Kind r, cv_Severity = [], cv_CVSSScore = 0, cv_SeverityTier = 0, cv_SeveritySource = []\<rparr>"

text \<open>The identifiers of an advisory are those of its first row.\<close>

definition advisory_vuln_ids :: "RangeRow list \<Rightarrow> (string \<times> AdvisoryRef) list \<Rightarrow> string \<Rightarrow> string list" where
  "advisory_vuln_ids rows refRows advisory = (case filter (\<lambda>r. cr_AdvisoryID r = advisory) rows of [] \<Rightarrow> [] | r # _ \<Rightarrow> vuln_ids refRows r)"

definition scored_ids :: "RangeRow list \<Rightarrow> (string \<times> AdvisoryRef) list \<Rightarrow> string list" where
  "scored_ids rows refRows = filter (\<lambda>i. HasPrefix i ''CVE-'') (concat (map (vuln_ids refRows) (filter (\<lambda>r. cr_Kind r \<noteq> ''malware'') rows)))"

record QueryEnv =
  qe_Nvd :: "NvdRow list"
  qe_RowOrder :: "RangeRow list \<Rightarrow> RangeRow list"
  qe_RefOrder :: "(string \<times> AdvisoryRef) list \<Rightarrow> (string \<times> AdvisoryRef) list"
  qe_CatalogFails :: bool
  qe_RangesFail :: bool
  qe_RefsFail :: bool
  qe_ScoresFail :: bool

definition row_cves :: "QueryEnv \<Rightarrow> nat \<Rightarrow> VulnTables \<Rightarrow> RangeRow list \<Rightarrow> (string \<times> AdvisoryRef) list \<Rightarrow> RangeRow \<Rightarrow> (string \<times> CVE) list" where
  "row_cves env gen t rows refRows r =
     (let ids = advisory_vuln_ids rows refRows (cr_AdvisoryID r);
          score = (\<lambda>f i. if i \<in> set (scored_ids rows refRows) then f i else None)
      in map (\<lambda>i. (cr_PackageName r, rateCatalogCandidate r (length ids > 1) (score (nvd_score (qe_Nvd env)) i) (score (other_score gen t) i) (candidate_cve r i))) ids)"

definition queryVersionedCatalogBulk :: "QueryEnv \<Rightarrow> nat \<Rightarrow> string \<Rightarrow> string list \<Rightarrow> VulnTables \<Rightarrow> (string \<times> CVE) list option" where
  "queryVersionedCatalogBulk env gen eco packages t =
     (if length packages = 0 then Some []
      else if qe_RangesFail env then None
      else
        let rows0 = qe_RowOrder env (range_rows gen eco packages t)
        in if length rows0 = 0 then Some []
           else if qe_RefsFail env then None
           else
             let refRows = qe_RefOrder env (ref_rows gen (remdups (map cr_AdvisoryID rows0)) t);
                 rows = markMalicious refRows rows0
             in if qe_ScoresFail env \<and> scored_ids rows refRows \<noteq> [] then None
                else Some (concat (map (row_cves env gen t rows refRows) rows)))"

text \<open>The answer for one package, in the order of the rows.\<close>

definition cves_of :: "(string \<times> CVE) list \<Rightarrow> string \<Rightarrow> CVE list" where
  "cves_of found pkg = map snd (filter (\<lambda>pc. fst pc = pkg) found)"

subsection \<open>The cache\<close>

record CacheEntry =
  ce_cves :: "CVE list"
  ce_expiresAt :: int

record CVECache =
  cc_cache :: "(string \<times> CacheEntry) list"
  cc_ttl :: int
  cc_maxEntries :: int

definition cache_Get :: "int \<Rightarrow> string \<Rightarrow> CVECache \<Rightarrow> CVE list option \<times> CVECache" where
  "cache_Get now key c =
     (case map_of (cc_cache c) key of
        None \<Rightarrow> (None, c)
      | Some entry \<Rightarrow> if now > ce_expiresAt entry then (None, c\<lparr>cc_cache := AList.delete key (cc_cache c)\<rparr>) else (Some (ce_cves entry), c))"

definition older_entry :: "string \<times> CacheEntry \<Rightarrow> string \<times> CacheEntry \<Rightarrow> bool" where
  "older_entry kv victim \<longleftrightarrow> ce_expiresAt (snd kv) < ce_expiresAt (snd victim) \<or>
     (ce_expiresAt (snd kv) = ce_expiresAt (snd victim) \<and> Compare (fst kv) (fst victim) < 0)"

definition victim_of :: "(string \<times> CacheEntry) list \<Rightarrow> string \<times> CacheEntry" where
  "victim_of es = foldl (\<lambda>v kv. if older_entry kv v then kv else v) (hd es) (tl es)"

definition evictOne :: "CVECache \<Rightarrow> CVECache" where
  "evictOne c =
     (if cc_cache c = [] then c
      else let victim = fst (victim_of (cc_cache c)) in if victim \<noteq> [] then c\<lparr>cc_cache := AList.delete victim (cc_cache c)\<rparr> else c)"

definition cache_Set :: "int \<Rightarrow> string \<Rightarrow> CVE list \<Rightarrow> CVECache \<Rightarrow> CVECache" where
  "cache_Set now key cves c =
     (let c = (if map_of (cc_cache c) key = None \<and> cc_maxEntries c > 0 \<and> int (length (cc_cache c)) \<ge> cc_maxEntries c then evictOne c else c)
      in c\<lparr>cc_cache := AList.update key \<lparr>ce_cves = cves, ce_expiresAt = now + cc_ttl c\<rparr> (cc_cache c)\<rparr>)"

definition cache_Clear :: "CVECache \<Rightarrow> CVECache" where
  "cache_Clear c = c\<lparr>cc_cache := []\<rparr>"

definition NewCVECache :: "string \<Rightarrow> CVECache" where
  "NewCVECache env =
     (let s = TrimSpace env
      in \<lparr>cc_cache = [], cc_ttl = 30 * 60 * 1000000000,
          cc_maxEntries = (if s \<noteq> [] then (case ParseInt64 s of Some n \<Rightarrow> if n > 0 then n else 10000 | None \<Rightarrow> 10000) else 10000)\<rparr>)"

subsection \<open>The manager\<close>

definition cacheKey :: "string \<Rightarrow> nat \<Rightarrow> string \<Rightarrow> string" where
  "cacheKey ecosystem gen pkg = ecosystem @ '':'' @ pkg @ '':vcat2-'' @ Itoa gen"

fun read_cached :: "int \<Rightarrow> (string \<Rightarrow> string) \<Rightarrow> string list \<Rightarrow> CVECache \<Rightarrow> (string \<times> CVE list) list \<times> string list \<times> CVECache" where
  "read_cached now key [] c = ([], [], c)"
| "read_cached now key (pkg # pkgs) c =
     (let (cached, c) = cache_Get now (key pkg) c; (hits, uncached, c) = read_cached now key pkgs c
      in case cached of Some cves \<Rightarrow> ((pkg, cves) # hits, uncached, c) | None \<Rightarrow> (hits, pkg # uncached, c))"

definition getFromVersionedCatalog ::
  "QueryEnv \<Rightarrow> int \<Rightarrow> nat \<Rightarrow> string \<Rightarrow> string \<Rightarrow> string list \<Rightarrow> VulnTables \<Rightarrow> CVECache \<Rightarrow> (string \<times> CVE list) list option \<times> CVECache" where
  "getFromVersionedCatalog env now gen ecosystem eco packages t c0 =
     (let (hits, uncached, c) = read_cached now (cacheKey ecosystem gen) packages c0
      in if length uncached = 0 then (Some hits, c)
         else case queryVersionedCatalogBulk env gen eco uncached t of
                None \<Rightarrow> (None, c)
              | Some found \<Rightarrow>
                  (Some (hits @ map (\<lambda>pkg. (pkg, cves_of found pkg)) uncached),
                   foldl (\<lambda>c pkg. cache_Set now (cacheKey ecosystem gen pkg) (cves_of found pkg) c) c uncached))"

text \<open>A catalog that cannot be read counts as none.\<close>

definition versionedCatalogGeneration :: "QueryEnv \<Rightarrow> CatalogDb \<Rightarrow> nat" where
  "versionedCatalogGeneration env db =
     (if \<not> cb_HasTables db \<or> qe_CatalogFails env then 0
      else case ActiveCVEGeneration db of
             None \<Rightarrow> 0
           | Some g \<Rightarrow> if visible_rows (cg_ID g) (vt_advisories (cb_Tables db)) = [] then 0 else cg_ID g)"

definition GetVulnerabilitiesForPackages ::
  "QueryEnv \<Rightarrow> int \<Rightarrow> CatalogDb \<Rightarrow> string \<Rightarrow> string list \<Rightarrow> CVECache \<Rightarrow> (string \<times> CVE list) list option \<times> CVECache" where
  "GetVulnerabilitiesForPackages env now db ecosystem packages c =
     (let eco = ToLower (TrimSpace ecosystem); gen = versionedCatalogGeneration env db
      in if gen > 0 then getFromVersionedCatalog env now gen ecosystem eco packages (cb_Tables db) c
         else (Some (map (\<lambda>pkg. (pkg, [])) packages), c))"

text \<open>\<open>ask\<close> is \<open>GetVulnerabilitiesForPackages\<close> of the manager.\<close>

definition GetGoStdlibVulns :: "(string \<Rightarrow> string list \<Rightarrow> 'q \<Rightarrow> (string \<times> CVE list) list option \<times> 'q) \<Rightarrow> 'q \<Rightarrow> CVE list option \<times> 'q" where
  "GetGoStdlibVulns ask q =
     (case ask ''go'' [''stdlib''] q of
        (None, q) \<Rightarrow> (None, q)
      | (Some pkgMap, q) \<Rightarrow> (Some (case map_of pkgMap ''stdlib'' of None \<Rightarrow> [] | Some cves \<Rightarrow> cves), q))"

fun alias_prefix :: "(string \<times> string) list \<Rightarrow> string \<Rightarrow> string list" where
  "alias_prefix [] name = []"
| "alias_prefix ((a, canonical) # rows) name =
     (if a \<noteq> [] \<and> canonical \<noteq> [] \<and> (name = a \<or> HasPrefix name (a @ ''/''))
      then [canonical, canonical @ TrimPrefix name a] else alias_prefix rows name)"

text \<open>The table of module aliases, as pairs of alias and canonical name; none if it cannot be read.\<close>

definition ResolveGoModuleAliasCandidates :: "(string \<times> string) list option \<Rightarrow> string \<Rightarrow> string list" where
  "ResolveGoModuleAliasCandidates aliases name0 =
     (let name = TrimSpace name0
      in if name = [] then []
         else case aliases of
                None \<Rightarrow> []
              | Some rows \<Rightarrow>
                  (case filter (\<lambda>r. fst r = name \<and> snd r \<noteq> []) rows of r # _ \<Rightarrow> [snd r] | [] \<Rightarrow> alias_prefix rows name))"

subsection \<open>Which versions a stored range reports\<close>






























text \<open>
  An open range from 0 becomes \<^verbatim>\<open>>=0\<close>, which a Debian version with a tilde does not meet: it sorts before \<open>0\<close>, although OSV calls
  every version affected.
\<close>

lemma version_below_zero_not_reported:
  assumes "deb_NewVersion L installed = Some x" "deb_NewVersion L ''0'' = Some z" "deb_Compare L x z < 0"
  shows "IsVulnerable L installed (buildOSVRangeConstraint ''0'' [] []) ''debian'' = Inr False"
proof -
  have "buildOSVRangeConstraint ''0'' [] [] = ''>=0''" "normalizedEco ''debian'' \<in> set debian_ecosystems" "split_char CHR '','' ''>=0'' = [''>=0'']"
    "parseConstraint ''>=0'' = (''>='', ''0'')" "TrimSpace ''>=0'' = ''>=0''" by code_simp+
  then show ?thesis using assms by (simp add: IsVulnerable_def compareDebianVersion_def operator_holds_def)
qed

subsection \<open>What an answer holds\<close>

definition orders_ok :: "QueryEnv \<Rightarrow> bool" where
  "orders_ok env \<longleftrightarrow> (\<forall>xs. set (qe_RowOrder env xs) = set xs) \<and> (\<forall>xs. set (qe_RefOrder env xs) = set xs)"

definition stored_range :: "nat \<Rightarrow> VulnTables \<Rightarrow> string \<Rightarrow> string \<Rightarrow> string \<Rightarrow> AffectedRange \<Rightarrow> AdvisoryRow \<Rightarrow> bool" where
  "stored_range gen t eco pkg i f a \<longleftrightarrow> (i, f) \<in> set (visible_rows gen (vt_affected t)) \<and> (i, a) \<in> set (visible_rows gen (vt_advisories t)) \<and>
     af_Ecosystem f = eco \<and> af_PackageName f = pkg"

text \<open>
  What a stored range means, read off the tables: the text of its bounds; when its advisory counts as
  malware in a query; and the identifiers it is reported under, its own for malware.
\<close>

definition written_constraint :: "AffectedRange \<Rightarrow> string" where
  "written_constraint f =
     (let low = TrimSpace (af_Introduced f); fixed = TrimSpace (af_Fixed f); up_to = TrimSpace (af_LastAffected f);
          lower = (if low \<in> {[], ''0''} then [] else ''>='' @ low);
          upper = (if fixed \<noteq> [] then ''<'' @ fixed else if up_to \<noteq> [] then ''<='' @ up_to else [])
      in if lower = [] \<and> upper = [] then ''>=0''
         else lower @ (if lower \<noteq> [] \<and> upper \<noteq> [] then '', '' else []) @ upper)"

definition reports :: "CVE \<Rightarrow> string \<Rightarrow> AffectedRange \<Rightarrow> AdvisoryRow \<Rightarrow> bool" where
  "reports c i f a \<longleftrightarrow> cv_AdvisoryID c = i \<and> cv_Constraint c = written_constraint f \<and> cv_FixedVersion c = TrimSpace (af_Fixed f) \<and>
     cv_Release c = TrimSpace (af_Release f)"

definition refers :: "nat \<Rightarrow> VulnTables \<Rightarrow> string \<Rightarrow> string \<Rightarrow> string set \<Rightarrow> string set" where
  "refers gen t i kind relations =
     {rf_RefID r | r. (i, r) \<in> set (visible_rows gen (vt_refs t)) \<and> rf_RefKind r = kind \<and> rf_Relation r \<in> relations}"

definition counts_as_malware :: "nat \<Rightarrow> VulnTables \<Rightarrow> string \<Rightarrow> string list \<Rightarrow> string \<Rightarrow> bool" where
  "counts_as_malware gen t eco pkgs i \<longleftrightarrow>
     (\<exists>a. (i, a) \<in> set (visible_rows gen (vt_advisories t)) \<and> aw_Kind a = ''malware'')
     \<or> (\<exists>r. (i, r) \<in> set (visible_rows gen (vt_refs t)) \<and> HasPrefix (rf_RefID r) ''MAL-'')
     \<or> (\<exists>p j f b r. p \<in> set pkgs \<and> stored_range gen t eco p j f b \<and> aw_Kind b = ''malware''
          \<and> (j, r) \<in> set (visible_rows gen (vt_refs t)) \<and> rf_Relation r = ''alias'' \<and> rf_RefID r = i)"

definition reported_ids :: "nat \<Rightarrow> VulnTables \<Rightarrow> string \<Rightarrow> AdvisoryRow \<Rightarrow> bool \<Rightarrow> string set" where
  "reported_ids gen t i a malware =
     (let cves = refers gen t i ''cve'' {''alias'', ''upstream''};
          related = (if aw_Source a \<in> {''almalinux'', ''rocky'', ''redhat''} then refers gen t i ''cve'' {''related''} else {});
          ghsas = refers gen t i ''ghsa'' {''alias''}
      in if malware then {i}
         else if cve_id (TrimSpace i) then {TrimSpace i}
         else if cves \<noteq> {} then cves
         else if related \<noteq> {} then related
         else if HasPrefix (TrimSpace i) ''GHSA-'' then {TrimSpace i}
         else if ghsas \<noteq> {} then {x \<in> ghsas. \<forall>y \<in> ghsas. Compare x y \<le> 0}
         else {TrimSpace i})"

lemma row_constraint_written: "row_constraint (range_row f i a) = written_constraint f"
  by (simp add: row_constraint_def range_row_def buildOSVRangeConstraint_def written_constraint_def Let_def)

lemma Compare_trans: "Compare x y \<le> 0 \<Longrightarrow> Compare y z \<le> 0 \<Longrightarrow> Compare x z \<le> 0"
proof (induction x z arbitrary: y rule: Compare.induct)
  case (3 c s)
  then show ?case by (cases y) auto
next
  case (4 c s d t)
  then show ?case by (cases y) (auto split: if_splits simp: of_char_eq_iff)
qed simp_all

lemma sort_strings_sorted: "set (sort_strings xs) = set xs \<and> sorted_wrt (\<lambda>x y. Compare x y \<le> 0) (sort_strings xs)"
proof -
  have ins: "set (insert_sorted x ys) = insert x (set ys)" for x ys
    by (induction ys) auto
  have total: "Compare x y \<le> 0 \<or> Compare y x \<le> 0" for x y
    using Compare_antisym [of x y] by linarith
  have "sorted_wrt (\<lambda>x y. Compare x y \<le> 0) (insert_sorted x ys)" if "sorted_wrt (\<lambda>x y. Compare x y \<le> 0) ys" for x ys
    using that
  proof (induction ys)
    case (Cons y ys)
    then show ?case using total [of x y] by (auto simp: ins intro: Compare_trans)
  qed simp
  then show ?thesis by (induction xs) (simp_all add: sort_strings_def ins)
qed

lemma refIDs_sorted:
  "set (refIDs refs kind relations) = {rf_RefID r | r. r \<in> set refs \<and> rf_RefKind r = kind \<and> rf_Relation r \<in> set relations}"
  "sorted_wrt (\<lambda>x y. Compare x y \<le> 0) (refIDs refs kind relations)"
  using sort_strings_sorted by (auto simp: refIDs_def wanted_ref_def)

lemma least_sorted:
  assumes "sorted_wrt (\<lambda>x y. Compare x y \<le> 0) xs" and "xs \<noteq> []"
  shows "set (take 1 xs) = {x \<in> set xs. \<forall>y \<in> set xs. Compare x y \<le> 0}"
proof -
  obtain x ys where xs: "xs = x # ys" using assms(2) by (cases xs) auto
  have "Compare z x \<le> 0 \<Longrightarrow> Compare x z \<le> 0 \<Longrightarrow> z = x" for z
    using Compare_antisym [of x z] Compare_eq_0_iff [of x z] by auto
  moreover have "Compare x x \<le> 0" using Compare_eq_0_iff [of x x] by simp
  ultimately show ?thesis using assms(1) by (auto simp: xs)
qed

lemma vuln_ids_reported:
  assumes refs: "\<And>x. x \<in> set (refs_of refRows (cr_AdvisoryID r)) \<longleftrightarrow> (cr_AdvisoryID r, x) \<in> set (visible_rows gen (vt_refs t))"
    and "cr_Source r = aw_Source a"
  shows "set (vuln_ids refRows r) = reported_ids gen t (cr_AdvisoryID r) a (cr_Kind r = ''malware'')"
proof -
  let ?rs = "refs_of refRows (cr_AdvisoryID r)"
  have ids: "set (refIDs ?rs kind rels) = refers gen t (cr_AdvisoryID r) kind (set rels)" for kind rels
    unfolding refIDs_sorted(1) refers_def refs ..
  have none: "refIDs ?rs kind rels = [] \<longleftrightarrow> refers gen t (cr_AdvisoryID r) kind (set rels) = {}" for kind rels
    unfolding ids [symmetric] by simp
  have least: "refers gen t (cr_AdvisoryID r) kind (set rels) \<noteq> {} \<Longrightarrow> set (take 1 (refIDs ?rs kind rels)) =
      {x \<in> refers gen t (cr_AdvisoryID r) kind (set rels). \<forall>y \<in> refers gen t (cr_AdvisoryID r) kind (set rels). Compare x y \<le> 0}" for kind rels
    unfolding ids [symmetric] by (rule least_sorted [OF refIDs_sorted(2)]) simp
  note one = ids [of _ "[_]", simplified] none [of _ "[_]", simplified] least [of _ "[_]", simplified]
  show ?thesis
    using assms(2)
    by (simp add: vuln_ids_def CanonicalVulnIDs_def reported_ids_def erratumSources_def ids none one Let_def)
qed

lemma range_rows_iff: "r \<in> set (range_rows gen eco pkgs t) \<longleftrightarrow>
    (\<exists>i f a. stored_range gen t eco (af_PackageName f) i f a \<and> af_PackageName f \<in> set pkgs \<and> r = range_row f i a)"
  (is "_ \<longleftrightarrow> ?R")
proof
  assume "r \<in> set (range_rows gen eco pkgs t)"
  then obtain f a where "f \<in> set (visible_rows gen (vt_affected t))" "af_Ecosystem (snd f) = eco" "af_PackageName (snd f) \<in> set pkgs"
    "a \<in> set (visible_rows gen (vt_advisories t))" "fst a = fst f" "r = range_row (snd f) (fst f) (snd a)" by (auto simp: range_rows_def)
  then have "stored_range gen t eco (af_PackageName (snd f)) (fst f) (snd f) (snd a)" "r = range_row (snd f) (fst f) (snd a)"
    "af_PackageName (snd f) \<in> set pkgs" by (auto simp: stored_range_def) (metis prod.collapse)
  then show ?R by blast
next
  assume ?R
  then obtain i f a where "stored_range gen t eco (af_PackageName f) i f a" "af_PackageName f \<in> set pkgs" "r = range_row f i a" by blast
  then show "r \<in> set (range_rows gen eco pkgs t)"
    unfolding range_rows_def stored_range_def by (auto intro!: exI [of _ i] exI [of _ f] image_eqI [of _ _ "(i, a)"])
qed

lemma rate_keeps [simp]:
  "cv_ID (rateCatalogCandidate r e n x c) = cv_ID c" "cv_Constraint (rateCatalogCandidate r e n x c) = cv_Constraint c"
  "cv_FixedVersion (rateCatalogCandidate r e n x c) = cv_FixedVersion c" "cv_Release (rateCatalogCandidate r e n x c) = cv_Release c"
  "cv_AdvisoryID (rateCatalogCandidate r e n x c) = cv_AdvisoryID c" "cv_Kind (rateCatalogCandidate r e n x c) = cv_Kind c"
  by (simp_all add: rateCatalogCandidate_def set_rating_def Let_def)

lemma CanonicalVulnIDs_nonempty: "CanonicalVulnIDs i src refs \<noteq> []"
  by (auto simp: CanonicalVulnIDs_def Let_def)

lemma vuln_ids_nonempty: "vuln_ids refRows r \<noteq> []"
  by (simp add: vuln_ids_def CanonicalVulnIDs_nonempty)

lemma advisory_vuln_ids_row:
  assumes "r \<in> set rows"
  shows "\<exists>q \<in> set rows. cr_AdvisoryID q = cr_AdvisoryID r \<and> advisory_vuln_ids rows refRows (cr_AdvisoryID r) = vuln_ids refRows q"
proof -
  have "r \<in> set (filter (\<lambda>q. cr_AdvisoryID q = cr_AdvisoryID r) rows)" using assms by simp
  then obtain q qs where q: "filter (\<lambda>q. cr_AdvisoryID q = cr_AdvisoryID r) rows = q # qs" by (cases "filter (\<lambda>q. cr_AdvisoryID q = cr_AdvisoryID r) rows") auto
  then have "q \<in> set (filter (\<lambda>q. cr_AdvisoryID q = cr_AdvisoryID r) rows)" by simp
  then have "q \<in> set rows" "cr_AdvisoryID q = cr_AdvisoryID r" by simp_all
  moreover have "advisory_vuln_ids rows refRows (cr_AdvisoryID r) = vuln_ids refRows q" by (simp add: advisory_vuln_ids_def q)
  ultimately show ?thesis by blast
qed

lemma markMalicious_iff: "r \<in> set (markMalicious refRows rows) \<longleftrightarrow>
    (\<exists>q \<in> set rows. r = (if cr_AdvisoryID q \<in> set (malicious_ids rows refRows) then q\<lparr>cr_Kind := ''malware''\<rparr> else q))"
  by (auto simp: markMalicious_def)

lemma query_found:
  assumes "queryVersionedCatalogBulk env gen eco pkgs t = Some found" "found \<noteq> []"
  obtains rows0 refRows rows where "rows0 = qe_RowOrder env (range_rows gen eco pkgs t)"
    "refRows = qe_RefOrder env (ref_rows gen (remdups (map cr_AdvisoryID rows0)) t)" "rows = markMalicious refRows rows0"
    "found = concat (map (row_cves env gen t rows refRows) rows)"
  using assms by (auto simp: queryVersionedCatalogBulk_def Let_def split: if_splits)

text \<open>The rows of an answer, each with the stored range it comes from.\<close>

lemma query_rows:
  assumes "orders_ok env" "rows0 = qe_RowOrder env (range_rows gen eco pkgs t)" "r \<in> set (markMalicious refRows rows0)"
  obtains i f a where "stored_range gen t eco (cr_PackageName r) i f a" "cr_PackageName r \<in> set pkgs" "cr_AdvisoryID r = i"
    "row_constraint r = row_constraint (range_row f i a)" "cr_Fixed r = af_Fixed f" "cr_Release r = af_Release f"
    "cr_Kind r = (if i \<in> set (malicious_ids rows0 refRows) then ''malware'' else aw_Kind a)"
proof -
  obtain q where q: "q \<in> set rows0" "r = (if cr_AdvisoryID q \<in> set (malicious_ids rows0 refRows) then q\<lparr>cr_Kind := ''malware''\<rparr> else q)"
    using assms(3) unfolding markMalicious_iff by blast
  have "q \<in> set (range_rows gen eco pkgs t)" using q(1) assms(1,2) by (simp add: orders_ok_def)
  then obtain i f a where "stored_range gen t eco (af_PackageName f) i f a" "af_PackageName f \<in> set pkgs" "q = range_row f i a"
    unfolding range_rows_iff by blast
  then show ?thesis using q(2) by (intro that [of i f a]) (simp_all add: range_row_def row_constraint_def)
qed

lemma unique_advisory:
  "distinct (map fst (visible_rows gen (vt_advisories t))) \<Longrightarrow> stored_range gen t eco pkg i f a \<Longrightarrow> stored_range gen t eco' pkg' i f' a' \<Longrightarrow> a = a'"
  unfolding stored_range_def by (metis eq_key_imp_eq_value)

lemma candidate_of_row:
  assumes "(pkg, c) \<in> set (row_cves env gen t rows refRows r)"
  shows "pkg = cr_PackageName r" "cv_AdvisoryID c = cr_AdvisoryID r" "cv_Constraint c = row_constraint r" "cv_FixedVersion c = TrimSpace (cr_Fixed r)"
    "cv_Release c = TrimSpace (cr_Release r)" "cv_Kind c = cr_Kind r" "cv_ID c \<in> set (advisory_vuln_ids rows refRows (cr_AdvisoryID r))"
  using assms by (auto simp: row_cves_def Let_def candidate_cve_def)

text \<open>The rows of a query, its references and the advisories it marks, in terms of the tables.\<close>

lemma query_refs:
  assumes "orders_ok env" and rows0: "rows0 = qe_RowOrder env (range_rows gen eco pkgs t)"
    and refs: "refRows = qe_RefOrder env (ref_rows gen (remdups (map cr_AdvisoryID rows0)) t)"
  shows "(i, x) \<in> set refRows \<longleftrightarrow> i \<in> cr_AdvisoryID ` set rows0 \<and> (i, x) \<in> set (visible_rows gen (vt_refs t))"
    and "i \<in> cr_AdvisoryID ` set rows0 \<Longrightarrow> x \<in> set (refs_of refRows i) \<longleftrightarrow> (i, x) \<in> set (visible_rows gen (vt_refs t))"
    and "q \<in> set rows0 \<longleftrightarrow> q \<in> set (range_rows gen eco pkgs t)"
proof -
  show refs_iff: "(i, x) \<in> set refRows \<longleftrightarrow> i \<in> cr_AdvisoryID ` set rows0 \<and> (i, x) \<in> set (visible_rows gen (vt_refs t))"
    and "q \<in> set rows0 \<longleftrightarrow> q \<in> set (range_rows gen eco pkgs t)"
    using assms(1) by (auto simp: refs ref_rows_def orders_ok_def rows0)
  have "x \<in> set (refs_of refRows i) \<longleftrightarrow> (i, x) \<in> set refRows" by (force simp: refs_of_def)
  then show "i \<in> cr_AdvisoryID ` set rows0 \<Longrightarrow> x \<in> set (refs_of refRows i) \<longleftrightarrow> (i, x) \<in> set (visible_rows gen (vt_refs t))"
    using refs_iff by simp
qed

lemma malicious_alias:
  assumes "q \<in> set rows" "cr_Kind q = ''malware''" "r \<in> set (refs_of refRows (cr_AdvisoryID q))" "rf_Relation r = ''alias''"
  shows "rf_RefID r \<in> set (malicious_ids rows refRows)"
proof -
  define F where "F (q :: RangeRow) = map rf_RefID (filter (\<lambda>ref. rf_Relation ref = ''alias'') (refs_of refRows (cr_AdvisoryID q)))" for q
  define P where "P (q :: RangeRow) \<longleftrightarrow> cr_Kind q = ''malware''" for q
  have "r \<in> set (filter (\<lambda>ref. rf_Relation ref = ''alias'') (refs_of refRows (cr_AdvisoryID q)))" using assms(3,4) by simp
  then have "rf_RefID r \<in> set (F q)" unfolding F_def set_map by (rule imageI)
  moreover have "q \<in> set (filter P rows)" using assms(1,2) by (simp add: P_def)
  ultimately have "rf_RefID r \<in> set (concat (map F (filter P rows)))" by auto
  then show ?thesis unfolding malicious_ids_def F_def P_def set_append by (rule UnI1)
qed

lemma marked_iff:
  assumes ok: "orders_ok env" and dist: "distinct (map fst (visible_rows gen (vt_advisories t)))"
    and sr: "stored_range gen t eco pkg i f a" "pkg \<in> set pkgs"
    and rows0: "rows0 = qe_RowOrder env (range_rows gen eco pkgs t)"
    and refs: "refRows = qe_RefOrder env (ref_rows gen (remdups (map cr_AdvisoryID rows0)) t)"
  shows "i \<in> set (malicious_ids rows0 refRows) \<or> aw_Kind a = ''malware'' \<longleftrightarrow> counts_as_malware gen t eco pkgs i"
proof -
  note q = query_refs [OF ok rows0 refs]
  have mine: "range_row f i a \<in> set rows0"
    unfolding q(3) range_rows_iff using sr by (auto simp: stored_range_def)
  have adv: "(i, b) \<in> set (visible_rows gen (vt_advisories t)) \<longleftrightarrow> b = a" for b
    using sr(1) eq_key_imp_eq_value [OF dist] by (auto simp: stored_range_def)
  have "i \<in> set (malicious_ids rows0 refRows) \<longleftrightarrow>
      (\<exists>r. (i, r) \<in> set (visible_rows gen (vt_refs t)) \<and> HasPrefix (rf_RefID r) ''MAL-'')
      \<or> (\<exists>p j g b r. p \<in> set pkgs \<and> stored_range gen t eco p j g b \<and> aw_Kind b = ''malware''
           \<and> (j, r) \<in> set (visible_rows gen (vt_refs t)) \<and> rf_Relation r = ''alias'' \<and> rf_RefID r = i)" (is "?L \<longleftrightarrow> ?M \<or> ?A")
  proof
    assume ?L
    then consider
        (aliased) q1 r where "q1 \<in> set rows0" "cr_Kind q1 = ''malware''" "r \<in> set (refs_of refRows (cr_AdvisoryID q1))"
          "rf_Relation r = ''alias''" "rf_RefID r = i"
      | (entry) r where "(i, r) \<in> set refRows" "HasPrefix (rf_RefID r) ''MAL-''"
      by (auto simp: malicious_ids_def)
    then show "?M \<or> ?A"
    proof cases
      case aliased
      from aliased(1) obtain j g b where "stored_range gen t eco (af_PackageName g) j g b" "af_PackageName g \<in> set pkgs" "q1 = range_row g j b"
        unfolding q(3) range_rows_iff by blast
      moreover have "(cr_AdvisoryID q1, r) \<in> set (visible_rows gen (vt_refs t))"
        using q(2) [of "cr_AdvisoryID q1" r] aliased(1,3) by blast
      ultimately have "stored_range gen t eco (af_PackageName g) j g b" "af_PackageName g \<in> set pkgs"
        "(j, r) \<in> set (visible_rows gen (vt_refs t))" "aw_Kind b = ''malware''"
        using aliased(2) by (simp_all add: range_row_def)
      then show ?thesis using aliased(4,5) by blast
    next
      case entry
      then show ?thesis using q(1) by blast
    qed
  next
    assume "?M \<or> ?A"
    then show ?L
    proof
      assume ?M
      then obtain r where "(i, r) \<in> set (visible_rows gen (vt_refs t))" "HasPrefix (rf_RefID r) ''MAL-''" by blast
      moreover have "i \<in> cr_AdvisoryID ` set rows0" using mine by (force simp: range_row_def)
      ultimately have "(i, r) \<in> set refRows" using q(1) by blast
      then show ?L using \<open>HasPrefix (rf_RefID r) ''MAL-''\<close> by (force simp: malicious_ids_def)
    next
      assume ?A
      then obtain p j g b r where A: "p \<in> set pkgs" "stored_range gen t eco p j g b" "aw_Kind b = ''malware''"
        "(j, r) \<in> set (visible_rows gen (vt_refs t))" "rf_Relation r = ''alias''" "rf_RefID r = i" by blast
      let ?q = "range_row g j b"
      have "?q \<in> set rows0" unfolding q(3) range_rows_iff using A(1,2) by (auto simp: stored_range_def)
      moreover from this have "cr_AdvisoryID ?q \<in> cr_AdvisoryID ` set rows0" by (rule imageI)
      then have "r \<in> set (refs_of refRows (cr_AdvisoryID ?q))" using q(2) [of j r] A(4) by (simp add: range_row_def)
      ultimately show ?L using malicious_alias [of ?q rows0 r refRows] A(3,5,6) by (simp add: range_row_def)
    qed
  qed
  then show ?thesis unfolding counts_as_malware_def adv by blast
qed

text \<open>The candidates of a row.\<close>

lemma row_cves_ids:
  assumes ok: "orders_ok env" and dist: "distinct (map fst (visible_rows gen (vt_advisories t)))"
    and rows0: "rows0 = qe_RowOrder env (range_rows gen eco pkgs t)"
    and refs: "refRows = qe_RefOrder env (ref_rows gen (remdups (map cr_AdvisoryID rows0)) t)"
    and rows: "rows = markMalicious refRows rows0" and r: "r \<in> set rows"
    and sr: "stored_range gen t eco (cr_PackageName r) (cr_AdvisoryID r) f a"
  shows "set (advisory_vuln_ids rows refRows (cr_AdvisoryID r))
           = reported_ids gen t (cr_AdvisoryID r) a (counts_as_malware gen t eco pkgs (cr_AdvisoryID r))"
proof -
  obtain q1 where q1: "q1 \<in> set rows" "cr_AdvisoryID q1 = cr_AdvisoryID r"
    "advisory_vuln_ids rows refRows (cr_AdvisoryID r) = vuln_ids refRows q1"
    using advisory_vuln_ids_row [OF r] by blast
  then obtain q0 where q0: "q0 \<in> set rows0"
    "q1 = (if cr_AdvisoryID q0 \<in> set (malicious_ids rows0 refRows) then q0\<lparr>cr_Kind := ''malware''\<rparr> else q0)"
    unfolding rows markMalicious_iff by blast
  then obtain j g b where g: "stored_range gen t eco (af_PackageName g) j g b" "af_PackageName g \<in> set pkgs" "q0 = range_row g j b"
    unfolding query_refs(3) [OF ok rows0 refs] range_rows_iff by blast
  have j: "j = cr_AdvisoryID r" using g(3) q0(2) q1(2) by (auto simp: range_row_def split: if_splits)
  have "b = a" using unique_advisory [OF dist g(1)] sr j by blast
  have "cr_Kind q1 = ''malware'' \<longleftrightarrow> counts_as_malware gen t eco pkgs j"
    using marked_iff [OF ok dist g(1,2) rows0 refs] q0(2) g(3) by (auto simp: range_row_def)
  moreover have "set (vuln_ids refRows q1) = reported_ids gen t (cr_AdvisoryID q1) a (cr_Kind q1 = ''malware'')"
  proof (rule vuln_ids_reported)
    show "cr_Source q1 = aw_Source a" using q0(2) g(3) \<open>b = a\<close> by (auto simp: range_row_def)
    have "cr_AdvisoryID q1 \<in> cr_AdvisoryID ` set rows0" using q0 by auto
    then show "x \<in> set (refs_of refRows (cr_AdvisoryID q1)) \<longleftrightarrow> (cr_AdvisoryID q1, x) \<in> set (visible_rows gen (vt_refs t))" for x
      by (rule query_refs(2) [OF ok rows0 refs])
  qed
  ultimately show ?thesis using q1(2,3) j by simp
qed

text \<open>An answer is made from a stored range.\<close>

lemma answer_is_stored:
  assumes "queryVersionedCatalogBulk env gen eco pkgs t = Some found" "orders_ok env" "(pkg, c) \<in> set found"
  shows "\<exists>i f a. stored_range gen t eco pkg i f a \<and> reports c i f a"
proof -
  have "found \<noteq> []" using assms(3) by auto
  then obtain rows0 refRows rows where q: "rows0 = qe_RowOrder env (range_rows gen eco pkgs t)"
    "rows = markMalicious refRows rows0" "found = concat (map (row_cves env gen t rows refRows) rows)" by (rule query_found [OF assms(1)])
  obtain r where r: "r \<in> set rows" "(pkg, c) \<in> set (row_cves env gen t rows refRows r)" using assms(3) unfolding q(3) by auto
  note cand = candidate_of_row [OF r(2)]
  obtain i f a where S: "stored_range gen t eco (cr_PackageName r) i f a" "cr_AdvisoryID r = i"
    "row_constraint r = row_constraint (range_row f i a)" "cr_Fixed r = af_Fixed f" "cr_Release r = af_Release f"
    using r(1) unfolding q(2) by (rule query_rows [OF assms(2) q(1)])
  have "stored_range gen t eco pkg i f a" using S(1) cand(1) by simp
  moreover have "reports c i f a" using S(2-5) cand by (simp add: reports_def row_constraint_written)
  ultimately show ?thesis by blast
qed

text \<open>
  C33. The answers of the catalog are its stored ranges, exactly: a candidate for a package comes from a range of that package,
  ecosystem and generation, with the bounds, fix and release of the range, under one of the identifiers of its advisory; and every such range
  has a candidate under each of them. The identifiers are the advisory's own if it counts as malware (by its kind, by a
  reference to a malware entry, or as an alias of a malware advisory of the same query); else its own if that is a CVE, else
  all its CVEs, for an erratum of three vendors also the related ones, else its own or the least alias in the GHSA
  scheme, else its own.
\<close>

theorem answers_are_stored_ranges:
  assumes "queryVersionedCatalogBulk env gen eco pkgs t = Some found" "orders_ok env"
    and "distinct (map fst (visible_rows gen (vt_advisories t)))"
  shows "((pkg, c) \<in> set found \<longrightarrow> pkg \<in> set pkgs \<and> (\<exists>i f a. stored_range gen t eco pkg i f a \<and> reports c i f a \<and>
      cv_Kind c = (if counts_as_malware gen t eco pkgs i then ''malware'' else aw_Kind a) \<and>
      cv_ID c \<in> reported_ids gen t i a (counts_as_malware gen t eco pkgs i))) \<and>
    (stored_range gen t eco pkg i f a \<and> pkg \<in> set pkgs \<and> x \<in> reported_ids gen t i a (counts_as_malware gen t eco pkgs i) \<longrightarrow>
      (\<exists>c. (pkg, c) \<in> set found \<and> reports c i f a \<and> cv_ID c = x \<and>
        cv_Kind c = (if counts_as_malware gen t eco pkgs i then ''malware'' else aw_Kind a)))"
proof (intro conjI impI)
  assume c: "(pkg, c) \<in> set found"
  then have "found \<noteq> []" by auto
  then obtain rows0 refRows rows where q: "rows0 = qe_RowOrder env (range_rows gen eco pkgs t)"
    "refRows = qe_RefOrder env (ref_rows gen (remdups (map cr_AdvisoryID rows0)) t)" "rows = markMalicious refRows rows0"
    "found = concat (map (row_cves env gen t rows refRows) rows)" by (rule query_found [OF assms(1)])
  obtain r where r: "r \<in> set rows" "(pkg, c) \<in> set (row_cves env gen t rows refRows r)" using c unfolding q(4) by auto
  note cand = candidate_of_row [OF r(2)]
  obtain i f a where S: "stored_range gen t eco (cr_PackageName r) i f a" "cr_PackageName r \<in> set pkgs" "cr_AdvisoryID r = i"
    "row_constraint r = row_constraint (range_row f i a)" "cr_Fixed r = af_Fixed f" "cr_Release r = af_Release f"
    "cr_Kind r = (if i \<in> set (malicious_ids rows0 refRows) then ''malware'' else aw_Kind a)"
    using r(1) unfolding q(3) by (rule query_rows [OF assms(2) q(1)])
  show "pkg \<in> set pkgs" using S(2) cand(1) by simp
  have "cv_Kind c = (if counts_as_malware gen t eco pkgs i then ''malware'' else aw_Kind a)"
    using marked_iff [OF assms(2,3) S(1,2) q(1,2)] S(7) cand(6) by auto
  moreover have "cv_ID c \<in> reported_ids gen t i a (counts_as_malware gen t eco pkgs i)"
    using row_cves_ids [OF assms(2,3) q(1-3) r(1)] S(1,3) cand(7) by simp
  moreover have "stored_range gen t eco pkg i f a" using S(1) cand(1) by simp
  moreover have "reports c i f a" using S(3-6) cand by (simp add: reports_def row_constraint_written)
  ultimately show "\<exists>i f a. stored_range gen t eco pkg i f a \<and> reports c i f a \<and>
      cv_Kind c = (if counts_as_malware gen t eco pkgs i then ''malware'' else aw_Kind a) \<and>
      cv_ID c \<in> reported_ids gen t i a (counts_as_malware gen t eco pkgs i)" by blast
next
  assume asm: "stored_range gen t eco pkg i f a \<and> pkg \<in> set pkgs \<and> x \<in> reported_ids gen t i a (counts_as_malware gen t eco pkgs i)"
  then have S: "stored_range gen t eco pkg i f a" "pkg \<in> set pkgs" "af_PackageName f = pkg" by (auto simp: stored_range_def)
  define rows0 where "rows0 = qe_RowOrder env (range_rows gen eco pkgs t)"
  define refRows where "refRows = qe_RefOrder env (ref_rows gen (remdups (map cr_AdvisoryID rows0)) t)"
  define rows where "rows = markMalicious refRows rows0"
  let ?q = "range_row f i a"
  have q: "?q \<in> set rows0" using S assms(2) by (auto simp: rows0_def orders_ok_def range_rows_iff)
  then have "rows0 \<noteq> []" "pkgs \<noteq> []" using S(2) by auto
  then have found: "found = concat (map (row_cves env gen t rows refRows) rows)"
    using assms(1) by (simp add: queryVersionedCatalogBulk_def Let_def rows_def refRows_def rows0_def split: if_splits)
  define r where "r = (if cr_AdvisoryID ?q \<in> set (malicious_ids rows0 refRows) then ?q\<lparr>cr_Kind := ''malware''\<rparr> else ?q)"
  have r: "r \<in> set rows" using q unfolding rows_def r_def markMalicious_iff by blast
  have rf: "cr_AdvisoryID r = i" "cr_PackageName r = pkg" "cr_Release r = af_Release f" "cr_Fixed r = af_Fixed f"
    "row_constraint r = row_constraint ?q"
    "cr_Kind r = (if i \<in> set (malicious_ids rows0 refRows) then ''malware'' else aw_Kind a)"
    using S(3) by (simp_all add: r_def range_row_def row_constraint_def)
  have sr: "stored_range gen t eco (cr_PackageName r) (cr_AdvisoryID r) f a" using S(1) rf(1,2) by simp
  have v: "x \<in> set (advisory_vuln_ids rows refRows (cr_AdvisoryID r))"
    using row_cves_ids [OF assms(2,3) rows0_def refRows_def rows_def r sr] rf(1) asm by simp
  define c where "c = rateCatalogCandidate r (length (advisory_vuln_ids rows refRows (cr_AdvisoryID r)) > 1)
    (if x \<in> set (scored_ids rows refRows) then nvd_score (qe_Nvd env) x else None)
    (if x \<in> set (scored_ids rows refRows) then other_score gen t x else None) (candidate_cve r x)"
  have "(pkg, c) \<in> set (row_cves env gen t rows refRows r)" using v rf(2) by (auto simp: row_cves_def Let_def c_def)
  moreover from candidate_of_row [OF this] rf have "reports c i f a" by (simp add: reports_def row_constraint_written)
  moreover have "cv_ID c = x" by (simp add: c_def candidate_cve_def)
  moreover have "cv_Kind c = (if counts_as_malware gen t eco pkgs i then ''malware'' else aw_Kind a)"
    using marked_iff [OF assms(2,3) S(1,2) rows0_def refRows_def] rf(6) by (auto simp: c_def candidate_cve_def)
  ultimately show "\<exists>c. (pkg, c) \<in> set found \<and> reports c i f a \<and> cv_ID c = x \<and>
        cv_Kind c = (if counts_as_malware gen t eco pkgs i then ''malware'' else aw_Kind a)"
    using r by (auto simp: found)
qed

text \<open>The witness: a malware entry for a package of npm.\<close>

definition malware_tables :: VulnTables where
  "malware_tables = \<lparr>vt_advisories = [\<lparr>vr_ID = ''MAL-1'', vr_From = 1, vr_To = None, vr_Row = \<lparr>aw_Source = [], aw_Kind = ''malware'', aw_CVSSv3Score = None,
       aw_CVSSv4Score = None, aw_SourceSeverity = [], aw_ContentSHA256 = []\<rparr>\<rparr>],
     vt_refs = [\<lparr>vr_ID = ''MAL-1'', vr_From = 1, vr_To = None, vr_Row = \<lparr>rf_RefID = ''CVE-2024-00001'', rf_Relation = ''alias'', rf_RefKind = ''cve''\<rparr>\<rparr>],
     vt_affected = [\<lparr>vr_ID = ''MAL-1'', vr_From = 1, vr_To = None, vr_Row = \<lparr>af_Ecosystem = ''npm'', af_Release = [], af_PackageName = ''evil'',
       af_RangeType = ''SEMVER'', af_Introduced = ''0'', af_Fixed = [], af_LastAffected = [], af_VendorSeverity = []\<rparr>\<rparr>]\<rparr>"

definition plain_query :: QueryEnv where
  "plain_query = \<lparr>qe_Nvd = [], qe_RowOrder = (\<lambda>xs. xs), qe_RefOrder = (\<lambda>xs. xs), qe_CatalogFails = False, qe_RangesFail = False, qe_RefsFail = False,
     qe_ScoresFail = False\<rparr>"

lemma malware_query: "queryVersionedCatalogBulk plain_query 1 ''npm'' [''evil''] malware_tables \<noteq> None"
  by code_simp

definition erratum_tables :: VulnTables where
  "erratum_tables = malware_tables\<lparr>
     vt_advisories := [\<lparr>vr_ID = ''RHSA-1'', vr_From = 1, vr_To = None, vr_Row = \<lparr>aw_Source = ''redhat'', aw_Kind = ''vulnerability'',
       aw_CVSSv3Score = None, aw_CVSSv4Score = None, aw_SourceSeverity = [], aw_ContentSHA256 = []\<rparr>\<rparr>],
     vt_refs := map (\<lambda>x. \<lparr>vr_ID = ''RHSA-1'', vr_From = 1, vr_To = None, vr_Row = \<lparr>rf_RefID = x, rf_Relation = ''related'', rf_RefKind = ''cve''\<rparr>\<rparr>)
       [''CVE-2024-00002'', ''CVE-2024-00001''],
     vt_affected := [\<lparr>vr_ID = ''RHSA-1'', vr_From = 1, vr_To = None, vr_Row = \<lparr>af_Ecosystem = ''rpm'', af_Release = ''9'',
       af_PackageName = ''vim'', af_RangeType = ''ECOSYSTEM'', af_Introduced = ''0'', af_Fixed = ''2'', af_LastAffected = [], af_VendorSeverity = []\<rparr>\<rparr>]\<rparr>"

lemma erratum_query: "queryVersionedCatalogBulk plain_query 1 ''rpm'' [''vim''] erratum_tables \<noteq> None"
  by code_simp

theorem answers_are_stored_ranges_witness:
  "(\<exists>c. (''evil'', c) \<in> set (the (queryVersionedCatalogBulk plain_query 1 ''npm'' [''evil''] malware_tables)) \<and> cv_ID c = ''MAL-1'')
   \<and> (\<exists>c. (''vim'', c) \<in> set (the (queryVersionedCatalogBulk plain_query 1 ''rpm'' [''vim''] erratum_tables))
        \<and> cv_ID c = ''CVE-2024-00002'' \<and> cv_Constraint c = ''<2'')"
proof
  obtain found where found: "queryVersionedCatalogBulk plain_query 1 ''npm'' [''evil''] malware_tables = Some found" using malware_query by blast
  have ok: "orders_ok plain_query" "distinct (map fst (visible_rows 1 (vt_advisories malware_tables)))"
    by (simp_all add: orders_ok_def plain_query_def malware_tables_def visible_rows_def row_visible_def)
  define f where "f = vr_Row (hd (vt_affected malware_tables))"
  define a where "a = vr_Row (hd (vt_advisories malware_tables))"
  have sr: "stored_range 1 malware_tables ''npm'' ''evil'' ''MAL-1'' f a"
    by (simp add: f_def a_def stored_range_def malware_tables_def visible_rows_def row_visible_def)
  moreover have "aw_Kind a = ''malware''" by (simp add: a_def malware_tables_def)
  ultimately have "counts_as_malware 1 malware_tables ''npm'' [''evil''] ''MAL-1''"
    unfolding counts_as_malware_def stored_range_def by blast
  then have "''MAL-1'' \<in> reported_ids 1 malware_tables ''MAL-1'' a (counts_as_malware 1 malware_tables ''npm'' [''evil''] ''MAL-1'')"
    by (simp add: reported_ids_def)
  with answers_are_stored_ranges [OF found ok, of "''evil''" undefined "''MAL-1''" f a "''MAL-1''"] sr found
  show "\<exists>c. (''evil'', c) \<in> set (the (queryVersionedCatalogBulk plain_query 1 ''npm'' [''evil''] malware_tables)) \<and> cv_ID c = ''MAL-1''"
    by auto
next
  obtain found where found: "queryVersionedCatalogBulk plain_query 1 ''rpm'' [''vim''] erratum_tables = Some found" using erratum_query by blast
  have ok: "orders_ok plain_query" "distinct (map fst (visible_rows 1 (vt_advisories erratum_tables)))"
    by (simp_all add: orders_ok_def plain_query_def erratum_tables_def malware_tables_def visible_rows_def row_visible_def)
  define f where "f = vr_Row (hd (vt_affected erratum_tables))"
  define a where "a = vr_Row (hd (vt_advisories erratum_tables))"
  have sr: "stored_range 1 erratum_tables ''rpm'' ''vim'' ''RHSA-1'' f a"
    by (simp add: f_def a_def stored_range_def erratum_tables_def malware_tables_def visible_rows_def row_visible_def)
  have refs: "visible_rows 1 (vt_refs erratum_tables) =
      map (\<lambda>x. (''RHSA-1'', \<lparr>rf_RefID = x, rf_Relation = ''related'', rf_RefKind = ''cve''\<rparr>)) [''CVE-2024-00002'', ''CVE-2024-00001'']"
    by (simp add: erratum_tables_def malware_tables_def visible_rows_def row_visible_def)
  have adv: "(j, b) \<in> set (visible_rows 1 (vt_advisories erratum_tables)) \<Longrightarrow> aw_Kind b \<noteq> ''malware''" for j b
    by (auto simp: erratum_tables_def malware_tables_def visible_rows_def row_visible_def)
  have "\<not> counts_as_malware 1 erratum_tables ''rpm'' [''vim''] ''RHSA-1''"
    using adv unfolding counts_as_malware_def stored_range_def refs by (auto simp: HasPrefix_def)
  moreover have "\<not> cve_id (TrimSpace ''RHSA-1'')" by code_simp
  moreover have "refers 1 erratum_tables ''RHSA-1'' ''cve'' {''alias'', ''upstream''} = {}"
    "''CVE-2024-00002'' \<in> refers 1 erratum_tables ''RHSA-1'' ''cve'' {''related''}"
    unfolding refers_def refs
    by (auto intro!: exI [of _ "\<lparr>rf_RefID = ''CVE-2024-00002'', rf_Relation = ''related'', rf_RefKind = ''cve''\<rparr>"])
  moreover have "aw_Source a = ''redhat''" by (simp add: a_def erratum_tables_def)
  ultimately have "''CVE-2024-00002'' \<in> reported_ids 1 erratum_tables ''RHSA-1'' a (counts_as_malware 1 erratum_tables ''rpm'' [''vim''] ''RHSA-1'')"
    by (auto simp: reported_ids_def Let_def)
  moreover have "written_constraint f = ''<2''" unfolding f_def by code_simp
  ultimately show "\<exists>c. (''vim'', c) \<in> set (the (queryVersionedCatalogBulk plain_query 1 ''rpm'' [''vim''] erratum_tables))
        \<and> cv_ID c = ''CVE-2024-00002'' \<and> cv_Constraint c = ''<2''"
    using answers_are_stored_ranges [OF found ok, of "''vim''" undefined "''RHSA-1''" f a "''CVE-2024-00002''"] sr found
    by (auto simp: reports_def)
qed

text \<open>
  Whether a candidate is malware depends on the other packages of the query: a vulnerability entry that a malware entry of another package
  has as alias is malware in one query and a vulnerability in the other. The answer is kept in the cache either way.
\<close>

definition alias_tables :: VulnTables where
  "alias_tables = malware_tables\<lparr>
     vt_advisories := vt_advisories malware_tables @ [\<lparr>vr_ID = ''GHSA-1'', vr_From = 1, vr_To = None, vr_Row = \<lparr>aw_Source = [], aw_Kind = ''vulnerability'',
       aw_CVSSv3Score = None, aw_CVSSv4Score = None, aw_SourceSeverity = [], aw_ContentSHA256 = []\<rparr>\<rparr>],
     vt_refs := [\<lparr>vr_ID = ''MAL-1'', vr_From = 1, vr_To = None, vr_Row = \<lparr>rf_RefID = ''GHSA-1'', rf_Relation = ''alias'', rf_RefKind = ''ghsa''\<rparr>\<rparr>],
     vt_affected := vt_affected malware_tables @ [\<lparr>vr_ID = ''GHSA-1'', vr_From = 1, vr_To = None, vr_Row = \<lparr>af_Ecosystem = ''npm'', af_Release = [],
       af_PackageName = ''lib'', af_RangeType = ''SEMVER'', af_Introduced = ''0'', af_Fixed = [], af_LastAffected = [], af_VendorSeverity = []\<rparr>\<rparr>]\<rparr>"

lemma malware_depends_on_the_query:
  "map cv_Kind (cves_of (the (queryVersionedCatalogBulk plain_query 1 ''npm'' [''lib''] alias_tables)) ''lib'') = [''vulnerability''] \<and>
   map cv_Kind (cves_of (the (queryVersionedCatalogBulk plain_query 1 ''npm'' [''evil'', ''lib''] alias_tables)) ''lib'') = [''malware'']"
  by code_simp

text \<open>The keys of the cache do not tell where the ecosystem ends.\<close>

lemma cache_keys_collide: "cacheKey ''maven:org.x'' gen ''y'' = cacheKey ''maven'' gen ''org.x:y''"
  by (simp add: cacheKey_def)

text \<open>A catalog that cannot be read is answered like one without vulnerabilities: the query succeeds and reports nothing.\<close>

lemma unreadable_catalog_reports_nothing:
  "qe_CatalogFails env \<Longrightarrow> GetVulnerabilitiesForPackages env now db ecosystem packages c = (Some (map (\<lambda>pkg. (pkg, [])) packages), c)"
  by (simp add: GetVulnerabilitiesForPackages_def versionedCatalogGeneration_def)

subsection \<open>Answers through the cache\<close>

text \<open>What a client of the manager relies on: every question is answered for every package, with candidates that are offered for it.\<close>

locale answering =
  fixes ask :: "string \<Rightarrow> string list \<Rightarrow> 'q \<Rightarrow> (string \<times> CVE list) list option \<times> 'q"
    and sound :: "'q \<Rightarrow> bool"
    and offered :: "string \<Rightarrow> string \<Rightarrow> CVE \<Rightarrow> bool"
  assumes ask_sound: "sound q \<Longrightarrow> ask eco pkgs q = (r, q') \<Longrightarrow> sound q'"
    and ask_offered: "sound q \<Longrightarrow> ask eco pkgs q = (Some found, q') \<Longrightarrow> (pkg, cs) \<in> set found \<Longrightarrow> c \<in> set cs \<Longrightarrow> offered eco pkg c"
    and ask_all: "sound q \<Longrightarrow> ask eco pkgs q = (Some found, q') \<Longrightarrow> fst ` set found = set pkgs"

text \<open>A candidate of the catalog for a question with the same key.\<close>

definition catalog_candidate :: "QueryEnv \<Rightarrow> CatalogDb \<Rightarrow> string \<Rightarrow> string \<Rightarrow> CVE \<Rightarrow> bool" where
  "catalog_candidate env db eco pkg c \<longleftrightarrow>
     (\<exists>pkgs found. pkg \<in> set pkgs \<and> (pkg, c) \<in> set found \<and>
        queryVersionedCatalogBulk env (versionedCatalogGeneration env db) (ToLower (TrimSpace eco)) pkgs (cb_Tables db) = Some found)"

definition key_candidate :: "QueryEnv \<Rightarrow> CatalogDb \<Rightarrow> string \<Rightarrow> string \<Rightarrow> CVE \<Rightarrow> bool" where
  "key_candidate env db eco pkg c \<longleftrightarrow>
     (\<exists>eco' pkg'. eco' @ '':'' @ pkg' = eco @ '':'' @ pkg \<and> catalog_candidate env db eco' pkg' c)"

lemma key_candidate_exact:
  assumes "key_candidate env db eco pkg c" "CHR '':'' \<notin> set eco" "CHR '':'' \<notin> set pkg"
  shows "catalog_candidate env db eco pkg c"
proof -
  obtain eco' pkg' where c: "eco' @ '':'' @ pkg' = eco @ '':'' @ pkg" "catalog_candidate env db eco' pkg' c"
    using assms(1) by (auto simp: key_candidate_def)
  have "eco' = eco \<and> pkg' = pkg"
    using c(1) assms(2,3) by (auto simp: append_eq_append_conv2 append_eq_Cons_conv Cons_eq_append_conv)
  then show ?thesis using c(2) by simp
qed

definition cache_sound :: "QueryEnv \<Rightarrow> CatalogDb \<Rightarrow> CVECache \<Rightarrow> bool" where
  "cache_sound env db c \<longleftrightarrow> (\<forall>eco pkg e. (cacheKey eco (versionedCatalogGeneration env db) pkg, e) \<in> set (cc_cache c) \<longrightarrow>
     (\<forall>x \<in> set (ce_cves e). key_candidate env db eco pkg x))"

lemma cacheKey_inj: "cacheKey eco gen pkg = cacheKey eco' gen pkg' \<longleftrightarrow> eco @ '':'' @ pkg = eco' @ '':'' @ pkg'"
  unfolding cacheKey_def by (metis append.assoc same_append_eq append_same_eq)

lemma key_candidate_cong: "eco @ '':'' @ pkg = eco' @ '':'' @ pkg' \<Longrightarrow> key_candidate env db eco pkg c = key_candidate env db eco' pkg' c"
  by (simp add: key_candidate_def)

lemma sound_subset: "set (cc_cache c') \<subseteq> set (cc_cache c) \<Longrightarrow> cache_sound env db c \<Longrightarrow> cache_sound env db c'"
  unfolding cache_sound_def by blast

lemma cache_Get_subset: "cache_Get now key c = (r, c') \<Longrightarrow> set (cc_cache c') \<subseteq> set (cc_cache c)"
  by (auto simp: cache_Get_def AList.delete_eq split: option.splits if_splits)

lemma cache_Get_hit: "cache_Get now key c = (Some cves, c') \<Longrightarrow> \<exists>e. (key, e) \<in> set (cc_cache c) \<and> cves = ce_cves e"
  by (auto simp: cache_Get_def split: option.splits if_splits dest: map_of_SomeD)

lemma evictOne_subset: "set (cc_cache (evictOne c)) \<subseteq> set (cc_cache c)"
  by (auto simp: evictOne_def AList.delete_eq Let_def)

lemma set_update_subset: "set (AList.update k v xs) \<subseteq> insert (k, v) (set xs)"
  by (induction xs) auto

lemma cache_Set_sound:
  assumes "cache_sound env db c" "\<And>x. x \<in> set cves \<Longrightarrow> key_candidate env db eco pkg x"
  shows "cache_sound env db (cache_Set now (cacheKey eco (versionedCatalogGeneration env db) pkg) cves c)"
proof -
  let ?gen = "versionedCatalogGeneration env db"
  let ?key = "cacheKey eco ?gen pkg"
  have sub: "set (cc_cache (cache_Set now ?key cves c)) \<subseteq> insert (?key, \<lparr>ce_cves = cves, ce_expiresAt = now + cc_ttl c\<rparr>) (set (cc_cache c))"
  proof -
    define d where "d = (if map_of (cc_cache c) ?key = None \<and> cc_maxEntries c > 0 \<and> int (length (cc_cache c)) \<ge> cc_maxEntries c then evictOne c else c)"
    have "set (cc_cache d) \<subseteq> set (cc_cache c)" "cc_ttl d = cc_ttl c" using evictOne_subset [of c] by (auto simp: d_def evictOne_def Let_def)
    moreover have "cc_cache (cache_Set now ?key cves c) = AList.update ?key \<lparr>ce_cves = cves, ce_expiresAt = now + cc_ttl d\<rparr> (cc_cache d)"
      by (simp add: cache_Set_def d_def Let_def)
    ultimately show ?thesis using set_update_subset by fastforce
  qed
  show ?thesis unfolding cache_sound_def
  proof (intro allI impI ballI)
    fix eco' pkg' e x
    assume e: "(cacheKey eco' ?gen pkg', e) \<in> set (cc_cache (cache_Set now ?key cves c))" and x: "x \<in> set (ce_cves e)"
    then consider "(cacheKey eco' ?gen pkg', e) \<in> set (cc_cache c)" | "cacheKey eco' ?gen pkg' = ?key" "x \<in> set cves" using sub by fastforce
    then show "key_candidate env db eco' pkg' x"
    proof cases
      case 1
      then show ?thesis using assms(1) x by (auto simp: cache_sound_def)
    next
      case 2
      then show ?thesis using assms(2) key_candidate_cong by (metis cacheKey_inj)
    qed
  qed
qed

lemma read_cached_sound:
  assumes "read_cached now (cacheKey eco (versionedCatalogGeneration env db)) pkgs c = (hits, uncached, c')" "cache_sound env db c"
  shows "cache_sound env db c' \<and> fst ` set hits \<union> set uncached = set pkgs \<and> set uncached \<subseteq> set pkgs \<and>
    (\<forall>pkg cs x. (pkg, cs) \<in> set hits \<longrightarrow> x \<in> set cs \<longrightarrow> key_candidate env db eco pkg x)"
  using assms
proof (induction pkgs arbitrary: c hits uncached c')
  case (Cons pkg pkgs)
  let ?key = "cacheKey eco (versionedCatalogGeneration env db)"
  obtain r c1 where g: "cache_Get now (?key pkg) c = (r, c1)" by fastforce
  obtain hits1 un1 where rc: "read_cached now ?key pkgs c1 = (hits1, un1, c')" using Cons.prems(1) g by (auto split: prod.splits option.splits)
  have c1: "cache_sound env db c1" using sound_subset [OF cache_Get_subset [OF g]] Cons.prems(2) .
  note IH = Cons.IH [OF rc c1]
  show ?case
  proof (cases r)
    case None
    then show ?thesis using Cons.prems(1) g rc IH by auto
  next
    case (Some cves)
    then obtain e where "(?key pkg, e) \<in> set (cc_cache c)" "cves = ce_cves e" using cache_Get_hit g by blast
    then have "\<forall>x \<in> set cves. key_candidate env db eco pkg x" using Cons.prems(2) by (auto simp: cache_sound_def)
    moreover have "hits = (pkg, cves) # hits1" "uncached = un1" using Cons.prems(1) g rc Some by auto
    ultimately show ?thesis using IH by auto
  qed
qed simp

lemma fill_cache_sound:
  assumes "cache_sound env db c" "\<And>pkg x. pkg \<in> set pkgs \<Longrightarrow> x \<in> set (cs pkg) \<Longrightarrow> key_candidate env db eco pkg x"
  shows "cache_sound env db (foldl (\<lambda>c pkg. cache_Set now (cacheKey eco (versionedCatalogGeneration env db) pkg) (cs pkg) c) c pkgs)"
  using assms by (induction pkgs arbitrary: c) (simp_all add: cache_Set_sound)

interpretation manager: answering "\<lambda>eco pkgs c. GetVulnerabilitiesForPackages env now db eco pkgs c" "cache_sound env db" "key_candidate env db" for env now db
proof -
  have main: "cache_sound env db q' \<and> (\<forall>found. r = Some found \<longrightarrow> fst ` set found = set pkgs \<and>
      (\<forall>pkg cs x. (pkg, cs) \<in> set found \<longrightarrow> x \<in> set cs \<longrightarrow> key_candidate env db eco pkg x))"
    if q: "cache_sound env db q" "GetVulnerabilitiesForPackages env now db eco pkgs q = (r, q')" for q eco pkgs r q'
  proof (cases "versionedCatalogGeneration env db > 0")
    case False
    then show ?thesis using q by (auto simp: GetVulnerabilitiesForPackages_def Let_def image_iff)
  next
    case True
    let ?gen = "versionedCatalogGeneration env db"
    obtain hits uncached c1 where rc: "read_cached now (cacheKey eco ?gen) pkgs q = (hits, uncached, c1)" using prod_cases3 by blast
    note R = read_cached_sound [OF rc q(1)]
    have F: "getFromVersionedCatalog env now ?gen eco (ToLower (TrimSpace eco)) pkgs (cb_Tables db) q = (r, q')"
      using q(2) True by (simp add: GetVulnerabilitiesForPackages_def Let_def)
    show ?thesis
    proof (cases "uncached = []")
      case True
      then show ?thesis using F rc R by (auto simp: getFromVersionedCatalog_def)
    next
      case False
      show ?thesis
      proof (cases "queryVersionedCatalogBulk env ?gen (ToLower (TrimSpace eco)) uncached (cb_Tables db)")
        case None
        then show ?thesis using F rc R False by (auto simp: getFromVersionedCatalog_def)
      next
        case (Some found)
        have cand: "key_candidate env db eco pkg x" if "pkg \<in> set uncached" "x \<in> set (cves_of found pkg)" for pkg x
        proof -
          have "(pkg, x) \<in> set found" using that(2) by (auto simp: cves_of_def)
          then have "catalog_candidate env db eco pkg x" unfolding catalog_candidate_def using that(1) Some by blast
          then show ?thesis unfolding key_candidate_def by blast
        qed
        have "r = Some (hits @ map (\<lambda>pkg. (pkg, cves_of found pkg)) uncached)"
          "q' = foldl (\<lambda>c pkg. cache_Set now (cacheKey eco ?gen pkg) (cves_of found pkg) c) c1 uncached"
          using F rc False Some by (simp_all add: getFromVersionedCatalog_def)
        then show ?thesis using R fill_cache_sound [of env db c1 uncached "cves_of found" eco now] cand
          by (intro conjI allI impI) (auto simp: image_Un image_image)
      qed
    qed
  qed
  show "answering (\<lambda>eco pkgs c. GetVulnerabilitiesForPackages env now db eco pkgs c) (cache_sound env db) (key_candidate env db)"
    by unfold_locales (use main in blast)+
qed

subsection \<open>The size of the cache\<close>

definition cache_ok :: "CVECache \<Rightarrow> bool" where
  "cache_ok c \<longleftrightarrow> distinct (map fst (cc_cache c)) \<and> [] \<notin> fst ` set (cc_cache c) \<and> (cc_maxEntries c > 0 \<longrightarrow> int (length (cc_cache c)) \<le> cc_maxEntries c)"

lemma victim_member: "es \<noteq> [] \<Longrightarrow> victim_of es \<in> set es"
proof -
  have "foldl (\<lambda>v kv. if older_entry kv v then kv else v) v xs \<in> insert v (set xs)" for v xs
    by (induction xs arbitrary: v) auto
  from this [of "hd es" "tl es"] show "es \<noteq> [] \<Longrightarrow> victim_of es \<in> set es" by (cases es) (auto simp: victim_of_def)
qed

lemma delete_facts:
  "distinct (map fst xs) \<Longrightarrow> distinct (map fst (AList.delete k xs))" "fst ` set (AList.delete k xs) \<subseteq> fst ` set xs"
  "length (AList.delete k xs) \<le> length xs"
proof -
  show "distinct (map fst xs) \<Longrightarrow> distinct (map fst (AList.delete k xs))" by (simp add: AList.distinct_delete)
qed (force simp: AList.delete_eq)+

lemma length_delete: "distinct (map fst xs) \<Longrightarrow> k \<in> fst ` set xs \<Longrightarrow> length (AList.delete k xs) = length xs - 1"
proof (induction xs)
  case (Cons x xs)
  show ?case
  proof (cases "fst x = k")
    case True
    then have "k \<notin> fst ` set xs" using Cons.prems(1) by auto
    then have "filter (\<lambda>x. k \<noteq> fst x) xs = xs" by (auto simp: filter_id_conv image_iff)
    then show ?thesis using True by (simp add: AList.delete_eq case_prod_unfold)
  next
    case False
    then have "k \<in> fst ` set xs" using Cons.prems(2) by auto
    then have "xs \<noteq> []" "length (AList.delete k xs) = length xs - 1" using Cons.IH Cons.prems(1) by auto
    then show ?thesis using False by (cases xs) (simp_all add: AList.delete_eq case_prod_unfold)
  qed
qed simp

lemma cache_Get_ok: "cache_ok c \<Longrightarrow> cache_ok (snd (cache_Get now key c))"
proof (cases "snd (cache_Get now key c) = c")
  case False
  assume ok: "cache_ok c"
  have "snd (cache_Get now key c) = c\<lparr>cc_cache := AList.delete key (cc_cache c)\<rparr>" using False by (auto simp: cache_Get_def split: option.splits if_splits)
  then show ?thesis using ok delete_facts [where xs = "cc_cache c" and k = key] by (auto simp: cache_ok_def)
qed simp

lemma evictOne_ok:
  assumes "cache_ok c" "cc_cache c \<noteq> []"
  shows "cache_ok (evictOne c) \<and> length (cc_cache (evictOne c)) = length (cc_cache c) - 1 \<and> cc_maxEntries (evictOne c) = cc_maxEntries c \<and> cc_ttl (evictOne c) = cc_ttl c"
proof -
  let ?v = "fst (victim_of (cc_cache c))"
  have v: "?v \<in> fst ` set (cc_cache c)" using victim_member [OF assms(2)] by simp
  then have "?v \<noteq> []" using assms(1) by (metis cache_ok_def)
  then have e: "evictOne c = c\<lparr>cc_cache := AList.delete ?v (cc_cache c)\<rparr>" using assms(2) by (simp add: evictOne_def Let_def)
  have "length (AList.delete ?v (cc_cache c)) = length (cc_cache c) - 1"
    using length_delete [OF _ v] assms(1) by (simp add: cache_ok_def)
  then show ?thesis using assms(1) e delete_facts [where xs = "cc_cache c" and k = ?v] by (auto simp: cache_ok_def)
qed

lemma length_update: "length (AList.update k v xs) = (if k \<in> fst ` set xs then length xs else Suc (length xs))"
  by (induction xs) auto

text \<open>Through any gets and sets the cache holds at most as many entries as it may, one per key.\<close>

lemma cache_Set_ok:
  assumes "cache_ok c" "key \<noteq> []"
  shows "cache_ok (cache_Set now key cves c)"
proof -
  define d where "d = (if map_of (cc_cache c) key = None \<and> cc_maxEntries c > 0 \<and> int (length (cc_cache c)) \<ge> cc_maxEntries c then evictOne c else c)"
  have d: "cache_ok d" "cc_maxEntries d = cc_maxEntries c"
    "key \<notin> fst ` set (cc_cache d) \<longrightarrow> cc_maxEntries d > 0 \<longrightarrow> int (length (cc_cache d)) < cc_maxEntries d"
  proof -
    have "cache_ok d \<and> cc_maxEntries d = cc_maxEntries c \<and>
      (key \<notin> fst ` set (cc_cache d) \<longrightarrow> cc_maxEntries d > 0 \<longrightarrow> int (length (cc_cache d)) < cc_maxEntries d)"
    proof (cases "map_of (cc_cache c) key = None \<and> cc_maxEntries c > 0 \<and> int (length (cc_cache c)) \<ge> cc_maxEntries c")
      case True
      then have ne: "cc_cache c \<noteq> []" by auto
      then have "0 < length (cc_cache c)" by simp
      moreover have "int (length (cc_cache c)) \<le> cc_maxEntries c" using assms(1) True by (simp add: cache_ok_def)
      ultimately show ?thesis using evictOne_ok [OF assms(1) ne] True by (simp add: d_def)
    next
      case False
      then show ?thesis using assms(1) by (auto simp: d_def map_of_eq_None_iff)
    qed
    then show "cache_ok d" "cc_maxEntries d = cc_maxEntries c"
      "key \<notin> fst ` set (cc_cache d) \<longrightarrow> cc_maxEntries d > 0 \<longrightarrow> int (length (cc_cache d)) < cc_maxEntries d" by blast+
  qed
  have "cache_Set now key cves c = d\<lparr>cc_cache := AList.update key \<lparr>ce_cves = cves, ce_expiresAt = now + cc_ttl d\<rparr> (cc_cache d)\<rparr>"
    by (simp add: cache_Set_def d_def Let_def)
  then show ?thesis using d(1,3) assms(2)
    by (auto simp: cache_ok_def AList.distinct_update AList.dom_update length_update)
qed

end
