(* ===== verification/Purl.thy ===== *)
theory Purl
  imports Go_Url "HOL-Library.AList"
begin

section \<open>Package URLs: core/pkg/cve/matcher/purl\_parser.go\<close>

text \<open>
  A component of an SBOM names its package by a package URL such as
  \<^verbatim>\<open>pkg:deb/debian/libssl3@3.0.15-1~deb12u1?arch=amd64&upstream=openssl\<close>. The qualifiers are an association list in which a
  later value replaces an earlier one; no qualifiers and the nil map are the empty list, which the code treats alike.
\<close>

record PURL =
  pu_Type :: string
  pu_Ecosystem :: string
  pu_Namespace :: string
  pu_Name :: string
  pu_Version :: string
  pu_Qualifiers :: "(string \<times> string) list"

datatype PurlError = MissingPkgPrefix | MissingPurlVersion | BadVersionEncoding | InvalidPurlPath | BadPathEncoding

definition qualifier :: "PURL \<Rightarrow> string \<Rightarrow> string" where
  "qualifier p k = (case map_of (pu_Qualifiers p) k of None \<Rightarrow> [] | Some v \<Rightarrow> v)"

subsection \<open>Parsing\<close>

definition parse_qualifier :: "(string \<times> string) list \<Rightarrow> string \<Rightarrow> (string \<times> string) list" where
  "parse_qualifier qs kv0 =
     (let kv = TrimSpace kv0
      in if kv = [] then qs
         else
           let (k0, v, ok) = Cut kv CHR ''='';
               k = ToLower (TrimSpace k0)
           in if \<not> ok \<or> k = [] then qs
              else AList.update k (TrimSpace (case PathUnescape v of Some dec \<Rightarrow> dec | None \<Rightarrow> v)) qs)"

definition parsePURLQualifiers :: "string \<Rightarrow> (string \<times> string) list" where
  "parsePURLQualifiers q0 =
     (let q = TrimSpace q0 in if q = [] then [] else foldl parse_qualifier [] (split_char CHR ''&'' q))"

fun unescape_all :: "string list \<Rightarrow> string list option" where
  "unescape_all [] = Some []"
| "unescape_all (seg # segs) = (case PathUnescape seg of None \<Rightarrow> None | Some dec \<Rightarrow> map_option ((#) dec) (unescape_all segs))"

definition purl_of_path :: "string list \<Rightarrow> string \<Rightarrow> (string \<times> string) list \<Rightarrow> PURL" where
  "purl_of_path comps version qualifiers =
     (let eco = ToLower (comps ! 0);
          p = \<lparr>pu_Type = ''pkg'', pu_Ecosystem = comps ! 0, pu_Namespace = [], pu_Name = comps ! 1, pu_Version = version, pu_Qualifiers = qualifiers\<rparr>
      in if length comps = 2 then p
         else if eco = ''go'' \<or> eco = ''golang'' then p\<lparr>pu_Ecosystem := ''go'', pu_Name := join_str ''/'' (tl comps)\<rparr>
         else if length comps = 3 then p\<lparr>pu_Namespace := comps ! 1, pu_Name := comps ! 2\<rparr>
         else p\<lparr>pu_Namespace := join_str ''/'' (butlast (tl comps)), pu_Name := last comps\<rparr>)"

definition cut_fragment :: "string \<Rightarrow> string" where
  "cut_fragment rest = (case index_byte CHR ''#'' rest of None \<Rightarrow> rest | Some i \<Rightarrow> take i rest)"

definition cut_qualifiers :: "string \<Rightarrow> string \<times> (string \<times> string) list" where
  "cut_qualifiers rest = (case index_byte CHR ''?'' rest of None \<Rightarrow> (rest, [])
     | Some i \<Rightarrow> (take i rest, parsePURLQualifiers (drop (Suc i) rest)))"

definition ParsePURL :: "string \<Rightarrow> (PurlError, PURL) result" where
  "ParsePURL purlString =
     (if \<not> HasPrefix purlString ''pkg:'' then Inl MissingPkgPrefix
      else
        let (rest, qualifiers) = cut_qualifiers (cut_fragment (TrimPrefix purlString ''pkg:''))
        in case last_index_byte CHR ''@'' rest of
             None \<Rightarrow> Inl MissingPurlVersion
           | Some at \<Rightarrow>
               (case PathUnescape (drop (Suc at) rest) of
                  None \<Rightarrow> Inl BadVersionEncoding
                | Some version \<Rightarrow>
                    if version = [] then Inl MissingPurlVersion
                    else
                      let pathComponents = split_char CHR ''/'' (TrimCutset (take at rest) ''/'')
                      in if length pathComponents < 2 then Inl InvalidPurlPath
                         else case unescape_all pathComponents of
                                None \<Rightarrow> Inl BadPathEncoding
                              | Some comps \<Rightarrow> Inr (purl_of_path comps version qualifiers)))"

subsection \<open>Source packages\<close>

definition rpmSourceName :: "string \<Rightarrow> string" where
  "rpmSourceName srpm =
     (let base = TrimSuffix (TrimSuffix srpm ''.src.rpm'') ''.nosrc.rpm''
      in case last_index_byte CHR ''-'' base of
           None \<Rightarrow> []
         | Some i \<Rightarrow>
             if i = 0 then []
             else (case last_index_byte CHR ''-'' (take i base) of None \<Rightarrow> [] | Some j \<Rightarrow> if j = 0 then [] else take j base))"

definition distroSourcePackage :: "PURL option \<Rightarrow> string \<times> string" where
  "distroSourcePackage p0 =
     (case p0 of None \<Rightarrow> ([], [])
      | Some p \<Rightarrow>
          let up = TrimSpace (qualifier p ''upstream'')
          in if up = [] then ([], [])
             else if HasSuffix up ''.src.rpm'' \<or> HasSuffix up ''.nosrc.rpm'' then (rpmSourceName up, [])
             else
               let (name, version, _) = Cut up CHR ''@'';
                   (name, version) =
                     (case index_byte CHR '' '' name of
                        None \<Rightarrow> (name, version)
                      | Some i \<Rightarrow> (take i name, if version = [] then TrimCutset (TrimSpace (drop (Suc i) name)) ''()'' else version))
               in (TrimSpace name, TrimSpace version))"

subsection \<open>Printing\<close>

text \<open>
  The print of a package URL by any encoder: \<open>keepS\<close> are the bytes it writes as they are in the path and the version, \<open>keepQ\<close>
  those in qualifier values.
\<close>

definition print_purl :: "(char \<Rightarrow> bool) \<Rightarrow> (char \<Rightarrow> bool) \<Rightarrow> string list \<Rightarrow> string \<Rightarrow> (string \<times> string) list \<Rightarrow> string" where
  "print_purl keepS keepQ comps version qs =
     ''pkg:'' @ join_str ''/'' (map (path_escape keepS) comps) @ ''@'' @ path_escape keepS version @
     (if qs = [] then [] else ''?'' @ join_str ''&'' (map (\<lambda>(k, v). k @ ''='' @ path_escape keepQ v) qs))"

definition plain_key :: "string \<Rightarrow> bool" where
  "plain_key k \<longleftrightarrow> k \<noteq> [] \<and> list_all visible_char k \<and> ToLower k = k \<and> list_all (\<lambda>c. c \<notin> set ''=&#'') k"

definition plain_encoder :: "string \<Rightarrow> (char \<Rightarrow> bool) \<Rightarrow> bool" where
  "plain_encoder special keep \<longleftrightarrow> (\<forall>c. keep c \<longrightarrow> visible_char c \<and> c \<notin> set special)"

lemma escaped_visible:
  assumes "plain_encoder special keep" "CHR ''%'' \<in> set special"
  shows "list_all visible_char (path_escape keep s)"
  using assms hextable_visible by (fastforce simp: list_all_iff plain_encoder_def visible_char_def dest: path_escape_chars)

lemma escaped_chars:
  assumes "plain_encoder special keep" "c \<in> set special" "c \<noteq> CHR ''%''" "c \<notin> set hextable"
  shows "c \<notin> set (path_escape keep s)"
  using assms path_escape_chars [of c keep s] by (auto simp: plain_encoder_def)

lemma unescape_escaped: "plain_encoder special keep \<Longrightarrow> CHR ''%'' \<in> set special \<Longrightarrow> PathUnescape (path_escape keep s) = Some s"
  by (intro PathUnescape_escape) (auto simp: plain_encoder_def)

lemma unescape_all_escaped: "plain_encoder special keep \<Longrightarrow> CHR ''%'' \<in> set special \<Longrightarrow> unescape_all (map (path_escape keep) comps) = Some comps"
  by (induction comps) (simp_all add: unescape_escaped)

lemma parse_printed_qualifier:
  assumes "plain_encoder ''%&#'' keepQ" "plain_key k"
  shows "parse_qualifier qs (k @ ''='' @ path_escape keepQ v) = AList.update k (TrimSpace v) qs"
proof -
  let ?kv = "k @ ''='' @ path_escape keepQ v"
  have k: "k \<noteq> []" "list_all visible_char k" "ToLower k = k" "CHR ''='' \<notin> set k" using assms(2) by (auto simp: plain_key_def list_all_iff)
  have "list_all visible_char ?kv" using k(2) escaped_visible [OF assms(1)] by (simp add: visible_char_def)
  then have "TrimSpace ?kv = ?kv" by (rule visible_trimmed)
  moreover have "Cut ?kv CHR ''='' = (k, path_escape keepQ v, True)" using Cut_append [OF k(4)] by simp
  moreover have "TrimSpace k = k" using visible_trimmed [OF k(2)] .
  moreover have "PathUnescape (path_escape keepQ v) = Some v" using unescape_escaped [OF assms(1)] by simp
  ultimately show ?thesis using k by (simp add: parse_qualifier_def)
qed

definition print_qualifier :: "(char \<Rightarrow> bool) \<Rightarrow> string \<times> string \<Rightarrow> string" where
  "print_qualifier keepQ kv = fst kv @ ''='' @ path_escape keepQ (snd kv)"

lemma foldl_updates: "distinct (map fst qs) \<Longrightarrow> fst ` set acc \<inter> fst ` set qs = {} \<Longrightarrow> foldl (\<lambda>a kv. AList.update (fst kv) (f (snd kv)) a) acc qs
    = acc @ map (\<lambda>(k, v). (k, f v)) qs"
proof (induction qs arbitrary: acc)
  case (Cons kv qs)
  have "AList.update (fst kv) (f (snd kv)) acc = acc @ [(fst kv, f (snd kv))]" using Cons.prems(2) by (induction acc) auto
  then show ?case using Cons by (auto simp: case_prod_unfold)
qed simp

definition plain_qualifiers :: "(string \<times> string) list \<Rightarrow> bool" where
  "plain_qualifiers qs \<longleftrightarrow> distinct (map fst qs) \<and> list_all (\<lambda>(k, v). plain_key k) qs"

lemma printed_qualifier_chars:
  assumes "plain_encoder ''%&#'' keepQ" "plain_key k"
  shows "list_all visible_char (print_qualifier keepQ (k, v))" "CHR ''&'' \<notin> set (print_qualifier keepQ (k, v))"
    "CHR ''#'' \<notin> set (print_qualifier keepQ (k, v))" "print_qualifier keepQ (k, v) \<noteq> []"
  using assms(2) escaped_visible [OF assms(1), of v] escaped_chars [OF assms(1), of "CHR ''&''" v] escaped_chars [OF assms(1), of "CHR ''#''" v]
  by (auto simp: print_qualifier_def plain_key_def visible_char_def hextable_def list_all_iff)

lemma list_all_join: "list_all (list_all P) ws \<Longrightarrow> list_all P sep \<Longrightarrow> list_all P (join_str sep ws)"
  by (induction sep ws rule: join_str.induct) auto

lemma parse_printed_qualifiers:
  assumes "plain_encoder ''%&#'' keepQ" "plain_qualifiers qs" "qs \<noteq> []"
  shows "parsePURLQualifiers (join_str ''&'' (map (print_qualifier keepQ) qs)) = map (\<lambda>(k, v). (k, TrimSpace v)) qs"
    "CHR ''#'' \<notin> set (join_str ''&'' (map (print_qualifier keepQ) qs))"
proof -
  let ?ws = "map (print_qualifier keepQ) qs"
  let ?q = "join_str ''&'' ?ws"
  have each: "list_all visible_char w" "CHR ''&'' \<notin> set w" "CHR ''#'' \<notin> set w" "w \<noteq> []" if "w \<in> set ?ws" for w
    using that assms(2) printed_qualifier_chars [OF assms(1)] by (auto simp: plain_qualifiers_def list_all_iff)
  have "list_all visible_char ?q" using each(1) by (intro list_all_join) (auto simp: list_all_iff visible_char_def)
  then have trim: "TrimSpace ?q = ?q" by (rule visible_trimmed)
  have "list_all (\<lambda>c. c \<noteq> CHR ''#'') ?q" using each(3) by (intro list_all_join) (auto simp: list_all_iff)
  then show "CHR ''#'' \<notin> set ?q" by (auto simp: list_all_iff)
  have split: "split_char CHR ''&'' ?q = ?ws" using each(2) assms(3) by (intro split_char_join) auto
  have ne: "?q \<noteq> []"
  proof
    assume "?q = []"
    then have "?ws = [[]]" using split by simp
    then show False using each(4) [of "[]"] by simp
  qed
  have step: "parse_qualifier a (print_qualifier keepQ kv) = AList.update (fst kv) (TrimSpace (snd kv)) a" if "kv \<in> set qs" for a kv
  proof -
    have "plain_key (fst kv)" using that assms(2) by (auto simp: plain_qualifiers_def list_all_iff)
    then show ?thesis unfolding print_qualifier_def by (rule parse_printed_qualifier [OF assms(1)])
  qed
  have "foldl parse_qualifier acc (map (print_qualifier keepQ) qs') = foldl (\<lambda>a kv. AList.update (fst kv) (TrimSpace (snd kv)) a) acc qs'"
    if "set qs' \<subseteq> set qs" for acc qs'
    using that by (induction qs' arbitrary: acc) (simp_all add: step)
  then have "foldl parse_qualifier [] ?ws = map (\<lambda>(k, v). (k, TrimSpace v)) qs"
    using foldl_updates [of qs "[]"] assms(2) by (simp add: plain_qualifiers_def)
  then show "parsePURLQualifiers ?q = map (\<lambda>(k, v). (k, TrimSpace v)) qs" using ne by (simp add: parsePURLQualifiers_def trim split)
qed

lemma hd_join: "ws \<noteq> [] \<Longrightarrow> hd ws \<noteq> [] \<Longrightarrow> join_str sep ws \<noteq> [] \<and> hd (join_str sep ws) = hd (hd ws)"
  by (cases "(sep, ws)" rule: join_str.cases) auto

lemma last_join: "ws \<noteq> [] \<Longrightarrow> last ws \<noteq> [] \<Longrightarrow> join_str sep ws \<noteq> [] \<and> last (join_str sep ws) = last (last ws)"
  by (induction sep ws rule: join_str.induct) auto

lemma ParsePURL_printed_path:
  assumes "plain_encoder ''%/@?#'' keepS" "plain_encoder ''%&#'' keepQ" "2 \<le> length comps" "hd comps \<noteq> []" "last comps \<noteq> []"
    "version \<noteq> []" "plain_qualifiers qs"
  shows "ParsePURL (print_purl keepS keepQ comps version qs) = Inr (purl_of_path comps version (map (\<lambda>(k, v). (k, TrimSpace v)) qs))"
proof -
  let ?qs = "map (\<lambda>(k, v). (k, TrimSpace v)) qs"
  let ?segs = "map (path_escape keepS) comps"
  let ?path = "join_str ''/'' ?segs"
  let ?v = "path_escape keepS version"
  let ?q = "if qs = [] then [] else ''?'' @ join_str ''&'' (map (print_qualifier keepQ) qs)"
  have segs: "c \<notin> set w" if "w \<in> insert ?v (set ?segs)" "c \<in> {CHR ''/'', CHR ''@'', CHR ''?'', CHR ''#''}" for w c
    using that escaped_chars [OF assms(1)] by (auto simp: hextable_def)
  have path: "list_all (\<lambda>c. c \<notin> {CHR ''@'', CHR ''?'', CHR ''#''}) ?path"
  proof (rule list_all_join)
    show "list_all (list_all (\<lambda>c. c \<notin> {CHR ''@'', CHR ''?'', CHR ''#''})) ?segs"
      unfolding list_all_iff using segs by blast
  qed simp
  have hash: "CHR ''#'' \<notin> set (?path @ ''@'' @ ?v @ ?q)"
    using path segs [of ?v "CHR ''#''"] parse_printed_qualifiers(2) [OF assms(2,7)] by (auto simp: list_all_iff)
  have quest: "CHR ''?'' \<notin> set (?path @ ''@'' @ ?v)" using path segs [of ?v "CHR ''?''"] by (auto simp: list_all_iff)
  have frag: "cut_fragment (?path @ ''@'' @ ?v @ ?q) = ?path @ ''@'' @ ?v @ ?q"
    unfolding cut_fragment_def index_byte_None_iff [THEN iffD2, OF hash] by simp
  have quals: "cut_qualifiers (?path @ ''@'' @ ?v @ ?q) = (?path @ ''@'' @ ?v, ?qs)"
  proof (cases "qs = []")
    case True
    then show ?thesis using index_byte_None_iff [THEN iffD2, OF quest] by (simp add: cut_qualifiers_def)
  next
    case False
    then have "index_byte CHR ''?'' (?path @ ''@'' @ ?v @ ?q) = Some (length (?path @ ''@'' @ ?v))"
      using index_byte_append [OF quest] by simp
    then show ?thesis using False parse_printed_qualifiers(1) [OF assms(2,7)] by (simp add: cut_qualifiers_def)
  qed
  have at: "last_index_byte CHR ''@'' (?path @ ''@'' @ ?v) = Some (length ?path)"
    using last_index_byte_append [of "CHR ''@''" ?v ?path] segs [of ?v "CHR ''@''"] by simp
  have ne: "?segs \<noteq> []" "hd ?segs \<noteq> []" "last ?segs \<noteq> []"
  proof -
    have c: "comps \<noteq> []" using assms(3) by auto
    show "?segs \<noteq> []" "hd ?segs \<noteq> []" "last ?segs \<noteq> []" using assms(4,5) by (simp_all add: c hd_map [OF c] last_map [OF c])
  qed
  have "TrimCutset ?path ''/'' = ?path"
  proof (rule TrimCutset_id, rule disjI2)
    have "hd (hd ?segs) \<noteq> CHR ''/''" "last (last ?segs) \<noteq> CHR ''/''"
      using segs [of "hd ?segs" "CHR ''/''"] segs [of "last ?segs" "CHR ''/''"] ne hd_in_set last_in_set by (metis insertCI)+
    then show "hd ?path \<notin> set ''/'' \<and> last ?path \<notin> set ''/''" using hd_join [OF ne(1,2)] last_join [OF ne(1,3)] by simp
  qed
  moreover have "split_char CHR ''/'' ?path = ?segs" using ne(1) segs by (intro split_char_join) auto
  moreover have "unescape_all ?segs = Some comps" "PathUnescape ?v = Some version"
    using unescape_all_escaped [OF assms(1)] unescape_escaped [OF assms(1)] by simp_all
  ultimately have done_path: "unescape_all (split_char CHR ''/'' (TrimCutset ?path ''/'')) = Some comps" "split_char CHR ''/'' (TrimCutset ?path ''/'') = ?segs"
    "PathUnescape ?v = Some version" by simp_all
  have print: "print_purl keepS keepQ comps version qs = ''pkg:'' @ (?path @ ''@'' @ ?v @ ?q)"
    by (simp add: print_purl_def print_qualifier_def [abs_def] case_prod_unfold)
  have pre: "HasPrefix (print_purl keepS keepQ comps version qs) ''pkg:''" "TrimPrefix (print_purl keepS keepQ comps version qs) ''pkg:'' = ?path @ ''@'' @ ?v @ ?q"
    unfolding print by (rule HasPrefix_append, rule TrimPrefix_append)
  have "cut_qualifiers (cut_fragment (TrimPrefix (print_purl keepS keepQ comps version qs) ''pkg:'')) = (?path @ CHR ''@'' # ?v, ?qs)"
    unfolding pre(2) frag quals by simp
  moreover have "last_index_byte CHR ''@'' (?path @ CHR ''@'' # ?v) = Some (length ?path)" using at by simp
  ultimately show ?thesis using assms(3,6) done_path by (simp add: ParsePURL_def pre(1))
qed

text \<open>The path of the parser's result in terms of the type, the namespace segments and the name.\<close>

lemma last_snoc_tl: "butlast (ns @ [nm]) = ns" "last (ns @ [nm]) = nm"
  by simp_all

lemma join_snoc: "ns \<noteq> [] \<Longrightarrow> join_str sep (ns @ [nm]) = join_str sep ns @ sep @ nm"
  by (induction sep ns rule: join_str.induct) auto

lemma purl_of_path_parts:
  "purl_of_path (ty # ns @ [nm]) version qs =
     (let gomod = ns \<noteq> [] \<and> ToLower ty \<in> {''go'', ''golang''}
      in \<lparr>pu_Type = ''pkg'', pu_Ecosystem = (if gomod then ''go'' else ty),
          pu_Namespace = (if gomod then [] else join_str ''/'' ns),
          pu_Name = (if gomod then join_str ''/'' ns @ ''/'' @ nm else nm),
          pu_Version = version, pu_Qualifiers = qs\<rparr>)"
proof (cases ns)
  case Nil
  then show ?thesis by (simp add: purl_of_path_def Let_def)
next
  case (Cons n rest)
  then show ?thesis using join_snoc [of ns "''/''" nm] by (cases rest) (simp_all add: purl_of_path_def Let_def)
qed

text \<open>
  C28. Parsing inverts printing: whatever bytes the type, the namespace segments, the name, the version and the
  qualifier values contain, and whichever of the harmless bytes the writer leaves unescaped, the parser
  gives each of them back in its field, a multi-segment namespace joined by slashes, and a qualifier
  value without its surrounding space. Only for a Go module with a namespace the ecosystem becomes \<^verbatim>\<open>go\<close> and the
  whole module path the name.
\<close>

theorem ParsePURL_inverts_print:
  assumes "plain_encoder ''%/@?#'' keepS" and "plain_encoder ''%&#'' keepQ" and "ty \<noteq> []" and "nm \<noteq> []"
    and "version \<noteq> []" and "plain_qualifiers qs"
  shows "ParsePURL (print_purl keepS keepQ (ty # ns @ [nm]) version qs) =
     (let gomod = ns \<noteq> [] \<and> ToLower ty \<in> {''go'', ''golang''}
      in Inr \<lparr>pu_Type = ''pkg'', pu_Ecosystem = (if gomod then ''go'' else ty),
          pu_Namespace = (if gomod then [] else join_str ''/'' ns),
          pu_Name = (if gomod then join_str ''/'' ns @ ''/'' @ nm else nm),
          pu_Version = version, pu_Qualifiers = map (\<lambda>(k, v). (k, TrimSpace v)) qs\<rparr>)"
  using ParsePURL_printed_path [of keepS keepQ "ty # ns @ [nm]" version qs] assms
  by (simp add: purl_of_path_parts Let_def)

text \<open>The witness: a scoped npm package, its scope written with an escaped sign, and a qualifier with a sign of its own.\<close>

definition strict_path :: "char \<Rightarrow> bool" where "strict_path c \<longleftrightarrow> visible_char c \<and> c \<notin> set ''%/@?#''"
definition strict_query :: "char \<Rightarrow> bool" where "strict_query c \<longleftrightarrow> visible_char c \<and> c \<notin> set ''%&#''"

lemma npm_printed: "print_purl strict_path strict_query [''npm'', ''@babel'', ''core''] ''7.24.0'' [(''upstream'', ''babel@7'')] =
    ''pkg:npm/%40babel/core@7.24.0?upstream=babel@7''"
  by code_simp

lemma go_printed: "print_purl strict_path strict_query [''golang'', ''github.com'', ''x'', ''y''] ''v1'' [(''a'', '' b'')] =
    ''pkg:golang/github.com/x/y@v1?a=%20b''"
  by code_simp

theorem ParsePURL_inverts_print_witness:
  "ParsePURL ''pkg:npm/%40babel/core@7.24.0?upstream=babel@7'' = Inr \<lparr>pu_Type = ''pkg'', pu_Ecosystem = ''npm'', pu_Namespace = ''@babel'',
     pu_Name = ''core'', pu_Version = ''7.24.0'', pu_Qualifiers = [(''upstream'', ''babel@7'')]\<rparr>
   \<and> ParsePURL ''pkg:golang/github.com/x/y@v1?a=%20b'' = Inr \<lparr>pu_Type = ''pkg'', pu_Ecosystem = ''go'', pu_Namespace = [],
     pu_Name = ''github.com/x/y'', pu_Version = ''v1'', pu_Qualifiers = [(''a'', ''b'')]\<rparr>"
proof -
  have enc: "plain_encoder ''%/@?#'' strict_path" "plain_encoder ''%&#'' strict_query" by (simp_all add: plain_encoder_def strict_path_def strict_query_def)
  have q: "plain_qualifiers [(''upstream'', ''babel@7'')]" "plain_qualifiers [(''a'', '' b'')]"
    "TrimSpace ''babel@7'' = ''babel@7''" "TrimSpace '' b'' = ''b''" "ToLower ''npm'' = ''npm''" "ToLower ''golang'' = ''golang''" by code_simp+
  show ?thesis
    using ParsePURL_inverts_print [OF enc _ _ _ q(1), of "''npm''" "''core''" "''7.24.0''" "[''@babel'']"]
      ParsePURL_inverts_print [OF enc _ _ _ q(2), of "''golang''" "''y''" "''v1''" "[''github.com'', ''x'']"]
    by (simp add: npm_printed go_printed q(3-6) Let_def)
qed

end
