(* ===== verification/Cve_Components.thy ===== *)
theory Cve_Components
  imports Catalog_Query Purl
begin

section \<open>Components of an SBOM as the matcher sees them: core/pkg/cve/matcher/matcher.go\<close>

text \<open>
  Before components are matched, noise and duplicates are removed, and each component gets an ecosystem, a release, an architecture and
  the version that is compared. Regular expressions are matchers on bytes; the order of maps and of unstable sorts is a parameter.
\<close>

record SBOM =
  sb_ID :: nat
  sb_ClusterID :: string
  sb_PodUID :: string
  sb_Namespace :: string
  sb_ContainerName :: string
  sb_OSName :: string
  sb_OSVersion :: string
  sb_GoVersion :: string
  sb_Status :: string

record SBOMComponent =
  cp_ID :: nat
  cp_ComponentName :: string
  cp_ComponentVersion :: string
  cp_PURL :: string
  cp_TrustLevel :: string
  cp_Source :: string
  cp_CreatedAt :: int
  cp_Ecosystem :: string
  cp_Namespace :: string
  cp_Arch :: string

subsection \<open>Sorting by a less function\<close>

fun insert_by :: "('a \<Rightarrow> 'a \<Rightarrow> bool) \<Rightarrow> 'a \<Rightarrow> 'a list \<Rightarrow> 'a list" where
  "insert_by lt x [] = [x]"
| "insert_by lt x (y # ys) = (if lt y x then y # insert_by lt x ys else x # y # ys)"

definition SliceStable :: "('a \<Rightarrow> 'a \<Rightarrow> bool) \<Rightarrow> 'a list \<Rightarrow> 'a list" where
  "SliceStable lt xs = foldr (insert_by lt) xs []"

lemma set_insert_by: "set (insert_by lt x xs) = insert x (set xs)"
  by (induction xs) auto

lemma mset_insert_by: "mset (insert_by lt x xs) = add_mset x (mset xs)"
  by (induction xs) auto

lemma mset_SliceStable: "mset (SliceStable lt xs) = mset xs"
  unfolding SliceStable_def by (induction xs) (simp_all add: mset_insert_by)

lemma set_SliceStable [simp]: "set (SliceStable lt xs) = set xs"
  using mset_SliceStable [of lt xs] by (metis set_mset_mset)

lemma length_SliceStable [simp]: "length (SliceStable lt xs) = length xs"
  using mset_SliceStable [of lt xs] by (metis size_mset)

definition string_less :: "string \<Rightarrow> string \<Rightarrow> bool" where
  "string_less a b \<longleftrightarrow> Compare a b < 0"

subsection \<open>Ecosystems\<close>

definition rpmNamespaceEcosystem :: "string \<Rightarrow> string" where
  "rpmNamespaceEcosystem ns =
     (if ns = ''almalinux'' then ''alma'' else if ns = ''rocky-linux'' then ''rocky''
      else if ns = ''rhel'' \<or> ns = ''hummingbird'' then ''redhat'' else if ns = ''ol'' \<or> ns = ''oracle'' then ''oraclelinux''
      else if ns = ''amzn'' then ''amazon'' else ns)"

text \<open>The first pair with one of its words in the text decides.\<close>

fun first_word :: "(string list \<times> string) list \<Rightarrow> string \<Rightarrow> string \<Rightarrow> string" where
  "first_word [] other s = other"
| "first_word ((ws, eco) # rest) other s = (if list_ex (\<lambda>w. Contains s w) ws then eco else first_word rest other s)"

definition rpm_os_words :: "(string list \<times> string) list" where
  "rpm_os_words = [([''red hat'', ''rhel''], ''redhat''), ([''centos''], ''centos''), ([''fedora''], ''fedora''), ([''rocky''], ''rocky''),
     ([''alma''], ''alma''), ([''oracle linux'', ''ol ''], ''oraclelinux''), ([''amazon linux'', ''amzn''], ''amazon''),
     ([''opensuse'', ''suse''], ''opensuse''), ([''photon''], ''photon'')]"

definition generic_os_words :: "(string list \<times> string) list" where
  "generic_os_words = [([''debian''], ''debian''), ([''ubuntu''], ''ubuntu''), ([''alpine''], ''alpine''), ([''rocky''], ''rocky''), ([''alma''], ''alma''),
     ([''centos''], ''centos''), ([''fedora''], ''fedora''), ([''red hat'', ''rhel''], ''redhat''), ([''oracle linux'', ''ol ''], ''oraclelinux''),
     ([''amazon linux'', ''amzn''], ''amazon''), ([''opensuse'', ''sles''], ''opensuse''), ([''photon''], ''photon'')]"

definition normalizeQueryEcosystemWithOS :: "PURL \<Rightarrow> string \<Rightarrow> string" where
  "normalizeQueryEcosystemWithOS p sbomOSName =
     (let eco = ToLower (TrimSpace (pu_Ecosystem p)); ns = ToLower (TrimSpace (pu_Namespace p)); osName = ToLower (TrimSpace sbomOSName)
      in if eco \<in> set [''deb'', ''package_type_dpkg'', ''package_type_deb''] then (if ns \<noteq> [] \<and> ns \<noteq> ''distroless'' then ns else ''debian'')
         else if eco \<in> set [''apk'', ''package_type_apk''] then (if ns \<noteq> [] then ns else ''alpine'')
         else if eco \<in> set [''rpm'', ''package_type_rpm''] then (if ns \<noteq> [] then rpmNamespaceEcosystem ns else first_word rpm_os_words ''linux'' osName)
         else if eco \<in> set [''golang'', ''go''] then ''go''
         else if eco = ''generic'' then first_word generic_os_words ''generic'' osName
         else if eco \<in> set [''gem'', ''rubygems''] then ''rubygems''
         else if eco \<in> set [''composer'', ''packagist''] then ''packagist''
         else if eco \<in> set [''cargo'', ''crates.io''] then ''cargo''
         else if eco \<in> set [''maven'', ''npm'', ''pypi'', ''nuget'', ''hex'', ''pub'', ''swift'', ''cocoapods'', ''hackage'', ''cran''] then eco
         else if ns \<noteq> [] then ns else eco)"

definition likelyDistroEcosystemsForGenericSBOM :: "string \<Rightarrow> string list" where
  "likelyDistroEcosystemsForGenericSBOM osName =
     (let osLower = ToLower (TrimSpace osName)
      in if osLower = [] then [''alpine'', ''debian'']
         else if Contains osLower ''alpine'' then [''alpine'']
         else if Contains osLower ''ubuntu'' then [''ubuntu'']
         else if Contains osLower ''debian'' then [''debian'']
         else if list_ex (\<lambda>tok. Contains osLower tok) [''red hat'', ''rhel'', ''centos'', ''rocky'', ''alma'', ''fedora'', ''oracle linux'', ''amazon linux'']
           then [''redhat'']
         else [''alpine'', ''debian''])"

definition comparatorEcosystemForBulkBatch :: "PURL \<Rightarrow> string \<Rightarrow> string" where
  "comparatorEcosystemForBulkBatch purl bulkQueryEcosystem =
     (let b = ToLower (TrimSpace bulkQueryEcosystem)
      in if b = [] \<or> b = ''generic'' then (if TrimSpace (pu_Ecosystem purl) \<noteq> [] then pu_Ecosystem purl else ''generic'')
         else if b = ''linux'' then pu_Ecosystem purl
         else bulkQueryEcosystem)"

definition plain_purl :: "string \<Rightarrow> string \<Rightarrow> string \<Rightarrow> PURL" where
  "plain_purl eco name version =
     \<lparr>pu_Type = [], pu_Ecosystem = eco, pu_Namespace = [], pu_Name = name, pu_Version = version, pu_Qualifiers = []\<rparr>"

definition inferPURLFromComponent :: "SBOMComponent \<Rightarrow> string \<Rightarrow> PURL" where
  "inferPURLFromComponent c sbomOSName =
     (let name = TrimSpace (cp_ComponentName c); version = TrimSpace (cp_ComponentVersion c); n = ToLower name
      in if list_ex (\<lambda>host. Contains n host) [''github.com/'', ''gitlab.com/'', ''bitbucket.org/'', ''golang.org/''] \<or> HasPrefix n ''k8s.io/''
         then plain_purl ''go'' name version
         else plain_purl (normalizeQueryEcosystemWithOS (plain_purl ''generic'' [] []) sbomOSName) name version)"

subsection \<open>Versions, architectures and releases\<close>

definition isDistroSourceKeyed :: "PURL \<Rightarrow> bool" where
  "isDistroSourceKeyed p \<longleftrightarrow>
     (let eco = ToLower (TrimSpace (pu_Ecosystem p))
      in if eco \<in> set [''deb'', ''apk'', ''package_type_dpkg'', ''package_type_deb'', ''package_type_apk''] then True
         else if eco \<in> set [''rpm'', ''package_type_rpm''] then rpmNamespaceEcosystem (ToLower (TrimSpace (pu_Namespace p))) = ''rocky''
         else False)"

definition effectiveVersionForComparison :: "string \<Rightarrow> PURL \<Rightarrow> string" where
  "effectiveVersionForComparison componentVersion purl =
     (let srcVersion = snd (distroSourcePackage (Some purl));
          v = (if isDistroSourceKeyed purl \<and> srcVersion \<noteq> [] then srcVersion else TrimSpace componentVersion);
          eco = ToLower (TrimSpace (pu_Ecosystem purl));
          epoch = TrimSpace (qualifier purl ''epoch'')
      in if (eco = ''deb'' \<or> eco = ''debian'' \<or> eco = ''ubuntu'') \<and> epoch \<noteq> [] \<and> epoch \<noteq> ''0'' \<and> \<not> Contains v '':''
         then epoch @ '':'' @ v else v)"

text \<open>\<^verbatim>\<open>(?i)(?:^|[,\s])arch\s*=\s*([a-z0-9_:-]+)\<close>\<close>

definition re_space :: "char \<Rightarrow> bool" where
  "re_space c \<longleftrightarrow> c \<in> set [CHR '' '', CHR 0x09, CHR 0x0A, CHR 0x0C, CHR 0x0D]"

definition arch_char :: "char \<Rightarrow> bool" where
  "arch_char c \<longleftrightarrow> is_digit c \<or> lower_char c \<in> set lower_letters \<or> c \<in> set ''_:-''"

definition arch_body :: "string \<Rightarrow> string option" where
  "arch_body s =
     (let after = dropWhile re_space (drop 4 s)
      in if length s \<ge> 4 \<and> map lower_char (take 4 s) = ''arch'' \<and> after \<noteq> [] \<and> hd after = CHR ''='' \<and>
           takeWhile arch_char (dropWhile re_space (tl after)) \<noteq> []
         then Some (dropWhile re_space (tl after)) else None)"

lemma length_dropWhile: "length (dropWhile P xs) \<le> length xs"
  by (induction xs) auto

lemma arch_body_shorter: "arch_body s = Some r \<Longrightarrow> length r < length s"
proof -
  assume a: "arch_body s = Some r"
  then have "r = dropWhile re_space (tl (dropWhile re_space (drop 4 s)))" "length s \<ge> 4" by (auto simp: arch_body_def Let_def split: if_splits)
  then have "length r \<le> length (drop 4 s)" using length_dropWhile by (metis length_tl diff_le_self order_trans)
  then show ?thesis using \<open>length s \<ge> 4\<close> by simp
qed

function arch_values :: "bool \<Rightarrow> string \<Rightarrow> string list" where
  "arch_values start s =
     (case (if start then arch_body s else None) of
        Some r \<Rightarrow> takeWhile arch_char r # arch_values False (dropWhile arch_char r)
      | None \<Rightarrow>
          (case s of [] \<Rightarrow> []
           | c # cs \<Rightarrow>
               (case (if c = CHR '','' \<or> re_space c then arch_body cs else None) of
                  Some r \<Rightarrow> takeWhile arch_char r # arch_values False (dropWhile arch_char r)
                | None \<Rightarrow> arch_values False cs)))"
  by pat_completeness auto
termination
proof (relation "measure (\<lambda>(start, s). length s)")
  fix start s r assume "(if start then arch_body s else None) = Some r"
  then have "length r < length s" using arch_body_shorter by (auto split: if_splits)
  then show "((False, dropWhile arch_char r), start, s) \<in> measure (\<lambda>(start, s). length s)"
    using length_dropWhile [of arch_char r] by simp
next
  fix start s c cs r assume "s = c # cs" "(if c = CHR '','' \<or> re_space c then arch_body cs else None) = Some r"
  then have "length r < length s" using arch_body_shorter [of cs r] by (auto split: if_splits)
  then show "((False, dropWhile arch_char r), start, s) \<in> measure (\<lambda>(start, s). length s)"
    using length_dropWhile [of arch_char r] by simp
qed simp_all

declare arch_values.simps [simp del]

definition isCVEApplicableToPackageArch :: "CVE \<Rightarrow> PURL \<Rightarrow> bool" where
  "isCVEApplicableToPackageArch cveData purl \<longleftrightarrow>
     (let pkgArch = ToLower (TrimSpace (qualifier purl ''arch'')); matches = arch_values True (cv_Constraint cveData)
      in pkgArch = [] \<or> matches = [] \<or> list_ex (\<lambda>m. EqualFold (TrimSpace m) pkgArch) matches)"

definition releaseScopedEcosystems :: "string list" where
  "releaseScopedEcosystems = [''debian'', ''ubuntu'', ''alpine'', ''rocky'', ''alma'', ''redhat'']"

definition isNumericRelease :: "string \<Rightarrow> bool" where
  "isNumericRelease v \<longleftrightarrow> v \<noteq> [] \<and> list_all (\<lambda>r. is_digit r \<or> r = CHR ''.'') v"

definition componentDistroRelease :: "string \<Rightarrow> PURL \<Rightarrow> SBOM \<Rightarrow> string" where
  "componentDistroRelease ecosystem purl sbom =
     (let eco = ToLower (TrimSpace ecosystem);
          d = TrimSpace (qualifier purl ''distro'');
          fromPurl = (case last_index_byte CHR ''-'' d of Some i \<Rightarrow> if i > 0 then NormalizeDistroRelease eco (drop (Suc i) d) else [] | None \<Rightarrow> []);
          fromOS = (if Contains (ToLower (sb_OSName sbom)) eco then NormalizeDistroRelease eco (sb_OSVersion sbom) else [])
      in if eco \<notin> set releaseScopedEcosystems then []
         else if isNumericRelease fromPurl then fromPurl
         else if isNumericRelease fromOS then fromOS else [])"

definition cveAppliesToRelease :: "string \<Rightarrow> string \<Rightarrow> string \<Rightarrow> bool" where
  "cveAppliesToRelease ecosystem advisoryRelease0 componentRelease \<longleftrightarrow>
     (let advisoryRelease = TrimSpace advisoryRelease0
      in advisoryRelease = [] \<or> componentRelease = [] \<or> NormalizeDistroRelease ecosystem advisoryRelease = componentRelease)"

subsection \<open>Components without a package database\<close>

definition registryCanonicalName :: "string \<Rightarrow> string option" where
  "registryCanonicalName = map_of [(''registry.k8s.io/coredns'', ''coredns''), (''registry.k8s.io/etcd'', ''etcd'')]"

definition normalizeDistrolessComponentName :: "string \<Rightarrow> string" where
  "normalizeDistrolessComponentName name =
     (let n0 = TrimSpace name;
          n = (case last_index_byte CHR ''/'' n0 of None \<Rightarrow> n0 | Some idx \<Rightarrow> if Suc idx < length n0 then TrimSpace (drop (Suc idx) n0) else n0);
          l = ToLower n
      in if n0 = [] then n0
         else if l \<in> set [''kubernetes-apiserver'', ''k8s-apiserver'', ''apiserver''] then ''kube-apiserver''
         else if l \<in> set [''kubernetes-controller-manager'', ''k8s-controller-manager''] then ''kube-controller-manager''
         else if l \<in> set [''kubernetes-scheduler'', ''k8s-scheduler''] then ''kube-scheduler''
         else case registryCanonicalName n of Some canonical \<Rightarrow> canonical | None \<Rightarrow> n)"

definition distroless_allowed :: "string list" where
  "distroless_allowed = [''openssl'', ''libssl.so.3'', ''libssl.so.1.1'', ''glibc'', ''libc.so.6'', ''libc.so'', ''coredns'', ''etcd'', ''pause'',
     ''containerd-shim'', ''containerd-shim-runc-v1'', ''runc'', ''conntrack'', ''iptables'', ''busybox'', ''busybox-binsh'', ''curl'', ''wget'',
     ''postgres'', ''musl'', ''zlib'', ''libcrypto'', ''libxml2'', ''bash'', ''sudo'', ''openssh'', ''flannel'', ''cni-plugins'']"

definition isDistrolessHeuristicAllowlisted :: "string \<Rightarrow> bool" where
  "isDistrolessHeuristicAllowlisted name \<longleftrightarrow>
     (let raw = TrimSpace name; n = TrimSpace (normalizeDistrolessComponentName name)
      in if HasPrefix (ToLower raw) ''golang.org/x/'' then True
         else if n = [] then False
         else HasPrefix n ''kube-'' \<or> n \<in> set distroless_allowed \<or> HasPrefix n ''lib'' \<and> (Contains n ''.so'' \<or> HasSuffix n ''.so''))"

definition isDistrolessHeuristicJunk :: "SBOMComponent \<Rightarrow> bool" where
  "isDistrolessHeuristicJunk c \<longleftrightarrow>
     (if TrimSpace (cp_Source c) \<noteq> ''distroless-heuristic'' then False
      else if TrimSpace (cp_ComponentVersion c) = ''unknown'' then False
      else if isDistrolessHeuristicAllowlisted (cp_ComponentName c) then False
      else Contains (normalizeDistrolessComponentName (cp_ComponentName c)) ''.'')"

subsection \<open>Go modules\<close>

definition isGoMajorVersionSegment :: "string \<Rightarrow> bool" where
  "isGoMajorVersionSegment seg0 \<longleftrightarrow>
     (let seg = TrimSpace seg0 in length seg \<ge> 2 \<and> hd seg = CHR ''v'' \<and> list_all is_digit (tl seg))"

text \<open>Prefixes from the longest to the one of \<open>minParts\<close> segments, up to the first that ends in a major version.\<close>

fun module_prefixes :: "string list \<Rightarrow> nat \<Rightarrow> nat \<Rightarrow> string list" where
  "module_prefixes parts minParts 0 = []"
| "module_prefixes parts minParts (Suc i) =
     (if Suc i < minParts then []
      else join_str ''/'' (take (Suc i) parts) # (if isGoMajorVersionSegment (parts ! i) then [] else module_prefixes parts minParts i))"

definition normalizeGoModulePrefixes :: "string \<Rightarrow> string list" where
  "normalizeGoModulePrefixes path0 =
     (let path = TrimSpace path0; parts = split_char CHR ''/'' path
      in if path = [] then []
         else if length parts < 2 then [path]
         else module_prefixes parts (if ToLower (parts ! 0) \<in> set [''github.com'', ''gitlab.com'', ''bitbucket.org''] then 3 else 2) (length parts))"

text \<open>
  \<^verbatim>\<open>^v\d+\.\d+\.\d+(-[0-9A-Za-z.-]+)?$\<close>, \<^verbatim>\<open>^v\d+\.\d+\.\d+-(0\.)?\d{14}-[0-9a-f]{7,}$\<close> and \<^verbatim>\<open>^v?\d+\.\d+$\<close>.
\<close>

definition after_number :: "string \<Rightarrow> string option" where
  "after_number s = (if s \<noteq> [] \<and> is_digit (hd s) then Some (dropWhile is_digit s) else None)"

fun after_numbers :: "nat \<Rightarrow> string \<Rightarrow> string option" where
  "after_numbers 0 s = Some s"
| "after_numbers (Suc n) s =
     (case after_number s of None \<Rightarrow> None
      | Some r \<Rightarrow> if n = 0 then Some r else (case r of c # cs \<Rightarrow> if c = CHR ''.'' then after_numbers n cs else None | [] \<Rightarrow> None))"

definition is_alnum :: "char \<Rightarrow> bool" where
  "is_alnum c \<longleftrightarrow> is_digit c \<or> c \<in> set lower_letters \<or> c \<in> set upper_letters"

definition goStrictSemver :: "string \<Rightarrow> bool" where
  "goStrictSemver v \<longleftrightarrow> HasPrefix v ''v'' \<and> (case after_numbers 3 (drop 1 v) of None \<Rightarrow> False
     | Some r \<Rightarrow> r = [] \<or> hd r = CHR ''-'' \<and> tl r \<noteq> [] \<and> list_all (\<lambda>c. is_alnum c \<or> c = CHR ''.'' \<or> c = CHR ''-'') (tl r))"

definition goPseudoVersion :: "string \<Rightarrow> bool" where
  "goPseudoVersion v \<longleftrightarrow> HasPrefix v ''v'' \<and> (case after_numbers 3 (drop 1 v) of None \<Rightarrow> False
     | Some r \<Rightarrow> r \<noteq> [] \<and> hd r = CHR ''-'' \<and>
         list_ex (\<lambda>t. length t \<ge> 22 \<and> list_all is_digit (take 14 t) \<and> t ! 14 = CHR ''-'' \<and>
           list_all (\<lambda>c. is_digit c \<or> c \<in> set ''abcdef'') (drop 15 t)) (if HasPrefix (tl r) ''0.'' then [tl r, drop 2 (tl r)] else [tl r]))"

definition goLooseSemver :: "string \<Rightarrow> bool" where
  "goLooseSemver v \<longleftrightarrow> after_numbers 2 (if HasPrefix v ''v'' then drop 1 v else v) = Some []"

end
