(* ===== verification/Cve_Matcher.thy ===== *)
theory Cve_Matcher
  imports Cve_Components
begin

section \<open>Matching an SBOM against the catalog: matcher.go, finding\_merge.go, go\_stdlib\_matcher.go, matcher\_malware.go\<close>

text \<open>
  The matcher resolves the components, asks the manager for the vulnerabilities of their packages and compares versions. What the
  environment decides is the record \<open>MatcherEnv\<close>: the order in which maps are iterated (by the place of the loop), the order unstable
  sorts start from, the map of Kubernetes components, the module aliases, the clock and the rounding to 32 bits. \<open>ask\<close> is the manager,
  with its own state. Sorting an answer in place also sorts the entry of the cache; the passes sort their answers again, only the pass over
  the Go standard library takes them as they are, sorted by an earlier pass or not (\<open>me_StdlibSorted\<close>).
\<close>

record MatcherEnv =
  me_Order :: "string \<Rightarrow> string list \<Rightarrow> string list"
  me_Shuffle :: "nat \<Rightarrow> nat list"
  me_K8s :: "string \<Rightarrow> (string \<times> string) option"
  me_Aliases :: "(string \<times> string) list option"
  me_Now :: int
  me_Float32 :: "rat \<Rightarrow> rat"
  me_StdlibSorted :: bool

text \<open>An unstable sort is a stable one of some permutation.\<close>

definition sort_Slice :: "MatcherEnv \<Rightarrow> ('a \<Rightarrow> 'a \<Rightarrow> bool) \<Rightarrow> 'a list \<Rightarrow> 'a list" where
  "sort_Slice env lt xs = SliceStable lt (map (nth xs) (me_Shuffle env (length xs)))"

subsection \<open>Resolution of components\<close>

record Candidate =
  cd_c :: SBOMComponent
  cd_p :: PURL
  cd_inferred :: bool
  cd_eco :: string
  cd_key :: string
  cd_pri :: nat

definition source_priority :: "string \<Rightarrow> nat" where
  "source_priority src =
     (let s = ToLower (TrimSpace src)
      in if s = ''gobinary'' then 100 else if s = ''gomod'' then 80 else if s \<in> set [''os'', ''dpkg'', ''apk'', ''rpm''] then 60
         else if s \<in> set [''distroless-heuristic'', ''label-metadata'', ''heuristic''] then 20 else if s = ''gobinary-main'' then 15 else 10)"

definition versionClass :: "string \<Rightarrow> string \<Rightarrow> nat" where
  "versionClass eco v0 =
     (let v = TrimSpace v0
      in if ToLower (TrimSpace eco) = ''go'' then (if goStrictSemver v \<or> goPseudoVersion v then 2 else if goLooseSemver v then 1 else 0) else 1)"

definition trustRank :: "string \<Rightarrow> nat" where
  "trustRank level = (let t = ToLower (TrimSpace level) in if t = ''high'' then 2 else if t = ''medium'' then 1 else if t = ''low'' then 0 else 2)"

definition semverForSort :: "('d, 'r, 'v, 'c) VersionLibs \<Rightarrow> string \<Rightarrow> string \<Rightarrow> 'v option" where
  "semverForSort L eco v =
     (if ToLower (TrimSpace eco) \<notin> set [''go'', ''npm'', ''pypi'', ''generic''] then None else ver_NewVersion L (TrimPrefix (TrimSpace v) ''v''))"

definition component_purl :: "SBOM \<Rightarrow> SBOMComponent \<Rightarrow> PURL \<times> bool" where
  "component_purl sbom c =
     (let eco = ToLower (TrimSpace (cp_Ecosystem c))
      in if eco \<noteq> [] \<and> TrimSpace (cp_ComponentName c) \<noteq> [] \<and> TrimSpace (cp_ComponentVersion c) \<noteq> []
         then (\<lparr>pu_Type = ''pkg'', pu_Ecosystem = eco, pu_Namespace = TrimSpace (cp_Namespace c), pu_Name = TrimSpace (cp_ComponentName c),
                pu_Version = TrimSpace (cp_ComponentVersion c), pu_Qualifiers = [(''arch'', TrimSpace (cp_Arch c))]\<rparr>, False)
         else case ParsePURL (cp_PURL c) of Inr p \<Rightarrow> (p, False) | Inl _ \<Rightarrow> (inferPURLFromComponent c (sb_OSName sbom), True))"

definition trust_level :: "bool \<Rightarrow> SBOMComponent \<Rightarrow> string" where
  "trust_level inferred c =
     (let level = ToLower (TrimSpace (cp_TrustLevel c)) in if inferred then ''low'' else if level = [] then ''high'' else level)"

definition identity_key :: "string \<Rightarrow> PURL \<Rightarrow> string" where
  "identity_key eco p =
     (let name = TrimSpace (pu_Name p); ns = TrimSpace (pu_Namespace p); arch = TrimSpace (qualifier p ''arch'');
          nameKey = (if eco = ''go'' then name
                     else if ns \<noteq> [] \<and> arch \<noteq> [] then ns @ '':'' @ arch @ ''/'' @ name
                     else if ns \<noteq> [] then ns @ ''/'' @ name
                     else if arch \<noteq> [] then '':'' @ arch @ ''/'' @ name else name)
      in eco @ '':'' @ ToLower nameKey)"

definition candidate_of :: "SBOM \<Rightarrow> SBOMComponent \<Rightarrow> Candidate" where
  "candidate_of sbom c =
     (let (p, inferred) = component_purl sbom c; eco = normalizeQueryEcosystemWithOS p (sb_OSName sbom)
      in \<lparr>cd_c = c, cd_p = p, cd_inferred = inferred, cd_eco = eco, cd_key = identity_key eco p, cd_pri = source_priority (cp_Source c)\<rparr>)"

definition fallback_less :: "Candidate \<Rightarrow> Candidate \<Rightarrow> bool" where
  "fallback_less a b \<longleftrightarrow>
     (let va = versionClass (cd_eco a) (pu_Version (cd_p a)); vb = versionClass (cd_eco b) (pu_Version (cd_p b))
      in if cd_pri a \<noteq> cd_pri b then cd_pri a > cd_pri b
         else if va \<noteq> vb then va > vb
         else if cd_key a \<noteq> cd_key b then string_less (cd_key a) (cd_key b)
         else string_less (cp_PURL (cd_c a)) (cp_PURL (cd_c b)))"

definition fallbackLimit :: nat where "fallbackLimit = 50"

definition trusted_candidates :: "MatcherEnv \<Rightarrow> Candidate list \<Rightarrow> Candidate list" where
  "trusted_candidates env cands =
     (if list_ex (\<lambda>cd. trust_level (cd_inferred cd) (cd_c cd) \<in> set [''high'', ''medium'']) cands
      then filter (\<lambda>cd. trust_level False (cd_c cd) \<noteq> ''low'') cands
      else if length cands > fallbackLimit then take fallbackLimit (sort_Slice env fallback_less cands) else cands)"

text \<open>Whether a candidate replaces the current winner of its key.\<close>

definition better_candidate :: "('d, 'r, 'v, 'c) VersionLibs \<Rightarrow> Candidate \<Rightarrow> Candidate \<Rightarrow> bool" where
  "better_candidate L cand cur =
     (let tr1 = trustRank (cp_TrustLevel (cd_c cand)); tr2 = trustRank (cp_TrustLevel (cd_c cur));
          purl_less = string_less (cp_PURL (cd_c cand)) (cp_PURL (cd_c cur))
      in if cd_pri cand \<noteq> cd_pri cur then cd_pri cand > cd_pri cur
         else if tr1 \<noteq> tr2 then tr1 > tr2
         else case (semverForSort L (cd_eco cand) (pu_Version (cd_p cand)), semverForSort L (cd_eco cur) (pu_Version (cd_p cur))) of
                (Some v1, Some v2) \<Rightarrow> if ver_Compare L v1 v2 > 0 then True else if ver_Compare L v2 v1 > 0 then False else purl_less
              | (None, None) \<Rightarrow>
                  if pu_Version (cd_p cand) \<noteq> pu_Version (cd_p cur) then string_less (pu_Version (cd_p cand)) (pu_Version (cd_p cur)) else purl_less
              | _ \<Rightarrow> purl_less)"

definition add_candidate :: "('d, 'r, 'v, 'c) VersionLibs \<Rightarrow> (string \<times> Candidate) list \<Rightarrow> Candidate \<Rightarrow> (string \<times> Candidate) list" where
  "add_candidate L groups cand =
     (case map_of groups (cd_key cand) of
        None \<Rightarrow> groups @ [(cd_key cand, cand)]
      | Some cur \<Rightarrow> if better_candidate L cand cur then AList.update (cd_key cand) cand groups else groups)"

definition component_less :: "SBOMComponent \<Rightarrow> SBOMComponent \<Rightarrow> bool" where
  "component_less a b \<longleftrightarrow>
     (if cp_PURL a \<noteq> cp_PURL b then string_less (cp_PURL a) (cp_PURL b) else string_less (cp_ComponentName a) (cp_ComponentName b))"

definition duplicate_key :: "SBOM \<Rightarrow> PURL \<Rightarrow> string" where
  "duplicate_key sbom p =
     normalizeQueryEcosystemWithOS p (sb_OSName sbom) @ '':'' @ ToLower (TrimSpace (pu_Namespace p)) @ '':'' @ ToLower (TrimSpace (qualifier p ''arch'')) @
     '':'' @ ToLower (TrimSpace (pu_Name p)) @ ''@'' @ TrimSpace (pu_Version p)"

fun drop_duplicates :: "SBOM \<Rightarrow> string list \<Rightarrow> SBOMComponent list \<Rightarrow> SBOMComponent list" where
  "drop_duplicates sbom seen [] = []"
| "drop_duplicates sbom seen (c # cs) =
     (case ParsePURL (cp_PURL c) of
        Inl _ \<Rightarrow> drop_duplicates sbom seen cs
      | Inr p \<Rightarrow> if duplicate_key sbom p \<in> set seen then drop_duplicates sbom seen cs else c # drop_duplicates sbom (duplicate_key sbom p # seen) cs)"

definition resolveComponentsForMatching :: "('d, 'r, 'v, 'c) VersionLibs \<Rightarrow> MatcherEnv \<Rightarrow> SBOM \<Rightarrow> SBOMComponent list \<Rightarrow> SBOMComponent list" where
  "resolveComponentsForMatching L env sbom components =
     (let cands = trusted_candidates env (map (candidate_of sbom) components);
          groups = foldl (add_candidate L) [] cands
      in drop_duplicates sbom [] (sort_Slice env component_less (map (cd_c \<circ> snd) groups)))"

subsection \<open>Findings\<close>

record CVEMatch =
  mt_ClusterID :: string
  mt_SBOMID :: nat
  mt_PodUID :: string
  mt_ContainerName :: string
  mt_CVEID :: string
  mt_PackageName :: string
  mt_PackageVersion :: string
  mt_PURL :: string
  mt_Severity :: string
  mt_CVSS :: rat
  mt_FixedVersion :: string
  mt_MatchedBy :: string
  mt_AdvisoryIDs :: "string list"
  mt_SeveritySource :: string
  mt_HasConstraint :: bool
  mt_ConstraintSatisfied :: bool
  mt_MatchedAt :: int

record MalwareMatch =
  mw_ClusterID :: string
  mw_SBOMID :: nat
  mw_PodUID :: string
  mw_Namespace :: string
  mw_ComponentID :: nat
  mw_PackageName :: string
  mw_PackageVersion :: string
  mw_Ecosystem :: string
  mw_Reason :: string
  mw_Confidence :: rat
  mw_Sources :: "string list"
  mw_AdvisoryIDs :: "string list"

definition severityTierBySource :: "string \<Rightarrow> nat" where
  "severityTierBySource src =
     (case map_of [(''vendor'', 1), (''advisory_cvss'', 2), (''nvd'', 3), (''cve_cvss'', 4), (''errata_cvss'', 5), (''default'', 6)] src of
        None \<Rightarrow> 0 | Some tier \<Rightarrow> tier)"

definition tierOrder :: "nat \<Rightarrow> nat" where
  "tierOrder tier = (if tier = 0 then 100 else tier)"

definition addAdvisoryID :: "string \<Rightarrow> CVEMatch \<Rightarrow> CVEMatch" where
  "addAdvisoryID id0 m =
     (let i = TrimSpace id0
      in if i = [] \<or> i = mt_CVEID m \<or> i \<in> set (mt_AdvisoryIDs m) then m else m\<lparr>mt_AdvisoryIDs := mt_AdvisoryIDs m @ [i]\<rparr>)"

definition set_rating_of :: "MatcherEnv \<Rightarrow> CVE \<Rightarrow> CVEMatch \<Rightarrow> CVEMatch" where
  "set_rating_of env c m = m\<lparr>mt_Severity := ToUpper (cv_Severity c), mt_CVSS := me_Float32 env (cv_CVSSScore c), mt_SeveritySource := cv_SeveritySource c\<rparr>"

definition rateMatch :: "MatcherEnv \<Rightarrow> CVE \<Rightarrow> CVEMatch \<Rightarrow> CVEMatch" where
  "rateMatch env c m = addAdvisoryID (cv_AdvisoryID c) (set_rating_of env c m)"

definition mergeMatch :: "MatcherEnv \<Rightarrow> CVE \<Rightarrow> CVEMatch \<Rightarrow> CVEMatch" where
  "mergeMatch env c m0 =
     (let m = addAdvisoryID (cv_AdvisoryID c) m0;
          have_tier = tierOrder (severityTierBySource (mt_SeveritySource m)); offered_tier = tierOrder (cv_SeverityTier c);
          m = (if offered_tier < have_tier \<or> offered_tier = have_tier \<and> Rank (cv_Severity c) > Rank (mt_Severity m) then set_rating_of env c m else m)
      in if TrimSpace (mt_FixedVersion m) = [] then m\<lparr>mt_FixedVersion := cv_FixedVersion c\<rparr> else m)"

definition new_match :: "MatcherEnv \<Rightarrow> SBOM \<Rightarrow> string \<Rightarrow> string \<Rightarrow> string \<Rightarrow> string \<Rightarrow> int \<Rightarrow> CVE \<Rightarrow> CVEMatch" where
  "new_match env sbom name version purl matchedBy matchedAt c = rateMatch env c
     \<lparr>mt_ClusterID = sb_ClusterID sbom, mt_SBOMID = sb_ID sbom, mt_PodUID = sb_PodUID sbom, mt_ContainerName = sb_ContainerName sbom, mt_CVEID = cv_ID c,
      mt_PackageName = name, mt_PackageVersion = version, mt_PURL = purl, mt_Severity = ToUpper (cv_Severity c), mt_CVSS = me_Float32 env (cv_CVSSScore c),
      mt_FixedVersion = cv_FixedVersion c, mt_MatchedBy = matchedBy, mt_AdvisoryIDs = [], mt_SeveritySource = [],
      mt_HasConstraint = (TrimSpace (cv_Constraint c) \<noteq> []), mt_ConstraintSatisfied = (TrimSpace (cv_Constraint c) \<noteq> []), mt_MatchedAt = matchedAt\<rparr>"

subsection \<open>Malicious packages found in the catalog\<close>

definition componentMalwareKey :: "string \<Rightarrow> string \<Rightarrow> string" where
  "componentMalwareKey name version = ToLower (TrimSpace name) @ '':'' @ TrimSpace version"

definition appendUnique :: "string list \<Rightarrow> string list \<Rightarrow> string list" where
  "appendUnique xs values = foldl (\<lambda>xs v0. let v = TrimSpace v0 in if v = [] \<or> v \<in> set xs then xs else xs @ [v]) xs values"

definition malwareEcosystemFromComponent :: "SBOMComponent \<Rightarrow> string" where
  "malwareEcosystemFromComponent c = (case ParsePURL (TrimSpace (cp_PURL c)) of Inl _ \<Rightarrow> [] | Inr p \<Rightarrow> ToLower (TrimSpace (pu_Ecosystem p)))"

definition osvMalwareConfidence :: rat where "osvMalwareConfidence = 9 / 10"

definition new_malware :: "SBOM \<Rightarrow> SBOMComponent \<Rightarrow> PURL \<Rightarrow> MalwareMatch" where
  "new_malware sbom c purl =
     (let eco = malwareEcosystemFromComponent c
      in \<lparr>mw_ClusterID = sb_ClusterID sbom, mw_SBOMID = sb_ID sbom, mw_PodUID = sb_PodUID sbom, mw_Namespace = sb_Namespace sbom, mw_ComponentID = cp_ID c,
          mw_PackageName = cp_ComponentName c, mw_PackageVersion = cp_ComponentVersion c,
          mw_Ecosystem = (if eco = [] then ToLower (TrimSpace (pu_Ecosystem purl)) else eco), mw_Reason = ''MALWARE'', mw_Confidence = osvMalwareConfidence,
          mw_Sources = [''osv''], mw_AdvisoryIDs = []\<rparr>)"

definition catalogMalware_add :: "SBOM \<Rightarrow> SBOMComponent \<Rightarrow> PURL \<Rightarrow> CVE \<Rightarrow> (string \<times> MalwareMatch) list \<Rightarrow> (string \<times> MalwareMatch) list" where
  "catalogMalware_add sbom c purl adv byKey =
     (let key = componentMalwareKey (cp_ComponentName c) (cp_ComponentVersion c);
          mm = (case map_of byKey key of None \<Rightarrow> new_malware sbom c purl | Some mm \<Rightarrow> mm)
      in AList.update key (mm\<lparr>mw_AdvisoryIDs := appendUnique (mw_AdvisoryIDs mm) [cv_ID adv]\<rparr>) byKey)"

definition malware_less :: "MalwareMatch \<Rightarrow> MalwareMatch \<Rightarrow> bool" where
  "malware_less a b \<longleftrightarrow>
     (if mw_PackageName a \<noteq> mw_PackageName b then string_less (mw_PackageName a) (mw_PackageName b) else string_less (mw_PackageVersion a) (mw_PackageVersion b))"

definition catalogMalware_matches :: "MatcherEnv \<Rightarrow> (string \<times> MalwareMatch) list \<Rightarrow> MalwareMatch list" where
  "catalogMalware_matches env byKey =
     sort_Slice env malware_less (map (\<lambda>km. (snd km)\<lparr>mw_AdvisoryIDs := sort_strings (mw_AdvisoryIDs (snd km))\<rparr>) byKey)"

subsection \<open>One candidate against its advisories\<close>

definition severityRank :: "string \<Rightarrow> nat" where
  "severityRank sev =
     (let s = ToUpper (TrimSpace sev)
      in if s = ''CRITICAL'' then 4 else if s = ''HIGH'' then 3 else if s = ''MEDIUM'' then 2 else if s = ''LOW'' then 1 else 0)"

definition cve_less :: "CVE \<Rightarrow> CVE \<Rightarrow> bool" where
  "cve_less a b \<longleftrightarrow>
     (if severityRank (cv_Severity a) \<noteq> severityRank (cv_Severity b) then severityRank (cv_Severity a) > severityRank (cv_Severity b)
      else if cv_CVSSScore a \<noteq> cv_CVSSScore b then cv_CVSSScore a > cv_CVSSScore b else string_less (cv_ID a) (cv_ID b))"

text \<open>
  What a run collects: the findings in the order they are made, how many each component has, and the malicious packages. Findings are
  shared by pointers: the maps of findings by identifier hold their positions.
\<close>

record MatchState =
  ms_matches :: "CVEMatch list"
  ms_counts :: "(string \<times> nat) list"
  ms_malware :: "(string \<times> MalwareMatch) list"

definition maxMatchesPerComponent :: nat where "maxMatchesPerComponent = 25"

definition compKey :: "SBOMComponent \<Rightarrow> string" where
  "compKey c = ToLower (TrimSpace (cp_ComponentName c)) @ ''|'' @ TrimSpace (cp_ComponentVersion c)"

definition count_of :: "MatchState \<Rightarrow> string \<Rightarrow> nat" where
  "count_of st key = (case map_of (ms_counts st) key of None \<Rightarrow> 0 | Some n \<Rightarrow> n)"

definition unknownVersion :: "SBOMComponent \<Rightarrow> bool" where
  "unknownVersion c \<longleftrightarrow> EqualFold (TrimSpace (cp_ComponentVersion c)) ''unknown''"

definition core_matcher :: string where "core_matcher = ''fortuna-core-cve-matcher''"

definition component_match :: "MatcherEnv \<Rightarrow> SBOM \<Rightarrow> SBOMComponent \<Rightarrow> string \<Rightarrow> CVE \<Rightarrow> CVEMatch" where
  "component_match env sbom c matchedBy cveData =
     new_match env sbom (cp_ComponentName c) (cp_ComponentVersion c) (cp_PURL c) matchedBy (cp_CreatedAt c) cveData"

definition consider_cve ::
  "('d, 'r, 'v, 'c) VersionLibs \<Rightarrow> MatcherEnv \<Rightarrow> SBOM \<Rightarrow> string \<Rightarrow> SBOMComponent \<Rightarrow> PURL \<Rightarrow> CVE \<Rightarrow> (string \<times> nat) list \<times> MatchState \<Rightarrow>
   (string \<times> nat) list \<times> MatchState" where
  "consider_cve L env sbom ecosystem c purl cveData fs =
     (case fs of (findings, st) \<Rightarrow>
        let existing = map_of findings (cv_ID cveData)
        in if \<not> cveAppliesToRelease ecosystem (cv_Release cveData) (componentDistroRelease ecosystem purl sbom) then (findings, st)
           else if \<not> isCVEApplicableToPackageArch cveData purl then (findings, st)
           else if existing = None \<and> cv_Kind cveData \<noteq> ''malware'' \<and> count_of st (compKey c) \<ge> maxMatchesPerComponent then (findings, st)
           else if unknownVersion c \<and> TrimSpace (cv_Constraint cveData) = [] \<and> severityRank (cv_Severity cveData) < 3 then (findings, st)
           else if TrimSpace (cv_Constraint cveData) = [] then (findings, st)
           else case IsVulnerable L (effectiveVersionForComparison (cp_ComponentVersion c) purl) (cv_Constraint cveData)
                       (comparatorEcosystemForBulkBatch purl ecosystem) of
                  Inl _ \<Rightarrow> (findings, st)
                | Inr False \<Rightarrow> (findings, st)
                | Inr True \<Rightarrow>
                    if cv_Kind cveData = ''malware'' then (findings, st\<lparr>ms_malware := catalogMalware_add sbom c purl cveData (ms_malware st)\<rparr>)
                    else case existing of
                           Some i \<Rightarrow> (findings, st\<lparr>ms_matches := (ms_matches st)[i := mergeMatch env cveData (ms_matches st ! i)]\<rparr>)
                         | None \<Rightarrow>
                             (AList.update (cv_ID cveData) (length (ms_matches st)) findings,
                              st\<lparr>ms_matches := ms_matches st @
                                   [component_match env sbom c (if unknownVersion c then core_matcher @ ''-low-confidence'' else core_matcher) cveData],
                                 ms_counts := AList.update (compKey c) (count_of st (compKey c) + 1) (ms_counts st)\<rparr>))"

definition match_candidate ::
  "('d, 'r, 'v, 'c) VersionLibs \<Rightarrow> MatcherEnv \<Rightarrow> SBOM \<Rightarrow> string \<Rightarrow> CVE list \<Rightarrow> SBOMComponent \<times> PURL \<Rightarrow> MatchState \<Rightarrow> MatchState" where
  "match_candidate L env sbom ecosystem cves cand st = snd (fold (consider_cve L env sbom ecosystem (fst cand) (snd cand)) cves ([], st))"

definition consider_go_cve ::
  "('d, 'r, 'v, 'c) VersionLibs \<Rightarrow> MatcherEnv \<Rightarrow> SBOM \<Rightarrow> SBOMComponent \<Rightarrow> PURL \<Rightarrow> CVE \<Rightarrow> ((string \<times> string) \<times> nat) list \<times> MatchState \<Rightarrow>
   ((string \<times> string) \<times> nat) list \<times> MatchState" where
  "consider_go_cve L env sbom c purl cveData fs =
     (case fs of (seenMatch, st) \<Rightarrow>
        let dedupKey = cp_PURL c @ ''|'' @ cp_ComponentVersion c @ ''|'' @ cp_ComponentName c
        in if TrimSpace (cv_Constraint cveData) = [] then (seenMatch, st)
           else case IsVulnerable L (effectiveVersionForComparison (cp_ComponentVersion c) purl) (cv_Constraint cveData) (pu_Ecosystem purl) of
                  Inl _ \<Rightarrow> (seenMatch, st)
                | Inr False \<Rightarrow> (seenMatch, st)
                | Inr True \<Rightarrow>
                    if cv_Kind cveData = ''malware'' then (seenMatch, st\<lparr>ms_malware := catalogMalware_add sbom c purl cveData (ms_malware st)\<rparr>)
                    else case map_of seenMatch (dedupKey, cv_ID cveData) of
                           Some i \<Rightarrow> (seenMatch, st\<lparr>ms_matches := (ms_matches st)[i := mergeMatch env cveData (ms_matches st ! i)]\<rparr>)
                         | None \<Rightarrow> (AList.update (dedupKey, cv_ID cveData) (length (ms_matches st)) seenMatch,
                                    st\<lparr>ms_matches := ms_matches st @ [component_match env sbom c core_matcher cveData]\<rparr>))"

subsection \<open>Grouping the components\<close>

definition lookup_list :: "('k \<times> 'v list) list \<Rightarrow> 'k \<Rightarrow> 'v list" where
  "lookup_list m k = (case map_of m k of None \<Rightarrow> [] | Some vs \<Rightarrow> vs)"

definition append_to :: "'k \<Rightarrow> 'v \<Rightarrow> ('k \<times> 'v list) list \<Rightarrow> ('k \<times> 'v list) list" where
  "append_to k v m = AList.update k (lookup_list m k @ [v]) m"

definition insert_to :: "'k \<Rightarrow> 'v \<Rightarrow> ('k \<times> 'v list) list \<Rightarrow> ('k \<times> 'v list) list" where
  "insert_to k v m = AList.update k (List.insert v (lookup_list m k)) m"

record Grouped =
  gr_packages :: "(string \<times> string list) list"
  gr_candidates :: "(string \<times> (SBOMComponent \<times> PURL) list) list"
  gr_go :: "(string \<times> (SBOMComponent \<times> PURL) list) list"

text \<open>The ecosystem, the package and the PURL a component is asked for.\<close>

definition component_view :: "MatcherEnv \<Rightarrow> SBOM \<Rightarrow> SBOMComponent \<Rightarrow> string \<times> string \<times> PURL" where
  "component_view env sbom c =
     (let purl = (case ParsePURL (cp_PURL c) of Inr p \<Rightarrow> p | Inl _ \<Rightarrow> inferPURLFromComponent c (sb_OSName sbom));
          queryEcosystem = normalizeQueryEcosystemWithOS purl (sb_OSName sbom);
          src = fst (distroSourcePackage (Some purl));
          componentKey = (if isDistroSourceKeyed purl
                          then (if src \<noteq> [] then src else if TrimSpace (pu_Name purl) \<noteq> [] then TrimSpace (pu_Name purl) else cp_ComponentName c)
                          else cp_ComponentName c)
      in case me_K8s env (ToLower (TrimSpace (cp_ComponentName c))) of
           Some (modulePrefix, _) \<Rightarrow>
             if modulePrefix \<noteq> [] then (''go'', modulePrefix, purl\<lparr>pu_Name := modulePrefix, pu_Ecosystem := ''go''\<rparr>)
             else (queryEcosystem, componentKey, purl)
         | None \<Rightarrow> (queryEcosystem, componentKey, purl))"

definition go_names :: "MatcherEnv \<Rightarrow> PURL \<Rightarrow> string list" where
  "go_names env purl =
     concat (map (\<lambda>p. let candidates = ResolveGoModuleAliasCandidates (me_Aliases env) p in if candidates = [] then [p] else candidates)
       (normalizeGoModulePrefixes (TrimSpace (pu_Name purl))))"

definition group_component :: "MatcherEnv \<Rightarrow> SBOM \<Rightarrow> SBOMComponent \<Rightarrow> Grouped \<Rightarrow> Grouped" where
  "group_component env sbom c g =
     (if isDistrolessHeuristicJunk c then g
      else case component_view env sbom c of (queryEcosystem, componentKey, purl) \<Rightarrow>
        if queryEcosystem = ''go'' then g\<lparr>gr_go := fold (\<lambda>resolved m. append_to resolved (c, purl) m) (go_names env purl) (gr_go g)\<rparr>
        else g\<lparr>gr_packages := insert_to queryEcosystem componentKey (gr_packages g),
               gr_candidates := append_to (queryEcosystem @ ''|'' @ componentKey) (c, purl) (gr_candidates g)\<rparr>)"

definition group_components :: "MatcherEnv \<Rightarrow> SBOM \<Rightarrow> SBOMComponent list \<Rightarrow> Grouped" where
  "group_components env sbom cs = fold (group_component env sbom) cs \<lparr>gr_packages = [], gr_candidates = [], gr_go = []\<rparr>"

text \<open>
  A generic component is also asked for in the feeds of likely distributions. The loop runs over a map: packages of a feed that the SBOM
  names itself replace what the fallback had put there before.
\<close>

definition expand_ecosystem :: "SBOM \<Rightarrow> (string \<times> string list) list \<Rightarrow> string \<Rightarrow> (string \<times> string list) list \<Rightarrow> (string \<times> string list) list" where
  "expand_ecosystem sbom packages eco m =
     (let m = AList.update eco (lookup_list packages eco) m
      in if eco = ''generic''
         then fold (\<lambda>fallbackEco m. AList.update fallbackEco (fold List.insert (lookup_list packages eco) (lookup_list m fallbackEco)) m)
                (likelyDistroEcosystemsForGenericSBOM (sb_OSName sbom)) m
         else m)"

definition expandedEcosystems :: "MatcherEnv \<Rightarrow> SBOM \<Rightarrow> (string \<times> string list) list \<Rightarrow> (string \<times> string list) list" where
  "expandedEcosystems env sbom packages = fold (expand_ecosystem sbom packages) (me_Order env ''ecosystemPackages'' (map fst packages)) []"

subsection \<open>The passes over the answers of the manager\<close>

definition sort_cves :: "CVE list \<Rightarrow> CVE list" where
  "sort_cves cves = SliceStable cve_less cves"

definition go_pass ::
  "('d, 'r, 'v, 'c) VersionLibs \<Rightarrow> MatcherEnv \<Rightarrow> SBOM \<Rightarrow> (string \<times> (SBOMComponent \<times> PURL) list) list \<Rightarrow> (string \<times> CVE list) list \<Rightarrow> MatchState \<Rightarrow> MatchState" where
  "go_pass L env sbom goPairs packageCVEs st =
     snd (fold (\<lambda>resolvedName. fold (\<lambda>pair. fold (consider_go_cve L env sbom (fst pair) (snd pair)) (sort_cves (lookup_list packageCVEs resolvedName)))
                   (lookup_list goPairs resolvedName))
            (me_Order env ''packageCVEs go'' (map fst packageCVEs)) ([], st))"

definition candidates_for :: "(string \<times> (SBOMComponent \<times> PURL) list) list \<Rightarrow> string \<Rightarrow> string \<Rightarrow> (SBOMComponent \<times> PURL) list" where
  "candidates_for cands ecosystem pkgName =
     (let own = lookup_list cands (ecosystem @ ''|'' @ pkgName) in if own = [] then lookup_list cands (''generic|'' @ pkgName) else own)"

definition ecosystem_pass ::
  "('d, 'r, 'v, 'c) VersionLibs \<Rightarrow> MatcherEnv \<Rightarrow> SBOM \<Rightarrow> (string \<times> (SBOMComponent \<times> PURL) list) list \<Rightarrow> string \<Rightarrow> (string \<times> CVE list) list \<Rightarrow>
   MatchState \<Rightarrow> MatchState" where
  "ecosystem_pass L env sbom cands ecosystem packageCVEs st =
     fold (\<lambda>pkgName. fold (match_candidate L env sbom ecosystem (sort_cves (lookup_list packageCVEs pkgName))) (candidates_for cands ecosystem pkgName))
       (me_Order env (''packageCVEs '' @ ecosystem) (map fst packageCVEs)) st"

text \<open>A run: the state of the manager, whether every query succeeded, and what was found.\<close>

type_synonym 'q ask = "string \<Rightarrow> string list \<Rightarrow> 'q \<Rightarrow> (string \<times> CVE list) list option \<times> 'q"

type_synonym 'q run = "'q \<times> bool \<times> MatchState"

definition query_go ::
  "('d, 'r, 'v, 'c) VersionLibs \<Rightarrow> MatcherEnv \<Rightarrow> SBOM \<Rightarrow> 'q ask \<Rightarrow> (string \<times> (SBOMComponent \<times> PURL) list) list \<Rightarrow> 'q run \<Rightarrow> 'q run" where
  "query_go L env sbom ask goPairs r =
     (case r of (q, ok, st) \<Rightarrow>
        if goPairs = [] then (q, ok, st)
        else case ask ''go'' (me_Order env ''goResolvedNames'' (map fst goPairs)) q of
               (None, q) \<Rightarrow> (q, False, st)
             | (Some packageCVEs, q) \<Rightarrow> (q, ok, go_pass L env sbom goPairs packageCVEs st))"

definition query_ecosystem ::
  "('d, 'r, 'v, 'c) VersionLibs \<Rightarrow> MatcherEnv \<Rightarrow> SBOM \<Rightarrow> 'q ask \<Rightarrow> (string \<times> (SBOMComponent \<times> PURL) list) list \<Rightarrow> (string \<times> string list) list \<Rightarrow>
   string \<Rightarrow> 'q run \<Rightarrow> 'q run" where
  "query_ecosystem L env sbom ask cands expanded ecosystem r =
     (case r of (q, ok, st) \<Rightarrow>
        case ask ecosystem (me_Order env (''packageSet '' @ ecosystem) (lookup_list expanded ecosystem)) q of
          (None, q) \<Rightarrow> (q, False, st)
        | (Some packageCVEs, q) \<Rightarrow> (q, ok, ecosystem_pass L env sbom cands ecosystem packageCVEs st))"

definition query_ecosystems ::
  "('d, 'r, 'v, 'c) VersionLibs \<Rightarrow> MatcherEnv \<Rightarrow> SBOM \<Rightarrow> 'q ask \<Rightarrow> (string \<times> (SBOMComponent \<times> PURL) list) list \<Rightarrow> (string \<times> string list) list \<Rightarrow>
   'q run \<Rightarrow> 'q run" where
  "query_ecosystems L env sbom ask cands packages =
     (let expanded = expandedEcosystems env sbom packages
      in fold (query_ecosystem L env sbom ask cands expanded) (me_Order env ''expandedEcosystems'' (map fst expanded)))"

definition stdlib_matcher :: string where "stdlib_matcher = ''fortuna-go-stdlib-matcher''"

definition consider_stdlib ::
  "('d, 'r, 'v, 'c) VersionLibs \<Rightarrow> MatcherEnv \<Rightarrow> SBOM \<Rightarrow> string \<Rightarrow> CVE \<Rightarrow> (string \<times> nat) list \<times> CVEMatch list \<Rightarrow> (string \<times> nat) list \<times> CVEMatch list" where
  "consider_stdlib L env sbom v cveData fs =
     (case fs of (findings, matches) \<Rightarrow>
        case IsVulnerable L v (cv_Constraint cveData) ''go'' of
          Inl _ \<Rightarrow> (findings, matches)
        | Inr False \<Rightarrow> (findings, matches)
        | Inr True \<Rightarrow>
            (case map_of findings (cv_ID cveData) of
               Some i \<Rightarrow> (findings, matches[i := mergeMatch env cveData (matches ! i)])
             | None \<Rightarrow> (AList.update (cv_ID cveData) (length matches) findings,
                        matches @ [new_match env sbom ''stdlib'' v [] stdlib_matcher (me_Now env) cveData])))"

definition stdlib_version :: "SBOM \<Rightarrow> string" where
  "stdlib_version sbom = TrimPrefix (TrimSpace (sb_GoVersion sbom)) ''go''"

definition matchGoStdlib :: "('d, 'r, 'v, 'c) VersionLibs \<Rightarrow> MatcherEnv \<Rightarrow> SBOM \<Rightarrow> 'q ask \<Rightarrow> 'q run \<Rightarrow> 'q run" where
  "matchGoStdlib L env sbom ask r =
     (case r of (q, ok, st) \<Rightarrow>
        if TrimSpace (sb_GoVersion sbom) = [] then (q, ok, st)
        else case GetGoStdlibVulns ask q of
               (None, q) \<Rightarrow> (q, False, st)
             | (Some cves, q) \<Rightarrow>
                 let cves = (if me_StdlibSorted env then sort_cves cves else cves)
                 in (q, ok, st\<lparr>ms_matches := snd (fold (consider_stdlib L env sbom (stdlib_version sbom)) cves ([], ms_matches st))\<rparr>))"

definition match_less :: "CVEMatch \<Rightarrow> CVEMatch \<Rightarrow> bool" where
  "match_less a b \<longleftrightarrow>
     (if mt_PackageName a \<noteq> mt_PackageName b then string_less (mt_PackageName a) (mt_PackageName b)
      else if mt_PackageVersion a \<noteq> mt_PackageVersion b then string_less (mt_PackageVersion a) (mt_PackageVersion b)
      else if mt_CVEID a \<noteq> mt_CVEID b then string_less (mt_CVEID a) (mt_CVEID b)
      else string_less (mt_PURL a) (mt_PURL b))"

definition matchable_status :: "SBOM \<Rightarrow> bool" where
  "matchable_status sbom \<longleftrightarrow> ToLower (TrimSpace (sb_Status sbom)) \<in> set [[], ''complete'', ''partial'', ''finalized'']"

definition empty_state :: MatchState where
  "empty_state = \<lparr>ms_matches = [], ms_counts = [], ms_malware = []\<rparr>"

text \<open>\<open>componentsOverride\<close> is the snapshot, \<open>stored\<close> what the database returns otherwise, \<open>None\<close> if the query fails.\<close>

definition matchSBOM ::
  "('d, 'r, 'v, 'c) VersionLibs \<Rightarrow> MatcherEnv \<Rightarrow> 'q ask \<Rightarrow> SBOM \<Rightarrow> SBOMComponent list option \<Rightarrow> SBOMComponent list option \<Rightarrow> 'q \<Rightarrow>
   CVEMatch list option \<times> 'q run" where
  "matchSBOM L env ask sbom componentsOverride stored q =
     (if \<not> matchable_status sbom then (Some [], q, False, empty_state)
      else case (if componentsOverride = None then stored else componentsOverride) of
             None \<Rightarrow> (None, q, True, empty_state)
           | Some components \<Rightarrow>
               let g = group_components env sbom (resolveComponentsForMatching L env sbom components);
                   r = matchGoStdlib L env sbom ask
                         (query_ecosystems L env sbom ask (gr_candidates g) (gr_packages g)
                            (query_go L env sbom ask (gr_go g) (q, True, empty_state)))
               in (Some (sort_Slice env match_less (ms_matches (snd (snd r)))), r))"

record Findings =
  fi_matches :: "CVEMatch list"
  fi_malware :: "MalwareMatch list"
  fi_complete :: bool
  fi_failed :: bool

definition MatchSBOMFindings ::
  "('d, 'r, 'v, 'c) VersionLibs \<Rightarrow> MatcherEnv \<Rightarrow> 'q ask \<Rightarrow> SBOM \<Rightarrow> SBOMComponent list option \<Rightarrow> SBOMComponent list option \<Rightarrow> 'q \<Rightarrow>
   Findings \<times> 'q" where
  "MatchSBOMFindings L env ask sbom componentsOverride stored q =
     (case matchSBOM L env ask sbom componentsOverride stored q of
        (matches, q, ok, st) \<Rightarrow>
          (\<lparr>fi_matches = (case matches of None \<Rightarrow> [] | Some ms \<Rightarrow> ms), fi_malware = catalogMalware_matches env (ms_malware st),
            fi_complete = (ok \<and> matches \<noteq> None), fi_failed = (matches = None)\<rparr>, q))"

definition MatchSBOMComplete ::
  "('d, 'r, 'v, 'c) VersionLibs \<Rightarrow> MatcherEnv \<Rightarrow> 'q ask \<Rightarrow> SBOM \<Rightarrow> SBOMComponent list option \<Rightarrow> SBOMComponent list option \<Rightarrow> 'q \<Rightarrow>
   (CVEMatch list \<times> bool \<times> bool) \<times> 'q" where
  "MatchSBOMComplete L env ask sbom componentsOverride stored q =
     (let (f, q) = MatchSBOMFindings L env ask sbom componentsOverride stored q in ((fi_matches f, fi_complete f, fi_failed f), q))"

definition MatchSBOM ::
  "('d, 'r, 'v, 'c) VersionLibs \<Rightarrow> MatcherEnv \<Rightarrow> 'q ask \<Rightarrow> SBOM \<Rightarrow> SBOMComponent list option \<Rightarrow> SBOMComponent list option \<Rightarrow> 'q \<Rightarrow>
   (CVEMatch list \<times> bool) \<times> 'q" where
  "MatchSBOM L env ask sbom componentsOverride stored q =
     (let ((matches, _, failed), q) = MatchSBOMComplete L env ask sbom componentsOverride stored q in ((matches, failed), q))"


end
