(* ===== verification/Cve_Match_Run.thy ===== *)
theory Cve_Match_Run
  imports Cve_Matcher
begin

section \<open>What the matcher reports\<close>

text \<open>
  The loop over the advisories of one component is compared with a plain reading of its comment: each vulnerability that applies is
  reported once, with the ranges that apply merged, up to the cap. From this follow the cap over a whole run, which vulnerabilities the
  cap leaves out, and that nothing is lost below it. The justification of every finding is proved once for any manager that answers with
  candidates it offers, and holds for the manager of the catalog.
\<close>

subsection \<open>An SBOM for the witnesses\<close>

definition deb_env :: MatcherEnv where
  "deb_env = \<lparr>me_Order = (\<lambda>place keys. keys), me_Shuffle = (\<lambda>n. [0..<n]), me_K8s = (\<lambda>name. None), me_Aliases = Some [], me_Now = 0,
     me_Float32 = (\<lambda>x. x), me_StdlibSorted = False\<rparr>"

definition deb_sbom :: SBOM where
  "deb_sbom = \<lparr>sb_ID = 1, sb_ClusterID = ''c'', sb_PodUID = ''u'', sb_Namespace = ''n'', sb_ContainerName = ''x'', sb_OSName = ''Debian GNU/Linux'',
     sb_OSVersion = ''12'', sb_GoVersion = [], sb_Status = ''complete''\<rparr>"

definition deb_component :: SBOMComponent where
  "deb_component = \<lparr>cp_ID = 7, cp_ComponentName = ''p'', cp_ComponentVersion = ''5'', cp_PURL = ''pkg:deb/debian/p@5'', cp_TrustLevel = [],
     cp_Source = ''dpkg'', cp_CreatedAt = 0, cp_Ecosystem = [], cp_Namespace = [], cp_Arch = []\<rparr>"

definition deb_range :: "string \<Rightarrow> string \<Rightarrow> string \<Rightarrow> nat \<Rightarrow> CVE" where
  "deb_range i advisory severity tier = \<lparr>cv_ID = i, cv_Constraint = ''<9'', cv_FixedVersion = ''9'', cv_Release = ''12'', cv_AdvisoryID = advisory,
     cv_Kind = ''vulnerability'', cv_Severity = severity, cv_CVSSScore = 0, cv_SeverityTier = tier, cv_SeveritySource = severitySourceNames tier\<rparr>"




definition deb_purl :: PURL where
  "deb_purl = plain_purl ''deb'' ''p'' ''5''"

definition almost_full :: MatchState where
  "almost_full = \<lparr>ms_matches = [], ms_counts = [(compKey deb_component, 24)], ms_malware = []\<rparr>"

subsection \<open>One component\<close>

definition range_applies :: "('d, 'r, 'v, 'c) VersionLibs \<Rightarrow> SBOM \<Rightarrow> string \<Rightarrow> SBOMComponent \<Rightarrow> PURL \<Rightarrow> CVE \<Rightarrow> bool" where
  "range_applies L sbom eco c purl x \<longleftrightarrow>
     cveAppliesToRelease eco (cv_Release x) (componentDistroRelease eco purl sbom) \<and> isCVEApplicableToPackageArch x purl \<and>
     TrimSpace (cv_Constraint x) \<noteq> [] \<and>
     IsVulnerable L (effectiveVersionForComparison (cp_ComponentVersion c) purl) (cv_Constraint x) (comparatorEcosystemForBulkBatch purl eco) = Inr True"

definition vulnerable_ranges :: "('d, 'r, 'v, 'c) VersionLibs \<Rightarrow> SBOM \<Rightarrow> string \<Rightarrow> SBOMComponent \<times> PURL \<Rightarrow> CVE list \<Rightarrow> CVE list" where
  "vulnerable_ranges L sbom eco cand cves = filter (\<lambda>x. range_applies L sbom eco (fst cand) (snd cand) x \<and> cv_Kind x \<noteq> ''malware'') cves"

definition malicious_ranges :: "('d, 'r, 'v, 'c) VersionLibs \<Rightarrow> SBOM \<Rightarrow> string \<Rightarrow> SBOMComponent \<times> PURL \<Rightarrow> CVE list \<Rightarrow> CVE list" where
  "malicious_ranges L sbom eco cand cves = filter (\<lambda>x. range_applies L sbom eco (fst cand) (snd cand) x \<and> cv_Kind x = ''malware'') cves"

text \<open>Identifiers in the order they first occur.\<close>

definition first_cve_ids :: "CVE list \<Rightarrow> string list" where
  "first_cve_ids xs = rev (remdups (rev (map cv_ID xs)))"

definition matched_by :: "SBOMComponent \<Rightarrow> string" where
  "matched_by c = (if unknownVersion c then core_matcher @ ''-low-confidence'' else core_matcher)"

text \<open>The finding of one vulnerability: made from the first range that applies, the others merged into it.\<close>

definition merged_finding :: "MatcherEnv \<Rightarrow> SBOM \<Rightarrow> SBOMComponent \<Rightarrow> CVE list \<Rightarrow> string \<Rightarrow> CVEMatch" where
  "merged_finding env sbom c xs i =
     (case filter (\<lambda>x. cv_ID x = i) xs of
        [] \<Rightarrow> component_match env sbom c (matched_by c) (hd xs)
      | x # xs2 \<Rightarrow> fold (mergeMatch env) xs2 (component_match env sbom c (matched_by c) x))"

definition kept_ids :: "MatchState \<Rightarrow> SBOMComponent \<Rightarrow> CVE list \<Rightarrow> string list" where
  "kept_ids st c xs = take (maxMatchesPerComponent - count_of st (compKey c)) (first_cve_ids xs)"

lemma first_cve_ids_simps [simp]:
  "first_cve_ids [] = []"
  "first_cve_ids (xs @ [x]) = (if cv_ID x \<in> cv_ID ` set xs then first_cve_ids xs else first_cve_ids xs @ [cv_ID x])"
  "set (first_cve_ids xs) = cv_ID ` set xs"
  "distinct (first_cve_ids xs)"
  by (simp_all add: first_cve_ids_def)

lemma vulnerable_ranges_simps [simp]:
  "vulnerable_ranges L sbom eco cand [] = []"
  "vulnerable_ranges L sbom eco cand (xs @ ys) = vulnerable_ranges L sbom eco cand xs @ vulnerable_ranges L sbom eco cand ys"
  "vulnerable_ranges L sbom eco cand [x] =
     (if range_applies L sbom eco (fst cand) (snd cand) x \<and> cv_Kind x \<noteq> ''malware'' then [x] else [])"
  by (simp_all add: vulnerable_ranges_def)

lemma malicious_ranges_simps [simp]:
  "malicious_ranges L sbom eco cand [] = []"
  "malicious_ranges L sbom eco cand (xs @ ys) = malicious_ranges L sbom eco cand xs @ malicious_ranges L sbom eco cand ys"
  "malicious_ranges L sbom eco cand [x] =
     (if range_applies L sbom eco (fst cand) (snd cand) x \<and> cv_Kind x = ''malware'' then [x] else [])"
  by (simp_all add: malicious_ranges_def)

lemma merged_finding_other: "cv_ID x \<noteq> i \<Longrightarrow> i \<in> cv_ID ` set xs \<Longrightarrow> merged_finding env sbom c (xs @ [x]) i = merged_finding env sbom c xs i"
  by (auto simp: merged_finding_def filter_empty_conv split: list.splits)

lemma merged_finding_more:
  assumes "cv_ID x \<in> cv_ID ` set xs"
  shows "merged_finding env sbom c (xs @ [x]) (cv_ID x) = mergeMatch env x (merged_finding env sbom c xs (cv_ID x))"
proof -
  have "filter (\<lambda>y. cv_ID y = cv_ID x) xs \<noteq> []" using assms by (auto simp: filter_empty_conv)
  then obtain y ys where "filter (\<lambda>y. cv_ID y = cv_ID x) xs = y # ys" by (cases "filter (\<lambda>y. cv_ID y = cv_ID x) xs") auto
  then show ?thesis by (simp add: merged_finding_def)
qed

lemma merged_finding_new: "cv_ID x \<notin> cv_ID ` set xs \<Longrightarrow>
   merged_finding env sbom c (xs @ [x]) (cv_ID x) = component_match env sbom c (matched_by c) x"
proof -
  assume "cv_ID x \<notin> cv_ID ` set xs"
  then have "filter (\<lambda>y. cv_ID y = cv_ID x) xs = []" unfolding filter_empty_conv by (metis image_eqI)
  then show ?thesis by (simp add: merged_finding_def)
qed

text \<open>What the loop does with one range.\<close>

lemma consider_skip: "\<not> range_applies L sbom eco c purl x \<Longrightarrow> consider_cve L env sbom eco c purl x (f, st) = (f, st)"
  by (auto simp: consider_cve_def range_applies_def Let_def split: sum.splits bool.splits)

lemma consider_malware: "range_applies L sbom eco c purl x \<Longrightarrow> cv_Kind x = ''malware'' \<Longrightarrow>
   consider_cve L env sbom eco c purl x (f, st) = (f, st\<lparr>ms_malware := catalogMalware_add sbom c purl x (ms_malware st)\<rparr>)"
  by (simp add: consider_cve_def range_applies_def)

lemma consider_again: "range_applies L sbom eco c purl x \<Longrightarrow> cv_Kind x \<noteq> ''malware'' \<Longrightarrow> map_of f (cv_ID x) = Some i \<Longrightarrow>
   consider_cve L env sbom eco c purl x (f, st) = (f, st\<lparr>ms_matches := (ms_matches st)[i := mergeMatch env x (ms_matches st ! i)]\<rparr>)"
  by (simp add: consider_cve_def range_applies_def)

lemma consider_new: "range_applies L sbom eco c purl x \<Longrightarrow> cv_Kind x \<noteq> ''malware'' \<Longrightarrow> map_of f (cv_ID x) = None \<Longrightarrow>
   consider_cve L env sbom eco c purl x (f, st) =
     (if count_of st (compKey c) \<ge> maxMatchesPerComponent then (f, st)
      else (AList.update (cv_ID x) (length (ms_matches st)) f,
            st\<lparr>ms_matches := ms_matches st @ [component_match env sbom c (matched_by c) x],
               ms_counts := AList.update (compKey c) (count_of st (compKey c) + 1) (ms_counts st)\<rparr>))"
  by (simp add: consider_cve_def range_applies_def matched_by_def)

lemma update_new_key: "k \<notin> fst ` set al \<Longrightarrow> AList.update k v al = al @ [(k, v)]"
  by (induction al) auto

lemma count_of_update [simp]: "count_of (st\<lparr>ms_matches := ms, ms_counts := AList.update k n (ms_counts st)\<rparr>) key = (if key = k then n else count_of st key)"
  by (simp add: count_of_def AList.update_conv')

lemma count_of_frame [simp]: "count_of (st\<lparr>ms_matches := ms\<rparr>) key = count_of st key" "count_of (st\<lparr>ms_malware := mal\<rparr>) key = count_of st key"
  by (simp_all add: count_of_def)

text \<open>The state after a prefix of the ranges.\<close>

definition after_ranges ::
  "MatcherEnv \<Rightarrow> SBOM \<Rightarrow> SBOMComponent \<times> PURL \<Rightarrow> MatchState \<Rightarrow> CVE list \<Rightarrow> CVE list \<Rightarrow> (string \<times> nat) list \<times> MatchState \<Rightarrow> bool" where
  "after_ranges env sbom cand st0 xs ms fs \<longleftrightarrow>
     (let kept = kept_ids st0 (fst cand) xs; n = length (ms_matches st0)
      in fst fs = zip kept [n..<n + length kept] \<and>
         ms_matches (snd fs) = ms_matches st0 @ map (merged_finding env sbom (fst cand) xs) kept \<and>
         (\<forall>key. count_of (snd fs) key = count_of st0 key + (if key = compKey (fst cand) then length kept else 0)) \<and>
         ms_malware (snd fs) = fold (catalogMalware_add sbom (fst cand) (snd cand)) ms (ms_malware st0))"

lemma kept_step_old: "cv_ID x \<in> cv_ID ` set xs \<Longrightarrow> kept_ids st c (xs @ [x]) = kept_ids st c xs"
  by (simp add: kept_ids_def)

lemma map_of_positions:
  assumes "distinct ks" "j < length ks"
  shows "map_of (zip ks [n..<n + length ks]) (ks ! j) = Some (n + j)"
  using assms by (simp add: map_of_zip_nth)

lemma merged_elsewhere:
  assumes "\<And>k. k \<in> set kept \<Longrightarrow> k \<in> cv_ID ` set xs \<and> k \<noteq> cv_ID x"
  shows "map (merged_finding env sbom c (xs @ [x])) kept = map (merged_finding env sbom c xs) kept"
proof (rule map_cong [OF refl])
  fix k assume "k \<in> set kept"
  then show "merged_finding env sbom c (xs @ [x]) k = merged_finding env sbom c xs k" using assms [of k] by (intro merged_finding_other) auto
qed

lemma kept_member: "k \<in> set (kept_ids st c xs) \<Longrightarrow> k \<in> cv_ID ` set xs"
  unfolding kept_ids_def by (metis first_cve_ids_simps(3) in_set_takeD)

lemma kept_distinct: "distinct (kept_ids st c xs)"
  by (simp add: kept_ids_def)

lemma kept_full:
  assumes "cv_ID x \<notin> set (kept_ids st c xs)" "cv_ID x \<in> cv_ID ` set xs \<or> length (first_cve_ids xs) \<ge> maxMatchesPerComponent - count_of st (compKey c)"
  shows "length (kept_ids st c xs) = maxMatchesPerComponent - count_of st (compKey c)" "kept_ids st c (xs @ [x]) = kept_ids st c xs"
proof -
  have long: "length (first_cve_ids xs) \<ge> maxMatchesPerComponent - count_of st (compKey c)"
  proof (rule ccontr)
    assume short: "\<not> ?thesis"
    then have "kept_ids st c xs = first_cve_ids xs" by (simp add: kept_ids_def)
    then show False using assms short by simp
  qed
  then show "length (kept_ids st c xs) = maxMatchesPerComponent - count_of st (compKey c)" by (simp add: kept_ids_def)
  show "kept_ids st c (xs @ [x]) = kept_ids st c xs" using long by (simp add: kept_ids_def)
qed

lemma kept_room:
  assumes "cv_ID x \<notin> cv_ID ` set xs" "length (first_cve_ids xs) < maxMatchesPerComponent - count_of st (compKey c)"
  shows "kept_ids st c (xs @ [x]) = kept_ids st c xs @ [cv_ID x]" "length (kept_ids st c xs) < maxMatchesPerComponent - count_of st (compKey c)"
  using assms by (simp_all add: kept_ids_def)

lemma after_ranges_step:
  assumes inv: "after_ranges env sbom cand st0 xs ms (f, st)"
    and x: "range_applies L sbom eco (fst cand) (snd cand) x" "cv_Kind x \<noteq> ''malware''"
  shows "after_ranges env sbom cand st0 (xs @ [x]) ms (consider_cve L env sbom eco (fst cand) (snd cand) x (f, st))"
proof -
  define c where "c = fst cand"
  define kept where "kept = kept_ids st0 c xs"
  define n where "n = length (ms_matches st0)"
  have f: "f = zip kept [n..<n + length kept]" and matches: "ms_matches st = ms_matches st0 @ map (merged_finding env sbom c xs) kept"
    and counts: "\<And>key. count_of st key = count_of st0 key + (if key = compKey c then length kept else 0)"
    and mal: "ms_malware st = fold (catalogMalware_add sbom (fst cand) (snd cand)) ms (ms_malware st0)"
    using inv by (simp_all add: after_ranges_def Let_def c_def kept_def n_def)
  have keys: "fst ` set f = set kept" by (simp add: f flip: set_map)
  show ?thesis
  proof (cases "cv_ID x \<in> set kept")
    case True
    then obtain j where j: "j < length kept" "kept ! j = cv_ID x" by (auto simp: in_set_conv_nth)
    have old: "cv_ID x \<in> cv_ID ` set xs" using True kept_member kept_def by simp
    have "map_of f (cv_ID x) = Some (n + j)" using map_of_positions [OF _ j(1), of n] kept_distinct j(2) by (simp add: f kept_def)
    note again = consider_again [OF x this]
    have "(map (merged_finding env sbom c xs) kept)[j := mergeMatch env x (merged_finding env sbom c xs (cv_ID x))] =
          map (merged_finding env sbom c (xs @ [x])) kept"
    proof (rule nth_equalityI, simp, simp)
      fix i assume i: "i < length kept"
      show "(map (merged_finding env sbom c xs) kept)[j := mergeMatch env x (merged_finding env sbom c xs (cv_ID x))] ! i =
            merged_finding env sbom c (xs @ [x]) (kept ! i)"
      proof (cases "i = j")
        case True then show ?thesis using i j(2) merged_finding_more [OF old] by simp
      next
        case False
        then have "kept ! i \<noteq> cv_ID x" using i j kept_distinct [of st0 c xs] by (metis kept_def nth_eq_iff_index_eq)
        then show ?thesis using False i kept_member [of "kept ! i" st0 c xs] by (simp add: kept_def merged_finding_other)
      qed
    qed
    then show ?thesis using matches j kept_step_old [OF old, of st0 c] unfolding again
      by (simp add: after_ranges_def Let_def f counts mal list_update_append nth_append c_def [symmetric] kept_def [symmetric] n_def [symmetric])
  next
    case False
    then have none: "map_of f (cv_ID x) = None" by (simp add: map_of_eq_None_iff keys)
    note new = consider_new [OF x none]
    show ?thesis
    proof (cases "cv_ID x \<in> cv_ID ` set xs \<or> length (first_cve_ids xs) \<ge> maxMatchesPerComponent - count_of st0 (compKey c)")
      case True
      note full = kept_full [OF False [unfolded kept_def] True]
      have "map (merged_finding env sbom c (xs @ [x])) kept = map (merged_finding env sbom c xs) kept"
        by (rule merged_elsewhere) (use False kept_member in \<open>auto simp: kept_def\<close>)
      then show ?thesis using full counts [of "compKey c"] new inv matches
        by (simp add: after_ranges_def Let_def c_def kept_def)
    next
      case no: False
      then have room: "cv_ID x \<notin> cv_ID ` set xs" "length (first_cve_ids xs) < maxMatchesPerComponent - count_of st0 (compKey c)" by auto
      note grow = kept_room [OF room]
      have "map (merged_finding env sbom c (xs @ [x])) kept = map (merged_finding env sbom c xs) kept"
        by (rule merged_elsewhere) (use False kept_member in \<open>auto simp: kept_def\<close>)
      moreover have "f @ [(cv_ID x, n + length kept)] = zip (kept @ [cv_ID x]) [n..<n + length (kept @ [cv_ID x])]"
        by (simp add: f)
      moreover have "AList.update (cv_ID x) v f = f @ [(cv_ID x, v)]" for v using False by (simp add: update_new_key keys)
      moreover have "\<not> maxMatchesPerComponent \<le> count_of st (compKey c)" using grow(2) counts [of "compKey c"] by (simp add: kept_def)
      ultimately show ?thesis using grow(1) counts matches mal unfolding new
        by (simp add: after_ranges_def Let_def c_def [symmetric] kept_def [symmetric] n_def [symmetric] merged_finding_new [OF room(1)])
    qed
  qed
qed

lemma after_ranges_all:
  "after_ranges env sbom cand st0 (vulnerable_ranges L sbom eco cand cves) (malicious_ranges L sbom eco cand cves)
     (fold (consider_cve L env sbom eco (fst cand) (snd cand)) cves ([], st0))"
proof (induction cves rule: rev_induct)
  case Nil show ?case by (simp add: after_ranges_def kept_ids_def)
next
  case (snoc x cves)
  obtain f st where fs: "fold (consider_cve L env sbom eco (fst cand) (snd cand)) cves ([], st0) = (f, st)" by (metis surj_pair)
  note inv = snoc.IH [unfolded fs]
  show ?case
  proof (cases "range_applies L sbom eco (fst cand) (snd cand) x")
    case False then show ?thesis using inv by (simp add: fs consider_skip)
  next
    case True
    show ?thesis
    proof (cases "cv_Kind x = ''malware''")
      case kind: True then show ?thesis using inv True by (simp add: fs consider_malware after_ranges_def Let_def count_of_def)
    next
      case False then show ?thesis using after_ranges_step [OF inv True False] True by (simp add: fs)
    qed
  qed
qed

lemma match_candidate_facts:
  "ms_matches (match_candidate L env sbom eco cves cand st) =
     ms_matches st @ map (merged_finding env sbom (fst cand) (vulnerable_ranges L sbom eco cand cves))
       (kept_ids st (fst cand) (vulnerable_ranges L sbom eco cand cves))"
  "count_of (match_candidate L env sbom eco cves cand st) key =
     count_of st key + (if key = compKey (fst cand) then length (kept_ids st (fst cand) (vulnerable_ranges L sbom eco cand cves)) else 0)"
  "ms_malware (match_candidate L env sbom eco cves cand st) =
     fold (catalogMalware_add sbom (fst cand) (snd cand)) (malicious_ranges L sbom eco cand cves) (ms_malware st)"
  using after_ranges_all [of env sbom cand st L eco cves] by (simp_all add: after_ranges_def Let_def match_candidate_def)

text \<open>
  C36. The loop over the advisories of one component, with its map of pointers into the findings and its early exits, is a grouping: it
  appends one finding for each vulnerability that has a range that applies, in the order of the first such range, as far as the cap of the
  component leaves room; each finding is made from the first of its ranges and has the others merged in their order. Malicious packages are
  collected aside, whatever the cap.
\<close>
theorem match_candidate_groups:
  "ms_matches (match_candidate L env sbom eco cves (c, purl) st) =
     ms_matches st @ map (merged_finding env sbom c (vulnerable_ranges L sbom eco (c, purl) cves))
       (take (maxMatchesPerComponent - count_of st (compKey c)) (first_cve_ids (vulnerable_ranges L sbom eco (c, purl) cves))) \<and>
   ms_malware (match_candidate L env sbom eco cves (c, purl) st) =
     fold (catalogMalware_add sbom c purl) (malicious_ranges L sbom eco (c, purl) cves) (ms_malware st)"
  by (simp add: match_candidate_facts kept_ids_def)

subsection \<open>The cap over a run\<close>

definition match_key :: "CVEMatch \<Rightarrow> string" where
  "match_key m = ToLower (TrimSpace (mt_PackageName m)) @ ''|'' @ TrimSpace (mt_PackageVersion m)"

text \<open>What names a finding; merging keeps it.\<close>

definition match_identity :: "CVEMatch \<Rightarrow> string \<times> string \<times> string \<times> string" where
  "match_identity m = (mt_CVEID m, mt_PackageName m, mt_PackageVersion m, mt_PURL m)"

lemma addAdvisory_identity [simp]: "match_identity (addAdvisoryID i m) = match_identity m"
  by (simp add: addAdvisoryID_def match_identity_def Let_def)

lemma set_rating_identity [simp]: "match_identity (set_rating_of env x m) = match_identity m"
  by (simp add: set_rating_of_def match_identity_def)

lemma merge_identity [simp]: "match_identity (mergeMatch env x m) = match_identity m"
proof -
  have "match_identity (m'\<lparr>mt_FixedVersion := v\<rparr>) = match_identity m'" for m' v by (simp add: match_identity_def)
  then show ?thesis by (simp add: mergeMatch_def Let_def)
qed

lemma fold_merge_identity: "match_identity (fold (mergeMatch env) xs m) = match_identity m"
  by (induction xs arbitrary: m) simp_all

lemma new_match_identity [simp]: "match_identity (new_match env sbom name version purl by_whom t0 x) = (cv_ID x, name, version, purl)"
  by (simp add: new_match_def rateMatch_def) (simp add: match_identity_def)

lemma component_match_identity [simp]:
  "match_identity (component_match env sbom c by_whom x) = (cv_ID x, cp_ComponentName c, cp_ComponentVersion c, cp_PURL c)"
  by (simp add: component_match_def)

lemma merged_finding_identity:
  assumes "i \<in> cv_ID ` set xs"
  shows "match_identity (merged_finding env sbom c xs i) = (i, cp_ComponentName c, cp_ComponentVersion c, cp_PURL c)"
proof -
  have "filter (\<lambda>y. cv_ID y = i) xs \<noteq> []" using assms by (auto simp: filter_empty_conv)
  then obtain y ys where ys: "filter (\<lambda>y. cv_ID y = i) xs = y # ys" by (cases "filter (\<lambda>y. cv_ID y = i) xs") auto
  then have "cv_ID y = i" by (metis (mono_tags, lifting) filter_eq_ConsD)
  then show ?thesis by (simp add: merged_finding_def ys fold_merge_identity)
qed

lemma match_key_identity: "match_identity m = (i, cp_ComponentName c, cp_ComponentVersion c, p) \<Longrightarrow> match_key m = compKey c"
  by (simp add: match_identity_def match_key_def compKey_def)

text \<open>A step that only appends findings, counted, and within the cap.\<close>

definition appends_within_cap :: "MatchState \<Rightarrow> MatchState \<Rightarrow> bool" where
  "appends_within_cap st st' \<longleftrightarrow>
     (\<exists>new. ms_matches st' = ms_matches st @ new \<and> (\<forall>key. count_of st' key = count_of st key + length (filter (\<lambda>m. match_key m = key) new))) \<and>
     (\<forall>key. count_of st' key \<le> max maxMatchesPerComponent (count_of st key))"

lemma appends_refl: "appends_within_cap st st"
  by (simp add: appends_within_cap_def)

lemma appends_trans:
  assumes "appends_within_cap st st'" "appends_within_cap st' st''"
  shows "appends_within_cap st st''"
proof -
  obtain new new' where "ms_matches st' = ms_matches st @ new" "ms_matches st'' = ms_matches st' @ new'"
    "\<forall>key. count_of st' key = count_of st key + length (filter (\<lambda>m. match_key m = key) new)"
    "\<forall>key. count_of st'' key = count_of st' key + length (filter (\<lambda>m. match_key m = key) new')"
    using assms by (auto simp: appends_within_cap_def)
  then have "\<exists>n. ms_matches st'' = ms_matches st @ n \<and> (\<forall>key. count_of st'' key = count_of st key + length (filter (\<lambda>m. match_key m = key) n))"
    by (intro exI [of _ "new @ new'"]) simp
  moreover have "count_of st'' key \<le> max maxMatchesPerComponent (count_of st key)" for key
  proof -
    have "count_of st'' key \<le> max maxMatchesPerComponent (count_of st' key)" "count_of st' key \<le> max maxMatchesPerComponent (count_of st key)"
      using assms by (simp_all add: appends_within_cap_def)
    then show ?thesis by linarith
  qed
  ultimately show ?thesis by (simp add: appends_within_cap_def)
qed

lemma match_candidate_appends: "appends_within_cap st (match_candidate L env sbom eco cves cand st)"
proof -
  define c where "c = fst cand"
  define xs where "xs = vulnerable_ranges L sbom eco cand cves"
  define new where "new = map (merged_finding env sbom c xs) (kept_ids st c xs)"
  have key: "match_key m = compKey c" if m: "m \<in> set new" for m
  proof -
    obtain i where "i \<in> set (kept_ids st c xs)" "m = merged_finding env sbom c xs i" using m by (auto simp: new_def)
    then show ?thesis using merged_finding_identity kept_member match_key_identity by metis
  qed
  have all: "length (filter (\<lambda>m. match_key m = compKey c) new) = length new" using key by (simp add: filter_id_conv)
  have other: "filter (\<lambda>m. match_key m = k) new = []" if "k \<noteq> compKey c" for k
    using that key by (auto simp: filter_empty_conv)
  have "count_of (match_candidate L env sbom eco cves cand st) k = count_of st k + length (filter (\<lambda>m. match_key m = k) new)" for k
    using all other [of k] by (cases "k = compKey c") (simp_all add: match_candidate_facts c_def xs_def new_def)
  moreover have "length (kept_ids st c xs) \<le> maxMatchesPerComponent - count_of st (compKey c)" by (simp add: kept_ids_def)
  then have "count_of (match_candidate L env sbom eco cves cand st) k \<le> max maxMatchesPerComponent (count_of st k)" for k
    unfolding match_candidate_facts(2) c_def xs_def by (auto simp: max_def)
  ultimately show ?thesis unfolding appends_within_cap_def
    by (intro conjI exI [of _ new] allI) (simp_all add: match_candidate_facts(1) c_def xs_def new_def)
qed

lemma fold_appends:
  assumes "\<And>x st. appends_within_cap st (f x st)"
  shows "appends_within_cap st (fold f xs st)"
  using assms by (induction xs arbitrary: st) (auto intro: appends_refl appends_trans)

lemma ecosystem_pass_appends: "appends_within_cap st (ecosystem_pass L env sbom cands eco found st)"
  unfolding ecosystem_pass_def by (intro fold_appends match_candidate_appends)

lemma query_ecosystem_appends:
  "appends_within_cap (snd (snd r)) (snd (snd (query_ecosystem L env sbom ask cands expanded eco r)))"
  by (cases r) (auto simp: query_ecosystem_def appends_refl ecosystem_pass_appends split: prod.splits option.splits)

lemma query_ecosystems_appends:
  "appends_within_cap (snd (snd r)) (snd (snd (query_ecosystems L env sbom ask cands packages r)))"
proof -
  have "appends_within_cap (snd (snd r)) (snd (snd (fold (query_ecosystem L env sbom ask cands expanded) ecos r)))" for expanded ecos
  proof (induction ecos arbitrary: r)
    case (Cons eco ecos) show ?case using appends_trans [OF query_ecosystem_appends Cons.IH] by simp
  qed (simp add: appends_refl)
  then show ?thesis by (simp add: query_ecosystems_def Let_def)
qed

text \<open>
  C38. Whatever the manager answers and however often a component is asked for (in several feeds, under several architectures), the passes
  over the package ecosystems leave the findings made before them as they are and add at most 25 findings for one name and version.
\<close>
theorem at_most_25_findings:
  "\<exists>new. ms_matches (snd (snd (query_ecosystems L env sbom ask cands packages (q, ok, st\<lparr>ms_counts := []\<rparr>)))) = ms_matches st @ new \<and>
     (\<forall>key. length (filter (\<lambda>m. match_key m = key) new) \<le> 25)"
proof -
  have "count_of (st\<lparr>ms_counts := []\<rparr>) key = 0" for key by (simp add: count_of_def)
  then show ?thesis using query_ecosystems_appends [of "(q, ok, st\<lparr>ms_counts := []\<rparr>)" L env sbom ask cands packages]
    by (auto simp: appends_within_cap_def maxMatchesPerComponent_def)
qed


subsection \<open>What the cap leaves out\<close>

lemma insert_by_sorted:
  fixes rank :: "'a \<Rightarrow> nat"
  assumes "\<And>a b. lt a b \<Longrightarrow> rank b \<le> rank a" "\<And>a b. \<not> lt a b \<Longrightarrow> rank a \<le> rank b" "sorted_wrt (\<lambda>a b. rank b \<le> rank a) xs"
  shows "sorted_wrt (\<lambda>a b. rank b \<le> rank a) (insert_by lt x xs)"
  using assms(3)
proof (induction xs)
  case (Cons y ys)
  show ?case
  proof (cases "lt y x")
    case True then show ?thesis using Cons assms(1) by (auto simp: set_insert_by)
  next
    case False then show ?thesis using Cons.prems assms(2) [OF False] by fastforce
  qed
qed simp

lemma SliceStable_sorted:
  fixes rank :: "'a \<Rightarrow> nat"
  assumes "\<And>a b. lt a b \<Longrightarrow> rank b \<le> rank a" "\<And>a b. \<not> lt a b \<Longrightarrow> rank a \<le> rank b"
  shows "sorted_wrt (\<lambda>a b. rank b \<le> rank a) (SliceStable lt xs)"
  unfolding SliceStable_def by (induction xs) (simp_all add: insert_by_sorted [OF assms])

abbreviation severity_sorted :: "CVE list \<Rightarrow> bool" where
  "severity_sorted \<equiv> sorted_wrt (\<lambda>a b. severityRank (cv_Severity b) \<le> severityRank (cv_Severity a))"

lemma sort_cves_sorted: "severity_sorted (sort_cves cves)"
  unfolding sort_cves_def by (rule SliceStable_sorted) (auto simp: cve_less_def split: if_splits)

text \<open>Among ranges in order of severity, a vulnerability that is kept has a range as severe as any of one that is not.\<close>

lemma kept_more_severe:
  assumes "severity_sorted xs" "i \<in> set (take r (first_cve_ids xs))" "x \<in> set xs" "cv_ID x \<notin> set (take r (first_cve_ids xs))"
  shows "\<exists>y\<in>set xs. cv_ID y = i \<and> severityRank (cv_Severity x) \<le> severityRank (cv_Severity y)"
  using assms
proof (induction xs rule: rev_induct)
  case (snoc z xs)
  have sorted: "severity_sorted xs" and last: "\<And>y. y \<in> set xs \<Longrightarrow> severityRank (cv_Severity z) \<le> severityRank (cv_Severity y)"
    using snoc.prems(1) by (auto simp: sorted_wrt_append)
  have old: "\<exists>y\<in>set xs. cv_ID y = i \<and> severityRank (cv_Severity x) \<le> severityRank (cv_Severity y)" if kept: "i \<in> set (take r (first_cve_ids xs))"
  proof (cases "x \<in> set xs")
    case True
    have "set (take r (first_cve_ids xs)) \<subseteq> set (take r (first_cve_ids (xs @ [z])))" by (auto simp del: first_cve_ids_simps(1) simp: take_append)
    then show ?thesis using snoc.IH [OF sorted kept True] snoc.prems(4) by blast
  next
    case False
    then have "x = z" using snoc.prems(3) by simp
    moreover have "i \<in> cv_ID ` set xs" using kept in_set_takeD by fastforce
    ultimately show ?thesis using last by auto
  qed
  show ?case
  proof (cases "i \<in> set (take r (first_cve_ids xs))")
    case True then show ?thesis using old by auto
  next
    case False
    then have new: "cv_ID z \<notin> cv_ID ` set xs" "i = cv_ID z" "length (first_cve_ids xs) < r"
      using snoc.prems(2) by (auto simp: take_Cons' split: if_splits)
    then have "x \<in> set xs \<Longrightarrow> cv_ID x \<in> set (take r (first_cve_ids (xs @ [z])))" by simp
    then have "x = z" using snoc.prems(3,4) by auto
    then show ?thesis using new by auto
  qed
qed simp

lemma vulnerable_ranges_member: "x \<in> set (vulnerable_ranges L sbom eco cand cves) \<longleftrightarrow>
   x \<in> set cves \<and> range_applies L sbom eco (fst cand) (snd cand) x \<and> cv_Kind x \<noteq> ''malware''"
  by (auto simp: vulnerable_ranges_def)

lemma vulnerable_ranges_sorted: "severity_sorted cves \<Longrightarrow> severity_sorted (vulnerable_ranges L sbom eco cand cves)"
  unfolding vulnerable_ranges_def by (rule sorted_wrt_filter)

lemma kept_identifiers:
  "mt_CVEID ` merged_finding env sbom c xs ` set (kept_ids st c xs) = set (kept_ids st c xs)"
proof -
  have "mt_CVEID (merged_finding env sbom c xs i) = i" if "i \<in> set (kept_ids st c xs)" for i
    using merged_finding_identity [OF kept_member [OF that]] by (simp add: match_identity_def)
  then show ?thesis by force
qed

lemma not_kept_full:
  assumes "i \<in> cv_ID ` set xs" "i \<notin> set (kept_ids st c xs)"
  shows "count_of st (compKey c) + length (kept_ids st c xs) \<ge> maxMatchesPerComponent"
proof (rule ccontr)
  assume "\<not> ?thesis"
  then have "kept_ids st c xs = first_cve_ids xs" by (simp add: kept_ids_def)
  then show False using assms by simp
qed

text \<open>
  C37. The advisories are sorted by severity before the cap, so that the cap keeps what matters: if a vulnerability that affects the component
  is not among the findings made for it, the component has used up its 25 findings, and every vulnerability that was reported for it has
  a range that applies and is at least as severe as every range of the one left out.
\<close>
theorem cap_keeps_most_severe:
  assumes "ms_matches (match_candidate L env sbom eco (sort_cves cves) (c, purl) st) = ms_matches st @ new"
    and "x \<in> set cves" "range_applies L sbom eco c purl x" "cv_Kind x \<noteq> ''malware''" "cv_ID x \<notin> mt_CVEID ` set new"
  shows "count_of (match_candidate L env sbom eco (sort_cves cves) (c, purl) st) (compKey c) \<ge> maxMatchesPerComponent \<and>
    (\<forall>m\<in>set new. \<exists>y\<in>set cves. cv_ID y = mt_CVEID m \<and> range_applies L sbom eco c purl y \<and>
       severityRank (cv_Severity x) \<le> severityRank (cv_Severity y))"
proof -
  define xs where "xs = vulnerable_ranges L sbom eco (c, purl) (sort_cves cves)"
  have member: "y \<in> set xs \<longleftrightarrow> y \<in> set cves \<and> range_applies L sbom eco c purl y \<and> cv_Kind y \<noteq> ''malware''" for y
    by (simp add: xs_def vulnerable_ranges_member sort_cves_def)
  have new: "new = map (merged_finding env sbom c xs) (kept_ids st c xs)"
    using assms(1) by (simp add: match_candidate_facts xs_def)
  have out: "cv_ID x \<notin> set (kept_ids st c xs)" using assms(5) kept_identifiers [of env sbom c xs st] by (simp add: new)
  have sorted: "severity_sorted xs" by (simp add: xs_def vulnerable_ranges_sorted sort_cves_sorted)
  have x: "x \<in> set xs" using assms(2-4) member by simp
  show ?thesis
  proof (intro conjI ballI)
    show "count_of (match_candidate L env sbom eco (sort_cves cves) (c, purl) st) (compKey c) \<ge> maxMatchesPerComponent"
      using not_kept_full [OF imageI [OF x] out] by (simp add: match_candidate_facts xs_def)
  next
    fix m assume "m \<in> set new"
    then have "mt_CVEID m \<in> set (kept_ids st c xs)" using kept_identifiers [of env sbom c xs st] by (auto simp: new)
    then obtain y where "y \<in> set xs" "cv_ID y = mt_CVEID m" "severityRank (cv_Severity x) \<le> severityRank (cv_Severity y)"
      using kept_more_severe [OF sorted _ x] out unfolding kept_ids_def by blast
    then show "\<exists>y\<in>set cves. cv_ID y = mt_CVEID m \<and> range_applies L sbom eco c purl y \<and> severityRank (cv_Severity x) \<le> severityRank (cv_Severity y)"
      using member by blast
  qed
qed


text \<open>The witness: with one finding left, the critical vulnerability is reported, although the other one comes first.\<close>

theorem cap_keeps_most_severe_witness:
  "map mt_CVEID (ms_matches (match_candidate number_libs deb_env deb_sbom ''debian''
       (sort_cves [deb_range ''CVE-2'' ''DSA-2'' ''LOW'' 1, deb_range ''CVE-1'' ''DSA-1'' ''CRITICAL'' 1]) (deb_component, deb_purl) almost_full)) = [''CVE-1''] \<and>
   count_of (match_candidate number_libs deb_env deb_sbom ''debian''
       (sort_cves [deb_range ''CVE-2'' ''DSA-2'' ''LOW'' 1, deb_range ''CVE-1'' ''DSA-1'' ''CRITICAL'' 1]) (deb_component, deb_purl) almost_full) (compKey deb_component) \<ge>
     maxMatchesPerComponent"
proof -
  define low where "low = deb_range ''CVE-2'' ''DSA-2'' ''LOW'' 1"
  define cves where "cves = [low, deb_range ''CVE-1'' ''DSA-1'' ''CRITICAL'' 1]"
  define st where "st = match_candidate number_libs deb_env deb_sbom ''debian'' (sort_cves cves) (deb_component, deb_purl) almost_full"
  have ids: "map mt_CVEID (ms_matches st) = [''CVE-1'']" unfolding st_def cves_def low_def by code_simp
  then have set_ids: "mt_CVEID ` set (ms_matches st) = {''CVE-1''}" by (metis list.set_map list.simps(15) empty_set)
  have low: "low \<in> set cves" by (simp add: cves_def)
  have applies: "range_applies number_libs deb_sbom ''debian'' deb_component deb_purl low" unfolding low_def by code_simp
  have kind: "cv_Kind low \<noteq> ''malware''" by (simp add: low_def deb_range_def)
  have out: "cv_ID low \<notin> mt_CVEID ` set (ms_matches st)" unfolding set_ids by (simp add: low_def deb_range_def)
  have start: "ms_matches st = ms_matches almost_full @ ms_matches st" by (simp add: almost_full_def)
  have "count_of st (compKey deb_component) \<ge> maxMatchesPerComponent"
    using cap_keeps_most_severe [OF start [unfolded st_def] low applies kind out [unfolded st_def]] unfolding st_def by blast
  then show ?thesis using ids unfolding st_def cves_def low_def by (rule conjI [rotated])
qed

subsection \<open>Nothing else is left out\<close>

lemma match_candidate_reports:
  assumes "x \<in> set cves" "range_applies L sbom eco c purl x" "cv_Kind x \<noteq> ''malware''"
  shows "(\<exists>m\<in>set (ms_matches (match_candidate L env sbom eco cves (c, purl) st)).
            match_identity m = (cv_ID x, cp_ComponentName c, cp_ComponentVersion c, cp_PURL c)) \<or>
         count_of (match_candidate L env sbom eco cves (c, purl) st) (compKey c) \<ge> maxMatchesPerComponent"
proof -
  define xs where "xs = vulnerable_ranges L sbom eco (c, purl) cves"
  have x: "cv_ID x \<in> cv_ID ` set xs" using assms by (simp add: xs_def vulnerable_ranges_member)
  show ?thesis
  proof (cases "cv_ID x \<in> set (kept_ids st c xs)")
    case True
    then show ?thesis using merged_finding_identity [OF x, of env sbom c] by (auto simp: match_candidate_facts xs_def)
  next
    case False
    then show ?thesis using not_kept_full [OF x False] by (simp add: match_candidate_facts xs_def)
  qed
qed

text \<open>The passes only add: a goal reached at one step stays reached.\<close>

lemma fold_reaches:
  assumes "x \<in> set xs" "\<And>s. goal (f x s)" "\<And>y s. goal s \<Longrightarrow> goal (f y s)"
  shows "goal (fold f xs s)"
proof -
  have keep: "goal s \<Longrightarrow> goal (fold f ys s)" for ys s by (induction ys arbitrary: s) (simp_all add: assms(3))
  obtain before after where "xs = before @ x # after" using assms(1) by (meson split_list)
  then show ?thesis using keep [OF assms(2)] by simp
qed

definition reported_or_full :: "SBOMComponent \<Rightarrow> string \<Rightarrow> MatchState \<Rightarrow> bool" where
  "reported_or_full c i st \<longleftrightarrow>
     (\<exists>m\<in>set (ms_matches st). match_identity m = (i, cp_ComponentName c, cp_ComponentVersion c, cp_PURL c)) \<or>
     count_of st (compKey c) \<ge> maxMatchesPerComponent"

lemma reported_or_full_mono: "appends_within_cap st st' \<Longrightarrow> reported_or_full c i st \<Longrightarrow> reported_or_full c i st'"
  by (fastforce simp: appends_within_cap_def reported_or_full_def)

text \<open>
  C35. No vulnerability of an answered query is lost: once the answers of a feed have been gone through, every component that was asked for
  under one of the answered packages has a finding for each vulnerability with a range that applies to its version, release and
  architecture, unless its name and version have used up their findings. The order of the maps does not matter.
\<close>
theorem answered_vulnerabilities_reported:
  assumes "\<And>place keys. set (me_Order env place keys) = set keys"
    and "map_of packageCVEs pkg = Some cves" "(c, purl) \<in> set (candidates_for cands eco pkg)"
    and "x \<in> set cves" "range_applies L sbom eco c purl x" "cv_Kind x \<noteq> ''malware''"
  shows "(\<exists>m\<in>set (ms_matches (ecosystem_pass L env sbom cands eco packageCVEs st)).
            mt_CVEID m = cv_ID x \<and> mt_PackageName m = cp_ComponentName c \<and> mt_PackageVersion m = cp_ComponentVersion c \<and> mt_PURL m = cp_PURL c) \<or>
         count_of (ecosystem_pass L env sbom cands eco packageCVEs st) (compKey c) \<ge> 25"
proof -
  define goal where "goal = reported_or_full c (cv_ID x)"
  have keep: "goal s \<Longrightarrow> goal (match_candidate L env sbom eco cs cand s)" for s cs cand
    using reported_or_full_mono [OF match_candidate_appends] by (simp add: goal_def)
  have one: "goal (fold (match_candidate L env sbom eco (sort_cves (lookup_list packageCVEs pkg))) (candidates_for cands eco pkg) s)" for s
  proof (rule fold_reaches [OF assms(3)])
    show "goal (match_candidate L env sbom eco (sort_cves (lookup_list packageCVEs pkg)) (c, purl) s)" for s
      using match_candidate_reports [of x "sort_cves (lookup_list packageCVEs pkg)" L sbom eco c purl env s] assms(2,4-6)
      by (simp add: goal_def reported_or_full_def sort_cves_def lookup_list_def)
  qed (rule keep)
  have "goal (ecosystem_pass L env sbom cands eco packageCVEs st)"
    unfolding ecosystem_pass_def
  proof (rule fold_reaches [where x = pkg])
    show "pkg \<in> set (me_Order env (''packageCVEs '' @ eco) (map fst packageCVEs))" using assms(1,2) map_of_SomeD by force
    show "goal (fold (match_candidate L env sbom eco (sort_cves (lookup_list packageCVEs p))) (candidates_for cands eco p) s)" if "goal s" for p s
      using reported_or_full_mono [OF fold_appends [OF match_candidate_appends]] that by (simp add: goal_def)
  qed (rule one)
  then show ?thesis by (auto simp: goal_def reported_or_full_def match_identity_def maxMatchesPerComponent_def)
qed


theorem answered_vulnerabilities_reported_witness:
  "\<exists>m. m \<in> set (ms_matches (ecosystem_pass number_libs deb_env deb_sbom [(''debian|p'', [(deb_component, deb_purl)])] ''debian''
      [(''p'', [deb_range ''CVE-1'' ''DSA-1'' ''HIGH'' 1])] empty_state)) \<and> mt_CVEID m = ''CVE-1'' \<and> mt_PackageName m = ''p''"
proof -
  define x where "x = deb_range ''CVE-1'' ''DSA-1'' ''HIGH'' 1"
  define cands where "cands = [(''debian|p'', [(deb_component, deb_purl)])]"
  have order: "set (me_Order deb_env place keys) = set keys" for place keys by (simp add: deb_env_def)
  have applies: "range_applies number_libs deb_sbom ''debian'' deb_component deb_purl x" unfolding x_def by code_simp
  have kind: "cv_Kind x \<noteq> ''malware''" by (simp add: x_def deb_range_def)
  have cand: "(deb_component, deb_purl) \<in> set (candidates_for cands ''debian'' ''p'')"
    by (simp add: cands_def candidates_for_def lookup_list_def)
  have room: "\<not> count_of (ecosystem_pass number_libs deb_env deb_sbom cands ''debian'' [(''p'', [x])] empty_state) (compKey deb_component) \<ge> 25"
    unfolding cands_def x_def by code_simp
  have "map_of [(''p'', [x])] ''p'' = Some [x]" by simp
  from answered_vulnerabilities_reported [OF order this cand _ applies kind, of empty_state]
  show ?thesis using room unfolding cands_def x_def by (auto simp: deb_range_def deb_component_def)
qed

subsection \<open>The rating of a finding\<close>

definition match_rating :: "CVEMatch \<Rightarrow> string \<times> rat \<times> string" where
  "match_rating m = (mt_Severity m, mt_CVSS m, mt_SeveritySource m)"

definition range_rating :: "MatcherEnv \<Rightarrow> CVE \<Rightarrow> string \<times> rat \<times> string" where
  "range_rating env x = (ToUpper (cv_Severity x), me_Float32 env (cv_CVSSScore x), cv_SeveritySource x)"

definition better_rated :: "CVE \<Rightarrow> CVE \<Rightarrow> bool" where
  "better_rated x y \<longleftrightarrow> tierOrder (cv_SeverityTier x) < tierOrder (cv_SeverityTier y) \<or>
     tierOrder (cv_SeverityTier x) = tierOrder (cv_SeverityTier y) \<and> Rank (cv_Severity x) > Rank (cv_Severity y)"

text \<open>The tier of a range is the one of its source, and its severity is written as the reports write it.\<close>

definition rated_range :: "CVE \<Rightarrow> bool" where
  "rated_range x \<longleftrightarrow> severityTierBySource (cv_SeveritySource x) = cv_SeverityTier x \<and> ToUpper (cv_Severity x) = cv_Severity x"

definition written_severity :: "string \<Rightarrow> bool" where
  "written_severity s \<longleftrightarrow> ToUpper (reportedSeverity s) = reportedSeverity s"

lemma written_literals: "written_severity Critical" "written_severity High" "written_severity Medium" "written_severity Low" "written_severity Negligible"
  by code_simp+

lemma if_keeps: "P a \<Longrightarrow> P b \<Longrightarrow> P (if c then a else b)"
  by simp

lemma written_score: "written_severity (SeverityFromScore x)"
  unfolding SeverityFromScore_def by (intro if_keeps [of written_severity] written_literals)

lemma written_rating: "NormalizeRating s = [] \<or> written_severity (NormalizeRating s)"
proof -
  define good where "good w \<longleftrightarrow> w = [] \<or> written_severity w" for w
  have "good (NormalizeRating s)"
    unfolding NormalizeRating_def Let_def by (intro if_keeps [of good]) (use written_literals in \<open>simp_all add: good_def\<close>)
  then show ?thesis by (simp add: good_def)
qed

lemma catalog_ranges_rated: "rated_range (rateCatalogCandidate r erratum nvd other c)"
proof -
  have tier: "severityTierBySource (severitySourceNames t) = t" if "1 \<le> t" "t \<le> 6" for t
  proof -
    have "t = 1 \<or> t = 2 \<or> t = 3 \<or> t = 4 \<or> t = 5 \<or> t = 6" using that by arith
    then show ?thesis by (elim disjE) (simp_all add: severityTierBySource_def severitySourceNames_def severity_tiers)
  qed
  have rated: "rated_range (set_rating t s v c)" if "1 \<le> t" "t \<le> 6" "written_severity s" for t s v
    using tier [OF that(1,2)] that(3) by (simp add: rated_range_def set_rating_def written_severity_def)
  have vendor: "firstNonEmpty [NormalizeRating a, NormalizeRating b] \<noteq> [] \<Longrightarrow> written_severity (firstNonEmpty [NormalizeRating a, NormalizeRating b])" for a b
    using written_rating [of a] written_rating [of b] by (auto split: if_splits)
  show ?thesis
    unfolding rateCatalogCandidate_def Let_def severity_tiers using vendor
    by (auto intro!: rated written_score written_literals(3) simp del: firstNonEmpty.simps)
qed

lemma rating_frame [simp]:
  "match_rating (addAdvisoryID i m) = match_rating m"
  "match_rating (m\<lparr>mt_FixedVersion := v\<rparr>) = match_rating m"
  "match_rating (set_rating_of env x m) = range_rating env x"
  by (simp_all add: addAdvisoryID_def match_rating_def Let_def set_rating_of_def range_rating_def)

lemma rate_match_rating [simp]: "match_rating (rateMatch env x m) = range_rating env x"
  by (simp add: rateMatch_def)

lemma component_match_rating [simp]: "match_rating (component_match env sbom c by_whom x) = range_rating env x"
  by (simp add: component_match_def new_match_def)

lemma merge_rating:
  assumes "rated_range y" "match_rating m = range_rating env y"
  shows "match_rating (mergeMatch env x m) = (if better_rated x y then range_rating env x else match_rating m)"
proof -
  have same: "mt_SeveritySource (addAdvisoryID i m) = mt_SeveritySource m" "mt_Severity (addAdvisoryID i m) = mt_Severity m" for i
    by (simp_all add: addAdvisoryID_def Let_def)
  have "mt_SeveritySource m = cv_SeveritySource y" "mt_Severity m = cv_Severity y"
    using assms by (simp_all add: match_rating_def range_rating_def rated_range_def)
  then show ?thesis using assms(1) by (auto simp: mergeMatch_def Let_def same better_rated_def rated_range_def)
qed

lemma better_rated_order:
  "\<not> better_rated x x"
  "better_rated x y \<Longrightarrow> \<not> better_rated z y \<Longrightarrow> \<not> better_rated z x"
  "\<not> better_rated x y \<Longrightarrow> \<not> better_rated y z \<Longrightarrow> \<not> better_rated x z"
  by (auto simp: better_rated_def)

lemma fold_merge_rating:
  assumes "rated_range y" "\<forall>x\<in>set xs. rated_range x" "match_rating m = range_rating env y"
  shows "\<exists>z\<in>insert y (set xs). match_rating (fold (mergeMatch env) xs m) = range_rating env z \<and> (\<forall>x\<in>insert y (set xs). \<not> better_rated x z)"
  using assms
proof (induction xs arbitrary: y m)
  case Nil then show ?case by (simp add: better_rated_order(1))
next
  case (Cons x xs)
  define z where "z = (if better_rated x y then x else y)"
  have z: "rated_range z" "match_rating (mergeMatch env x m) = range_rating env z" "\<not> better_rated x z" "\<not> better_rated y z" "z = x \<or> z = y"
    using Cons.prems merge_rating [OF Cons.prems(1,3), of x] better_rated_order(1)
    by (cases "better_rated x y"; simp add: z_def; auto simp: better_rated_def)+
  obtain w where w: "w \<in> insert z (set xs)" "match_rating (fold (mergeMatch env) xs (mergeMatch env x m)) = range_rating env w"
    "\<forall>v\<in>insert z (set xs). \<not> better_rated v w"
    using Cons.IH [OF z(1) _ z(2)] Cons.prems(2) by auto
  then have "\<not> better_rated x w" "\<not> better_rated y w" using z(3,4) better_rated_order(3) by blast+
  then show ?case using w z(5) by auto
qed

lemma merge_advisories:
  "set (mt_AdvisoryIDs (addAdvisoryID i m)) = set (mt_AdvisoryIDs m) \<union> ({TrimSpace i} - {[], mt_CVEID m})"
  by (auto simp: addAdvisoryID_def Let_def)

lemma merge_keeps_advisories: "mt_AdvisoryIDs (mergeMatch env x m) = mt_AdvisoryIDs (addAdvisoryID (cv_AdvisoryID x) m)"
  by (simp add: mergeMatch_def Let_def set_rating_of_def)

lemma fold_merge_advisories:
  "mt_CVEID m = i \<Longrightarrow> set (mt_AdvisoryIDs (fold (mergeMatch env) xs m)) =
     set (mt_AdvisoryIDs m) \<union> ((\<lambda>x. TrimSpace (cv_AdvisoryID x)) ` set xs - {[], i})"
proof (induction xs arbitrary: m)
  case (Cons x xs)
  have "mt_CVEID (mergeMatch env x m) = i" using merge_identity [of env x m] Cons.prems by (simp add: match_identity_def)
  from Cons.IH [OF this] show ?case using Cons.prems by (auto simp: merge_keeps_advisories merge_advisories)
qed simp

lemma fold_merge_distinct: "distinct (mt_AdvisoryIDs m) \<Longrightarrow> distinct (mt_AdvisoryIDs (fold (mergeMatch env) xs m))"
proof (induction xs arbitrary: m)
  case (Cons x xs)
  have "distinct (mt_AdvisoryIDs (mergeMatch env x m))" using Cons.prems by (simp add: merge_keeps_advisories addAdvisoryID_def Let_def)
  from Cons.IH [OF this] show ?case by simp
qed simp

lemma merged_finding_facts:
  assumes "\<forall>x\<in>set xs. rated_range x" "i \<in> cv_ID ` set xs"
  shows "\<exists>y\<in>set xs. cv_ID y = i \<and> match_rating (merged_finding env sbom c xs i) = range_rating env y \<and> (\<forall>x\<in>set xs. cv_ID x = i \<longrightarrow> \<not> better_rated x y)"
    and "distinct (mt_AdvisoryIDs (merged_finding env sbom c xs i))"
    and "set (mt_AdvisoryIDs (merged_finding env sbom c xs i)) = {TrimSpace (cv_AdvisoryID x) |x. x \<in> set xs \<and> cv_ID x = i} - {[], i}"
proof -
  have "filter (\<lambda>y. cv_ID y = i) xs \<noteq> []" using assms(2) by (auto simp: filter_empty_conv)
  then obtain y ys where ys: "filter (\<lambda>y. cv_ID y = i) xs = y # ys" by (cases "filter (\<lambda>y. cv_ID y = i) xs") auto
  then have members: "insert y (set ys) = {x \<in> set xs. cv_ID x = i}" by (metis list.simps(15) set_filter)
  define m where "m = component_match env sbom c (matched_by c) y"
  have finding: "merged_finding env sbom c xs i = fold (mergeMatch env) ys m" by (simp add: merged_finding_def ys m_def)
  have y: "y \<in> set xs" "cv_ID y = i" using members by auto
  have "rated_range y" "\<forall>x\<in>set ys. rated_range x" using assms(1) members by auto
  then obtain z where z: "z \<in> insert y (set ys)" "match_rating (fold (mergeMatch env) ys m) = range_rating env z"
    "\<forall>x\<in>insert y (set ys). \<not> better_rated x z"
    using fold_merge_rating [of y ys m env] by (auto simp: m_def)
  have cve: "mt_CVEID m = i" using y component_match_identity [of env sbom c "matched_by c" y] by (simp add: m_def match_identity_def)
  have first: "mt_AdvisoryIDs m = (if TrimSpace (cv_AdvisoryID y) \<in> {[], i} then [] else [TrimSpace (cv_AdvisoryID y)])"
    using y by (simp add: m_def component_match_def new_match_def rateMatch_def set_rating_of_def addAdvisoryID_def Let_def)
  then have "set (mt_AdvisoryIDs m) = {TrimSpace (cv_AdvisoryID y)} - {[], i}" by auto
  then have "set (mt_AdvisoryIDs (fold (mergeMatch env) ys m)) = (\<lambda>x. TrimSpace (cv_AdvisoryID x)) ` insert y (set ys) - {[], i}"
    by (auto simp: fold_merge_advisories [OF cve])
  then show "set (mt_AdvisoryIDs (merged_finding env sbom c xs i)) = {TrimSpace (cv_AdvisoryID x) |x. x \<in> set xs \<and> cv_ID x = i} - {[], i}"
    unfolding members finding by blast
  show "distinct (mt_AdvisoryIDs (merged_finding env sbom c xs i))" unfolding finding by (rule fold_merge_distinct) (simp add: first)
  show "\<exists>y\<in>set xs. cv_ID y = i \<and> match_rating (merged_finding env sbom c xs i) = range_rating env y \<and> (\<forall>x\<in>set xs. cv_ID x = i \<longrightarrow> \<not> better_rated x y)"
    using z unfolding members finding by blast
qed

text \<open>
  C39. A finding that the matcher makes for a component lists every advisory it comes from under the vulnerability, once each, in the sense that
  the list has no duplicates and holds exactly the advisories of the ranges that apply to the component. Its severity, score and source are
  those of one of these ranges, and no other is rated by a better source, or by an equally good one as more severe. The candidates are to be
  rated by the table of sources, as those of the catalog are (\<open>catalog_ranges_rated\<close>).
\<close>
theorem finding_has_best_rating:
  assumes "\<forall>x\<in>set cves. rated_range x"
    and "ms_matches (match_candidate L env sbom eco cves (c, purl) st) = ms_matches st @ new" "m \<in> set new"
  shows "(\<exists>y\<in>set cves. range_applies L sbom eco c purl y \<and> cv_Kind y \<noteq> ''malware'' \<and> cv_ID y = mt_CVEID m \<and> match_rating m = range_rating env y \<and>
            (\<forall>x\<in>set cves. range_applies L sbom eco c purl x \<and> cv_Kind x \<noteq> ''malware'' \<and> cv_ID x = mt_CVEID m \<longrightarrow> \<not> better_rated x y)) \<and>
         distinct (mt_AdvisoryIDs m) \<and>
         set (mt_AdvisoryIDs m) = {TrimSpace (cv_AdvisoryID x) |x. x \<in> set cves \<and> range_applies L sbom eco c purl x \<and> cv_Kind x \<noteq> ''malware'' \<and>
           cv_ID x = mt_CVEID m} - {[], mt_CVEID m}"
proof -
  define xs where "xs = vulnerable_ranges L sbom eco (c, purl) cves"
  have member: "x \<in> set xs \<longleftrightarrow> x \<in> set cves \<and> range_applies L sbom eco c purl x \<and> cv_Kind x \<noteq> ''malware''" for x
    by (simp add: xs_def vulnerable_ranges_member)
  have "new = map (merged_finding env sbom c xs) (kept_ids st c xs)" using assms(2) by (simp add: match_candidate_facts xs_def)
  then obtain i where "i \<in> set (kept_ids st c xs)" "m = merged_finding env sbom c xs i" using assms(3) by auto
  then have i: "i \<in> cv_ID ` set xs" "m = merged_finding env sbom c xs i" using kept_member by blast+
  have cve: "mt_CVEID m = i" using merged_finding_identity [OF i(1), of env sbom c] by (simp add: i(2) match_identity_def)
  have rated: "\<forall>x\<in>set xs. rated_range x" using assms(1) member by blast
  note facts = merged_finding_facts [OF rated i(1), of env sbom c, folded i(2)]
  have "\<exists>y\<in>set cves. range_applies L sbom eco c purl y \<and> cv_Kind y \<noteq> ''malware'' \<and> cv_ID y = mt_CVEID m \<and> match_rating m = range_rating env y \<and>
      (\<forall>x\<in>set cves. range_applies L sbom eco c purl x \<and> cv_Kind x \<noteq> ''malware'' \<and> cv_ID x = mt_CVEID m \<longrightarrow> \<not> better_rated x y)"
    using facts(1) member cve by (metis (no_types, lifting))
  moreover have "{TrimSpace (cv_AdvisoryID x) |x. x \<in> set xs \<and> cv_ID x = i} =
      {TrimSpace (cv_AdvisoryID x) |x. x \<in> set cves \<and> range_applies L sbom eco c purl x \<and> cv_Kind x \<noteq> ''malware'' \<and> cv_ID x = mt_CVEID m}"
    unfolding member cve by (simp only: conj_assoc)
  ultimately show ?thesis using facts(2,3) unfolding cve by simp
qed


text \<open>The witness: the rating of the distribution stands against a higher score, and the advisory that is met twice is listed once.\<close>

theorem finding_has_best_rating_witness:
  "\<exists>m. ms_matches (match_candidate number_libs deb_env deb_sbom ''debian''
       [deb_range ''CVE-1'' ''GHSA-1'' ''CRITICAL'' 2, deb_range ''CVE-1'' ''DSA-1'' ''MEDIUM'' 1, deb_range ''CVE-1'' ''GHSA-1'' ''HIGH'' 2]
       (deb_component, deb_purl) empty_state) = [m] \<and>
     match_rating m = range_rating deb_env (deb_range ''CVE-1'' ''DSA-1'' ''MEDIUM'' 1) \<and>
     distinct (mt_AdvisoryIDs m) \<and> set (mt_AdvisoryIDs m) = {''GHSA-1'', ''DSA-1''}"
proof -
  define a where "a = deb_range ''CVE-1'' ''GHSA-1'' ''CRITICAL'' 2"
  define b where "b = deb_range ''CVE-1'' ''DSA-1'' ''MEDIUM'' 1"
  define d where "d = deb_range ''CVE-1'' ''GHSA-1'' ''HIGH'' 2"
  define st where "st = match_candidate number_libs deb_env deb_sbom ''debian'' [a, b, d] (deb_component, deb_purl) empty_state"
  have rated: "rated_range a" "rated_range b" "rated_range d" unfolding a_def b_def d_def by code_simp+
  have better: "better_rated b a" "better_rated b d" unfolding a_def b_def d_def by code_simp+
  have applies: "range_applies number_libs deb_sbom ''debian'' deb_component deb_purl b" unfolding b_def by code_simp
  have rows: "map (\<lambda>m. (mt_CVEID m, mt_AdvisoryIDs m)) (ms_matches st) = [(''CVE-1'', [''GHSA-1'', ''DSA-1''])]"
    unfolding st_def a_def b_def d_def by code_simp
  then obtain m where m: "ms_matches st = [m]" "mt_CVEID m = ''CVE-1''" "mt_AdvisoryIDs m = [''GHSA-1'', ''DSA-1'']"
    by (auto simp: map_eq_Cons_conv)
  have start: "ms_matches st = ms_matches empty_state @ [m]" using m(1) by (simp add: empty_state_def)
  have b: "cv_ID b = mt_CVEID m" "cv_Kind b \<noteq> ''malware''" by (simp_all add: b_def deb_range_def m(2))
  have all: "\<forall>x\<in>set [a, b, d]. rated_range x" using rated by simp
  note found = finding_has_best_rating [OF all start [unfolded st_def], of m]
  obtain y where y: "y \<in> set [a, b, d]" "match_rating m = range_rating deb_env y" "\<not> better_rated b y"
    using found applies b by auto
  then have "y = b" using better by auto
  moreover have "distinct (mt_AdvisoryIDs m)" using found by simp
  ultimately show ?thesis using y(2) m(1,3) unfolding st_def a_def b_def d_def by (intro exI [of _ m]) simp
qed

subsection \<open>Every finding is justified\<close>

text \<open>What a component is asked for: the answers for a package of a feed are used for it. The lists of candidates are found by the feed and the
  package joined by a bar.\<close>

definition asked_for :: "MatcherEnv \<Rightarrow> SBOM \<Rightarrow> SBOMComponent \<Rightarrow> string \<Rightarrow> string \<Rightarrow> PURL \<Rightarrow> bool" where
  "asked_for env sbom c eco pkg purl \<longleftrightarrow>
     \<not> isDistrolessHeuristicJunk c \<and>
     (\<exists>queryEcosystem componentKey. component_view env sbom c = (queryEcosystem, componentKey, purl) \<and>
        (if queryEcosystem = ''go'' then eco = ''go'' \<and> pkg \<in> set (go_names env purl)
         else queryEcosystem @ ''|'' @ componentKey \<in> {eco @ ''|'' @ pkg, ''generic|'' @ pkg}))"

definition go_range_applies :: "('d, 'r, 'v, 'c) VersionLibs \<Rightarrow> SBOMComponent \<Rightarrow> PURL \<Rightarrow> CVE \<Rightarrow> bool" where
  "go_range_applies L c purl x \<longleftrightarrow> TrimSpace (cv_Constraint x) \<noteq> [] \<and>
     IsVulnerable L (effectiveVersionForComparison (cp_ComponentVersion c) purl) (cv_Constraint x) (pu_Ecosystem purl) = Inr True"

text \<open>The three reasons for a finding, by the matcher that it names: a package of a feed, a Go module, the Go standard library.\<close>

definition package_finding ::
  "('d, 'r, 'v, 'c) VersionLibs \<Rightarrow> MatcherEnv \<Rightarrow> SBOM \<Rightarrow> (string \<Rightarrow> string \<Rightarrow> CVE \<Rightarrow> bool) \<Rightarrow> SBOMComponent \<Rightarrow> CVEMatch \<Rightarrow> bool" where
  "package_finding L env sbom offered c m \<longleftrightarrow> fst (component_view env sbom c) \<noteq> ''go'' \<and> mt_MatchedBy m = matched_by c \<and>
     (\<exists>eco pkg purl x. asked_for env sbom c eco pkg purl \<and> offered eco pkg x \<and> cv_Kind x \<noteq> ''malware'' \<and> range_applies L sbom eco c purl x \<and>
        match_identity m = (cv_ID x, cp_ComponentName c, cp_ComponentVersion c, cp_PURL c))"

definition module_finding ::
  "('d, 'r, 'v, 'c) VersionLibs \<Rightarrow> MatcherEnv \<Rightarrow> SBOM \<Rightarrow> (string \<Rightarrow> string \<Rightarrow> CVE \<Rightarrow> bool) \<Rightarrow> SBOMComponent \<Rightarrow> CVEMatch \<Rightarrow> bool" where
  "module_finding L env sbom offered c m \<longleftrightarrow> fst (component_view env sbom c) = ''go'' \<and> mt_MatchedBy m = ''fortuna-core-cve-matcher'' \<and>
     (\<exists>pkg purl x. asked_for env sbom c ''go'' pkg purl \<and> offered ''go'' pkg x \<and> cv_Kind x \<noteq> ''malware'' \<and> go_range_applies L c purl x \<and>
        match_identity m = (cv_ID x, cp_ComponentName c, cp_ComponentVersion c, cp_PURL c))"

definition stdlib_finding :: "('d, 'r, 'v, 'c) VersionLibs \<Rightarrow> SBOM \<Rightarrow> (string \<Rightarrow> string \<Rightarrow> CVE \<Rightarrow> bool) \<Rightarrow> CVEMatch \<Rightarrow> bool" where
  "stdlib_finding L sbom offered m \<longleftrightarrow> TrimSpace (sb_GoVersion sbom) \<noteq> [] \<and> mt_MatchedBy m = ''fortuna-go-stdlib-matcher'' \<and>
     (\<exists>x. offered ''go'' ''stdlib'' x \<and> IsVulnerable L (stdlib_version sbom) (cv_Constraint x) ''go'' = Inr True \<and>
        match_identity m = (cv_ID x, ''stdlib'', stdlib_version sbom, []))"

definition justified ::
  "('d, 'r, 'v, 'c) VersionLibs \<Rightarrow> MatcherEnv \<Rightarrow> SBOM \<Rightarrow> (string \<Rightarrow> string \<Rightarrow> CVE \<Rightarrow> bool) \<Rightarrow> SBOMComponent list \<Rightarrow> CVEMatch \<Rightarrow> bool" where
  "justified L env sbom offered components m \<longleftrightarrow>
     (\<exists>c\<in>set components. package_finding L env sbom offered c m \<or> module_finding L env sbom offered c m) \<or> stdlib_finding L sbom offered m"

lemma merge_matcher [simp]: "mt_MatchedBy (mergeMatch env x m) = mt_MatchedBy m"
  by (simp add: mergeMatch_def Let_def addAdvisoryID_def set_rating_of_def)

lemma new_match_matcher [simp]: "mt_MatchedBy (new_match env sbom name version purl by_whom t0 x) = by_whom"
  by (simp add: new_match_def rateMatch_def addAdvisoryID_def set_rating_of_def Let_def)

lemma merged_finding_matcher: "mt_MatchedBy (merged_finding env sbom c xs i) = matched_by c"
proof -
  have "mt_MatchedBy (fold (mergeMatch env) ys m) = mt_MatchedBy m" for ys m by (induction ys arbitrary: m) simp_all
  then show ?thesis by (simp add: merged_finding_def component_match_def split: list.split)
qed

lemma justified_merge [simp]: "justified L env sbom offered comps (mergeMatch env' x m) = justified L env sbom offered comps m"
  by (simp add: justified_def package_finding_def module_finding_def stdlib_finding_def)


text \<open>Grouping: what the lists of candidates hold.\<close>

definition grouped_ok :: "MatcherEnv \<Rightarrow> SBOM \<Rightarrow> SBOMComponent list \<Rightarrow> Grouped \<Rightarrow> bool" where
  "grouped_ok env sbom comps g \<longleftrightarrow>
     (\<forall>key c purl. (c, purl) \<in> set (lookup_list (gr_candidates g) key) \<longrightarrow>
        c \<in> set comps \<and> \<not> isDistrolessHeuristicJunk c \<and>
        (\<exists>q k. component_view env sbom c = (q, k, purl) \<and> q \<noteq> ''go'' \<and> key = q @ ''|'' @ k)) \<and>
     (\<forall>name c purl. (c, purl) \<in> set (lookup_list (gr_go g) name) \<longrightarrow>
        c \<in> set comps \<and> \<not> isDistrolessHeuristicJunk c \<and> (\<exists>k. component_view env sbom c = (''go'', k, purl)) \<and> name \<in> set (go_names env purl))"

lemma lookup_append: "lookup_list (append_to k v m) key = (if key = k then lookup_list m k @ [v] else lookup_list m key)"
  by (simp add: lookup_list_def append_to_def AList.update_conv')

lemma lookup_append_all:
  "x \<in> set (lookup_list (fold (\<lambda>name m. append_to name v m) names m) key) \<Longrightarrow> x \<in> set (lookup_list m key) \<or> x = v \<and> key \<in> set names"
proof (induction names arbitrary: m)
  case (Cons n names) then show ?case using Cons.IH [of "append_to n v m"] by (auto simp: lookup_append split: if_splits)
qed simp

lemma group_component_ok:
  assumes "grouped_ok env sbom comps g" "c \<in> set comps"
  shows "grouped_ok env sbom comps (group_component env sbom c g)"
proof (cases "isDistrolessHeuristicJunk c")
  case True then show ?thesis using assms by (simp add: group_component_def)
next
  case False
  obtain q k purl where view: "component_view env sbom c = (q, k, purl)" by (metis prod_cases3)
  show ?thesis
  proof (cases "q = ''go''")
    case True
    then show ?thesis using assms False view
      by (auto simp: group_component_def grouped_ok_def dest!: lookup_append_all)
  next
    case no: False
    then show ?thesis using assms False view
      by (auto simp: group_component_def grouped_ok_def lookup_append split: if_splits)
  qed
qed

lemma group_components_ok: "grouped_ok env sbom comps (group_components env sbom comps)"
proof -
  have "set cs \<subseteq> set comps \<Longrightarrow> grouped_ok env sbom comps g \<Longrightarrow> grouped_ok env sbom comps (fold (group_component env sbom) cs g)" for cs g
    by (induction cs arbitrary: g) (auto intro: group_component_ok)
  moreover have "grouped_ok env sbom comps \<lparr>gr_packages = [], gr_candidates = [], gr_go = []\<rparr>"
    by (simp add: grouped_ok_def lookup_list_def)
  ultimately show ?thesis by (simp add: group_components_def)
qed

lemma candidates_for_asked:
  assumes "grouped_ok env sbom comps g" "(c, purl) \<in> set (candidates_for (gr_candidates g) eco pkg)"
  shows "c \<in> set comps" "asked_for env sbom c eco pkg purl" "fst (component_view env sbom c) \<noteq> ''go''"
proof -
  have "(c, purl) \<in> set (lookup_list (gr_candidates g) (eco @ ''|'' @ pkg)) \<or> (c, purl) \<in> set (lookup_list (gr_candidates g) (''generic|'' @ pkg))"
    using assms(2) by (auto simp: candidates_for_def Let_def split: if_splits)
  then obtain q k where "c \<in> set comps" "\<not> isDistrolessHeuristicJunk c" "component_view env sbom c = (q, k, purl)" "q \<noteq> ''go''"
    "q @ ''|'' @ k = eco @ ''|'' @ pkg \<or> q @ ''|'' @ k = ''generic|'' @ pkg"
    using assms(1) unfolding grouped_ok_def by metis
  then show "c \<in> set comps" "asked_for env sbom c eco pkg purl" "fst (component_view env sbom c) \<noteq> ''go''"
    unfolding asked_for_def by simp_all
qed

lemma go_pairs_asked:
  assumes "grouped_ok env sbom comps g" "(c, purl) \<in> set (lookup_list (gr_go g) name)"
  shows "c \<in> set comps" "asked_for env sbom c ''go'' name purl" "fst (component_view env sbom c) = ''go''"
proof -
  obtain k where "c \<in> set comps" "\<not> isDistrolessHeuristicJunk c" "component_view env sbom c = (''go'', k, purl)" "name \<in> set (go_names env purl)"
    using assms unfolding grouped_ok_def by metis
  then show "c \<in> set comps" "asked_for env sbom c ''go'' name purl" "fst (component_view env sbom c) = ''go''"
    by (simp_all add: asked_for_def)
qed


text \<open>Each step of the loops keeps the findings justified.\<close>

lemma updated_all:
  assumes "\<forall>m\<in>set ms. P m" "\<And>m. P m \<Longrightarrow> P (f m)"
  shows "\<forall>m\<in>set (ms[i := f (ms ! i)]). P m"
proof (cases "i < length ms")
  case True
  then have "P (f (ms ! i))" using assms by simp
  then show ?thesis using assms(1) set_update_subset_insert [of ms i "f (ms ! i)"] by blast
next
  case False
  then have "ms[i := f (ms ! i)] = ms" by (simp add: list_update_beyond)
  then show ?thesis using assms(1) by (simp only:)
qed

lemma match_candidate_justified:
  assumes "grouped_ok env sbom comps g" "cand \<in> set (candidates_for (gr_candidates g) eco pkg)" "\<forall>x\<in>set cves. offered eco pkg x"
    and "\<forall>m\<in>set (ms_matches st). justified L env sbom offered comps m"
  shows "\<forall>m\<in>set (ms_matches (match_candidate L env sbom eco cves cand st)). justified L env sbom offered comps m"
proof
  fix m assume "m \<in> set (ms_matches (match_candidate L env sbom eco cves cand st))"
  then consider "m \<in> set (ms_matches st)"
    | i where "i \<in> set (kept_ids st (fst cand) (vulnerable_ranges L sbom eco cand cves))"
        "m = merged_finding env sbom (fst cand) (vulnerable_ranges L sbom eco cand cves) i"
    by (auto simp: match_candidate_facts)
  then show "justified L env sbom offered comps m"
  proof cases
    case 1 then show ?thesis using assms(4) by blast
  next
    case 2
    obtain c purl where cand: "cand = (c, purl)" by (metis surj_pair)
    obtain x where x: "x \<in> set cves" "range_applies L sbom eco c purl x" "cv_Kind x \<noteq> ''malware''" "i = cv_ID x"
      using kept_member [OF 2(1)] by (auto simp: vulnerable_ranges_member cand)
    note asked = candidates_for_asked [OF assms(1) assms(2) [unfolded cand]]
    have "match_identity m = (cv_ID x, cp_ComponentName c, cp_ComponentVersion c, cp_PURL c)" "mt_MatchedBy m = matched_by c"
      using merged_finding_identity [OF kept_member [OF 2(1)]] 2(2) x(4) by (simp_all add: cand merged_finding_matcher)
    then have "package_finding L env sbom offered c m"
      unfolding package_finding_def using asked(2,3) x(1-3) assms(3) by blast
    then show ?thesis using asked(1) unfolding justified_def by blast
  qed
qed

lemma consider_go_justified:
  assumes "grouped_ok env sbom comps g" "(c, purl) \<in> set (lookup_list (gr_go g) name)" "offered ''go'' name x"
    and "\<forall>m\<in>set (ms_matches (snd fs)). justified L env sbom offered comps m"
  shows "\<forall>m\<in>set (ms_matches (snd (consider_go_cve L env sbom c purl x fs))). justified L env sbom offered comps m"
proof -
  obtain seen st where fs: "fs = (seen, st)" by (metis surj_pair)
  note asked = go_pairs_asked [OF assms(1,2)]
  show ?thesis
  proof (cases "go_range_applies L c purl x \<and> cv_Kind x \<noteq> ''malware''")
    case True
    have "module_finding L env sbom offered c (component_match env sbom c core_matcher x)"
      unfolding module_finding_def component_match_identity using asked(2,3) True assms(3)
      by (auto simp: component_match_def core_matcher_def)
    then have new: "justified L env sbom offered comps (component_match env sbom c core_matcher x)"
      unfolding justified_def using asked(1) by blast
    have merged: "\<forall>m\<in>set ((ms_matches st)[i := mergeMatch env x (ms_matches st ! i)]). justified L env sbom offered comps m" for i
      using assms(4) by (intro updated_all) (simp_all add: fs)
    then show ?thesis using True new assms(4)
      by (simp add: fs consider_go_cve_def go_range_applies_def Let_def split: option.split)
  next
    case False
    then have "ms_matches (snd (consider_go_cve L env sbom c purl x fs)) = ms_matches st"
      by (auto simp: fs consider_go_cve_def go_range_applies_def Let_def split: sum.splits bool.splits)
    then show ?thesis using assms(4) by (simp add: fs)
  qed
qed

lemma fold_keeps: "(\<And>x s. x \<in> set xs \<Longrightarrow> P s \<Longrightarrow> P (f x s)) \<Longrightarrow> P s \<Longrightarrow> P (fold f xs s)"
  by (induction xs arbitrary: s) simp_all

lemma consider_stdlib_justified:
  assumes "TrimSpace (sb_GoVersion sbom) \<noteq> []" "offered ''go'' ''stdlib'' x" "\<forall>m\<in>set (snd fs). justified L env sbom offered comps m"
  shows "\<forall>m\<in>set (snd (consider_stdlib L env sbom (stdlib_version sbom) x fs)). justified L env sbom offered comps m"
proof -
  obtain findings matches where fs: "fs = (findings, matches)" by (metis surj_pair)
  show ?thesis
  proof (cases "IsVulnerable L (stdlib_version sbom) (cv_Constraint x) ''go'' = Inr True")
    case True
    have "justified L env sbom offered comps (new_match env sbom ''stdlib'' (stdlib_version sbom) [] stdlib_matcher (me_Now env) x)"
      unfolding justified_def stdlib_finding_def new_match_identity new_match_matcher stdlib_matcher_def using True assms(1,2) by blast
    moreover have "\<forall>m\<in>set (matches[i := mergeMatch env x (matches ! i)]). justified L env sbom offered comps m" for i
      using assms(3) by (intro updated_all) (simp_all add: fs)
    ultimately show ?thesis using True assms(3) by (simp add: fs consider_stdlib_def split: option.split)
  next
    case False
    then show ?thesis using assms(3) by (auto simp: fs consider_stdlib_def split: sum.splits bool.splits)
  qed
qed

lemma lookup_member: "x \<in> set (lookup_list m k) \<Longrightarrow> \<exists>vs. (k, vs) \<in> set m \<and> x \<in> set vs"
  by (cases "map_of m k") (auto simp: lookup_list_def dest: map_of_SomeD)

text \<open>The runs, for any manager that keeps its contract.\<close>

definition run_justified ::
  "('q \<Rightarrow> bool) \<Rightarrow> (string \<Rightarrow> string \<Rightarrow> CVE \<Rightarrow> bool) \<Rightarrow> ('d, 'r, 'v, 'c) VersionLibs \<Rightarrow> MatcherEnv \<Rightarrow> SBOM \<Rightarrow> SBOMComponent list \<Rightarrow> 'q run \<Rightarrow> bool" where
  "run_justified sound offered L env sbom comps r \<longleftrightarrow>
     sound (fst r) \<and> (\<forall>m\<in>set (ms_matches (snd (snd r))). justified L env sbom offered comps m)"

context answering
begin

lemma found_offered: "sound q \<Longrightarrow> ask eco pkgs q = (Some found, q') \<Longrightarrow> x \<in> set (lookup_list found pkg) \<Longrightarrow> offered eco pkg x"
  using ask_offered lookup_member by metis

lemma query_go_justified:
  assumes "grouped_ok env sbom comps g" "run_justified sound offered L env sbom comps r"
  shows "run_justified sound offered L env sbom comps (query_go L env sbom ask (gr_go g) r)"
proof -
  obtain q ok st where r: "r = (q, ok, st)" by (metis prod_cases3)
  obtain res q' where asked: "ask ''go'' (me_Order env ''goResolvedNames'' (map fst (gr_go g))) q = (res, q')" by (metis surj_pair)
  have sound: "sound q" "sound q'" using assms(2) ask_sound [OF _ asked] by (simp_all add: run_justified_def r)
  have pass: "\<forall>m\<in>set (ms_matches (go_pass L env sbom (gr_go g) found st)). justified L env sbom offered comps m" if found: "res = Some found" for found
    unfolding go_pass_def
  proof (rule fold_keeps [where P = "\<lambda>fs. \<forall>m\<in>set (ms_matches (snd fs)). justified L env sbom offered comps m"])
    fix name and fs :: "((string \<times> string) \<times> nat) list \<times> MatchState"
    assume ok: "\<forall>m\<in>set (ms_matches (snd fs)). justified L env sbom offered comps m"
    show "\<forall>m\<in>set (ms_matches (snd (fold (\<lambda>pair. fold (consider_go_cve L env sbom (fst pair) (snd pair)) (sort_cves (lookup_list found name)))
        (lookup_list (gr_go g) name) fs))). justified L env sbom offered comps m"
      using ok
    proof (rule fold_keeps [where P = "\<lambda>fs. \<forall>m\<in>set (ms_matches (snd fs)). justified L env sbom offered comps m", rotated])
      fix pair and fs :: "((string \<times> string) \<times> nat) list \<times> MatchState"
      assume pair: "pair \<in> set (lookup_list (gr_go g) name)" and ok: "\<forall>m\<in>set (ms_matches (snd fs)). justified L env sbom offered comps m"
      show "\<forall>m\<in>set (ms_matches (snd (fold (consider_go_cve L env sbom (fst pair) (snd pair)) (sort_cves (lookup_list found name)) fs))).
          justified L env sbom offered comps m"
        using ok
      proof (rule fold_keeps [where P = "\<lambda>fs. \<forall>m\<in>set (ms_matches (snd fs)). justified L env sbom offered comps m", rotated])
        fix x and fs :: "((string \<times> string) \<times> nat) list \<times> MatchState"
        assume "x \<in> set (sort_cves (lookup_list found name))" and ok: "\<forall>m\<in>set (ms_matches (snd fs)). justified L env sbom offered comps m"
        then have off: "offered ''go'' name x" using found_offered [OF sound(1) asked [unfolded found]] by (simp add: sort_cves_def)
        have member: "(fst pair, snd pair) \<in> set (lookup_list (gr_go g) name)" using pair by simp
        show "\<forall>m\<in>set (ms_matches (snd (consider_go_cve L env sbom (fst pair) (snd pair) x fs))). justified L env sbom offered comps m"
          by (rule consider_go_justified [where offered = offered, OF assms(1) member off ok])
      qed
    qed
  qed (use assms(2) in \<open>simp add: run_justified_def r\<close>)
  then show ?thesis using assms(2) sound asked by (auto simp: query_go_def r run_justified_def split: option.splits)
qed

lemma query_ecosystem_justified:
  assumes "grouped_ok env sbom comps g" "run_justified sound offered L env sbom comps r"
  shows "run_justified sound offered L env sbom comps (query_ecosystem L env sbom ask (gr_candidates g) expanded eco r)"
proof -
  obtain q ok st where r: "r = (q, ok, st)" by (metis prod_cases3)
  obtain res q' where asked: "ask eco (me_Order env (''packageSet '' @ eco) (lookup_list expanded eco)) q = (res, q')" by (metis surj_pair)
  have sound: "sound q" "sound q'" using assms(2) ask_sound [OF _ asked] by (simp_all add: run_justified_def r)
  have pass: "\<forall>m\<in>set (ms_matches (ecosystem_pass L env sbom (gr_candidates g) eco found st)). justified L env sbom offered comps m"
    if found: "res = Some found" for found
    unfolding ecosystem_pass_def
  proof (rule fold_keeps [where P = "\<lambda>st. \<forall>m\<in>set (ms_matches st). justified L env sbom offered comps m"])
    fix pkg and st :: MatchState
    assume ok: "\<forall>m\<in>set (ms_matches st). justified L env sbom offered comps m"
    have "\<forall>x\<in>set (sort_cves (lookup_list found pkg)). offered eco pkg x"
      using found_offered [OF sound(1) asked [unfolded found]] by (simp add: sort_cves_def)
    then show "\<forall>m\<in>set (ms_matches (fold (match_candidate L env sbom eco (sort_cves (lookup_list found pkg))) (candidates_for (gr_candidates g) eco pkg) st)).
        justified L env sbom offered comps m"
      using ok match_candidate_justified [OF assms(1)]
      by (intro fold_keeps [where P = "\<lambda>st. \<forall>m\<in>set (ms_matches st). justified L env sbom offered comps m"])
  qed (use assms(2) in \<open>simp add: run_justified_def r\<close>)
  then show ?thesis using assms(2) sound asked by (auto simp: query_ecosystem_def r run_justified_def split: option.splits)
qed

lemma query_ecosystems_justified:
  assumes "grouped_ok env sbom comps g" "run_justified sound offered L env sbom comps r"
  shows "run_justified sound offered L env sbom comps (query_ecosystems L env sbom ask (gr_candidates g) packages r)"
  unfolding query_ecosystems_def Let_def
  by (rule fold_keeps) (use assms query_ecosystem_justified in auto)

lemma matchGoStdlib_justified:
  assumes "run_justified sound offered L env sbom comps r"
  shows "run_justified sound offered L env sbom comps (matchGoStdlib L env sbom ask r)"
proof (cases "TrimSpace (sb_GoVersion sbom) = []")
  case True then show ?thesis using assms by (simp add: matchGoStdlib_def split: prod.split)
next
  case version: False
  obtain q ok st where r: "r = (q, ok, st)" by (metis prod_cases3)
  obtain res q' where asked: "ask ''go'' [''stdlib''] q = (res, q')" by (metis surj_pair)
  have sound: "sound q" "sound q'" using assms ask_sound [OF _ asked] by (simp_all add: run_justified_def r)
  show ?thesis
  proof (cases res)
    case None then show ?thesis using assms sound version asked by (simp add: matchGoStdlib_def GetGoStdlibVulns_def r run_justified_def)
  next
    case (Some found)
    define cves where "cves = (if me_StdlibSorted env then sort_cves (lookup_list found ''stdlib'') else lookup_list found ''stdlib'')"
    have offers: "offered ''go'' ''stdlib'' x" if "x \<in> set cves" for x
      using found_offered [OF sound(1) asked [unfolded Some]] that by (simp add: cves_def sort_cves_def split: if_splits)
    have "\<forall>m\<in>set (snd (fold (consider_stdlib L env sbom (stdlib_version sbom)) cves ([], ms_matches st))). justified L env sbom offered comps m"
    proof (rule fold_keeps [where P = "\<lambda>fs. \<forall>m\<in>set (snd fs). justified L env sbom offered comps m"])
      fix x and fs :: "(string \<times> nat) list \<times> CVEMatch list"
      assume x: "x \<in> set cves" and ok: "\<forall>m\<in>set (snd fs). justified L env sbom offered comps m"
      show "\<forall>m\<in>set (snd (consider_stdlib L env sbom (stdlib_version sbom) x fs)). justified L env sbom offered comps m"
        by (rule consider_stdlib_justified [where offered = offered, OF version offers [OF x] ok])
    qed (use assms in \<open>simp add: run_justified_def r\<close>)
    then show ?thesis using assms sound version asked Some
      by (simp add: matchGoStdlib_def GetGoStdlibVulns_def r run_justified_def cves_def lookup_list_def)
  qed
qed

lemma all_queries_justified:
  assumes "grouped_ok env sbom comps g" "sound q"
  shows "run_justified sound offered L env sbom comps
    (matchGoStdlib L env sbom ask (query_ecosystems L env sbom ask (gr_candidates g) packages (query_go L env sbom ask (gr_go g) (q, True, empty_state))))"
  by (intro matchGoStdlib_justified query_ecosystems_justified [OF assms(1)] query_go_justified [OF assms(1)])
    (simp add: run_justified_def empty_state_def assms(2))

end

subsection \<open>The whole run\<close>

text \<open>The start of an unstable sort is a permutation.\<close>

definition shuffles :: "MatcherEnv \<Rightarrow> bool" where
  "shuffles env \<longleftrightarrow> (\<forall>n. mset (me_Shuffle env n) = mset [0..<n])"

lemma mset_sort_Slice: "shuffles env \<Longrightarrow> mset (sort_Slice env lt xs) = mset xs"
proof -
  assume "shuffles env"
  then have "mset (map (nth xs) (me_Shuffle env (length xs))) = image_mset (nth xs) (mset [0..<length xs])" by (simp add: shuffles_def)
  also have "\<dots> = mset (map (nth xs) [0..<length xs])" by (rule mset_map [symmetric])
  also have "\<dots> = mset xs" by (simp only: map_nth)
  finally show ?thesis by (simp add: sort_Slice_def mset_SliceStable)
qed





lemma candidate_component [simp]: "cd_c (candidate_of sbom c) = c"
  by (simp add: candidate_of_def Let_def split: prod.split)







text \<open>A run is complete as long as the manager answers.\<close>

lemma answered_complete:
  assumes "\<And>eco pkgs q. fst (ask eco pkgs q) \<noteq> None"
  shows "fst (snd (matchGoStdlib L env sbom ask (query_ecosystems L env sbom ask cands packages (query_go L env sbom ask goPairs r)))) = fst (snd r)"
proof -
  define found where "found e p q = the (fst (ask e p q))" for e p q
  define rest where "rest e p q = snd (ask e p q)" for e p q
  have "ask e p q = (Some (found e p q), rest e p q)" for e p q
    using assms [of e p q] by (cases "ask e p q") (auto simp: found_def rest_def)
  then have ask: "ask = (\<lambda>e p q. (Some (found e p q), rest e p q))" by blast
  have go: "fst (snd (query_go L env sbom ask goPairs r)) = fst (snd r)" for r
    by (cases r) (simp add: query_go_def ask)
  have eco: "fst (snd (query_ecosystem L env sbom ask cands expanded eco r)) = fst (snd r)" for expanded eco r
    by (cases r) (simp add: query_ecosystem_def ask)
  have ecos: "fst (snd (fold (query_ecosystem L env sbom ask cands expanded) ecos r)) = fst (snd r)" for expanded ecos r
    by (induction ecos arbitrary: r) (simp_all add: eco)
  have std: "fst (snd (matchGoStdlib L env sbom ask r)) = fst (snd r)" for r
    by (cases r) (simp add: matchGoStdlib_def GetGoStdlibVulns_def ask)
  show ?thesis by (simp add: std query_ecosystems_def Let_def ecos go)
qed

text \<open>
  While the database does not say which catalog is active, a run finds nothing and calls itself complete: the worker may then take the empty
  list for the whole set of findings of the SBOM.
\<close>

interpretation silent: answering "\<lambda>eco pkgs q. (Some (map (\<lambda>pkg. (pkg, [])) pkgs), q)" "\<lambda>q. True" "\<lambda>eco pkg c. False"
  by unfold_locales (auto simp: image_image)

lemma unreadable_catalog_completes:
  assumes "shuffles env" "qe_CatalogFails qenv" "matchable_status sbom" "(if componentsOverride = None then stored else componentsOverride) = Some components"
  shows "fi_complete (fst (MatchSBOMFindings L env (GetVulnerabilitiesForPackages qenv now db) sbom componentsOverride stored cache)) \<and>
    fi_matches (fst (MatchSBOMFindings L env (GetVulnerabilitiesForPackages qenv now db) sbom componentsOverride stored cache)) = []"
proof -
  define g where "g = group_components env sbom (resolveComponentsForMatching L env sbom components)"
  define ask :: "CVECache ask" where "ask = (\<lambda>eco pkgs q. (Some (map (\<lambda>pkg. (pkg, [])) pkgs), q))"
  have manager: "GetVulnerabilitiesForPackages qenv now db = ask"
    by (intro ext) (simp add: ask_def unreadable_catalog_reports_nothing [OF assms(2)])
  define r where "r = matchGoStdlib L env sbom ask
    (query_ecosystems L env sbom ask (gr_candidates g) (gr_packages g) (query_go L env sbom ask (gr_go g) (cache, True, empty_state)))"
  have "run_justified (\<lambda>q. True) (\<lambda>eco pkg c. False) L env sbom (resolveComponentsForMatching L env sbom components) r"
    unfolding r_def ask_def by (rule silent.all_queries_justified) (simp_all add: g_def group_components_ok)
  then have none: "ms_matches (snd (snd r)) = []"
    unfolding run_justified_def justified_def package_finding_def module_finding_def stdlib_finding_def by (cases "ms_matches (snd (snd r))") auto
  have "fst (snd r)" unfolding r_def by (subst answered_complete) (simp_all add: ask_def)
  moreover have "sort_Slice env match_less [] = []" using mset_sort_Slice [OF assms(1), of match_less "[]"] by simp
  ultimately show ?thesis using assms(3,4) none
    by (cases r) (simp add: MatchSBOMFindings_def matchSBOM_def Let_def manager g_def [symmetric] r_def [symmetric])
qed

end
