(* ===== verification/Spec2Isabelle.thy ===== *)
theory Spec2Isabelle
  imports Rbac_Analyzer Rbac_Inventory Middleware_Scope Falco_Outbox Agent_Identity Grpc_Authorization Mutations Sbom_Queue
    Version_Comparator Investigation_Access Capability_Lifecycle Attack_Path_Escape Attack_Path_Tenants
    Attack_Chain_Caps Attack_Chain_Limit Cve_Match_Run
begin

text \<open>
  \<^bold>\<open>Fortuna: a verification development of its core logic\<close>

  Fortuna finds the Kubernetes workloads whose identity can take over a cluster. Agents run in the
  clusters; they send inventory, SBOMs and runtime events to Core over HTTP and gRPC. Core stores
  them, analyses the RBAC grants of every workload, matches packages with vulnerabilities, and
  serves users whose role and scope restrict what they see and do, up to the revocation of a service
  account in a cluster. The development models the parts of both programs on which the correctness
  of these decisions rests: who may do what, what a workload is granted, what the agent keeps and
  delivers, and what Core changes in a cluster.

  \<^bold>\<open>Parts and theories\<close>

  \<^item> \<^verbatim>\<open>Go_Prelude\<close>, \<^verbatim>\<open>Go_Json\<close>, \<^verbatim>\<open>Go_Hex\<close>, \<^verbatim>\<open>Go_Strconv\<close>: Go values and what the program uses of the
    packages strings, encoding/json, encoding/hex and strconv. A string is its bytes. JSON is parsed
    from the text, with case-insensitive field matching as in Go. \<^verbatim>\<open>Go_Prelude\<close> has the lemmas the
    components share and two locales about transition systems: \<open>step_invariant\<close> (an invariant and a
    frame kept by every step hold in every reachable state) and its extension \<open>step_history\<close> (a
    preorder between the states kept by every step relates every later state to every earlier one).
  \<^item> \<^verbatim>\<open>Models\<close>: rows of core/pkg/models/models.go, with the columns the analyses read.
  \<^item> \<^verbatim>\<open>Rbac_Analyzer\<close>: core/pkg/rbac/analyzer.go. Classification of a role, derived capabilities, the
    analysis of a pod. The analysis refines the set of grants that reach the service account of the
    pod: paths, maximum of the risks, write flag and evidence are those of the grants.
  \<^item> \<^verbatim>\<open>Rbac_Inventory\<close>: core/pkg/rbacinventory/resolver.go. Subject matching and the effective rules of
    a service account: exactly the rules that the tables grant it, those of a RoleBinding confined to its own namespace.
  \<^item> \<^verbatim>\<open>Authorization\<close>: core/pkg/authorization/permissions.go and registry.go. The taxonomy of permissions,
    the grants of the roles and the checks; unknown roles have nothing.
  \<^item> \<^verbatim>\<open>Scope_Document\<close>: core/pkg/authorization/scopedocument.go and operational_scope.go. The scope of a
    user as stored text. Its locale \<open>cluster_scope\<close> is what the middleware relies on, and its
    interpretation \<open>doc_scope\<close> shows that the stored documents provide it.
  \<^item> \<^verbatim>\<open>Middleware_Scope\<close>: core/internal/middleware/authorization.go and scope.go with the audit rows of
    core/pkg/activitylog/log.go. Every handler as a function from database and request to answer,
    context and database.
  \<^item> \<^verbatim>\<open>Agent_Identity\<close>: core/pkg/agentidentity/store.go, core/internal/middleware/agent_identity.go and
    ingest_token.go, agent/internal/corehttp/optional_auth.go. The credential registry, the
    authentication by token and by certificate (both interpret the locale \<open>registry_authenticator\<close>),
    the ingest middleware, and the headers the agent sends.
  \<^item> \<^verbatim>\<open>Grpc_Authorization\<close>: core/internal/grpc/agent_identity.go and rpc_authorization.go. The unary and
    stream interceptors, over the certificate authentication of \<^verbatim>\<open>Agent_Identity\<close>.
  \<^item> \<^verbatim>\<open>Delivery\<close>: agent/internal/corehttp/delivery.go. The bisection of rejected batches under a budget of
    requests. The locale \<open>lossless_delivery\<close> is what an outbox relies on; \<open>DeliverIsolated\<close> provides
    it.
  \<^item> \<^verbatim>\<open>Falco_Outbox\<close>: agent/internal/runtime/falco_delivery_state.go. The durable outbox of runtime events
    over \<open>DeliverIsolated\<close>, with its file, its lock and crashes.
  \<^item> \<^verbatim>\<open>Mutations\<close>: core/pkg/mutations/service_account.go. Preview, confirmation and application of the
    revocation or deletion of a service account by leased workers. The step relation keeps a history of the
    works on the cluster, so that what a job did can be stated; the subject it removes is related
    to the subject the resolver of \<^verbatim>\<open>Rbac_Inventory\<close> matches.
  \<^item> \<^verbatim>\<open>Sbom_Queue\<close>: agent/internal/sbom/queue.go. The work queue with its workers, retries and
    reconciliation, every critical section a step.
  \<^item> \<^verbatim>\<open>Version_Comparator\<close>: core/pkg/cve/matcher/version_comparator.go. The decision whether an installed
    version meets the constraint of a vulnerability; the locale \<open>constraint_parts\<close> states what its
    three loops share.
  \<^item> \<^verbatim>\<open>Resource_Identity\<close>: core/pkg/resourceidentity. Identities of a cluster and a UID and their key.
  \<^item> \<^verbatim>\<open>Investigation_State\<close>, \<^verbatim>\<open>Investigation\<close>, \<^verbatim>\<open>Investigation_Access\<close>: core/pkg/investigation,
    core/internal/api/investigation_handlers.go and investigation_findings.go. The life cycle of a
    case, its handlers with timeline and governance rows, and what they keep; \<open>cases\<close> interprets
    \<open>step_history\<close>.
  \<^item> \<^verbatim>\<open>Evidence_Mask\<close>: core/pkg/evidence/mask.go. Redaction of JSON documents before they are stored.
  \<^item> \<^verbatim>\<open>Pod_Insight\<close>: core/pkg/riskengine/insight_manager_identity.go. The write of a finding on a pod, over
    \<^verbatim>\<open>Resource_Identity\<close> and \<^verbatim>\<open>Evidence_Mask\<close>, with concurrent inserts; \<open>findings\<close> interprets
    \<open>step_history\<close>.
  \<^item> \<^verbatim>\<open>Capability_Rules\<close>, \<^verbatim>\<open>Capability_State\<close>, \<^verbatim>\<open>Capability_Lifecycle\<close>: core/pkg/capability. The rules that
    find the capabilities of a pod, over \<^verbatim>\<open>Rbac_Analyzer\<close>; the rows, promotions and attack steps that
    follow, with the findings of \<^verbatim>\<open>Pod_Insight\<close>; and what evaluations and promotions keep
    (\<open>capabilities\<close> interprets \<open>step_history\<close>).
  \<^item> \<^verbatim>\<open>Go_Float\<close>: floating-point numbers as rationals behind a rounding that is a parameter, with the functions
    of package math the code calls.
  \<^item> \<^verbatim>\<open>Attack_Graph\<close>: core/pkg/graph/attack_graph_engine.go. The bounded search for attack paths in a graph, the
    strength of a path, and the selection of the best paths of each class.
  \<^item> \<^verbatim>\<open>Attack_Path\<close>, \<^verbatim>\<open>Attack_Path_Builder\<close>, \<^verbatim>\<open>Attack_Path_Store\<close>: core/pkg/graph/types.go, path_key.go,
    relational_path_builder.go and relational_path_identity.go. The identifiers of paths; the snapshot of a
    cluster, the graph of a pod and its conversion to paths; the rows that are stored, with hysteresis, and the
    builds of one pod and of all pods. The roles on a path are those \<^verbatim>\<open>Rbac_Analyzer\<close> classifies, the capabilities
    those of \<^verbatim>\<open>Capability_State\<close>.
  \<^item> \<^verbatim>\<open>Attack_Path_Escape\<close>, \<^verbatim>\<open>Attack_Path_Rows\<close>, \<^verbatim>\<open>Attack_Path_Tenants\<close>: what reported paths show, what a rebuild
    leaves in the table, and what builds of several clusters keep (\<open>path_builds\<close> interprets \<open>step_invariant\<close>).
  \<^item> \<^verbatim>\<open>Attack_Chain\<close>, \<^verbatim>\<open>Attack_Chain_Caps\<close>, \<^verbatim>\<open>Attack_Chain_Report\<close>, \<^verbatim>\<open>Attack_Chain_Limit\<close>: core/pkg/graph/chain_detection.go,
    exploit_realism.go, technique_registry.go, capability_validation.go and the summary by objective of
    relational_path_builder.go. Pairs of paths joined into chains by rules and capabilities, their scores and
    steps, merging, primary chains and limits.
  \<^item> \<^verbatim>\<open>Go_Url\<close>, \<^verbatim>\<open>Purl\<close>: core/pkg/cve/matcher/purl_parser.go, over percent-decoding as in net/url. The package
    URL of a component and the source package of a distribution package.
  \<^item> \<^verbatim>\<open>Osv_Advisory\<close>: core/pkg/cve/cvss/cvss.go, core/pkg/cve/loader/osv_parser.go and the conversion of
    advisory_catalog.go. An OSV document is decoded from its text and turned into the advisory that is stored.
  \<^item> \<^verbatim>\<open>Vuln_Catalog\<close>, \<^verbatim>\<open>Catalog_Source\<close>, \<^verbatim>\<open>Catalog_Load\<close>, \<^verbatim>\<open>Catalog_Runs\<close>, \<^verbatim>\<open>Catalog_Mirror\<close>: core/pkg/cve/loader. The
    versioned tables of the catalog; the checks of a source before it is loaded; the full and the incremental load,
    the generations and the tracker of source files; what readers see through loads, failures, rollbacks and
    prunings (\<open>loads\<close> and \<open>quiet\<close> interpret \<open>step_invariant\<close>); and the catalog after a full load as a copy of its source.
  \<^item> \<^verbatim>\<open>Catalog_Query\<close>: core/pkg/cve/database and core/pkg/cve/loader/vuln_ids.go. The candidates of packages, their
    identifiers and severities, and the cache; the locale \<open>answering\<close> states what a client of the manager relies on, and
    \<open>manager\<close> interprets it.
  \<^item> \<^verbatim>\<open>Cve_Components\<close>, \<^verbatim>\<open>Cve_Matcher\<close>, \<^verbatim>\<open>Cve_Match_Run\<close>: core/pkg/cve/matcher. The components of an SBOM, their
    resolution and grouping, the passes over the answers of the manager with merging, caps and malicious packages; and
    what a run reports, over \<^verbatim>\<open>Version_Comparator\<close>, \<^verbatim>\<open>Purl\<close> and \<open>answering\<close>.

  \<^bold>\<open>How state and operations correspond to the code\<close>

  A struct is a record with prefixed field names, an operation keeps its Go name, and its result is a
  sum with the error on the left where the code returns an error. Statements that the code has in a
  loop body or in one critical section are a definition of their own, named for what they do, and
  composed as the code composes them. A database is a record of tables or of query results; a query
  that may fail is a result. Where goroutines or processes interleave (\<^verbatim>\<open>Falco_Outbox\<close>,
  \<^verbatim>\<open>Mutations\<close>, \<^verbatim>\<open>Sbom_Queue\<close>, \<^verbatim>\<open>Catalog_Runs\<close>) the operations are the rules of an inductive step relation, and the
  properties are about every reachable state.

  \<^bold>\<open>What the lemmas show\<close>

  Fail-closed authorization: a malformed scope, an unknown role, a missing credential or an
  unavailable registry never widens access; the point check and the list used in queries describe
  the same clusters; a request on a pod goes on only with one resolved owner inside the scope; a
  gRPC message reaches its handler only with a live credential and only for the pods of its
  cluster. RBAC analysis: exact characterisations of risk, capabilities and effective rules.
  Delivery: no event is lost or duplicated, batches are isolated within 2n-1 requests; a flush of the
  outbox keeps in memory and file every event Core has not accepted and reports what failed, and the
  outbox stays valid, within its size and loadable through crashes. Mutations: every step of the checked plan of a
  succeeded job was carried out on the cluster, in order, and a step writes only what the preview has seen.
  Queue: a pod is held once, within the bounds. Versions: in the Debian, RPM and Alpine ecosystems a list of
  bounds is decided as their conjunction. Investigations: history is kept, changes are authorized and
  follow the life cycle, listings and statistics are those of one query up to their caps.
  Findings: one row per key, exact merges, atomic batches, no stored secret. Capabilities: a stored
  evaluation is what the pod exhibits, whatever other writers do before and after its writes, a stale one is discarded, states only advance and promotions are
  justified by a rule. Attack paths: every reported path is a simple walk of feasible edges to a target, the
  selection is bounded and, where the beam is wide enough, misses nothing stronger; roles on a path are
  granted; paths depend on their own cluster only; a rebuild stores exactly the current paths. Attack chains: a
  chain joins two paths by a capability, no stronger chain is lost, the report is bounded. Package URLs: parsing
  gives back every field that was printed. Advisories: the stored intervals are those of the OSV evaluation rule. Catalog: readers keep the
  generation they have until another is activated, a failed load is undone, a successful full load leaves exactly the
  advisories of its source. Queries: from the events of an advisory to the verdict of the comparator the OSV rule is kept,
  and an answer holds exactly the stored ranges of the packages, each under every identifier of its advisory. Matching: every
  finding has a stored range as its reason, which applies to a component (or, for the Go standard library, to the Go version) as
  far as its matcher checks it, no answered vulnerability is lost below the cap, the cap holds and keeps the most severe, the loop with its
  pointers is a grouping, and a finding has the best rating of its ranges and lists each of
  its advisories once. Some lemmas record behaviour that differs from what the code or its comments
  intend: the name of a role masks its rules, a denial names the owner it should hide, successful
  claims count as attempts, a reconciliation with a full channel loses pods, Alpine versions with a
  suffix are compared as text, escapes to a node are reported in kube-system only, the row of a path that is gone is
  never deleted while rebuilds are frequent, the choice among paths of equal strength follows the order of
  a map, the rules of roles and the escapes of pods are lost before chains are composed, the limit on chains can cut
  the primary one, the list of linked findings tells foreign findings from missing ones, cases beyond the scan cap of a listing are not announced,
  two introductions of a vulnerability in a row leave the first open for good, the files of a failed load are not read
  again, an incremental load asks for the required advisories among the changed files only,
  keys of the cache collide, malware is marked by the packages of one query, an unreadable catalog counts as an empty one,
  and a mount of the root of a node has no static risk.

  \<^bold>\<open>Parameters, bounds and fuel\<close>

  Code outside the repository is an argument: SHA-256, RFC 3339 instants, the JSON encoder where only
  its digest or size matters, file operations, the HTTP transport, the database and the Kubernetes
  API, the version libraries, floating-point arithmetic (rounding and the functions of math), the iteration
  order of Go maps and the order in which goroutines finish, SHA-1, which statements of a load fail, and the rows that concurrent writers insert between
  two statements. Hypotheses about them are written in the theorems, such as the length of
  a SHA-256 digest. All recursions terminate by structure or by a measure (the trimming loops and the
  JSON parser by the length of the text, the bisection by the length of the batch); no fuel is used.
  Integers are unbounded where the code counts small things (rows, retries, requests) and 64-bit
  words for the counters of the outbox; times are integers in nanoseconds.

  \<^bold>\<open>Not modelled\<close>

  Logging, metrics and tracing, the HTTP routing and the REST handlers, the SQL text of queries,
  migrations, the dashboard, the extractors of SBOMs, the readers of runtime sensors, and the
  background loops that only call an operation on a ticker. Of the graph package the time-limited cache of
  built paths, the summaries for the dashboard, the stories and the MITRE annotations. Of the matcher the curated malware feeds. The scores of resources,
  redaction of responses, rate limiters, the policy engine and scope matcher, and the collection protocol.
\<close>

end
